(* ===== verification/Prelude.thy ===== *)
theory Prelude
  imports Main "HOL-Library.Word" "HOL-Library.AList"
begin

unbundle bit_operations_syntax

text \<open>
  The shared vocabulary of the development: machine integers at the widths the C++ code
  uses, the result type for operations that can stop the process, association lists for
  \<^verbatim>\<open>absl::flat_hash_map\<close>, and little-endian byte images of words.

  A failed \<^verbatim>\<open>DCHECK\<close>, a failed \<^verbatim>\<open>CHECK\<close>, a missing key in \<^verbatim>\<open>at()\<close> and a null pointer
  access are values of \<open>fault\<close>. A theorem whose conclusion is an \<open>Inr\<close> says that none
  of them happens, so that a build with and a build without \<^verbatim>\<open>DCHECK\<close> compute the same.
  \<open>Blocked\<close> is the value of a call that waits for another thread and has not returned.
\<close>

named_theorems res_simps \<open>inversion of successful results\<close>

type_synonym u8 = "8 word"
type_synonym u16 = "16 word"
type_synonym u32 = "32 word"
type_synonym u64 = "64 word"
type_synonym byte = "8 word"

section \<open>Results of operations that can stop the process\<close>

datatype fault = DcheckFailed | CheckFailed | MissingKey | NullDeref | OutOfBounds | Blocked

type_synonym 'a res = "fault + 'a"

definition rbind :: "'a res \<Rightarrow> ('a \<Rightarrow> 'b res) \<Rightarrow> 'b res" where
  "rbind m f = (case m of Inl e \<Rightarrow> Inl e | Inr x \<Rightarrow> f x)"

definition dcheck :: "bool \<Rightarrow> 'a res \<Rightarrow> 'a res" where
  "dcheck c r = (if c then r else Inl DcheckFailed)"

definition check :: "bool \<Rightarrow> 'a res \<Rightarrow> 'a res" where
  "check c r = (if c then r else Inl CheckFailed)"

lemma rbind_simps [simp]:
  "rbind (Inr x) f = f x"
  "rbind (Inl e) f = Inl e"
  by (simp_all add: rbind_def)

lemma dcheck_simps [simp]:
  "dcheck True r = r"
  "dcheck False r = Inl DcheckFailed"
  by (simp_all add: dcheck_def)

lemma check_simps [simp]:
  "check True r = r"
  "check False r = Inl CheckFailed"
  by (simp_all add: check_def)

lemma rbind_eq_Inr [res_simps]: "rbind m f = Inr y \<longleftrightarrow> (\<exists>x. m = Inr x \<and> f x = Inr y)"
  by (cases m) simp_all

lemma dcheck_eq_Inr [res_simps]: "dcheck c r = Inr y \<longleftrightarrow> c \<and> r = Inr y"
  by (simp add: dcheck_def)

lemma check_eq_Inr [res_simps]: "check c r = Inr y \<longleftrightarrow> c \<and> r = Inr y"
  by (simp add: check_def)

lemma rbind_assoc: "rbind (rbind m f) g = rbind m (\<lambda>x. rbind (f x) g)"
  by (cases m) simp_all

lemma rbind_cong [fundef_cong]:
  "m = m' \<Longrightarrow> (\<And>x. m' = Inr x \<Longrightarrow> f x = f' x) \<Longrightarrow> rbind m f = rbind m' f'"
  by (cases m') simp_all

text \<open>\<^verbatim>\<open>std::vector::operator[]\<close> and \<^verbatim>\<open>flat_hash_map::at\<close>.\<close>

definition vec_at :: "'a list \<Rightarrow> nat \<Rightarrow> 'a res" where
  "vec_at xs i = (if i < length xs then Inr (xs ! i) else Inl OutOfBounds)"

definition map_at :: "('k \<times> 'v) list \<Rightarrow> 'k \<Rightarrow> 'v res" where
  "map_at m k = (case map_of m k of None \<Rightarrow> Inl MissingKey | Some v \<Rightarrow> Inr v)"

definition deref :: "'a option \<Rightarrow> 'a res" where
  "deref p = (case p of None \<Rightarrow> Inl NullDeref | Some x \<Rightarrow> Inr x)"

lemma vec_at_eq_Inr [res_simps]: "vec_at xs i = Inr x \<longleftrightarrow> i < length xs \<and> x = xs ! i"
  by (auto simp: vec_at_def)

lemma map_at_eq_Inr [res_simps]: "map_at m k = Inr v \<longleftrightarrow> map_of m k = Some v"
  by (auto simp: map_at_def split: option.splits)

lemma deref_eq_Inr [res_simps]: "deref p = Inr x \<longleftrightarrow> p = Some x"
  by (auto simp: deref_def split: option.splits)

lemma vec_at_in [simp]: "i < length xs \<Longrightarrow> vec_at xs i = Inr (xs ! i)"
  by (simp add: vec_at_def)

lemma map_at_Some [simp]: "map_of m k = Some v \<Longrightarrow> map_at m k = Inr v"
  by (simp add: map_at_def)

lemma map_at_None [simp]: "map_of m k = None \<Longrightarrow> map_at m k = Inl MissingKey"
  by (simp add: map_at_def)

lemma deref_simps [simp]: "deref (Some x) = Inr x" "deref None = Inl NullDeref"
  by (simp_all add: deref_def)

section \<open>Words as natural numbers\<close>

lemma unat_u8_less: "unat (w :: u8) < 256"
  using unsigned_less [of w, where ?'a = nat] by simp

lemma unat_u16_less: "unat (w :: u16) < 65536"
  using unsigned_less [of w, where ?'a = nat] by simp

lemma unat_u32_less: "unat (w :: u32) < 4294967296"
  using unsigned_less [of w, where ?'a = nat] by simp

lemma unat_u64_less: "unat (w :: u64) < 18446744073709551616"
  using unsigned_less [of w, where ?'a = nat] by simp

lemma unat_inject [simp]: "unat v = unat w \<longleftrightarrow> v = w"
  by (simp add: word_unat_eq_iff)

lemma inj_unat_image [simp]: "unat i \<in> unat ` A \<longleftrightarrow> i \<in> A"
  by auto

lemma unat_ucast_mod:
  "unat (ucast (w :: 'a::len word) :: 'b::len word) = unat w mod 2 ^ LENGTH('b)"
  by (simp add: unsigned_ucast_eq take_bit_eq_mod)

lemma unat_ucast_32_64 [simp]: "unat (ucast (w :: u32) :: u64) = unat w"
  using unat_u32_less [of w] by (simp add: unat_ucast_mod)

lemma unat_of_nat_u32 [simp]: "n < 4294967296 \<Longrightarrow> unat (of_nat n :: u32) = n"
  by (simp add: unat_of_nat)

lemma unat_of_nat_u64 [simp]: "n < 18446744073709551616 \<Longrightarrow> unat (of_nat n :: u64) = n"
  by (simp add: unat_of_nat)

section \<open>Hash maps as association lists\<close>

text \<open>
  A \<^verbatim>\<open>flat_hash_map\<close> is an association list with distinct keys; the list order is the
  iteration order, which the library leaves unspecified.
\<close>

type_synonym ('k, 'v) hash_map = "('k \<times> 'v) list"

definition wf_map :: "('k, 'v) hash_map \<Rightarrow> bool" where
  "wf_map m \<longleftrightarrow> distinct (map fst m)"

lemma wf_map_Nil [simp]: "wf_map []"
  by (simp add: wf_map_def)

lemma wf_map_update [simp]: "wf_map m \<Longrightarrow> wf_map (AList.update k v m)"
  by (simp add: wf_map_def distinct_update)

lemma wf_map_delete [simp]: "wf_map m \<Longrightarrow> wf_map (AList.delete k m)"
  by (simp add: wf_map_def distinct_delete)

lemma hash_map_update [simp]:
  "map_of (AList.update k v m) k' = (if k' = k then Some v else map_of m k')"
  by (auto simp: update_conv')

lemma hash_map_delete [simp]:
  "map_of (AList.delete k m) k' = (if k' = k then None else map_of m k')"
  by (auto simp: delete_conv')

lemma wf_map_in_set: "wf_map m \<Longrightarrow> (k, v) \<in> set m \<longleftrightarrow> map_of m k = Some v"
  by (auto simp: wf_map_def)

lemma set_update_fresh: "map_of m k = None \<Longrightarrow> AList.update k v m = m @ [(k, v)]"
  by (induction m) (auto split: if_splits)

lemma length_update_fresh: "map_of m k = None \<Longrightarrow> length (AList.update k v m) = Suc (length m)"
  by (simp add: set_update_fresh)

lemma takeWhile_not_in: "c \<notin> set s \<Longrightarrow> takeWhile (\<lambda>x. x \<noteq> c) s = s"
  by (induction s) auto

lemma fold_invariant: "(\<And>x s. x \<in> set xs \<Longrightarrow> P s \<Longrightarrow> P (f x s)) \<Longrightarrow> P s \<Longrightarrow> P (fold f xs s)"
  by (induction xs arbitrary: s) auto

section \<open>Little-endian byte images\<close>

fun to_le :: "nat \<Rightarrow> 'a::len word \<Rightarrow> byte list" where
  "to_le 0 w = []"
| "to_le (Suc n) w = ucast w # to_le n (drop_bit 8 w)"

fun of_le :: "byte list \<Rightarrow> 'a::len word" where
  "of_le [] = 0"
| "of_le (b # bs) = ucast b OR push_bit 8 (of_le bs)"

lemma length_to_le [simp]: "length (to_le n w) = n"
  by (induction n arbitrary: w) simp_all

lemma of_le_to_le: "of_le (to_le n w) = take_bit (8 * n) (w :: 'a::len word)"
proof (induction n arbitrary: w)
  case 0
  show ?case by simp
next
  case (Suc n)
  have "ucast (ucast w :: byte) OR push_bit 8 (take_bit (8 * n) (drop_bit 8 w)) =
      take_bit (8 + 8 * n) w"
    by (rule bit_word_eqI) (auto simp: bit_simps)
  with Suc show ?case by simp
qed

lemma of_le_to_le_full [simp]:
  "LENGTH('a) \<le> 8 * n \<Longrightarrow> of_le (to_le n w) = (w :: 'a::len word)"
  by (simp add: of_le_to_le take_bit_word_eq_self)

lemma to_le_of_le [simp]:
  "8 * length bs \<le> LENGTH('a) \<Longrightarrow> to_le (length bs) (of_le bs :: 'a::len word) = bs"
proof (induction bs)
  case Nil
  show ?case by simp
next
  case (Cons b bs)
  let ?w = "of_le bs :: 'a word"
  have hd: "ucast (ucast b OR push_bit 8 ?w) = b"
    using Cons.prems by (intro bit_word_eqI) (auto simp: bit_simps)
  have mask: "of_le bs = (take_bit (8 * length bs) (of_le bs :: 'a word))"
    using Cons.IH Cons.prems of_le_to_le [of "length bs" ?w] by simp
  have tl: "drop_bit 8 (ucast b OR push_bit 8 ?w) = ?w"
    using Cons.prems
    by (subst (1 2) mask, intro bit_word_eqI) (auto simp: bit_simps dest: bit_imp_le_length)
  show ?case using Cons hd tl by simp
qed

end
