(* ===== verification/IpAddr.thy ===== *)
theory IpAddr
  imports Prelude
begin

text \<open>
  \<^verbatim>\<open>util/ipaddr.{h,cc}\<close>: IPv4 and IPv6 addresses, their classification and their text form.

  An \<^verbatim>\<open>in_addr\<close> is its \<^verbatim>\<open>s_addr\<close> word, an \<^verbatim>\<open>in6_addr\<close> the 128-bit word whose byte \<open>i\<close> is
  \<^verbatim>\<open>s6_addr[i]\<close>; both are the memory image in network order read little-endian, as on the
  hosts the library supports. The C library's conversions between addresses and text and
  its resolver are not part of the repository: they are the fields of the record
  \<open>inet_lib\<close>, and \<open>inet_ok\<close> states what POSIX promises of the conversions.
\<close>

section \<open>Byte order\<close>

definition ntohl :: "u32 \<Rightarrow> u32" where
  "ntohl w = of_le (rev (to_le 4 w))"

definition ntohs :: "u16 \<Rightarrow> u16" where
  "ntohs w = of_le (rev (to_le 2 w))"

definition htons :: "u16 \<Rightarrow> u16" where
  "htons w = of_le (rev (to_le 2 w))"

lemma rev_le_rev_le:
  assumes "8 * n = LENGTH('a)"
  shows "of_le (rev (to_le n (of_le (rev (to_le n w)) :: 'a::len word))) = (w :: 'a word)"
proof -
  have "to_le n (of_le (rev (to_le n w)) :: 'a word) = rev (to_le n w)"
    using to_le_of_le [of "rev (to_le n w)", where ?'a = 'a] assms by simp
  then show ?thesis using assms by simp
qed

lemma ntohs_htons [simp]: "ntohs (htons p) = p"
  by (simp add: ntohs_def htons_def rev_le_rev_le)

section \<open>Addresses\<close>

type_synonym ipv4_t = u32
type_synonym ipv6_t = "128 word"

datatype IpAddr = IPv4 (IPv4Addr: ipv4_t) | IPv6 (IPv6Addr: ipv6_t)

definition IpAddr_default :: IpAddr where "IpAddr_default = IPv4 0"

definition AF_INET :: int where "AF_INET = 2"
definition AF_INET6 :: int where "AF_INET6 = 10"
definition AF_UNSPEC :: int where "AF_UNSPEC = 0"

lemma AF_distinct [simp]:
  "AF_INET \<noteq> AF_INET6" "AF_INET6 \<noteq> AF_INET" "AF_UNSPEC \<noteq> AF_INET" "AF_UNSPEC \<noteq> AF_INET6"
  by (simp_all add: AF_INET_def AF_INET6_def AF_UNSPEC_def)

definition IsIPv4 :: "IpAddr \<Rightarrow> bool" where
  "IsIPv4 a \<longleftrightarrow> (case a of IPv4 _ \<Rightarrow> True | IPv6 _ \<Rightarrow> False)"

definition IsIPv6 :: "IpAddr \<Rightarrow> bool" where
  "IsIPv6 a \<longleftrightarrow> (case a of IPv4 _ \<Rightarrow> False | IPv6 _ \<Rightarrow> True)"

lemma IsIP_simps [simp]: "IsIPv4 (IPv4 w)" "\<not> IsIPv4 (IPv6 v)" "IsIPv6 (IPv6 v)" "\<not> IsIPv6 (IPv4 w)"
  by (simp_all add: IsIPv4_def IsIPv6_def)

definition AddressFamily :: "IpAddr \<Rightarrow> int" where
  "AddressFamily a = (if IsIPv4 a then AF_INET else AF_INET6)"

text \<open>The access macros of \<^verbatim>\<open>netinet/in.h\<close>.\<close>

definition s6_addr :: "ipv6_t \<Rightarrow> nat \<Rightarrow> byte" where
  "s6_addr a i = ucast (drop_bit (8 * i) a)"

definition s6_addr32 :: "ipv6_t \<Rightarrow> nat \<Rightarrow> u32" where
  "s6_addr32 a i = ucast (drop_bit (32 * i) a)"

definition IN6_IS_ADDR_UNSPECIFIED :: "ipv6_t \<Rightarrow> bool" where
  "IN6_IS_ADDR_UNSPECIFIED a \<longleftrightarrow>
     s6_addr32 a 0 = 0 \<and> s6_addr32 a 1 = 0 \<and> s6_addr32 a 2 = 0 \<and> s6_addr32 a 3 = 0"

definition IN6_IS_ADDR_LOOPBACK :: "ipv6_t \<Rightarrow> bool" where
  "IN6_IS_ADDR_LOOPBACK a \<longleftrightarrow>
     s6_addr32 a 0 = 0 \<and> s6_addr32 a 1 = 0 \<and> s6_addr32 a 2 = 0 \<and> s6_addr32 a 3 = ntohl 1"

definition IN6_IS_ADDR_MULTICAST :: "ipv6_t \<Rightarrow> bool" where
  "IN6_IS_ADDR_MULTICAST a \<longleftrightarrow> s6_addr a 0 = 0xff"

definition IN6_IS_ADDR_LINKLOCAL :: "ipv6_t \<Rightarrow> bool" where
  "IN6_IS_ADDR_LINKLOCAL a \<longleftrightarrow> (s6_addr32 a 0 AND ntohl 0xffc00000) = ntohl 0xfe800000"

definition IN6_IS_ADDR_SITELOCAL :: "ipv6_t \<Rightarrow> bool" where
  "IN6_IS_ADDR_SITELOCAL a \<longleftrightarrow> (s6_addr32 a 0 AND ntohl 0xffc00000) = ntohl 0xfec00000"

definition IN6_IS_ADDR_V4MAPPED :: "ipv6_t \<Rightarrow> bool" where
  "IN6_IS_ADDR_V4MAPPED a \<longleftrightarrow>
     s6_addr32 a 0 = 0 \<and> s6_addr32 a 1 = 0 \<and> s6_addr32 a 2 = ntohl 0xffff"

section \<open>Classification\<close>

definition IsIpv4Routable :: "ipv4_t \<Rightarrow> bool" where
  "IsIpv4Routable s_addr = (let a = ntohl s_addr in
     if a = 0 then False
     else if drop_bit 28 a = 0xE then False
     else if drop_bit 16 a = 0xA9FE then False
     else True)"

definition IsIpv6Routable :: "ipv6_t \<Rightarrow> bool" where
  "IsIpv6Routable a =
     (if IN6_IS_ADDR_UNSPECIFIED a then False
      else if IN6_IS_ADDR_MULTICAST a then False
      else if IN6_IS_ADDR_LINKLOCAL a then False
      else if IN6_IS_ADDR_SITELOCAL a then False
      else True)"

definition IsRoutable :: "IpAddr \<Rightarrow> bool" where
  "IsRoutable a = (case a of IPv4 w \<Rightarrow> IsIpv4Routable w | IPv6 v \<Rightarrow> IsIpv6Routable v)"

definition IsZero :: "IpAddr \<Rightarrow> bool" where
  "IsZero a = (case a of IPv4 w \<Rightarrow> w = 0 | IPv6 v \<Rightarrow> IN6_IS_ADDR_UNSPECIFIED v)"

definition IsLoopback :: "IpAddr \<Rightarrow> bool" where
  "IsLoopback a = (case a of
     IPv4 w \<Rightarrow> drop_bit 24 (ntohl w) = 0x7F
   | IPv6 v \<Rightarrow>
       if IN6_IS_ADDR_LOOPBACK v then True
       else if IN6_IS_ADDR_V4MAPPED v then s6_addr v 12 = 0x7F
       else False)"

definition RawAddrAndLen :: "IpAddr \<Rightarrow> byte list \<times> nat" where
  "RawAddrAndLen a = (case a of IPv4 w \<Rightarrow> (to_le 4 w, 4) | IPv6 v \<Rightarrow> (to_le 16 v, 16))"

definition IpAddr_eq :: "IpAddr \<Rightarrow> IpAddr \<Rightarrow> bool" where
  "IpAddr_eq a b =
     (if IsIPv4 a \<and> IsIPv4 b then IPv4Addr a = IPv4Addr b
      else if IsIPv6 a \<and> IsIPv6 b then to_le 16 (IPv6Addr a) = to_le 16 (IPv6Addr b)
      else False)"

lemma to_le_inject: "LENGTH('a) \<le> 8 * n \<Longrightarrow> to_le n v = to_le n (w :: 'a::len word) \<longleftrightarrow> v = w"
  by (metis of_le_to_le_full)

lemma IpAddr_eq_iff [simp]: "IpAddr_eq a b \<longleftrightarrow> a = b"
  by (cases a; cases b) (simp_all add: IpAddr_eq_def to_le_inject)

section \<open>Text form\<close>

text \<open>
  \<^verbatim>\<open>inet_pton\<close> reads a C string, so the argument ends at the first NUL. A result
  \<open>None\<close> stands for a return value other than 1, or a null pointer from \<^verbatim>\<open>inet_ntop\<close>.
\<close>

datatype sockaddr =
  sockaddr_in (sin_port: u16) (sin_addr: ipv4_t)
| sockaddr_in6 (sin6_port: u16) (sin6_addr: ipv6_t)
| sockaddr_other (other_family: u16)

primrec sa_family :: "sockaddr \<Rightarrow> int" where
  "sa_family (sockaddr_in p a) = AF_INET"
| "sa_family (sockaddr_in6 p a) = AF_INET6"
| "sa_family (sockaddr_other f) = uint f"

record addrinfo =
  ai_family :: int
  ai_addr :: "sockaddr option"

record inet_lib =
  inet_pton4 :: "string \<Rightarrow> ipv4_t option"
  inet_pton6 :: "string \<Rightarrow> ipv6_t option"
  inet_ntop4 :: "ipv4_t \<Rightarrow> string option"
  inet_ntop6 :: "ipv6_t \<Rightarrow> string option"
  getaddrinfo :: "bool \<Rightarrow> int \<Rightarrow> string \<Rightarrow> int \<times> addrinfo list"

definition c_str :: "string \<Rightarrow> string" where
  "c_str s = takeWhile (\<lambda>c. c \<noteq> CHR 0x00) s"

definition ParseIPv4Addr :: "'a inet_lib_scheme \<Rightarrow> string \<Rightarrow> ipv4_t option" where
  "ParseIPv4Addr L ip = inet_pton4 L (c_str ip)"

definition ParseIPv6Addr :: "'a inet_lib_scheme \<Rightarrow> string \<Rightarrow> ipv6_t option" where
  "ParseIPv6Addr L ip = inet_pton6 L (c_str ip)"

definition ToIPv4String :: "'a inet_lib_scheme \<Rightarrow> ipv4_t \<Rightarrow> string" where
  "ToIPv4String L a = (case inet_ntop4 L a of Some s \<Rightarrow> s | None \<Rightarrow> ''invalid_ipv4_addr'')"

definition ToIPv6String :: "'a inet_lib_scheme \<Rightarrow> ipv6_t \<Rightarrow> string" where
  "ToIPv6String L a = (case inet_ntop6 L a of Some s \<Rightarrow> s | None \<Rightarrow> ''invalid_ipv6_addr'')"

definition IpAddr_Create :: "'a inet_lib_scheme \<Rightarrow> string \<Rightarrow> IpAddr option" where
  "IpAddr_Create L ip =
     (if CHR '':'' \<in> set ip then
        (case ParseIPv6Addr L ip of Some v6 \<Rightarrow> Some (IPv6 v6) | None \<Rightarrow> None)
      else
        (case ParseIPv4Addr L ip of Some v4 \<Rightarrow> Some (IPv4 v4) | None \<Rightarrow> None))"

definition IpAddr_Create_sa :: "sockaddr \<Rightarrow> IpAddr option" where
  "IpAddr_Create_sa sa = (case sa of
     sockaddr_in p a \<Rightarrow> Some (IPv4 a)
   | sockaddr_in6 p a \<Rightarrow> Some (IPv6 a)
   | sockaddr_other f \<Rightarrow> None)"

definition IpAddr_ToString :: "'a inet_lib_scheme \<Rightarrow> IpAddr \<Rightarrow> string" where
  "IpAddr_ToString L a = (case a of IPv4 w \<Rightarrow> ToIPv4String L w | IPv6 v \<Rightarrow> ToIPv6String L v)"

text \<open>
  \<^verbatim>\<open>getaddrinfo\<close> gets the \<^verbatim>\<open>AI_NUMERICHOST\<close> flag as its first argument and returns the
  error code with the linked list of results, empty for a null pointer.
\<close>

definition EAI_NONAME :: int where "EAI_NONAME = - 2"

fun resolve_first :: "int \<Rightarrow> addrinfo list \<Rightarrow> IpAddr option res" where
  "resolve_first family [] = Inr None"
| "resolve_first family (ai # ais) =
     dcheck (ai_family ai = family)
       (case ai_addr ai of
          None \<Rightarrow> resolve_first family ais
        | Some sa \<Rightarrow> Inr (IpAddr_Create_sa sa))"

definition Resolve :: "'a inet_lib_scheme \<Rightarrow> int \<Rightarrow> string \<Rightarrow> IpAddr option res" where
  "Resolve L family host =
     (if family \<noteq> AF_INET \<and> family \<noteq> AF_INET6 then Inr None
      else
        let r = getaddrinfo L True family (c_str host);
            (ret, ais) = (if fst r = EAI_NONAME then getaddrinfo L False family (c_str host) else r)
        in if ret \<noteq> 0 \<or> ais = [] then Inr None else resolve_first family ais)"

section \<open>What the C library promises\<close>

definition ntop4_chars :: string where "ntop4_chars = ''0123456789.''"
definition ntop6_chars :: string where "ntop6_chars = ''0123456789abcdef:.''"

definition inet_ok :: "'a inet_lib_scheme \<Rightarrow> bool" where
  "inet_ok L \<longleftrightarrow>
     (\<forall>a. \<exists>s. inet_ntop4 L a = Some s \<and> inet_pton4 L s = Some a \<and> set s \<subseteq> set ntop4_chars) \<and>
     (\<forall>a. \<exists>s. inet_ntop6 L a = Some s \<and> inet_pton6 L s = Some a \<and> set s \<subseteq> set ntop6_chars \<and>
        CHR '':'' \<in> set s)"

lemma c_str_id [simp]: "CHR 0x00 \<notin> set s \<Longrightarrow> c_str s = s"
  by (auto simp: c_str_def takeWhile_eq_all_conv)

lemma inet_ok_v4:
  assumes "inet_ok L"
  shows "ParseIPv4Addr L (ToIPv4String L a) = Some a" "set (ToIPv4String L a) \<subseteq> set ntop4_chars"
proof -
  obtain s where s: "inet_ntop4 L a = Some s" "inet_pton4 L s = Some a" "set s \<subseteq> set ntop4_chars"
    using assms unfolding inet_ok_def by blast
  then have "CHR 0x00 \<notin> set s" by (auto simp: ntop4_chars_def)
  with s show "ParseIPv4Addr L (ToIPv4String L a) = Some a"
    "set (ToIPv4String L a) \<subseteq> set ntop4_chars"
    by (simp_all add: ParseIPv4Addr_def ToIPv4String_def)
qed

lemma inet_ok_v6:
  assumes "inet_ok L"
  shows "ParseIPv6Addr L (ToIPv6String L a) = Some a" "set (ToIPv6String L a) \<subseteq> set ntop6_chars"
    "CHR '':'' \<in> set (ToIPv6String L a)"
proof -
  obtain s where s: "inet_ntop6 L a = Some s" "inet_pton6 L s = Some a"
    "set s \<subseteq> set ntop6_chars" "CHR '':'' \<in> set s"
    using assms unfolding inet_ok_def by blast
  then have "CHR 0x00 \<notin> set s" by (auto simp: ntop6_chars_def)
  with s show "ParseIPv6Addr L (ToIPv6String L a) = Some a"
    "set (ToIPv6String L a) \<subseteq> set ntop6_chars" "CHR '':'' \<in> set (ToIPv6String L a)"
    by (simp_all add: ParseIPv6Addr_def ToIPv6String_def)
qed

lemma IpAddr_text_roundtrip: "inet_ok L \<Longrightarrow> IpAddr_Create L (IpAddr_ToString L a) = Some a"
  using inet_ok_v4 [of L "IPv4Addr a"] inet_ok_v6 [of L "IPv6Addr a"]
  by (cases a) (auto simp: IpAddr_Create_def IpAddr_ToString_def ntop4_chars_def)

section \<open>Classification by octets\<close>

text \<open>The dotted-quad octets of an address, in the order they are written.\<close>

definition octet :: "ipv4_t \<Rightarrow> nat \<Rightarrow> nat" where
  "octet w i = unat (to_le 4 w ! i)"

lemma unat_of_le_append1:
  assumes "8 * Suc (length bs) \<le> LENGTH('a)"
  shows "unat (of_le (b # bs) :: 'a::len word) = unat b + 256 * unat (of_le bs :: 'a word)"
proof -
  let ?w = "of_le bs :: 'a word"
  have w: "?w = take_bit (8 * length bs) ?w"
    using to_le_of_le [of bs, where ?'a = 'a] of_le_to_le [of "length bs" ?w] assms by simp
  have "unat ?w < 2 ^ (8 * length bs)"
    by (subst w) (simp add: unsigned_take_bit_eq)
  moreover have "(2 :: nat) ^ (8 * length bs) * 256 = 2 ^ (8 * Suc (length bs))"
    by (simp add: power_add)
  moreover have "(2 :: nat) ^ (8 * Suc (length bs)) \<le> 2 ^ LENGTH('a)"
    using assms by (intro power_increasing) simp_all
  ultimately have lt: "256 * unat ?w + 255 < 2 ^ LENGTH('a)"
    by linarith
  have b: "unat b < 256" by (rule unat_u8_less)
  have len: "8 \<le> LENGTH('a)" using assms by simp
  have "ucast b OR push_bit 8 ?w = ucast b + push_bit 8 ?w"
    by (rule disjunctive_add_eq_or [symmetric])
      (auto simp: bit_eq_iff bit_simps dest: bit_imp_le_length)
  moreover have "unat (ucast b :: 'a word) = unat b"
    using lt b by (simp add: unat_ucast_mod)
  moreover have "unat (push_bit 8 ?w) = 256 * unat ?w"
    using lt by (subst unsigned_push_bit_eq) (simp add: take_bit_eq_mod push_bit_eq_mult)
  ultimately show ?thesis
    using lt b by (simp add: unat_word_ariths)
qed

lemma unat_ntohl:
  "unat (ntohl w) =
     octet w 0 * 16777216 + octet w 1 * 65536 + octet w 2 * 256 + octet w 3"
proof -
  obtain b0 b1 b2 b3 where bs: "to_le 4 w = [b0, b1, b2, b3]"
    by (simp add: eval_nat_numeral)
  show ?thesis
    unfolding ntohl_def octet_def bs
    by (simp add: unat_of_le_append1 del: of_le.simps(2))
qed

lemma octet_less: "i < 4 \<Longrightarrow> octet w i < 256"
  by (simp add: octet_def unat_u8_less)

lemma drop_bit_word_eq_iff:
  "drop_bit n (w :: 'a::len word) = v \<longleftrightarrow> unat w div 2 ^ n = unat v"
proof -
  have "unat (drop_bit n w) = unat w div 2 ^ n"
    by (subst unsigned_drop_bit_eq) (simp add: drop_bit_eq_div take_bit_nat_eq_self)
  then show ?thesis by (metis unat_inject)
qed

lemma octets_zero_iff: "w = 0 \<longleftrightarrow> octet w 0 = 0 \<and> octet w 1 = 0 \<and> octet w 2 = 0 \<and> octet w 3 = 0"
proof -
  have "ntohl (ntohl w) = w" by (simp add: ntohl_def rev_le_rev_le)
  moreover have "ntohl 0 = 0" by (simp add: ntohl_def numeral_eq_Suc)
  ultimately have "w = 0 \<longleftrightarrow> ntohl w = 0" by metis
  also have "\<dots> \<longleftrightarrow> unat (ntohl w) = 0" by (simp add: unat_eq_0)
  finally show ?thesis by (simp add: unat_ntohl)
qed

lemma quad_div:
  fixes b0 b1 b2 b3 :: nat
  assumes "b1 < 256" "b2 < 256" "b3 < 256"
  shows "(b0 * 16777216 + b1 * 65536 + b2 * 256 + b3) div 16777216 = b0"
    "(b0 * 16777216 + b1 * 65536 + b2 * 256 + b3) div 65536 = b0 * 256 + b1"
  using assms by linarith+

lemma drop_ntohl:
  "drop_bit 24 (ntohl w) = v \<longleftrightarrow> octet w 0 = unat v"
  "drop_bit 16 (ntohl w) = v \<longleftrightarrow> octet w 0 * 256 + octet w 1 = unat v"
  "drop_bit 28 (ntohl w) = v \<longleftrightarrow> octet w 0 div 16 = unat v"
proof -
  have b: "octet w 1 < 256" "octet w 2 < 256" "octet w 3 < 256"
    by (simp_all add: octet_less)
  note q = quad_div [OF b, of "octet w 0", folded unat_ntohl]
  show "drop_bit 24 (ntohl w) = v \<longleftrightarrow> octet w 0 = unat v"
    by (simp only: drop_bit_word_eq_iff) (simp add: q)
  show "drop_bit 16 (ntohl w) = v \<longleftrightarrow> octet w 0 * 256 + octet w 1 = unat v"
    by (simp only: drop_bit_word_eq_iff) (simp add: q)
  show "drop_bit 28 (ntohl w) = v \<longleftrightarrow> octet w 0 div 16 = unat v"
    using div_mult2_eq [of "unat (ntohl w)" 16777216 16]
    by (simp only: drop_bit_word_eq_iff) (simp add: q)
qed

lemma link_local_octets:
  "b0 * 256 + b1 = (43518 :: nat) \<longleftrightarrow> b0 = 169 \<and> b1 = 254" if "b1 < 256"
proof
  assume "b0 * 256 + b1 = 43518"
  with that have "b0 = 169" by linarith
  with \<open>b0 * 256 + b1 = 43518\<close> show "b0 = 169 \<and> b1 = 254" by simp
qed simp

text \<open>
  The classification of IPv4 addresses agrees with the address blocks of the RFCs the
  code cites, read from the dotted quad: an address is zero iff it is 0.0.0.0, loopback iff
  it is in 127.0.0.0/8, and routable iff it is neither 0.0.0.0 nor in the multicast block
  224.0.0.0/4 nor in the link-local block 169.254.0.0/16.
\<close>
theorem ipv4_classes:
  "(IsZero (IPv4 w) \<longleftrightarrow> octet w 0 = 0 \<and> octet w 1 = 0 \<and> octet w 2 = 0 \<and> octet w 3 = 0) \<and>
   (IsLoopback (IPv4 w) \<longleftrightarrow> octet w 0 = 127) \<and>
   (IsRoutable (IPv4 w) \<longleftrightarrow> \<not> IsZero (IPv4 w) \<and> octet w 0 div 16 \<noteq> 14 \<and>
      \<not> (octet w 0 = 169 \<and> octet w 1 = 254))"
proof -
  have z: "IsZero (IPv4 w) \<longleftrightarrow> octet w 0 = 0 \<and> octet w 1 = 0 \<and> octet w 2 = 0 \<and> octet w 3 = 0"
    by (simp add: IsZero_def octets_zero_iff)
  have l: "IsLoopback (IPv4 w) \<longleftrightarrow> octet w 0 = 127"
    by (simp add: IsLoopback_def drop_ntohl)
  have nz: "ntohl w = 0 \<longleftrightarrow> IsZero (IPv4 w)"
    unfolding z unat_eq_0 [symmetric] by (simp add: unat_ntohl)
  have r: "IsRoutable (IPv4 w) \<longleftrightarrow> \<not> IsZero (IPv4 w) \<and> octet w 0 div 16 \<noteq> 14 \<and>
      \<not> (octet w 0 = 169 \<and> octet w 1 = 254)"
    unfolding IsRoutable_def IsIpv4Routable_def Let_def IpAddr.case drop_ntohl nz
    using link_local_octets [OF octet_less [of 1 w]] by simp
  from z l r show ?thesis by blast
qed

end
