(* ===== verification/Types.thy ===== *)
theory Types
  imports Prelude
begin

text \<open>
  The vocabulary of the transport's API (\<^verbatim>\<open>api/transport_types.h\<close>) and of its internals
  (\<^verbatim>\<open>internal/base/types.h\<close>): operations, requests, status values and the strong integer
  types, which are words at the width of their representation.
\<close>

type_synonym Handle = u32
type_synonym ReqId = u32
type_synonym chunk_t = u32
type_synonym addr_t = u64

definition kInvalidHandle :: Handle where "kInvalidHandle = 0"
definition kInvalidReqId :: ReqId where "kInvalidReqId = 0"

text \<open>\<^verbatim>\<open>Metadata\<close> is an array of exactly \<open>kMetadataSize\<close> bytes.\<close>

definition kMetadataSize :: nat where "kMetadataSize = 32"

type_synonym Metadata = "byte list"

definition wf_Metadata :: "Metadata \<Rightarrow> bool" where
  "wf_Metadata m \<longleftrightarrow> length m = kMetadataSize"

definition Metadata_zero :: Metadata where
  "Metadata_zero = replicate kMetadataSize 0"

lemma wf_Metadata_zero [simp]: "wf_Metadata Metadata_zero"
  by (simp add: wf_Metadata_def Metadata_zero_def)

datatype Op = kRead | kWrite

primrec Op_value :: "Op \<Rightarrow> u8" where
  "Op_value kRead = 1"
| "Op_value kWrite = 2"

lemma Op_value_inject [simp]: "Op_value a = Op_value b \<longleftrightarrow> a = b"
  by (cases a; cases b) simp_all

datatype TransportType = kAny | kTcp | kRdma

record Request =
  req_op :: Op
  laddr :: addr_t
  raddr :: addr_t
  req_len :: u64
  rkey :: u32
  metadata :: Metadata

definition Request_new :: Request where
  "Request_new = \<lparr>req_op = kWrite, laddr = 0, raddr = 0, req_len = 0, rkey = 0,
    metadata = Metadata_zero\<rparr>"

definition IsValid_Request :: "Request \<Rightarrow> bool" where
  "IsValid_Request r \<longleftrightarrow> laddr r \<noteq> 0 \<and> 1 \<le> req_len r"

definition IsValid_Requests :: "Request list \<Rightarrow> bool" where
  "IsValid_Requests rs \<longleftrightarrow> rs \<noteq> [] \<and> list_all IsValid_Request rs"

datatype Status = kNotFound | kInProgress | kSuccess | kFailure

primrec Status_value :: "Status \<Rightarrow> int" where
  "Status_value kNotFound = 2"
| "Status_value kInProgress = 1"
| "Status_value kSuccess = 0"
| "Status_value kFailure = - 1"

definition IsInProgress :: "Status \<Rightarrow> bool" where
  "IsInProgress s \<longleftrightarrow> s = kInProgress"

definition IsCompleted :: "Status \<Rightarrow> bool" where
  "IsCompleted s \<longleftrightarrow> Status_value s \<le> 0"

lemma IsCompleted_iff: "IsCompleted s \<longleftrightarrow> s = kSuccess \<or> s = kFailure"
  by (cases s) (simp_all add: IsCompleted_def)

text \<open>
  \<^verbatim>\<open>absl::Status\<close>, by its error category; the message text is not modelled.
\<close>

datatype absl_status =
  OkStatus | ErrnoStatus | NotFoundStatus | InvalidArgumentStatus | InternalStatus
| UnavailableStatus | AlreadyExistsStatus | FailedPreconditionStatus | UnimplementedStatus

type_synonym 'a StatusOr = "absl_status + 'a"

primrec Op_ToString :: "Op \<Rightarrow> string" where
  "Op_ToString kRead = ''Read''"
| "Op_ToString kWrite = ''Write''"

primrec Status_ToString :: "Status \<Rightarrow> string" where
  "Status_ToString kNotFound = ''NotFound''"
| "Status_ToString kInProgress = ''InProgress''"
| "Status_ToString kSuccess = ''Success''"
| "Status_ToString kFailure = ''Failure''"

end
