(* ===== verification/Endpoint.thy ===== *)
theory Endpoint
  imports IpAddr Types
begin

text \<open>
  \<^verbatim>\<open>internal/base/endpoint.{h,cc}\<close>, \<^verbatim>\<open>nicinfo.{h,cc}\<close>, \<^verbatim>\<open>hostinfo.{h,cc}\<close> and \<^verbatim>\<open>config.h\<close>:
  the endpoint, network interface and host descriptions that peers exchange, with their text
  forms.

  The Abseil string utilities are fields of \<open>text_lib\<close>; \<open>text_ok\<close> states their documented
  behaviour. \<open>splits\<close>, \<open>splits_max\<close> and \<open>trim\<close> are the reference functions of these laws.
\<close>

section \<open>The string library\<close>

record text_lib = inet_lib +
  SimpleAtoi :: "string \<Rightarrow> int option"
  StrCat_nat :: "nat \<Rightarrow> string"
  StrSplit :: "char \<Rightarrow> string \<Rightarrow> string list"
  StrSplitMax :: "char \<Rightarrow> nat \<Rightarrow> string \<Rightarrow> string list"
  StripAsciiWhitespace :: "string \<Rightarrow> string"
  EqualsIgnoreCase :: "string \<Rightarrow> string \<Rightarrow> bool"

definition is_space :: "char \<Rightarrow> bool" where
  "is_space c \<longleftrightarrow> c = CHR '' '' \<or> (9 \<le> (of_char c :: nat) \<and> (of_char c :: nat) \<le> 13)"

definition trim :: "string \<Rightarrow> string" where
  "trim s = rev (dropWhile is_space (rev (dropWhile is_space s)))"

definition blank :: "string \<Rightarrow> bool" where
  "blank s \<longleftrightarrow> list_all is_space s"

fun splits :: "char \<Rightarrow> string \<Rightarrow> string list" where
  "splits c [] = [[]]"
| "splits c (x # xs) =
     (if x = c then [] # splits c xs
      else (case splits c xs of [] \<Rightarrow> [[x]] | y # ys \<Rightarrow> (x # y) # ys))"

fun splits_max :: "char \<Rightarrow> nat \<Rightarrow> string \<Rightarrow> string list" where
  "splits_max c 0 s = [s]"
| "splits_max c (Suc n) s =
     (case dropWhile (\<lambda>x. x \<noteq> c) s of
        [] \<Rightarrow> [s]
      | _ # rest \<Rightarrow> takeWhile (\<lambda>x. x \<noteq> c) s # splits_max c n rest)"

definition text_ok :: "'a text_lib_scheme \<Rightarrow> bool" where
  "text_ok L \<longleftrightarrow>
     (\<forall>n < 2147483648. SimpleAtoi L (StrCat_nat L n) = Some (int n)) \<and>
     (\<forall>n. StrCat_nat L n \<noteq> [] \<and> set (StrCat_nat L n) \<subseteq> set ''0123456789'') \<and>
     (\<forall>c s. StrSplit L c s = filter (\<lambda>p. \<not> blank p) (splits c s)) \<and>
     (\<forall>c n s. StrSplitMax L c n s = filter (\<lambda>p. \<not> blank p) (splits_max c n s)) \<and>
     (\<forall>s. StripAsciiWhitespace L s = trim s) \<and>
     (\<forall>s t. EqualsIgnoreCase L s s \<and> (EqualsIgnoreCase L s t \<longrightarrow> length s = length t))"

lemma text_okD:
  assumes "text_ok L"
  shows "EqualsIgnoreCase L s s"
    "length s \<noteq> length t \<Longrightarrow> \<not> EqualsIgnoreCase L s t"
    "StripAsciiWhitespace L s = trim s"
    "StrSplit L c s = filter (\<lambda>p. \<not> blank p) (splits c s)"
    "StrSplitMax L c n s = filter (\<lambda>p. \<not> blank p) (splits_max c n s)"
  using assms unfolding text_ok_def by blast+

section \<open>Endpoints\<close>

record Endpoint =
  ep_ip :: IpAddr
  ep_port :: u16

definition Endpoint_default :: Endpoint where
  "Endpoint_default = \<lparr>ep_ip = IpAddr_default, ep_port = 0\<rparr>"

definition HasZeroIpAddr :: "Endpoint \<Rightarrow> bool" where
  "HasZeroIpAddr e \<longleftrightarrow> IsZero (ep_ip e)"

definition HasZeroPort :: "Endpoint \<Rightarrow> bool" where
  "HasZeroPort e \<longleftrightarrow> ep_port e = 0"

definition HasNonzeroIpPort :: "Endpoint \<Rightarrow> bool" where
  "HasNonzeroIpPort e \<longleftrightarrow> ep_port e \<noteq> 0 \<and> \<not> IsZero (ep_ip e)"

definition Endpoint_IPv4Addr :: "Endpoint \<Rightarrow> ipv4_t res" where
  "Endpoint_IPv4Addr e = dcheck (IsIPv4 (ep_ip e)) (Inr (IPv4Addr (ep_ip e)))"

definition Endpoint_IPv6Addr :: "Endpoint \<Rightarrow> ipv6_t res" where
  "Endpoint_IPv6Addr e = dcheck (IsIPv6 (ep_ip e)) (Inr (IPv6Addr (ep_ip e)))"

definition SetPort :: "Endpoint \<Rightarrow> u16 \<Rightarrow> Endpoint" where
  "SetPort e p = e\<lparr>ep_port := p\<rparr>"

definition Endpoint_eq :: "Endpoint \<Rightarrow> Endpoint \<Rightarrow> bool" where
  "Endpoint_eq a b \<longleftrightarrow> ep_port a = ep_port b \<and> IpAddr_eq (ep_ip a) (ep_ip b)"

definition LooksLikeIPv6 :: "string \<Rightarrow> bool" where
  "LooksLikeIPv6 a \<longleftrightarrow> a \<noteq> [] \<and> hd a = CHR ''['' \<and> last a = CHR '']''"

fun rfind :: "char \<Rightarrow> string \<Rightarrow> nat option" where
  "rfind c [] = None"
| "rfind c (x # xs) =
     (case rfind c xs of
        Some i \<Rightarrow> Some (Suc i)
      | None \<Rightarrow> if x = c then Some 0 else None)"

definition Endpoint_Create :: "'a text_lib_scheme \<Rightarrow> string \<Rightarrow> Endpoint" where
  "Endpoint_Create L ipaddr_port = (let empty = Endpoint_default in
     case rfind CHR '':'' ipaddr_port of
       None \<Rightarrow> empty
     | Some pos \<Rightarrow>
         let a = take pos ipaddr_port;
             p = drop (pos + 1) ipaddr_port
         in case SimpleAtoi L p of
              None \<Rightarrow> empty
            | Some port \<Rightarrow>
                if \<not> (0 \<le> port \<and> port \<le> 65535) then empty
                else if LooksLikeIPv6 a then
                  (case ParseIPv6Addr L (take (length a - 2) (drop 1 a)) of
                     None \<Rightarrow> empty
                   | Some ipv6 \<Rightarrow> \<lparr>ep_ip = IPv6 ipv6, ep_port = of_int port\<rparr>)
                else
                  (case ParseIPv4Addr L a of
                     None \<Rightarrow> empty
                   | Some ipv4 \<Rightarrow> \<lparr>ep_ip = IPv4 ipv4, ep_port = of_int port\<rparr>))"

definition Endpoint_Create_ss :: "sockaddr \<Rightarrow> Endpoint" where
  "Endpoint_Create_ss ss = (case ss of
     sockaddr_in p a \<Rightarrow> \<lparr>ep_ip = IPv4 a, ep_port = ntohs p\<rparr>
   | sockaddr_in6 p a \<Rightarrow> \<lparr>ep_ip = IPv6 a, ep_port = ntohs p\<rparr>
   | sockaddr_other f \<Rightarrow> Endpoint_default)"

definition BuildIPv4Sockaddr :: "Endpoint \<Rightarrow> sockaddr res" where
  "BuildIPv4Sockaddr e =
     dcheck (IsIPv4 (ep_ip e))
       (rbind (Endpoint_IPv4Addr e) (\<lambda>a. Inr (sockaddr_in (htons (ep_port e)) a)))"

definition BuildIPv6Sockaddr :: "Endpoint \<Rightarrow> sockaddr res" where
  "BuildIPv6Sockaddr e =
     dcheck (IsIPv6 (ep_ip e))
       (rbind (Endpoint_IPv6Addr e) (\<lambda>a. Inr (sockaddr_in6 (htons (ep_port e)) a)))"

definition Endpoint_ToString :: "'a text_lib_scheme \<Rightarrow> Endpoint \<Rightarrow> string" where
  "Endpoint_ToString L e = (let addr = IpAddr_ToString L (ep_ip e) in
     if IsIPv4 (ep_ip e) then addr @ '':'' @ StrCat_nat L (unat (ep_port e))
     else ''['' @ addr @ '']:'' @ StrCat_nat L (unat (ep_port e)))"

section \<open>Network interfaces\<close>

datatype NicType = kInvalid | kIP | kRDMA

primrec NicType_ToString :: "NicType \<Rightarrow> string" where
  "NicType_ToString kIP = ''ip''"
| "NicType_ToString kRDMA = ''rdma''"
| "NicType_ToString kInvalid = ''invalid''"

definition NicType_FromString :: "'a text_lib_scheme \<Rightarrow> string \<Rightarrow> NicType" where
  "NicType_FromString L s =
     (if EqualsIgnoreCase L s ''ip'' then kIP
      else if EqualsIgnoreCase L s ''rdma'' then kRDMA
      else kInvalid)"

record NicInfo =
  nic_name :: string
  nic_type :: NicType
  endpoints :: "Endpoint list"

definition NicInfo_default :: NicInfo where
  "NicInfo_default = \<lparr>nic_name = '''', nic_type = kInvalid, endpoints = []\<rparr>"

text \<open>The \<^verbatim>\<open>DCHECK\<close> inside the loop of \<^verbatim>\<open>IsValid\<close> cannot fail: the type is not \<open>kInvalid\<close> there.\<close>

definition NicInfo_IsValid :: "NicInfo \<Rightarrow> bool" where
  "NicInfo_IsValid n =
     (if nic_name n = [] then False
      else if nic_type n = kInvalid then False
      else if endpoints n = [] then False
      else list_all (\<lambda>e. HasNonzeroIpPort e \<and> (nic_type n \<noteq> kRDMA \<or> IsIPv6 (ep_ip e)))
             (endpoints n))"

definition kNicInfoSep :: char where "kNicInfoSep = CHR ''/''"
definition kEndpointSep :: char where "kEndpointSep = CHR '',''"

fun StrJoin :: "char \<Rightarrow> string list \<Rightarrow> string" where
  "StrJoin sep [] = []"
| "StrJoin sep [s] = s"
| "StrJoin sep (s # ss) = s @ sep # StrJoin sep ss"

definition NicInfo_ToString :: "'a text_lib_scheme \<Rightarrow> NicInfo \<Rightarrow> string" where
  "NicInfo_ToString L n =
     nic_name n @ [kNicInfoSep] @ NicType_ToString (nic_type n) @ [kNicInfoSep] @
     StrJoin kEndpointSep (map (Endpoint_ToString L) (endpoints n))"

definition NicInfo_Create :: "'a text_lib_scheme \<Rightarrow> string \<Rightarrow> NicInfo" where
  "NicInfo_Create L s = (let invalid = NicInfo_default in
     case StrSplitMax L kNicInfoSep (3 - 1) s of
       [p0, p1, p2] \<Rightarrow>
         let es = map (\<lambda>e. Endpoint_Create L (StripAsciiWhitespace L e))
                    (StrSplit L kEndpointSep p2);
             nic = \<lparr>nic_name = p0, nic_type = NicType_FromString L p1, endpoints = es\<rparr>
         in if NicInfo_IsValid nic then nic else invalid
     | _ \<Rightarrow> invalid)"

fun PickLocalhost :: "int \<Rightarrow> Endpoint list \<Rightarrow> Endpoint option" where
  "PickLocalhost kFamily [] = None"
| "PickLocalhost kFamily (e # es) =
     (if kFamily = AF_INET \<and> \<not> IsIPv4 (ep_ip e) then PickLocalhost kFamily es
      else if kFamily = AF_INET6 \<and> \<not> IsIPv6 (ep_ip e) then PickLocalhost kFamily es
      else if HasNonzeroIpPort e \<and> IsLoopback (ep_ip e) then Some e
      else PickLocalhost kFamily es)"

definition PickIPv4Localhost :: "NicInfo \<Rightarrow> Endpoint option" where
  "PickIPv4Localhost n = PickLocalhost AF_INET (endpoints n)"

definition PickIPv6Localhost :: "NicInfo \<Rightarrow> Endpoint option" where
  "PickIPv6Localhost n = PickLocalhost AF_INET6 (endpoints n)"

section \<open>Hosts\<close>

record HostInfo =
  control_plane_listener :: Endpoint
  data_plane_listeners :: "NicInfo list"

definition HostInfo_default :: HostInfo where
  "HostInfo_default = \<lparr>control_plane_listener = Endpoint_default, data_plane_listeners = []\<rparr>"

text \<open>The size of a hash set of the elements of \<open>xs\<close> is \<open>length (remdups xs)\<close>.\<close>

definition HostInfo_IsDataPlaneValid :: "HostInfo \<Rightarrow> bool" where
  "HostInfo_IsDataPlaneValid h = (let
     control_plane_valid = (\<not> HasZeroIpAddr (control_plane_listener h));
     data_plane_valid =
       (data_plane_listeners h \<noteq> [] \<and> list_all NicInfo_IsValid (data_plane_listeners h));
     num_endpoints = fold (\<lambda>nic n. n + length (endpoints nic)) (data_plane_listeners h) 1;
     es = control_plane_listener h # concat (map endpoints (data_plane_listeners h));
     unique_endpoints = (length (remdups es) = num_endpoints);
     nic_names = map nic_name (data_plane_listeners h);
     unique_nic_names = (length (remdups nic_names) = length (data_plane_listeners h))
   in control_plane_valid \<and> data_plane_valid \<and> unique_endpoints \<and> unique_nic_names)"

definition HostInfo_IsValid :: "HostInfo \<Rightarrow> bool" where
  "HostInfo_IsValid h \<longleftrightarrow>
     HasNonzeroIpPort (control_plane_listener h) \<and> HostInfo_IsDataPlaneValid h"

fun parse_nics :: "'a text_lib_scheme \<Rightarrow> string list \<Rightarrow> NicInfo list option" where
  "parse_nics L [] = Some []"
| "parse_nics L (p # ps) =
     (let nic = NicInfo_Create L (StripAsciiWhitespace L p) in
      if \<not> NicInfo_IsValid nic then None
      else map_option (Cons nic) (parse_nics L ps))"

definition HostInfo_Create :: "'a text_lib_scheme \<Rightarrow> string \<Rightarrow> HostInfo" where
  "HostInfo_Create L s = (let invalid = HostInfo_default in
     case StrSplit L CHR '';'' s of
       [] \<Rightarrow> if HostInfo_IsValid HostInfo_default then HostInfo_default else invalid
     | p # ps \<Rightarrow>
         (case parse_nics L ps of
            None \<Rightarrow> invalid
          | Some nics \<Rightarrow>
              let host = \<lparr>control_plane_listener = Endpoint_Create L (StripAsciiWhitespace L p),
                          data_plane_listeners = nics\<rparr>
              in if HostInfo_IsValid host then host else invalid))"

definition HostInfo_ToString :: "'a text_lib_scheme \<Rightarrow> HostInfo \<Rightarrow> string" where
  "HostInfo_ToString L h =
     fold (\<lambda>nic s. s @ ''; '' @ NicInfo_ToString L nic) (data_plane_listeners h)
       (Endpoint_ToString L (control_plane_listener h))"

record Config =
  transport_type :: TransportType
  num_conns_per_peer :: int
  require_dataplane_encryption :: bool

definition Config_IsValid :: "Config \<Rightarrow> bool" where
  "Config_IsValid c \<longleftrightarrow>
     (transport_type c = kAny \<or> transport_type c = kTcp \<or> transport_type c = kRdma) \<and>
     1 \<le> num_conns_per_peer c \<and> num_conns_per_peer c \<le> 100"

section \<open>Socket addresses\<close>

lemma Endpoint_eq_iff [simp]: "Endpoint_eq a b \<longleftrightarrow> a = b"
  by (auto simp: Endpoint_eq_def)

text \<open>
  An endpoint survives the conversion to the socket address of its family and back,
  port byte order included, and converting it to the other family's form is the only case
  the code refuses.
\<close>
theorem endpoint_sockaddr_roundtrip:
  "map_sum id Endpoint_Create_ss (BuildIPv4Sockaddr e) =
     (if IsIPv4 (ep_ip e) then Inr e else Inl DcheckFailed) \<and>
   map_sum id Endpoint_Create_ss (BuildIPv6Sockaddr e) =
     (if IsIPv6 (ep_ip e) then Inr e else Inl DcheckFailed)"
  by (cases "ep_ip e")
    (auto simp: BuildIPv4Sockaddr_def BuildIPv6Sockaddr_def Endpoint_IPv4Addr_def
      Endpoint_IPv6Addr_def Endpoint_Create_ss_def)

section \<open>Text round trips\<close>

lemma rfind_append_fresh: "c \<notin> set s \<Longrightarrow> rfind c (a @ c # s) = Some (length a)"
proof (induction a)
  case Nil
  have "c \<notin> set s \<Longrightarrow> rfind c s = None" for s
    by (induction s) auto
  with Nil show ?case by simp
qed simp

lemma colon_not_digit [simp]: "CHR '':'' \<notin> set s" if "set s \<subseteq> set ''0123456789''"
  using that by auto

lemma text_ok_port:
  assumes "text_ok L"
  shows "SimpleAtoi L (StrCat_nat L (unat (p :: u16))) = Some (int (unat p))"
    "CHR '':'' \<notin> set (StrCat_nat L n)"
proof -
  have "unat p < 2147483648" using unat_u16_less [of p] by linarith
  then show "SimpleAtoi L (StrCat_nat L (unat p)) = Some (int (unat p))"
    using assms unfolding text_ok_def by blast
  have "set (StrCat_nat L n) \<subseteq> set ''0123456789''"
    using assms unfolding text_ok_def by blast
  then show "CHR '':'' \<notin> set (StrCat_nat L n)" by (rule colon_not_digit)
qed

lemma not_bracketed: "set s \<subseteq> set ntop4_chars \<Longrightarrow> \<not> LooksLikeIPv6 s"
  by (cases s) (auto simp: LooksLikeIPv6_def ntop4_chars_def)

lemma Endpoint_Create_split:
  assumes "text_ok L"
  shows "Endpoint_Create L (a @ CHR '':'' # StrCat_nat L (unat p)) =
    (if LooksLikeIPv6 a then
       (case ParseIPv6Addr L (take (length a - 2) (drop 1 a)) of
          None \<Rightarrow> Endpoint_default | Some v \<Rightarrow> \<lparr>ep_ip = IPv6 v, ep_port = p\<rparr>)
     else
       (case ParseIPv4Addr L a of
          None \<Rightarrow> Endpoint_default | Some v \<Rightarrow> \<lparr>ep_ip = IPv4 v, ep_port = p\<rparr>))"
proof -
  have r: "rfind CHR '':'' (a @ CHR '':'' # StrCat_nat L (unat p)) = Some (length a)"
    using text_ok_port(2) [OF assms] by (rule rfind_append_fresh)
  have "0 \<le> int (unat p) \<and> int (unat p) \<le> 65535"
    using unat_u16_less [of p] by linarith
  moreover have "of_int (int (unat p)) = p" by simp
  ultimately show ?thesis
    unfolding Endpoint_Create_def Let_def r option.case
    by (simp add: text_ok_port(1) [OF assms] split: option.split)
qed

lemma endpoint_text:
  assumes "inet_ok L" "text_ok L"
  shows "Endpoint_Create L (Endpoint_ToString L e) = e"
proof (cases "ep_ip e")
  case (IPv4 w)
  have "Endpoint_ToString L e = ToIPv4String L w @ CHR '':'' # StrCat_nat L (unat (ep_port e))"
    using IPv4 by (simp add: Endpoint_ToString_def IpAddr_ToString_def)
  then show ?thesis
    using IPv4 inet_ok_v4 [OF assms(1), of w]
    by (simp add: Endpoint_Create_split [OF assms(2)] not_bracketed)
next
  case (IPv6 v)
  let ?a = "''['' @ ToIPv6String L v @ '']''"
  have "Endpoint_ToString L e = ?a @ CHR '':'' # StrCat_nat L (unat (ep_port e))"
    using IPv6 by (simp add: Endpoint_ToString_def IpAddr_ToString_def)
  moreover have "LooksLikeIPv6 ?a" "take (length ?a - 2) (drop 1 ?a) = ToIPv6String L v"
    by (simp_all add: LooksLikeIPv6_def)
  ultimately show ?thesis
    using IPv6 inet_ok_v6(1) [OF assms(1), of v]
    by (simp only: Endpoint_Create_split [OF assms(2)]) simp
qed

text \<open>A text without blanks is not skipped and not changed by stripping.\<close>

definition solid :: "string \<Rightarrow> bool" where
  "solid s \<longleftrightarrow> s \<noteq> [] \<and> (\<forall>c \<in> set s. \<not> is_space c)"

lemma solid_not_blank [simp]: "solid s \<Longrightarrow> \<not> blank s"
  by (cases s) (auto simp: solid_def blank_def)

lemma solid_not_blank_Cons [simp]: "solid s \<Longrightarrow> \<not> blank (c # s)"
  by (cases s) (auto simp: solid_def blank_def)

lemma trim_solid [simp]: "solid s \<Longrightarrow> trim s = s"
proof -
  assume "solid s"
  then have "dropWhile is_space s = s" "dropWhile is_space (rev s) = rev s"
    by (auto simp: solid_def dropWhile_eq_self_iff hd_rev)
  then show ?thesis by (simp add: trim_def)
qed

lemma solid_append: "solid a \<Longrightarrow> solid b \<Longrightarrow> solid (a @ b)"
  by (auto simp: solid_def)

lemma solid_Cons: "\<not> is_space c \<Longrightarrow> solid b \<Longrightarrow> solid (c # b)"
  by (auto simp: solid_def)

lemma trim_space_solid [simp]: "solid s \<Longrightarrow> trim (CHR '' '' # s) = s"
  using trim_solid [of s] by (simp add: trim_def is_space_def)

lemma splits_no_sep [simp]: "c \<notin> set s \<Longrightarrow> splits c s = [s]"
  by (induction s) auto

lemma splits_append [simp]: "c \<notin> set a \<Longrightarrow> splits c (a @ c # s) = a # splits c s"
  by (induction a) auto

lemma splits_StrJoin:
  "ss \<noteq> [] \<Longrightarrow> \<forall>s \<in> set ss. c \<notin> set s \<Longrightarrow> splits c (StrJoin c ss) = ss"
  by (induction c ss rule: StrJoin.induct) simp_all

lemma splits_max_two:
  assumes "c \<notin> set a" "c \<notin> set b"
  shows "splits_max c 2 (a @ c # b @ c # r) = [a, b, r]"
proof -
  have "takeWhile (\<lambda>x. x \<noteq> c) (p @ c # q) = p \<and> dropWhile (\<lambda>x. x \<noteq> c) (p @ c # q) = c # q"
    if "c \<notin> set p" for p q
    using that by (induction p) auto
  with assms show ?thesis by (simp add: numeral_2_eq_2)
qed

definition endpoint_chars :: string where
  "endpoint_chars = ''0123456789abcdef:.[]''"

lemma endpoint_chars_solid:
  "\<forall>c \<in> set endpoint_chars. \<not> is_space c"
  "CHR '','' \<notin> set endpoint_chars" "CHR '';'' \<notin> set endpoint_chars"
  "set ntop4_chars \<subseteq> set endpoint_chars" "set ntop6_chars \<subseteq> set endpoint_chars"
  "set ''0123456789'' \<subseteq> set endpoint_chars" "set ''[]:'' \<subseteq> set endpoint_chars"
  by (simp_all add: endpoint_chars_def is_space_def ntop4_chars_def ntop6_chars_def)

lemma endpoint_text_chars:
  assumes "inet_ok L" "text_ok L"
  shows "set (Endpoint_ToString L e) \<subseteq> set endpoint_chars" "Endpoint_ToString L e \<noteq> []"
proof -
  have p: "set (StrCat_nat L n) \<subseteq> set endpoint_chars" for n
    using assms(2) endpoint_chars_solid(6) unfolding text_ok_def by blast
  have a: "set (IpAddr_ToString L (ep_ip e)) \<subseteq> set endpoint_chars"
    using inet_ok_v4(2) [OF assms(1)] inet_ok_v6(2) [OF assms(1)] endpoint_chars_solid(4,5)
    unfolding IpAddr_ToString_def by (cases "ep_ip e") (metis subset_trans IpAddr.case)+
  show "set (Endpoint_ToString L e) \<subseteq> set endpoint_chars"
    using p a endpoint_chars_solid(7) unfolding Endpoint_ToString_def Let_def by simp
  show "Endpoint_ToString L e \<noteq> []" by (simp add: Endpoint_ToString_def Let_def)
qed

lemma endpoint_text_solid [simp]:
  assumes "inet_ok L" "text_ok L"
  shows "solid (Endpoint_ToString L e)"
    "CHR '','' \<notin> set (Endpoint_ToString L e)" "CHR '';'' \<notin> set (Endpoint_ToString L e)"
  using endpoint_text_chars [OF assms, of e] endpoint_chars_solid(1-3)
  unfolding solid_def by blast+

text \<open>An interface name the text forms can carry: no blank and none of the separators.\<close>

definition plain_name :: "string \<Rightarrow> bool" where
  "plain_name s \<longleftrightarrow> solid s \<and> CHR ''/'' \<notin> set s \<and> CHR '';'' \<notin> set s"

lemma NicType_text:
  assumes "text_ok L" "t \<noteq> kInvalid"
  shows "NicType_FromString L (NicType_ToString t) = t" "solid (NicType_ToString t)"
    "CHR ''/'' \<notin> set (NicType_ToString t)" "CHR '';'' \<notin> set (NicType_ToString t)"
proof -
  note text_okD(1) [OF assms(1)] text_okD(2) [OF assms(1), of "''rdma''" "''ip''"]
  then show "NicType_FromString L (NicType_ToString t) = t"
    using assms(2) by (cases t) (simp_all add: NicType_FromString_def)
  show "solid (NicType_ToString t)" "CHR ''/'' \<notin> set (NicType_ToString t)"
    "CHR '';'' \<notin> set (NicType_ToString t)"
    by (cases t; simp add: solid_def is_space_def)+
qed

lemma StrJoin_chars: "set (StrJoin c ss) \<subseteq> insert c (\<Union> (set ` set ss))"
  by (induction c ss rule: StrJoin.induct) auto

lemma StrJoin_nonempty: "ss \<noteq> [] \<Longrightarrow> \<forall>s \<in> set ss. s \<noteq> [] \<Longrightarrow> StrJoin c ss \<noteq> []"
  by (induction c ss rule: StrJoin.induct) auto

lemma endpoints_text:
  assumes "inet_ok L" "text_ok L" "es \<noteq> []"
  shows "map (\<lambda>e. Endpoint_Create L (StripAsciiWhitespace L e))
      (StrSplit L kEndpointSep (StrJoin kEndpointSep (map (Endpoint_ToString L) es))) = es"
    "solid (StrJoin kEndpointSep (map (Endpoint_ToString L) es))"
    "CHR '';'' \<notin> set (StrJoin kEndpointSep (map (Endpoint_ToString L) es))"
proof -
  let ?ss = "map (Endpoint_ToString L) es"
  have split: "splits kEndpointSep (StrJoin kEndpointSep ?ss) = ?ss"
    using assms by (intro splits_StrJoin) (simp_all add: kEndpointSep_def)
  have "filter (\<lambda>p. \<not> blank p) ?ss = ?ss"
    using assms by (simp add: filter_id_conv)
  then show "map (\<lambda>e. Endpoint_Create L (StripAsciiWhitespace L e))
      (StrSplit L kEndpointSep (StrJoin kEndpointSep ?ss)) = es"
    using assms by (simp add: text_okD [OF assms(2)] split endpoint_text map_idI)
  have "StrJoin kEndpointSep ?ss \<noteq> []"
    using assms endpoint_text_chars(2) by (intro StrJoin_nonempty) auto
  moreover have sub: "set (StrJoin kEndpointSep ?ss) \<subseteq> insert kEndpointSep (set endpoint_chars)"
    using StrJoin_chars [of kEndpointSep ?ss] endpoint_text_chars(1) [OF assms(1,2)] by fastforce
  moreover have "\<not> is_space kEndpointSep" by (simp add: kEndpointSep_def is_space_def)
  ultimately show "solid (StrJoin kEndpointSep ?ss)"
    using endpoint_chars_solid(1) unfolding solid_def by blast
  show "CHR '';'' \<notin> set (StrJoin kEndpointSep ?ss)"
    using sub endpoint_chars_solid(3) by (auto simp: kEndpointSep_def)
qed

lemma nic_text:
  assumes "inet_ok L" "text_ok L" "NicInfo_IsValid n" "plain_name (nic_name n)"
  shows "NicInfo_Create L (NicInfo_ToString L n) = n"
    "solid (NicInfo_ToString L n)" "CHR '';'' \<notin> set (NicInfo_ToString L n)"
proof -
  have t: "nic_type n \<noteq> kInvalid" and es: "endpoints n \<noteq> []"
    using assms(3) by (auto simp: NicInfo_IsValid_def split: if_splits)
  note ty = NicType_text [OF assms(2) t] and ep = endpoints_text [OF assms(1,2) es]
  have nm: "solid (nic_name n)" "kNicInfoSep \<notin> set (nic_name n)" "CHR '';'' \<notin> set (nic_name n)"
    using assms(4) by (auto simp: plain_name_def kNicInfoSep_def)
  let ?j = "StrJoin kEndpointSep (map (Endpoint_ToString L) (endpoints n))"
  have "StrSplitMax L kNicInfoSep 2 (NicInfo_ToString L n) =
      filter (\<lambda>p. \<not> blank p) (splits_max kNicInfoSep 2 (NicInfo_ToString L n))"
    by (rule text_okD(5) [OF assms(2)])
  also have "splits_max kNicInfoSep 2 (NicInfo_ToString L n) =
      [nic_name n, NicType_ToString (nic_type n), ?j]"
    using splits_max_two [OF nm(2), of "NicType_ToString (nic_type n)" ?j] ty(3)
    by (simp add: NicInfo_ToString_def kNicInfoSep_def)
  finally have sp: "StrSplitMax L kNicInfoSep 2 (NicInfo_ToString L n) =
      [nic_name n, NicType_ToString (nic_type n), ?j]"
    using nm(1) ty(2) ep(2) by simp
  have sp': "StrSplitMax L kNicInfoSep (3 - 1) (NicInfo_ToString L n) =
      [nic_name n, NicType_ToString (nic_type n), ?j]"
    using sp by simp
  have eta: "\<lparr>nic_name = nic_name n, nic_type = nic_type n, endpoints = endpoints n\<rparr> = n" by simp
  show "NicInfo_Create L (NicInfo_ToString L n) = n"
    unfolding NicInfo_Create_def Let_def sp' list.case ty(1) ep(1) eta using assms(3) by simp
  show "solid (NicInfo_ToString L n)"
  proof -
    have "\<not> is_space kNicInfoSep" by (simp add: kNicInfoSep_def is_space_def)
    then show ?thesis
      unfolding NicInfo_ToString_def append_Cons append_Nil
      by (intro solid_append solid_Cons nm(1) ty(2) ep(2))
  qed
  show "CHR '';'' \<notin> set (NicInfo_ToString L n)"
    using nm(3) ty(4) ep(3) by (simp add: NicInfo_ToString_def kNicInfoSep_def)
qed

lemma HostInfo_ToString_concat:
  "HostInfo_ToString L h = Endpoint_ToString L (control_plane_listener h) @
     concat (map (\<lambda>n. ''; '' @ NicInfo_ToString L n) (data_plane_listeners h))"
proof -
  have "fold (\<lambda>n s. s @ ''; '' @ NicInfo_ToString L n) ns a =
      a @ concat (map (\<lambda>n. ''; '' @ NicInfo_ToString L n) ns)" for ns a
    by (induction ns arbitrary: a) simp_all
  then show ?thesis by (simp add: HostInfo_ToString_def)
qed

lemma splits_semicolon:
  assumes "CHR '';'' \<notin> set c" "\<forall>t \<in> set ts. CHR '';'' \<notin> set t"
  shows "splits CHR '';'' (c @ concat (map (\<lambda>t. ''; '' @ t) ts)) = c # map (Cons CHR '' '') ts"
  using assms
proof (induction ts arbitrary: c)
  case (Cons t ts)
  have "splits CHR '';'' (c @ concat (map (\<lambda>t. ''; '' @ t) (t # ts))) =
      c # splits CHR '';'' ((CHR '' '' # t) @ concat (map (\<lambda>t. ''; '' @ t) ts))"
    using Cons.prems(1) by simp
  also have "\<dots> = c # (CHR '' '' # t) # map (Cons CHR '' '') ts"
    using Cons.prems by (subst Cons.IH) auto
  finally show ?case by simp
qed simp

lemma parse_nics_text:
  assumes "inet_ok L" "text_ok L"
    "\<forall>n \<in> set ns. NicInfo_IsValid n \<and> plain_name (nic_name n)"
  shows "parse_nics L (map (\<lambda>n. CHR '' '' # NicInfo_ToString L n) ns) = Some ns"
  using assms(3)
  by (induction ns) (simp_all add: text_okD(3) [OF assms(2)] nic_text [OF assms(1,2)])

definition host_names_plain :: "HostInfo \<Rightarrow> bool" where
  "host_names_plain h \<longleftrightarrow> list_all (\<lambda>n. plain_name (nic_name n)) (data_plane_listeners h)"

lemma host_text:
  assumes "inet_ok L" "text_ok L" "HostInfo_IsValid h" "host_names_plain h"
  shows "HostInfo_Create L (HostInfo_ToString L h) = h"
proof -
  let ?ns = "data_plane_listeners h"
  have ns: "\<forall>n \<in> set ?ns. NicInfo_IsValid n \<and> plain_name (nic_name n)"
    using assms(3,4)
    by (auto simp: HostInfo_IsValid_def HostInfo_IsDataPlaneValid_def host_names_plain_def
        Let_def list_all_iff)
  let ?c = "Endpoint_ToString L (control_plane_listener h)"
  have "splits CHR '';'' (HostInfo_ToString L h) =
      ?c # map (\<lambda>n. CHR '' '' # NicInfo_ToString L n) ?ns"
    using splits_semicolon [of ?c "map (NicInfo_ToString L) ?ns"] ns
      nic_text(3) [OF assms(1,2)] assms(1,2)
    by (simp add: HostInfo_ToString_concat comp_def)
  moreover have "filter (\<lambda>p. \<not> blank p) (map (\<lambda>n. CHR '' '' # NicInfo_ToString L n) ?ns) =
      map (\<lambda>n. CHR '' '' # NicInfo_ToString L n) ?ns"
    using ns nic_text(2) [OF assms(1,2)] by (simp add: filter_id_conv)
  ultimately have sp: "StrSplit L CHR '';'' (HostInfo_ToString L h) =
      ?c # map (\<lambda>n. CHR '' '' # NicInfo_ToString L n) ?ns"
    using assms(1,2) by (simp add: text_okD(4) [OF assms(2)])
  have eta: "\<lparr>control_plane_listener = control_plane_listener h, data_plane_listeners = ?ns\<rparr> = h"
    by simp
  from assms(3) show ?thesis
    unfolding HostInfo_Create_def Let_def sp list.case parse_nics_text [OF assms(1,2) ns]
    by (simp add: text_okD(3) [OF assms(2)] endpoint_text [OF assms(1,2)] assms(1,2) eta)
qed

text \<open>
  The text forms are faithful: for every string library that behaves as documented, an
  endpoint is read back from its text exactly, and so is every valid network interface and
  every valid host description whose interface names contain no blank and no separator.
\<close>
theorem text_roundtrip:
  assumes "inet_ok L" "text_ok L"
  shows "Endpoint_Create L (Endpoint_ToString L e) = e \<and>
    (NicInfo_IsValid n \<and> plain_name (nic_name n) \<longrightarrow> NicInfo_Create L (NicInfo_ToString L n) = n) \<and>
    (HostInfo_IsValid h \<and> host_names_plain h \<longrightarrow> HostInfo_Create L (HostInfo_ToString L h) = h)"
  using endpoint_text [OF assms] nic_text(1) [OF assms] host_text [OF assms] by blast

text \<open>A concrete string library: numbers in fixed-width digits, least significant first.\<close>

definition digit :: "nat \<Rightarrow> char" where
  "digit d = ''0123456789abcdef'' ! d"

fun digits :: "nat \<Rightarrow> nat \<Rightarrow> nat \<Rightarrow> string" where
  "digits b 0 v = []"
| "digits b (Suc k) v = digit (v mod b) # digits b k (v div b)"

fun undigits :: "nat \<Rightarrow> string \<Rightarrow> nat" where
  "undigits b [] = 0"
| "undigits b (c # s) = length (takeWhile (\<lambda>x. x \<noteq> c) ''0123456789abcdef'') + b * undigits b s"

definition demo_lib :: text_lib where
  "demo_lib = \<lparr>
     inet_pton4 = \<lambda>s. Some (of_nat (undigits 10 s)),
     inet_pton6 = \<lambda>s. Some (of_nat (undigits 16 (tl s))),
     inet_ntop4 = \<lambda>a. Some (digits 10 10 (unat a)),
     inet_ntop6 = \<lambda>a. Some (CHR '':'' # digits 16 32 (unat a)),
     getaddrinfo = \<lambda>n f s. (EAI_NONAME, []),
     SimpleAtoi = \<lambda>s. Some (int (undigits 10 s)),
     StrCat_nat = digits 10 10,
     StrSplit = \<lambda>c s. filter (\<lambda>p. \<not> blank p) (splits c s),
     StrSplitMax = \<lambda>c n s. filter (\<lambda>p. \<not> blank p) (splits_max c n s),
     StripAsciiWhitespace = trim,
     EqualsIgnoreCase = (=)\<rparr>"

lemma digit_index: "d < 16 \<Longrightarrow> length (takeWhile (\<lambda>x. x \<noteq> digit d) ''0123456789abcdef'') = d"
proof -
  have "\<forall>d < 16. length (takeWhile (\<lambda>x. x \<noteq> digit d) ''0123456789abcdef'') = d"
    by code_simp
  then show "d < 16 \<Longrightarrow> ?thesis" by blast
qed

lemma undigits_digits: "v < b ^ k \<Longrightarrow> 0 < b \<Longrightarrow> b \<le> 16 \<Longrightarrow> undigits b (digits b k v) = v"
proof (induction k arbitrary: v)
  case (Suc k)
  have "v mod b < 16" using Suc.prems by (meson mod_less_divisor order_less_le_trans)
  moreover have "v div b < b ^ k" using Suc.prems by (simp add: less_mult_imp_div_less mult.commute)
  ultimately show ?case using Suc by (simp only: digits.simps undigits.simps digit_index) simp
qed simp

lemma digits_chars:
  "0 < b \<Longrightarrow> b \<le> 16 \<Longrightarrow> set (digits b k v) \<subseteq> set (take b ''0123456789abcdef'')"
proof (induction k arbitrary: v)
  case (Suc k)
  have "digit (v mod b) \<in> set (take b ''0123456789abcdef'')"
    using Suc.prems unfolding digit_def in_set_conv_nth
    by (intro exI [of _ "v mod b"]) (simp del: take_Suc_Cons)
  with Suc show ?case by simp
qed simp

lemma demo_lib_inet_ok: "inet_ok demo_lib"
proof -
  have "set (digits 10 k v) \<subseteq> set ntop4_chars" "set (digits 16 k v) \<subseteq> set ntop6_chars" for k v
    using subset_trans [OF digits_chars [of 10 k v], of "set ntop4_chars"]
      subset_trans [OF digits_chars [of 16 k v], of "set ntop6_chars"]
    by (simp_all add: ntop4_chars_def ntop6_chars_def)
  moreover have "undigits 10 (digits 10 10 (unat a)) = unat a" for a :: u32
    using unat_u32_less [of a] by (intro undigits_digits) simp_all
  moreover have "undigits 16 (digits 16 32 (unat a)) = unat a" for a :: ipv6_t
    using unsigned_less [of a, where ?'a = nat] by (intro undigits_digits) simp_all
  moreover have "CHR '':'' \<in> set ntop6_chars" by (simp add: ntop6_chars_def)
  ultimately show ?thesis
    unfolding inet_ok_def demo_lib_def by simp
qed

lemma length_digits: "length (digits b k v) = k"
  by (induction k arbitrary: v) simp_all

lemma demo_lib_text_ok: "text_ok demo_lib"
proof -
  have "take 10 ''0123456789abcdef'' = ''0123456789''" by simp
  then have chars: "set (digits 10 k v) \<subseteq> set ''0123456789''" for k v
    using digits_chars [of 10 k v] by (simp only:)
  have "digits 10 10 n \<noteq> []" for n
    using length_digits [of 10 10 n] by (metis list.size(3) zero_neq_numeral)
  then have str: "\<forall>n. StrCat_nat demo_lib n \<noteq> [] \<and> set (StrCat_nat demo_lib n) \<subseteq> set ''0123456789''"
    by (simp only: demo_lib_def text_lib.simps inet_lib.simps chars simp_thms not_False_eq_True)
  have "n < 2147483648 \<Longrightarrow> undigits 10 (digits 10 10 n) = n" for n
    by (intro undigits_digits) simp_all
  then have num: "\<forall>n < 2147483648. SimpleAtoi demo_lib (StrCat_nat demo_lib n) = Some (int n)"
    by (simp add: demo_lib_def)
  show ?thesis
    unfolding text_ok_def
    by (intro conjI, rule num, rule str) (simp_all add: demo_lib_def)
qed

definition demo_host :: HostInfo where
  "demo_host = \<lparr>
     control_plane_listener = \<lparr>ep_ip = IPv4 0x0100000A, ep_port = 10000\<rparr>,
     data_plane_listeners = [
       \<lparr>nic_name = ''eth0'', nic_type = kIP,
         endpoints = [\<lparr>ep_ip = IPv4 0x0100000A, ep_port = 43521\<rparr>]\<rparr>,
       \<lparr>nic_name = ''irdma0'', nic_type = kRDMA,
         endpoints = [\<lparr>ep_ip = IPv6 1, ep_port = 1\<rparr>]\<rparr>]\<rparr>"

lemma demo_host_nics: "list_all NicInfo_IsValid (data_plane_listeners demo_host)"
proof -
  have "\<not> IN6_IS_ADDR_UNSPECIFIED 1" by code_simp
  then show ?thesis
    by (simp add: demo_host_def HasNonzeroIpPort_def IsZero_def NicInfo_IsValid_def)
qed

lemma demo_host_ok: "HostInfo_IsValid demo_host" "host_names_plain demo_host"
proof -
  have "HostInfo_IsDataPlaneValid demo_host"
    using demo_host_nics
    by (simp add: HostInfo_IsDataPlaneValid_def Let_def demo_host_def HasZeroIpAddr_def IsZero_def)
  then show "HostInfo_IsValid demo_host"
    by (simp add: HostInfo_IsValid_def demo_host_def HasNonzeroIpPort_def IsZero_def)
  show "host_names_plain demo_host"
    by (simp add: host_names_plain_def demo_host_def plain_name_def solid_def is_space_def)
qed

theorem text_roundtrip_witness:
  "inet_ok demo_lib \<and> text_ok demo_lib \<and> HostInfo_IsValid demo_host \<and> host_names_plain demo_host \<and>
   HostInfo_Create demo_lib (HostInfo_ToString demo_lib demo_host) = demo_host"
  using text_roundtrip [OF demo_lib_inet_ok demo_lib_text_ok, of Endpoint_default NicInfo_default
      demo_host] demo_host_ok demo_lib_inet_ok demo_lib_text_ok
  by simp

end
