(* ===== verification/Bitset.thy ===== *)
theory Bitset
  imports Prelude
begin

text \<open>
  The dynamic bitset of \<^verbatim>\<open>internal/lib/bitset.{h,cc}\<close>: a vector of 64-bit units addressed by
  shift and mask. The abstraction \<open>members\<close> is the set of indices whose bit is set; the
  invariant says that the vector has exactly the units it needs and that the unused
  trailing bits are zero, which is what makes \<^verbatim>\<open>IsFull\<close> (a population count) correct.
  The locale \<open>dyn_bitset\<close> is the contract the chunk tracker relies on.
\<close>

section \<open>The interface\<close>

locale dyn_bitset =
  fixes invar :: "'b \<Rightarrow> bool"
    and sz :: "'b \<Rightarrow> nat"
    and members :: "'b \<Rightarrow> nat set"
    and get :: "'b \<Rightarrow> u32 \<Rightarrow> bool res"
    and set_bit :: "'b \<Rightarrow> u32 \<Rightarrow> 'b res"
    and full :: "'b \<Rightarrow> bool"
    and none :: "'b \<Rightarrow> bool"
  assumes get_law: "invar b \<Longrightarrow> unat i < sz b \<Longrightarrow> get b i = Inr (unat i \<in> members b)"
    and set_law: "invar b \<Longrightarrow> unat i < sz b \<Longrightarrow>
      \<exists>b'. set_bit b i = Inr b' \<and> invar b' \<and> sz b' = sz b \<and>
        members b' = insert (unat i) (members b)"
    and full_law: "invar b \<Longrightarrow> full b \<longleftrightarrow> members b = {..<sz b}"
    and none_law: "invar b \<Longrightarrow> none b \<longleftrightarrow> members b = {}"
    and members_bound: "invar b \<Longrightarrow> members b \<subseteq> {..<sz b}"
begin

lemma set_get:
  assumes "invar b" "unat i < sz b" "unat j < sz b" "set_bit b i = Inr b'"
  shows "get b' j = Inr (j = i \<or> unat j \<in> members b)"
proof -
  from set_law [OF assms(1,2)] assms(4)
  have "invar b'" "sz b' = sz b" "members b' = insert (unat i) (members b)" by auto
  with assms(3) show ?thesis by (auto simp: get_law)
qed

lemma set_full_mono:
  assumes "invar b" "unat i < sz b" "set_bit b i = Inr b'" "full b"
  shows "full b'"
  using set_law [OF assms(1,2)] assms members_bound by (auto simp: full_law)

lemma full_members: "invar b \<Longrightarrow> full b \<Longrightarrow> k < sz b \<Longrightarrow> k \<in> members b"
  by (auto simp: full_law)

lemma not_full_missing: "invar b \<Longrightarrow> \<not> full b \<Longrightarrow> \<exists>k < sz b. k \<notin> members b"
  using members_bound by (auto simp: full_law)

end

section \<open>The implementation\<close>

record Bitset =
  bs_size :: u32
  bs_units :: "u64 list"

definition kUnitSize :: u32 where "kUnitSize = 64"
definition kUnitShift :: nat where "kUnitShift = 6"
definition kUnitBitMask :: u32 where "kUnitBitMask = kUnitSize - 1"

definition numUnits :: "u64 \<Rightarrow> u32" where
  "numUnits n = ucast ((n + ucast kUnitSize - 1) div ucast kUnitSize)"

definition u_of :: "u32 \<Rightarrow> u32" where
  "u_of i = drop_bit kUnitShift i"

definition b_of :: "u32 \<Rightarrow> u32" where
  "b_of i = i AND kUnitBitMask"

definition unit_count :: "u64 \<Rightarrow> u64" where
  "unit_count u = of_nat (length (filter (bit u) [0..<64]))"

definition Bitset_Count :: "Bitset \<Rightarrow> u32" where
  "Bitset_Count s = foldl (\<lambda>sum u. ucast (ucast sum + unit_count u)) 0 (bs_units s)"

definition Bitset_IsEmpty :: "Bitset \<Rightarrow> bool" where
  "Bitset_IsEmpty s = list_all (\<lambda>u. u = 0) (bs_units s)"

definition Bitset_IsFull :: "Bitset \<Rightarrow> bool" where
  "Bitset_IsFull s = (Bitset_Count s = bs_size s)"

definition Bitset_new :: "u32 \<Rightarrow> Bitset res" where
  "Bitset_new n =
     (let s = \<lparr>bs_size = n, bs_units = replicate (unat (numUnits (ucast n))) 0\<rparr> in
      dcheck (0 < bs_size s) (dcheck (0 < length (bs_units s)) (dcheck (Bitset_IsEmpty s) (Inr s))))"

definition Bitset_Get :: "Bitset \<Rightarrow> u32 \<Rightarrow> bool res" where
  "Bitset_Get s i =
     dcheck (i < bs_size s)
       (rbind (vec_at (bs_units s) (unat (u_of i))) (\<lambda>u. Inr (bit u (unat (b_of i)))))"

definition Bitset_Set :: "Bitset \<Rightarrow> u32 \<Rightarrow> Bitset res" where
  "Bitset_Set s i =
     dcheck (i < bs_size s)
       (rbind (vec_at (bs_units s) (unat (u_of i)))
         (\<lambda>u. Inr (s\<lparr>bs_units := (bs_units s)[unat (u_of i) := set_bit (unat (b_of i)) u]\<rparr>)))"

definition Bitset_Reset :: "Bitset \<Rightarrow> u32 \<Rightarrow> Bitset res" where
  "Bitset_Reset s i =
     dcheck (i < bs_size s)
       (rbind (vec_at (bs_units s) (unat (u_of i)))
         (\<lambda>u. Inr (s\<lparr>bs_units := (bs_units s)[unat (u_of i) := unset_bit (unat (b_of i)) u]\<rparr>)))"

section \<open>Abstraction and invariant\<close>

definition unit_members :: "u64 list \<Rightarrow> nat set" where
  "unit_members us = {k. k < 64 * length us \<and> bit (us ! (k div 64)) (k mod 64)}"

definition members :: "Bitset \<Rightarrow> nat set" where
  "members s = unit_members (bs_units s)"

definition wf_Bitset :: "Bitset \<Rightarrow> bool" where
  "wf_Bitset s \<longleftrightarrow> 0 < bs_size s \<and> length (bs_units s) = (unat (bs_size s) + 63) div 64 \<and>
     members s \<subseteq> {..<unat (bs_size s)}"

lemma unat_u_of: "unat (u_of i) = unat i div 64"
  by (simp add: u_of_def kUnitShift_def unat_drop_bit_eq drop_bit_eq_div unat_div)

lemma unat_b_of: "unat (b_of i) = unat i mod 64"
proof -
  have "i AND 63 = take_bit 6 i"
    by (simp add: take_bit_eq_mask mask_eq_exp_minus_1)
  then show ?thesis
    by (simp add: b_of_def kUnitBitMask_def kUnitSize_def unsigned_take_bit_eq take_bit_eq_mod unat_mod)
qed

lemma unat_numUnits: "unat (numUnits (ucast (n :: u32))) = (unat n + 63) div 64"
proof -
  have n: "unat n < 4294967296" by (rule unat_u32_less)
  have "unat (ucast n + ucast kUnitSize - 1 :: u64) = unat n + 63"
  proof -
    have "(ucast n + ucast kUnitSize - 1 :: u64) = of_nat (unat n + 63)"
      by (simp add: kUnitSize_def)
    with n show ?thesis by (simp del: of_nat_add)
  qed
  with n show ?thesis
    by (simp add: numUnits_def kUnitSize_def unat_div unat_ucast_mod)
qed

lemma unit_index: "wf_Bitset s \<Longrightarrow> k < unat (bs_size s) \<Longrightarrow> k div 64 < length (bs_units s)"
  by (auto simp: wf_Bitset_def)

lemma word_less_unat: "(i < n) = (unat i < unat (n :: 'a::len word))"
  by (simp add: word_less_nat_alt)

lemma unit_members_Cons:
  "unit_members (u # us) = {k. k < 64 \<and> bit u k} \<union> (\<lambda>k. k + 64) ` unit_members us"
proof (intro set_eqI iffI)
  fix k assume k: "k \<in> unit_members (u # us)"
  show "k \<in> {k. k < 64 \<and> bit u k} \<union> (\<lambda>k. k + 64) ` unit_members us"
  proof (cases "k < 64")
    case True
    with k show ?thesis by (simp add: unit_members_def)
  next
    case False
    with k have "k - 64 \<in> unit_members us"
      by (auto simp: unit_members_def nth_Cons' le_div_geq le_mod_geq)
    then have "k - 64 + 64 \<in> (\<lambda>k. k + 64) ` unit_members us" by (rule imageI)
    with False show ?thesis by simp
  qed
qed (auto simp: unit_members_def nth_Cons' div_add_self2)

lemma finite_unit_members [simp]: "finite (unit_members us)"
  by (simp add: unit_members_def)

lemma card_unit_members:
  "card (unit_members us) = sum_list (map (\<lambda>u. length (filter (bit u) [0..<64])) us)"
proof (induction us)
  case Nil
  show ?case by (simp add: unit_members_def)
next
  case (Cons u us)
  have "card {k. k < 64 \<and> bit u k} = length (filter (bit u) [0..<64])"
    using distinct_card [of "filter (bit u) [0..<64]"]
    by (simp add: conj_commute lessThan_def)
  moreover have "card ((\<lambda>k. k + 64) ` unit_members us) = card (unit_members us)"
    by (rule card_image) simp
  moreover have "{k. k < 64 \<and> bit u k} \<inter> (\<lambda>k. k + 64) ` unit_members us = {}"
    by auto
  ultimately show ?case
    using Cons by (simp add: unit_members_Cons card_Un_disjoint)
qed

lemma count_step:
  "ucast (ucast (of_nat a :: u32) + unit_count u) =
    (of_nat (a + length (filter (bit u) [0..<64])) :: u32)"
proof (rule unsigned_word_eqI)
  let ?c = "length (filter (bit u) [0..<64])"
  have c: "?c \<le> 64" using length_filter_le [of "bit u" "[0..<64]"] by simp
  then have "unat (unit_count u) = ?c" by (simp add: unit_count_def)
  moreover have "a mod 4294967296 < 4294967296" by simp
  ultimately have "unat (ucast (of_nat a :: u32) + unit_count u :: u64) = a mod 4294967296 + ?c"
    using c by (simp add: unat_word_ariths unat_of_nat)
  then show "unat (ucast (ucast (of_nat a :: u32) + unit_count u :: u64) :: u32) =
      unat (of_nat (a + ?c) :: u32)"
    by (simp add: unat_ucast_mod unat_of_nat mod_add_left_eq del: of_nat_add)
qed

lemma Count_units:
  "foldl (\<lambda>sum u. ucast (ucast sum + unit_count u) :: u32) (of_nat a) us =
    of_nat (a + card (unit_members us))"
proof (induction us arbitrary: a)
  case Nil
  show ?case by (simp add: unit_members_def)
next
  case (Cons u us)
  have "ucast (ucast (of_nat a :: u32) + unit_count u) =
      (of_nat (a + length (filter (bit u) [0..<64])) :: u32)"
    by (rule count_step)
  then show ?case
    by (simp add: Cons card_unit_members add.assoc del: of_nat_add)
qed

lemma Bitset_Count_eq: "wf_Bitset s \<Longrightarrow> unat (Bitset_Count s) = card (members s)"
proof -
  assume wf: "wf_Bitset s"
  have "card (members s) \<le> unat (bs_size s)"
    using wf card_mono [of "{..<unat (bs_size s)}" "members s"] by (simp add: wf_Bitset_def)
  moreover have "unat (bs_size s) < 4294967296" by (rule unat_u32_less)
  moreover have "Bitset_Count s = of_nat (card (members s))"
    using Count_units [of 0 "bs_units s"] by (simp add: Bitset_Count_def members_def)
  ultimately show ?thesis by simp
qed

section \<open>Every operation implements its set operation\<close>

lemma Bitset_IsFull_iff: "wf_Bitset s \<Longrightarrow> Bitset_IsFull s \<longleftrightarrow> members s = {..<unat (bs_size s)}"
proof -
  assume wf: "wf_Bitset s"
  then have sub: "members s \<subseteq> {..<unat (bs_size s)}" by (simp add: wf_Bitset_def)
  have "Bitset_IsFull s \<longleftrightarrow> card (members s) = unat (bs_size s)"
    by (simp add: Bitset_IsFull_def word_unat_eq_iff Bitset_Count_eq [OF wf] del: unat_inject)
  also have "\<dots> \<longleftrightarrow> members s = {..<unat (bs_size s)}"
  proof
    assume "card (members s) = unat (bs_size s)"
    then show "members s = {..<unat (bs_size s)}" by (intro card_subset_eq sub) simp_all
  qed simp
  finally show ?thesis .
qed

lemma Bitset_IsEmpty_iff: "Bitset_IsEmpty s \<longleftrightarrow> members s = {}"
proof
  assume "Bitset_IsEmpty s"
  then show "members s = {}"
    by (auto simp: Bitset_IsEmpty_def members_def unit_members_def list_all_length)
next
  assume empty: "members s = {}"
  have "u = 0" if "u \<in> set (bs_units s)" for u
  proof (rule bit_word_eqI)
    fix n assume n: "n < LENGTH(64)"
    from that obtain j where j: "j < length (bs_units s)" "u = bs_units s ! j"
      by (auto simp: in_set_conv_nth)
    have "64 * j + n \<notin> members s" using empty by simp
    with j n show "bit u n = bit 0 n"
      by (auto simp: members_def unit_members_def)
  qed
  then show "Bitset_IsEmpty s" by (simp add: Bitset_IsEmpty_def list_all_iff)
qed

lemma Bitset_new_ok:
  assumes "0 < n"
  shows "\<exists>s. Bitset_new n = Inr s \<and> wf_Bitset s \<and> bs_size s = n \<and> members s = {}"
proof -
  let ?s = "\<lparr>bs_size = n, bs_units = replicate (unat (numUnits (ucast n))) 0\<rparr>"
  have n: "0 < unat n" using assms by (simp add: word_less_nat_alt)
  have e: "Bitset_IsEmpty ?s" by (simp add: Bitset_IsEmpty_def list_all_iff)
  then have "members ?s = {}" by (simp add: Bitset_IsEmpty_iff)
  moreover from this n assms have "wf_Bitset ?s" by (simp add: wf_Bitset_def unat_numUnits)
  moreover have "Bitset_new n = Inr ?s"
    using assms n e by (simp add: Bitset_new_def unat_numUnits div_greater_zero_iff)
  ultimately show ?thesis by auto
qed

lemma Bitset_Get_ok:
  assumes "wf_Bitset s" "unat i < unat (bs_size s)"
  shows "Bitset_Get s i = Inr (unat i \<in> members s)"
proof -
  have "unat i div 64 < length (bs_units s)" using assms by (rule unit_index)
  moreover from this have "unat i < 64 * length (bs_units s)" by linarith
  ultimately show ?thesis
    using assms(2)
    by (simp add: Bitset_Get_def word_less_unat unat_u_of unat_b_of members_def unit_members_def)
qed

lemma unit_members_upd:
  assumes "k < 64 * length us" and "\<And>j. j < 64 \<Longrightarrow> bit v j = (if j = k mod 64 then c else bit (us ! (k div 64)) j)"
  shows "unit_members (us[k div 64 := v]) = (if c then insert k (unit_members us) else unit_members us - {k})"
proof -
  have upd: "bit ((us[k div 64 := v]) ! (m div 64)) (m mod 64) =
      (if m = k then c else bit (us ! (m div 64)) (m mod 64))" if "m < 64 * length us" for m
  proof (cases "m div 64 = k div 64")
    case True
    then have "m = k \<longleftrightarrow> m mod 64 = k mod 64" by (metis div_mod_decomp)
    moreover have "k div 64 < length us" using assms(1) by linarith
    ultimately show ?thesis using True assms(2) [of "m mod 64"] by simp
  next
    case False
    then show ?thesis by auto
  qed
  show ?thesis
  proof (rule set_eqI)
    fix m
    show "m \<in> unit_members (us[k div 64 := v]) \<longleftrightarrow>
        m \<in> (if c then insert k (unit_members us) else unit_members us - {k})"
      using upd [of m] assms(1) unfolding unit_members_def
      by (cases "m < 64 * length us") (auto simp del: nth_list_update)
  qed
qed

lemma Bitset_upd_ok:
  assumes wf: "wf_Bitset s" and i: "unat i < unat (bs_size s)"
    and v: "\<And>j. j < 64 \<Longrightarrow>
      bit v j = (if j = unat (b_of i) then c else bit (bs_units s ! unat (u_of i)) j)"
    and s': "s' = s\<lparr>bs_units := (bs_units s)[unat (u_of i) := v]\<rparr>"
  shows "wf_Bitset s' \<and> bs_size s' = bs_size s \<and>
    members s' = (if c then insert (unat i) (members s) else members s - {unat i})"
proof -
  have "unat i < 64 * length (bs_units s)" using unit_index [OF wf i] by linarith
  then have "members s' = (if c then insert (unat i) (members s) else members s - {unat i})"
    unfolding s' members_def using v by (simp add: unat_u_of unat_b_of unit_members_upd)
  then show ?thesis
    using wf i by (auto simp: s' wf_Bitset_def split: if_splits)
qed

lemma Bitset_Set_ok:
  assumes "wf_Bitset s" "unat i < unat (bs_size s)"
  shows "\<exists>s'. Bitset_Set s i = Inr s' \<and> wf_Bitset s' \<and> bs_size s' = bs_size s \<and>
    members s' = insert (unat i) (members s)"
proof -
  let ?u = "bs_units s ! unat (u_of i)"
  have "Bitset_Set s i =
      Inr (s\<lparr>bs_units := (bs_units s)[unat (u_of i) := set_bit (unat (b_of i)) ?u]\<rparr>)"
    using assms unit_index [OF assms] by (simp add: Bitset_Set_def word_less_unat unat_u_of)
  moreover have "bit (set_bit (unat (b_of i)) ?u) j =
      (if j = unat (b_of i) then True else bit ?u j)" if "j < 64" for j
    using that by (auto simp: bit_simps)
  ultimately show ?thesis using Bitset_upd_ok [OF assms, where c = True] by auto
qed

lemma Bitset_Reset_ok:
  assumes "wf_Bitset s" "unat i < unat (bs_size s)"
  shows "\<exists>s'. Bitset_Reset s i = Inr s' \<and> wf_Bitset s' \<and> bs_size s' = bs_size s \<and>
    members s' = members s - {unat i}"
proof -
  let ?u = "bs_units s ! unat (u_of i)"
  have "Bitset_Reset s i =
      Inr (s\<lparr>bs_units := (bs_units s)[unat (u_of i) := unset_bit (unat (b_of i)) ?u]\<rparr>)"
    using assms unit_index [OF assms] by (simp add: Bitset_Reset_def word_less_unat unat_u_of)
  moreover have "bit (unset_bit (unat (b_of i)) ?u) j =
      (if j = unat (b_of i) then False else bit ?u j)" if "j < 64" for j
    using that by (auto simp: bit_simps)
  ultimately show ?thesis using Bitset_upd_ok [OF assms, where c = False] by auto
qed

interpretation bs: dyn_bitset wf_Bitset "\<lambda>s. unat (bs_size s)" members Bitset_Get Bitset_Set
  Bitset_IsFull Bitset_IsEmpty
proof unfold_locales
  fix s and i :: u32 assume "wf_Bitset s" "unat i < unat (bs_size s)"
  then show "Bitset_Get s i = Inr (unat i \<in> members s)" by (rule Bitset_Get_ok)
next
  fix s and i :: u32 assume "wf_Bitset s" "unat i < unat (bs_size s)"
  then show "\<exists>s'. Bitset_Set s i = Inr s' \<and> wf_Bitset s' \<and>
      unat (bs_size s') = unat (bs_size s) \<and> members s' = insert (unat i) (members s)"
    using Bitset_Set_ok by fastforce
next
  fix s assume "wf_Bitset s"
  then show "Bitset_IsFull s = (members s = {..<unat (bs_size s)})" by (rule Bitset_IsFull_iff)
next
  fix s
  show "Bitset_IsEmpty s = (members s = {})" by (rule Bitset_IsEmpty_iff)
next
  fix s assume "wf_Bitset s"
  then show "members s \<subseteq> {..<unat (bs_size s)}" by (simp add: wf_Bitset_def)
qed

end
