(* ===== verification/ChunkTracker.thy ===== *)
theory ChunkTracker
  imports Bitset
begin

text \<open>
  The per-request chunk ledger of \<^verbatim>\<open>internal/chunk/chunk_tracker.{h,cc}\<close>. Every public method
  runs under the tracker's mutex, so an operation is one atomic function on the record.
  The locale \<open>chunk_ledger\<close> states the contract as updates of a status function from chunk
  numbers to EMPTY, BUSY and DONE; the last section runs any number of writer threads
  against one tracker and shows exclusive write access and a single completion.
\<close>

section \<open>The class\<close>

datatype ChunkStatus = kEmpty | kBusy | kDone

definition ChunkStatus_value :: "ChunkStatus \<Rightarrow> u8" where
  "ChunkStatus_value s = (case s of kEmpty \<Rightarrow> 0 | kBusy \<Rightarrow> 1 | kDone \<Rightarrow> 2)"

record ChunkTracker =
  total_num_chunks :: u32
  num_chunks_dup :: u32
  chunks :: Bitset
  busy_chunks :: "u32 set"

definition isValidChunk :: "ChunkTracker \<Rightarrow> u32 \<Rightarrow> bool" where
  "isValidChunk t i = (0 \<le> i \<and> i < total_num_chunks t)"

definition ct_invariant :: "ChunkTracker \<Rightarrow> bool" where
  "ct_invariant t = (bs_size (chunks t) = total_num_chunks t)"

definition ChunkTracker_new :: "u32 \<Rightarrow> ChunkTracker res" where
  "ChunkTracker_new n =
     rbind (Bitset_new n) (\<lambda>b.
       let t = \<lparr>total_num_chunks = n, num_chunks_dup = 0, chunks = b, busy_chunks = {}\<rparr> in
       dcheck (ct_invariant t) (dcheck (1 \<le> total_num_chunks t) (Inr t)))"

definition ct_IsEmpty :: "ChunkTracker \<Rightarrow> bool" where
  "ct_IsEmpty t = Bitset_IsEmpty (chunks t)"

definition ct_IsDone :: "ChunkTracker \<Rightarrow> bool" where
  "ct_IsDone t = Bitset_IsFull (chunks t)"

definition ct_IsBusy :: "ChunkTracker \<Rightarrow> u32 \<Rightarrow> bool" where
  "ct_IsBusy t i = (i \<in> busy_chunks t)"

definition ct_Set :: "ChunkTracker \<Rightarrow> u32 \<Rightarrow> ChunkTracker res" where
  "ct_Set t i =
     dcheck (isValidChunk t i) (dcheck (i \<notin> busy_chunks t)
       (rbind (Bitset_Set (chunks t) i) (\<lambda>b. Inr (t\<lparr>chunks := b\<rparr>))))"

definition Acquire :: "ChunkTracker \<Rightarrow> u32 \<Rightarrow> (ChunkStatus \<times> ChunkTracker) res" where
  "Acquire t i =
     dcheck (isValidChunk t i) (dcheck (ct_invariant t)
       (rbind (Bitset_Get (chunks t) i) (\<lambda>d.
         if d then Inr (kDone, t)
         else if i \<in> busy_chunks t then Inr (kBusy, t\<lparr>num_chunks_dup := num_chunks_dup t + 1\<rparr>)
         else Inr (kEmpty, t\<lparr>busy_chunks := insert i (busy_chunks t)\<rparr>))))"

definition Release :: "ChunkTracker \<Rightarrow> u32 \<Rightarrow> bool \<Rightarrow> (bool \<times> ChunkTracker) res" where
  "Release t i success =
     dcheck (isValidChunk t i) (dcheck (ct_invariant t) (dcheck (i \<in> busy_chunks t)
       (rbind (Bitset_Get (chunks t) i) (\<lambda>d. dcheck (\<not> d)
         (let t' = t\<lparr>busy_chunks := busy_chunks t - {i}\<rparr> in
          if success
          then rbind (Bitset_Set (chunks t') i)
                 (\<lambda>b. Inr (Bitset_IsFull b, t'\<lparr>chunks := b\<rparr>))
          else Inr (False, t'))))))"

section \<open>The contract\<close>

locale chunk_ledger =
  fixes invar :: "'t \<Rightarrow> bool"
    and total :: "'t \<Rightarrow> nat"
    and status :: "'t \<Rightarrow> nat \<Rightarrow> ChunkStatus"
    and acquire :: "'t \<Rightarrow> u32 \<Rightarrow> (ChunkStatus \<times> 't) res"
    and release :: "'t \<Rightarrow> u32 \<Rightarrow> bool \<Rightarrow> (bool \<times> 't) res"
    and mark :: "'t \<Rightarrow> u32 \<Rightarrow> 't res"
    and complete :: "'t \<Rightarrow> bool"
  assumes acquire_law: "invar t \<Longrightarrow> unat i < total t \<Longrightarrow>
      \<exists>t'. acquire t i = Inr (status t (unat i), t') \<and> invar t' \<and> total t' = total t \<and>
        status t' = (if status t (unat i) = kEmpty then (status t)(unat i := kBusy) else status t)"
    and release_law: "invar t \<Longrightarrow> unat i < total t \<Longrightarrow> status t (unat i) = kBusy \<Longrightarrow>
      \<exists>t'. release t i ok = Inr (ok \<and> complete t', t') \<and> invar t' \<and> total t' = total t \<and>
        status t' = (status t)(unat i := if ok then kDone else kEmpty)"
    and mark_law: "invar t \<Longrightarrow> unat i < total t \<Longrightarrow> status t (unat i) \<noteq> kBusy \<Longrightarrow>
      \<exists>t'. mark t i = Inr t' \<and> invar t' \<and> total t' = total t \<and>
        status t' = (status t)(unat i := kDone)"
    and complete_law: "invar t \<Longrightarrow> complete t \<longleftrightarrow> (\<forall>k < total t. status t k = kDone)"
begin

text \<open>One delivery: acquire the chunk and, when it was empty, release it with success.\<close>

lemma deliver:
  assumes "invar t" "unat i < total t" "status t (unat i) = kEmpty"
  shows "\<exists>t' t'' fin. acquire t i = Inr (kEmpty, t') \<and> release t' i True = Inr (fin, t'') \<and>
    invar t'' \<and> total t'' = total t \<and> status t'' = (status t)(unat i := kDone) \<and>
    (fin \<longleftrightarrow> complete t'')"
proof -
  obtain t' where t': "acquire t i = Inr (kEmpty, t')" "invar t'" "total t' = total t"
      "status t' = (status t)(unat i := kBusy)"
    using acquire_law [OF assms(1,2)] assms(3) by auto
  then obtain t'' where t'': "release t' i True = Inr (complete t'', t'')" "invar t''"
      "total t'' = total t'" "status t'' = (status t')(unat i := kDone)"
    using release_law [OF t'(2), of i True] assms(2) by auto
  have "status t'' = (status t)(unat i := kDone)" using t'(4) t''(4) by simp
  then show ?thesis using t' t'' by auto
qed

lemma mark_idem:
  assumes "invar t" "unat i < total t" "status t (unat i) \<noteq> kBusy" "mark t i = Inr t'"
  shows "\<exists>t''. mark t' i = Inr t'' \<and> status t'' = status t' \<and> complete t'' = complete t'"
proof -
  have t': "invar t'" "total t' = total t" "status t' = (status t)(unat i := kDone)"
    using mark_law [OF assms(1-3)] assms(4) by auto
  with mark_law [OF t'(1), of i] assms(2) obtain t'' where
    "mark t' i = Inr t''" "invar t''" "total t'' = total t'" "status t'' = status t'"
    by auto
  then show ?thesis using t'(1) by (auto simp: complete_law)
qed

lemma complete_no_empty:
  "invar t \<Longrightarrow> complete t \<Longrightarrow> k < total t \<Longrightarrow> status t k = kDone"
  by (simp add: complete_law)

end

section \<open>The class implements the contract\<close>

definition ct_status :: "ChunkTracker \<Rightarrow> nat \<Rightarrow> ChunkStatus" where
  "ct_status t k =
     (if k \<in> members (chunks t) then kDone else if k \<in> unat ` busy_chunks t then kBusy else kEmpty)"

definition ct_total :: "ChunkTracker \<Rightarrow> nat" where
  "ct_total t = unat (total_num_chunks t)"

definition wf_ct :: "ChunkTracker \<Rightarrow> bool" where
  "wf_ct t \<longleftrightarrow> wf_Bitset (chunks t) \<and> ct_invariant t \<and>
     (\<forall>i \<in> busy_chunks t. i < total_num_chunks t \<and> unat i \<notin> members (chunks t))"

lemma wf_ct_simps:
  assumes "wf_ct t"
  shows "wf_Bitset (chunks t)" "ct_invariant t" "unat (bs_size (chunks t)) = ct_total t"
  using assms by (auto simp: wf_ct_def ct_invariant_def ct_total_def)

lemma valid_chunk: "isValidChunk t i \<longleftrightarrow> unat i < ct_total t"
  by (simp add: isValidChunk_def ct_total_def word_less_nat_alt)

lemma ct_IsDone_iff: "wf_ct t \<Longrightarrow> ct_IsDone t \<longleftrightarrow> (\<forall>k < ct_total t. ct_status t k = kDone)"
  using bs.members_bound [of "chunks t"]
  by (auto simp: ct_IsDone_def ct_status_def bs.full_law wf_ct_simps split: if_splits)

lemma ChunkTracker_new_ok:
  assumes "0 < n"
  shows "\<exists>t. ChunkTracker_new n = Inr t \<and> wf_ct t \<and> total_num_chunks t = n \<and>
    busy_chunks t = {} \<and> (\<forall>k. ct_status t k = kEmpty)"
proof -
  obtain b where b: "Bitset_new n = Inr b" "wf_Bitset b" "bs_size b = n" "members b = {}"
    using Bitset_new_ok [OF assms] by auto
  moreover have "1 \<le> n" using assms by (simp add: word_le_nat_alt word_less_nat_alt)
  ultimately show ?thesis
    by (simp add: ChunkTracker_new_def ct_invariant_def wf_ct_def ct_status_def)
qed

lemma Acquire_ok:
  assumes wf: "wf_ct t" and i: "unat i < ct_total t"
  shows "\<exists>t'. Acquire t i = Inr (ct_status t (unat i), t') \<and> wf_ct t' \<and> ct_total t' = ct_total t \<and>
    ct_status t' = (if ct_status t (unat i) = kEmpty then (ct_status t)(unat i := kBusy)
      else ct_status t)"
proof -
  have get: "Bitset_Get (chunks t) i = Inr (unat i \<in> members (chunks t))"
    using i by (intro bs.get_law wf_ct_simps [OF wf]) (simp add: wf_ct_simps [OF wf])
  show ?thesis
    using wf i
    by (auto simp: Acquire_def valid_chunk wf_ct_simps get ct_status_def wf_ct_def ct_total_def
        ct_invariant_def word_less_nat_alt fun_eq_iff)
qed

lemma Release_ok:
  assumes wf: "wf_ct t" and i: "unat i < ct_total t" and busy: "ct_status t (unat i) = kBusy"
  shows "\<exists>t'. Release t i ok = Inr (ok \<and> ct_IsDone t', t') \<and> wf_ct t' \<and> ct_total t' = ct_total t \<and>
    ct_status t' = (ct_status t)(unat i := if ok then kDone else kEmpty)"
proof -
  have nd: "unat i \<notin> members (chunks t)" and b: "i \<in> busy_chunks t"
    using busy by (auto simp: ct_status_def split: if_splits)
  have sz: "unat i < unat (bs_size (chunks t))" using i by (simp add: wf_ct_simps [OF wf])
  have get: "Bitset_Get (chunks t) i = Inr False"
    using bs.get_law [OF wf_ct_simps(1) [OF wf] sz] nd by simp
  obtain b' where b': "Bitset_Set (chunks t) i = Inr b'" "wf_Bitset b'"
      "bs_size b' = bs_size (chunks t)" "members b' = insert (unat i) (members (chunks t))"
    using Bitset_Set_ok [OF wf_ct_simps(1) [OF wf] sz] by auto
  have im: "unat ` (busy_chunks t - {i}) = unat ` busy_chunks t - {unat i}"
    by auto
  show ?thesis
  proof (cases ok)
    case True
    then show ?thesis
      using wf i b nd b'
      by (auto simp: Release_def valid_chunk get wf_ct_simps ct_IsDone_def ct_status_def wf_ct_def
          ct_total_def ct_invariant_def im fun_eq_iff)
  next
    case False
    then show ?thesis
      using wf i b nd
      by (auto simp: Release_def valid_chunk get wf_ct_simps ct_status_def wf_ct_def
          ct_total_def ct_invariant_def im fun_eq_iff)
  qed
qed

lemma ct_Set_ok:
  assumes wf: "wf_ct t" and i: "unat i < ct_total t" and nb: "ct_status t (unat i) \<noteq> kBusy"
  shows "\<exists>t'. ct_Set t i = Inr t' \<and> wf_ct t' \<and> ct_total t' = ct_total t \<and>
    ct_status t' = (ct_status t)(unat i := kDone)"
proof -
  have b: "i \<notin> busy_chunks t"
    using wf nb by (auto simp: ct_status_def wf_ct_def split: if_splits)
  have sz: "unat i < unat (bs_size (chunks t))" using i by (simp add: wf_ct_simps [OF wf])
  obtain b' where b': "Bitset_Set (chunks t) i = Inr b'" "wf_Bitset b'"
      "bs_size b' = bs_size (chunks t)" "members b' = insert (unat i) (members (chunks t))"
    using Bitset_Set_ok [OF wf_ct_simps(1) [OF wf] sz] by auto
  show ?thesis
    using wf i b b'
    by (auto simp: ct_Set_def valid_chunk ct_status_def wf_ct_def ct_total_def ct_invariant_def
        fun_eq_iff)
qed

interpretation ct: chunk_ledger wf_ct ct_total ct_status Acquire Release ct_Set ct_IsDone
  by unfold_locales (simp_all add: Acquire_ok Release_ok ct_Set_ok ct_IsDone_iff)

section \<open>Writer threads\<close>

text \<open>
  Any number of threads share one tracker, as the receive workers of
  \<^verbatim>\<open>internal/transfer/transfer.cc\<close> do: a thread that is not writing calls \<^verbatim>\<open>Acquire\<close> and writes
  only after the answer EMPTY; a thread that is writing chunk \<open>i\<close> eventually calls
  \<^verbatim>\<open>Release\<close> for \<open>i\<close>. The mutex makes each call one step; the threads interleave freely.
\<close>

datatype ct_event =
    Acquired nat u32
  | Refused nat u32 ChunkStatus
  | Released nat u32 bool bool  \<comment> \<open>thread, chunk, success, result of \<^verbatim>\<open>Release\<close>\<close>

record ct_sys =
  sys_ct :: ChunkTracker
  sys_wr :: "nat \<Rightarrow> u32 option"  \<comment> \<open>the chunk each thread is writing\<close>

inductive ct_step :: "ct_sys \<Rightarrow> ct_event \<Rightarrow> ct_sys \<Rightarrow> bool" where
  acquired: "sys_wr s w = None \<Longrightarrow> unat i < ct_total (sys_ct s) \<Longrightarrow>
    Acquire (sys_ct s) i = Inr (kEmpty, t) \<Longrightarrow>
    ct_step s (Acquired w i) (s\<lparr>sys_ct := t, sys_wr := (sys_wr s)(w := Some i)\<rparr>)"
| refused: "sys_wr s w = None \<Longrightarrow> unat i < ct_total (sys_ct s) \<Longrightarrow>
    Acquire (sys_ct s) i = Inr (st, t) \<Longrightarrow> st \<noteq> kEmpty \<Longrightarrow>
    ct_step s (Refused w i st) (s\<lparr>sys_ct := t\<rparr>)"
| released: "sys_wr s w = Some i \<Longrightarrow> Release (sys_ct s) i ok = Inr (fin, t) \<Longrightarrow>
    ct_step s (Released w i ok fin) (s\<lparr>sys_ct := t, sys_wr := (sys_wr s)(w := None)\<rparr>)"

inductive_cases ct_step_acquiredE: "ct_step s (Acquired w i) s'"
inductive_cases ct_step_releasedE: "ct_step s (Released w i ok fin) s'"

inductive ct_run :: "u32 \<Rightarrow> ct_event list \<Rightarrow> ct_sys \<Rightarrow> bool" for n where
  start: "ChunkTracker_new n = Inr t \<Longrightarrow> ct_run n [] \<lparr>sys_ct = t, sys_wr = (\<lambda>_. None)\<rparr>"
| step: "ct_run n es s \<Longrightarrow> ct_step s e s' \<Longrightarrow> ct_run n (es @ [e]) s'"

fun is_completion :: "ct_event \<Rightarrow> bool" where
  "is_completion (Released _ _ _ fin) = fin"
| "is_completion _ = False"

definition ct_sys_inv :: "ct_sys \<Rightarrow> bool" where
  "ct_sys_inv s \<longleftrightarrow> wf_ct (sys_ct s) \<and> 0 < ct_total (sys_ct s) \<and>
     (\<forall>w i. sys_wr s w = Some i \<longrightarrow>
        unat i < ct_total (sys_ct s) \<and> ct_status (sys_ct s) (unat i) = kBusy) \<and>
     (\<forall>w w' i. sys_wr s w = Some i \<longrightarrow> sys_wr s w' = Some i \<longrightarrow> w = w')"

lemma ct_sys_invD:
  assumes "ct_sys_inv s"
  shows "wf_ct (sys_ct s)" "0 < ct_total (sys_ct s)"
    and "\<And>w i. sys_wr s w = Some i \<Longrightarrow> unat i < ct_total (sys_ct s)"
    and "\<And>w i. sys_wr s w = Some i \<Longrightarrow> ct_status (sys_ct s) (unat i) = kBusy"
    and "\<And>w w' i. sys_wr s w = Some i \<Longrightarrow> sys_wr s w' = Some i \<Longrightarrow> w = w'"
  using assms by (auto simp: ct_sys_inv_def)

text \<open>What one step does to the statuses, to the invariant and to completion.\<close>

lemma ct_step_effect:
  assumes "ct_step s e s'" "ct_sys_inv s"
  shows "ct_sys_inv s' \<and>
    (\<forall>k. ct_status (sys_ct s) k = kDone \<longrightarrow> ct_status (sys_ct s') k = kDone) \<and>
    (is_completion e \<longleftrightarrow> ct_IsDone (sys_ct s') \<and> \<not> ct_IsDone (sys_ct s)) \<and>
    (ct_IsDone (sys_ct s) \<longrightarrow> ct_IsDone (sys_ct s'))"
  using assms
proof (cases rule: ct_step.cases)
  case (acquired w i t)
  note inv = ct_sys_invD [OF assms(2)]
  from ct.acquire_law [OF inv(1) acquired(4)] acquired(5)
  have t: "wf_ct t" "ct_total t = ct_total (sys_ct s)" "ct_status (sys_ct s) (unat i) = kEmpty"
    "ct_status t = (ct_status (sys_ct s))(unat i := kBusy)" by auto
  have "\<not> ct_IsDone (sys_ct s)" "\<not> ct_IsDone t"
    using t inv(1) acquired(4) by (auto simp: ct.complete_law)
  then show ?thesis
    using assms(2) acquired t by (auto simp: ct_sys_inv_def)
next
  case (refused w i st t)
  note inv = ct_sys_invD [OF assms(2)]
  from ct.acquire_law [OF inv(1) refused(4)] refused(5,6)
  have t: "wf_ct t" "ct_total t = ct_total (sys_ct s)" "ct_status t = ct_status (sys_ct s)"
    by (auto split: if_splits)
  then show ?thesis
    using assms(2) refused inv(1) by (auto simp: ct_sys_inv_def ct.complete_law)
next
  case (released w i ok fin t)
  note inv = ct_sys_invD [OF assms(2)]
  from ct.release_law [OF inv(1) inv(3,4) [OF released(3)], of ok] released(4)
  have t: "fin \<longleftrightarrow> ok \<and> ct_IsDone t" "wf_ct t" "ct_total t = ct_total (sys_ct s)"
    "ct_status t = (ct_status (sys_ct s))(unat i := if ok then kDone else kEmpty)" by auto
  have "\<not> ct_IsDone (sys_ct s)" "ct_IsDone t \<Longrightarrow> ok"
    using t inv(1) inv(3,4) [OF released(3)] by (auto simp: ct.complete_law)
  then show ?thesis
    using assms(2) released t by (fastforce simp: ct_sys_inv_def)
qed

lemma ct_run_inv: "ct_run n es s \<Longrightarrow> ct_sys_inv s \<and>
    length (filter is_completion es) = (if ct_IsDone (sys_ct s) then 1 else 0)"
proof (induction rule: ct_run.induct)
  case (start t)
  have "0 < n"
    using start by (auto simp: ChunkTracker_new_def Bitset_new_def Let_def res_simps)
  from ChunkTracker_new_ok [OF this] start
  have "wf_ct t" "0 < ct_total t" "ct_status t 0 = kEmpty"
    using \<open>0 < n\<close> by (auto simp: ct_total_def word_less_nat_alt)
  then show ?case by (auto simp: ct_sys_inv_def ct.complete_law)
next
  case (step es s e s')
  then show ?case
    using ct_step_effect [OF step.hyps(2)] by auto
qed

text \<open>
  C5. Exclusive chunk writes and one completion per request: in every interleaving of
  writer threads over a tracker of \<open>n\<close> chunks, no two threads ever hold write access to the
  same chunk, and \<^verbatim>\<open>Release\<close> has answered true exactly once when all chunks are done and
  never before.
\<close>

theorem writers_exclusive_single_completion:
  assumes "ct_run n es s"
  shows "(\<forall>w w' i. sys_wr s w = Some i \<longrightarrow> sys_wr s w' = Some i \<longrightarrow> w = w') \<and>
    length (filter is_completion es) = (if ct_IsDone (sys_ct s) then 1 else 0)"
  using ct_run_inv [OF assms] by (auto simp: ct_sys_inv_def)

text \<open>A run in which two threads race for chunk 0 of a two-chunk request and both chunks finish.\<close>

definition demo_run :: "ct_event list" where
  "demo_run = [Acquired 0 0, Refused 1 0 kBusy, Acquired 1 1, Released 0 0 True False,
     Released 1 1 True True]"

definition demo_ct :: "u32 \<Rightarrow> u64 \<Rightarrow> u32 set \<Rightarrow> ChunkTracker" where
  "demo_ct dup u busy =
     \<lparr>total_num_chunks = 2, num_chunks_dup = dup, chunks = \<lparr>bs_size = 2, bs_units = [u]\<rparr>,
      busy_chunks = busy\<rparr>"

lemma unit_count_1: "unit_count 1 = 1"
  by code_simp

lemma unit_count_3: "unit_count 3 = 2"
  by code_simp

lemma set_bit_1_1: "set_bit (Suc 0) (1 :: u64) = 3"
  by code_simp

lemmas ct_evals = demo_ct_def ct_total_def Acquire_def Release_def ChunkTracker_new_def Bitset_new_def
  Bitset_Get_def Bitset_Set_def Bitset_IsFull_def Bitset_IsEmpty_def Bitset_Count_def unit_count_1 unit_count_3
  isValidChunk_def ct_invariant_def ct_IsDone_def numUnits_def u_of_def b_of_def kUnitBitMask_def
  kUnitSize_def kUnitShift_def vec_at_def

lemma demo_run_ok:
  "ct_run 2 demo_run \<lparr>sys_ct = demo_ct 1 3 {}, sys_wr = (\<lambda>_. None)(0 := None, 1 := None)\<rparr>"
proof -
  have 0: "ct_run 2 [] \<lparr>sys_ct = demo_ct 0 0 {}, sys_wr = (\<lambda>_. None)\<rparr>"
    by (rule ct_run.start) (simp add: ct_evals)
  have 1: "ct_run 2 [Acquired 0 0] \<lparr>sys_ct = demo_ct 0 0 {0}, sys_wr = (\<lambda>_. None)(0 := Some 0)\<rparr>"
    using ct_run.step [OF 0 ct_step.acquired [of _ 0 0 "demo_ct 0 0 {0}"]]
    by (simp add: ct_evals)
  have 2: "ct_run 2 [Acquired 0 0, Refused 1 0 kBusy]
      \<lparr>sys_ct = demo_ct 1 0 {0}, sys_wr = (\<lambda>_. None)(0 := Some 0)\<rparr>"
    using ct_run.step [OF 1 ct_step.refused [of _ 1 0 kBusy "demo_ct 1 0 {0}"]]
    by (simp add: ct_evals)
  have 3: "ct_run 2 [Acquired 0 0, Refused 1 0 kBusy, Acquired 1 1]
      \<lparr>sys_ct = demo_ct 1 0 {0, 1}, sys_wr = (\<lambda>_. None)(0 := Some 0, 1 := Some 1)\<rparr>"
    using ct_run.step [OF 2 ct_step.acquired [of _ 1 1 "demo_ct 1 0 {0, 1}"]]
    by (simp add: ct_evals insert_commute)
  have 4: "ct_run 2 [Acquired 0 0, Refused 1 0 kBusy, Acquired 1 1, Released 0 0 True False]
      \<lparr>sys_ct = demo_ct 1 1 {1}, sys_wr = (\<lambda>_. None)(1 := Some 1, 0 := None)\<rparr>"
    using ct_run.step [OF 3 ct_step.released [of _ 0 0 True False "demo_ct 1 1 {1}"]]
    by (simp add: ct_evals fun_upd_twist insert_Diff_if)
  show ?thesis
    using ct_run.step [OF 4 ct_step.released [of _ 1 1 True True "demo_ct 1 3 {}"]]
    by (simp add: ct_evals demo_run_def set_bit_1_1)
qed

theorem writers_exclusive_single_completion_witness:
  "length (filter is_completion demo_run) = 1"
  using writers_exclusive_single_completion [OF demo_run_ok] by (simp add: ct_evals)

end
