(* ===== verification/IoVec.thy ===== *)
theory IoVec
  imports Prelude
begin

text \<open>
  Scatter/gather buffers: \<^verbatim>\<open>IoVec\<close> and its helpers of \<^verbatim>\<open>internal/util/util.{h,cc}\<close>, and the cursor of
  \<^verbatim>\<open>internal/lib/iovec_cursor.h\<close> that sockets advance after a partial send or receive. The
  cursor is related to the list of byte addresses it still spans: advancing by \<open>n\<close> drops
  exactly the first \<open>n\<close> of them.
\<close>

section \<open>Clamping and power-of-two helpers\<close>

definition ClampU16 :: "u64 \<Rightarrow> u16" where
  "ClampU16 v = ucast (min v 65535)"

definition ClampU32 :: "u64 \<Rightarrow> u32" where
  "ClampU32 v = ucast (min v 4294967295)"

definition ClampI8 :: "int \<Rightarrow> u8" where
  "ClampI8 v = word_of_int (max (-128) (min 127 v))"

definition ClampI16 :: "int \<Rightarrow> u16" where
  "ClampI16 v = word_of_int (max (-32768) (min 32767 v))"

definition IsPowerOfTwo :: "'a::len word \<Rightarrow> bool" where
  "IsPowerOfTwo n = (n > 0 \<and> n AND (n - 1) = 0)"

lemma unat_ClampU16: "unat (ClampU16 v) = min (unat v) 65535"
  by (auto simp: ClampU16_def unat_ucast_mod min_def word_le_nat_alt)

lemma unat_ClampU32: "unat (ClampU32 v) = min (unat v) 4294967295"
  by (auto simp: ClampU32_def unat_ucast_mod min_def word_le_nat_alt)

lemma sint_ClampI8: "sint (ClampI8 v) = max (-128) (min 127 v)"
  by (simp add: ClampI8_def signed_of_int) (simp add: signed_take_bit_int_eq_self)

lemma sint_ClampI16: "sint (ClampI16 v) = max (-32768) (min 32767 v)"
  by (simp add: ClampI16_def signed_of_int) (simp add: signed_take_bit_int_eq_self)

section \<open>IoVec\<close>

record IoVec =
  iov_base :: u64
  iov_len :: u64

definition IsValid_IoVec :: "IoVec \<Rightarrow> bool" where
  "IsValid_IoVec v = (iov_base v \<noteq> 0 \<and> iov_len v \<ge> 1)"

definition IsValid_IoVecs :: "IoVec list \<Rightarrow> bool" where
  "IsValid_IoVecs vs = list_all IsValid_IoVec vs"

definition TotalLength :: "IoVec list \<Rightarrow> u64" where
  "TotalLength vs = foldl (\<lambda>sum v. sum + iov_len v) 0 vs"

definition span_len :: "IoVec list \<Rightarrow> nat" where
  "span_len vs = sum_list (map (\<lambda>v. unat (iov_len v)) vs)"

definition addrs :: "IoVec \<Rightarrow> u64 list" where
  "addrs v = map (\<lambda>k. iov_base v + of_nat k) [0..<unat (iov_len v)]"

definition span_addrs :: "IoVec list \<Rightarrow> u64 list" where
  "span_addrs vs = concat (map addrs vs)"

lemma length_addrs [simp]: "length (addrs v) = unat (iov_len v)"
  by (simp add: addrs_def)

lemma length_span_addrs [simp]: "length (span_addrs vs) = span_len vs"
  by (simp add: span_addrs_def span_len_def length_concat comp_def)

lemma span_simps [simp]:
  "span_addrs [] = []" "span_len [] = 0"
  "span_addrs (v # vs) = addrs v @ span_addrs vs"
  "span_len (v # vs) = unat (iov_len v) + span_len vs"
  by (simp_all add: span_addrs_def span_len_def)

lemma TotalLength_eq: "TotalLength vs = of_nat (span_len vs)"
proof -
  have "foldl (\<lambda>sum v. sum + iov_len v) a vs = a + of_nat (span_len vs)" for a
    by (induction vs arbitrary: a) (simp_all add: algebra_simps)
  then show ?thesis by (simp add: TotalLength_def)
qed

lemma unat_TotalLength:
  "span_len vs < 18446744073709551616 \<Longrightarrow> unat (TotalLength vs) = span_len vs"
  by (simp add: TotalLength_eq)

text \<open>Dropping a prefix of a buffer moves its base and shortens it.\<close>

lemma addrs_drop:
  assumes "n < iov_len v"
  shows "addrs \<lparr>iov_base = iov_base v + n, iov_len = iov_len v - n\<rparr> = drop (unat n) (addrs v)"
proof (rule nth_equalityI)
  have len: "unat (iov_len v - n) = unat (iov_len v) - unat n"
    using assms by (simp add: unat_sub)
  then show "length (addrs \<lparr>iov_base = iov_base v + n, iov_len = iov_len v - n\<rparr>) =
      length (drop (unat n) (addrs v))" by simp
  fix i assume "i < length (addrs \<lparr>iov_base = iov_base v + n, iov_len = iov_len v - n\<rparr>)"
  with len show "addrs \<lparr>iov_base = iov_base v + n, iov_len = iov_len v - n\<rparr> ! i =
      drop (unat n) (addrs v) ! i"
    by (simp add: addrs_def)
qed

section \<open>The cursor\<close>

record IoVecCursor =
  iovs :: "IoVec list"
  cur :: nat  \<comment> \<open>index of the current item; the end pointer is \<open>length iovs\<close>\<close>
  bytes_left :: u64
  bytes_total :: u64

definition TotalItems :: "IoVecCursor \<Rightarrow> nat" where
  "TotalItems c = length (iovs c)"

definition RemainingItems :: "IoVecCursor \<Rightarrow> nat" where
  "RemainingItems c = length (iovs c) - cur c"

definition RemainingSpan :: "IoVecCursor \<Rightarrow> IoVec list" where
  "RemainingSpan c = drop (cur c) (iovs c)"

definition Head :: "IoVecCursor \<Rightarrow> IoVec option" where
  "Head c = (if cur c < length (iovs c) then Some (iovs c ! cur c) else None)"

definition cursor_invariant :: "IoVecCursor \<Rightarrow> bool" where
  "cursor_invariant c = (IsValid_IoVecs (iovs c) \<and> cur c \<le> length (iovs c) \<and>
     bytes_left c \<le> bytes_total c \<and> bytes_left c = TotalLength (drop (cur c) (iovs c)) \<and>
     bytes_left c \<le> 9223372036854775807)"

definition IoVecCursor_new :: "IoVec list \<Rightarrow> IoVecCursor res" where
  "IoVecCursor_new vs =
     (let c = \<lparr>iovs = vs, cur = 0, bytes_left = TotalLength vs, bytes_total = TotalLength vs\<rparr> in
      dcheck (1 \<le> TotalLength vs) (dcheck (TotalLength vs < 9223372036854775808)
        (dcheck (cursor_invariant c) (Inr c))))"

function advance_loop :: "IoVec list \<Rightarrow> nat \<Rightarrow> u64 \<Rightarrow> IoVec list \<times> nat" where
  "advance_loop vs i n =
     (if i < length vs
      then let v = vs ! i in
           if n < iov_len v
           then (vs[i := \<lparr>iov_base = iov_base v + n, iov_len = iov_len v - n\<rparr>], i)
           else advance_loop vs (Suc i) (n - iov_len v)
      else (vs, i))"
  by pat_completeness auto
termination
  by (relation "measure (\<lambda>(vs, i, n). length vs - i)") auto

declare advance_loop.simps [simp del]

definition Advance :: "IoVecCursor \<Rightarrow> u64 \<Rightarrow> (bool \<times> IoVecCursor) res" where
  "Advance c n =
     dcheck (1 \<le> n) (dcheck (n \<le> bytes_left c) (dcheck (cursor_invariant c)
       (let c = c\<lparr>bytes_left := bytes_left c - n\<rparr> in
        if bytes_left c = 0 then Inr (True, c\<lparr>cur := length (iovs c)\<rparr>)
        else let (vs, i) = advance_loop (iovs c) (cur c) n;
                 c' = c\<lparr>iovs := vs, cur := i\<rparr>
             in dcheck (cursor_invariant c') (dcheck (i < length vs) (Inr (length vs \<le> i, c'))))))"

section \<open>Advancing drops a prefix of the addresses\<close>

text \<open>
  The cursor's own invariant, with the length of the span as a natural number: the sum of
  the lengths does not wrap, as for buffers that exist in one address space.
\<close>

definition in_space :: "IoVec \<Rightarrow> bool" where
  "in_space v \<longleftrightarrow> IsValid_IoVec v \<and> unat (iov_base v) + unat (iov_len v) \<le> 2 ^ 64"

definition wf_iovs :: "IoVec list \<Rightarrow> bool" where
  "wf_iovs vs = list_all in_space vs"

lemma wf_iovs_valid: "wf_iovs vs \<Longrightarrow> IsValid_IoVecs vs"
  by (auto simp: wf_iovs_def IsValid_IoVecs_def in_space_def list_all_iff)

lemma in_space_drop:
  assumes "in_space v" "n < iov_len v"
  shows "in_space \<lparr>iov_base = iov_base v + n, iov_len = iov_len v - n\<rparr>"
proof -
  have n: "unat n < unat (iov_len v)" using assms(2) by (simp add: word_less_nat_alt)
  have b: "0 < unat (iov_base v)" "unat (iov_base v) + unat (iov_len v) \<le> 18446744073709551616"
    using assms(1) by (auto simp: in_space_def IsValid_IoVec_def unat_gt_0)
  have base: "unat (iov_base v + n) = unat (iov_base v) + unat n"
    using n b by (simp add: unat_word_ariths)
  moreover have "unat (iov_len v - n) = unat (iov_len v) - unat n"
    using assms(2) by (simp add: unat_sub)
  moreover have "iov_base v + n \<noteq> 0" using base b by (metis add_is_0 unat_0 less_numeral_extra(3))
  moreover have "1 \<le> iov_len v - n"
    using n \<open>unat (iov_len v - n) = _\<close> by (simp add: word_le_nat_alt)
  ultimately show ?thesis using n b by (simp add: in_space_def IsValid_IoVec_def)
qed

definition cursor_addrs :: "IoVecCursor \<Rightarrow> u64 list" where
  "cursor_addrs c = span_addrs (RemainingSpan c)"

definition wf_cursor :: "IoVecCursor \<Rightarrow> bool" where
  "wf_cursor c \<longleftrightarrow> wf_iovs (iovs c) \<and> cur c \<le> length (iovs c) \<and>
     span_len (RemainingSpan c) = unat (bytes_left c) \<and>
     bytes_left c \<le> bytes_total c \<and> bytes_left c \<le> 9223372036854775807"

lemma wf_cursor_invariant: "wf_cursor c \<Longrightarrow> cursor_invariant c"
  by (simp add: wf_cursor_def cursor_invariant_def RemainingSpan_def TotalLength_eq wf_iovs_valid)

lemma wf_cursor_length: "wf_cursor c \<Longrightarrow> length (cursor_addrs c) = unat (bytes_left c)"
  by (simp add: wf_cursor_def cursor_addrs_def)

lemma IoVecCursor_new_ok:
  assumes "wf_iovs vs" "1 \<le> span_len vs" "span_len vs < 2 ^ 63"
  shows "\<exists>c. IoVecCursor_new vs = Inr c \<and> wf_cursor c \<and> cursor_addrs c = span_addrs vs"
proof -
  let ?c = "\<lparr>iovs = vs, cur = 0, bytes_left = TotalLength vs, bytes_total = TotalLength vs\<rparr>"
  have len: "unat (TotalLength vs) = span_len vs" using assms(3) by (simp add: unat_TotalLength)
  then have wf: "wf_cursor ?c"
    using assms by (simp add: wf_cursor_def RemainingSpan_def word_le_nat_alt)
  then have "IoVecCursor_new vs = Inr ?c"
    using assms(2,3) len wf_cursor_invariant [OF wf]
    by (simp add: IoVecCursor_new_def word_le_nat_alt word_less_nat_alt)
  with wf show ?thesis by (simp add: cursor_addrs_def RemainingSpan_def)
qed

lemma advance_loop_ok:
  assumes "wf_iovs vs" "i \<le> length vs" "unat n < span_len (drop i vs)"
  shows "\<exists>vs' j. advance_loop vs i n = (vs', j) \<and> i \<le> j \<and> j < length vs' \<and>
    length vs' = length vs \<and> wf_iovs vs' \<and>
    span_addrs (drop j vs') = drop (unat n) (span_addrs (drop i vs))"
  using assms
proof (induction vs i n rule: advance_loop.induct)
  case (1 vs i n)
  have i: "i < length vs" using "1.prems"(2,3) by (cases "i = length vs") auto
  let ?v = "vs ! i"
  have d: "drop i vs = ?v # drop (Suc i) vs" using i by (simp add: Cons_nth_drop_Suc)
  have v: "in_space ?v" using "1.prems"(1) i by (simp add: wf_iovs_def list_all_length)
  show ?case
  proof (cases "n < iov_len ?v")
    case True
    let ?w = "\<lparr>iov_base = iov_base ?v + n, iov_len = iov_len ?v - n\<rparr>"
    have "advance_loop vs i n = (vs[i := ?w], i)"
      using i True by (simp add: advance_loop.simps [of vs i n] Let_def)
    moreover have "wf_iovs (vs[i := ?w])"
      using "1.prems"(1) in_space_drop [OF v True] set_update_subset_insert [of vs i ?w]
      by (auto simp: wf_iovs_def list_all_iff)
    moreover have "drop i (vs[i := ?w]) = ?w # drop (Suc i) vs"
      using i by (metis Cons_nth_drop_Suc drop_update_cancel length_list_update lessI nth_list_update_eq)
    moreover have "unat n \<le> length (addrs ?v)" using True by (simp add: word_less_nat_alt)
    ultimately show ?thesis using i True by (simp add: d addrs_drop)
  next
    case False
    have le: "iov_len ?v \<le> n" using False by simp
    then have sub: "unat (n - iov_len ?v) = unat n - unat (iov_len ?v)"
      by (simp add: unat_sub)
    have "unat (n - iov_len ?v) < span_len (drop (Suc i) vs)"
      using "1.prems"(3) le by (simp add: d sub word_le_nat_alt)
    from "1.IH" [OF i refl False "1.prems"(1) _ this] i
    obtain vs' j where "advance_loop vs (Suc i) (n - iov_len ?v) = (vs', j)" "Suc i \<le> j"
      "j < length vs'" "length vs' = length vs" "wf_iovs vs'"
      "span_addrs (drop j vs') = drop (unat n - unat (iov_len ?v)) (span_addrs (drop (Suc i) vs))"
      by (auto simp: sub)
    then show ?thesis
      using i False le by (simp add: advance_loop.simps [of vs i n] Let_def d word_le_nat_alt)
  qed
qed


lemma Advance_ok:
  assumes wf: "wf_cursor c" and n: "1 \<le> n" "n \<le> bytes_left c"
  shows "\<exists>b c'. Advance c n = Inr (b, c') \<and> wf_cursor c' \<and>
    cursor_addrs c' = drop (unat n) (cursor_addrs c) \<and> (b \<longleftrightarrow> cursor_addrs c' = []) \<and>
    bytes_left c' = bytes_left c - n \<and> bytes_total c' = bytes_total c"
proof (cases "bytes_left c - n = 0")
  case True
  then have n': "n = bytes_left c" by simp
  let ?c = "c\<lparr>bytes_left := 0, cur := length (iovs c)\<rparr>"
  have "Advance c n = Inr (True, ?c)"
    using n wf_cursor_invariant [OF wf] n' by (simp add: Advance_def)
  moreover have "wf_cursor ?c" using wf by (simp add: wf_cursor_def RemainingSpan_def)
  moreover have "drop (unat n) (cursor_addrs c) = []" "cursor_addrs ?c = []"
    using wf n' by (simp_all add: wf_cursor_length cursor_addrs_def RemainingSpan_def wf_cursor_def)
  ultimately show ?thesis using n' by auto
next
  case False
  have left: "unat (bytes_left c - n) = unat (bytes_left c) - unat n"
    using n(2) by (simp add: unat_sub)
  have pos: "0 < unat (bytes_left c - n)" using False by (simp add: unat_gt_0)
  have span: "span_len (drop (cur c) (iovs c)) = unat (bytes_left c)"
    using wf by (simp add: wf_cursor_def RemainingSpan_def)
  obtain vs j where l: "advance_loop (iovs c) (cur c) n = (vs, j)" "j < length vs" "wf_iovs vs"
      "span_addrs (drop j vs) = drop (unat n) (span_addrs (drop (cur c) (iovs c)))"
    using advance_loop_ok [of "iovs c" "cur c" n] wf left pos span
    by (auto simp: wf_cursor_def)
  let ?c = "c\<lparr>bytes_left := bytes_left c - n, iovs := vs, cur := j\<rparr>"
  have "span_len (drop j vs) = unat (bytes_left c - n)"
    using arg_cong [OF l(4), of length] span left by simp
  moreover have "bytes_left c - n \<le> bytes_left c" using n(2) left by (simp add: word_le_nat_alt)
  ultimately have wf': "wf_cursor ?c"
    using wf l by (auto simp: wf_cursor_def RemainingSpan_def)
  have "Advance c n = Inr (False, ?c)"
    using n wf_cursor_invariant [OF wf] wf_cursor_invariant [OF wf'] False l
    by (simp add: Advance_def Let_def)
  moreover have "cursor_addrs ?c = drop (unat n) (cursor_addrs c)"
    using l(4) by (simp add: cursor_addrs_def RemainingSpan_def)
  moreover have "cursor_addrs ?c \<noteq> []"
    using wf_cursor_length [OF wf'] pos by auto
  ultimately show ?thesis using wf' by auto
qed

text \<open>
  A cursor over buffers that fit the address space, advanced by any \<open>n\<close> within the
  remaining bytes, passes all its checks, spans exactly the byte addresses that were left
  after the first \<open>n\<close>, and answers true exactly when nothing is left. Sockets rely on it to
  continue a partial send or receive where it stopped.
\<close>

theorem cursor_advance_drops_prefix:
  assumes "wf_cursor c" and "1 \<le> n" and "n \<le> bytes_left c"
  shows "\<exists>b c'. Advance c n = Inr (b, c') \<and> wf_cursor c' \<and>
    cursor_addrs c' = drop (unat n) (cursor_addrs c) \<and> (b \<longleftrightarrow> cursor_addrs c' = [])"
  using Advance_ok [OF assms] by blast

definition demo_cursor :: IoVecCursor where
  "demo_cursor = \<lparr>iovs = [\<lparr>iov_base = 100, iov_len = 3\<rparr>, \<lparr>iov_base = 200, iov_len = 2\<rparr>],
     cur = 0, bytes_left = 5, bytes_total = 5\<rparr>"

theorem cursor_advance_drops_prefix_witness:
  "\<exists>b c'. Advance demo_cursor 4 = Inr (b, c') \<and> cursor_addrs c' = [201] \<and> \<not> b"
proof -
  have wf: "wf_cursor demo_cursor"
    by (simp add: demo_cursor_def wf_cursor_def wf_iovs_def in_space_def IsValid_IoVec_def
        RemainingSpan_def)
  have "cursor_addrs demo_cursor = [100, 101, 102, 200, 201]"
    by (simp add: demo_cursor_def cursor_addrs_def RemainingSpan_def addrs_def upt_rec)
  then show ?thesis
    using cursor_advance_drops_prefix [OF wf, of 4] by (auto simp: demo_cursor_def)
qed

end
