(* ===== verification/Header.thy ===== *)
theory Header
  imports Endpoint ChunkTracker IoVec
begin

text \<open>
  \<^verbatim>\<open>internal/chunk/header.{h,cc}\<close>, \<^verbatim>\<open>header_flatbuf.{h,cc}\<close> and \<^verbatim>\<open>trace/chunk_trace_wire.h\<close>: the
  64-byte chunk headers and the 128-byte request descriptors, with their wire format.

  The accessors and constructors of the FlatBuffers structs are generated from
  \<^verbatim>\<open>header.fbs\<close> at build time. They are the fields of \<open>fb_abi\<close>: for each struct the bytes
  of a constructed value and the value read from bytes. The locale \<open>flatbuf_structs\<close>
  states what the code relies on, and is interpreted on the layout the schema prescribes:
  fields in order, little-endian, with explicit padding.

  Enumerations read from the wire are kept as bytes, since a cast accepts every value.
\<close>

section \<open>Trace metadata carried by a chunk\<close>

record ChunkTraceWire =
  tx_send_us :: u64
  rx_payload_us :: u32
  rx_acquire_us :: u16
  rx_worker_id :: u8
  rx_chunk_status :: u8

definition ChunkTraceWire_new :: ChunkTraceWire where
  "ChunkTraceWire_new = \<lparr>tx_send_us = 0, rx_payload_us = 0, rx_acquire_us = 0,
     rx_worker_id = 0, rx_chunk_status = 0\<rparr>"

definition IsTraced :: "ChunkTraceWire \<Rightarrow> bool" where
  "IsTraced t \<longleftrightarrow> tx_send_us t \<noteq> 0"

definition SetTraced :: "ChunkTraceWire \<Rightarrow> ChunkTraceWire" where
  "SetTraced t = t\<lparr>tx_send_us := 1\<rparr>"

definition SetRx :: "int \<Rightarrow> ChunkStatus \<Rightarrow> u64 \<Rightarrow> u64 \<Rightarrow> u64 \<Rightarrow> ChunkTraceWire \<Rightarrow> ChunkTraceWire" where
  "SetRx worker_id s t_start_us t_acquired_us t_done_us t = t\<lparr>
     rx_worker_id := ClampI8 worker_id,
     rx_chunk_status := ChunkStatus_value s,
     rx_acquire_us := ClampU16 (t_acquired_us - t_start_us),
     rx_payload_us := ClampU32 (t_done_us - t_acquired_us)\<rparr>"

section \<open>Headers\<close>

definition kPostInfo :: u8 where "kPostInfo = 1"
definition kData :: u8 where "kData = 2"

definition kSerializedRequestInfoSize :: u32 where "kSerializedRequestInfoSize = 128"

record HeaderBase =
  opcode :: u8
  hdr_handle :: Handle
  hdr_len :: u32

definition IsPostInfo :: "'a HeaderBase_scheme \<Rightarrow> bool" where
  "IsPostInfo h \<longleftrightarrow>
     opcode h = kPostInfo \<and> 0 < hdr_len h \<and> hdr_len h mod kSerializedRequestInfoSize = 0"

definition IsData :: "'a HeaderBase_scheme \<Rightarrow> bool" where
  "IsData h \<longleftrightarrow> opcode h = kData \<and> 0 < hdr_len h"

definition IsAck :: "'a HeaderBase_scheme \<Rightarrow> bool" where
  "IsAck h \<longleftrightarrow> opcode h = kData \<and> hdr_len h = 0"

definition HeaderBase_IsValid :: "'a HeaderBase_scheme \<Rightarrow> bool" where
  "HeaderBase_IsValid h \<longleftrightarrow> IsPostInfo h \<or> IsData h \<or> IsAck h"

record PostInfoHeader = HeaderBase +
  pi_peer :: Endpoint
  pi_metadata :: Metadata

definition PostInfoHeader_IsValid :: "PostInfoHeader \<Rightarrow> bool" where
  "PostInfoHeader_IsValid h \<longleftrightarrow> IsPostInfo h"

record DataHeader = HeaderBase +
  dh_reqid :: ReqId
  dh_index :: chunk_t
  dh_byte_offset :: u64
  dh_raddr :: addr_t
  dh_trace :: ChunkTraceWire

definition DataHeader_IsValid :: "DataHeader \<Rightarrow> bool" where
  "DataHeader_IsValid h \<longleftrightarrow> IsData h \<or> IsAck h"

definition PostInfo_IsMatch :: "PostInfoHeader \<Rightarrow> byte list \<Rightarrow> bool res" where
  "PostInfo_IsMatch h payload =
     dcheck (PostInfoHeader_IsValid h) (Inr (unat (hdr_len h) = length payload))"

definition Data_IsMatch :: "DataHeader \<Rightarrow> byte list \<Rightarrow> bool res" where
  "Data_IsMatch h payload =
     dcheck (DataHeader_IsValid h) (Inr (unat (hdr_len h) = length payload))"

definition kContiguous :: u8 where "kContiguous = 1"

record Recipe =
  rc_type :: u8
  rc_params :: "byte list"

definition Recipe_IsValid :: "Recipe \<Rightarrow> bool" where
  "Recipe_IsValid r \<longleftrightarrow> rc_type r = kContiguous"

record RequestInfo =
  ri_reqid :: ReqId
  ri_nchunks :: u32
  ri_raddr :: addr_t
  ri_total_len :: u64
  ri_op :: u8
  ri_recipe :: Recipe
  ri_metadata :: Metadata

definition RequestInfo_IsValid :: "RequestInfo \<Rightarrow> bool" where
  "RequestInfo_IsValid r \<longleftrightarrow>
     (ri_op r = Op_value kRead \<or> ri_op r = Op_value kWrite) \<and> 0 < ri_total_len r \<and>
     0 < ri_nchunks r \<and> Recipe_IsValid (ri_recipe r)"

text \<open>Value-initialised objects, and the array sizes every object of these types has.\<close>

definition PostInfoHeader_zero :: PostInfoHeader where
  "PostInfoHeader_zero = \<lparr>opcode = 0, hdr_handle = 0, hdr_len = 0, pi_peer = Endpoint_default,
     pi_metadata = Metadata_zero\<rparr>"

definition DataHeader_zero :: DataHeader where
  "DataHeader_zero = \<lparr>opcode = 0, hdr_handle = 0, hdr_len = 0, dh_reqid = 0, dh_index = 0,
     dh_byte_offset = 0, dh_raddr = 0, dh_trace = ChunkTraceWire_new\<rparr>"

definition HeaderBase_zero :: HeaderBase where
  "HeaderBase_zero = \<lparr>opcode = 0, hdr_handle = 0, hdr_len = 0\<rparr>"

definition RequestInfo_zero :: RequestInfo where
  "RequestInfo_zero = \<lparr>ri_reqid = 0, ri_nchunks = 0, ri_raddr = 0, ri_total_len = 0, ri_op = 0,
     ri_recipe = \<lparr>rc_type = 0, rc_params = replicate 32 0\<rparr>, ri_metadata = Metadata_zero\<rparr>"

definition wf_PostInfoHeader :: "PostInfoHeader \<Rightarrow> bool" where
  "wf_PostInfoHeader h \<longleftrightarrow> wf_Metadata (pi_metadata h)"

definition wf_RequestInfo :: "RequestInfo \<Rightarrow> bool" where
  "wf_RequestInfo r \<longleftrightarrow> wf_Metadata (ri_metadata r) \<and> length (rc_params (ri_recipe r)) = 32"

section \<open>The generated structs\<close>

record fb_HeaderBase =
  fb_magic :: u16
  fb_ver :: u8
  fb_opcode :: u8
  fb_handle :: u32
  fb_len :: u32

record fb_Endpoint =
  fb_ip :: "byte list"
  fb_port :: u16
  fb_is_ipv6 :: bool

record fb_PostInfoHeader =
  fbp_base :: fb_HeaderBase
  fbp_peer :: fb_Endpoint
  fbp_metadata :: "byte list"

record fb_DataHeader =
  fbd_base :: fb_HeaderBase
  fbd_reqid :: u32
  fbd_index :: u32
  fbd_byte_offset :: u64
  fbd_raddr :: u64
  fbd_trace :: ChunkTraceWire

record fb_RequestInfo =
  fbr_reqid :: u32
  fbr_nchunks :: u32
  fbr_raddr :: u64
  fbr_total_len :: u64
  fbr_op :: u8
  fbr_type :: u8
  fbr_params :: "byte list"
  fbr_metadata :: "byte list"

record fb_abi =
  view_HeaderBase :: "byte list \<Rightarrow> fb_HeaderBase"
  image_PostInfoHeader :: "fb_PostInfoHeader \<Rightarrow> byte list"
  view_PostInfoHeader :: "byte list \<Rightarrow> fb_PostInfoHeader"
  image_DataHeader :: "fb_DataHeader \<Rightarrow> byte list"
  view_DataHeader :: "byte list \<Rightarrow> fb_DataHeader"
  image_RequestInfo :: "fb_RequestInfo \<Rightarrow> byte list"
  view_RequestInfo :: "byte list \<Rightarrow> fb_RequestInfo"

definition kSize :: nat where "kSize = 64"
definition kRequestInfoSize :: nat where "kRequestInfoSize = 128"
definition kMagic :: u16 where "kMagic = 0x4750"

section \<open>Serialization\<close>

definition ip_array :: "IpAddr \<Rightarrow> byte list res" where
  "ip_array a = (let (raw_addr, raw_len) = RawAddrAndLen a in
     dcheck (raw_len \<le> 16) (Inr (take raw_len raw_addr @ replicate (16 - raw_len) 0)))"

definition serializeV1_PostInfo :: "fb_abi \<Rightarrow> PostInfoHeader \<Rightarrow> byte list res" where
  "serializeV1_PostInfo fb h =
     dcheck (PostInfoHeader_IsValid h)
       (rbind (ip_array (ep_ip (pi_peer h))) (\<lambda>ip.
         let s = image_PostInfoHeader fb
           \<lparr>fbp_base = \<lparr>fb_magic = kMagic, fb_ver = 1, fb_opcode = opcode h,
                         fb_handle = hdr_handle h, fb_len = hdr_len h\<rparr>,
            fbp_peer = \<lparr>fb_ip = ip, fb_port = ep_port (pi_peer h),
                         fb_is_ipv6 = IsIPv6 (ep_ip (pi_peer h))\<rparr>,
            fbp_metadata = pi_metadata h\<rparr>
         in dcheck (length s = kSize) (Inr s)))"

definition serializeV1_Data :: "fb_abi \<Rightarrow> DataHeader \<Rightarrow> byte list res" where
  "serializeV1_Data fb h =
     dcheck (DataHeader_IsValid h)
       (let s = image_DataHeader fb
           \<lparr>fbd_base = \<lparr>fb_magic = kMagic, fb_ver = 1, fb_opcode = opcode h,
                         fb_handle = hdr_handle h, fb_len = hdr_len h\<rparr>,
            fbd_reqid = dh_reqid h, fbd_index = dh_index h, fbd_byte_offset = dh_byte_offset h,
            fbd_raddr = dh_raddr h, fbd_trace = dh_trace h\<rparr>
        in dcheck (length s = kSize) (Inr s))"

definition Serialize_PostInfo :: "fb_abi \<Rightarrow> PostInfoHeader \<Rightarrow> u8 \<Rightarrow> byte list res" where
  "Serialize_PostInfo fb h ver =
     dcheck (ver = 1)
       (rbind (serializeV1_PostInfo fb h) (\<lambda>s. dcheck (length s = kSize) (Inr s)))"

definition Serialize_Data :: "fb_abi \<Rightarrow> DataHeader \<Rightarrow> u8 \<Rightarrow> byte list res" where
  "Serialize_Data fb h ver =
     dcheck (ver = 1)
       (rbind (serializeV1_Data fb h) (\<lambda>s. dcheck (length s = kSize) (Inr s)))"

text \<open>
  Deserialization writes into an object of the caller: the functions take it as it was and
  return it as it is left, together with the returned flag.
\<close>

definition deserializeV1_Base :: "fb_HeaderBase \<Rightarrow> HeaderBase \<Rightarrow> (bool \<times> HeaderBase) res" where
  "deserializeV1_Base b base =
     dcheck (fb_ver b = 1)
       (let base' = base\<lparr>opcode := fb_opcode b, hdr_handle := fb_handle b, hdr_len := fb_len b\<rparr>
        in Inr (HeaderBase_IsValid base', base'))"

definition peer_of_fb :: "fb_Endpoint \<Rightarrow> Endpoint" where
  "peer_of_fb fb_peer =
     (if fb_is_ipv6 fb_peer
      then \<lparr>ep_ip = IPv6 (of_le (take 16 (fb_ip fb_peer))), ep_port = fb_port fb_peer\<rparr>
      else \<lparr>ep_ip = IPv4 (of_le (take 4 (fb_ip fb_peer))), ep_port = fb_port fb_peer\<rparr>)"

definition deserializeV1_PostInfo ::
    "fb_PostInfoHeader \<Rightarrow> PostInfoHeader \<Rightarrow> (bool \<times> PostInfoHeader) res" where
  "deserializeV1_PostInfo p header = (let b = fbp_base p in
     dcheck (fb_ver b = 1)
       (let h1 = header\<lparr>opcode := fb_opcode b, hdr_handle := fb_handle b, hdr_len := fb_len b\<rparr>
        in if \<not> PostInfoHeader_IsValid h1 then Inr (False, h1)
           else Inr (True, h1\<lparr>pi_peer := peer_of_fb (fbp_peer p),
                  pi_metadata := take kMetadataSize (fbp_metadata p)\<rparr>)))"

definition deserializeV1_Data :: "fb_DataHeader \<Rightarrow> DataHeader \<Rightarrow> (bool \<times> DataHeader) res" where
  "deserializeV1_Data d header = (let b = fbd_base d in
     dcheck (fb_ver b = 1)
       (let h1 = header\<lparr>opcode := fb_opcode b, hdr_handle := fb_handle b, hdr_len := fb_len b\<rparr>
        in if \<not> DataHeader_IsValid h1 then Inr (False, h1)
           else Inr (True, h1\<lparr>dh_reqid := fbd_reqid d, dh_index := fbd_index d,
                  dh_byte_offset := fbd_byte_offset d, dh_raddr := fbd_raddr d,
                  dh_trace := fbd_trace d\<rparr>)))"

definition Deserialize_Base :: "fb_abi \<Rightarrow> byte list \<Rightarrow> HeaderBase \<Rightarrow> (bool \<times> HeaderBase) res" where
  "Deserialize_Base fb s base =
     (if length s \<noteq> kSize then Inr (False, base)
      else
        let b = view_HeaderBase fb (take 12 s) in
        if fb_magic b \<noteq> kMagic then Inr (False, base)
        else if fb_ver b = 1 then deserializeV1_Base b base
        else Inr (False, base))"

definition Deserialize_PostInfo ::
    "fb_abi \<Rightarrow> byte list \<Rightarrow> PostInfoHeader \<Rightarrow> (bool \<times> PostInfoHeader) res" where
  "Deserialize_PostInfo fb s header =
     (if length s \<noteq> kSize then Inr (False, header)
      else
        let p = view_PostInfoHeader fb s in
        if fb_magic (fbp_base p) \<noteq> kMagic then Inr (False, header)
        else if fb_ver (fbp_base p) = 1 then deserializeV1_PostInfo p header
        else Inr (False, header))"

definition Deserialize_Data :: "fb_abi \<Rightarrow> byte list \<Rightarrow> DataHeader \<Rightarrow> (bool \<times> DataHeader) res" where
  "Deserialize_Data fb s header =
     (if length s \<noteq> kSize then Inr (False, header)
      else
        let d = view_DataHeader fb s in
        if fb_magic (fbd_base d) \<noteq> kMagic then Inr (False, header)
        else if fb_ver (fbd_base d) = 1 then deserializeV1_Data d header
        else Inr (False, header))"

definition fb_of_RequestInfo :: "RequestInfo \<Rightarrow> fb_RequestInfo" where
  "fb_of_RequestInfo r = \<lparr>fbr_reqid = ri_reqid r, fbr_nchunks = ri_nchunks r,
     fbr_raddr = ri_raddr r, fbr_total_len = ri_total_len r, fbr_op = ri_op r,
     fbr_type = rc_type (ri_recipe r), fbr_params = rc_params (ri_recipe r),
     fbr_metadata = ri_metadata r\<rparr>"

definition Serialize_RequestInfo :: "fb_abi \<Rightarrow> RequestInfo \<Rightarrow> byte list res" where
  "Serialize_RequestInfo fb r =
     dcheck (RequestInfo_IsValid r)
       (let s = image_RequestInfo fb (fb_of_RequestInfo r)
        in dcheck (length s = kRequestInfoSize) (Inr s))"

definition Deserialize_RequestInfo ::
    "fb_abi \<Rightarrow> byte list \<Rightarrow> RequestInfo \<Rightarrow> bool \<times> RequestInfo" where
  "Deserialize_RequestInfo fb s req_info =
     (if length s \<noteq> kRequestInfoSize then (False, req_info)
      else
        let q = view_RequestInfo fb s;
            r1 = req_info\<lparr>ri_reqid := fbr_reqid q, ri_nchunks := fbr_nchunks q,
                   ri_raddr := fbr_raddr q, ri_total_len := fbr_total_len q, ri_op := fbr_op q,
                   ri_recipe := (ri_recipe req_info)\<lparr>rc_type := fbr_type q\<rparr>\<rparr>
        in if \<not> RequestInfo_IsValid r1 then (False, r1)
           else (True, r1\<lparr>ri_recipe := (ri_recipe r1)\<lparr>rc_params := take 32 (fbr_params q)\<rparr>,
                  ri_metadata := take kMetadataSize (fbr_metadata q)\<rparr>))"

fun append_requests :: "fb_abi \<Rightarrow> RequestInfo list \<Rightarrow> byte list \<Rightarrow> byte list res" where
  "append_requests fb [] out = Inr out"
| "append_requests fb (r # rs) out =
     dcheck (RequestInfo_IsValid r)
       (append_requests fb rs (out @ image_RequestInfo fb (fb_of_RequestInfo r)))"

definition Serialize_RequestInfos :: "fb_abi \<Rightarrow> RequestInfo list \<Rightarrow> byte list res" where
  "Serialize_RequestInfos fb requests =
     dcheck (requests \<noteq> [])
       (rbind (append_requests fb requests []) (\<lambda>out.
          dcheck (length out = length requests * kRequestInfoSize) (Inr out)))"

fun deserialize_each ::
    "fb_abi \<Rightarrow> byte list \<Rightarrow> RequestInfo list \<Rightarrow> bool \<times> RequestInfo list" where
  "deserialize_each fb s [] = (True, [])"
| "deserialize_each fb s (r # rs) =
     (let (ok, r') = Deserialize_RequestInfo fb (take kRequestInfoSize s) r in
      if \<not> ok then (False, r' # rs)
      else
        let (ok', rs') = deserialize_each fb (drop kRequestInfoSize s) rs
        in (ok', r' # rs'))"

definition Deserialize_RequestInfos ::
    "fb_abi \<Rightarrow> byte list \<Rightarrow> RequestInfo list \<Rightarrow> bool \<times> RequestInfo list" where
  "Deserialize_RequestInfos fb s requests =
     (if s = [] \<or> length s mod kRequestInfoSize \<noteq> 0 then (False, requests)
      else
        let count = length s div kRequestInfoSize
        in deserialize_each fb s
             (take count requests @ replicate (count - length requests) RequestInfo_zero))"

section \<open>What the code relies on\<close>

definition wf_fb_PostInfo :: "fb_PostInfoHeader \<Rightarrow> bool" where
  "wf_fb_PostInfo p \<longleftrightarrow> length (fb_ip (fbp_peer p)) = 16 \<and> length (fbp_metadata p) = 32"

definition wf_fb_RequestInfo :: "fb_RequestInfo \<Rightarrow> bool" where
  "wf_fb_RequestInfo q \<longleftrightarrow> length (fbr_params q) = 32 \<and> length (fbr_metadata q) = 32"

locale flatbuf_structs =
  fixes fb :: fb_abi
  assumes post_size: "wf_fb_PostInfo p \<Longrightarrow> length (image_PostInfoHeader fb p) = kSize"
    and post_view: "wf_fb_PostInfo p \<Longrightarrow> view_PostInfoHeader fb (image_PostInfoHeader fb p) = p"
    and post_prefix: "wf_fb_PostInfo p \<Longrightarrow>
      view_HeaderBase fb (take 12 (image_PostInfoHeader fb p)) = fbp_base p"
    and data_size: "length (image_DataHeader fb d) = kSize"
    and data_view: "view_DataHeader fb (image_DataHeader fb d) = d"
    and data_prefix: "view_HeaderBase fb (take 12 (image_DataHeader fb d)) = fbd_base d"
    and req_size: "wf_fb_RequestInfo q \<Longrightarrow> length (image_RequestInfo fb q) = kRequestInfoSize"
    and req_view: "wf_fb_RequestInfo q \<Longrightarrow> view_RequestInfo fb (image_RequestInfo fb q) = q"
    and base_view: "length s = kSize \<Longrightarrow>
      fbp_base (view_PostInfoHeader fb s) = view_HeaderBase fb (take 12 s) \<and>
      fbd_base (view_DataHeader fb s) = view_HeaderBase fb (take 12 s)"
    and req_wf: "length s = kRequestInfoSize \<Longrightarrow> wf_fb_RequestInfo (view_RequestInfo fb s)"
begin

lemma data_roundtrip:
  assumes "DataHeader_IsValid h"
  shows "\<exists>s. Serialize_Data fb h 1 = Inr s \<and> length s = kSize \<and>
    Deserialize_Data fb s h0 = Inr (True, h) \<and>
    Deserialize_Base fb s b0 = Inr (True, HeaderBase.truncate h)"
proof -
  have "DataHeader_IsValid (h0\<lparr>opcode := opcode h, hdr_handle := hdr_handle h, hdr_len := hdr_len h\<rparr>)"
    "HeaderBase_IsValid (b0\<lparr>opcode := opcode h, hdr_handle := hdr_handle h, hdr_len := hdr_len h\<rparr>)"
    using assms by (auto simp: DataHeader_IsValid_def HeaderBase_IsValid_def IsData_def IsAck_def)
  with assms show ?thesis
    by (simp add: Serialize_Data_def serializeV1_Data_def data_size data_view data_prefix
        Deserialize_Data_def Deserialize_Base_def deserializeV1_Data_def deserializeV1_Base_def
        HeaderBase.defs Let_def)
qed

lemma post_roundtrip:
  assumes "PostInfoHeader_IsValid h" "wf_PostInfoHeader h"
  shows "\<exists>s. Serialize_PostInfo fb h 1 = Inr s \<and> length s = kSize \<and>
    Deserialize_PostInfo fb s h0 = Inr (True, h) \<and>
    Deserialize_Base fb s b0 = Inr (True, HeaderBase.truncate h)"
proof -
  define ip where "ip = (case ep_ip (pi_peer h) of IPv4 w \<Rightarrow> to_le 4 w @ replicate 12 0 | IPv6 v \<Rightarrow> to_le 16 v)"
  have ip: "ip_array (ep_ip (pi_peer h)) = Inr ip" "length ip = 16"
    by (cases "ep_ip (pi_peer h)"; simp add: ip_def ip_array_def RawAddrAndLen_def)+
  define p where "p = \<lparr>fbp_base = \<lparr>fb_magic = kMagic, fb_ver = 1, fb_opcode = opcode h,
      fb_handle = hdr_handle h, fb_len = hdr_len h\<rparr>,
    fbp_peer = \<lparr>fb_ip = ip, fb_port = ep_port (pi_peer h), fb_is_ipv6 = IsIPv6 (ep_ip (pi_peer h))\<rparr>,
    fbp_metadata = pi_metadata h\<rparr>"
  have wf: "wf_fb_PostInfo p"
    using ip(2) assms(2) by (simp add: p_def wf_fb_PostInfo_def wf_PostInfoHeader_def wf_Metadata_def kMetadataSize_def)
  have "PostInfoHeader_IsValid (h0\<lparr>opcode := opcode h, hdr_handle := hdr_handle h, hdr_len := hdr_len h\<rparr>)"
    "HeaderBase_IsValid (b0\<lparr>opcode := opcode h, hdr_handle := hdr_handle h, hdr_len := hdr_len h\<rparr>)"
    using assms(1) by (auto simp: PostInfoHeader_IsValid_def HeaderBase_IsValid_def IsPostInfo_def)
  moreover have "peer_of_fb (fbp_peer p) = pi_peer h"
    by (cases "ep_ip (pi_peer h)") (auto simp: ip_def p_def peer_of_fb_def)
  moreover have "take kMetadataSize (pi_metadata h) = pi_metadata h"
    using assms(2) by (simp add: wf_PostInfoHeader_def wf_Metadata_def)
  moreover have "Serialize_PostInfo fb h 1 = Inr (image_PostInfoHeader fb p)"
    using assms(1) ip(1) post_size [OF wf]
    by (simp add: Serialize_PostInfo_def serializeV1_PostInfo_def Let_def p_def [symmetric])
  moreover have "Deserialize_Base fb (image_PostInfoHeader fb p) b0 = Inr (True, HeaderBase.truncate h)"
    using calculation(2) post_size [OF wf] post_prefix [OF wf]
    by (simp add: Deserialize_Base_def deserializeV1_Base_def HeaderBase.defs Let_def p_def)
  moreover have "Deserialize_PostInfo fb (image_PostInfoHeader fb p) h0 = Inr (True, h)"
    using calculation(1,3,4) post_size [OF wf] post_view [OF wf]
    by (simp add: Deserialize_PostInfo_def deserializeV1_PostInfo_def Let_def) (simp add: p_def)
  ultimately show ?thesis using post_size [OF wf] by blast
qed

lemma post_not_data:
  assumes "Deserialize_PostInfo fb s p0 = Inr (True, h)"
  shows "\<exists>d. Deserialize_Data fb s d0 = Inr (False, d)"
proof -
  have len: "length s = kSize" using assms by (auto simp: Deserialize_PostInfo_def split: if_splits)
  with base_view [OF len] assms show ?thesis
    by (auto simp: Deserialize_PostInfo_def deserializeV1_PostInfo_def Deserialize_Data_def
        deserializeV1_Data_def Let_def PostInfoHeader_IsValid_def IsPostInfo_def DataHeader_IsValid_def
        IsData_def IsAck_def kPostInfo_def kData_def split: if_splits)
qed

lemma req_roundtrip:
  assumes "RequestInfo_IsValid r" "wf_RequestInfo r"
  shows "length (image_RequestInfo fb (fb_of_RequestInfo r)) = kRequestInfoSize"
    "Deserialize_RequestInfo fb (image_RequestInfo fb (fb_of_RequestInfo r)) r0 = (True, r)"
proof -
  let ?q = "fb_of_RequestInfo r"
  have wf: "wf_fb_RequestInfo ?q"
    using assms(2)
    by (simp add: wf_fb_RequestInfo_def wf_RequestInfo_def fb_of_RequestInfo_def wf_Metadata_def
        kMetadataSize_def)
  show len: "length (image_RequestInfo fb ?q) = kRequestInfoSize" by (rule req_size [OF wf])
  have "RequestInfo_IsValid (r0\<lparr>ri_reqid := ri_reqid r, ri_nchunks := ri_nchunks r,
      ri_raddr := ri_raddr r, ri_total_len := ri_total_len r, ri_op := ri_op r,
      ri_recipe := (ri_recipe r0)\<lparr>rc_type := rc_type (ri_recipe r)\<rparr>\<rparr>)"
    using assms(1) by (simp add: RequestInfo_IsValid_def Recipe_IsValid_def)
  moreover have "take 32 (rc_params (ri_recipe r)) = rc_params (ri_recipe r)"
    "take kMetadataSize (ri_metadata r) = ri_metadata r"
    using assms(2) by (simp_all add: wf_RequestInfo_def wf_Metadata_def)
  ultimately show "Deserialize_RequestInfo fb (image_RequestInfo fb ?q) r0 = (True, r)"
    using len req_view [OF wf]
    by (simp add: Deserialize_RequestInfo_def Let_def fb_of_RequestInfo_def)
qed

lemma reqs_serialized:
  assumes "list_all (\<lambda>r. RequestInfo_IsValid r \<and> wf_RequestInfo r) rs"
  shows "append_requests fb rs out = Inr (out @ concat (map (image_RequestInfo fb \<circ> fb_of_RequestInfo) rs))"
    "length (concat (map (image_RequestInfo fb \<circ> fb_of_RequestInfo) rs)) = length rs * kRequestInfoSize"
    "length rs0 = length rs \<Longrightarrow>
      deserialize_each fb (concat (map (image_RequestInfo fb \<circ> fb_of_RequestInfo) rs)) rs0 = (True, rs)"
proof -
  show "append_requests fb rs out = Inr (out @ concat (map (image_RequestInfo fb \<circ> fb_of_RequestInfo) rs))"
    using assms by (induction rs arbitrary: out) simp_all
  show "length (concat (map (image_RequestInfo fb \<circ> fb_of_RequestInfo) rs)) = length rs * kRequestInfoSize"
    using assms by (induction rs) (simp_all add: req_roundtrip(1))
  show "deserialize_each fb (concat (map (image_RequestInfo fb \<circ> fb_of_RequestInfo) rs)) rs0 = (True, rs)"
    if "length rs0 = length rs"
    using assms that
  proof (induction rs arbitrary: rs0)
    case (Cons r rs)
    from Cons.prems(2) obtain r0 rs1 where "rs0 = r0 # rs1" "length rs1 = length rs"
      by (cases rs0) auto
    with Cons show ?case by (simp add: req_roundtrip)
  qed simp
qed

lemma reqs_roundtrip:
  assumes "list_all (\<lambda>r. RequestInfo_IsValid r \<and> wf_RequestInfo r) rs" "rs \<noteq> []"
  shows "\<exists>s. Serialize_RequestInfos fb rs = Inr s \<and> length s = length rs * kRequestInfoSize \<and>
    Deserialize_RequestInfos fb s rs0 = (True, rs)"
proof -
  let ?s = "concat (map (image_RequestInfo fb \<circ> fb_of_RequestInfo) rs)"
  note ser = reqs_serialized [OF assms(1)]
  have len: "length ?s = length rs * kRequestInfoSize" by (rule ser(2))
  have "0 < kRequestInfoSize" by (simp add: kRequestInfoSize_def)
  with assms(2) len have "0 < length ?s" by (simp del: length_concat)
  then have "?s \<noteq> []" by (rule length_greater_0_conv [THEN iffD1])
  moreover have "length ?s mod kRequestInfoSize = 0" "length ?s div kRequestInfoSize = length rs"
    using len \<open>0 < kRequestInfoSize\<close> by (simp_all del: length_concat)
  ultimately have "Deserialize_RequestInfos fb ?s rs0 = (True, rs)"
    using ser(3) unfolding Deserialize_RequestInfos_def Let_def
    by (simp del: length_concat)
  with ser(1) len assms(2) show ?thesis
    by (simp add: Serialize_RequestInfos_def del: length_concat)
qed

end

section \<open>The layout of the schema\<close>

text \<open>
  The structs of \<^verbatim>\<open>header.fbs\<close> and \<^verbatim>\<open>chunk_trace_wire.fbs\<close>: fields in declaration order, scalars
  little-endian, paddings zero.
\<close>

definition fld :: "byte list \<Rightarrow> nat \<Rightarrow> nat \<Rightarrow> byte list" where
  "fld s i n = take n (drop i s)"

definition base_bytes :: "fb_HeaderBase \<Rightarrow> byte list" where
  "base_bytes b = to_le 2 (fb_magic b) @ [fb_ver b, fb_opcode b] @ to_le 4 (fb_handle b) @ to_le 4 (fb_len b)"

definition base_of :: "byte list \<Rightarrow> fb_HeaderBase" where
  "base_of s = \<lparr>fb_magic = of_le (fld s 0 2), fb_ver = s ! 2, fb_opcode = s ! 3,
     fb_handle = of_le (fld s 4 4), fb_len = of_le (fld s 8 4)\<rparr>"

definition post_bytes :: "fb_PostInfoHeader \<Rightarrow> byte list" where
  "post_bytes p = base_bytes (fbp_base p) @ fb_ip (fbp_peer p) @ to_le 2 (fb_port (fbp_peer p)) @
     [if fb_is_ipv6 (fbp_peer p) then 1 else 0, 0] @ fbp_metadata p"

definition post_of :: "byte list \<Rightarrow> fb_PostInfoHeader" where
  "post_of s = \<lparr>fbp_base = base_of s,
     fbp_peer = \<lparr>fb_ip = fld s 12 16, fb_port = of_le (fld s 28 2), fb_is_ipv6 = (s ! 30 \<noteq> 0)\<rparr>,
     fbp_metadata = fld s 32 32\<rparr>"

definition trace_bytes :: "ChunkTraceWire \<Rightarrow> byte list" where
  "trace_bytes t = to_le 8 (tx_send_us t) @ to_le 4 (rx_payload_us t) @ to_le 2 (rx_acquire_us t) @
     [rx_worker_id t, rx_chunk_status t]"

definition trace_of :: "byte list \<Rightarrow> ChunkTraceWire" where
  "trace_of s = \<lparr>tx_send_us = of_le (fld s 0 8), rx_payload_us = of_le (fld s 8 4),
     rx_acquire_us = of_le (fld s 12 2), rx_worker_id = s ! 14, rx_chunk_status = s ! 15\<rparr>"

definition data_bytes :: "fb_DataHeader \<Rightarrow> byte list" where
  "data_bytes d = base_bytes (fbd_base d) @ to_le 4 (fbd_reqid d) @ to_le 4 (fbd_index d) @
     replicate 4 0 @ to_le 8 (fbd_byte_offset d) @ to_le 8 (fbd_raddr d) @
     trace_bytes (fbd_trace d) @ replicate 8 0"

definition data_of :: "byte list \<Rightarrow> fb_DataHeader" where
  "data_of s = \<lparr>fbd_base = base_of s, fbd_reqid = of_le (fld s 12 4), fbd_index = of_le (fld s 16 4),
     fbd_byte_offset = of_le (fld s 24 8), fbd_raddr = of_le (fld s 32 8),
     fbd_trace = trace_of (fld s 40 16)\<rparr>"

definition req_bytes :: "fb_RequestInfo \<Rightarrow> byte list" where
  "req_bytes q = to_le 4 (fbr_reqid q) @ to_le 4 (fbr_nchunks q) @ to_le 8 (fbr_raddr q) @
     to_le 8 (fbr_total_len q) @ fbr_op q # replicate 7 0 @ fbr_type q # replicate 7 0 @
     fbr_params q @ fbr_metadata q @ replicate 24 0"

definition req_of :: "byte list \<Rightarrow> fb_RequestInfo" where
  "req_of s = \<lparr>fbr_reqid = of_le (fld s 0 4), fbr_nchunks = of_le (fld s 4 4),
     fbr_raddr = of_le (fld s 8 8), fbr_total_len = of_le (fld s 16 8), fbr_op = s ! 24,
     fbr_type = s ! 32, fbr_params = fld s 40 32, fbr_metadata = fld s 72 32\<rparr>"

definition schema_fb :: fb_abi where
  "schema_fb = \<lparr>view_HeaderBase = base_of, image_PostInfoHeader = post_bytes,
     view_PostInfoHeader = post_of, image_DataHeader = data_bytes, view_DataHeader = data_of,
     image_RequestInfo = req_bytes, view_RequestInfo = req_of\<rparr>"

lemmas fld_simps = fld_def nth_append nth_Cons'

lemma length_base_bytes [simp]: "length (base_bytes b) = 12"
  by (simp add: base_bytes_def)

lemma length_trace_bytes [simp]: "length (trace_bytes t) = 16"
  by (simp add: trace_bytes_def)

lemma base_of_bytes: "base_of (base_bytes b @ s) = b"
  by (simp add: base_of_def base_bytes_def fld_simps)

lemma trace_of_bytes: "trace_of (trace_bytes t) = t"
  by (simp add: trace_of_def trace_bytes_def fld_simps)

interpretation schema: flatbuf_structs schema_fb
proof
  fix p :: fb_PostInfoHeader and d q s
  show "length (image_DataHeader schema_fb d) = kSize"
    by (simp add: schema_fb_def data_bytes_def kSize_def)
  show "view_HeaderBase schema_fb (take 12 (image_DataHeader schema_fb d)) = fbd_base d"
    using base_of_bytes [of _ "[]"] by (simp add: schema_fb_def data_bytes_def)
  show "view_DataHeader schema_fb (image_DataHeader schema_fb d) = d"
    by (simp add: schema_fb_def data_bytes_def data_of_def base_of_bytes)
      (simp add: fld_simps trace_of_bytes)
  show "length s = kSize \<Longrightarrow> fbp_base (view_PostInfoHeader schema_fb s) = view_HeaderBase schema_fb (take 12 s) \<and>
      fbd_base (view_DataHeader schema_fb s) = view_HeaderBase schema_fb (take 12 s)"
    by (simp add: schema_fb_def post_of_def data_of_def base_of_def fld_def drop_take min_def kSize_def)
  show "length s = kRequestInfoSize \<Longrightarrow> wf_fb_RequestInfo (view_RequestInfo schema_fb s)"
    by (simp add: schema_fb_def req_of_def wf_fb_RequestInfo_def fld_def kRequestInfoSize_def)
  assume "wf_fb_PostInfo p"
  then have l: "length (fb_ip (fbp_peer p)) = 16" "length (fbp_metadata p) = 32"
    by (simp_all add: wf_fb_PostInfo_def)
  then show "length (image_PostInfoHeader schema_fb p) = kSize"
    by (simp add: schema_fb_def post_bytes_def kSize_def)
  show "view_HeaderBase schema_fb (take 12 (image_PostInfoHeader schema_fb p)) = fbp_base p"
    using base_of_bytes [of _ "[]"] by (simp add: schema_fb_def post_bytes_def)
  show "view_PostInfoHeader schema_fb (image_PostInfoHeader schema_fb p) = p"
    using l by (simp add: schema_fb_def post_bytes_def post_of_def base_of_bytes)
      (simp add: fld_simps)
next
  fix q :: fb_RequestInfo
  assume "wf_fb_RequestInfo q"
  then have l: "length (fbr_params q) = 32" "length (fbr_metadata q) = 32"
    by (simp_all add: wf_fb_RequestInfo_def)
  then show "length (image_RequestInfo schema_fb q) = kRequestInfoSize"
    by (simp add: schema_fb_def req_bytes_def kRequestInfoSize_def)
  show "view_RequestInfo schema_fb (image_RequestInfo schema_fb q) = q"
    using l by (simp add: schema_fb_def req_bytes_def req_of_def) (simp add: fld_simps)
qed

section \<open>Properties of the wire format\<close>

text \<open>
  C15. Headers survive the wire: for every implementation of the generated structs that
  keeps their laws, a valid data or acknowledgment header and a valid batch header are
  serialized to exactly 64 bytes without a failed check, and reading these bytes gives back
  the header, peer endpoint and metadata included, whatever the target object held before;
  the common prefix alone gives opcode, handle and length.
\<close>
theorem header_roundtrip:
  assumes "flatbuf_structs fb" "DataHeader_IsValid d" "PostInfoHeader_IsValid p" "wf_PostInfoHeader p"
  shows "(\<exists>s. Serialize_Data fb d 1 = Inr s \<and> length s = kSize \<and>
      Deserialize_Data fb s d0 = Inr (True, d) \<and>
      Deserialize_Base fb s b0 = Inr (True, HeaderBase.truncate d)) \<and>
    (\<exists>s. Serialize_PostInfo fb p 1 = Inr s \<and> length s = kSize \<and>
      Deserialize_PostInfo fb s p0 = Inr (True, p) \<and>
      Deserialize_Base fb s b0 = Inr (True, HeaderBase.truncate p))"
  using flatbuf_structs.data_roundtrip [OF assms(1,2)] flatbuf_structs.post_roundtrip [OF assms(1,3,4)]
  by blast

definition demo_data :: DataHeader where
  "demo_data = DataHeader_zero\<lparr>opcode := kData, hdr_handle := 7, hdr_len := 4096, dh_index := 3\<rparr>"

definition demo_post :: PostInfoHeader where
  "demo_post = PostInfoHeader_zero\<lparr>opcode := kPostInfo, hdr_handle := 7, hdr_len := 256,
     pi_peer := \<lparr>ep_ip = IPv4 0x0100000A, ep_port = 10000\<rparr>\<rparr>"

lemma demo_headers_valid:
  "DataHeader_IsValid demo_data" "PostInfoHeader_IsValid demo_post" "wf_PostInfoHeader demo_post"
  by (simp_all add: demo_data_def demo_post_def DataHeader_IsValid_def PostInfoHeader_IsValid_def
      IsData_def IsPostInfo_def wf_PostInfoHeader_def PostInfoHeader_zero_def DataHeader_zero_def
      kSerializedRequestInfoSize_def)

theorem header_roundtrip_witness:
  "flatbuf_structs schema_fb \<and> DataHeader_IsValid demo_data \<and> PostInfoHeader_IsValid demo_post \<and>
   wf_PostInfoHeader demo_post \<and>
   (\<exists>s. Serialize_Data schema_fb demo_data 1 = Inr s \<and>
      Deserialize_Data schema_fb s DataHeader_zero = Inr (True, demo_data))"
  using header_roundtrip [OF schema.flatbuf_structs_axioms demo_headers_valid, of DataHeader_zero
      HeaderBase_zero PostInfoHeader_zero] demo_headers_valid schema.flatbuf_structs_axioms
  by blast

text \<open>
  The payload of a batch header survives the wire: a non-empty list of valid request
  descriptors is serialized to 128 bytes per descriptor without a failed check and read
  back exactly, whatever vector it is read into; the payload length makes the batch header
  valid as long as it fits the header's 32-bit length field.
\<close>
theorem request_infos_roundtrip:
  assumes "flatbuf_structs fb" "rs \<noteq> []"
    "list_all (\<lambda>r. RequestInfo_IsValid r \<and> wf_RequestInfo r) rs"
  shows "\<exists>s. Serialize_RequestInfos fb rs = Inr s \<and> length s = length rs * 128 \<and>
    Deserialize_RequestInfos fb s rs0 = (True, rs) \<and>
    (length s < 4294967296 \<longrightarrow>
       PostInfoHeader_IsValid (p\<lparr>opcode := kPostInfo, hdr_len := of_nat (length s)\<rparr>) \<and>
       PostInfo_IsMatch (p\<lparr>opcode := kPostInfo, hdr_len := of_nat (length s)\<rparr>) s = Inr True)"
proof -
  obtain s where s: "Serialize_RequestInfos fb rs = Inr s" "length s = length rs * kRequestInfoSize"
    "Deserialize_RequestInfos fb s rs0 = (True, rs)"
    using flatbuf_structs.reqs_roundtrip [OF assms(1,3,2)] by blast
  have "PostInfoHeader_IsValid (p\<lparr>opcode := kPostInfo, hdr_len := of_nat (length s)\<rparr>)"
    if lt: "length s < 4294967296"
  proof -
    have "unat (of_nat (length s) :: u32) = length s" using lt by simp
    then have "0 < unat (of_nat (length s) :: u32)" "unat (of_nat (length s) :: u32) mod 128 = 0"
      using s(2) assms(2) by (simp_all only: kRequestInfoSize_def) simp_all
    then show ?thesis
      by (simp add: PostInfoHeader_IsValid_def IsPostInfo_def kSerializedRequestInfoSize_def
          word_less_nat_alt word_unat_eq_iff unat_mod)
  qed
  with s show ?thesis by (auto simp: kRequestInfoSize_def PostInfo_IsMatch_def)
qed

definition demo_request_info :: RequestInfo where
  "demo_request_info = RequestInfo_zero\<lparr>ri_reqid := 1, ri_nchunks := 2, ri_raddr := 0x1000,
     ri_total_len := 8192, ri_op := Op_value kWrite,
     ri_recipe := \<lparr>rc_type = kContiguous, rc_params = replicate 32 0\<rparr>\<rparr>"

lemma demo_request_info_ok: "RequestInfo_IsValid demo_request_info" "wf_RequestInfo demo_request_info"
  by (simp_all add: demo_request_info_def RequestInfo_zero_def RequestInfo_IsValid_def
      Recipe_IsValid_def wf_RequestInfo_def)

theorem request_infos_roundtrip_witness:
  "flatbuf_structs schema_fb \<and> RequestInfo_IsValid demo_request_info \<and>
   wf_RequestInfo demo_request_info \<and>
   (\<exists>s. Serialize_RequestInfos schema_fb [demo_request_info] = Inr s \<and>
      Deserialize_RequestInfos schema_fb s [] = (True, [demo_request_info]))"
  using request_infos_roundtrip [OF schema.flatbuf_structs_axioms, of "[demo_request_info]" "[]"]
    demo_request_info_ok schema.flatbuf_structs_axioms
  by auto



end
