(* ===== verification/Metrics.thy ===== *)
theory Metrics
  imports Prelude
begin

text \<open>
  \<^verbatim>\<open>internal/lib/{histogram,log2_histogram,metric_counter}.h\<close>, \<^verbatim>\<open>internal/metrics\<close> and
  \<^verbatim>\<open>api/transport_metrics.h\<close>: counters, key-frequency maps and log2-spaced histograms, and the
  metric sets of the engine and the control plane. Counters are 64-bit words and wrap; an
  atomic addition is one step.
\<close>

section \<open>Key-frequency maps\<close>

record ('k, 'c) Histogram =
  entries :: "('k \<times> 'c) list"

definition Histogram_new :: "('k, 'c) Histogram" where
  "Histogram_new = \<lparr>entries = []\<rparr>"

definition Histogram_size :: "('k, 'c) Histogram \<Rightarrow> nat" where
  "Histogram_size h = length (entries h)"

fun Histogram_find :: "('k \<times> 'c) list \<Rightarrow> 'k \<Rightarrow> nat option" where
  "Histogram_find [] key = None"
| "Histogram_find (e # es) key =
     (if fst e = key then Some 0 else map_option Suc (Histogram_find es key))"

definition Histogram_Get :: "('k, 'c::len word) Histogram \<Rightarrow> 'k \<Rightarrow> 'c word" where
  "Histogram_Get h key = (case Histogram_find (entries h) key of
     Some i \<Rightarrow> snd (entries h ! i)
   | None \<Rightarrow> 0)"

definition bump :: "nat \<Rightarrow> 'c::len word \<Rightarrow> ('k \<times> 'c word) list \<Rightarrow> ('k \<times> 'c word) list" where
  "bump i count es = es[i := (fst (es ! i), snd (es ! i) + count)]"

definition Histogram_Add ::
    "('k, 'c::len word) Histogram \<Rightarrow> 'k \<Rightarrow> 'c word \<Rightarrow> ('k, 'c word) Histogram res" where
  "Histogram_Add h key count =
     dcheck (count \<noteq> 0)
       (let es = entries h in
        if es \<noteq> [] \<and> fst (last es) = key then Inr (h\<lparr>entries := bump (length es - 1) count es\<rparr>)
        else (case Histogram_find es key of
                Some i \<Rightarrow> Inr (h\<lparr>entries := bump i count es\<rparr>)
              | None \<Rightarrow> Inr (h\<lparr>entries := es @ [(key, count)]\<rparr>)))"

definition wf_Histogram :: "('k, 'c) Histogram \<Rightarrow> bool" where
  "wf_Histogram h \<longleftrightarrow> distinct (map fst (entries h))"

lemma Histogram_find_Some:
  "Histogram_find es k = Some i \<Longrightarrow> i < length es \<and> fst (es ! i) = k"
  by (induction es k arbitrary: i rule: Histogram_find.induct) (auto split: if_splits)

lemma Histogram_find_None: "Histogram_find es k = None \<longleftrightarrow> k \<notin> fst ` set es"
  by (induction es k rule: Histogram_find.induct) auto

lemma Histogram_find_distinct:
  "distinct (map fst es) \<Longrightarrow> i < length es \<Longrightarrow> Histogram_find es (fst (es ! i)) = Some i"
proof (induction es arbitrary: i)
  case (Cons e es)
  show ?case
  proof (cases i)
    case (Suc j)
    with Cons.prems have "fst (es ! j) \<in> fst ` set es" by simp
    with Cons Suc show ?thesis by auto
  qed simp
qed simp

lemma map_fst_bump [simp]: "i < length es \<Longrightarrow> map fst (bump i c es) = map fst es"
  by (simp add: bump_def map_update list_update_same_conv)

lemma Histogram_find_keys: "map fst es = map fst es' \<Longrightarrow> Histogram_find es k = Histogram_find es' k"
  by (induction es arbitrary: es') auto

lemma Histogram_Add_bump:
  assumes "wf_Histogram h" "i < length (entries h)" "fst (entries h ! i) = key"
  shows "wf_Histogram (h\<lparr>entries := bump i c (entries h)\<rparr>)"
    "Histogram_Get (h\<lparr>entries := bump i c (entries h)\<rparr>) k =
      Histogram_Get h k + (if k = key then c else 0)"
proof -
  show "wf_Histogram (h\<lparr>entries := bump i c (entries h)\<rparr>)"
    using assms by (simp add: wf_Histogram_def)
  have f: "Histogram_find (bump i c (entries h)) k = Histogram_find (entries h) k"
    using assms by (intro Histogram_find_keys) simp
  show "Histogram_Get (h\<lparr>entries := bump i c (entries h)\<rparr>) k =
      Histogram_Get h k + (if k = key then c else 0)"
  proof (cases "k = key")
    case True
    then have "Histogram_find (entries h) k = Some i"
      using assms Histogram_find_distinct by (auto simp: wf_Histogram_def)
    with True assms f show ?thesis by (simp add: Histogram_Get_def bump_def)
  next
    case False
    with assms f show ?thesis
      by (auto simp: Histogram_Get_def bump_def nth_list_update dest!: Histogram_find_Some
          split: option.splits)
  qed
qed

lemma Histogram_Add_ok:
  assumes "wf_Histogram h" "c \<noteq> 0"
  shows "\<exists>h'. Histogram_Add h key c = Inr h' \<and> wf_Histogram h' \<and>
    (\<forall>k. Histogram_Get h' k = Histogram_Get h k + (if k = key then c else 0))"
proof -
  let ?es = "entries h"
  consider (last) "?es \<noteq> []" "fst (last ?es) = key"
    | (found) i where "\<not> (?es \<noteq> [] \<and> fst (last ?es) = key)" "Histogram_find ?es key = Some i"
    | (fresh) "\<not> (?es \<noteq> [] \<and> fst (last ?es) = key)" "Histogram_find ?es key = None"
    by (cases "Histogram_find ?es key") auto
  then show ?thesis
  proof cases
    case last
    then have "length ?es - 1 < length ?es" "fst (?es ! (length ?es - 1)) = key"
      by (simp_all add: last_conv_nth)
    from Histogram_Add_bump [OF assms(1) this, of c] last assms(2) show ?thesis
      by (auto simp: Histogram_Add_def Let_def)
  next
    case (found i)
    from Histogram_find_Some [OF found(2)]
    have "i < length ?es" "fst (?es ! i) = key" by simp_all
    from Histogram_Add_bump [OF assms(1) this, of c] found assms(2) show ?thesis
      by (auto simp: Histogram_Add_def)
  next
    case fresh
    have app: "Histogram_find (es @ [(key, c)]) k =
        (case Histogram_find es k of Some i \<Rightarrow> Some i | None \<Rightarrow> if k = key then Some (length es) else None)"
      for es k by (induction es) (auto split: option.splits)
    have "Histogram_Get (h\<lparr>entries := ?es @ [(key, c)]\<rparr>) k =
        Histogram_Get h k + (if k = key then c else 0)" for k
      using fresh(2)
      by (auto simp: Histogram_Get_def app nth_append dest: Histogram_find_Some split: option.splits)
    moreover have "wf_Histogram (h\<lparr>entries := ?es @ [(key, c)]\<rparr>)"
      using assms(1) fresh(2) by (simp add: wf_Histogram_def Histogram_find_None)
    ultimately show ?thesis
      using fresh assms(2) by (auto simp: Histogram_Add_def)
  qed
qed

fun Histogram_Adds ::
    "('k, 'c::len word) Histogram \<Rightarrow> ('k \<times> 'c word) list \<Rightarrow> ('k, 'c word) Histogram res" where
  "Histogram_Adds h [] = Inr h"
| "Histogram_Adds h (x # xs) = rbind (Histogram_Add h (fst x) (snd x)) (\<lambda>h'. Histogram_Adds h' xs)"

text \<open>
  A key-frequency map is a faithful tally: after any sequence of non-zero additions,
  the count of every key is the sum of what was added under it (at the width of the
  counter), although an addition that repeats the last key takes a shortcut, and no key
  occupies two entries.
\<close>
theorem histogram_tally:
  assumes "list_all (\<lambda>x. snd x \<noteq> 0) xs"
  shows "\<exists>h. Histogram_Adds Histogram_new xs = Inr h \<and> distinct (map fst (entries h)) \<and>
    (\<forall>k. Histogram_Get h k = sum_list (map snd (filter (\<lambda>x. fst x = k) xs)))"
proof -
  have "wf_Histogram h \<Longrightarrow> \<exists>h'. Histogram_Adds h xs = Inr h' \<and> wf_Histogram h' \<and>
      (\<forall>k. Histogram_Get h' k = Histogram_Get h k + sum_list (map snd (filter (\<lambda>x. fst x = k) xs)))"
    for h :: "('a, 'b word) Histogram"
    using assms
  proof (induction xs arbitrary: h)
    case (Cons x xs)
    then obtain h1 where h1: "Histogram_Add h (fst x) (snd x) = Inr h1" "wf_Histogram h1"
      "\<forall>k. Histogram_Get h1 k = Histogram_Get h k + (if k = fst x then snd x else 0)"
      using Histogram_Add_ok [of h "snd x" "fst x"] by auto
    from Cons.IH [OF h1(2)] Cons.prems h1 show ?case by (auto simp: add.assoc)
  qed auto
  moreover have "wf_Histogram Histogram_new" by (simp add: wf_Histogram_def Histogram_new_def)
  moreover have "Histogram_Get Histogram_new k = 0" for k
    by (simp add: Histogram_Get_def Histogram_new_def)
  ultimately show ?thesis by (fastforce simp: wf_Histogram_def)
qed

theorem histogram_tally_witness:
  "list_all (\<lambda>x. snd x \<noteq> 0) [(True, 2 :: u32), (False, 1), (True, 3)] \<and>
   (\<exists>h. Histogram_Adds Histogram_new [(True, 2 :: u32), (False, 1), (True, 3)] = Inr h \<and>
      Histogram_Get h True = 5)"
proof -
  have nz: "list_all (\<lambda>x. snd x \<noteq> 0) [(True, 2 :: u32), (False, 1), (True, 3)]" by simp
  with histogram_tally [OF nz] show ?thesis by fastforce
qed

section \<open>Log2-spaced histograms\<close>

type_synonym MetricCounter = u64

definition Counter_Add :: "u64 \<Rightarrow> MetricCounter \<Rightarrow> MetricCounter" where
  "Counter_Add n c = c + n"

definition Counter_LossyAdd :: "u64 \<Rightarrow> MetricCounter \<Rightarrow> MetricCounter" where
  "Counter_LossyAdd n c = c + n"

definition Counter_Clear :: "MetricCounter \<Rightarrow> MetricCounter" where
  "Counter_Clear c = 0"

record Log2Histogram =
  h_sum :: MetricCounter
  h_buckets :: "MetricCounter list"

definition Log2Histogram_new :: "nat \<Rightarrow> Log2Histogram" where
  "Log2Histogram_new N = \<lparr>h_sum = 0, h_buckets = replicate N 0\<rparr>"

definition kSampleBits :: nat where "kSampleBits = 64"

definition countl_zero :: "u64 \<Rightarrow> nat" where
  "countl_zero v = length (takeWhile (\<lambda>i. \<not> bit v i) (rev [0..<kSampleBits]))"

definition toBucket :: "nat \<Rightarrow> u64 \<Rightarrow> nat" where
  "toBucket N sample = min (kSampleBits - countl_zero sample) (N - 1)"

definition Log2Histogram_Bucket :: "Log2Histogram \<Rightarrow> u32 \<Rightarrow> u64" where
  "Log2Histogram_Bucket h i =
     (if unat i < length (h_buckets h) then h_buckets h ! unat i else 0)"

definition Log2Histogram_Record :: "u64 \<Rightarrow> u64 \<Rightarrow> Log2Histogram \<Rightarrow> Log2Histogram res" where
  "Log2Histogram_Record sample count h = (let
     i = toBucket (length (h_buckets h)) sample in
     dcheck (i \<le> length (h_buckets h) - 1)
       (Inr (h\<lparr>h_sum := Counter_Add (sample * count) (h_sum h),
              h_buckets := (h_buckets h)[i := Counter_Add count (h_buckets h ! i)]\<rparr>)))"

definition Log2Histogram_Clear :: "Log2Histogram \<Rightarrow> Log2Histogram" where
  "Log2Histogram_Clear h = \<lparr>h_sum = Counter_Clear (h_sum h),
     h_buckets = map Counter_Clear (h_buckets h)\<rparr>"

definition Log2Histogram_Snapshot :: "Log2Histogram \<Rightarrow> Log2Histogram" where
  "Log2Histogram_Snapshot h = \<lparr>h_sum = h_sum h,
     h_buckets = map (\<lambda>i. h_buckets h ! i) [0..<length (h_buckets h)]\<rparr>"

definition Log2Histogram_Count :: "Log2Histogram \<Rightarrow> u64" where
  "Log2Histogram_Count h = foldl (+) 0 (h_buckets h)"

lemma Log2Histogram_Snapshot_id: "Log2Histogram_Snapshot h = h"
  by (simp add: Log2Histogram_Snapshot_def map_nth)

lemma takeWhile_rev_upt:
  "length (takeWhile P (rev [0..<n])) \<le> n"
  using length_takeWhile_le [of P "rev [0..<n]"] by simp

lemma countl_zero_le: "countl_zero v \<le> kSampleBits"
  unfolding countl_zero_def by (rule takeWhile_rev_upt)

lemma takeWhile_rev_upt_skips:
  "n - length (takeWhile P (rev [0..<n])) \<le> i \<Longrightarrow> i < n \<Longrightarrow> P i"
proof (induction n)
  case (Suc n)
  have "length (takeWhile P (rev [0..<n])) \<le> n" by (rule takeWhile_rev_upt)
  with Suc show ?case by (cases "i = n") (auto simp: Suc_diff_le split: if_splits)
qed simp

lemma takeWhile_rev_upt_stops:
  "i < n \<Longrightarrow> \<not> P i \<Longrightarrow> length (takeWhile P (rev [0..<n])) < n \<and>
     \<not> P (n - length (takeWhile P (rev [0..<n])) - 1)"
  by (induction n) (auto simp: less_Suc_eq)

lemma bit_length_bounds:
  assumes "v \<noteq> 0"
  shows "2 ^ (kSampleBits - countl_zero v - 1) \<le> unat v" "unat v < 2 ^ (kSampleBits - countl_zero v)"
    "0 < kSampleBits - countl_zero v"
proof -
  let ?n = "kSampleBits - countl_zero v"
  obtain i where i: "bit v i" using assms by (metis bit_word_eqI bit_0_eq bot_apply bot_bool_def)
  then have "i < kSampleBits" using bit_imp_le_length [OF i] by (simp add: kSampleBits_def)
  with i takeWhile_rev_upt_stops [of i kSampleBits "\<lambda>i. \<not> bit v i"]
  have b: "bit v (?n - 1)" "0 < ?n" by (simp_all add: countl_zero_def)
  show "0 < ?n" by (rule b(2))
  have "\<not> bit v j" if "?n \<le> j" "j < kSampleBits" for j
    using takeWhile_rev_upt_skips [of kSampleBits "\<lambda>i. \<not> bit v i" j] that
    by (simp add: countl_zero_def)
  then have "take_bit ?n v = v"
    by (intro bit_word_eqI) (auto simp: bit_simps kSampleBits_def, meson not_less)
  then have "unat v = take_bit ?n (unat v)" by (metis unsigned_take_bit_eq)
  then show "unat v < 2 ^ ?n" by (metis take_bit_nat_less_exp)
  have "bit (unat v) (?n - 1)" using b(1) by (simp add: bit_unsigned_iff)
  moreover have "\<not> bit (unat v) (?n - 1)" if "unat v < 2 ^ (?n - 1)"
    using take_bit_nat_eq_self [OF that] bit_take_bit_iff [of "?n - 1" "unat v" "?n - 1"] by simp
  ultimately show "2 ^ (?n - 1) \<le> unat v" using leI by blast
qed

lemma countl_zero_0: "countl_zero 0 = kSampleBits"
  unfolding countl_zero_def by (subst takeWhile_eq_all_conv [THEN iffD2]) simp_all

lemma toBucket_less: "0 < N \<Longrightarrow> toBucket N s < N"
  unfolding toBucket_def by (rule le_less_trans [OF min.cobounded2]) simp

lemma toBucket_zero: "1 < N \<Longrightarrow> toBucket N s = 0 \<longleftrightarrow> s = 0"
  using bit_length_bounds(3) [of s] unfolding toBucket_def min_def
  by (cases "s = 0") (simp_all add: countl_zero_0)

lemma toBucket_range:
  assumes "s \<noteq> 0" "1 < N" "i < N" "0 < i"
  shows "toBucket N s = i \<longleftrightarrow> 2 ^ (i - 1) \<le> unat s \<and> (i < N - 1 \<longrightarrow> unat s < 2 ^ i)"
proof -
  let ?n = "kSampleBits - countl_zero s"
  note b = bit_length_bounds [OF assms(1)]
  have up: "unat s < 2 ^ k \<longleftrightarrow> ?n \<le> k" for k
  proof
    assume "unat s < 2 ^ k"
    with b(1) have "(2 :: nat) ^ (?n - 1) < 2 ^ k" by linarith
    then have "?n - 1 < k" by (simp add: power_strict_increasing_iff)
    then show "?n \<le> k" by linarith
  next
    assume "?n \<le> k"
    then have "(2 :: nat) ^ ?n \<le> 2 ^ k" by simp
    with b(2) show "unat s < 2 ^ k" by linarith
  qed
  have lo: "2 ^ (i - 1) \<le> unat s \<longleftrightarrow> i \<le> ?n"
    using up [of "i - 1"] assms(4) by (auto simp: not_less [symmetric])
  show ?thesis
    unfolding lo up using assms(2-4) by (auto simp: toBucket_def min_def)
qed

fun Log2Histogram_Records :: "u64 list \<Rightarrow> Log2Histogram \<Rightarrow> Log2Histogram res" where
  "Log2Histogram_Records [] h = Inr h"
| "Log2Histogram_Records (s # ss) h =
     rbind (Log2Histogram_Record s 1 h) (\<lambda>h'. Log2Histogram_Records ss h')"

lemma sum_list_bump:
  "i < length xs \<Longrightarrow> sum_list (xs[i := c + xs ! i]) = c + sum_list (xs :: 'a::comm_ring_1 list)"
proof (induction xs arbitrary: i)
  case (Cons x xs)
  then show ?case by (cases i) (simp_all add: algebra_simps)
qed simp

lemma Log2Histogram_Count_sum: "Log2Histogram_Count h = sum_list (h_buckets h)"
proof -
  have "foldl (+) a xs = a + sum_list xs" for a :: u64 and xs
    by (induction xs arbitrary: a) (simp_all add: add.assoc)
  then show ?thesis by (simp add: Log2Histogram_Count_def)
qed

lemma Log2Histogram_Records_ok:
  assumes "0 < length (h_buckets h)"
  shows "\<exists>h'. Log2Histogram_Records ss h = Inr h' \<and> length (h_buckets h') = length (h_buckets h) \<and>
    h_sum h' = h_sum h + sum_list ss \<and>
    Log2Histogram_Count h' = Log2Histogram_Count h + of_nat (length ss) \<and>
    (\<forall>i < length (h_buckets h). h_buckets h' ! i =
       h_buckets h ! i + of_nat (length (filter (\<lambda>s. toBucket (length (h_buckets h)) s = i) ss)))"
  using assms
proof (induction ss arbitrary: h)
  case (Cons s ss)
  let ?N = "length (h_buckets h)" and ?i = "toBucket (length (h_buckets h)) s"
  let ?h = "h\<lparr>h_sum := Counter_Add s (h_sum h),
    h_buckets := (h_buckets h)[?i := Counter_Add 1 (h_buckets h ! ?i)]\<rparr>"
  have i: "?i < ?N" using toBucket_less Cons.prems by blast
  then have "?i \<le> ?N - 1" by linarith
  then have r: "Log2Histogram_Record s 1 h = Inr ?h"
    by (simp add: Log2Histogram_Record_def Let_def)
  obtain h' where h': "Log2Histogram_Records ss ?h = Inr h'" "length (h_buckets h') = ?N"
    "h_sum h' = h_sum ?h + sum_list ss"
    "Log2Histogram_Count h' = Log2Histogram_Count ?h + of_nat (length ss)"
    "\<forall>i < ?N. h_buckets h' ! i =
       h_buckets ?h ! i + of_nat (length (filter (\<lambda>s. toBucket ?N s = i) ss))"
    using Cons.IH [of ?h] Cons.prems by auto
  have "Log2Histogram_Count ?h = Log2Histogram_Count h + 1"
    using i sum_list_bump [OF i, of 1] by (simp add: Log2Histogram_Count_sum Counter_Add_def add.commute)
  with h' r i show ?case
    by (auto simp: Counter_Add_def nth_list_update)
qed simp

text \<open>
  A log2 histogram with \<open>N\<close> buckets (\<open>2 \<le> N\<close>; the code uses 32) records every sample
  without a failed check. Bucket 0 counts the zero samples, bucket \<open>i\<close> those in
  \<open>[2 ^ (i - 1), 2 ^ i)\<close>, the last one all from \<open>2 ^ (N - 2)\<close> on; the sum field is the sum of
  the samples and the bucket counts add up to their number, as 64-bit words.
\<close>
theorem log2_histogram_spec:
  assumes "2 \<le> N"
  shows "\<exists>h. Log2Histogram_Records ss (Log2Histogram_new N) = Inr h \<and>
    h_sum h = sum_list ss \<and> Log2Histogram_Count h = of_nat (length ss) \<and>
    (\<forall>i < N. h_buckets h ! i = of_nat (length (filter (\<lambda>s.
       if i = 0 then s = 0
       else 2 ^ (i - 1) \<le> unat s \<and> (i < N - 1 \<longrightarrow> unat s < 2 ^ i)) ss)))"
proof -
  have "toBucket N s = i \<longleftrightarrow> (if i = 0 then s = 0
       else 2 ^ (i - 1) \<le> unat s \<and> (i < N - 1 \<longrightarrow> unat s < 2 ^ i))" if "i < N" for s i
    using toBucket_zero [of N s] toBucket_range [of s N i] that assms
    by (cases "s = 0") auto
  moreover obtain h where "Log2Histogram_Records ss (Log2Histogram_new N) = Inr h"
    "h_sum h = sum_list ss" "Log2Histogram_Count h = of_nat (length ss)"
    "\<forall>i < N. h_buckets h ! i = of_nat (length (filter (\<lambda>s. toBucket N s = i) ss))"
    using Log2Histogram_Records_ok [of "Log2Histogram_new N" ss] assms
    by (auto simp: Log2Histogram_new_def Log2Histogram_Count_sum sum_list_replicate)
  ultimately show ?thesis by auto
qed

theorem log2_histogram_spec_witness:
  "\<exists>h. Log2Histogram_Records [0, 5, 6, 70] (Log2Histogram_new 5) = Inr h \<and>
     h_sum h = 81 \<and> h_buckets h ! 3 = 2 \<and> h_buckets h ! 4 = 1"
  using log2_histogram_spec [of 5 "[0, 5, 6, 70]"] by auto

section \<open>Metric sets\<close>

record OpMetrics =
  e2e_latency_us :: Log2Histogram
  request_size_bytes :: Log2Histogram
  om_bytes :: MetricCounter
  om_errors :: MetricCounter

record EngineMetrics =
  em_write :: OpMetrics
  em_read :: OpMetrics
  recv_post_latency_us :: Log2Histogram
  tcp_connect_failures :: MetricCounter

record ControlMetrics =
  rpc_requests_received :: MetricCounter

record TransportMetrics =
  tm_write :: OpMetrics
  tm_read :: OpMetrics
  tm_recv_post_latency_us :: Log2Histogram
  tm_tcp_connect_failures :: u64
  tm_rpc_requests_received :: u64

definition OpMetrics_new :: OpMetrics where
  "OpMetrics_new = \<lparr>e2e_latency_us = Log2Histogram_new 32, request_size_bytes = Log2Histogram_new 32,
     om_bytes = 0, om_errors = 0\<rparr>"

definition EngineMetrics_new :: EngineMetrics where
  "EngineMetrics_new = \<lparr>em_write = OpMetrics_new, em_read = OpMetrics_new,
     recv_post_latency_us = Log2Histogram_new 32, tcp_connect_failures = 0\<rparr>"

definition OpMetrics_Snapshot :: "OpMetrics \<Rightarrow> OpMetrics" where
  "OpMetrics_Snapshot m = \<lparr>
     e2e_latency_us = Log2Histogram_Snapshot (e2e_latency_us m),
     request_size_bytes = Log2Histogram_Snapshot (request_size_bytes m),
     om_bytes = om_bytes m, om_errors = om_errors m\<rparr>"

definition EngineMetrics_Snapshot :: "EngineMetrics \<Rightarrow> TransportMetrics \<Rightarrow> TransportMetrics" where
  "EngineMetrics_Snapshot e m = m\<lparr>
     tm_write := OpMetrics_Snapshot (em_write e),
     tm_read := OpMetrics_Snapshot (em_read e),
     tm_recv_post_latency_us := Log2Histogram_Snapshot (recv_post_latency_us e),
     tm_tcp_connect_failures := tcp_connect_failures e\<rparr>"

definition ControlMetrics_Snapshot :: "ControlMetrics \<Rightarrow> TransportMetrics \<Rightarrow> TransportMetrics" where
  "ControlMetrics_Snapshot c m = m\<lparr>tm_rpc_requests_received := rpc_requests_received c\<rparr>"

text \<open>All histograms of the engine have 32 buckets, so recording in them never fails.\<close>

definition wf_OpMetrics :: "OpMetrics \<Rightarrow> bool" where
  "wf_OpMetrics m \<longleftrightarrow> length (h_buckets (e2e_latency_us m)) = 32 \<and>
     length (h_buckets (request_size_bytes m)) = 32"

definition wf_EngineMetrics :: "EngineMetrics \<Rightarrow> bool" where
  "wf_EngineMetrics m \<longleftrightarrow> wf_OpMetrics (em_write m) \<and> wf_OpMetrics (em_read m) \<and>
     length (h_buckets (recv_post_latency_us m)) = 32"

lemma wf_EngineMetrics_new [simp]: "wf_EngineMetrics EngineMetrics_new"
  by (simp add: wf_EngineMetrics_def wf_OpMetrics_def EngineMetrics_new_def OpMetrics_new_def
      Log2Histogram_new_def)

lemma Log2Histogram_Record_32:
  assumes "length (h_buckets h) = 32"
  shows "\<exists>h'. Log2Histogram_Record s c h = Inr h' \<and> length (h_buckets h') = 32"
  using assms toBucket_less [of 32 s] by (simp add: Log2Histogram_Record_def Let_def)

end
