(* ===== verification/Trace.thy ===== *)
theory Trace
  imports Header Metrics
begin

text \<open>
  \<^verbatim>\<open>internal/trace\<close>: the ring buffer of trace events, the sampling policy and the recorder that
  the engine, its workers and the request tracker call; \<^verbatim>\<open>util/clock.cc\<close>.

  The record \<open>Env\<close> is what these components share in one process: the monotonic clock, the
  engine's metrics and the trace recorder. The clock is an arbitrary sequence of readings
  of which each call of \<^verbatim>\<open>MonoNowUs\<close> takes the next one.
\<close>

section \<open>Events\<close>

datatype TraceStage =
  kPostEntry | kEngineEnqueued | kAllRequestsDone | kCallbackDone | kPollReaped
| kEngineDequeued | kConnSetupStart | kGetPeerHostInfoDone | kConnSetupDone | kWorkerEnqueued
| kRequestDone
| kWorkerDequeued | kTxWriteDone | kRdmaPostSend | kRdmaCqeReaped | kTxAckRcvd

primrec TraceStage_value :: "TraceStage \<Rightarrow> u8" where
  "TraceStage_value kPostEntry = 1"
| "TraceStage_value kEngineEnqueued = 2"
| "TraceStage_value kAllRequestsDone = 3"
| "TraceStage_value kCallbackDone = 4"
| "TraceStage_value kPollReaped = 5"
| "TraceStage_value kEngineDequeued = 20"
| "TraceStage_value kConnSetupStart = 21"
| "TraceStage_value kGetPeerHostInfoDone = 22"
| "TraceStage_value kConnSetupDone = 23"
| "TraceStage_value kWorkerEnqueued = 24"
| "TraceStage_value kRequestDone = 25"
| "TraceStage_value kWorkerDequeued = 40"
| "TraceStage_value kTxWriteDone = 41"
| "TraceStage_value kRdmaPostSend = 42"
| "TraceStage_value kRdmaCqeReaped = 43"
| "TraceStage_value kTxAckRcvd = 44"

definition kNoChunk :: u32 where "kNoChunk = 0xFFFFFFFF"

record TraceEvent =
  te_timestamp_us :: u64
  te_handle :: u32
  te_reqid :: u32
  te_stage :: u8
  te_metadata :: u8
  te_worker_id :: u16
  te_chunk_idx :: u32
  te_metric1 :: u32
  te_metric2 :: u32

definition TraceEvent_new :: TraceEvent where
  "TraceEvent_new = \<lparr>te_timestamp_us = 0, te_handle = 0, te_reqid = 0,
     te_stage = TraceStage_value kPostEntry, te_metadata = 0, te_worker_id = 0,
     te_chunk_idx = kNoChunk, te_metric1 = 0, te_metric2 = 0\<rparr>"

section \<open>Ring buffer\<close>

text \<open>A slot holds the 32 bytes of an event as four 64-bit words.\<close>

definition kCapacity :: nat where "kCapacity = 32768"
definition kMask :: u64 where "kMask = of_nat (kCapacity - 1)"
definition kNumWords :: nat where "kNumWords = 4"

type_synonym Slot = "u64 list"

definition event_bytes :: "TraceEvent \<Rightarrow> byte list" where
  "event_bytes e = to_le 8 (te_timestamp_us e) @ to_le 4 (te_handle e) @ to_le 4 (te_reqid e) @
     te_stage e # te_metadata e # to_le 2 (te_worker_id e) @ to_le 4 (te_chunk_idx e) @
     to_le 4 (te_metric1 e) @ to_le 4 (te_metric2 e)"

definition event_of :: "byte list \<Rightarrow> TraceEvent" where
  "event_of s = \<lparr>te_timestamp_us = of_le (fld s 0 8), te_handle = of_le (fld s 8 4),
     te_reqid = of_le (fld s 12 4), te_stage = s ! 16, te_metadata = s ! 17,
     te_worker_id = of_le (fld s 18 2), te_chunk_idx = of_le (fld s 20 4),
     te_metric1 = of_le (fld s 24 4), te_metric2 = of_le (fld s 28 4)\<rparr>"

definition StoreRelaxed :: "TraceEvent \<Rightarrow> Slot" where
  "StoreRelaxed ev = map (\<lambda>i. of_le (fld (event_bytes ev) (8 * i) 8)) [0..<kNumWords]"

definition LoadAcquire :: "Slot \<Rightarrow> TraceEvent" where
  "LoadAcquire words = event_of (concat (map (to_le 8) words))"

definition Slot_Clear :: Slot where
  "Slot_Clear = replicate kNumWords 0"

record TraceBuffer =
  tb_events :: "nat \<Rightarrow> Slot"
  write_idx :: u64

definition TraceBuffer_new :: TraceBuffer where
  "TraceBuffer_new = \<lparr>tb_events = \<lambda>i. Slot_Clear, write_idx = 0\<rparr>"

definition TotalRecorded :: "TraceBuffer \<Rightarrow> u64" where
  "TotalRecorded b = write_idx b"

definition TraceBuffer_Record :: "TraceEvent \<Rightarrow> TraceBuffer \<Rightarrow> TraceBuffer" where
  "TraceBuffer_Record ev b = (let idx = write_idx b in
     b\<lparr>write_idx := idx + 1,
       tb_events := (tb_events b)(unat (idx AND kMask) := StoreRelaxed ev)\<rparr>)"

definition TraceBuffer_Snapshot :: "TraceBuffer \<Rightarrow> TraceEvent list" where
  "TraceBuffer_Snapshot b = (let total = write_idx b in
     if total = 0 then []
     else
       let count = min total (of_nat kCapacity);
           start = total - count
       in map (\<lambda>i. LoadAcquire (tb_events b (unat ((start + of_nat i) AND kMask)))) [0..<unat count])"

definition TraceBuffer_Clear :: "TraceBuffer \<Rightarrow> TraceBuffer" where
  "TraceBuffer_Clear b = b\<lparr>write_idx := 0,
     tb_events := \<lambda>i. if i < kCapacity then Slot_Clear else tb_events b i\<rparr>"

lemma length_event_bytes [simp]: "length (event_bytes e) = 32"
  by (simp add: event_bytes_def)

lemma event_of_bytes: "event_of (event_bytes e) = e"
  by (simp add: event_of_def event_bytes_def fld_simps)

lemma LoadAcquire_StoreRelaxed [simp]: "LoadAcquire (StoreRelaxed e) = e"
proof -
  let ?s = "event_bytes e"
  have w: "to_le 8 (of_le (fld ?s (8 * i) 8) :: u64) = fld ?s (8 * i) 8" if "i < 4" for i
    using to_le_of_le [of "fld ?s (8 * i) 8", where ?'a = 64] that by (simp add: fld_def)
  have "fld ?s 0 8 @ fld ?s 8 8 @ fld ?s 16 8 @ fld ?s 24 8 = ?s"
  proof -
    have "fld ?s i 8 @ drop (i + 8) ?s = drop i ?s" for i
      by (simp add: fld_def) (metis append_take_drop_id drop_drop add.commute)
    note c = this [of 0] this [of 8] this [of 16] this [of 24]
    show ?thesis using c by simp
  qed
  moreover have "[0..<4] = [0, 1, 2, 3 :: nat]" by (simp add: upt_rec)
  ultimately show ?thesis
    using w [of 0] w [of 1] w [of 2] w [of 3]
    by (simp add: LoadAcquire_def StoreRelaxed_def kNumWords_def event_of_bytes)
qed

lemma and_kMask: "unat (i AND kMask) = unat i mod kCapacity"
proof -
  have "kMask = mask 15" by (simp add: kMask_def kCapacity_def mask_eq_exp_minus_1)
  then have "i AND kMask = take_bit 15 i" by (simp add: take_bit_eq_mask)
  then show ?thesis by (simp add: take_bit_eq_mod unat_mod kCapacity_def)
qed

definition holds_last :: "TraceBuffer \<Rightarrow> TraceEvent list \<Rightarrow> bool" where
  "holds_last b es \<longleftrightarrow> write_idx b = of_nat (length es) \<and>
     (\<forall>j < length es. length es \<le> j + kCapacity \<longrightarrow>
        LoadAcquire (tb_events b (j mod kCapacity)) = es ! j)"

lemma mod_near_eq:
  assumes "(i :: nat) mod c = n mod c" "i < n" "n < i + c"
  shows False
proof -
  have "c dvd n - i" using assms(1) [symmetric] assms(2) by (simp add: mod_eq_dvd_iff_nat)
  with assms(2,3) show False by (auto dest: dvd_imp_le)
qed

lemma holds_last_Record:
  assumes "holds_last b es" "length es + 1 < 2 ^ 64"
  shows "holds_last (TraceBuffer_Record e b) (es @ [e])"
proof -
  have idx: "unat (of_nat (length es) AND kMask) = length es mod kCapacity"
    using assms(2) by (simp add: and_kMask)
  have "LoadAcquire (tb_events (TraceBuffer_Record e b) (j mod kCapacity)) = (es @ [e]) ! j"
    if "j < Suc (length es)" "Suc (length es) \<le> j + kCapacity" for j
  proof (cases "j = length es")
    case True
    with assms idx show ?thesis by (simp add: holds_last_def TraceBuffer_Record_def Let_def)
  next
    case False
    then have "j mod kCapacity \<noteq> length es mod kCapacity"
      using mod_near_eq [of j kCapacity "length es"] that by auto
    with False assms idx that show ?thesis
      by (auto simp: holds_last_def TraceBuffer_Record_def Let_def nth_append)
  qed
  with assms show ?thesis
    by (simp add: holds_last_def TraceBuffer_Record_def Let_def)
qed

lemma Snapshot_holds_last:
  assumes "holds_last b es" "length es < 2 ^ 64"
  shows "TraceBuffer_Snapshot b = drop (length es - kCapacity) es"
proof -
  let ?n = "length es" and ?c = "min (length es) kCapacity"
  have w: "unat (write_idx b) = ?n" using assms by (simp add: holds_last_def)
  then have z: "write_idx b = 0 \<longleftrightarrow> es = []" by (auto simp: unat_eq_0 [symmetric])
  have cap: "unat (of_nat kCapacity :: u64) = kCapacity" by (simp add: kCapacity_def)
  have cnt: "unat (min (write_idx b) (of_nat kCapacity)) = ?c"
    unfolding min_def word_le_nat_alt w cap by (simp add: w cap)
  have start: "unat (write_idx b - min (write_idx b) (of_nat kCapacity)) = ?n - ?c"
    using cnt w by (simp add: unat_sub word_le_nat_alt)
  have "LoadAcquire (tb_events b (unat ((write_idx b - min (write_idx b) (of_nat kCapacity) + of_nat i)
      AND kMask))) = es ! (?n - ?c + i)" if "i < ?c" for i
  proof -
    have "?n - ?c + i < 2 ^ 64" "unat (of_nat i :: u64) = i"
      using that assms(2) by (simp_all add: min_def split: if_splits)
    then have "unat (write_idx b - min (write_idx b) (of_nat kCapacity) + of_nat i) = ?n - ?c + i"
      using start by (subst unat_add_lem [THEN iffD1]) simp_all
    moreover have "?n - ?c + i < ?n" "?n \<le> ?n - ?c + i + kCapacity"
      using that by (auto simp: min_def split: if_splits)
    ultimately show ?thesis
      using assms(1) unfolding holds_last_def and_kMask by metis
  qed
  then have "map (\<lambda>i. LoadAcquire (tb_events b (unat ((write_idx b - min (write_idx b) (of_nat kCapacity) +
      of_nat i) AND kMask)))) [0..<?c] = map (\<lambda>i. es ! (?n - ?c + i)) [0..<?c]"
    by (simp cong: map_cong)
  also have "\<dots> = drop (?n - ?c) es" by (rule nth_equalityI) (simp_all add: add.commute)
  also have "?n - ?c = ?n - kCapacity" by simp
  finally show ?thesis
    using z by (auto simp: TraceBuffer_Snapshot_def Let_def cnt)
qed

text \<open>
  The trace buffer keeps the most recent events: after recording any sequence of fewer
  than \<open>2 ^ 64\<close> events in a fresh or cleared buffer, the snapshot is exactly the last
  \<open>min n 32768\<close> of them, in order and bit for bit through the word-wise slots, and the total
  is their number.
\<close>
theorem trace_snapshot_last:
  assumes "length es < 2 ^ 64"
  shows "TraceBuffer_Snapshot (fold TraceBuffer_Record es (TraceBuffer_Clear b)) =
      drop (length es - kCapacity) es \<and>
    TraceBuffer_Snapshot (fold TraceBuffer_Record es TraceBuffer_new) =
      drop (length es - kCapacity) es \<and>
    unat (TotalRecorded (fold TraceBuffer_Record es TraceBuffer_new)) = length es"
proof -
  have "holds_last (fold TraceBuffer_Record es b0) es" if "write_idx b0 = 0" for b0
    using assms
  proof (induction es rule: rev_induct)
    case Nil
    with that show ?case by (simp add: holds_last_def)
  next
    case (snoc e es)
    then show ?case by (simp add: holds_last_Record)
  qed
  from this [of TraceBuffer_new] this [of "TraceBuffer_Clear b"] assms show ?thesis
    by (simp add: Snapshot_holds_last TraceBuffer_new_def TraceBuffer_Clear_def TotalRecorded_def)
      (simp add: holds_last_def)
qed

theorem trace_snapshot_last_witness:
  "TraceBuffer_Snapshot (fold TraceBuffer_Record [TraceEvent_new] TraceBuffer_new) = [TraceEvent_new]"
  using trace_snapshot_last [of "[TraceEvent_new]" TraceBuffer_new] by (simp add: kCapacity_def)

section \<open>Sampling\<close>

record TraceSampler =
  sample_every_n :: u32
  ts_counter :: u64

definition TraceSampler_new :: "u32 \<Rightarrow> TraceSampler" where
  "TraceSampler_new n = \<lparr>sample_every_n = n, ts_counter = 0\<rparr>"

definition SetSampleEveryN :: "u32 \<Rightarrow> TraceSampler \<Rightarrow> TraceSampler" where
  "SetSampleEveryN n s = s\<lparr>sample_every_n := n\<rparr>"

definition IsEnabled :: "TraceSampler \<Rightarrow> bool" where
  "IsEnabled s \<longleftrightarrow> 0 < sample_every_n s"

definition ShouldSample :: "TraceSampler \<Rightarrow> bool \<times> TraceSampler" where
  "ShouldSample s = (let n = sample_every_n s in
     if n = 0 then (False, s)
     else if n = 1 then (True, s)
     else
       let idx = ts_counter s
       in (idx mod ucast n = 0, s\<lparr>ts_counter := idx + 1\<rparr>))"

fun samples :: "nat \<Rightarrow> TraceSampler \<Rightarrow> bool list" where
  "samples 0 s = []"
| "samples (Suc k) s = (let (b, s') = ShouldSample s in b # samples k s')"

text \<open>
  Sampling is exact: of any number of consecutive \<^verbatim>\<open>Post\<close> calls on a fresh sampler, up to
  \<open>2 ^ 64\<close> of them, the \<open>i\<close>-th (from 0) is traced iff the interval is non-zero and divides \<open>i\<close>;
  interval 0 disables tracing.
\<close>
theorem sampler_exact:
  assumes "k < 2 ^ 64"
  shows "samples k (TraceSampler_new n) = map (\<lambda>i. n \<noteq> 0 \<and> i mod unat n = 0) [0..<k]"
proof -
  have "samples m \<lparr>sample_every_n = n, ts_counter = (if n = 0 \<or> n = 1 then 0 else of_nat c)\<rparr> =
      map (\<lambda>i. n \<noteq> 0 \<and> i mod unat n = 0) [c..<c + m]" if "c + m < 2 ^ 64" for m c
    using that
  proof (induction m arbitrary: c)
    case (Suc m)
    have "(of_nat c :: u64) mod ucast n = 0 \<longleftrightarrow> c mod unat n = 0"
      using Suc.prems by (simp add: unat_eq_0 [symmetric] unat_mod)
    moreover have "[c..<c + Suc m] = c # [Suc c..<Suc c + m]" by (simp add: upt_conv_Cons)
    ultimately show ?case
      using Suc.IH [of "Suc c"] Suc.prems
      by (auto simp: ShouldSample_def Let_def add.commute)
  qed simp
  from this [of 0 k] assms show ?thesis by (simp add: TraceSampler_new_def split: if_splits)
qed

theorem sampler_exact_witness:
  "samples 5 (TraceSampler_new 2) = [True, False, True, False, True]"
  using sampler_exact [of 5 2] by (simp add: upt_rec)

section \<open>Recorder\<close>

record TraceContext =
  is_traced :: bool

definition TraceContext_new :: TraceContext where
  "TraceContext_new = \<lparr>is_traced = False\<rparr>"

record TraceRecorder =
  tr_sampler :: TraceSampler
  tr_buffer :: TraceBuffer

definition TraceRecorder_new :: "u32 \<Rightarrow> TraceRecorder" where
  "TraceRecorder_new n = \<lparr>tr_sampler = TraceSampler_new n, tr_buffer = TraceBuffer_new\<rparr>"

record Env =
  env_clock :: "nat \<Rightarrow> u64"
  env_tick :: nat
  env_metrics :: EngineMetrics
  env_tracer :: TraceRecorder

definition MonoNowUs :: "Env \<Rightarrow> u64 \<times> Env" where
  "MonoNowUs e = (env_clock e (env_tick e), e\<lparr>env_tick := env_tick e + 1\<rparr>)"

definition Configure :: "u32 \<Rightarrow> TraceRecorder \<Rightarrow> TraceRecorder" where
  "Configure n r = r\<lparr>tr_sampler := SetSampleEveryN n (tr_sampler r)\<rparr>"

definition TraceRecorder_Clear :: "TraceRecorder \<Rightarrow> TraceRecorder" where
  "TraceRecorder_Clear r = r\<lparr>tr_buffer := TraceBuffer_Clear (tr_buffer r)\<rparr>"

definition buffer_Record :: "TraceEvent \<Rightarrow> Env \<Rightarrow> Env" where
  "buffer_Record ev e = e\<lparr>env_tracer := (env_tracer e)\<lparr>tr_buffer :=
     TraceBuffer_Record ev (tr_buffer (env_tracer e))\<rparr>\<rparr>"

definition MaybeStartTrace :: "Env \<Rightarrow> TraceContext \<times> Env" where
  "MaybeStartTrace e = (let
     (sample, s) = ShouldSample (tr_sampler (env_tracer e));
     e' = e\<lparr>env_tracer := (env_tracer e)\<lparr>tr_sampler := s\<rparr>\<rparr>
   in if \<not> sample then (TraceContext_new, e') else (\<lparr>is_traced = True\<rparr>, e'))"

definition RecordConnSetupStage :: "TraceContext \<Rightarrow> Handle \<Rightarrow> u32 \<Rightarrow> TraceStage \<Rightarrow> Env \<Rightarrow> Env" where
  "RecordConnSetupStage ctx handle metric1 stage e =
     (if \<not> is_traced ctx then e
      else
        let (now, e1) = MonoNowUs e
        in buffer_Record (TraceEvent_new\<lparr>te_timestamp_us := now, te_handle := handle,
             te_stage := TraceStage_value stage, te_metric1 := metric1\<rparr>) e1)"

definition RecordSendChunkStage :: "DataHeader \<Rightarrow> int \<Rightarrow> u64 \<Rightarrow> TraceStage \<Rightarrow> Env \<Rightarrow> Env" where
  "RecordSendChunkStage chunk send_worker_id timestamp_us stage e =
     buffer_Record (TraceEvent_new\<lparr>te_timestamp_us := timestamp_us, te_handle := hdr_handle chunk,
       te_reqid := dh_reqid chunk, te_stage := TraceStage_value stage,
       te_worker_id := ClampI16 send_worker_id, te_chunk_idx := dh_index chunk,
       te_metric1 := hdr_len chunk\<rparr>) e"

definition RecordCompletionStage ::
    "TraceContext \<Rightarrow> Handle \<Rightarrow> ReqId \<Rightarrow> chunk_t \<Rightarrow> int \<Rightarrow> TraceStage \<Rightarrow> Env \<Rightarrow> Env" where
  "RecordCompletionStage ctx handle reqid index worker_id stage e =
     (if \<not> is_traced ctx then e
      else
        let (now, e1) = MonoNowUs e
        in buffer_Record (TraceEvent_new\<lparr>te_timestamp_us := now, te_handle := handle,
             te_reqid := reqid, te_stage := TraceStage_value stage,
             te_worker_id := ClampI16 worker_id, te_chunk_idx := index\<rparr>) e1)"

definition RecordEngineEnqueued :: "TraceContext \<Rightarrow> Handle \<Rightarrow> u64 \<Rightarrow> nat \<Rightarrow> Op \<Rightarrow> Env \<Rightarrow> Env" where
  "RecordEngineEnqueued ctx handle start_mono_us num_requests op e =
     (if \<not> is_traced ctx then e
      else
        let (t_enqueued_us, e1) = MonoNowUs e;
            ev = TraceEvent_new\<lparr>te_handle := handle, te_metadata := Op_value op,
                   te_metric1 := ClampU32 (of_nat num_requests)\<rparr>
        in buffer_Record (ev\<lparr>te_timestamp_us := t_enqueued_us,
               te_stage := TraceStage_value kEngineEnqueued\<rparr>)
             (buffer_Record (ev\<lparr>te_timestamp_us := start_mono_us,
               te_stage := TraceStage_value kPostEntry\<rparr>) e1))"

definition RecordEngineDequeued :: "TraceContext \<Rightarrow> Handle \<Rightarrow> ReqId \<Rightarrow> Request \<Rightarrow> Env \<Rightarrow> Env" where
  "RecordEngineDequeued ctx handle reqid req e =
     (if \<not> is_traced ctx then e
      else
        let (now, e1) = MonoNowUs e
        in buffer_Record (TraceEvent_new\<lparr>te_timestamp_us := now, te_handle := handle,
             te_reqid := reqid, te_stage := TraceStage_value kEngineDequeued,
             te_metadata := Op_value (req_op req), te_metric1 := ClampU32 (req_len req)\<rparr>) e1)"

definition RecordConnSetupStart :: "TraceContext \<Rightarrow> Handle \<Rightarrow> int \<Rightarrow> Env \<Rightarrow> Env" where
  "RecordConnSetupStart ctx handle num_conns =
     RecordConnSetupStage ctx handle (of_int (max 0 num_conns)) kConnSetupStart"

definition RecordGetPeerHostInfoDone :: "TraceContext \<Rightarrow> Handle \<Rightarrow> Env \<Rightarrow> Env" where
  "RecordGetPeerHostInfoDone ctx handle = RecordConnSetupStage ctx handle 0 kGetPeerHostInfoDone"

definition RecordConnSetupDone :: "TraceContext \<Rightarrow> Handle \<Rightarrow> nat \<Rightarrow> Env \<Rightarrow> Env" where
  "RecordConnSetupDone ctx handle num_workers =
     RecordConnSetupStage ctx handle (ClampU32 (of_nat num_workers)) kConnSetupDone"

definition RecordWorkerEnqueued :: "DataHeader \<Rightarrow> int \<Rightarrow> Env \<Rightarrow> Env" where
  "RecordWorkerEnqueued chunk send_worker_id e =
     (if \<not> IsTraced (dh_trace chunk) then e
      else let (now, e1) = MonoNowUs e
           in RecordSendChunkStage chunk send_worker_id now kWorkerEnqueued e1)"

definition RecordWorkerDequeued :: "DataHeader \<Rightarrow> int \<Rightarrow> Env \<Rightarrow> DataHeader \<times> Env" where
  "RecordWorkerDequeued chunk send_worker_id e =
     (if \<not> IsTraced (dh_trace chunk) then (chunk, e)
      else let (t_dequeued_us, e1) = MonoNowUs e;
               chunk' = chunk\<lparr>dh_trace := (dh_trace chunk)\<lparr>tx_send_us := t_dequeued_us\<rparr>\<rparr>
           in (chunk', RecordSendChunkStage chunk' send_worker_id t_dequeued_us kWorkerDequeued e1))"

definition RecordTxWriteDone :: "DataHeader \<Rightarrow> int \<Rightarrow> Env \<Rightarrow> Env" where
  "RecordTxWriteDone chunk send_worker_id e =
     (if \<not> IsTraced (dh_trace chunk) then e
      else let (now, e1) = MonoNowUs e
           in RecordSendChunkStage chunk send_worker_id now kTxWriteDone e1)"

definition RecordTxAckRcvd :: "DataHeader \<Rightarrow> Env \<Rightarrow> Env" where
  "RecordTxAckRcvd chunk e =
     (if \<not> IsTraced (dh_trace chunk) then e
      else
        let (now, e1) = MonoNowUs e; t = dh_trace chunk
        in buffer_Record (TraceEvent_new\<lparr>te_timestamp_us := now, te_handle := hdr_handle chunk,
             te_reqid := dh_reqid chunk, te_stage := TraceStage_value kTxAckRcvd,
             te_metadata := rx_chunk_status t, te_worker_id := scast (rx_worker_id t),
             te_chunk_idx := dh_index chunk, te_metric1 := rx_payload_us t,
             te_metric2 := ucast (rx_acquire_us t)\<rparr>) e1)"

definition RecordRequestDone ::
    "TraceContext \<Rightarrow> Handle \<Rightarrow> ReqId \<Rightarrow> chunk_t \<Rightarrow> int \<Rightarrow> Env \<Rightarrow> Env" where
  "RecordRequestDone ctx handle reqid index worker_id =
     RecordCompletionStage ctx handle reqid index worker_id kRequestDone"

definition RecordAllRequestsDone ::
    "TraceContext \<Rightarrow> Handle \<Rightarrow> ReqId \<Rightarrow> chunk_t \<Rightarrow> int \<Rightarrow> Env \<Rightarrow> Env" where
  "RecordAllRequestsDone ctx handle reqid index worker_id =
     RecordCompletionStage ctx handle reqid index worker_id kAllRequestsDone"

definition RecordCallbackDone :: "TraceContext \<Rightarrow> Handle \<Rightarrow> int \<Rightarrow> Env \<Rightarrow> Env" where
  "RecordCallbackDone ctx handle worker_id e =
     (if \<not> is_traced ctx then e
      else
        let (now, e1) = MonoNowUs e
        in buffer_Record (TraceEvent_new\<lparr>te_timestamp_us := now, te_handle := handle,
             te_stage := TraceStage_value kCallbackDone, te_worker_id := ClampI16 worker_id\<rparr>) e1)"

definition RecordPollReaped :: "TraceContext \<Rightarrow> Handle \<Rightarrow> Env \<Rightarrow> Env" where
  "RecordPollReaped ctx handle e =
     (if \<not> is_traced ctx then e
      else
        let (now, e1) = MonoNowUs e
        in buffer_Record (TraceEvent_new\<lparr>te_timestamp_us := now, te_handle := handle,
             te_stage := TraceStage_value kPollReaped\<rparr>) e1)"

lemmas recorder_defs = RecordConnSetupStage_def RecordSendChunkStage_def RecordCompletionStage_def
  RecordEngineEnqueued_def RecordEngineDequeued_def RecordConnSetupStart_def
  RecordGetPeerHostInfoDone_def RecordConnSetupDone_def RecordWorkerEnqueued_def
  RecordWorkerDequeued_def RecordTxWriteDone_def RecordTxAckRcvd_def RecordRequestDone_def
  RecordAllRequestsDone_def RecordCallbackDone_def RecordPollReaped_def buffer_Record_def
  MonoNowUs_def Let_def

text \<open>Recording touches only the clock position and the trace buffer.\<close>

lemma recorder_metrics [simp]:
  "env_metrics (RecordEngineEnqueued ctx h t n op e) = env_metrics e"
  "env_metrics (RecordEngineDequeued ctx h r rq e) = env_metrics e"
  "env_metrics (RecordConnSetupStart ctx h m e) = env_metrics e"
  "env_metrics (RecordGetPeerHostInfoDone ctx h e) = env_metrics e"
  "env_metrics (RecordConnSetupDone ctx h k e) = env_metrics e"
  "env_metrics (RecordWorkerEnqueued c w e) = env_metrics e"
  "env_metrics (snd (RecordWorkerDequeued c w e)) = env_metrics e"
  "env_metrics (RecordTxWriteDone c w e) = env_metrics e"
  "env_metrics (RecordTxAckRcvd c e) = env_metrics e"
  "env_metrics (RecordRequestDone ctx h r i w e) = env_metrics e"
  "env_metrics (RecordAllRequestsDone ctx h r i w e) = env_metrics e"
  "env_metrics (RecordCallbackDone ctx h w e) = env_metrics e"
  "env_metrics (RecordPollReaped ctx h e) = env_metrics e"
  "env_metrics (snd (MonoNowUs e)) = env_metrics e"
  "env_metrics (snd (MaybeStartTrace e)) = env_metrics e"
  by (simp_all add: recorder_defs MaybeStartTrace_def split: prod.splits)

end
