(* ===== verification/RequestTracker.thy ===== *)
theory RequestTracker
  imports Trace "HOL-Library.Multiset"
begin

text \<open>
  \<^verbatim>\<open>internal/request/request_tracker.{h,cc}\<close>: which chunks of which requests of which batches
  have been acknowledged (sender) or have arrived (receiver).

  The class has one mutex and every public operation holds it while it changes the maps, so
  each operation is one step here. Callbacks run after the lock is released: an operation
  returns the list of calls it makes, in order, and the caller of the model runs them. The
  pointers of \<^verbatim>\<open>req_map\<close> are never null outside a locked section and are not modelled as
  optional.
\<close>

section \<open>State\<close>

text \<open>
  The completion closures the engine installs: one of the API's user, and the one that
  reports a finished read reply to the incoming tracker.
\<close>

datatype OnComplete = UserCallback nat | ReadResponder Endpoint Handle

datatype Call =
  CallComplete OnComplete Status
| CallRecvPost Status Metadata "Metadata list"
| CallRecvRead Endpoint Handle "RequestInfo list"
| CallbackDone TraceContext Handle int

record ReqTracker =
  rt_chunks :: ChunkTracker
  rt_raddr :: addr_t
  rt_metadata :: Metadata

record PostTracker =
  req_map :: "(ReqId, ReqTracker) hash_map"
  pending_reqs :: u64
  pt_metadata :: Metadata
  pt_start_mono_us :: u64
  pt_on_complete :: "OnComplete option"
  pt_trace_ctx :: TraceContext
  is_initiator :: bool

definition PostTracker_new :: PostTracker where
  "PostTracker_new = \<lparr>req_map = [], pending_reqs = 0, pt_metadata = Metadata_zero,
     pt_start_mono_us = 0, pt_on_complete = None, pt_trace_ctx = TraceContext_new,
     is_initiator = False\<rparr>"

type_synonym Key = "Endpoint \<times> Handle"

record RequestTracker =
  trackers :: "(Key, PostTracker) hash_map"
  recv_post_callback :: bool
  resolve_addr_callback :: "(Metadata \<Rightarrow> Metadata \<Rightarrow> addr_t) option"
  on_recv_read :: bool

definition RequestTracker_new ::
    "bool \<Rightarrow> (Metadata \<Rightarrow> Metadata \<Rightarrow> addr_t) option \<Rightarrow> bool \<Rightarrow> RequestTracker" where
  "RequestTracker_new post resolve read = \<lparr>trackers = [], recv_post_callback = post,
     resolve_addr_callback = resolve, on_recv_read = read\<rparr>"

section \<open>Operations\<close>

definition rt_IsEmpty :: "RequestTracker \<Rightarrow> bool" where
  "rt_IsEmpty rt \<longleftrightarrow> trackers rt = []"

definition isComplete :: "PostTracker \<Rightarrow> bool" where
  "isComplete pt \<longleftrightarrow>
     (if req_map pt = [] then False
      else list_all (\<lambda>(reqid, req). ct_IsDone (rt_chunks req)) (req_map pt))"

definition Check :: "Handle \<Rightarrow> Endpoint \<Rightarrow> RequestTracker \<Rightarrow> Status" where
  "Check handle peer rt = (case map_of (trackers rt) (peer, handle) of
     None \<Rightarrow> kNotFound
   | Some pt \<Rightarrow> if \<not> isComplete pt then kInProgress else kSuccess)"

definition Add_handle :: "Handle \<Rightarrow> u64 \<Rightarrow> OnComplete option \<Rightarrow> TraceContext \<Rightarrow> RequestTracker \<Rightarrow>
    bool \<times> RequestTracker" where
  "Add_handle handle start_mono_us on_complete trace_ctx rt = (let
     pt = PostTracker_new\<lparr>pt_start_mono_us := start_mono_us, pt_on_complete := on_complete,
            pt_trace_ctx := trace_ctx, is_initiator := True\<rparr>;
     key = (Endpoint_default, handle)
   in case map_of (trackers rt) key of
        Some _ \<Rightarrow> (False, rt)
      | None \<Rightarrow> (True, rt\<lparr>trackers := AList.update key pt (trackers rt)\<rparr>))"

text \<open>The address a descriptor resolves to.\<close>

definition resolve_addr :: "RequestTracker \<Rightarrow> Metadata \<Rightarrow> RequestInfo \<Rightarrow> addr_t" where
  "resolve_addr rt meta req =
     (if ri_raddr req = 0 then
        (case resolve_addr_callback rt of
           None \<Rightarrow> 0
         | Some resolve \<Rightarrow> resolve meta (ri_metadata req))
      else ri_raddr req)"

text \<open>
  The loop over the descriptors: \<open>Some\<close> of the filled map and the resolved descriptors, or
  \<open>None\<close> when an address of a received batch cannot be resolved.
\<close>

fun add_reqs :: "RequestTracker \<Rightarrow> bool \<Rightarrow> bool \<Rightarrow> Metadata \<Rightarrow> RequestInfo list \<Rightarrow>
    (ReqId, ReqTracker) hash_map \<Rightarrow> RequestInfo list \<Rightarrow>
    ((ReqId, ReqTracker) hash_map \<times> RequestInfo list) option res" where
  "add_reqs rt initiator responder_read meta [] m resolved = Inr (Some (m, resolved))"
| "add_reqs rt initiator responder_read meta (req # reqs) m resolved =
     dcheck (RequestInfo_IsValid req)
       (let raddr = resolve_addr rt meta req in
        if \<not> initiator \<and> raddr = 0 then Inr None
        else
          rbind (ChunkTracker_new (ri_nchunks req)) (\<lambda>ct.
            add_reqs rt initiator responder_read meta reqs
              (AList.update (ri_reqid req)
                 \<lparr>rt_chunks = ct, rt_raddr = raddr, rt_metadata = ri_metadata req\<rparr> m)
              (if responder_read then resolved @ [req\<lparr>ri_raddr := raddr\<rparr>] else resolved)))"

definition Add_reqs :: "Handle \<Rightarrow> RequestInfo list \<Rightarrow> u64 \<Rightarrow> Metadata \<Rightarrow> Endpoint \<Rightarrow> RequestTracker \<Rightarrow>
    (bool \<times> Call list \<times> RequestTracker) res" where
  "Add_reqs handle reqs start_us meta peer rt =
     dcheck (reqs \<noteq> [])
       (let key = (peer, handle);
            inserted = (map_of (trackers rt) key = None);
            pt = (case map_of (trackers rt) key of None \<Rightarrow> PostTracker_new | Some p \<Rightarrow> p)
        in
        if req_map pt \<noteq> [] then Inr (True, [], rt)
        else
          let first_op = ri_op (hd reqs);
              start = (if \<not> is_initiator pt \<and> first_op = Op_value kWrite then start_us
                       else pt_start_mono_us pt);
              is_responder_read = (first_op = Op_value kRead \<and> \<not> is_initiator pt);
              pending = (if is_responder_read then 1 else of_nat (length reqs));
              pt1 = pt\<lparr>pt_metadata := meta, pt_start_mono_us := start, pending_reqs := pending\<rparr>
          in rbind (add_reqs rt (is_initiator pt) is_responder_read meta reqs [] []) (\<lambda>r.
               case r of
                 None \<Rightarrow>
                   if inserted then Inr (False, [], rt)
                   else Inr (False, [], rt\<lparr>trackers := AList.update key
                          (pt1\<lparr>req_map := [], pending_reqs := 0, pt_start_mono_us := 0\<rparr>) (trackers rt)\<rparr>)
               | Some (m, resolved) \<Rightarrow>
                   Inr (True,
                     if is_responder_read \<and> on_recv_read rt then [CallRecvRead peer handle resolved]
                     else [],
                     rt\<lparr>trackers := AList.update key (pt1\<lparr>req_map := m\<rparr>) (trackers rt)\<rparr>)))"

definition Remove :: "Handle \<Rightarrow> Endpoint \<Rightarrow> Env \<Rightarrow> RequestTracker \<Rightarrow> Env \<times> RequestTracker" where
  "Remove handle peer e rt = (case map_of (trackers rt) (peer, handle) of
     None \<Rightarrow> (e, rt)
   | Some pt \<Rightarrow> (RecordPollReaped (pt_trace_ctx pt) handle e,
       rt\<lparr>trackers := AList.delete (peer, handle) (trackers rt)\<rparr>))"

definition record_read_latency :: "u64 \<Rightarrow> Env \<Rightarrow> Env res" where
  "record_read_latency v e = (let m = env_metrics e in
     rbind (Log2Histogram_Record v 1 (e2e_latency_us (em_read m))) (\<lambda>h.
       Inr (e\<lparr>env_metrics := m\<lparr>em_read := (em_read m)\<lparr>e2e_latency_us := h\<rparr>\<rparr>\<rparr>)))"

definition record_write_latency :: "u64 \<Rightarrow> Env \<Rightarrow> Env res" where
  "record_write_latency v e = (let m = env_metrics e in
     rbind (Log2Histogram_Record v 1 (e2e_latency_us (em_write m))) (\<lambda>h.
       Inr (e\<lparr>env_metrics := m\<lparr>em_write := (em_write m)\<lparr>e2e_latency_us := h\<rparr>\<rparr>\<rparr>)))"

definition record_recv_latency :: "u64 \<Rightarrow> Env \<Rightarrow> Env res" where
  "record_recv_latency v e = (let m = env_metrics e in
     rbind (Log2Histogram_Record v 1 (recv_post_latency_us m)) (\<lambda>h.
       Inr (e\<lparr>env_metrics := m\<lparr>recv_post_latency_us := h\<rparr>\<rparr>)))"

text \<open>\<^verbatim>\<open>if (start != 0) histogram.Record(MonoNowUs() - start)\<close>\<close>

definition record_since :: "(u64 \<Rightarrow> Env \<Rightarrow> Env res) \<Rightarrow> u64 \<Rightarrow> Env \<Rightarrow> Env res" where
  "record_since rec start e =
     (if start \<noteq> 0 then let (now, e1) = MonoNowUs e in rec (now - start) e1 else Inr e)"

definition OnReqComplete :: "Handle \<Rightarrow> Endpoint \<Rightarrow> Env \<Rightarrow> RequestTracker \<Rightarrow>
    (Call list \<times> Env \<times> RequestTracker) res" where
  "OnReqComplete handle peer e rt = (case map_of (trackers rt) (peer, handle) of
     None \<Rightarrow> Inr ([], e, rt)
   | Some pt \<Rightarrow>
       dcheck (0 < pending_reqs pt)
         (let pt1 = pt\<lparr>pending_reqs := pending_reqs pt - 1\<rparr>;
              rt1 = rt\<lparr>trackers := AList.update (peer, handle) pt1 (trackers rt)\<rparr>
          in
          if pending_reqs pt1 \<noteq> 0 then Inr ([], e, rt1)
          else if is_initiator pt1 then
            rbind (record_since record_read_latency (pt_start_mono_us pt1) e) (\<lambda>e1.
              case pt_on_complete pt1 of
                None \<Rightarrow> Inr ([], e1, rt1)
              | Some cb \<Rightarrow> Inr ([CallComplete cb kSuccess], e1,
                  rt1\<lparr>trackers := AList.delete (peer, handle) (trackers rt1)\<rparr>))
          else
            rbind (record_since record_recv_latency (pt_start_mono_us pt1) e) (\<lambda>e1.
              Inr (if recv_post_callback rt1
                   then [CallRecvPost kSuccess (pt_metadata pt1)
                          (map (\<lambda>(reqid, req). rt_metadata req) (req_map pt1))]
                   else [], e1, rt1))))"

definition Update :: "Handle \<Rightarrow> ReqId \<Rightarrow> chunk_t \<Rightarrow> int \<Rightarrow> Endpoint \<Rightarrow> Env \<Rightarrow> RequestTracker \<Rightarrow>
    (Call list \<times> Env \<times> RequestTracker) res" where
  "Update handle reqid index worker_id peer e rt = (case map_of (trackers rt) (peer, handle) of
     None \<Rightarrow> Inr ([], e, rt)
   | Some pt \<Rightarrow>
       rbind (map_at (req_map pt) reqid) (\<lambda>req.
       rbind (ct_Set (rt_chunks req) index) (\<lambda>ct.
         let pt1 = pt\<lparr>req_map := AList.update reqid (req\<lparr>rt_chunks := ct\<rparr>) (req_map pt)\<rparr>;
             rt1 = rt\<lparr>trackers := AList.update (peer, handle) pt1 (trackers rt)\<rparr>
         in
         if \<not> ct_IsDone ct then Inr ([], e, rt1)
         else
           let e1 = RecordRequestDone (pt_trace_ctx pt1) handle reqid index worker_id e in
           if \<not> isComplete pt1 then Inr ([], e1, rt1)
           else
             let e2 = RecordAllRequestsDone (pt_trace_ctx pt1) handle reqid index worker_id e1;
                 rt2 = (if pt_on_complete pt1 \<noteq> None
                        then rt1\<lparr>trackers := AList.delete (peer, handle) (trackers rt1)\<rparr> else rt1)
             in rbind (record_since record_write_latency (pt_start_mono_us pt1) e2) (\<lambda>e3.
                  Inr (case pt_on_complete pt1 of
                         None \<Rightarrow> []
                       | Some cb \<Rightarrow> [CallComplete cb kSuccess,
                           CallbackDone (pt_trace_ctx pt1) handle worker_id],
                       e3, rt2)))))"

definition GetChunkAddr :: "Handle \<Rightarrow> ReqId \<Rightarrow> u64 \<Rightarrow> Endpoint \<Rightarrow> RequestTracker \<Rightarrow> addr_t" where
  "GetChunkAddr handle reqid byte_offset peer rt = (case map_of (trackers rt) (peer, handle) of
     None \<Rightarrow> 0
   | Some pt \<Rightarrow>
       (case map_of (req_map pt) reqid of
          None \<Rightarrow> 0
        | Some req \<Rightarrow> if rt_raddr req = 0 then 0 else rt_raddr req + byte_offset))"

definition Find :: "Handle \<Rightarrow> ReqId \<Rightarrow> Endpoint \<Rightarrow> RequestTracker \<Rightarrow> ChunkTracker res" where
  "Find handle reqid peer rt =
     rbind (map_at (trackers rt) (peer, handle)) (\<lambda>pt.
     rbind (map_at (req_map pt) reqid) (\<lambda>req. Inr (rt_chunks req)))"

text \<open>Writing through the reference that \<^verbatim>\<open>Find\<close> returns.\<close>

definition put_chunks :: "Handle \<Rightarrow> ReqId \<Rightarrow> Endpoint \<Rightarrow> ChunkTracker \<Rightarrow> RequestTracker \<Rightarrow> RequestTracker" where
  "put_chunks handle reqid peer ct rt = (case map_of (trackers rt) (peer, handle) of
     None \<Rightarrow> rt
   | Some pt \<Rightarrow>
       (case map_of (req_map pt) reqid of
          None \<Rightarrow> rt
        | Some req \<Rightarrow> rt\<lparr>trackers := AList.update (peer, handle)
            (pt\<lparr>req_map := AList.update reqid (req\<lparr>rt_chunks := ct\<rparr>) (req_map pt)\<rparr>) (trackers rt)\<rparr>))"

definition FindOrCreate :: "Handle \<Rightarrow> ReqId \<Rightarrow> u32 \<Rightarrow> Endpoint \<Rightarrow> RequestTracker \<Rightarrow>
    (ChunkTracker \<times> RequestTracker) res" where
  "FindOrCreate handle reqid num_chunks peer rt = (let
     key = (peer, handle);
     pt = (case map_of (trackers rt) key of None \<Rightarrow> PostTracker_new | Some p \<Rightarrow> p)
   in case map_of (req_map pt) reqid of
        Some req \<Rightarrow> Inr (rt_chunks req, rt)
      | None \<Rightarrow>
          rbind (ChunkTracker_new num_chunks) (\<lambda>ct.
            Inr (ct, rt\<lparr>trackers := AList.update key
              (pt\<lparr>req_map := AList.update reqid
                     \<lparr>rt_chunks = ct, rt_raddr = 0, rt_metadata = Metadata_zero\<rparr> (req_map pt),
                  pending_reqs := pending_reqs pt + 1\<rparr>) (trackers rt)\<rparr>)))"

section \<open>Invariant\<close>

definition wf_PostTracker :: "PostTracker \<Rightarrow> bool" where
  "wf_PostTracker pt \<longleftrightarrow> wf_map (req_map pt) \<and>
     (\<forall>reqid req. map_of (req_map pt) reqid = Some req \<longrightarrow> wf_ct (rt_chunks req))"

definition wf_RequestTracker :: "RequestTracker \<Rightarrow> bool" where
  "wf_RequestTracker rt \<longleftrightarrow> wf_map (trackers rt) \<and>
     (\<forall>key pt. map_of (trackers rt) key = Some pt \<longrightarrow> wf_PostTracker pt)"

definition wf_Env :: "Env \<Rightarrow> bool" where
  "wf_Env e \<longleftrightarrow> wf_EngineMetrics (env_metrics e)"

lemma wf_RequestTracker_update:
  "wf_RequestTracker rt \<Longrightarrow> wf_PostTracker pt \<Longrightarrow>
     wf_RequestTracker (rt\<lparr>trackers := AList.update key pt (trackers rt)\<rparr>)"
  by (auto simp: wf_RequestTracker_def split: if_splits)

lemma wf_RequestTracker_delete:
  "wf_RequestTracker rt \<Longrightarrow> wf_RequestTracker (rt\<lparr>trackers := AList.delete key (trackers rt)\<rparr>)"
  by (auto simp: wf_RequestTracker_def split: if_splits)

lemma wf_PostTracker_update:
  "wf_PostTracker pt \<Longrightarrow> wf_ct (rt_chunks req) \<Longrightarrow>
     wf_PostTracker (pt\<lparr>req_map := AList.update reqid req (req_map pt)\<rparr>)"
  by (auto simp: wf_PostTracker_def split: if_splits)

lemma wf_PostTracker_new [simp]: "wf_PostTracker PostTracker_new"
  by (simp add: wf_PostTracker_def PostTracker_new_def)

lemma wf_PostTracker_fields [simp]:
  "wf_PostTracker (pt\<lparr>pt_metadata := a\<rparr>) = wf_PostTracker pt"
  "wf_PostTracker (pt\<lparr>pt_start_mono_us := b\<rparr>) = wf_PostTracker pt"
  "wf_PostTracker (pt\<lparr>pending_reqs := c\<rparr>) = wf_PostTracker pt"
  "wf_PostTracker (pt\<lparr>pt_on_complete := d\<rparr>) = wf_PostTracker pt"
  "wf_PostTracker (pt\<lparr>pt_trace_ctx := x\<rparr>) = wf_PostTracker pt"
  "wf_PostTracker (pt\<lparr>is_initiator := y\<rparr>) = wf_PostTracker pt"
  by (simp_all add: wf_PostTracker_def)

lemma wf_RequestTrackerD:
  "wf_RequestTracker rt \<Longrightarrow> map_of (trackers rt) key = Some pt \<Longrightarrow> wf_PostTracker pt"
  unfolding wf_RequestTracker_def by blast

lemma wf_PostTrackerD:
  "wf_PostTracker pt \<Longrightarrow> map_of (req_map pt) reqid = Some req \<Longrightarrow> wf_ct (rt_chunks req)"
  by (simp add: wf_PostTracker_def)

lemma ct_Set_wf: "wf_ct t \<Longrightarrow> ct_Set t i = Inr t' \<Longrightarrow> wf_ct t'"
proof -
  assume wf: "wf_ct t" and s: "ct_Set t i = Inr t'"
  have "isValidChunk t i" "i \<notin> busy_chunks t" using s by (auto simp: ct_Set_def res_simps)
  then have "ct_status t (unat i) \<noteq> kBusy" "unat i < ct_total t"
    by (auto simp: valid_chunk ct_status_def)
  from ct_Set_ok [OF wf this(2,1)] s show "wf_ct t'" by auto
qed

lemma ChunkTracker_new_wf: "ChunkTracker_new n = Inr t \<Longrightarrow> wf_ct t"
proof -
  assume t: "ChunkTracker_new n = Inr t"
  then have "0 < n"
    by (cases "n = 0") (auto simp: ChunkTracker_new_def res_simps word_gt_0)
  from ChunkTracker_new_ok [OF this] t show ?thesis by auto
qed

lemma add_reqs_wf:
  assumes "add_reqs rt i rr meta reqs m resolved = Inr (Some (m', resolved'))"
    "wf_map m" "\<forall>k req. map_of m k = Some req \<longrightarrow> wf_ct (rt_chunks req)"
  shows "wf_map m' \<and> (\<forall>k req. map_of m' k = Some req \<longrightarrow> wf_ct (rt_chunks req))"
  using assms
proof (induction reqs arbitrary: m resolved)
  case (Cons r rs)
  from Cons.prems(1) obtain ct where ct: "ChunkTracker_new (ri_nchunks r) = Inr ct"
    and rec: "add_reqs rt i rr meta rs
      (AList.update (ri_reqid r) \<lparr>rt_chunks = ct, rt_raddr = resolve_addr rt meta r,
         rt_metadata = ri_metadata r\<rparr> m)
      (if rr then resolved @ [r\<lparr>ri_raddr := resolve_addr rt meta r\<rparr>] else resolved) =
      Inr (Some (m', resolved'))"
    by (auto simp: res_simps Let_def split: if_splits)
  show ?case
    using ChunkTracker_new_wf [OF ct] Cons.prems(2,3)
    by (intro Cons.IH [OF rec]) auto
qed simp

lemma record_since_total:
  assumes "wf_Env e"
  shows "\<exists>e'. record_since record_read_latency s e = Inr e' \<and> wf_Env e'"
    "\<exists>e'. record_since record_write_latency s e = Inr e' \<and> wf_Env e'"
    "\<exists>e'. record_since record_recv_latency s e = Inr e' \<and> wf_Env e'"
proof -
  let ?e = "snd (MonoNowUs e)" and ?v = "fst (MonoNowUs e) - s"
  have w: "wf_EngineMetrics (env_metrics ?e)" using assms by (simp add: wf_Env_def)
  obtain h1 where "Log2Histogram_Record ?v 1 (e2e_latency_us (em_read (env_metrics ?e))) = Inr h1"
    "length (h_buckets h1) = 32"
    using Log2Histogram_Record_32 w by (metis wf_EngineMetrics_def wf_OpMetrics_def)
  then show "\<exists>e'. record_since record_read_latency s e = Inr e' \<and> wf_Env e'"
    using assms w by (auto simp: record_since_def record_read_latency_def wf_Env_def Let_def
        wf_EngineMetrics_def wf_OpMetrics_def case_prod_beta)
  obtain h2 where "Log2Histogram_Record ?v 1 (e2e_latency_us (em_write (env_metrics ?e))) = Inr h2"
    "length (h_buckets h2) = 32"
    using Log2Histogram_Record_32 w by (metis wf_EngineMetrics_def wf_OpMetrics_def)
  then show "\<exists>e'. record_since record_write_latency s e = Inr e' \<and> wf_Env e'"
    using assms w by (auto simp: record_since_def record_write_latency_def wf_Env_def Let_def
        wf_EngineMetrics_def wf_OpMetrics_def case_prod_beta)
  obtain h3 where "Log2Histogram_Record ?v 1 (recv_post_latency_us (env_metrics ?e)) = Inr h3"
    "length (h_buckets h3) = 32"
    using Log2Histogram_Record_32 w by (metis wf_EngineMetrics_def)
  then show "\<exists>e'. record_since record_recv_latency s e = Inr e' \<and> wf_Env e'"
    using assms w by (auto simp: record_since_def record_recv_latency_def wf_Env_def Let_def
        wf_EngineMetrics_def wf_OpMetrics_def case_prod_beta)
qed

lemma wf_Env_frames [simp]:
  "wf_Env (RecordRequestDone ctx h r i w e) = wf_Env e"
  "wf_Env (RecordAllRequestsDone ctx h r i w e) = wf_Env e"
  "wf_Env (RecordPollReaped ctx h e) = wf_Env e"
  by (simp_all add: wf_Env_def)

lemma Add_handle_wf:
  "wf_RequestTracker rt \<Longrightarrow> wf_RequestTracker (snd (Add_handle h t cb ctx rt))"
  by (auto simp: Add_handle_def Let_def wf_RequestTracker_update split: option.splits)

lemma Add_reqs_wf:
  assumes "wf_RequestTracker rt" "Add_reqs h reqs t meta peer rt = Inr (ok, calls, rt')"
  shows "wf_RequestTracker rt'"
proof -
  define pt where "pt = (case map_of (trackers rt) (peer, h) of None \<Rightarrow> PostTracker_new | Some p \<Rightarrow> p)"
  have "wf_PostTracker pt"
    using wf_RequestTrackerD [OF assms(1)] by (auto simp: pt_def split: option.splits)
  moreover have "wf_PostTracker (p\<lparr>req_map := []\<rparr>)" for p by (simp add: wf_PostTracker_def)
  moreover have "wf_PostTracker (p\<lparr>req_map := m\<rparr>)"
    if "add_reqs rt i rr meta reqs [] [] = Inr (Some (m, res))" for p i rr m res
    using add_reqs_wf [OF that] by (simp add: wf_PostTracker_def)
  ultimately show ?thesis
    using assms unfolding Add_reqs_def Let_def pt_def [symmetric]
    by (fastforce simp: res_simps intro!: wf_RequestTracker_update
        split: if_splits option.splits prod.splits)
qed

lemma OnReqComplete_total:
  assumes "wf_RequestTracker rt" "wf_Env e"
    "\<And>pt. map_of (trackers rt) (peer, h) = Some pt \<Longrightarrow> 0 < pending_reqs pt"
  shows "\<exists>calls e' rt'. OnReqComplete h peer e rt = Inr (calls, e', rt') \<and>
    wf_Env e' \<and> wf_RequestTracker rt'"
proof (cases "map_of (trackers rt) (peer, h)")
  case (Some pt)
  note wf = wf_RequestTrackerD [OF assms(1) Some]
  obtain e1 where "record_since record_read_latency (pt_start_mono_us pt) e = Inr e1" "wf_Env e1"
    using record_since_total(1) [OF assms(2)] by blast
  moreover obtain e2 where "record_since record_recv_latency (pt_start_mono_us pt) e = Inr e2" "wf_Env e2"
    using record_since_total(3) [OF assms(2)] by blast
  moreover have "wf_RequestTracker (rt\<lparr>trackers :=
      AList.update (peer, h) (pt\<lparr>pending_reqs := c\<rparr>) (trackers rt)\<rparr>)" for c
    using wf by (intro wf_RequestTracker_update [OF assms(1)]) simp
  moreover from wf_RequestTracker_delete [OF this]
  have "wf_RequestTracker (rt\<lparr>trackers := AList.delete (peer, h)
      (AList.update (peer, h) (pt\<lparr>pending_reqs := c\<rparr>) (trackers rt))\<rparr>)" for c by simp
  ultimately show ?thesis
    using assms(2) assms(3) [OF Some] Some
    by (simp add: OnReqComplete_def Let_def split: option.splits)
qed (use assms in \<open>simp add: OnReqComplete_def\<close>)

lemma Update_wf:
  assumes "wf_RequestTracker rt" "wf_Env e" "Update h rid i w peer e rt = Inr (calls, e', rt')"
  shows "wf_RequestTracker rt' \<and> wf_Env e'"
proof (cases "map_of (trackers rt) (peer, h)")
  case (Some pt)
  note wf = wf_RequestTrackerD [OF assms(1) Some]
  from assms(3) Some obtain req ct where req: "map_of (req_map pt) rid = Some req"
    and ct: "ct_Set (rt_chunks req) i = Inr ct"
    by (auto simp: Update_def res_simps)
  have "wf_ct ct" using ct_Set_wf [OF wf_PostTrackerD [OF wf req] ct] .
  then have wf1: "wf_PostTracker (pt\<lparr>req_map := AList.update rid (req\<lparr>rt_chunks := ct\<rparr>) (req_map pt)\<rparr>)"
    using wf by (intro wf_PostTracker_update) simp_all
  note upd = wf_RequestTracker_update [OF assms(1) wf1, of "(peer, h)"]
  note del = wf_RequestTracker_delete [OF upd, of "(peer, h)", simplified]
  have lat: "wf_Env e2'" if "record_since record_write_latency s e2 = Inr e2'" "wf_Env e2" for s e2 e2'
    using record_since_total(2) [OF that(2), of s] that(1) by auto
  show ?thesis
    using assms(2,3) Some req ct upd del
    by (auto simp: Update_def res_simps Let_def dest!: lat split: if_splits option.splits)
qed (use assms in \<open>simp add: Update_def\<close>)

lemma put_chunks_wf:
  "wf_RequestTracker rt \<Longrightarrow> wf_ct ct \<Longrightarrow> wf_RequestTracker (put_chunks h rid peer ct rt)"
  by (auto simp: put_chunks_def intro!: wf_RequestTracker_update wf_PostTracker_update
      dest: wf_RequestTrackerD split: option.splits)

lemma FindOrCreate_wf:
  assumes "wf_RequestTracker rt" "FindOrCreate h rid n peer rt = Inr (ct, rt')"
  shows "wf_RequestTracker rt'"
proof -
  define pt where "pt = (case map_of (trackers rt) (peer, h) of None \<Rightarrow> PostTracker_new | Some p \<Rightarrow> p)"
  have wf: "wf_PostTracker pt"
    using wf_RequestTrackerD [OF assms(1)] by (auto simp: pt_def split: option.splits)
  have "wf_PostTracker (pt\<lparr>req_map := AList.update rid
      \<lparr>rt_chunks = ct, rt_raddr = 0, rt_metadata = Metadata_zero\<rparr> (req_map pt)\<rparr>)"
    if "ChunkTracker_new n = Inr ct" for ct
    using ChunkTracker_new_wf [OF that] by (intro wf_PostTracker_update [OF wf]) simp
  then show ?thesis
    using assms unfolding FindOrCreate_def Let_def pt_def [symmetric]
    by (auto simp: res_simps intro!: wf_RequestTracker_update split: option.splits)
qed

section \<open>What a batch starts with\<close>

definition req_entry :: "RequestTracker \<Rightarrow> Metadata \<Rightarrow> RequestInfo \<Rightarrow> ReqId \<times> ReqTracker" where
  "req_entry rt meta r = (ri_reqid r, \<lparr>rt_chunks = projr (ChunkTracker_new (ri_nchunks r)),
     rt_raddr = resolve_addr rt meta r, rt_metadata = ri_metadata r\<rparr>)"

lemma valid_nchunks: "RequestInfo_IsValid r \<Longrightarrow> 0 < ri_nchunks r"
  by (simp add: RequestInfo_IsValid_def)

lemma add_reqs_entries:
  assumes "list_all RequestInfo_IsValid reqs" "i \<or> (\<forall>r \<in> set reqs. resolve_addr rt meta r \<noteq> 0)"
    "distinct (map ri_reqid reqs)" "\<forall>r \<in> set reqs. map_of m (ri_reqid r) = None"
  shows "add_reqs rt i rr meta reqs m res = Inr (Some (m @ map (req_entry rt meta) reqs,
    res @ (if rr then map (\<lambda>r. r\<lparr>ri_raddr := resolve_addr rt meta r\<rparr>) reqs else [])))"
  using assms
proof (induction reqs arbitrary: m res)
  case (Cons r rs)
  obtain ct where ct: "ChunkTracker_new (ri_nchunks r) = Inr ct"
    using ChunkTracker_new_ok [OF valid_nchunks, of r] Cons.prems(1) by auto
  have fresh: "map_of m (ri_reqid r) = None" using Cons.prems(4) by simp
  have "ri_reqid r \<notin> ri_reqid ` set rs" using Cons.prems(3) by simp
  then have "ri_reqid q \<noteq> ri_reqid r" if "q \<in> set rs" for q using that by (metis imageI)
  then have "\<forall>q \<in> set rs. map_of (m @ [req_entry rt meta r]) (ri_reqid q) = None"
    using Cons.prems(4) by (simp add: req_entry_def map_add_def)
  with Cons ct fresh show ?case
    by (auto simp: Let_def set_update_fresh req_entry_def)
qed simp

definition tracks :: "PostTracker \<Rightarrow> RequestInfo list \<Rightarrow> (ReqId \<times> nat) set \<Rightarrow> bool" where
  "tracks pt reqs S \<longleftrightarrow> wf_PostTracker pt \<and> dom (map_of (req_map pt)) = ri_reqid ` set reqs \<and>
     (\<forall>r \<in> set reqs. \<exists>req. map_of (req_map pt) (ri_reqid r) = Some req \<and>
        ct_total (rt_chunks req) = unat (ri_nchunks r) \<and>
        ct_status (rt_chunks req) = (\<lambda>k. if (ri_reqid r, k) \<in> S then kDone else kEmpty))"

definition covered :: "RequestInfo list \<Rightarrow> (ReqId \<times> nat) set \<Rightarrow> bool" where
  "covered reqs S \<longleftrightarrow> (\<forall>r \<in> set reqs. \<forall>k < unat (ri_nchunks r). (ri_reqid r, k) \<in> S)"

lemma tracks_initial:
  assumes "list_all RequestInfo_IsValid reqs" "distinct (map ri_reqid reqs)"
    "req_map pt = map (req_entry rt meta) reqs"
  shows "tracks pt reqs {}"
proof -
  have keys: "map fst (req_map pt) = map ri_reqid reqs"
    using assms(3) by (simp add: req_entry_def comp_def)
  have wf: "wf_map (req_map pt)" using keys assms(2) by (simp add: wf_map_def)
  have ct: "\<exists>t. ChunkTracker_new (ri_nchunks r) = Inr t \<and> wf_ct t \<and> ct_total t = unat (ri_nchunks r) \<and>
      ct_status t = (\<lambda>k. kEmpty)" if "r \<in> set reqs" for r
    using ChunkTracker_new_ok [OF valid_nchunks, of r] assms(1) that
    by (auto simp: list_all_iff ct_total_def fun_eq_iff)
  have entry: "map_of (req_map pt) (ri_reqid r) = Some (snd (req_entry rt meta r))" if "r \<in> set reqs" for r
  proof -
    have "req_entry rt meta r \<in> set (req_map pt)" using that assms(3) by simp
    then show ?thesis using wf_map_in_set [OF wf] by (simp add: req_entry_def)
  qed
  have "dom (map_of (req_map pt)) = ri_reqid ` set reqs"
    using keys by (metis dom_map_of_conv_image_fst set_map)
  moreover have "wf_PostTracker pt"
  proof -
    have "wf_ct (rt_chunks req)" if "map_of (req_map pt) k = Some req" for k req
      using map_of_SomeD [OF that] assms(3) ct by (force simp: req_entry_def)
    then show ?thesis using wf by (simp add: wf_PostTracker_def)
  qed
  moreover have "\<forall>r \<in> set reqs. \<exists>req. map_of (req_map pt) (ri_reqid r) = Some req \<and>
        ct_total (rt_chunks req) = unat (ri_nchunks r) \<and>
        ct_status (rt_chunks req) = (\<lambda>k. if (ri_reqid r, k) \<in> {} then kDone else kEmpty)"
    using entry ct by (fastforce simp: req_entry_def)
  ultimately show ?thesis by (simp add: tracks_def)
qed

lemma isComplete_tracks:
  assumes "tracks pt reqs S" "reqs \<noteq> []"
  shows "isComplete pt \<longleftrightarrow> covered reqs S"
proof -
  have wf: "wf_map (req_map pt)" "\<And>k req. map_of (req_map pt) k = Some req \<Longrightarrow> wf_ct (rt_chunks req)"
    using assms(1) by (auto simp: tracks_def wf_PostTracker_def)
  have "req_map pt \<noteq> []" using assms by (auto simp: tracks_def)
  then have "isComplete pt \<longleftrightarrow> (\<forall>k req. map_of (req_map pt) k = Some req \<longrightarrow> ct_IsDone (rt_chunks req))"
    using wf_map_in_set [OF wf(1)] by (fastforce simp: isComplete_def list_all_iff)
  also have "\<dots> \<longleftrightarrow> covered reqs S"
  proof
    assume "\<forall>k req. map_of (req_map pt) k = Some req \<longrightarrow> ct_IsDone (rt_chunks req)"
    then show "covered reqs S"
      using assms(1) wf(2) unfolding tracks_def covered_def
      by (metis ct_IsDone_iff ChunkStatus.distinct(3))
  next
    assume c: "covered reqs S"
    show "\<forall>k req. map_of (req_map pt) k = Some req \<longrightarrow> ct_IsDone (rt_chunks req)"
    proof (intro allI impI)
      fix k req assume m: "map_of (req_map pt) k = Some req"
      then have "k \<in> ri_reqid ` set reqs" using assms(1) by (auto simp: tracks_def)
      then obtain r where "r \<in> set reqs" "k = ri_reqid r" by auto
      with c assms(1) m wf(2) [OF m] show "ct_IsDone (rt_chunks req)"
        by (fastforce simp: tracks_def covered_def ct_IsDone_iff)
    qed
  qed
  finally show ?thesis .
qed

lemma tracks_mark:
  assumes "tracks pt reqs S" "r \<in> set reqs" "map_of (req_map pt) (ri_reqid r) = Some req"
    "wf_ct ct" "ct_total ct = ct_total (rt_chunks req)"
    "ct_status ct = (ct_status (rt_chunks req))(k := kDone)"
  shows "tracks (pt\<lparr>req_map := AList.update (ri_reqid r) (req\<lparr>rt_chunks := ct\<rparr>) (req_map pt)\<rparr>) reqs
    (insert (ri_reqid r, k) S)"
proof -
  let ?pt = "pt\<lparr>req_map := AList.update (ri_reqid r) (req\<lparr>rt_chunks := ct\<rparr>) (req_map pt)\<rparr>"
  have wf: "wf_PostTracker ?pt"
    using assms(1,4) by (intro wf_PostTracker_update) (simp_all add: tracks_def)
  have dom: "dom (map_of (req_map ?pt)) = ri_reqid ` set reqs"
  proof -
    have "map_of (req_map ?pt) = (map_of (req_map pt))(ri_reqid r \<mapsto> req\<lparr>rt_chunks := ct\<rparr>)"
      by (auto simp: fun_eq_iff)
    with assms(1,2) show ?thesis by (auto simp: tracks_def)
  qed
  have "\<exists>q'. map_of (req_map ?pt) (ri_reqid q) = Some q' \<and>
        ct_total (rt_chunks q') = unat (ri_nchunks q) \<and>
        ct_status (rt_chunks q') = (\<lambda>j. if (ri_reqid q, j) \<in> insert (ri_reqid r, k) S then kDone else kEmpty)"
    if q: "q \<in> set reqs" for q
  proof -
    obtain q0 where q0: "map_of (req_map pt) (ri_reqid q) = Some q0"
      "ct_total (rt_chunks q0) = unat (ri_nchunks q)"
      "ct_status (rt_chunks q0) = (\<lambda>j. if (ri_reqid q, j) \<in> S then kDone else kEmpty)"
      using assms(1) q unfolding tracks_def by blast
    show ?thesis
    proof (cases "ri_reqid q = ri_reqid r")
      case True
      then have "q0 = req" using q0(1) assms(3) by simp
      with True q0 assms(5,6) show ?thesis by (auto simp: fun_eq_iff)
    next
      case False
      with q0 show ?thesis by (auto simp: fun_eq_iff)
    qed
  qed
  with wf dom show ?thesis unfolding tracks_def by blast
qed

section \<open>Sender: completion of an acknowledged batch\<close>

lemma Update_tracks:
  assumes "map_of (trackers rt) (peer, h) = Some pt" "tracks pt reqs S" "reqs \<noteq> []"
    "r \<in> set reqs" "unat i < unat (ri_nchunks r)" "pt_on_complete pt = Some cb" "wf_Env e"
  shows "\<exists>e' rt'. Update h (ri_reqid r) i w peer e rt =
      Inr (if covered reqs (insert (ri_reqid r, unat i) S)
           then [CallComplete cb kSuccess, CallbackDone (pt_trace_ctx pt) h w] else [], e', rt') \<and>
    wf_Env e' \<and>
    (if covered reqs (insert (ri_reqid r, unat i) S) then map_of (trackers rt') (peer, h) = None
     else \<exists>pt'. map_of (trackers rt') (peer, h) = Some pt' \<and>
       tracks pt' reqs (insert (ri_reqid r, unat i) S) \<and>
       pt_on_complete pt' = Some cb \<and> pt_trace_ctx pt' = pt_trace_ctx pt)"
proof -
  let ?S = "insert (ri_reqid r, unat i) S"
  obtain req where req: "map_of (req_map pt) (ri_reqid r) = Some req"
    "ct_total (rt_chunks req) = unat (ri_nchunks r)"
    "ct_status (rt_chunks req) = (\<lambda>k. if (ri_reqid r, k) \<in> S then kDone else kEmpty)"
    using assms(2,4) unfolding tracks_def by blast
  have wf: "wf_ct (rt_chunks req)"
    using assms(2) req(1) by (auto simp: tracks_def dest: wf_PostTrackerD)
  have "ct_status (rt_chunks req) (unat i) \<noteq> kBusy" "unat i < ct_total (rt_chunks req)"
    using req(2,3) assms(5) by simp_all
  from ct_Set_ok [OF wf this(2,1)] obtain ct where ct: "ct_Set (rt_chunks req) i = Inr ct" "wf_ct ct"
    "ct_total ct = ct_total (rt_chunks req)" "ct_status ct = (ct_status (rt_chunks req))(unat i := kDone)"
    by blast
  let ?pt = "pt\<lparr>req_map := AList.update (ri_reqid r) (req\<lparr>rt_chunks := ct\<rparr>) (req_map pt)\<rparr>"
  have tr: "tracks ?pt reqs ?S" using tracks_mark [OF assms(2,4) req(1) ct(2-4)] .
  note comp = isComplete_tracks [OF tr assms(3)]
  have fin: "ct_IsDone ct" if "covered reqs ?S"
    using that assms(4) req(2,3) ct(2-4) by (auto simp: covered_def ct_IsDone_iff)
  obtain e3 where e3: "record_since record_write_latency (pt_start_mono_us pt)
      (RecordAllRequestsDone (pt_trace_ctx pt) h (ri_reqid r) i w
        (RecordRequestDone (pt_trace_ctx pt) h (ri_reqid r) i w e)) = Inr e3" "wf_Env e3"
    using record_since_total(2) assms(7) by (metis wf_Env_frames(1,2))
  show ?thesis
    using assms(1,6,7) req(1) ct(1) tr comp fin e3
    by (auto simp: Update_def Let_def)
qed

fun Updates :: "Handle \<Rightarrow> (ReqId \<times> chunk_t \<times> int) list \<Rightarrow> Endpoint \<Rightarrow> Env \<Rightarrow> RequestTracker \<Rightarrow>
    (Call list \<times> Env \<times> RequestTracker) res" where
  "Updates h [] peer e rt = Inr ([], e, rt)"
| "Updates h ((rid, i, w) # acks) peer e rt =
     rbind (Update h rid i w peer e rt) (\<lambda>(calls, e1, rt1).
     rbind (Updates h acks peer e1 rt1) (\<lambda>(calls', e2, rt2). Inr (calls @ calls', e2, rt2)))"

definition ack_set :: "(ReqId \<times> chunk_t \<times> int) list \<Rightarrow> (ReqId \<times> nat) set" where
  "ack_set acks = (\<lambda>(rid, i, w). (rid, unat i)) ` set acks"

definition acks_of :: "RequestInfo list \<Rightarrow> (ReqId \<times> chunk_t \<times> int) list \<Rightarrow> bool" where
  "acks_of reqs acks \<longleftrightarrow>
     (\<forall>(rid, i, w) \<in> set acks. \<exists>r \<in> set reqs. ri_reqid r = rid \<and> unat i < unat (ri_nchunks r))"

lemma Updates_gone:
  "map_of (trackers rt) (peer, h) = None \<Longrightarrow> Updates h acks peer e rt = Inr ([], e, rt)"
  by (induction acks) (auto simp: Update_def)

lemma Updates_tracks:
  assumes "map_of (trackers rt) (peer, h) = Some pt" "tracks pt reqs S" "reqs \<noteq> []"
    "acks_of reqs acks" "pt_on_complete pt = Some cb" "wf_Env e" "\<not> covered reqs S"
  shows "\<exists>calls e' rt'. Updates h acks peer e rt = Inr (calls, e', rt') \<and>
    (if covered reqs (S \<union> ack_set acks)
     then (\<exists>w. calls = [CallComplete cb kSuccess, CallbackDone (pt_trace_ctx pt) h w]) \<and>
       Check h peer rt' = kNotFound
     else calls = [] \<and> Check h peer rt' = kInProgress)"
  using assms
proof (induction acks arbitrary: e rt pt S)
  case Nil
  then show ?case by (simp add: ack_set_def Check_def isComplete_tracks)
next
  case (Cons a acks)
  obtain rid i w where a: "a = (rid, i, w)" by (cases a)
  from Cons.prems(4) a obtain r where r: "r \<in> set reqs" "ri_reqid r = rid" "unat i < unat (ri_nchunks r)"
    by (auto simp: acks_of_def)
  let ?S = "insert (rid, unat i) S"
  have S: "S \<union> ack_set (a # acks) = ?S \<union> ack_set acks" by (auto simp: a ack_set_def)
  obtain e1 rt1 where u: "Update h rid i w peer e rt =
      Inr (if covered reqs ?S then [CallComplete cb kSuccess, CallbackDone (pt_trace_ctx pt) h w] else [],
        e1, rt1)" "wf_Env e1"
    "if covered reqs ?S then map_of (trackers rt1) (peer, h) = None
     else \<exists>pt'. map_of (trackers rt1) (peer, h) = Some pt' \<and> tracks pt' reqs ?S \<and>
       pt_on_complete pt' = Some cb \<and> pt_trace_ctx pt' = pt_trace_ctx pt"
    using Update_tracks [OF Cons.prems(1-3) r(1,3) Cons.prems(5,6)] r(2) by blast
  show ?case
  proof (cases "covered reqs ?S")
    case True
    then have "covered reqs (?S \<union> ack_set acks)" by (auto simp: covered_def)
    with True u show ?thesis
      unfolding S by (simp add: a Updates_gone Check_def)
  next
    case False
    with u(3) obtain pt' where pt': "map_of (trackers rt1) (peer, h) = Some pt'" "tracks pt' reqs ?S"
      "pt_on_complete pt' = Some cb" "pt_trace_ctx pt' = pt_trace_ctx pt" by auto
    have "acks_of reqs acks" using Cons.prems(4) by (simp add: acks_of_def)
    from Cons.IH [OF pt'(1,2) Cons.prems(3) this pt'(3) u(2) False] u(1) False pt'(4)
    show ?thesis unfolding S by (auto simp: a split: if_splits)
  qed
qed

lemma Add_handle_fresh:
  assumes "map_of (trackers rt) (Endpoint_default, h) = None"
  shows "Add_handle h t cb ctx rt = (True, rt\<lparr>trackers := AList.update (Endpoint_default, h)
    (PostTracker_new\<lparr>pt_start_mono_us := t, pt_on_complete := cb, pt_trace_ctx := ctx,
       is_initiator := True\<rparr>) (trackers rt)\<rparr>)"
  using assms by (simp add: Add_handle_def Let_def)

lemma Add_reqs_initiator:
  assumes "map_of (trackers rt) (peer, h) = Some pt" "req_map pt = []" "is_initiator pt"
    "list_all RequestInfo_IsValid reqs" "distinct (map ri_reqid reqs)" "reqs \<noteq> []"
  shows "\<exists>rt' pt'. Add_reqs h reqs t meta peer rt = Inr (True, [], rt') \<and>
    map_of (trackers rt') (peer, h) = Some pt' \<and> tracks pt' reqs {} \<and>
    pt_on_complete pt' = pt_on_complete pt \<and> pt_trace_ctx pt' = pt_trace_ctx pt \<and>
    is_initiator pt' \<and> pending_reqs pt' = of_nat (length reqs)"
proof -
  note add = add_reqs_entries [OF assms(4) _ assms(5), of True rt meta "[]" False "[]", simplified]
  let ?pt = "pt\<lparr>pt_metadata := meta, pending_reqs := of_nat (length reqs),
    req_map := map (req_entry rt meta) reqs\<rparr>"
  have "tracks ?pt reqs {}" using assms(4,5) by (intro tracks_initial [where rt = rt and meta = meta]) simp_all
  then show ?thesis
    using assms(1-3,6) add by (simp add: Add_reqs_def Let_def)
qed

lemma nothing_covered:
  "list_all RequestInfo_IsValid reqs \<Longrightarrow> reqs \<noteq> [] \<Longrightarrow> \<not> covered reqs {}"
  by (cases reqs) (auto simp: covered_def RequestInfo_IsValid_def word_less_nat_alt)

text \<open>
  C4. A posted write completes exactly once. Register a fresh handle with a completion
  callback, then the descriptors of its requests (valid, with distinct ids), then process
  any sequence of acknowledgments of their chunks, in any order and with any duplicates: no
  check fails; the callback is called, once, with success, iff every chunk of every request
  has been acknowledged, and the handle is gone after that; until then the handle is in
  progress and nothing is called.
\<close>
theorem write_completes_exactly_once:
  assumes "map_of (trackers rt) (Endpoint_default, h) = None" "reqs \<noteq> []"
    "list_all RequestInfo_IsValid reqs" "distinct (map ri_reqid reqs)" "acks_of reqs acks" "wf_Env e"
  shows "\<exists>rt1 rt2 calls e' rt'. Add_handle h t (Some cb) ctx rt = (True, rt1) \<and>
    Add_reqs h reqs 0 meta Endpoint_default rt1 = Inr (True, [], rt2) \<and>
    Updates h acks Endpoint_default e rt2 = Inr (calls, e', rt') \<and>
    (if covered reqs (ack_set acks)
     then (\<exists>w. calls = [CallComplete cb kSuccess, CallbackDone ctx h w]) \<and>
       Check h Endpoint_default rt' = kNotFound
     else calls = [] \<and> Check h Endpoint_default rt' = kInProgress)"
proof -
  let ?pt = "PostTracker_new\<lparr>pt_start_mono_us := t, pt_on_complete := Some cb, pt_trace_ctx := ctx,
    is_initiator := True\<rparr>"
  let ?rt = "rt\<lparr>trackers := AList.update (Endpoint_default, h) ?pt (trackers rt)\<rparr>"
  have "map_of (trackers ?rt) (Endpoint_default, h) = Some ?pt" "req_map ?pt = []" "is_initiator ?pt"
    by (simp_all add: PostTracker_new_def)
  from Add_reqs_initiator [OF this assms(3,4,2), of 0 meta]
  obtain rt2 pt' where "Add_reqs h reqs 0 meta Endpoint_default ?rt = Inr (True, [], rt2)"
    and pt': "map_of (trackers rt2) (Endpoint_default, h) = Some pt'" "tracks pt' reqs {}"
    "pt_on_complete pt' = Some cb" "pt_trace_ctx pt' = ctx"
    by auto
  moreover note Updates_tracks [OF pt'(1,2) assms(2,5) pt'(3) assms(6) nothing_covered [OF assms(3,2)]]
  ultimately show ?thesis
    using Add_handle_fresh [OF assms(1)] pt'(4) by (auto split: if_splits)
qed

definition demo_env :: Env where
  "demo_env = \<lparr>env_clock = \<lambda>n. of_nat (1000 + n), env_tick = 0, env_metrics = EngineMetrics_new,
     env_tracer = TraceRecorder_new 0\<rparr>"

lemma wf_demo_env [simp]: "wf_Env demo_env"
  by (simp add: wf_Env_def demo_env_def)

definition demo_acks :: "(ReqId \<times> chunk_t \<times> int) list" where
  "demo_acks = [(1, 1, -2), (1, 1, -1), (1, 0, -1)]"

theorem write_completes_exactly_once_witness:
  "\<exists>rt1 rt2 calls e' rt' w.
     Add_handle 7 5 (Some (UserCallback 3)) TraceContext_new (RequestTracker_new False None False) =
       (True, rt1) \<and>
     Add_reqs 7 [demo_request_info] 0 Metadata_zero Endpoint_default rt1 = Inr (True, [], rt2) \<and>
     Updates 7 demo_acks Endpoint_default demo_env rt2 = Inr (calls, e', rt') \<and>
     calls = [CallComplete (UserCallback 3) kSuccess, CallbackDone TraceContext_new 7 w]"
proof -
  have a: "acks_of [demo_request_info] demo_acks"
    by (simp add: acks_of_def demo_acks_def demo_request_info_def RequestInfo_zero_def)
  have c: "covered [demo_request_info] (ack_set demo_acks)"
  proof -
    have "unat (ri_nchunks demo_request_info) = 2" "ri_reqid demo_request_info = 1"
      by (simp_all add: demo_request_info_def)
    then show ?thesis
      by (auto simp: covered_def ack_set_def demo_acks_def dest: less_2_cases)
  qed
  have f: "map_of (trackers (RequestTracker_new False None False)) (Endpoint_default, 7) = None"
    by (simp add: RequestTracker_new_def)
  show ?thesis
    using write_completes_exactly_once [OF f _ _ _ a wf_demo_env, of 5 "UserCallback 3"
        TraceContext_new Metadata_zero] demo_request_info_ok(1) c
    by (simp split: if_splits) blast
qed

section \<open>Receiver: completion of a received batch\<close>

fun OnReqCompletes :: "nat \<Rightarrow> Handle \<Rightarrow> Endpoint \<Rightarrow> Env \<Rightarrow> RequestTracker \<Rightarrow>
    (Call list \<times> Env \<times> RequestTracker) res" where
  "OnReqCompletes 0 h peer e rt = Inr ([], e, rt)"
| "OnReqCompletes (Suc n) h peer e rt =
     rbind (OnReqComplete h peer e rt) (\<lambda>(calls, e1, rt1).
     rbind (OnReqCompletes n h peer e1 rt1) (\<lambda>(calls', e2, rt2). Inr (calls @ calls', e2, rt2)))"

lemma Add_reqs_receiver:
  assumes "map_of (trackers rt) (peer, h) = None" "list_all RequestInfo_IsValid reqs"
    "distinct (map ri_reqid reqs)" "reqs \<noteq> []" "\<forall>r \<in> set reqs. resolve_addr rt meta r \<noteq> 0"
    "ri_op (hd reqs) = Op_value kWrite"
  shows "\<exists>pt'. Add_reqs h reqs t meta peer rt =
      Inr (True, [], rt\<lparr>trackers := AList.update (peer, h) pt' (trackers rt)\<rparr>) \<and>
    tracks pt' reqs {} \<and> \<not> is_initiator pt' \<and> pending_reqs pt' = of_nat (length reqs) \<and>
    pt_metadata pt' = meta \<and> req_map pt' = map (req_entry rt meta) reqs"
proof -
  note add = add_reqs_entries [OF assms(2) _ assms(3), of False rt meta "[]" False "[]", simplified, OF assms(5)]
  let ?pt = "PostTracker_new\<lparr>pt_metadata := meta, pt_start_mono_us := t, pending_reqs := of_nat (length reqs),
    req_map := map (req_entry rt meta) reqs\<rparr>"
  have "tracks ?pt reqs {}" using assms(2,3) by (intro tracks_initial [where rt = rt and meta = meta]) simp_all
  moreover have "Add_reqs h reqs t meta peer rt =
      Inr (True, [], rt\<lparr>trackers := AList.update (peer, h) ?pt (trackers rt)\<rparr>)"
    using assms(1,4,6) add by (simp add: Add_reqs_def Let_def PostTracker_new_def)
  ultimately show ?thesis by (intro exI [of _ ?pt]) (simp add: PostTracker_new_def)
qed

lemma OnReqComplete_pending:
  assumes "map_of (trackers rt) (peer, h) = Some pt" "pending_reqs pt = of_nat (Suc (Suc n))"
    "Suc (Suc n) < 2 ^ 64"
  shows "OnReqComplete h peer e rt = Inr ([], e, rt\<lparr>trackers :=
    AList.update (peer, h) (pt\<lparr>pending_reqs := of_nat (Suc n)\<rparr>) (trackers rt)\<rparr>)"
proof -
  have "unat (of_nat (Suc (Suc n)) :: u64) = Suc (Suc n)" "unat (of_nat (Suc n) :: u64) = Suc n"
    using assms(3) by (simp_all del: of_nat_Suc)
  then have "(0 :: u64) < of_nat (Suc (Suc n))" "(of_nat (Suc n) :: u64) \<noteq> 0"
    by (simp_all add: word_less_nat_alt unat_eq_0 [symmetric] del: of_nat_Suc)
  moreover have "(of_nat (Suc (Suc n)) :: u64) - 1 = of_nat (Suc n)" by simp
  ultimately show ?thesis
    using assms(1,2) by (simp add: OnReqComplete_def Let_def del: of_nat_Suc)
qed

lemma OnReqComplete_last:
  assumes "map_of (trackers rt) (peer, h) = Some pt" "pending_reqs pt = 1" "\<not> is_initiator pt"
    "recv_post_callback rt" "wf_Env e"
  shows "\<exists>e' rt'. OnReqComplete h peer e rt =
    Inr ([CallRecvPost kSuccess (pt_metadata pt) (map (rt_metadata \<circ> snd) (req_map pt))], e', rt')"
proof -
  obtain e' where "record_since record_recv_latency (pt_start_mono_us pt) e = Inr e'"
    using record_since_total(3) [OF assms(5)] by blast
  then show ?thesis
    using assms(1-4) by (simp add: OnReqComplete_def Let_def case_prod_beta comp_def)
qed

lemma OnReqCompletes_count:
  assumes "map_of (trackers rt) (peer, h) = Some pt" "pending_reqs pt = of_nat (Suc n)"
    "Suc n < 2 ^ 64" "\<not> is_initiator pt" "recv_post_callback rt" "wf_Env e"
  shows "(\<forall>k \<le> n. \<exists>e' rt'. OnReqCompletes k h peer e rt = Inr ([], e', rt')) \<and>
    (\<exists>e' rt'. OnReqCompletes (Suc n) h peer e rt =
      Inr ([CallRecvPost kSuccess (pt_metadata pt) (map (rt_metadata \<circ> snd) (req_map pt))], e', rt'))"
  using assms
proof (induction n arbitrary: rt pt)
  case 0
  then show ?case using OnReqComplete_last [of rt peer h pt e] by auto
next
  case (Suc n)
  let ?pt = "pt\<lparr>pending_reqs := of_nat (Suc n)\<rparr>"
  let ?rt = "rt\<lparr>trackers := AList.update (peer, h) ?pt (trackers rt)\<rparr>"
  have first: "OnReqComplete h peer e rt = Inr ([], e, ?rt)"
    using OnReqComplete_pending [OF Suc.prems(1-3)] .
  have IH: "(\<forall>k \<le> n. \<exists>e' rt'. OnReqCompletes k h peer e ?rt = Inr ([], e', rt')) \<and>
    (\<exists>e' rt'. OnReqCompletes (Suc n) h peer e ?rt =
      Inr ([CallRecvPost kSuccess (pt_metadata pt) (map (rt_metadata \<circ> snd) (req_map pt))], e', rt'))"
    using Suc.IH [of ?rt ?pt] Suc.prems(3-6) by (simp add: comp_def del: OnReqCompletes.simps of_nat_Suc)
  have "\<exists>e' rt'. OnReqCompletes k h peer e rt = Inr ([], e', rt')" if "k \<le> Suc n" for k
    using IH that first by (cases k) auto
  moreover have "OnReqCompletes (Suc (Suc n)) h peer e rt = OnReqCompletes (Suc n) h peer e ?rt"
    using IH first by (auto simp del: OnReqCompletes.simps simp: OnReqCompletes.simps(2) [of "Suc n"])
  ultimately show ?case using IH by auto
qed

text \<open>
  C32. A received batch of writes is reported exactly once. When a batch is registered on
  the receiver and its addresses resolve, the first \<open>n - 1\<close> of its \<open>n\<close> requests to finish cause
  no call, and the last one calls the receive callback once, with success, the batch's
  metadata and the metadata of its requests (as a multiset: the map's order is arbitrary).
\<close>
theorem recv_batch_reported_once:
  assumes "map_of (trackers rt) (peer, h) = None" "list_all RequestInfo_IsValid reqs"
    "distinct (map ri_reqid reqs)" "reqs \<noteq> []" "\<forall>r \<in> set reqs. resolve_addr rt meta r \<noteq> 0"
    "ri_op (hd reqs) = Op_value kWrite" "recv_post_callback rt" "wf_Env e" "length reqs < 2 ^ 64"
  shows "\<exists>rt1. Add_reqs h reqs t meta peer rt = Inr (True, [], rt1) \<and>
    (\<forall>k < length reqs. \<exists>e' rt'. OnReqCompletes k h peer e rt1 = Inr ([], e', rt')) \<and>
    (\<exists>metas e' rt'. OnReqCompletes (length reqs) h peer e rt1 =
        Inr ([CallRecvPost kSuccess meta metas], e', rt') \<and>
      mset metas = mset (map ri_metadata reqs))"
proof -
  obtain pt where pt: "Add_reqs h reqs t meta peer rt =
      Inr (True, [], rt\<lparr>trackers := AList.update (peer, h) pt (trackers rt)\<rparr>)"
    "\<not> is_initiator pt" "pending_reqs pt = of_nat (length reqs)" "pt_metadata pt = meta"
    "req_map pt = map (req_entry rt meta) reqs"
    using Add_reqs_receiver [OF assms(1-6)] by blast
  let ?rt = "rt\<lparr>trackers := AList.update (peer, h) pt (trackers rt)\<rparr>"
  obtain n where n: "length reqs = Suc n" using assms(4) by (cases reqs) auto
  have metas: "map (rt_metadata \<circ> snd) (req_map pt) = map ri_metadata reqs"
    by (simp add: pt(5) req_entry_def)
  have "map_of (trackers ?rt) (peer, h) = Some pt" "recv_post_callback ?rt" "Suc n < 2 ^ 64"
    using assms(7,9) n by simp_all
  from OnReqCompletes_count [OF this(1) pt(3) [unfolded n] this(3) pt(2) this(2) assms(8)]
  show ?thesis
    using pt(1) unfolding n metas pt(4)
    by (auto simp: less_Suc_eq_le simp del: OnReqCompletes.simps)
qed

theorem recv_batch_reported_once_witness:
  "\<exists>rt1 metas e' rt'. Add_reqs 7 [demo_request_info] 9 Metadata_zero Endpoint_default
      (RequestTracker_new True None False) = Inr (True, [], rt1) \<and>
    OnReqCompletes 1 7 Endpoint_default demo_env rt1 =
      Inr ([CallRecvPost kSuccess Metadata_zero metas], e', rt') \<and>
    mset metas = {#Metadata_zero#}"
proof -
  let ?rt = "RequestTracker_new True None False"
  have "resolve_addr ?rt Metadata_zero demo_request_info \<noteq> 0"
    by (simp add: resolve_addr_def demo_request_info_def)
  moreover have "ri_op demo_request_info = Op_value kWrite" "ri_metadata demo_request_info = Metadata_zero"
    by (simp_all add: demo_request_info_def RequestInfo_zero_def)
  ultimately show ?thesis
    using recv_batch_reported_once [of ?rt Endpoint_default 7 "[demo_request_info]" Metadata_zero
        demo_env 9] demo_request_info_ok(1)
    by (simp add: RequestTracker_new_def)
qed


lemma wf_RequestTracker_new [simp]: "wf_RequestTracker (RequestTracker_new p r o')"
  by (simp add: wf_RequestTracker_def RequestTracker_new_def)


section \<open>Acknowledgments nobody waits for\<close>

text \<open>
  An acknowledgment for an unknown handle is ignored; one for a handle that is being
  tracked but with a request id that is not among its requests stops the process, although
  the id was read from the wire: the lookup is by \<^verbatim>\<open>at()\<close>.
\<close>
theorem ack_for_unknown_request_aborts:
  "(map_of (trackers rt) (peer, h) = None \<longrightarrow> Update h rid i w peer e rt = Inr ([], e, rt)) \<and>
   (\<forall>pt. map_of (trackers rt) (peer, h) = Some pt \<longrightarrow> map_of (req_map pt) rid = None \<longrightarrow>
      Update h rid i w peer e rt = Inl MissingKey)"
  by (simp add: Update_def)

theorem ack_for_unknown_request_aborts_witness:
  "\<exists>rt1 rt2. Add_handle 7 5 None TraceContext_new (RequestTracker_new False None False) = (True, rt1) \<and>
     Add_reqs 7 [demo_request_info] 0 Metadata_zero Endpoint_default rt1 = Inr (True, [], rt2) \<and>
     Update 7 99 0 (-1) Endpoint_default demo_env rt2 = Inl MissingKey"
proof -
  let ?rt = "RequestTracker_new False None False"
  obtain rt1 pt where rt1: "Add_handle 7 5 None TraceContext_new ?rt = (True, rt1)"
    "map_of (trackers rt1) (Endpoint_default, 7) = Some pt" "req_map pt = []" "is_initiator pt"
    by (simp add: Add_handle_def RequestTracker_new_def PostTracker_new_def Let_def)
  from Add_reqs_initiator [OF rt1(2-4), of "[demo_request_info]" 0 Metadata_zero] demo_request_info_ok(1)
  obtain rt2 pt' where rt2: "Add_reqs 7 [demo_request_info] 0 Metadata_zero Endpoint_default rt1 =
      Inr (True, [], rt2)" "map_of (trackers rt2) (Endpoint_default, 7) = Some pt'"
    "tracks pt' [demo_request_info] {}"
    by auto
  have "map_of (req_map pt') 99 = None"
  proof -
    have "(99 :: ReqId) \<notin> dom (map_of (req_map pt'))"
      using rt2(3) by (simp add: tracks_def demo_request_info_def)
    then show ?thesis by auto
  qed
  with ack_for_unknown_request_aborts [of rt2 Endpoint_default 7 99 0 "-1" demo_env] rt1(1) rt2(1,2)
  show ?thesis by blast
qed

end
