(* ===== verification/Channel.thy ===== *)
theory Channel
  imports Endpoint
begin

text \<open>
  \<^verbatim>\<open>internal/channel/\<close>: the type flags, the abstract class \<^verbatim>\<open>Channel\<close> and the two in-memory
  channels, a byte stream and a sequence of messages, over shared pipes.

  A buffer handed to \<^verbatim>\<open>Write\<close> is its contents and one handed to \<^verbatim>\<open>Read\<close> its length; a read
  returns, with its count, the bytes it stored from the first buffer on. The virtual methods
  of a channel are the fields of \<open>ChannelOps\<close>, over the state \<open>'s\<close> that holds the channel.
  Two locales state what the transfer layer needs of a stream and of a message channel; they
  are interpreted on the in-memory channels.
\<close>

section \<open>Channel types\<close>

type_synonym ChannelType = u8

definition kFake :: u8 where "kFake = push_bit 3 1"
definition kSide :: u8 where "kSide = push_bit 2 1"
definition kBoundary :: u8 where "kBoundary = push_bit 1 1"
definition kLoss :: u8 where "kLoss = push_bit 0 1"

definition kTCP :: ChannelType where "kTCP = 0 OR 4 OR 0 OR 0"
definition kUDP :: ChannelType where "kUDP = 0 OR 4 OR 2 OR 1"
definition kRDMA :: ChannelType where "kRDMA = 0 OR 0 OR 2 OR 0"
definition kMemMsg :: ChannelType where "kMemMsg = 8 OR 4 OR 2 OR 1"
definition kMemStream :: ChannelType where "kMemStream = 8 OR 4 OR 0 OR 0"

definition IsLosslessChannel :: "ChannelType \<Rightarrow> bool" where
  "IsLosslessChannel t \<longleftrightarrow> t AND kLoss = 0"

definition IsLossyChannel :: "ChannelType \<Rightarrow> bool" where
  "IsLossyChannel t \<longleftrightarrow> \<not> IsLosslessChannel t"

definition IsStreamChannel :: "ChannelType \<Rightarrow> bool" where
  "IsStreamChannel t \<longleftrightarrow> t AND kBoundary = 0"

definition IsMessageChannel :: "ChannelType \<Rightarrow> bool" where
  "IsMessageChannel t \<longleftrightarrow> \<not> IsStreamChannel t"

definition IsOneSidedChannel :: "ChannelType \<Rightarrow> bool" where
  "IsOneSidedChannel t \<longleftrightarrow> t AND kSide = 0"

definition IsTwoSidedChannel :: "ChannelType \<Rightarrow> bool" where
  "IsTwoSidedChannel t \<longleftrightarrow> \<not> IsOneSidedChannel t"

definition IsRealChannel :: "ChannelType \<Rightarrow> bool" where
  "IsRealChannel t \<longleftrightarrow> t AND kFake = 0"

definition IsFakeChannel :: "ChannelType \<Rightarrow> bool" where
  "IsFakeChannel t \<longleftrightarrow> \<not> IsRealChannel t"

definition ChannelType_ToString :: "ChannelType \<Rightarrow> string" where
  "ChannelType_ToString t =
     (if t = kTCP then ''TcpChannel'' else if t = kUDP then ''UdpChannel''
      else if t = kRDMA then ''RdmaChannel'' else if t = kMemMsg then ''MemMessageChannel''
      else if t = kMemStream then ''MemStreamChannel'' else ''UnknownChannel'')"

lemmas channel_type_defs = kFake_def kSide_def kBoundary_def kLoss_def kTCP_def kUDP_def kRDMA_def
  kMemMsg_def kMemStream_def IsLosslessChannel_def IsLossyChannel_def IsStreamChannel_def
  IsMessageChannel_def IsOneSidedChannel_def IsTwoSidedChannel_def IsRealChannel_def IsFakeChannel_def

text \<open>The assertions the channel classes make about their own type at compile time.\<close>

lemma channel_types [simp]:
  "IsStreamChannel kTCP" "IsLosslessChannel kTCP" "IsTwoSidedChannel kTCP" "IsRealChannel kTCP"
  "IsMessageChannel kUDP" "IsLossyChannel kUDP" "IsTwoSidedChannel kUDP" "IsRealChannel kUDP"
  "IsMessageChannel kRDMA" "IsLosslessChannel kRDMA" "IsOneSidedChannel kRDMA" "IsRealChannel kRDMA"
  "IsMessageChannel kMemMsg" "IsLossyChannel kMemMsg" "IsTwoSidedChannel kMemMsg" "IsFakeChannel kMemMsg"
  "IsStreamChannel kMemStream" "IsLosslessChannel kMemStream" "IsTwoSidedChannel kMemStream"
  "IsFakeChannel kMemStream"
  by (simp_all add: channel_type_defs)

section \<open>The abstract class\<close>

record 's ChannelOps =
  ch_Type :: ChannelType
  ch_GetPeer :: "'s \<Rightarrow> Endpoint"
  ch_SetPeer :: "Endpoint \<Rightarrow> 's \<Rightarrow> 's"
  ch_Write :: "byte list list \<Rightarrow> 's \<Rightarrow> (int \<times> 's) res"
  ch_Read :: "nat list \<Rightarrow> 's \<Rightarrow> (int \<times> byte list \<times> 's) res"
  ch_Shutdown :: "'s \<Rightarrow> 's"

text \<open>\<^verbatim>\<open>IsValid\<close> of the buffers: the bases are addresses of objects, so only the lengths count.\<close>

definition valid_bufs :: "byte list list \<Rightarrow> bool" where
  "valid_bufs bufs = list_all (\<lambda>b. 1 \<le> length b) bufs"

definition valid_lens :: "nat list \<Rightarrow> bool" where
  "valid_lens lens = list_all (\<lambda>n. 1 \<le> n) lens"

text \<open>
  What a channel may be asked to move at once: the scatter/gather calls take at most \<^verbatim>\<open>IOV_MAX\<close>
  buffers, and their total length is a \<^verbatim>\<open>ssize_t\<close>.
\<close>

definition IOV_MAX :: nat where "IOV_MAX = 1024"

definition io_fits :: "nat list \<Rightarrow> bool" where
  "io_fits lens \<longleftrightarrow> length lens \<le> IOV_MAX \<and> sum_list lens < 2 ^ 63"

lemma io_fits_one: "n < 2 ^ 63 \<Longrightarrow> io_fits [n]"
  by (simp add: io_fits_def IOV_MAX_def)

lemma io_fits_u32: "io_fits [unat (w :: u32)]" "m \<le> 4096 \<Longrightarrow> io_fits [m, unat (w :: u32)]"
  using unat_u32_less [of w] by (simp_all add: io_fits_def IOV_MAX_def)

locale channel =
  fixes ops :: "'s ChannelOps" and ready :: "'s \<Rightarrow> bool"
  assumes set_peer: "ch_GetPeer ops (ch_SetPeer ops p s) = p"
    and set_peer_ready: "ready s \<Longrightarrow> ready (ch_SetPeer ops p s)"

text \<open>
  A stream channel in working order: \<open>inbox\<close> are the bytes that can be read, \<open>outbox\<close> those
  that were written and not yet taken by the other side. Nothing is lost or reordered.
\<close>

locale stream_channel = channel ops ready for ops :: "'s ChannelOps" and ready +
  fixes inbox :: "'s \<Rightarrow> byte list" and outbox :: "'s \<Rightarrow> byte list"
  assumes stream_type: "IsStreamChannel (ch_Type ops)" "IsLosslessChannel (ch_Type ops)"
      "IsTwoSidedChannel (ch_Type ops)"
    and stream_read: "ready s \<Longrightarrow> 1 \<le> n \<Longrightarrow> n \<le> length (inbox s) \<Longrightarrow> io_fits [n] \<Longrightarrow>
      \<exists>s'. ch_Read ops [n] s = Inr (int n, take n (inbox s), s') \<and> ready s' \<and>
        inbox s' = drop n (inbox s) \<and> outbox s' = outbox s \<and> ch_GetPeer ops s' = ch_GetPeer ops s"
    and stream_write: "ready s \<Longrightarrow> valid_bufs bufs \<Longrightarrow> bufs \<noteq> [] \<Longrightarrow> io_fits (map length bufs) \<Longrightarrow>
      \<exists>s'. ch_Write ops bufs s = Inr (int (length (concat bufs)), s') \<and> ready s' \<and>
        outbox s' = outbox s @ concat bufs \<and> inbox s' = inbox s \<and>
        ch_GetPeer ops s' = ch_GetPeer ops s"
    and stream_peer: "inbox (ch_SetPeer ops p s) = inbox s" "outbox (ch_SetPeer ops p s) = outbox s"

text \<open>A message channel in working order keeps the boundaries of what is written at once.\<close>

locale message_channel = channel ops ready for ops :: "'s ChannelOps" and ready +
  fixes msgs_in :: "'s \<Rightarrow> byte list list" and msgs_out :: "'s \<Rightarrow> byte list list"
  assumes msg_type: "IsMessageChannel (ch_Type ops)"
    and msg_read: "ready s \<Longrightarrow> msgs_in s = m # ms \<Longrightarrow> m \<noteq> [] \<Longrightarrow> length m \<le> n \<Longrightarrow>
      \<exists>s'. ch_Read ops [n] s = Inr (int (length m), m, s') \<and> ready s' \<and>
        msgs_in s' = ms \<and> msgs_out s' = msgs_out s \<and> ch_GetPeer ops s' = ch_GetPeer ops s"
    and msg_write: "ready s \<Longrightarrow> valid_bufs bufs \<Longrightarrow> bufs \<noteq> [] \<Longrightarrow>
      \<exists>s'. ch_Write ops bufs s = Inr (int (length (concat bufs)), s') \<and> ready s' \<and>
        msgs_out s' = msgs_out s @ [concat bufs] \<and> msgs_in s' = msgs_in s \<and>
        ch_GetPeer ops s' = ch_GetPeer ops s"
    and msg_peer: "msgs_in (ch_SetPeer ops p s) = msgs_in s" "msgs_out (ch_SetPeer ops p s) = msgs_out s"

section \<open>Shared pipes\<close>

record MemPipe =
  mp_shutdown :: bool
  mp_queue :: "byte list list"

definition MemPipe_new :: MemPipe where
  "MemPipe_new = \<lparr>mp_shutdown = False, mp_queue = []\<rparr>"

definition HasData :: "MemPipe \<Rightarrow> bool" where
  "HasData p \<longleftrightarrow> mp_queue p \<noteq> [] \<or> mp_shutdown p"

definition MemPipe_Shutdown :: "MemPipe \<Rightarrow> MemPipe" where
  "MemPipe_Shutdown p = p\<lparr>mp_shutdown := True\<rparr>"

text \<open>
  The heap the shared pointers point into, and the source of random numbers: \<open>mw_draw k\<close> is
  the result of the \<open>k\<close>-th call of \<^verbatim>\<open>Random(bitgen, 1, 100)\<close>.
\<close>

record MemWorld =
  mw_pipes :: "nat \<Rightarrow> MemPipe"
  mw_next :: nat
  mw_draw :: "nat \<Rightarrow> int"
  mw_ndraws :: nat

record BidiPipe =
  bp_in :: nat
  bp_out :: nat

definition BidiPipe_Create :: "MemWorld \<Rightarrow> (BidiPipe \<times> BidiPipe) \<times> MemWorld" where
  "BidiPipe_Create w = (let p1 = mw_next w; p2 = Suc p1 in
     ((\<lparr>bp_in = p1, bp_out = p2\<rparr>, \<lparr>bp_in = p2, bp_out = p1\<rparr>),
      w\<lparr>mw_pipes := (mw_pipes w)(p1 := MemPipe_new, p2 := MemPipe_new), mw_next := Suc p2\<rparr>))"

definition put_queue :: "nat \<Rightarrow> byte list list \<Rightarrow> MemWorld \<Rightarrow> MemWorld" where
  "put_queue p q w = w\<lparr>mw_pipes := (mw_pipes w)(p := (mw_pipes w p)\<lparr>mp_queue := q\<rparr>)\<rparr>"

section \<open>The in-memory channels\<close>

record MemChannel =
  mc_error_rate :: int
  mc_in :: nat
  mc_out :: nat
  mc_peer :: Endpoint

definition MemStreamChannel_new :: "BidiPipe \<Rightarrow> int \<Rightarrow> MemChannel" where
  "MemStreamChannel_new bidi rate = \<lparr>mc_error_rate = max 0 (min 100 rate), mc_in = bp_in bidi,
     mc_out = bp_out bidi, mc_peer = Endpoint_default\<rparr>"

definition MemMsgChannel_new :: "BidiPipe \<Rightarrow> int \<Rightarrow> MemChannel" where
  "MemMsgChannel_new bidi rate = \<lparr>mc_error_rate = max 0 (min 100 rate), mc_in = bp_in bidi,
     mc_out = bp_out bidi, mc_peer = Endpoint_default\<rparr>"

definition mem_error :: "MemChannel \<Rightarrow> MemWorld \<Rightarrow> bool \<times> MemWorld" where
  "mem_error c w =
     (if mc_error_rate c \<le> 0 then (False, w)
      else (mw_draw w (mw_ndraws w) \<le> mc_error_rate c, w\<lparr>mw_ndraws := Suc (mw_ndraws w)\<rparr>))"

definition mem_GetPeer :: "MemChannel \<times> MemWorld \<Rightarrow> Endpoint" where
  "mem_GetPeer s = mc_peer (fst s)"

definition mem_SetPeer :: "Endpoint \<Rightarrow> MemChannel \<times> MemWorld \<Rightarrow> MemChannel \<times> MemWorld" where
  "mem_SetPeer p s = ((fst s)\<lparr>mc_peer := p\<rparr>, snd s)"

definition mem_Shutdown :: "MemChannel \<times> MemWorld \<Rightarrow> MemChannel \<times> MemWorld" where
  "mem_Shutdown s = (let (c, w) = s; ps = mw_pipes w;
     ps1 = ps(mc_in c := MemPipe_Shutdown (ps (mc_in c)));
     ps2 = ps1(mc_out c := MemPipe_Shutdown (ps1 (mc_out c)))
   in (c, w\<lparr>mw_pipes := ps2\<rparr>))"

definition TestOnly_Linearize :: "byte list list \<Rightarrow> byte list" where
  "TestOnly_Linearize bufs = concat bufs"

definition MemStream_Write :: "byte list list \<Rightarrow> MemChannel \<times> MemWorld \<Rightarrow> (int \<times> MemChannel \<times> MemWorld) res" where
  "MemStream_Write bufs s = (let (c, w) = s; len = length (concat bufs); out = mw_pipes w (mc_out c) in
     dcheck (valid_bufs bufs) (dcheck (1 \<le> len)
       (if mp_shutdown out then Inr (-1, c, w)
        else Inr (int len, c,
          put_queue (mc_out c) (mp_queue out @ map (\<lambda>v. TestOnly_Linearize [v]) bufs) w))))"

text \<open>
  The loop of \<^verbatim>\<open>read\<close> on the queue it holds locked: every iteration takes one block. Returns
  the count, the bytes stored, and the queue and world left.
\<close>

fun stream_read_loop :: "MemChannel \<Rightarrow> byte list list \<Rightarrow> nat \<Rightarrow> byte list \<Rightarrow> MemWorld \<Rightarrow>
    int \<times> byte list \<times> byte list list \<times> MemWorld" where
  "stream_read_loop c [] left rcvd w =
     (if left = 0 then (int (length rcvd), rcvd, [], w)
      else (if rcvd \<noteq> [] then int (length rcvd) else -1, rcvd, [], w))"
| "stream_read_loop c (iov # q) left rcvd w =
     (if left = 0 then (int (length rcvd), rcvd, iov # q, w)
      else
        let (err, w1) = mem_error c w; size = length iov in
        if err then (if rcvd \<noteq> [] then int (length rcvd) else -1, rcvd, q, w1)
        else if size = 0 then stream_read_loop c q left rcvd w1
        else if size \<le> left then stream_read_loop c q (left - size) (rcvd @ iov) w1
        else (int (length rcvd + left), rcvd @ take left iov,
              TestOnly_Linearize [drop left iov] # q, w1))"

definition MemStream_read :: "nat \<Rightarrow> MemChannel \<times> MemWorld \<Rightarrow> (int \<times> byte list \<times> MemChannel \<times> MemWorld) res" where
  "MemStream_read len s = (let (c, w) = s; p = mw_pipes w (mc_in c) in
     dcheck (1 \<le> len)
       (if \<not> HasData p then Inl Blocked
        else if mp_queue p = [] then dcheck (mp_shutdown p) (Inr (0, [], c, w))
        else
          let (n, got, q, w1) = stream_read_loop c (mp_queue p) len [] w
          in Inr (n, got, c, put_queue (mc_in c) q w1)))"

fun stream_read_bufs :: "nat list \<Rightarrow> int \<Rightarrow> byte list \<Rightarrow> MemChannel \<times> MemWorld \<Rightarrow>
    (int \<times> byte list \<times> MemChannel \<times> MemWorld) res" where
  "stream_read_bufs [] tot got s = Inr (tot, got, s)"
| "stream_read_bufs (len # lens) tot got s =
     rbind (MemStream_read len s) (\<lambda>(n, bs, s1).
       if n \<le> 0 then Inr (if tot \<noteq> 0 then tot else n, got @ bs, s1)
       else if nat n < len then Inr (tot + n, got @ bs, s1)
       else stream_read_bufs lens (tot + n) (got @ bs) s1)"

definition MemStream_Read :: "nat list \<Rightarrow> MemChannel \<times> MemWorld \<Rightarrow> (int \<times> byte list \<times> MemChannel \<times> MemWorld) res" where
  "MemStream_Read lens s =
     dcheck (valid_lens lens) (dcheck (1 \<le> sum_list lens) (stream_read_bufs lens 0 [] s))"

definition MemMsg_Write :: "byte list list \<Rightarrow> MemChannel \<times> MemWorld \<Rightarrow> (int \<times> MemChannel \<times> MemWorld) res" where
  "MemMsg_Write bufs s = (let (c, w) = s; len = length (concat bufs); out = mw_pipes w (mc_out c) in
     dcheck (valid_bufs bufs) (dcheck (1 \<le> len)
       (if mp_shutdown out then Inr (-1, c, w)
        else Inr (int len, c,
          put_queue (mc_out c) (mp_queue out @ [TestOnly_Linearize bufs]) w))))"

text \<open>The scatter loop: what is stored, and the number of bytes that did not fit.\<close>

fun scatter :: "nat list \<Rightarrow> byte list \<Rightarrow> byte list \<times> nat" where
  "scatter [] rest = ([], length rest)"
| "scatter (len # lens) rest =
     (if length rest \<le> len then (rest, 0)
      else let (stored, left) = scatter lens (drop len rest) in (take len rest @ stored, left))"

definition MemMsg_Read :: "nat list \<Rightarrow> MemChannel \<times> MemWorld \<Rightarrow> (int \<times> byte list \<times> MemChannel \<times> MemWorld) res" where
  "MemMsg_Read lens s = (let (c, w) = s; p = mw_pipes w (mc_in c) in
     dcheck (valid_lens lens) (dcheck (1 \<le> sum_list lens)
       (if \<not> HasData p then Inl Blocked
        else case mp_queue p of
          [] \<Rightarrow> dcheck (mp_shutdown p) (Inr (0, [], c, w))
        | iov # q \<Rightarrow>
            let w1 = put_queue (mc_in c) q w; (err, w2) = mem_error c w1 in
            if err then Inr (-1, [], c, w2)
            else if length iov = 0 then Inr (0, [], c, w2)
            else if length iov > sum_list lens then Inr (-1, [], c, w2)
            else
              let (stored, left) = scatter lens iov
              in dcheck (left = 0) (Inr (int (length stored), stored, c, w2)))))"

definition MemStreamChannel :: "(MemChannel \<times> MemWorld) ChannelOps" where
  "MemStreamChannel = \<lparr>ch_Type = kMemStream, ch_GetPeer = mem_GetPeer, ch_SetPeer = mem_SetPeer,
     ch_Write = MemStream_Write, ch_Read = MemStream_Read, ch_Shutdown = mem_Shutdown\<rparr>"

definition MemMsgChannel :: "(MemChannel \<times> MemWorld) ChannelOps" where
  "MemMsgChannel = \<lparr>ch_Type = kMemMsg, ch_GetPeer = mem_GetPeer, ch_SetPeer = mem_SetPeer,
     ch_Write = MemMsg_Write, ch_Read = MemMsg_Read, ch_Shutdown = mem_Shutdown\<rparr>"


section \<open>The in-memory channels in working order\<close>

text \<open>
  A channel without simulated errors between the pipes \<open>i\<close> and \<open>o'\<close>, which are distinct, open
  and hold no empty block: the state of a pair from \<^verbatim>\<open>BidiPipe::Create\<close> on, until one side
  shuts down.
\<close>

definition mem_ready :: "nat \<Rightarrow> nat \<Rightarrow> MemChannel \<times> MemWorld \<Rightarrow> bool" where
  "mem_ready i o' s \<longleftrightarrow> (let (c, w) = s in mc_error_rate c = 0 \<and> i \<noteq> o' \<and> mc_in c = i \<and> mc_out c = o' \<and>
     \<not> mp_shutdown (mw_pipes w (mc_out c)) \<and>
     list_all (\<lambda>b. b \<noteq> []) (mp_queue (mw_pipes w (mc_in c))))"

definition mem_in :: "MemChannel \<times> MemWorld \<Rightarrow> byte list list" where
  "mem_in s = mp_queue (mw_pipes (snd s) (mc_in (fst s)))"

definition mem_out :: "MemChannel \<times> MemWorld \<Rightarrow> byte list list" where
  "mem_out s = mp_queue (mw_pipes (snd s) (mc_out (fst s)))"

lemma stream_read_loop_ok:
  assumes "mc_error_rate c = 0" "left \<le> length (concat q)" "1 \<le> length rcvd + left"
    "list_all (\<lambda>b. b \<noteq> []) q"
  shows "\<exists>q'. stream_read_loop c q left rcvd w =
      (int (length rcvd + left), rcvd @ take left (concat q), q', w) \<and>
    concat q' = drop left (concat q) \<and> list_all (\<lambda>b. b \<noteq> []) q'"
  using assms
proof (induction q arbitrary: left rcvd)
  case (Cons b q)
  show ?case
  proof (cases "length b \<le> left")
    case True
    moreover from True Cons.prems(4) have "0 < left" by (cases b) auto
    ultimately show ?thesis
      using Cons.prems Cons.IH [of "left - length b" "rcvd @ b"] by (auto simp: mem_error_def)
  next
    case False
    with Cons.prems show ?thesis by (auto simp: mem_error_def TestOnly_Linearize_def Let_def)
  qed
qed auto

lemma valid_bufs_concat: "valid_bufs bufs \<Longrightarrow> bufs \<noteq> [] \<Longrightarrow> 1 \<le> length (concat bufs)"
  by (cases bufs) (auto simp: valid_bufs_def)

lemma mem_stream_read:
  assumes "mem_ready i o' s" "1 \<le> n" "n \<le> length (concat (mem_in s))"
  shows "\<exists>s'. MemStream_Read [n] s = Inr (int n, take n (concat (mem_in s)), s') \<and> mem_ready i o' s' \<and>
    concat (mem_in s') = drop n (concat (mem_in s)) \<and> mem_out s' = mem_out s \<and>
    mem_GetPeer s' = mem_GetPeer s"
proof -
  obtain c w where s: "s = (c, w)" by (cases s)
  have "mp_queue (mw_pipes w (mc_in c)) \<noteq> []" using assms(2,3) by (auto simp: mem_in_def s)
  then have HD: "HasData (mw_pipes w (mc_in c))" and ne: "mp_queue (mw_pipes w (mc_in c)) \<noteq> []"
    by (auto simp: HasData_def)
  obtain q' where q': "stream_read_loop c (mp_queue (mw_pipes w (mc_in c))) n [] w =
      (int n, take n (concat (mem_in s)), q', w)" "concat q' = drop n (concat (mem_in s))"
    "list_all (\<lambda>b. b \<noteq> []) q'"
    using stream_read_loop_ok [of c n "mem_in s" "[]" w] assms
    by (auto simp: mem_in_def mem_ready_def s)
  have r: "MemStream_read n s = Inr (int n, take n (concat (mem_in s)), c, put_queue (mc_in c) q' w)"
    using assms(2) HD ne q'(1) by (simp add: MemStream_read_def s)
  let ?s = "(c, put_queue (mc_in c) q' w)"
  have "MemStream_Read [n] s = Inr (int n, take n (concat (mem_in s)), ?s)"
    using r assms(2) by (simp add: MemStream_Read_def valid_lens_def)
  moreover have "mem_ready i o' ?s" "mem_in ?s = q'" "mem_out ?s = mem_out s" "mem_GetPeer ?s = mem_GetPeer s"
    using assms(1) q'(3)
    by (auto simp: mem_ready_def mem_in_def mem_out_def put_queue_def mem_GetPeer_def s)
  ultimately show ?thesis using q'(2) by auto
qed

lemma mem_stream_write:
  assumes "mem_ready i o' s" "valid_bufs bufs" "bufs \<noteq> []"
  shows "\<exists>s'. MemStream_Write bufs s = Inr (int (length (concat bufs)), s') \<and> mem_ready i o' s' \<and>
    mem_out s' = mem_out s @ bufs \<and> mem_in s' = mem_in s \<and> mem_GetPeer s' = mem_GetPeer s"
  using assms valid_bufs_concat [OF assms(2,3)]
  by (cases s) (auto simp: MemStream_Write_def mem_ready_def mem_in_def mem_out_def put_queue_def
      mem_GetPeer_def TestOnly_Linearize_def Let_def)

lemma mem_msg_write:
  assumes "mem_ready i o' s" "valid_bufs bufs" "bufs \<noteq> []"
  shows "\<exists>s'. MemMsg_Write bufs s = Inr (int (length (concat bufs)), s') \<and> mem_ready i o' s' \<and>
    mem_out s' = mem_out s @ [concat bufs] \<and> mem_in s' = mem_in s \<and> mem_GetPeer s' = mem_GetPeer s"
  using assms valid_bufs_concat [OF assms(2,3)]
  by (cases s) (auto simp: MemMsg_Write_def mem_ready_def mem_in_def mem_out_def put_queue_def
      mem_GetPeer_def TestOnly_Linearize_def Let_def)

lemma scatter_fits:
  "length rest \<le> sum_list lens \<Longrightarrow> scatter lens rest = (rest, 0)"
  by (induction lens arbitrary: rest) auto

lemma mem_msg_read:
  assumes "mem_ready i o' s" "mem_in s = m # ms" "valid_lens lens" "length m \<le> sum_list lens"
  shows "\<exists>s'. MemMsg_Read lens s = Inr (int (length m), m, s') \<and> mem_ready i o' s' \<and>
    mem_in s' = ms \<and> mem_out s' = mem_out s \<and> mem_GetPeer s' = mem_GetPeer s"
proof -
  obtain c w where s: "s = (c, w)" by (cases s)
  let ?p = "mw_pipes w (mc_in c)"
  have q: "mp_queue ?p = m # ms" "HasData ?p" "m \<noteq> []" "mc_error_rate c = 0"
    using assms(1,2) by (auto simp: mem_in_def s HasData_def mem_ready_def)
  let ?s = "(c, put_queue (mc_in c) ms w)"
  have "1 \<le> sum_list lens" using q(3) assms(4) by (cases m) auto
  then have "MemMsg_Read lens s = Inr (int (length m), m, ?s)"
    using assms(3,4) q scatter_fits [OF assms(4)]
    by (simp add: MemMsg_Read_def s mem_error_def Let_def)
  moreover have "mem_ready i o' ?s" "mem_in ?s = ms" "mem_out ?s = mem_out s" "mem_GetPeer ?s = mem_GetPeer s"
    using assms(1) q by (auto simp: mem_ready_def mem_in_def mem_out_def put_queue_def mem_GetPeer_def s)
  ultimately show ?thesis by blast
qed

lemma mem_set_peer [simp]:
  "mem_GetPeer (mem_SetPeer p s) = p" "mem_ready i o' (mem_SetPeer p s) = mem_ready i o' s"
  "mem_in (mem_SetPeer p s) = mem_in s" "mem_out (mem_SetPeer p s) = mem_out s"
  by (cases s; simp add: mem_GetPeer_def mem_SetPeer_def mem_ready_def mem_in_def mem_out_def)+

interpretation mem_stream: stream_channel MemStreamChannel "mem_ready i o'" "concat \<circ> mem_in" "concat \<circ> mem_out"
  for i o'
proof (unfold_locales, goal_cases)
  case (6 s n)
  then show ?case using mem_stream_read [of i o' s n] by (auto simp: MemStreamChannel_def)
next
  case (7 s bufs)
  then show ?case using mem_stream_write [of i o' s bufs] by (auto simp: MemStreamChannel_def)
qed (simp_all add: MemStreamChannel_def)

interpretation mem_msg: message_channel MemMsgChannel "mem_ready i o'" mem_in mem_out
  for i o'
proof (unfold_locales, goal_cases)
  case (4 s m ms n)
  then show ?case
    using mem_msg_read [of i o' s m ms "[n]"] by (cases m) (auto simp: MemMsgChannel_def valid_lens_def)
next
  case (5 s bufs)
  then show ?case using mem_msg_write [of i o' s bufs] by (auto simp: MemMsgChannel_def)
qed (simp_all add: MemMsgChannel_def)

section \<open>The two ends of a pair\<close>

text \<open>
  What one end writes is what the other end reads: the ends share the heap, with their
  pipes crossed.
\<close>

lemma pair_ready:
  assumes "BidiPipe_Create w = ((a, b), w')"
  shows "mem_ready (bp_in a) (bp_out a) (MemStreamChannel_new a 0, w')"
    "mem_ready (bp_in b) (bp_out b) (MemStreamChannel_new b 0, w')"
    "mem_in (MemStreamChannel_new a 0, w') = []" "mem_in (MemStreamChannel_new b 0, w') = []"
    "bp_in a = bp_out b" "bp_out a = bp_in b" "bp_in a \<noteq> bp_out a"
  using assms
  by (auto simp: BidiPipe_Create_def Let_def mem_ready_def MemStreamChannel_new_def mem_in_def
      MemPipe_new_def)

text \<open>
  Bytes written to one end of a fresh pair are read from the other: in order, completely,
  in pieces of any size, and independently of how the writer cut them into buffers, on the
  stream channel; one write per read on the message channel. After a shutdown of either end,
  writes are refused and reads return what is left and then 0.
\<close>
theorem mem_channels_deliver:
  assumes "BidiPipe_Create w = ((a, b), w0)" "valid_bufs bufs" "bufs \<noteq> []"
    "1 \<le> n" "n \<le> length (concat bufs)"
  shows "(\<exists>w1. MemStream_Write bufs (MemStreamChannel_new a 0, w0) =
        Inr (int (length (concat bufs)), MemStreamChannel_new a 0, w1) \<and>
      (\<exists>s2. MemStream_Read [n] (MemStreamChannel_new b 0, w1) =
        Inr (int n, take n (concat bufs), s2) \<and> concat (mem_in s2) = drop n (concat bufs))) \<and>
    (\<exists>w1 s2. MemMsg_Write bufs (MemMsgChannel_new a 0, w0) =
        Inr (int (length (concat bufs)), MemMsgChannel_new a 0, w1) \<and>
      MemMsg_Read [length (concat bufs)] (MemMsgChannel_new b 0, w1) =
        Inr (int (length (concat bufs)), concat bufs, s2) \<and> mem_in s2 = []) \<and>
    (\<exists>w1. mem_Shutdown (MemStreamChannel_new a 0, w0) = (MemStreamChannel_new a 0, w1) \<and>
      MemStream_Write bufs (MemStreamChannel_new a 0, w1) = Inr (-1, MemStreamChannel_new a 0, w1) \<and>
      MemStream_Write bufs (MemStreamChannel_new b 0, w1) = Inr (-1, MemStreamChannel_new b 0, w1) \<and>
      MemStream_Read [n] (MemStreamChannel_new b 0, w1) = Inr (0, [], MemStreamChannel_new b 0, w1))"
proof -
  note pr = pair_ready [OF assms(1)]
  let ?a = "MemStreamChannel_new a 0" and ?b = "MemStreamChannel_new b 0"
  have same: "MemMsgChannel_new = MemStreamChannel_new"
    by (simp add: fun_eq_iff MemMsgChannel_new_def MemStreamChannel_new_def)
  have len: "1 \<le> length (concat bufs)" by (rule valid_bufs_concat [OF assms(2,3)])
  have q: "mp_queue (mw_pipes w0 (bp_out a)) = []" "\<not> mp_shutdown (mw_pipes w0 (bp_out a))"
    using pr by (simp_all add: mem_in_def MemStreamChannel_new_def mem_ready_def)
  let ?w1 = "put_queue (bp_out a) bufs w0" and ?w2 = "put_queue (bp_out a) [concat bufs] w0"
  have w: "MemStream_Write bufs (?a, w0) = Inr (int (length (concat bufs)), ?a, ?w1)"
    "MemMsg_Write bufs (?a, w0) = Inr (int (length (concat bufs)), ?a, ?w2)"
    using assms(2) len q
    by (simp_all add: MemStream_Write_def MemMsg_Write_def MemStreamChannel_new_def Let_def TestOnly_Linearize_def)
  have ne: "list_all (\<lambda>b. b \<noteq> []) bufs" "concat bufs \<noteq> []"
    using assms(2) len by (auto simp: valid_bufs_def list_all_iff simp del: concat_eq_Nil_conv)
  have r: "mem_ready (bp_in b) (bp_out b) (?b, ?w1)" "mem_in (?b, ?w1) = bufs" "mem_ready (bp_in b) (bp_out b) (?b, ?w2)"
    "mem_in (?b, ?w2) = [concat bufs]"
    using pr ne
    by (simp_all add: mem_ready_def mem_in_def put_queue_def MemStreamChannel_new_def Let_def del: concat_eq_Nil_conv)
  have "\<exists>s2. MemStream_Read [n] (?b, ?w1) = Inr (int n, take n (concat bufs), s2) \<and>
      concat (mem_in s2) = drop n (concat bufs)"
    using mem_stream_read [OF r(1) assms(4)] assms(5) unfolding r(2) by blast
  moreover have "\<exists>s2. MemMsg_Read [length (concat bufs)] (?b, ?w2) =
      Inr (int (length (concat bufs)), concat bufs, s2) \<and> mem_in s2 = []"
    using mem_msg_read [OF r(3,4), of "[length (concat bufs)]"] len by (auto simp: valid_lens_def)
  moreover have "\<exists>w1. mem_Shutdown (?a, w0) = (?a, w1) \<and> MemStream_Write bufs (?a, w1) = Inr (-1, ?a, w1) \<and>
      MemStream_Write bufs (?b, w1) = Inr (-1, ?b, w1) \<and> MemStream_Read [n] (?b, w1) = Inr (0, [], ?b, w1)"
    using assms(2,4) len q(1) pr(5-7)
    by (simp add: mem_Shutdown_def MemStream_Write_def MemStream_Read_def MemStream_read_def
        MemStreamChannel_new_def MemPipe_Shutdown_def HasData_def valid_lens_def Let_def)
  ultimately show ?thesis using w unfolding same by blast
qed

definition demo_world :: MemWorld where
  "demo_world = \<lparr>mw_pipes = \<lambda>_. MemPipe_new, mw_next = 0, mw_draw = \<lambda>_. 1, mw_ndraws = 0\<rparr>"

theorem mem_channels_deliver_witness:
  "\<exists>a b w0 w1 s2. BidiPipe_Create demo_world = ((a, b), w0) \<and>
    MemStream_Write [[1, 2], [3]] (MemStreamChannel_new a 0, w0) = Inr (3, MemStreamChannel_new a 0, w1) \<and>
    MemStream_Read [2] (MemStreamChannel_new b 0, w1) = Inr (2, [1, 2], s2)"
proof -
  obtain a b w0 where "BidiPipe_Create demo_world = ((a, b), w0)" by (metis prod.collapse)
  from this mem_channels_deliver [OF this, of "[[1, 2], [3]]" 2] show ?thesis
    by (auto simp: valid_bufs_def)
qed

end
