(* ===== verification/TransferLayer.thy ===== *)
theory TransferLayer
  imports RequestTracker Channel
begin

text \<open>
  \<^verbatim>\<open>internal/transfer/transfer.{h,cc}\<close>: sending batch descriptors and chunks over a channel,
  and receiving them: header dispatch, registration of batches, writing payloads to their
  destination, acknowledgments, duplicates and errors, on stream and on message channels.

  A \<open>Node\<close> holds what one call of \<^verbatim>\<open>Recv\<close> touches: the channel, the two request trackers, the
  environment (clock, metrics, trace recorder) and the process memory. A call is one step;
  the interleaving of several receive workers inside one chunk is the subject of
  \<open>ChunkTracker\<close>. Callbacks are returned in order, for the engine to run.
\<close>

section \<open>Memory\<close>

type_synonym memory = "addr_t \<Rightarrow> byte"

fun mem_write :: "addr_t \<Rightarrow> byte list \<Rightarrow> memory \<Rightarrow> memory" where
  "mem_write a [] m = m"
| "mem_write a (b # bs) m = mem_write (a + 1) bs (m(a := b))"

definition mem_read :: "addr_t \<Rightarrow> nat \<Rightarrow> memory \<Rightarrow> byte list" where
  "mem_read a n m = map (\<lambda>k. m (a + of_nat k)) [0..<n]"

section \<open>Operations\<close>

record 's Node =
  nd_ch :: 's
  nd_out :: RequestTracker
  nd_in :: RequestTracker
  nd_env :: Env
  nd_mem :: memory

type_synonym 's RecvResult = "(bool \<times> Call list \<times> 's Node) res"

datatype TransferHeader = HPostInfo PostInfoHeader | HData DataHeader

definition kTmpBufSize :: nat where "kTmpBufSize = 10240"

definition StampRxTrace :: "DataHeader \<Rightarrow> int \<Rightarrow> ChunkStatus \<Rightarrow> u64 \<Rightarrow> u64 \<Rightarrow> Env \<Rightarrow> DataHeader \<times> Env" where
  "StampRxTrace chunk worker_id s t_start_us t_acquired_us e =
     (if \<not> IsTraced (dh_trace chunk) then (chunk, e)
      else let (now, e1) = MonoNowUs e
           in (chunk\<lparr>dh_trace := SetRx worker_id s t_start_us t_acquired_us now (dh_trace chunk)\<rparr>, e1))"

definition SendInfo :: "fb_abi \<Rightarrow> 's ChannelOps \<Rightarrow> PostInfoHeader \<Rightarrow> RequestInfo list \<Rightarrow> 's \<Rightarrow> (bool \<times> 's) res" where
  "SendInfo fb ops info reqs ch =
     dcheck (PostInfoHeader_IsValid info) (dcheck (reqs \<noteq> [])
       (rbind (Serialize_PostInfo fb info 1) (\<lambda>header.
        rbind (Serialize_RequestInfos fb reqs) (\<lambda>payload.
        rbind (PostInfo_IsMatch info payload) (\<lambda>ok. dcheck ok
          (rbind (ch_Write ops [header, payload] ch) (\<lambda>(len, ch1).
             Inr (len = int (length header + length payload), ch1))))))))"

definition SendChunk :: "fb_abi \<Rightarrow> 's ChannelOps \<Rightarrow> DataHeader \<Rightarrow> byte list \<Rightarrow> 's \<Rightarrow> (bool \<times> 's) res" where
  "SendChunk fb ops chunk payload ch =
     rbind (Data_IsMatch chunk payload) (\<lambda>ok. dcheck ok
       (rbind (Serialize_Data fb chunk 1) (\<lambda>header.
          rbind (ch_Write ops [header, payload] ch) (\<lambda>(len, ch1).
            Inr (len = int (length header + length payload), ch1)))))"

definition transfer_deserialize :: "fb_abi \<Rightarrow> byte list \<Rightarrow> TransferHeader option res" where
  "transfer_deserialize fb s =
     rbind (Deserialize_Data fb s DataHeader_zero) (\<lambda>(ok, chunk).
       if ok then Inr (Some (HData chunk))
       else rbind (Deserialize_PostInfo fb s PostInfoHeader_zero) (\<lambda>(ok', info).
         if ok' then Inr (Some (HPostInfo info)) else Inr None))"

definition sendAck :: "fb_abi \<Rightarrow> 's ChannelOps \<Rightarrow> DataHeader \<Rightarrow> 's \<Rightarrow> (bool \<times> 's) res" where
  "sendAck fb ops chunk ch = (let chunk1 = chunk\<lparr>hdr_len := 0\<rparr> in
     dcheck (IsAck chunk1)
       (rbind (Serialize_Data fb chunk1 1) (\<lambda>header.
          rbind (ch_Write ops [header] ch) (\<lambda>(len, ch1).
            if len \<noteq> int (length header) then Inr (False, ch1) else Inr (True, ch1)))))"

function drain_loop :: "'s ChannelOps \<Rightarrow> nat \<Rightarrow> 's \<Rightarrow> (bool \<times> 's) res" where
  "drain_loop ops left ch =
     (if left > 0 then
        let size = min left kTmpBufSize
        in rbind (ch_Read ops [size] ch) (\<lambda>(len, bs, ch1).
             if len \<noteq> int size then Inr (False, ch1) else drain_loop ops (left - size) ch1)
      else Inr (left = 0, ch))"
  by pat_completeness auto
termination
  by (relation "measure (\<lambda>(ops, left, ch). left)") (auto simp: kTmpBufSize_def)

declare drain_loop.simps [simp del]

definition drainStream :: "'s ChannelOps \<Rightarrow> u32 \<Rightarrow> 's \<Rightarrow> (bool \<times> 's) res" where
  "drainStream ops chunk_size ch = drain_loop ops (unat chunk_size) ch"

text \<open>\<^verbatim>\<open>is_traced ? util::MonoNowUs() : 0\<close>\<close>

definition now_if :: "bool \<Rightarrow> Env \<Rightarrow> u64 \<times> Env" where
  "now_if traced e = (if traced then MonoNowUs e else (0, e))"

text \<open>\<^verbatim>\<open>if (tracker.Release(index, success)) incoming.OnReqComplete(handle, peer)\<close>\<close>

definition release_chunk :: "ChunkTracker \<Rightarrow> DataHeader \<Rightarrow> Endpoint \<Rightarrow> bool \<Rightarrow> Env \<Rightarrow> RequestTracker \<Rightarrow>
    (Call list \<times> Env \<times> RequestTracker) res" where
  "release_chunk tracker chunk peer success e incoming =
     rbind (Release tracker (dh_index chunk) success) (\<lambda>(fin, tracker1).
       let incoming1 = put_chunks (hdr_handle chunk) (dh_reqid chunk) peer tracker1 incoming
       in if fin then OnReqComplete (hdr_handle chunk) peer e incoming1 else Inr ([], e, incoming1))"

definition recvAck :: "DataHeader \<Rightarrow> int \<Rightarrow> 's Node \<Rightarrow> 's RecvResult" where
  "recvAck chunk worker_id nd =
     rbind (Update (hdr_handle chunk) (dh_reqid chunk) (dh_index chunk) worker_id Endpoint_default
              (RecordTxAckRcvd chunk (nd_env nd)) (nd_out nd)) (\<lambda>(calls, e, out).
       Inr (True, calls, nd\<lparr>nd_env := e, nd_out := out\<rparr>))"

definition recvDataStream :: "fb_abi \<Rightarrow> 's ChannelOps \<Rightarrow> DataHeader \<Rightarrow> int \<Rightarrow> 's Node \<Rightarrow> 's RecvResult" where
  "recvDataStream fb ops chunk worker_id nd =
     (if IsAck chunk then recvAck chunk worker_id nd
      else
        let traced = IsTraced (dh_trace chunk);
            (t_start_us, e1) = now_if traced (nd_env nd);
            peer = ch_GetPeer ops (nd_ch nd);
            size = hdr_len chunk;
            drop_chunk = rbind (drainStream ops size (nd_ch nd)) (\<lambda>(_, ch1).
              Inr (False, [], nd\<lparr>nd_env := e1, nd_ch := ch1\<rparr>))
        in
        if Check (hdr_handle chunk) peer (nd_in nd) = kNotFound then drop_chunk
        else
          let dst_addr = GetChunkAddr (hdr_handle chunk) (dh_reqid chunk) (dh_byte_offset chunk) peer (nd_in nd)
          in
          if dst_addr = 0 then drop_chunk
          else
            rbind (Find (hdr_handle chunk) (dh_reqid chunk) peer (nd_in nd)) (\<lambda>tracker.
            rbind (Acquire tracker (dh_index chunk)) (\<lambda>(s, tracker1).
              let in1 = put_chunks (hdr_handle chunk) (dh_reqid chunk) peer tracker1 (nd_in nd);
                  (t_acquired_us, e2) = now_if traced e1
              in
              if s = kEmpty then
                rbind (ch_Read ops [unat size] (nd_ch nd)) (\<lambda>(len, bs, ch1).
                  let success = (len = int (unat size)) in
                  rbind (release_chunk tracker1 chunk peer success e2 in1) (\<lambda>(calls, e3, in2).
                    let nd1 = nd\<lparr>nd_ch := ch1, nd_in := in2, nd_env := e3,
                                 nd_mem := mem_write dst_addr bs (nd_mem nd)\<rparr> in
                    if \<not> success then Inr (False, calls, nd1)
                    else
                      let (chunk1, e4) = StampRxTrace chunk worker_id s t_start_us t_acquired_us e3
                      in rbind (sendAck fb ops chunk1 ch1) (\<lambda>(ok, ch2).
                           Inr (ok, calls, nd1\<lparr>nd_ch := ch2, nd_env := e4\<rparr>))))
              else
                let is_done = (s = kDone) in
                rbind (drainStream ops size (nd_ch nd)) (\<lambda>(drained, ch1).
                  let (chunk1, e3) = (if is_done
                        then StampRxTrace chunk worker_id s t_start_us t_acquired_us e2 else (chunk, e2))
                  in rbind (if is_done then sendAck fb ops chunk1 ch1 else Inr (True, ch1)) (\<lambda>(success, ch2).
                       let nd1 = nd\<lparr>nd_ch := ch2, nd_in := in1, nd_env := e3\<rparr>
                       in if \<not> drained then Inr (False, [], nd1) else Inr (success, [], nd1))))))"

definition recvPostInfoStream :: "fb_abi \<Rightarrow> 's ChannelOps \<Rightarrow> PostInfoHeader \<Rightarrow> 's Node \<Rightarrow> 's RecvResult" where
  "recvPostInfoStream fb ops info nd = (let (start_us, e1) = MonoNowUs (nd_env nd) in
     rbind (ch_Read ops [unat (hdr_len info)] (nd_ch nd)) (\<lambda>(len, payload, ch1).
       if len \<noteq> int (unat (hdr_len info)) then Inr (False, [], nd\<lparr>nd_env := e1, nd_ch := ch1\<rparr>)
       else
         let (ok, reqs) = Deserialize_RequestInfos fb payload [] in
         if \<not> ok then Inr (False, [], nd\<lparr>nd_env := e1, nd_ch := ch1\<rparr>)
         else
           let ch2 = (if HasNonzeroIpPort (pi_peer info) then ch_SetPeer ops (pi_peer info) ch1 else ch1)
           in rbind (Add_reqs (hdr_handle info) reqs start_us (pi_metadata info) (pi_peer info) (nd_in nd))
                (\<lambda>(added, calls, in1).
                  Inr (added, calls, nd\<lparr>nd_env := e1, nd_ch := ch2, nd_in := in1\<rparr>))))"

definition recvStream :: "fb_abi \<Rightarrow> 's ChannelOps \<Rightarrow> int \<Rightarrow> 's Node \<Rightarrow> 's RecvResult" where
  "recvStream fb ops worker_id nd =
     dcheck (IsStreamChannel (ch_Type ops)) (dcheck (IsLosslessChannel (ch_Type ops))
       (rbind (ch_Read ops [kSize] (nd_ch nd)) (\<lambda>(len, buf, ch1).
          let nd1 = nd\<lparr>nd_ch := ch1\<rparr> in
          if len \<noteq> int kSize then Inr (False, [], nd1)
          else
            rbind (transfer_deserialize fb buf) (\<lambda>r.
              case r of
                None \<Rightarrow> Inr (False, [], nd1)
              | Some (HData chunk) \<Rightarrow> recvDataStream fb ops chunk worker_id nd1
              | Some (HPostInfo info) \<Rightarrow> recvPostInfoStream fb ops info nd1))))"

definition recvPostInfoMsg :: "fb_abi \<Rightarrow> 's ChannelOps \<Rightarrow> PostInfoHeader \<Rightarrow> byte list \<Rightarrow> 's Node \<Rightarrow> 's RecvResult" where
  "recvPostInfoMsg fb ops info payload nd = (let (start_us, e1) = MonoNowUs (nd_env nd) in
     rbind (PostInfo_IsMatch info payload) (\<lambda>matches.
       if \<not> matches then Inr (False, [], nd\<lparr>nd_env := e1\<rparr>)
       else
         let (ok, reqs) = Deserialize_RequestInfos fb payload [] in
         if \<not> ok then Inr (False, [], nd\<lparr>nd_env := e1\<rparr>)
         else
           let ch1 = (if HasNonzeroIpPort (pi_peer info) then ch_SetPeer ops (pi_peer info) (nd_ch nd) else nd_ch nd)
           in rbind (Add_reqs (hdr_handle info) reqs start_us (pi_metadata info) (pi_peer info) (nd_in nd))
                (\<lambda>(added, calls, in1).
                  Inr (added, calls, nd\<lparr>nd_env := e1, nd_ch := ch1, nd_in := in1\<rparr>))))"

definition recvDataMsg :: "fb_abi \<Rightarrow> 's ChannelOps \<Rightarrow> DataHeader \<Rightarrow> byte list \<Rightarrow> int \<Rightarrow> 's Node \<Rightarrow> 's RecvResult" where
  "recvDataMsg fb ops chunk payload worker_id nd =
     rbind (Data_IsMatch chunk payload) (\<lambda>matches.
       if \<not> matches then Inr (False, [], nd)
       else if IsAck chunk then recvAck chunk worker_id nd
       else
         let traced = IsTraced (dh_trace chunk);
             (t_start_us, e1) = now_if traced (nd_env nd);
             peer = ch_GetPeer ops (nd_ch nd)
         in
         if Check (hdr_handle chunk) peer (nd_in nd) = kNotFound then Inr (False, [], nd\<lparr>nd_env := e1\<rparr>)
         else
           let dst_addr = GetChunkAddr (hdr_handle chunk) (dh_reqid chunk) (dh_byte_offset chunk) peer (nd_in nd)
           in
           if dst_addr = 0 then Inr (False, [], nd\<lparr>nd_env := e1\<rparr>)
           else
             rbind (Find (hdr_handle chunk) (dh_reqid chunk) peer (nd_in nd)) (\<lambda>tracker.
             rbind (Acquire tracker (dh_index chunk)) (\<lambda>(s, tracker1).
               let in1 = put_chunks (hdr_handle chunk) (dh_reqid chunk) peer tracker1 (nd_in nd);
                   (t_acquired_us, e2) = now_if traced e1
               in case s of
                    kEmpty \<Rightarrow>
                      rbind (release_chunk tracker1 chunk peer True e2 in1) (\<lambda>(calls, e3, in2).
                        let (chunk1, e4) = StampRxTrace chunk worker_id s t_start_us t_acquired_us e3
                        in rbind (sendAck fb ops chunk1 (nd_ch nd)) (\<lambda>(ok, ch1).
                             Inr (ok, calls, nd\<lparr>nd_ch := ch1, nd_in := in2, nd_env := e4,
                               nd_mem := mem_write dst_addr payload (nd_mem nd)\<rparr>)))
                  | kDone \<Rightarrow>
                      let (chunk1, e3) = StampRxTrace chunk worker_id s t_start_us t_acquired_us e2
                      in rbind (sendAck fb ops chunk1 (nd_ch nd)) (\<lambda>(ok, ch1).
                           Inr (ok, [], nd\<lparr>nd_ch := ch1, nd_in := in1, nd_env := e3\<rparr>))
                  | kBusy \<Rightarrow> Inr (True, [], nd\<lparr>nd_in := in1, nd_env := e2\<rparr>))))"

definition recvMsg :: "fb_abi \<Rightarrow> 's ChannelOps \<Rightarrow> int \<Rightarrow> 's Node \<Rightarrow> 's RecvResult" where
  "recvMsg fb ops worker_id nd =
     dcheck (IsMessageChannel (ch_Type ops))
       (rbind (ch_Read ops [kTmpBufSize] (nd_ch nd)) (\<lambda>(len, buf, ch1).
          let nd1 = nd\<lparr>nd_ch := ch1\<rparr> in
          if len < int kSize then Inr (False, [], nd1)
          else
            rbind (transfer_deserialize fb (take kSize buf)) (\<lambda>r.
              let payload = take (nat (len - int kSize)) (drop kSize buf) in
              case r of
                None \<Rightarrow> Inr (False, [], nd1)
              | Some (HData chunk) \<Rightarrow> recvDataMsg fb ops chunk payload worker_id nd1
              | Some (HPostInfo info) \<Rightarrow> recvPostInfoMsg fb ops info payload nd1)))"

definition Recv :: "fb_abi \<Rightarrow> 's ChannelOps \<Rightarrow> int \<Rightarrow> 's Node \<Rightarrow> 's RecvResult" where
  "Recv fb ops worker_id nd =
     (if IsStreamChannel (ch_Type ops) then recvStream fb ops worker_id nd
      else dcheck (IsMessageChannel (ch_Type ops)) (recvMsg fb ops worker_id nd))"

end
