(* ===== verification/Delivery.thy ===== *)
theory Delivery
  imports TransferLayer
begin

text \<open>
  What the receiving side of \<^verbatim>\<open>transfer.cc\<close> does with the chunks of a registered batch of
  writes, as a refinement of an abstract receiver: a memory and the set of chunks it has. A
  chunk that is new is stored, a known one is not; both are acknowledged; the chunk that
  completes the batch causes the receive callback.
\<close>

section \<open>Memory\<close>

lemma mem_write_at:
  assumes "length bs \<le> 2 ^ 64"
  shows "mem_write a bs m x = (if unat (x - a) < length bs then bs ! unat (x - a) else m x)"
  using assms
proof (induction bs arbitrary: a m)
  case (Cons b bs)
  have IH: "mem_write a (b # bs) m x =
      (if unat (x - (a + 1)) < length bs then bs ! unat (x - (a + 1)) else (m(a := b)) x)"
    using Cons by simp
  show ?case
  proof (cases "x = a")
    case True
    have "unat (a - (a + 1)) = 18446744073709551615" by (simp add: unsigned_minus_1_eq_mask mask_eq_exp_minus_1)
    with True Cons.prems IH show ?thesis by simp
  next
    case False
    then have "unat (x - a) \<noteq> 0" by (simp add: unat_eq_0)
    moreover have "x - (a + 1) = (x - a) - 1" by simp
    ultimately have "unat (x - a) = Suc (unat (x - (a + 1)))"
      by (metis False eq_iff_diff_eq_0 unat_minus_one Suc_pred' neq0_conv)
    with False IH show ?thesis by simp
  qed
qed simp

lemma mem_read_write_same:
  "length bs \<le> 2 ^ 64 \<Longrightarrow> mem_read a (length bs) (mem_write a bs m) = bs"
  by (rule nth_equalityI) (simp_all add: mem_read_def mem_write_at)

section \<open>The abstract receiver\<close>

text \<open>
  A packet is a data header with its payload. The abstract receiver has a memory and the set
  of chunks (request id and number) it holds; \<open>base\<close> is the destination of each request.
\<close>

type_synonym packet = "DataHeader \<times> byte list"
type_synonym chunk_key = "ReqId \<times> nat"

definition key :: "packet \<Rightarrow> chunk_key" where
  "key p = (dh_reqid (fst p), unat (dh_index (fst p)))"

definition abs_deliver :: "(ReqId \<Rightarrow> addr_t) \<Rightarrow> packet \<Rightarrow> memory \<times> chunk_key set \<Rightarrow> memory \<times> chunk_key set" where
  "abs_deliver base p ms = (let (m, S) = ms in
     if key p \<in> S then (m, S)
     else (mem_write (base (dh_reqid (fst p)) + dh_byte_offset (fst p)) (snd p) m, insert (key p) S))"

text \<open>
  A packet of a batch: a chunk of one of its requests, with its whole payload and a
  destination that is not the null address.
\<close>

definition wf_packet :: "Handle \<Rightarrow> RequestInfo list \<Rightarrow> (ReqId \<Rightarrow> addr_t) \<Rightarrow> packet \<Rightarrow> bool" where
  "wf_packet h reqs base p \<longleftrightarrow> (let (d, bs) = p in
     IsData d \<and> hdr_handle d = h \<and> unat (hdr_len d) = length bs \<and>
     (\<exists>r \<in> set reqs. ri_reqid r = dh_reqid d \<and> unat (dh_index d) < unat (ri_nchunks r)) \<and>
     base (dh_reqid d) \<noteq> 0 \<and> base (dh_reqid d) + dh_byte_offset d \<noteq> 0)"

text \<open>The acknowledgment of a packet: its header without payload; the trace fields may change.\<close>

definition is_ack_of :: "DataHeader \<Rightarrow> DataHeader \<Rightarrow> bool" where
  "is_ack_of a d \<longleftrightarrow> (\<exists>tr. a = d\<lparr>hdr_len := 0, dh_trace := tr\<rparr>)"

lemma IsData_valid:
  assumes "IsData d"
  shows "DataHeader_IsValid d" "\<not> IsAck d" "0 < unat (hdr_len d)" "IsAck (d\<lparr>hdr_len := 0, dh_trace := tr\<rparr>)"
    "DataHeader_IsValid (d\<lparr>hdr_len := 0, dh_trace := tr\<rparr>)"
  using assms by (auto simp: DataHeader_IsValid_def IsData_def IsAck_def unat_gt_0)

lemma StampRxTrace_frame:
  "\<exists>tr e'. StampRxTrace c w s a b e = (c\<lparr>dh_trace := tr\<rparr>, e') \<and> wf_Env e' = wf_Env e"
proof (cases "IsTraced (dh_trace c)")
  case True
  then show ?thesis by (auto simp: StampRxTrace_def MonoNowUs_def wf_Env_def)
next
  case False
  then have "StampRxTrace c w s a b e = (c\<lparr>dh_trace := dh_trace c\<rparr>, e)" by (simp add: StampRxTrace_def)
  then show ?thesis by blast
qed

lemma now_if_frame: "\<exists>t e'. now_if b e = (t, e') \<and> wf_Env e' = wf_Env e"
  by (auto simp: now_if_def MonoNowUs_def wf_Env_def)

section \<open>The tracker of a batch being received\<close>

definition req_done :: "RequestInfo \<Rightarrow> chunk_key set \<Rightarrow> bool" where
  "req_done r S \<longleftrightarrow> (\<forall>k < unat (ri_nchunks r). (ri_reqid r, k) \<in> S)"

definition open_reqs :: "RequestInfo list \<Rightarrow> chunk_key set \<Rightarrow> RequestInfo set" where
  "open_reqs reqs S = {r \<in> set reqs. \<not> req_done r S}"

definition rx_tracks :: "RequestTracker \<Rightarrow> Endpoint \<Rightarrow> Handle \<Rightarrow> RequestInfo list \<Rightarrow> Metadata \<Rightarrow>
    (ReqId \<Rightarrow> addr_t) \<Rightarrow> chunk_key set \<Rightarrow> bool" where
  "rx_tracks rt peer h reqs meta base S \<longleftrightarrow> recv_post_callback rt \<and> distinct (map ri_reqid reqs) \<and>
     length reqs < 2 ^ 64 \<and>
     (\<exists>pt. map_of (trackers rt) (peer, h) = Some pt \<and> tracks pt reqs S \<and> \<not> is_initiator pt \<and>
        pt_metadata pt = meta \<and> pending_reqs pt = of_nat (card (open_reqs reqs S)) \<and>
        map (\<lambda>(k, q). (k, rt_raddr q, rt_metadata q)) (req_map pt) =
          map (\<lambda>r. (ri_reqid r, base (ri_reqid r), ri_metadata r)) reqs)"

lemma covered_open: "covered reqs S \<longleftrightarrow> open_reqs reqs S = {}"
  by (auto simp: covered_def open_reqs_def req_done_def)

lemma card_open_le: "distinct (map ri_reqid reqs) \<Longrightarrow> card (open_reqs reqs S) \<le> length reqs"
  by (metis (lifting) card_length card_mono finite_set le_trans mem_Collect_eq open_reqs_def subsetI)

lemma open_reqs_insert:
  assumes "distinct (map ri_reqid reqs)" "r \<in> set reqs" "(ri_reqid r, k) \<notin> S" "k < unat (ri_nchunks r)"
  shows "open_reqs reqs (insert (ri_reqid r, k) S) =
    (if req_done r (insert (ri_reqid r, k) S) then open_reqs reqs S - {r} else open_reqs reqs S)"
    "r \<in> open_reqs reqs S"
proof -
  have "req_done q (insert (ri_reqid r, k) S) = req_done q S" if "q \<in> set reqs" "q \<noteq> r" for q
  proof -
    have "ri_reqid q \<noteq> ri_reqid r"
      using that assms(1,2) by (auto simp: distinct_map inj_on_def)
    then show ?thesis by (simp add: req_done_def)
  qed
  moreover show "r \<in> open_reqs reqs S" using assms(2-4) by (auto simp: open_reqs_def req_done_def)
  ultimately show "open_reqs reqs (insert (ri_reqid r, k) S) =
    (if req_done r (insert (ri_reqid r, k) S) then open_reqs reqs S - {r} else open_reqs reqs S)"
    by (auto simp: open_reqs_def)
qed

lemma map_update_keep:
  assumes "map_of m k = Some q" "f q' = f q"
  shows "map (\<lambda>(k, q). (k, f q)) (AList.update k q' m) = map (\<lambda>(k, q). (k, f q)) m"
  using assms by (induction m) (auto split: if_splits)

lemma rx_lookup:
  assumes "rx_tracks rt peer h reqs meta base S" "r \<in> set reqs" "base (ri_reqid r) \<noteq> 0"
  shows "\<exists>pt req. map_of (trackers rt) (peer, h) = Some pt \<and> tracks pt reqs S \<and>
    map_of (req_map pt) (ri_reqid r) = Some req \<and> rt_raddr req = base (ri_reqid r) \<and>
    Check h peer rt \<noteq> kNotFound \<and>
    GetChunkAddr h (ri_reqid r) off peer rt = base (ri_reqid r) + off \<and>
    Find h (ri_reqid r) peer rt = Inr (rt_chunks req) \<and>
    wf_ct (rt_chunks req) \<and> ct_total (rt_chunks req) = unat (ri_nchunks r) \<and>
    ct_status (rt_chunks req) = (\<lambda>k. if (ri_reqid r, k) \<in> S then kDone else kEmpty)"
proof -
  obtain pt where pt: "map_of (trackers rt) (peer, h) = Some pt" "tracks pt reqs S"
    "map (\<lambda>(k, q). (k, rt_raddr q, rt_metadata q)) (req_map pt) =
      map (\<lambda>r. (ri_reqid r, base (ri_reqid r), ri_metadata r)) reqs"
    using assms(1) by (auto simp: rx_tracks_def)
  obtain req where req: "map_of (req_map pt) (ri_reqid r) = Some req"
    "ct_total (rt_chunks req) = unat (ri_nchunks r)"
    "ct_status (rt_chunks req) = (\<lambda>k. if (ri_reqid r, k) \<in> S then kDone else kEmpty)"
    using pt(2) assms(2) unfolding tracks_def by blast
  have "wf_ct (rt_chunks req)"
    using pt(2) req(1) by (auto simp: tracks_def dest: wf_PostTrackerD)
  moreover have "rt_raddr req = base (ri_reqid r)"
  proof -
    have "(ri_reqid r, rt_raddr req, rt_metadata req) \<in>
        set (map (\<lambda>(k, q). (k, rt_raddr q, rt_metadata q)) (req_map pt))"
      using map_of_SomeD [OF req(1)] by force
    then show ?thesis unfolding pt(3) by auto
  qed
  ultimately show ?thesis
    using pt req assms(3) by (auto simp: Check_def GetChunkAddr_def Find_def)
qed

text \<open>Writing back a chunk tracker, with the chunk marked or unchanged.\<close>

lemma put_chunks_entry:
  assumes "map_of (trackers rt) (peer, h) = Some pt" "map_of (req_map pt) rid = Some req"
  shows "put_chunks h rid peer ct rt = rt\<lparr>trackers := AList.update (peer, h)
    (pt\<lparr>req_map := AList.update rid (req\<lparr>rt_chunks := ct\<rparr>) (req_map pt)\<rparr>) (trackers rt)\<rparr>"
  using assms by (simp add: put_chunks_def)

lemma put_chunks_twice:
  "put_chunks h rid peer ct' (put_chunks h rid peer ct rt) = put_chunks h rid peer ct' rt"
  by (auto simp: put_chunks_def split: option.splits)

lemma put_chunks_same:
  assumes "Find h rid peer rt = Inr ct"
  shows "put_chunks h rid peer ct rt = rt"
  using assms
  by (auto simp: put_chunks_def Find_def res_simps update_triv split: option.splits)

lemma Acquire_done:
  assumes "wf_ct t" "unat i < ct_total t" "ct_status t (unat i) = kDone"
  shows "Acquire t i = Inr (kDone, t)"
proof -
  have "Bitset_Get (chunks t) i = Inr True"
    using assms bs.get_law [OF wf_ct_simps(1) [OF assms(1)], of i]
    by (simp add: wf_ct_simps ct_status_def split: if_splits)
  with assms(1,2) show ?thesis by (simp add: Acquire_def valid_chunk wf_ct_simps)
qed

lemma OnReqComplete_receiver:
  assumes "map_of (trackers rt) (peer, h) = Some pt" "\<not> is_initiator pt" "recv_post_callback rt"
    "pending_reqs pt = of_nat (Suc n)" "Suc n < 2 ^ 64" "wf_Env e"
  shows "\<exists>e'. OnReqComplete h peer e rt = Inr (if n = 0
      then [CallRecvPost kSuccess (pt_metadata pt) (map (rt_metadata \<circ> snd) (req_map pt))] else [], e',
      rt\<lparr>trackers := AList.update (peer, h) (pt\<lparr>pending_reqs := of_nat n\<rparr>) (trackers rt)\<rparr>) \<and> wf_Env e'"
proof (cases n)
  case 0
  obtain e' where "record_since record_recv_latency (pt_start_mono_us pt) e = Inr e'" "wf_Env e'"
    using record_since_total(3) [OF assms(6)] by blast
  with 0 assms(1-4) show ?thesis
    by (simp add: OnReqComplete_def Let_def case_prod_beta comp_def)
next
  case (Suc n')
  with OnReqComplete_pending [OF assms(1)] assms(4-6) show ?thesis by simp
qed

text \<open>A new chunk of a batch: acquired, released, and reported when it is the last one.\<close>

lemma rx_new_chunk:
  assumes rx: "rx_tracks rt peer h reqs meta base S" and r: "r \<in> set reqs" "unat i < unat (ri_nchunks r)"
    and new: "(ri_reqid r, unat i) \<notin> S" and base: "base (ri_reqid r) \<noteq> 0" and e: "wf_Env e"
    and c: "hdr_handle c = h" "dh_reqid c = ri_reqid r" "dh_index c = i"
    and f: "Find h (ri_reqid r) peer rt = Inr ct"
  shows "\<exists>ct1 calls e' rt'. Acquire ct i = Inr (kEmpty, ct1) \<and>
    release_chunk ct1 c peer True e (put_chunks h (ri_reqid r) peer ct1 rt) = Inr (calls, e', rt') \<and>
    rx_tracks rt' peer h reqs meta base (insert (ri_reqid r, unat i) S) \<and> wf_Env e' \<and>
    (if covered reqs (insert (ri_reqid r, unat i) S)
     then \<exists>metas. calls = [CallRecvPost kSuccess meta metas] \<and> mset metas = mset (map ri_metadata reqs)
     else calls = [])"
proof -
  let ?S = "insert (ri_reqid r, unat i) S" and ?rid = "ri_reqid r"
  have dist: "distinct (map ri_reqid reqs)" and len: "length reqs < 2 ^ 64" and cb: "recv_post_callback rt"
    using rx by (auto simp: rx_tracks_def)
  obtain pt req where pt: "map_of (trackers rt) (peer, h) = Some pt" "tracks pt reqs S"
    "map_of (req_map pt) ?rid = Some req" "Find h ?rid peer rt = Inr (rt_chunks req)"
    "wf_ct (rt_chunks req)" "ct_total (rt_chunks req) = unat (ri_nchunks r)"
    "ct_status (rt_chunks req) = (\<lambda>k. if (?rid, k) \<in> S then kDone else kEmpty)"
    using rx_lookup [OF rx r(1) base] by blast
  have pt2: "\<not> is_initiator pt" "pt_metadata pt = meta" "pending_reqs pt = of_nat (card (open_reqs reqs S))"
    "map (\<lambda>(k, q). (k, rt_raddr q, rt_metadata q)) (req_map pt) =
      map (\<lambda>r. (ri_reqid r, base (ri_reqid r), ri_metadata r)) reqs"
    using rx pt(1) by (auto simp: rx_tracks_def)
  have ct: "ct = rt_chunks req" using f pt(4) by simp
  have "unat i < ct_total ct" "ct_status ct (unat i) = kEmpty" using ct pt(6,7) r(2) new by simp_all
  from ct.deliver [OF pt(5) [folded ct] this] obtain ct1 ct2 fin where
    ct12: "Acquire ct i = Inr (kEmpty, ct1)" "Release ct1 i True = Inr (fin, ct2)" "wf_ct ct2"
    "ct_total ct2 = ct_total ct" "ct_status ct2 = (ct_status ct)(unat i := kDone)" "fin \<longleftrightarrow> ct_IsDone ct2"
    by auto
  define pt' where "pt' = pt\<lparr>req_map := AList.update ?rid (req\<lparr>rt_chunks := ct2\<rparr>) (req_map pt)\<rparr>"
  define rt' where "rt' = rt\<lparr>trackers := AList.update (peer, h) pt' (trackers rt)\<rparr>"
  have put: "put_chunks h ?rid peer ct2 (put_chunks h ?rid peer ct1 rt) = rt'"
    using put_chunks_entry [OF pt(1,3), of ct2] by (simp only: put_chunks_twice rt'_def pt'_def)
  have tr: "tracks pt' reqs ?S"
    using tracks_mark [OF pt(2) r(1) pt(3) ct12(3) ct12(4,5) [unfolded ct]] by (simp add: pt'_def)
  have fin: "fin \<longleftrightarrow> req_done r ?S"
    using ct12(3-6) pt(6,7) ct by (auto simp: ct_IsDone_iff req_done_def)
  have metas: "map (\<lambda>(k, q). (k, rt_raddr q, rt_metadata q)) (req_map pt') =
      map (\<lambda>r. (ri_reqid r, base (ri_reqid r), ri_metadata r)) reqs"
    using map_update_keep [OF pt(3), of "\<lambda>q. (rt_raddr q, rt_metadata q)" "req\<lparr>rt_chunks := ct2\<rparr>"] pt2(4)
    by (simp add: pt'_def)
  note opn = open_reqs_insert [OF dist r(1) new r(2)]
  have fino: "finite (open_reqs reqs S)" by (simp add: open_reqs_def)
  have m0: "map_of (trackers rt') (peer, h) = Some pt'" "pending_reqs pt' = pending_reqs pt"
    "\<not> is_initiator pt'" "pt_metadata pt' = meta" "recv_post_callback rt'"
    using pt2 cb by (simp_all add: rt'_def pt'_def)
  have rel: "release_chunk ct1 c peer True e (put_chunks h ?rid peer ct1 rt) =
      (if req_done r ?S then OnReqComplete h peer e rt' else Inr ([], e, rt'))"
    using ct12(2) fin put by (simp add: release_chunk_def c Let_def)
  show ?thesis
  proof (cases "req_done r ?S")
    case False
    then have "rx_tracks rt' peer h reqs meta base ?S"
      using m0 tr metas dist len opn pt2(3) by (simp add: rx_tracks_def)
    moreover have "\<not> covered reqs ?S" using False r(1) by (auto simp: covered_def req_done_def)
    ultimately show ?thesis using rel ct12(1) e False by auto
  next
    case True
    let ?n = "card (open_reqs reqs ?S)"
    have card: "card (open_reqs reqs S) = Suc ?n"
      using opn True fino by (metis card_Suc_Diff1)
    have lt: "Suc ?n < 2 ^ 64" using card card_open_le [OF dist, of S] len by simp
    let ?pt = "pt'\<lparr>pending_reqs := of_nat ?n\<rparr>"
    let ?rt = "rt'\<lparr>trackers := AList.update (peer, h) ?pt (trackers rt')\<rparr>"
    have "pending_reqs pt' = of_nat (Suc ?n)" using m0(2) pt2(3) card by simp
    from OnReqComplete_receiver [OF m0(1,3,5) this lt e] obtain e' where
      o: "OnReqComplete h peer e rt' = Inr (if ?n = 0
        then [CallRecvPost kSuccess meta (map (rt_metadata \<circ> snd) (req_map pt'))] else [], e', ?rt)"
      "wf_Env e'"
      unfolding m0(4) by blast
    have "tracks ?pt reqs ?S" using tr by (simp add: tracks_def)
    then have "rx_tracks ?rt peer h reqs meta base ?S"
      using m0 metas dist len by (simp add: rx_tracks_def)
    moreover have "?n = 0 \<longleftrightarrow> covered reqs ?S"
      by (simp add: covered_open open_reqs_def)
    moreover have "map (rt_metadata \<circ> snd) (req_map pt') = map ri_metadata reqs"
      using arg_cong [OF metas, of "map (snd \<circ> snd)"] by (simp add: comp_def case_prod_beta)
    ultimately show ?thesis using rel True o ct12(1) by auto
  qed
qed

text \<open>A known chunk: refused, and nothing changes.\<close>

lemma rx_known_chunk:
  assumes "rx_tracks rt peer h reqs meta base S" "r \<in> set reqs" "unat i < unat (ri_nchunks r)"
    "(ri_reqid r, unat i) \<in> S" "base (ri_reqid r) \<noteq> 0" "Find h (ri_reqid r) peer rt = Inr ct"
  shows "Acquire ct i = Inr (kDone, ct)" "put_chunks h (ri_reqid r) peer ct rt = rt"
proof -
  from rx_lookup [OF assms(1,2,5)] assms(6) have "wf_ct ct" "ct_total ct = unat (ri_nchunks r)"
    "ct_status ct = (\<lambda>k. if (ri_reqid r, k) \<in> S then kDone else kEmpty)" by auto
  then show "Acquire ct i = Inr (kDone, ct)" using assms(3,4) by (intro Acquire_done) simp_all
qed (rule put_chunks_same [OF assms(6)])

text \<open>The same for a packet: what the receiver finds before it touches the channel.\<close>

definition rx_finds :: "RequestTracker \<Rightarrow> Endpoint \<Rightarrow> (ReqId \<Rightarrow> addr_t) \<Rightarrow> DataHeader \<Rightarrow> ChunkTracker \<Rightarrow> bool" where
  "rx_finds rt peer base d ct \<longleftrightarrow> \<not> IsAck d \<and> Check (hdr_handle d) peer rt \<noteq> kNotFound \<and>
     GetChunkAddr (hdr_handle d) (dh_reqid d) (dh_byte_offset d) peer rt =
       base (dh_reqid d) + dh_byte_offset d \<and>
     base (dh_reqid d) + dh_byte_offset d \<noteq> 0 \<and> Find (hdr_handle d) (dh_reqid d) peer rt = Inr ct"

lemma packet_found:
  assumes "rx_tracks rt peer h reqs meta base S" "wf_packet h reqs base (d, bs)"
  shows "\<exists>ct r. rx_finds rt peer base d ct \<and> r \<in> set reqs \<and> ri_reqid r = dh_reqid d \<and>
    unat (dh_index d) < unat (ri_nchunks r)"
proof -
  from assms(2) obtain r where r: "r \<in> set reqs" "ri_reqid r = dh_reqid d"
      "unat (dh_index d) < unat (ri_nchunks r)" and d: "base (dh_reqid d) \<noteq> 0"
    by (auto simp: wf_packet_def)
  from rx_lookup [OF assms(1) r(1), of "dh_byte_offset d"] r(2) d obtain ct where
    "Check h peer rt \<noteq> kNotFound" "Find h (dh_reqid d) peer rt = Inr ct"
    "GetChunkAddr h (dh_reqid d) (dh_byte_offset d) peer rt = base (dh_reqid d) + dh_byte_offset d"
    by auto
  moreover have "\<not> IsAck d" "hdr_handle d = h" "base (dh_reqid d) + dh_byte_offset d \<noteq> 0"
    using assms(2) IsData_valid(2) by (auto simp: wf_packet_def)
  ultimately have "rx_finds rt peer base d ct" unfolding rx_finds_def by blast
  with r show ?thesis by blast
qed

lemma packet_known:
  assumes "rx_tracks rt peer h reqs meta base S" "wf_packet h reqs base (d, bs)" "key (d, bs) \<in> S"
  shows "\<exists>ct. rx_finds rt peer base d ct \<and> Acquire ct (dh_index d) = Inr (kDone, ct) \<and>
    put_chunks (hdr_handle d) (dh_reqid d) peer ct rt = rt"
proof -
  obtain ct r where f: "rx_finds rt peer base d ct" and r: "r \<in> set reqs" "ri_reqid r = dh_reqid d"
      "unat (dh_index d) < unat (ri_nchunks r)"
    using packet_found [OF assms(1,2)] by blast
  have "hdr_handle d = h" "base (dh_reqid d) \<noteq> 0" using assms(2) by (simp_all add: wf_packet_def)
  with rx_known_chunk [OF assms(1) r(1,3), of ct] f r(2) assms(3) show ?thesis
    by (auto simp: rx_finds_def key_def)
qed

lemma packet_new:
  assumes "rx_tracks rt peer h reqs meta base S" "wf_packet h reqs base (d, bs)" "key (d, bs) \<notin> S"
    "wf_Env e"
  shows "\<exists>ct ct1 calls e' rt'. rx_finds rt peer base d ct \<and> Acquire ct (dh_index d) = Inr (kEmpty, ct1) \<and>
    release_chunk ct1 d peer True e (put_chunks (hdr_handle d) (dh_reqid d) peer ct1 rt) = Inr (calls, e', rt') \<and>
    rx_tracks rt' peer h reqs meta base (insert (key (d, bs)) S) \<and> wf_Env e' \<and>
    (if covered reqs (insert (key (d, bs)) S)
     then \<exists>metas. calls = [CallRecvPost kSuccess meta metas] \<and> mset metas = mset (map ri_metadata reqs)
     else calls = [])"
proof -
  obtain ct r where f: "rx_finds rt peer base d ct" and r: "r \<in> set reqs" "ri_reqid r = dh_reqid d"
      "unat (dh_index d) < unat (ri_nchunks r)"
    using packet_found [OF assms(1,2)] by blast
  have h: "hdr_handle d = h" "base (ri_reqid r) \<noteq> 0" using assms(2) r(2) by (simp_all add: wf_packet_def)
  have "(ri_reqid r, unat (dh_index d)) = key (d, bs)" by (simp add: key_def r(2))
  from rx_new_chunk [OF assms(1) r(1,3), unfolded this, OF assms(3) h(2) assms(4) h(1) r(2) [symmetric] refl, of ct]
  show ?thesis using f h r(2) by (auto simp: rx_finds_def)
qed

text \<open>Registering a batch of writes.\<close>

lemma rx_tracks_initial:
  assumes "map_of (trackers rt) (peer, h) = None" "list_all RequestInfo_IsValid reqs"
    "distinct (map ri_reqid reqs)" "reqs \<noteq> []" "ri_op (hd reqs) = Op_value kWrite"
    "recv_post_callback rt" "length reqs < 2 ^ 64"
    "\<forall>r \<in> set reqs. base (ri_reqid r) = resolve_addr rt meta r \<and> base (ri_reqid r) \<noteq> 0"
  shows "\<exists>rt'. Add_reqs h reqs t meta peer rt = Inr (True, [], rt') \<and>
    rx_tracks rt' peer h reqs meta base {}"
proof -
  have "\<forall>r \<in> set reqs. resolve_addr rt meta r \<noteq> 0" using assms(8) by auto
  from Add_reqs_receiver [OF assms(1-4) this assms(5)] obtain pt where
    add: "Add_reqs h reqs t meta peer rt =
      Inr (True, [], rt\<lparr>trackers := AList.update (peer, h) pt (trackers rt)\<rparr>)"
    and pt: "tracks pt reqs {}" "\<not> is_initiator pt" "pending_reqs pt = of_nat (length reqs)"
      "pt_metadata pt = meta" "req_map pt = map (req_entry rt meta) reqs"
    by blast
  have "open_reqs reqs {} = set reqs"
    using assms(2) by (auto simp: open_reqs_def req_done_def list_all_iff RequestInfo_IsValid_def word_less_nat_alt)
  then have card: "card (open_reqs reqs {}) = length reqs"
    using assms(3) by (simp add: distinct_card distinct_map)
  have "map (\<lambda>(k, q). (k, rt_raddr q, rt_metadata q)) (req_map pt) =
      map (\<lambda>r. (ri_reqid r, base (ri_reqid r), ri_metadata r)) reqs"
    using assms(8) by (simp add: pt(5) req_entry_def)
  with add pt card assms(3,6,7) show ?thesis by (simp add: rx_tracks_def)
qed

section \<open>Stream channels\<close>

definition data_wire :: "fb_abi \<Rightarrow> DataHeader \<Rightarrow> byte list" where
  "data_wire fb d = (case Serialize_Data fb d 1 of Inl _ \<Rightarrow> [] | Inr s \<Rightarrow> s)"

definition packet_wire :: "fb_abi \<Rightarrow> packet \<Rightarrow> byte list" where
  "packet_wire fb p = data_wire fb (fst p) @ snd p"

context flatbuf_structs
begin

lemma data_wire:
  assumes "DataHeader_IsValid d"
  shows "Serialize_Data fb d 1 = Inr (data_wire fb d)" "length (data_wire fb d) = kSize"
    "transfer_deserialize fb (data_wire fb d) = Inr (Some (HData d))"
  using data_roundtrip [OF assms, of DataHeader_zero HeaderBase_zero]
  by (auto simp: data_wire_def transfer_deserialize_def)

end

text \<open>The node of a receiver whose batch stands at the abstract state \<open>ms\<close>.\<close>

definition rx_node :: "'s ChannelOps \<Rightarrow> ('s \<Rightarrow> bool) \<Rightarrow> 's Node \<Rightarrow> Endpoint \<Rightarrow> Handle \<Rightarrow> RequestInfo list \<Rightarrow> Metadata \<Rightarrow>
    (ReqId \<Rightarrow> addr_t) \<Rightarrow> memory \<times> chunk_key set \<Rightarrow> bool" where
  "rx_node ops ready nd peer h reqs meta base ms \<longleftrightarrow> nd_mem nd = fst ms \<and> wf_Env (nd_env nd) \<and>
     ready (nd_ch nd) \<and> ch_GetPeer ops (nd_ch nd) = peer \<and>
     rx_tracks (nd_in nd) peer h reqs meta base (snd ms)"

fun Recvs :: "fb_abi \<Rightarrow> 's ChannelOps \<Rightarrow> int \<Rightarrow> nat \<Rightarrow> 's Node \<Rightarrow> 's RecvResult" where
  "Recvs fb ops w 0 nd = Inr (True, [], nd)"
| "Recvs fb ops w (Suc n) nd =
     rbind (Recv fb ops w nd) (\<lambda>(ok, calls, nd1).
     rbind (Recvs fb ops w n nd1) (\<lambda>(ok', calls', nd2). Inr (ok \<and> ok', calls @ calls', nd2)))"

definition deliver_all :: "(ReqId \<Rightarrow> addr_t) \<Rightarrow> packet list \<Rightarrow> memory \<times> chunk_key set \<Rightarrow> memory \<times> chunk_key set" where
  "deliver_all base ps = fold (abs_deliver base) ps"

lemma deliver_all_simps [simp]:
  "deliver_all base [] ms = ms" "deliver_all base (p # ps) ms = deliver_all base ps (abs_deliver base p ms)"
  by (simp_all add: deliver_all_def)

lemma abs_deliver_keys [simp]: "snd (abs_deliver base p ms) = insert (key p) (snd ms)"
  by (auto simp: abs_deliver_def case_prod_beta)

lemma deliver_all_keys: "snd (deliver_all base ps ms) = snd ms \<union> key ` set ps"
  by (induction ps arbitrary: ms) auto

lemma covered_mono: "covered reqs S \<Longrightarrow> S \<subseteq> T \<Longrightarrow> covered reqs T"
  unfolding covered_def by blast

text \<open>The callback the completion of a received batch makes.\<close>

definition recv_report :: "RequestInfo list \<Rightarrow> Metadata \<Rightarrow> Call list \<Rightarrow> bool" where
  "recv_report reqs meta calls \<longleftrightarrow>
     (\<exists>metas. calls = [CallRecvPost kSuccess meta metas] \<and> mset metas = mset (map ri_metadata reqs))"

definition post_wire :: "fb_abi \<Rightarrow> PostInfoHeader \<Rightarrow> RequestInfo list \<Rightarrow> byte list" where
  "post_wire fb info reqs = (case (Serialize_PostInfo fb info 1, Serialize_RequestInfos fb reqs) of
     (Inr a, Inr b) \<Rightarrow> a @ b | _ \<Rightarrow> [])"

text \<open>A batch header that matches its valid descriptors.\<close>

definition wf_batch :: "PostInfoHeader \<Rightarrow> RequestInfo list \<Rightarrow> bool" where
  "wf_batch info reqs \<longleftrightarrow> reqs \<noteq> [] \<and> opcode info = kPostInfo \<and> wf_PostInfoHeader info \<and>
     unat (hdr_len info) = length reqs * 128 \<and> distinct (map ri_reqid reqs) \<and>
     list_all (\<lambda>r. RequestInfo_IsValid r \<and> wf_RequestInfo r) reqs"

lemma wf_batch_valid:
  assumes "wf_batch info reqs"
  shows "PostInfoHeader_IsValid info"
proof -
  have "unat (hdr_len info) = length reqs * 128" "reqs \<noteq> []" "opcode info = kPostInfo"
    using assms by (simp_all add: wf_batch_def)
  then have "0 < hdr_len info" "unat (hdr_len info mod 128) = 0"
    by (simp_all add: word_less_nat_alt unat_mod)
  with \<open>opcode info = kPostInfo\<close> show ?thesis
    by (simp add: PostInfoHeader_IsValid_def IsPostInfo_def kSerializedRequestInfoSize_def unat_eq_0)
qed

lemma covered_has_packet: "wf_packet h reqs base p \<Longrightarrow> covered reqs S \<Longrightarrow> key p \<in> S"
  by (cases p) (auto simp: wf_packet_def covered_def key_def)

text \<open>An acknowledgment of a chunk of a batch.\<close>

definition wf_ack :: "Handle \<Rightarrow> RequestInfo list \<Rightarrow> DataHeader \<Rightarrow> bool" where
  "wf_ack h reqs a \<longleftrightarrow> IsAck a \<and> hdr_handle a = h \<and>
     (\<exists>r \<in> set reqs. ri_reqid r = dh_reqid a \<and> unat (dh_index a) < unat (ri_nchunks r))"

definition ack_key :: "DataHeader \<Rightarrow> chunk_key" where
  "ack_key a = (dh_reqid a, unat (dh_index a))"

lemma ack_of_packet:
  assumes "wf_packet h reqs base p" "is_ack_of a (fst p)"
  shows "wf_ack h reqs a" "ack_key a = key p"
  using assms
  by (cases p; auto simp: wf_packet_def is_ack_of_def wf_ack_def IsData_def IsAck_def ack_key_def key_def)+

lemma kSize_fits: "io_fits [kSize]"
  by (simp add: io_fits_one kSize_def)

locale stream_transfer = stream_channel ops ready inbox outbox + flatbuf_structs fb
  for ops :: "'s ChannelOps" and ready inbox outbox fb
begin

lemma send_chunk:
  assumes "ready ch" "IsData d" "unat (hdr_len d) = length bs"
  shows "\<exists>ch'. SendChunk fb ops d bs ch = Inr (True, ch') \<and> ready ch' \<and>
    outbox ch' = outbox ch @ packet_wire fb (d, bs) \<and> inbox ch' = inbox ch \<and>
    ch_GetPeer ops ch' = ch_GetPeer ops ch"
proof -
  note v = IsData_valid [OF assms(2)]
  have "valid_bufs [data_wire fb d, bs]"
    using v(3) data_wire(2) [OF v(1)] assms(3)
    by (simp add: valid_bufs_def kSize_def) (simp add: Suc_le_eq)
  moreover have "io_fits (map length [data_wire fb d, bs])"
    using data_wire(2) [OF v(1)] io_fits_u32(2) [of kSize "hdr_len d"] assms(3) by (simp add: kSize_def)
  ultimately show ?thesis
    using stream_write [OF assms(1), of "[data_wire fb d, bs]"] assms(3) v(1) data_wire(1) [OF v(1)]
    by (auto simp: SendChunk_def Data_IsMatch_def packet_wire_def)
qed

lemma send_ack:
  assumes "ready ch" "IsData d"
  shows "\<exists>ch'. sendAck fb ops (d\<lparr>dh_trace := tr\<rparr>) ch = Inr (True, ch') \<and> ready ch' \<and>
    outbox ch' = outbox ch @ data_wire fb (d\<lparr>hdr_len := 0, dh_trace := tr\<rparr>) \<and> inbox ch' = inbox ch \<and>
    ch_GetPeer ops ch' = ch_GetPeer ops ch"
proof -
  let ?a = "d\<lparr>hdr_len := 0, dh_trace := tr\<rparr>"
  note v = IsData_valid [OF assms(2)]
  have eq: "d\<lparr>dh_trace := tr, hdr_len := 0\<rparr> = ?a" by simp
  have "valid_bufs [data_wire fb ?a]"
    using data_wire(2) [OF v(5)] by (simp add: valid_bufs_def kSize_def)
  moreover have "io_fits (map length [data_wire fb ?a])"
    using data_wire(2) [OF v(5)] by (simp add: io_fits_one kSize_def)
  ultimately show ?thesis
    using stream_write [OF assms(1), of "[data_wire fb ?a]"] v(4) data_wire(1) [OF v(5)] by (auto simp: sendAck_def Let_def eq)
qed

lemma drain:
  assumes "ready ch" "n \<le> length (inbox ch)"
  shows "\<exists>ch'. drain_loop ops n ch = Inr (True, ch') \<and> ready ch' \<and> inbox ch' = drop n (inbox ch) \<and>
    outbox ch' = outbox ch \<and> ch_GetPeer ops ch' = ch_GetPeer ops ch"
  using assms
proof (induction n arbitrary: ch rule: less_induct)
  case (less n)
  show ?case
  proof (cases "n = 0")
    case True
    with less.prems show ?thesis by (simp add: drain_loop.simps)
  next
    case False
    let ?k = "min n kTmpBufSize"
    have k: "1 \<le> ?k" "?k \<le> length (inbox ch)" using False less.prems by (auto simp: kTmpBufSize_def)
    obtain ch1 where ch1: "ch_Read ops [?k] ch = Inr (int ?k, take ?k (inbox ch), ch1)" "ready ch1"
      "inbox ch1 = drop ?k (inbox ch)" "outbox ch1 = outbox ch" "ch_GetPeer ops ch1 = ch_GetPeer ops ch"
      using stream_read [OF less.prems(1) k io_fits_one] by (fastforce simp: kTmpBufSize_def)
    have "n - ?k < n" "n - ?k \<le> length (inbox ch1)"
      using False k less.prems(2) ch1(3) by (auto simp: kTmpBufSize_def)
    from less.IH [OF this(1) ch1(2) this(2)] ch1 False show ?thesis
      by (auto simp: drain_loop.simps [of ops n ch] Let_def add.commute)
  qed
qed

lemma recv_data_known:
  assumes nd: "rx_node ops ready nd peer h reqs meta base ms" and p: "wf_packet h reqs base (d, bs)"
    and ib: "inbox (nd_ch nd) = bs @ rest" and known: "key (d, bs) \<in> snd ms"
  shows "\<exists>nd' a. recvDataStream fb ops d w nd = Inr (True, [], nd') \<and>
    rx_node ops ready nd' peer h reqs meta base ms \<and> inbox (nd_ch nd') = rest \<and> is_ack_of a d \<and>
    outbox (nd_ch nd') = outbox (nd_ch nd) @ data_wire fb a \<and> nd_out nd' = nd_out nd"
proof -
  have n: "nd_mem nd = fst ms" "wf_Env (nd_env nd)" "ready (nd_ch nd)" "ch_GetPeer ops (nd_ch nd) = peer"
    "rx_tracks (nd_in nd) peer h reqs meta base (snd ms)"
    using nd by (simp_all add: rx_node_def)
  have d: "IsData d" "unat (hdr_len d) = length bs" using p by (simp_all add: wf_packet_def)
  obtain ct where ct: "rx_finds (nd_in nd) peer base d ct" "Acquire ct (dh_index d) = Inr (kDone, ct)"
    "put_chunks (hdr_handle d) (dh_reqid d) peer ct (nd_in nd) = nd_in nd"
    using packet_known [OF n(5) p known] by blast
  obtain t1 e1 t2 e2 where e: "now_if (IsTraced (dh_trace d)) (nd_env nd) = (t1, e1)"
    "now_if (IsTraced (dh_trace d)) e1 = (t2, e2)" "wf_Env e2"
    using now_if_frame n(2) by metis
  obtain ch1 where ch1: "drainStream ops (hdr_len d) (nd_ch nd) = Inr (True, ch1)" "ready ch1"
    "inbox ch1 = rest" "outbox ch1 = outbox (nd_ch nd)" "ch_GetPeer ops ch1 = peer"
    using drain [OF n(3), of "unat (hdr_len d)"] ib d(2) n(4) by (auto simp: drainStream_def)
  obtain tr e3 where st: "StampRxTrace d w kDone t1 t2 e2 = (d\<lparr>dh_trace := tr\<rparr>, e3)" "wf_Env e3"
    using StampRxTrace_frame e(3) by metis
  from send_ack [OF ch1(2) d(1)] obtain ch2 where ch2: "ready ch2" "inbox ch2 = inbox ch1"
    "sendAck fb ops (d\<lparr>dh_trace := tr\<rparr>) ch1 = Inr (True, ch2)" "ch_GetPeer ops ch2 = ch_GetPeer ops ch1"
    "outbox ch2 = outbox ch1 @ data_wire fb (d\<lparr>hdr_len := 0, dh_trace := tr\<rparr>)"
    by blast
  have "recvDataStream fb ops d w nd = Inr (True, [], nd\<lparr>nd_ch := ch2, nd_in := nd_in nd, nd_env := e3\<rparr>)"
    using ct ch1(1) st(1) ch2(3) by (simp add: recvDataStream_def rx_finds_def n(4) e(1,2) Let_def)
  then show ?thesis
    using n st(2) ch2 ch1(3-5) by (auto simp: rx_node_def is_ack_of_def)
qed

lemma recv_data_new:
  assumes nd: "rx_node ops ready nd peer h reqs meta base ms" and p: "wf_packet h reqs base (d, bs)"
    and ib: "inbox (nd_ch nd) = bs @ rest" and new: "key (d, bs) \<notin> snd ms"
  shows "\<exists>calls nd' a. recvDataStream fb ops d w nd = Inr (True, calls, nd') \<and>
    rx_node ops ready nd' peer h reqs meta base (abs_deliver base (d, bs) ms) \<and>
    inbox (nd_ch nd') = rest \<and> is_ack_of a d \<and>
    outbox (nd_ch nd') = outbox (nd_ch nd) @ data_wire fb a \<and> nd_out nd' = nd_out nd \<and>
    (if covered reqs (insert (key (d, bs)) (snd ms))
     then \<exists>metas. calls = [CallRecvPost kSuccess meta metas] \<and> mset metas = mset (map ri_metadata reqs)
     else calls = [])"
proof -
  have n: "nd_mem nd = fst ms" "wf_Env (nd_env nd)" "ready (nd_ch nd)" "ch_GetPeer ops (nd_ch nd) = peer"
    "rx_tracks (nd_in nd) peer h reqs meta base (snd ms)"
    using nd by (simp_all add: rx_node_def)
  have d: "IsData d" "unat (hdr_len d) = length bs" using p by (simp_all add: wf_packet_def)
  obtain t1 e1 t2 e2 where e: "now_if (IsTraced (dh_trace d)) (nd_env nd) = (t1, e1)"
    "now_if (IsTraced (dh_trace d)) e1 = (t2, e2)" "wf_Env e2"
    using now_if_frame n(2) by metis
  from packet_new [OF n(5) p new e(3)] obtain ct ct1 calls e3 in' where ct: "rx_finds (nd_in nd) peer base d ct"
    "Acquire ct (dh_index d) = Inr (kEmpty, ct1)"
    "release_chunk ct1 d peer True e2 (put_chunks (hdr_handle d) (dh_reqid d) peer ct1 (nd_in nd)) = Inr (calls, e3, in')"
    "rx_tracks in' peer h reqs meta base (insert (key (d, bs)) (snd ms))" "wf_Env e3"
    "if covered reqs (insert (key (d, bs)) (snd ms))
     then \<exists>metas. calls = [CallRecvPost kSuccess meta metas] \<and> mset metas = mset (map ri_metadata reqs)
     else calls = []"
    by blast
  have "1 \<le> length bs" using IsData_valid(3) [OF d(1)] d(2) by (simp add: Suc_le_eq)
  then obtain ch1 where ch1: "ch_Read ops [length bs] (nd_ch nd) = Inr (int (length bs), bs, ch1)" "ready ch1"
    "inbox ch1 = rest" "outbox ch1 = outbox (nd_ch nd)" "ch_GetPeer ops ch1 = peer"
    using stream_read [OF n(3), of "length bs"] io_fits_u32(1) [of "hdr_len d"] ib n(4) d(2) by auto
  obtain tr e4 where st: "StampRxTrace d w kEmpty t1 t2 e3 = (d\<lparr>dh_trace := tr\<rparr>, e4)" "wf_Env e4"
    using StampRxTrace_frame ct(5) by metis
  from send_ack [OF ch1(2) d(1)] obtain ch2 where ch2: "ready ch2" "inbox ch2 = inbox ch1"
    "sendAck fb ops (d\<lparr>dh_trace := tr\<rparr>) ch1 = Inr (True, ch2)" "ch_GetPeer ops ch2 = ch_GetPeer ops ch1"
    "outbox ch2 = outbox ch1 @ data_wire fb (d\<lparr>hdr_len := 0, dh_trace := tr\<rparr>)"
    by blast
  let ?nd = "nd\<lparr>nd_ch := ch2, nd_in := in', nd_env := e4,
    nd_mem := mem_write (base (dh_reqid d) + dh_byte_offset d) bs (fst ms)\<rparr>"
  have "recvDataStream fb ops d w nd = Inr (True, calls, ?nd)"
    using ct(1-3) ch1(1) st(1) ch2(3) by (simp add: recvDataStream_def rx_finds_def d(2) n(1,4) e(1,2) Let_def)
  moreover have "rx_node ops ready ?nd peer h reqs meta base (abs_deliver base (d, bs) ms)"
    using new ct(4) st(2) ch2(1,4) ch1(5) by (simp add: rx_node_def abs_deliver_def case_prod_beta)
  ultimately show ?thesis
    using ct(6) ch2(2,5) ch1(3,4) by (auto simp: is_ack_of_def)
qed

text \<open>Reading a header and dispatching on it.\<close>

lemma recv_header:
  assumes "ready (nd_ch nd)" "DataHeader_IsValid d" "inbox (nd_ch nd) = data_wire fb d @ rest"
  shows "\<exists>ch1. Recv fb ops w nd = recvDataStream fb ops d w (nd\<lparr>nd_ch := ch1\<rparr>) \<and> ready ch1 \<and>
    inbox ch1 = rest \<and> outbox ch1 = outbox (nd_ch nd) \<and> ch_GetPeer ops ch1 = ch_GetPeer ops (nd_ch nd)"
proof -
  note wire = data_wire [OF assms(2)]
  have "1 \<le> kSize" "kSize \<le> length (inbox (nd_ch nd))"
    using assms(3) wire(2) by (simp_all add: kSize_def)
  from stream_read [OF assms(1) this kSize_fits] obtain ch1 where
    "ch_Read ops [kSize] (nd_ch nd) = Inr (int kSize, data_wire fb d, ch1)" "ready ch1" "inbox ch1 = rest"
    "outbox ch1 = outbox (nd_ch nd)" "ch_GetPeer ops ch1 = ch_GetPeer ops (nd_ch nd)"
    using assms(3) wire(2) by auto
  then show ?thesis
    using wire(3) by (auto simp: Recv_def recvStream_def stream_type Let_def)
qed

text \<open>
  One call of \<^verbatim>\<open>Recv\<close> on a packet is one step of the abstract receiver.
\<close>

lemma recv_packet:
  assumes "rx_node ops ready nd peer h reqs meta base ms" "wf_packet h reqs base p"
    "inbox (nd_ch nd) = packet_wire fb p @ rest"
  shows "\<exists>calls nd' a. Recv fb ops w nd = Inr (True, calls, nd') \<and>
    rx_node ops ready nd' peer h reqs meta base (abs_deliver base p ms) \<and>
    inbox (nd_ch nd') = rest \<and> is_ack_of a (fst p) \<and>
    outbox (nd_ch nd') = outbox (nd_ch nd) @ data_wire fb a \<and> nd_out nd' = nd_out nd \<and>
    (if key p \<notin> snd ms \<and> covered reqs (insert (key p) (snd ms))
     then \<exists>metas. calls = [CallRecvPost kSuccess meta metas] \<and> mset metas = mset (map ri_metadata reqs)
     else calls = [])"
proof -
  obtain d bs where p: "p = (d, bs)" by (cases p)
  have "IsData d" using assms(2) by (simp add: wf_packet_def p)
  note v = IsData_valid(1) [OF this]
  have "ready (nd_ch nd)" "inbox (nd_ch nd) = data_wire fb d @ bs @ rest"
    using assms(1,3) by (simp_all add: packet_wire_def p rx_node_def)
  from recv_header [OF this(1) v this(2), of w] obtain ch1 where
    rec: "Recv fb ops w nd = recvDataStream fb ops d w (nd\<lparr>nd_ch := ch1\<rparr>)" and
    ch1: "ready ch1" "inbox ch1 = bs @ rest" "outbox ch1 = outbox (nd_ch nd)"
      "ch_GetPeer ops ch1 = ch_GetPeer ops (nd_ch nd)"
    by blast
  let ?nd = "nd\<lparr>nd_ch := ch1\<rparr>"
  have nd: "rx_node ops ready ?nd peer h reqs meta base ms" "inbox (nd_ch ?nd) = bs @ rest"
    using assms(1) ch1 by (simp_all add: rx_node_def)
  show ?thesis
  proof (cases "key p \<in> snd ms")
    case True
    then have "abs_deliver base p ms = ms" by (simp add: abs_deliver_def case_prod_beta)
    with True recv_data_known [OF nd(1) assms(2) [unfolded p] nd(2), of w] ch1(3) show ?thesis
      unfolding rec p by (auto simp: p)
  next
    case False
    with recv_data_new [OF nd(1) assms(2) [unfolded p] nd(2), of w] ch1(3) show ?thesis
      unfolding rec p by (auto simp: p)
  qed
qed

lemma recv_packets:
  assumes "rx_node ops ready nd peer h reqs meta base ms" "list_all (wf_packet h reqs base) ps"
    "inbox (nd_ch nd) = concat (map (packet_wire fb) ps) @ rest"
  shows "\<exists>calls nd' acks. Recvs fb ops w (length ps) nd = Inr (True, calls, nd') \<and>
    rx_node ops ready nd' peer h reqs meta base (deliver_all base ps ms) \<and>
    inbox (nd_ch nd') = rest \<and> list_all2 is_ack_of acks (map fst ps) \<and>
    outbox (nd_ch nd') = outbox (nd_ch nd) @ concat (map (data_wire fb) acks) \<and> nd_out nd' = nd_out nd \<and>
    (if \<not> covered reqs (snd ms) \<and> covered reqs (snd ms \<union> key ` set ps)
     then recv_report reqs meta calls else calls = [])"
  using assms
proof (induction ps arbitrary: nd ms)
  case (Cons p ps)
  from Cons.prems(2,3) have p: "wf_packet h reqs base p"
    "inbox (nd_ch nd) = packet_wire fb p @ concat (map (packet_wire fb) ps) @ rest" by simp_all
  from recv_packet [OF Cons.prems(1) this, of w] obtain calls nd1 a where 1: "Recv fb ops w nd = Inr (True, calls, nd1)"
    "rx_node ops ready nd1 peer h reqs meta base (abs_deliver base p ms)"
    "inbox (nd_ch nd1) = concat (map (packet_wire fb) ps) @ rest" "is_ack_of a (fst p)"
    "outbox (nd_ch nd1) = outbox (nd_ch nd) @ data_wire fb a" "nd_out nd1 = nd_out nd"
    "if key p \<notin> snd ms \<and> covered reqs (insert (key p) (snd ms)) then recv_report reqs meta calls else calls = []"
    unfolding recv_report_def by blast
  have "list_all (wf_packet h reqs base) ps" using Cons.prems(2) by simp
  from Cons.IH [OF 1(2) this 1(3)] obtain calls' nd2 acks where 2: "Recvs fb ops w (length ps) nd1 = Inr (True, calls', nd2)"
    "rx_node ops ready nd2 peer h reqs meta base (deliver_all base (p # ps) ms)"
    "inbox (nd_ch nd2) = rest" "list_all2 is_ack_of acks (map fst ps)"
    "outbox (nd_ch nd2) = outbox (nd_ch nd1) @ concat (map (data_wire fb) acks)" "nd_out nd2 = nd_out nd1"
    "if \<not> covered reqs (insert (key p) (snd ms)) \<and> covered reqs (insert (key p) (snd ms) \<union> key ` set ps)
     then recv_report reqs meta calls' else calls' = []"
    by auto
  have c: "covered reqs (snd ms) \<Longrightarrow> covered reqs (insert (key p) (snd ms))"
    "covered reqs (insert (key p) (snd ms)) \<Longrightarrow> covered reqs (snd ms \<union> key ` set (p # ps))"
    "snd ms \<union> key ` set (p # ps) = insert (key p) (snd ms) \<union> key ` set ps"
    "key p \<in> snd ms \<Longrightarrow> insert (key p) (snd ms) = snd ms"
    "covered reqs (snd ms) \<Longrightarrow> covered reqs (insert (key p) (snd ms) \<union> key ` set ps)"
    "covered reqs (snd ms) \<Longrightarrow> key p \<in> snd ms"
    by (auto elim: covered_mono covered_has_packet [OF p(1)])
  have "if \<not> covered reqs (snd ms) \<and> covered reqs (snd ms \<union> key ` set (p # ps))
     then recv_report reqs meta (calls @ calls') else calls @ calls' = []"
    using 1(7) 2(7) c by (cases "key p \<in> snd ms"; cases "covered reqs (snd ms)";
        cases "covered reqs (insert (key p) (snd ms))") (auto simp: recv_report_def)
  with 1(1,4-6) 2(1-6) show ?case by (intro exI [of _ "calls @ calls'"] exI [of _ nd2] exI [of _ "a # acks"]) simp
qed simp

lemma post_wire:
  assumes "wf_batch info reqs"
  shows "\<exists>a b. post_wire fb info reqs = a @ b \<and> Serialize_PostInfo fb info 1 = Inr a \<and> length a = kSize \<and>
    transfer_deserialize fb a = Inr (Some (HPostInfo info)) \<and> Serialize_RequestInfos fb reqs = Inr b \<and>
    length b = unat (hdr_len info) \<and> length reqs * 128 = length b \<and> Deserialize_RequestInfos fb b [] = (True, reqs)"
proof -
  have wf: "wf_PostInfoHeader info" using assms by (simp add: wf_batch_def)
  obtain a where a: "Serialize_PostInfo fb info 1 = Inr a" "length a = kSize"
    "Deserialize_PostInfo fb a PostInfoHeader_zero = Inr (True, info)"
    "Deserialize_Base fb a HeaderBase_zero = Inr (True, HeaderBase.truncate info)"
    using post_roundtrip [OF wf_batch_valid [OF assms] wf] by blast
  obtain b where b: "Serialize_RequestInfos fb reqs = Inr b" "length b = length reqs * kRequestInfoSize"
    "Deserialize_RequestInfos fb b [] = (True, reqs)"
    using reqs_roundtrip [of reqs "[]"] assms by (auto simp: wf_batch_def)
  obtain d where "Deserialize_Data fb a DataHeader_zero = Inr (False, d)"
    using post_not_data [OF a(3)] by blast
  then show ?thesis
    using a b assms by (simp add: post_wire_def transfer_deserialize_def wf_batch_def kRequestInfoSize_def)
qed

lemma send_info:
  assumes "ready ch" "wf_batch info reqs"
  shows "\<exists>ch'. SendInfo fb ops info reqs ch = Inr (True, ch') \<and> ready ch' \<and>
    outbox ch' = outbox ch @ post_wire fb info reqs \<and> inbox ch' = inbox ch \<and>
    ch_GetPeer ops ch' = ch_GetPeer ops ch"
proof -
  obtain a b where w: "post_wire fb info reqs = a @ b" "Serialize_PostInfo fb info 1 = Inr a" "length a = kSize"
    "Serialize_RequestInfos fb reqs = Inr b" "length b = unat (hdr_len info)" "length reqs * 128 = length b"
    using post_wire [OF assms(2)] by blast
  have "reqs \<noteq> []" using assms(2) by (simp add: wf_batch_def)
  then have "1 \<le> length reqs * 128" by (cases reqs) simp_all
  then have "valid_bufs [a, b]" using w(3,6) by (simp add: valid_bufs_def kSize_def)
  moreover have "io_fits (map length [a, b])"
    using w(3,5) io_fits_u32(2) [of kSize "hdr_len info"] by (simp add: kSize_def)
  ultimately show ?thesis
    using stream_write [OF assms(1), of "[a, b]"] w wf_batch_valid [OF assms(2)] \<open>reqs \<noteq> []\<close>
    by (auto simp: SendInfo_def PostInfo_IsMatch_def)
qed

text \<open>Reading a batch header and its descriptors ends in the tracker's \<^verbatim>\<open>Add\<close>.\<close>

lemma recv_post:
  assumes nd: "ready (nd_ch nd)" "wf_Env (nd_env nd)" "inbox (nd_ch nd) = post_wire fb info reqs @ rest"
    and info: "wf_batch info reqs" "HasNonzeroIpPort (pi_peer info) \<or> ch_GetPeer ops (nd_ch nd) = pi_peer info"
  shows "\<exists>t e1 ch. Recv fb ops w nd =
      rbind (Add_reqs (hdr_handle info) reqs t (pi_metadata info) (pi_peer info) (nd_in nd))
        (\<lambda>(added, calls, in1). Inr (added, calls, nd\<lparr>nd_env := e1, nd_ch := ch, nd_in := in1\<rparr>)) \<and>
    wf_Env e1 \<and> ready ch \<and> inbox ch = rest \<and> outbox ch = outbox (nd_ch nd) \<and> ch_GetPeer ops ch = pi_peer info"
proof -
  obtain a b where w: "post_wire fb info reqs = a @ b" "length a = kSize"
    "transfer_deserialize fb a = Inr (Some (HPostInfo info))" "length b = unat (hdr_len info)"
    "length reqs * 128 = length b" "Deserialize_RequestInfos fb b [] = (True, reqs)"
    using post_wire [OF info(1)] by blast
  have "1 \<le> kSize" "kSize \<le> length (inbox (nd_ch nd))" using nd(3) w(1,2) by (simp_all add: kSize_def)
  from stream_read [OF nd(1) this kSize_fits] obtain ch1 where ch1: "ch_Read ops [kSize] (nd_ch nd) = Inr (int kSize, a, ch1)"
    "ready ch1" "inbox ch1 = b @ rest" "outbox ch1 = outbox (nd_ch nd)" "ch_GetPeer ops ch1 = ch_GetPeer ops (nd_ch nd)"
    using nd(3) w(1,2) by auto
  have "reqs \<noteq> []" using info(1) by (simp add: wf_batch_def)
  then have "1 \<le> length b" using w(4,5) by (cases reqs; simp)
  with stream_read [OF ch1(2), of "length b"] io_fits_u32(1) [of "hdr_len info"] w(4) ch1 obtain ch2 where ch2: "ch_Read ops [length b] ch1 = Inr (int (length b), b, ch2)"
    "ready ch2" "inbox ch2 = rest" "outbox ch2 = outbox (nd_ch nd)" "ch_GetPeer ops ch2 = ch_GetPeer ops (nd_ch nd)"
    by auto
  obtain t e1 where e1: "MonoNowUs (nd_env nd) = (t, e1)" "wf_Env e1"
    using nd(2) by (auto simp: MonoNowUs_def wf_Env_def)
  let ?ch = "if HasNonzeroIpPort (pi_peer info) then ch_SetPeer ops (pi_peer info) ch2 else ch2"
  have "ready ?ch" "inbox ?ch = rest" "outbox ?ch = outbox (nd_ch nd)" "ch_GetPeer ops ?ch = pi_peer info"
    using ch2 info(2) by (auto simp: set_peer set_peer_ready stream_peer)
  moreover have "Recv fb ops w nd =
      rbind (Add_reqs (hdr_handle info) reqs t (pi_metadata info) (pi_peer info) (nd_in nd))
        (\<lambda>(added, calls, in1). Inr (added, calls, nd\<lparr>nd_env := e1, nd_ch := ?ch, nd_in := in1\<rparr>))"
    using ch1(1) ch2(1) e1(1) w(3,4,6)
    by (simp add: Recv_def recvStream_def stream_type recvPostInfoStream_def Let_def)
  ultimately show ?thesis using e1(2) by blast
qed

text \<open>Receiving a batch header registers the batch, with no chunk received yet.\<close>

lemma recv_batch:
  assumes nd: "ready (nd_ch nd)" "wf_Env (nd_env nd)" "inbox (nd_ch nd) = post_wire fb info reqs @ rest"
    and info: "wf_batch info reqs" "HasNonzeroIpPort (pi_peer info) \<or> ch_GetPeer ops (nd_ch nd) = pi_peer info"
    and rt: "map_of (trackers (nd_in nd)) (pi_peer info, hdr_handle info) = None"
      "recv_post_callback (nd_in nd)" "ri_op (hd reqs) = Op_value kWrite"
    and base: "\<forall>r \<in> set reqs. base (ri_reqid r) = resolve_addr (nd_in nd) (pi_metadata info) r \<and> base (ri_reqid r) \<noteq> 0"
  shows "\<exists>nd'. Recv fb ops w nd = Inr (True, [], nd') \<and>
    rx_node ops ready nd' (pi_peer info) (hdr_handle info) reqs (pi_metadata info) base (nd_mem nd, {}) \<and>
    inbox (nd_ch nd') = rest \<and> outbox (nd_ch nd') = outbox (nd_ch nd) \<and> nd_out nd' = nd_out nd"
proof -
  from recv_post [OF nd info, of w] obtain t e1 ch where
    r: "Recv fb ops w nd =
      rbind (Add_reqs (hdr_handle info) reqs t (pi_metadata info) (pi_peer info) (nd_in nd))
        (\<lambda>(added, calls, in1). Inr (added, calls, nd\<lparr>nd_env := e1, nd_ch := ch, nd_in := in1\<rparr>))"
    and ch: "wf_Env e1" "ready ch" "inbox ch = rest" "outbox ch = outbox (nd_ch nd)" "ch_GetPeer ops ch = pi_peer info"
    by blast
  have reqs: "reqs \<noteq> []" "list_all RequestInfo_IsValid reqs" "distinct (map ri_reqid reqs)"
    "unat (hdr_len info) = length reqs * 128"
    using info(1) by (auto simp: wf_batch_def list_all_iff)
  then have "length reqs < 2 ^ 64" using unat_u32_less [of "hdr_len info"] by simp
  from rx_tracks_initial [OF rt(1) reqs(2,3,1) rt(3,2) this base, of t] r ch show ?thesis
    by (auto simp: rx_node_def)
qed

text \<open>
  The header of a batch that is registered already, on another channel, changes no tracker.
\<close>

lemma recv_batch_again:
  assumes nd: "ready (nd_ch nd)" "wf_Env (nd_env nd)" "inbox (nd_ch nd) = post_wire fb info reqs @ rest"
    and info: "wf_batch info reqs" "HasNonzeroIpPort (pi_peer info)"
    and rx: "rx_tracks (nd_in nd) (pi_peer info) (hdr_handle info) reqs (pi_metadata info) base S"
  shows "\<exists>nd'. Recv fb ops w nd = Inr (True, [], nd') \<and>
    rx_node ops ready nd' (pi_peer info) (hdr_handle info) reqs (pi_metadata info) base (nd_mem nd, S) \<and>
    inbox (nd_ch nd') = rest \<and> outbox (nd_ch nd') = outbox (nd_ch nd) \<and> nd_out nd' = nd_out nd"
proof -
  obtain pt where pt: "map_of (trackers (nd_in nd)) (pi_peer info, hdr_handle info) = Some pt"
    "map (\<lambda>(k, q). (k, rt_raddr q, rt_metadata q)) (req_map pt) =
      map (\<lambda>r. (ri_reqid r, base (ri_reqid r), ri_metadata r)) reqs"
    using rx by (auto simp: rx_tracks_def)
  have "reqs \<noteq> []" using info(1) by (simp add: wf_batch_def)
  with pt(2) have "req_map pt \<noteq> []" by auto
  with pt(1) \<open>reqs \<noteq> []\<close>
  have "Add_reqs (hdr_handle info) reqs t (pi_metadata info) (pi_peer info) (nd_in nd) = Inr (True, [], nd_in nd)" for t
    by (simp add: Add_reqs_def)
  with recv_post [OF nd info(1), of w] info(2) rx show ?thesis by (fastforce simp: rx_node_def)
qed

text \<open>Acknowledgments, on the side that sent the batch.\<close>

lemma recv_ack:
  assumes "ready (nd_ch nd)" "wf_ack h reqs a" "inbox (nd_ch nd) = data_wire fb a @ rest"
    "Update h (dh_reqid a) (dh_index a) w Endpoint_default (RecordTxAckRcvd a (nd_env nd)) (nd_out nd) =
      Inr (calls, e, out)"
  shows "\<exists>ch1. Recv fb ops w nd = Inr (True, calls, nd\<lparr>nd_ch := ch1, nd_env := e, nd_out := out\<rparr>) \<and>
    ready ch1 \<and> inbox ch1 = rest \<and> outbox ch1 = outbox (nd_ch nd)"
proof -
  have a: "IsAck a" "hdr_handle a = h" using assms(2) by (simp_all add: wf_ack_def)
  then have "DataHeader_IsValid a" by (simp add: DataHeader_IsValid_def)
  from recv_header [OF assms(1) this assms(3), of w] a assms(4) show ?thesis
    by (auto simp: recvDataStream_def recvAck_def)
qed

lemma recv_acks_gone:
  assumes "ready (nd_ch nd)" "list_all (wf_ack h reqs) acks" "wf_Env (nd_env nd)"
    "inbox (nd_ch nd) = concat (map (data_wire fb) acks) @ rest"
    "map_of (trackers (nd_out nd)) (Endpoint_default, h) = None"
  shows "\<exists>nd'. Recvs fb ops w (length acks) nd = Inr (True, [], nd') \<and> nd_out nd' = nd_out nd"
  using assms
proof (induction acks arbitrary: nd)
  case (Cons a acks)
  let ?e = "RecordTxAckRcvd a (nd_env nd)"
  have "Update h (dh_reqid a) (dh_index a) w Endpoint_default ?e (nd_out nd) = Inr ([], ?e, nd_out nd)"
    using Cons.prems(5) by (simp add: Update_def)
  with recv_ack [OF Cons.prems(1), of h reqs a _ w] Cons.prems(2,4) obtain ch1 where
    1: "Recv fb ops w nd = Inr (True, [], nd\<lparr>nd_ch := ch1, nd_env := ?e, nd_out := nd_out nd\<rparr>)"
    "ready ch1" "inbox ch1 = concat (map (data_wire fb) acks) @ rest" by auto
  with Cons.IH [of "nd\<lparr>nd_ch := ch1, nd_env := ?e, nd_out := nd_out nd\<rparr>"] Cons.prems show ?case
    by (auto simp: wf_Env_def)
qed simp

lemma recv_acks:
  assumes "ready (nd_ch nd)" "list_all (wf_ack h reqs) acks" "wf_Env (nd_env nd)"
    "inbox (nd_ch nd) = concat (map (data_wire fb) acks) @ rest"
    "map_of (trackers (nd_out nd)) (Endpoint_default, h) = Some pt" "tracks pt reqs S" "reqs \<noteq> []"
    "pt_on_complete pt = Some cb" "\<not> covered reqs S"
  shows "\<exists>calls nd'. Recvs fb ops w (length acks) nd = Inr (True, calls, nd') \<and>
    (if covered reqs (S \<union> ack_key ` set acks)
     then calls = [CallComplete cb kSuccess, CallbackDone (pt_trace_ctx pt) h w] \<and>
       Check h Endpoint_default (nd_out nd') = kNotFound
     else calls = [] \<and> Check h Endpoint_default (nd_out nd') = kInProgress)"
  using assms
proof (induction acks arbitrary: nd pt S)
  case Nil
  then show ?case by (simp add: Check_def isComplete_tracks)
next
  case (Cons a acks)
  let ?e = "RecordTxAckRcvd a (nd_env nd)" and ?S = "insert (ack_key a) S"
  have e: "wf_Env ?e" using Cons.prems(3) by (simp add: wf_Env_def)
  obtain r where r: "r \<in> set reqs" "ri_reqid r = dh_reqid a" "unat (dh_index a) < unat (ri_nchunks r)"
    using Cons.prems(2) by (auto simp: wf_ack_def)
  have S: "S \<union> ack_key ` set (a # acks) = ?S \<union> ack_key ` set acks" by auto
  from Update_tracks [OF Cons.prems(5-7) r(1,3) Cons.prems(8) e, of w] obtain calls e' out where
    u: "Update h (dh_reqid a) (dh_index a) w Endpoint_default ?e (nd_out nd) = Inr (calls, e', out)" "wf_Env e'"
    "calls = (if covered reqs ?S then [CallComplete cb kSuccess, CallbackDone (pt_trace_ctx pt) h w] else [])"
    "if covered reqs ?S then map_of (trackers out) (Endpoint_default, h) = None
     else \<exists>pt'. map_of (trackers out) (Endpoint_default, h) = Some pt' \<and> tracks pt' reqs ?S \<and>
       pt_on_complete pt' = Some cb \<and> pt_trace_ctx pt' = pt_trace_ctx pt"
    unfolding ack_key_def r(2) by blast
  from recv_ack [OF Cons.prems(1) _ _ u(1)] Cons.prems(2,4) obtain ch1 where
    1: "Recv fb ops w nd = Inr (True, calls, nd\<lparr>nd_ch := ch1, nd_env := e', nd_out := out\<rparr>)"
    "ready ch1" "inbox ch1 = concat (map (data_wire fb) acks) @ rest" by auto
  let ?nd = "nd\<lparr>nd_ch := ch1, nd_env := e', nd_out := out\<rparr>"
  have acks: "list_all (wf_ack h reqs) acks" using Cons.prems(2) by simp
  have nd: "ready (nd_ch ?nd)" "wf_Env (nd_env ?nd)" "inbox (nd_ch ?nd) = concat (map (data_wire fb) acks) @ rest"
    using 1 u(2) by simp_all
  show ?case
  proof (cases "covered reqs ?S")
    case True
    then have "covered reqs (?S \<union> ack_key ` set acks)" by (rule covered_mono) auto
    with True recv_acks_gone [OF nd(1) acks nd(2,3), of w] 1(1) u(3,4) show ?thesis
      unfolding S by (auto simp: Check_def)
  next
    case False
    then obtain pt' where pt': "map_of (trackers (nd_out ?nd)) (Endpoint_default, h) = Some pt'" "tracks pt' reqs ?S"
      "pt_on_complete pt' = Some cb" "pt_trace_ctx pt' = pt_trace_ctx pt"
      using u(4) by auto
    from Cons.IH [OF nd(1) acks nd(2,3) pt'(1,2) Cons.prems(7) pt'(3) False] 1(1) u(3) False pt'(4)
    show ?thesis unfolding S by (auto split: if_splits)
  qed
qed

text \<open>Packets for nobody, and packets with a chunk number the request does not have.\<close>

lemma recv_unknown:
  assumes "ready (nd_ch nd)" "IsData d" "unat (hdr_len d) = length bs"
    "inbox (nd_ch nd) = packet_wire fb (d, bs) @ rest"
    "Check (hdr_handle d) (ch_GetPeer ops (nd_ch nd)) (nd_in nd) = kNotFound \<or>
     GetChunkAddr (hdr_handle d) (dh_reqid d) (dh_byte_offset d) (ch_GetPeer ops (nd_ch nd)) (nd_in nd) = 0"
  shows "\<exists>nd'. Recv fb ops w nd = Inr (False, [], nd') \<and> ready (nd_ch nd') \<and> inbox (nd_ch nd') = rest \<and>
    outbox (nd_ch nd') = outbox (nd_ch nd) \<and> nd_mem nd' = nd_mem nd \<and> nd_in nd' = nd_in nd \<and> nd_out nd' = nd_out nd"
proof -
  note v = IsData_valid [OF assms(2)]
  from recv_header [OF assms(1) v(1), of "bs @ rest" w] assms(4) obtain ch1 where
    1: "Recv fb ops w nd = recvDataStream fb ops d w (nd\<lparr>nd_ch := ch1\<rparr>)" "ready ch1" "inbox ch1 = bs @ rest"
      "outbox ch1 = outbox (nd_ch nd)" "ch_GetPeer ops ch1 = ch_GetPeer ops (nd_ch nd)"
    by (auto simp: packet_wire_def)
  obtain ch2 where ch2: "drainStream ops (hdr_len d) ch1 = Inr (True, ch2)" "ready ch2" "inbox ch2 = rest"
    "outbox ch2 = outbox ch1"
    using drain [OF 1(2), of "unat (hdr_len d)"] 1(3) assms(3) by (auto simp: drainStream_def)
  show ?thesis
    unfolding 1(1) using v(2) assms(5) ch2 1(4,5)
    by (auto simp: recvDataStream_def Let_def split: prod.split)
qed

lemma recv_bad_index:
  assumes "ready (nd_ch nd)" "IsData d" "inbox (nd_ch nd) = packet_wire fb (d, bs) @ rest"
    "rx_finds (nd_in nd) (ch_GetPeer ops (nd_ch nd)) base d ct" "ct_total ct \<le> unat (dh_index d)"
  shows "Recv fb ops w nd = Inl DcheckFailed"
proof -
  have "Acquire ct (dh_index d) = Inl DcheckFailed" using assms(5) by (simp add: Acquire_def valid_chunk)
  with recv_header [OF assms(1) IsData_valid(1) [OF assms(2)], of "bs @ rest" w] assms(3,4) show ?thesis
    by (auto simp: packet_wire_def recvDataStream_def rx_finds_def Let_def split: prod.split)
qed

end

section \<open>Message channels\<close>

locale message_transfer = message_channel ops ready msgs_in msgs_out + flatbuf_structs fb
  for ops :: "'s ChannelOps" and ready msgs_in msgs_out fb
begin

lemma msg_send_chunk:
  assumes "ready ch" "IsData d" "unat (hdr_len d) = length bs"
  shows "\<exists>ch'. SendChunk fb ops d bs ch = Inr (True, ch') \<and> ready ch' \<and>
    msgs_out ch' = msgs_out ch @ [packet_wire fb (d, bs)] \<and> msgs_in ch' = msgs_in ch \<and>
    ch_GetPeer ops ch' = ch_GetPeer ops ch"
proof -
  note v = IsData_valid [OF assms(2)]
  have "valid_bufs [data_wire fb d, bs]"
    using v(3) data_wire(2) [OF v(1)] assms(3)
    by (simp add: valid_bufs_def kSize_def) (simp add: Suc_le_eq)
  from msg_write [OF assms(1) this] show ?thesis
    using assms(3) v(1) data_wire(1) [OF v(1)]
    by (auto simp: SendChunk_def Data_IsMatch_def packet_wire_def)
qed

lemma msg_send_ack:
  assumes "ready ch" "IsData d"
  shows "\<exists>ch'. sendAck fb ops (d\<lparr>dh_trace := tr\<rparr>) ch = Inr (True, ch') \<and> ready ch' \<and>
    msgs_out ch' = msgs_out ch @ [data_wire fb (d\<lparr>hdr_len := 0, dh_trace := tr\<rparr>)] \<and>
    msgs_in ch' = msgs_in ch \<and> ch_GetPeer ops ch' = ch_GetPeer ops ch"
proof -
  let ?a = "d\<lparr>hdr_len := 0, dh_trace := tr\<rparr>"
  note v = IsData_valid [OF assms(2)]
  have eq: "d\<lparr>dh_trace := tr, hdr_len := 0\<rparr> = ?a" by simp
  have "valid_bufs [data_wire fb ?a]"
    using data_wire(2) [OF v(5)] by (simp add: valid_bufs_def kSize_def)
  from msg_write [OF assms(1) this] show ?thesis
    using v(4) data_wire(1) [OF v(5)] by (auto simp: sendAck_def Let_def eq)
qed

lemma msg_recv_data_known:
  assumes nd: "rx_node ops ready nd peer h reqs meta base ms" and p: "wf_packet h reqs base (d, bs)"
    and known: "key (d, bs) \<in> snd ms"
  shows "\<exists>nd' a. recvDataMsg fb ops d bs w nd = Inr (True, [], nd') \<and>
    rx_node ops ready nd' peer h reqs meta base ms \<and> is_ack_of a d \<and>
    msgs_in (nd_ch nd') = msgs_in (nd_ch nd) \<and>
    msgs_out (nd_ch nd') = msgs_out (nd_ch nd) @ [data_wire fb a] \<and> nd_out nd' = nd_out nd"
proof -
  have n: "nd_mem nd = fst ms" "wf_Env (nd_env nd)" "ready (nd_ch nd)" "ch_GetPeer ops (nd_ch nd) = peer"
    "rx_tracks (nd_in nd) peer h reqs meta base (snd ms)"
    using nd by (simp_all add: rx_node_def)
  have d: "IsData d" "unat (hdr_len d) = length bs" using p by (simp_all add: wf_packet_def)
  obtain ct where ct: "rx_finds (nd_in nd) peer base d ct" "Acquire ct (dh_index d) = Inr (kDone, ct)"
    "put_chunks (hdr_handle d) (dh_reqid d) peer ct (nd_in nd) = nd_in nd"
    using packet_known [OF n(5) p known] by blast
  obtain t1 e1 t2 e2 where e: "now_if (IsTraced (dh_trace d)) (nd_env nd) = (t1, e1)"
    "now_if (IsTraced (dh_trace d)) e1 = (t2, e2)" "wf_Env e2"
    using now_if_frame n(2) by metis
  obtain tr e3 where st: "StampRxTrace d w kDone t1 t2 e2 = (d\<lparr>dh_trace := tr\<rparr>, e3)" "wf_Env e3"
    using StampRxTrace_frame e(3) by metis
  from msg_send_ack [OF n(3) d(1)] obtain ch2 where ch2: "ready ch2" "msgs_in ch2 = msgs_in (nd_ch nd)"
    "sendAck fb ops (d\<lparr>dh_trace := tr\<rparr>) (nd_ch nd) = Inr (True, ch2)" "ch_GetPeer ops ch2 = peer"
    "msgs_out ch2 = msgs_out (nd_ch nd) @ [data_wire fb (d\<lparr>hdr_len := 0, dh_trace := tr\<rparr>)]"
    using n(4) by blast
  have "recvDataMsg fb ops d bs w nd = Inr (True, [], nd\<lparr>nd_ch := ch2, nd_in := nd_in nd, nd_env := e3\<rparr>)"
    using ct st(1) ch2(3) d(2) IsData_valid(1) [OF d(1)]
    by (simp add: recvDataMsg_def Data_IsMatch_def rx_finds_def n(4) e(1,2) Let_def)
  then show ?thesis using n st(2) ch2 by (auto simp: rx_node_def is_ack_of_def)
qed

lemma msg_recv_data_new:
  assumes nd: "rx_node ops ready nd peer h reqs meta base ms" and p: "wf_packet h reqs base (d, bs)"
    and new: "key (d, bs) \<notin> snd ms"
  shows "\<exists>calls nd' a. recvDataMsg fb ops d bs w nd = Inr (True, calls, nd') \<and>
    rx_node ops ready nd' peer h reqs meta base (abs_deliver base (d, bs) ms) \<and> is_ack_of a d \<and>
    msgs_in (nd_ch nd') = msgs_in (nd_ch nd) \<and>
    msgs_out (nd_ch nd') = msgs_out (nd_ch nd) @ [data_wire fb a] \<and> nd_out nd' = nd_out nd \<and>
    (if covered reqs (insert (key (d, bs)) (snd ms)) then recv_report reqs meta calls else calls = [])"
proof -
  have n: "nd_mem nd = fst ms" "wf_Env (nd_env nd)" "ready (nd_ch nd)" "ch_GetPeer ops (nd_ch nd) = peer"
    "rx_tracks (nd_in nd) peer h reqs meta base (snd ms)"
    using nd by (simp_all add: rx_node_def)
  have d: "IsData d" "unat (hdr_len d) = length bs" using p by (simp_all add: wf_packet_def)
  obtain t1 e1 t2 e2 where e: "now_if (IsTraced (dh_trace d)) (nd_env nd) = (t1, e1)"
    "now_if (IsTraced (dh_trace d)) e1 = (t2, e2)" "wf_Env e2"
    using now_if_frame n(2) by metis
  from packet_new [OF n(5) p new e(3)] obtain ct ct1 calls e3 in' where ct: "rx_finds (nd_in nd) peer base d ct"
    "Acquire ct (dh_index d) = Inr (kEmpty, ct1)"
    "release_chunk ct1 d peer True e2 (put_chunks (hdr_handle d) (dh_reqid d) peer ct1 (nd_in nd)) = Inr (calls, e3, in')"
    "rx_tracks in' peer h reqs meta base (insert (key (d, bs)) (snd ms))" "wf_Env e3"
    "if covered reqs (insert (key (d, bs)) (snd ms)) then recv_report reqs meta calls else calls = []"
    unfolding recv_report_def by blast
  obtain tr e4 where st: "StampRxTrace d w kEmpty t1 t2 e3 = (d\<lparr>dh_trace := tr\<rparr>, e4)" "wf_Env e4"
    using StampRxTrace_frame ct(5) by metis
  from msg_send_ack [OF n(3) d(1)] obtain ch2 where ch2: "ready ch2" "msgs_in ch2 = msgs_in (nd_ch nd)"
    "sendAck fb ops (d\<lparr>dh_trace := tr\<rparr>) (nd_ch nd) = Inr (True, ch2)" "ch_GetPeer ops ch2 = peer"
    "msgs_out ch2 = msgs_out (nd_ch nd) @ [data_wire fb (d\<lparr>hdr_len := 0, dh_trace := tr\<rparr>)]"
    using n(4) by blast
  let ?nd = "nd\<lparr>nd_ch := ch2, nd_in := in', nd_env := e4,
    nd_mem := mem_write (base (dh_reqid d) + dh_byte_offset d) bs (fst ms)\<rparr>"
  have "recvDataMsg fb ops d bs w nd = Inr (True, calls, ?nd)"
    using ct(1-3) st(1) ch2(3) d(2) IsData_valid(1) [OF d(1)]
    by (simp add: recvDataMsg_def Data_IsMatch_def rx_finds_def n(1,4) e(1,2) Let_def)
  moreover have "rx_node ops ready ?nd peer h reqs meta base (abs_deliver base (d, bs) ms)"
    using new ct(4) st(2) ch2(1,4) by (simp add: rx_node_def abs_deliver_def case_prod_beta)
  ultimately show ?thesis using ct(6) ch2(2,5) by (auto simp: is_ack_of_def)
qed

lemma msg_recv_packet:
  assumes "rx_node ops ready nd peer h reqs meta base ms" "wf_packet h reqs base p"
    "msgs_in (nd_ch nd) = packet_wire fb p # rest" "kSize + length (snd p) \<le> kTmpBufSize"
  shows "\<exists>calls nd' a. Recv fb ops w nd = Inr (True, calls, nd') \<and>
    rx_node ops ready nd' peer h reqs meta base (abs_deliver base p ms) \<and>
    msgs_in (nd_ch nd') = rest \<and> is_ack_of a (fst p) \<and>
    msgs_out (nd_ch nd') = msgs_out (nd_ch nd) @ [data_wire fb a] \<and> nd_out nd' = nd_out nd \<and>
    (if key p \<notin> snd ms \<and> covered reqs (insert (key p) (snd ms)) then recv_report reqs meta calls else calls = [])"
proof -
  obtain d bs where p: "p = (d, bs)" by (cases p)
  have "IsData d" using assms(2) by (simp add: wf_packet_def p)
  note wire = data_wire [OF IsData_valid(1) [OF this]]
  have r: "ready (nd_ch nd)" using assms(1) by (simp add: rx_node_def)
  have len: "length (packet_wire fb p) = kSize + length bs" using wire(2) by (simp add: packet_wire_def p)
  then have "packet_wire fb p \<noteq> []" "length (packet_wire fb p) \<le> kTmpBufSize"
    using assms(4) by (auto simp: p kSize_def)
  from msg_read [OF r assms(3) this] obtain ch1 where ch1:
    "ch_Read ops [kTmpBufSize] (nd_ch nd) = Inr (int (kSize + length bs), packet_wire fb p, ch1)" "ready ch1"
    "msgs_in ch1 = rest" "msgs_out ch1 = msgs_out (nd_ch nd)" "ch_GetPeer ops ch1 = ch_GetPeer ops (nd_ch nd)"
    unfolding len by blast
  let ?nd = "nd\<lparr>nd_ch := ch1\<rparr>"
  have nd: "rx_node ops ready ?nd peer h reqs meta base ms" using assms(1) ch1 by (simp add: rx_node_def)
  have rec: "Recv fb ops w nd = recvDataMsg fb ops d bs w ?nd"
    using ch1(1) wire(2,3) msg_type
    by (simp add: Recv_def recvMsg_def IsMessageChannel_def packet_wire_def p Let_def)
  show ?thesis
  proof (cases "key p \<in> snd ms")
    case True
    then have "abs_deliver base p ms = ms" by (simp add: abs_deliver_def case_prod_beta)
    with True msg_recv_data_known [OF nd assms(2) [unfolded p], of w] ch1(3,4) show ?thesis
      unfolding rec p by (auto simp: p)
  next
    case False
    with msg_recv_data_new [OF nd assms(2) [unfolded p], of w] ch1(3,4) show ?thesis
      unfolding rec p by (auto simp: p split: if_splits)
  qed
qed

end

section \<open>The in-memory channels\<close>

interpretation mem_stream_transfer:
  stream_transfer MemStreamChannel "mem_ready i o'" "concat \<circ> mem_in" "concat \<circ> mem_out" schema_fb
  for i o' ..

interpretation mem_msg_transfer: message_transfer MemMsgChannel "mem_ready i o'" mem_in mem_out schema_fb
  for i o' ..


text \<open>
  C6. Receiving refines the abstract receiver on a stream channel: for every list of packets
  of a registered batch waiting in the channel, in any order, with any duplicates and any
  trace marks, as many calls of \<^verbatim>\<open>Recv\<close> all succeed, no check fails, the memory and the set of
  chunks are those of the abstract receiver (each chunk is stored once, at its request's
  destination plus its offset), every packet is acknowledged, in order, and the receive
  callback is made exactly when these packets complete the batch.
\<close>
theorem stream_recv_refines:
  assumes "flatbuf_structs fb" "rx_node MemStreamChannel (mem_ready i o') nd peer h reqs meta base ms"
    "list_all (wf_packet h reqs base) ps"
    "concat (mem_in (nd_ch nd)) = concat (map (packet_wire fb) ps) @ rest"
  shows "\<exists>calls nd' acks. Recvs fb MemStreamChannel w (length ps) nd = Inr (True, calls, nd') \<and>
    rx_node MemStreamChannel (mem_ready i o') nd' peer h reqs meta base (deliver_all base ps ms) \<and>
    concat (mem_in (nd_ch nd')) = rest \<and> list_all2 is_ack_of acks (map fst ps) \<and>
    concat (mem_out (nd_ch nd')) = concat (mem_out (nd_ch nd)) @ concat (map (data_wire fb) acks) \<and>
    (if \<not> covered reqs (snd ms) \<and> covered reqs (snd ms \<union> key ` set ps)
     then recv_report reqs meta calls else calls = [])"
proof -
  note st = stream_transfer.intro [OF mem_stream.stream_channel_axioms assms(1)]
  show ?thesis
    using stream_transfer.recv_packets [OF st assms(2,3), of rest w] assms(4) by fastforce
qed

text \<open>
  C33. The same on a message channel, packet by packet, when a packet fits the 10 KiB buffer
  of \<^verbatim>\<open>recvMsg\<close>.
\<close>
theorem message_recv_refines:
  assumes "flatbuf_structs fb" "rx_node MemMsgChannel (mem_ready i o') nd peer h reqs meta base ms"
    "wf_packet h reqs base p" "mem_in (nd_ch nd) = packet_wire fb p # rest"
    "64 + length (snd p) \<le> 10240"
  shows "\<exists>calls nd' a. Recv fb MemMsgChannel w nd = Inr (True, calls, nd') \<and>
    rx_node MemMsgChannel (mem_ready i o') nd' peer h reqs meta base (abs_deliver base p ms) \<and>
    mem_in (nd_ch nd') = rest \<and> is_ack_of a (fst p) \<and>
    mem_out (nd_ch nd') = mem_out (nd_ch nd) @ [data_wire fb a] \<and>
    (if key p \<notin> snd ms \<and> covered reqs (insert (key p) (snd ms)) then recv_report reqs meta calls else calls = [])"
proof -
  note mt = message_transfer.intro [OF mem_msg.message_channel_axioms assms(1)]
  have "kSize + length (snd p) \<le> kTmpBufSize" using assms(5) by (simp add: kSize_def kTmpBufSize_def)
  from message_transfer.msg_recv_packet [OF mt assms(2-4) this, of w] show ?thesis by blast
qed

text \<open>
  C35. Unexpected data chunks: one for an unregistered handle or an unknown request is refused
  and drained completely, so that the stream stays in step, and changes neither memory nor
  trackers and is not acknowledged. A chunk of a registered request whose number is not below
  the request's number of chunks, which is read from the wire, is caught only by a debug
  check, which stops the process.
\<close>
theorem unexpected_chunks:
  assumes "flatbuf_structs fb" "mem_ready i o' (nd_ch nd)" "IsData d" "unat (hdr_len d) = length bs"
    "concat (mem_in (nd_ch nd)) = packet_wire fb (d, bs) @ rest"
  shows "(Check (hdr_handle d) (mem_GetPeer (nd_ch nd)) (nd_in nd) = kNotFound \<or>
      GetChunkAddr (hdr_handle d) (dh_reqid d) (dh_byte_offset d) (mem_GetPeer (nd_ch nd)) (nd_in nd) = 0 \<longrightarrow>
      (\<exists>nd'. Recv fb MemStreamChannel w nd = Inr (False, [], nd') \<and> concat (mem_in (nd_ch nd')) = rest \<and>
        concat (mem_out (nd_ch nd')) = concat (mem_out (nd_ch nd)) \<and> nd_mem nd' = nd_mem nd \<and>
        nd_in nd' = nd_in nd \<and> nd_out nd' = nd_out nd)) \<and>
    (\<forall>base ct. rx_finds (nd_in nd) (mem_GetPeer (nd_ch nd)) base d ct \<and> ct_total ct \<le> unat (dh_index d) \<longrightarrow>
      Recv fb MemStreamChannel w nd = Inl DcheckFailed)"
proof -
  note st = stream_transfer.intro [OF mem_stream.stream_channel_axioms assms(1)]
  have g: "ch_GetPeer MemStreamChannel = mem_GetPeer" by (simp add: MemStreamChannel_def)
  show ?thesis
    using stream_transfer.recv_unknown [OF st assms(2-4), of rest w]
      stream_transfer.recv_bad_index [OF st assms(2,3), of bs rest _ _ w] assms(5)
    unfolding g comp_def by blast
qed


subsection \<open>An instance\<close>

definition demo_packets :: "packet list" where
  "demo_packets = [(demo_data\<lparr>hdr_len := 3, dh_reqid := 1, dh_index := 1, dh_byte_offset := 4096\<rparr>, [1, 2, 3]),
     (demo_data\<lparr>hdr_len := 1, dh_reqid := 1, dh_index := 0, dh_byte_offset := 0\<rparr>, [9])]"

definition demo_channel :: "byte list list \<Rightarrow> MemChannel \<times> MemWorld" where
  "demo_channel q = (\<lparr>mc_error_rate = 0, mc_in = 0, mc_out = 1, mc_peer = Endpoint_default\<rparr>,
     put_queue 0 q demo_world)"

lemma demo_packets_ok: "list_all (wf_packet 7 [demo_request_info] (\<lambda>_. 4096)) demo_packets"
  by (simp add: demo_packets_def wf_packet_def demo_data_def DataHeader_zero_def IsData_def
      demo_request_info_def)

lemma demo_rx_node:
  assumes "list_all (\<lambda>b. b \<noteq> []) q" "ch_GetPeer ops (demo_channel q) = Endpoint_default"
  shows "\<exists>rt. rx_node ops (mem_ready 0 1) \<lparr>nd_ch = demo_channel q, nd_out = RequestTracker_new False None False,
      nd_in = rt, nd_env = demo_env, nd_mem = \<lambda>_. 0\<rparr> Endpoint_default 7 [demo_request_info] Metadata_zero
      (\<lambda>_. 4096) (\<lambda>_. 0, {})"
proof -
  let ?rt = "RequestTracker_new True None False"
  have "mem_ready 0 1 (demo_channel q)"
    using assms(1) by (simp add: demo_channel_def mem_ready_def put_queue_def demo_world_def MemPipe_new_def)
  moreover have "\<exists>rt'. Add_reqs 7 [demo_request_info] 0 Metadata_zero Endpoint_default ?rt = Inr (True, [], rt') \<and>
      rx_tracks rt' Endpoint_default 7 [demo_request_info] Metadata_zero (\<lambda>_. 4096) {}"
    by (rule rx_tracks_initial)
      (use demo_request_info_ok in \<open>simp_all add: RequestTracker_new_def resolve_addr_def demo_request_info_def\<close>)
  ultimately show ?thesis using assms(2) by (auto simp: rx_node_def)
qed

lemma demo_wire_nonempty: "list_all (\<lambda>b. b \<noteq> []) (map (packet_wire schema_fb) demo_packets)"
proof -
  have "data_wire schema_fb d \<noteq> []" if "IsData d" for d
    using schema.data_wire(2) [OF IsData_valid(1) [OF that]] by (auto simp: kSize_def)
  with demo_packets_ok show ?thesis
    by (auto simp: list_all_iff wf_packet_def packet_wire_def)
qed

theorem stream_recv_refines_witness:
  "\<exists>nd calls nd'. Recvs schema_fb MemStreamChannel 0 2 nd = Inr (True, calls, nd') \<and>
     recv_report [demo_request_info] Metadata_zero calls \<and>
     nd_mem nd' = fst (deliver_all (\<lambda>_. 4096) demo_packets (\<lambda>_. 0, {}))"
proof -
  let ?q = "map (packet_wire schema_fb) demo_packets"
  obtain rt where nd: "rx_node MemStreamChannel (mem_ready 0 1) \<lparr>nd_ch = demo_channel ?q,
      nd_out = RequestTracker_new False None False, nd_in = rt, nd_env = demo_env, nd_mem = \<lambda>_. 0\<rparr>
      Endpoint_default 7 [demo_request_info] Metadata_zero (\<lambda>_. 4096) (\<lambda>_. 0, {})"
    using demo_rx_node [OF demo_wire_nonempty, of MemStreamChannel]
    by (auto simp: MemStreamChannel_def mem_GetPeer_def demo_channel_def)
  have "covered [demo_request_info] (key ` set demo_packets)"
    by (auto simp: covered_def demo_packets_def key_def demo_request_info_def less_2_cases_iff)
  moreover have "\<not> covered [demo_request_info] {}"
    using nothing_covered [of "[demo_request_info]"] demo_request_info_ok by simp
  moreover have "mem_in (demo_channel ?q) = ?q" by (simp add: mem_in_def demo_channel_def put_queue_def)
  moreover have "length demo_packets = 2" by (simp add: demo_packets_def)
  ultimately show ?thesis
    using stream_recv_refines [OF schema.flatbuf_structs_axioms nd demo_packets_ok, of "[]" 0]
    by (auto simp: rx_node_def)
qed

theorem message_recv_refines_witness:
  "\<exists>nd calls nd' a. Recv schema_fb MemMsgChannel 0 nd = Inr (True, calls, nd') \<and>
     is_ack_of a (fst (hd demo_packets)) \<and> mem_out (nd_ch nd') = [data_wire schema_fb a]"
proof -
  let ?q = "map (packet_wire schema_fb) demo_packets"
  obtain rt where nd: "rx_node MemMsgChannel (mem_ready 0 1) \<lparr>nd_ch = demo_channel ?q,
      nd_out = RequestTracker_new False None False, nd_in = rt, nd_env = demo_env, nd_mem = \<lambda>_. 0\<rparr>
      Endpoint_default 7 [demo_request_info] Metadata_zero (\<lambda>_. 4096) (\<lambda>_. 0, {})"
    using demo_rx_node [OF demo_wire_nonempty, of MemMsgChannel]
    by (auto simp: MemMsgChannel_def mem_GetPeer_def demo_channel_def)
  obtain p ps where p: "demo_packets = p # ps" "length (snd p) = 3" by (simp add: demo_packets_def)
  moreover have "mem_in (demo_channel ?q) = ?q" "mem_out (demo_channel ?q) = []"
    by (simp_all add: mem_in_def mem_out_def demo_channel_def put_queue_def demo_world_def MemPipe_new_def)
  moreover have "wf_packet 7 [demo_request_info] (\<lambda>_. 4096) p"
    using demo_packets_ok unfolding p(1) list.pred_inject by (rule conjunct1)
  ultimately show ?thesis
    using message_recv_refines [OF schema.flatbuf_structs_axioms nd _ _, of p "map (packet_wire schema_fb) ps" 0]
    unfolding p(1) list.map list.sel select_convs by fastforce
qed

theorem unexpected_chunks_witness:
  "\<exists>nd'. Recv schema_fb MemStreamChannel 0 \<lparr>nd_ch = demo_channel (map (packet_wire schema_fb) demo_packets),
      nd_out = RequestTracker_new False None False, nd_in = RequestTracker_new True None False,
      nd_env = demo_env, nd_mem = \<lambda>_. 0\<rparr> = Inr (False, [], nd') \<and> nd_mem nd' = (\<lambda>_. 0)"
proof -
  let ?q = "map (packet_wire schema_fb) demo_packets"
  let ?nd = "\<lparr>nd_ch = demo_channel ?q, nd_out = RequestTracker_new False None False,
      nd_in = RequestTracker_new True None False, nd_env = demo_env, nd_mem = \<lambda>_. 0\<rparr>"
  obtain d bs ps where p: "demo_packets = (d, bs) # ps" "wf_packet 7 [demo_request_info] (\<lambda>_. 4096) (d, bs)"
    using demo_packets_ok by (auto simp: demo_packets_def)
  have d: "IsData d" "unat (hdr_len d) = length bs" using p(2) by (simp_all add: wf_packet_def)
  have "mem_ready 0 1 (nd_ch ?nd)"
    using demo_wire_nonempty by (simp add: demo_channel_def mem_ready_def put_queue_def demo_world_def MemPipe_new_def)
  moreover have "concat (mem_in (nd_ch ?nd)) =
      packet_wire schema_fb (d, bs) @ concat (map (packet_wire schema_fb) ps)"
    by (simp add: mem_in_def demo_channel_def put_queue_def) (simp add: p(1))
  moreover have "Check (hdr_handle d) (mem_GetPeer (nd_ch ?nd)) (nd_in ?nd) = kNotFound"
    by (simp add: Check_def RequestTracker_new_def)
  ultimately obtain nd' where "Recv schema_fb MemStreamChannel 0 ?nd = Inr (False, [], nd')" "nd_mem nd' = nd_mem ?nd"
    using unexpected_chunks [OF schema.flatbuf_structs_axioms _ d, of 0 1 ?nd _ 0] by blast
  then show ?thesis by auto
qed

definition demo_stray :: packet where
  "demo_stray = (demo_data\<lparr>hdr_len := 1, dh_reqid := 1, dh_index := 0, dh_byte_offset := 8192\<rparr>, [9])"


end
