(* ===== verification/Worker.thy ===== *)
theory Worker
  imports Delivery
begin

text \<open>
  \<^verbatim>\<open>internal/engine/worker.{h,cc}\<close>: a worker owns one channel, two queues and two threads. The
  threads run \<^verbatim>\<open>SendLoop\<close> and \<^verbatim>\<open>RecvLoop\<close>; here an iteration of each loop is one step, which
  says whether the loop goes on, has returned, or was left by an error. Waiting for work is
  the value \<open>Blocked\<close>. What the workers of an engine share is the record \<open>Shared\<close>.
\<close>

section \<open>The class\<close>

record Shared =
  sh_out :: RequestTracker
  sh_in :: RequestTracker
  sh_env :: Env
  sh_mem :: memory

definition node_of :: "'s \<Rightarrow> Shared \<Rightarrow> 's Node" where
  "node_of ch sh = \<lparr>nd_ch = ch, nd_out = sh_out sh, nd_in = sh_in sh, nd_env = sh_env sh, nd_mem = sh_mem sh\<rparr>"

definition shared_of :: "'s Node \<Rightarrow> Shared" where
  "shared_of nd = \<lparr>sh_out = nd_out nd, sh_in = nd_in nd, sh_env = nd_env nd, sh_mem = nd_mem nd\<rparr>"

type_synonym InfoEntry = "PostInfoHeader \<times> RequestInfo list"
type_synonym ChunkEntry = "addr_t \<times> DataHeader"

record 's Worker =
  wk_id :: int
  wk_stop :: bool
  wk_infos :: "InfoEntry list"
  wk_chunks :: "ChunkEntry list"
  wk_ch :: 's

definition Worker_new :: "int \<Rightarrow> 's \<Rightarrow> 's Worker" where
  "Worker_new i ch = \<lparr>wk_id = i, wk_stop = False, wk_infos = [], wk_chunks = [], wk_ch = ch\<rparr>"

definition Worker_destroy :: "'s ChannelOps \<Rightarrow> 's Worker \<Rightarrow> 's Worker" where
  "Worker_destroy ops w = w\<lparr>wk_stop := True, wk_ch := ch_Shutdown ops (wk_ch w)\<rparr>"

definition EnqueueInfo :: "'s ChannelOps \<Rightarrow> PostInfoHeader \<Rightarrow> RequestInfo list \<Rightarrow> 's Worker \<Rightarrow> 's Worker res" where
  "EnqueueInfo ops info reqs w =
     dcheck (PostInfoHeader_IsValid info) (dcheck (reqs \<noteq> [])
       (if IsOneSidedChannel (ch_Type ops) then Inr w
        else Inr (w\<lparr>wk_infos := wk_infos w @ [(info, reqs)]\<rparr>)))"

definition EnqueueChunk :: "addr_t \<Rightarrow> DataHeader \<Rightarrow> 's Worker \<Rightarrow> Env \<Rightarrow> ('s Worker \<times> Env) res" where
  "EnqueueChunk chunk_src_addr chunk w e =
     dcheck (chunk_src_addr \<noteq> 0) (dcheck (IsData chunk)
       (Inr (w\<lparr>wk_chunks := wk_chunks w @ [(chunk_src_addr, chunk)]\<rparr>,
             RecordWorkerEnqueued chunk (wk_id w) e)))"

definition hasSendWork :: "'s Worker \<Rightarrow> bool" where
  "hasSendWork w \<longleftrightarrow> wk_infos w \<noteq> [] \<or> wk_chunks w \<noteq> [] \<or> wk_stop w"

definition GenPayload :: "ChunkEntry \<Rightarrow> memory \<Rightarrow> byte list" where
  "GenPayload entry m = mem_read (fst entry) (unat (hdr_len (snd entry))) m"

datatype LoopStep = LContinue | LStopped | LBroken

definition write_bytes_Add :: "u64 \<Rightarrow> Env \<Rightarrow> Env" where
  "write_bytes_Add n e = (let m = env_metrics e in
     e\<lparr>env_metrics := m\<lparr>em_write := (em_write m)\<lparr>om_bytes := Counter_Add n (om_bytes (em_write m))\<rparr>\<rparr>\<rparr>)"

definition write_errors_Add :: "u64 \<Rightarrow> Env \<Rightarrow> Env" where
  "write_errors_Add n e = (let m = env_metrics e in
     e\<lparr>env_metrics := m\<lparr>em_write := (em_write m)\<lparr>om_errors := Counter_Add n (om_errors (em_write m))\<rparr>\<rparr>\<rparr>)"

text \<open>The end of an iteration of \<^verbatim>\<open>SendLoop\<close>: what happens after a failed send.\<close>

definition send_failed :: "'s ChannelOps \<Rightarrow> 's Worker \<Rightarrow> Shared \<Rightarrow> LoopStep \<times> Shared" where
  "send_failed ops w sh =
     (if IsMessageChannel (ch_Type ops) then (if \<not> wk_stop w then LContinue else LStopped, sh)
      else (LBroken, sh\<lparr>sh_env := write_errors_Add 1 (sh_env sh)\<rparr>))"

definition SendLoop_step :: "fb_abi \<Rightarrow> 's ChannelOps \<Rightarrow> 's Worker \<Rightarrow> Shared \<Rightarrow>
    (LoopStep \<times> Call list \<times> 's Worker \<times> Shared) res" where
  "SendLoop_step fb ops w sh =
     (if \<not> hasSendWork w then Inl Blocked
      else case wk_infos w of
        (info, reqs) # infos \<Rightarrow>
          rbind (SendInfo fb ops info reqs (wk_ch w)) (\<lambda>(ok, ch1).
            let w1 = w\<lparr>wk_infos := infos, wk_ch := ch1\<rparr> in
            if ok then Inr (LContinue, [], w1, sh)
            else let (st, sh1) = send_failed ops w1 sh in Inr (st, [], w1, sh1))
      | [] \<Rightarrow>
          (case wk_chunks w of
             (src, chunk) # rest \<Rightarrow>
               dcheck (IsData chunk)
                 (let (chunk1, e1) = RecordWorkerDequeued chunk (wk_id w) (sh_env sh);
                      payload = GenPayload (src, chunk1) (sh_mem sh)
                  in rbind (SendChunk fb ops chunk1 payload (wk_ch w)) (\<lambda>(ok, ch1).
                       let w1 = w\<lparr>wk_chunks := rest, wk_ch := ch1\<rparr> in
                       if ok then
                         let e2 = RecordTxWriteDone chunk1 (wk_id w)
                                    (write_bytes_Add (of_nat (length payload)) e1)
                         in if IsOneSidedChannel (ch_Type ops)
                            then rbind (Update (hdr_handle chunk1) (dh_reqid chunk1) (dh_index chunk1)
                                   (wk_id w) Endpoint_default e2 (sh_out sh)) (\<lambda>(calls, e3, out).
                                   Inr (LContinue, calls, w1, sh\<lparr>sh_env := e3, sh_out := out\<rparr>))
                            else Inr (LContinue, [], w1, sh\<lparr>sh_env := e2\<rparr>)
                       else let (st, sh1) = send_failed ops w1 (sh\<lparr>sh_env := e1\<rparr>)
                            in Inr (st, [], w1, sh1)))
           | [] \<Rightarrow> dcheck (wk_stop w) (Inr (LStopped, [], w, sh))))"

definition RecvLoop_step :: "fb_abi \<Rightarrow> 's ChannelOps \<Rightarrow> 's Worker \<Rightarrow> Shared \<Rightarrow>
    (LoopStep \<times> Call list \<times> 's Worker \<times> Shared) res" where
  "RecvLoop_step fb ops w sh =
     (if IsOneSidedChannel (ch_Type ops) then
        (if wk_stop w then Inr (LStopped, [], w, sh) else Inl Blocked)
      else if wk_stop w then Inr (LStopped, [], w, sh)
      else
        rbind (Recv fb ops (wk_id w) (node_of (wk_ch w) sh)) (\<lambda>(ok, calls, nd).
          let w1 = w\<lparr>wk_ch := nd_ch nd\<rparr>; sh1 = shared_of nd in
          if ok then Inr (LContinue, calls, w1, sh1)
          else if IsMessageChannel (ch_Type ops)
          then Inr (if \<not> wk_stop w then LContinue else LStopped, calls, w1, sh1)
          else Inr (LBroken, calls, w1, sh1)))"

text \<open>Any number of iterations of a loop, as long as it goes on.\<close>

fun SendLoop :: "fb_abi \<Rightarrow> 's ChannelOps \<Rightarrow> nat \<Rightarrow> 's Worker \<Rightarrow> Shared \<Rightarrow>
    (LoopStep \<times> Call list \<times> 's Worker \<times> Shared) res" where
  "SendLoop fb ops 0 w sh = Inr (LContinue, [], w, sh)"
| "SendLoop fb ops (Suc n) w sh =
     rbind (SendLoop_step fb ops w sh) (\<lambda>(st, calls, w1, sh1).
       if st = LContinue
       then rbind (SendLoop fb ops n w1 sh1) (\<lambda>(st', calls', w2, sh2). Inr (st', calls @ calls', w2, sh2))
       else Inr (st, calls, w1, sh1))"

fun RecvLoop :: "fb_abi \<Rightarrow> 's ChannelOps \<Rightarrow> nat \<Rightarrow> 's Worker \<Rightarrow> Shared \<Rightarrow>
    (LoopStep \<times> Call list \<times> 's Worker \<times> Shared) res" where
  "RecvLoop fb ops 0 w sh = Inr (LContinue, [], w, sh)"
| "RecvLoop fb ops (Suc n) w sh =
     rbind (RecvLoop_step fb ops w sh) (\<lambda>(st, calls, w1, sh1).
       if st = LContinue
       then rbind (RecvLoop fb ops n w1 sh1) (\<lambda>(st', calls', w2, sh2). Inr (st', calls @ calls', w2, sh2))
       else Inr (st, calls, w1, sh1))"

section \<open>The send loop empties its queues in order\<close>

definition info_wire :: "fb_abi \<Rightarrow> InfoEntry list \<Rightarrow> byte list" where
  "info_wire fb infos = concat (map (\<lambda>(info, reqs). post_wire fb info reqs) infos)"

text \<open>A queued chunk that can be sent.\<close>

definition wf_entry :: "ChunkEntry \<Rightarrow> bool" where
  "wf_entry c \<longleftrightarrow> IsData (snd c)"

text \<open>
  The packet a queued chunk becomes: when it is traced, the time of sending is stamped into
  its header, so the header may differ from the queued one in its trace fields.
\<close>

definition sent_as :: "memory \<Rightarrow> packet \<Rightarrow> ChunkEntry \<Rightarrow> bool" where
  "sent_as m p c \<longleftrightarrow> (\<exists>tr. fst p = (snd c)\<lparr>dh_trace := tr\<rparr>) \<and> snd p = GenPayload c m"

lemma RecordWorkerDequeued_frame:
  "\<exists>tr e'. RecordWorkerDequeued c i e = (c\<lparr>dh_trace := tr\<rparr>, e') \<and> wf_Env e' = wf_Env e"
proof (cases "IsTraced (dh_trace c)")
  case True
  then show ?thesis
    using recorder_metrics(7) [of c i e]
    by (auto simp: RecordWorkerDequeued_def MonoNowUs_def wf_Env_def Let_def)
next
  case False
  then have "RecordWorkerDequeued c i e = (c\<lparr>dh_trace := dh_trace c\<rparr>, e)"
    by (simp add: RecordWorkerDequeued_def)
  then show ?thesis by blast
qed

lemma wf_Env_worker_frames [simp]:
  "wf_Env (write_bytes_Add n e) = wf_Env e" "wf_Env (write_errors_Add n e) = wf_Env e"
  "wf_Env (RecordTxWriteDone c i e) = wf_Env e" "wf_Env (RecordWorkerEnqueued c i e) = wf_Env e"
  by (simp_all add: wf_Env_def write_bytes_Add_def write_errors_Add_def wf_EngineMetrics_def
      wf_OpMetrics_def Let_def)

context stream_transfer
begin

lemma send_step_info:
  assumes "wk_infos w = (info, reqs) # infos" "ready (wk_ch w)" "wf_batch info reqs"
  shows "\<exists>ch'. SendLoop_step fb ops w sh = Inr (LContinue, [], w\<lparr>wk_infos := infos, wk_ch := ch'\<rparr>, sh) \<and>
    ready ch' \<and> outbox ch' = outbox (wk_ch w) @ post_wire fb info reqs \<and> inbox ch' = inbox (wk_ch w)"
  using send_info [OF assms(2,3)] assms(1)
  by (auto simp: SendLoop_step_def hasSendWork_def Let_def)

lemma send_step_chunk:
  assumes "wk_infos w = []" "wk_chunks w = c # rest" "ready (wk_ch w)" "wf_entry c"
  shows "\<exists>p ch' e'. SendLoop_step fb ops w sh =
      Inr (LContinue, [], w\<lparr>wk_chunks := rest, wk_ch := ch'\<rparr>, sh\<lparr>sh_env := e'\<rparr>) \<and>
    ready ch' \<and> outbox ch' = outbox (wk_ch w) @ packet_wire fb p \<and> inbox ch' = inbox (wk_ch w) \<and>
    sent_as (sh_mem sh) p c \<and> wf_Env e' = wf_Env (sh_env sh)"
proof -
  obtain src d where c: "c = (src, d)" by (cases c)
  obtain tr e1 where deq: "RecordWorkerDequeued d (wk_id w) (sh_env sh) = (d\<lparr>dh_trace := tr\<rparr>, e1)"
    "wf_Env e1 = wf_Env (sh_env sh)"
    using RecordWorkerDequeued_frame by blast
  let ?d = "d\<lparr>dh_trace := tr\<rparr>" and ?bs = "GenPayload (src, d\<lparr>dh_trace := tr\<rparr>) (sh_mem sh)"
  have d: "IsData d" using assms(4) by (simp add: wf_entry_def c)
  then have "IsData ?d" "unat (hdr_len ?d) = length ?bs"
    by (simp_all add: IsData_def GenPayload_def mem_read_def)
  from send_chunk [OF assms(3) this] obtain ch' where ch': "SendChunk fb ops ?d ?bs (wk_ch w) = Inr (True, ch')"
    "ready ch'" "outbox ch' = outbox (wk_ch w) @ packet_wire fb (?d, ?bs)" "inbox ch' = inbox (wk_ch w)"
    by blast
  have "\<not> IsOneSidedChannel (ch_Type ops)" using stream_type(3) by (simp add: IsTwoSidedChannel_def)
  then have "SendLoop_step fb ops w sh = Inr (LContinue, [], w\<lparr>wk_chunks := rest, wk_ch := ch'\<rparr>,
      sh\<lparr>sh_env := RecordTxWriteDone ?d (wk_id w) (write_bytes_Add (of_nat (length ?bs)) e1)\<rparr>)"
    using assms(1,2) ch'(1) d deq(1) by (simp add: SendLoop_step_def hasSendWork_def c Let_def)
  moreover have "sent_as (sh_mem sh) (?d, ?bs) c"
    by (auto simp: sent_as_def c GenPayload_def)
  ultimately show ?thesis using ch'(2-4) deq(2) by fastforce
qed

lemma send_loop_chunks:
  assumes "wk_infos w = []" "ready (wk_ch w)" "list_all wf_entry (wk_chunks w)"
  shows "\<exists>ps ch' e'. SendLoop fb ops (length (wk_chunks w)) w sh =
      Inr (LContinue, [], w\<lparr>wk_chunks := [], wk_ch := ch'\<rparr>, sh\<lparr>sh_env := e'\<rparr>) \<and>
    ready ch' \<and> outbox ch' = outbox (wk_ch w) @ concat (map (packet_wire fb) ps) \<and>
    inbox ch' = inbox (wk_ch w) \<and> list_all2 (sent_as (sh_mem sh)) ps (wk_chunks w) \<and>
    wf_Env e' = wf_Env (sh_env sh)"
  using assms
proof (induction "wk_chunks w" arbitrary: w sh)
  case Nil
  then have "SendLoop fb ops (length (wk_chunks w)) w sh =
      Inr (LContinue, [], w\<lparr>wk_chunks := [], wk_ch := wk_ch w\<rparr>, sh\<lparr>sh_env := sh_env sh\<rparr>)"
    by (simp flip: Nil.hyps)
  with Nil.prems Nil.hyps [symmetric] show ?case
    by (intro exI [of _ "[]"] exI [of _ "wk_ch w"] exI [of _ "sh_env sh"]) simp
next
  case (Cons c cs)
  note q = Cons.hyps(2) [symmetric]
  have "wf_entry c" using Cons.prems(3) unfolding q by simp
  from send_step_chunk [OF Cons.prems(1) q Cons.prems(2) this, of sh] obtain p ch1 e1 where
    1: "SendLoop_step fb ops w sh = Inr (LContinue, [], w\<lparr>wk_chunks := cs, wk_ch := ch1\<rparr>, sh\<lparr>sh_env := e1\<rparr>)"
      "ready ch1" "outbox ch1 = outbox (wk_ch w) @ packet_wire fb p" "inbox ch1 = inbox (wk_ch w)"
      "sent_as (sh_mem sh) p c" "wf_Env e1 = wf_Env (sh_env sh)"
    by blast
  let ?w = "w\<lparr>wk_chunks := cs, wk_ch := ch1\<rparr>" and ?sh = "sh\<lparr>sh_env := e1\<rparr>"
  have "cs = wk_chunks ?w" "wk_infos ?w = []" "ready (wk_ch ?w)" "list_all wf_entry (wk_chunks ?w)"
    using Cons.prems 1(2) q by simp_all
  from Cons.hyps(1) [OF this, of ?sh] obtain ps ch2 e2 where
    2: "SendLoop fb ops (length cs) ?w ?sh = Inr (LContinue, [], ?w\<lparr>wk_chunks := [], wk_ch := ch2\<rparr>, ?sh\<lparr>sh_env := e2\<rparr>)"
      "ready ch2" "outbox ch2 = outbox ch1 @ concat (map (packet_wire fb) ps)" "inbox ch2 = inbox ch1"
      "list_all2 (sent_as (sh_mem sh)) ps cs" "wf_Env e2 = wf_Env e1"
    by auto
  have "SendLoop fb ops (length (wk_chunks w)) w sh =
      Inr (LContinue, [], w\<lparr>wk_chunks := [], wk_ch := ch2\<rparr>, sh\<lparr>sh_env := e2\<rparr>)"
    using 1(1) 2(1) by (simp add: q)
  with 1 2 show ?case unfolding q by (intro exI [of _ "p # ps"] exI [of _ ch2] exI [of _ e2]) simp
qed

lemma send_loop_infos:
  assumes "ready (wk_ch w)" "list_all (\<lambda>(info, reqs). wf_batch info reqs) (wk_infos w)"
  shows "\<exists>ch'. SendLoop fb ops (length (wk_infos w) + n) w sh =
      SendLoop fb ops n (w\<lparr>wk_infos := [], wk_ch := ch'\<rparr>) sh \<and> ready ch' \<and>
    outbox ch' = outbox (wk_ch w) @ info_wire fb (wk_infos w) \<and> inbox ch' = inbox (wk_ch w)"
  using assms
proof (induction "wk_infos w" arbitrary: w)
  case Nil
  have "w\<lparr>wk_infos := [], wk_ch := wk_ch w\<rparr> = w" using Nil by simp
  with Nil show ?case by (metis add_0 append_Nil2 concat.simps(1) info_wire_def list.map_disc_iff list.size(3))
next
  case (Cons i infos)
  obtain info reqs where i: "i = (info, reqs)" by (cases i)
  note q = Cons.hyps(2) [symmetric, unfolded i]
  have "wf_batch info reqs" using Cons.prems(2) unfolding q by simp
  from send_step_info [OF q Cons.prems(1) this, of sh] obtain ch1 where
    1: "SendLoop_step fb ops w sh = Inr (LContinue, [], w\<lparr>wk_infos := infos, wk_ch := ch1\<rparr>, sh)" "ready ch1"
      "outbox ch1 = outbox (wk_ch w) @ post_wire fb info reqs" "inbox ch1 = inbox (wk_ch w)"
    by blast
  let ?w = "w\<lparr>wk_infos := infos, wk_ch := ch1\<rparr>"
  have "infos = wk_infos ?w" "ready (wk_ch ?w)" "list_all (\<lambda>(info, reqs). wf_batch info reqs) (wk_infos ?w)"
    using Cons.prems(2) 1(2) unfolding q by simp_all
  from Cons.hyps(1) [OF this] obtain ch2 where
    "SendLoop fb ops (length infos + n) ?w sh = SendLoop fb ops n (?w\<lparr>wk_infos := [], wk_ch := ch2\<rparr>) sh"
    "ready ch2" "outbox ch2 = outbox ch1 @ info_wire fb infos" "inbox ch2 = inbox ch1"
    by auto
  moreover from 1(1) have "SendLoop fb ops (length (wk_infos w) + n) w sh = SendLoop fb ops (length infos + n) ?w sh"
    by (cases "SendLoop fb ops (length infos + n) ?w sh") (auto simp: q)
  ultimately show ?case using 1(3,4) unfolding q by (auto simp: info_wire_def)
qed

end

text \<open>
  The send loop of a stream worker empties both queues: after as many iterations as there
  are entries it is still running, every queued batch header with its descriptors is on the
  channel, followed by every queued chunk with the payload its source address held, each
  queue in order, and nothing else. So a batch header that is queued before the chunks of its
  batch is on the channel before them, which the receiver relies on.
\<close>
theorem send_loop_order:
  assumes "flatbuf_structs fb" "mem_ready i o' (wk_ch w)"
    "list_all (\<lambda>(info, reqs). wf_batch info reqs) (wk_infos w)" "list_all wf_entry (wk_chunks w)"
  shows "\<exists>ps w' sh'. SendLoop fb MemStreamChannel (length (wk_infos w) + length (wk_chunks w)) w sh =
      Inr (LContinue, [], w', sh') \<and> wk_infos w' = [] \<and> wk_chunks w' = [] \<and>
    concat (mem_out (wk_ch w')) = concat (mem_out (wk_ch w)) @ info_wire fb (wk_infos w) @
      concat (map (packet_wire fb) ps) \<and>
    list_all2 (sent_as (sh_mem sh)) ps (wk_chunks w) \<and> sh_mem sh' = sh_mem sh \<and>
    sh_out sh' = sh_out sh \<and> sh_in sh' = sh_in sh"
proof -
  note st = stream_transfer.intro [OF mem_stream.stream_channel_axioms assms(1)]
  from stream_transfer.send_loop_infos [OF st assms(2,3), of "length (wk_chunks w)" sh] obtain ch1 where
    1: "SendLoop fb MemStreamChannel (length (wk_infos w) + length (wk_chunks w)) w sh =
        SendLoop fb MemStreamChannel (length (wk_chunks w)) (w\<lparr>wk_infos := [], wk_ch := ch1\<rparr>) sh"
      "mem_ready i o' ch1" "concat (mem_out ch1) = concat (mem_out (wk_ch w)) @ info_wire fb (wk_infos w)"
    by auto
  let ?w = "w\<lparr>wk_infos := [], wk_ch := ch1\<rparr>"
  have "wk_infos ?w = []" "mem_ready i o' (wk_ch ?w)" "list_all wf_entry (wk_chunks ?w)"
    using 1(2) assms(4) by simp_all
  from stream_transfer.send_loop_chunks [OF st this, of sh] 1 show ?thesis by auto
qed

definition demo_worker :: "(MemChannel \<times> MemWorld) Worker" where
  "demo_worker = (Worker_new 1 (demo_channel []))\<lparr>wk_chunks := [(0x1000, demo_data)]\<rparr>"

theorem send_loop_order_witness:
  "\<exists>ps w' sh'. SendLoop schema_fb MemStreamChannel 1 demo_worker
      \<lparr>sh_out = RequestTracker_new False None False, sh_in = RequestTracker_new True None False,
       sh_env = demo_env, sh_mem = \<lambda>_. 5\<rparr> = Inr (LContinue, [], w', sh') \<and>
     concat (mem_out (wk_ch w')) = concat (map (packet_wire schema_fb) ps) \<and> length ps = 1"
proof -
  have "mem_ready 0 1 (wk_ch demo_worker)" "mem_out (wk_ch demo_worker) = []"
    by (simp_all add: demo_worker_def Worker_new_def demo_channel_def mem_ready_def put_queue_def
        demo_world_def MemPipe_new_def mem_out_def)
  moreover have "wk_infos demo_worker = []" "list_all wf_entry (wk_chunks demo_worker)" "length (wk_chunks demo_worker) = 1"
    by (simp_all add: demo_worker_def Worker_new_def wf_entry_def demo_data_def IsData_def DataHeader_zero_def)
  ultimately show ?thesis
    using send_loop_order [OF schema.flatbuf_structs_axioms, of 0 1 demo_worker
      "\<lparr>sh_out = RequestTracker_new False None False, sh_in = RequestTracker_new True None False,
       sh_env = demo_env, sh_mem = \<lambda>_. 5\<rparr>"]
    by (fastforce simp: info_wire_def simp del: SendLoop.simps dest: list_all2_lengthD)
qed

end
