(* ===== verification/Engine.thy ===== *)
theory Engine
  imports Worker
begin

text \<open>
  \<^verbatim>\<open>internal/engine/engine.{h,cc}\<close>: the engine takes posts of requests, registers them, splits
  every request into chunks and spreads the chunks over the workers of the peer; it answers
  reads of a peer by writing back. Its main loop, its workers' loops and the callbacks the
  trackers make are separate steps on the engine's state. The channels that
  \<^verbatim>\<open>EngineHelper\<close> connects or accepts are inputs of the steps that create workers.
\<close>

section \<open>State\<close>

record Item =
  it_requests :: "Request list"
  it_on_complete :: "OnComplete option"
  it_metadata :: Metadata
  it_start_mono_us :: u64
  it_trace_ctx :: TraceContext

definition Item_IsValid :: "Item \<Rightarrow> bool" where
  "Item_IsValid item \<longleftrightarrow> it_requests item \<noteq> [] \<and> list_all IsValid_Request (it_requests item)"

record PostEntry =
  pe_peer :: Endpoint
  pe_handle :: Handle
  pe_reqs :: "Request list"
  pe_req_infos :: "RequestInfo list"
  pe_metadata :: Metadata
  pe_trace_ctx :: TraceContext

record 's Engine =
  eg_config :: Config
  eg_self :: HostInfo
  eg_stop :: bool
  next_handle :: u32
  next_reqid :: u32
  eg_posts :: "PostEntry list"
  eg_sh :: Shared
  send_workers :: "(Endpoint, 's Worker list) hash_map"
  recv_workers :: "(Endpoint, 's Worker list) hash_map"

text \<open>
  The constructor; \<open>h\<close> and \<open>r\<close> are the random initial values. The outgoing tracker has no
  callbacks, the incoming one has the user's and reports received reads to the engine.
\<close>

definition Engine_new :: "Config \<Rightarrow> HostInfo \<Rightarrow> u32 \<Rightarrow> u32 \<Rightarrow> bool \<Rightarrow> (Metadata \<Rightarrow> Metadata \<Rightarrow> addr_t) option \<Rightarrow>
    Env \<Rightarrow> memory \<Rightarrow> 's Engine res" where
  "Engine_new config self h r post resolve e m =
     dcheck (Config_IsValid config)
       (Inr \<lparr>eg_config = config, eg_self = self, eg_stop = False, next_handle = h, next_reqid = r,
          eg_posts = [], eg_sh = \<lparr>sh_out = RequestTracker_new False None False,
            sh_in = RequestTracker_new post resolve True, sh_env = e, sh_mem = m\<rparr>,
          send_workers = [], recv_workers = []\<rparr>)"

definition Engine_destroy :: "'s Engine \<Rightarrow> 's Engine" where
  "Engine_destroy eng = eng\<lparr>eg_stop := True\<rparr>"

section \<open>Identifiers\<close>

definition gen_id :: "u32 \<Rightarrow> u32" where
  "gen_id v = (let v1 = v + 1 in if v1 = 0 then v1 + 1 else v1)"

definition genHandle :: "'s Engine \<Rightarrow> Handle \<times> 's Engine" where
  "genHandle eng = (let v = gen_id (next_handle eng) in (v, eng\<lparr>next_handle := v\<rparr>))"

definition genReqId :: "'s Engine \<Rightarrow> ReqId \<times> 's Engine" where
  "genReqId eng = (let v = gen_id (next_reqid eng) in (v, eng\<lparr>next_reqid := v\<rparr>))"

section \<open>Posting and polling\<close>

text \<open>The tracker of a request's direction, and putting it back.\<close>

definition getRequestTracker :: "Request \<Rightarrow> 's Engine \<Rightarrow> RequestTracker" where
  "getRequestTracker req eng = (if req_op req = kWrite then sh_out (eg_sh eng) else sh_in (eg_sh eng))"

definition putRequestTracker :: "Request \<Rightarrow> RequestTracker \<Rightarrow> 's Engine \<Rightarrow> 's Engine" where
  "putRequestTracker req rt eng = eng\<lparr>eg_sh :=
     (if req_op req = kWrite then (eg_sh eng)\<lparr>sh_out := rt\<rparr> else (eg_sh eng)\<lparr>sh_in := rt\<rparr>)\<rparr>"

definition set_env :: "Env \<Rightarrow> 's Engine \<Rightarrow> 's Engine" where
  "set_env e eng = eng\<lparr>eg_sh := (eg_sh eng)\<lparr>sh_env := e\<rparr>\<rparr>"

definition Enqueue :: "Endpoint \<Rightarrow> Item \<Rightarrow> 's Engine \<Rightarrow> (Handle StatusOr \<times> 's Engine) res" where
  "Enqueue peer item eng =
     dcheck (HasNonzeroIpPort peer) (dcheck (Item_IsValid item)
       (let (handle, eng1) = genHandle eng;
            first = hd (it_requests item);
            (added, rt) = Add_handle handle (it_start_mono_us item) (it_on_complete item)
              (it_trace_ctx item) (getRequestTracker first eng1)
        in
        if \<not> added then Inr (Inl FailedPreconditionStatus, eng1)
        else
          let eng2 = (putRequestTracker first rt eng1)\<lparr>eg_posts := eg_posts eng1 @
                [\<lparr>pe_peer = peer, pe_handle = handle, pe_reqs = it_requests item, pe_req_infos = [],
                  pe_metadata = it_metadata item, pe_trace_ctx = it_trace_ctx item\<rparr>]\<rparr>;
              eng3 = set_env (RecordEngineEnqueued (it_trace_ctx item) handle (it_start_mono_us item)
                (length (it_requests item)) (req_op first) (sh_env (eg_sh eng2))) eng2
          in Inr (Inr handle, eng3)))"

definition QueryUpdate :: "Handle \<Rightarrow> 's Engine \<Rightarrow> Status StatusOr \<times> 's Engine" where
  "QueryUpdate handle eng = (let
     sh = eg_sh eng;
     s = Check handle Endpoint_default (sh_out sh)
   in if IsInProgress s then (Inr s, eng)
      else if IsCompleted s then
        let (e, rt) = Remove handle Endpoint_default (sh_env sh) (sh_out sh)
        in (Inr s, eng\<lparr>eg_sh := sh\<lparr>sh_env := e, sh_out := rt\<rparr>\<rparr>)
      else
        let s' = Check handle Endpoint_default (sh_in sh)
        in if IsInProgress s' then (Inr s', eng)
           else if IsCompleted s' then
             let (e, rt) = Remove handle Endpoint_default (sh_env sh) (sh_in sh)
             in (Inr s', eng\<lparr>eg_sh := sh\<lparr>sh_env := e, sh_in := rt\<rparr>\<rparr>)
           else (Inl NotFoundStatus, eng))"

section \<open>Workers\<close>

definition workers_of :: "Endpoint \<Rightarrow> (Endpoint, 's Worker list) hash_map \<Rightarrow> 's Worker list" where
  "workers_of peer m = (case map_of m peer of None \<Rightarrow> [] | Some ws \<Rightarrow> ws)"

definition createSendWorkers :: "Endpoint \<Rightarrow> 's list \<Rightarrow> 's Engine \<Rightarrow> 's Engine" where
  "createSendWorkers peer chs eng = eng\<lparr>send_workers := AList.update peer
     (fold (\<lambda>ch ws. ws @ [Worker_new (1 + int (length ws)) ch]) chs (workers_of peer (send_workers eng)))
     (send_workers eng)\<rparr>"

definition createRecvWorkers :: "'s list \<Rightarrow> 's Engine \<Rightarrow> bool \<times> 's Engine" where
  "createRecvWorkers chs eng =
     (if chs = [] then (False, eng)
      else (True, eng\<lparr>recv_workers := AList.update Endpoint_default
        (fold (\<lambda>ch ws. ws @ [Worker_new (- (1 + int (length ws))) ch]) chs
           (workers_of Endpoint_default (recv_workers eng)))
        (recv_workers eng)\<rparr>))"

text \<open>An iteration of \<^verbatim>\<open>tcpmgrLoop\<close>; \<open>accepted\<close> are the channels accepted since the last one.\<close>

definition tcpmgrLoop_step :: "'s list \<Rightarrow> 's Engine \<Rightarrow> LoopStep \<times> 's Engine" where
  "tcpmgrLoop_step accepted eng =
     (if eg_stop eng then (LStopped, eng)
      else let (_, eng1) = createRecvWorkers accepted eng in (LContinue, eng1))"

section \<open>Splitting a request into chunks\<close>

definition write_chunk :: "Handle \<Rightarrow> RequestInfo \<Rightarrow> TraceContext \<Rightarrow> nat \<Rightarrow> u64 \<Rightarrow> u32 \<Rightarrow> DataHeader" where
  "write_chunk handle req_info ctx i offset sz = DataHeader_zero\<lparr>opcode := kData, hdr_handle := handle,
     hdr_len := sz, dh_reqid := ri_reqid req_info, dh_index := of_nat i, dh_byte_offset := offset,
     dh_raddr := (if ri_raddr req_info = 0 then 0 else ri_raddr req_info + offset),
     dh_trace := (if is_traced ctx then SetTraced ChunkTraceWire_new else ChunkTraceWire_new)\<rparr>"

text \<open>The loop over the chunk numbers \<open>is\<close>; it returns the final offset too.\<close>

fun write_loop :: "Handle \<Rightarrow> addr_t \<Rightarrow> RequestInfo \<Rightarrow> TraceContext \<Rightarrow> u64 \<Rightarrow> u64 \<Rightarrow> nat list \<Rightarrow> u64 \<Rightarrow>
    's Worker list \<Rightarrow> Env \<Rightarrow> (u64 \<times> 's Worker list \<times> Env) res" where
  "write_loop handle lad req_info ctx q r [] offset ws e = Inr (offset, ws, e)"
| "write_loop handle lad req_info ctx q r (i # is) offset ws e =
     (let n = (if of_nat i < r then q + 1 else q) in
      check (n \<le> 4294967295)
        (let sz = ucast n; chunk = write_chunk handle req_info ctx i offset sz;
             offset1 = offset + ucast sz; j = i mod length ws
         in rbind (vec_at ws j) (\<lambda>w.
            rbind (EnqueueChunk (lad + dh_byte_offset chunk) chunk w e) (\<lambda>(w1, e1).
              write_loop handle lad req_info ctx q r is offset1 (ws[j := w1]) e1))))"

definition processWrite :: "'s Worker list \<Rightarrow> Handle \<Rightarrow> addr_t \<Rightarrow> RequestInfo \<Rightarrow> TraceContext \<Rightarrow> Env \<Rightarrow>
    ('s Worker list \<times> Env) res" where
  "processWrite ws handle lad req_info ctx e =
     dcheck (ws \<noteq> []) (dcheck (RequestInfo_IsValid req_info) (dcheck (1 \<le> ri_nchunks req_info)
       (let len = ri_total_len req_info; nchunks = ri_nchunks req_info;
            q = len div ucast nchunks; r = len mod ucast nchunks
        in rbind (write_loop handle lad req_info ctx q r [0..<unat nchunks] 0 ws e) (\<lambda>(offset, ws1, e1).
             dcheck (offset = len) (Inr (ws1, e1))))))"

section \<open>Processing a post\<close>

definition op_errors_Add :: "bool \<Rightarrow> Env \<Rightarrow> Env" where
  "op_errors_Add is_write e = (let m = env_metrics e in
     if is_write then write_errors_Add 1 e
     else e\<lparr>env_metrics := m\<lparr>em_read := (em_read m)\<lparr>om_errors := Counter_Add 1 (om_errors (em_read m))\<rparr>\<rparr>\<rparr>)"

definition request_size_Record :: "bool \<Rightarrow> u64 \<Rightarrow> Env \<Rightarrow> Env res" where
  "request_size_Record is_write v e = (let m = env_metrics e in
     if is_write
     then rbind (Log2Histogram_Record v 1 (request_size_bytes (em_write m))) (\<lambda>h.
       Inr (e\<lparr>env_metrics := m\<lparr>em_write := (em_write m)\<lparr>request_size_bytes := h\<rparr>\<rparr>\<rparr>))
     else rbind (Log2Histogram_Record v 1 (request_size_bytes (em_read m))) (\<lambda>h.
       Inr (e\<lparr>env_metrics := m\<lparr>em_read := (em_read m)\<lparr>request_size_bytes := h\<rparr>\<rparr>\<rparr>)))"

text \<open>The descriptors of a post that was enqueued locally.\<close>

fun gen_infos :: "nat \<Rightarrow> bool \<Rightarrow> Request list \<Rightarrow> u32 \<Rightarrow> (RequestInfo list \<times> u32) res" where
  "gen_infos nworkers is_write [] next = Inr ([], next)"
| "gen_infos nworkers is_write (req # reqs) next =
     dcheck (IsValid_Request req)
       (let nchunks = ucast (min (of_nat nworkers) (req_len req)) :: u32;
            dst_addr = (if is_write then raddr req else laddr req);
            v = gen_id next;
            info = \<lparr>ri_reqid = v, ri_nchunks = nchunks, ri_raddr = dst_addr, ri_total_len = req_len req,
              ri_op = Op_value (req_op req),
              ri_recipe = \<lparr>rc_type = kContiguous, rc_params = replicate 32 0\<rparr>,
              ri_metadata = Types.metadata req\<rparr>
        in dcheck (1 \<le> nchunks)
             (rbind (gen_infos nworkers is_write reqs v) (\<lambda>(infos, next1). Inr (info # infos, next1))))"

fun record_dequeued :: "bool \<Rightarrow> TraceContext \<Rightarrow> Handle \<Rightarrow> (Request \<times> RequestInfo) list \<Rightarrow> Env \<Rightarrow> Env res" where
  "record_dequeued is_write ctx handle [] e = Inr e"
| "record_dequeued is_write ctx handle ((req, info) # rest) e =
     dcheck (IsValid_Request req)
       (rbind (request_size_Record is_write (req_len req) e) (\<lambda>e1.
          record_dequeued is_write ctx handle rest
            (RecordEngineDequeued ctx handle (ri_reqid info) req e1)))"

fun enqueue_infos :: "'s ChannelOps \<Rightarrow> PostInfoHeader \<Rightarrow> RequestInfo list \<Rightarrow> 's Worker list \<Rightarrow> 's Worker list res" where
  "enqueue_infos ops info reqs [] = Inr []"
| "enqueue_infos ops info reqs (w # ws) =
     rbind (EnqueueInfo ops info reqs w) (\<lambda>w1.
     rbind (enqueue_infos ops info reqs ws) (\<lambda>ws1. Inr (w1 # ws1)))"

fun process_writes :: "Handle \<Rightarrow> TraceContext \<Rightarrow> (Request \<times> RequestInfo) list \<Rightarrow> 's Worker list \<Rightarrow> Env \<Rightarrow>
    ('s Worker list \<times> Env) res" where
  "process_writes handle ctx [] ws e = Inr (ws, e)"
| "process_writes handle ctx ((req, info) # rest) ws e =
     rbind (processWrite ws handle (laddr req) info ctx e) (\<lambda>(ws1, e1).
       process_writes handle ctx rest ws1 e1)"

definition post_info_header :: "Endpoint \<Rightarrow> Handle \<Rightarrow> Metadata \<Rightarrow> nat \<Rightarrow> PostInfoHeader" where
  "post_info_header listener handle meta num_reqs = PostInfoHeader_zero\<lparr>opcode := kPostInfo,
     hdr_handle := handle, hdr_len := of_nat (num_reqs * unat kSerializedRequestInfoSize),
     pi_peer := listener, pi_metadata := meta\<rparr>"

definition put_workers :: "Endpoint \<Rightarrow> 's Worker list \<Rightarrow> 's Engine \<Rightarrow> 's Engine" where
  "put_workers peer ws eng = eng\<lparr>send_workers := AList.update peer ws (send_workers eng)\<rparr>"

text \<open>\<^verbatim>\<open>process\<close> from the registration on: the descriptors \<open>infos\<close> are complete.\<close>

definition process_infos :: "'s ChannelOps \<Rightarrow> PostEntry \<Rightarrow> bool \<Rightarrow> RequestInfo list \<Rightarrow> 's Engine \<Rightarrow>
    (Call list \<times> 's Engine) res" where
  "process_infos ops post initiator infos eng = (let
     is_write = (req_op (hd (pe_reqs post)) = kWrite);
     num_reqs = length (pe_reqs post);
     ws = workers_of (pe_peer post) (send_workers eng)
   in
     dcheck (length infos = num_reqs)
       (rbind (record_dequeued is_write (pe_trace_ctx post) (pe_handle post) (zip (pe_reqs post) infos)
                 (sh_env (eg_sh eng))) (\<lambda>e1.
        let eng1 = set_env e1 eng in
        rbind (Add_reqs (pe_handle post) infos 0 Metadata_zero Endpoint_default
                 (getRequestTracker (hd (pe_reqs post)) eng1)) (\<lambda>(_, calls, rt).
        let eng2 = putRequestTracker (hd (pe_reqs post)) rt eng1;
            infos1 = (if initiator \<and> \<not> is_write
              then map2 (\<lambda>info req. info\<lparr>ri_raddr := raddr req\<rparr>) infos (pe_reqs post) else infos)
        in
        rbind (if initiator
               then check (num_reqs * unat kSerializedRequestInfoSize \<le> 4294967295)
                      (enqueue_infos ops (post_info_header (control_plane_listener (eg_self eng2))
                         (pe_handle post) (pe_metadata post) num_reqs) infos1 ws)
               else Inr ws) (\<lambda>ws1.
        rbind (if is_write
               then process_writes (pe_handle post) (pe_trace_ctx post) (zip (pe_reqs post) infos1) ws1
                      (sh_env (eg_sh eng2))
               else Inr (ws1, sh_env (eg_sh eng2))) (\<lambda>(ws2, e2).
          Inr (calls, put_workers (pe_peer post) ws2 (set_env e2 eng2))))))))"

definition process :: "'s ChannelOps \<Rightarrow> PostEntry \<Rightarrow> 's Engine \<Rightarrow> (Call list \<times> 's Engine) res" where
  "process ops post eng =
     dcheck (pe_reqs post \<noteq> [])
       (let is_write = (req_op (hd (pe_reqs post)) = kWrite);
            ws = workers_of (pe_peer post) (send_workers eng)
        in
        if ws = [] then
          Inr ([], put_workers (pe_peer post) [] (set_env (op_errors_Add is_write (sh_env (eg_sh eng))) eng))
        else if pe_req_infos post = [] then
          rbind (gen_infos (length ws) is_write (pe_reqs post) (next_reqid eng)) (\<lambda>(infos, next1).
            process_infos ops post True infos (eng\<lparr>next_reqid := next1\<rparr>))
        else process_infos ops post False (pe_req_infos post) eng)"

definition hasWork :: "'s Engine \<Rightarrow> bool" where
  "hasWork eng \<longleftrightarrow> eg_posts eng \<noteq> [] \<or> eg_stop eng"

text \<open>
  An iteration of \<^verbatim>\<open>mainLoop\<close>; \<open>connect peer\<close> are the channels \<^verbatim>\<open>EngineHelper::Connect\<close> returns.
\<close>

definition mainLoop_step :: "'s ChannelOps \<Rightarrow> (Endpoint \<Rightarrow> 's list) \<Rightarrow> 's Engine \<Rightarrow>
    (LoopStep \<times> Call list \<times> 's Engine) res" where
  "mainLoop_step ops connect eng =
     (if \<not> hasWork eng then Inl Blocked
      else case eg_posts eng of
        [] \<Rightarrow> dcheck (eg_stop eng) (Inr (LStopped, [], eng))
      | post # posts \<Rightarrow>
          let eng1 = eng\<lparr>eg_posts := posts\<rparr>;
              eng2 = (if int (length (workers_of (pe_peer post) (send_workers eng1))) <
                          num_conns_per_peer (eg_config eng1)
                      then createSendWorkers (pe_peer post) (connect (pe_peer post)) eng1 else eng1)
          in rbind (process ops post eng2) (\<lambda>(calls, eng3). Inr (LContinue, calls, eng3)))"

section \<open>Answering reads, and running callbacks\<close>

fun read_reply :: "RequestInfo list \<Rightarrow> (Request list \<times> RequestInfo list) res" where
  "read_reply [] = Inr ([], [])"
| "read_reply (req # reqs) =
     dcheck (ri_raddr req \<noteq> 0)
       (rbind (read_reply reqs) (\<lambda>(ws, infos).
          Inr (Request_new\<lparr>req_op := kWrite, laddr := ri_raddr req, raddr := 0,
                 req_len := ri_total_len req, Types.metadata := ri_metadata req\<rparr> # ws,
               req\<lparr>ri_op := Op_value kWrite, ri_raddr := 0\<rparr> # infos)))"

definition processRecvRead :: "Endpoint \<Rightarrow> Handle \<Rightarrow> RequestInfo list \<Rightarrow> 's Engine \<Rightarrow> 's Engine res" where
  "processRecvRead peer handle reqs eng = (let
     (now, e1) = MonoNowUs (sh_env (eg_sh eng));
     eng1 = set_env e1 eng;
     (added, rt) = Add_handle handle now (Some (ReadResponder peer handle)) TraceContext_new (sh_out (eg_sh eng1))
   in
     if \<not> added then Inr eng1
     else
       rbind (read_reply reqs) (\<lambda>(write_reqs, req_infos).
         Inr (eng1\<lparr>eg_sh := (eg_sh eng1)\<lparr>sh_out := rt\<rparr>, eg_posts := eg_posts eng1 @
           [\<lparr>pe_peer = peer, pe_handle = handle, pe_reqs = write_reqs, pe_req_infos = req_infos,
             pe_metadata = Metadata_zero, pe_trace_ctx = TraceContext_new\<rparr>]\<rparr>)))"

text \<open>
  Running one callback: what the user sees, the calls it causes, and the engine after it.
\<close>

datatype UserEvent = UserCompleted nat Status | UserRecvPost Status Metadata "Metadata list"

fun run_call :: "Call \<Rightarrow> 's Engine \<Rightarrow> (UserEvent list \<times> Call list \<times> 's Engine) res" where
  "run_call (CallComplete (UserCallback k) s) eng = Inr ([UserCompleted k s], [], eng)"
| "run_call (CallComplete (ReadResponder peer handle) s) eng =
     rbind (OnReqComplete handle peer (sh_env (eg_sh eng)) (sh_in (eg_sh eng))) (\<lambda>(calls, e, rt).
       Inr ([], calls, eng\<lparr>eg_sh := (eg_sh eng)\<lparr>sh_env := e, sh_in := rt\<rparr>\<rparr>))"
| "run_call (CallRecvPost s meta metas) eng = Inr ([UserRecvPost s meta metas], [], eng)"
| "run_call (CallRecvRead peer handle reqs) eng =
     rbind (processRecvRead peer handle reqs eng) (\<lambda>eng1. Inr ([], [], eng1))"
| "run_call (CallbackDone ctx handle worker_id) eng =
     Inr ([], [], set_env (RecordCallbackDone ctx handle worker_id (sh_env (eg_sh eng))) eng)"

end
