(* ===== verification/EngineProps.thy ===== *)
theory EngineProps
  imports Engine
begin

text \<open>
  Properties of the engine: identifiers do not repeat, the chunks of a request partition its
  bytes and go round-robin over the workers, a post is queued on the workers with its header
  first, and the life of a handle from \<^verbatim>\<open>Enqueue\<close> to its last \<^verbatim>\<open>QueryUpdate\<close>.
\<close>

section \<open>Identifiers\<close>

lemma unat_gen_id: "unat (gen_id v) = (if unat v = 4294967295 then 1 else Suc (unat v))"
proof (cases "v + 1 = 0")
  case True
  then have v: "v = - 1" by (simp add: eq_neg_iff_add_eq_0)
  have "unat (- 1 :: u32) = 4294967295" by (simp add: unsigned_minus_1_eq_mask mask_eq_exp_minus_1)
  with v True show ?thesis by (simp add: gen_id_def)
next
  case False
  then have "unat (v + 1) = Suc (unat v)"
    by (metis Suc_eq_plus1 add.commute unatSuc)
  moreover have "unat (v + 1) < 4294967296" by (rule unat_u32_less)
  ultimately show ?thesis using False by (auto simp: gen_id_def)
qed

lemma unat_gen_id_iter:
  "unat ((gen_id ^^ Suc k) v) = Suc ((unat v + k) mod 4294967295)"
proof (induction k)
  case 0
  show ?case using unat_u32_less [of v] by (auto simp: unat_gen_id)
next
  case (Suc k)
  then have "unat ((gen_id ^^ Suc (Suc k)) v) =
      (if (unat v + k) mod 4294967295 = 4294967294 then 1 else Suc (Suc ((unat v + k) mod 4294967295)))"
    by (simp add: unat_gen_id)
  also have "\<dots> = Suc ((unat v + Suc k) mod 4294967295)"
    by (simp add: mod_Suc)
  finally show ?case .
qed

fun gen_handles :: "nat \<Rightarrow> 's Engine \<Rightarrow> Handle list" where
  "gen_handles 0 eng = []"
| "gen_handles (Suc n) eng = (let (h, eng1) = genHandle eng in h # gen_handles n eng1)"

fun gen_reqids :: "nat \<Rightarrow> 's Engine \<Rightarrow> ReqId list" where
  "gen_reqids 0 eng = []"
| "gen_reqids (Suc n) eng = (let (r, eng1) = genReqId eng in r # gen_reqids n eng1)"

lemma gen_handles_iter: "gen_handles n eng = map (\<lambda>k. (gen_id ^^ Suc k) (next_handle eng)) [0..<n]"
proof (induction n arbitrary: eng)
  case (Suc n)
  have "[0..<Suc n] = 0 # map Suc [0..<n]" by (simp add: map_Suc_upt upt_conv_Cons del: upt_Suc)
  with Suc show ?case by (simp add: genHandle_def Let_def comp_def funpow_swap1 del: upt_Suc)
qed simp

lemma gen_reqids_iter: "gen_reqids n eng = map (\<lambda>k. (gen_id ^^ Suc k) (next_reqid eng)) [0..<n]"
proof (induction n arbitrary: eng)
  case (Suc n)
  have "[0..<Suc n] = 0 # map Suc [0..<n]" by (simp add: map_Suc_upt upt_conv_Cons del: upt_Suc)
  with Suc show ?case by (simp add: genReqId_def Let_def comp_def funpow_swap1 del: upt_Suc)
qed simp

lemma gen_ids_distinct:
  assumes "n \<le> 4294967295"
  shows "distinct (map (\<lambda>k. (gen_id ^^ Suc k) v) [0..<n])" "0 \<notin> set (map (\<lambda>k. (gen_id ^^ Suc k) v) [0..<n])"
proof -
  have "i = j" if "i < n" "j < n" "(gen_id ^^ Suc i) v = (gen_id ^^ Suc j) v" for i j
  proof -
    have "(unat v + i) mod 4294967295 = (unat v + j) mod 4294967295"
      using arg_cong [OF that(3), of unat] unfolding unat_gen_id_iter by simp
    then show "i = j"
      using that(1,2) assms mod_near_eq [of "unat v + i" 4294967295 "unat v + j"]
        mod_near_eq [of "unat v + j" 4294967295 "unat v + i"]
      by (cases i j rule: linorder_cases) auto
  qed
  then show "distinct (map (\<lambda>k. (gen_id ^^ Suc k) v) [0..<n])"
    by (simp add: distinct_map inj_on_def del: funpow.simps)
  have "(gen_id ^^ Suc k) v \<noteq> 0" for k
    using unat_gen_id_iter [of k v] by (metis unat_0 nat.distinct(1))
  then show "0 \<notin> set (map (\<lambda>k. (gen_id ^^ Suc k) v) [0..<n])" by (auto simp del: funpow.simps)
qed

text \<open>
  C34. Handles and request ids do not repeat: from any initial value, up to \<open>2 ^ 32 - 1\<close>
  successive ids are pairwise distinct, across the wrap-around of the 32-bit counter, and
  none is the reserved value 0.
\<close>
theorem ids_unique:
  assumes "n < 2 ^ 32"
  shows "distinct (gen_handles n eng) \<and> kInvalidHandle \<notin> set (gen_handles n eng) \<and>
    distinct (gen_reqids n eng) \<and> kInvalidReqId \<notin> set (gen_reqids n eng)"
  using gen_ids_distinct [of n] assms
  by (simp add: gen_handles_iter gen_reqids_iter kInvalidHandle_def kInvalidReqId_def del: funpow.simps)

section \<open>Chunks of a request\<close>

text \<open>The layout of \<open>len\<close> bytes in \<open>n\<close> chunks: the first \<open>len mod n\<close> are one byte longer.\<close>

definition chunk_len :: "nat \<Rightarrow> nat \<Rightarrow> nat \<Rightarrow> nat" where
  "chunk_len len n i = (if i < len mod n then len div n + 1 else len div n)"

definition chunk_off :: "nat \<Rightarrow> nat \<Rightarrow> nat \<Rightarrow> nat" where
  "chunk_off len n i = i * (len div n) + min i (len mod n)"

lemma chunk_off_0 [simp]: "chunk_off len n 0 = 0"
  by (simp add: chunk_off_def)

lemma chunk_off_Suc: "chunk_off len n (Suc i) = chunk_off len n i + chunk_len len n i"
  by (auto simp: chunk_off_def chunk_len_def)

lemma chunk_off_end: "0 < n \<Longrightarrow> chunk_off len n n = len"
  by (simp add: chunk_off_def min_absorb2 mult.commute [of n] less_imp_le)

lemma chunk_off_mono: "i \<le> j \<Longrightarrow> chunk_off len n i \<le> chunk_off len n j"
  by (auto simp: chunk_off_def intro!: add_mono mult_le_mono1)

lemma chunk_in_range:
  assumes "i < n"
  shows "chunk_off len n i + chunk_len len n i \<le> len"
  using chunk_off_mono [of "Suc i" n len n] chunk_off_end [of n len] assms
  by (simp add: chunk_off_Suc)

lemma chunk_len_pos: "0 < n \<Longrightarrow> n \<le> len \<Longrightarrow> 0 < chunk_len len n i"
  by (simp add: chunk_len_def div_greater_zero_iff)

text \<open>Every byte of the request belongs to exactly one chunk.\<close>

lemma chunk_partition:
  assumes "x < len" "0 < n"
  shows "\<exists>!i. i < n \<and> chunk_off len n i \<le> x \<and> x < chunk_off len n i + chunk_len len n i"
proof -
  let ?P = "\<lambda>i. x < chunk_off len n i"
  have "?P n" using assms by (simp add: chunk_off_end)
  define j where "j = (LEAST i. ?P i)"
  have j: "?P j" "j \<le> n" unfolding j_def using \<open>?P n\<close> by (auto intro: LeastI Least_le)
  have "j \<noteq> 0" using j(1) by (intro notI) simp
  then obtain i where i: "j = Suc i" by (cases j) auto
  have "\<not> ?P i" using not_less_Least [of i ?P] i by (simp add: j_def)
  with i j have ex: "i < n \<and> chunk_off len n i \<le> x \<and> x < chunk_off len n i + chunk_len len n i"
    by (simp add: chunk_off_Suc)
  moreover have "k = i" if "k < n \<and> chunk_off len n k \<le> x \<and> x < chunk_off len n k + chunk_len len n k" for k
    using that ex chunk_off_mono [of "Suc i" k len n] chunk_off_mono [of "Suc k" i len n]
    by (cases i k rule: linorder_cases) (auto simp: chunk_off_Suc)
  ultimately show ?thesis by blast
qed

definition chunk_entry :: "Handle \<Rightarrow> addr_t \<Rightarrow> RequestInfo \<Rightarrow> TraceContext \<Rightarrow> nat \<Rightarrow> ChunkEntry" where
  "chunk_entry h lad info ctx i = (let off = chunk_off (unat (ri_total_len info)) (unat (ri_nchunks info)) i;
     sz = chunk_len (unat (ri_total_len info)) (unat (ri_nchunks info)) i
   in (lad + of_nat off, write_chunk h info ctx i (of_nat off) (of_nat sz)))"

text \<open>A request whose chunks can be written: at most one chunk per byte, of at most \<open>2 ^ 32 - 1\<close> bytes.\<close>

definition chunkable :: "addr_t \<Rightarrow> RequestInfo \<Rightarrow> bool" where
  "chunkable lad info \<longleftrightarrow> RequestInfo_IsValid info \<and> unat (ri_nchunks info) \<le> unat (ri_total_len info) \<and>
     unat (ri_total_len info) div unat (ri_nchunks info) < 4294967295 \<and>
     lad \<noteq> 0 \<and> unat lad + unat (ri_total_len info) \<le> 2 ^ 64"

lemma chunkable_nums:
  assumes "chunkable lad info"
  defines "L \<equiv> unat (ri_total_len info)" and "n \<equiv> unat (ri_nchunks info)"
  shows "0 < n" "n \<le> L" "L < 2 ^ 64" "n < 2 ^ 32" "chunk_len L n i \<le> 4294967295" "0 < chunk_len L n i"
    "unat (ri_total_len info div ucast (ri_nchunks info)) = L div n"
    "unat (ri_total_len info mod ucast (ri_nchunks info)) = L mod n"
proof -
  show "0 < n" using assms(1) by (simp add: chunkable_def RequestInfo_IsValid_def n_def word_less_nat_alt)
  then show "0 < chunk_len L n i" using assms by (simp add: chunkable_def chunk_len_pos)
  show "n \<le> L" "chunk_len L n i \<le> 4294967295"
    using assms by (simp_all add: chunkable_def chunk_len_def)
  show "L < 2 ^ 64" "n < 2 ^ 32"
    using unat_u64_less [of "ri_total_len info"] unat_u32_less [of "ri_nchunks info"] by (simp_all add: L_def n_def)
  show "unat (ri_total_len info div ucast (ri_nchunks info)) = L div n"
    "unat (ri_total_len info mod ucast (ri_nchunks info)) = L mod n"
    by (simp_all add: L_def n_def unat_div unat_mod)
qed

definition add_chunks :: "'s Worker \<Rightarrow> ChunkEntry list \<Rightarrow> 's Worker" where
  "add_chunks w cs = w\<lparr>wk_chunks := wk_chunks w @ cs\<rparr>"

lemma add_chunks_simps [simp]:
  "add_chunks w [] = w" "add_chunks (add_chunks w cs) cs' = add_chunks w (cs @ cs')"
  "wk_chunks (add_chunks w cs) = wk_chunks w @ cs" "wk_infos (add_chunks w cs) = wk_infos w"
  "wk_ch (add_chunks w cs) = wk_ch w" "wk_id (add_chunks w cs) = wk_id w" "wk_stop (add_chunks w cs) = wk_stop w"
  by (simp_all add: add_chunks_def)

text \<open>One iteration of the loop of \<^verbatim>\<open>processWrite\<close>.\<close>

lemma write_step:
  fixes info :: RequestInfo
  defines "L \<equiv> unat (ri_total_len info)" and "n \<equiv> unat (ri_nchunks info)"
  assumes c: "chunkable lad info" and k: "k < n" and ws: "ws \<noteq> []"
  shows "write_loop h lad info ctx (ri_total_len info div ucast (ri_nchunks info))
      (ri_total_len info mod ucast (ri_nchunks info)) (k # ks) (of_nat (chunk_off L n k)) ws e =
    write_loop h lad info ctx (ri_total_len info div ucast (ri_nchunks info))
      (ri_total_len info mod ucast (ri_nchunks info)) ks (of_nat (chunk_off L n (Suc k)))
      (ws[k mod length ws := add_chunks (ws ! (k mod length ws)) [chunk_entry h lad info ctx k]])
      (RecordWorkerEnqueued (snd (chunk_entry h lad info ctx k)) (wk_id (ws ! (k mod length ws))) e)"
proof -
  note nums = chunkable_nums [OF c, folded L_def n_def]
  let ?q = "ri_total_len info div ucast (ri_nchunks info)" and ?r = "ri_total_len info mod ucast (ri_nchunks info)"
  let ?len = "chunk_len L n k" and ?off = "chunk_off L n k"
  have "of_nat k < ?r \<longleftrightarrow> k < L mod n" using k nums(4,8) by (simp add: word_less_nat_alt)
  moreover have "?q = of_nat (L div n)" using arg_cong [OF nums(7), of "of_nat :: nat \<Rightarrow> u64"] by simp
  ultimately have sz: "(if of_nat k < ?r then ?q + 1 else ?q) = of_nat ?len"
    by (simp add: chunk_len_def)
  have len: "unat (of_nat ?len :: u64) = ?len" "unat (of_nat ?len :: u32) = ?len"
    using nums(5) [of k] by simp_all
  have sz32: "(ucast (of_nat ?len :: u64) :: u32) = of_nat ?len"
    using nums(5) [of k] by (intro unat_inject [THEN iffD1]) (simp add: unat_ucast_mod)
  have off: "(of_nat ?off :: u64) + ucast (of_nat ?len :: u32) = of_nat (chunk_off L n (Suc k))"
  proof -
    have "(ucast (of_nat ?len :: u32) :: u64) = of_nat ?len"
      using nums(5) [of k] by (intro unat_inject [THEN iffD1]) simp
    then show ?thesis by (simp add: chunk_off_Suc)
  qed
  have range: "?off + ?len \<le> L" using chunk_in_range [OF k] by simp
  have "lad + of_nat ?off \<noteq> 0"
  proof -
    have "unat (of_nat ?off :: u64) = ?off" using range nums(3) by simp
    moreover have "unat lad + ?off < 2 ^ 64" "0 < unat lad"
      using c range nums(6) [of k] by (auto simp: chunkable_def L_def unat_gt_0)
    ultimately have "unat (lad + of_nat ?off) = unat lad + ?off" by (simp add: unat_word_ariths)
    with \<open>0 < unat lad\<close> show ?thesis by (metis add_is_0 unat_0 less_numeral_extra(3))
  qed
  moreover have "IsData (write_chunk h info ctx k (of_nat ?off) (of_nat ?len))"
    using nums(6) [of k] len(2) by (simp add: IsData_def write_chunk_def DataHeader_zero_def word_less_nat_alt)
  moreover have "dh_byte_offset (write_chunk h info ctx k (of_nat ?off) (of_nat ?len)) = of_nat ?off"
    by (simp add: write_chunk_def)
  moreover have "k mod length ws < length ws" using ws by simp
  moreover have "(of_nat ?len :: u64) \<le> 4294967295" using nums(5) [of k] len(1) by (simp add: word_le_nat_alt)
  ultimately show ?thesis
    by (simp add: sz sz32 off EnqueueChunk_def chunk_entry_def add_chunks_def L_def [symmetric] n_def [symmetric] Let_def)
qed

definition spread :: "('s Worker \<Rightarrow> ChunkEntry list \<Rightarrow> 's Worker) \<Rightarrow> (nat \<Rightarrow> ChunkEntry) \<Rightarrow> nat list \<Rightarrow>
    's Worker list \<Rightarrow> 's Worker list" where
  "spread add entry is ws =
     map (\<lambda>j. add (ws ! j) (map entry (filter (\<lambda>i. i mod length ws = j) is))) [0..<length ws]"

lemma length_spread [simp]: "length (spread add entry is ws) = length ws"
  by (simp add: spread_def)

lemma spread_Nil [simp]: "spread add_chunks entry [] ws = ws"
  by (simp add: spread_def map_nth)

lemma spread_Cons:
  assumes "ws \<noteq> []"
  shows "spread add_chunks entry is (ws[i mod length ws := add_chunks (ws ! (i mod length ws)) [entry i]]) =
    spread add_chunks entry (i # is) ws"
  using assms by (auto simp: spread_def nth_list_update intro!: map_cong)

lemma write_loop_spread:
  fixes info :: RequestInfo
  defines "L \<equiv> unat (ri_total_len info)" and "n \<equiv> unat (ri_nchunks info)"
  assumes c: "chunkable lad info" and k: "k \<le> n" and ws: "ws \<noteq> []"
  shows "\<exists>e'. write_loop h lad info ctx (ri_total_len info div ucast (ri_nchunks info))
      (ri_total_len info mod ucast (ri_nchunks info)) [k..<n] (of_nat (chunk_off L n k)) ws e =
    Inr (ri_total_len info, spread add_chunks (chunk_entry h lad info ctx) [k..<n] ws, e') \<and> wf_Env e' = wf_Env e"
  using k ws
proof (induction "n - k" arbitrary: k ws e)
  case 0
  then have "k = n" by simp
  moreover have "chunk_off L n n = L" using chunkable_nums(1) [OF c] by (simp add: chunk_off_end n_def)
  ultimately show ?case by (simp add: L_def)
next
  case (Suc m)
  then have k: "k < n" by simp
  then have upt: "[k..<n] = k # [Suc k..<n]" by (simp add: upt_conv_Cons)
  let ?ws = "ws[k mod length ws := add_chunks (ws ! (k mod length ws)) [chunk_entry h lad info ctx k]]"
  from Suc.hyps(1) [of "Suc k" ?ws] Suc.hyps(2) Suc.prems k
  obtain e' where "write_loop h lad info ctx (ri_total_len info div ucast (ri_nchunks info))
      (ri_total_len info mod ucast (ri_nchunks info)) [Suc k..<n] (of_nat (chunk_off L n (Suc k))) ?ws
      (RecordWorkerEnqueued (snd (chunk_entry h lad info ctx k)) (wk_id (ws ! (k mod length ws))) e) =
    Inr (ri_total_len info, spread add_chunks (chunk_entry h lad info ctx) [Suc k..<n] ?ws, e')" "wf_Env e' = wf_Env e"
    by fastforce
  then show ?case
    using write_step [OF c k [unfolded n_def] Suc.prems(2), of h ctx "[Suc k..<n]" e]
    unfolding upt L_def [symmetric] n_def [symmetric]
    by (simp add: spread_Cons [OF Suc.prems(2)] del: write_loop.simps)
qed

lemma processWrite_spread:
  assumes "chunkable lad info" "ws \<noteq> []"
  shows "\<exists>e'. processWrite ws h lad info ctx e =
    Inr (spread add_chunks (chunk_entry h lad info ctx) [0..<unat (ri_nchunks info)] ws, e') \<and> wf_Env e' = wf_Env e"
proof -
  have "RequestInfo_IsValid info" "1 \<le> ri_nchunks info"
    using assms(1) by (auto simp: chunkable_def RequestInfo_IsValid_def word_le_nat_alt word_less_nat_alt)
  with write_loop_spread [OF assms(1) _ assms(2), of 0 h ctx e] assms(2) show ?thesis
    by (auto simp: processWrite_def Let_def)
qed

lemma chunk_entry_fields:
  assumes "chunkable lad info" "i < unat (ri_nchunks info)"
  shows "unat (dh_byte_offset (snd (chunk_entry h lad info ctx i))) =
      chunk_off (unat (ri_total_len info)) (unat (ri_nchunks info)) i"
    "unat (hdr_len (snd (chunk_entry h lad info ctx i))) =
      chunk_len (unat (ri_total_len info)) (unat (ri_nchunks info)) i"
    "unat (dh_index (snd (chunk_entry h lad info ctx i))) = i"
    "fst (chunk_entry h lad info ctx i) = lad + dh_byte_offset (snd (chunk_entry h lad info ctx i))"
    "IsData (snd (chunk_entry h lad info ctx i))" "hdr_handle (snd (chunk_entry h lad info ctx i)) = h"
    "dh_reqid (snd (chunk_entry h lad info ctx i)) = ri_reqid info"
proof -
  note nums = chunkable_nums [OF assms(1)]
  let ?L = "unat (ri_total_len info)" and ?n = "unat (ri_nchunks info)"
  have "chunk_off ?L ?n i < 2 ^ 64" using chunk_in_range [OF assms(2), of ?L] nums(3) by simp
  then show "unat (dh_byte_offset (snd (chunk_entry h lad info ctx i))) = chunk_off ?L ?n i"
    by (simp add: chunk_entry_def write_chunk_def Let_def)
  show len: "unat (hdr_len (snd (chunk_entry h lad info ctx i))) = chunk_len ?L ?n i"
    using nums(5) [of i] by (simp add: chunk_entry_def write_chunk_def Let_def)
  show "unat (dh_index (snd (chunk_entry h lad info ctx i))) = i"
    using assms(2) nums(4) by (simp add: chunk_entry_def write_chunk_def Let_def)
  show "fst (chunk_entry h lad info ctx i) = lad + dh_byte_offset (snd (chunk_entry h lad info ctx i))"
    "hdr_handle (snd (chunk_entry h lad info ctx i)) = h"
    "dh_reqid (snd (chunk_entry h lad info ctx i)) = ri_reqid info"
    by (simp_all add: chunk_entry_def write_chunk_def Let_def)
  have "opcode (snd (chunk_entry h lad info ctx i)) = kData"
    by (simp add: chunk_entry_def write_chunk_def Let_def)
  then show "IsData (snd (chunk_entry h lad info ctx i))"
    using len nums(6) [of i] by (simp add: IsData_def word_less_nat_alt)
qed

text \<open>
  C3. Splitting a request: for a valid request with at most one chunk per byte and chunks that
  fit the 32-bit length field, \<^verbatim>\<open>processWrite\<close> passes its checks and queues chunk \<open>i\<close> on worker
  \<open>i mod |workers|\<close>, in increasing order; each chunk is not empty, knows its number, and takes
  its bytes from the source at its own offset; and every byte of the request lies in exactly
  one chunk.
\<close>
theorem processWrite_partitions:
  assumes "chunkable lad info" "ws \<noteq> []"
  shows "\<exists>ws' e'. processWrite ws h lad info ctx e = Inr (ws', e') \<and> length ws' = length ws \<and>
    (\<forall>j < length ws. wk_infos (ws' ! j) = wk_infos (ws ! j) \<and> wk_chunks (ws' ! j) = wk_chunks (ws ! j) @
       map (chunk_entry h lad info ctx) (filter (\<lambda>i. i mod length ws = j) [0..<unat (ri_nchunks info)])) \<and>
    (\<forall>i < unat (ri_nchunks info). let (src, d) = chunk_entry h lad info ctx i in
       IsData d \<and> hdr_handle d = h \<and> dh_reqid d = ri_reqid info \<and> unat (dh_index d) = i \<and>
       src = lad + dh_byte_offset d) \<and>
    (\<forall>x < unat (ri_total_len info). \<exists>!i. i < unat (ri_nchunks info) \<and>
       (let d = snd (chunk_entry h lad info ctx i)
        in unat (dh_byte_offset d) \<le> x \<and> x < unat (dh_byte_offset d) + unat (hdr_len d)))"
proof -
  let ?L = "unat (ri_total_len info)" and ?n = "unat (ri_nchunks info)"
  obtain e' where "processWrite ws h lad info ctx e =
      Inr (spread add_chunks (chunk_entry h lad info ctx) [0..<?n] ws, e')"
    using processWrite_spread [OF assms] by blast
  moreover have "\<exists>!i. i < ?n \<and> (let d = snd (chunk_entry h lad info ctx i)
      in unat (dh_byte_offset d) \<le> x \<and> x < unat (dh_byte_offset d) + unat (hdr_len d))" if "x < ?L" for x
  proof -
    have "(i < ?n \<and> (let d = snd (chunk_entry h lad info ctx i)
        in unat (dh_byte_offset d) \<le> x \<and> x < unat (dh_byte_offset d) + unat (hdr_len d))) \<longleftrightarrow>
        (i < ?n \<and> chunk_off ?L ?n i \<le> x \<and> x < chunk_off ?L ?n i + chunk_len ?L ?n i)" for i
      using chunk_entry_fields(1,2) [OF assms(1), of i h ctx] by (auto simp: Let_def)
    with chunk_partition [OF that chunkable_nums(1) [OF assms(1)]] show ?thesis by simp
  qed
  ultimately show ?thesis
    using chunk_entry_fields(3-7) [OF assms(1), of _ h ctx]
    by (auto simp: spread_def case_prod_beta Let_def)
qed

definition demo_info :: RequestInfo where
  "demo_info = demo_request_info\<lparr>ri_nchunks := 3, ri_total_len := 10\<rparr>"

definition demo_workers :: "(MemChannel \<times> MemWorld) Worker list" where
  "demo_workers = [Worker_new 1 (demo_channel []), Worker_new 2 (demo_channel [])]"

lemma demo_chunkable: "chunkable 0x2000 demo_info"
  by (simp add: chunkable_def demo_info_def demo_request_info_def RequestInfo_IsValid_def Recipe_IsValid_def)

theorem processWrite_partitions_witness:
  "\<exists>ws' e'. processWrite demo_workers 7 0x2000 demo_info TraceContext_new demo_env = Inr (ws', e') \<and>
     length (wk_chunks (ws' ! 0)) = 2 \<and> length (wk_chunks (ws' ! 1)) = 1"
proof -
  obtain ws' e' where w: "processWrite demo_workers 7 0x2000 demo_info TraceContext_new demo_env = Inr (ws', e')"
    "\<forall>j < length demo_workers. wk_infos (ws' ! j) = wk_infos (demo_workers ! j) \<and>
       wk_chunks (ws' ! j) = wk_chunks (demo_workers ! j) @ map (chunk_entry 7 0x2000 demo_info TraceContext_new)
         (filter (\<lambda>i. i mod length demo_workers = j) [0..<unat (ri_nchunks demo_info)])"
    using processWrite_partitions [OF demo_chunkable, of demo_workers 7 TraceContext_new demo_env]
    by (auto simp: demo_workers_def)
  have "length demo_workers = 2" "unat (ri_nchunks demo_info) = 3" "[0..<3] = [0, 1, 2 :: nat]"
    "\<forall>j < 2. wk_chunks (demo_workers ! j) = []"
    by (auto simp: demo_workers_def demo_info_def upt_rec Worker_new_def less_2_cases_iff)
  with w show ?thesis by auto
qed

theorem ids_unique_witness: "distinct (gen_handles 3 (projr (Engine_new
    \<lparr>transport_type = kAny, num_conns_per_peer = 2, require_dataplane_encryption = False\<rparr>
    HostInfo_default 4294967294 5 True None demo_env (\<lambda>_. 0) :: unit Engine res)))"
  using ids_unique [of 3 "projr (Engine_new
    \<lparr>transport_type = kAny, num_conns_per_peer = 2, require_dataplane_encryption = False\<rparr>
    HostInfo_default 4294967294 5 True None demo_env (\<lambda>_. 0) :: unit Engine res)"] by simp

text \<open>
  More chunks than bytes, as a peer can ask for in the descriptor of a read: some chunk is
  empty.
\<close>

lemma write_loop_empty_chunk:
  fixes info :: RequestInfo and ws :: "'s Worker list"
  assumes "k \<le> unat (ri_total_len info)" "unat (ri_total_len info) < unat (ri_nchunks info)"
    "lad \<noteq> 0" "unat lad + unat (ri_total_len info) < 2 ^ 64" "ws \<noteq> []"
  shows "write_loop h lad info ctx 0 (ri_total_len info) [k..<unat (ri_nchunks info)] (of_nat k) ws e =
    Inl DcheckFailed"
  using assms
proof (induction "unat (ri_total_len info) - k" arbitrary: k ws e)
  case (0 k ws e)
  then have k: "k = unat (ri_total_len info)" by simp
  let ?c = "write_chunk h info ctx k (of_nat k) 0"
  have "[k..<unat (ri_nchunks info)] = k # [Suc k..<unat (ri_nchunks info)]"
    using 0 k by (simp add: upt_conv_Cons)
  moreover have "\<not> IsData ?c" by (simp add: IsData_def write_chunk_def)
  then have "EnqueueChunk a ?c w e = Inl DcheckFailed" for a and w :: "'s Worker"
    by (simp add: EnqueueChunk_def dcheck_def)
  moreover have "\<not> (of_nat k :: u64) < ri_total_len info" using k by simp
  moreover have "k mod length ws < length ws" using 0 by simp
  ultimately show ?case by (simp add: Let_def)
next
  case (Suc m k ws e)
  then have k: "k < unat (ri_total_len info)" by simp
  then have lt: "(of_nat k :: u64) < ri_total_len info"
    using unat_u64_less [of "ri_total_len info"] by (simp add: word_less_nat_alt)
  let ?c = "write_chunk h info ctx k (of_nat k) 1"
  have c: "IsData ?c" "dh_byte_offset ?c = of_nat k" by (simp_all add: IsData_def write_chunk_def)
  have "unat (lad + of_nat k) = unat lad + k"
    using Suc.prems(4) k by (simp add: unat_word_ariths)
  then have a: "lad + of_nat k \<noteq> 0" using Suc.prems(3) by (metis add_is_0 unat_0 unat_eq_0)
  have upt: "[k..<unat (ri_nchunks info)] = k # [Suc k..<unat (ri_nchunks info)]"
    using k Suc.prems(2) by (simp add: upt_conv_Cons)
  have j: "k mod length ws < length ws" using Suc.prems(5) by simp
  have one: "(1 :: u64) \<le> 4294967295" by code_simp
  have "write_loop h lad info ctx 0 (ri_total_len info) [Suc k..<unat (ri_nchunks info)] (of_nat (Suc k)) ws' e' =
      Inl DcheckFailed" if "ws' \<noteq> []" for ws' :: "'s Worker list" and e'
    using Suc.hyps(1) [of "Suc k" ws' e'] Suc.hyps(2) Suc.prems(2-4) k that by simp
  then show ?case
    unfolding upt using lt c a j Suc.prems(5) one
    by (simp add: EnqueueChunk_def Let_def add.commute)
qed

text \<open>
  A request descriptor with more chunks than bytes, which passes the validity check on
  arrival, makes \<^verbatim>\<open>processWrite\<close> queue an empty chunk: the debug check of \<^verbatim>\<open>EnqueueChunk\<close> stops the
  process. The descriptors of a read reply come from the peer that asks for the read.
\<close>
theorem more_chunks_than_bytes:
  assumes "RequestInfo_IsValid info" "unat (ri_total_len info) < unat (ri_nchunks info)"
    "lad \<noteq> 0" "unat lad + unat (ri_total_len info) < 2 ^ 64" "ws \<noteq> []"
  shows "processWrite ws h lad info ctx e = Inl DcheckFailed"
proof -
  have n: "unat (ucast (ri_nchunks info) :: u64) = unat (ri_nchunks info)" by simp
  have "ri_total_len info div ucast (ri_nchunks info) = 0" "ri_total_len info mod ucast (ri_nchunks info) = ri_total_len info"
    using assms(2) by (auto intro!: unat_inject [THEN iffD1] simp: unat_div unat_mod simp del: unat_inject)
  with write_loop_empty_chunk [OF _ assms(2-5), of 0 h ctx e] assms(1,5) show ?thesis
    by (auto simp: processWrite_def Let_def dcheck_def)
qed

theorem more_chunks_than_bytes_witness:
  "RequestInfo_IsValid (demo_info\<lparr>ri_total_len := 2\<rparr>) \<and>
   processWrite demo_workers 7 0x2000 (demo_info\<lparr>ri_total_len := 2\<rparr>) TraceContext_new demo_env = Inl DcheckFailed"
proof -
  have "RequestInfo_IsValid (demo_info\<lparr>ri_total_len := 2\<rparr>)"
    by (simp add: demo_info_def demo_request_info_def RequestInfo_IsValid_def Recipe_IsValid_def)
  with more_chunks_than_bytes [of "demo_info\<lparr>ri_total_len := 2\<rparr>" "0x2000" demo_workers 7 TraceContext_new demo_env]
  show ?thesis by (simp add: demo_info_def demo_workers_def)
qed

end
