(* ===== verification/Posting.thy ===== *)
theory Posting
  imports EngineProps
begin

text \<open>
  A post of writes from \<^verbatim>\<open>Enqueue\<close> to the workers' queues: registration of the handle,
  generation of the descriptors, the batch header for every worker, and the chunks of every
  request spread over the workers.
\<close>

section \<open>The steps of processing a post of writes\<close>

text \<open>A write that \<open>n\<close> workers can send.\<close>

definition sendable :: "nat \<Rightarrow> Request \<Rightarrow> bool" where
  "sendable n req \<longleftrightarrow> IsValid_Request req \<and> req_op req = kWrite \<and> wf_Metadata (Types.metadata req) \<and>
     unat (laddr req) + unat (req_len req) \<le> 2 ^ 64 \<and>
     unat (req_len req) div min n (unat (req_len req)) < 4294967295"

text \<open>The descriptor \<^verbatim>\<open>process\<close> generates for a write.\<close>

definition describes :: "nat \<Rightarrow> Request \<Rightarrow> RequestInfo \<Rightarrow> bool" where
  "describes n req info \<longleftrightarrow> ri_raddr info = raddr req \<and> ri_total_len info = req_len req \<and>
     unat (ri_nchunks info) = min n (unat (req_len req)) \<and> ri_op info = Op_value kWrite \<and>
     ri_metadata info = Types.metadata req \<and> RequestInfo_IsValid info \<and> wf_RequestInfo info"

lemma gen_infos_write:
  assumes "0 < n" "n < 2 ^ 32" "list_all (sendable n) reqs"
  shows "\<exists>infos v'. gen_infos n True reqs v = Inr (infos, v') \<and> list_all2 (describes n) reqs infos \<and>
    map ri_reqid infos = map (\<lambda>k. (gen_id ^^ Suc k) v) [0..<length reqs]"
  using assms(3)
proof (induction reqs arbitrary: v)
  case (Cons req reqs)
  let ?n = "ucast (min (of_nat n) (req_len req) :: u64) :: u32"
  let ?info = "\<lparr>ri_reqid = gen_id v, ri_nchunks = ?n, ri_raddr = raddr req, ri_total_len = req_len req,
    ri_op = Op_value (req_op req), ri_recipe = \<lparr>rc_type = kContiguous, rc_params = replicate 32 0\<rparr>,
    ri_metadata = Types.metadata req\<rparr>"
  have req: "IsValid_Request req" "req_op req = kWrite" "wf_Metadata (Types.metadata req)" "0 < unat (req_len req)"
    using Cons.prems by (auto simp: sendable_def IsValid_Request_def word_le_nat_alt)
  have "unat (of_nat n :: u64) = n" using assms(2) by simp
  then have "unat (min (of_nat n) (req_len req)) = min n (unat (req_len req))"
    by (auto simp: min_def word_le_nat_alt)
  then have n: "unat ?n = min n (unat (req_len req))"
    using assms(2) by (simp add: unat_ucast_mod)
  then have "1 \<le> ?n" "0 < ?n" using assms(1) req(4) by (auto simp: word_le_nat_alt word_less_nat_alt)
  moreover have "0 < req_len req" using req(4) by (simp add: word_less_nat_alt)
  ultimately have "describes n req ?info"
    using n req by (simp add: describes_def RequestInfo_IsValid_def Recipe_IsValid_def wf_RequestInfo_def)
  moreover from Cons obtain infos v' where "gen_infos n True reqs (gen_id v) = Inr (infos, v')"
    "list_all2 (describes n) reqs infos" "map ri_reqid infos = map (\<lambda>k. (gen_id ^^ Suc k) (gen_id v)) [0..<length reqs]"
    by fastforce
  moreover have "[0..<length (req # reqs)] = 0 # map Suc [0..<length reqs]"
    by (simp add: map_Suc_upt upt_conv_Cons del: upt_Suc)
  ultimately show ?case
    using \<open>1 \<le> ?n\<close> req(1) by (simp add: Let_def comp_def funpow_swap1 del: upt_Suc)
qed simp

lemma record_dequeued_ok:
  assumes "list_all (IsValid_Request \<circ> fst) rs" "wf_Env e"
  shows "\<exists>e'. record_dequeued w ctx h rs e = Inr e' \<and> wf_Env e'"
  using assms
proof (induction rs arbitrary: e)
  case (Cons r rs)
  obtain req info where r: "r = (req, info)" by (cases r)
  have "\<exists>e1. request_size_Record w (req_len req) e = Inr e1 \<and> wf_Env e1"
    using Log2Histogram_Record_32 [of "request_size_bytes (em_write (env_metrics e))" "req_len req" 1]
      Log2Histogram_Record_32 [of "request_size_bytes (em_read (env_metrics e))" "req_len req" 1] Cons.prems(2)
    by (cases w) (auto simp: request_size_Record_def Let_def wf_Env_def wf_EngineMetrics_def wf_OpMetrics_def)
  then obtain e1 where "request_size_Record w (req_len req) e = Inr e1" "wf_Env e1" by blast
  with Cons.IH [of "RecordEngineDequeued ctx h (ri_reqid info) req e1"] Cons.prems(1) show ?case
    by (simp add: r wf_Env_def)
qed simp

lemma enqueue_infos_ok:
  assumes "PostInfoHeader_IsValid info" "reqs \<noteq> []" "\<not> IsOneSidedChannel (ch_Type ops)"
  shows "enqueue_infos ops info reqs ws = Inr (map (\<lambda>w. w\<lparr>wk_infos := wk_infos w @ [(info, reqs)]\<rparr>) ws)"
  using assms by (induction ws) (simp_all add: EnqueueInfo_def)

text \<open>The chunks worker \<open>j\<close> of \<open>n\<close> gets.\<close>

definition worker_chunks :: "Handle \<Rightarrow> TraceContext \<Rightarrow> nat \<Rightarrow> (Request \<times> RequestInfo) list \<Rightarrow> nat \<Rightarrow> ChunkEntry list" where
  "worker_chunks h ctx n rs j = concat (map (\<lambda>(req, info).
     map (chunk_entry h (laddr req) info ctx) (filter (\<lambda>i. i mod n = j) [0..<unat (ri_nchunks info)])) rs)"

lemma process_writes_ok:
  assumes "list_all (\<lambda>(req, info). chunkable (laddr req) info) rs" "ws \<noteq> []"
  shows "\<exists>e'. process_writes h ctx rs ws e =
      Inr (map (\<lambda>j. add_chunks (ws ! j) (worker_chunks h ctx (length ws) rs j)) [0..<length ws], e') \<and>
    wf_Env e' = wf_Env e"
  using assms
proof (induction rs arbitrary: ws e)
  case Nil
  then show ?case by (simp add: worker_chunks_def map_nth)
next
  case (Cons r rs)
  obtain req info where r: "r = (req, info)" by (cases r)
  let ?ws = "spread add_chunks (chunk_entry h (laddr req) info ctx) [0..<unat (ri_nchunks info)] ws"
  obtain e1 where "processWrite ws h (laddr req) info ctx e = Inr (?ws, e1)" "wf_Env e1 = wf_Env e"
    using processWrite_spread [of "laddr req" info ws h ctx e] Cons.prems by (auto simp: r)
  moreover have "?ws \<noteq> []" using Cons.prems(2) by (metis length_0_conv length_spread)
  with Cons.IH [of ?ws e1] Cons.prems(1) obtain e2 where "process_writes h ctx rs ?ws e1 =
      Inr (map (\<lambda>j. add_chunks (?ws ! j) (worker_chunks h ctx (length ?ws) rs j)) [0..<length ?ws], e2)" "wf_Env e2 = wf_Env e1"
    by auto
  moreover have "map (\<lambda>j. add_chunks (?ws ! j) (worker_chunks h ctx (length ?ws) rs j)) [0..<length ?ws] =
      map (\<lambda>j. add_chunks (ws ! j) (worker_chunks h ctx (length ws) (r # rs) j)) [0..<length ws]"
    by (auto simp: spread_def worker_chunks_def r)
  ultimately show ?case by (simp add: r)
qed

text \<open>The queues of the workers after a post of writes was processed.\<close>

definition queued :: "Handle \<Rightarrow> TraceContext \<Rightarrow> PostInfoHeader \<Rightarrow> (Request \<times> RequestInfo) list \<Rightarrow>
    's Worker list \<Rightarrow> 's Worker list" where
  "queued h ctx info rs ws = map (\<lambda>j. (ws ! j)\<lparr>wk_infos := wk_infos (ws ! j) @ [(info, map snd rs)],
     wk_chunks := wk_chunks (ws ! j) @ worker_chunks h ctx (length ws) rs j\<rparr>) [0..<length ws]"

lemma describes_chunkable:
  assumes "sendable n req" "describes n req info"
  shows "chunkable (laddr req) info"
  using assms by (auto simp: sendable_def describes_def chunkable_def IsValid_Request_def)

lemma post_info_header_valid:
  assumes "0 < k" "k * 128 \<le> 4294967295"
  shows "PostInfoHeader_IsValid (post_info_header listener h meta k)"
    "unat (hdr_len (post_info_header listener h meta k)) = k * 128"
    "pi_peer (post_info_header listener h meta k) = listener" "pi_metadata (post_info_header listener h meta k) = meta"
    "hdr_handle (post_info_header listener h meta k) = h" "opcode (post_info_header listener h meta k) = kPostInfo"
proof -
  show len: "unat (hdr_len (post_info_header listener h meta k)) = k * 128"
    using assms by (simp add: post_info_header_def kSerializedRequestInfoSize_def unat_of_nat_u32 del: of_nat_mult)
  show "pi_peer (post_info_header listener h meta k) = listener" "pi_metadata (post_info_header listener h meta k) = meta"
    "hdr_handle (post_info_header listener h meta k) = h" "opcode (post_info_header listener h meta k) = kPostInfo"
    by (simp_all add: post_info_header_def)
  then show "PostInfoHeader_IsValid (post_info_header listener h meta k)"
    using len assms
    by (simp add: PostInfoHeader_IsValid_def IsPostInfo_def kSerializedRequestInfoSize_def word_less_nat_alt
        unat_mod flip: unat_eq_0)
qed

section \<open>Processing, and the way there from \<^verbatim>\<open>Enqueue\<close>\<close>

text \<open>
  A registered post of writes whose requests the workers of its peer can send, and the
  outgoing tracker after its descriptors have been added.
\<close>

definition post_ready :: "'s Engine \<Rightarrow> PostEntry \<Rightarrow> OnComplete \<Rightarrow> bool" where
  "post_ready eng post cb \<longleftrightarrow> (let n = length (workers_of (pe_peer post) (send_workers eng)) in
     0 < n \<and> n < 2 ^ 32 \<and> pe_reqs post \<noteq> [] \<and> length (pe_reqs post) * 128 \<le> 4294967295 \<and>
     list_all (sendable n) (pe_reqs post) \<and> pe_req_infos post = [] \<and> wf_Env (sh_env (eg_sh eng)) \<and>
     (\<exists>pt. map_of (trackers (sh_out (eg_sh eng))) (Endpoint_default, pe_handle post) = Some pt \<and>
        req_map pt = [] \<and> is_initiator pt \<and> pt_on_complete pt = Some cb))"

definition tx_tracks :: "RequestTracker \<Rightarrow> Handle \<Rightarrow> RequestInfo list \<Rightarrow> OnComplete \<Rightarrow> chunk_key set \<Rightarrow> bool" where
  "tx_tracks rt h infos cb S \<longleftrightarrow> (\<exists>pt. map_of (trackers rt) (Endpoint_default, h) = Some pt \<and>
     tracks pt infos S \<and> pt_on_complete pt = Some cb)"

lemma process_write:
  fixes eng :: "'s Engine"
  assumes ok: "post_ready eng post cb" and ops: "\<not> IsOneSidedChannel (ch_Type ops)"
  defines "ws \<equiv> workers_of (pe_peer post) (send_workers eng)"
    and "info \<equiv> post_info_header (control_plane_listener (eg_self eng)) (pe_handle post) (pe_metadata post) (length (pe_reqs post))"
  shows "\<exists>infos eng'. process ops post eng = Inr ([], eng') \<and>
    list_all2 (describes (length ws)) (pe_reqs post) infos \<and> distinct (map ri_reqid infos) \<and>
    workers_of (pe_peer post) (send_workers eng') =
      queued (pe_handle post) (pe_trace_ctx post) info (zip (pe_reqs post) infos) ws \<and>
    tx_tracks (sh_out (eg_sh eng')) (pe_handle post) infos cb {} \<and>
    wf_Env (sh_env (eg_sh eng')) \<and> sh_mem (eg_sh eng') = sh_mem (eg_sh eng)"
proof -
  let ?n = "length ws" and ?reqs = "pe_reqs post" and ?h = "pe_handle post" and ?ctx = "pe_trace_ctx post"
  obtain pt where ok': "0 < ?n" "?n < 2 ^ 32" "?reqs \<noteq> []" "length ?reqs * 128 \<le> 4294967295"
    "list_all (sendable ?n) ?reqs" "pe_req_infos post = []" "wf_Env (sh_env (eg_sh eng))"
    and pt: "map_of (trackers (sh_out (eg_sh eng))) (Endpoint_default, ?h) = Some pt" "req_map pt = []"
      "is_initiator pt" "pt_on_complete pt = Some cb"
    using ok unfolding post_ready_def ws_def by (auto simp: Let_def)
  have w: "req_op (hd ?reqs) = kWrite" "list_all IsValid_Request ?reqs"
    using ok'(3,5) by (cases ?reqs; auto simp: sendable_def list_all_iff)+
  from gen_infos_write [OF ok'(1,2,5), of "next_reqid eng"] obtain infos v where
    gen: "gen_infos ?n True ?reqs (next_reqid eng) = Inr (infos, v)"
    and infos: "list_all2 (describes ?n) ?reqs infos" "map ri_reqid infos = map (\<lambda>k. (gen_id ^^ Suc k) (next_reqid eng)) [0..<length ?reqs]"
    by blast
  let ?eng = "eng\<lparr>next_reqid := v\<rparr>" and ?rs = "zip ?reqs infos"
  have len: "length infos = length ?reqs" using infos(1) by (simp add: list_all2_lengthD)
  have "distinct (map ri_reqid infos)" unfolding infos(2) using ok'(4) by (intro gen_ids_distinct(1)) simp
  moreover have "list_all RequestInfo_IsValid infos" "list_all (\<lambda>(req, info). chunkable (laddr req) info) ?rs"
    using infos(1) ok'(5)
    by (auto simp: list_all2_conv_all_nth list_all_length in_set_zip describes_def intro: describes_chunkable)
  moreover have "infos \<noteq> []" using len ok'(3) by auto
  ultimately have ids: "list_all RequestInfo_IsValid infos" "distinct (map ri_reqid infos)" "infos \<noteq> []"
    "list_all (\<lambda>(req, info). chunkable (laddr req) info) ?rs" by simp_all
  have "list_all (IsValid_Request \<circ> fst) ?rs" using w(2) by (auto simp: list_all_iff dest: set_zip_leftD)
  from record_dequeued_ok [OF this ok'(7), of True ?ctx ?h] obtain e1 where
    e1: "record_dequeued True ?ctx ?h ?rs (sh_env (eg_sh eng)) = Inr e1" "wf_Env e1"
    by blast
  from Add_reqs_initiator [OF pt(1-3) ids(1-3), of 0 Metadata_zero] obtain out pt' where
    out: "Add_reqs ?h infos 0 Metadata_zero Endpoint_default (sh_out (eg_sh eng)) = Inr (True, [], out)"
    "map_of (trackers out) (Endpoint_default, ?h) = Some pt'" "tracks pt' infos {}" "pt_on_complete pt' = Some cb"
    using pt(4) by auto
  have hdr: "PostInfoHeader_IsValid info"
    unfolding info_def using ok'(3,4) by (intro post_info_header_valid(1)) auto
  let ?ws = "map (\<lambda>w. w\<lparr>wk_infos := wk_infos w @ [(info, infos)]\<rparr>) ws"
  have enq: "enqueue_infos ops info infos ws = Inr ?ws"
    by (rule enqueue_infos_ok [OF hdr ids(3) ops])
  have "?ws \<noteq> []" using ok'(1) by auto
  from process_writes_ok [OF ids(4) this, of ?h ?ctx e1] obtain e2 where
    pw: "process_writes ?h ?ctx ?rs ?ws e1 =
      Inr (map (\<lambda>j. add_chunks (?ws ! j) (worker_chunks ?h ?ctx (length ?ws) ?rs j)) [0..<length ?ws], e2)" "wf_Env e2 = wf_Env e1"
    by blast
  have q: "map (\<lambda>j. add_chunks (?ws ! j) (worker_chunks ?h ?ctx (length ?ws) ?rs j)) [0..<length ?ws] =
      queued ?h ?ctx info ?rs ws"
    using len by (auto simp: queued_def add_chunks_def)
  let ?eng' = "put_workers (pe_peer post) (queued ?h ?ctx info ?rs ws) (set_env e2 (putRequestTracker (hd ?reqs) out (set_env e1 ?eng)))"
  have "process ops post eng = Inr ([], ?eng')"
    using ok'(1,3,4,6) w(1) gen e1(1) out(1) enq pw(1) len unfolding q
    by (auto simp: process_def process_infos_def Let_def ws_def [symmetric] info_def [symmetric] set_env_def
        getRequestTracker_def putRequestTracker_def kSerializedRequestInfoSize_def)
  moreover have "tx_tracks (sh_out (eg_sh ?eng')) ?h infos cb {}" "wf_Env (sh_env (eg_sh ?eng'))"
    "sh_mem (eg_sh ?eng') = sh_mem (eg_sh eng)" "workers_of (pe_peer post) (send_workers ?eng') = queued ?h ?ctx info ?rs ws"
    using out(2-4) w(1) pw(2) e1(2)
    by (auto simp: tx_tracks_def put_workers_def set_env_def putRequestTracker_def workers_of_def)
  ultimately show ?thesis using infos(1) ids(2) by blast
qed

section \<open>Handles from posting to polling\<close>

text \<open>The engine after \<^verbatim>\<open>mainLoop\<close> has connected to the peer, when it has too few workers.\<close>

definition connected :: "(Endpoint \<Rightarrow> 's list) \<Rightarrow> Endpoint \<Rightarrow> 's Engine \<Rightarrow> 's Engine" where
  "connected connect peer eng =
     (if int (length (workers_of peer (send_workers eng))) < num_conns_per_peer (eg_config eng)
      then createSendWorkers peer (connect peer) eng else eng)"

lemma connected_frame [simp]: "eg_sh (connected connect peer eng) = eg_sh eng"
  "next_reqid (connected connect peer eng) = next_reqid eng" "eg_self (connected connect peer eng) = eg_self eng"
  by (simp_all add: connected_def createSendWorkers_def)

lemma mainLoop_process:
  assumes "eg_posts eng = post # posts"
  shows "mainLoop_step ops connect eng =
    rbind (process ops post (connected connect (pe_peer post) (eng\<lparr>eg_posts := posts\<rparr>)))
      (\<lambda>(calls, eng3). Inr (LContinue, calls, eng3))"
  using assms by (simp add: mainLoop_step_def hasWork_def connected_def Let_def)

text \<open>A post waits in the queue, and its handle in the tracker of its direction.\<close>

definition item_post :: "Endpoint \<Rightarrow> Item \<Rightarrow> Handle \<Rightarrow> PostEntry" where
  "item_post peer item h = \<lparr>pe_peer = peer, pe_handle = h, pe_reqs = it_requests item, pe_req_infos = [],
     pe_metadata = it_metadata item, pe_trace_ctx = it_trace_ctx item\<rparr>"

lemma Enqueue_fresh:
  fixes eng :: "'s Engine"
  assumes "HasNonzeroIpPort peer" "Item_IsValid item" "req_op (hd (it_requests item)) = kWrite"
    "map_of (trackers (sh_out (eg_sh eng))) (Endpoint_default, gen_id (next_handle eng)) = None"
  shows "\<exists>eng1. Enqueue peer item eng = Inr (Inr (gen_id (next_handle eng)), eng1) \<and>
    eg_posts eng1 = eg_posts eng @ [item_post peer item (gen_id (next_handle eng))] \<and>
    map_of (trackers (sh_out (eg_sh eng1))) (Endpoint_default, gen_id (next_handle eng)) =
      Some (PostTracker_new\<lparr>pt_start_mono_us := it_start_mono_us item, pt_on_complete := it_on_complete item,
        pt_trace_ctx := it_trace_ctx item, is_initiator := True\<rparr>) \<and>
    sh_in (eg_sh eng1) = sh_in (eg_sh eng) \<and> sh_mem (eg_sh eng1) = sh_mem (eg_sh eng) \<and>
    wf_Env (sh_env (eg_sh eng1)) = wf_Env (sh_env (eg_sh eng)) \<and> eg_config eng1 = eg_config eng \<and>
    eg_self eng1 = eg_self eng \<and> send_workers eng1 = send_workers eng"
  using assms
  by (simp add: Enqueue_def genHandle_def Let_def getRequestTracker_def putRequestTracker_def set_env_def
      Add_handle_fresh item_post_def wf_Env_def)


text \<open>
  Polling a write without callback: once every chunk is acknowledged, \<^verbatim>\<open>QueryUpdate\<close> reports
  success, and only once: the handle is forgotten, and asking again says not found. Before
  that it reports that the write is in progress and changes nothing.
\<close>
theorem poll_reports_once:
  fixes eng :: "'s Engine"
  assumes "map_of (trackers (sh_out (eg_sh eng))) (Endpoint_default, h) = Some pt" "tracks pt reqs S" "reqs \<noteq> []"
    "map_of (trackers (sh_in (eg_sh eng))) (Endpoint_default, h) = None"
  shows "if covered reqs S
    then \<exists>eng1. QueryUpdate h eng = (Inr kSuccess, eng1) \<and> QueryUpdate h eng1 = (Inl NotFoundStatus, eng1)
    else QueryUpdate h eng = (Inr kInProgress, eng)"
  using assms isComplete_tracks [OF assms(2,3)]
  by (auto simp: QueryUpdate_def Check_def Remove_def Let_def IsInProgress_def IsCompleted_iff)


subsection \<open>Instances\<close>

definition demo_peer :: Endpoint where
  "demo_peer = \<lparr>ep_ip = IPv4 0x0100000A, ep_port = 10000\<rparr>"

definition demo_requests :: "Request list" where
  "demo_requests = [Request_new\<lparr>req_op := kWrite, laddr := 0x2000, raddr := 0x3000, req_len := 5\<rparr>]"

definition demo_engine :: "RequestTracker \<Rightarrow> (MemChannel \<times> MemWorld) Worker list \<Rightarrow> (MemChannel \<times> MemWorld) Engine" where
  "demo_engine out ws = \<lparr>eg_config = \<lparr>transport_type = kAny, num_conns_per_peer = 2, require_dataplane_encryption = False\<rparr>,
     eg_self = HostInfo_default\<lparr>control_plane_listener := demo_peer\<rparr>, eg_stop = False, next_handle = 6,
     next_reqid = 0, eg_posts = [], eg_sh = \<lparr>sh_out = out, sh_in = RequestTracker_new True None True,
       sh_env = demo_env, sh_mem = \<lambda>x. ucast x\<rparr>,
     send_workers = [(demo_peer, ws)], recv_workers = []\<rparr>"

definition demo_item :: Item where
  "demo_item = \<lparr>it_requests = demo_requests, it_on_complete = Some (UserCallback 3), it_metadata = Metadata_zero,
     it_start_mono_us = 5, it_trace_ctx = TraceContext_new\<rparr>"

lemma demo_sendable: "list_all (sendable 2) demo_requests"
  by (simp add: demo_requests_def sendable_def IsValid_Request_def Request_new_def)

lemma demo_peer_ok: "HasNonzeroIpPort demo_peer"
  by (simp add: demo_peer_def HasNonzeroIpPort_def IsZero_def)


lemma tracks_mark_exists:
  assumes "tracks pt reqs S" "r \<in> set reqs" "unat (i :: u32) < unat (ri_nchunks r)"
  shows "\<exists>pt'. tracks pt' reqs (insert (ri_reqid r, unat i) S)"
proof -
  obtain req where req: "map_of (req_map pt) (ri_reqid r) = Some req" "ct_total (rt_chunks req) = unat (ri_nchunks r)"
    "ct_status (rt_chunks req) = (\<lambda>k. if (ri_reqid r, k) \<in> S then kDone else kEmpty)"
    using assms(1,2) unfolding tracks_def by blast
  have "wf_ct (rt_chunks req)" using assms(1) req(1) by (auto simp: tracks_def dest: wf_PostTrackerD)
  moreover have "unat i < ct_total (rt_chunks req)" "ct_status (rt_chunks req) (unat i) \<noteq> kBusy"
    using req(2,3) assms(3) by simp_all
  ultimately obtain ct where "wf_ct ct" "ct_total ct = ct_total (rt_chunks req)"
    "ct_status ct = (ct_status (rt_chunks req))(unat i := kDone)"
    using ct_Set_ok by blast
  from tracks_mark [OF assms(1,2) req(1) this] show ?thesis by blast
qed

theorem poll_reports_once_witness:
  "\<exists>(eng :: (MemChannel \<times> MemWorld) Engine) eng1. QueryUpdate 7 eng = (Inr kSuccess, eng1) \<and>
     QueryUpdate 7 eng1 = (Inl NotFoundStatus, eng1)"
proof -
  let ?rt = "RequestTracker_new False None False" and ?r = "demo_request_info"
  have r: "ri_reqid ?r = 1" "unat (ri_nchunks ?r) = 2" by (simp_all add: demo_request_info_def)
  have "tracks (PostTracker_new\<lparr>req_map := map (req_entry ?rt Metadata_zero) [?r]\<rparr>) [?r] {}"
    using demo_request_info_ok by (intro tracks_initial) simp_all
  from tracks_mark_exists [OF this, of ?r 0] r obtain pt1 where "tracks pt1 [?r] {(1, 0)}" by auto
  from tracks_mark_exists [OF this, of ?r 1] r obtain pt where pt: "tracks pt [?r] {(1, 1), (1, 0)}" by auto
  let ?eng = "demo_engine (?rt\<lparr>trackers := [((Endpoint_default, 7), pt)]\<rparr>) []"
  have "map_of (trackers (sh_out (eg_sh ?eng))) (Endpoint_default, 7) = Some pt"
    "map_of (trackers (sh_in (eg_sh ?eng))) (Endpoint_default, 7) = None"
    by (simp_all add: demo_engine_def RequestTracker_new_def)
  moreover have "covered [?r] {(1, 1), (1, 0)}" using r by (auto simp: covered_def less_2_cases_iff)
  ultimately show ?thesis using poll_reports_once [of ?eng 7 pt, OF _ pt] by fastforce
qed


end
