(* ===== verification/Interleaving.thy ===== *)
theory Interleaving
  imports EngineProps
begin

text \<open>
  The receive threads of several workers. A batch arrives over several stream channels: on
  each its header, then some of its chunks. The threads of the workers interleave freely; the
  batch is registered by whichever header is read first, and the abstract receiver of
  \<open>Delivery\<close> describes the outcome of every interleaving.
\<close>

section \<open>Schedules\<close>

text \<open>
  Iterations of a loop of the workers, in the order \<open>js\<close>: worker \<open>j\<close> does as many steps as \<open>j\<close>
  occurs in \<open>js\<close>. The first result says whether all loops were still running.
\<close>

fun interleave :: "('s Worker \<Rightarrow> Shared \<Rightarrow> (LoopStep \<times> Call list \<times> 's Worker \<times> Shared) res) \<Rightarrow> nat list \<Rightarrow>
    's Worker list \<Rightarrow> Shared \<Rightarrow> (bool \<times> Call list \<times> 's Worker list \<times> Shared) res" where
  "interleave step [] ws sh = Inr (True, [], ws, sh)"
| "interleave step (j # js) ws sh =
     rbind (vec_at ws j) (\<lambda>w.
     rbind (step w sh) (\<lambda>(st, calls, w1, sh1).
     rbind (interleave step js (ws[j := w1]) sh1) (\<lambda>(ok, calls', ws2, sh2).
       Inr (st = LContinue \<and> ok, calls @ calls', ws2, sh2))))"

abbreviation recv_threads :: "fb_abi \<Rightarrow> 's ChannelOps \<Rightarrow> nat list \<Rightarrow> 's Worker list \<Rightarrow> Shared \<Rightarrow>
    (bool \<times> Call list \<times> 's Worker list \<times> Shared) res" where
  "recv_threads fb ops \<equiv> interleave (RecvLoop_step fb ops)"

abbreviation send_threads :: "fb_abi \<Rightarrow> 's ChannelOps \<Rightarrow> nat list \<Rightarrow> 's Worker list \<Rightarrow> Shared \<Rightarrow>
    (bool \<times> Call list \<times> 's Worker list \<times> Shared) res" where
  "send_threads fb ops \<equiv> interleave (SendLoop_step fb ops)"

text \<open>
  Schedules by invariants: \<open>I pos ws sh\<close> describes the state after \<open>pos ! j\<close> steps of worker \<open>j\<close>,
  \<open>lim j\<close> is the number of steps worker \<open>j\<close> can do, and \<open>R\<close> relates the calls made to the
  progress.
\<close>

lemma interleave_inv:
  assumes len: "\<And>pos ws sh. I pos ws sh \<Longrightarrow> length pos = length ws"
    and step: "\<And>pos ws sh j. I pos ws sh \<Longrightarrow> j < length ws \<Longrightarrow> pos ! j < lim j \<Longrightarrow>
      \<exists>calls w1 sh1. step (ws ! j) sh = Inr (LContinue, calls, w1, sh1) \<and>
        I (pos[j := Suc (pos ! j)]) (ws[j := w1]) sh1 \<and> R pos (pos[j := Suc (pos ! j)]) calls"
    and refl: "\<And>pos. R pos pos []"
    and trans: "\<And>p q r c c'. R p q c \<Longrightarrow> R q r c' \<Longrightarrow> R p r (c @ c')"
    and init: "I pos ws sh" "set js \<subseteq> {..<length ws}" "\<forall>j < length ws. pos ! j + count_list js j \<le> lim j"
  shows "\<exists>calls ws' sh' pos'. interleave step js ws sh = Inr (True, calls, ws', sh') \<and> I pos' ws' sh' \<and>
    length ws' = length ws \<and> (\<forall>j < length ws. pos' ! j = pos ! j + count_list js j) \<and> R pos pos' calls"
  using init
proof (induction js arbitrary: pos ws sh)
  case Nil
  then show ?case using refl by auto
next
  case (Cons j js)
  let ?pos = "pos[j := Suc (pos ! j)]"
  have j: "j < length ws" using Cons.prems(2) by simp
  with Cons.prems(3) have "pos ! j < lim j" by fastforce
  from step [OF Cons.prems(1) j this] obtain calls w1 sh1 where
    1: "step (ws ! j) sh = Inr (LContinue, calls, w1, sh1)" "I ?pos (ws[j := w1]) sh1" "R pos ?pos calls"
    by blast
  have cnt: "\<forall>i < length ws. ?pos ! i + count_list js i = pos ! i + count_list (j # js) i"
    using len [OF Cons.prems(1)] by (auto simp: nth_list_update)
  with Cons.prems(2,3) Cons.IH [OF 1(2)] obtain calls' ws' sh' pos' where
    2: "interleave step js (ws[j := w1]) sh1 = Inr (True, calls', ws', sh')" "I pos' ws' sh'"
    "length ws' = length ws" "\<forall>i < length ws. pos' ! i = ?pos ! i + count_list js i" "R ?pos pos' calls'"
    by auto
  with 1(1) cnt j trans [OF 1(3) 2(5)] show ?case by (auto simp: vec_at_def)
qed

text \<open>What a channel carries: the batch header first, then packets.\<close>

datatype rx_msg = MInfo | MData packet

fun rx_wire :: "fb_abi \<Rightarrow> PostInfoHeader \<Rightarrow> RequestInfo list \<Rightarrow> rx_msg \<Rightarrow> byte list" where
  "rx_wire fb info reqs MInfo = post_wire fb info reqs"
| "rx_wire fb info reqs (MData p) = packet_wire fb p"

definition rx_msgs :: "packet list \<Rightarrow> rx_msg list" where
  "rx_msgs ps = MInfo # map MData ps"

text \<open>A batch on its way: header, descriptors, destinations, and the packets of each channel.\<close>

record batch =
  b_info :: PostInfoHeader
  b_reqs :: "RequestInfo list"
  b_base :: "ReqId \<Rightarrow> addr_t"
  b_packets :: "packet list list"

text \<open>
  The state of the system after the channels have delivered \<open>pos ! j\<close> messages each: the set
  of chunks and the memory are those of the abstract receiver after some sequence of the
  packets consumed so far.
\<close>

definition consumed :: "batch \<Rightarrow> nat list \<Rightarrow> packet set" where
  "consumed b pos = (\<Union>j < length (b_packets b). set (take (pos ! j - 1) (b_packets b ! j)))"

definition chan_inv :: "fb_abi \<Rightarrow> 's ChannelOps \<Rightarrow> ('s \<Rightarrow> bool) \<Rightarrow> ('s \<Rightarrow> byte list) \<Rightarrow> ('s \<Rightarrow> byte list) \<Rightarrow>
    batch \<Rightarrow> packet list \<Rightarrow> nat \<Rightarrow> 's Worker \<Rightarrow> bool" where
  "chan_inv fb ops ready inbox outbox b ps k w \<longleftrightarrow> \<not> wk_stop w \<and> ready (wk_ch w) \<and>
     inbox (wk_ch w) = concat (map (rx_wire fb (b_info b) (b_reqs b)) (drop k (rx_msgs ps))) \<and>
     (0 < k \<longrightarrow> ch_GetPeer ops (wk_ch w) = pi_peer (b_info b)) \<and>
     (\<exists>acks. list_all2 is_ack_of acks (map fst (take (k - 1) ps)) \<and>
        outbox (wk_ch w) = concat (map (data_wire fb) acks))"

text \<open>Before the batch is registered, and after the packets \<open>seq\<close> of it have been taken.\<close>

definition rx_pending :: "batch \<Rightarrow> memory \<Rightarrow> Shared \<Rightarrow> bool" where
  "rx_pending b m0 sh \<longleftrightarrow> sh_mem sh = m0 \<and> recv_post_callback (sh_in sh) \<and>
     map_of (trackers (sh_in sh)) (pi_peer (b_info b), hdr_handle (b_info b)) = None \<and>
     (\<forall>r \<in> set (b_reqs b). b_base b (ri_reqid r) = resolve_addr (sh_in sh) (pi_metadata (b_info b)) r \<and>
        b_base b (ri_reqid r) \<noteq> 0)"

definition rx_running :: "batch \<Rightarrow> memory \<Rightarrow> packet list \<Rightarrow> Shared \<Rightarrow> bool" where
  "rx_running b m0 ps sh \<longleftrightarrow> sh_mem sh = fst (deliver_all (b_base b) ps (m0, {})) \<and>
     rx_tracks (sh_in sh) (pi_peer (b_info b)) (hdr_handle (b_info b)) (b_reqs b)
       (pi_metadata (b_info b)) (b_base b) (key ` set ps)"

definition rx_shared :: "batch \<Rightarrow> nat list \<Rightarrow> memory \<Rightarrow> RequestTracker \<Rightarrow> Shared \<Rightarrow> bool" where
  "rx_shared b pos m0 out sh \<longleftrightarrow> wf_Env (sh_env sh) \<and> sh_out sh = out \<and>
     (if \<forall>j < length (b_packets b). pos ! j = 0 then rx_pending b m0 sh
      else \<exists>ps. set ps = consumed b pos \<and> rx_running b m0 ps sh)"

definition wf_rx_batch :: "batch \<Rightarrow> bool" where
  "wf_rx_batch b \<longleftrightarrow> wf_batch (b_info b) (b_reqs b) \<and> HasNonzeroIpPort (pi_peer (b_info b)) \<and>
     ri_op (hd (b_reqs b)) = Op_value kWrite \<and>
     list_all (list_all (wf_packet (hdr_handle (b_info b)) (b_reqs b) (b_base b))) (b_packets b)"

definition rx_system :: "fb_abi \<Rightarrow> 's ChannelOps \<Rightarrow> ('s \<Rightarrow> bool) \<Rightarrow> ('s \<Rightarrow> byte list) \<Rightarrow> ('s \<Rightarrow> byte list) \<Rightarrow>
    batch \<Rightarrow> nat list \<Rightarrow> memory \<Rightarrow> RequestTracker \<Rightarrow> 's Worker list \<Rightarrow> Shared \<Rightarrow> bool" where
  "rx_system fb ops ready inbox outbox b pos m0 out ws sh \<longleftrightarrow>
     length ws = length (b_packets b) \<and> length pos = length ws \<and>
     (\<forall>j < length ws. pos ! j \<le> Suc (length (b_packets b ! j)) \<and>
        chan_inv fb ops ready inbox outbox b (b_packets b ! j) (pos ! j) (ws ! j)) \<and>
     rx_shared b pos m0 out sh"

lemma consumed_step:
  assumes "j < length (b_packets b)" "length pos = length (b_packets b)" "pos ! j \<le> length (b_packets b ! j)"
  shows "consumed b (pos[j := Suc (pos ! j)]) = (case pos ! j of 0 \<Rightarrow> consumed b pos
    | Suc k \<Rightarrow> insert (b_packets b ! j ! k) (consumed b pos))"
proof -
  have "set (take (pos[j := Suc (pos ! j)] ! i - 1) (b_packets b ! i)) =
      (if i = j then (case pos ! j of 0 \<Rightarrow> set (take (pos ! i - 1) (b_packets b ! i))
         | Suc k \<Rightarrow> insert (b_packets b ! j ! k) (set (take (pos ! i - 1) (b_packets b ! i))))
       else set (take (pos ! i - 1) (b_packets b ! i)))" if "i < length (b_packets b)" for i
    using assms that by (auto simp: nth_list_update take_Suc_conv_app_nth split: nat.splits)
  then show ?thesis using assms(1) by (auto simp: consumed_def split: if_splits nat.splits)
qed

lemma consumed_mono:
  assumes "\<forall>j < length (b_packets b). pos ! j \<le> pos' ! j"
  shows "consumed b pos \<subseteq> consumed b pos'"
  using assms unfolding consumed_def by (intro UN_mono set_take_subset_set_take) (auto intro: diff_le_mono)

text \<open>The calls made between two states: one report, when the batch becomes complete.\<close>

definition rx_calls :: "batch \<Rightarrow> nat list \<Rightarrow> nat list \<Rightarrow> Call list \<Rightarrow> bool" where
  "rx_calls b pos pos' calls \<longleftrightarrow> (\<forall>j < length (b_packets b). pos ! j \<le> pos' ! j) \<and>
     (if \<not> covered (b_reqs b) (key ` consumed b pos) \<and> covered (b_reqs b) (key ` consumed b pos')
      then recv_report (b_reqs b) (pi_metadata (b_info b)) calls else calls = [])"

lemma rx_calls_refl: "rx_calls b pos pos []"
  by (simp add: rx_calls_def)

lemma rx_calls_trans:
  assumes "rx_calls b p q c" "rx_calls b q r c'"
  shows "rx_calls b p r (c @ c')"
proof -
  have le: "\<forall>j < length (b_packets b). p ! j \<le> q ! j" "\<forall>j < length (b_packets b). q ! j \<le> r ! j"
    using assms by (auto simp: rx_calls_def)
  then have "covered (b_reqs b) (key ` consumed b p) \<Longrightarrow> covered (b_reqs b) (key ` consumed b q)"
    "covered (b_reqs b) (key ` consumed b q) \<Longrightarrow> covered (b_reqs b) (key ` consumed b r)"
    by (auto intro: covered_mono [OF _ image_mono [OF consumed_mono]])
  with assms le show ?thesis
    by (auto simp: rx_calls_def recv_report_def split: if_splits intro: le_trans)
qed

lemma consumed_none: "\<forall>j < length (b_packets b). pos ! j = 0 \<Longrightarrow> consumed b pos = {}"
  by (simp add: consumed_def)

context stream_transfer
begin

text \<open>An iteration of a receive loop is one call of \<^verbatim>\<open>Recv\<close>.\<close>

lemma recv_loop_iteration:
  assumes "\<not> wk_stop w" "Recv fb ops (wk_id w) (node_of (wk_ch w) sh) = Inr (True, calls, nd)"
  shows "RecvLoop_step fb ops w sh = Inr (LContinue, calls, w\<lparr>wk_ch := nd_ch nd\<rparr>, shared_of nd)"
  using assms stream_type by (simp add: RecvLoop_step_def Let_def IsTwoSidedChannel_def)

lemma recv_info:
  assumes w: "chan_inv fb ops ready inbox outbox b ps 0 w" and b: "wf_rx_batch b" and e: "wf_Env (sh_env sh)"
    and sh: "rx_pending b m0 sh \<and> seq = [] \<or> rx_running b m0 seq sh"
  shows "\<exists>nd'. Recv fb ops i (node_of (wk_ch w) sh) = Inr (True, [], nd') \<and>
    wf_Env (nd_env nd') \<and> rx_running b m0 seq (shared_of nd') \<and> nd_out nd' = sh_out sh \<and>
    chan_inv fb ops ready inbox outbox b ps 1 (w\<lparr>wk_ch := nd_ch nd'\<rparr>)"
proof -
  let ?nd = "node_of (wk_ch w) sh"
  have nd: "ready (nd_ch ?nd)" "wf_Env (nd_env ?nd)"
    "inbox (nd_ch ?nd) = post_wire fb (b_info b) (b_reqs b) @
      concat (map (rx_wire fb (b_info b) (b_reqs b)) (map MData ps))"
    "outbox (wk_ch w) = []"
    using w e by (auto simp: chan_inv_def node_of_def rx_msgs_def)
  have info: "wf_batch (b_info b) (b_reqs b)" "HasNonzeroIpPort (pi_peer (b_info b))"
    "ri_op (hd (b_reqs b)) = Op_value kWrite"
    using b by (simp_all add: wf_rx_batch_def)
  have "\<exists>nd'. Recv fb ops i ?nd = Inr (True, [], nd') \<and>
    rx_node ops ready nd' (pi_peer (b_info b)) (hdr_handle (b_info b)) (b_reqs b) (pi_metadata (b_info b)) (b_base b)
      (fst (deliver_all (b_base b) seq (m0, {})), key ` set seq) \<and>
    inbox (nd_ch nd') = concat (map (rx_wire fb (b_info b) (b_reqs b)) (map MData ps)) \<and>
    outbox (nd_ch nd') = outbox (nd_ch ?nd) \<and> nd_out nd' = nd_out ?nd"
    using sh
  proof (elim disjE conjE)
    assume "rx_pending b m0 sh" "seq = []"
    then have "sh_mem sh = m0" "recv_post_callback (nd_in ?nd)"
      "map_of (trackers (nd_in ?nd)) (pi_peer (b_info b), hdr_handle (b_info b)) = None"
      "\<forall>r \<in> set (b_reqs b). b_base b (ri_reqid r) = resolve_addr (nd_in ?nd) (pi_metadata (b_info b)) r \<and>
        b_base b (ri_reqid r) \<noteq> 0"
      by (auto simp: rx_pending_def node_of_def)
    with recv_batch [OF nd(1-3) info(1) disjI1 [OF info(2)] this(3,2) info(3) this(4), of i] \<open>seq = []\<close>
    show ?thesis by (simp add: node_of_def)
  next
    assume "rx_running b m0 seq sh"
    with recv_batch_again [OF nd(1-3) info(1,2), of "b_base b" "key ` set seq" i] show ?thesis
      by (simp add: rx_running_def node_of_def)
  qed
  then show ?thesis
    using w nd(4)
    by (auto simp: rx_node_def rx_running_def shared_of_def node_of_def chan_inv_def rx_msgs_def)
qed

lemma recv_data:
  assumes w: "chan_inv fb ops ready inbox outbox b ps (Suc k) w" "k < length ps" and e: "wf_Env (sh_env sh)"
    and p: "wf_packet (hdr_handle (b_info b)) (b_reqs b) (b_base b) (ps ! k)" and sh: "rx_running b m0 seq sh"
  shows "\<exists>calls nd'. Recv fb ops i (node_of (wk_ch w) sh) = Inr (True, calls, nd') \<and>
    wf_Env (nd_env nd') \<and> rx_running b m0 (seq @ [ps ! k]) (shared_of nd') \<and> nd_out nd' = sh_out sh \<and>
    chan_inv fb ops ready inbox outbox b ps (Suc (Suc k)) (w\<lparr>wk_ch := nd_ch nd'\<rparr>) \<and>
    (if \<not> covered (b_reqs b) (key ` set seq) \<and> covered (b_reqs b) (key ` set (seq @ [ps ! k]))
     then recv_report (b_reqs b) (pi_metadata (b_info b)) calls else calls = [])"
proof -
  let ?nd = "node_of (wk_ch w) sh" and ?p = "ps ! k"
  let ?ms = "deliver_all (b_base b) seq (m0, {})"
  obtain acks where acks: "list_all2 is_ack_of acks (map fst (take k ps))"
    "outbox (wk_ch w) = concat (map (data_wire fb) acks)"
    using w(1) by (auto simp: chan_inv_def)
  have ms: "snd ?ms = key ` set seq" by (simp add: deliver_all_keys)
  then have nd: "rx_node ops ready ?nd (pi_peer (b_info b)) (hdr_handle (b_info b)) (b_reqs b)
      (pi_metadata (b_info b)) (b_base b) ?ms"
    using w(1) e sh by (simp add: chan_inv_def rx_running_def rx_node_def node_of_def)
  have ib: "inbox (nd_ch ?nd) = packet_wire fb ?p @
      concat (map (rx_wire fb (b_info b) (b_reqs b)) (drop (Suc (Suc k)) (rx_msgs ps)))"
    using w by (simp add: chan_inv_def node_of_def rx_msgs_def drop_map flip: Cons_nth_drop_Suc)
  from recv_packet [OF nd p ib, of i] obtain calls nd' a where r: "Recv fb ops i ?nd = Inr (True, calls, nd')"
    "rx_node ops ready nd' (pi_peer (b_info b)) (hdr_handle (b_info b)) (b_reqs b) (pi_metadata (b_info b))
      (b_base b) (abs_deliver (b_base b) ?p ?ms)"
    "inbox (nd_ch nd') = concat (map (rx_wire fb (b_info b) (b_reqs b)) (drop (Suc (Suc k)) (rx_msgs ps)))"
    "is_ack_of a (fst ?p)" "outbox (nd_ch nd') = outbox (nd_ch ?nd) @ data_wire fb a" "nd_out nd' = nd_out ?nd"
    "if key ?p \<notin> snd ?ms \<and> covered (b_reqs b) (insert (key ?p) (snd ?ms))
     then recv_report (b_reqs b) (pi_metadata (b_info b)) calls else calls = []"
    unfolding recv_report_def by blast
  have "list_all2 is_ack_of (acks @ [a]) (map fst (take (Suc k) ps))"
    using acks(1) r(4) w(2) by (simp add: take_Suc_conv_app_nth list_all2_appendI)
  moreover have "outbox (nd_ch nd') = concat (map (data_wire fb) (acks @ [a]))"
    using r(5) acks(2) by (simp add: node_of_def)
  ultimately have "chan_inv fb ops ready inbox outbox b ps (Suc (Suc k)) (w\<lparr>wk_ch := nd_ch nd'\<rparr>)"
    using w(1) r(2,3) unfolding chan_inv_def by (auto simp: rx_node_def)
  moreover have "deliver_all (b_base b) (seq @ [?p]) (m0, {}) = abs_deliver (b_base b) ?p ?ms"
    by (simp add: deliver_all_def)
  then have "rx_running b m0 (seq @ [?p]) (shared_of nd')" "wf_Env (nd_env nd')"
    using r(2) ms by (simp_all add: rx_node_def rx_running_def shared_of_def)
  moreover have "\<not> covered (b_reqs b) (key ` set seq) \<and> covered (b_reqs b) (key ` set (seq @ [?p])) \<longleftrightarrow>
      key ?p \<notin> snd ?ms \<and> covered (b_reqs b) (insert (key ?p) (snd ?ms))"
    unfolding ms by (auto simp: insert_absorb dest: covered_has_packet [OF p])
  ultimately show ?thesis
    using r(1,6,7) by (auto simp: node_of_def)
qed

text \<open>An iteration of the receive loop of any worker that still has messages to read.\<close>

lemma recv_thread_step:
  assumes sys: "rx_system fb ops ready inbox outbox b pos m0 out ws sh" and b: "wf_rx_batch b"
    and j: "j < length ws" "pos ! j \<le> length (b_packets b ! j)"
  shows "\<exists>calls w1 sh1. RecvLoop_step fb ops (ws ! j) sh = Inr (LContinue, calls, w1, sh1) \<and>
    rx_system fb ops ready inbox outbox b (pos[j := Suc (pos ! j)]) m0 out (ws[j := w1]) sh1 \<and>
    (if \<not> covered (b_reqs b) (key ` consumed b pos) \<and> covered (b_reqs b) (key ` consumed b (pos[j := Suc (pos ! j)]))
     then recv_report (b_reqs b) (pi_metadata (b_info b)) calls else calls = [])"
proof -
  let ?w = "ws ! j" and ?ps = "b_packets b ! j" and ?pos = "pos[j := Suc (pos ! j)]"
  have len: "length ws = length (b_packets b)" "length pos = length ws" and sh: "rx_shared b pos m0 out sh"
    and ch: "\<And>i. i < length ws \<Longrightarrow> pos ! i \<le> Suc (length (b_packets b ! i)) \<and>
      chan_inv fb ops ready inbox outbox b (b_packets b ! i) (pos ! i) (ws ! i)"
    using sys by (auto simp: rx_system_def)
  have e: "wf_Env (sh_env sh)" "sh_out sh = out" using sh by (simp_all add: rx_shared_def)
  have w: "chan_inv fb ops ready inbox outbox b ?ps (pos ! j) ?w" using ch j(1) by blast
  note cs = consumed_step [of j b pos, unfolded len(1) [symmetric], OF j(1) len(2) j(2)]
  have "\<exists>calls nd' seq. Recv fb ops (wk_id ?w) (node_of (wk_ch ?w) sh) = Inr (True, calls, nd') \<and>
    wf_Env (nd_env nd') \<and> nd_out nd' = out \<and> set seq = consumed b ?pos \<and> rx_running b m0 seq (shared_of nd') \<and>
    chan_inv fb ops ready inbox outbox b ?ps (Suc (pos ! j)) (?w\<lparr>wk_ch := nd_ch nd'\<rparr>) \<and>
    (if \<not> covered (b_reqs b) (key ` consumed b pos) \<and> covered (b_reqs b) (key ` consumed b ?pos)
     then recv_report (b_reqs b) (pi_metadata (b_info b)) calls else calls = [])"
  proof (cases "pos ! j")
    case 0
    obtain seq where seq: "set seq = consumed b pos" "rx_pending b m0 sh \<and> seq = [] \<or> rx_running b m0 seq sh"
      using sh consumed_none [of b pos] by (auto simp: rx_shared_def split: if_splits)
    from recv_info [OF _ b e(1) seq(2), of ?ps ?w "wk_id ?w"] w 0 seq(1) cs e(2) show ?thesis by auto
  next
    case (Suc k)
    then obtain seq where seq: "set seq = consumed b pos" "rx_running b m0 seq sh"
      using sh j(1) len(1) by (auto simp: rx_shared_def split: if_splits)
    have "wf_packet (hdr_handle (b_info b)) (b_reqs b) (b_base b) (?ps ! k)"
      using b j len(1) Suc by (auto simp: wf_rx_batch_def list_all_length)
    from recv_data [OF w [unfolded Suc] _ e(1) this seq(2), of "wk_id ?w"] Suc j(2) obtain calls nd' where
      r: "Recv fb ops (wk_id ?w) (node_of (wk_ch ?w) sh) = Inr (True, calls, nd')" "wf_Env (nd_env nd')"
      "rx_running b m0 (seq @ [?ps ! k]) (shared_of nd')" "nd_out nd' = sh_out sh"
      "chan_inv fb ops ready inbox outbox b ?ps (Suc (Suc k)) (?w\<lparr>wk_ch := nd_ch nd'\<rparr>)"
      "if \<not> covered (b_reqs b) (key ` set seq) \<and> covered (b_reqs b) (key ` set (seq @ [?ps ! k]))
       then recv_report (b_reqs b) (pi_metadata (b_info b)) calls else calls = []"
      by auto
    have "set (seq @ [?ps ! k]) = consumed b ?pos" using cs Suc seq(1) by simp
    with r seq(1) Suc e(2) show ?thesis
      by (intro exI [of _ calls] exI [of _ nd'] exI [of _ "seq @ [?ps ! k]"]) metis
  qed
  then obtain calls nd' seq where r: "Recv fb ops (wk_id ?w) (node_of (wk_ch ?w) sh) = Inr (True, calls, nd')"
    "wf_Env (nd_env nd')" "nd_out nd' = out" "set seq = consumed b ?pos" "rx_running b m0 seq (shared_of nd')"
    "chan_inv fb ops ready inbox outbox b ?ps (Suc (pos ! j)) (?w\<lparr>wk_ch := nd_ch nd'\<rparr>)"
    "if \<not> covered (b_reqs b) (key ` consumed b pos) \<and> covered (b_reqs b) (key ` consumed b ?pos)
     then recv_report (b_reqs b) (pi_metadata (b_info b)) calls else calls = []"
    by blast
  have "rx_shared b ?pos m0 out (shared_of nd')"
    using r(2-5) j(1) len by (auto simp: rx_shared_def shared_of_def)
  then have "rx_system fb ops ready inbox outbox b ?pos m0 out (ws[j := ?w\<lparr>wk_ch := nd_ch nd'\<rparr>]) (shared_of nd')"
    using len ch r(6) j by (auto simp: rx_system_def nth_list_update)
  moreover have "\<not> wk_stop ?w" using w by (simp add: chan_inv_def)
  ultimately show ?thesis using recv_loop_iteration [OF _ r(1)] r(7) by blast
qed

text \<open>Any interleaving of the receive loops.\<close>

lemma recv_schedule:
  assumes "rx_system fb ops ready inbox outbox b pos m0 out ws sh" "wf_rx_batch b"
    "set js \<subseteq> {..<length ws}" "\<forall>j < length ws. pos ! j + count_list js j \<le> Suc (length (b_packets b ! j))"
  shows "\<exists>calls ws' sh' pos'. recv_threads fb ops js ws sh = Inr (True, calls, ws', sh') \<and>
    rx_system fb ops ready inbox outbox b pos' m0 out ws' sh' \<and> length ws' = length ws \<and>
    (\<forall>j < length ws. pos' ! j = pos ! j + count_list js j) \<and> rx_calls b pos pos' calls"
proof (rule interleave_inv [where I = "\<lambda>pos ws sh. rx_system fb ops ready inbox outbox b pos m0 out ws sh" and
      lim = "\<lambda>j. Suc (length (b_packets b ! j))" and R = "rx_calls b", OF _ _ _ _ assms(1,3,4)])
  fix pos ws sh j
  assume sys: "rx_system fb ops ready inbox outbox b pos m0 out ws sh" and j: "j < length ws"
    "pos ! j < Suc (length (b_packets b ! j))"
  then have "pos ! j \<le> length (b_packets b ! j)" by simp
  moreover have "\<forall>i < length (b_packets b). pos ! i \<le> pos[j := Suc (pos ! j)] ! i"
    using sys j(1) by (auto simp: rx_system_def nth_list_update)
  ultimately show "\<exists>calls w1 sh1. RecvLoop_step fb ops (ws ! j) sh = Inr (LContinue, calls, w1, sh1) \<and>
      rx_system fb ops ready inbox outbox b (pos[j := Suc (pos ! j)]) m0 out (ws[j := w1]) sh1 \<and>
      rx_calls b pos (pos[j := Suc (pos ! j)]) calls"
    using recv_thread_step [OF sys assms(2) j(1)] by (auto simp: rx_calls_def)
qed (auto simp: rx_system_def intro: rx_calls_refl rx_calls_trans)

end

section \<open>The memory of the abstract receiver\<close>

definition packet_dst :: "(ReqId \<Rightarrow> addr_t) \<Rightarrow> packet \<Rightarrow> addr_t" where
  "packet_dst base p = base (dh_reqid (fst p)) + dh_byte_offset (fst p)"

definition in_packet :: "(ReqId \<Rightarrow> addr_t) \<Rightarrow> addr_t \<Rightarrow> packet \<Rightarrow> bool" where
  "in_packet base x p \<longleftrightarrow> unat (x - packet_dst base p) < length (snd p)"

text \<open>
  Packets that carry the bytes of one picture \<open>V\<close> of the destination, and of which those with
  the same key have the same extent: then the order of delivery does not matter.
\<close>

definition picture :: "(ReqId \<Rightarrow> addr_t) \<Rightarrow> memory \<Rightarrow> packet set \<Rightarrow> bool" where
  "picture base V ps \<longleftrightarrow>
     (\<forall>p \<in> ps. length (snd p) \<le> 2 ^ 64 \<and>
        (\<forall>x. in_packet base x p \<longrightarrow> snd p ! unat (x - packet_dst base p) = V x)) \<and>
     (\<forall>p \<in> ps. \<forall>q \<in> ps. key p = key q \<longrightarrow> packet_dst base p = packet_dst base q \<and> length (snd p) = length (snd q))"

lemma deliver_all_mem:
  assumes "picture base V (set ps)"
  shows "fst (deliver_all base ps (m, S)) x =
    (if \<exists>p \<in> set ps. key p \<notin> S \<and> in_packet base x p then V x else m x)"
  using assms
proof (induction ps arbitrary: m S)
  case (Cons p ps)
  let ?m = "if key p \<in> S then m else mem_write (packet_dst base p) (snd p) m"
  have pic: "picture base V (set ps)" "length (snd p) \<le> 2 ^ 64"
    "in_packet base x p \<Longrightarrow> snd p ! unat (x - packet_dst base p) = V x"
    using Cons.prems unfolding picture_def list.set by blast+
  have same: "in_packet base x q = in_packet base x p" if "q \<in> set ps" "key q = key p" for q
  proof -
    have "packet_dst base q = packet_dst base p \<and> length (snd q) = length (snd p)"
      using Cons.prems that unfolding picture_def list.set by blast
    then show ?thesis by (simp add: in_packet_def)
  qed
  have "deliver_all base (p # ps) (m, S) = deliver_all base ps (?m, insert (key p) S)"
    by (auto simp: abs_deliver_def packet_dst_def insert_absorb)
  moreover have "?m x = (if key p \<notin> S \<and> in_packet base x p then V x else m x)"
    using pic(3) mem_write_at [OF pic(2), of "packet_dst base p" m x] by (simp add: in_packet_def)
  ultimately have "fst (deliver_all base (p # ps) (m, S)) x =
    (if \<exists>q \<in> set ps. key q \<notin> insert (key p) S \<and> in_packet base x q then V x
     else if key p \<notin> S \<and> in_packet base x p then V x else m x)"
    by (simp only: Cons.IH [OF pic(1)])
  also have "\<dots> = (if \<exists>q \<in> set (p # ps). key q \<notin> S \<and> in_packet base x q then V x else m x)"
    using same by auto
  finally show ?case .
qed simp

section \<open>Every interleaving delivers the batch\<close>

definition all_packets :: "batch \<Rightarrow> packet set" where
  "all_packets b = (\<Union>ps \<in> set (b_packets b). set ps)"

lemma consumed_all:
  assumes "\<forall>j < length (b_packets b). pos ! j = Suc (length (b_packets b ! j))"
  shows "consumed b pos = all_packets b"
  using assms by (auto simp: consumed_def all_packets_def set_conv_nth Bex_def)

context stream_transfer
begin

lemma recv_all:
  assumes sys: "rx_system fb ops ready inbox outbox b (replicate (length ws) 0) m0 out ws sh" and b: "wf_rx_batch b"
    and ne: "ws \<noteq> []" and js: "set js \<subseteq> {..<length ws}"
      "\<forall>j < length ws. count_list js j = Suc (length (b_packets b ! j))"
    and pic: "picture (b_base b) V (all_packets b)" and cov: "covered (b_reqs b) (key ` all_packets b)"
  shows "\<exists>calls ws' sh'. recv_threads fb ops js ws sh = Inr (True, calls, ws', sh') \<and>
    recv_report (b_reqs b) (pi_metadata (b_info b)) calls \<and> length ws' = length ws \<and>
    sh_out sh' = out \<and> (\<forall>x. sh_mem sh' x = (if \<exists>p \<in> all_packets b. in_packet (b_base b) x p then V x else m0 x)) \<and>
    (\<forall>j < length ws. inbox (wk_ch (ws' ! j)) = [] \<and>
       (\<exists>acks. list_all2 is_ack_of acks (map fst (b_packets b ! j)) \<and>
          outbox (wk_ch (ws' ! j)) = concat (map (data_wire fb) acks)))"
proof -
  have len: "length ws = length (b_packets b)" using sys by (simp add: rx_system_def)
  have "\<forall>j < length ws. replicate (length ws) 0 ! j + count_list js j \<le> Suc (length (b_packets b ! j))"
    using js(2) by simp
  from recv_schedule [OF sys b js(1) this] obtain calls ws' sh' pos where
    r: "recv_threads fb ops js ws sh = Inr (True, calls, ws', sh')"
    "rx_system fb ops ready inbox outbox b pos m0 out ws' sh'" "length ws' = length ws"
    "\<forall>j < length ws. pos ! j = replicate (length ws) 0 ! j + count_list js j"
    "rx_calls b (replicate (length ws) 0) pos calls"
    by blast
  have pos: "\<forall>j < length (b_packets b). pos ! j = Suc (length (b_packets b ! j))"
    using r(4) js(2) len by simp
  note all = consumed_all [OF pos]
  have "consumed b (replicate (length ws) 0) = {}" using len by (intro consumed_none) simp
  moreover have "\<not> covered (b_reqs b) {}"
    using nothing_covered [of "b_reqs b"] b by (auto simp: wf_rx_batch_def wf_batch_def list_all_iff)
  ultimately have "recv_report (b_reqs b) (pi_metadata (b_info b)) calls" using r(5) cov by (simp add: all rx_calls_def)
  moreover have "\<not> (\<forall>j < length (b_packets b). pos ! j = 0)" using pos ne len by (auto intro!: exI [of _ 0])
  then obtain ps where "set ps = all_packets b" "rx_running b m0 ps sh'" "sh_out sh' = out"
    using r(2) by (simp only: rx_system_def rx_shared_def all if_False) blast
  then have "sh_out sh' = out" "\<forall>x. sh_mem sh' x = (if \<exists>p \<in> all_packets b. in_packet (b_base b) x p then V x else m0 x)"
    using deliver_all_mem [of "b_base b" V ps m0 "{}"] pic by (auto simp: rx_running_def)
  moreover have "\<forall>j < length ws. inbox (wk_ch (ws' ! j)) = [] \<and>
       (\<exists>acks. list_all2 is_ack_of acks (map fst (b_packets b ! j)) \<and>
          outbox (wk_ch (ws' ! j)) = concat (map (data_wire fb) acks))"
    using r(2,3) pos len by (auto simp: rx_system_def chan_inv_def rx_msgs_def)
  ultimately show ?thesis using r(1,3) by blast
qed

end


subsection \<open>An instance\<close>

definition demo_batch :: batch where
  "demo_batch = \<lparr>b_info = demo_post\<lparr>hdr_len := 128\<rparr>, b_reqs = [demo_request_info], b_base = \<lambda>_. 4096,
     b_packets = map (\<lambda>p. [p]) demo_packets\<rparr>"

definition demo_picture :: memory where
  "demo_picture = mem_write 8192 [1, 2, 3] (mem_write 4096 [9] (\<lambda>_. 0))"

definition demo_rx :: "packet list \<Rightarrow> (MemChannel \<times> MemWorld) Worker" where
  "demo_rx ps = Worker_new (- 1) (demo_channel
     (map (rx_wire schema_fb (b_info demo_batch) (b_reqs demo_batch)) (rx_msgs ps)))"

definition demo_shared :: Shared where
  "demo_shared = \<lparr>sh_out = RequestTracker_new False None False, sh_in = RequestTracker_new True None False,
     sh_env = demo_env, sh_mem = \<lambda>_. 0\<rparr>"

lemma demo_batch_simps [simp]:
  "b_reqs demo_batch = [demo_request_info]" "b_base demo_batch = (\<lambda>_. 4096)"
  "b_packets demo_batch = map (\<lambda>p. [p]) demo_packets" "length demo_packets = 2" "hdr_handle (b_info demo_batch) = 7"
  by (simp_all add: demo_batch_def demo_packets_def demo_post_def)

lemma demo_batch_ok: "wf_rx_batch demo_batch"
proof -
  have "wf_batch (demo_post\<lparr>hdr_len := 128\<rparr>) [demo_request_info]"
    using demo_request_info_ok demo_headers_valid(3)
    by (simp add: wf_batch_def wf_PostInfoHeader_def demo_post_def)
  moreover have "HasNonzeroIpPort (pi_peer demo_post)"
    by (simp add: demo_post_def HasNonzeroIpPort_def IsZero_def)
  moreover have "list_all (wf_packet 7 [demo_request_info] (\<lambda>_. 4096)) demo_packets" by (rule demo_packets_ok)
  ultimately show ?thesis
    by (simp add: wf_rx_batch_def list.pred_map comp_def) (simp add: demo_batch_def demo_request_info_def)
qed

lemma demo_picture_ok: "picture (\<lambda>_. 4096) demo_picture (all_packets demo_batch)"
proof -
  obtain p q where pq: "demo_packets = [p, q]" "snd p = [1, 2, 3]" "snd q = [9]" "key p \<noteq> key q"
    "packet_dst (\<lambda>_. 4096) p = 8192" "packet_dst (\<lambda>_. 4096) q = 4096"
    by (simp add: demo_packets_def packet_dst_def key_def)
  have "demo_picture x = [1, 2, 3] ! unat (x - 8192)" if "unat (x - 8192) < 3" for x
    using that mem_write_at [of "[1, 2, 3]" 8192 "mem_write 4096 [9] (\<lambda>_. 0)" x]
    by (simp only: demo_picture_def) simp
  moreover have "demo_picture 4096 = 9" by (simp add: demo_picture_def)
  moreover have "x = 4096" if "unat (x - 4096 :: u64) < 1" for x
    using that by (simp add: unat_eq_0)
  ultimately show ?thesis
    using pq(2-6) by (auto simp: picture_def all_packets_def pq(1) in_packet_def)
qed

lemma demo_covered: "covered [demo_request_info] (key ` all_packets demo_batch)"
  by (auto simp: covered_def all_packets_def demo_packets_def key_def demo_request_info_def less_2_cases_iff)

lemma demo_wire: "x \<in> set (map (rx_wire schema_fb (b_info demo_batch) [demo_request_info]) (rx_msgs ps)) \<Longrightarrow>
   list_all (wf_packet 7 [demo_request_info] (\<lambda>_. 4096)) ps \<Longrightarrow> x \<noteq> []"
proof -
  assume x: "x \<in> set (map (rx_wire schema_fb (b_info demo_batch) [demo_request_info]) (rx_msgs ps))"
    and ps: "list_all (wf_packet 7 [demo_request_info] (\<lambda>_. 4096)) ps"
  have "post_wire schema_fb (b_info demo_batch) [demo_request_info] \<noteq> []"
    using mem_stream_transfer.post_wire [of "b_info demo_batch" "[demo_request_info]"] demo_batch_ok
    by (auto simp: wf_rx_batch_def kSize_def)
  moreover have "packet_wire schema_fb p \<noteq> []" if "p \<in> set ps" for p
    using ps that schema.data_wire(2) [OF IsData_valid(1), of "fst p"]
    by (auto simp: list_all_iff wf_packet_def packet_wire_def kSize_def)
  ultimately show ?thesis using x by (force simp: rx_msgs_def)
qed


end
