(* ===== verification/EndToEnd.thy ===== *)
theory EndToEnd
  imports Posting Interleaving
begin

text \<open>
  A post of writes from one engine to another: the send threads put the batch on the
  channels, the receive threads of the peer store it and acknowledge it, and the receive
  threads of the sender complete the handle, each group of threads in any order.
\<close>

section \<open>The send threads\<close>

text \<open>A worker whose queues held one batch header and the chunks \<open>cs\<close>, after \<open>k\<close> iterations.\<close>

definition tx_inv :: "fb_abi \<Rightarrow> ('s \<Rightarrow> bool) \<Rightarrow> ('s \<Rightarrow> byte list) \<Rightarrow> ('s \<Rightarrow> byte list) \<Rightarrow> memory \<Rightarrow>
    PostInfoHeader \<Rightarrow> RequestInfo list \<Rightarrow> ChunkEntry list \<Rightarrow> nat \<Rightarrow> 's Worker \<Rightarrow> bool" where
  "tx_inv fb ready inbox outbox m info reqs cs k w \<longleftrightarrow> ready (wk_ch w) \<and> \<not> wk_stop w \<and> inbox (wk_ch w) = [] \<and>
     wk_infos w = drop k [(info, reqs)] \<and> wk_chunks w = drop (k - 1) cs \<and>
     (\<exists>ps. list_all2 (sent_as m) ps (take (k - 1) cs) \<and>
        outbox (wk_ch w) = concat (map (rx_wire fb info reqs) (take k (rx_msgs ps))))"

definition tx_system :: "fb_abi \<Rightarrow> ('s \<Rightarrow> bool) \<Rightarrow> ('s \<Rightarrow> byte list) \<Rightarrow> ('s \<Rightarrow> byte list) \<Rightarrow>
    PostInfoHeader \<Rightarrow> RequestInfo list \<Rightarrow> ChunkEntry list list \<Rightarrow> memory \<Rightarrow> RequestTracker \<Rightarrow> RequestTracker \<Rightarrow>
    nat list \<Rightarrow> 's Worker list \<Rightarrow> Shared \<Rightarrow> bool" where
  "tx_system fb ready inbox outbox info reqs css m out inn pos ws sh \<longleftrightarrow>
     length ws = length css \<and> length pos = length ws \<and>
     (\<forall>j < length ws. pos ! j \<le> Suc (length (css ! j)) \<and>
        tx_inv fb ready inbox outbox m info reqs (css ! j) (pos ! j) (ws ! j)) \<and>
     wf_Env (sh_env sh) \<and> sh_mem sh = m \<and> sh_out sh = out \<and> sh_in sh = inn"

lemma tx_inv_end:
  assumes "tx_inv fb ready inbox outbox m info reqs cs (Suc (length cs)) w"
  shows "\<exists>ps. list_all2 (sent_as m) ps cs \<and> outbox (wk_ch w) = concat (map (rx_wire fb info reqs) (rx_msgs ps))"
proof -
  obtain ps where "list_all2 (sent_as m) ps cs"
    "outbox (wk_ch w) = concat (map (rx_wire fb info reqs) (take (Suc (length cs)) (rx_msgs ps)))"
    using assms by (auto simp: tx_inv_def)
  moreover from list_all2_lengthD [OF this(1)] have "take (Suc (length cs)) (rx_msgs ps) = rx_msgs ps"
    by (simp add: rx_msgs_def)
  ultimately show ?thesis by auto
qed

context stream_transfer
begin

lemma send_thread_info:
  assumes "tx_inv fb ready inbox outbox m info reqs cs 0 w" "wf_batch info reqs"
  shows "\<exists>w1. SendLoop_step fb ops w sh = Inr (LContinue, [], w1, sh) \<and>
    tx_inv fb ready inbox outbox m info reqs cs 1 w1"
proof -
  have w: "wk_infos w = (info, reqs) # []" "ready (wk_ch w)" "outbox (wk_ch w) = []"
    using assms(1) by (auto simp: tx_inv_def)
  from send_step_info [OF w(1,2) assms(2), of sh] obtain ch' where
    "SendLoop_step fb ops w sh = Inr (LContinue, [], w\<lparr>wk_infos := [], wk_ch := ch'\<rparr>, sh)"
    "ready ch'" "outbox ch' = post_wire fb info reqs" "inbox ch' = inbox (wk_ch w)"
    using w(3) by auto
  moreover from this(2-4) assms(1) have "tx_inv fb ready inbox outbox m info reqs cs 1 (w\<lparr>wk_infos := [], wk_ch := ch'\<rparr>)"
    by (auto simp: tx_inv_def rx_msgs_def)
  ultimately show ?thesis by blast
qed

lemma send_thread_chunk:
  assumes w: "tx_inv fb ready inbox outbox (sh_mem sh) info reqs cs (Suc k) w" and k: "k < length cs"
    and c: "wf_entry (cs ! k)"
  shows "\<exists>w1 e'. SendLoop_step fb ops w sh = Inr (LContinue, [], w1, sh\<lparr>sh_env := e'\<rparr>) \<and>
    wf_Env e' = wf_Env (sh_env sh) \<and> tx_inv fb ready inbox outbox (sh_mem sh) info reqs cs (Suc (Suc k)) w1"
proof -
  obtain ps where ps: "list_all2 (sent_as (sh_mem sh)) ps (take k cs)"
    "outbox (wk_ch w) = concat (map (rx_wire fb info reqs) (take (Suc k) (rx_msgs ps)))"
    using w by (auto simp: tx_inv_def)
  have len: "length ps = k" using list_all2_lengthD [OF ps(1)] k by simp
  have w': "wk_infos w = []" "wk_chunks w = cs ! k # drop (Suc k) cs" "ready (wk_ch w)"
    using w k by (simp_all add: tx_inv_def Cons_nth_drop_Suc)
  from send_step_chunk [OF w' c, of sh] obtain p ch' e' where
    s: "SendLoop_step fb ops w sh = Inr (LContinue, [], w\<lparr>wk_chunks := drop (Suc k) cs, wk_ch := ch'\<rparr>, sh\<lparr>sh_env := e'\<rparr>)"
    "ready ch'" "outbox ch' = outbox (wk_ch w) @ packet_wire fb p" "inbox ch' = inbox (wk_ch w)"
    "sent_as (sh_mem sh) p (cs ! k)" "wf_Env e' = wf_Env (sh_env sh)"
    by blast
  have "list_all2 (sent_as (sh_mem sh)) (ps @ [p]) (take (Suc k) cs)"
    using ps(1) s(5) k by (simp add: take_Suc_conv_app_nth list_all2_appendI)
  moreover have "outbox ch' = concat (map (rx_wire fb info reqs) (take (Suc (Suc k)) (rx_msgs (ps @ [p]))))"
    using ps(2) s(3) len by (simp add: rx_msgs_def)
  ultimately have "tx_inv fb ready inbox outbox (sh_mem sh) info reqs cs (Suc (Suc k))
      (w\<lparr>wk_chunks := drop (Suc k) cs, wk_ch := ch'\<rparr>)"
    using w s(2,4) w'(1) unfolding tx_inv_def by auto
  with s(1,6) show ?thesis by blast
qed

lemma send_all:
  assumes sys: "tx_system fb ready inbox outbox info reqs css m out inn (replicate (length ws) 0) ws sh"
    and b: "wf_batch info reqs" "list_all (list_all wf_entry) css"
    and js: "set js \<subseteq> {..<length ws}" "\<forall>j < length ws. count_list js j = Suc (length (css ! j))"
  shows "\<exists>ws' sh' pss. send_threads fb ops js ws sh = Inr (True, [], ws', sh') \<and> length ws' = length ws \<and>
    wf_Env (sh_env sh') \<and> sh_mem sh' = m \<and> sh_out sh' = out \<and> sh_in sh' = inn \<and>
    list_all2 (list_all2 (sent_as m)) pss css \<and>
    (\<forall>j < length ws. ready (wk_ch (ws' ! j)) \<and> \<not> wk_stop (ws' ! j) \<and> inbox (wk_ch (ws' ! j)) = [] \<and>
       outbox (wk_ch (ws' ! j)) = concat (map (rx_wire fb info reqs) (rx_msgs (pss ! j))))"
proof -
  let ?I = "tx_system fb ready inbox outbox info reqs css m out inn"
  have step: "\<exists>calls w1 sh1. SendLoop_step fb ops (ws ! j) sh = Inr (LContinue, calls, w1, sh1) \<and>
      ?I (pos[j := Suc (pos ! j)]) (ws[j := w1]) sh1 \<and> calls = []"
    if I: "?I pos ws sh" and j: "j < length ws" "pos ! j < Suc (length (css ! j))" for pos ws sh j
  proof -
    have w: "tx_inv fb ready inbox outbox m info reqs (css ! j) (pos ! j) (ws ! j)" and m: "sh_mem sh = m"
      and len: "length ws = length css" using I j(1) by (auto simp: tx_system_def)
    have "\<exists>w1 e'. SendLoop_step fb ops (ws ! j) sh = Inr (LContinue, [], w1, sh\<lparr>sh_env := e'\<rparr>) \<and>
      wf_Env e' = wf_Env (sh_env sh) \<and> tx_inv fb ready inbox outbox m info reqs (css ! j) (Suc (pos ! j)) w1"
    proof (cases "pos ! j")
      case 0
      have "sh = sh\<lparr>sh_env := sh_env sh\<rparr>" by simp
      with send_thread_info [of m info reqs "css ! j" "ws ! j" sh] w b(1) 0 show ?thesis
        by (metis One_nat_def)
    next
      case (Suc k)
      have "wf_entry (css ! j ! k)" using b(2) j len Suc by (auto simp: list_all_length)
      with send_thread_chunk [of sh info reqs "css ! j" k "ws ! j"] w m j(2) Suc show ?thesis by auto
    qed
    then show ?thesis using I j by (fastforce simp: tx_system_def nth_list_update)
  qed
  have len: "length pos = length ws" if "?I pos ws sh" for pos and ws :: "'s Worker list" and sh
    using that by (simp add: tx_system_def)
  have "\<forall>j < length ws. replicate (length ws) 0 ! j + count_list js j \<le> Suc (length (css ! j))"
    using js(2) by simp
  then have "\<exists>calls ws' sh' pos'. send_threads fb ops js ws sh = Inr (True, calls, ws', sh') \<and> ?I pos' ws' sh' \<and>
    length ws' = length ws \<and> (\<forall>j < length ws. pos' ! j = replicate (length ws) 0 ! j + count_list js j) \<and> calls = []"
    by (intro interleave_inv [where I = ?I and lim = "\<lambda>j. Suc (length (css ! j))" and R = "\<lambda>_ _ calls. calls = []"]
        sys js(1)) (auto dest: step len)
  then obtain ws' sh' pos where r: "send_threads fb ops js ws sh = Inr (True, [], ws', sh')" "?I pos ws' sh'"
    "length ws' = length ws" "\<forall>j < length ws. pos ! j = Suc (length (css ! j))"
    using js(2) by auto
  then have "\<forall>j < length css. \<exists>ps. list_all2 (sent_as m) ps (css ! j) \<and>
      outbox (wk_ch (ws' ! j)) = concat (map (rx_wire fb info reqs) (rx_msgs ps))"
    by (auto simp: tx_system_def intro: tx_inv_end)
  then obtain f where f: "\<forall>j < length css. list_all2 (sent_as m) (f j) (css ! j) \<and>
      outbox (wk_ch (ws' ! j)) = concat (map (rx_wire fb info reqs) (rx_msgs (f j)))"
    by metis
  have "list_all2 (list_all2 (sent_as m)) (map f [0..<length css]) css"
    using f by (simp add: list_all2_conv_all_nth)
  moreover have "\<forall>j < length ws. ready (wk_ch (ws' ! j)) \<and> \<not> wk_stop (ws' ! j) \<and> inbox (wk_ch (ws' ! j)) = [] \<and>
       outbox (wk_ch (ws' ! j)) = concat (map (rx_wire fb info reqs) (rx_msgs (map f [0..<length css] ! j)))"
    using f r(2,3) by (auto simp: tx_system_def tx_inv_def)
  ultimately show ?thesis using r by (auto simp: tx_system_def)
qed

end

section \<open>The acknowledgments\<close>

definition acked :: "DataHeader list list \<Rightarrow> nat list \<Rightarrow> chunk_key set" where
  "acked ackss pos = (\<Union>j < length ackss. ack_key ` set (take (pos ! j) (ackss ! j)))"

lemma acked_step:
  assumes "j < length ackss" "length pos = length ackss" "pos ! j < length (ackss ! j)"
  shows "acked ackss (pos[j := Suc (pos ! j)]) = insert (ack_key (ackss ! j ! (pos ! j))) (acked ackss pos)"
proof -
  have "ack_key ` set (take (pos[j := Suc (pos ! j)] ! i) (ackss ! i)) =
      (if i = j then insert (ack_key (ackss ! j ! (pos ! j))) (ack_key ` set (take (pos ! i) (ackss ! i)))
       else ack_key ` set (take (pos ! i) (ackss ! i)))" if "i < length ackss" for i
    using assms that by (auto simp: nth_list_update take_Suc_conv_app_nth)
  then show ?thesis using assms(1) by (auto simp: acked_def split: if_splits)
qed

text \<open>The sender after \<open>pos ! j\<close> acknowledgments have been read from channel \<open>j\<close>.\<close>

definition ack_system :: "fb_abi \<Rightarrow> ('s \<Rightarrow> bool) \<Rightarrow> ('s \<Rightarrow> byte list) \<Rightarrow> Handle \<Rightarrow> RequestInfo list \<Rightarrow>
    OnComplete \<Rightarrow> DataHeader list list \<Rightarrow> nat list \<Rightarrow> 's Worker list \<Rightarrow> Shared \<Rightarrow> bool" where
  "ack_system fb ready inbox h infos cb ackss pos ws sh \<longleftrightarrow>
     length ws = length ackss \<and> length pos = length ws \<and> wf_Env (sh_env sh) \<and>
     (\<forall>j < length ws. pos ! j \<le> length (ackss ! j) \<and> ready (wk_ch (ws ! j)) \<and> \<not> wk_stop (ws ! j) \<and>
        inbox (wk_ch (ws ! j)) = concat (map (data_wire fb) (drop (pos ! j) (ackss ! j)))) \<and>
     (if covered infos (acked ackss pos)
      then map_of (trackers (sh_out sh)) (Endpoint_default, h) = None
      else tx_tracks (sh_out sh) h infos cb (acked ackss pos))"

text \<open>The calls made between two states: the completion, once, when the last chunk is acknowledged.\<close>

definition completion :: "OnComplete \<Rightarrow> Handle \<Rightarrow> Call list \<Rightarrow> bool" where
  "completion cb h calls \<longleftrightarrow> (\<exists>ctx w. calls = [CallComplete cb kSuccess, CallbackDone ctx h w])"

definition ack_calls :: "RequestInfo list \<Rightarrow> OnComplete \<Rightarrow> Handle \<Rightarrow> DataHeader list list \<Rightarrow> nat list \<Rightarrow> nat list \<Rightarrow>
    Call list \<Rightarrow> bool" where
  "ack_calls infos cb h ackss pos pos' calls \<longleftrightarrow> acked ackss pos \<subseteq> acked ackss pos' \<and>
     (if \<not> covered infos (acked ackss pos) \<and> covered infos (acked ackss pos')
      then completion cb h calls else calls = [])"

lemma ack_calls_refl: "ack_calls infos cb h ackss pos pos []"
  by (simp add: ack_calls_def)

lemma ack_calls_trans:
  assumes "ack_calls infos cb h ackss p q c" "ack_calls infos cb h ackss q r c'"
  shows "ack_calls infos cb h ackss p r (c @ c')"
  using assms covered_mono [of infos "acked ackss p" "acked ackss q"] covered_mono [of infos "acked ackss q" "acked ackss r"]
  by (auto simp: ack_calls_def completion_def split: if_splits)

context stream_transfer
begin

lemma ack_thread_step:
  assumes sys: "ack_system fb ready inbox h infos cb ackss pos ws sh" and infos: "infos \<noteq> []"
    "list_all (list_all (wf_ack h infos)) ackss" and j: "j < length ws" "pos ! j < length (ackss ! j)"
  shows "\<exists>calls w1 sh1. RecvLoop_step fb ops (ws ! j) sh = Inr (LContinue, calls, w1, sh1) \<and>
    ack_system fb ready inbox h infos cb ackss (pos[j := Suc (pos ! j)]) (ws[j := w1]) sh1 \<and>
    ack_calls infos cb h ackss pos (pos[j := Suc (pos ! j)]) calls"
proof -
  let ?w = "ws ! j" and ?a = "ackss ! j ! (pos ! j)" and ?S = "acked ackss pos" and ?pos = "pos[j := Suc (pos ! j)]"
  let ?nd = "node_of (wk_ch ?w) sh" and ?e = "RecordTxAckRcvd (ackss ! j ! (pos ! j)) (sh_env sh)"
  have len: "length ws = length ackss" "length pos = length ws" and e: "wf_Env ?e"
    and tr: "if covered infos ?S then map_of (trackers (sh_out sh)) (Endpoint_default, h) = None
      else tx_tracks (sh_out sh) h infos cb ?S"
    and w: "ready (nd_ch ?nd)" "\<not> wk_stop ?w"
      "inbox (nd_ch ?nd) = data_wire fb ?a @ concat (map (data_wire fb) (drop (Suc (pos ! j)) (ackss ! j)))"
    using sys j by (auto simp: ack_system_def node_of_def wf_Env_def simp flip: Cons_nth_drop_Suc)
  have a: "wf_ack h infos ?a" using infos(2) j len by (auto simp: list_all_length)
  then obtain r where r: "r \<in> set infos" "ri_reqid r = dh_reqid ?a" "unat (dh_index ?a) < unat (ri_nchunks r)"
    by (auto simp: wf_ack_def)
  have S: "acked ackss ?pos = insert (ack_key ?a) ?S" using acked_step len j by simp
  have "\<exists>calls e' out. Update h (dh_reqid ?a) (dh_index ?a) (wk_id ?w) Endpoint_default ?e (sh_out sh) =
      Inr (calls, e', out) \<and> wf_Env e' \<and> ack_calls infos cb h ackss pos ?pos calls \<and>
      (if covered infos (acked ackss ?pos) then map_of (trackers out) (Endpoint_default, h) = None
       else tx_tracks out h infos cb (acked ackss ?pos))"
  proof (cases "covered infos ?S")
    case True
    then have "covered infos (acked ackss ?pos)" unfolding S by (rule covered_mono) blast
    with True tr e S show ?thesis by (auto simp: Update_def ack_calls_def)
  next
    case False
    then obtain pt where pt: "map_of (trackers (sh_out sh)) (Endpoint_default, h) = Some pt" "tracks pt infos ?S"
      "pt_on_complete pt = Some cb"
      using tr by (auto simp: tx_tracks_def)
    obtain e' out where
      u: "Update h (dh_reqid ?a) (dh_index ?a) (wk_id ?w) Endpoint_default ?e (sh_out sh) =
        Inr (if covered infos (acked ackss ?pos)
             then [CallComplete cb kSuccess, CallbackDone (pt_trace_ctx pt) h (wk_id ?w)] else [], e', out)" "wf_Env e'"
        "if covered infos (acked ackss ?pos) then map_of (trackers out) (Endpoint_default, h) = None
         else \<exists>pt'. map_of (trackers out) (Endpoint_default, h) = Some pt' \<and> tracks pt' infos (acked ackss ?pos) \<and>
           pt_on_complete pt' = Some cb \<and> pt_trace_ctx pt' = pt_trace_ctx pt"
      using Update_tracks [OF pt(1,2) infos(1) r(1,3) pt(3) e, of "wk_id ?w"]
      unfolding r(2) S ack_key_def by blast
    have "?S \<subseteq> acked ackss ?pos" using S by blast
    with u False show ?thesis
      by (cases "covered infos (acked ackss ?pos)") (auto simp: ack_calls_def completion_def tx_tracks_def)
  qed
  then obtain calls e' out where u: "Update h (dh_reqid ?a) (dh_index ?a) (wk_id ?w) Endpoint_default ?e (sh_out sh) =
      Inr (calls, e', out)" "wf_Env e'" "ack_calls infos cb h ackss pos ?pos calls"
    "if covered infos (acked ackss ?pos) then map_of (trackers out) (Endpoint_default, h) = None
     else tx_tracks out h infos cb (acked ackss ?pos)"
    by blast
  from recv_ack [OF w(1) a w(3), of "wk_id ?w" calls e' out] u(1) obtain ch1 where
    ch1: "Recv fb ops (wk_id ?w) ?nd = Inr (True, calls, ?nd\<lparr>nd_ch := ch1, nd_env := e', nd_out := out\<rparr>)"
    "ready ch1" "inbox ch1 = concat (map (data_wire fb) (drop (Suc (pos ! j)) (ackss ! j)))"
    by (auto simp: node_of_def)
  let ?sh = "shared_of (?nd\<lparr>nd_ch := ch1, nd_env := e', nd_out := out\<rparr>)"
  have "ack_system fb ready inbox h infos cb ackss ?pos (ws[j := ?w\<lparr>wk_ch := ch1\<rparr>]) ?sh"
    using sys u(2,4) ch1(2,3) w(2) j len unfolding ack_system_def
    by (auto simp: nth_list_update shared_of_def node_of_def)
  with recv_loop_iteration [OF w(2) ch1(1)] u(3) show ?thesis by auto
qed

lemma ack_all:
  assumes sys: "ack_system fb ready inbox h infos cb ackss (replicate (length ws) 0) ws sh" and infos: "infos \<noteq> []"
    "list_all (list_all (wf_ack h infos)) ackss" "\<not> covered infos {}"
    and js: "set js \<subseteq> {..<length ws}" "\<forall>j < length ws. count_list js j = length (ackss ! j)"
    and cov: "covered infos (\<Union>acks \<in> set ackss. ack_key ` set acks)"
  shows "\<exists>calls ws' sh'. recv_threads fb ops js ws sh = Inr (True, calls, ws', sh') \<and> completion cb h calls \<and>
    Check h Endpoint_default (sh_out sh') = kNotFound"
proof -
  let ?I = "ack_system fb ready inbox h infos cb ackss" and ?p = "replicate (length ws) (0 :: nat)"
  have len: "length pos = length ws" if "?I pos ws sh" for pos and ws :: "'s Worker list" and sh
    using that by (simp add: ack_system_def)
  have "\<forall>j < length ws. ?p ! j + count_list js j \<le> length (ackss ! j)" using js(2) by simp
  then have "\<exists>calls ws' sh' pos'. recv_threads fb ops js ws sh = Inr (True, calls, ws', sh') \<and> ?I pos' ws' sh' \<and>
    length ws' = length ws \<and> (\<forall>j < length ws. pos' ! j = ?p ! j + count_list js j) \<and> ack_calls infos cb h ackss ?p pos' calls"
    by (intro interleave_inv [where I = ?I and lim = "\<lambda>j. length (ackss ! j)" and R = "ack_calls infos cb h ackss"] sys js(1))
      (auto dest: len ack_thread_step [OF _ infos(1,2)] intro: ack_calls_trans ack_calls_refl)
  then obtain calls ws' sh' pos where r: "recv_threads fb ops js ws sh = Inr (True, calls, ws', sh')" "?I pos ws' sh'"
    "\<forall>j < length ws. pos ! j = length (ackss ! j)" "ack_calls infos cb h ackss ?p pos calls"
    using js(2) by auto
  have lw: "length ws = length ackss" using sys by (simp add: ack_system_def)
  then have "acked ackss pos = (\<Union>acks \<in> set ackss. ack_key ` set acks)" "acked ackss ?p = {}"
    using r(3) by (auto simp: acked_def set_conv_nth)
  then have "covered infos (acked ackss pos)" "\<not> covered infos (acked ackss ?p)" using cov infos(3) by simp_all
  with r show ?thesis by (auto simp: ack_calls_def ack_system_def Check_def)
qed

end

section \<open>The packets of a post\<close>

lemma list_all2_left: "list_all2 P xs ys \<Longrightarrow> x \<in> set xs \<Longrightarrow> \<exists>y \<in> set ys. P x y"
  by (induction rule: list_all2_induct) auto

lemma list_all2_right: "list_all2 P xs ys \<Longrightarrow> y \<in> set ys \<Longrightarrow> \<exists>x \<in> set xs. P x y"
  by (induction rule: list_all2_induct) auto

definition dst_of :: "RequestInfo list \<Rightarrow> ReqId \<Rightarrow> addr_t" where
  "dst_of infos rid = (case map_of (map (\<lambda>i. (ri_reqid i, ri_raddr i)) infos) rid of None \<Rightarrow> 0 | Some a \<Rightarrow> a)"

definition in_buf :: "addr_t \<Rightarrow> Request \<Rightarrow> bool" where
  "in_buf x req \<longleftrightarrow> unat (x - raddr req) < unat (req_len req)"

text \<open>A write with a destination address, and destinations that do not overlap.\<close>

definition addressed :: "Request \<Rightarrow> bool" where
  "addressed req \<longleftrightarrow> raddr req \<noteq> 0 \<and> unat (raddr req) + unat (req_len req) \<le> 2 ^ 64"

definition disjoint_dsts :: "Request list \<Rightarrow> bool" where
  "disjoint_dsts reqs \<longleftrightarrow> (\<forall>r \<in> set reqs. \<forall>r' \<in> set reqs. \<forall>x. in_buf x r \<and> in_buf x r' \<longrightarrow> r = r')"

text \<open>What the destination holds after the writes \<open>reqs\<close> from the memory \<open>m\<close>.\<close>

definition copied :: "memory \<Rightarrow> Request list \<Rightarrow> memory" where
  "copied m reqs x = (case find (in_buf x) reqs of None \<Rightarrow> 0 | Some req \<Rightarrow> m (laddr req + (x - raddr req)))"

lemma copied_in_buf:
  assumes "disjoint_dsts reqs" "req \<in> set reqs" "in_buf x req"
  shows "copied m reqs x = m (laddr req + (x - raddr req))"
proof (cases "find (in_buf x) reqs")
  case None
  with assms(2,3) show ?thesis by (auto simp: find_None_iff)
next
  case (Some r)
  then have "r \<in> set reqs" "in_buf x r" by (auto simp: find_Some_iff)
  with assms have "r = req" unfolding disjoint_dsts_def by blast
  with Some show ?thesis by (simp add: copied_def)
qed

lemma dst_of_info:
  assumes "distinct (map ri_reqid infos)" "info \<in> set infos"
  shows "dst_of infos (ri_reqid info) = ri_raddr info"
proof -
  have "map_of (map (\<lambda>i. (ri_reqid i, ri_raddr i)) infos) (ri_reqid info) = Some (ri_raddr info)"
    using assms by (intro map_of_is_SomeI) (auto simp: comp_def)
  then show ?thesis by (simp add: dst_of_def)
qed

text \<open>The packet of chunk \<open>i\<close> of a request.\<close>

lemma chunk_packet:
  fixes info :: RequestInfo
  assumes s: "sendable n req" "describes n req info" "addressed req"
    and i: "i < unat (ri_nchunks info)" and p: "sent_as m p (chunk_entry h (laddr req) info ctx i)"
    and base: "base (ri_reqid info) = raddr req"
  defines "off \<equiv> chunk_off (unat (req_len req)) (unat (ri_nchunks info)) i"
    and "len \<equiv> chunk_len (unat (req_len req)) (unat (ri_nchunks info)) i"
  shows "key p = (ri_reqid info, i)" "packet_dst base p = raddr req + of_nat off" "length (snd p) = len"
    "off + len \<le> unat (req_len req)" "packet_dst base p \<noteq> 0" "IsData (fst p)" "hdr_handle (fst p) = h"
    "unat (hdr_len (fst p)) = len"
    "in_packet base x p \<Longrightarrow> in_buf x req \<and> snd p ! unat (x - packet_dst base p) = m (laddr req + (x - raddr req))"
    "off \<le> unat (x - raddr req) \<Longrightarrow> unat (x - raddr req) < off + len \<Longrightarrow> in_packet base x p"
proof -
  have ch: "chunkable (laddr req) info" and L: "ri_total_len info = req_len req"
    using describes_chunkable [OF s(1,2)] s(2) by (simp_all add: describes_def)
  note f = chunk_entry_fields [OF ch i, of h ctx, unfolded L, folded off_def len_def]
  obtain tr where tr: "fst p = (snd (chunk_entry h (laddr req) info ctx i))\<lparr>dh_trace := tr\<rparr>"
    "snd p = GenPayload (chunk_entry h (laddr req) info ctx i) m"
    using p by (auto simp: sent_as_def)
  let ?off = "dh_byte_offset (snd (chunk_entry h (laddr req) info ctx i))"
  have off: "?off = of_nat off" using arg_cong [OF f(1), of "of_nat :: nat \<Rightarrow> u64"] by simp
  show "key p = (ri_reqid info, i)" using f(3,7) tr(1) by (simp add: key_def)
  show dst: "packet_dst base p = raddr req + of_nat off"
    using f(7) tr(1) off base by (simp add: packet_dst_def)
  show len: "length (snd p) = len" using f(2) tr(2) by (simp add: GenPayload_def mem_read_def)
  show le: "off + len \<le> unat (req_len req)" using chunk_in_range [OF i] by (simp add: off_def len_def)
  show "IsData (fst p)" "hdr_handle (fst p) = h" "unat (hdr_len (fst p)) = len"
    using f(2,5,6) tr(1) by (simp_all add: IsData_def)
  have pos: "0 < len" using chunkable_nums(6) [OF ch, of i] by (simp add: len_def L)
  have "unat (of_nat off :: u64) = off" using f(1) off by simp
  moreover have "unat (raddr req) + off < 2 ^ 64" "0 < unat (raddr req)"
    using s(3) le pos by (auto simp: addressed_def unat_gt_0)
  ultimately have "unat (raddr req + of_nat off) = unat (raddr req) + off" by (simp add: unat_word_ariths)
  with \<open>0 < unat (raddr req)\<close> show "packet_dst base p \<noteq> 0"
    unfolding dst by (metis add_is_0 less_numeral_extra(3) unat_0)
  let ?d = "x - packet_dst base p"
  have x: "x - raddr req = of_nat off + ?d" unfolding dst by simp
  {
    assume "in_packet base x p"
    then have d: "unat ?d < len" using len by (simp add: in_packet_def)
    have "off + unat ?d < 2 ^ 64" using d le unat_u64_less [of "req_len req"] by simp
    then have "unat (x - raddr req) = off + unat ?d"
      unfolding x using \<open>unat (of_nat off :: u64) = off\<close> by (simp add: unat_word_ariths)
    then have "in_buf x req" using d le by (simp add: in_buf_def)
    moreover have "snd p ! unat ?d = m (laddr req + ?off + ?d)"
      using d tr(2) f(2,4) by (simp add: GenPayload_def mem_read_def)
    then have "snd p ! unat ?d = m (laddr req + (x - raddr req))" unfolding off x by (simp add: add.assoc)
    ultimately show "in_buf x req \<and> snd p ! unat ?d = m (laddr req + (x - raddr req))" by blast
  }
  assume a: "off \<le> unat (x - raddr req)" "unat (x - raddr req) < off + len"
  have "unat ((x - raddr req) - of_nat off) = unat (x - raddr req) - off"
    using a(1) \<open>unat (of_nat off :: u64) = off\<close> by (simp add: unat_sub word_le_nat_alt)
  then have "unat ?d = unat (x - raddr req) - off" unfolding dst by (simp add: diff_diff_eq)
  with a len show "in_packet base x p" by (simp add: in_packet_def)
qed

text \<open>All chunks of a post, and the packets they become.\<close>

definition post_chunks :: "Handle \<Rightarrow> TraceContext \<Rightarrow> nat \<Rightarrow> (Request \<times> RequestInfo) list \<Rightarrow> ChunkEntry list list" where
  "post_chunks h ctx n rs = map (worker_chunks h ctx n rs) [0..<n]"

lemma in_worker_chunks:
  assumes "c \<in> set (worker_chunks h ctx n rs j)"
  shows "\<exists>req info i. (req, info) \<in> set rs \<and> i < unat (ri_nchunks info) \<and> c = chunk_entry h (laddr req) info ctx i"
  using assms by (auto simp: worker_chunks_def)

text \<open>A post of writes with its descriptors.\<close>

definition described_post :: "nat \<Rightarrow> Request list \<Rightarrow> RequestInfo list \<Rightarrow> Handle \<Rightarrow> TraceContext \<Rightarrow> memory \<Rightarrow>
    packet list list \<Rightarrow> bool" where
  "described_post n reqs infos h ctx m pss \<longleftrightarrow> 0 < n \<and> list_all (sendable n) reqs \<and> list_all addressed reqs \<and>
     list_all2 (describes n) reqs infos \<and> distinct (map ri_reqid infos) \<and> disjoint_dsts reqs \<and>
     list_all2 (list_all2 (sent_as m)) pss (post_chunks h ctx n (zip reqs infos))"

lemma described_postD:
  assumes "described_post n reqs infos h ctx m pss"
  shows "0 < n" "list_all (sendable n) reqs" "list_all addressed reqs" "list_all2 (describes n) reqs infos"
    "distinct (map ri_reqid infos)" "disjoint_dsts reqs"
    "list_all2 (list_all2 (sent_as m)) pss (post_chunks h ctx n (zip reqs infos))"
  using assms by (simp_all add: described_post_def)

lemma post_pair:
  assumes d: "described_post n reqs infos h ctx m pss" and a: "(req, info) \<in> set (zip reqs infos)"
  shows "sendable n req" "describes n req info" "addressed req" "req \<in> set reqs" "info \<in> set infos"
    "dst_of infos (ri_reqid info) = raddr req"
proof -
  show r: "req \<in> set reqs" and i: "info \<in> set infos" using a by (auto dest: set_zip_leftD set_zip_rightD)
  then show "sendable n req" "addressed req" using described_postD(2,3) [OF d] by (simp_all add: list_all_iff)
  show ds: "describes n req info" using described_postD(4) [OF d] a by (auto simp: list_all2_iff)
  show "dst_of infos (ri_reqid info) = raddr req" using dst_of_info [OF described_postD(5) [OF d] i] ds by (simp add: describes_def)
qed

lemma post_packet:
  assumes d: "described_post n reqs infos h ctx m pss" and a: "ps \<in> set pss" "p \<in> set ps"
  shows "\<exists>req info i. (req, info) \<in> set (zip reqs infos) \<and> i < unat (ri_nchunks info) \<and>
    sent_as m p (chunk_entry h (laddr req) info ctx i)"
proof -
  obtain j where j: "j < n" "list_all2 (sent_as m) ps (worker_chunks h ctx n (zip reqs infos) j)"
    using a(1) described_postD(7) [OF d] by (auto simp: post_chunks_def list_all2_conv_all_nth in_set_conv_nth)
  with list_all2_left [OF j(2) a(2)] in_worker_chunks show ?thesis by blast
qed

lemma post_chunk_sent:
  assumes d: "described_post n reqs infos h ctx m pss" and a: "(req, info) \<in> set (zip reqs infos)" "i < unat (ri_nchunks info)"
  shows "\<exists>ps \<in> set pss. \<exists>p \<in> set ps. sent_as m p (chunk_entry h (laddr req) info ctx i)"
proof -
  let ?j = "i mod n"
  have j: "?j < n" using described_postD(1) [OF d] by simp
  have "chunk_entry h (laddr req) info ctx i \<in> set (worker_chunks h ctx n (zip reqs infos) ?j)"
    using a by (force simp: worker_chunks_def)
  moreover have ps: "list_all2 (sent_as m) (pss ! ?j) (worker_chunks h ctx n (zip reqs infos) ?j)" "?j < length pss"
    using described_postD(7) [OF d] j by (auto simp: post_chunks_def list_all2_conv_all_nth)
  ultimately have "\<exists>p \<in> set (pss ! ?j). sent_as m p (chunk_entry h (laddr req) info ctx i)"
    by (intro list_all2_right)
  with nth_mem [OF ps(2)] show ?thesis by blast
qed

lemma post_packets_wf:
  assumes d: "described_post n reqs infos h ctx m pss"
  shows "list_all (list_all (wf_packet h infos (dst_of infos))) pss"
proof -
  have "wf_packet h infos (dst_of infos) p" if mem: "ps \<in> set pss" "p \<in> set ps" for ps p
  proof -
    obtain req info i where r: "(req, info) \<in> set (zip reqs infos)" "i < unat (ri_nchunks info)"
      "sent_as m p (chunk_entry h (laddr req) info ctx i)"
      using post_packet [OF d mem] by blast
    note f = chunk_packet [where base = "dst_of infos", OF post_pair(1-3) [OF d r(1)] r(2,3) post_pair(6) [OF d r(1)]]
    have "dh_reqid (fst p) = ri_reqid info" "unat (dh_index (fst p)) = i" using f(1) by (auto simp: key_def)
    moreover have "raddr req \<noteq> 0" using post_pair(3) [OF d r(1)] by (simp add: addressed_def)
    ultimately show ?thesis
      using f(3,5-8) r(2) post_pair(5,6) [OF d r(1)] by (auto simp: wf_packet_def packet_dst_def case_prod_beta)
  qed
  then show ?thesis by (simp add: list_all_iff)
qed

lemma post_covered:
  assumes d: "described_post n reqs infos h ctx m pss"
  shows "covered infos (key ` (\<Union>ps \<in> set pss. set ps))"
proof -
  have "(ri_reqid info, i) \<in> key ` (\<Union>ps \<in> set pss. set ps)" if a: "info \<in> set infos" "i < unat (ri_nchunks info)" for info i
  proof -
    obtain req where r: "(req, info) \<in> set (zip reqs infos)"
      using a(1) list_all2_lengthD [OF described_postD(4) [OF d]] by (metis in_set_impl_in_set_zip2)
    from post_chunk_sent [OF d this a(2)] obtain ps p where p: "ps \<in> set pss" "p \<in> set ps"
      "sent_as m p (chunk_entry h (laddr req) info ctx i)" by blast
    have "key p = (ri_reqid info, i)"
      by (rule chunk_packet(1) [where base = "dst_of infos", OF post_pair(1-3) [OF d r] a(2) p(3) post_pair(6) [OF d r]])
    with p(1,2) show ?thesis by force
  qed
  then show ?thesis by (auto simp: covered_def)
qed

lemma post_same_key:
  assumes d: "described_post n reqs infos h ctx m pss" and a: "(req, info) \<in> set (zip reqs infos)" "(req', info') \<in> set (zip reqs infos)" "ri_reqid info = ri_reqid info'"
  shows "req = req' \<and> info = info'"
proof -
  obtain a b where ab: "a < length infos" "b < length infos" "reqs ! a = req" "infos ! a = info"
    "reqs ! b = req'" "infos ! b = info'"
    using a(1,2) by (auto simp: in_set_zip)
  then have "a = b" using described_postD(5) [OF d] a(3) by (metis length_map nth_eq_iff_index_eq nth_map)
  with ab show ?thesis by simp
qed

lemma post_picture:
  assumes d: "described_post n reqs infos h ctx m pss"
  shows "picture (dst_of infos) (copied m reqs) (\<Union>ps \<in> set pss. set ps)"
proof -
  have 1: "length (snd p) \<le> 2 ^ 64 \<and> (\<forall>x. in_packet (dst_of infos) x p \<longrightarrow>
      snd p ! unat (x - packet_dst (dst_of infos) p) = copied m reqs x)" if mem: "ps \<in> set pss" "p \<in> set ps" for ps p
  proof -
    obtain req info i where r: "(req, info) \<in> set (zip reqs infos)" "i < unat (ri_nchunks info)"
      "sent_as m p (chunk_entry h (laddr req) info ctx i)"
      using post_packet [OF d mem] by blast
    note f = chunk_packet [where base = "dst_of infos", OF post_pair(1-3) [OF d r(1)] r(2,3) post_pair(6) [OF d r(1)]]
    show ?thesis
      using f(3,4) unat_u64_less [of "req_len req"] f(9) copied_in_buf [OF described_postD(6) [OF d] post_pair(4) [OF d r(1)]] by simp
  qed
  moreover have "packet_dst (dst_of infos) p = packet_dst (dst_of infos) q \<and> length (snd p) = length (snd q)"
    if mem: "ps \<in> set pss" "p \<in> set ps" "qs \<in> set pss" "q \<in> set qs" and k: "key p = key q" for p q ps qs
  proof -
    obtain req info i where r: "(req, info) \<in> set (zip reqs infos)" "i < unat (ri_nchunks info)"
      "sent_as m p (chunk_entry h (laddr req) info ctx i)"
      using post_packet [OF d mem(1,2)] by blast
    obtain req' info' i' where r': "(req', info') \<in> set (zip reqs infos)" "i' < unat (ri_nchunks info')"
      "sent_as m q (chunk_entry h (laddr req') info' ctx i')"
      using post_packet [OF d mem(3,4)] by blast
    note f = chunk_packet [where base = "dst_of infos", OF post_pair(1-3) [OF d r(1)] r(2,3) post_pair(6) [OF d r(1)]]
    note f' = chunk_packet [where base = "dst_of infos", OF post_pair(1-3) [OF d r'(1)] r'(2,3) post_pair(6) [OF d r'(1)]]
    have "ri_reqid info = ri_reqid info'" "i = i'" using f(1) f'(1) k by simp_all
    with post_same_key [OF d r(1) r'(1)] f(2,3) f'(2,3) show ?thesis by simp
  qed
  ultimately show ?thesis unfolding picture_def by blast
qed

lemma in_some_packet:
  assumes d: "described_post n reqs infos h ctx m pss"
  shows "(\<exists>p \<in> (\<Union>ps \<in> set pss. set ps). in_packet (dst_of infos) x p) \<longleftrightarrow> (\<exists>req \<in> set reqs. in_buf x req)"
proof (rule iffI; elim bexE)
  fix p assume "p \<in> (\<Union>ps \<in> set pss. set ps)" and x: "in_packet (dst_of infos) x p"
  then obtain req info i where r: "(req, info) \<in> set (zip reqs infos)" "i < unat (ri_nchunks info)"
    "sent_as m p (chunk_entry h (laddr req) info ctx i)"
    using post_packet [OF d] by blast
  with chunk_packet(9) [where base = "dst_of infos", OF post_pair(1-3) [OF d r(1)] r(2,3) post_pair(6) [OF d r(1)] x] post_pair(4) [OF d]
  show "\<exists>req \<in> set reqs. in_buf x req" by blast
next
  fix req assume req: "req \<in> set reqs" and x: "in_buf x req"
  obtain info where r: "(req, info) \<in> set (zip reqs infos)"
    using req list_all2_lengthD [OF described_postD(4) [OF d]] by (metis in_set_impl_in_set_zip1)
  have nz: "0 < unat (ri_nchunks info)"
    using chunkable_nums(1) [OF describes_chunkable [OF post_pair(1,2) [OF d r]]] .
  from chunk_partition [OF x [unfolded in_buf_def] nz] obtain i where i: "i < unat (ri_nchunks info)"
    "chunk_off (unat (req_len req)) (unat (ri_nchunks info)) i \<le> unat (x - raddr req)"
    "unat (x - raddr req) < chunk_off (unat (req_len req)) (unat (ri_nchunks info)) i +
      chunk_len (unat (req_len req)) (unat (ri_nchunks info)) i"
    by blast
  from post_chunk_sent [OF d r i(1)] obtain ps p where p: "ps \<in> set pss" "p \<in> set ps"
    "sent_as m p (chunk_entry h (laddr req) info ctx i)" by blast
  from chunk_packet(10) [where base = "dst_of infos", OF post_pair(1-3) [OF d r] i(1) p(3) post_pair(6) [OF d r] i(2,3)] p(1,2)
  show "\<exists>p \<in> (\<Union>ps \<in> set pss. set ps). in_packet (dst_of infos) x p" by blast
qed

section \<open>From the queues of the sender to the completion of the handle\<close>

text \<open>A schedule in which worker \<open>j\<close> does \<open>ks ! j\<close> iterations.\<close>

definition runs :: "nat list \<Rightarrow> nat list \<Rightarrow> bool" where
  "runs js ks \<longleftrightarrow> set js \<subseteq> {..<length ks} \<and> (\<forall>j < length ks. count_list js j = ks ! j)"

text \<open>Workers whose channels have what the workers \<open>tx\<close> have sent.\<close>

definition carried :: "nat \<Rightarrow> nat \<Rightarrow> (MemChannel \<times> MemWorld) Worker list \<Rightarrow> (MemChannel \<times> MemWorld) Worker list \<Rightarrow> bool" where
  "carried i o' tx rx \<longleftrightarrow> length rx = length tx \<and> (\<forall>j < length tx. mem_ready i o' (wk_ch (rx ! j)) \<and>
     \<not> wk_stop (rx ! j) \<and> concat (mem_in (wk_ch (rx ! j))) = concat (mem_out (wk_ch (tx ! j))))"

definition idle :: "nat \<Rightarrow> nat \<Rightarrow> (MemChannel \<times> MemWorld) Worker \<Rightarrow> bool" where
  "idle i o' w \<longleftrightarrow> mem_ready i o' (wk_ch w) \<and> \<not> wk_stop w \<and> wk_infos w = [] \<and> wk_chunks w = [] \<and>
     mem_in (wk_ch w) = [] \<and> mem_out (wk_ch w) = []"

text \<open>A receiver that does not know the handle yet.\<close>

definition expects :: "Shared \<Rightarrow> Endpoint \<Rightarrow> Handle \<Rightarrow> bool" where
  "expects sh peer h \<longleftrightarrow> wf_Env (sh_env sh) \<and> recv_post_callback (sh_in sh) \<and>
     map_of (trackers (sh_in sh)) (peer, h) = None"

lemma post_wf_batch:
  assumes "reqs \<noteq> []" "length reqs * 128 \<le> 4294967295" "wf_Metadata meta"
    "list_all2 (describes n) reqs infos" "distinct (map ri_reqid infos)"
  shows "wf_batch (post_info_header listener h meta (length reqs)) infos"
proof -
  note hdr = post_info_header_valid [of "length reqs" listener h meta]
  have "list_all (\<lambda>r. RequestInfo_IsValid r \<and> wf_RequestInfo r) infos" "length infos = length reqs"
    using assms(4) by (auto simp: list_all2_conv_all_nth list_all_length describes_def)
  then show ?thesis using hdr assms(1-3,5) by (auto simp: wf_batch_def wf_PostInfoHeader_def)
qed

lemma post_chunks_wf:
  assumes "list_all (sendable n) reqs" "list_all2 (describes n) reqs infos"
  shows "list_all (list_all wf_entry) (post_chunks h ctx n (zip reqs infos))"
proof -
  have "IsData (snd c)" if mem: "c \<in> set (worker_chunks h ctx n (zip reqs infos) j)" for c j
  proof -
    obtain req info i where c: "(req, info) \<in> set (zip reqs infos)" "i < unat (ri_nchunks info)"
      "c = chunk_entry h (laddr req) info ctx i"
      using in_worker_chunks [OF mem] by blast
    have "chunkable (laddr req) info"
      using c(1) assms by (intro describes_chunkable [of n]) (auto simp: list_all2_iff list_all_iff dest: set_zip_leftD)
    with c show ?thesis by (simp add: chunk_entry_fields(5))
  qed
  then show ?thesis by (auto simp: post_chunks_def list_all_iff wf_entry_def)
qed

lemma ops_two_sided: "\<not> IsOneSidedChannel (ch_Type MemStreamChannel)"
  using mem_stream.stream_type(3) by (simp add: IsTwoSidedChannel_def)

text \<open>The send threads put the batch on the channels.\<close>

lemma post_sent:
  assumes fb: "flatbuf_structs fb" and ws: "list_all (idle i o') ws" "ws \<noteq> []" and e: "wf_Env (sh_env sh)"
    and rs: "list_all (sendable (length ws)) reqs" "list_all2 (describes (length ws)) reqs infos" "wf_batch info infos"
    and tx: "tx = queued h ctx info (zip reqs infos) ws"
    and js: "runs js (map (\<lambda>w. Suc (length (wk_chunks w))) tx)"
  shows "\<exists>tx1 sh1 pss. send_threads fb MemStreamChannel js tx sh = Inr (True, [], tx1, sh1) \<and>
    length tx1 = length ws \<and> wf_Env (sh_env sh1) \<and> sh_mem sh1 = sh_mem sh \<and> sh_out sh1 = sh_out sh \<and>
    list_all2 (list_all2 (sent_as (sh_mem sh))) pss (post_chunks h ctx (length ws) (zip reqs infos)) \<and>
    (\<forall>j < length ws. concat (mem_out (wk_ch (tx1 ! j))) = concat (map (rx_wire fb info infos) (rx_msgs (pss ! j))))"
proof -
  note st = stream_transfer.intro [OF mem_stream.stream_channel_axioms fb]
  let ?css = "post_chunks h ctx (length ws) (zip reqs infos)"
  have snd: "map snd (zip reqs infos) = infos" using list_all2_lengthD [OF rs(2)] by simp
  have len: "length tx = length ws" "length ?css = length ws" by (simp_all add: tx queued_def post_chunks_def)
  have "tx ! j = (ws ! j)\<lparr>wk_infos := [(info, infos)], wk_chunks := ?css ! j\<rparr>" if "j < length ws" for j
    using that ws(1) snd by (auto simp: tx queued_def post_chunks_def idle_def list_all_length)
  then have txj: "wk_infos (tx ! j) = [(info, infos)]" "wk_chunks (tx ! j) = ?css ! j" "mem_ready i o' (wk_ch (tx ! j))"
    "\<not> wk_stop (tx ! j)" "mem_in (wk_ch (tx ! j)) = []" "mem_out (wk_ch (tx ! j)) = []" if "j < length ws" for j
    using that ws(1) by (auto simp: idle_def list_all_length)
  then have sys: "tx_system fb (mem_ready i o') (concat \<circ> mem_in) (concat \<circ> mem_out) info infos ?css (sh_mem sh) (sh_out sh)
      (sh_in sh) (replicate (length tx) 0) tx sh"
    using len e by (auto simp: tx_system_def tx_inv_def)
  have "set js \<subseteq> {..<length tx}" "\<forall>j < length tx. count_list js j = Suc (length (?css ! j))"
    using js txj(2) len by (auto simp: runs_def)
  from stream_transfer.send_all [OF st sys rs(3) post_chunks_wf [OF rs(1,2)] this] show ?thesis
    unfolding len(1) comp_def by blast
qed

text \<open>The receive threads of the peer store and acknowledge it.\<close>

lemma post_received:
  assumes fb: "flatbuf_structs fb" and d: "described_post n reqs infos h ctx m pss" and ne: "reqs \<noteq> []"
    and b: "wf_batch info infos" "HasNonzeroIpPort (pi_peer info)" "hdr_handle info = h"
    and tx: "length tx = n" "\<forall>j < n. concat (mem_out (wk_ch (tx ! j))) = concat (map (rx_wire fb info infos) (rx_msgs (pss ! j)))"
    and rx: "carried i o' tx rx" "\<forall>w \<in> set rx. mem_out (wk_ch w) = []" "expects sh (pi_peer info) h"
    and ks: "runs ks (map (\<lambda>ps. Suc (length ps)) pss)"
  shows "\<exists>calls rx1 sh1 ackss. recv_threads fb MemStreamChannel ks rx sh = Inr (True, calls, rx1, sh1) \<and>
    (\<exists>metas. calls = [CallRecvPost kSuccess (pi_metadata info) metas] \<and> mset metas = mset (map Types.metadata reqs)) \<and>
    length rx1 = n \<and> (\<forall>x. sh_mem sh1 x = (if \<exists>req \<in> set reqs. in_buf x req then copied m reqs x else sh_mem sh x)) \<and>
    list_all2 (\<lambda>acks ps. list_all2 is_ack_of acks (map fst ps)) ackss pss \<and>
    (\<forall>j < n. concat (mem_out (wk_ch (rx1 ! j))) = concat (map (data_wire fb) (ackss ! j)))"
proof -
  note st = stream_transfer.intro [OF mem_stream.stream_channel_axioms fb]
  let ?b = "\<lparr>b_info = info, b_reqs = infos, b_base = dst_of infos, b_packets = pss\<rparr>"
  have len: "length pss = n" using described_postD(7) [OF d] by (simp add: post_chunks_def list_all2_conv_all_nth)
  have infos: "infos \<noteq> []" "\<forall>r \<in> set infos. ri_op r = Op_value kWrite \<and> dst_of infos (ri_reqid r) = ri_raddr r \<and> ri_raddr r \<noteq> 0"
    "map ri_metadata infos = map Types.metadata reqs"
    using ne described_postD(3-5) [OF d] dst_of_info [OF described_postD(5) [OF d]]
    by (auto simp: list_all2_conv_all_nth describes_def in_set_conv_nth list_all_length addressed_def intro: nth_equalityI)
  have wf: "wf_rx_batch ?b" using b infos(1,2) post_packets_wf [OF d] by (simp add: wf_rx_batch_def)
  have "rx_pending ?b (sh_mem sh) sh"
    using rx(3) b(3) infos(2) by (auto simp: rx_pending_def expects_def resolve_addr_def)
  moreover have rl: "length rx = n" "rx \<noteq> []"
    using rx(1) tx(1) described_postD(1) [OF d] by (auto simp: carried_def)
  ultimately have sys: "rx_system fb MemStreamChannel (mem_ready i o') (concat \<circ> mem_in) (concat \<circ> mem_out) ?b
      (replicate (length rx) 0) (sh_mem sh) (sh_out sh) rx sh"
    using rx tx len by (auto simp: rx_system_def rx_shared_def chan_inv_def carried_def expects_def)
  have "set ks \<subseteq> {..<length rx}" "\<forall>j < length rx. count_list ks j = Suc (length (b_packets ?b ! j))"
    using ks len rl(1) by (auto simp: runs_def)
  moreover have "all_packets ?b = (\<Union>ps \<in> set pss. set ps)" by (simp add: all_packets_def)
  ultimately obtain calls rx1 sh1 where r: "recv_threads fb MemStreamChannel ks rx sh = Inr (True, calls, rx1, sh1)"
    "recv_report infos (pi_metadata info) calls" "length rx1 = length rx"
    "\<forall>x. sh_mem sh1 x = (if \<exists>p \<in> (\<Union>ps \<in> set pss. set ps). in_packet (dst_of infos) x p then copied m reqs x else sh_mem sh x)"
    "\<forall>j < length rx. \<exists>acks. list_all2 is_ack_of acks (map fst (pss ! j)) \<and>
      concat (mem_out (wk_ch (rx1 ! j))) = concat (map (data_wire fb) acks)"
    using stream_transfer.recv_all [OF st sys wf rl(2), of ks "copied m reqs"] post_picture [OF d] post_covered [OF d]
    by (auto simp: comp_def)
  from r(5) obtain f where f: "\<forall>j < n. list_all2 is_ack_of (f j) (map fst (pss ! j)) \<and>
      concat (mem_out (wk_ch (rx1 ! j))) = concat (map (data_wire fb) (f j))"
    unfolding rl(1) by metis
  have "list_all2 (\<lambda>acks ps. list_all2 is_ack_of acks (map fst ps)) (map f [0..<n]) pss"
    using f len by (subst list_all2_conv_all_nth) simp
  moreover have "\<forall>j < n. concat (mem_out (wk_ch (rx1 ! j))) = concat (map (data_wire fb) (map f [0..<n] ! j))"
    using f by simp
  moreover have "\<exists>metas. calls = [CallRecvPost kSuccess (pi_metadata info) metas] \<and> mset metas = mset (map Types.metadata reqs)"
    using r(2) infos(3) by (simp add: recv_report_def)
  ultimately show ?thesis using r(1,3,4) rl(1) unfolding in_some_packet [OF d] by blast
qed

text \<open>The acknowledgments complete the handle.\<close>

lemma post_acknowledged:
  assumes fb: "flatbuf_structs fb" and d: "described_post n reqs infos h ctx m pss" and ne: "reqs \<noteq> []"
    and acks: "list_all2 (\<lambda>acks ps. list_all2 is_ack_of acks (map fst ps)) ackss pss"
      "\<forall>j < n. concat (mem_out (wk_ch (rx1 ! j))) = concat (map (data_wire fb) (ackss ! j))" "length rx1 = n"
    and tx: "carried i o' rx1 tx2" "tx_tracks (sh_out sh) h infos cb {}" "wf_Env (sh_env sh)"
    and ls: "runs ls (map length pss)"
  shows "\<exists>calls tx3 sh3. recv_threads fb MemStreamChannel ls tx2 sh = Inr (True, calls, tx3, sh3) \<and>
    completion cb h calls \<and> Check h Endpoint_default (sh_out sh3) = kNotFound"
proof -
  note st = stream_transfer.intro [OF mem_stream.stream_channel_axioms fb]
  have len: "length pss = n" "length ackss = n" "\<forall>j < n. length (ackss ! j) = length (pss ! j)"
    using described_postD(7) [OF d] acks(1) by (auto simp: post_chunks_def list_all2_conv_all_nth)
  have infos: "infos \<noteq> []" "list_all RequestInfo_IsValid infos"
    using ne described_postD(4) [OF d] by (auto simp: list_all2_conv_all_nth list_all_length describes_def)
  note nc = nothing_covered [OF infos(2,1)]
  have ack: "wf_ack h infos a \<and> ack_key a = key p"
    if "j < n" "k < length (pss ! j)" "a = ackss ! j ! k" "p = pss ! j ! k" for j k a p
  proof -
    have "is_ack_of a (fst p)" "wf_packet h infos (dst_of infos) p"
      using that acks(1) len post_packets_wf [OF d] by (auto simp: list_all2_conv_all_nth list_all_length)
    then show ?thesis by (auto dest: ack_of_packet)
  qed
  then have wf: "list_all (list_all (wf_ack h infos)) ackss"
    using len by (simp add: list_all_length)
  have "map (map ack_key) ackss = map (map key) pss"
    using ack len by (intro nth_equalityI) (auto intro: nth_equalityI)
  from arg_cong [OF this, of "\<lambda>xss. \<Union> (set ` set xss)"]
  have "(\<Union>acks \<in> set ackss. ack_key ` set acks) = key ` (\<Union>ps \<in> set pss. set ps)"
    by (simp add: image_image image_UN)
  then have cov: "covered infos (\<Union>acks \<in> set ackss. ack_key ` set acks)" using post_covered [OF d] by simp
  have "acked ackss (replicate n 0) = {}" using len by (simp add: acked_def)
  then have sys: "ack_system fb (mem_ready i o') (concat \<circ> mem_in) h infos cb ackss (replicate (length tx2) 0) tx2 sh"
    using tx nc acks(2,3) len by (auto simp: ack_system_def carried_def)
  have "set ls \<subseteq> {..<length tx2}" "\<forall>j < length tx2. count_list ls j = length (ackss ! j)"
    using ls len tx(1) acks(3) by (auto simp: runs_def carried_def)
  from stream_transfer.ack_all [OF st sys infos(1) wf nc this cov] show ?thesis .
qed

text \<open>The memory of \<open>sh'\<close> is that of \<open>sh\<close> with the writes \<open>reqs\<close> from \<open>m\<close> done.\<close>

definition stores :: "memory \<Rightarrow> Request list \<Rightarrow> Shared \<Rightarrow> Shared \<Rightarrow> bool" where
  "stores m reqs sh sh' \<longleftrightarrow>
     (\<forall>req \<in> set reqs. \<forall>k < unat (req_len req). sh_mem sh' (raddr req + of_nat k) = m (laddr req + of_nat k)) \<and>
     (\<forall>x. (\<forall>req \<in> set reqs. \<not> in_buf x req) \<longrightarrow> sh_mem sh' x = sh_mem sh x)"

text \<open>
  The sender's receive threads complete the handle: whatever the order in which they read what
  the workers \<open>rx\<close> have sent, there is one completion and the handle is gone.
\<close>

definition completes :: "fb_abi \<Rightarrow> nat \<Rightarrow> nat \<Rightarrow> OnComplete \<Rightarrow> Handle \<Rightarrow> nat list \<Rightarrow>
    (MemChannel \<times> MemWorld) Worker list \<Rightarrow> Shared \<Rightarrow> bool" where
  "completes fb i o' cb h ks rx sh \<longleftrightarrow> (\<forall>tx ls. carried i o' rx tx \<and> runs ls ks \<longrightarrow>
     (\<exists>calls tx' sh'. recv_threads fb MemStreamChannel ls tx sh = Inr (True, calls, tx', sh') \<and>
        completion cb h calls \<and> Check h Endpoint_default (sh_out sh') = kNotFound))"

lemma storesI:
  assumes "disjoint_dsts reqs"
    "\<forall>x. sh_mem sh' x = (if \<exists>req \<in> set reqs. in_buf x req then copied m reqs x else sh_mem sh x)"
  shows "stores m reqs sh sh'"
proof -
  have "sh_mem sh' (raddr req + of_nat k) = m (laddr req + of_nat k)"
    if "req \<in> set reqs" "k < unat (req_len req)" for req k
  proof -
    have "k < 2 ^ 64" using that(2) unat_u64_less [of "req_len req"] by simp
    with that have "in_buf (raddr req + of_nat k) req" by (simp add: in_buf_def)
    with copied_in_buf [OF assms(1) that(1) this] that(1) assms(2) show ?thesis by auto
  qed
  with assms(2) show ?thesis by (auto simp: stores_def)
qed


subsection \<open>An instance\<close>

lemma runs_exists: "\<exists>js. runs js ks"
proof (induction ks rule: rev_induct)
  case Nil
  show ?case by (auto simp: runs_def intro: exI [of _ "[]"])
next
  case (snoc k ks)
  then obtain js where js: "runs js ks" by blast
  have "count_list (replicate k a) b = (if a = b then k else 0)" for a b :: nat by (induction k) auto
  moreover have "count_list js (length ks) = 0" using js by (auto simp: runs_def count_list_0_iff)
  ultimately have "runs (js @ replicate k (length ks)) (ks @ [k])"
    using js by (auto simp: runs_def nth_append less_Suc_eq)
  then show ?case by blast
qed

definition carry :: "(MemChannel \<times> MemWorld) Worker \<Rightarrow> (MemChannel \<times> MemWorld) Worker" where
  "carry w = Worker_new 1 (demo_channel (filter (\<lambda>b. b \<noteq> []) (mem_out (wk_ch w))))"

lemma carry_simps [simp]: "mem_ready 0 1 (wk_ch (carry w))" "\<not> wk_stop (carry w)" "mem_out (wk_ch (carry w)) = []"
  "concat (mem_in (wk_ch (carry w))) = concat (mem_out (wk_ch w))"
proof -
  have "concat (filter (\<lambda>b. b \<noteq> []) q) = concat q" for q :: "byte list list" by (induction q) auto
  then show "concat (mem_in (wk_ch (carry w))) = concat (mem_out (wk_ch w))"
    by (simp add: carry_def Worker_new_def demo_channel_def mem_in_def put_queue_def)
qed (auto simp: carry_def Worker_new_def demo_channel_def mem_ready_def put_queue_def demo_world_def MemPipe_new_def
    mem_out_def list_all_iff)

lemma carried_carry: "carried 0 1 tx (map carry tx)"
  using carry_simps(1) by (auto simp: carried_def)

definition demo_entry :: PostEntry where
  "demo_entry = item_post demo_peer demo_item 7"

definition demo_sender :: "(MemChannel \<times> MemWorld) Engine" where
  "demo_sender = demo_engine (snd (Add_handle 7 5 (Some (UserCallback 3)) TraceContext_new
     (RequestTracker_new False None False))) demo_workers"

lemma demo_post_ready: "post_ready demo_sender demo_entry (UserCallback 3)"
  by (simp add: post_ready_def demo_sender_def demo_engine_def demo_entry_def item_post_def demo_item_def demo_requests_def workers_of_def demo_workers_def
      sendable_def IsValid_Request_def Request_new_def demo_shared_def Add_handle_def Let_def RequestTracker_new_def
      PostTracker_new_def flip: numeral_2_eq_2)

lemma demo_addressed: "list_all addressed demo_requests" "disjoint_dsts demo_requests"
  by (simp_all add: demo_requests_def addressed_def disjoint_dsts_def Request_new_def)

lemma demo_idle: "list_all (idle 0 1) (workers_of (pe_peer demo_entry) (send_workers demo_sender))"
  by (simp add: demo_sender_def demo_engine_def demo_entry_def item_post_def demo_item_def workers_of_def demo_workers_def idle_def Worker_new_def demo_channel_def
      mem_ready_def put_queue_def demo_world_def MemPipe_new_def mem_in_def mem_out_def)


end
