(* ===== verification/Reads.thy ===== *)
theory Reads
  imports EndToEnd
begin

text \<open>
  Reads: the peer that holds the data registers the read, turns it into a post of writes
  without batch header and sends the chunks back under the reader's handle.
\<close>

section \<open>Answering a read\<close>

lemma read_reply_ok:
  assumes "\<forall>r \<in> set reqs. ri_raddr r \<noteq> 0"
  shows "read_reply reqs = Inr (map (\<lambda>r. Request_new\<lparr>req_op := kWrite, laddr := ri_raddr r, raddr := 0,
      req_len := ri_total_len r, Types.metadata := ri_metadata r\<rparr>) reqs,
    map (\<lambda>r. r\<lparr>ri_op := Op_value kWrite, ri_raddr := 0\<rparr>) reqs)"
  using assms by (induction reqs) simp_all

text \<open>The reply to a read: the chunks of the read's descriptors, from the addresses they name.\<close>

definition reply_chunks :: "Handle \<Rightarrow> nat \<Rightarrow> RequestInfo list \<Rightarrow> nat \<Rightarrow> ChunkEntry list" where
  "reply_chunks h n reqs j = concat (map (\<lambda>r. map (chunk_entry h (ri_raddr r) (r\<lparr>ri_op := Op_value kWrite, ri_raddr := 0\<rparr>)
     TraceContext_new) (filter (\<lambda>i. i mod n = j) [0..<unat (ri_nchunks r)])) reqs)"

definition reply_post :: "Endpoint \<Rightarrow> Handle \<Rightarrow> RequestInfo list \<Rightarrow> PostEntry" where
  "reply_post peer h reqs = \<lparr>pe_peer = peer, pe_handle = h,
     pe_reqs = map (\<lambda>r. Request_new\<lparr>req_op := kWrite, laddr := ri_raddr r, raddr := 0,
       req_len := ri_total_len r, Types.metadata := ri_metadata r\<rparr>) reqs,
     pe_req_infos = map (\<lambda>r. r\<lparr>ri_op := Op_value kWrite, ri_raddr := 0\<rparr>) reqs,
     pe_metadata = Metadata_zero, pe_trace_ctx = TraceContext_new\<rparr>"

lemma processRecvRead_fresh:
  fixes eng :: "'s Engine"
  assumes "\<forall>r \<in> set reqs. ri_raddr r \<noteq> 0" "map_of (trackers (sh_out (eg_sh eng))) (Endpoint_default, h) = None"
    "wf_Env (sh_env (eg_sh eng))"
  shows "\<exists>eng1 pt. processRecvRead peer h reqs eng = Inr eng1 \<and> eg_posts eng1 = eg_posts eng @ [reply_post peer h reqs] \<and>
    map_of (trackers (sh_out (eg_sh eng1))) (Endpoint_default, h) = Some pt \<and> req_map pt = [] \<and> is_initiator pt \<and>
    pt_on_complete pt = Some (ReadResponder peer h) \<and> send_workers eng1 = send_workers eng \<and>
    eg_config eng1 = eg_config eng \<and> wf_Env (sh_env (eg_sh eng1)) \<and> sh_mem (eg_sh eng1) = sh_mem (eg_sh eng)"
  using assms read_reply_ok [OF assms(1)]
  by (auto simp: processRecvRead_def Let_def MonoNowUs_def set_env_def Add_handle_fresh reply_post_def wf_Env_def
      PostTracker_new_def)

lemma process_reply:
  fixes eng :: "'s Engine"
  assumes ws: "ws = workers_of peer (send_workers eng)" "ws \<noteq> []" and reqs: "reqs \<noteq> []" "distinct (map ri_reqid reqs)"
    "list_all (\<lambda>r. chunkable (ri_raddr r) r) reqs" and e: "wf_Env (sh_env (eg_sh eng))"
    and pt: "map_of (trackers (sh_out (eg_sh eng))) (Endpoint_default, h) = Some pt" "req_map pt = []" "is_initiator pt"
  shows "\<exists>eng1. process ops (reply_post peer h reqs) eng = Inr ([], eng1) \<and>
    workers_of peer (send_workers eng1) = map (\<lambda>j. add_chunks (ws ! j) (reply_chunks h (length ws) reqs j)) [0..<length ws]"
proof -
  let ?p = "reply_post peer h reqs" and ?rs = "zip (pe_reqs (reply_post peer h reqs)) (pe_req_infos (reply_post peer h reqs))"
  have v: "list_all RequestInfo_IsValid (pe_req_infos ?p)" "distinct (map ri_reqid (pe_req_infos ?p))" "pe_req_infos ?p \<noteq> []"
    using reqs by (auto simp: reply_post_def list_all_iff chunkable_def RequestInfo_IsValid_def comp_def)
  have rs: "?rs = map (\<lambda>r. (Request_new\<lparr>req_op := kWrite, laddr := ri_raddr r, raddr := 0,
      req_len := ri_total_len r, Types.metadata := ri_metadata r\<rparr>, r\<lparr>ri_op := Op_value kWrite, ri_raddr := 0\<rparr>)) reqs"
    by (simp add: reply_post_def zip_map_map zip_same_conv_map)
  have "list_all (IsValid_Request \<circ> fst) ?rs"
    unfolding rs using reqs(3)
    by (auto simp: list_all_iff IsValid_Request_def Request_new_def chunkable_def RequestInfo_IsValid_def word_le_nat_alt
        word_less_nat_alt)
  from record_dequeued_ok [OF this e, of True TraceContext_new h] obtain e1 where
    e1: "record_dequeued True TraceContext_new h ?rs (sh_env (eg_sh eng)) = Inr e1" by blast
  from Add_reqs_initiator [OF pt v, of 0 Metadata_zero] obtain out where
    out: "Add_reqs h (pe_req_infos ?p) 0 Metadata_zero Endpoint_default (sh_out (eg_sh eng)) = Inr (True, [], out)"
    by blast
  have "list_all (\<lambda>(req, info). chunkable (laddr req) info) ?rs"
    unfolding rs using reqs(3)
    by (auto simp: list_all_iff chunkable_def Request_new_def RequestInfo_IsValid_def)
  from process_writes_ok [OF this ws(2), of h TraceContext_new e1] obtain e2 where
    pw: "process_writes h TraceContext_new ?rs ws e1 =
      Inr (map (\<lambda>j. add_chunks (ws ! j) (worker_chunks h TraceContext_new (length ws) ?rs j)) [0..<length ws], e2)"
    by blast
  have "worker_chunks h TraceContext_new (length ws) ?rs j = reply_chunks h (length ws) reqs j" for j
    unfolding rs by (simp add: worker_chunks_def reply_chunks_def comp_def Request_new_def)
  moreover have "req_op (hd (pe_reqs ?p)) = kWrite" "pe_reqs ?p \<noteq> []" "pe_peer ?p = peer" "pe_handle ?p = h"
    "pe_trace_ctx ?p = TraceContext_new" "length (pe_req_infos ?p) = length (pe_reqs ?p)"
    using reqs(1) by (cases reqs; simp add: reply_post_def Request_new_def)+
  ultimately show ?thesis
    using ws v(3) e1 out pw
    by (auto simp: process_def process_infos_def Let_def set_env_def getRequestTracker_def putRequestTracker_def
        put_workers_def workers_of_def)
qed

text \<open>
  C17. A received read is answered by writes. When the handle, which the reader chose, is free
  in the outgoing tracker, the callback of the incoming tracker queues a post, and the next
  iteration of the main loop spreads the chunks of every descriptor, taken from the address
  the read names, over the workers to the reader; no batch header is queued. When the handle
  is in use, also by a write of this host, the read is dropped without an answer.
\<close>
theorem read_answered:
  fixes eng :: "'s Engine"
  assumes "reqs \<noteq> []" "distinct (map ri_reqid reqs)" "list_all (\<lambda>r. chunkable (ri_raddr r) r) reqs"
    "wf_Env (sh_env (eg_sh eng))" "eg_posts eng = []"
    "ws = workers_of peer (send_workers (connected connect peer eng))" "ws \<noteq> []"
  shows "if map_of (trackers (sh_out (eg_sh eng))) (Endpoint_default, h) = None
    then \<exists>eng1 eng2. run_call (CallRecvRead peer h reqs) eng = Inr ([], [], eng1) \<and>
      mainLoop_step ops connect eng1 = Inr (LContinue, [], eng2) \<and>
      workers_of peer (send_workers eng2) =
        map (\<lambda>j. add_chunks (ws ! j) (reply_chunks h (length ws) reqs j)) [0..<length ws]
    else \<exists>eng1. run_call (CallRecvRead peer h reqs) eng = Inr ([], [], eng1) \<and> eg_posts eng1 = [] \<and>
      sh_out (eg_sh eng1) = sh_out (eg_sh eng) \<and> send_workers eng1 = send_workers eng"
proof (cases "map_of (trackers (sh_out (eg_sh eng))) (Endpoint_default, h)")
  case None
  have "\<forall>r \<in> set reqs. ri_raddr r \<noteq> 0" using assms(3) by (auto simp: list_all_iff chunkable_def)
  from processRecvRead_fresh [OF this None assms(4), of peer] obtain eng1 pt where
    1: "processRecvRead peer h reqs eng = Inr eng1" "eg_posts eng1 = [reply_post peer h reqs]"
    "map_of (trackers (sh_out (eg_sh eng1))) (Endpoint_default, h) = Some pt" "req_map pt = []" "is_initiator pt"
    "send_workers eng1 = send_workers eng" "wf_Env (sh_env (eg_sh eng1))" "eg_config eng1 = eg_config eng"
    using assms(5) by auto
  let ?eng = "connected connect peer (eng1\<lparr>eg_posts := []\<rparr>)"
  have "ws = workers_of peer (send_workers ?eng)"
    using 1(6,8) assms(6) by (simp add: connected_def createSendWorkers_def)
  from process_reply [OF this assms(7,1-3), of h pt ops] 1(3-5,7) obtain eng2 where
    2: "process ops (reply_post peer h reqs) ?eng = Inr ([], eng2)"
    "workers_of peer (send_workers eng2) = map (\<lambda>j. add_chunks (ws ! j) (reply_chunks h (length ws) reqs j)) [0..<length ws]"
    by auto
  have "mainLoop_step ops connect eng1 = Inr (LContinue, [], eng2)"
    using mainLoop_process [OF 1(2)] 2(1) by (simp add: reply_post_def)
  with None 1(1) 2(2) show ?thesis by auto
next
  case (Some pt)
  then show ?thesis
    using assms(5) by (auto simp: processRecvRead_def Let_def MonoNowUs_def set_env_def Add_handle_def)
qed

section \<open>The reader's side\<close>

text \<open>
  The answer to a read is refused on a channel that has carried a batch. The reader keeps
  the read under the default endpoint, but looks the chunks up under the peer of the channel,
  which a batch header sets: after the header of any batch of the same peer, the chunks of the
  answer are drained and the receive loop of the worker ends, whatever the incoming tracker
  knows of the read.
\<close>
theorem read_reply_after_batch_refused:
  assumes "flatbuf_structs fb" "mem_ready i o' (wk_ch w)" "\<not> wk_stop w"
    "concat (mem_in (wk_ch w)) = post_wire fb info reqs @ packet_wire fb (d, bs) @ rest"
    "wf_batch info reqs" "HasNonzeroIpPort (pi_peer info)" "expects sh (pi_peer info) (hdr_handle info)"
    "ri_op (hd reqs) = Op_value kWrite" "\<forall>r \<in> set reqs. resolve_addr (sh_in sh) (pi_metadata info) r \<noteq> 0"
    "IsData d" "unat (hdr_len d) = length bs" "hdr_handle d \<noteq> hdr_handle info"
    "map_of (trackers (sh_in sh)) (pi_peer info, hdr_handle d) = None"
    "map_of (trackers (sh_in sh)) (Endpoint_default, hdr_handle d) = Some pt"
  shows "\<exists>w1 sh1 w2 sh2. RecvLoop_step fb MemStreamChannel w sh = Inr (LContinue, [], w1, sh1) \<and>
    RecvLoop_step fb MemStreamChannel w1 sh1 = Inr (LBroken, [], w2, sh2) \<and> sh_mem sh2 = sh_mem sh \<and>
    map_of (trackers (sh_in sh2)) (Endpoint_default, hdr_handle d) = Some pt"
proof -
  note st = stream_transfer.intro [OF mem_stream.stream_channel_axioms assms(1)]
  let ?nd = "node_of (wk_ch w) sh" and ?h = "hdr_handle info" and ?peer = "pi_peer info"
  have nd: "mem_ready i o' (nd_ch ?nd)" "wf_Env (nd_env ?nd)"
    "(concat \<circ> mem_in) (nd_ch ?nd) = post_wire fb info reqs @ packet_wire fb (d, bs) @ rest"
    using assms(2,4,7) by (simp_all add: node_of_def expects_def)
  from stream_transfer.recv_post [OF st nd assms(5) disjI1 [OF assms(6)], of "wk_id w"] obtain t e1 ch where
    r: "Recv fb MemStreamChannel (wk_id w) ?nd = rbind (Add_reqs ?h reqs t (pi_metadata info) ?peer (nd_in ?nd))
        (\<lambda>(added, calls, in1). Inr (added, calls, ?nd\<lparr>nd_env := e1, nd_ch := ch, nd_in := in1\<rparr>))"
    "mem_ready i o' ch" "(concat \<circ> mem_in) ch = packet_wire fb (d, bs) @ rest" "ch_GetPeer MemStreamChannel ch = ?peer"
    by blast
  have reqs: "list_all RequestInfo_IsValid reqs" "distinct (map ri_reqid reqs)" "reqs \<noteq> []"
    using assms(5) by (auto simp: wf_batch_def list_all_iff)
  have none: "map_of (trackers (sh_in sh)) (?peer, ?h) = None" using assms(7) by (simp add: expects_def)
  from Add_reqs_receiver [OF none reqs assms(9,8), of t] obtain pt' where
    add: "Add_reqs ?h reqs t (pi_metadata info) ?peer (sh_in sh) =
      Inr (True, [], (sh_in sh)\<lparr>trackers := AList.update (?peer, ?h) pt' (trackers (sh_in sh))\<rparr>)"
    by blast
  let ?in = "(sh_in sh)\<lparr>trackers := AList.update (?peer, ?h) pt' (trackers (sh_in sh))\<rparr>"
  let ?nd1 = "?nd\<lparr>nd_env := e1, nd_ch := ch, nd_in := ?in\<rparr>"
  have "Recv fb MemStreamChannel (wk_id w) ?nd = Inr (True, [], ?nd1)" using r(1) add by (simp add: node_of_def)
  from stream_transfer.recv_loop_iteration [OF st assms(3) this] have
    1: "RecvLoop_step fb MemStreamChannel w sh = Inr (LContinue, [], w\<lparr>wk_ch := ch\<rparr>, shared_of ?nd1)" by simp
  have n: "node_of ch (shared_of ?nd1) = ?nd1" by (simp add: node_of_def shared_of_def)
  have "Check (hdr_handle d) (ch_GetPeer MemStreamChannel (nd_ch ?nd1)) (nd_in ?nd1) = kNotFound"
    using assms(12,13) r(4) by (simp add: Check_def)
  moreover have "mem_ready i o' (nd_ch ?nd1)" "(concat \<circ> mem_in) (nd_ch ?nd1) = packet_wire fb (d, bs) @ rest"
    using r(2,3) by simp_all
  ultimately obtain nd' where nd': "Recv fb MemStreamChannel (wk_id w) ?nd1 = Inr (False, [], nd')" "nd_mem nd' = nd_mem ?nd1"
    "nd_in nd' = nd_in ?nd1"
    using stream_transfer.recv_unknown [OF st _ assms(10,11), of i o' ?nd1 rest "wk_id w"] by blast
  have "\<not> IsMessageChannel (ch_Type MemStreamChannel)"
    using mem_stream.stream_type(1) by (simp add: IsMessageChannel_def)
  with ops_two_sided nd'(1) n assms(3) have "RecvLoop_step fb MemStreamChannel (w\<lparr>wk_ch := ch\<rparr>) (shared_of ?nd1) =
      Inr (LBroken, [], w\<lparr>wk_ch := nd_ch nd'\<rparr>, shared_of nd')"
    by (simp add: RecvLoop_step_def Let_def)
  moreover have "sh_mem (shared_of nd') = sh_mem sh"
    "map_of (trackers (sh_in (shared_of nd'))) (Endpoint_default, hdr_handle d) = Some pt"
    using nd'(2,3) assms(12,14) by (simp_all add: shared_of_def node_of_def)
  ultimately show ?thesis using 1 by blast
qed

subsection \<open>Instances\<close>

theorem read_answered_witness:
  "\<exists>eng1 eng2. run_call (CallRecvRead demo_peer 7 [demo_info\<lparr>ri_op := Op_value kRead\<rparr>])
      (demo_engine (RequestTracker_new False None False) demo_workers) = Inr ([], [], eng1) \<and>
     mainLoop_step MemStreamChannel (\<lambda>_. []) eng1 = Inr (LContinue, [], eng2) \<and>
     map (\<lambda>w. length (wk_chunks w)) (workers_of demo_peer (send_workers eng2)) = [2, 1]"
proof -
  let ?r = "demo_info\<lparr>ri_op := Op_value kRead\<rparr>" and ?eng = "demo_engine (RequestTracker_new False None False) demo_workers"
  have ch: "list_all (\<lambda>r. chunkable (ri_raddr r) r) [?r]"
    by (simp add: chunkable_def demo_info_def demo_request_info_def RequestInfo_IsValid_def Recipe_IsValid_def)
  have eng: "wf_Env (sh_env (eg_sh ?eng))" "eg_posts ?eng = []"
    "demo_workers = workers_of demo_peer (send_workers (connected (\<lambda>_. []) demo_peer ?eng))" "demo_workers \<noteq> []"
    "map_of (trackers (sh_out (eg_sh ?eng))) (Endpoint_default, 7) = None"
    by (simp_all add: demo_engine_def connected_def workers_of_def demo_workers_def RequestTracker_new_def)
  from read_answered [OF _ _ ch eng(1-4), of 7 MemStreamChannel] eng(5) obtain eng1 eng2 where
    r: "run_call (CallRecvRead demo_peer 7 [?r]) ?eng = Inr ([], [], eng1)"
    "mainLoop_step MemStreamChannel (\<lambda>_. []) eng1 = Inr (LContinue, [], eng2)"
    "workers_of demo_peer (send_workers eng2) =
      map (\<lambda>j. add_chunks (demo_workers ! j) (reply_chunks 7 (length demo_workers) [?r] j)) [0..<length demo_workers]"
    by auto
  have "length demo_workers = 2" "unat (ri_nchunks ?r) = 3" "[0..<3] = [0, 1, 2 :: nat]" "[0..<2] = [0, 1 :: nat]"
    "wk_chunks (demo_workers ! 0) = []" "wk_chunks (demo_workers ! 1) = []"
    by (simp_all add: demo_workers_def demo_info_def Worker_new_def upt_rec)
  with r show ?thesis by (auto simp: reply_chunks_def)
qed

definition demo_reply :: packet where
  "demo_reply = (demo_data\<lparr>hdr_handle := 9, hdr_len := 1, dh_index := 0\<rparr>, [5])"

theorem read_reply_after_batch_refused_witness:
  "\<exists>w1 sh1 w2 sh2. RecvLoop_step schema_fb MemStreamChannel
      (Worker_new (- 1) (demo_channel [post_wire schema_fb (b_info demo_batch) [demo_request_info], packet_wire schema_fb demo_reply]))
      (demo_shared\<lparr>sh_in := (sh_in demo_shared)\<lparr>trackers := [((Endpoint_default, 9), PostTracker_new)]\<rparr>\<rparr>) =
      Inr (LContinue, [], w1, sh1) \<and>
    RecvLoop_step schema_fb MemStreamChannel w1 sh1 = Inr (LBroken, [], w2, sh2)"
proof -
  let ?info = "b_info demo_batch" and ?r = demo_request_info
  let ?q = "[post_wire schema_fb ?info [?r], packet_wire schema_fb demo_reply]"
  let ?w = "Worker_new (- 1) (demo_channel ?q)"
  let ?sh = "demo_shared\<lparr>sh_in := (sh_in demo_shared)\<lparr>trackers := [((Endpoint_default, 9), PostTracker_new)]\<rparr>\<rparr>"
  obtain d bs where p: "demo_reply = (d, bs)" "IsData d" "unat (hdr_len d) = length bs" "hdr_handle d = 9" "bs \<noteq> []"
    by (simp add: demo_reply_def demo_data_def DataHeader_zero_def IsData_def)
  have b: "wf_batch ?info [?r]" "HasNonzeroIpPort (pi_peer ?info)" "ri_op (hd [?r]) = Op_value kWrite" "hdr_handle ?info = 7"
    using demo_batch_ok by (simp_all add: wf_rx_batch_def)
  have "post_wire schema_fb ?info [?r] \<noteq> []"
    using mem_stream_transfer.post_wire [OF b(1)] by (auto simp: kSize_def)
  then have w: "mem_ready 0 1 (wk_ch ?w)" "\<not> wk_stop ?w"
    "concat (mem_in (wk_ch ?w)) = post_wire schema_fb ?info [?r] @ packet_wire schema_fb (d, bs) @ []"
    unfolding p(1) using p(5) by (simp_all add: Worker_new_def demo_channel_def mem_ready_def put_queue_def demo_world_def
        MemPipe_new_def mem_in_def packet_wire_def)
  have "pi_peer ?info \<noteq> Endpoint_default"
    using b(2) by (auto simp: HasNonzeroIpPort_def Endpoint_default_def)
  then have sh: "expects ?sh (pi_peer ?info) (hdr_handle ?info)" "hdr_handle d \<noteq> hdr_handle ?info"
    "\<forall>r \<in> set [?r]. resolve_addr (sh_in ?sh) (pi_metadata ?info) r \<noteq> 0"
    "map_of (trackers (sh_in ?sh)) (pi_peer ?info, hdr_handle d) = None"
    "map_of (trackers (sh_in ?sh)) (Endpoint_default, hdr_handle d) = Some PostTracker_new"
    using p(4) b(4)
    by (simp_all add: expects_def demo_shared_def RequestTracker_new_def resolve_addr_def demo_request_info_def)
  from read_reply_after_batch_refused [OF schema.flatbuf_structs_axioms w b(1,2) sh(1) b(3) sh(3) p(2,3) sh(2,4,5)]
  show ?thesis by blast
qed

end
