(* ===== verification/Message.thy ===== *)
theory Message
  imports Endpoint
begin

text \<open>
  \<^verbatim>\<open>internal/control/message.{h,cc}\<close>: conversion between the control plane's data and its protobuf
  messages. The messages are records after \<^verbatim>\<open>message_internal.proto\<close> and \<^verbatim>\<open>message.proto\<close>: a field
  with presence is an option, a repeated field a list, an enum an integer that may have any
  value, a oneof a datatype. The out parameters of the C++ functions are state that is passed
  in and returned, also on failure; \<^verbatim>\<open>mutable_\<close> and \<^verbatim>\<open>add_\<close> accessors do not return null.
\<close>

section \<open>Messages\<close>

record pb_Endpoint =
  pb_ip_port :: "string option"

record pb_NicInfo =
  pb_name :: "string option"
  pb_type :: "int option"
  pb_endpoints :: "pb_Endpoint list"

record pb_HostInfo =
  pb_control_plane_listener :: "pb_Endpoint option"
  pb_data_plane_listeners :: "pb_NicInfo list"

record pb_Request =
  pb_op :: "int option"
  pb_laddr :: "u64 option"
  pb_raddr :: "u64 option"
  pb_len :: "u64 option"
  pb_rkey :: "u32 option"

record pb_PspToken =
  pb_spi :: "u32 option"
  pb_gen :: "u32 option"
  pb_key :: "byte list option"

record pb_PeerReq =
  pb_peer :: "pb_HostInfo option"
  pb_reqs :: "pb_Request list"

record pb_PspTcpReq =
  pb_psp :: "pb_PspToken option"
  pb_peer_target :: "pb_Endpoint option"

record pb_PspTcpResp =
  pb_resp_psp :: "pb_PspToken option"

record pb_RdmaConnReq =
  pb_conn_peer :: "pb_HostInfo option"
  pb_device_name :: "string option"
  pb_qpn :: "u32 option"
  pb_gid :: "byte list option"
  pb_psn :: "u32 option"
  pb_conn_rkey :: "u32 option"

record pb_RdmaConnResp =
  pb_resp_qpn :: "u32 option"
  pb_resp_gid :: "byte list option"
  pb_resp_psn :: "u32 option"
  pb_resp_rkey :: "u32 option"

datatype pb_ReqMsg = ReqNotSet | ReqHostInfo pb_HostInfo | ReqPeerReq pb_PeerReq |
  ReqPspTcp pb_PspTcpReq | ReqRdmaConn pb_RdmaConnReq

datatype pb_RespMsg = RespNotSet | RespHostInfo pb_HostInfo | RespPeerResp "u32 list" |
  RespPspTcp pb_PspTcpResp | RespRdmaConn pb_RdmaConnResp

definition pb_Endpoint_new :: pb_Endpoint where "pb_Endpoint_new = \<lparr>pb_ip_port = None\<rparr>"
definition pb_NicInfo_new :: pb_NicInfo where
  "pb_NicInfo_new = \<lparr>pb_name = None, pb_type = None, pb_endpoints = []\<rparr>"
definition pb_HostInfo_new :: pb_HostInfo where
  "pb_HostInfo_new = \<lparr>pb_control_plane_listener = None, pb_data_plane_listeners = []\<rparr>"
definition pb_Request_new :: pb_Request where
  "pb_Request_new = \<lparr>pb_op = None, pb_laddr = None, pb_raddr = None, pb_len = None, pb_rkey = None\<rparr>"
definition pb_PspToken_new :: pb_PspToken where
  "pb_PspToken_new = \<lparr>pb_spi = None, pb_gen = None, pb_key = None\<rparr>"
definition pb_PeerReq_new :: pb_PeerReq where "pb_PeerReq_new = \<lparr>pb_peer = None, pb_reqs = []\<rparr>"
definition pb_PspTcpReq_new :: pb_PspTcpReq where
  "pb_PspTcpReq_new = \<lparr>pb_psp = None, pb_peer_target = None\<rparr>"
definition pb_PspTcpResp_new :: pb_PspTcpResp where "pb_PspTcpResp_new = \<lparr>pb_resp_psp = None\<rparr>"

text \<open>The value of a field: its default when it is not set; \<^verbatim>\<open>mutable_\<close> of a message field sets it.\<close>

definition field :: "'a \<Rightarrow> 'a option \<Rightarrow> 'a" where
  "field d v = (case v of None \<Rightarrow> d | Some x \<Rightarrow> x)"

lemma field_simps [simp]: "field d None = d" "field d (Some x) = x"
  by (simp_all add: field_def)

record PspToken =
  spi :: u32
  gen :: u32
  psp_key :: "byte list"

definition kPspKeyLen :: nat where "kPspKeyLen = 16"

definition PspToken_default :: PspToken where
  "PspToken_default = \<lparr>spi = 0, gen = 0, psp_key = replicate kPspKeyLen 0\<rparr>"

definition PspToken_IsValid :: "PspToken \<Rightarrow> bool" where
  "PspToken_IsValid t \<longleftrightarrow> spi t \<noteq> 0"

section \<open>Message components\<close>

text \<open>
  The loops over repeated fields: one new message per element, and one element per message,
  where the local variable \<open>x\<close> is reused by all iterations.
\<close>

fun serialize_list :: "('a \<Rightarrow> 'p \<Rightarrow> bool \<times> 'p) \<Rightarrow> 'p \<Rightarrow> 'a list \<Rightarrow> 'p list \<Rightarrow> bool \<times> 'p list" where
  "serialize_list ser new [] ps = (True, ps)"
| "serialize_list ser new (a # as) ps =
     (let (ok, p) = ser a new in
      if ok then serialize_list ser new as (ps @ [p]) else (False, ps @ [p]))"

fun deserialize_list :: "('p \<Rightarrow> 'a \<Rightarrow> bool \<times> 'a) \<Rightarrow> 'p list \<Rightarrow> 'a \<Rightarrow> 'a list \<Rightarrow> bool \<times> 'a list" where
  "deserialize_list de [] x acc = (True, acc)"
| "deserialize_list de (p # ps) x acc =
     (let (ok, a) = de p x in if ok then deserialize_list de ps a (acc @ [a]) else (False, acc))"

definition serialize_Request :: "Request \<Rightarrow> pb_Request \<Rightarrow> bool \<times> pb_Request" where
  "serialize_Request req proto =
     (if \<not> IsValid_Request req then (False, proto)
      else (True, proto\<lparr>pb_op := Some (if req_op req = kRead then 1 else 2), pb_laddr := Some (laddr req),
        pb_raddr := Some (raddr req), pb_len := Some (req_len req), pb_rkey := Some (rkey req)\<rparr>))"

definition deserialize_Request :: "pb_Request \<Rightarrow> Request \<Rightarrow> bool \<times> Request" where
  "deserialize_Request proto req = (let op = field 0 (pb_op proto) in
     if op \<noteq> 1 \<and> op \<noteq> 2 then (False, req)
     else
       let req1 = req\<lparr>req_op := (if op = 1 then kRead else kWrite), laddr := field 0 (pb_laddr proto),
             raddr := field 0 (pb_raddr proto), req_len := field 0 (pb_len proto), rkey := field 0 (pb_rkey proto)\<rparr>
       in (IsValid_Request req1, req1))"

definition Message_AreEqual :: "pb_Request \<Rightarrow> pb_Request \<Rightarrow> bool" where
  "Message_AreEqual a b \<longleftrightarrow> field 0 (pb_op a) = field 0 (pb_op b) \<and> field 0 (pb_laddr a) = field 0 (pb_laddr b) \<and>
     field 0 (pb_raddr a) = field 0 (pb_raddr b) \<and> field 0 (pb_len a) = field 0 (pb_len b) \<and>
     field 0 (pb_rkey a) = field 0 (pb_rkey b)"

definition serialize_Endpoint :: "'a text_lib_scheme \<Rightarrow> Endpoint \<Rightarrow> pb_Endpoint \<Rightarrow> bool \<times> pb_Endpoint" where
  "serialize_Endpoint L e proto =
     (if \<not> HasNonzeroIpPort e then (False, proto)
      else (True, proto\<lparr>pb_ip_port := Some (Endpoint_ToString L e)\<rparr>))"

definition deserialize_Endpoint :: "'a text_lib_scheme \<Rightarrow> pb_Endpoint \<Rightarrow> Endpoint \<Rightarrow> bool \<times> Endpoint" where
  "deserialize_Endpoint L proto e = (case pb_ip_port proto of
     None \<Rightarrow> (False, e)
   | Some s \<Rightarrow> let e1 = Endpoint_Create L s in (HasNonzeroIpPort e1, e1))"

primrec NicType_value :: "NicType \<Rightarrow> int" where
  "NicType_value kInvalid = 0"
| "NicType_value kIP = 1"
| "NicType_value kRDMA = 2"

definition serialize_NicInfo :: "'a text_lib_scheme \<Rightarrow> NicInfo \<Rightarrow> pb_NicInfo \<Rightarrow> bool \<times> pb_NicInfo" where
  "serialize_NicInfo L nic proto =
     (if \<not> NicInfo_IsValid nic then (False, proto)
      else
        let proto1 = proto\<lparr>pb_name := Some (nic_name nic), pb_type := Some (NicType_value (nic_type nic))\<rparr>;
            (ok, es) = serialize_list (serialize_Endpoint L) pb_Endpoint_new (endpoints nic) (pb_endpoints proto1)
        in (ok, proto1\<lparr>pb_endpoints := es\<rparr>))"

definition deserialize_NicInfo :: "'a text_lib_scheme \<Rightarrow> pb_NicInfo \<Rightarrow> NicInfo \<Rightarrow> bool \<times> NicInfo" where
  "deserialize_NicInfo L proto nic = (case (pb_name proto, pb_type proto) of
     (Some name, Some type) \<Rightarrow>
       if type \<noteq> 1 \<and> type \<noteq> 2 then (False, nic)
       else
         let (ok, es) = deserialize_list (deserialize_Endpoint L) (pb_endpoints proto) Endpoint_default [];
             nic1 = \<lparr>nic_name = name, nic_type = (if type = 1 then kIP else kRDMA), endpoints = es\<rparr>
         in if \<not> ok then (False, nic1) else (NicInfo_IsValid nic1, nic1)
   | _ \<Rightarrow> (False, nic))"

definition serialize_PspToken :: "PspToken \<Rightarrow> pb_PspToken \<Rightarrow> bool \<times> pb_PspToken" where
  "serialize_PspToken token proto =
     (if \<not> PspToken_IsValid token then (False, proto)
      else (True, proto\<lparr>pb_spi := Some (spi token), pb_gen := Some (gen token), pb_key := Some (psp_key token)\<rparr>))"

definition deserialize_PspToken :: "pb_PspToken \<Rightarrow> PspToken \<Rightarrow> bool \<times> PspToken" where
  "deserialize_PspToken proto token = (case (pb_spi proto, pb_gen proto, pb_key proto) of
     (Some s, Some g, Some k) \<Rightarrow>
       if length k \<noteq> length (psp_key token) then (False, token)
       else let token1 = \<lparr>spi = s, gen = g, psp_key = k\<rparr> in (PspToken_IsValid token1, token1)
   | _ \<Rightarrow> (False, token))"

section \<open>Messages of the service\<close>

definition Serialize_HostInfo :: "'a text_lib_scheme \<Rightarrow> HostInfo \<Rightarrow> pb_HostInfo \<Rightarrow> bool \<times> pb_HostInfo" where
  "Serialize_HostInfo L host proto =
     (if \<not> HostInfo_IsValid host then (False, proto)
      else
        let (ok, pc) = serialize_Endpoint L (control_plane_listener host)
              (field pb_Endpoint_new (pb_control_plane_listener proto));
            proto1 = proto\<lparr>pb_control_plane_listener := Some pc\<rparr>
        in if \<not> ok then (False, proto1)
           else
             let (ok', ds) = serialize_list (serialize_NicInfo L) pb_NicInfo_new (data_plane_listeners host)
                   (pb_data_plane_listeners proto1)
             in (ok', proto1\<lparr>pb_data_plane_listeners := ds\<rparr>))"

definition Deserialize_HostInfo :: "'a text_lib_scheme \<Rightarrow> pb_HostInfo \<Rightarrow> HostInfo \<Rightarrow> bool \<times> HostInfo" where
  "Deserialize_HostInfo L proto host = (case pb_control_plane_listener proto of
     None \<Rightarrow> (False, host)
   | Some pc \<Rightarrow>
       let (ok, e) = deserialize_Endpoint L pc (control_plane_listener host);
           host1 = host\<lparr>control_plane_listener := e\<rparr>
       in if \<not> ok then (False, host1)
          else
            let (ok', nics) = deserialize_list (deserialize_NicInfo L) (pb_data_plane_listeners proto) NicInfo_default [];
                host2 = host1\<lparr>data_plane_listeners := nics\<rparr>
            in if \<not> ok' then (False, host2) else (HostInfo_IsValid host2, host2))"

definition Serialize_ReqMsg :: "'a text_lib_scheme \<Rightarrow> HostInfo \<Rightarrow> Request list \<Rightarrow> pb_ReqMsg \<Rightarrow> bool \<times> pb_ReqMsg" where
  "Serialize_ReqMsg L host reqs msg =
     (if \<not> HostInfo_IsValid host then (False, msg)
      else if \<not> IsValid_Requests reqs then (False, msg)
      else
        let (ok, pp) = Serialize_HostInfo L host pb_HostInfo_new;
            pr = pb_PeerReq_new\<lparr>pb_peer := Some pp\<rparr>
        in if \<not> ok then (False, ReqPeerReq pr)
           else
             let (ok', rs) = serialize_list serialize_Request pb_Request_new reqs (pb_reqs pr)
             in (ok', ReqPeerReq (pr\<lparr>pb_reqs := rs\<rparr>)))"

definition Deserialize_ReqMsg :: "'a text_lib_scheme \<Rightarrow> pb_ReqMsg \<Rightarrow> (HostInfo \<times> Request list) res" where
  "Deserialize_ReqMsg L msg = (let invalid = (HostInfo_default, []) in case msg of
     ReqPeerReq pr \<Rightarrow>
       (case pb_peer pr of
          None \<Rightarrow> Inr invalid
        | Some pp \<Rightarrow>
            let (ok, host) = Deserialize_HostInfo L pp HostInfo_default in
            if \<not> ok then Inr invalid
            else
              dcheck (HostInfo_IsValid host)
                (let (ok', reqs) = deserialize_list deserialize_Request (pb_reqs pr) Request_new []
                 in if \<not> ok' then Inr invalid
                    else if \<not> IsValid_Requests reqs then Inr invalid
                    else Inr (host, reqs)))
   | _ \<Rightarrow> Inr invalid)"

definition Serialize_PspTcpReq :: "'a text_lib_scheme \<Rightarrow> PspToken \<Rightarrow> Endpoint \<Rightarrow> pb_PspTcpReq \<Rightarrow> bool \<times> pb_PspTcpReq" where
  "Serialize_PspTcpReq L token peer_target proto =
     (let (ok, psp) = serialize_PspToken token (field pb_PspToken_new (pb_psp proto));
          proto1 = proto\<lparr>pb_psp := Some psp\<rparr>
      in if \<not> ok then (False, proto1)
         else
           let (ok', target) = serialize_Endpoint L peer_target (field pb_Endpoint_new (pb_peer_target proto1))
           in (ok', proto1\<lparr>pb_peer_target := Some target\<rparr>))"

definition Deserialize_PspTcpReq :: "'a text_lib_scheme \<Rightarrow> pb_PspTcpReq \<Rightarrow> PspToken \<Rightarrow> Endpoint \<Rightarrow>
    bool \<times> PspToken \<times> Endpoint" where
  "Deserialize_PspTcpReq L proto token peer_target = (case pb_psp proto of
     None \<Rightarrow> (False, token, peer_target)
   | Some psp \<Rightarrow>
       let (ok, token1) = deserialize_PspToken psp token in
       if \<not> ok then (False, token1, peer_target)
       else (case pb_peer_target proto of
               None \<Rightarrow> (False, token1, peer_target)
             | Some target \<Rightarrow>
                 let (ok', e) = deserialize_Endpoint L target peer_target in (ok', token1, e)))"

definition Serialize_PspTcpResp :: "PspToken \<Rightarrow> pb_PspTcpResp \<Rightarrow> bool \<times> pb_PspTcpResp" where
  "Serialize_PspTcpResp token proto =
     (let (ok, psp) = serialize_PspToken token (field pb_PspToken_new (pb_resp_psp proto))
      in (ok, proto\<lparr>pb_resp_psp := Some psp\<rparr>))"

definition Deserialize_PspTcpResp :: "pb_PspTcpResp \<Rightarrow> PspToken \<Rightarrow> bool \<times> PspToken" where
  "Deserialize_PspTcpResp proto token = (case pb_resp_psp proto of
     None \<Rightarrow> (False, token)
   | Some psp \<Rightarrow> deserialize_PspToken psp token)"

section \<open>The law of a message component\<close>

text \<open>
  What the loops and the larger messages rely on of a component's pair of functions: a valid
  value is accepted and comes back, an invalid one is refused, and only valid values are
  produced. \<open>ready x\<close> is what the type of \<open>x\<close> and the libraries promise; \<open>carried a x\<close> is \<open>a\<close> with the fields that
  the message does not have taken from \<open>x\<close>.
\<close>

locale proto_codec =
  fixes ser :: "'a \<Rightarrow> 'p \<Rightarrow> bool \<times> 'p"
    and de :: "'p \<Rightarrow> 'a \<Rightarrow> bool \<times> 'a"
    and valid :: "'a \<Rightarrow> bool"
    and new :: 'p
    and ready :: "'a \<Rightarrow> bool"
    and carried :: "'a \<Rightarrow> 'a \<Rightarrow> 'a"
  assumes returns: "valid a \<Longrightarrow> ready a \<Longrightarrow> ready x \<Longrightarrow> \<exists>p. ser a new = (True, p) \<and> de p x = (True, carried a x)"
    and refused: "\<not> valid a \<Longrightarrow> \<not> fst (ser a p)"
    and sound: "de p x = (True, a) \<Longrightarrow> valid a"
    and ready_result: "ready x \<Longrightarrow> de p x = (True, a) \<Longrightarrow> ready a"
    and carried_twice: "carried b (carried a x) = carried b x"
begin

lemma list_returns:
  assumes "list_all valid as" "list_all ready as" "ready x"
  shows "\<exists>ps. serialize_list ser new as acc = (True, acc @ ps) \<and>
    deserialize_list de ps x acc' = (True, acc' @ map (\<lambda>a. carried a x) as)"
  using assms
proof (induction "as" arbitrary: x acc acc')
  case (Cons a "as")
  obtain p where p: "ser a new = (True, p)" "de p x = (True, carried a x)"
    using returns Cons.prems by fastforce
  obtain ps where "serialize_list ser new as (acc @ [p]) = (True, (acc @ [p]) @ ps)"
    "deserialize_list de ps (carried a x) (acc' @ [carried a x]) =
       (True, (acc' @ [carried a x]) @ map (\<lambda>b. carried b (carried a x)) as)"
    using Cons.IH [of "carried a x" "acc @ [p]" "acc' @ [carried a x]"] Cons.prems
      ready_result [OF Cons.prems(3) p(2)] by auto
  with p show ?case
    by (intro exI [of _ "p # ps"]) (simp add: carried_twice)
qed simp

lemma list_refused: "\<not> list_all valid as \<Longrightarrow> \<not> fst (serialize_list ser new as acc)"
proof (induction "as" arbitrary: acc)
  case (Cons a "as")
  then show ?case
    using refused [of a new] by (auto split: prod.split)
qed simp

lemma list_sound:
  assumes "deserialize_list de ps x acc = (True, as)" "list_all valid acc"
  shows "list_all valid as"
  using assms
proof (induction ps arbitrary: x acc)
  case (Cons p ps)
  obtain ok a where step: "de p x = (ok, a)"
    by fastforce
  with Cons.prems have "de p x = (True, a)"
    by (cases ok) auto
  then have "valid a" "deserialize_list de ps a (acc @ [a]) = (True, as)"
    using sound Cons.prems by auto
  then show ?case
    using Cons.IH [of a "acc @ [a]"] Cons.prems by simp
qed simp

end

text \<open>The text of an endpoint is the documented text of the Internet address functions.\<close>

definition texts_ok :: "'a text_lib_scheme \<Rightarrow> bool" where
  "texts_ok L \<longleftrightarrow> inet_ok L \<and> text_ok L"

interpretation endpoint: proto_codec "serialize_Endpoint L" "deserialize_Endpoint L" HasNonzeroIpPort
  pb_Endpoint_new "\<lambda>_. texts_ok L" "\<lambda>e _. e" for L :: "'a text_lib_scheme"
  by unfold_locales
    (auto simp: serialize_Endpoint_def deserialize_Endpoint_def texts_ok_def endpoint_text Let_def
      split: option.splits)

interpretation nic: proto_codec "serialize_NicInfo L" "deserialize_NicInfo L" NicInfo_IsValid
  pb_NicInfo_new "\<lambda>_. texts_ok L" "\<lambda>n _. n" for L :: "'a text_lib_scheme"
proof
  fix n x :: NicInfo
  assume n: "NicInfo_IsValid n" and L: "texts_ok L"
  then have es: "list_all HasNonzeroIpPort (endpoints n)" "list_all (\<lambda>_. texts_ok L) (endpoints n)"
    and t: "nic_type n \<noteq> kInvalid"
    by (auto simp: NicInfo_IsValid_def list_all_iff split: if_splits)
  obtain ps where "serialize_list (serialize_Endpoint L) pb_Endpoint_new (endpoints n) [] = (True, ps)"
    "deserialize_list (deserialize_Endpoint L) ps Endpoint_default [] = (True, endpoints n)"
    using endpoint.list_returns [OF es L, of "[]" Endpoint_default "[]"] by auto
  with n t show "\<exists>p. serialize_NicInfo L n pb_NicInfo_new = (True, p) \<and> deserialize_NicInfo L p x = (True, n)"
    by (cases n; cases "nic_type n")
      (simp_all add: serialize_NicInfo_def deserialize_NicInfo_def pb_NicInfo_new_def Let_def)
qed (auto simp: serialize_NicInfo_def deserialize_NicInfo_def Let_def
    split: option.splits if_splits prod.splits)

interpretation request: proto_codec serialize_Request deserialize_Request IsValid_Request
  pb_Request_new "\<lambda>_. True" "\<lambda>r x. r\<lparr>metadata := metadata x\<rparr>"
proof
  fix r x :: Request
  assume r: "IsValid_Request r"
  have "deserialize_Request (snd (serialize_Request r pb_Request_new)) x = (True, r\<lparr>metadata := metadata x\<rparr>)"
    using r by (cases r; cases x; cases "req_op r")
      (simp_all add: serialize_Request_def deserialize_Request_def IsValid_Request_def)
  with r show "\<exists>p. serialize_Request r pb_Request_new = (True, p) \<and>
      deserialize_Request p x = (True, r\<lparr>metadata := metadata x\<rparr>)"
    by (simp add: serialize_Request_def)
qed (auto simp: serialize_Request_def deserialize_Request_def Let_def split: if_splits)

interpretation psp: proto_codec serialize_PspToken deserialize_PspToken PspToken_IsValid
  pb_PspToken_new "\<lambda>t. length (psp_key t) = kPspKeyLen" "\<lambda>t _. t"
  by unfold_locales
    (auto simp: serialize_PspToken_def deserialize_PspToken_def PspToken_IsValid_def Let_def split: option.splits if_splits)

interpretation host: proto_codec "Serialize_HostInfo L" "Deserialize_HostInfo L" HostInfo_IsValid
  pb_HostInfo_new "\<lambda>_. texts_ok L" "\<lambda>h _. h" for L :: "'a text_lib_scheme"
proof
  fix h x :: HostInfo
  assume h: "HostInfo_IsValid h" and L: "texts_ok L"
  then have ns: "list_all NicInfo_IsValid (data_plane_listeners h)"
    "list_all (\<lambda>_. texts_ok L) (data_plane_listeners h)"
    and c: "HasNonzeroIpPort (control_plane_listener h)"
    by (auto simp: HostInfo_IsValid_def HostInfo_IsDataPlaneValid_def Let_def list_all_iff)
  obtain ps where "serialize_list (serialize_NicInfo L) pb_NicInfo_new (data_plane_listeners h) [] = (True, ps)"
    "deserialize_list (deserialize_NicInfo L) ps NicInfo_default [] = (True, data_plane_listeners h)"
    using nic.list_returns [OF ns L, of "[]" NicInfo_default "[]"] by auto
  moreover obtain p where "serialize_Endpoint L (control_plane_listener h) pb_Endpoint_new = (True, p)"
    "deserialize_Endpoint L p (control_plane_listener x) = (True, control_plane_listener h)"
    using endpoint.returns [OF c L L] by blast
  ultimately show "\<exists>p. Serialize_HostInfo L h pb_HostInfo_new = (True, p) \<and> Deserialize_HostInfo L p x = (True, h)"
    using h by (cases x; cases h) (simp add: Serialize_HostInfo_def Deserialize_HostInfo_def pb_HostInfo_new_def Let_def)
qed (auto simp: Serialize_HostInfo_def Deserialize_HostInfo_def Let_def
    split: option.splits if_splits prod.splits)

section \<open>Whole messages\<close>

lemma ReqMsg_returns:
  assumes "texts_ok L" "HostInfo_IsValid h" "IsValid_Requests rs"
  shows "\<exists>m. Serialize_ReqMsg L h rs msg = (True, m) \<and>
    Deserialize_ReqMsg L m = Inr (h, map (\<lambda>r. r\<lparr>metadata := Metadata_zero\<rparr>) rs)"
proof -
  have rs: "list_all IsValid_Request rs" "list_all (\<lambda>_. True) rs"
    using assms(3) by (simp_all add: IsValid_Requests_def list_all_iff)
  obtain ps where ps: "serialize_list serialize_Request pb_Request_new rs [] = (True, ps)"
    "deserialize_list deserialize_Request ps Request_new [] =
       (True, map (\<lambda>r. r\<lparr>metadata := Metadata_zero\<rparr>) rs)"
    using request.list_returns [OF rs TrueI, of "[]" Request_new "[]"] by (auto simp: Request_new_def)
  have valid: "IsValid_Requests (map (\<lambda>r. r\<lparr>metadata := Metadata_zero\<rparr>) rs)"
    using assms(3) by (auto simp: IsValid_Requests_def IsValid_Request_def list_all_iff)
  obtain p where "Serialize_HostInfo L h pb_HostInfo_new = (True, p)"
    "Deserialize_HostInfo L p HostInfo_default = (True, h)"
    using host.returns [OF assms(2,1,1)] by blast
  with ps valid assms(2,3) show ?thesis
    by (simp add: Serialize_ReqMsg_def Deserialize_ReqMsg_def pb_PeerReq_new_def)
qed

lemma ReqMsg_sound:
  "\<exists>h rs. Deserialize_ReqMsg L msg = Inr (h, rs) \<and>
     ((h, rs) = (HostInfo_default, []) \<or> HostInfo_IsValid h \<and> IsValid_Requests rs)"
  using host.sound [of L _ HostInfo_default]
  by (auto simp: Deserialize_ReqMsg_def Let_def dcheck_def split: pb_ReqMsg.split option.split prod.split)

lemma PspTcpReq_returns:
  assumes "texts_ok L" "PspToken_IsValid t" "HasNonzeroIpPort e"
    and "length (psp_key t) = kPspKeyLen" "length (psp_key t') = kPspKeyLen"
  shows "\<exists>m. Serialize_PspTcpReq L t e pb_PspTcpReq_new = (True, m) \<and> Deserialize_PspTcpReq L m t' e' = (True, t, e)"
proof -
  obtain q where "serialize_PspToken t pb_PspToken_new = (True, q)" "deserialize_PspToken q t' = (True, t)"
    using psp.returns [OF assms(2,4,5)] by blast
  moreover obtain u where "serialize_Endpoint L e pb_Endpoint_new = (True, u)"
    "deserialize_Endpoint L u e' = (True, e)"
    using endpoint.returns [OF assms(3,1,1)] by blast
  ultimately show ?thesis
    by (simp add: Serialize_PspTcpReq_def Deserialize_PspTcpReq_def pb_PspTcpReq_new_def)
qed

lemma PspTcpReq_refused:
  "fst (Serialize_PspTcpReq L t e p) \<Longrightarrow> PspToken_IsValid t \<and> HasNonzeroIpPort e"
  by (auto simp: Serialize_PspTcpReq_def serialize_PspToken_def serialize_Endpoint_def Let_def split: if_splits)

lemma PspTcpReq_sound:
  "Deserialize_PspTcpReq L p t e = (True, t', e') \<Longrightarrow> PspToken_IsValid t' \<and> HasNonzeroIpPort e'"
  by (auto simp: Deserialize_PspTcpReq_def split: option.splits if_splits prod.splits
      dest: psp.sound endpoint.sound)

lemma PspTcpResp_returns:
  assumes "PspToken_IsValid t" "length (psp_key t) = kPspKeyLen" "length (psp_key t') = kPspKeyLen"
  shows "\<exists>m. Serialize_PspTcpResp t pb_PspTcpResp_new = (True, m) \<and> Deserialize_PspTcpResp m t' = (True, t)"
  using psp.returns [OF assms]
  by (auto simp: Serialize_PspTcpResp_def Deserialize_PspTcpResp_def pb_PspTcpResp_new_def)

lemma PspTcpResp_sound: "Deserialize_PspTcpResp p t = (True, t') \<Longrightarrow> PspToken_IsValid t'"
  by (auto simp: Deserialize_PspTcpResp_def split: option.splits dest: psp.sound)

section \<open>Properties\<close>

text \<open>
  C31. Every message of the control plane comes back: what a host serializes its peer
  deserializes to the same host information, PSP token and target, whatever the variables it
  writes to held before. Requests come back with the default metadata: the message has no field
  for it.
\<close>
theorem control_messages_roundtrip:
  assumes "texts_ok L" "HostInfo_IsValid h" "IsValid_Requests rs" "PspToken_IsValid t" "HasNonzeroIpPort e"
    and "length (psp_key t) = kPspKeyLen" "length (psp_key t') = kPspKeyLen"
  shows "(\<exists>m. Serialize_ReqMsg L h rs msg = (True, m) \<and>
      Deserialize_ReqMsg L m = Inr (h, map (\<lambda>r. r\<lparr>metadata := Metadata_zero\<rparr>) rs)) \<and>
    (\<exists>m. Serialize_HostInfo L h pb_HostInfo_new = (True, m) \<and> Deserialize_HostInfo L m h' = (True, h)) \<and>
    (\<exists>m. Serialize_PspTcpReq L t e pb_PspTcpReq_new = (True, m) \<and> Deserialize_PspTcpReq L m t' e' = (True, t, e)) \<and>
    (\<exists>m. Serialize_PspTcpResp t pb_PspTcpResp_new = (True, m) \<and> Deserialize_PspTcpResp m t' = (True, t))"
  using ReqMsg_returns [OF assms(1-3)] host.returns [OF assms(2,1,1)]
    PspTcpReq_returns [OF assms(1,4-7)] PspTcpResp_returns [OF assms(4,6,7)]
  by blast

text \<open>
  Invalid data neither leaves nor enters a host: an invalid host, list of requests, token or
  target is refused by serialization, and a message from the network, whatever its fields, either
  is refused or yields valid data. The \<^verbatim>\<open>DCHECK\<close> on the host information cannot fail.
\<close>
theorem control_messages_valid_only:
  "(fst (Serialize_ReqMsg L h rs msg) \<longrightarrow> HostInfo_IsValid h \<and> IsValid_Requests rs) \<and>
   (fst (Serialize_HostInfo L h hp) \<longrightarrow> HostInfo_IsValid h) \<and>
   (fst (Serialize_PspTcpReq L t e tp) \<longrightarrow> PspToken_IsValid t \<and> HasNonzeroIpPort e) \<and>
   (\<exists>h' rs'. Deserialize_ReqMsg L msg = Inr (h', rs') \<and>
      ((h', rs') = (HostInfo_default, []) \<or> HostInfo_IsValid h' \<and> IsValid_Requests rs')) \<and>
   (Deserialize_HostInfo L hp h = (True, h') \<longrightarrow> HostInfo_IsValid h') \<and>
   (Deserialize_PspTcpReq L tp t e = (True, t', e') \<longrightarrow> PspToken_IsValid t' \<and> HasNonzeroIpPort e')"
proof -
  have "fst (Serialize_ReqMsg L h rs msg) \<Longrightarrow> HostInfo_IsValid h \<and> IsValid_Requests rs"
    by (auto simp: Serialize_ReqMsg_def split: if_splits)
  then show ?thesis
    using host.refused host.sound PspTcpReq_refused PspTcpReq_sound ReqMsg_sound [of L msg] by blast
qed

section \<open>Witnesses\<close>

definition demo_token :: PspToken where
  "demo_token = \<lparr>spi = 7, gen = 1, psp_key = map of_nat [0..<16]\<rparr>"

definition demo_target :: Endpoint where
  "demo_target = \<lparr>ep_ip = IPv4 0x0100000A, ep_port = 43521\<rparr>"

definition demo_writes :: "Request list" where
  "demo_writes = [\<lparr>req_op = kRead, laddr = 4096, raddr = 8192, req_len = 100, rkey = 9, metadata = Metadata_zero\<rparr>,
     \<lparr>req_op = kWrite, laddr = 0x10000, raddr = 0x20000, req_len = 1, rkey = 0, metadata = Metadata_zero\<rparr>]"

lemma demo_texts_ok: "texts_ok demo_lib"
  by (simp add: texts_ok_def demo_lib_inet_ok demo_lib_text_ok)

lemma demo_token_ok: "PspToken_IsValid demo_token" "length (psp_key demo_token) = kPspKeyLen"
  by (simp_all add: demo_token_def PspToken_IsValid_def kPspKeyLen_def)

lemma PspToken_default_key [simp]: "length (psp_key PspToken_default) = kPspKeyLen"
  by (simp add: PspToken_default_def)

lemma demo_target_ok: "HasNonzeroIpPort demo_target"
  by (simp add: demo_target_def HasNonzeroIpPort_def IsZero_def)

lemma demo_writes_ok: "IsValid_Requests demo_writes"
  by (simp add: demo_writes_def IsValid_Requests_def IsValid_Request_def)

theorem control_messages_roundtrip_witness:
  "texts_ok demo_lib \<and> HostInfo_IsValid demo_host \<and> IsValid_Requests demo_writes \<and> PspToken_IsValid demo_token \<and>
   HasNonzeroIpPort demo_target \<and>
   (\<exists>m. Serialize_ReqMsg demo_lib demo_host demo_writes ReqNotSet = (True, m) \<and>
      Deserialize_ReqMsg demo_lib m = Inr (demo_host, demo_writes)) \<and>
   (\<exists>m. Serialize_PspTcpReq demo_lib demo_token demo_target pb_PspTcpReq_new = (True, m) \<and>
      Deserialize_PspTcpReq demo_lib m PspToken_default Endpoint_default = (True, demo_token, demo_target))"
proof -
  have "map (\<lambda>r. r\<lparr>metadata := Metadata_zero\<rparr>) demo_writes = demo_writes"
    by (simp add: demo_writes_def)
  then show ?thesis
    using control_messages_roundtrip [OF demo_texts_ok demo_host_ok(1) demo_writes_ok demo_token_ok(1)
        demo_target_ok demo_token_ok(2) PspToken_default_key, of ReqNotSet HostInfo_default Endpoint_default]
      demo_texts_ok demo_host_ok(1) demo_writes_ok demo_token_ok(1) demo_target_ok
    by (simp only: simp_thms)
qed

theorem control_messages_valid_only_witness:
  "\<exists>m. Serialize_PspTcpReq demo_lib demo_token demo_target pb_PspTcpReq_new = (True, m) \<and>
     PspToken_IsValid demo_token \<and> HasNonzeroIpPort demo_target \<and>
     \<not> fst (Serialize_PspTcpReq demo_lib PspToken_default demo_target pb_PspTcpReq_new)"
proof -
  have "\<not> PspToken_IsValid PspToken_default"
    by (simp add: PspToken_default_def PspToken_IsValid_def)
  moreover obtain m where "Serialize_PspTcpReq demo_lib demo_token demo_target pb_PspTcpReq_new = (True, m)"
    using PspTcpReq_returns [OF demo_texts_ok demo_token_ok(1) demo_target_ok demo_token_ok(2)
        PspToken_default_key] by blast
  ultimately show ?thesis
    using control_messages_valid_only [of demo_lib demo_host "[]" ReqNotSet pb_HostInfo_new demo_token
        demo_target pb_PspTcpReq_new]
      control_messages_valid_only [of demo_lib demo_host "[]" ReqNotSet pb_HostInfo_new PspToken_default
        demo_target pb_PspTcpReq_new]
    by (simp only: fst_conv simp_thms ex_simps) auto
qed

end
