(* ===== verification/Control.thy ===== *)
theory Control
  imports Message Metrics
begin

text \<open>
  \<^verbatim>\<open>internal/control/control.{h,cc}\<close> and the gRPC wrappers \<^verbatim>\<open>grpc_client.cc\<close>, \<^verbatim>\<open>grpc_server.cc\<close>: the
  control plane of a host, which serves its own description to peers, caches theirs, and
  forwards PSP token and RDMA connection requests to the data plane's handlers.

  gRPC is a parameter: \<open>build\<close> is what \<^verbatim>\<open>BuildAndStart\<close> does with an address (the bound port, or
  nothing), and \<open>rpc\<close> a unary call on the stub of a channel to an address, which may change a
  world \<open>'w\<close>, where the peers are. Credentials are present or null. A handler is a function of
  its arguments: what it does to the data plane is outside this component. Operations run one
  at a time; the mutexes of the class make its map updates and handler calls atomic.
\<close>

section \<open>Status values\<close>

text \<open>
  An \<^verbatim>\<open>absl::Status\<close> with its code and message, since both cross the network; the rest of the
  development distinguishes only the codes its callers look at (\<open>absl_status\<close>).
\<close>

record coded_status =
  st_code :: int
  st_message :: string

record grpc_Status =
  gs_code :: int
  gs_message :: string
  gs_details :: string

type_synonym 'a status_or = "coded_status + 'a"

definition ok_status :: coded_status where "ok_status = \<lparr>st_code = 0, st_message = []\<rparr>"
definition InvalidArgumentError :: "string \<Rightarrow> coded_status" where
  "InvalidArgumentError m = \<lparr>st_code = 3, st_message = m\<rparr>"
definition UnimplementedError :: "string \<Rightarrow> coded_status" where
  "UnimplementedError m = \<lparr>st_code = 12, st_message = m\<rparr>"
definition InternalError :: "string \<Rightarrow> coded_status" where
  "InternalError m = \<lparr>st_code = 13, st_message = m\<rparr>"
definition UnavailableError :: "string \<Rightarrow> coded_status" where
  "UnavailableError m = \<lparr>st_code = 14, st_message = m\<rparr>"

definition Status_ok :: "coded_status \<Rightarrow> bool" where "Status_ok s \<longleftrightarrow> st_code s = 0"

definition grpc_ok :: "grpc_Status \<Rightarrow> bool" where "grpc_ok s \<longleftrightarrow> gs_code s = 0"

definition grpc_OK :: grpc_Status where "grpc_OK = \<lparr>gs_code = 0, gs_message = [], gs_details = []\<rparr>"

definition ToAbslStatus :: "grpc_Status \<Rightarrow> coded_status" where
  "ToAbslStatus s = \<lparr>st_code = gs_code s,
     st_message = ''gRPC call failed: '' @ gs_message s @ '' ('' @ gs_details s @ '')''\<rparr>"

definition ToGrpcStatus :: "coded_status \<Rightarrow> grpc_Status" where
  "ToGrpcStatus s = \<lparr>gs_code = st_code s, gs_message = st_message s, gs_details = []\<rparr>"

section \<open>State\<close>

record GrpcClient =
  gc_target :: string

record GrpcServer =
  gs_port :: int
  gs_running :: bool

record SecurityCredentials =
  server_creds :: bool
  client_creds :: bool

definition SecurityCredentials_IsValid :: "SecurityCredentials \<Rightarrow> bool" where
  "SecurityCredentials_IsValid c \<longleftrightarrow> server_creds c \<and> client_creds c"

type_synonym PspTcpHandler = "PspToken \<Rightarrow> Endpoint \<Rightarrow> PspToken status_or"
type_synonym RdmaConnHandler = "pb_RdmaConnReq \<Rightarrow> pb_RdmaConnResp \<Rightarrow> coded_status \<times> pb_RdmaConnResp"

record Control =
  ctl_config :: Config
  ctl_self :: HostInfo
  ctl_creds :: SecurityCredentials
  grpc_server :: "GrpcServer option"
  serving :: bool
  ctl_metrics :: ControlMetrics
  peer_clients :: "(Endpoint, GrpcClient) hash_map"
  peer_hosts :: "(Endpoint, HostInfo) hash_map"
  psp_tcp_handler :: "PspTcpHandler option"
  rdma_conn_handler :: "RdmaConnHandler option"

definition Control_invariant :: "Control \<Rightarrow> bool" where
  "Control_invariant c \<longleftrightarrow> Config_IsValid (ctl_config c) \<and>
     HasNonzeroIpPort (control_plane_listener (ctl_self c)) \<and> client_creds (ctl_creds c) \<and> grpc_server c \<noteq> None"

definition isServing :: "Control \<Rightarrow> bool" where
  "isServing c \<longleftrightarrow> serving c"

section \<open>gRPC wrappers\<close>

type_synonym 'w rpc = "string \<Rightarrow> pb_ReqMsg \<Rightarrow> 'w \<Rightarrow> 'w \<times> grpc_Status \<times> pb_RespMsg"

definition GrpcClient_new :: "'a text_lib_scheme \<Rightarrow> Endpoint \<Rightarrow> GrpcClient" where
  "GrpcClient_new L peer = \<lparr>gc_target = Endpoint_ToString L peer\<rparr>"

definition SendUnary :: "'w rpc \<Rightarrow> GrpcClient \<Rightarrow> pb_ReqMsg \<Rightarrow> 'w \<Rightarrow> 'w \<times> pb_RespMsg status_or" where
  "SendUnary rpc client request w = (let (w', s, response) = rpc (gc_target client) request w in
     if \<not> grpc_ok s then (w', Inl (ToAbslStatus s)) else (w', Inr response))"

definition GrpcServer_invariant :: "GrpcServer \<Rightarrow> bool" where
  "GrpcServer_invariant s \<longleftrightarrow> 0 < gs_port s \<and> gs_running s"

text \<open>The request handler of a control plane's server is never null.\<close>

definition GrpcServer_Create ::
  "'a text_lib_scheme \<Rightarrow> (string \<Rightarrow> int option) \<Rightarrow> Endpoint \<Rightarrow> bool \<Rightarrow> GrpcServer status_or res" where
  "GrpcServer_Create L build self creds =
     (if \<not> creds then Inr (Inl (InvalidArgumentError ''server credentials must not be null''))
      else
        let addr = Endpoint_ToString L self in
        case build addr of
          None \<Rightarrow> Inr (Inl (InternalError (''GrpcServer failed to start on '' @ addr)))
        | Some port \<Rightarrow>
            dcheck (0 < port)
              (let server = \<lparr>gs_port = port, gs_running = True\<rparr>
               in dcheck (GrpcServer_invariant server) (Inr (Inr server))))"

definition GrpcServer_Shutdown :: "GrpcServer \<Rightarrow> GrpcServer" where
  "GrpcServer_Shutdown s = (if gs_running s then s\<lparr>gs_running := False\<rparr> else s)"

section \<open>Life cycle\<close>

definition Control_new :: "Config \<Rightarrow> HostInfo \<Rightarrow> SecurityCredentials \<Rightarrow> Control res" where
  "Control_new config self creds =
     dcheck (Config_IsValid config)
       (dcheck (\<not> HasZeroIpAddr (control_plane_listener self))
         (dcheck (server_creds creds)
           (dcheck (client_creds creds)
             (Inr \<lparr>ctl_config = config, ctl_self = self, ctl_creds = creds, grpc_server = None,
                serving = False, ctl_metrics = \<lparr>rpc_requests_received = 0\<rparr>, peer_clients = [],
                peer_hosts = [], psp_tcp_handler = None, rdma_conn_handler = None\<rparr>))))"

definition Control_Create :: "Config \<Rightarrow> HostInfo \<Rightarrow> SecurityCredentials \<Rightarrow> Control option res" where
  "Control_Create config self creds =
     (if HasZeroIpAddr (control_plane_listener self) then Inr None
      else if \<not> SecurityCredentials_IsValid creds then Inr None
      else rbind (Control_new config self creds) (\<lambda>c. Inr (Some c)))"

definition Control_Start ::
  "'a text_lib_scheme \<Rightarrow> (string \<Rightarrow> int option) \<Rightarrow> Control \<Rightarrow> (Control \<times> bool) res" where
  "Control_Start L build c =
     (if grpc_server c \<noteq> None then Inr (c, True)
      else
        let e = control_plane_listener (ctl_self c) in
        dcheck (\<not> HasZeroIpAddr e)
          (rbind (GrpcServer_Create L build e (server_creds (ctl_creds c))) (\<lambda>r. case r of
             Inl _ \<Rightarrow> Inr (c, False)
           | Inr server \<Rightarrow>
               let c1 = c\<lparr>grpc_server := Some server, ctl_self := (ctl_self c)
                     \<lparr>control_plane_listener := SetPort e (word_of_int (gs_port server))\<rparr>\<rparr>
               in dcheck (Control_invariant c1)
                    (dcheck (HostInfo_IsValid (ctl_self c1))
                      (check (\<not> serving c1) (Inr (c1\<lparr>serving := True\<rparr>, True)))))))"

definition Control_destroy :: "Control \<Rightarrow> Control" where
  "Control_destroy c = (if grpc_server c = None then c else c\<lparr>grpc_server := None\<rparr>)"

definition SetPspTcpHandler :: "PspTcpHandler option \<Rightarrow> Control \<Rightarrow> Control" where
  "SetPspTcpHandler handler c = c\<lparr>psp_tcp_handler := handler\<rparr>"

definition SetRdmaConnHandler :: "RdmaConnHandler option \<Rightarrow> Control \<Rightarrow> Control" where
  "SetRdmaConnHandler handler c = c\<lparr>rdma_conn_handler := handler\<rparr>"

definition Control_GetMetrics :: "Control \<Rightarrow> TransportMetrics \<Rightarrow> TransportMetrics" where
  "Control_GetMetrics c m = ControlMetrics_Snapshot (ctl_metrics c) m"

section \<open>Server side\<close>

definition handleHostInfoExchange :: "'a text_lib_scheme \<Rightarrow> Control \<Rightarrow> pb_HostInfo \<Rightarrow> pb_HostInfo option \<Rightarrow>
    (Control \<times> coded_status \<times> pb_HostInfo option) res" where
  "handleHostInfoExchange L c req_proto resp_proto = (case resp_proto of
     None \<Rightarrow> Inr (c, InternalError ''null host info resp proto'', None)
   | Some resp \<Rightarrow>
       let (ok, peer_info) = Deserialize_HostInfo L req_proto HostInfo_default in
       if \<not> ok then Inr (c, InternalError ''deserialize peer host info'', Some resp)
       else
         dcheck (HostInfo_IsValid peer_info)
           (let peer = control_plane_listener peer_info;
                c1 = c\<lparr>peer_hosts := AList.update peer peer_info (peer_hosts c)\<rparr>
            in dcheck (HasNonzeroIpPort peer)
                 (dcheck (HostInfo_IsValid (ctl_self c1))
                   (let (ok', resp1) = Serialize_HostInfo L (ctl_self c1) resp
                    in if \<not> ok' then Inr (c1, InternalError ''serialize self host info'', Some resp1)
                       else Inr (c1, ok_status, Some resp1)))))"

definition handlePspTokenExchange :: "'a text_lib_scheme \<Rightarrow> Control \<Rightarrow> pb_PspTcpReq \<Rightarrow> pb_PspTcpResp option \<Rightarrow>
    (coded_status \<times> pb_PspTcpResp option) res" where
  "handlePspTokenExchange L c req_proto resp_proto = (case resp_proto of
     None \<Rightarrow> Inr (InternalError ''null psp tcp resp proto'', None)
   | Some resp \<Rightarrow>
       let (ok, peer_token, self_target) = Deserialize_PspTcpReq L req_proto PspToken_default Endpoint_default in
       if \<not> ok then Inr (InvalidArgumentError ''deserialize peer psp tcp req proto'', Some resp)
       else
         dcheck (PspToken_IsValid peer_token)
           (dcheck (HasNonzeroIpPort self_target)
             (case psp_tcp_handler c of
                None \<Rightarrow> Inr (UnimplementedError ''missing psp tcp handler'', Some resp)
              | Some handler \<Rightarrow>
                  (case handler peer_token self_target of
                     Inl s \<Rightarrow> Inr (s, Some resp)
                   | Inr self_token \<Rightarrow>
                       if \<not> PspToken_IsValid self_token then Inr (InternalError ''invalid self psp token'', Some resp)
                       else
                         let (ok', resp1) = Serialize_PspTcpResp self_token resp in
                         if \<not> ok' then Inr (InternalError ''serialize self psp token'', Some resp1)
                         else Inr (ok_status, Some resp1)))))"

definition handleRdmaConnect :: "Control \<Rightarrow> pb_RdmaConnReq \<Rightarrow> pb_RdmaConnResp option \<Rightarrow>
    coded_status \<times> pb_RdmaConnResp option" where
  "handleRdmaConnect c req_proto resp_proto = (case resp_proto of
     None \<Rightarrow> (InternalError ''null rdma conn resp proto'', None)
   | Some resp \<Rightarrow>
       (case rdma_conn_handler c of
          None \<Rightarrow> (UnimplementedError ''missing rdma conn handler'', Some resp)
        | Some handler \<Rightarrow> let (s, resp1) = handler req_proto resp in (s, Some resp1)))"

text \<open>\<^verbatim>\<open>mutable_\<close> selects the field of the response's \<^verbatim>\<open>oneof\<close>, cleared unless it was selected before.\<close>

definition mutable_host_info :: "pb_RespMsg \<Rightarrow> pb_HostInfo" where
  "mutable_host_info m = (case m of RespHostInfo h \<Rightarrow> h | _ \<Rightarrow> pb_HostInfo_new)"

definition mutable_psp_tcp_resp :: "pb_RespMsg \<Rightarrow> pb_PspTcpResp" where
  "mutable_psp_tcp_resp m = (case m of RespPspTcp p \<Rightarrow> p | _ \<Rightarrow> pb_PspTcpResp_new)"

definition mutable_rdma_conn_resp :: "pb_RespMsg \<Rightarrow> pb_RdmaConnResp" where
  "mutable_rdma_conn_resp m = (case m of RespRdmaConn r \<Rightarrow> r
   | _ \<Rightarrow> \<lparr>pb_resp_qpn = None, pb_resp_gid = None, pb_resp_psn = None, pb_resp_rkey = None\<rparr>)"

definition set_response :: "('p \<Rightarrow> pb_RespMsg) \<Rightarrow> 'p option \<Rightarrow> pb_RespMsg option" where
  "set_response sel p = map_option sel p"

definition handleAllRequest :: "'a text_lib_scheme \<Rightarrow> Control \<Rightarrow> pb_ReqMsg \<Rightarrow> pb_RespMsg option \<Rightarrow>
    (Control \<times> coded_status \<times> pb_RespMsg option) res" where
  "handleAllRequest L c req_msg resp_msg =
     (if \<not> isServing c then Inr (c, UnavailableError ''control plane not serving yet'', resp_msg)
      else case resp_msg of
        None \<Rightarrow> Inr (c, InvalidArgumentError ''null response message'', None)
      | Some resp \<Rightarrow>
          let c1 = c\<lparr>ctl_metrics := (ctl_metrics c)
                \<lparr>rpc_requests_received := Counter_Add 1 (rpc_requests_received (ctl_metrics c))\<rparr>\<rparr>
          in case req_msg of
            ReqHostInfo h \<Rightarrow>
              rbind (handleHostInfoExchange L c1 h (Some (mutable_host_info resp)))
                (\<lambda>(c2, s, r). Inr (c2, s, set_response RespHostInfo r))
          | ReqPspTcp p \<Rightarrow>
              rbind (handlePspTokenExchange L c1 p (Some (mutable_psp_tcp_resp resp)))
                (\<lambda>(s, r). Inr (c1, s, set_response RespPspTcp r))
          | ReqRdmaConn q \<Rightarrow>
              let (s, r) = handleRdmaConnect c1 q (Some (mutable_rdma_conn_resp resp))
              in Inr (c1, s, set_response RespRdmaConn r)
          | _ \<Rightarrow> Inr (c1, UnimplementedError ''unsupported req type'', Some resp))"

text \<open>The service method; gRPC passes neither a null context nor null messages.\<close>

definition ProcessUnary :: "'a text_lib_scheme \<Rightarrow> Control \<Rightarrow> GrpcServer \<Rightarrow> pb_ReqMsg \<Rightarrow> pb_RespMsg \<Rightarrow>
    (Control \<times> grpc_Status \<times> pb_RespMsg option) res" where
  "ProcessUnary L c server request response =
     dcheck (GrpcServer_invariant server)
       (rbind (handleAllRequest L c request (Some response)) (\<lambda>(c', s, resp).
          if \<not> Status_ok s then Inr (c', ToGrpcStatus s, resp) else Inr (c', grpc_OK, resp)))"

section \<open>Client side\<close>

definition getOrCreateClient :: "'a text_lib_scheme \<Rightarrow> Control \<Rightarrow> Endpoint \<Rightarrow> (Control \<times> GrpcClient) res" where
  "getOrCreateClient L c peer =
     dcheck (Control_invariant c)
       (case map_of (peer_clients c) peer of
          Some client \<Rightarrow> Inr (c, client)
        | None \<Rightarrow>
            let client = GrpcClient_new L peer
            in Inr (c\<lparr>peer_clients := AList.update peer client (peer_clients c)\<rparr>, client))"

definition sendRequest :: "'a text_lib_scheme \<Rightarrow> 'w rpc \<Rightarrow> Endpoint \<Rightarrow> pb_ReqMsg \<Rightarrow> Control \<Rightarrow> 'w \<Rightarrow>
    (Control \<times> 'w \<times> pb_RespMsg status_or) res" where
  "sendRequest L rpc peer req_msg c w =
     dcheck (Control_invariant c)
       (rbind (getOrCreateClient L c peer) (\<lambda>(c1, client).
          let (w1, r) = SendUnary rpc client req_msg w in Inr (c1, w1, r)))"

definition GetPeerHostInfo :: "'a text_lib_scheme \<Rightarrow> 'w rpc \<Rightarrow> Endpoint \<Rightarrow> Control \<Rightarrow> 'w \<Rightarrow>
    (Control \<times> 'w \<times> HostInfo status_or) res" where
  "GetPeerHostInfo L rpc peer c w =
     (if \<not> HasNonzeroIpPort peer then Inr (c, w, Inl (InvalidArgumentError ''invalid peer endpoint''))
      else case map_of (peer_hosts c) peer of
        Some h \<Rightarrow> Inr (c, w, Inr h)
      | None \<Rightarrow>
          let (ok, self) = Serialize_HostInfo L (ctl_self c) pb_HostInfo_new in
          if \<not> ok then Inr (c, w, Inl (InternalError ''serialize self host info''))
          else rbind (sendRequest L rpc peer (ReqHostInfo self) c w) (\<lambda>(c1, w1, r). case r of
            Inl s \<Rightarrow> Inr (c1, w1, Inl s)
          | Inr (RespHostInfo hp) \<Rightarrow>
              let (ok', peer_info) = Deserialize_HostInfo L hp HostInfo_default in
              if \<not> ok' then Inr (c1, w1, Inl (InternalError ''deserialize peer host info proto''))
              else
                dcheck (HostInfo_IsValid peer_info)
                  (dcheck (Endpoint_eq (control_plane_listener peer_info) peer)
                    (Inr (c1\<lparr>peer_hosts := AList.update peer peer_info (peer_hosts c1)\<rparr>, w1, Inr peer_info)))
          | Inr _ \<Rightarrow> Inr (c1, w1, Inl (InternalError ''no host info in resp proto''))))"

definition ExchangePspTokens :: "'a text_lib_scheme \<Rightarrow> 'w rpc \<Rightarrow> PspToken \<Rightarrow> Endpoint \<Rightarrow> Endpoint \<Rightarrow>
    Control \<Rightarrow> 'w \<Rightarrow> (Control \<times> 'w \<times> PspToken status_or) res" where
  "ExchangePspTokens L rpc self_token peer_target peer c w =
     (if \<not> HasNonzeroIpPort peer then Inr (c, w, Inl (InvalidArgumentError ''invalid peer''))
      else if \<not> HasNonzeroIpPort peer_target then Inr (c, w, Inl (InvalidArgumentError ''invalid peer target''))
      else if \<not> PspToken_IsValid self_token then Inr (c, w, Inl (InvalidArgumentError ''invalid self psp token''))
      else
        let (ok, req) = Serialize_PspTcpReq L self_token peer_target pb_PspTcpReq_new in
        if \<not> ok then Inr (c, w, Inl (InternalError ''serialize self psp token''))
        else rbind (sendRequest L rpc peer (ReqPspTcp req) c w) (\<lambda>(c1, w1, r). case r of
          Inl s \<Rightarrow> Inr (c1, w1, Inl s)
        | Inr (RespPspTcp p) \<Rightarrow>
            let (ok', peer_token) = Deserialize_PspTcpResp p PspToken_default in
            if \<not> ok' then Inr (c1, w1, Inl (InternalError ''deserialize peer psp token''))
            else dcheck (PspToken_IsValid peer_token) (Inr (c1, w1, Inr peer_token))
        | Inr _ \<Rightarrow> Inr (c1, w1, Inl (InternalError ''null psp tcp proto in resp msg''))))"

definition ConnectRdmaPeer :: "'a text_lib_scheme \<Rightarrow> 'w rpc \<Rightarrow> Endpoint \<Rightarrow> string \<Rightarrow> u32 \<Rightarrow> byte list \<Rightarrow> u32 \<Rightarrow> u32 \<Rightarrow>
    Control \<Rightarrow> 'w \<Rightarrow> (Control \<times> 'w \<times> pb_RdmaConnResp status_or) res" where
  "ConnectRdmaPeer L rpc peer device_name qpn gid psn key c w =
     (if \<not> HasNonzeroIpPort peer then Inr (c, w, Inl (InvalidArgumentError ''invalid peer endpoint''))
      else if length gid \<noteq> 16 then Inr (c, w, Inl (InvalidArgumentError ''invalid GID size''))
      else
        let req = \<lparr>pb_conn_peer = None, pb_device_name = Some device_name, pb_qpn = Some qpn,
              pb_gid = Some gid, pb_psn = Some psn, pb_conn_rkey = (if key \<noteq> 0 then Some key else None)\<rparr>
        in rbind (sendRequest L rpc peer (ReqRdmaConn req) c w) (\<lambda>(c1, w1, r). case r of
          Inl s \<Rightarrow> Inr (c1, w1, Inl s)
        | Inr (RespRdmaConn resp) \<Rightarrow> Inr (c1, w1, Inr resp)
        | Inr _ \<Rightarrow> Inr (c1, w1, Inl (InternalError ''null rdma conn proto in resp msg''))))"

section \<open>Invariant\<close>

text \<open>
  A serving control plane has a running server and a valid description of its host; every
  cached description is valid and stands under the endpoint it announces; every client is bound
  to the address of its key.
\<close>

definition wf_Control :: "'a text_lib_scheme \<Rightarrow> Control \<Rightarrow> bool" where
  "wf_Control L c \<longleftrightarrow>
     (serving c \<longrightarrow> Control_invariant c \<and> HostInfo_IsValid (ctl_self c) \<and>
        GrpcServer_invariant (the (grpc_server c))) \<and>
     wf_map (peer_hosts c) \<and>
     list_all (\<lambda>(e, h). HostInfo_IsValid h \<and> control_plane_listener h = e) (peer_hosts c) \<and>
     wf_map (peer_clients c) \<and>
     list_all (\<lambda>(e, g). g = GrpcClient_new L e) (peer_clients c)"

lemma list_all_update: "P (k, v) \<Longrightarrow> list_all P m \<Longrightarrow> list_all P (AList.update k v m)"
  by (induction m) auto

lemma HostInfo_listener: "HostInfo_IsValid h \<Longrightarrow> HasNonzeroIpPort (control_plane_listener h)"
  by (simp add: HostInfo_IsValid_def)

lemma wf_Control_cached:
  "wf_Control L c \<Longrightarrow> map_of (peer_hosts c) e = Some h \<Longrightarrow> HostInfo_IsValid h \<and> control_plane_listener h = e"
  using map_of_SomeD [of "peer_hosts c" e h] by (auto simp: wf_Control_def list_all_iff)

lemma wf_Control_client:
  "wf_Control L c \<Longrightarrow> map_of (peer_clients c) e = Some g \<Longrightarrow> g = GrpcClient_new L e"
  using map_of_SomeD [of "peer_clients c" e g] by (auto simp: wf_Control_def list_all_iff)

lemma wf_Control_host:
  assumes "wf_Control L c" "HostInfo_IsValid h"
  shows "wf_Control L (c\<lparr>peer_hosts := AList.update (control_plane_listener h) h (peer_hosts c)\<rparr>)"
  using assms by (simp add: wf_Control_def Control_invariant_def list_all_update)

lemma wf_Control_counted [simp]: "wf_Control L (c\<lparr>ctl_metrics := m\<rparr>) = wf_Control L c"
  by (simp add: wf_Control_def Control_invariant_def)

text \<open>The control plane as created and started.\<close>

lemma Control_Create_wf: "Control_Create config self creds = Inr (Some c) \<Longrightarrow> wf_Control L c"
  by (auto simp: Control_Create_def Control_new_def wf_Control_def dcheck_def split: if_splits)

lemma Control_Start_wf:
  assumes "wf_Control L c" "Control_Start L build c = Inr (c', ok)"
  shows "wf_Control L c'"
proof (cases "grpc_server c")
  case None
  with assms show ?thesis
    by (auto simp: Control_Start_def GrpcServer_Create_def GrpcServer_invariant_def wf_Control_def
        Control_invariant_def Let_def dcheck_def check_def rbind_def split: if_splits option.splits sum.splits)
next
  case (Some s)
  with assms show ?thesis by (simp add: Control_Start_def)
qed

section \<open>Serving\<close>

lemma handleHostInfoExchange_total:
  assumes "wf_Control L c" "serving c"
  shows "\<exists>c' s r. handleHostInfoExchange L c p (Some r0) = Inr (c', s, Some r) \<and> wf_Control L c' \<and>
    ctl_self c' = ctl_self c \<and> serving c' \<and> ctl_metrics c' = ctl_metrics c"
proof -
  obtain ok h where h: "Deserialize_HostInfo L p HostInfo_default = (ok, h)" by fastforce
  obtain ok' r where r: "Serialize_HostInfo L (ctl_self c) r0 = (ok', r)" by fastforce
  have self: "HostInfo_IsValid (ctl_self c)" using assms by (simp add: wf_Control_def)
  show ?thesis
  proof (cases ok)
    case True
    with h have "HostInfo_IsValid h" using host.sound [of L p HostInfo_default h] by simp
    with h r self True assms wf_Control_host [OF assms(1), of h] show ?thesis
      by (cases ok') (simp_all add: handleHostInfoExchange_def HostInfo_listener Let_def)
  next
    case False
    with h assms show ?thesis by (simp add: handleHostInfoExchange_def)
  qed
qed

lemma handlePspTokenExchange_total:
  "\<exists>s r. handlePspTokenExchange L c p (Some r0) = Inr (s, Some r)"
proof -
  obtain ok t e where "Deserialize_PspTcpReq L p PspToken_default Endpoint_default = (ok, t, e)"
    by (metis prod_cases3)
  then show ?thesis
    using PspTcpReq_sound [of L p PspToken_default Endpoint_default t e]
    by (cases ok) (auto simp: handlePspTokenExchange_def Let_def split: option.split sum.split prod.split)
qed

lemma handleAllRequest_total:
  assumes "wf_Control L c"
  shows "\<exists>c' s r. handleAllRequest L c m (Some r0) = Inr (c', s, Some r) \<and> wf_Control L c' \<and>
    ctl_self c' = ctl_self c \<and> serving c' = serving c"
proof (cases "serving c")
  case True
  define c1 where "c1 = c\<lparr>ctl_metrics := (ctl_metrics c)
    \<lparr>rpc_requests_received := Counter_Add 1 (rpc_requests_received (ctl_metrics c))\<rparr>\<rparr>"
  have c1: "wf_Control L c1" "serving c1" "ctl_self c1 = ctl_self c"
    using assms True by (simp_all add: c1_def)
  show ?thesis
  proof (cases m)
    case (ReqHostInfo h)
    then show ?thesis
      using handleHostInfoExchange_total [OF c1(1,2), of h "mutable_host_info r0"] c1 True
      by (auto simp: handleAllRequest_def isServing_def set_response_def simp flip: c1_def)
  next
    case (ReqPspTcp p)
    then show ?thesis
      using handlePspTokenExchange_total [of L c1 p "mutable_psp_tcp_resp r0"] c1 True
      by (auto simp: handleAllRequest_def isServing_def set_response_def simp flip: c1_def)
  next
    case (ReqRdmaConn q)
    then show ?thesis
      using c1 True by (auto simp: handleAllRequest_def handleRdmaConnect_def isServing_def set_response_def
          simp flip: c1_def split: option.split prod.split)
  qed (use c1 True in \<open>auto simp: handleAllRequest_def isServing_def simp flip: c1_def\<close>)
qed (use assms in \<open>simp add: handleAllRequest_def isServing_def\<close>)

lemma sendRequest_calls:
  assumes "wf_Control L c" "serving c" "rpc (Endpoint_ToString L peer) m w = (w', s, r)"
  shows "\<exists>c'. sendRequest L rpc peer m c w =
      Inr (c', w', if grpc_ok s then Inr r else Inl (ToAbslStatus s)) \<and>
    wf_Control L c' \<and> (\<exists>pc. c' = c\<lparr>peer_clients := pc\<rparr>)"
proof -
  have sent: "SendUnary rpc (GrpcClient_new L peer) m w =
      (w', if grpc_ok s then Inr r else Inl (ToAbslStatus s))"
    using assms(3) by (simp add: SendUnary_def GrpcClient_new_def)
  have inv: "Control_invariant c" using assms(1,2) by (simp add: wf_Control_def)
  show ?thesis
  proof (cases "map_of (peer_clients c) peer")
    case None
    moreover have "wf_Control L (c\<lparr>peer_clients := AList.update peer (GrpcClient_new L peer) (peer_clients c)\<rparr>)"
      using assms(1) by (simp add: wf_Control_def Control_invariant_def list_all_update)
    ultimately show ?thesis
      using sent inv by (auto simp: sendRequest_def getOrCreateClient_def Let_def)
  next
    case (Some g)
    then show ?thesis
      using sent inv wf_Control_client [OF assms(1) Some] assms(1)
      by (auto simp: sendRequest_def getOrCreateClient_def intro: exI [of _ "peer_clients c"])
  qed
qed

section \<open>Calls between two hosts\<close>

text \<open>
  The law of gRPC for a call to a host whose server runs: the request reaches the service method
  of the server that listens at the address, once, and the status and, on success, the response
  come back. The world is the peer's control plane.
\<close>

locale unary_network =
  fixes L :: "'a text_lib_scheme"
    and rpc :: "Control rpc"
  assumes delivered: "grpc_server w = Some server \<Longrightarrow>
    Endpoint_ToString L (control_plane_listener (ctl_self w)) = addr \<Longrightarrow>
    ProcessUnary L w server m RespNotSet = Inr (w', s, Some r) \<Longrightarrow>
    \<exists>r'. rpc addr m w = (w', s, r') \<and> (grpc_ok s \<longrightarrow> r' = r)"
begin

text \<open>A request from one serving host to another is answered by the other's request handler.\<close>

lemma sendRequest_answered:
  assumes "wf_Control L a" "serving a" "wf_Control L b" "serving b"
    and "handleAllRequest L b m (Some RespNotSet) = Inr (b', s, Some r)"
  shows "\<exists>a'. sendRequest L rpc (control_plane_listener (ctl_self b)) m a b =
      Inr (a', b', if Status_ok s then Inr r else Inl (ToAbslStatus (ToGrpcStatus s))) \<and>
    wf_Control L a' \<and> (\<exists>pc. a' = a\<lparr>peer_clients := pc\<rparr>)"
proof -
  let ?peer = "control_plane_listener (ctl_self b)"
  obtain server where server: "grpc_server b = Some server" "GrpcServer_invariant server"
    using assms(3,4) by (auto simp: wf_Control_def Control_invariant_def)
  then have "ProcessUnary L b server m RespNotSet =
      Inr (b', if Status_ok s then grpc_OK else ToGrpcStatus s, Some r)"
    using assms(5) by (simp add: ProcessUnary_def)
  then obtain r' where "rpc (Endpoint_ToString L ?peer) m b = (b', if Status_ok s then grpc_OK else ToGrpcStatus s, r')"
    "grpc_ok (if Status_ok s then grpc_OK else ToGrpcStatus s) \<longrightarrow> r' = r"
    using delivered [OF server(1) refl] by blast
  with sendRequest_calls [where rpc = rpc, OF assms(1,2) this(1)] show ?thesis
    by (cases "Status_ok s") (auto simp: grpc_ok_def grpc_OK_def ToGrpcStatus_def Status_ok_def)
qed

end

text \<open>gRPC within one process: the call runs the service method of the addressed host.\<close>

definition direct_rpc :: "'a text_lib_scheme \<Rightarrow> Control rpc" where
  "direct_rpc L addr m w = (let refused = (w, \<lparr>gs_code = 14, gs_message = [], gs_details = []\<rparr>, RespNotSet) in
     case grpc_server w of
       None \<Rightarrow> refused
     | Some server \<Rightarrow>
         if Endpoint_ToString L (control_plane_listener (ctl_self w)) \<noteq> addr then refused
         else (case ProcessUnary L w server m RespNotSet of
                 Inr (w', s, Some r) \<Rightarrow> (w', s, r)
               | _ \<Rightarrow> refused))"

interpretation direct: unary_network L "direct_rpc L" for L :: "'a text_lib_scheme"
  by unfold_locales (simp add: direct_rpc_def)

lemma host_info_answer:
  assumes "texts_ok L" "wf_Control L a" "serving a" "wf_Control L b" "serving b"
  shows "\<exists>p q b'. Serialize_HostInfo L (ctl_self a) pb_HostInfo_new = (True, p) \<and>
    handleAllRequest L b (ReqHostInfo p) (Some RespNotSet) = Inr (b', ok_status, Some (RespHostInfo q)) \<and>
    Deserialize_HostInfo L q HostInfo_default = (True, ctl_self b) \<and> wf_Control L b' \<and>
    ctl_self b' = ctl_self b \<and> serving b' \<and>
    peer_hosts b' = AList.update (control_plane_listener (ctl_self a)) (ctl_self a) (peer_hosts b)"
proof -
  have valid: "HostInfo_IsValid (ctl_self a)" "HostInfo_IsValid (ctl_self b)"
    using assms by (simp_all add: wf_Control_def)
  obtain p where p: "Serialize_HostInfo L (ctl_self a) pb_HostInfo_new = (True, p)"
    "Deserialize_HostInfo L p HostInfo_default = (True, ctl_self a)"
    using host.returns [OF valid(1) assms(1,1)] by blast
  obtain q where q: "Serialize_HostInfo L (ctl_self b) pb_HostInfo_new = (True, q)"
    "Deserialize_HostInfo L q HostInfo_default = (True, ctl_self b)"
    using host.returns [OF valid(2) assms(1,1)] by blast
  have "\<exists>b'. handleAllRequest L b (ReqHostInfo p) (Some RespNotSet) = Inr (b', ok_status, Some (RespHostInfo q)) \<and>
      peer_hosts b' = AList.update (control_plane_listener (ctl_self a)) (ctl_self a) (peer_hosts b)"
    using p q valid assms(5)
    by (simp add: handleAllRequest_def handleHostInfoExchange_def isServing_def mutable_host_info_def
        set_response_def HostInfo_listener Let_def)
  moreover have "\<exists>b' s r. handleAllRequest L b (ReqHostInfo p) (Some RespNotSet) = Inr (b', s, Some r) \<and>
      wf_Control L b' \<and> ctl_self b' = ctl_self b \<and> serving b' = serving b"
    by (rule handleAllRequest_total [OF assms(4)])
  ultimately show ?thesis using p q assms(5) by auto
qed

lemma psp_answer:
  assumes "texts_ok L" "serving b" "psp_tcp_handler b = Some f"
    and "PspToken_IsValid t" "length (psp_key t) = kPspKeyLen" "HasNonzeroIpPort e"
  shows "\<exists>p. Serialize_PspTcpReq L t e pb_PspTcpReq_new = (True, p) \<and>
    (\<forall>s. f t e = Inl s \<longrightarrow> (\<exists>b' r. handleAllRequest L b (ReqPspTcp p) (Some RespNotSet) = Inr (b', s, Some r))) \<and>
    (\<forall>t'. f t e = Inr t' \<and> PspToken_IsValid t' \<and> length (psp_key t') = kPspKeyLen \<longrightarrow>
      (\<exists>b' r. handleAllRequest L b (ReqPspTcp p) (Some RespNotSet) = Inr (b', ok_status, Some (RespPspTcp r)) \<and>
         Deserialize_PspTcpResp r PspToken_default = (True, t')))"
proof -
  have key: "length (psp_key PspToken_default) = kPspKeyLen" by (simp add: PspToken_default_def)
  obtain p where p: "Serialize_PspTcpReq L t e pb_PspTcpReq_new = (True, p)"
    "Deserialize_PspTcpReq L p PspToken_default Endpoint_default = (True, t, e)"
    using PspTcpReq_returns [OF assms(1,4,6,5) key] by blast
  note step = handleAllRequest_def handlePspTokenExchange_def isServing_def mutable_psp_tcp_resp_def
    set_response_def Let_def
  have "\<exists>b' r. handleAllRequest L b (ReqPspTcp p) (Some RespNotSet) = Inr (b', ok_status, Some (RespPspTcp r)) \<and>
      Deserialize_PspTcpResp r PspToken_default = (True, t')"
    if t': "f t e = Inr t'" "PspToken_IsValid t'" "length (psp_key t') = kPspKeyLen" for t'
    using PspTcpResp_returns [OF t'(2,3) key] p assms t'(1,2) by (auto simp: step)
  moreover have "\<exists>b' r. handleAllRequest L b (ReqPspTcp p) (Some RespNotSet) = Inr (b', s, Some r)"
    if "f t e = Inl s" for s
    using p assms that by (simp add: step)
  ultimately show ?thesis using p(1) by blast
qed

section \<open>Properties\<close>

text \<open>
  C25. No request from the network can stop a control plane or spoil its state: whatever the
  request, the service method returns a status and the invariant is kept, in particular the cache
  holds only valid descriptions under the endpoints they announce, and the description the host
  serves of itself does not change. Before \<^verbatim>\<open>Start\<close> has finished requests are turned away without
  effect.
\<close>
theorem service_total:
  assumes "wf_Control L c" "GrpcServer_invariant server"
  shows "\<exists>c' s r. ProcessUnary L c server m r0 = Inr (c', s, Some r) \<and> wf_Control L c' \<and>
    ctl_self c' = ctl_self c \<and> (\<not> serving c \<longrightarrow> c' = c \<and> gs_code s = 14) \<and>
    (serving c \<and> (m = ReqNotSet \<or> (\<exists>q. m = ReqPeerReq q)) \<longrightarrow> gs_code s = 12 \<and> peer_hosts c' = peer_hosts c)"
proof -
  obtain c' s r where step: "handleAllRequest L c m (Some r0) = Inr (c', s, Some r)" "wf_Control L c'"
    "ctl_self c' = ctl_self c"
    using handleAllRequest_total [OF assms(1)] by metis
  have idle: "c' = c \<and> st_code s = 14" if "\<not> serving c"
    using step(1) that by (auto simp: handleAllRequest_def isServing_def UnavailableError_def)
  have other: "st_code s = 12 \<and> peer_hosts c' = peer_hosts c"
    if "serving c" "m = ReqNotSet \<or> (\<exists>q. m = ReqPeerReq q)"
    using step(1) that by (auto simp: handleAllRequest_def isServing_def UnimplementedError_def Let_def)
  have code: "gs_code (if Status_ok s then grpc_OK else ToGrpcStatus s) = st_code s"
    by (simp add: Status_ok_def grpc_OK_def ToGrpcStatus_def)
  have "ProcessUnary L c server m r0 =
      Inr (c', if Status_ok s then grpc_OK else ToGrpcStatus s, Some r)"
    using step(1) assms(2) by (simp add: ProcessUnary_def)
  with step idle other code show ?thesis by metis
qed

text \<open>
  C24. Two serving hosts that do not know each other exchange their descriptions in one call: the
  caller gets exactly the description of the peer, both cache the other's, and later queries of
  either side are answered from the cache without any call.
\<close>
theorem host_info_exchange:
  assumes "unary_network L rpc" "texts_ok L" "wf_Control L a" "serving a" "wf_Control L b" "serving b"
    and "map_of (peer_hosts a) (control_plane_listener (ctl_self b)) = None"
  shows "\<exists>a' b'. GetPeerHostInfo L rpc (control_plane_listener (ctl_self b)) a b = Inr (a', b', Inr (ctl_self b)) \<and>
    wf_Control L a' \<and> wf_Control L b' \<and> ctl_self a' = ctl_self a \<and> ctl_self b' = ctl_self b \<and>
    (\<forall>rpc' (w :: 'w). GetPeerHostInfo L rpc' (control_plane_listener (ctl_self b)) a' w = Inr (a', w, Inr (ctl_self b))) \<and>
    (\<forall>rpc' (w :: 'w). GetPeerHostInfo L rpc' (control_plane_listener (ctl_self a)) b' w = Inr (b', w, Inr (ctl_self a)))"
proof -
  let ?eb = "control_plane_listener (ctl_self b)"
  have valid: "HostInfo_IsValid (ctl_self a)" "HostInfo_IsValid (ctl_self b)"
    using assms(3-6) by (simp_all add: wf_Control_def)
  obtain p q b' where p: "Serialize_HostInfo L (ctl_self a) pb_HostInfo_new = (True, p)"
    and h: "handleAllRequest L b (ReqHostInfo p) (Some RespNotSet) = Inr (b', ok_status, Some (RespHostInfo q))"
    and q: "Deserialize_HostInfo L q HostInfo_default = (True, ctl_self b)"
    and b': "wf_Control L b'" "ctl_self b' = ctl_self b"
      "peer_hosts b' = AList.update (control_plane_listener (ctl_self a)) (ctl_self a) (peer_hosts b)"
    using host_info_answer [OF assms(2-6)] by metis
  obtain a1 pc where a1: "sendRequest L rpc ?eb (ReqHostInfo p) a b = Inr (a1, b', Inr (RespHostInfo q))"
    "wf_Control L a1" "a1 = a\<lparr>peer_clients := pc\<rparr>"
    using unary_network.sendRequest_answered [OF assms(1,3-6) h] by (auto simp: Status_ok_def ok_status_def)
  define a' where "a' = a1\<lparr>peer_hosts := AList.update ?eb (ctl_self b) (peer_hosts a1)\<rparr>"
  have "GetPeerHostInfo L rpc ?eb a b = Inr (a', b', Inr (ctl_self b))"
    using assms(7) p a1(1) q valid by (simp add: GetPeerHostInfo_def HostInfo_listener a'_def)
  moreover have "wf_Control L a'"
    unfolding a'_def by (rule wf_Control_host [OF a1(2) valid(2)])
  moreover have "ctl_self a' = ctl_self a" "map_of (peer_hosts a') ?eb = Some (ctl_self b)"
    by (simp_all add: a'_def a1(3))
  ultimately show ?thesis
    using b' valid by (intro exI [of _ a'] exI [of _ b']) (simp add: GetPeerHostInfo_def HostInfo_listener)
qed

text \<open>
  A PSP token exchange hands the caller's token and target to the peer's handler unchanged:
  the caller gets exactly the token that handler returns, or the code of the error it returns.
\<close>
theorem psp_token_exchange:
  assumes "unary_network L rpc" "texts_ok L" "wf_Control L a" "serving a" "wf_Control L b" "serving b"
    and "psp_tcp_handler b = Some f" "PspToken_IsValid t" "length (psp_key t) = kPspKeyLen" "HasNonzeroIpPort e"
    and "case f t e of Inl s \<Rightarrow> \<not> Status_ok s
         | Inr t' \<Rightarrow> PspToken_IsValid t' \<and> length (psp_key t') = kPspKeyLen"
  shows "\<exists>a' b' res. ExchangePspTokens L rpc t e (control_plane_listener (ctl_self b)) a b = Inr (a', b', res) \<and>
    (case f t e of Inl s \<Rightarrow> \<exists>s'. res = Inl s' \<and> st_code s' = st_code s | Inr t' \<Rightarrow> res = Inr t')"
proof -
  let ?eb = "control_plane_listener (ctl_self b)"
  have eb: "HasNonzeroIpPort ?eb"
    using assms(5,6) by (simp add: wf_Control_def HostInfo_listener)
  obtain p where p: "Serialize_PspTcpReq L t e pb_PspTcpReq_new = (True, p)"
    "\<And>s. f t e = Inl s \<Longrightarrow> \<exists>b' r. handleAllRequest L b (ReqPspTcp p) (Some RespNotSet) = Inr (b', s, Some r)"
    "\<And>t'. f t e = Inr t' \<and> PspToken_IsValid t' \<and> length (psp_key t') = kPspKeyLen \<Longrightarrow>
      \<exists>b' r. handleAllRequest L b (ReqPspTcp p) (Some RespNotSet) = Inr (b', ok_status, Some (RespPspTcp r)) \<and>
         Deserialize_PspTcpResp r PspToken_default = (True, t')"
    using psp_answer [OF assms(2,6-10)] by blast
  note answered = unary_network.sendRequest_answered [OF assms(1,3-6)]
  show ?thesis
  proof (cases "f t e")
    case (Inl s)
    with p(2) obtain b' r where "handleAllRequest L b (ReqPspTcp p) (Some RespNotSet) = Inr (b', s, Some r)" by blast
    from answered [OF this] Inl assms(8,10,11) eb p(1) show ?thesis
      by (auto simp: ExchangePspTokens_def ToAbslStatus_def ToGrpcStatus_def)
  next
    case (Inr t')
    with p(3) assms(11) obtain b' r where
      "handleAllRequest L b (ReqPspTcp p) (Some RespNotSet) = Inr (b', ok_status, Some (RespPspTcp r))"
      and r: "Deserialize_PspTcpResp r PspToken_default = (True, t')"
      by auto
    from answered [OF this(1)] r Inr assms(8,10,11) eb p(1) show ?thesis
      by (auto simp: ExchangePspTokens_def Status_ok_def ok_status_def)
  qed
qed

text \<open>
  What a host makes of a peer's answer to its query, for any network: a failed call is
  reported with the code of the call, an answer that is not a valid description as an internal
  error, and the cache is unchanged in both cases; a valid description that announces another
  control endpoint than the one called stops the process by a \<^verbatim>\<open>DCHECK\<close> on remote data.
\<close>
theorem peer_answer_outcomes:
  assumes "wf_Control L c" "serving c" "HasNonzeroIpPort peer" "map_of (peer_hosts c) peer = None"
    and "Serialize_HostInfo L (ctl_self c) pb_HostInfo_new = (True, p)"
    and "rpc (Endpoint_ToString L peer) (ReqHostInfo p) w = (w', s, r)"
  shows "(\<not> grpc_ok s \<longrightarrow> (\<exists>c' e. GetPeerHostInfo L rpc peer c w = Inr (c', w', Inl e) \<and>
      st_code e = gs_code s \<and> peer_hosts c' = peer_hosts c)) \<and>
    (grpc_ok s \<and> \<not> (\<exists>q h. r = RespHostInfo q \<and> Deserialize_HostInfo L q HostInfo_default = (True, h)) \<longrightarrow>
      (\<exists>c' e. GetPeerHostInfo L rpc peer c w = Inr (c', w', Inl e) \<and> st_code e = 13 \<and> peer_hosts c' = peer_hosts c)) \<and>
    (grpc_ok s \<and> r = RespHostInfo q \<and> Deserialize_HostInfo L q HostInfo_default = (True, h) \<longrightarrow>
      (if control_plane_listener h = peer
       then \<exists>c'. GetPeerHostInfo L rpc peer c w = Inr (c', w', Inr h) \<and> map_of (peer_hosts c') peer = Some h
       else GetPeerHostInfo L rpc peer c w = Inl DcheckFailed))"
proof -
  obtain c1 pc where c1: "sendRequest L rpc peer (ReqHostInfo p) c w =
      Inr (c1, w', if grpc_ok s then Inr r else Inl (ToAbslStatus s))" "c1 = c\<lparr>peer_clients := pc\<rparr>"
    using sendRequest_calls [where rpc = rpc, OF assms(1,2,6)] by blast
  note step = GetPeerHostInfo_def assms(3-5) c1 InternalError_def
  have "\<exists>c' e. GetPeerHostInfo L rpc peer c w = Inr (c', w', Inl e) \<and> st_code e = gs_code s \<and>
      peer_hosts c' = peer_hosts c" if "\<not> grpc_ok s"
    using that by (simp add: step ToAbslStatus_def)
  moreover have "\<exists>c' e. GetPeerHostInfo L rpc peer c w = Inr (c', w', Inl e) \<and> st_code e = 13 \<and>
      peer_hosts c' = peer_hosts c"
    if "grpc_ok s" "\<not> (\<exists>q h. r = RespHostInfo q \<and> Deserialize_HostInfo L q HostInfo_default = (True, h))"
    using that by (auto simp: step split: pb_RespMsg.split prod.split)
  moreover have "if control_plane_listener h = peer
       then \<exists>c'. GetPeerHostInfo L rpc peer c w = Inr (c', w', Inr h) \<and> map_of (peer_hosts c') peer = Some h
       else GetPeerHostInfo L rpc peer c w = Inl DcheckFailed"
    if "grpc_ok s" "r = RespHostInfo q" "Deserialize_HostInfo L q HostInfo_default = (True, h)"
    using that host.sound [OF that(3)] by (simp add: step)
  ultimately show ?thesis by blast
qed

section \<open>Witnesses\<close>

text \<open>Two hosts, \<open>10.0.0.1\<close> and \<open>10.0.0.2\<close>, whose servers were given port 10000.\<close>

definition demo_host2 :: HostInfo where
  "demo_host2 = \<lparr>
     control_plane_listener = \<lparr>ep_ip = IPv4 0x0200000A, ep_port = 10000\<rparr>,
     data_plane_listeners = [
       \<lparr>nic_name = ''eth0'', nic_type = kIP,
         endpoints = [\<lparr>ep_ip = IPv4 0x0200000A, ep_port = 43521\<rparr>]\<rparr>]\<rparr>"

definition demo_control :: "HostInfo \<Rightarrow> Control" where
  "demo_control self = \<lparr>
     ctl_config = \<lparr>transport_type = kTcp, num_conns_per_peer = 2, require_dataplane_encryption = True\<rparr>,
     ctl_self = self, ctl_creds = \<lparr>server_creds = True, client_creds = True\<rparr>,
     grpc_server = Some \<lparr>gs_port = 10000, gs_running = True\<rparr>, serving = True,
     ctl_metrics = \<lparr>rpc_requests_received = 0\<rparr>, peer_clients = [], peer_hosts = [],
     psp_tcp_handler = Some (\<lambda>t e. Inr (t\<lparr>gen := gen t + 1\<rparr>)), rdma_conn_handler = None\<rparr>"

lemma demo_host2_ok: "HostInfo_IsValid demo_host2"
  by (simp add: demo_host2_def HostInfo_IsValid_def HostInfo_IsDataPlaneValid_def Let_def HasZeroIpAddr_def
      IsZero_def HasNonzeroIpPort_def NicInfo_IsValid_def)

lemma demo_control_ok: "HostInfo_IsValid h \<Longrightarrow> wf_Control L (demo_control h)"
  by (simp add: wf_Control_def Control_invariant_def demo_control_def Config_IsValid_def HostInfo_listener
      GrpcServer_invariant_def)

lemma demo_control_simps [simp]:
  "serving (demo_control h)" "ctl_self (demo_control h) = h" "peer_hosts (demo_control h) = []"
  "psp_tcp_handler (demo_control h) = Some (\<lambda>t e. Inr (t\<lparr>gen := gen t + 1\<rparr>))"
  by (simp_all add: demo_control_def)

theorem service_total_witness:
  "wf_Control demo_lib (demo_control demo_host) \<and>
   (\<exists>c' s r. ProcessUnary demo_lib (demo_control demo_host) \<lparr>gs_port = 10000, gs_running = True\<rparr> ReqNotSet RespNotSet =
      Inr (c', s, Some r) \<and> gs_code s = 12)"
  using service_total [OF demo_control_ok [OF demo_host_ok(1), of demo_lib],
      of "\<lparr>gs_port = 10000, gs_running = True\<rparr>" ReqNotSet RespNotSet] demo_control_ok [OF demo_host_ok(1)]
  by (auto simp: GrpcServer_invariant_def)

theorem host_info_exchange_witness:
  "texts_ok demo_lib \<and> HostInfo_IsValid demo_host \<and> HostInfo_IsValid demo_host2 \<and>
   (\<exists>a' b'. GetPeerHostInfo demo_lib (direct_rpc demo_lib) (control_plane_listener demo_host2)
        (demo_control demo_host) (demo_control demo_host2) = Inr (a', b', Inr demo_host2) \<and>
      (\<forall>rpc' (w :: unit). GetPeerHostInfo demo_lib rpc' (control_plane_listener demo_host) b' w = Inr (b', w, Inr demo_host)))"
  using host_info_exchange [where ?'w = unit, OF direct.unary_network_axioms demo_texts_ok demo_control_ok [OF demo_host_ok(1)] _
      demo_control_ok [OF demo_host2_ok]] demo_texts_ok demo_host_ok(1) demo_host2_ok
  by (simp only: demo_control_simps map_of.simps) blast

theorem psp_token_exchange_witness:
  "PspToken_IsValid demo_token \<and> HasNonzeroIpPort demo_target \<and>
   (\<exists>a' b'. ExchangePspTokens demo_lib (direct_rpc demo_lib) demo_token demo_target (control_plane_listener demo_host2)
        (demo_control demo_host) (demo_control demo_host2) = Inr (a', b', Inr (demo_token\<lparr>gen := 2\<rparr>)))"
proof -
  have "demo_token\<lparr>gen := gen demo_token + 1\<rparr> = demo_token\<lparr>gen := 2\<rparr>"
    by (simp add: demo_token_def)
  moreover have "PspToken_IsValid (demo_token\<lparr>gen := 2\<rparr>)" "length (psp_key (demo_token\<lparr>gen := 2\<rparr>)) = kPspKeyLen"
    using demo_token_ok by (simp_all add: PspToken_IsValid_def)
  ultimately show ?thesis
    using psp_token_exchange [OF direct.unary_network_axioms demo_texts_ok demo_control_ok [OF demo_host_ok(1)] _
        demo_control_ok [OF demo_host2_ok] _ _ demo_token_ok demo_target_ok, of "\<lambda>t e. Inr (t\<lparr>gen := gen t + 1\<rparr>)"]
      demo_token_ok demo_target_ok
    by simp
qed

theorem peer_answer_outcomes_witness:
  "\<exists>p. Serialize_HostInfo demo_lib demo_host2 pb_HostInfo_new = (True, p) \<and>
     GetPeerHostInfo demo_lib (\<lambda>_ _ w. (w, grpc_OK, RespHostInfo p)) demo_target (demo_control demo_host) () =
       Inl DcheckFailed"
proof -
  obtain q where q: "Serialize_HostInfo demo_lib demo_host pb_HostInfo_new = (True, q)"
    using host.returns [OF demo_host_ok(1) demo_texts_ok demo_texts_ok] by blast
  obtain p where p: "Serialize_HostInfo demo_lib demo_host2 pb_HostInfo_new = (True, p)"
    "Deserialize_HostInfo demo_lib p HostInfo_default = (True, demo_host2)"
    using host.returns [OF demo_host2_ok demo_texts_ok demo_texts_ok] by blast
  have "control_plane_listener demo_host2 \<noteq> demo_target"
    by (simp add: demo_host2_def demo_target_def)
  then show ?thesis
    using peer_answer_outcomes [where L = demo_lib and c = "demo_control demo_host" and peer = demo_target
        and p = q and rpc = "\<lambda>_ _ w. (w, grpc_OK, RespHostInfo p)" and w = "()" and w' = "()"
        and s = grpc_OK and r = "RespHostInfo p" and q = p and h = demo_host2]
      demo_control_ok [OF demo_host_ok(1), of demo_lib] demo_target_ok p q
    by (simp add: grpc_ok_def grpc_OK_def)
qed

end
