(* ===== verification/Socket.thy ===== *)
theory Socket
  imports IoVec Endpoint Channel
begin

text \<open>
  TCP and UDP sockets, \<^verbatim>\<open>internal/socket/socket_{util,error,base,tcp,udp}\<close>. The kernel is a parameter:
  the record \<open>sock_os\<close> has one field per system call, over a state \<open>'k\<close>, and a call that can fail
  returns its result and the value of \<^verbatim>\<open>errno\<close>. Blocking is the kernel's matter: a call that waits
  returns when it is done. The retry loops may run for ever when the kernel interrupts every
  call; they are partial functions, whose value is then \<open>None\<close>. Memory is a function from
  addresses to bytes, and lengths of results fit a \<^verbatim>\<open>ssize_t\<close>. Log messages are not modelled.
\<close>

section \<open>The kernel\<close>

record 'k sock_os =
  os_getfd :: "int \<Rightarrow> 'k \<Rightarrow> int"
  os_getfl :: "int \<Rightarrow> 'k \<Rightarrow> int"
  os_setfl :: "int \<Rightarrow> int \<Rightarrow> 'k \<Rightarrow> int \<times> 'k"
  os_socket :: "int \<Rightarrow> int \<Rightarrow> 'k \<Rightarrow> int \<times> 'k"
  os_setsockopt :: "int \<Rightarrow> int \<Rightarrow> int \<Rightarrow> int \<Rightarrow> 'k \<Rightarrow> int \<times> 'k"
  os_so_error :: "int \<Rightarrow> 'k \<Rightarrow> int \<times> int \<times> int \<times> 'k"
  os_getsockname :: "int \<Rightarrow> 'k \<Rightarrow> sockaddr option"
  os_getpeername :: "int \<Rightarrow> 'k \<Rightarrow> sockaddr option"
  os_bind :: "int \<Rightarrow> sockaddr \<Rightarrow> 'k \<Rightarrow> int \<times> 'k"
  os_listen :: "int \<Rightarrow> int \<Rightarrow> 'k \<Rightarrow> int \<times> 'k"
  os_accept4 :: "int \<Rightarrow> int \<Rightarrow> 'k \<Rightarrow> int \<times> int \<times> 'k"
  os_connect :: "int \<Rightarrow> sockaddr \<Rightarrow> 'k \<Rightarrow> int \<times> int \<times> 'k"
  os_shutdown :: "int \<Rightarrow> 'k \<Rightarrow> 'k"
  os_close :: "int \<Rightarrow> 'k \<Rightarrow> 'k"
  os_sendmsg :: "int \<Rightarrow> byte list list \<Rightarrow> 'k \<Rightarrow> int \<times> int \<times> 'k"
  os_writev :: "int \<Rightarrow> byte list list \<Rightarrow> 'k \<Rightarrow> int \<times> int \<times> 'k"
  os_readv :: "int \<Rightarrow> nat list \<Rightarrow> 'k \<Rightarrow> int \<times> int \<times> byte list \<times> 'k"

definition SOCK_STREAM :: int where "SOCK_STREAM = 1"
definition SOCK_DGRAM :: int where "SOCK_DGRAM = 2"
definition SOCK_NONBLOCK :: int where "SOCK_NONBLOCK = 0x800"
definition SOCK_CLOEXEC :: int where "SOCK_CLOEXEC = 0x80000"
definition O_NONBLOCK :: int where "O_NONBLOCK = 0x800"
definition SOL_SOCKET :: int where "SOL_SOCKET = 1"
definition SO_REUSEADDR :: int where "SO_REUSEADDR = 2"
definition IPPROTO_TCP :: int where "IPPROTO_TCP = 6"
definition TCP_NODELAY :: int where "TCP_NODELAY = 1"
definition EINTR :: int where "EINTR = 4"
definition EAGAIN :: int where "EAGAIN = 11"
definition EWOULDBLOCK :: int where "EWOULDBLOCK = 11"
definition ENOMEM :: int where "ENOMEM = 12"
definition EINVAL :: int where "EINVAL = 22"
definition ENFILE :: int where "ENFILE = 23"
definition EMFILE :: int where "EMFILE = 24"
definition EPROTO :: int where "EPROTO = 71"
definition ECONNABORTED :: int where "ECONNABORTED = 103"
definition ENOBUFS :: int where "ENOBUFS = 105"
definition EINPROGRESS :: int where "EINPROGRESS = 115"

text \<open>A call that never returns is \<open>Blocked\<close>.\<close>

definition returned :: "'a res option \<Rightarrow> 'a res" where
  "returned r = (case r of None \<Rightarrow> Inl Blocked | Some x \<Rightarrow> x)"

section \<open>Error codes\<close>

definition Interrupted :: "int \<Rightarrow> bool" where "Interrupted err \<longleftrightarrow> err = EINTR"
definition InProgress :: "int \<Rightarrow> bool" where "InProgress err \<longleftrightarrow> err = EINPROGRESS"
definition WouldBlock :: "int \<Rightarrow> bool" where "WouldBlock err \<longleftrightarrow> err = EAGAIN \<or> err = EWOULDBLOCK"
definition OutOfResource :: "int \<Rightarrow> bool" where
  "OutOfResource err \<longleftrightarrow> err = EMFILE \<or> err = ENFILE \<or> err = ENOBUFS \<or> err = ENOMEM"

definition kAcceptError :: int where "kAcceptError = - 1"
definition kAcceptWouldBlock :: int where "kAcceptWouldBlock = - 2"
definition kAcceptShutdown :: int where "kAcceptShutdown = - 10"
definition kAcceptOutOfResource :: int where "kAcceptOutOfResource = - 11"
definition kConnectInProgress :: int where "kConnectInProgress = 1"
definition kConnectSuccess :: int where "kConnectSuccess = 0"
definition kConnectError :: int where "kConnectError = - 1"

definition IsWouldBlock :: "int \<Rightarrow> bool" where "IsWouldBlock ret \<longleftrightarrow> ret = kAcceptWouldBlock"
definition IsShutdown :: "int \<Rightarrow> bool" where "IsShutdown ret \<longleftrightarrow> ret = kAcceptShutdown"
definition IsOutOfResource :: "int \<Rightarrow> bool" where "IsOutOfResource ret \<longleftrightarrow> ret = kAcceptOutOfResource"

text \<open>\<^verbatim>\<open>getsockopt(SO_ERROR)\<close> gives the result of the call, \<^verbatim>\<open>errno\<close>, and the pending error, which it clears.\<close>

definition GetSocketError :: "'k sock_os \<Rightarrow> int \<Rightarrow> 'k \<Rightarrow> int \<times> 'k" where
  "GetSocketError os fd k = (let (ret, err, error, k1) = os_so_error os fd k in
     if ret < 0 then (err, k1) else (error, k1))"

section \<open>Socket utilities\<close>

definition IsValidSocket :: "'k sock_os \<Rightarrow> int \<Rightarrow> 'k \<Rightarrow> bool" where
  "IsValidSocket os fd k \<longleftrightarrow> 0 \<le> os_getfd os fd k"

definition SetSocketOption :: "'k sock_os \<Rightarrow> int \<Rightarrow> int \<Rightarrow> int \<Rightarrow> 'k \<Rightarrow> int \<times> 'k" where
  "SetSocketOption os fd opt val k = os_setsockopt os fd SOL_SOCKET opt val k"

definition SetTcpOption :: "'k sock_os \<Rightarrow> int \<Rightarrow> int \<Rightarrow> int \<Rightarrow> 'k \<Rightarrow> int \<times> 'k" where
  "SetTcpOption os fd opt val k = os_setsockopt os fd IPPROTO_TCP opt val k"

definition IsBlockingMode :: "'k sock_os \<Rightarrow> int \<Rightarrow> 'k \<Rightarrow> bool" where
  "IsBlockingMode os fd k = (let flags = os_getfl os fd k in 0 \<le> flags \<and> flags AND O_NONBLOCK = 0)"

definition IsNonBlockingMode :: "'k sock_os \<Rightarrow> int \<Rightarrow> 'k \<Rightarrow> bool" where
  "IsNonBlockingMode os fd k = (let flags = os_getfl os fd k in 0 \<le> flags \<and> flags AND O_NONBLOCK \<noteq> 0)"

definition MatchesBlockingMode :: "'k sock_os \<Rightarrow> int \<Rightarrow> bool \<Rightarrow> 'k \<Rightarrow> bool" where
  "MatchesBlockingMode os fd blocking k = (if blocking then IsBlockingMode os fd k else IsNonBlockingMode os fd k)"

definition CreateSocket :: "'k sock_os \<Rightarrow> int \<Rightarrow> int \<Rightarrow> bool \<Rightarrow> 'k \<Rightarrow> (int \<times> 'k) res" where
  "CreateSocket os family type blocking k =
     dcheck (family = AF_INET \<or> family = AF_INET6)
       (dcheck (type = SOCK_STREAM \<or> type = SOCK_DGRAM)
         (let (ret, k1) = os_socket os family (type OR (if blocking then 0 else SOCK_NONBLOCK) OR SOCK_CLOEXEC) k in
          if ret < 0 then Inr (- 1, k1)
          else dcheck (MatchesBlockingMode os ret blocking k1) (Inr (ret, k1))))"

definition AddrFamily :: "'k sock_os \<Rightarrow> int \<Rightarrow> 'k \<Rightarrow> int" where
  "AddrFamily os fd k = (case os_getsockname os fd k of Some ss \<Rightarrow> sa_family ss | None \<Rightarrow> AF_UNSPEC)"

definition SelfEndpoint :: "'k sock_os \<Rightarrow> int \<Rightarrow> 'k \<Rightarrow> Endpoint" where
  "SelfEndpoint os fd k = (case os_getsockname os fd k of Some ss \<Rightarrow> Endpoint_Create_ss ss | None \<Rightarrow> Endpoint_default)"

definition PeerEndpoint :: "'k sock_os \<Rightarrow> int \<Rightarrow> 'k \<Rightarrow> Endpoint" where
  "PeerEndpoint os fd k = (case os_getpeername os fd k of Some ss \<Rightarrow> Endpoint_Create_ss ss | None \<Rightarrow> Endpoint_default)"

section \<open>SocketBase\<close>

record Sock =
  sk_fd :: int
  sk_family :: int
  sk_blocking :: bool
  sk_connected :: bool

definition MatchesFamily :: "int \<Rightarrow> Sock \<Rightarrow> bool" where "MatchesFamily family s \<longleftrightarrow> family = sk_family s"

definition Sock_IsValid :: "'k sock_os \<Rightarrow> Sock \<Rightarrow> 'k \<Rightarrow> bool" where
  "Sock_IsValid os s k \<longleftrightarrow> IsValidSocket os (sk_fd s) k"

definition MatchesBlocking :: "'k sock_os \<Rightarrow> Sock \<Rightarrow> 'k \<Rightarrow> bool" where
  "MatchesBlocking os s k = (if sk_blocking s then IsBlockingMode os (sk_fd s) k else IsNonBlockingMode os (sk_fd s) k)"

definition Sock_IsBlocking :: "'k sock_os \<Rightarrow> Sock \<Rightarrow> 'k \<Rightarrow> bool res" where
  "Sock_IsBlocking os s k = dcheck (MatchesBlocking os s k) (Inr (sk_blocking s))"

definition Sock_IsNonBlocking :: "'k sock_os \<Rightarrow> Sock \<Rightarrow> 'k \<Rightarrow> bool res" where
  "Sock_IsNonBlocking os s k = dcheck (MatchesBlocking os s k) (Inr (\<not> sk_blocking s))"

definition Sock_invariant :: "'k sock_os \<Rightarrow> Sock \<Rightarrow> 'k \<Rightarrow> bool" where
  "Sock_invariant os s k \<longleftrightarrow> 0 \<le> sk_fd s \<and> IsValidSocket os (sk_fd s) k \<and>
     (sk_family s = AF_INET \<or> sk_family s = AF_INET6) \<and> AddrFamily os (sk_fd s) k = sk_family s \<and>
     MatchesBlocking os s k"

definition Sock_new :: "'k sock_os \<Rightarrow> int \<Rightarrow> int \<Rightarrow> bool \<Rightarrow> bool \<Rightarrow> 'k \<Rightarrow> Sock res" where
  "Sock_new os fd family blocking connected k =
     dcheck (0 \<le> fd)
       (dcheck (family = AF_INET \<or> family = AF_INET6)
         (let s = \<lparr>sk_fd = fd, sk_family = family, sk_blocking = blocking, sk_connected = connected\<rparr>
          in dcheck (Sock_invariant os s k) (Inr s)))"

definition SetSocketBlockingMode :: "'k sock_os \<Rightarrow> int \<Rightarrow> bool \<Rightarrow> 'k \<Rightarrow> int \<times> 'k" where
  "SetSocketBlockingMode os fd blocking k = (let flags = os_getfl os fd k in
     if flags < 0 then (- 1, k)
     else os_setfl os fd (if blocking then flags AND NOT O_NONBLOCK else flags OR O_NONBLOCK) k)"

definition SetBlocking :: "'k sock_os \<Rightarrow> bool \<Rightarrow> Sock \<Rightarrow> 'k \<Rightarrow> (int \<times> Sock \<times> 'k) res" where
  "SetBlocking os blocking s k =
     (if blocking = sk_blocking s then dcheck (MatchesBlocking os s k) (Inr (0, s, k))
      else
        let (ret, k1) = SetSocketBlockingMode os (sk_fd s) blocking k in
        if ret = 0 then
          let s1 = s\<lparr>sk_blocking := blocking\<rparr> in dcheck (MatchesBlocking os s1 k1) (Inr (0, s1, k1))
        else dcheck (MatchesBlocking os s k1) (Inr (- 1, s, k1)))"

definition SetConnected :: "Sock \<Rightarrow> Sock" where "SetConnected s = s\<lparr>sk_connected := True\<rparr>"

definition BuildSockaddr :: "Endpoint \<Rightarrow> sockaddr res" where
  "BuildSockaddr e = (if IsIPv4 (ep_ip e) then BuildIPv4Sockaddr e
     else dcheck (IsIPv6 (ep_ip e)) (BuildIPv6Sockaddr e))"

definition SocketBase_Bind :: "'k sock_os \<Rightarrow> int \<Rightarrow> Endpoint \<Rightarrow> 'k \<Rightarrow> (int \<times> 'k) res" where
  "SocketBase_Bind os fd local k =
     dcheck (IsValidSocket os fd k) (rbind (BuildSockaddr local) (\<lambda>sa. Inr (os_bind os fd sa k)))"

definition SocketBase_Connect :: "'k sock_os \<Rightarrow> int \<Rightarrow> Endpoint \<Rightarrow> 'k \<Rightarrow> (int \<times> int \<times> 'k) res" where
  "SocketBase_Connect os fd peer k =
     dcheck (IsValidSocket os fd k)
       (dcheck (HasNonzeroIpPort peer) (rbind (BuildSockaddr peer) (\<lambda>sa. Inr (os_connect os fd sa k))))"

section \<open>Life cycle of a socket\<close>

text \<open>TCP and UDP sockets share these texts; \<open>Sock\<close> stands for both classes.\<close>

definition Sock_Shutdown :: "'k sock_os \<Rightarrow> Sock \<Rightarrow> 'k \<Rightarrow> (Sock \<times> 'k) res" where
  "Sock_Shutdown os s k =
     dcheck (Sock_invariant os s k)
       (let k1 = os_shutdown os (sk_fd s) k; s1 = s\<lparr>sk_connected := False\<rparr>
        in dcheck (Sock_invariant os s1 k1) (Inr (s1, k1)))"

definition Sock_destroy :: "'k sock_os \<Rightarrow> Sock \<Rightarrow> 'k \<Rightarrow> 'k res" where
  "Sock_destroy os s k =
     dcheck (Sock_invariant os s k)
       (rbind (if sk_connected s then Sock_Shutdown os s k else Inr (s, k)) (\<lambda>(s1, k1).
          dcheck (\<not> sk_connected s1)
            (dcheck (Sock_invariant os s1 k1) (Inr (os_close os (sk_fd s1) k1)))))"

definition setNoDelay :: "'k sock_os \<Rightarrow> Sock \<Rightarrow> 'k \<Rightarrow> (int \<times> 'k) res" where
  "setNoDelay os s k =
     dcheck (Sock_invariant os s k)
       (let (ret, k1) = SetTcpOption os (sk_fd s) TCP_NODELAY 1 k
        in Inr (if ret < 0 then - 1 else 0, k1))"

text \<open>A socket that cannot be set up is destroyed by its smart pointer.\<close>

definition tcp_setup :: "'k sock_os \<Rightarrow> Sock \<Rightarrow> 'k \<Rightarrow> (Sock option \<times> 'k) res" where
  "tcp_setup os skt k = rbind (setNoDelay os skt k) (\<lambda>(ret, k1).
     if ret < 0 then rbind (Sock_destroy os skt k1) (\<lambda>k2. Inr (None, k2)) else Inr (Some skt, k1))"

definition TcpSocket_Create :: "'k sock_os \<Rightarrow> int \<Rightarrow> bool \<Rightarrow> 'k \<Rightarrow> (Sock option \<times> 'k) res" where
  "TcpSocket_Create os family blocking k =
     rbind (CreateSocket os family SOCK_STREAM blocking k) (\<lambda>(fd, k1).
       if fd < 0 then Inr (None, k1)
       else rbind (Sock_new os fd family blocking False k1) (\<lambda>skt. tcp_setup os skt k1))"

definition TcpSocket_Create_fd :: "'k sock_os \<Rightarrow> int \<Rightarrow> int \<Rightarrow> bool \<Rightarrow> 'k \<Rightarrow> (Sock option \<times> 'k) res" where
  "TcpSocket_Create_fd os fd family blocking k =
     rbind (Sock_new os fd family blocking True k) (\<lambda>skt. tcp_setup os skt k)"

definition UdpSocket_Create :: "'k sock_os \<Rightarrow> int \<Rightarrow> bool \<Rightarrow> 'k \<Rightarrow> (Sock option \<times> 'k) res" where
  "UdpSocket_Create os family blocking k =
     rbind (CreateSocket os family SOCK_DGRAM blocking k) (\<lambda>(fd, k1).
       if fd < 0 then Inr (None, k1)
       else rbind (Sock_new os fd family blocking False k1) (\<lambda>skt. Inr (Some skt, k1)))"

definition Sock_Bind :: "'k sock_os \<Rightarrow> Sock \<Rightarrow> Endpoint \<Rightarrow> 'k \<Rightarrow> (int \<times> 'k) res" where
  "Sock_Bind os s local k =
     dcheck (Sock_invariant os s k)
       (rbind (SocketBase_Bind os (sk_fd s) local k) (\<lambda>(ret, k1). Inr (if ret < 0 then - 1 else 0, k1)))"

definition TcpSocket_Listen :: "'k sock_os \<Rightarrow> Sock \<Rightarrow> Endpoint \<Rightarrow> int \<Rightarrow> 'k \<Rightarrow> (int \<times> 'k) res" where
  "TcpSocket_Listen os s local backlog k =
     dcheck (Sock_invariant os s k)
       (let (ret, k1) = SetSocketOption os (sk_fd s) SO_REUSEADDR 1 k in
        if ret \<noteq> 0 then Inr (- 1, k1)
        else rbind (SocketBase_Bind os (sk_fd s) local k1) (\<lambda>(ret, k2).
          if ret < 0 then Inr (- 1, k2)
          else let (ret, k3) = os_listen os (sk_fd s) backlog k2 in Inr (if ret < 0 then - 1 else 0, k3)))"

partial_function (option) accept_loop :: "'k sock_os \<Rightarrow> int \<Rightarrow> bool \<Rightarrow> 'k \<Rightarrow> (int \<times> 'k) res option" where
  "accept_loop os fd gen_blocking k =
     (let (ret, err, k1) = os_accept4 os fd ((if gen_blocking then 0 else SOCK_NONBLOCK) OR SOCK_CLOEXEC) k in
      if ret < 0 then
        (if WouldBlock err then Some (Inr (kAcceptWouldBlock, k1))
         else if Interrupted err \<or> err = EPROTO \<or> err = ECONNABORTED then accept_loop os fd gen_blocking k1
         else if err = EINVAL then Some (Inr (kAcceptShutdown, k1))
         else if OutOfResource err then Some (Inr (kAcceptOutOfResource, k1))
         else Some (Inr (kAcceptError, k1)))
      else Some (dcheck (MatchesBlockingMode os ret gen_blocking k1) (Inr (ret, k1))))"

definition TcpSocket_Accept :: "'k sock_os \<Rightarrow> Sock \<Rightarrow> bool \<Rightarrow> 'k \<Rightarrow> (int \<times> 'k) res option" where
  "TcpSocket_Accept os s gen_blocking k =
     (if \<not> (Sock_invariant os s k \<and> MatchesBlocking os s k) then Some (Inl DcheckFailed)
      else accept_loop os (sk_fd s) gen_blocking k)"

definition TcpSocket_Connect :: "'k sock_os \<Rightarrow> Sock \<Rightarrow> Endpoint \<Rightarrow> 'k \<Rightarrow> (int \<times> Sock \<times> 'k) res" where
  "TcpSocket_Connect os s peer k =
     dcheck (Sock_invariant os s k)
       (dcheck (\<not> sk_connected s)
         (dcheck (MatchesBlocking os s k)
           (rbind (SocketBase_Connect os (sk_fd s) peer k) (\<lambda>(ret, err, k1).
              if ret < 0 then Inr (if InProgress err then kConnectInProgress else kConnectError, s, k1)
              else Inr (kConnectSuccess, s\<lparr>sk_connected := True\<rparr>, k1)))))"

definition UdpSocket_Connect :: "'k sock_os \<Rightarrow> Sock \<Rightarrow> Endpoint \<Rightarrow> 'k \<Rightarrow> (int \<times> Sock \<times> 'k) res" where
  "UdpSocket_Connect os s peer k =
     dcheck (Sock_invariant os s k)
       (rbind (SocketBase_Connect os (sk_fd s) peer k) (\<lambda>(ret, err, k1).
          if ret < 0 then Inr (- 1, s, k1) else Inr (0, s\<lparr>sk_connected := True\<rparr>, k1)))"

section \<open>Transfer\<close>

text \<open>The contents of the buffers a cursor still spans, and the effect of a read into them.\<close>

definition gather :: "IoVecCursor \<Rightarrow> (u64 \<Rightarrow> byte) \<Rightarrow> byte list list" where
  "gather c mem = map (\<lambda>v. map mem (addrs v)) (RemainingSpan c)"

definition buf_lens :: "IoVecCursor \<Rightarrow> nat list" where
  "buf_lens c = map (\<lambda>v. unat (iov_len v)) (RemainingSpan c)"

definition scatter :: "u64 list \<Rightarrow> byte list \<Rightarrow> (u64 \<Rightarrow> byte) \<Rightarrow> u64 \<Rightarrow> byte" where
  "scatter as bs mem = fold (\<lambda>(a, b) m. m(a := b)) (zip as bs) mem"

datatype loop_end = Broke | Eof | Failed

partial_function (option) send_loop :: "'k sock_os \<Rightarrow> int \<Rightarrow> (u64 \<Rightarrow> byte) \<Rightarrow> IoVecCursor \<Rightarrow> int \<Rightarrow> 'k \<Rightarrow>
    (loop_end \<times> int \<times> IoVecCursor \<times> 'k) res option" where
  "send_loop os fd mem c sent k =
     (if \<not> 1 \<le> bytes_left c then Some (Inl DcheckFailed)
      else
        let (bytes, err, k1) = os_sendmsg os fd (gather c mem) k in
        if 0 < bytes then
          (case Advance c (word_of_int bytes) of
             Inl f \<Rightarrow> Some (Inl f)
           | Inr (fin, c1) \<Rightarrow>
               if fin then Some (Inr (Broke, sent + bytes, c1, k1))
               else send_loop os fd mem c1 (sent + bytes) k1)
        else if bytes < 0 then
          (if Interrupted err then send_loop os fd mem c sent k1
           else if WouldBlock err then Some (Inr (Broke, sent, c, k1))
           else Some (Inr (Failed, sent, c, k1)))
        else Some (Inr (Failed, sent, c, k1)))"

partial_function (option) recv_loop :: "'k sock_os \<Rightarrow> int \<Rightarrow> IoVecCursor \<Rightarrow> int \<Rightarrow> (u64 \<Rightarrow> byte) \<Rightarrow> 'k \<Rightarrow>
    (loop_end \<times> int \<times> IoVecCursor \<times> (u64 \<Rightarrow> byte) \<times> 'k) res option" where
  "recv_loop os fd c rcvd mem k =
     (if \<not> 1 \<le> bytes_left c then Some (Inl DcheckFailed)
      else
        let (bytes, err, data, k1) = os_readv os fd (buf_lens c) k in
        if 0 < bytes then
          (let mem1 = scatter (cursor_addrs c) (take (nat bytes) data) mem in
           case Advance c (word_of_int bytes) of
             Inl f \<Rightarrow> Some (Inl f)
           | Inr (fin, c1) \<Rightarrow>
               if fin then Some (Inr (Broke, rcvd + bytes, c1, mem1, k1))
               else recv_loop os fd c1 (rcvd + bytes) mem1 k1)
        else if bytes = 0 then Some (Inr (Eof, rcvd, c, mem, k1))
        else if Interrupted err then recv_loop os fd c rcvd mem k1
        else if WouldBlock err then Some (Inr (Broke, rcvd, c, mem, k1))
        else Some (Inr (Failed, rcvd, c, mem, k1)))"

text \<open>The checks at the start of a transfer, and the one on its result when the loop was left by \<^verbatim>\<open>break\<close>.\<close>

definition io_checks :: "'k sock_os \<Rightarrow> Sock \<Rightarrow> IoVecCursor \<Rightarrow> 'k \<Rightarrow> bool" where
  "io_checks os s c k \<longleftrightarrow> Sock_invariant os s k \<and> MatchesBlocking os s k \<and> TotalItems c \<le> IOV_MAX \<and> 1 \<le> bytes_left c"

definition io_result_ok :: "'k sock_os \<Rightarrow> Sock \<Rightarrow> int \<Rightarrow> int \<Rightarrow> 'k \<Rightarrow> bool" where
  "io_result_ok os s moved all k \<longleftrightarrow> MatchesBlocking os s k \<and>
     (sk_blocking s \<and> moved = all \<or> \<not> sk_blocking s \<and> 0 \<le> moved \<and> moved \<le> all)"

definition TcpSocket_Send :: "'k sock_os \<Rightarrow> Sock \<Rightarrow> (u64 \<Rightarrow> byte) \<Rightarrow> IoVecCursor \<Rightarrow> 'k \<Rightarrow>
    (int \<times> IoVecCursor \<times> 'k) res option" where
  "TcpSocket_Send os s mem c k =
     (if \<not> io_checks os s c k then Some (Inl DcheckFailed)
      else case send_loop os (sk_fd s) mem c 0 k of
        None \<Rightarrow> None
      | Some (Inl f) \<Rightarrow> Some (Inl f)
      | Some (Inr (Broke, sent, c1, k1)) \<Rightarrow>
          Some (dcheck (io_result_ok os s sent (uint (bytes_left c)) k1) (Inr (sent, c1, k1)))
      | Some (Inr (_, sent, c1, k1)) \<Rightarrow> Some (Inr (- 1, c1, k1)))"

definition TcpSocket_Recv :: "'k sock_os \<Rightarrow> Sock \<Rightarrow> IoVecCursor \<Rightarrow> (u64 \<Rightarrow> byte) \<Rightarrow> 'k \<Rightarrow>
    (int \<times> IoVecCursor \<times> (u64 \<Rightarrow> byte) \<times> 'k) res option" where
  "TcpSocket_Recv os s c mem k =
     (if \<not> io_checks os s c k then Some (Inl DcheckFailed)
      else case recv_loop os (sk_fd s) c 0 mem k of
        None \<Rightarrow> None
      | Some (Inl f) \<Rightarrow> Some (Inl f)
      | Some (Inr (Broke, rcvd, c1, mem1, k1)) \<Rightarrow>
          Some (dcheck (io_result_ok os s rcvd (uint (bytes_left c)) k1) (Inr (rcvd, c1, mem1, k1)))
      | Some (Inr (Eof, rcvd, c1, mem1, k1)) \<Rightarrow> Some (Inr (rcvd, c1, mem1, k1))
      | Some (Inr (Failed, rcvd, c1, mem1, k1)) \<Rightarrow> Some (Inr (- 1, c1, mem1, k1)))"

text \<open>Datagrams are sent and received whole.\<close>

partial_function (option) udp_send_loop :: "'k sock_os \<Rightarrow> int \<Rightarrow> (u64 \<Rightarrow> byte) \<Rightarrow> IoVecCursor \<Rightarrow> 'k \<Rightarrow>
    (int \<times> IoVecCursor \<times> 'k) res option" where
  "udp_send_loop os fd mem c k =
     (let (bytes, err, k1) = os_writev os fd (gather c mem) k in
      if 0 < bytes then
        Some (dcheck (bytes = uint (bytes_left c))
          (rbind (Advance c (word_of_int bytes)) (\<lambda>(_, c1). Inr (bytes, c1, k1))))
      else if \<not> bytes < 0 then Some (Inl DcheckFailed)
      else if Interrupted err then udp_send_loop os fd mem c k1
      else if WouldBlock err then Some (Inr (0, c, k1))
      else Some (Inr (- 1, c, k1)))"

partial_function (option) udp_recv_loop :: "'k sock_os \<Rightarrow> int \<Rightarrow> IoVecCursor \<Rightarrow> (u64 \<Rightarrow> byte) \<Rightarrow> 'k \<Rightarrow>
    (int \<times> IoVecCursor \<times> (u64 \<Rightarrow> byte) \<times> 'k) res option" where
  "udp_recv_loop os fd c mem k =
     (let (bytes, err, data, k1) = os_readv os fd (buf_lens c) k in
      if 0 < bytes then
        Some (dcheck (bytes \<le> uint (bytes_left c))
          (rbind (Advance c (word_of_int bytes)) (\<lambda>(_, c1).
             Inr (bytes, c1, scatter (cursor_addrs c) (take (nat bytes) data) mem, k1))))
      else if bytes < 0 then
        (if Interrupted err then udp_recv_loop os fd c mem k1
         else if WouldBlock err then Some (Inr (0, c, mem, k1))
         else Some (Inr (- 1, c, mem, k1)))
      else Some (Inr (0, c, mem, k1)))"

definition UdpSocket_Send :: "'k sock_os \<Rightarrow> Sock \<Rightarrow> (u64 \<Rightarrow> byte) \<Rightarrow> IoVecCursor \<Rightarrow> 'k \<Rightarrow>
    (int \<times> IoVecCursor \<times> 'k) res option" where
  "UdpSocket_Send os s mem c k =
     (if \<not> io_checks os s c k then Some (Inl DcheckFailed) else udp_send_loop os (sk_fd s) mem c k)"

definition UdpSocket_Recv :: "'k sock_os \<Rightarrow> Sock \<Rightarrow> IoVecCursor \<Rightarrow> (u64 \<Rightarrow> byte) \<Rightarrow> 'k \<Rightarrow>
    (int \<times> IoVecCursor \<times> (u64 \<Rightarrow> byte) \<times> 'k) res option" where
  "UdpSocket_Recv os s c mem k =
     (if \<not> io_checks os s c k then Some (Inl DcheckFailed) else udp_recv_loop os (sk_fd s) c mem k)"

section \<open>Cursors and their contents\<close>

lemma concat_gather: "concat (gather c mem) = map mem (cursor_addrs c)"
  by (simp add: gather_def cursor_addrs_def span_addrs_def map_concat comp_def)

lemma sum_buf_lens: "sum_list (buf_lens c) = length (cursor_addrs c)"
  by (simp add: buf_lens_def cursor_addrs_def span_len_def)

lemma buf_lens_valid: "wf_cursor c \<Longrightarrow> valid_lens (buf_lens c)"
  by (auto simp: wf_cursor_def wf_iovs_def in_space_def IsValid_IoVec_def buf_lens_def valid_lens_def
      list_all_iff RemainingSpan_def word_le_nat_alt dest: in_set_dropD)

text \<open>Advancing by a number of bytes the kernel has reported.\<close>

lemma Advance_reported:
  assumes "wf_cursor c" "0 < n" "n \<le> int (length (cursor_addrs c))"
  shows "\<exists>b c'. Advance c (word_of_int n) = Inr (b, c') \<and> wf_cursor c' \<and>
    cursor_addrs c' = drop (nat n) (cursor_addrs c) \<and> (b \<longleftrightarrow> cursor_addrs c' = [])"
proof -
  have lim: "nat n \<le> unat (bytes_left c)" using assms(3) wf_cursor_length [OF assms(1)] by linarith
  then have "nat n < 18446744073709551616" using unsigned_less [of "bytes_left c", where ?'a = nat] by simp
  then have u: "unat (word_of_int n :: u64) = nat n"
    using assms(2) by (simp add: unat_eq_nat_uint uint_word_of_int)
  have "1 \<le> (word_of_int n :: u64)" "(word_of_int n :: u64) \<le> bytes_left c"
    using assms(2) lim u by (simp_all add: word_le_nat_alt)
  from Advance_ok [OF assms(1) this] u show ?thesis
    by auto
qed

lemma bytes_left_pos: "wf_cursor c \<Longrightarrow> cursor_addrs c \<noteq> [] \<Longrightarrow> 1 \<le> bytes_left c"
  using wf_cursor_length [of c] by (cases "cursor_addrs c") (simp_all add: word_le_nat_alt)

lemma scatter_append:
  "scatter as (bs @ cs) mem = scatter (drop (length bs) as) cs (scatter as bs mem)"
proof -
  have "zip (take (length bs) as) bs = zip as bs"
    using take_zip [of "length bs" as bs] by simp
  then show ?thesis by (simp add: scatter_def zip_append2)
qed

section \<open>A kernel with a working connection\<close>

text \<open>
  What POSIX promises for a connected stream socket in blocking mode: a send takes a non-empty
  prefix of the data, a read of available data returns a non-empty prefix of it, and either may
  be interrupted by a signal without effect. \<open>live fd family k\<close> says that \<open>fd\<close> is such a socket,
  \<open>rx\<close> and \<open>tx\<close> are the bytes that can be received and that were sent, and \<open>signals\<close> bounds the
  number of interruptions that are still to come.
\<close>

locale tcp_kernel =
  fixes os :: "'k sock_os"
    and live :: "int \<Rightarrow> int \<Rightarrow> 'k \<Rightarrow> bool"
    and rx tx :: "int \<Rightarrow> 'k \<Rightarrow> byte list"
    and signals :: "'k \<Rightarrow> nat"
  assumes live_socket: "live fd family k \<Longrightarrow> 0 \<le> fd \<and> (family = AF_INET \<or> family = AF_INET6) \<and>
      IsValidSocket os fd k \<and> AddrFamily os fd k = family \<and> IsBlockingMode os fd k"
    and live_send: "live fd family k \<Longrightarrow> concat bufs \<noteq> [] \<Longrightarrow> os_sendmsg os fd bufs k = (n, err, k') \<Longrightarrow>
      live fd family k' \<and> rx fd k' = rx fd k \<and>
      (0 < n \<and> n \<le> int (length (concat bufs)) \<and> tx fd k' = tx fd k @ take (nat n) (concat bufs) \<or>
       n < 0 \<and> err = EINTR \<and> tx fd k' = tx fd k \<and> signals k' < signals k)"
    and live_recv: "live fd family k \<Longrightarrow> valid_lens lens \<Longrightarrow> lens \<noteq> [] \<Longrightarrow> rx fd k \<noteq> [] \<Longrightarrow>
      os_readv os fd lens k = (n, err, data, k') \<Longrightarrow>
      live fd family k' \<and> tx fd k' = tx fd k \<and>
      (0 < n \<and> n \<le> int (min (sum_list lens) (length (rx fd k))) \<and> data = take (nat n) (rx fd k) \<and>
         rx fd k' = drop (nat n) (rx fd k) \<or>
       n < 0 \<and> err = EINTR \<and> rx fd k' = rx fd k \<and> signals k' < signals k)"
begin

lemma live_invariant:
  "live fd family k \<Longrightarrow>
     Sock_invariant os \<lparr>sk_fd = fd, sk_family = family, sk_blocking = True, sk_connected = b\<rparr> k"
  using live_socket [of fd family k] by (auto simp: Sock_invariant_def MatchesBlocking_def)

text \<open>The send loop ends, whatever the sizes of the partial sends, with everything sent in order.\<close>

lemma send_loop_complete:
  assumes "live fd family k" "wf_cursor c" "cursor_addrs c \<noteq> []"
  shows "\<exists>c' k'. send_loop os fd mem c sent k = Some (Inr (Broke, sent + int (length (cursor_addrs c)), c', k')) \<and>
    live fd family k' \<and> rx fd k' = rx fd k \<and> tx fd k' = tx fd k @ map mem (cursor_addrs c) \<and> cursor_addrs c' = []"
  using assms
proof (induction "(length (cursor_addrs c), signals k)" arbitrary: c sent k rule: wf_induct_rule [OF wf_lex_prod [OF wf_less_than wf_less_than], consumes 0, case_names less])
  case (less c k sent)
  obtain n err k1 where send: "os_sendmsg os fd (gather c mem) k = (n, err, k1)"
    by (metis prod_cases3)
  have ne: "concat (gather c mem) \<noteq> []" using less.prems(3) by (simp add: concat_gather)
  note left = bytes_left_pos [OF less.prems(2,3)]
  note law = live_send [OF less.prems(1) ne send, unfolded concat_gather]
  show ?case
  proof (cases "0 < n")
    case True
    with law have n: "n \<le> int (length (cursor_addrs c))" "tx fd k1 = tx fd k @ take (nat n) (map mem (cursor_addrs c))"
      "live fd family k1" "rx fd k1 = rx fd k"
      by auto
    obtain b c1 where adv: "Advance c (word_of_int n) = Inr (b, c1)" "wf_cursor c1"
      "cursor_addrs c1 = drop (nat n) (cursor_addrs c)" "b \<longleftrightarrow> cursor_addrs c1 = []"
      using Advance_reported [OF less.prems(2) True n(1)] by blast
    show ?thesis
    proof (cases b)
      case fin: True
      then have "nat n = length (cursor_addrs c)" using adv(3,4) n(1) True by simp
      with fin adv n True left send show ?thesis
        by (subst send_loop.simps) simp
    next
      case False
      then have c1: "cursor_addrs c1 \<noteq> []" using adv(4) by simp
      have shorter: "length (cursor_addrs c1) < length (cursor_addrs c)"
        using adv(3) True n(1) less.prems(3) by simp
      obtain c' k' where "send_loop os fd mem c1 (sent + n) k1 =
          Some (Inr (Broke, sent + n + int (length (cursor_addrs c1)), c', k'))"
        "live fd family k'" "rx fd k' = rx fd k1" "tx fd k' = tx fd k1 @ map mem (cursor_addrs c1)" "cursor_addrs c' = []"
        using less.hyps [of c1 k1, OF _ n(3) adv(2) c1, of "sent + n"] shorter by auto
      moreover have "n + int (length (cursor_addrs c1)) = int (length (cursor_addrs c))"
        using adv(3) n(1) True by simp
      moreover have "map mem (cursor_addrs c) = take (nat n) (map mem (cursor_addrs c)) @ map mem (cursor_addrs c1)"
        unfolding adv(3) drop_map [symmetric] by (rule append_take_drop_id [symmetric])
      ultimately show ?thesis
        using False adv(1) n(2,4) True left send
        by (subst send_loop.simps) (simp add: add.assoc)
    qed
  next
    case False
    with law have s: "n < 0" "err = EINTR" "tx fd k1 = tx fd k" "signals k1 < signals k" "live fd family k1" "rx fd k1 = rx fd k"
      by auto
    have "\<exists>c' k'. send_loop os fd mem c sent k1 = Some (Inr (Broke, sent + int (length (cursor_addrs c)), c', k')) \<and>
      live fd family k' \<and> rx fd k' = rx fd k1 \<and> tx fd k' = tx fd k1 @ map mem (cursor_addrs c) \<and> cursor_addrs c' = []"
      using less.hyps [of c k1, OF _ s(5) less.prems(2,3)] s(4) by simp
    moreover have "send_loop os fd mem c sent k = send_loop os fd mem c sent k1"
      using s(1,2) left send by (subst send_loop.simps) (simp add: Interrupted_def)
    ultimately show ?thesis using s(3,6) by simp
  qed
qed

text \<open>The receive loop ends with the buffers filled, when as many bytes are there.\<close>

lemma recv_loop_complete:
  assumes "live fd family k" "wf_cursor c" "cursor_addrs c \<noteq> []" "length (cursor_addrs c) \<le> length (rx fd k)"
  shows "\<exists>c' k'. recv_loop os fd c rcvd mem k =
      Some (Inr (Broke, rcvd + int (length (cursor_addrs c)), c',
        scatter (cursor_addrs c) (take (length (cursor_addrs c)) (rx fd k)) mem, k')) \<and>
    live fd family k' \<and> tx fd k' = tx fd k \<and> rx fd k' = drop (length (cursor_addrs c)) (rx fd k)"
  using assms
proof (induction "(length (cursor_addrs c), signals k)" arbitrary: c rcvd mem k rule: wf_induct_rule [OF wf_lex_prod [OF wf_less_than wf_less_than], consumes 0, case_names less])
  case (less c k rcvd mem)
  let ?len = "length (cursor_addrs c)"
  obtain n err data k1 where recv: "os_readv os fd (buf_lens c) k = (n, err, data, k1)"
    by (metis prod_cases4)
  have ne: "buf_lens c \<noteq> []" "rx fd k \<noteq> []" using less.prems(3,4) sum_buf_lens [of c] by auto
  note left = bytes_left_pos [OF less.prems(2,3)]
  note law = live_recv [OF less.prems(1) buf_lens_valid [OF less.prems(2)] ne recv, unfolded sum_buf_lens]
  show ?case
  proof (cases "0 < n")
    case True
    with law less.prems(4) have n: "n \<le> int ?len" "data = take (nat n) (rx fd k)" "rx fd k1 = drop (nat n) (rx fd k)"
      "live fd family k1" "tx fd k1 = tx fd k"
      by auto
    obtain b c1 where adv: "Advance c (word_of_int n) = Inr (b, c1)" "wf_cursor c1"
      "cursor_addrs c1 = drop (nat n) (cursor_addrs c)" "b \<longleftrightarrow> cursor_addrs c1 = []"
      using Advance_reported [OF less.prems(2) True n(1)] by blast
    show ?thesis
    proof (cases b)
      case fin: True
      then have "nat n = ?len" using adv(3,4) n(1) True by simp
      with fin adv n True left recv show ?thesis
        by (subst recv_loop.simps) simp
    next
      case False
      then have c1: "cursor_addrs c1 \<noteq> []" using adv(4) by simp
      let ?mem = "scatter (cursor_addrs c) data mem"
      have len: "nat n + length (cursor_addrs c1) = ?len" "length data = nat n"
        using adv(3) n(1,2) True less.prems(4) by auto
      then have c1': "length (cursor_addrs c1) \<le> length (rx fd k1)" "length (cursor_addrs c1) < ?len"
        using n(3) less.prems(4) True by simp_all
      obtain c' k' where rest: "recv_loop os fd c1 (rcvd + n) ?mem k1 =
          Some (Inr (Broke, rcvd + n + int (length (cursor_addrs c1)), c',
            scatter (cursor_addrs c1) (take (length (cursor_addrs c1)) (rx fd k1)) ?mem, k'))"
        "live fd family k'" "tx fd k' = tx fd k1" "rx fd k' = drop (length (cursor_addrs c1)) (rx fd k1)"
        using less.hyps [of c1 k1, OF _ n(4) adv(2) c1 c1'(1), of "rcvd + n" ?mem] c1'(2) by auto
      have "take ?len (rx fd k) = data @ take (length (cursor_addrs c1)) (rx fd k1)"
        unfolding len(1) [symmetric] n(2,3) by (rule take_add)
      then have "scatter (cursor_addrs c) (take ?len (rx fd k)) mem =
          scatter (cursor_addrs c1) (take (length (cursor_addrs c1)) (rx fd k1)) ?mem"
        by (simp add: scatter_append len(2) adv(3))
      moreover have "rcvd + n + int (length (cursor_addrs c1)) = rcvd + int ?len" using len(1) True by simp
      moreover have "drop (length (cursor_addrs c1)) (rx fd k1) = drop ?len (rx fd k)"
        using len(1) by (simp add: n(3) add.commute)
      ultimately show ?thesis
        using False adv(1) n(5) True left recv rest len(2)
        by (subst recv_loop.simps) simp
    qed
  next
    case False
    with law have s: "n < 0" "err = EINTR" "rx fd k1 = rx fd k" "signals k1 < signals k" "live fd family k1" "tx fd k1 = tx fd k"
      by auto
    moreover have "recv_loop os fd c rcvd mem k = recv_loop os fd c rcvd mem k1"
      using s(1,2) left recv by (subst recv_loop.simps) (simp add: Interrupted_def)
    ultimately show ?thesis
      using less.hyps [of c k1, OF _ s(5) less.prems(2,3), of rcvd mem] less.prems(4) by simp
  qed
qed

end

end
