(* ===== verification/SocketChannel.thy ===== *)
theory SocketChannel
  imports Socket
begin

text \<open>
  Channels over sockets, \<^verbatim>\<open>internal/channel/channel_tcp.h\<close> and \<^verbatim>\<open>channel_udp.h\<close>: on a kernel with a working
  connection a TCP channel in blocking mode fulfils the contract of a stream channel, which is
  what the transfer layer and the engine rely on. The channel's state is the socket, the peer
  endpoint of the base class and the kernel behind the connection.
\<close>

record SockChannel =
  sc_sock :: Sock
  sc_peer :: Endpoint

text \<open>
  Buffers are given by their contents or lengths. They are laid out one after the other from
  address 1 on; sockets depend on the contents only.
\<close>

fun place :: "u64 \<Rightarrow> nat list \<Rightarrow> IoVec list" where
  "place a [] = []"
| "place a (n # ns) = \<lparr>iov_base = a, iov_len = of_nat n\<rparr> # place (a + of_nat n) ns"

definition memory_of :: "byte list \<Rightarrow> u64 \<Rightarrow> byte" where
  "memory_of bs a = (if 1 \<le> unat a \<and> unat a \<le> length bs then bs ! (unat a - 1) else 0)"

definition bytes_at :: "nat \<Rightarrow> (u64 \<Rightarrow> byte) \<Rightarrow> byte list" where
  "bytes_at n mem = map (\<lambda>i. mem (of_nat (Suc i))) [0..<n]"

definition channel_checks :: "nat list \<Rightarrow> bool" where
  "channel_checks lens \<longleftrightarrow> valid_lens lens \<and> 1 \<le> length lens \<and> length lens \<le> IOV_MAX \<and> 1 \<le> sum_list lens"

definition SockChannel_new :: "'k sock_os \<Rightarrow> Sock \<Rightarrow> 'k \<Rightarrow> SockChannel res" where
  "SockChannel_new os s k =
     dcheck (Sock_IsValid os s k)
       (rbind (Sock_IsBlocking os s k) (\<lambda>b.
          dcheck (b \<or> Sock_IsNonBlocking os s k = Inr True)
            (Inr \<lparr>sc_sock = s, sc_peer = Endpoint_default\<rparr>)))"

definition TcpChannel_Write :: "'k sock_os \<Rightarrow> byte list list \<Rightarrow> SockChannel \<times> 'k \<Rightarrow> (int \<times> SockChannel \<times> 'k) res" where
  "TcpChannel_Write os bufs = (\<lambda>(ch, k).
     dcheck (channel_checks (map length bufs))
       (rbind (IoVecCursor_new (place 1 (map length bufs))) (\<lambda>cursor.
          rbind (returned (TcpSocket_Send os (sc_sock ch) (memory_of (concat bufs)) cursor k))
            (\<lambda>(n, _, k1). Inr (n, ch, k1)))))"

definition TcpChannel_Read :: "'k sock_os \<Rightarrow> nat list \<Rightarrow> SockChannel \<times> 'k \<Rightarrow>
    (int \<times> byte list \<times> SockChannel \<times> 'k) res" where
  "TcpChannel_Read os lens = (\<lambda>(ch, k).
     dcheck (channel_checks lens)
       (rbind (IoVecCursor_new (place 1 lens)) (\<lambda>cursor.
          rbind (returned (TcpSocket_Recv os (sc_sock ch) cursor (\<lambda>_. 0) k))
            (\<lambda>(n, _, mem, k1). Inr (n, bytes_at (nat n) mem, ch, k1)))))"

definition UdpChannel_Write :: "'k sock_os \<Rightarrow> byte list list \<Rightarrow> SockChannel \<times> 'k \<Rightarrow> (int \<times> SockChannel \<times> 'k) res" where
  "UdpChannel_Write os bufs = (\<lambda>(ch, k).
     dcheck (channel_checks (map length bufs))
       (rbind (IoVecCursor_new (place 1 (map length bufs))) (\<lambda>cursor.
          rbind (returned (UdpSocket_Send os (sc_sock ch) (memory_of (concat bufs)) cursor k))
            (\<lambda>(n, _, k1). Inr (n, ch, k1)))))"

definition UdpChannel_Read :: "'k sock_os \<Rightarrow> nat list \<Rightarrow> SockChannel \<times> 'k \<Rightarrow>
    (int \<times> byte list \<times> SockChannel \<times> 'k) res" where
  "UdpChannel_Read os lens = (\<lambda>(ch, k).
     dcheck (channel_checks lens)
       (rbind (IoVecCursor_new (place 1 lens)) (\<lambda>cursor.
          rbind (returned (UdpSocket_Recv os (sc_sock ch) cursor (\<lambda>_. 0) k))
            (\<lambda>(n, _, mem, k1). Inr (n, bytes_at (nat n) mem, ch, k1)))))"

text \<open>\<^verbatim>\<open>Channel::Shutdown\<close> returns nothing; a failing check of the socket's shutdown leaves the state as it is.\<close>

definition SockChannel_Shutdown :: "'k sock_os \<Rightarrow> SockChannel \<times> 'k \<Rightarrow> SockChannel \<times> 'k" where
  "SockChannel_Shutdown os = (\<lambda>(ch, k). case Sock_Shutdown os (sc_sock ch) k of
     Inl _ \<Rightarrow> (ch, k)
   | Inr (s1, k1) \<Rightarrow> (ch\<lparr>sc_sock := s1\<rparr>, k1))"

definition TcpChannel :: "'k sock_os \<Rightarrow> (SockChannel \<times> 'k) ChannelOps" where
  "TcpChannel os = \<lparr>ch_Type = kTCP, ch_GetPeer = \<lambda>(ch, k). sc_peer ch,
     ch_SetPeer = \<lambda>p (ch, k). (ch\<lparr>sc_peer := p\<rparr>, k), ch_Write = TcpChannel_Write os,
     ch_Read = TcpChannel_Read os, ch_Shutdown = SockChannel_Shutdown os\<rparr>"

definition UdpChannel :: "'k sock_os \<Rightarrow> (SockChannel \<times> 'k) ChannelOps" where
  "UdpChannel os = \<lparr>ch_Type = kUDP, ch_GetPeer = \<lambda>(ch, k). sc_peer ch,
     ch_SetPeer = \<lambda>p (ch, k). (ch\<lparr>sc_peer := p\<rparr>, k), ch_Write = UdpChannel_Write os,
     ch_Read = UdpChannel_Read os, ch_Shutdown = SockChannel_Shutdown os\<rparr>"

section \<open>Layout of the buffers\<close>

lemma length_place [simp]: "length (place a ns) = length ns"
  by (induction ns arbitrary: a) simp_all

lemma place_layout:
  assumes "1 \<le> a" "valid_lens ns" "a + sum_list ns < 2 ^ 64"
  shows "wf_iovs (place (of_nat a) ns) \<and> span_addrs (place (of_nat a) ns) = map of_nat [a..<a + sum_list ns]"
  using assms
proof (induction ns arbitrary: a)
  case (Cons n ns)
  have n: "1 \<le> n" "valid_lens ns" using Cons.prems(2) by (simp_all add: valid_lens_def)
  have lim: "a < 2 ^ 64" "n < 2 ^ 64" "1 \<le> a + n" "a + n + sum_list ns < 2 ^ 64" using Cons.prems n by simp_all
  then have u: "unat (of_nat a :: u64) = a" "unat (of_nat n :: u64) = n" by simp_all
  have "(of_nat a :: u64) \<noteq> 0" using u(1) Cons.prems(1) by (metis unat_0 not_one_le_zero)
  then have "in_space \<lparr>iov_base = of_nat a, iov_len = of_nat n\<rparr>"
    using u n(1) Cons.prems by (simp add: in_space_def IsValid_IoVec_def word_le_nat_alt)
  moreover have "addrs \<lparr>iov_base = of_nat a, iov_len = of_nat n\<rparr> = map of_nat [a..<a + n]"
    using u by (auto simp: addrs_def intro!: nth_equalityI)
  moreover have "[a..<a + sum_list (n # ns)] = [a..<a + n] @ [a + n..<a + n + sum_list ns]"
    using upt_add_eq_append [of a "a + n" "sum_list ns"] by (simp add: add.assoc)
  moreover have "place (of_nat a) (n # ns) = \<lparr>iov_base = of_nat a, iov_len = of_nat n\<rparr> # place (of_nat (a + n)) ns"
    by simp
  ultimately show ?case
    using Cons.IH [OF lim(3) n(2) lim(4)] by (simp only: wf_iovs_def list.pred_inject span_simps map_append simp_thms)
qed (simp_all add: wf_iovs_def)

lemma place_cursor:
  assumes "valid_lens lens" "lens \<noteq> []" "io_fits lens"
  shows "channel_checks lens" "\<exists>c. IoVecCursor_new (place 1 lens) = Inr c \<and> wf_cursor c \<and> TotalItems c = length lens \<and>
    uint (bytes_left c) = int (sum_list lens) \<and> cursor_addrs c = map (\<lambda>i. of_nat (Suc i)) [0..<sum_list lens]"
proof -
  have pos: "1 \<le> sum_list lens" using assms(1,2) by (cases lens) (auto simp: valid_lens_def)
  then show "channel_checks lens" using assms by (simp add: channel_checks_def io_fits_def Suc_le_eq)
  have lim: "1 + sum_list lens < 2 ^ 64" "sum_list lens < 2 ^ 63" using assms(3) by (simp_all add: io_fits_def)
  have lay: "wf_iovs (place 1 lens)" "span_addrs (place 1 lens) = map of_nat [1..<1 + sum_list lens]"
    using place_layout [OF order_refl assms(1) lim(1), unfolded of_nat_1] by blast+
  have span: "span_len (place 1 lens) = sum_list lens"
    using arg_cong [OF lay(2), of length] by (simp del: upt_Suc)
  then obtain c where c: "IoVecCursor_new (place 1 lens) = Inr c" "wf_cursor c" "cursor_addrs c = span_addrs (place 1 lens)"
    using IoVecCursor_new_ok [OF lay(1)] pos lim(2) by auto
  moreover have "TotalItems c = length lens"
    using c(1) by (auto simp: IoVecCursor_new_def TotalItems_def Let_def dcheck_def split: if_splits)
  moreover have "uint (bytes_left c) = int (sum_list lens)"
    using wf_cursor_length [OF c(2)] by (simp add: c(3) span)
  moreover have "[1..<1 + sum_list lens] = map Suc [0..<sum_list lens]"
    by (simp add: map_Suc_upt del: upt_Suc)
  ultimately show "\<exists>c. IoVecCursor_new (place 1 lens) = Inr c \<and> wf_cursor c \<and> TotalItems c = length lens \<and>
    uint (bytes_left c) = int (sum_list lens) \<and> cursor_addrs c = map (\<lambda>i. of_nat (Suc i)) [0..<sum_list lens]"
    using lay(2) by (simp add: comp_def del: upt_Suc)
qed

section \<open>TCP channels are stream channels\<close>

definition tcp_ready :: "(int \<Rightarrow> int \<Rightarrow> 'k \<Rightarrow> bool) \<Rightarrow> SockChannel \<times> 'k \<Rightarrow> bool" where
  "tcp_ready live = (\<lambda>(ch, k). sk_blocking (sc_sock ch) \<and> live (sk_fd (sc_sock ch)) (sk_family (sc_sock ch)) k)"

definition conn_bytes :: "(int \<Rightarrow> 'k \<Rightarrow> byte list) \<Rightarrow> SockChannel \<times> 'k \<Rightarrow> byte list" where
  "conn_bytes box = (\<lambda>(ch, k). box (sk_fd (sc_sock ch)) k)"

lemma map_memory_of:
  assumes "length bs < 2 ^ 64"
  shows "map (memory_of bs) (map (\<lambda>i. of_nat (Suc i)) [0..<length bs]) = bs"
proof (rule nth_equalityI)
  fix i assume "i < length (map (memory_of bs) (map (\<lambda>i. of_nat (Suc i)) [0..<length bs]))"
  then have i: "i < length bs" by simp
  with assms have "unat (of_nat (Suc i) :: u64) = Suc i" by (simp add: unat_of_nat del: of_nat_Suc)
  with i show "map (memory_of bs) (map (\<lambda>i. of_nat (Suc i)) [0..<length bs]) ! i = bs ! i"
    by (simp add: memory_of_def del: of_nat_Suc)
qed simp

lemma scatter_other: "x \<notin> set as \<Longrightarrow> scatter as bs mem x = mem x"
proof (induction "as" arbitrary: bs mem)
  case (Cons a "as")
  then show ?case by (cases bs) (auto simp: scatter_def)
qed (simp add: scatter_def)

lemma map_scatter: "distinct as \<Longrightarrow> length as = length bs \<Longrightarrow> map (scatter as bs mem) as = bs"
proof (induction "as" arbitrary: bs mem)
  case (Cons a "as")
  then obtain b bs' where bs: "bs = b # bs'" by (cases bs) auto
  then have "scatter (a # as) bs mem = scatter as bs' (mem(a := b))" by (simp add: scatter_def)
  with Cons bs show ?case by (simp add: scatter_other)
qed simp

lemma bytes_at_scatter:
  assumes "length bs < 2 ^ 64"
  shows "bytes_at (length bs) (scatter (map (\<lambda>i. of_nat (Suc i)) [0..<length bs]) bs mem) = bs"
proof -
  let ?as = "map (\<lambda>i. of_nat (Suc i) :: u64) [0..<length bs]"
  have "unat (of_nat (Suc i) :: u64) = Suc i" if "i < length bs" for i
    using assms that by (simp add: unat_of_nat del: of_nat_Suc)
  then have "inj_on (\<lambda>i. of_nat (Suc i) :: u64) {0..<length bs}"
    by (intro inj_onI) (metis Suc_inject atLeastLessThan_iff)
  then have "distinct ?as" by (simp add: distinct_map del: of_nat_Suc)
  from map_scatter [OF this, of bs mem] show ?thesis by (simp add: bytes_at_def comp_def del: of_nat_Suc)
qed

context tcp_kernel
begin

lemma live_ready:
  assumes "tcp_ready live (ch, k)"
  shows "Sock_invariant os (sc_sock ch) k" "MatchesBlocking os (sc_sock ch) k"
  using assms live_socket [of "sk_fd (sc_sock ch)" "sk_family (sc_sock ch)" k]
  by (auto simp: tcp_ready_def Sock_invariant_def MatchesBlocking_def)

lemma tcp_write:
  assumes "tcp_ready live (ch, k)" "valid_bufs bufs" "bufs \<noteq> []" "io_fits (map length bufs)"
  shows "\<exists>k'. TcpChannel_Write os bufs (ch, k) = Inr (int (length (concat bufs)), ch, k') \<and>
    tcp_ready live (ch, k') \<and> conn_bytes tx (ch, k') = conn_bytes tx (ch, k) @ concat bufs \<and>
    conn_bytes rx (ch, k') = conn_bytes rx (ch, k)"
proof -
  let ?lens = "map length bufs" and ?bs = "concat bufs"
  have lens: "valid_lens ?lens" "?lens \<noteq> []" using assms(2,3) by (simp_all add: valid_bufs_def valid_lens_def list_all_iff)
  have sum: "sum_list ?lens = length ?bs" by (simp add: length_concat)
  obtain c where c: "IoVecCursor_new (place 1 ?lens) = Inr c" "wf_cursor c" "TotalItems c = length bufs"
    "uint (bytes_left c) = int (length ?bs)" "cursor_addrs c = map (\<lambda>i. of_nat (Suc i)) [0..<length ?bs]"
    using place_cursor(2) [OF lens assms(4)] unfolding sum by auto
  have lim: "length ?bs < 2 ^ 64" using assms(4) by (simp add: io_fits_def sum)
  have pos: "?bs \<noteq> []" using lens by (cases bufs) (auto simp: valid_lens_def)
  then have ne: "cursor_addrs c \<noteq> []" by (simp add: c(5))
  have live: "live (sk_fd (sc_sock ch)) (sk_family (sc_sock ch)) k" "sk_blocking (sc_sock ch)"
    using assms(1) by (simp_all add: tcp_ready_def)
  obtain c' k' where s: "send_loop os (sk_fd (sc_sock ch)) (memory_of ?bs) c 0 k =
      Some (Inr (Broke, int (length ?bs), c', k'))"
    "live (sk_fd (sc_sock ch)) (sk_family (sc_sock ch)) k'" "rx (sk_fd (sc_sock ch)) k' = rx (sk_fd (sc_sock ch)) k"
    "tx (sk_fd (sc_sock ch)) k' = tx (sk_fd (sc_sock ch)) k @ ?bs"
    using send_loop_complete [OF live(1) c(2) ne, of "memory_of ?bs" 0] map_memory_of [OF lim] by (auto simp: c(5))
  have ready: "tcp_ready live (ch, k')" using s(2) live(2) by (simp add: tcp_ready_def)
  have "io_checks os (sc_sock ch) c k"
    using live_ready [OF assms(1)] c(3) assms(4) bytes_left_pos [OF c(2) ne] by (simp add: io_checks_def io_fits_def)
  moreover have "io_result_ok os (sc_sock ch) (int (length ?bs)) (uint (bytes_left c)) k'"
    using live_ready(2) [OF ready] live(2) by (simp add: io_result_ok_def c(4))
  ultimately have "TcpSocket_Send os (sc_sock ch) (memory_of ?bs) c k = Some (Inr (int (length ?bs), c', k'))"
    using s(1) by (simp add: TcpSocket_Send_def)
  then show ?thesis
    using place_cursor(1) [OF lens assms(4)] c(1) s(3,4) ready
    by (simp add: TcpChannel_Write_def returned_def conn_bytes_def)
qed

lemma tcp_read:
  assumes "tcp_ready live (ch, k)" "1 \<le> n" "n \<le> length (conn_bytes rx (ch, k))" "io_fits [n]"
  shows "\<exists>k'. TcpChannel_Read os [n] (ch, k) = Inr (int n, take n (conn_bytes rx (ch, k)), ch, k') \<and>
    tcp_ready live (ch, k') \<and> conn_bytes rx (ch, k') = drop n (conn_bytes rx (ch, k)) \<and>
    conn_bytes tx (ch, k') = conn_bytes tx (ch, k)"
proof -
  let ?fd = "sk_fd (sc_sock ch)" and ?bs = "take n (conn_bytes rx (ch, k))"
  have lens: "valid_lens [n]" "[n] \<noteq> []" using assms(2) by (simp_all add: valid_lens_def)
  obtain c where c: "IoVecCursor_new (place 1 [n]) = Inr c" "wf_cursor c" "TotalItems c = 1"
    "uint (bytes_left c) = int n" "cursor_addrs c = map (\<lambda>i. of_nat (Suc i)) [0..<n]"
    using place_cursor(2) [OF lens assms(4)] by auto
  have len: "length ?bs = n" "n < 2 ^ 64" using assms(3,4) by (simp_all add: io_fits_def)
  have ne: "cursor_addrs c \<noteq> []" using assms(2) by (simp add: c(5))
  have live: "live ?fd (sk_family (sc_sock ch)) k" "sk_blocking (sc_sock ch)"
    using assms(1) by (simp_all add: tcp_ready_def)
  obtain c' k' where s: "recv_loop os ?fd c 0 (\<lambda>_. 0) k =
      Some (Inr (Broke, int n, c', scatter (cursor_addrs c) ?bs (\<lambda>_. 0), k'))"
    "live ?fd (sk_family (sc_sock ch)) k'" "tx ?fd k' = tx ?fd k" "rx ?fd k' = drop n (rx ?fd k)"
    using recv_loop_complete [OF live(1) c(2) ne, of 0 "\<lambda>_. 0"] assms(3) by (auto simp: c(5) conn_bytes_def)
  have ready: "tcp_ready live (ch, k')" using s(2) live(2) by (simp add: tcp_ready_def)
  have "io_checks os (sc_sock ch) c k"
    using live_ready [OF assms(1)] c(3) bytes_left_pos [OF c(2) ne] by (simp add: io_checks_def IOV_MAX_def)
  moreover have "io_result_ok os (sc_sock ch) (int n) (uint (bytes_left c)) k'"
    using live_ready(2) [OF ready] live(2) by (simp add: io_result_ok_def c(4))
  ultimately have "TcpSocket_Recv os (sc_sock ch) c (\<lambda>_. 0) k =
      Some (Inr (int n, c', scatter (cursor_addrs c) ?bs (\<lambda>_. 0), k'))"
    using s(1) by (simp add: TcpSocket_Recv_def)
  moreover have "bytes_at n (scatter (cursor_addrs c) ?bs (\<lambda>_. 0)) = ?bs"
    using bytes_at_scatter [of ?bs "\<lambda>_. 0"] len by (simp add: c(5))
  ultimately show ?thesis
    using place_cursor(1) [OF lens assms(4)] c(1) s(3,4) ready
    by (simp add: TcpChannel_Read_def returned_def conn_bytes_def)
qed

end

sublocale tcp_kernel < tcp: stream_channel "TcpChannel os" "tcp_ready live" "conn_bytes rx" "conn_bytes tx"
proof (unfold_locales, goal_cases)
  case (1 p s)
  show ?case by (simp add: TcpChannel_def split: prod.split)
next
  case (2 s p)
  then show ?case by (simp add: TcpChannel_def tcp_ready_def split: prod.splits)
next
  case (6 s n)
  then show ?case using tcp_read [of "fst s" "snd s" n] by (auto simp: TcpChannel_def split_beta)
next
  case (7 s bufs)
  then show ?case using tcp_write [of "fst s" "snd s" bufs] by (auto simp: TcpChannel_def split_beta)
next
  case (8 p s)
  show ?case by (simp add: TcpChannel_def conn_bytes_def split: prod.split)
next
  case (9 p s)
  show ?case by (simp add: TcpChannel_def conn_bytes_def split: prod.split)
qed (simp_all add: TcpChannel_def)

context tcp_kernel
begin

lemmas tcp_stream = tcp.stream_channel_axioms

end

section \<open>Partial transfers\<close>

text \<open>
  What any kernel does on a send: it accepts a prefix of the data or nothing, and interrupts only
  finitely often in a row. \<open>good\<close> are the kernel states in which the descriptor is a socket as the
  object describes it.
\<close>

locale stream_kernel =
  fixes os :: "'k sock_os"
    and s :: Sock
    and good :: "'k \<Rightarrow> bool"
    and rx tx :: "'k \<Rightarrow> byte list"
    and signals :: "'k \<Rightarrow> nat"
  assumes good_socket: "good k \<Longrightarrow> Sock_invariant os s k"
    and any_send: "good k \<Longrightarrow> concat bufs \<noteq> [] \<Longrightarrow> os_sendmsg os (sk_fd s) bufs k = (n, err, k') \<Longrightarrow>
      good k' \<and> rx k' = rx k \<and>
      (0 < n \<and> n \<le> int (length (concat bufs)) \<and> tx k' = tx k @ take (nat n) (concat bufs) \<or>
       n \<le> 0 \<and> tx k' = tx k \<and> (n < 0 \<and> err = EINTR \<longrightarrow> signals k' < signals k))"
    and any_recv: "good k \<Longrightarrow> valid_lens lens \<Longrightarrow> lens \<noteq> [] \<Longrightarrow> os_readv os (sk_fd s) lens k = (n, err, data, k') \<Longrightarrow>
      good k' \<and> tx k' = tx k \<and>
      (0 < n \<and> n \<le> int (min (sum_list lens) (length (rx k))) \<and> data = take (nat n) (rx k) \<and> rx k' = drop (nat n) (rx k) \<or>
       n \<le> 0 \<and> rx k' = rx k \<and> (n < 0 \<and> err = EINTR \<longrightarrow> signals k' < signals k))"
begin

lemma send_loop_progress:
  assumes "good k" "wf_cursor c" "cursor_addrs c \<noteq> []"
  shows "\<exists>e m c' k'. send_loop os (sk_fd s) mem c sent k = Some (Inr (e, sent + int m, c', k')) \<and> good k' \<and>
    m \<le> length (cursor_addrs c) \<and> cursor_addrs c' = drop m (cursor_addrs c) \<and> rx k' = rx k \<and>
    tx k' = tx k @ map mem (take m (cursor_addrs c))"
  using assms
proof (induction "(length (cursor_addrs c), signals k)" arbitrary: c sent k rule: wf_induct_rule [OF wf_lex_prod [OF wf_less_than wf_less_than], consumes 0, case_names less])
  case (less c k sent)
  obtain n err k1 where send: "os_sendmsg os (sk_fd s) (gather c mem) k = (n, err, k1)"
    by (metis prod_cases3)
  have ne: "concat (gather c mem) \<noteq> []" using less.prems(3) by (simp add: concat_gather)
  note left = bytes_left_pos [OF less.prems(2,3)]
  note law = any_send [OF less.prems(1) ne send, unfolded concat_gather]
  show ?case
  proof (cases "0 < n")
    case True
    with law have n: "n \<le> int (length (cursor_addrs c))" "tx k1 = tx k @ map mem (take (nat n) (cursor_addrs c))"
      "good k1" "rx k1 = rx k"
      by (auto simp: take_map)
    obtain b c1 where adv: "Advance c (word_of_int n) = Inr (b, c1)" "wf_cursor c1"
      "cursor_addrs c1 = drop (nat n) (cursor_addrs c)" "b \<longleftrightarrow> cursor_addrs c1 = []"
      using Advance_reported [OF less.prems(2) True n(1)] by blast
    show ?thesis
    proof (cases b)
      case fin: True
      then have "send_loop os (sk_fd s) mem c sent k = Some (Inr (Broke, sent + int (nat n), c1, k1))"
        using adv(1) True left send by (subst send_loop.simps) simp
      then show ?thesis using n adv(3) True by (intro exI conjI) auto
    next
      case False
      then have c1: "cursor_addrs c1 \<noteq> []" using adv(4) by simp
      have shorter: "length (cursor_addrs c1) < length (cursor_addrs c)"
        using adv(3) True n(1) less.prems(3) by simp
      obtain e m c' k' where rest: "send_loop os (sk_fd s) mem c1 (sent + n) k1 = Some (Inr (e, sent + n + int m, c', k'))"
        "good k'" "m \<le> length (cursor_addrs c1)" "cursor_addrs c' = drop m (cursor_addrs c1)" "rx k' = rx k1"
        "tx k' = tx k1 @ map mem (take m (cursor_addrs c1))"
        using less.hyps [of c1 k1, OF _ n(3) adv(2) c1, of "sent + n"] shorter by auto
      have "send_loop os (sk_fd s) mem c sent k = Some (Inr (e, sent + int (nat n + m), c', k'))"
        using rest(1) False adv(1) True left send by (subst send_loop.simps) (simp add: add.assoc)
      moreover have "take (nat n + m) (cursor_addrs c) = take (nat n) (cursor_addrs c) @ take m (cursor_addrs c1)"
        unfolding adv(3) by (rule take_add)
      moreover have "nat n + m \<le> length (cursor_addrs c)" "cursor_addrs c' = drop (nat n + m) (cursor_addrs c)"
        using rest(3,4) adv(3) n(1) True by (auto simp: add.commute)
      ultimately show ?thesis using rest(2,5,6) n(2,4) by (intro exI [of _ e] exI [of _ "nat n + m"]) auto
    qed
  next
    case False
    with law have stay: "tx k1 = tx k" "good k1" "rx k1 = rx k" "n < 0 \<and> err = EINTR \<longrightarrow> signals k1 < signals k"
      by auto
    show ?thesis
    proof (cases "n < 0 \<and> err = EINTR")
      case True
      then have "send_loop os (sk_fd s) mem c sent k = send_loop os (sk_fd s) mem c sent k1"
        using left send by (subst send_loop.simps) (simp add: Interrupted_def)
      then show ?thesis
        using less.hyps [of c k1, OF _ stay(2) less.prems(2,3), of sent] stay True by simp
    next
      case other: False
      let ?e = "if n < 0 \<and> WouldBlock err then Broke else Failed"
      have "send_loop os (sk_fd s) mem c sent k = Some (Inr (?e, sent + int 0, c, k1))"
        using other \<open>\<not> 0 < n\<close> left send by (subst send_loop.simps) (auto simp: Interrupted_def)
      then show ?thesis
        using stay by (intro exI [of _ ?e] exI [of _ "0 :: nat"] exI [of _ c] exI [of _ k1]) simp
    qed
  qed
qed

lemma recv_loop_progress:
  assumes "good k" "wf_cursor c" "cursor_addrs c \<noteq> []"
  shows "\<exists>e m c' k'. recv_loop os (sk_fd s) c rcvd mem k =
      Some (Inr (e, rcvd + int m, c', scatter (cursor_addrs c) (take m (rx k)) mem, k')) \<and> good k' \<and>
    m \<le> length (cursor_addrs c) \<and> m \<le> length (rx k) \<and> cursor_addrs c' = drop m (cursor_addrs c) \<and> tx k' = tx k \<and>
    rx k' = drop m (rx k)"
  using assms
proof (induction "(length (cursor_addrs c), signals k)" arbitrary: c rcvd mem k rule: wf_induct_rule [OF wf_lex_prod [OF wf_less_than wf_less_than], consumes 0, case_names less])
  case (less c k rcvd mem)
  obtain n err data k1 where recv: "os_readv os (sk_fd s) (buf_lens c) k = (n, err, data, k1)"
    by (metis prod_cases4)
  have ne: "buf_lens c \<noteq> []" using less.prems(3) sum_buf_lens [of c] by auto
  note left = bytes_left_pos [OF less.prems(2,3)]
  note law = any_recv [OF less.prems(1) buf_lens_valid [OF less.prems(2)] ne recv, unfolded sum_buf_lens]
  show ?case
  proof (cases "0 < n")
    case True
    with law have n: "n \<le> int (length (cursor_addrs c))" "nat n \<le> length (rx k)" "data = take (nat n) (rx k)"
      "rx k1 = drop (nat n) (rx k)" "good k1" "tx k1 = tx k"
      by auto
    obtain b c1 where adv: "Advance c (word_of_int n) = Inr (b, c1)" "wf_cursor c1"
      "cursor_addrs c1 = drop (nat n) (cursor_addrs c)" "b \<longleftrightarrow> cursor_addrs c1 = []"
      using Advance_reported [OF less.prems(2) True n(1)] by blast
    let ?mem = "scatter (cursor_addrs c) data mem"
    have take_data: "take (nat n) data = data" by (simp add: n(3))
    show ?thesis
    proof (cases b)
      case fin: True
      then have "recv_loop os (sk_fd s) c rcvd mem k = Some (Inr (Broke, rcvd + int (nat n), c1, ?mem, k1))"
        using adv(1) True left recv take_data by (subst recv_loop.simps) simp
      then show ?thesis
        using n adv(3) True by (intro exI [of _ Broke] exI [of _ "nat n"] exI [of _ c1] exI [of _ k1]) auto
    next
      case False
      then have c1: "cursor_addrs c1 \<noteq> []" using adv(4) by simp
      have shorter: "length (cursor_addrs c1) < length (cursor_addrs c)"
        using adv(3) True n(1) less.prems(3) by simp
      obtain e m c' k' where rest: "recv_loop os (sk_fd s) c1 (rcvd + n) ?mem k1 =
          Some (Inr (e, rcvd + n + int m, c', scatter (cursor_addrs c1) (take m (rx k1)) ?mem, k'))"
        "good k'" "m \<le> length (cursor_addrs c1)" "m \<le> length (rx k1)" "cursor_addrs c' = drop m (cursor_addrs c1)"
        "tx k' = tx k1" "rx k' = drop m (rx k1)"
        using less.hyps [of c1 k1, OF _ n(5) adv(2) c1, of "rcvd + n" ?mem] shorter by auto
      have "take (nat n + m) (rx k) = data @ take m (rx k1)" "length data = nat n"
        unfolding n(3,4) using n(2) by (auto simp: take_add)
      then have "scatter (cursor_addrs c) (take (nat n + m) (rx k)) mem = scatter (cursor_addrs c1) (take m (rx k1)) ?mem"
        by (simp add: scatter_append adv(3))
      then have "recv_loop os (sk_fd s) c rcvd mem k =
          Some (Inr (e, rcvd + int (nat n + m), c', scatter (cursor_addrs c) (take (nat n + m) (rx k)) mem, k'))"
        using rest(1) False adv(1) True left recv take_data by (subst recv_loop.simps) (simp add: add.assoc)
      moreover have "nat n + m \<le> length (cursor_addrs c)" "nat n + m \<le> length (rx k)"
        "cursor_addrs c' = drop (nat n + m) (cursor_addrs c)" "rx k' = drop (nat n + m) (rx k)"
        using rest(3-5,7) adv(3) n(1,2,4) True by (auto simp: add.commute)
      ultimately show ?thesis
        using rest(2,6) n(6) by (intro exI [of _ e] exI [of _ "nat n + m"] exI [of _ c'] exI [of _ k']) simp
    qed
  next
    case False
    with law have stay: "rx k1 = rx k" "good k1" "tx k1 = tx k" "n < 0 \<and> err = EINTR \<longrightarrow> signals k1 < signals k"
      by auto
    show ?thesis
    proof (cases "n < 0 \<and> err = EINTR")
      case True
      then have "recv_loop os (sk_fd s) c rcvd mem k = recv_loop os (sk_fd s) c rcvd mem k1"
        using left recv by (subst recv_loop.simps) (simp add: Interrupted_def)
      then show ?thesis
        using less.hyps [of c k1, OF _ stay(2) less.prems(2,3), of rcvd mem] stay True by simp
    next
      case other: False
      let ?e = "if n = 0 then Eof else if WouldBlock err then Broke else Failed"
      have "recv_loop os (sk_fd s) c rcvd mem k = Some (Inr (?e, rcvd + int 0, c, mem, k1))"
        using other \<open>\<not> 0 < n\<close> left recv by (subst recv_loop.simps) (auto simp: Interrupted_def)
      then show ?thesis
        using stay by (intro exI [of _ ?e] exI [of _ "0 :: nat"] exI [of _ c] exI [of _ k1]) (simp add: scatter_def)
    qed
  qed
qed

end

section \<open>Properties\<close>

text \<open>
  C7. A TCP channel in blocking mode over a kernel that behaves as POSIX promises is a stream
  channel: reads of available bytes return exactly the bytes asked for, writes transfer all
  bytes, in order, whatever partial transfers and interruptions the kernel makes on the way, no
  check fails, and both return.
\<close>
theorem tcp_channel_is_stream:
  assumes "tcp_kernel os live rx tx signals"
  shows "stream_channel (TcpChannel os) (tcp_ready live) (conn_bytes rx) (conn_bytes tx)"
  by (rule tcp_kernel.tcp_stream [OF assms])

text \<open>
  C19. Sending and receiving on a non-blocking TCP socket return for every kernel that does not
  interrupt for ever, also on errors and end of file, without a failing check: the cursor is
  advanced by exactly the bytes that were moved, so that the next call continues where this one
  stopped, and the result is their number, or -1 on an error.
\<close>
theorem tcp_partial_transfer:
  assumes "stream_kernel os s good rx tx signals" "\<not> sk_blocking s" "good k" "wf_cursor c"
    and "cursor_addrs c \<noteq> []" "TotalItems c \<le> IOV_MAX"
  shows "(\<exists>r m c' k'. TcpSocket_Send os s mem c k = Some (Inr (r, c', k')) \<and> (r = - 1 \<or> r = int m) \<and>
      m \<le> length (cursor_addrs c) \<and> cursor_addrs c' = drop m (cursor_addrs c) \<and> rx k' = rx k \<and>
      tx k' = tx k @ map mem (take m (cursor_addrs c))) \<and>
    (\<exists>r m c' k'. TcpSocket_Recv os s c mem k =
        Some (Inr (r, c', scatter (cursor_addrs c) (take m (rx k)) mem, k')) \<and> (r = - 1 \<or> r = int m) \<and>
      m \<le> length (cursor_addrs c) \<and> cursor_addrs c' = drop m (cursor_addrs c) \<and> tx k' = tx k \<and> rx k' = drop m (rx k))"
proof -
  note inv = stream_kernel.good_socket [OF assms(1)]
  have checks: "io_checks os s c k"
    using inv [OF assms(3)] assms(6) bytes_left_pos [OF assms(4,5)] by (simp add: io_checks_def Sock_invariant_def)
  have all: "uint (bytes_left c) = int (length (cursor_addrs c))"
    using wf_cursor_length [OF assms(4)] by simp
  have ok: "io_result_ok os s (int m) (uint (bytes_left c)) k'" if "good k'" "m \<le> length (cursor_addrs c)" for m k'
    using inv [OF that(1)] that(2) assms(2) by (simp add: io_result_ok_def Sock_invariant_def all)
  obtain e m c' k' where "send_loop os (sk_fd s) mem c 0 k = Some (Inr (e, 0 + int m, c', k'))" "good k'"
    "m \<le> length (cursor_addrs c)" "cursor_addrs c' = drop m (cursor_addrs c)" "rx k' = rx k"
    "tx k' = tx k @ map mem (take m (cursor_addrs c))"
    using stream_kernel.send_loop_progress [OF assms(1,3,4,5), of mem 0] by blast
  moreover from this have "\<exists>r. TcpSocket_Send os s mem c k = Some (Inr (r, c', k')) \<and> (r = - 1 \<or> r = int m)"
    using checks ok [of k' m] by (cases e) (simp_all add: TcpSocket_Send_def)
  moreover obtain e2 m2 c2 k2 where "recv_loop os (sk_fd s) c 0 mem k =
      Some (Inr (e2, 0 + int m2, c2, scatter (cursor_addrs c) (take m2 (rx k)) mem, k2))" "good k2"
    "m2 \<le> length (cursor_addrs c)" "cursor_addrs c2 = drop m2 (cursor_addrs c)" "tx k2 = tx k" "rx k2 = drop m2 (rx k)"
    using stream_kernel.recv_loop_progress [OF assms(1,3,4,5), of 0 mem] by blast
  moreover from this have "\<exists>r. TcpSocket_Recv os s c mem k =
      Some (Inr (r, c2, scatter (cursor_addrs c) (take m2 (rx k)) mem, k2)) \<and> (r = - 1 \<or> r = int m2)"
    using checks ok [of k2 m2] by (cases e2) (simp_all add: TcpSocket_Recv_def)
  ultimately show ?thesis by blast
qed

section \<open>A concrete kernel\<close>

text \<open>
  One connection on descriptor 5 that moves at most three bytes per call and interrupts every
  call once; in non-blocking mode the send buffer has limited room.
\<close>

record demo_conn =
  dc_rx :: "byte list"
  dc_tx :: "byte list"
  dc_signals :: nat
  dc_room :: nat

definition demo_sendmsg :: "bool \<Rightarrow> byte list list \<Rightarrow> demo_conn \<Rightarrow> int \<times> int \<times> demo_conn" where
  "demo_sendmsg blocking bufs k =
     (if 0 < dc_signals k then (- 1, EINTR, k\<lparr>dc_signals := dc_signals k - 1\<rparr>)
      else if \<not> blocking \<and> dc_room k = 0 then (- 1, EAGAIN, k)
      else
        let n = min (length (concat bufs)) (if blocking then 3 else min 3 (dc_room k))
        in (int n, 0, k\<lparr>dc_tx := dc_tx k @ take n (concat bufs), dc_signals := 1, dc_room := dc_room k - n\<rparr>))"

definition demo_readv :: "nat list \<Rightarrow> demo_conn \<Rightarrow> int \<times> int \<times> byte list \<times> demo_conn" where
  "demo_readv lens k =
     (if 0 < dc_signals k then (- 1, EINTR, [], k\<lparr>dc_signals := dc_signals k - 1\<rparr>)
      else if dc_rx k = [] then (- 1, EAGAIN, [], k)
      else
        let n = min (min 3 (sum_list lens)) (length (dc_rx k))
        in (int n, 0, take n (dc_rx k), k\<lparr>dc_rx := drop n (dc_rx k), dc_signals := 1\<rparr>))"

definition demo_kernel :: "bool \<Rightarrow> demo_conn sock_os" where
  "demo_kernel blocking = \<lparr>
     os_getfd = \<lambda>fd k. 0, os_getfl = \<lambda>fd k. (if blocking then 0 else O_NONBLOCK), os_setfl = \<lambda>fd fl k. (- 1, k),
     os_socket = \<lambda>f t k. (- 1, k), os_setsockopt = \<lambda>fd l opt v k. (0, k), os_so_error = \<lambda>fd k. (0, 0, 0, k),
     os_getsockname = \<lambda>fd k. Some (sockaddr_in 0 0), os_getpeername = \<lambda>fd k. Some (sockaddr_in 0 0),
     os_bind = \<lambda>fd sa k. (0, k), os_listen = \<lambda>fd n k. (0, k), os_accept4 = \<lambda>fd fl k. (- 1, EAGAIN, k),
     os_connect = \<lambda>fd sa k. (0, 0, k), os_shutdown = \<lambda>fd k. k, os_close = \<lambda>fd k. k,
     os_sendmsg = \<lambda>fd. demo_sendmsg blocking, os_writev = \<lambda>fd bufs k. (- 1, EAGAIN, k),
     os_readv = \<lambda>fd. demo_readv\<rparr>"

definition demo_sock :: "bool \<Rightarrow> Sock" where
  "demo_sock blocking = \<lparr>sk_fd = 5, sk_family = AF_INET, sk_blocking = blocking, sk_connected = True\<rparr>"

lemma demo_send_law:
  assumes "concat bufs \<noteq> []" "demo_sendmsg b bufs k = (n, err, k')"
  shows "dc_rx k' = dc_rx k \<and>
    (0 < n \<and> n \<le> int (length (concat bufs)) \<and> dc_tx k' = dc_tx k @ take (nat n) (concat bufs) \<or>
     n < 0 \<and> dc_tx k' = dc_tx k \<and> (err = EINTR \<longrightarrow> dc_signals k' < dc_signals k) \<and> (b \<longrightarrow> err = EINTR))"
proof -
  have "0 < length (concat bufs)" using assms(1) by simp
  with assms(2) show ?thesis
    by (auto simp: demo_sendmsg_def Let_def EINTR_def EAGAIN_def min_def split: if_splits simp del: length_concat length_greater_0_conv)
qed

lemma demo_recv_law:
  assumes "valid_lens lens" "lens \<noteq> []" "demo_readv lens k = (n, err, data, k')"
  shows "dc_tx k' = dc_tx k \<and>
    (0 < n \<and> n \<le> int (min (sum_list lens) (length (dc_rx k))) \<and> data = take (nat n) (dc_rx k) \<and> dc_rx k' = drop (nat n) (dc_rx k) \<or>
     n < 0 \<and> dc_rx k' = dc_rx k \<and> (err = EINTR \<longrightarrow> dc_signals k' < dc_signals k) \<and> (dc_rx k \<noteq> [] \<longrightarrow> err = EINTR))"
proof -
  have "0 < sum_list lens" using assms(1,2) by (cases lens) (auto simp: valid_lens_def)
  with assms(3) show ?thesis
    by (auto simp: demo_readv_def Let_def EINTR_def EAGAIN_def split: if_splits)
qed

lemma demo_kernel_sock:
  "os_sendmsg (demo_kernel b) fd = demo_sendmsg b" "os_readv (demo_kernel b) fd = demo_readv"
  "Sock_invariant (demo_kernel b) (demo_sock b) k"
  "IsValidSocket (demo_kernel b) fd k" "AddrFamily (demo_kernel b) fd k = AF_INET" "IsBlockingMode (demo_kernel True) fd k"
  by (simp_all add: demo_kernel_def demo_sock_def Sock_invariant_def MatchesBlocking_def IsValidSocket_def AddrFamily_def
      IsBlockingMode_def IsNonBlockingMode_def O_NONBLOCK_def)

interpretation demo_tcp: tcp_kernel "demo_kernel True" "\<lambda>fd family k. fd = 5 \<and> family = AF_INET" "\<lambda>_. dc_rx" "\<lambda>_. dc_tx" dc_signals
proof (unfold_locales, goal_cases)
  case (2 fd family k bufs n err k')
  then show ?case using demo_send_law [of bufs True k n err k'] by (simp add: demo_kernel_sock) blast
next
  case (3 fd family k lens n err data k')
  then show ?case using demo_recv_law [of lens k n err data k'] by (simp add: demo_kernel_sock) blast
qed (simp add: demo_kernel_sock)

interpretation demo_nb: stream_kernel "demo_kernel False" "demo_sock False" "\<lambda>_. True" dc_rx dc_tx dc_signals
proof (unfold_locales, goal_cases)
  case (2 k bufs n err k')
  then show ?case using demo_send_law [of bufs False k n err k'] by (auto simp: demo_kernel_sock)
next
  case (3 k lens n err data k')
  then show ?case using demo_recv_law [of lens k n err data k'] by (auto simp: demo_kernel_sock)
qed (simp add: demo_kernel_sock)

theorem tcp_channel_is_stream_witness:
  "stream_channel (TcpChannel (demo_kernel True)) (tcp_ready (\<lambda>fd family k. fd = 5 \<and> family = AF_INET)) (conn_bytes (\<lambda>_. dc_rx))
     (conn_bytes (\<lambda>_. dc_tx)) \<and>
   tcp_ready (\<lambda>fd family k. fd = 5 \<and> family = AF_INET)
     (\<lparr>sc_sock = demo_sock True, sc_peer = Endpoint_default\<rparr>, \<lparr>dc_rx = [1, 2, 3, 4, 5], dc_tx = [], dc_signals = 2, dc_room = 0\<rparr>)"
  using tcp_channel_is_stream [OF demo_tcp.tcp_kernel_axioms] by (simp add: tcp_ready_def demo_sock_def)

theorem tcp_partial_transfer_witness:
  "\<exists>r m c' k'. TcpSocket_Send (demo_kernel False) (demo_sock False) (\<lambda>a. 7) demo_cursor
      \<lparr>dc_rx = [], dc_tx = [], dc_signals = 1, dc_room = 4\<rparr> = Some (Inr (r, c', k')) \<and>
    cursor_addrs c' = drop m (cursor_addrs demo_cursor) \<and> dc_tx k' = replicate m 7"
proof -
  have c: "wf_cursor demo_cursor" "cursor_addrs demo_cursor = [100, 101, 102, 200, 201]" "TotalItems demo_cursor \<le> IOV_MAX"
    by (simp_all add: demo_cursor_def wf_cursor_def wf_iovs_def in_space_def IsValid_IoVec_def RemainingSpan_def
        cursor_addrs_def addrs_def upt_rec TotalItems_def IOV_MAX_def)
  have "map (\<lambda>a. 7) (take m [100, 101, 102, 200, 201 :: u64]) = replicate (min m 5) (7 :: byte)" for m
    by (simp add: map_replicate_const min.commute)
  then show ?thesis
    using tcp_partial_transfer [OF demo_nb.stream_kernel_axioms _ TrueI c(1) _ c(3), of "\<lambda>a. 7"
        "\<lparr>dc_rx = [], dc_tx = [], dc_signals = 1, dc_room = 4\<rparr>"]
    by (auto simp: demo_sock_def c(2))
qed

end
