(* ===== verification/Nic.thy ===== *)
theory Nic
  imports Endpoint "HOL-Library.List_Lexorder" "HOL-Library.Char_ord"
begin

text \<open>
  \<^verbatim>\<open>util/nic.{h,cc}\<close> and the interface enumeration of \<^verbatim>\<open>internal/base/nicinfo.cc\<close>: which
  network interfaces and addresses a process may bind to.

  The operating system's answers (\<^verbatim>\<open>getifaddrs\<close>, \<^verbatim>\<open>getnameinfo\<close>, \<^verbatim>\<open>access\<close>,
  \<^verbatim>\<open>if_nametoindex\<close>) are the fields of \<open>nic_os\<close>. Interface tables are hash maps, so their
  order is arbitrary; the selection of the address to bind is shown not to depend on it.
\<close>

record ifaddr =
  ifa_name :: "string option"
  ifa_addr :: "sockaddr option"

record nic_os =
  getifaddrs :: "ifaddr list option"
  getnameinfo :: "sockaddr \<Rightarrow> string option"
  access :: "string \<Rightarrow> bool"
  if_nametoindex :: "string \<Rightarrow> nat"

record util_NicInfo =
  uni_type :: NicType
  uni_addrs :: "IpAddr list"

definition Exists :: "nic_os \<Rightarrow> string \<Rightarrow> string \<Rightarrow> bool" where
  "Exists os ifc suffix = access os (c_str (''/sys/class/net/'' @ ifc @ suffix))"

definition IsBridgeInterface :: "nic_os \<Rightarrow> string \<Rightarrow> bool" where
  "IsBridgeInterface os ifc = Exists os ifc ''/bridge''"

definition IsRdmaInterface :: "nic_os \<Rightarrow> string \<Rightarrow> bool" where
  "IsRdmaInterface os ifc = Exists os ifc ''/device/infiniband''"

definition GetRoutableIpAddr :: "'a inet_lib_scheme \<Rightarrow> string \<Rightarrow> int \<Rightarrow> IpAddr option" where
  "GetRoutableIpAddr L ip family = (let
     v4 = (if family = AF_INET \<or> family = AF_UNSPEC then
             (case inet_pton4 L (c_str ip) of
                Some a \<Rightarrow> if IsRoutable (IPv4 a) then Some (IPv4 a) else None
              | None \<Rightarrow> None)
           else None);
     v6 = (if family = AF_INET6 \<or> family = AF_UNSPEC then
             (case inet_pton6 L (c_str ip) of
                Some a \<Rightarrow> if IsRoutable (IPv6 a) then Some (IPv6 a) else None
              | None \<Rightarrow> None)
           else None)
   in case v4 of Some a \<Rightarrow> Some a | None \<Rightarrow> v6)"

definition MatchesTransport :: "NicType \<Rightarrow> TransportType \<Rightarrow> bool" where
  "MatchesTransport t transport = (case transport of
     kAny \<Rightarrow> t = kIP \<or> t = kRDMA
   | kTcp \<Rightarrow> t = kIP
   | kRdma \<Rightarrow> t = kRDMA)"

fun pick_addr :: "'a inet_lib_scheme \<Rightarrow> bool \<Rightarrow> IpAddr list \<Rightarrow> string option" where
  "pick_addr L want_ipv6 [] = None"
| "pick_addr L want_ipv6 (addr # addrs) =
     (if IsLoopback addr \<or> IsIPv6 addr \<noteq> want_ipv6 then pick_addr L want_ipv6 addrs
      else Some (IpAddr_ToString L addr))"

fun pick_nic :: "'a inet_lib_scheme \<Rightarrow> bool \<Rightarrow> (string, util_NicInfo) hash_map \<Rightarrow> string list \<Rightarrow>
    string option res" where
  "pick_nic L want_ipv6 nics [] = Inr None"
| "pick_nic L want_ipv6 nics (ifname # ifnames) =
     rbind (map_at nics ifname) (\<lambda>info.
       case pick_addr L want_ipv6 (uni_addrs info) of
         Some s \<Rightarrow> Inr (Some s)
       | None \<Rightarrow> pick_nic L want_ipv6 nics ifnames)"

definition PickFromNics ::
    "'a inet_lib_scheme \<Rightarrow> (string, util_NicInfo) hash_map \<Rightarrow> TransportType \<Rightarrow> string option res" where
  "PickFromNics L nics transport = (let
     ifnames = sort (map fst (filter (\<lambda>(n, info). MatchesTransport (uni_type info) transport) nics))
   in rbind (pick_nic L True nics ifnames) (\<lambda>r.
        case r of
          Some s \<Rightarrow> Inr (Some s)
        | None \<Rightarrow> pick_nic L False nics ifnames))"

definition map_push :: "'k \<Rightarrow> 'v \<Rightarrow> ('k, 'v list) hash_map \<Rightarrow> ('k, 'v list) hash_map" where
  "map_push k v m = AList.update k (case map_of m k of None \<Rightarrow> [v] | Some vs \<Rightarrow> vs @ [v]) m"

fun enumerate_ifs :: "nic_os \<Rightarrow> ifaddr list \<Rightarrow> (string, string list) hash_map \<Rightarrow>
    (string, string list) hash_map" where
  "enumerate_ifs os [] ifc_ips = ifc_ips"
| "enumerate_ifs os (ifa # ifas) ifc_ips = enumerate_ifs os ifas
     (case ifa_addr ifa of
        None \<Rightarrow> ifc_ips
      | Some sa \<Rightarrow>
          if sa_family sa \<noteq> AF_INET \<and> sa_family sa \<noteq> AF_INET6 then ifc_ips
          else (case getnameinfo os sa of
                  None \<Rightarrow> ifc_ips
                | Some ip \<Rightarrow>
                    (case ifa_name ifa of
                       None \<Rightarrow> ifc_ips
                     | Some name \<Rightarrow>
                         map_push name (takeWhile (\<lambda>c. c \<noteq> CHR ''%'') (c_str ip)) ifc_ips)))"

definition EnumerateNics :: "nic_os \<Rightarrow> (string, string list) hash_map" where
  "EnumerateNics os = (case getifaddrs os of
     None \<Rightarrow> []
   | Some ifas \<Rightarrow> enumerate_ifs os ifas [])"

fun find_nic :: "nic_os \<Rightarrow> IpAddr \<Rightarrow> ifaddr list \<Rightarrow> nat StatusOr res" where
  "find_nic os target [] = Inr (Inl NotFoundStatus)"
| "find_nic os target (ifa # ifas) = (case ifa_addr ifa of
     None \<Rightarrow> find_nic os target ifas
   | Some sa \<Rightarrow>
       if sa_family sa \<noteq> AddressFamily target then find_nic os target ifas
       else if IpAddr_Create_sa sa \<noteq> Some target then find_nic os target ifas
       else rbind (deref (ifa_name ifa)) (\<lambda>name.
         let index = if_nametoindex os name in
         if index > 0 then Inr (Inr index) else Inr (Inl ErrnoStatus)))"

definition FindNic :: "nic_os \<Rightarrow> IpAddr \<Rightarrow> nat StatusOr res" where
  "FindNic os target = (case getifaddrs os of
     None \<Rightarrow> Inr (Inl ErrnoStatus)
   | Some [] \<Rightarrow> Inr (Inl ErrnoStatus)
   | Some (ifa # ifas) \<Rightarrow> find_nic os target (ifa # ifas))"

definition add_routable :: "'a inet_lib_scheme \<Rightarrow> nic_os \<Rightarrow> int \<Rightarrow> string \<times> string list \<Rightarrow>
    (string, util_NicInfo) hash_map \<Rightarrow> (string, util_NicInfo) hash_map" where
  "add_routable L os family = (\<lambda>(ifc, ips) ifc_ips.
     if IsBridgeInterface os ifc then ifc_ips
     else
       let addrs = List.map_filter (\<lambda>ip. GetRoutableIpAddr L ip family) ips in
       if addrs \<noteq> [] then
         AList.update ifc
           \<lparr>uni_type = (if IsRdmaInterface os ifc then kRDMA else kIP), uni_addrs = addrs\<rparr> ifc_ips
       else ifc_ips)"

definition FindRoutableIpAddrs ::
    "'a inet_lib_scheme \<Rightarrow> nic_os \<Rightarrow> int \<Rightarrow> (string, util_NicInfo) hash_map" where
  "FindRoutableIpAddrs L os family = fold (add_routable L os family) (EnumerateNics os) []"

definition SelectAutoBindIp :: "'a inet_lib_scheme \<Rightarrow> (string, util_NicInfo) hash_map \<Rightarrow>
    TransportType \<Rightarrow> string StatusOr res" where
  "SelectAutoBindIp L nics transport =
     rbind (if transport \<noteq> kAny then PickFromNics L nics transport else Inr None) (\<lambda>ip.
       case ip of
         Some s \<Rightarrow> Inr (Inr s)
       | None \<Rightarrow>
           rbind (PickFromNics L nics kAny) (\<lambda>any_ip.
             case any_ip of
               Some s \<Rightarrow> Inr (Inr s)
             | None \<Rightarrow> Inr (Inl NotFoundStatus)))"

fun pick_non_loopback :: "'a inet_lib_scheme \<Rightarrow> int \<Rightarrow> string list \<Rightarrow> IpAddr option" where
  "pick_non_loopback L family [] = None"
| "pick_non_loopback L family (ip # ips) =
     (case GetRoutableIpAddr L ip family of
        None \<Rightarrow> pick_non_loopback L family ips
      | Some a \<Rightarrow> if IsLoopback a then pick_non_loopback L family ips else Some a)"

fun TestOnly_PickOneNonLoopbackIpAddr ::
    "'a inet_lib_scheme \<Rightarrow> nic_os \<Rightarrow> int \<Rightarrow> (string, string list) hash_map \<Rightarrow> IpAddr option" where
  "TestOnly_PickOneNonLoopbackIpAddr L os family [] = None"
| "TestOnly_PickOneNonLoopbackIpAddr L os family ((ifc, ips) # nics) =
     (if IsBridgeInterface os ifc then TestOnly_PickOneNonLoopbackIpAddr L os family nics
      else (case pick_non_loopback L family ips of
              Some a \<Rightarrow> Some a
            | None \<Rightarrow> TestOnly_PickOneNonLoopbackIpAddr L os family nics))"

text \<open>\<^verbatim>\<open>emplace\<close> keeps an entry that is already there.\<close>

definition add_candidate :: "bool \<Rightarrow> string \<times> util_NicInfo \<Rightarrow> (string, NicInfo) hash_map \<Rightarrow>
    (string, NicInfo) hash_map" where
  "add_candidate include_loopback = (\<lambda>(ifc, nis) candidates.
     if uni_type nis = kIP then
       let es = map (\<lambda>ip. \<lparr>ep_ip = ip, ep_port = 0\<rparr>)
                  (filter (\<lambda>ip. include_loopback \<or> \<not> IsLoopback ip) (uni_addrs nis)) in
       if es \<noteq> [] \<and> map_of candidates ifc = None then
         AList.update ifc \<lparr>nic_name = ifc, nic_type = uni_type nis, endpoints = es\<rparr> candidates
       else candidates
     else candidates)"

definition GetTcpListenerCandidates ::
    "'a inet_lib_scheme \<Rightarrow> nic_os \<Rightarrow> bool \<Rightarrow> (string, NicInfo) hash_map" where
  "GetTcpListenerCandidates L os include_loopback =
     fold (add_candidate include_loopback) (FindRoutableIpAddrs L os AF_UNSPEC) []"

section \<open>The address to bind\<close>

lemma pick_addr_Some:
  "pick_addr L v6 as = Some s \<Longrightarrow>
     \<exists>a \<in> set as. \<not> IsLoopback a \<and> IsIPv6 a = v6 \<and> s = IpAddr_ToString L a"
  by (induction as) (auto split: if_splits)

lemma pick_addr_None:
  "pick_addr L v6 as = None \<longleftrightarrow> (\<forall>a \<in> set as. IsLoopback a \<or> IsIPv6 a \<noteq> v6)"
  by (induction as) auto

lemma pick_nic_cong:
  "(\<And>n. map_of m n = map_of m' n) \<Longrightarrow> pick_nic L v6 m ns = pick_nic L v6 m' ns"
proof (induction ns)
  case (Cons n ns)
  then have "map_at m n = map_at m' n" by (simp add: map_at_def)
  then show ?case unfolding pick_nic.simps Cons.IH [OF Cons.prems] by simp
qed simp

lemma pick_nic_total:
  "set ns \<subseteq> dom (map_of m) \<Longrightarrow> \<exists>r. pick_nic L v6 m ns = Inr r"
  by (induction ns) (auto split: option.splits)

lemma pick_nic_Some:
  "pick_nic L v6 m ns = Inr (Some s) \<Longrightarrow>
     \<exists>n \<in> set ns. \<exists>info. map_of m n = Some info \<and> pick_addr L v6 (uni_addrs info) = Some s"
  by (induction ns) (auto simp: res_simps split: option.splits)

lemma pick_nic_None:
  "pick_nic L v6 m ns = Inr None \<Longrightarrow> n \<in> set ns \<Longrightarrow> map_of m n = Some info \<Longrightarrow>
     pick_addr L v6 (uni_addrs info) = None"
  by (induction ns) (auto simp: res_simps split: option.splits)

definition matching :: "(string, util_NicInfo) hash_map \<Rightarrow> TransportType \<Rightarrow> IpAddr set" where
  "matching nics t = {a. \<exists>n info. (n, info) \<in> set nics \<and> MatchesTransport (uni_type info) t \<and>
     a \<in> set (uni_addrs info) \<and> \<not> IsLoopback a}"

lemma PickFromNics_result:
  assumes "wf_map nics"
  shows "\<exists>r. PickFromNics L nics t = Inr r \<and>
    (case r of
       None \<Rightarrow> matching nics t = {}
     | Some s \<Rightarrow> \<exists>a \<in> matching nics t. s = IpAddr_ToString L a \<and>
         (IsIPv6 a \<or> (\<forall>b \<in> matching nics t. \<not> IsIPv6 b)))"
proof -
  let ?ns = "sort (map fst (filter (\<lambda>(n, info). MatchesTransport (uni_type info) t) nics))"
  have names: "n \<in> set ?ns \<longleftrightarrow> (\<exists>info. map_of nics n = Some info \<and> MatchesTransport (uni_type info) t)" for n
    using assms by (force simp: wf_map_in_set [symmetric])
  then have dom: "set ?ns \<subseteq> dom (map_of nics)" by blast
  have some: "\<exists>a \<in> matching nics t. IsIPv6 a = v6 \<and> s = IpAddr_ToString L a"
    if "pick_nic L v6 nics ?ns = Inr (Some s)" for v6 s
  proof -
    from pick_nic_Some [OF that] obtain n info where n: "n \<in> set ?ns" "map_of nics n = Some info"
      "pick_addr L v6 (uni_addrs info) = Some s" by blast
    from pick_addr_Some [OF n(3)] obtain a where "a \<in> set (uni_addrs info)" "\<not> IsLoopback a"
      "IsIPv6 a = v6" "s = IpAddr_ToString L a" by blast
    with n names show ?thesis
      using assms by (auto simp: matching_def wf_map_in_set)
  qed
  have none: "\<forall>b \<in> matching nics t. IsIPv6 b \<noteq> v6"
    if "pick_nic L v6 nics ?ns = Inr None" for v6
    using that assms names pick_nic_None [OF that] unfolding pick_addr_None
    by (fastforce simp: matching_def wf_map_in_set)
  obtain r6 where r6: "pick_nic L True nics ?ns = Inr r6" using pick_nic_total [OF dom] by blast
  obtain r4 where r4: "pick_nic L False nics ?ns = Inr r4" using pick_nic_total [OF dom] by blast
  show ?thesis
    using r6 r4 some none unfolding PickFromNics_def Let_def
    by (cases r6; cases r4) (auto, metis+)
qed

lemma PickFromNics_order:
  assumes "wf_map nics" "wf_map nics'" "set nics = set nics'"
  shows "PickFromNics L nics t = PickFromNics L nics' t"
proof -
  let ?ns = "\<lambda>m. map fst (filter (\<lambda>(n, info). MatchesTransport (uni_type info) t) m)"
  have m: "map_of nics n = map_of nics' n" for n
    using assms by (metis map_of_SomeD not_None_eq wf_map_in_set)
  have "distinct (?ns m)" if "wf_map m" for m
    using that by (simp add: wf_map_def distinct_map_filter)
  moreover have "set (?ns nics) = set (?ns nics')" using assms(3) by simp
  ultimately have "sort (?ns nics) = sort (?ns nics')"
    using assms(1,2) by (intro sorted_distinct_set_unique) simp_all
  then show ?thesis
    unfolding PickFromNics_def Let_def pick_nic_cong [of nics nics', OF m] by simp
qed

text \<open>
  The address to bind is determined by the interfaces alone: the order in which the
  hash map lists them does not matter. The call always returns; it reports
  \<^verbatim>\<open>NotFound\<close> only if no interface has a non-loopback address, otherwise the text of a
  non-loopback address, of an interface of the wanted transport if there is one, and an
  IPv6 address if the interfaces it chose from have one.
\<close>
theorem auto_bind_deterministic:
  assumes "wf_map nics" "wf_map nics'" "set nics = set nics'"
  shows "SelectAutoBindIp L nics t = SelectAutoBindIp L nics' t \<and>
    (\<exists>r. SelectAutoBindIp L nics t = Inr r \<and>
      (let c = (if matching nics t = {} then matching nics kAny else matching nics t) in
       case r of
         Inl e \<Rightarrow> c = {}
       | Inr s \<Rightarrow> \<exists>a \<in> c. s = IpAddr_ToString L a \<and> (IsIPv6 a \<or> (\<forall>b \<in> c. \<not> IsIPv6 b))))"
proof (rule conjI)
  show "SelectAutoBindIp L nics t = SelectAutoBindIp L nics' t"
    unfolding SelectAutoBindIp_def PickFromNics_order [OF assms] ..
next
  obtain r where r: "PickFromNics L nics t = Inr r" "case r of
       None \<Rightarrow> matching nics t = {}
     | Some s \<Rightarrow> \<exists>a \<in> matching nics t. s = IpAddr_ToString L a \<and>
         (IsIPv6 a \<or> (\<forall>b \<in> matching nics t. \<not> IsIPv6 b))"
    using PickFromNics_result [OF assms(1)] by blast
  obtain q where q: "PickFromNics L nics kAny = Inr q" "case q of
       None \<Rightarrow> matching nics kAny = {}
     | Some s \<Rightarrow> \<exists>a \<in> matching nics kAny. s = IpAddr_ToString L a \<and>
         (IsIPv6 a \<or> (\<forall>b \<in> matching nics kAny. \<not> IsIPv6 b))"
    using PickFromNics_result [OF assms(1)] by blast
  have "SelectAutoBindIp L nics t = Inr (case (if t \<noteq> kAny then r else None) of
      Some s \<Rightarrow> Inr s | None \<Rightarrow> (case q of Some s \<Rightarrow> Inr s | None \<Rightarrow> Inl NotFoundStatus))"
    using r(1) q(1) by (cases r; cases q) (simp_all add: SelectAutoBindIp_def)
  then show "\<exists>r. SelectAutoBindIp L nics t = Inr r \<and>
      (let c = (if matching nics t = {} then matching nics kAny else matching nics t) in
       case r of
         Inl e \<Rightarrow> c = {}
       | Inr s \<Rightarrow> \<exists>a \<in> c. s = IpAddr_ToString L a \<and> (IsIPv6 a \<or> (\<forall>b \<in> c. \<not> IsIPv6 b)))"
    using r(2) q(2) by (cases r; cases q; cases "t = kAny") (auto simp: Let_def)
qed

definition demo_nics :: "(string, util_NicInfo) hash_map" where
  "demo_nics = [
     (''lo'', \<lparr>uni_type = kIP, uni_addrs = [IPv4 0x0100007F]\<rparr>),
     (''eth1'', \<lparr>uni_type = kIP, uni_addrs = [IPv4 0x0200000A]\<rparr>),
     (''eth0'', \<lparr>uni_type = kIP, uni_addrs = [IPv4 0x0100000A]\<rparr>)]"

theorem auto_bind_deterministic_witness:
  "wf_map demo_nics \<and> wf_map (rev demo_nics) \<and> set demo_nics = set (rev demo_nics) \<and>
   SelectAutoBindIp demo_lib demo_nics kTcp = SelectAutoBindIp demo_lib (rev demo_nics) kTcp"
proof -
  have wf: "wf_map demo_nics" "wf_map (rev demo_nics)"
    by (simp_all add: wf_map_def demo_nics_def)
  with auto_bind_deterministic [OF wf, of demo_lib kTcp] show ?thesis by simp
qed

section \<open>Interface enumeration\<close>

lemma GetRoutableIpAddr_Some:
  "GetRoutableIpAddr L ip family = Some a \<Longrightarrow>
     IsRoutable a \<and> (family = AF_UNSPEC \<or> AddressFamily a = family)"
  by (auto simp: GetRoutableIpAddr_def Let_def AddressFamily_def
      split: if_splits option.splits)

definition routable_table :: "nic_os \<Rightarrow> int \<Rightarrow> (string, util_NicInfo) hash_map \<Rightarrow> bool" where
  "routable_table os family m \<longleftrightarrow> wf_map m \<and>
     (\<forall>ifc info. map_of m ifc = Some info \<longrightarrow>
        \<not> IsBridgeInterface os ifc \<and>
        uni_type info = (if IsRdmaInterface os ifc then kRDMA else kIP) \<and>
        uni_addrs info \<noteq> [] \<and>
        (\<forall>a \<in> set (uni_addrs info). IsRoutable a \<and> (family = AF_UNSPEC \<or> AddressFamily a = family)))"

lemma routable_addrs:
  assumes "a \<in> set (List.map_filter (\<lambda>ip. GetRoutableIpAddr L ip family) ips)"
  shows "IsRoutable a \<and> (family = AF_UNSPEC \<or> AddressFamily a = family)"
  using assms GetRoutableIpAddr_Some [of L _ family a] by (auto simp: map_filter_def)

lemma add_routable_table:
  assumes "routable_table os family m"
  shows "routable_table os family (add_routable L os family x m)"
proof (cases x)
  case (Pair ifc ips)
  then show ?thesis
    using assms routable_addrs [of _ L family ips] unfolding routable_table_def
    by (simp add: add_routable_def Let_def)
qed

lemma FindRoutableIpAddrs_table: "routable_table os family (FindRoutableIpAddrs L os family)"
  unfolding FindRoutableIpAddrs_def
  by (rule fold_invariant) (simp_all add: add_routable_table, simp add: routable_table_def)

definition candidate_ok :: "bool \<Rightarrow> string \<Rightarrow> NicInfo \<Rightarrow> bool" where
  "candidate_ok lb ifc nic \<longleftrightarrow> nic_name nic = ifc \<and> nic_type nic = kIP \<and> endpoints nic \<noteq> [] \<and>
     list_all (\<lambda>e. HasZeroPort e \<and> IsRoutable (ep_ip e) \<and> (lb \<or> \<not> IsLoopback (ep_ip e)))
       (endpoints nic)"

lemma add_candidate_ok:
  assumes "\<forall>a \<in> set (uni_addrs (snd x)). IsRoutable a"
    "\<forall>ifc nic. map_of c ifc = Some nic \<longrightarrow> candidate_ok lb ifc nic"
  shows "\<forall>ifc nic. map_of (add_candidate lb x c) ifc = Some nic \<longrightarrow> candidate_ok lb ifc nic"
proof (cases x)
  case (Pair ifc nis)
  let ?es = "map (\<lambda>ip. \<lparr>ep_ip = ip, ep_port = 0\<rparr>)
    (filter (\<lambda>ip. lb \<or> \<not> IsLoopback ip) (uni_addrs nis))"
  have "?es \<noteq> [] \<Longrightarrow> uni_type nis = kIP \<Longrightarrow>
      candidate_ok lb ifc \<lparr>nic_name = ifc, nic_type = uni_type nis, endpoints = ?es\<rparr>"
    using assms(1) Pair by (auto simp: candidate_ok_def list_all_iff HasZeroPort_def)
  then show ?thesis
    using assms(2) unfolding Pair add_candidate_def Let_def by auto
qed

text \<open>
  Every interface the enumeration offers is a non-bridge interface with at least one
  address, is typed by its InfiniBand entry in sysfs, and all its addresses are routable
  and of the requested family; the candidates for TCP listeners are among them, with port
  zero, and without loopback addresses unless these are asked for.
\<close>
theorem listener_candidates_sound:
  "routable_table os family (FindRoutableIpAddrs L os family) \<and>
   (\<forall>ifc nic. map_of (GetTcpListenerCandidates L os lb) ifc = Some nic \<longrightarrow> candidate_ok lb ifc nic)"
proof -
  have "\<forall>x \<in> set (FindRoutableIpAddrs L os AF_UNSPEC). \<forall>a \<in> set (uni_addrs (snd x)). IsRoutable a"
    using FindRoutableIpAddrs_table [of os AF_UNSPEC L]
    by (auto simp: routable_table_def wf_map_in_set)
  then have "\<forall>ifc nic. map_of (GetTcpListenerCandidates L os lb) ifc = Some nic \<longrightarrow>
      candidate_ok lb ifc nic"
    unfolding GetTcpListenerCandidates_def
    by (intro fold_invariant [where P = "\<lambda>c. \<forall>ifc nic. map_of c ifc = Some nic \<longrightarrow> candidate_ok lb ifc nic"]
        add_candidate_ok) auto
  with FindRoutableIpAddrs_table show ?thesis by blast
qed

definition demo_os :: nic_os where
  "demo_os = \<lparr>
     getifaddrs = Some [
       \<lparr>ifa_name = Some ''lo'', ifa_addr = Some (sockaddr_in 0 0x0100007F)\<rparr>,
       \<lparr>ifa_name = Some ''eth0'', ifa_addr = Some (sockaddr_in 0 0x0100000A)\<rparr>],
     getnameinfo = \<lambda>sa. Some (digits 10 10 (unat (sin_addr sa))),
     access = \<lambda>path. False,
     if_nametoindex = \<lambda>name. 1\<rparr>"

definition demo_candidate :: NicInfo where
  "demo_candidate = \<lparr>nic_name = ''eth0'', nic_type = kIP,
     endpoints = [\<lparr>ep_ip = IPv4 0x0100000A, ep_port = 0\<rparr>]\<rparr>"

lemma digits_plain:
  "c_str (digits 10 k v) = digits 10 k v" "takeWhile (\<lambda>c. c \<noteq> CHR ''%'') (digits 10 k v) = digits 10 k v"
proof -
  have "take 10 ''0123456789abcdef'' = ''0123456789''" by simp
  then have chars: "set (digits 10 k v) \<subseteq> set ''0123456789''"
    using digits_chars [of 10 k v] by (simp only:)
  have "CHR 0x00 \<notin> set ''0123456789''" "CHR ''%'' \<notin> set ''0123456789''" by simp_all
  note n = this [THEN contra_subsetD [OF chars]]
  show "c_str (digits 10 k v) = digits 10 k v" using n(1) by (rule c_str_id)
  show "takeWhile (\<lambda>c. c \<noteq> CHR ''%'') (digits 10 k v) = digits 10 k v"
    using n(2) by (rule takeWhile_not_in)
qed

lemma demo_routable:
  assumes "IsRoutable (IPv4 a)"
  shows "GetRoutableIpAddr demo_lib (digits 10 10 (unat a)) AF_UNSPEC = Some (IPv4 a)"
proof -
  have "undigits 10 (digits 10 10 (unat a)) = unat a"
    using unat_u32_less [of a] by (intro undigits_digits) simp_all
  then show ?thesis
    using assms by (simp add: GetRoutableIpAddr_def digits_plain demo_lib_def)
qed

lemma demo_candidates:
  "GetTcpListenerCandidates demo_lib demo_os False = [(''eth0'', demo_candidate)]"
proof -
  have r: "IsRoutable (IPv4 0x0100007F)" "IsLoopback (IPv4 0x0100007F)"
    "IsRoutable (IPv4 0x0100000A)" "\<not> IsLoopback (IPv4 0x0100000A)"
    by code_simp+
  have "EnumerateNics demo_os = [(''lo'', [digits 10 10 (unat (0x0100007F :: u32))]),
      (''eth0'', [digits 10 10 (unat (0x0100000A :: u32))])]"
    by (simp add: EnumerateNics_def demo_os_def map_push_def digits_plain
        del: unat_numeral unsigned_numeral)
  then have "FindRoutableIpAddrs demo_lib demo_os AF_UNSPEC =
      [(''lo'', \<lparr>uni_type = kIP, uni_addrs = [IPv4 0x0100007F]\<rparr>),
       (''eth0'', \<lparr>uni_type = kIP, uni_addrs = [IPv4 0x0100000A]\<rparr>)]"
    using demo_routable [OF r(1)] demo_routable [OF r(3)]
    by (simp add: FindRoutableIpAddrs_def add_routable_def map_filter_def IsBridgeInterface_def
        IsRdmaInterface_def Exists_def demo_os_def del: unat_numeral unsigned_numeral)
  then show ?thesis
    using r by (simp add: GetTcpListenerCandidates_def add_candidate_def demo_candidate_def)
qed

theorem listener_candidates_sound_witness:
  "map_of (GetTcpListenerCandidates demo_lib demo_os False) ''eth0'' = Some demo_candidate \<and>
   candidate_ok False ''eth0'' demo_candidate"
  using listener_candidates_sound [of demo_os AF_UNSPEC demo_lib False] demo_candidates by simp

end
