(* ===== verification/TcpManager.thy ===== *)
theory TcpManager
  imports Socket Nic
begin

text \<open>
  \<^verbatim>\<open>internal/event/poller\<close>, \<^verbatim>\<open>internal/socket/tcp_manager_base\<close> and \<^verbatim>\<open>tcp_manager\<close>: listening for and making TCP
  connections. The manager owns its sockets: a listener, a connector (a connection in
  progress), or a produced socket, incoming or outgoing, until the engine takes it. A socket
  that is dropped is destroyed by its smart pointer, which closes its descriptor; \<open>drop_sock\<close> is
  that. epoll, \<^verbatim>\<open>poll\<close> and the clock are the record \<open>event_os\<close>. The thread in \<^verbatim>\<open>Start\<close> is a sequence of
  iterations; \<^verbatim>\<open>Connect\<close>, \<^verbatim>\<open>Stop\<close> and the getters run between them.
\<close>

section \<open>Events\<close>

datatype duration = Dur int | InfiniteDuration

primrec dur_add :: "int \<Rightarrow> duration \<Rightarrow> duration" where
  "dur_add now (Dur d) = Dur (now + d)"
| "dur_add now InfiniteDuration = InfiniteDuration"

primrec dur_expired :: "int \<Rightarrow> duration \<Rightarrow> bool" where
  "dur_expired now (Dur d) = (d \<le> now)"
| "dur_expired now InfiniteDuration = False"

record 'k event_os =
  ev_create :: "'k \<Rightarrow> int \<times> 'k"
  ev_ctl_add :: "int \<Rightarrow> int \<Rightarrow> u32 \<Rightarrow> 'k \<Rightarrow> int \<times> 'k"
  ev_ctl_del :: "int \<Rightarrow> int \<Rightarrow> 'k \<Rightarrow> int \<times> 'k"
  ev_wait :: "int \<Rightarrow> int \<Rightarrow> int \<Rightarrow> 'k \<Rightarrow> int \<times> int \<times> (int \<times> u32) list \<times> 'k"
  ev_poll :: "int \<Rightarrow> int \<Rightarrow> 'k \<Rightarrow> int \<times> 'k"
  ev_now :: "'k \<Rightarrow> int \<times> 'k"

definition EPOLLIN :: u32 where "EPOLLIN = 0x001"
definition EPOLLOUT :: u32 where "EPOLLOUT = 0x004"
definition EPOLLERR :: u32 where "EPOLLERR = 0x008"
definition EPOLLHUP :: u32 where "EPOLLHUP = 0x010"
definition EPOLLRDHUP :: u32 where "EPOLLRDHUP = 0x2000"

definition kIncomingEvents :: u32 where "kIncomingEvents = EPOLLIN"
definition kOutgoingEvents :: u32 where "kOutgoingEvents = EPOLLOUT OR EPOLLRDHUP"
definition kTcpListenBacklog :: int where "kTcpListenBacklog = 8192"
definition kEpollMaxNumEvents :: int where "kEpollMaxNumEvents = 128"
definition kEpollWaitTimeoutMs :: int where "kEpollWaitTimeoutMs = 100"

definition Poller_Create :: "'k event_os \<Rightarrow> 'k \<Rightarrow> int option \<times> 'k" where
  "Poller_Create ev k = (let (ret, k1) = ev_create ev k in if ret < 0 then (None, k1) else (Some ret, k1))"

definition Poller_destroy :: "'k sock_os \<Rightarrow> int \<Rightarrow> 'k \<Rightarrow> 'k res" where
  "Poller_destroy os epfd k = dcheck (0 \<le> epfd) (Inr (os_close os epfd k))"

definition Register :: "'k event_os \<Rightarrow> int \<Rightarrow> int \<Rightarrow> u32 \<Rightarrow> 'k \<Rightarrow> int \<times> 'k" where
  "Register ev epfd fd events k =
     (let (ret, k1) = ev_ctl_add ev epfd fd events k in (if ret < 0 then - 1 else 0, k1))"

definition Unregister :: "'k event_os \<Rightarrow> int \<Rightarrow> int \<Rightarrow> 'k \<Rightarrow> int \<times> 'k" where
  "Unregister ev epfd fd k = (let (ret, k1) = ev_ctl_del ev epfd fd k in (if ret < 0 then - 1 else 0, k1))"

definition BlockingWait :: "'k event_os \<Rightarrow> int \<Rightarrow> int \<Rightarrow> int \<Rightarrow> 'k \<Rightarrow> (int \<times> (int \<times> u32) list \<times> 'k) res" where
  "BlockingWait ev epfd max_events timeout_ms k =
     dcheck (1 \<le> max_events)
       (let (nfds, err, events, k1) = ev_wait ev epfd max_events timeout_ms k in
        if nfds < 0 \<and> err = EINTR then Inr (0, [], k1) else Inr (nfds, events, k1))"

section \<open>Containers of sockets\<close>

definition drop_sock :: "'k sock_os \<Rightarrow> Sock \<Rightarrow> 'a \<Rightarrow> 'k \<Rightarrow> ('a \<times> 'k) res" where
  "drop_sock os s r k = rbind (Sock_destroy os s k) (\<lambda>k1. Inr (r, k1))"

fun drop_socks :: "'k sock_os \<Rightarrow> Sock list \<Rightarrow> 'k \<Rightarrow> 'k res" where
  "drop_socks os [] k = Inr k"
| "drop_socks os (s # ss) k = rbind (Sock_destroy os s k) (drop_socks os ss)"

record Listener =
  l_socket :: Sock
  l_endpoint :: Endpoint

record Connector =
  c_socket :: Sock
  c_expiration :: duration

type_synonym Listeners = "(int, Listener) hash_map"

record Connectors =
  cs_sealed :: bool
  fd2cs :: "(int, Connector) hash_map"

record Produced =
  ps_sealed :: bool
  ps_sockets :: "Sock list"

definition IsPair :: "int \<Rightarrow> Sock \<Rightarrow> bool" where "IsPair fd s \<longleftrightarrow> fd = sk_fd s"

definition IsPairAndNonBlocking :: "'k sock_os \<Rightarrow> int \<Rightarrow> Sock \<Rightarrow> 'k \<Rightarrow> bool" where
  "IsPairAndNonBlocking os fd s k \<longleftrightarrow> IsPair fd s \<and> Sock_IsNonBlocking os s k = Inr True"

definition Listeners_Invariant :: "'k sock_os \<Rightarrow> Listeners \<Rightarrow> 'k \<Rightarrow> bool" where
  "Listeners_Invariant os ls k = list_all (\<lambda>(fd, l). IsPairAndNonBlocking os fd (l_socket l) k \<and>
     l_endpoint l = SelfEndpoint os fd k \<and> HasNonzeroIpPort (l_endpoint l)) ls"

definition Listeners_Get :: "int \<Rightarrow> Listeners \<Rightarrow> Sock option" where
  "Listeners_Get fd ls = map_option l_socket (map_of ls fd)"

definition Listeners_Find :: "Endpoint \<Rightarrow> Listeners \<Rightarrow> Listener option" where
  "Listeners_Find e ls = find (\<lambda>l. l_endpoint l = e) (map snd ls)"

definition Listeners_Remove :: "'k sock_os \<Rightarrow> int \<Rightarrow> Listeners \<Rightarrow> 'k \<Rightarrow> (Listeners \<times> 'k) res" where
  "Listeners_Remove os fd ls k = (case map_of ls fd of
     None \<Rightarrow> Inr (ls, k)
   | Some l \<Rightarrow> drop_sock os (l_socket l) (AList.delete fd ls) k)"

fun Listeners_Shutdown :: "'k sock_os \<Rightarrow> Listeners \<Rightarrow> 'k \<Rightarrow> (Listeners \<times> 'k) res" where
  "Listeners_Shutdown os [] k = Inr ([], k)"
| "Listeners_Shutdown os ((fd, l) # ls) k =
     rbind (Sock_Shutdown os (l_socket l) k) (\<lambda>(s1, k1).
       rbind (Listeners_Shutdown os ls k1) (\<lambda>(ls1, k2). Inr ((fd, l\<lparr>l_socket := s1\<rparr>) # ls1, k2)))"

definition Listeners_Close :: "'k sock_os \<Rightarrow> Listeners \<Rightarrow> 'k \<Rightarrow> (Listeners \<times> 'k) res" where
  "Listeners_Close os ls k = rbind (drop_socks os (map (l_socket \<circ> snd) ls) k) (\<lambda>k1. Inr ([], k1))"

definition Connectors_Invariant :: "'k sock_os \<Rightarrow> Connectors \<Rightarrow> 'k \<Rightarrow> bool" where
  "Connectors_Invariant os cs k = list_all (\<lambda>(fd, c). IsPairAndNonBlocking os fd (c_socket c) k) (fd2cs cs)"

definition Connectors_Seal :: "Connectors \<Rightarrow> Connectors" where "Connectors_Seal cs = cs\<lparr>cs_sealed := True\<rparr>"

text \<open>\<open>on_add\<close> runs under the lock, and only when the socket can be added.\<close>

definition Connectors_Add :: "'k sock_os \<Rightarrow> int \<Rightarrow> Connector \<Rightarrow> (int \<Rightarrow> 'k \<Rightarrow> bool \<times> 'k) \<Rightarrow> Connectors \<Rightarrow> 'k \<Rightarrow>
    ((bool \<times> Connectors) \<times> 'k) res" where
  "Connectors_Add os fd connector on_add cs k =
     dcheck (fd = sk_fd (c_socket connector))
       (dcheck (\<not> sk_connected (c_socket connector))
         (if \<not> cs_sealed cs \<and> map_of (fd2cs cs) fd = None then
            let (added, k1) = on_add fd k in
            if added then Inr ((True, cs\<lparr>fd2cs := fd2cs cs @ [(fd, connector)]\<rparr>), k1)
            else drop_sock os (c_socket connector) (False, cs) k1
          else drop_sock os (c_socket connector) (False, cs) k))"

definition Connectors_Remove :: "int \<Rightarrow> Connectors \<Rightarrow> (Sock option \<times> Connectors) res" where
  "Connectors_Remove fd cs = (case map_of (fd2cs cs) fd of
     None \<Rightarrow> Inr (None, cs)
   | Some c \<Rightarrow> dcheck (\<not> sk_connected (c_socket c))
       (Inr (Some (c_socket c), cs\<lparr>fd2cs := AList.delete fd (fd2cs cs)\<rparr>)))"

fun remove_expired :: "int \<Rightarrow> (int, Connector) hash_map \<Rightarrow> (Connector list \<times> (int, Connector) hash_map) res" where
  "remove_expired now [] = Inr ([], [])"
| "remove_expired now ((fd, c) # cs) =
     (if dur_expired now (c_expiration c) then
        dcheck (\<not> sk_connected (c_socket c))
          (rbind (remove_expired now cs) (\<lambda>(ex, rest). Inr (c # ex, rest)))
      else rbind (remove_expired now cs) (\<lambda>(ex, rest). Inr (ex, (fd, c) # rest)))"

definition RemoveExpired :: "int \<Rightarrow> Connectors \<Rightarrow> (Connector list \<times> Connectors) res" where
  "RemoveExpired now cs = rbind (remove_expired now (fd2cs cs)) (\<lambda>(ex, rest). Inr (ex, cs\<lparr>fd2cs := rest\<rparr>))"

definition Connectors_Close :: "'k sock_os \<Rightarrow> Connectors \<Rightarrow> 'k \<Rightarrow> (Connectors \<times> 'k) res" where
  "Connectors_Close os cs k = dcheck (cs_sealed cs)
     (rbind (drop_socks os (map (c_socket \<circ> snd) (fd2cs cs)) k) (\<lambda>k1. Inr (cs\<lparr>fd2cs := []\<rparr>, k1)))"

definition Produced_Invariant :: "Produced \<Rightarrow> bool" where
  "Produced_Invariant ps = list_all sk_connected (ps_sockets ps)"

definition Produced_Seal :: "Produced \<Rightarrow> Produced" where "Produced_Seal ps = ps\<lparr>ps_sealed := True\<rparr>"

definition Produced_Add :: "'k sock_os \<Rightarrow> Sock \<Rightarrow> Produced \<Rightarrow> 'k \<Rightarrow> ((bool \<times> Produced) \<times> 'k) res" where
  "Produced_Add os s ps k = dcheck (sk_connected s)
     (if \<not> ps_sealed ps then Inr ((True, ps\<lparr>ps_sockets := ps_sockets ps @ [s]\<rparr>), k)
      else drop_sock os s (False, ps) k)"

definition MoveAll :: "Produced \<Rightarrow> Sock list \<times> Produced" where
  "MoveAll ps = (ps_sockets ps, ps\<lparr>ps_sockets := []\<rparr>)"

definition Produced_Close :: "'k sock_os \<Rightarrow> Produced \<Rightarrow> 'k \<Rightarrow> (Produced \<times> 'k) res" where
  "Produced_Close os ps k = dcheck (ps_sealed ps)
     (rbind (drop_socks os (ps_sockets ps) k) (\<lambda>k1. Inr (ps\<lparr>ps_sockets := []\<rparr>, k1)))"

section \<open>The manager\<close>

record TcpManager =
  tm_self :: HostInfo
  tm_stop :: bool
  tm_poller :: int
  listeners :: Listeners
  connectors :: Connectors
  incoming :: Produced
  outgoing :: Produced

definition TcpManager_invariant :: "'k sock_os \<Rightarrow> TcpManager \<Rightarrow> 'k \<Rightarrow> bool" where
  "TcpManager_invariant os m k \<longleftrightarrow> HostInfo_IsDataPlaneValid (tm_self m) \<and> Listeners_Invariant os (listeners m) k \<and>
     Connectors_Invariant os (connectors m) k \<and> Produced_Invariant (incoming m) \<and> Produced_Invariant (outgoing m)"

definition isStopped :: "TcpManager \<Rightarrow> bool" where "isStopped m = tm_stop m"

definition createListener :: "'k sock_os \<Rightarrow> 'k event_os \<Rightarrow> int \<Rightarrow> Endpoint \<Rightarrow> 'k \<Rightarrow> ((Sock option \<times> Endpoint) \<times> 'k) res" where
  "createListener os ev epfd endpoint k =
     dcheck (\<not> HasZeroIpAddr endpoint)
       (rbind (TcpSocket_Create os (AddressFamily (ep_ip endpoint)) False k) (\<lambda>(so, k1). case so of
          None \<Rightarrow> Inr ((None, endpoint), k1)
        | Some s \<Rightarrow>
            dcheck (Sock_IsNonBlocking os s k1 = Inr True)
              (rbind (TcpSocket_Listen os s endpoint kTcpListenBacklog k1) (\<lambda>(ret, k2).
                 if ret < 0 then drop_sock os s (None, endpoint) k2
                 else
                   let e = SelfEndpoint os (sk_fd s) k2 in
                   if \<not> HasNonzeroIpPort e then drop_sock os s (None, endpoint) k2
                   else
                     let (ret, k3) = Register ev epfd (sk_fd s) kIncomingEvents k2 in
                     if ret < 0 then drop_sock os s (None, endpoint) k3
                     else Inr ((Some s, e), k3)))))"

fun listen_endpoints :: "'k sock_os \<Rightarrow> 'k event_os \<Rightarrow> int \<Rightarrow> Endpoint list \<Rightarrow> Listeners \<Rightarrow> NicInfo \<Rightarrow> 'k \<Rightarrow>
    ((Listeners \<times> NicInfo) \<times> 'k) res" where
  "listen_endpoints os ev epfd [] ls nic k = Inr ((ls, nic), k)"
| "listen_endpoints os ev epfd (e # es) ls nic k =
     rbind (createListener os ev epfd e k) (\<lambda>((so, e1), k1). case so of
       None \<Rightarrow> listen_endpoints os ev epfd es ls nic k1
     | Some s \<Rightarrow>
         dcheck (HasNonzeroIpPort e1)
           (dcheck (e1 = SelfEndpoint os (sk_fd s) k1)
             (dcheck (map_of ls (sk_fd s) = None)
               (listen_endpoints os ev epfd es (ls @ [(sk_fd s, \<lparr>l_socket = s, l_endpoint = e1\<rparr>)])
                 (nic\<lparr>endpoints := endpoints nic @ [e1]\<rparr>) k1))))"

fun listen_candidates :: "'k sock_os \<Rightarrow> 'k event_os \<Rightarrow> int \<Rightarrow> NicInfo list \<Rightarrow> Listeners \<Rightarrow> HostInfo \<Rightarrow> 'k \<Rightarrow>
    ((Listeners \<times> HostInfo) \<times> 'k) res" where
  "listen_candidates os ev epfd [] ls host k = Inr ((ls, host), k)"
| "listen_candidates os ev epfd (ni # nis) ls host k =
     rbind (listen_endpoints os ev epfd (endpoints ni) ls \<lparr>nic_name = nic_name ni, nic_type = nic_type ni, endpoints = []\<rparr> k)
       (\<lambda>((ls1, nic), k1).
          listen_candidates os ev epfd nis ls1
            (if NicInfo_IsValid nic then host\<lparr>data_plane_listeners := data_plane_listeners host @ [nic]\<rparr> else host) k1)"

definition TcpManager_new :: "'k sock_os \<Rightarrow> HostInfo \<Rightarrow> int \<Rightarrow> Listeners \<Rightarrow> 'k \<Rightarrow> TcpManager res" where
  "TcpManager_new os self epfd ls k =
     (let m = \<lparr>tm_self = self, tm_stop = False, tm_poller = epfd, listeners = ls,
        connectors = \<lparr>cs_sealed = False, fd2cs = []\<rparr>, incoming = \<lparr>ps_sealed = False, ps_sockets = []\<rparr>,
        outgoing = \<lparr>ps_sealed = False, ps_sockets = []\<rparr>\<rparr>
      in dcheck (Listeners_Invariant os ls k) (dcheck (TcpManager_invariant os m k) (Inr m)))"

definition TcpManager_Create :: "'a inet_lib_scheme \<Rightarrow> nic_os \<Rightarrow> 'k sock_os \<Rightarrow> 'k event_os \<Rightarrow> HostInfo \<Rightarrow> 'k \<Rightarrow>
    ((TcpManager option \<times> HostInfo) \<times> 'k) res" where
  "TcpManager_Create L nos os ev self k =
     (let (poller, k1) = Poller_Create ev k in case poller of
        None \<Rightarrow> Inr ((None, self), k1)
      | Some epfd \<Rightarrow>
          let candidates = GetTcpListenerCandidates L nos (IsLoopback (ep_ip (control_plane_listener self))) in
          if candidates = [] then rbind (Poller_destroy os epfd k1) (\<lambda>k2. Inr ((None, self), k2))
          else
            rbind (listen_candidates os ev epfd (map snd candidates) [] self k1) (\<lambda>((ls, host), k2).
              if ls = [] \<or> \<not> HostInfo_IsDataPlaneValid host then
                rbind (drop_socks os (map (l_socket \<circ> snd) ls) k2) (\<lambda>k3.
                  rbind (Poller_destroy os epfd k3) (\<lambda>k4. Inr ((None, self), k4)))
              else rbind (TcpManager_new os host epfd ls k2) (\<lambda>m. Inr ((Some m, host), k2))))"

section \<open>Connecting\<close>

definition connectSync :: "'k sock_os \<Rightarrow> 'k event_os \<Rightarrow> Sock \<Rightarrow> Endpoint \<Rightarrow> int \<Rightarrow> 'k \<Rightarrow> (Sock option \<times> 'k) res" where
  "connectSync os ev s peer timeout_ms k =
     dcheck (MatchesBlocking os s k \<and> (sk_blocking s \<and> timeout_ms \<le> 0 \<or> \<not> sk_blocking s \<and> 0 < timeout_ms))
       (dcheck (HasNonzeroIpPort peer)
         (rbind (TcpSocket_Connect os s peer k) (\<lambda>(ret, s1, k1).
            let finish = (\<lambda>s k. dcheck (sk_connected s)
                  (rbind (SetBlocking os True s k) (\<lambda>(ret, s1, k1).
                     if ret < 0 then drop_sock os s1 None k1 else Inr (Some s1, k1))))
            in if ret = kConnectError then drop_sock os s1 None k1
               else if ret = kConnectInProgress then
                 dcheck (1 \<le> timeout_ms)
                   (dcheck (Sock_IsNonBlocking os s1 k1 = Inr True)
                     (dcheck (\<not> sk_connected s1)
                       (let (n, k2) = ev_poll ev (sk_fd s1) timeout_ms k1 in
                        if n \<le> 0 then drop_sock os s1 None k2
                        else
                          let (err, k3) = GetSocketError os (sk_fd s1) k2 in
                          if err \<noteq> 0 then drop_sock os s1 None k3 else finish (SetConnected s1) k3)))
               else finish s1 k1)))"

text \<open>A new socket, bound to \<open>self\<close> unless that has no address.\<close>

definition bound_socket :: "'k sock_os \<Rightarrow> Endpoint \<Rightarrow> Endpoint \<Rightarrow> bool \<Rightarrow> 'k \<Rightarrow> (Sock option \<times> 'k) res" where
  "bound_socket os self peer blocking k =
     rbind (TcpSocket_Create os (AddressFamily (ep_ip peer)) blocking k) (\<lambda>(so, k1). case so of
       None \<Rightarrow> Inr (None, k1)
     | Some s \<Rightarrow>
         if \<not> HasZeroIpAddr self then
           rbind (Sock_Bind os s self k1) (\<lambda>(ret, k2). if ret < 0 then drop_sock os s None k2 else Inr (Some s, k2))
         else Inr (Some s, k1))"

definition TcpManager_ConnectSync :: "'k sock_os \<Rightarrow> 'k event_os \<Rightarrow> Endpoint \<Rightarrow> Endpoint \<Rightarrow> int \<Rightarrow> 'k \<Rightarrow>
    (Sock option \<times> 'k) res" where
  "TcpManager_ConnectSync os ev self peer timeout_ms k =
     dcheck (HasNonzeroIpPort peer)
       (rbind (bound_socket os self peer (timeout_ms \<le> 0) k) (\<lambda>(so, k1). case so of
          None \<Rightarrow> Inr (None, k1)
        | Some s \<Rightarrow> connectSync os ev s peer timeout_ms k1))"

definition addConnected :: "'k sock_os \<Rightarrow> Sock \<Rightarrow> TcpManager \<Rightarrow> 'k \<Rightarrow> ((int \<times> TcpManager) \<times> 'k) res" where
  "addConnected os s m k = dcheck (sk_connected s)
     (rbind (Produced_Add os s (outgoing m) k) (\<lambda>((added, ps), k1).
        Inr ((if added then kConnectSuccess else kConnectError, m\<lparr>outgoing := ps\<rparr>), k1)))"

definition connectBlocking :: "'k sock_os \<Rightarrow> Sock \<Rightarrow> Endpoint \<Rightarrow> TcpManager \<Rightarrow> 'k \<Rightarrow> ((int \<times> TcpManager) \<times> 'k) res" where
  "connectBlocking os s peer m k = dcheck (Sock_IsBlocking os s k = Inr True)
     (rbind (TcpSocket_Connect os s peer k) (\<lambda>(ret, s1, k1).
        if ret < 0 then drop_sock os s1 (kConnectError, m) k1 else addConnected os s1 m k1))"

definition connectNonBlocking :: "'k sock_os \<Rightarrow> 'k event_os \<Rightarrow> Sock \<Rightarrow> Endpoint \<Rightarrow> duration \<Rightarrow> TcpManager \<Rightarrow> 'k \<Rightarrow>
    ((int \<times> TcpManager) \<times> 'k) res" where
  "connectNonBlocking os ev s peer timeout m k = dcheck (Sock_IsNonBlocking os s k = Inr True)
     (rbind (TcpSocket_Connect os s peer k) (\<lambda>(ret, s1, k1).
        if ret = kConnectSuccess then addConnected os s1 m k1
        else if ret = kConnectInProgress then
          dcheck (\<not> sk_connected s1)
            (let (now, k2) = ev_now ev k1;
                 register_fd = (\<lambda>fd k. let (r, k') = Register ev (tm_poller m) fd kOutgoingEvents k in (r = 0, k'))
             in rbind (Connectors_Add os (sk_fd s1) \<lparr>c_socket = s1, c_expiration = dur_add now timeout\<rparr> register_fd (connectors m) k2)
                  (\<lambda>((added, cs), k3). Inr ((if added then kConnectInProgress else kConnectError, m\<lparr>connectors := cs\<rparr>), k3)))
        else drop_sock os s1 (kConnectError, m) k1))"

definition TcpManager_Connect :: "'k sock_os \<Rightarrow> 'k event_os \<Rightarrow> Endpoint \<Rightarrow> Endpoint \<Rightarrow> bool \<Rightarrow> duration \<Rightarrow> TcpManager \<Rightarrow> 'k \<Rightarrow>
    ((int \<times> TcpManager) \<times> 'k) res" where
  "TcpManager_Connect os ev self peer blocking timeout m k =
     dcheck (HasNonzeroIpPort peer)
       (dcheck (\<not> blocking \<or> timeout = InfiniteDuration)
         (if isStopped m then Inr ((kConnectError, m), k)
          else rbind (bound_socket os self peer blocking k) (\<lambda>(so, k1). case so of
            None \<Rightarrow> Inr ((kConnectError, m), k1)
          | Some s \<Rightarrow>
              if blocking then connectBlocking os s peer m k1
              else connectNonBlocking os ev s peer timeout m k1)))"

section \<open>The event loop\<close>

definition removeListener :: "'k sock_os \<Rightarrow> 'k event_os \<Rightarrow> int \<Rightarrow> TcpManager \<Rightarrow> 'k \<Rightarrow> (TcpManager \<times> 'k) res" where
  "removeListener os ev fd m k = (let (_, k1) = Unregister ev (tm_poller m) fd k in
     rbind (Listeners_Remove os fd (listeners m) k1) (\<lambda>(ls, k2). Inr (m\<lparr>listeners := ls\<rparr>, k2)))"

text \<open>
  The loop accepts until there is nothing left. An accepted descriptor whose socket could not be
  set up gives a null pointer, which the next line dereferences.
\<close>

partial_function (option) accept_all :: "'k sock_os \<Rightarrow> 'k event_os \<Rightarrow> int \<Rightarrow> Sock \<Rightarrow> bool \<Rightarrow> TcpManager \<Rightarrow> 'k \<Rightarrow>
    (TcpManager \<times> 'k) res option" where
  "accept_all os ev fd listener gen_blocking m k =
     (if isStopped m then Some (Inr (m, k))
      else case TcpSocket_Accept os listener gen_blocking k of
        None \<Rightarrow> None
      | Some (Inl f) \<Rightarrow> Some (Inl f)
      | Some (Inr (ret, k1)) \<Rightarrow>
          if ret < 0 then
            (if IsWouldBlock ret then Some (Inr (m, k1))
             else if IsShutdown ret then Some (removeListener os ev fd m k1)
             else Some (Inr (m, k1)))
          else
            (case TcpSocket_Create_fd os ret (sk_family listener) gen_blocking k1 of
               Inl f \<Rightarrow> Some (Inl f)
             | Inr (None, k2) \<Rightarrow> Some (Inl NullDeref)
             | Inr (Some s, k2) \<Rightarrow>
                 if \<not> (MatchesBlocking os s k2 \<and> sk_connected s) then Some (Inl DcheckFailed)
                 else
                   (case Produced_Add os s (incoming m) k2 of
                      Inl f \<Rightarrow> Some (Inl f)
                    | Inr ((added, ps), k3) \<Rightarrow>
                        if \<not> added then Some (Inr (m\<lparr>incoming := ps\<rparr>, k3))
                        else accept_all os ev fd listener gen_blocking (m\<lparr>incoming := ps\<rparr>) k3)))"

definition handleAllIncoming :: "'k sock_os \<Rightarrow> 'k event_os \<Rightarrow> int \<Rightarrow> u32 \<Rightarrow> bool \<Rightarrow> TcpManager \<Rightarrow> 'k \<Rightarrow>
    ((bool \<times> TcpManager) \<times> 'k) res" where
  "handleAllIncoming os ev fd flag gen_blocking m k = (case Listeners_Get fd (listeners m) of
     None \<Rightarrow> Inr ((False, m), k)
   | Some listener \<Rightarrow>
       rbind
         (if flag AND (EPOLLERR OR EPOLLHUP) \<noteq> 0 then removeListener os ev fd m k
          else if flag AND EPOLLIN \<noteq> 0 then returned (accept_all os ev fd listener gen_blocking m k)
          else Inr (m, k))
         (\<lambda>(m1, k1). Inr ((True, m1), k1)))"

definition handleOneOutgoing :: "'k sock_os \<Rightarrow> 'k event_os \<Rightarrow> int \<Rightarrow> u32 \<Rightarrow> TcpManager \<Rightarrow> 'k \<Rightarrow>
    ((bool \<times> TcpManager) \<times> 'k) res" where
  "handleOneOutgoing os ev fd flag m k = rbind (Connectors_Remove fd (connectors m)) (\<lambda>(so, cs). case so of
     None \<Rightarrow> Inr ((False, m), k)
   | Some s \<Rightarrow>
       let m1 = m\<lparr>connectors := cs\<rparr>;
           (_, k1) = Unregister ev (tm_poller m) fd k;
           (err, k2) = GetSocketError os fd k1
       in if err \<noteq> 0 \<or> flag AND (EPOLLERR OR EPOLLHUP) \<noteq> 0 \<or> flag AND EPOLLOUT = 0 then drop_sock os s (True, m1) k2
          else if flag AND EPOLLRDHUP \<noteq> 0 then drop_sock os s (True, m1) k2
          else
            dcheck (Sock_IsNonBlocking os s k2 = Inr True)
              (dcheck (\<not> sk_connected s)
                (rbind (addConnected os (SetConnected s) m1 k2) (\<lambda>((_, m2), k3). Inr ((True, m2), k3)))))"

fun unregister_all :: "'k event_os \<Rightarrow> int \<Rightarrow> int list \<Rightarrow> 'k \<Rightarrow> 'k" where
  "unregister_all ev epfd [] k = k"
| "unregister_all ev epfd (fd # fds) k = unregister_all ev epfd fds (snd (Unregister ev epfd fd k))"

definition removeExpiredOutgoing :: "'k sock_os \<Rightarrow> 'k event_os \<Rightarrow> TcpManager \<Rightarrow> 'k \<Rightarrow> (TcpManager \<times> 'k) res" where
  "removeExpiredOutgoing os ev m k = (let (now, k1) = ev_now ev k in
     rbind (RemoveExpired now (connectors m)) (\<lambda>(expired, cs).
       let ss = map c_socket expired; k2 = unregister_all ev (tm_poller m) (map sk_fd ss) k1
       in rbind (drop_socks os ss k2) (\<lambda>k3. Inr (m\<lparr>connectors := cs\<rparr>, k3))))"

fun handle_events :: "'k sock_os \<Rightarrow> 'k event_os \<Rightarrow> bool \<Rightarrow> (int \<times> u32) list \<Rightarrow> TcpManager \<Rightarrow> 'k \<Rightarrow> (TcpManager \<times> 'k) res" where
  "handle_events os ev gen_blocking [] m k = Inr (m, k)"
| "handle_events os ev gen_blocking ((fd, flag) # es) m k =
     rbind (handleAllIncoming os ev fd flag gen_blocking m k) (\<lambda>((handled, m1), k1).
       if handled then handle_events os ev gen_blocking es m1 k1
       else rbind (handleOneOutgoing os ev fd flag m1 k1) (\<lambda>((handled', m2), k2).
         dcheck handled' (handle_events os ev gen_blocking es m2 k2)))"

text \<open>
  The loop in \<^verbatim>\<open>Start\<close>, cut where another thread can run for long: \<open>Start_wait\<close> is the wait at the top of
  an iteration, \<open>Start_handle\<close> the rest of the iteration, with its second look at the stop flag, and
  \<open>Start_close\<close> what follows the loop. The boolean says whether the loop goes on.
\<close>

definition Start_enter :: "'k sock_os \<Rightarrow> TcpManager \<Rightarrow> 'k \<Rightarrow> unit res" where
  "Start_enter os m k = dcheck (TcpManager_invariant os m k) (Inr ())"

definition Start_close :: "'k sock_os \<Rightarrow> TcpManager \<Rightarrow> 'k \<Rightarrow> ((bool \<times> TcpManager) \<times> 'k) res" where
  "Start_close os m k =
     rbind (Listeners_Close os (listeners m) k) (\<lambda>(ls, k1).
       rbind (Connectors_Close os (connectors m) k1) (\<lambda>(cs, k2).
         Inr ((False, m\<lparr>listeners := ls, connectors := cs\<rparr>), k2)))"

definition Start_wait :: "'k event_os \<Rightarrow> TcpManager \<Rightarrow> 'k \<Rightarrow> (int \<times> (int \<times> u32) list \<times> 'k) res" where
  "Start_wait ev m k = BlockingWait ev (tm_poller m) kEpollMaxNumEvents kEpollWaitTimeoutMs k"

definition Start_handle :: "'k sock_os \<Rightarrow> 'k event_os \<Rightarrow> bool \<Rightarrow> int \<Rightarrow> (int \<times> u32) list \<Rightarrow> TcpManager \<Rightarrow> 'k \<Rightarrow>
    ((bool \<times> TcpManager) \<times> 'k) res" where
  "Start_handle os ev gen_blocking nfds events m k =
     (if isStopped m then Start_close os m k
      else
        rbind (if 0 < nfds then handle_events os ev gen_blocking (take (nat nfds) events) m k else Inr (m, k))
          (\<lambda>(m1, k1). rbind (removeExpiredOutgoing os ev m1 k1) (\<lambda>(m2, k2). Inr ((True, m2), k2))))"

definition Start_step :: "'k sock_os \<Rightarrow> 'k event_os \<Rightarrow> bool \<Rightarrow> TcpManager \<Rightarrow> 'k \<Rightarrow> ((bool \<times> TcpManager) \<times> 'k) res" where
  "Start_step os ev gen_blocking m k =
     (if isStopped m then Start_close os m k
      else rbind (Start_wait ev m k) (\<lambda>(nfds, events, k1). Start_handle os ev gen_blocking nfds events m k1))"

definition Stop :: "'k sock_os \<Rightarrow> TcpManager \<Rightarrow> 'k \<Rightarrow> (TcpManager \<times> 'k) res" where
  "Stop os m k = dcheck (TcpManager_invariant os m k)
     (let m1 = m\<lparr>connectors := Connectors_Seal (connectors m), incoming := Produced_Seal (incoming m),
           outgoing := Produced_Seal (outgoing m), tm_stop := True\<rparr>
      in rbind (Listeners_Shutdown os (listeners m1) k) (\<lambda>(ls, k1).
           rbind (Produced_Close os (incoming m1) k1) (\<lambda>(inc, k2).
             rbind (Produced_Close os (outgoing m1) k2) (\<lambda>(out, k3).
               Inr (m1\<lparr>listeners := ls, incoming := inc, outgoing := out\<rparr>, k3)))))"

definition GetIncomingSockets :: "TcpManager \<Rightarrow> Sock list \<times> TcpManager" where
  "GetIncomingSockets m = (let (ss, ps) = MoveAll (incoming m) in (ss, m\<lparr>incoming := ps\<rparr>))"

definition GetOutgoingSockets :: "TcpManager \<Rightarrow> Sock list \<times> TcpManager" where
  "GetOutgoingSockets m = (let (ss, ps) = MoveAll (outgoing m) in (ss, m\<lparr>outgoing := ps\<rparr>))"

definition FindListener :: "Endpoint \<Rightarrow> TcpManager \<Rightarrow> Listener option res" where
  "FindListener target m = dcheck (HasNonzeroIpPort target) (Inr (Listeners_Find target (listeners m)))"

end
