(* ===== verification/MapContents.thy ===== *)
theory MapContents
  imports Prelude "HOL-Library.Multiset"
begin

text \<open>
  The entries of association lists as multisets, for the components that account for what their
  maps own: erasing a key takes its entry out.
\<close>

lemma mset_delete:
  "distinct (map fst xs) \<Longrightarrow> map_of xs k = Some v \<Longrightarrow> mset xs = add_mset (k, v) (mset (AList.delete k xs))"
proof (induction xs)
  case (Cons x xs)
  show ?case
  proof (cases "fst x = k")
    case True
    with Cons.prems have "map_of xs k = None" by (auto simp: map_of_eq_None_iff)
    then have "AList.delete k xs = xs" by (simp add: AList.delete_eq filter_id_conv map_of_eq_None_iff image_iff) force
    with True Cons.prems show ?thesis by (cases x) simp
  next
    case False
    with Cons show ?thesis by (cases x) simp
  qed
qed simp

lemma mset_delete_absent: "map_of xs k = None \<Longrightarrow> AList.delete k xs = xs"
  by (simp add: AList.delete_eq filter_id_conv map_of_eq_None_iff image_iff) force

end
