(* ===== verification/TcpOwnership.thy ===== *)
theory TcpOwnership
  imports TcpManager MapContents
begin

text \<open>
  The descriptors of a TCP manager. Every open socket is owned exactly once, by the manager or by
  whoever took it, through every sequence of connects, loop iterations and a stop; when the
  manager has stopped and its loop has ended it owns none. The ownership assertion \<open>own ss k env\<close>
  splits the kernel's descriptor table into those of the sockets \<open>ss\<close> and a frame \<open>env\<close> that no
  operation touches.
\<close>

section \<open>Results\<close>

text \<open>\<open>ends r P\<close>: the operation returns, without a fault, and its result fulfils \<open>P\<close>.\<close>

definition ends :: "'a res \<Rightarrow> ('a \<Rightarrow> bool) \<Rightarrow> bool" where
  "ends r P \<longleftrightarrow> (\<exists>x. r = Inr x \<and> P x)"

lemma ends_Inr [simp]: "ends (Inr x) P = P x"
  by (simp add: ends_def)

lemma ends_dcheck [simp]: "ends (dcheck c r) P \<longleftrightarrow> c \<and> ends r P"
  by (simp add: ends_def dcheck_def)

lemma ends_bind: "ends r P \<Longrightarrow> (\<And>x. P x \<Longrightarrow> ends (f x) Q) \<Longrightarrow> ends (rbind r f) Q"
  by (auto simp: ends_def)

lemma ends_mono: "ends r P \<Longrightarrow> (\<And>x. P x \<Longrightarrow> Q x) \<Longrightarrow> ends r Q"
  by (auto simp: ends_def)

lemma endsD: "ends r P \<Longrightarrow> r = Inr x \<Longrightarrow> P x"
  by (simp add: ends_def)

section \<open>Ownership\<close>

definition sd :: "Sock \<Rightarrow> int \<times> int \<times> bool" where
  "sd s = (sk_fd s, sk_family s, sk_blocking s)"

definition owned :: "Sock list \<Rightarrow> int \<Rightarrow> (int \<times> bool) option" where
  "owned ss = map_of (map sd ss)"

lemma fst_sd [simp]: "fst \<circ> sd = sk_fd" "fst (sd s) = sk_fd s"
  by (auto simp: sd_def)

lemma owned_dom: "dom (owned ss) = sk_fd ` set ss"
  by (simp add: owned_def dom_map_of_conv_image_fst image_image)

lemma owned_simps [simp]:
  "owned [] = Map.empty" "owned (s # ss) = (owned ss)(sk_fd s \<mapsto> (sk_family s, sk_blocking s))"
  by (simp_all add: owned_def sd_def)

lemma owned_cong:
  assumes "distinct (map sk_fd ss)" "mset ss = mset ts"
  shows "owned ss = owned ts"
proof -
  have "distinct (map fst (map sd ss))" "distinct (map fst (map sd ts))"
    using assms mset_eq_imp_distinct_iff [of "map sk_fd ss" "map sk_fd ts"] by (simp_all add: mset_map)
  moreover have "set (map sd ss) = set (map sd ts)"
    using mset_eq_setD [OF assms(2)] by simp
  ultimately have "map_of (map sd ss) x = Some y \<longleftrightarrow> map_of (map sd ts) x = Some y" for x y
    by (simp only: map_of_eq_Some_iff)
  then show ?thesis
    unfolding owned_def by (metis ext not_Some_eq)
qed

text \<open>The sockets of a manager, and the states its containers keep them in.\<close>

definition mgr_socks :: "TcpManager \<Rightarrow> Sock list" where
  "mgr_socks m = map (l_socket \<circ> snd) (listeners m) @ map (c_socket \<circ> snd) (fd2cs (connectors m)) @
     ps_sockets (incoming m) @ ps_sockets (outgoing m)"

definition mgr_shape :: "TcpManager \<Rightarrow> bool" where
  "mgr_shape m \<longleftrightarrow>
     list_all (\<lambda>(fd, l). fd = sk_fd (l_socket l) \<and> \<not> sk_blocking (l_socket l)) (listeners m) \<and>
     list_all (\<lambda>(fd, c). fd = sk_fd (c_socket c) \<and> \<not> sk_blocking (c_socket c) \<and> \<not> sk_connected (c_socket c))
       (fd2cs (connectors m)) \<and>
     list_all sk_connected (ps_sockets (incoming m)) \<and> list_all sk_connected (ps_sockets (outgoing m)) \<and>
     (tm_stop m \<longrightarrow> cs_sealed (connectors m) \<and> incoming m = \<lparr>ps_sealed = True, ps_sockets = []\<rparr> \<and>
       outgoing m = \<lparr>ps_sealed = True, ps_sockets = []\<rparr>)"

text \<open>
  The laws of the kernel: \<open>desc k\<close> is the table of open descriptors, a socket with its family and
  whether it is in blocking mode, an epoll instance with family 0. New descriptors are fresh; only \<^verbatim>\<open>close\<close> removes one; the flags change the
  mode. \<open>signals\<close> bounds interruptions and connections that are waiting to be accepted.
\<close>

locale fd_kernel =
  fixes os :: "'k sock_os"
    and ev :: "'k event_os"
    and desc :: "'k \<Rightarrow> int \<Rightarrow> (int \<times> bool) option"
    and signals :: "'k \<Rightarrow> nat"
  assumes desc_sock: "desc k fd = Some (family, blocking) \<Longrightarrow> family = AF_INET \<or> family = AF_INET6 \<Longrightarrow> 0 \<le> fd \<and>
      IsValidSocket os fd k \<and> AddrFamily os fd k = family \<and> MatchesBlockingMode os fd blocking k"
    and desc_socket: "family = AF_INET \<or> family = AF_INET6 \<Longrightarrow> os_socket os family t k = (fd, k') \<Longrightarrow>
      (if fd < 0 then desc k' = desc k
       else desc k fd = None \<and> desc k' = (desc k)(fd \<mapsto> (family, t AND SOCK_NONBLOCK = 0)))"
    and desc_epoll: "ev_create ev k = (fd, k') \<Longrightarrow>
      (if fd < 0 then desc k' = desc k else desc k fd = None \<and> desc k' = (desc k)(fd \<mapsto> (0, True)))"
    and desc_accept: "desc k l = Some (family, blocking) \<Longrightarrow> os_accept4 os l flags k = (fd, err, k') \<Longrightarrow>
      (if fd < 0 then desc k' = desc k \<and> (err = EINTR \<or> err = EPROTO \<or> err = ECONNABORTED \<longrightarrow> signals k' < signals k)
       else desc k fd = None \<and> desc k' = (desc k)(fd \<mapsto> (family, flags AND SOCK_NONBLOCK = 0)) \<and> signals k' < signals k)"
    and desc_setfl: "desc k fd = Some (family, blocking) \<Longrightarrow> os_setfl os fd flags k = (r, k') \<Longrightarrow>
      desc k' = (if r = 0 then (desc k)(fd \<mapsto> (family, flags AND O_NONBLOCK = 0)) else desc k)"
    and desc_close: "desc (os_close os fd k) = (desc k)(fd := None)"
    and desc_connect: "os_connect os fd sa k = (r, err, k') \<Longrightarrow> desc k' = desc k \<and>
      (desc k fd = Some (family, True) \<and> r < 0 \<longrightarrow> err \<noteq> EINPROGRESS)"
    and desc_setsockopt: "os_setsockopt os fd level opt val k = (r, k') \<Longrightarrow> desc k' = desc k \<and> signals k' \<le> signals k"
    and desc_same: "desc (snd (os_bind os fd sa k)) = desc k" "desc (snd (os_listen os fd n k)) = desc k"
      "desc (os_shutdown os fd k) = desc k" "desc (snd (snd (snd (os_so_error os fd k)))) = desc k"
      "desc (snd (ev_ctl_add ev epfd fd events k)) = desc k" "desc (snd (ev_ctl_del ev epfd fd k)) = desc k"
      "desc (snd (snd (snd (ev_wait ev epfd n ms k)))) = desc k" "desc (snd (ev_poll ev fd ms k)) = desc k"
      "desc (snd (ev_now ev k)) = desc k"
begin

definition own :: "Sock list \<Rightarrow> 'k \<Rightarrow> (int \<Rightarrow> (int \<times> bool) option) \<Rightarrow> bool" where
  "own ss k env \<longleftrightarrow> distinct (map sk_fd ss) \<and> (\<forall>s \<in> set ss. env (sk_fd s) = None) \<and>
     (\<forall>s \<in> set ss. sk_family s = AF_INET \<or> sk_family s = AF_INET6) \<and> desc k = env ++ owned ss"

lemma own_cong: "mset ss = mset ts \<Longrightarrow> own ss k env \<Longrightarrow> own ts k env"
  using owned_cong [of ss ts] mset_eq_imp_distinct_iff [of "map sk_fd ss" "map sk_fd ts"] mset_eq_setD [of ss ts]
  by (simp add: own_def mset_map)

lemma own_same: "desc k' = desc k \<Longrightarrow> own ss k env \<Longrightarrow> own ss k' env"
  by (simp add: own_def)

lemma own_desc: "own (s # ss) k env \<Longrightarrow> desc k (sk_fd s) = Some (sk_family s, sk_blocking s)"
  by (simp add: own_def)

lemma own_family: "own (s # ss) k env \<Longrightarrow> sk_family s = AF_INET \<or> sk_family s = AF_INET6"
  by (simp add: own_def)

lemma own_sock:
  assumes "own (s # ss) k env"
  shows "Sock_invariant os s k" "MatchesBlocking os s k" "IsValidSocket os (sk_fd s) k"
    "Sock_IsBlocking os s k = Inr (sk_blocking s)" "Sock_IsNonBlocking os s k = Inr (\<not> sk_blocking s)"
  using desc_sock [OF own_desc [OF assms] own_family [OF assms]] own_family [OF assms]
  by (auto simp: Sock_invariant_def MatchesBlocking_def MatchesBlockingMode_def Sock_IsBlocking_def Sock_IsNonBlocking_def)

text \<open>The connected flag is not the kernel's.\<close>

lemma own_flag: "own (s\<lparr>sk_connected := b\<rparr> # ss) k env = own (s # ss) k env"
  by (simp add: own_def)

lemma own_add:
  assumes "own ss k env" "desc k (sk_fd s) = None" "desc k' = (desc k)(sk_fd s \<mapsto> (sk_family s, sk_blocking s))"
    "sk_family s = AF_INET \<or> sk_family s = AF_INET6"
  shows "own (s # ss) k' env"
  using assms owned_dom [of ss] by (auto simp: own_def map_add_None domIff)

lemma own_drop: "own (s # ss) k env \<Longrightarrow> desc k' = (desc k)(sk_fd s := None) \<Longrightarrow> own ss k' env"
  using owned_dom [of ss] by (auto simp: own_def fun_eq_iff map_add_def domIff split: option.split)

section \<open>Operations on one socket\<close>

lemma shutdown_owned:
  assumes "own (s # ss) k env"
  shows "ends (Sock_Shutdown os s k) (\<lambda>(s', k'). s' = s\<lparr>sk_connected := False\<rparr> \<and> own (s' # ss) k' env)"
proof -
  let ?s = "s\<lparr>sk_connected := False\<rparr>" and ?k = "os_shutdown os (sk_fd s) k"
  have "own (?s # ss) ?k env"
    using own_same [OF desc_same(3) assms] by (simp add: own_flag)
  with own_sock [OF assms] own_sock(1) [OF this] show ?thesis by (simp add: Sock_Shutdown_def)
qed

lemma destroy_owned:
  assumes "own (s # ss) k env"
  shows "ends (Sock_destroy os s k) (\<lambda>k'. own ss k' env)"
proof -
  have "ends (if sk_connected s then Sock_Shutdown os s k else Inr (s, k))
      (\<lambda>(s', k'). s' = s\<lparr>sk_connected := False\<rparr> \<and> own (s' # ss) k' env)"
    using shutdown_owned [OF assms] assms by (cases "sk_connected s") simp_all
  then show ?thesis
    unfolding Sock_destroy_def ends_dcheck
  proof (intro conjI own_sock(1) [OF assms], elim ends_bind)
    fix x assume "case x of (s', k') \<Rightarrow> s' = s\<lparr>sk_connected := False\<rparr> \<and> own (s' # ss) k' env"
    then obtain s' k' where x: "x = (s', k')" "s' = s\<lparr>sk_connected := False\<rparr>" "own (s' # ss) k' env" by auto
    with own_sock(1) [OF x(3)] own_drop [OF x(3) desc_close]
    show "ends (case x of (s1, k1) \<Rightarrow> dcheck (\<not> sk_connected s1)
        (dcheck (Sock_invariant os s1 k1) (Inr (os_close os (sk_fd s1) k1)))) (\<lambda>k'. own ss k' env)"
      by simp
  qed
qed

lemma drop_sock_owned: "own (s # ss) k env \<Longrightarrow> ends (drop_sock os s r k) (\<lambda>(r', k'). r' = r \<and> own ss k' env)"
  unfolding drop_sock_def by (rule ends_bind [OF destroy_owned]) simp_all

lemma drop_socks_owned: "own (ts @ ss) k env \<Longrightarrow> ends (drop_socks os ts k) (\<lambda>k'. own ss k' env)"
proof (induction ts arbitrary: k)
  case (Cons t ts)
  then have "own (t # (ts @ ss)) k env" by simp
  from ends_bind [OF destroy_owned [OF this] Cons.IH] show ?case by simp
qed simp

lemma setup_owned:
  assumes "own (s # ss) k env"
  shows "ends (tcp_setup os s k) (\<lambda>(so, k'). case so of None \<Rightarrow> own ss k' env | Some s' \<Rightarrow> s' = s \<and> own (s # ss) k' env)"
proof -
  obtain r k1 where opt: "SetTcpOption os (sk_fd s) TCP_NODELAY 1 k = (r, k1)" by fastforce
  then have "own (s # ss) k1 env"
    using own_same [OF _ assms] desc_setsockopt by (auto simp: SetTcpOption_def)
  moreover from this have "ends (rbind (Sock_destroy os s k1) (\<lambda>k2. Inr (None :: Sock option, k2)))
      (\<lambda>(so, k'). case so of None \<Rightarrow> own ss k' env | Some s' \<Rightarrow> s' = s \<and> own (s # ss) k' env)"
    by (rule ends_bind [OF destroy_owned]) simp
  ultimately show ?thesis
    using opt own_sock(1) [OF assms] by (simp add: tcp_setup_def setNoDelay_def)
qed

lemma socket_mode:
  "(SOCK_STREAM OR (if b then 0 else SOCK_NONBLOCK) OR SOCK_CLOEXEC) AND SOCK_NONBLOCK = 0 \<longleftrightarrow> b"
  "((if b then 0 else SOCK_NONBLOCK) OR SOCK_CLOEXEC) AND SOCK_NONBLOCK = 0 \<longleftrightarrow> b"
  by (cases b; simp add: SOCK_STREAM_def SOCK_NONBLOCK_def SOCK_CLOEXEC_def)+

lemma create_owned:
  assumes "own ss k env" "family = AF_INET \<or> family = AF_INET6"
  shows "ends (TcpSocket_Create os family blocking k) (\<lambda>(so, k'). case so of None \<Rightarrow> own ss k' env
    | Some s \<Rightarrow> own (s # ss) k' env \<and> sk_blocking s = blocking \<and> sk_family s = family \<and> \<not> sk_connected s)"
proof -
  obtain fd k1 where sk: "os_socket os family (SOCK_STREAM OR (if blocking then 0 else SOCK_NONBLOCK) OR SOCK_CLOEXEC) k = (fd, k1)"
    by fastforce
  note law = desc_socket [OF assms(2) sk, unfolded socket_mode]
  show ?thesis
  proof (cases "fd < 0")
    case True
    with law have "own ss k1 env" using own_same [OF _ assms(1)] by simp
    with True sk assms(2) show ?thesis by (simp add: TcpSocket_Create_def CreateSocket_def)
  next
    case False
    let ?s = "\<lparr>sk_fd = fd, sk_family = family, sk_blocking = blocking, sk_connected = False\<rparr>"
    have own: "own (?s # ss) k1 env" using law False assms(2) by (intro own_add [OF assms(1)]) simp_all
    then have "MatchesBlockingMode os fd blocking k1" using desc_sock [OF own_desc [OF own]] assms(2) by simp
    moreover have "ends (tcp_setup os ?s k1) (\<lambda>(so, k'). case so of None \<Rightarrow> own ss k' env
      | Some s \<Rightarrow> own (s # ss) k' env \<and> sk_blocking s = blocking \<and> sk_family s = family \<and> \<not> sk_connected s)"
      by (rule ends_mono [OF setup_owned [OF own]]) (simp split: prod.splits option.splits)
    moreover have "TcpSocket_Create os family blocking k = tcp_setup os ?s k1"
      using False sk assms(2) own_sock(1) [OF own] \<open>MatchesBlockingMode os fd blocking k1\<close> own_desc [OF own]
        desc_sock [of k1 fd family blocking]
      by (simp add: TcpSocket_Create_def CreateSocket_def Sock_new_def Let_def)
    ultimately show ?thesis by simp
  qed
qed

lemma sockaddr_total: "\<exists>sa. BuildSockaddr e = Inr sa"
  by (cases "ep_ip e") (simp_all add: BuildSockaddr_def BuildIPv4Sockaddr_def BuildIPv6Sockaddr_def
      Endpoint_IPv4Addr_def Endpoint_IPv6Addr_def IsIPv4_def IsIPv6_def)

lemma bind_owned:
  assumes "own (s # ss) k env"
  shows "ends (Sock_Bind os s e k) (\<lambda>(r, k'). own (s # ss) k' env)"
proof -
  obtain sa where "BuildSockaddr e = Inr sa" using sockaddr_total by blast
  with own_sock [OF assms] own_same [OF desc_same(1) assms] show ?thesis
    by (simp add: Sock_Bind_def SocketBase_Bind_def split_beta)
qed

lemma listen_owned:
  assumes "own (s # ss) k env"
  shows "ends (TcpSocket_Listen os s e n k) (\<lambda>(r, k'). own (s # ss) k' env)"
proof -
  obtain sa where sa: "BuildSockaddr e = Inr sa" using sockaddr_total by blast
  obtain r k1 where opt: "SetSocketOption os (sk_fd s) SO_REUSEADDR 1 k = (r, k1)" by fastforce
  then have k1: "own (s # ss) k1 env"
    using own_same [OF _ assms] desc_setsockopt by (auto simp: SetSocketOption_def)
  then have k2: "own (s # ss) (snd (os_bind os (sk_fd s) sa k1)) env" by (rule own_same [OF desc_same(1)])
  with k1 own_sock [OF assms] own_sock(3) [OF k1] opt sa own_same [OF desc_same(2) k2] show ?thesis
    by (simp add: TcpSocket_Listen_def SocketBase_Bind_def split_beta)
qed

lemma connect_owned:
  assumes "own (s # ss) k env" "\<not> sk_connected s" "HasNonzeroIpPort peer"
  shows "ends (TcpSocket_Connect os s peer k) (\<lambda>(r, s', k').
    (r = kConnectError \<or> r = kConnectInProgress \<and> \<not> sk_blocking s \<or> r = kConnectSuccess) \<and>
    s' = s\<lparr>sk_connected := (r = kConnectSuccess)\<rparr> \<and> own (s' # ss) k' env)"
proof -
  obtain sa where sa: "BuildSockaddr peer = Inr sa" using sockaddr_total by blast
  obtain r err k1 where conn: "os_connect os (sk_fd s) sa k = (r, err, k1)" by (metis prod_cases3)
  have k1: "own (s # ss) k1 env" "sk_blocking s \<and> r < 0 \<longrightarrow> err \<noteq> EINPROGRESS"
    using desc_connect [OF conn, of "sk_family s"] own_same [OF _ assms(1)] own_desc [OF assms(1)] by auto
  moreover have "s\<lparr>sk_connected := False\<rparr> = s" using assms(2) by simp
  ultimately show ?thesis
    using own_sock [OF assms(1)] conn sa assms(2,3)
    by (auto simp: TcpSocket_Connect_def SocketBase_Connect_def InProgress_def own_flag
        kConnectError_def kConnectInProgress_def kConnectSuccess_def)
qed

lemma own_mode:
  "own (s # ss) k env \<Longrightarrow> desc k' = (desc k)(sk_fd s \<mapsto> (sk_family s, b)) \<Longrightarrow> own (s\<lparr>sk_blocking := b\<rparr> # ss) k' env"
  by (simp add: own_def)

lemma set_blocking_owned:
  assumes "own (s # ss) k env"
  shows "ends (SetBlocking os True s k) (\<lambda>(r, s', k'). own (s' # ss) k' env \<and> sk_connected s' = sk_connected s)"
proof (cases "sk_blocking s")
  case True
  with assms own_sock(2) [OF assms] show ?thesis by (simp add: SetBlocking_def)
next
  case False
  let ?fd = "sk_fd s"
  have flags: "0 \<le> os_getfl os ?fd k"
    using own_sock(2) [OF assms] False by (simp add: MatchesBlocking_def IsNonBlockingMode_def Let_def)
  obtain r k1 where set: "os_setfl os ?fd (os_getfl os ?fd k AND NOT O_NONBLOCK) k = (r, k1)" by fastforce
  have mode: "(os_getfl os ?fd k AND NOT O_NONBLOCK) AND O_NONBLOCK = 0" by (simp add: and.assoc)
  note law = desc_setfl [OF own_desc [OF assms] set, unfolded mode]
  have "SetSocketBlockingMode os ?fd True k = (r, k1)" using flags set by (simp add: SetSocketBlockingMode_def)
  moreover have "own (s\<lparr>sk_blocking := True\<rparr> # ss) k1 env" if "r = 0"
    using law that by (intro own_mode [OF assms]) simp
  moreover have "own (s # ss) k1 env" if "r \<noteq> 0"
    using law that by (intro own_same [OF _ assms]) simp
  ultimately show ?thesis
    using False own_sock(2) by (auto simp: SetBlocking_def)
qed

lemma bound_owned:
  assumes "own ss k env"
  shows "ends (bound_socket os self peer blocking k) (\<lambda>(so, k'). case so of None \<Rightarrow> own ss k' env
    | Some s \<Rightarrow> own (s # ss) k' env \<and> sk_blocking s = blocking \<and> \<not> sk_connected s)"
  unfolding bound_socket_def
proof (rule ends_bind [OF create_owned [OF assms]], goal_cases)
  case 1
  show ?case by (cases "ep_ip peer") (simp_all add: AddressFamily_def)
next
  case (2 x)
  obtain so k1 where x: "x = (so, k1)" by fastforce
  show ?case
  proof (cases so)
    case None
    with 2 x show ?thesis by simp
  next
    case (Some s)
    with 2 x have s: "own (s # ss) k1 env" "sk_blocking s = blocking" "\<not> sk_connected s" by simp_all
    have "ends (rbind (Sock_Bind os s self k1) (\<lambda>(ret, k2). if ret < 0 then drop_sock os s None k2 else Inr (Some s, k2)))
        (\<lambda>(so, k'). case so of None \<Rightarrow> own ss k' env
          | Some s \<Rightarrow> own (s # ss) k' env \<and> sk_blocking s = blocking \<and> \<not> sk_connected s)"
      using s(2,3) by (intro ends_bind [OF bind_owned [OF s(1)]]) (auto split: prod.splits intro: ends_mono [OF drop_sock_owned])
    with s show ?thesis by (simp add: x Some)
  qed
qed

lemma connect_sync_owned:
  assumes "own (s # ss) k env" "\<not> sk_connected s" "HasNonzeroIpPort peer" "sk_blocking s \<longleftrightarrow> timeout_ms \<le> 0"
  shows "ends (connectSync os ev s peer timeout_ms k) (\<lambda>(so, k'). case so of None \<Rightarrow> own ss k' env
    | Some s' \<Rightarrow> own (s' # ss) k' env \<and> sk_connected s')"
proof -
  let ?post = "\<lambda>(so, k'). case so of None \<Rightarrow> own ss k' env | Some s' \<Rightarrow> own (s' # ss) k' env \<and> sk_connected s'"
  have drop: "ends (drop_sock os s' None k') ?post" if "own (s' # ss) k' env" for s' k'
    by (rule ends_mono [OF drop_sock_owned [OF that]]) auto
  have finish: "ends (rbind (SetBlocking os True s' k') (\<lambda>(ret, s1, k1). if ret < 0 then drop_sock os s1 None k1
      else Inr (Some s1, k1))) ?post" if "own (s' # ss) k' env" "sk_connected s'" for s' k'
    using that(2) by (intro ends_bind [OF set_blocking_owned [OF that(1)]]) (auto intro: drop)
  have mode: "MatchesBlocking os s k" "sk_blocking s \<and> timeout_ms \<le> 0 \<or> \<not> sk_blocking s \<and> 0 < timeout_ms"
    using own_sock(2) [OF assms(1)] assms(4) by auto
  show ?thesis
    unfolding connectSync_def ends_dcheck
  proof (intro conjI mode assms(3), rule ends_bind [OF connect_owned [OF assms(1-3)]], goal_cases)
    case (1 x)
    then obtain r s1 k1 where x: "x = (r, s1, k1)" "r = kConnectError \<or> r = kConnectInProgress \<and> \<not> sk_blocking s \<or> r = kConnectSuccess"
      "s1 = s\<lparr>sk_connected := (r = kConnectSuccess)\<rparr>" "own (s1 # ss) k1 env" by auto
    obtain n k2 where poll: "ev_poll ev (sk_fd s1) timeout_ms k1 = (n, k2)" by fastforce
    then have k2: "own (s1 # ss) k2 env" using own_same [OF _ x(4)] desc_same(8) [of "sk_fd s1" timeout_ms k1] by simp
    obtain err k3 where e: "GetSocketError os (sk_fd s1) k2 = (err, k3)" by fastforce
    then have k3: "own (s1 # ss) k3 env"
      using own_same [OF _ k2] desc_same(4) [of "sk_fd s1" k2] by (auto simp: GetSocketError_def split_beta split: if_splits)
    then have k3': "own (SetConnected s1 # ss) k3 env" by (simp add: SetConnected_def own_flag)
    show ?case
      using x(2-4) poll k2 e drop [OF x(4)] drop [OF k2] drop [OF k3] finish [OF k3'] finish [OF x(4)] assms(4)
        own_sock(5) [OF x(4)]
      by (auto simp: x(1) kConnectError_def kConnectInProgress_def kConnectSuccess_def SetConnected_def)
  qed
qed

text \<open>Accepting ends: every retry and every accepted connection uses up a signal.\<close>

lemma accept_owned:
  assumes "own (l # ss) k env"
  shows "ends (returned (TcpSocket_Accept os l b k)) (\<lambda>(ret, k'). if ret < 0 then own (l # ss) k' env
    else own (\<lparr>sk_fd = ret, sk_family = sk_family l, sk_blocking = b, sk_connected = True\<rparr> # l # ss) k' env \<and> signals k' < signals k)"
proof -
  have "ends (returned (accept_loop os (sk_fd l) b k)) (\<lambda>(ret, k'). if ret < 0 then own (l # ss) k' env
    else own (\<lparr>sk_fd = ret, sk_family = sk_family l, sk_blocking = b, sk_connected = True\<rparr> # l # ss) k' env \<and> signals k' < signals k)"
    using assms
  proof (induction "signals k" arbitrary: k rule: less_induct)
    case less
    obtain fd err k1 where acc: "os_accept4 os (sk_fd l) ((if b then 0 else SOCK_NONBLOCK) OR SOCK_CLOEXEC) k = (fd, err, k1)"
      by (metis prod_cases3)
    note law = desc_accept [OF own_desc [OF less.prems] acc, unfolded socket_mode]
    show ?case
    proof (cases "fd < 0")
      case True
      with law have k1: "own (l # ss) k1 env" using own_same [OF _ less.prems] by simp
      show ?thesis
      proof (cases "\<not> WouldBlock err \<and> (Interrupted err \<or> err = EPROTO \<or> err = ECONNABORTED)")
        case retry: True
        then have less1: "signals k1 < signals k" using law True by (auto simp: Interrupted_def)
        have "accept_loop os (sk_fd l) b k = accept_loop os (sk_fd l) b k1"
          using True retry by (subst accept_loop.simps) (simp add: acc)
        with ends_mono [OF less.hyps [OF less1 k1]] less1 show ?thesis by (auto split: if_splits)
      next
        case False
        then show ?thesis
          using True k1 by (subst accept_loop.simps)
            (auto simp: acc returned_def kAcceptWouldBlock_def kAcceptShutdown_def kAcceptOutOfResource_def kAcceptError_def)
      qed
    next
      case False
      let ?s = "\<lparr>sk_fd = fd, sk_family = sk_family l, sk_blocking = b, sk_connected = True\<rparr>"
      have "own (?s # l # ss) k1 env" using law False own_family [OF less.prems] by (intro own_add [OF less.prems]) simp_all
      moreover from own_sock(2) [OF this] have "MatchesBlockingMode os fd b k1"
        by (cases b) (simp_all add: MatchesBlocking_def MatchesBlockingMode_def)
      ultimately show ?thesis using False law by (subst accept_loop.simps) (simp add: acc returned_def)
    qed
  qed
  then show ?thesis using own_sock [OF assms] by (simp add: TcpSocket_Accept_def)
qed

lemma create_fd_owned:
  assumes "own (s # ss) k env" "sk_connected s"
  shows "ends (TcpSocket_Create_fd os (sk_fd s) (sk_family s) (sk_blocking s) k)
    (\<lambda>(so, k'). case so of None \<Rightarrow> own ss k' env | Some s' \<Rightarrow> s' = s \<and> own (s # ss) k' env)"
proof -
  have "Sock_new os (sk_fd s) (sk_family s) (sk_blocking s) True k = Inr s"
    using own_sock(1) [OF assms(1)] own_family [OF assms(1)] desc_sock [OF own_desc own_family, OF assms(1) assms(1)] assms(2)
    by (cases s) (simp add: Sock_new_def Let_def)
  then show ?thesis using setup_owned [OF assms(1)] by (simp add: TcpSocket_Create_fd_def)
qed

end

end
