(* ===== verification/TcpRuns.thy ===== *)
theory TcpRuns
  imports TcpOwnership
begin

text \<open>
  Runs of a TCP manager: every operation keeps the ownership of its sockets and returns without a
  fault. The threads that use a manager are a step relation: the poller thread in \<^verbatim>\<open>Start\<close>, which
  alternates between waiting and handling, and others that connect, take sockets and stop it. A
  connect is in two steps, so that a stop can come between its check of the stop flag and the end
  of the connection attempt.
\<close>

definition watched :: "TcpManager \<Rightarrow> int set" where
  "watched m = fst ` set (listeners m) \<union> fst ` set (fd2cs (connectors m))"

definition goes :: "int set \<Rightarrow> TcpManager \<Rightarrow> TcpManager \<Rightarrow> bool" where
  "goes fds m m' \<longleftrightarrow> tm_stop m' = tm_stop m \<and> watched m - fds \<subseteq> watched m'"

lemma goes_refl [simp]: "goes fds m m"
  by (simp add: goes_def)

lemma goes_trans: "goes f1 m1 m2 \<Longrightarrow> goes f2 m2 m3 \<Longrightarrow> goes (f1 \<union> f2) m1 m3"
  by (auto simp: goes_def)

context fd_kernel
begin

section \<open>The manager's sockets\<close>

definition mgr :: "TcpManager \<Rightarrow> Sock list \<Rightarrow> 'k \<Rightarrow> (int \<Rightarrow> (int \<times> bool) option) \<Rightarrow> bool" where
  "mgr m ts k env \<longleftrightarrow> mgr_shape m \<and> own (mgr_socks m @ ts) k env"

lemma mgr_same: "desc k' = desc k \<Longrightarrow> mgr m ts k env \<Longrightarrow> mgr m ts k' env"
  by (simp add: mgr_def own_same)

lemma mgr_keys:
  assumes "mgr m ts k env"
  shows "distinct (map fst (listeners m))" "distinct (map fst (fd2cs (connectors m)))"
proof -
  have "map sk_fd (map (l_socket \<circ> snd) (listeners m)) = map fst (listeners m)"
    "map sk_fd (map (c_socket \<circ> snd) (fd2cs (connectors m))) = map fst (fd2cs (connectors m))"
    using assms by (auto simp: mgr_def mgr_shape_def list_all_iff)
  moreover have "distinct (map sk_fd (map (l_socket \<circ> snd) (listeners m)))"
    "distinct (map sk_fd (map (c_socket \<circ> snd) (fd2cs (connectors m))))"
    using assms by (simp_all add: mgr_def own_def mgr_socks_def)
  ultimately show "distinct (map fst (listeners m))" "distinct (map fst (fd2cs (connectors m)))" by metis+
qed

text \<open>A listener or a connector can be taken out of its container, a socket put into one.\<close>

lemma mgr_listener:
  assumes "mgr m ts k env" "map_of (listeners m) fd = Some l"
  shows "mgr (m\<lparr>listeners := AList.delete fd (listeners m)\<rparr>) (l_socket l # ts) k env" "sk_fd (l_socket l) = fd"
    "own (l_socket l # mgr_socks (m\<lparr>listeners := AList.delete fd (listeners m)\<rparr>) @ ts) k env"
proof -
  let ?m = "m\<lparr>listeners := AList.delete fd (listeners m)\<rparr>"
  have set: "set (AList.delete fd (listeners m)) \<subseteq> set (listeners m)" by (auto simp: AList.delete_eq)
  from mset_delete [OF mgr_keys(1) [OF assms(1)] assms(2)]
  have mset: "mset (mgr_socks m @ ts) = mset (mgr_socks ?m @ l_socket l # ts)" by (simp add: mgr_socks_def mset_map)
  then have own: "own (mgr_socks ?m @ l_socket l # ts) k env" using own_cong [OF mset] assms(1) by (simp add: mgr_def)
  with set show "mgr ?m (l_socket l # ts) k env"
    using assms(1) by (auto simp: mgr_def mgr_shape_def list_all_iff)
  show "sk_fd (l_socket l) = fd" using map_of_SomeD [OF assms(2)] assms(1) by (auto simp: mgr_def mgr_shape_def list_all_iff)
  show "own (l_socket l # mgr_socks ?m @ ts) k env" by (rule own_cong [OF _ own]) simp
qed

lemma mgr_connector:
  assumes "mgr m ts k env" "map_of (fd2cs (connectors m)) fd = Some c"
  shows "mgr (m\<lparr>connectors := (connectors m)\<lparr>fd2cs := AList.delete fd (fd2cs (connectors m))\<rparr>\<rparr>) (c_socket c # ts) k env"
    "sk_fd (c_socket c) = fd" "\<not> sk_blocking (c_socket c)" "\<not> sk_connected (c_socket c)"
proof -
  let ?m = "m\<lparr>connectors := (connectors m)\<lparr>fd2cs := AList.delete fd (fd2cs (connectors m))\<rparr>\<rparr>"
  have set: "set (AList.delete fd (fd2cs (connectors m))) \<subseteq> set (fd2cs (connectors m))" by (auto simp: AList.delete_eq)
  from mset_delete [OF mgr_keys(2) [OF assms(1)] assms(2)]
  have mset: "mset (mgr_socks m @ ts) = mset (mgr_socks ?m @ c_socket c # ts)" by (simp add: mgr_socks_def mset_map)
  then have "own (mgr_socks ?m @ c_socket c # ts) k env" using own_cong [OF mset] assms(1) by (simp add: mgr_def)
  with set show "mgr ?m (c_socket c # ts) k env"
    using assms(1) by (auto simp: mgr_def mgr_shape_def list_all_iff)
  show "sk_fd (c_socket c) = fd" "\<not> sk_blocking (c_socket c)" "\<not> sk_connected (c_socket c)"
    using map_of_SomeD [OF assms(2)] assms(1) by (auto simp: mgr_def mgr_shape_def list_all_iff)
qed

lemma mgr_front: "mgr m (s # ts) k env \<longleftrightarrow> mgr_shape m \<and> own (s # mgr_socks m @ ts) k env"
  using own_cong [of "mgr_socks m @ s # ts" "s # mgr_socks m @ ts"] own_cong [of "s # mgr_socks m @ ts" "mgr_socks m @ s # ts"]
  by (auto simp: mgr_def)

lemma mgr_drop: "mgr m (s # ts) k env \<Longrightarrow> ends (drop_sock os s r k) (\<lambda>(r', k'). r' = r \<and> mgr m ts k' env)"
  unfolding mgr_front by (rule ends_mono [OF drop_sock_owned]) (auto simp: mgr_def)

lemma mgr_drop_to: "mgr m (s # ts) k env \<Longrightarrow> (\<And>k'. mgr m ts k' env \<Longrightarrow> Q (r, k')) \<Longrightarrow> ends (drop_sock os s r k) Q"
  by (erule ends_mono [OF mgr_drop]) (auto split: prod.splits)

lemma mgr_drops: "mgr m (ss @ ts) k env \<Longrightarrow> ends (drop_socks os ss k) (\<lambda>k'. mgr m ts k' env)"
proof -
  assume m: "mgr m (ss @ ts) k env"
  have "own (ss @ mgr_socks m @ ts) k env" by (rule own_cong [of "mgr_socks m @ ss @ ts"]) (use m in \<open>simp_all add: mgr_def\<close>)
  with m show ?thesis by (intro ends_mono [OF drop_socks_owned]) (auto simp: mgr_def)
qed

section \<open>Operations of the manager\<close>

lemma unregister_same: "desc (snd (Unregister ev epfd fd k)) = desc k"
  using desc_same(6) by (simp add: Unregister_def split_beta)

lemma register_same: "desc (snd (Register ev epfd fd events k)) = desc k"
  using desc_same(5) by (simp add: Register_def split_beta)

lemma removeListener_owned:
  assumes "mgr m ts k env"
  shows "ends (removeListener os ev fd m k) (\<lambda>(m', k'). mgr m' ts k' env \<and> goes {fd} m m')"
proof -
  obtain r k1 where un: "Unregister ev (tm_poller m) fd k = (r, k1)" by fastforce
  then have k1: "mgr m ts k1 env" using mgr_same [OF _ assms] unregister_same [of "tm_poller m" fd k] by simp
  show ?thesis
  proof (cases "map_of (listeners m) fd")
    case None
    with un k1 show ?thesis by (simp add: removeListener_def Listeners_Remove_def)
  next
    case (Some l)
    let ?ls = "AList.delete fd (listeners m)"
    have "watched m - {fd} \<subseteq> watched (m\<lparr>listeners := ?ls\<rparr>)" by (auto simp: watched_def AList.delete_eq image_iff)
    then have "goes {fd} m (m\<lparr>listeners := ?ls\<rparr>)" by (simp add: goes_def)
    with ends_bind [OF mgr_drop [OF mgr_listener(1) [OF k1 Some]], of ?ls
        "\<lambda>(ls, k2). Inr (m\<lparr>listeners := ls\<rparr>, k2)" "\<lambda>(m', k'). mgr m' ts k' env \<and> goes {fd} m m'"]
    show ?thesis using un Some by (auto simp: removeListener_def Listeners_Remove_def)
  qed
qed

lemma mgr_produced:
  assumes "mgr m (s # ts) k env" "sk_connected s"
  shows "\<not> ps_sealed (incoming m) \<Longrightarrow> mgr (m\<lparr>incoming := (incoming m)\<lparr>ps_sockets := ps_sockets (incoming m) @ [s]\<rparr>\<rparr>) ts k env"
    "\<not> ps_sealed (outgoing m) \<Longrightarrow> mgr (m\<lparr>outgoing := (outgoing m)\<lparr>ps_sockets := ps_sockets (outgoing m) @ [s]\<rparr>\<rparr>) ts k env"
  using assms own_cong [of "mgr_socks m @ s # ts" "mgr_socks (m\<lparr>incoming := (incoming m)\<lparr>ps_sockets := ps_sockets (incoming m) @ [s]\<rparr>\<rparr>) @ ts" k env]
    own_cong [of "mgr_socks m @ s # ts" "mgr_socks (m\<lparr>outgoing := (outgoing m)\<lparr>ps_sockets := ps_sockets (outgoing m) @ [s]\<rparr>\<rparr>) @ ts" k env]
  by (auto simp: mgr_def mgr_shape_def mgr_socks_def)

lemma watched_produced [simp]: "watched (m\<lparr>incoming := ps\<rparr>) = watched m" "watched (m\<lparr>outgoing := ps\<rparr>) = watched m"
  by (simp_all add: watched_def)

lemma add_incoming_owned:
  assumes "mgr m (s # ts) k env" "sk_connected s"
  shows "ends (Produced_Add os s (incoming m) k) (\<lambda>((added, ps), k'). mgr (m\<lparr>incoming := ps\<rparr>) ts k' env \<and> (added \<longrightarrow> k' = k))"
proof (cases "ps_sealed (incoming m)")
  case True
  have "ends (drop_sock os s (False, incoming m) k) (\<lambda>((added, ps), k'). mgr (m\<lparr>incoming := ps\<rparr>) ts k' env \<and> (added \<longrightarrow> k' = k))"
    by (rule mgr_drop_to [OF assms(1)]) simp
  with True assms(2) show ?thesis by (simp add: Produced_Add_def)
qed (use mgr_produced(1) [OF assms] assms(2) in \<open>simp add: Produced_Add_def\<close>)

lemma addConnected_owned:
  assumes "mgr m (s # ts) k env" "sk_connected s"
  shows "ends (addConnected os s m k) (\<lambda>((r, m'), k'). mgr m' ts k' env \<and> goes {} m m' \<and> (tm_stop m \<longrightarrow> m' = m) \<and>
    (r = kConnectError \<or> r = kConnectSuccess))"
proof -
  have stop: "tm_stop m \<Longrightarrow> ps_sealed (outgoing m)" using assms(1) by (simp add: mgr_def mgr_shape_def)
  have "ends (Produced_Add os s (outgoing m) k) (\<lambda>((added, ps), k'). mgr (m\<lparr>outgoing := ps\<rparr>) ts k' env \<and> (tm_stop m \<longrightarrow> ps = outgoing m))"
  proof (cases "ps_sealed (outgoing m)")
    case True
    have "ends (drop_sock os s (False, outgoing m) k) (\<lambda>((added, ps), k'). mgr (m\<lparr>outgoing := ps\<rparr>) ts k' env \<and>
        (tm_stop m \<longrightarrow> ps = outgoing m))"
      by (rule mgr_drop_to [OF assms(1)]) simp
    with True assms(2) show ?thesis by (simp add: Produced_Add_def)
  qed (use mgr_produced(2) [OF assms] assms(2) stop in \<open>auto simp: Produced_Add_def\<close>)
  with assms(2) show ?thesis
    unfolding addConnected_def by (auto simp: goes_def elim!: ends_bind)
qed

text \<open>The second half of a connect: the socket ends up in a container or is closed.\<close>

definition connected_to :: "TcpManager \<Rightarrow> Sock list \<Rightarrow> (int \<Rightarrow> (int \<times> bool) option) \<Rightarrow> (int \<times> TcpManager) \<times> 'k \<Rightarrow> bool" where
  "connected_to m ts env x \<longleftrightarrow> (case x of ((r, m'), k') \<Rightarrow> mgr m' ts k' env \<and> goes {} m m' \<and> (tm_stop m \<longrightarrow> m' = m) \<and>
     (r = kConnectError \<or> r = kConnectInProgress \<or> r = kConnectSuccess))"

lemma add_connected_to:
  "mgr m (s # ts) k env \<Longrightarrow> sk_connected s \<Longrightarrow> ends (addConnected os s m k) (connected_to m ts env)"
  by (rule ends_mono [OF addConnected_owned]) (auto simp: connected_to_def)

lemma drop_connected_to: "mgr m (s # ts) k env \<Longrightarrow> ends (drop_sock os s (kConnectError, m) k) (connected_to m ts env)"
  by (rule mgr_drop_to) (simp_all add: connected_to_def)

lemma connectBlocking_owned:
  assumes "mgr m (s # ts) k env" "sk_blocking s" "\<not> sk_connected s" "HasNonzeroIpPort peer"
  shows "ends (connectBlocking os s peer m k) (connected_to m ts env)"
proof -
  have s: "own (s # mgr_socks m @ ts) k env" "mgr_shape m" using assms(1) by (simp_all add: mgr_front)
  show ?thesis
    unfolding connectBlocking_def ends_dcheck
  proof (intro conjI, goal_cases)
    case 1
    show ?case using own_sock [OF s(1)] assms(2) by simp
  next
    case 2
    show ?case
    proof (rule ends_bind [OF connect_owned [OF s(1) assms(3,4)]], goal_cases)
      case (1 x)
      then obtain r s1 k1 where x: "x = (r, s1, k1)" "r = kConnectError \<or> r = kConnectSuccess"
        "s1 = s\<lparr>sk_connected := (r = kConnectSuccess)\<rparr>" "mgr m (s1 # ts) k1 env"
        using s(2) assms(2) by (cases x) (auto simp: mgr_front)
      then show ?case
        using add_connected_to [OF x(4)] drop_connected_to [OF x(4)] by (auto simp: kConnectError_def kConnectSuccess_def)
    qed
  qed
qed

lemma Connectors_Add_owned:
  assumes "mgr m (s # ts) k env" "\<not> sk_connected s" "\<not> sk_blocking s" "\<And>k. desc (snd (on_add (sk_fd s) k)) = desc k"
  shows "ends (Connectors_Add os (sk_fd s) \<lparr>c_socket = s, c_expiration = t\<rparr> on_add (connectors m) k)
    (\<lambda>((added, cs), k'). mgr (m\<lparr>connectors := cs\<rparr>) ts k' env \<and> set (fd2cs (connectors m)) \<subseteq> set (fd2cs cs) \<and>
      (tm_stop m \<longrightarrow> cs = connectors m))"
    (is "ends _ ?post")
proof -
  have drop: "ends (drop_sock os s (False, connectors m) k') ?post" if "mgr m (s # ts) k' env" for k'
    by (rule mgr_drop_to [OF that]) simp
  obtain added k1 where add: "on_add (sk_fd s) k = (added, k1)" by fastforce
  then have k1: "mgr m (s # ts) k1 env" using mgr_same [OF _ assms(1)] assms(4) [of k] by simp
  let ?cs = "(connectors m)\<lparr>fd2cs := fd2cs (connectors m) @ [(sk_fd s, \<lparr>c_socket = s, c_expiration = t\<rparr>)]\<rparr>"
  have "mgr (m\<lparr>connectors := ?cs\<rparr>) ts k1 env"
    using k1 assms(2,3) own_cong [of "mgr_socks m @ s # ts" "mgr_socks (m\<lparr>connectors := ?cs\<rparr>) @ ts" k1 env]
    by (auto simp: mgr_def mgr_shape_def mgr_socks_def)
  moreover have "tm_stop m \<Longrightarrow> cs_sealed (connectors m)" using assms(1) by (simp add: mgr_def mgr_shape_def)
  ultimately show ?thesis using add drop [OF k1] drop [OF assms(1)] assms(2) by (auto simp: Connectors_Add_def)
qed

lemma connectNonBlocking_owned:
  assumes "mgr m (s # ts) k env" "\<not> sk_blocking s" "\<not> sk_connected s" "HasNonzeroIpPort peer"
  shows "ends (connectNonBlocking os ev s peer timeout m k) (connected_to m ts env)"
proof -
  have s: "own (s # mgr_socks m @ ts) k env" "mgr_shape m" using assms(1) by (simp_all add: mgr_front)
  show ?thesis
    unfolding connectNonBlocking_def ends_dcheck
  proof (intro conjI, goal_cases)
    case 1
    show ?case using own_sock [OF s(1)] assms(2) by simp
  next
    case 2
    show ?case
    proof (rule ends_bind [OF connect_owned [OF s(1) assms(3,4)]], goal_cases)
      case (1 x)
      then obtain r s1 k1 where x: "x = (r, s1, k1)" "r = kConnectError \<or> r = kConnectInProgress \<or> r = kConnectSuccess"
        "s1 = s\<lparr>sk_connected := (r = kConnectSuccess)\<rparr>" "mgr m (s1 # ts) k1 env"
        using s(2) assms(2) by (cases x) (auto simp: mgr_front)
      obtain now k2 where now: "ev_now ev k1 = (now, k2)" by fastforce
      then have k2: "mgr m (s1 # ts) k2 env" using mgr_same [OF _ x(4)] desc_same(9) [of k1] by simp
      have "ends (rbind (Connectors_Add os (sk_fd s1) \<lparr>c_socket = s1, c_expiration = dur_add now timeout\<rparr>
          (\<lambda>fd k. let (r, k') = Register ev (tm_poller m) fd kOutgoingEvents k in (r = 0, k')) (connectors m) k2)
          (\<lambda>((added, cs), k3). Inr ((if added then kConnectInProgress else kConnectError, m\<lparr>connectors := cs\<rparr>), k3)))
          (connected_to m ts env)" if "\<not> sk_connected s1"
        by (rule ends_bind [OF Connectors_Add_owned [OF k2 that]])
          (use assms(2) x(3) register_same in \<open>auto simp: split_beta connected_to_def goes_def watched_def image_iff\<close>)
      then show ?case
        using x(2,3) now add_connected_to [OF x(4)] drop_connected_to [OF x(4)]
        by (auto simp: x(1) kConnectError_def kConnectSuccess_def kConnectInProgress_def)
    qed
  qed
qed

section \<open>The poller thread\<close>

lemma GetSocketError_same: "desc (snd (GetSocketError os fd k)) = desc k"
  using desc_same(4) [of fd k] by (simp add: GetSocketError_def split_beta)

lemma handleOneOutgoing_owned:
  assumes "mgr m ts k env"
  shows "ends (handleOneOutgoing os ev fd flag m k) (\<lambda>((handled, m'), k'). mgr m' ts k' env \<and> goes {fd} m m' \<and>
    (handled \<longleftrightarrow> fd \<in> fst ` set (fd2cs (connectors m))))" (is "ends _ ?post")
proof (cases "map_of (fd2cs (connectors m)) fd")
  case None
  then have "fd \<notin> fst ` set (fd2cs (connectors m))" by (simp add: map_of_eq_None_iff)
  with None assms show ?thesis by (simp add: handleOneOutgoing_def Connectors_Remove_def)
next
  case (Some c)
  let ?s = "c_socket c" and ?m = "m\<lparr>connectors := (connectors m)\<lparr>fd2cs := AList.delete fd (fd2cs (connectors m))\<rparr>\<rparr>"
  have mem: "fd \<in> fst ` set (fd2cs (connectors m))" using map_of_SomeD [OF Some] by force
  have gone: "goes {fd} m ?m" by (auto simp: goes_def watched_def AList.delete_eq image_iff)
  obtain r k1 where un: "Unregister ev (tm_poller m) fd k = (r, k1)" by fastforce
  obtain err k2 where e: "GetSocketError os fd k1 = (err, k2)" by fastforce
  have "desc k2 = desc k" using un e unregister_same [of "tm_poller m" fd k] GetSocketError_same [of fd k1] by simp
  from mgr_same [OF this mgr_connector(1) [OF assms Some]] have k2: "mgr ?m (?s # ts) k2 env" .
  have drop: "ends (drop_sock os ?s (True, ?m) k2) ?post"
    by (rule mgr_drop_to [OF k2]) (simp add: gone mem)
  have "mgr ?m (SetConnected ?s # ts) k2 env" using k2 by (simp add: mgr_front SetConnected_def own_flag)
  note added = addConnected_owned [OF this]
  have "goes {fd} m m'" if "goes {} ?m m'" for m' using goes_trans [OF gone that] by simp
  then have add: "ends (rbind (addConnected os (SetConnected ?s) ?m k2) (\<lambda>((_, m2), k3). Inr ((True, m2), k3))) ?post"
    using mem by (intro ends_bind [OF added]) (auto simp: SetConnected_def)
  have "Sock_IsNonBlocking os ?s k2 = Inr True" using own_sock(5) k2 mgr_connector(3) [OF assms Some] by (auto simp: mgr_front)
  with drop add mgr_connector(4) [OF assms Some] show ?thesis
    by (simp add: handleOneOutgoing_def Connectors_Remove_def Some un e Let_def)
qed

lemma remove_expired_split:
  "list_all (\<lambda>(fd, c). \<not> sk_connected (c_socket c)) cs \<Longrightarrow> \<exists>ex rest. remove_expired now cs = Inr (ex, rest) \<and>
     set rest \<subseteq> set cs \<and> mset (map snd cs) = mset ex + mset (map snd rest)"
  by (induction now cs rule: remove_expired.induct) force+

lemma unregister_all_same: "desc (unregister_all ev epfd fds k) = desc k"
  by (induction fds arbitrary: k) (simp_all add: unregister_same)

lemma removeExpiredOutgoing_owned:
  assumes "mgr m ts k env"
  shows "ends (removeExpiredOutgoing os ev m k) (\<lambda>(m', k'). mgr m' ts k' env \<and> tm_stop m' = tm_stop m)"
proof -
  obtain now k1 where now: "ev_now ev k = (now, k1)" by fastforce
  have "list_all (\<lambda>(fd, c). \<not> sk_connected (c_socket c)) (fd2cs (connectors m))"
    using assms by (auto simp: mgr_def mgr_shape_def list_all_iff)
  from remove_expired_split [OF this, of now] obtain ex rest where ex: "remove_expired now (fd2cs (connectors m)) = Inr (ex, rest)"
    "set rest \<subseteq> set (fd2cs (connectors m))" "mset (map snd (fd2cs (connectors m))) = mset ex + mset (map snd rest)" by blast
  let ?m = "m\<lparr>connectors := (connectors m)\<lparr>fd2cs := rest\<rparr>\<rparr>" and ?k = "unregister_all ev (tm_poller m) (map sk_fd (map c_socket ex)) k1"
  have "image_mset c_socket (mset (map snd (fd2cs (connectors m)))) = image_mset c_socket (mset ex + mset (map snd rest))"
    using ex(3) by (rule arg_cong)
  then have mset: "mset (mgr_socks m @ ts) = mset (mgr_socks ?m @ map c_socket ex @ ts)"
    by (simp add: mgr_socks_def mset_map multiset.map_comp comp_def)
  have "desc ?k = desc k" using unregister_all_same desc_same(9) [of k] now by simp
  from own_same [OF this own_cong [OF mset]] have "mgr ?m (map c_socket ex @ ts) ?k env"
    using assms ex(2) by (auto simp: mgr_def mgr_shape_def list_all_iff)
  from mgr_drops [OF this] show ?thesis
    by (auto simp: removeExpiredOutgoing_def now RemoveExpired_def ex(1) elim!: ends_bind)
qed

lemma Listeners_Shutdown_owned:
  "own (map (l_socket \<circ> snd) ls @ ss) k env \<Longrightarrow> ends (Listeners_Shutdown os ls k) (\<lambda>(ls', k').
     own (map (l_socket \<circ> snd) ls' @ ss) k' env \<and> map (\<lambda>(fd, l). (fd, sk_fd (l_socket l), sk_blocking (l_socket l))) ls' =
       map (\<lambda>(fd, l). (fd, sk_fd (l_socket l), sk_blocking (l_socket l))) ls)"
proof (induction ls arbitrary: k ss)
  case (Cons x ls)
  obtain fd l where x: "x = (fd, l)" by fastforce
  have "own (l_socket l # (map (l_socket \<circ> snd) ls @ ss)) k env" using Cons.prems by (simp add: x comp_def)
  from shutdown_owned [OF this] show ?case
    unfolding x Listeners_Shutdown.simps
  proof (rule ends_bind, goal_cases)
    case (1 y)
    then obtain k1 where y: "y = ((l_socket l)\<lparr>sk_connected := False\<rparr>, k1)"
      "own ((l_socket l)\<lparr>sk_connected := False\<rparr> # map (l_socket \<circ> snd) ls @ ss) k1 env" by auto
    let ?s = "(l_socket l)\<lparr>sk_connected := False\<rparr>"
    have "own (map (l_socket \<circ> snd) ls @ ?s # ss) k1 env" by (rule own_cong [OF _ y(2)]) simp
    from Cons.IH [OF this] show ?case
      unfolding y(1) prod.case
    proof (rule ends_bind, goal_cases)
      case (1 z)
      then obtain ls' k' where z: "z = (ls', k')" "own (map (l_socket \<circ> snd) ls' @ ?s # ss) k' env"
        "map (\<lambda>(fd, l). (fd, sk_fd (l_socket l), sk_blocking (l_socket l))) ls' =
         map (\<lambda>(fd, l). (fd, sk_fd (l_socket l), sk_blocking (l_socket l))) ls" by (cases z) (simp add: comp_def)
      have "own (?s # map (l_socket \<circ> snd) ls' @ ss) k' env" by (rule own_cong [OF _ z(2)]) simp
      with z(1,3) show ?case by (simp add: comp_def)
    qed
  qed
qed simp

text \<open>The end of the loop: a stopped manager has nothing left.\<close>

lemma Start_close_owned:
  assumes "mgr m ts k env" "tm_stop m"
  shows "ends (Start_close os m k) (\<lambda>((on, m'), k'). \<not> on \<and> mgr m' ts k' env \<and> tm_stop m' \<and> mgr_socks m' = [])"
proof -
  let ?ls = "map (l_socket \<circ> snd) (listeners m)" and ?cs = "map (c_socket \<circ> snd) (fd2cs (connectors m))"
  let ?m = "m\<lparr>listeners := [], connectors := (connectors m)\<lparr>fd2cs := []\<rparr>\<rparr>"
  have empty: "mgr_socks ?m = []" "mgr_shape ?m" "cs_sealed (connectors m)"
    using assms by (auto simp: mgr_def mgr_shape_def mgr_socks_def)
  have "mgr_socks m = ?ls @ ?cs" using assms by (auto simp: mgr_def mgr_shape_def mgr_socks_def)
  then have "own (?ls @ ?cs @ ts) k env" using assms(1) by (simp add: mgr_def)
  note ls = drop_socks_owned [OF this]
  have "ends (rbind (drop_socks os ?cs k1) (\<lambda>k2. Inr ((False, ?m), k2)))
      (\<lambda>((on, m'), k'). \<not> on \<and> mgr m' ts k' env \<and> tm_stop m' \<and> mgr_socks m' = [])" if "own (?cs @ ts) k1 env" for k1
    using empty assms(2) by (intro ends_bind [OF drop_socks_owned [OF that]]) (simp add: mgr_def)
  then have "ends (rbind (drop_socks os ?ls k) (\<lambda>k1. rbind (drop_socks os ?cs k1) (\<lambda>k2. Inr ((False, ?m), k2))))
      (\<lambda>((on, m'), k'). \<not> on \<and> mgr m' ts k' env \<and> tm_stop m' \<and> mgr_socks m' = [])"
    by (intro ends_bind [OF ls])
  moreover have "Start_close os m k = rbind (drop_socks os ?ls k) (\<lambda>k1. rbind (drop_socks os ?cs k1) (\<lambda>k2. Inr ((False, ?m), k2)))"
    using empty(3) by (simp add: Start_close_def Listeners_Close_def Connectors_Close_def rbind_def dcheck_def split: sum.splits)
  ultimately show ?thesis by simp
qed

lemma Stop_owned:
  assumes "mgr m ts k env" "TcpManager_invariant os m k"
  shows "ends (Stop os m k) (\<lambda>(m', k'). mgr m' ts k' env \<and> tm_stop m' \<and> watched m' = watched m)"
proof -
  let ?inc = "ps_sockets (incoming m)" and ?out = "ps_sockets (outgoing m)" and ?cs = "map (c_socket \<circ> snd) (fd2cs (connectors m))"
  let ?shapes = "map (\<lambda>(fd, l). (fd, sk_fd (l_socket l), sk_blocking (l_socket l)))"
  let ?m = "\<lambda>ls. m\<lparr>connectors := (connectors m)\<lparr>cs_sealed := True\<rparr>, incoming := \<lparr>ps_sealed = True, ps_sockets = []\<rparr>,
    outgoing := \<lparr>ps_sealed = True, ps_sockets = []\<rparr>, tm_stop := True, listeners := ls\<rparr>"
  let ?post = "\<lambda>(m', k'). mgr m' ts k' env \<and> tm_stop m' \<and> watched m' = watched m"
  have "own (map (l_socket \<circ> snd) (listeners m) @ ?inc @ ?out @ ?cs @ ts) k env"
    by (rule own_cong [of "mgr_socks m @ ts"]) (use assms(1) in \<open>simp_all add: mgr_def mgr_socks_def\<close>)
  note shut = Listeners_Shutdown_owned [OF this]
  have fin: "ends (rbind (drop_socks os ?inc k1) (\<lambda>k2. rbind (drop_socks os ?out k2) (\<lambda>k3. Inr (?m ls, k3)))) ?post"
    if ls: "own (map (l_socket \<circ> snd) ls @ ?inc @ ?out @ ?cs @ ts) k1 env" "?shapes ls = ?shapes (listeners m)" for ls k1
  proof -
    have shape: "mgr_shape (?m ls)"
    proof -
      have "list_all (\<lambda>(fd, f, b). fd = f \<and> \<not> b) (?shapes ls)"
        unfolding ls(2) using assms(1) by (auto simp: mgr_def mgr_shape_def list_all_iff)
      then show ?thesis using assms(1) by (auto simp: mgr_def mgr_shape_def list_all_iff)
    qed
    have "map fst (?shapes ls') = map fst ls'" for ls' by (simp add: split_beta comp_def)
    from this [of ls] this [of "listeners m"] ls(2) have "map fst ls = map fst (listeners m)" by metis
    then have "fst ` set ls = fst ` set (listeners m)" by (metis list.set_map)
    then have watch: "watched (?m ls) = watched m" by (simp add: watched_def)
    have "own (?inc @ ?out @ map (l_socket \<circ> snd) ls @ ?cs @ ts) k1 env" by (rule own_cong [OF _ ls(1)]) simp
    from drop_socks_owned [OF this] show ?thesis
      by (rule ends_bind, intro ends_bind [OF drop_socks_owned]) (use shape watch in \<open>auto simp: mgr_def mgr_socks_def\<close>)
  qed
  have "ends (rbind (Listeners_Shutdown os (listeners m) k) (\<lambda>(ls, k1). rbind (drop_socks os ?inc k1)
      (\<lambda>k2. rbind (drop_socks os ?out k2) (\<lambda>k3. Inr (?m ls, k3))))) ?post"
    using fin by (intro ends_bind [OF shut]) auto
  moreover have "Stop os m k = rbind (Listeners_Shutdown os (listeners m) k) (\<lambda>(ls, k1). rbind (drop_socks os ?inc k1)
      (\<lambda>k2. rbind (drop_socks os ?out k2) (\<lambda>k3. Inr (?m ls, k3))))"
    using assms(2) by (simp add: Stop_def Let_def Connectors_Seal_def Produced_Seal_def Produced_Close_def rbind_def dcheck_def
        split: sum.splits prod.splits)
  ultimately show ?thesis by simp
qed

lemma accept_unchecked:
  assumes "sk_fd l = fd" "\<not> sk_blocking l" "sk_family l = AF_INET \<or> sk_family l = AF_INET6" "desc k fd = Some (sk_family l, False)"
    "os_accept4 os fd ((if b then 0 else SOCK_NONBLOCK) OR SOCK_CLOEXEC) k = (new_fd, err, k1)" "0 \<le> new_fd"
    "SetTcpOption os new_fd TCP_NODELAY 1 k1 = (r, k2)" "r < 0"
  shows "TcpSocket_Accept os l b k = Some (Inr (new_fd, k1)) \<and> (\<exists>k'. TcpSocket_Create_fd os new_fd (sk_family l) b k1 = Inr (None, k'))"
proof -
  let ?s = "\<lparr>sk_fd = new_fd, sk_family = sk_family l, sk_blocking = b, sk_connected = True\<rparr> :: Sock"
  have l: "own [l] k ((desc k)(fd := None))" using assms(1-4) by (auto simp: own_def fun_eq_iff map_add_def)
  have s: "own [?s, l] k1 ((desc k)(fd := None))"
    using desc_accept [OF assms(4,5), unfolded socket_mode] assms(3,6) by (intro own_add [OF l]) simp_all
  have "desc k2 = desc k1" using assms(7) desc_setsockopt by (auto simp: SetTcpOption_def)
  from destroy_owned [OF own_same [OF this s]] obtain k3 where "Sock_destroy os ?s k2 = Inr k3" by (auto simp: ends_def)
  moreover have "Sock_new os new_fd (sk_family l) b True k1 = Inr ?s" "MatchesBlockingMode os new_fd b k1"
    using own_sock(1,2) [OF s] assms(3,6) by (auto simp: Sock_new_def Let_def MatchesBlocking_def MatchesBlockingMode_def split: if_splits)
  ultimately show ?thesis
    using own_sock [OF l] own_sock(1) [OF s] assms(1,5-8)
    by (auto simp: TcpSocket_Accept_def accept_loop.simps TcpSocket_Create_fd_def tcp_setup_def setNoDelay_def)
qed

end

text \<open>
  Every socket takes \<^verbatim>\<open>TCP_NODELAY\<close>. The poller thread needs it: it dereferences the result of
  \<^verbatim>\<open>TcpSocket::Create\<close> for an accepted connection without a check.
\<close>

locale nodelay_kernel = fd_kernel os ev desc signals
  for os :: "'k sock_os" and ev :: "'k event_os" and desc :: "'k \<Rightarrow> int \<Rightarrow> (int \<times> bool) option" and signals :: "'k \<Rightarrow> nat" +
  assumes nodelay: "desc k fd = Some (family, blocking) \<Longrightarrow> family = AF_INET \<or> family = AF_INET6 \<Longrightarrow>
    0 \<le> fst (SetTcpOption os fd TCP_NODELAY 1 k)"
begin

lemma accepted_owned:
  assumes "own (s # ss) k env" "sk_connected s"
  shows "\<exists>k'. TcpSocket_Create_fd os (sk_fd s) (sk_family s) (sk_blocking s) k = Inr (Some s, k') \<and>
    own (s # ss) k' env \<and> signals k' \<le> signals k"
proof -
  obtain r k1 where opt: "SetTcpOption os (sk_fd s) TCP_NODELAY 1 k = (r, k1)" by fastforce
  moreover have "Sock_new os (sk_fd s) (sk_family s) (sk_blocking s) True k = Inr s"
    using own_sock(1) [OF assms(1)] own_family [OF assms(1)] desc_sock [OF own_desc own_family, OF assms(1) assms(1)] assms(2)
    by (cases s) (simp add: Sock_new_def Let_def)
  moreover have "0 \<le> r" using nodelay [OF own_desc own_family, OF assms(1) assms(1)] opt by simp
  moreover have "desc k1 = desc k \<and> signals k1 \<le> signals k" using opt desc_setsockopt by (auto simp: SetTcpOption_def)
  ultimately show ?thesis
    using own_sock(1) [OF assms(1)] own_same [of k1 k] assms(1)
    by (auto simp: TcpSocket_Create_fd_def tcp_setup_def setNoDelay_def)
qed

lemma accept_all_owned:
  assumes "mgr m ts k env" "map_of (listeners m) fd = Some l"
  shows "ends (returned (accept_all os ev fd (l_socket l) b m k)) (\<lambda>(m', k'). mgr m' ts k' env \<and> goes {fd} m m')"
  using assms
proof (induction "signals k" arbitrary: k m rule: less_induct)
  case less
  let ?l = "l_socket l" and ?post = "\<lambda>(m', k'). mgr m' ts k' env \<and> goes {fd} m m'"
  let ?rest = "mgr_socks (m\<lparr>listeners := AList.delete fd (listeners m)\<rparr>) @ ts"
  have mset: "mset (mgr_socks m @ ts) = mset (?l # ?rest)"
    using mset_delete [OF mgr_keys(1) [OF less.prems(1)] less.prems(2)] by (simp add: mgr_socks_def mset_map)
  have shape: "mgr_shape m" using less.prems(1) by (simp add: mgr_def)
  have own: "own (?l # ?rest) k env" by (rule mgr_listener(3) [OF less.prems])
  have back_in: "mgr m ts k' env" if "own (?l # ?rest) k' env" for k'
    using own_cong [OF mset [symmetric] that] shape by (simp add: mgr_def)
  show ?case
  proof (cases "isStopped m")
    case True
    then show ?thesis using less.prems(1) by (subst accept_all.simps) (simp add: returned_def)
  next
    case False
    from accept_owned [OF own, of b] obtain ret k1 where acc: "TcpSocket_Accept os ?l b k = Some (Inr (ret, k1))"
      "if ret < 0 then own (?l # ?rest) k1 env
       else own (\<lparr>sk_fd = ret, sk_family = sk_family ?l, sk_blocking = b, sk_connected = True\<rparr> # ?l # ?rest) k1 env \<and> signals k1 < signals k"
      by (auto simp: ends_def returned_def split: option.splits)
    show ?thesis
    proof (cases "ret < 0")
      case True
      with acc(2) have k1: "mgr m ts k1 env" using back_in by simp
      with acc(1) True False removeListener_owned [OF k1] show ?thesis
        by (subst accept_all.simps) (simp add: returned_def)
    next
      case pos: False
      let ?s = "\<lparr>sk_fd = ret, sk_family = sk_family ?l, sk_blocking = b, sk_connected = True\<rparr> :: Sock"
      from acc(2) pos have s: "own (?s # ?l # ?rest) k1 env" "signals k1 < signals k" by simp_all
      from accepted_owned [OF s(1)] obtain k2 where cr: "TcpSocket_Create_fd os ret (sk_family ?l) b k1 = Inr (Some ?s, k2)"
        "own (?s # ?l # ?rest) k2 env" "signals k2 \<le> signals k1" by auto
      have "mgr m (?s # ts) k2 env" using own_cong [of "?s # ?l # ?rest" "?s # mgr_socks m @ ts"] mset cr(2) shape by (simp add: mgr_front)
      from add_incoming_owned [OF this] obtain added ps k3 where add: "Produced_Add os ?s (incoming m) k2 = Inr ((added, ps), k3)"
        "mgr (m\<lparr>incoming := ps\<rparr>) ts k3 env" "added \<longrightarrow> k3 = k2" by (auto simp: ends_def)
      have "goes {fd} m (m\<lparr>incoming := ps\<rparr>)" by (simp add: goes_def)
      moreover have "ends (returned (accept_all os ev fd ?l b (m\<lparr>incoming := ps\<rparr>) k3)) ?post" if added
        by (rule ends_mono [OF less.hyps]) (use add that s(2) cr(3) less.prems(2) in \<open>auto simp: goes_def\<close>)
      moreover have "MatchesBlocking os ?s k2" by (rule own_sock(2) [OF cr(2)])
      ultimately show ?thesis
        using False acc(1) pos cr(1) add(1,2) by (subst accept_all.simps) (simp add: returned_def)
    qed
  qed
qed

lemma handleAllIncoming_owned:
  assumes "mgr m ts k env"
  shows "ends (handleAllIncoming os ev fd flag b m k) (\<lambda>((handled, m'), k'). mgr m' ts k' env \<and> goes {fd} m m' \<and>
    (handled \<longleftrightarrow> fd \<in> fst ` set (listeners m)) \<and> (\<not> handled \<longrightarrow> m' = m))"
proof (cases "map_of (listeners m) fd")
  case None
  then have "fd \<notin> fst ` set (listeners m)" by (simp add: map_of_eq_None_iff)
  with None assms show ?thesis by (simp add: handleAllIncoming_def Listeners_Get_def)
next
  case (Some l)
  then have "fd \<in> fst ` set (listeners m)" using map_of_SomeD [OF Some] by force
  moreover have "ends (if flag AND (EPOLLERR OR EPOLLHUP) \<noteq> 0 then removeListener os ev fd m k
      else if flag AND EPOLLIN \<noteq> 0 then returned (accept_all os ev fd (l_socket l) b m k) else Inr (m, k))
      (\<lambda>(m', k'). mgr m' ts k' env \<and> goes {fd} m m')"
    using removeListener_owned [OF assms] accept_all_owned [OF assms Some] assms by simp
  ultimately show ?thesis
    by (auto simp: handleAllIncoming_def Listeners_Get_def Some elim!: ends_bind)
qed

lemma handle_events_owned:
  "mgr m ts k env \<Longrightarrow> distinct (map fst es) \<Longrightarrow> fst ` set es \<subseteq> watched m \<Longrightarrow>
     ends (handle_events os ev b es m k) (\<lambda>(m', k'). mgr m' ts k' env \<and> tm_stop m' = tm_stop m)"
proof (induction es arbitrary: m k)
  case (Cons e es)
  obtain fd flag where e: "e = (fd, flag)" by fastforce
  have rest: "ends (handle_events os ev b es m1 k1) (\<lambda>(m', k'). mgr m' ts k' env \<and> tm_stop m' = tm_stop m)"
    if m1: "mgr m1 ts k1 env" "goes {fd} m m1" for m1 k1
  proof -
    have "fst ` set es \<subseteq> watched m1" using Cons.prems(2,3) m1(2) by (force simp: goes_def e)
    from Cons.IH [OF m1(1) _ this] Cons.prems(2) m1(2) show ?thesis by (simp add: goes_def)
  qed
  from handleAllIncoming_owned [OF Cons.prems(1), of fd flag b]
  obtain handled m1 k1 where inc: "handleAllIncoming os ev fd flag b m k = Inr ((handled, m1), k1)" "mgr m1 ts k1 env" "goes {fd} m m1"
    "handled \<longleftrightarrow> fd \<in> fst ` set (listeners m)" "\<not> handled \<longrightarrow> m1 = m" by (auto simp: ends_def)
  show ?case
  proof (cases handled)
    case True
    with inc rest [OF inc(2,3)] show ?thesis by (simp add: e)
  next
    case False
    then have "fd \<in> fst ` set (fd2cs (connectors m))" using inc(4) Cons.prems(3) by (auto simp: watched_def e)
    with handleOneOutgoing_owned [OF inc(2), of fd flag] inc(5) False
    obtain m2 k2 where "handleOneOutgoing os ev fd flag m1 k1 = Inr ((True, m2), k2)" "mgr m2 ts k2 env" "goes {fd} m m2"
      by (auto simp: ends_def)
    with inc(1) False rest show ?thesis by (simp add: e)
  qed
qed simp

lemma Start_handle_owned:
  assumes "mgr m ts k env" "distinct (map fst (take (nat n) es))" "fst ` set (take (nat n) es) \<subseteq> watched m"
  shows "ends (Start_handle os ev b n es m k) (\<lambda>((on, m'), k'). mgr m' ts k' env \<and> tm_stop m' = tm_stop m \<and>
    (on \<longleftrightarrow> \<not> tm_stop m) \<and> (\<not> on \<longrightarrow> mgr_socks m' = []))"
proof (cases "tm_stop m")
  case True
  from Start_close_owned [OF assms(1) True] True show ?thesis
    unfolding Start_handle_def isStopped_def by (auto elim!: ends_mono)
next
  case False
  have "ends (if 0 < n then handle_events os ev b (take (nat n) es) m k else Inr (m, k)) (\<lambda>(m', k'). mgr m' ts k' env \<and> tm_stop m' = tm_stop m)"
    using handle_events_owned [OF assms] assms(1) by simp
  then show ?thesis
    unfolding Start_handle_def isStopped_def if_not_P [OF False]
  proof (rule ends_bind, goal_cases)
    case (1 x)
    then obtain m1 k1 where x: "x = (m1, k1)" "mgr m1 ts k1 env" "tm_stop m1 = tm_stop m" by auto
    with False show ?case unfolding x(1) prod.case by (intro ends_bind [OF removeExpiredOutgoing_owned [OF x(2)]]) auto
  qed
qed

end

end
