(* ===== verification/TcpSystem.thy ===== *)
theory TcpSystem
  imports TcpRuns
begin

text \<open>
  A TCP manager and the threads that use it, from its creation to the end of its loop: the step
  relation, its invariant by rule induction, and the properties of the manager.
\<close>

section \<open>Threads\<close>

text \<open>Where the poller thread is: not started, at the head of its loop, back from a wait, or past the loop.\<close>

datatype phase = NotStarted | Looping | Polled int "(int \<times> u32) list" | Ended

text \<open>
  A state has the manager, the poller thread, the connects in progress (each with its socket, its
  peer and its timeout), the sockets that were taken from the manager, and the kernel.
\<close>

type_synonym 'k tcp_state = "TcpManager \<times> phase \<times> (Sock \<times> Endpoint \<times> duration) list \<times> Sock list \<times> 'k"

text \<open>epoll reports descriptors that are registered, each once.\<close>

definition known :: "TcpManager \<Rightarrow> int \<Rightarrow> (int \<times> u32) list \<Rightarrow> bool" where
  "known m n es \<longleftrightarrow> distinct (map fst (take (nat n) es)) \<and> fst ` set (take (nat n) es) \<subseteq> watched m"

definition connect_rest :: "'k sock_os \<Rightarrow> 'k event_os \<Rightarrow> Sock \<Rightarrow> Endpoint \<Rightarrow> duration \<Rightarrow> TcpManager \<Rightarrow> 'k \<Rightarrow>
    ((int \<times> TcpManager) \<times> 'k) res" where
  "connect_rest os ev s peer timeout m k =
     (if sk_blocking s then connectBlocking os s peer m k else connectNonBlocking os ev s peer timeout m k)"

inductive tcp_step :: "'k sock_os \<Rightarrow> 'k event_os \<Rightarrow> bool \<Rightarrow> ('k \<Rightarrow> 'k \<Rightarrow> bool) \<Rightarrow> 'k tcp_state \<Rightarrow> 'k tcp_state \<Rightarrow> bool"
  for os :: "'k sock_os" and ev :: "'k event_os" and gen_blocking :: bool and net :: "'k \<Rightarrow> 'k \<Rightarrow> bool"
where
  enter: "Start_enter os m k = Inr () \<Longrightarrow>
    tcp_step os ev gen_blocking net (m, NotStarted, cs, ts, k) (m, Looping, cs, ts, k)"
| leave: "isStopped m \<Longrightarrow> Start_close os m k = Inr ((on, m'), k') \<Longrightarrow>
    tcp_step os ev gen_blocking net (m, Looping, cs, ts, k) (m', Ended, cs, ts, k')"
| wait: "\<not> isStopped m \<Longrightarrow> Start_wait ev m k = Inr (n, es, k') \<Longrightarrow> known m n es \<Longrightarrow>
    tcp_step os ev gen_blocking net (m, Looping, cs, ts, k) (m, Polled n es, cs, ts, k')"
| handle: "Start_handle os ev gen_blocking n es m k = Inr ((on, m'), k') \<Longrightarrow>
    tcp_step os ev gen_blocking net (m, Polled n es, cs, ts, k) (m', if on then Looping else Ended, cs, ts, k')"
| connect_open: "\<not> isStopped m \<Longrightarrow> HasNonzeroIpPort peer \<Longrightarrow> bound_socket os self peer blocking k = Inr (Some s, k') \<Longrightarrow>
    tcp_step os ev gen_blocking net (m, ph, cs, ts, k) (m, ph, (s, peer, timeout) # cs, ts, k')"
| connect_failed: "\<not> isStopped m \<Longrightarrow> HasNonzeroIpPort peer \<Longrightarrow> bound_socket os self peer blocking k = Inr (None, k') \<Longrightarrow>
    tcp_step os ev gen_blocking net (m, ph, cs, ts, k) (m, ph, cs, ts, k')"
| connect_done: "connect_rest os ev s peer timeout m k = Inr ((r, m'), k') \<Longrightarrow>
    tcp_step os ev gen_blocking net (m, ph, cs1 @ (s, peer, timeout) # cs2, ts, k) (m', ph, cs1 @ cs2, ts, k')"
| take_incoming: "GetIncomingSockets m = (ss, m') \<Longrightarrow>
    tcp_step os ev gen_blocking net (m, ph, cs, ts, k) (m', ph, cs, ss @ ts, k)"
| take_outgoing: "GetOutgoingSockets m = (ss, m') \<Longrightarrow>
    tcp_step os ev gen_blocking net (m, ph, cs, ts, k) (m', ph, cs, ss @ ts, k)"
| drop_taken: "Sock_destroy os s k = Inr k' \<Longrightarrow>
    tcp_step os ev gen_blocking net (m, ph, cs, ts1 @ s # ts2, k) (m, ph, cs, ts1 @ ts2, k')"
| stop: "Stop os m k = Inr (m', k') \<Longrightarrow>
    tcp_step os ev gen_blocking net (m, ph, cs, ts, k) (m', ph, cs, ts, k')"
| network: "net k k' \<Longrightarrow> tcp_step os ev gen_blocking net (m, ph, cs, ts, k) (m, ph, cs, ts, k')"

text \<open>A connect that runs without interruption is the two steps in a row.\<close>

lemma connect_is_steps:
  assumes "TcpManager_Connect os ev self peer blocking timeout m k = Inr ((r, m'), k')" "\<not> isStopped m"
    and mode: "\<And>s k1. bound_socket os self peer blocking k = Inr (Some s, k1) \<Longrightarrow> sk_blocking s = blocking"
  shows "(tcp_step os ev gen_blocking net)\<^sup>*\<^sup>* (m, ph, cs, ts, k) (m', ph, cs, ts, k')"
proof -
  from assms(1,2) have peer: "HasNonzeroIpPort peer" and
    bind: "rbind (bound_socket os self peer blocking k) (\<lambda>(so, k1). case so of None \<Rightarrow> Inr ((kConnectError, m), k1)
      | Some s \<Rightarrow> if blocking then connectBlocking os s peer m k1 else connectNonBlocking os ev s peer timeout m k1) = Inr ((r, m'), k')"
    by (auto simp: TcpManager_Connect_def dcheck_def split: if_splits)
  from bind obtain so k1 where opn: "bound_socket os self peer blocking k = Inr (so, k1)"
    by (auto simp: rbind_def split: sum.splits)
  show ?thesis
  proof (cases so)
    case None
    with bind opn connect_failed [OF assms(2) peer, of os self blocking k k1] show ?thesis by auto
  next
    case (Some s)
    with bind opn mode have "connect_rest os ev s peer timeout m k1 = Inr ((r, m'), k')" by (simp add: connect_rest_def)
    from connect_done [OF this, of gen_blocking net ph "[]" cs ts]
      connect_open [OF assms(2) peer, of os self blocking k s k1 ev gen_blocking net ph cs ts timeout]
    show ?thesis using opn Some by (auto intro: rtranclp_trans)
  qed
qed

section \<open>Creation\<close>

text \<open>\<open>safe r P\<close>: if the operation returns without a fault, its result fulfils \<open>P\<close>.\<close>

definition safe :: "'a res \<Rightarrow> ('a \<Rightarrow> bool) \<Rightarrow> bool" where
  "safe r P \<longleftrightarrow> (\<forall>x. r = Inr x \<longrightarrow> P x)"

lemma safe_simps [simp]: "safe (Inr x) P = P x" "safe (dcheck c r) P \<longleftrightarrow> (c \<longrightarrow> safe r P)"
  by (simp_all add: safe_def dcheck_def)

lemma safe_bind: "safe r P \<Longrightarrow> (\<And>x. P x \<Longrightarrow> safe (f x) Q) \<Longrightarrow> safe (rbind r f) Q"
  by (auto simp: safe_def rbind_def split: sum.splits)

lemma ends_safe: "ends r P \<Longrightarrow> safe r P"
  by (auto simp: safe_def ends_def)

abbreviation good_listener :: "int \<times> Listener \<Rightarrow> bool" where
  "good_listener \<equiv> \<lambda>(fd, l). fd = sk_fd (l_socket l) \<and> \<not> sk_blocking (l_socket l)"

definition lsocks :: "Listeners \<Rightarrow> Sock list" where
  "lsocks ls = map (l_socket \<circ> snd) ls"

context fd_kernel
begin

lemma createListener_owned:
  assumes "own ss k env"
  shows "safe (createListener os ev epfd e k) (\<lambda>((so, e1), k'). case so of None \<Rightarrow> own ss k' env
    | Some s \<Rightarrow> own (s # ss) k' env \<and> \<not> sk_blocking s)" (is "safe _ ?post")
proof -
  have drop: "safe (drop_sock os s (None, e') k') ?post" if "own (s # ss) k' env" for s e' k'
    by (rule ends_safe, rule ends_mono [OF drop_sock_owned [OF that]]) auto
  have fam: "AddressFamily (ep_ip e) = AF_INET \<or> AddressFamily (ep_ip e) = AF_INET6"
    by (cases "ep_ip e") (simp_all add: AddressFamily_def)
  show ?thesis
    unfolding createListener_def safe_simps
  proof (intro impI, rule safe_bind [OF ends_safe [OF create_owned [OF assms fam]]], goal_cases)
    case (1 x)
    obtain so k1 where x: "x = (so, k1)" by fastforce
    show ?case
    proof (cases so)
      case None
      with 1 x show ?thesis by simp
    next
      case (Some s)
      with 1 x have s: "own (s # ss) k1 env" "\<not> sk_blocking s" by simp_all
      have "own (s # ss) (snd (Register ev epfd (sk_fd s) kIncomingEvents k2)) env" if "own (s # ss) k2 env" for k2
        using own_same [OF _ that] desc_same(5) by (simp add: Register_def split_beta)
      then have "safe (rbind (TcpSocket_Listen os s e kTcpListenBacklog k1) (\<lambda>(ret, k2).
          if ret < 0 then drop_sock os s (None, e) k2
          else let e1 = SelfEndpoint os (sk_fd s) k2 in
            if \<not> HasNonzeroIpPort e1 then drop_sock os s (None, e) k2
            else let (ret, k3) = Register ev epfd (sk_fd s) kIncomingEvents k2 in
              if ret < 0 then drop_sock os s (None, e) k3 else Inr ((Some s, e1), k3))) ?post"
        using s(2) by (intro safe_bind [OF ends_safe [OF listen_owned [OF s(1)]]]) (auto simp: Let_def split_beta intro!: drop)
      with s show ?thesis by (simp add: x Some)
    qed
  qed
qed

lemma listen_endpoints_owned:
  "own (lsocks ls) k env \<Longrightarrow> list_all good_listener ls \<Longrightarrow>
   safe (listen_endpoints os ev epfd es ls nic k) (\<lambda>((ls', nic'), k'). own (lsocks ls') k' env \<and> list_all good_listener ls')"
proof (induction es arbitrary: ls nic k)
  case (Cons e es)
  show ?case
    unfolding listen_endpoints.simps
  proof (rule safe_bind [OF createListener_owned [OF Cons.prems(1)]], goal_cases)
    case (1 x)
    obtain so e1 k1 where x: "x = ((so, e1), k1)" by (metis prod.exhaust)
    show ?case
    proof (cases so)
      case None
      with 1 x Cons.IH [OF _ Cons.prems(2)] show ?thesis by simp
    next
      case (Some s)
      with 1 x have s: "own (s # lsocks ls) k1 env" "\<not> sk_blocking s" by simp_all
      let ?ls = "ls @ [(sk_fd s, \<lparr>l_socket = s, l_endpoint = e1\<rparr>)]"
      have "own (lsocks ?ls) k1 env" by (rule own_cong [OF _ s(1)]) (simp add: lsocks_def)
      moreover have "list_all good_listener ?ls" using Cons.prems(2) s(2) by simp
      ultimately show ?thesis using Cons.IH [of ?ls k1] by (auto simp: x Some)
    qed
  qed
qed simp

lemma listen_candidates_owned:
  "own (lsocks ls) k env \<Longrightarrow> list_all good_listener ls \<Longrightarrow>
   safe (listen_candidates os ev epfd nis ls host k) (\<lambda>((ls', host'), k'). own (lsocks ls') k' env \<and> list_all good_listener ls')"
proof (induction nis arbitrary: ls host k)
  case (Cons ni nis)
  show ?case
    unfolding listen_candidates.simps
    by (rule safe_bind [OF listen_endpoints_owned [OF Cons.prems]]) (use Cons.IH in \<open>auto split: prod.splits\<close>)
qed simp

text \<open>Without a manager everything is closed again; a manager owns its listeners, and the epoll instance is new.\<close>

definition created :: "'k \<Rightarrow> HostInfo \<Rightarrow> (TcpManager option \<times> HostInfo) \<times> 'k \<Rightarrow> bool" where
  "created k self x \<longleftrightarrow> (case x of ((mo, host), k') \<Rightarrow> (case mo of None \<Rightarrow> desc k' = desc k \<and> host = self
     | Some m \<Rightarrow> desc k (tm_poller m) = None \<and> \<not> tm_stop m \<and> tm_self m = host \<and>
         mgr m [] k' ((desc k)(tm_poller m \<mapsto> (0, True)))))"

lemma new_owned:
  assumes "own (lsocks ls) k' ((desc k)(epfd \<mapsto> (0, True)))" "list_all good_listener ls" "desc k epfd = None"
  shows "safe (rbind (TcpManager_new os host epfd ls k') (\<lambda>m. Inr ((Some m, host), k'))) (created k self)"
  using assms by (auto simp: safe_def TcpManager_new_def Let_def dcheck_def rbind_def created_def mgr_def mgr_shape_def mgr_socks_def lsocks_def
      split: if_splits)

lemma poller_closed:
  assumes "own [] k' ((desc k)(epfd \<mapsto> (0, True)))" "desc k epfd = None"
  shows "safe (rbind (Poller_destroy os epfd k') (\<lambda>k2. Inr ((None, self), k2))) (created k self)"
  using assms desc_close [of epfd k'] by (auto simp: safe_def Poller_destroy_def created_def own_def dcheck_def)

lemma Create_owned: "safe (TcpManager_Create L nos os ev self k) (created k self)"
proof -
  obtain ret k1 where ep: "ev_create ev k = (ret, k1)" by fastforce
  note law = desc_epoll [OF ep]
  show ?thesis
  proof (cases "ret < 0")
    case True
    with ep law show ?thesis by (simp add: TcpManager_Create_def Poller_Create_def created_def)
  next
    case False
    let ?env = "(desc k)(ret \<mapsto> (0, True))"
    have fresh: "desc k ret = None" and "own [] k1 ?env" using law False by (simp_all add: own_def)
    have fail: "safe (rbind (drop_socks os (map (l_socket \<circ> snd) ls) k2) (\<lambda>k3. rbind (Poller_destroy os ret k3)
        (\<lambda>k4. Inr ((None, self), k4)))) (created k self)" if "own (lsocks ls) k2 ?env" for ls k2
    proof (rule safe_bind [OF ends_safe])
      show "ends (drop_socks os (map (l_socket \<circ> snd) ls) k2) (\<lambda>k'. own [] k' ?env)"
        using that by (intro drop_socks_owned) (simp add: lsocks_def)
    qed (rule poller_closed [OF _ fresh])
    have "own (lsocks []) k1 ?env" "list_all good_listener []" using \<open>own [] k1 ?env\<close> by (simp_all add: lsocks_def)
    note listen = listen_candidates_owned [OF this]
    have "safe (rbind (listen_candidates os ev ret nis [] self k1) (\<lambda>((ls, host), k2).
        if ls = [] \<or> \<not> HostInfo_IsDataPlaneValid host then
          rbind (drop_socks os (map (l_socket \<circ> snd) ls) k2) (\<lambda>k3. rbind (Poller_destroy os ret k3) (\<lambda>k4. Inr ((None, self), k4)))
        else rbind (TcpManager_new os host ret ls k2) (\<lambda>m. Inr ((Some m, host), k2)))) (created k self)" for nis
    proof (rule safe_bind [OF listen], goal_cases)
      case (1 x)
      then obtain ls host k2 where x: "x = ((ls, host), k2)" "own (lsocks ls) k2 ?env" "list_all good_listener ls"
        by (auto split: prod.splits)
      show ?case
        unfolding x(1) prod.case
        by (cases "ls = [] \<or> \<not> HostInfo_IsDataPlaneValid host"; simp only: if_True if_False)
          (rule fail [OF x(2)], rule new_owned [OF x(2,3) fresh])
    qed
    with ep False poller_closed [OF \<open>own [] k1 ?env\<close> fresh] show ?thesis
      by (simp add: TcpManager_Create_def Poller_Create_def Let_def)
  qed
qed

lemma own_fresh: "own ss k (env(p \<mapsto> v)) \<Longrightarrow> s \<in> set ss \<Longrightarrow> sk_fd s \<noteq> p \<and> env (sk_fd s) = None"
  by (metis own_def fun_upd_apply option.distinct(1))

lemma Create_empty:
  "TcpManager_Create L nos os ev self k = Inr ((Some m, host), k') \<Longrightarrow>
     ps_sockets (incoming m) = [] \<and> ps_sockets (outgoing m) = [] \<and> fd2cs (connectors m) = []"
  by (auto simp: TcpManager_Create_def TcpManager_new_def Let_def dcheck_def rbind_def
      split: prod.splits option.splits if_splits sum.splits)

lemma create_accounts:
  "safe (TcpManager_Create L nos os ev self k) (\<lambda>((mo, host), k'). case mo of None \<Rightarrow> desc k' = desc k \<and> host = self
    | Some m \<Rightarrow> desc k (tm_poller m) = None \<and> distinct (tm_poller m # map sk_fd (mgr_socks m)) \<and>
        (\<forall>s \<in> set (mgr_socks m). desc k (sk_fd s) = None) \<and> mgr_socks m = map (l_socket \<circ> snd) (listeners m) \<and>
        desc k' = (desc k)(tm_poller m \<mapsto> (0, True)) ++ owned (mgr_socks m))" (is "safe _ ?P")
  unfolding safe_def
proof (intro allI impI)
  fix x assume x: "TcpManager_Create L nos os ev self k = Inr x"
  obtain mo host k' where eq: "x = ((mo, host), k')" by (metis prod.exhaust)
  have cr: "created k self ((mo, host), k')" using Create_owned [of L nos self k] x by (simp add: safe_def eq)
  show "?P x"
  proof (cases mo)
    case None
    with cr show ?thesis by (simp add: eq created_def)
  next
    case (Some m)
    with cr have m: "desc k (tm_poller m) = None" "own (mgr_socks m) k' ((desc k)(tm_poller m \<mapsto> (0, True)))"
      by (simp_all add: created_def mgr_def)
    have "\<forall>s \<in> set (mgr_socks m). sk_fd s \<noteq> tm_poller m \<and> desc k (sk_fd s) = None"
      using own_fresh [OF m(2)] by blast
    moreover have "mgr_socks m = map (l_socket \<circ> snd) (listeners m)"
      using Create_empty [of L nos self k m host k'] x by (simp add: eq Some mgr_socks_def)
    ultimately show ?thesis using m by (simp add: eq Some own_def image_iff) metis
  qed
qed

end

section \<open>The invariant\<close>

context nodelay_kernel
begin

definition sound :: "(int \<Rightarrow> (int \<times> bool) option) \<Rightarrow> 'k tcp_state \<Rightarrow> bool" where
  "sound env st \<longleftrightarrow> (case st of (m, ph, cs, ts, k) \<Rightarrow> mgr m (map fst cs @ ts) k env \<and>
     (\<forall>(s, peer, timeout) \<in> set cs. \<not> sk_connected s \<and> HasNonzeroIpPort peer) \<and>
     (case ph of Polled n es \<Rightarrow> known m n es | Ended \<Rightarrow> tm_stop m \<and> watched m = {} | _ \<Rightarrow> True))"

lemma known_mono: "known m n es \<Longrightarrow> watched m \<subseteq> watched m' \<Longrightarrow> known m' n es"
  by (auto simp: known_def)

lemma mgr_mset: "mset ts = mset ts' \<Longrightarrow> mgr m ts k env \<Longrightarrow> mgr m ts' k env"
  using own_cong [of "mgr_socks m @ ts" "mgr_socks m @ ts'"] by (simp add: mgr_def)

lemma connect_rest_owned:
  "mgr m (s # ts) k env \<Longrightarrow> \<not> sk_connected s \<Longrightarrow> HasNonzeroIpPort peer \<Longrightarrow>
     ends (connect_rest os ev s peer timeout m k) (connected_to m ts env)"
  by (simp add: connect_rest_def connectBlocking_owned connectNonBlocking_owned)

lemma watched_empty: "watched m = {} \<longleftrightarrow> listeners m = [] \<and> fd2cs (connectors m) = []"
  by (simp add: watched_def)

lemma taken_owned:
  assumes "mgr m ts k env" "GetIncomingSockets m = (ss, m') \<or> GetOutgoingSockets m = (ss, m')"
  shows "mgr m' (ss @ ts) k env \<and> watched m' = watched m \<and> tm_stop m' = tm_stop m"
proof -
  have "mset (mgr_socks m @ ts) = mset (mgr_socks m' @ ss @ ts)"
    using assms(2) by (auto simp: GetIncomingSockets_def GetOutgoingSockets_def MoveAll_def mgr_socks_def)
  from own_cong [OF this] show ?thesis
    using assms by (auto simp: mgr_def mgr_shape_def GetIncomingSockets_def GetOutgoingSockets_def MoveAll_def)
qed

lemma wait_same: "Start_wait ev m k = Inr (n, es, k') \<Longrightarrow> desc k' = desc k"
  using desc_same(7) [of "tm_poller m" kEpollMaxNumEvents kEpollWaitTimeoutMs k]
  by (auto simp: Start_wait_def BlockingWait_def dcheck_def split_beta split: if_splits)

lemma unwatched: "mgr_socks m = [] \<Longrightarrow> watched m = {}"
  by (simp add: watched_empty mgr_socks_def)

lemma opened_sound:
  assumes "sound env (m, ph, cs, ts, k)" "bound_socket os self peer blocking k = Inr (so, k')" "HasNonzeroIpPort peer"
  shows "sound env (m, ph, (case so of None \<Rightarrow> cs | Some s \<Rightarrow> (s, peer, timeout) # cs), ts, k')"
proof -
  have "own (mgr_socks m @ map fst cs @ ts) k env" "mgr_shape m" using assms(1) by (simp_all add: sound_def mgr_def)
  from endsD [OF bound_owned [OF this(1)] assms(2)] this(2) assms(1,3) show ?thesis
    by (cases so) (simp_all add: sound_def mgr_front, simp add: mgr_def)
qed

lemma done_sound:
  assumes "sound env (m, ph, cs1 @ (s, peer, timeout) # cs2, ts, k)" "connect_rest os ev s peer timeout m k = Inr ((r, m'), k')"
  shows "sound env (m', ph, cs1 @ cs2, ts, k')"
proof -
  have m: "mgr m (map fst cs1 @ s # map fst cs2 @ ts) k env" "\<not> sk_connected s" "HasNonzeroIpPort peer"
    using assms(1) by (auto simp: sound_def)
  have "mgr m (s # map fst (cs1 @ cs2) @ ts) k env" by (rule mgr_mset [OF _ m(1)]) simp
  from endsD [OF connect_rest_owned [OF this m(2,3)] assms(2)]
  have "mgr m' (map fst (cs1 @ cs2) @ ts) k' env" "goes {} m m'" "tm_stop m \<longrightarrow> m' = m" by (simp_all add: connected_to_def)
  with assms(1) show ?thesis by (auto simp: sound_def goes_def split: phase.splits intro: known_mono)
qed

lemma taken_sound:
  assumes "sound env (m, ph, cs, ts, k)" "GetIncomingSockets m = (ss, m') \<or> GetOutgoingSockets m = (ss, m')"
  shows "sound env (m', ph, cs, ss @ ts, k)"
proof -
  have "mgr m (map fst cs @ ts) k env" using assms(1) by (simp add: sound_def)
  note m = taken_owned [OF this assms(2)]
  then have "mgr m' (map fst cs @ ss @ ts) k env" using mgr_mset [of "ss @ map fst cs @ ts"] by simp
  with m assms(1) show ?thesis by (auto simp: sound_def known_def split: phase.splits)
qed

lemma dropped_sound:
  assumes "sound env (m, ph, cs, ts1 @ s # ts2, k)" "Sock_destroy os s k = Inr k'"
  shows "sound env (m, ph, cs, ts1 @ ts2, k')"
proof -
  have m: "mgr m (map fst cs @ ts1 @ s # ts2) k env" using assms(1) by (simp add: sound_def)
  have "mgr m (s # map fst cs @ ts1 @ ts2) k env" by (rule mgr_mset [OF _ m]) simp
  then have "own (s # mgr_socks m @ map fst cs @ ts1 @ ts2) k env" "mgr_shape m" by (simp_all add: mgr_front)
  from endsD [OF destroy_owned [OF this(1)] assms(2)] this(2) assms(1) show ?thesis by (simp add: sound_def mgr_def)
qed

lemma stopped_sound:
  assumes "sound env (m, ph, cs, ts, k)" "Stop os m k = Inr (m', k')"
  shows "sound env (m', ph, cs, ts, k')"
proof -
  have "mgr m (map fst cs @ ts) k env" "TcpManager_invariant os m k"
    using assms by (simp_all add: sound_def Stop_def dcheck_def split: if_splits)
  from endsD [OF Stop_owned [OF this] assms(2)] assms(1) show ?thesis
    by (auto simp: sound_def known_def split: phase.splits)
qed

lemma step_sound:
  assumes net: "\<And>k k'. net k k' \<Longrightarrow> desc k' = desc k"
    and step: "tcp_step os ev b net st st'" and st: "sound env st"
  shows "sound env st'"
  using step
proof (cases rule: tcp_step.cases)
  case (leave m k on m' k' cs ts)
  with st have m: "mgr m (map fst cs @ ts) k env" "tm_stop m" by (simp_all add: sound_def isStopped_def)
  from endsD [OF Start_close_owned [OF m] leave(4)] st leave(1,2) unwatched show ?thesis by (simp add: sound_def)
next
  case (wait m k n es k' cs ts)
  with st mgr_same [OF wait_same [OF wait(4)]] show ?thesis by (simp add: sound_def)
next
  case (handle n es m k on m' k' cs ts)
  with st have m: "mgr m (map fst cs @ ts) k env" "known m n es" by (simp_all add: sound_def)
  from endsD [OF Start_handle_owned [OF m(1)] handle(3)] m(2) st handle(1,2) unwatched
  show ?thesis by (auto simp: sound_def known_def)
next
  case (connect_open m peer self blocking k s k' ph cs ts timeout)
  with opened_sound [of env m ph cs ts k self peer blocking "Some s" k' timeout] st show ?thesis by simp
next
  case (connect_failed m peer self blocking k k' ph cs ts)
  with opened_sound [of env m ph cs ts k self peer blocking None k'] st show ?thesis by simp
next
  case (network k k' m ph cs ts)
  with st mgr_same [OF net [OF network(3)]] show ?thesis by (simp add: sound_def)
qed (use st in \<open>auto simp: sound_def [of env "(m, Looping, cs, ts, k)" for m cs ts k] sound_def [of env "(m, NotStarted, cs, ts, k)" for m cs ts k]
    intro: done_sound taken_sound dropped_sound stopped_sound\<close>)

lemma run_sound:
  assumes "\<And>k k'. net k k' \<Longrightarrow> desc k' = desc k" "(tcp_step os ev b net)\<^sup>*\<^sup>* st st'" "sound env st"
  shows "sound env st'"
  using assms(2,3) by (induction rule: rtranclp_induct) (use step_sound [OF assms(1)] in blast)+

lemma reach_sound:
  assumes "\<And>k k'. net k k' \<Longrightarrow> desc k' = desc k"
    "TcpManager_Create L nos os ev self k0 = Inr ((Some m0, host), k1)"
    "(tcp_step os ev b net)\<^sup>*\<^sup>* (m0, NotStarted, [], [], k1) st"
  shows "sound ((desc k0)(tm_poller m0 \<mapsto> (0, True))) st"
proof (rule run_sound [OF assms(1,3)])
  show "sound ((desc k0)(tm_poller m0 \<mapsto> (0, True))) (m0, NotStarted, [], [], k1)"
    using Create_owned [of L nos self k0] assms(2) by (simp add: safe_def created_def sound_def)
qed

lemma run_accounts:
  assumes "\<And>k k'. net k k' \<Longrightarrow> desc k' = desc k"
    "TcpManager_Create L nos os ev self k0 = Inr ((Some m0, host), k1)"
    "(tcp_step os ev b net)\<^sup>*\<^sup>* (m0, NotStarted, [], [], k1) (m, ph, cs, ts, k)"
  shows "distinct (map sk_fd (mgr_socks m @ map fst cs @ ts)) \<and>
    (\<forall>s \<in> set (mgr_socks m @ map fst cs @ ts). desc k0 (sk_fd s) = None \<and> sk_fd s \<noteq> tm_poller m0) \<and>
    desc k = (desc k0)(tm_poller m0 \<mapsto> (0, True)) ++ owned (mgr_socks m @ map fst cs @ ts) \<and>
    (ph = Ended \<longrightarrow> mgr_socks m = [])"
proof -
  let ?env = "(desc k0)(tm_poller m0 \<mapsto> (0, True))"
  have st: "sound ?env (m, ph, cs, ts, k)" by (rule reach_sound [OF assms])
  then have "own (mgr_socks m @ map fst cs @ ts) k ?env" by (simp add: sound_def mgr_def)
  moreover from this have "\<forall>s \<in> set (mgr_socks m @ map fst cs @ ts). desc k0 (sk_fd s) = None \<and> sk_fd s \<noteq> tm_poller m0"
    using own_fresh by blast
  moreover have "ph = Ended \<Longrightarrow> mgr_socks m = []"
    using st by (auto simp: sound_def mgr_def mgr_shape_def mgr_socks_def watched_empty)
  ultimately show ?thesis by (simp only: own_def) blast
qed

lemma mgr_modes: "mgr m ts k env \<Longrightarrow> s \<in> set (mgr_socks m @ ts) \<Longrightarrow> own (s # remove1 s (mgr_socks m @ ts)) k env"
  using own_cong [of "mgr_socks m @ ts" "s # remove1 s (mgr_socks m @ ts)"] by (simp add: mgr_def)

lemma mgr_invariant:
  assumes "mgr m ts k env" "HostInfo_IsDataPlaneValid (tm_self m)" "Listeners_Invariant os (listeners m) k"
  shows "TcpManager_invariant os m k"
proof -
  have "IsPairAndNonBlocking os fd (c_socket c) k" if "(fd, c) \<in> set (fd2cs (connectors m))" for fd c
  proof -
    have "c_socket c \<in> set (mgr_socks m @ ts)" using that by (force simp: mgr_socks_def)
    from own_sock(5) [OF mgr_modes [OF assms(1) this]] that assms(1) show ?thesis
      by (auto simp: IsPairAndNonBlocking_def IsPair_def mgr_def mgr_shape_def list_all_iff)
  qed
  then show ?thesis
    using assms by (auto simp: TcpManager_invariant_def Connectors_Invariant_def Produced_Invariant_def mgr_def mgr_shape_def list_all_iff)
qed

lemma run_never_faults:
  assumes "\<And>k k'. net k k' \<Longrightarrow> desc k' = desc k"
    "TcpManager_Create L nos os ev self k0 = Inr ((Some m0, host), k1)"
    "(tcp_step os ev b net)\<^sup>*\<^sup>* (m0, NotStarted, [], [], k1) (m, ph, cs, ts, k)"
  shows "(\<forall>n es. ph = Polled n es \<longrightarrow> (\<exists>m' k'. Start_handle os ev b n es m k = Inr ((\<not> isStopped m, m'), k'))) \<and>
    (isStopped m \<longrightarrow> (\<exists>m' k'. Start_close os m k = Inr ((False, m'), k'))) \<and>
    (\<forall>(s, peer, timeout) \<in> set cs. \<exists>r m' k'. connect_rest os ev s peer timeout m k = Inr ((r, m'), k')) \<and>
    (\<forall>s \<in> set ts. \<exists>k'. Sock_destroy os s k = Inr k') \<and>
    (HostInfo_IsDataPlaneValid (tm_self m) \<and> Listeners_Invariant os (listeners m) k \<longrightarrow>
       (\<exists>m' k'. Stop os m k = Inr (m', k') \<and> isStopped m'))"
proof -
  let ?env = "(desc k0)(tm_poller m0 \<mapsto> (0, True))"
  have st: "sound ?env (m, ph, cs, ts, k)" by (rule reach_sound [OF assms])
  then have m: "mgr m (map fst cs @ ts) k ?env" by (simp add: sound_def)
  have "\<exists>m' k'. Start_handle os ev b n es m k = Inr ((\<not> isStopped m, m'), k')" if "ph = Polled n es" for n es
    using Start_handle_owned [OF m, of n es b] st that by (auto simp: ends_def sound_def known_def isStopped_def)
  moreover have "\<exists>m' k'. Start_close os m k = Inr ((False, m'), k')" if "isStopped m"
    using Start_close_owned [OF m] that by (auto simp: ends_def isStopped_def)
  moreover have "\<exists>r m' k'. connect_rest os ev s peer timeout m k = Inr ((r, m'), k')" if "(s, peer, timeout) \<in> set cs" for s peer timeout
  proof -
    have "s \<in> set (map fst cs @ ts)" using that by force
    then have "mset (map fst cs @ ts) = mset (s # remove1 s (map fst cs @ ts))" by simp
    from connect_rest_owned [OF mgr_mset [OF this m]] st that show ?thesis by (fastforce simp: ends_def sound_def)
  qed
  moreover have "\<exists>k'. Sock_destroy os s k = Inr k'" if "s \<in> set ts" for s
    using destroy_owned [OF mgr_modes [OF m]] that by (auto simp: ends_def)
  moreover have "\<exists>m' k'. Stop os m k = Inr (m', k') \<and> isStopped m'"
    if "HostInfo_IsDataPlaneValid (tm_self m)" "Listeners_Invariant os (listeners m) k"
    using Stop_owned [OF m mgr_invariant [OF m that]] by (auto simp: ends_def isStopped_def)
  ultimately show ?thesis by auto
qed

end

end
