(* ===== verification/TcpProps.thy ===== *)
theory TcpProps
  imports TcpSystem
begin

text \<open>
  The properties of the TCP manager, and a small kernel that fulfils the laws they rest on: a table
  of descriptors, a number of connections waiting to be accepted, and whether \<^verbatim>\<open>TCP_NODELAY\<close> is
  accepted.
\<close>

section \<open>A kernel\<close>

record tcp_world =
  tw_tab :: "(nat \<times> int \<times> bool) list"
  tw_pending :: nat

definition tw_desc :: "tcp_world \<Rightarrow> int \<Rightarrow> (int \<times> bool) option" where
  "tw_desc k fd = (if fd < 0 then None else map_of (tw_tab k) (nat fd))"

definition tw_fresh :: "tcp_world \<Rightarrow> nat" where
  "tw_fresh k = Suc (foldr max (map fst (tw_tab k)) 2)"

definition tw_open :: "int \<Rightarrow> bool \<Rightarrow> tcp_world \<Rightarrow> int \<times> tcp_world" where
  "tw_open family blocking k = (int (tw_fresh k), k\<lparr>tw_tab := (tw_fresh k, family, blocking) # tw_tab k\<rparr>)"

definition tw_os :: "bool \<Rightarrow> tcp_world sock_os" where
  "tw_os nodelay = \<lparr>
     os_getfd = \<lambda>fd k. (if tw_desc k fd = None then - 1 else 0),
     os_getfl = \<lambda>fd k. (case tw_desc k fd of None \<Rightarrow> - 1 | Some (family, blocking) \<Rightarrow> if blocking then 0 else O_NONBLOCK),
     os_setfl = \<lambda>fd fl k. (case tw_desc k fd of None \<Rightarrow> (- 1, k)
       | Some (family, blocking) \<Rightarrow> (0, k\<lparr>tw_tab := (nat fd, family, fl AND O_NONBLOCK = 0) # tw_tab k\<rparr>)),
     os_socket = \<lambda>family t k. tw_open family (t AND SOCK_NONBLOCK = 0) k,
     os_setsockopt = \<lambda>fd level opt v k. (if nodelay \<or> level \<noteq> IPPROTO_TCP then 0 else - 1, k),
     os_so_error = \<lambda>fd k. (0, 0, 0, k),
     os_getsockname = \<lambda>fd k. (case tw_desc k fd of None \<Rightarrow> None
       | Some (family, blocking) \<Rightarrow> if family = AF_INET then Some (sockaddr_in 0x5000 0x0100000A)
           else if family = AF_INET6 then Some (sockaddr_in6 0x5000 1) else None),
     os_getpeername = \<lambda>fd k. None,
     os_bind = \<lambda>fd sa k. (0, k), os_listen = \<lambda>fd n k. (0, k),
     os_accept4 = \<lambda>fd fl k. (case tw_desc k fd of None \<Rightarrow> (- 1, EINVAL, k)
       | Some (family, blocking) \<Rightarrow> if tw_pending k = 0 then (- 1, EAGAIN, k)
           else let (new, k1) = tw_open family (fl AND SOCK_NONBLOCK = 0) k in (new, 0, k1\<lparr>tw_pending := tw_pending k - 1\<rparr>)),
     os_connect = \<lambda>fd sa k. (case tw_desc k fd of Some (family, False) \<Rightarrow> (- 1, EINPROGRESS, k) | _ \<Rightarrow> (0, 0, k)),
     os_shutdown = \<lambda>fd k. k,
     os_close = \<lambda>fd k. (if fd < 0 then k else k\<lparr>tw_tab := AList.delete (nat fd) (tw_tab k)\<rparr>),
     os_sendmsg = \<lambda>fd bufs k. (- 1, EAGAIN, k), os_writev = \<lambda>fd bufs k. (- 1, EAGAIN, k),
     os_readv = \<lambda>fd lens k. (- 1, EAGAIN, [], k)\<rparr>"

definition tw_ev :: "tcp_world event_os" where
  "tw_ev = \<lparr>
     ev_create = tw_open 0 True,
     ev_ctl_add = \<lambda>epfd fd events k. (0, k), ev_ctl_del = \<lambda>epfd fd k. (0, k),
     ev_wait = \<lambda>epfd n ms k. (1, 0, [(4, EPOLLIN)], k),
     ev_poll = \<lambda>fd ms k. (1, k), ev_now = \<lambda>k. (7, k)\<rparr>"

lemma tw_fresh_new: "map_of (tw_tab k) (tw_fresh k) = None"
proof -
  have "n \<le> foldr max xs 2" if "n \<in> set xs" for n :: nat and xs
    using that by (induction xs) (auto simp: le_max_iff_disj)
  from this [of _ "map fst (tw_tab k)"] have "n < tw_fresh k" if "n \<in> fst ` set (tw_tab k)" for n using that by (simp add: tw_fresh_def less_Suc_eq_le)
  from this [of "tw_fresh k"] show ?thesis by (auto simp: map_of_eq_None_iff)
qed

lemma tw_open_law:
  "tw_open family b k = (fd, k') \<Longrightarrow> \<not> fd < 0 \<and> tw_desc k fd = None \<and> tw_desc k' = (tw_desc k)(fd \<mapsto> (family, b)) \<and>
     tw_pending k' = tw_pending k"
  using tw_fresh_new [of k] by (auto simp: tw_open_def tw_desc_def fun_eq_iff)

lemma tw_pending_desc [simp]: "tw_desc (k\<lparr>tw_pending := n\<rparr>) = tw_desc k"
  by (simp add: tw_desc_def fun_eq_iff)

interpretation tw: fd_kernel "tw_os b" tw_ev tw_desc tw_pending for b
proof (unfold_locales, goal_cases)
  case (1 k fd family blocking)
  then have "0 \<le> fd" by (simp add: tw_desc_def split: if_splits)
  with 1 show ?case
    by (auto simp: tw_os_def IsValidSocket_def AddrFamily_def MatchesBlockingMode_def IsBlockingMode_def IsNonBlockingMode_def
        O_NONBLOCK_def)
next
  case (2 family t k fd k')
  with tw_open_law [of family _ k fd k'] show ?case by (auto simp: tw_os_def)
next
  case (3 k fd k')
  with tw_open_law [of 0 True k fd k'] show ?case by (auto simp: tw_ev_def)
next
  case (4 k l family blocking flags fd err k')
  then show ?case
    using tw_open_law [of family "flags AND SOCK_NONBLOCK = 0" k]
    by (auto simp: tw_os_def EAGAIN_def EINTR_def EPROTO_def ECONNABORTED_def split: if_splits prod.splits)
next
  case (5 k fd family blocking flags r k')
  then have "0 \<le> fd" by (simp add: tw_desc_def split: if_splits)
  with 5 show ?case by (auto simp: tw_os_def tw_desc_def fun_eq_iff)
next
  case (6 fd k)
  show ?case by (auto simp: tw_os_def tw_desc_def fun_eq_iff map_of_delete)
qed (auto simp: tw_os_def tw_ev_def split: option.splits bool.splits)

interpretation twn: nodelay_kernel "tw_os True" tw_ev tw_desc tw_pending
  by unfold_locales (simp add: tw_os_def SetTcpOption_def)

section \<open>Properties\<close>

text \<open>
  Creating a manager accounts for every descriptor. When \<^verbatim>\<open>TcpManager::Create\<close> returns no manager, all
  descriptors it opened are closed again and the host's description is unchanged. When it returns
  one, the new descriptors are its epoll instance and those of its listeners, one each.
\<close>

theorem tcp_create_accounts:
  assumes "fd_kernel os ev desc signals" "TcpManager_Create L nos os ev self k = Inr ((mo, host), k')"
  shows "case mo of None \<Rightarrow> desc k' = desc k \<and> host = self
    | Some m \<Rightarrow> desc k (tm_poller m) = None \<and> distinct (tm_poller m # map sk_fd (mgr_socks m)) \<and>
        (\<forall>s \<in> set (mgr_socks m). desc k (sk_fd s) = None) \<and> mgr_socks m = map (l_socket \<circ> snd) (listeners m) \<and>
        desc k' = (desc k)(tm_poller m \<mapsto> (0, True)) ++ owned (mgr_socks m)"
  using fd_kernel.create_accounts [OF assms(1), of L nos self k] assms(2) by (simp add: safe_def)

text \<open>
  C8. No descriptor is lost or closed twice, whatever the order in which threads start the manager,
  connect, take and drop sockets, and stop it: at every moment each open descriptor is one that
  existed before, the epoll instance, or belongs to exactly one socket, which is in one container
  of the manager, in a connect that has not returned, or taken. When the loop of \<^verbatim>\<open>Start\<close> has ended the manager
  owns none, also while connects that began before the stop are still returning.
\<close>

theorem tcp_descriptors_accounted:
  assumes "nodelay_kernel os ev desc signals" "\<And>k k'. net k k' \<Longrightarrow> desc k' = desc k"
    "TcpManager_Create L nos os ev self k0 = Inr ((Some m0, host), k1)"
    "(tcp_step os ev gen_blocking net)\<^sup>*\<^sup>* (m0, NotStarted, [], [], k1) (m, ph, cs, ts, k)"
  shows "distinct (map sk_fd (mgr_socks m @ map fst cs @ ts)) \<and>
    (\<forall>s \<in> set (mgr_socks m @ map fst cs @ ts). desc k0 (sk_fd s) = None \<and> sk_fd s \<noteq> tm_poller m0) \<and>
    desc k = (desc k0)(tm_poller m0 \<mapsto> (0, True)) ++ owned (mgr_socks m @ map fst cs @ ts) \<and>
    (ph = Ended \<longrightarrow> mgr_socks m = [])"
  using nodelay_kernel.run_accounts [OF assms(1) _ assms(3,4)] assms(2) by blast


text \<open>
  C39. An accepted connection whose socket refuses \<^verbatim>\<open>TCP_NODELAY\<close> ends the process: \<^verbatim>\<open>TcpSocket::Create\<close> closes the
  descriptor and returns null, and \<^verbatim>\<open>handleAllIncoming\<close> dereferences it.
\<close>

theorem accepted_socket_not_checked:
  assumes "fd_kernel os ev desc signals" "map_of (listeners m) fd = Some l" "\<not> isStopped m"
    "flag AND (EPOLLERR OR EPOLLHUP) = 0" "flag AND EPOLLIN \<noteq> 0"
    "sk_fd (l_socket l) = fd" "\<not> sk_blocking (l_socket l)" "sk_family (l_socket l) = AF_INET \<or> sk_family (l_socket l) = AF_INET6"
    "desc k fd = Some (sk_family (l_socket l), False)"
    "os_accept4 os fd ((if b then 0 else SOCK_NONBLOCK) OR SOCK_CLOEXEC) k = (new_fd, err, k1)" "0 \<le> new_fd"
    "SetTcpOption os new_fd TCP_NODELAY 1 k1 = (r, k2)" "r < 0"
  shows "handleAllIncoming os ev fd flag b m k = Inl NullDeref"
  using fd_kernel.accept_unchecked [OF assms(1,6-13)] assms(2-5,11)
  by (auto simp: handleAllIncoming_def Listeners_Get_def accept_all.simps returned_def)

section \<open>A run\<close>

text \<open>
  A host with one interface: descriptor 3 is the epoll instance, 4 the listener. A connect opens
  descriptor 5, the manager is stopped, the loop ends, and the connect returns.
\<close>

definition tw_self :: HostInfo where
  "tw_self = \<lparr>control_plane_listener = \<lparr>ep_ip = IPv4 0x0100000A, ep_port = 10000\<rparr>, data_plane_listeners = []\<rparr>"

definition tw_listener :: Sock where
  "tw_listener = \<lparr>sk_fd = 4, sk_family = AF_INET, sk_blocking = False, sk_connected = False\<rparr>"

definition tw_addr :: Endpoint where
  "tw_addr = \<lparr>ep_ip = IPv4 0x0100000A, ep_port = 80\<rparr>"

definition tw_host :: HostInfo where
  "tw_host = tw_self\<lparr>data_plane_listeners := [\<lparr>nic_name = ''eth0'', nic_type = kIP, endpoints = [tw_addr]\<rparr>]\<rparr>"

definition tw_mgr :: TcpManager where
  "tw_mgr = \<lparr>tm_self = tw_host, tm_stop = False, tm_poller = 3, listeners = [(4, \<lparr>l_socket = tw_listener, l_endpoint = tw_addr\<rparr>)],
     connectors = \<lparr>cs_sealed = False, fd2cs = []\<rparr>, incoming = \<lparr>ps_sealed = False, ps_sockets = []\<rparr>,
     outgoing = \<lparr>ps_sealed = False, ps_sockets = []\<rparr>\<rparr>"

abbreviation tw_k :: "nat \<Rightarrow> (nat \<times> int \<times> bool) list \<Rightarrow> tcp_world" where
  "tw_k n tab \<equiv> \<lparr>tw_tab = tab, tw_pending = n\<rparr>"

lemma tw_calls:
  "os_getfd (tw_os b) fd k = (if tw_desc k fd = None then - 1 else 0)"
  "os_getfl (tw_os b) fd k = (case tw_desc k fd of None \<Rightarrow> - 1 | Some (family, blocking) \<Rightarrow> if blocking then 0 else O_NONBLOCK)"
  "os_socket (tw_os b) family t k = tw_open family (t AND SOCK_NONBLOCK = 0) k"
  "os_setsockopt (tw_os b) fd level opt v k = (if b \<or> level \<noteq> IPPROTO_TCP then 0 else - 1, k)"
  "os_getsockname (tw_os b) fd k = (case tw_desc k fd of None \<Rightarrow> None
     | Some (family, blocking) \<Rightarrow> if family = AF_INET then Some (sockaddr_in 0x5000 0x0100000A)
         else if family = AF_INET6 then Some (sockaddr_in6 0x5000 1) else None)"
  "os_bind (tw_os b) fd sa k = (0, k)" "os_listen (tw_os b) fd n k = (0, k)" "os_shutdown (tw_os b) fd k = k"
  "os_connect (tw_os b) fd sa k = (case tw_desc k fd of Some (family, False) \<Rightarrow> (- 1, EINPROGRESS, k) | _ \<Rightarrow> (0, 0, k))"
  "os_close (tw_os b) fd k = (if fd < 0 then k else k\<lparr>tw_tab := AList.delete (nat fd) (tw_tab k)\<rparr>)"
  "ev_create tw_ev k = tw_open 0 True k" "ev_ctl_add tw_ev epfd fd events k = (0, k)"
  "ev_wait tw_ev epfd n ms k = (1, 0, [(4, EPOLLIN)], k)" "ev_now tw_ev k = (7, k)"
  by (simp_all add: tw_os_def tw_ev_def)

lemmas tw_state = tw_calls tw_open_def tw_fresh_def tw_desc_def

lemmas tw_socket = IsValidSocket_def AddrFamily_def IsBlockingMode_def IsNonBlockingMode_def MatchesBlockingMode_def MatchesBlocking_def
  Sock_invariant_def Sock_IsNonBlocking_def Sock_IsBlocking_def O_NONBLOCK_def SelfEndpoint_def

lemma tw_listener_created:
  "createListener (tw_os True) tw_ev 3 \<lparr>ep_ip = IPv4 0x0100000A, ep_port = 0\<rparr> (tw_k 1 [(3, 0, True)]) =
     Inr ((Some tw_listener, tw_addr), tw_k 1 [(4, AF_INET, False), (3, 0, True)])"
proof -
  have addr: "Endpoint_Create_ss (sockaddr_in 0x5000 0x0100000A) = tw_addr" "HasNonzeroIpPort tw_addr"
    "\<not> HasZeroIpAddr \<lparr>ep_ip = IPv4 0x0100000A, ep_port = 0\<rparr>" "AddressFamily (IPv4 0x0100000A) = AF_INET"
    by code_simp+
  show ?thesis
    by (simp add: createListener_def TcpSocket_Create_def CreateSocket_def tcp_setup_def setNoDelay_def SetTcpOption_def Sock_new_def
        TcpSocket_Listen_def SetSocketOption_def SocketBase_Bind_def BuildSockaddr_def BuildIPv4Sockaddr_def Register_def
        tw_state tw_socket tw_listener_def addr SOCK_STREAM_def SOCK_NONBLOCK_def SOCK_CLOEXEC_def Endpoint_IPv4Addr_def IsIPv4_def Let_def)
qed

lemma tw_invariant:
  "TcpManager_invariant (tw_os True) tw_mgr (tw_k 1 [(4, AF_INET, False), (3, 0, True)])"
proof -
  have "HostInfo_IsDataPlaneValid tw_host" "Endpoint_Create_ss (sockaddr_in 0x5000 0x0100000A) = tw_addr" "HasNonzeroIpPort tw_addr"
    by code_simp+
  then show ?thesis
    by (simp add: TcpManager_invariant_def tw_mgr_def Listeners_Invariant_def Connectors_Invariant_def Produced_Invariant_def
        IsPairAndNonBlocking_def IsPair_def tw_state tw_socket tw_listener_def)
qed

lemma tw_created:
  "TcpManager_Create demo_lib demo_os (tw_os True) tw_ev tw_self (tw_k 1 []) =
     Inr ((Some tw_mgr, tw_host), tw_k 1 [(4, AF_INET, False), (3, 0, True)])"
proof -
  have addr: "HasNonzeroIpPort tw_addr" "HostInfo_IsDataPlaneValid tw_host" "\<not> IsLoopback (ep_ip (control_plane_listener tw_self))"
    "NicInfo_IsValid \<lparr>nic_name = ''eth0'', nic_type = kIP, endpoints = [tw_addr]\<rparr>"
    "Endpoint_Create_ss (sockaddr_in 0x5000 0x0100000A) = tw_addr"
    by code_simp+
  have "SelfEndpoint (tw_os True) 4 (tw_k 1 [(4, AF_INET, False), (3, 0, True)]) = tw_addr"
    by (simp add: SelfEndpoint_def tw_state addr)
  then have "listen_candidates (tw_os True) tw_ev 3 [demo_candidate] [] tw_self (tw_k 1 [(3, 0, True)]) =
    Inr ((listeners tw_mgr, tw_host), tw_k 1 [(4, AF_INET, False), (3, 0, True)])"
    using addr tw_listener_created by (simp add: demo_candidate_def tw_mgr_def tw_listener_def tw_host_def tw_self_def)
  moreover have "TcpManager_new (tw_os True) tw_host 3 (listeners tw_mgr) (tw_k 1 [(4, AF_INET, False), (3, 0, True)]) = Inr tw_mgr"
    using tw_invariant by (simp add: TcpManager_new_def TcpManager_invariant_def tw_mgr_def)
  ultimately show ?thesis
    using addr demo_candidates by (simp add: TcpManager_Create_def Poller_Create_def tw_state tw_mgr_def del: listen_candidates.simps)
qed

definition tw_conn :: Sock where
  "tw_conn = \<lparr>sk_fd = 5, sk_family = AF_INET, sk_blocking = False, sk_connected = False\<rparr>"

definition tw_stopped :: "Listeners \<Rightarrow> TcpManager" where
  "tw_stopped ls = tw_mgr\<lparr>tm_stop := True, listeners := ls, connectors := \<lparr>cs_sealed = True, fd2cs = []\<rparr>,
     incoming := \<lparr>ps_sealed = True, ps_sockets = []\<rparr>, outgoing := \<lparr>ps_sealed = True, ps_sockets = []\<rparr>\<rparr>"

lemma tw_connecting:
  "bound_socket (tw_os True) Endpoint_default tw_addr False (tw_k 1 [(4, AF_INET, False), (3, 0, True)]) =
     Inr (Some tw_conn, tw_k 1 [(5, AF_INET, False), (4, AF_INET, False), (3, 0, True)])"
proof -
  have addr: "AddressFamily (ep_ip tw_addr) = AF_INET" "HasZeroIpAddr Endpoint_default" by code_simp+
  show ?thesis
    by (simp add: bound_socket_def TcpSocket_Create_def CreateSocket_def tcp_setup_def setNoDelay_def SetTcpOption_def Sock_new_def
        tw_state tw_socket tw_conn_def addr SOCK_STREAM_def SOCK_NONBLOCK_def SOCK_CLOEXEC_def Let_def)
qed

lemma tw_stop:
  "Stop (tw_os True) tw_mgr (tw_k 1 [(5, AF_INET, False), (4, AF_INET, False), (3, 0, True)]) =
     Inr (tw_stopped (listeners tw_mgr), tw_k 1 [(5, AF_INET, False), (4, AF_INET, False), (3, 0, True)])"
proof -
  have "HostInfo_IsDataPlaneValid tw_host" "Endpoint_Create_ss (sockaddr_in 0x5000 0x0100000A) = tw_addr" "HasNonzeroIpPort tw_addr"
    by code_simp+
  then show ?thesis
    by (simp add: Stop_def TcpManager_invariant_def tw_mgr_def Listeners_Invariant_def Connectors_Invariant_def Produced_Invariant_def
        IsPairAndNonBlocking_def IsPair_def tw_state tw_socket tw_listener_def Connectors_Seal_def Produced_Seal_def
        Produced_Close_def Sock_Shutdown_def tw_stopped_def Let_def)
qed

lemma tw_close:
  "Start_close (tw_os True) (tw_stopped (listeners tw_mgr)) (tw_k 1 [(5, AF_INET, False), (4, AF_INET, False), (3, 0, True)]) =
     Inr ((False, tw_stopped []), tw_k 1 [(5, AF_INET, False), (3, 0, True)])"
  by (simp add: Start_close_def Listeners_Close_def Connectors_Close_def tw_stopped_def tw_mgr_def Sock_destroy_def tw_state tw_socket
      tw_listener_def)

lemma tw_run:
  "(tcp_step (tw_os True) tw_ev b (\<lambda>_ _. False))\<^sup>*\<^sup>*
     (tw_mgr, NotStarted, [], [], tw_k 1 [(4, AF_INET, False), (3, 0, True)])
     (tw_stopped [], Ended, [(tw_conn, tw_addr, Dur 9)], [], tw_k 1 [(5, AF_INET, False), (3, 0, True)])"
proof -
  let ?step = "tcp_step (tw_os True) tw_ev b (\<lambda>_ _. False)"
  note rtranclp.rtrancl_into_rtrancl [trans]
  have "?step\<^sup>*\<^sup>* (tw_mgr, NotStarted, [], [], tw_k 1 [(4, AF_INET, False), (3, 0, True)])
      (tw_mgr, NotStarted, [], [], tw_k 1 [(4, AF_INET, False), (3, 0, True)])" by simp
  also have "?step \<dots> (tw_mgr, Looping, [], [], tw_k 1 [(4, AF_INET, False), (3, 0, True)])"
    using tw_invariant by (intro enter) (simp add: Start_enter_def)
  also have "?step \<dots> (tw_mgr, Looping, [(tw_conn, tw_addr, Dur 9)], [], tw_k 1 [(5, AF_INET, False), (4, AF_INET, False), (3, 0, True)])"
    by (intro connect_open [OF _ _ tw_connecting]) (simp add: isStopped_def tw_mgr_def, code_simp)
  also have "?step \<dots> (tw_stopped (listeners tw_mgr), Looping, [(tw_conn, tw_addr, Dur 9)], [],
      tw_k 1 [(5, AF_INET, False), (4, AF_INET, False), (3, 0, True)])"
    by (intro stop tw_stop)
  also have "?step \<dots> (tw_stopped [], Ended, [(tw_conn, tw_addr, Dur 9)], [], tw_k 1 [(5, AF_INET, False), (3, 0, True)])"
    by (intro leave [OF _ tw_close]) (simp add: isStopped_def tw_stopped_def)
  finally show ?thesis .
qed

theorem tcp_create_accounts_witness:
  "TcpManager_Create demo_lib demo_os (tw_os True) tw_ev tw_self (tw_k 1 []) =
     Inr ((Some tw_mgr, tw_host), tw_k 1 [(4, AF_INET, False), (3, 0, True)]) \<and>
   tw_desc (tw_k 1 [(4, AF_INET, False), (3, 0, True)]) = (tw_desc (tw_k 1 []))(3 \<mapsto> (0, True)) ++ owned [tw_listener]"
  using tcp_create_accounts [OF tw.fd_kernel_axioms tw_created] tw_created by (simp add: tw_mgr_def mgr_socks_def)

theorem tcp_descriptors_accounted_witness:
  "(tcp_step (tw_os True) tw_ev False (\<lambda>_ _. False))\<^sup>*\<^sup>*
     (tw_mgr, NotStarted, [], [], tw_k 1 [(4, AF_INET, False), (3, 0, True)])
     (tw_stopped [], Ended, [(tw_conn, tw_addr, Dur 9)], [], tw_k 1 [(5, AF_INET, False), (3, 0, True)]) \<and>
   mgr_socks (tw_stopped []) = [] \<and>
   tw_desc (tw_k 1 [(5, AF_INET, False), (3, 0, True)]) = (tw_desc (tw_k 1 []))(3 \<mapsto> (0, True)) ++ owned [tw_conn]"
  using tcp_descriptors_accounted [OF twn.nodelay_kernel_axioms _ tw_created tw_run [of False]] tw_run [of False]
  by (simp add: tw_mgr_def)


theorem accepted_socket_not_checked_witness:
  "handleAllIncoming (tw_os False) tw_ev 4 EPOLLIN True tw_mgr (tw_k 1 [(4, AF_INET, False), (3, 0, True)]) = Inl NullDeref"
  by (rule accepted_socket_not_checked [OF tw.fd_kernel_axioms, where l = "\<lparr>l_socket = tw_listener, l_endpoint = tw_addr\<rparr>"
        and new_fd = 5 and err = 0 and r = "- 1"])
    (simp_all add: tw_mgr_def tw_listener_def isStopped_def EPOLLIN_def EPOLLERR_def EPOLLHUP_def tw_state SOCK_CLOEXEC_def
      SOCK_NONBLOCK_def SetTcpOption_def, simp_all add: tw_os_def tw_state SOCK_CLOEXEC_def SOCK_NONBLOCK_def)

end
