(* ===== verification/Route.thy ===== *)
theory Route
  imports Nic Socket
begin

text \<open>
  \<^verbatim>\<open>internal/routing/route\<close>: whether packets from one address to another leave through the interface of
  the first. The kernel is asked over a netlink socket: the request is built byte by byte in a
  buffer of the stack, and the reply is walked with the macros of \<^verbatim>\<open>linux/netlink.h\<close> and
  \<^verbatim>\<open>linux/rtnetlink.h\<close>. A pointer into the reply is the rest of the buffer from there on, and a read
  past its end is the fault \<open>OutOfBounds\<close>. The host is little-endian. Answers are cached.
\<close>

section \<open>Netlink messages\<close>

record nlmsghdr =
  nlmsg_len :: u32
  nlmsg_type :: u16
  nlmsg_flags :: u16
  nlmsg_seq :: u32
  nlmsg_pid :: u32

record rtmsg =
  rtm_family :: u8
  rtm_dst_len :: u8
  rtm_src_len :: u8
  rtm_tos :: u8
  rtm_table :: u8
  rtm_protocol :: u8
  rtm_scope :: u8
  rtm_type :: u8
  rtm_flags :: u32

record RouteRequest =
  rr_nlh :: nlmsghdr
  rr_rtm :: rtmsg
  rr_attrs :: "byte list"

definition NLMSG_HDRLEN :: nat where "NLMSG_HDRLEN = 16"
definition sizeof_rtmsg :: nat where "sizeof_rtmsg = 12"
definition sizeof_attrs :: nat where "sizeof_attrs = 64"
definition NLMSG_ALIGN :: "nat \<Rightarrow> nat" where "NLMSG_ALIGN n = (n + 3) div 4 * 4"
definition RTA_ALIGN :: "nat \<Rightarrow> nat" where "RTA_ALIGN n = (n + 3) div 4 * 4"
definition RTA_LENGTH :: "nat \<Rightarrow> nat" where "RTA_LENGTH n = 4 + n"

definition RTM_NEWROUTE :: u16 where "RTM_NEWROUTE = 24"
definition RTM_GETROUTE :: u16 where "RTM_GETROUTE = 26"
definition NLM_F_REQUEST :: u16 where "NLM_F_REQUEST = 1"
definition RTA_DST :: u16 where "RTA_DST = 1"
definition RTA_SRC :: u16 where "RTA_SRC = 2"
definition RTA_OIF :: u16 where "RTA_OIF = 4"

lemmas nl_consts = NLMSG_HDRLEN_def sizeof_rtmsg_def sizeof_attrs_def NLMSG_ALIGN_def RTA_ALIGN_def RTA_LENGTH_def

definition nlmsghdr_bytes :: "nlmsghdr \<Rightarrow> byte list" where
  "nlmsghdr_bytes h = to_le 4 (nlmsg_len h) @ to_le 2 (nlmsg_type h) @ to_le 2 (nlmsg_flags h) @ to_le 4 (nlmsg_seq h) @
     to_le 4 (nlmsg_pid h)"

definition rtmsg_bytes :: "rtmsg \<Rightarrow> byte list" where
  "rtmsg_bytes r = [rtm_family r, rtm_dst_len r, rtm_src_len r, rtm_tos r, rtm_table r, rtm_protocol r, rtm_scope r, rtm_type r] @
     to_le 4 (rtm_flags r)"

section \<open>The request\<close>

definition overwrite :: "byte list \<Rightarrow> nat \<Rightarrow> byte list \<Rightarrow> byte list res" where
  "overwrite xs off bs = (if off + length bs \<le> length xs then Inr (take off xs @ bs @ drop (off + length bs) xs) else Inl OutOfBounds)"

text \<open>The attributes follow the two headers; a write in front of them is refused as well.\<close>

definition AppendRouteAttr :: "RouteRequest \<Rightarrow> u16 \<Rightarrow> IpAddr \<Rightarrow> RouteRequest res" where
  "AppendRouteAttr r type ip =
     (let (addr, len) = RawAddrAndLen ip;
          p = NLMSG_ALIGN (unat (nlmsg_len (rr_nlh r)));
          rta_len = RTA_LENGTH len
      in if p < NLMSG_HDRLEN + sizeof_rtmsg then Inl OutOfBounds
         else rbind (overwrite (rr_attrs r) (p - (NLMSG_HDRLEN + sizeof_rtmsg))
                 (to_le 2 (of_nat rta_len :: u16) @ to_le 2 type @ take len addr)) (\<lambda>attrs.
           Inr (r\<lparr>rr_attrs := attrs, rr_nlh := (rr_nlh r)\<lparr>nlmsg_len := of_nat (p + RTA_ALIGN rta_len)\<rparr>\<rparr>)))"

definition Build :: "IpAddr \<Rightarrow> IpAddr \<Rightarrow> RouteRequest res" where
  "Build src dst =
     (let src_prefix_bits = snd (RawAddrAndLen src) * 8;
          dst_prefix_bits = snd (RawAddrAndLen dst) * 8;
          r = \<lparr>rr_nlh = \<lparr>nlmsg_len = of_nat (NLMSG_HDRLEN + sizeof_rtmsg), nlmsg_type = RTM_GETROUTE, nlmsg_flags = NLM_F_REQUEST,
                 nlmsg_seq = 1, nlmsg_pid = 0\<rparr>,
               rr_rtm = \<lparr>rtm_family = word_of_int (AddressFamily src), rtm_dst_len = of_nat dst_prefix_bits,
                 rtm_src_len = of_nat src_prefix_bits, rtm_tos = 0, rtm_table = 0, rtm_protocol = 0, rtm_scope = 0, rtm_type = 0,
                 rtm_flags = 0\<rparr>,
               rr_attrs = replicate sizeof_attrs 0\<rparr>
      in rbind (AppendRouteAttr r RTA_SRC src) (\<lambda>r1. AppendRouteAttr r1 RTA_DST dst))"

definition request_bytes :: "RouteRequest \<Rightarrow> byte list" where
  "request_bytes r = nlmsghdr_bytes (rr_nlh r) @ rtmsg_bytes (rr_rtm r) @ rr_attrs r"

section \<open>The reply\<close>

definition load :: "nat \<Rightarrow> nat \<Rightarrow> byte list \<Rightarrow> 'a::len word res" where
  "load n off p = (if off + n \<le> length p then Inr (of_le (take n (drop off p))) else Inl OutOfBounds)"

text \<open>The loop over the attributes of a route: the first interface index.\<close>

function find_oif :: "byte list \<Rightarrow> int \<Rightarrow> int option res" where
  "find_oif rta attr_len =
     (if attr_len < 4 then Inr None
      else rbind (load 2 0 rta) (\<lambda>rta_len :: u16.
        if \<not> (4 \<le> unat rta_len \<and> int (unat rta_len) \<le> attr_len) then Inr None
        else rbind (load 2 2 rta) (\<lambda>rta_type :: u16.
          if rta_type = RTA_OIF \<and> 4 \<le> unat rta_len - 4 then
            rbind (load 4 4 rta) (\<lambda>oif :: u32. Inr (Some (sint oif)))
          else find_oif (drop (RTA_ALIGN (unat rta_len)) rta) (attr_len - int (RTA_ALIGN (unat rta_len))))))"
  by pat_completeness auto
termination
  by (relation "measure (nat \<circ> snd)") (auto simp: RTA_ALIGN_def)

text \<open>The loop over the messages of the reply.\<close>

function find_route :: "u32 \<Rightarrow> byte list \<Rightarrow> int \<Rightarrow> int option res" where
  "find_route seq nlh remaining =
     (if remaining < int NLMSG_HDRLEN then Inr None
      else rbind (load 4 0 nlh) (\<lambda>len :: u32.
        if \<not> (NLMSG_HDRLEN \<le> unat len \<and> int (unat len) \<le> remaining) then Inr None
        else
          let next = NLMSG_ALIGN (unat len);
              continue = (\<lambda>u :: unit. find_route seq (drop next nlh) (remaining - int next))
          in rbind (load 4 12 nlh) (\<lambda>pid :: u32.
            if pid \<noteq> 0 then continue ()
            else rbind (load 4 8 nlh) (\<lambda>s :: u32.
              if s \<noteq> seq then continue ()
              else rbind (load 2 4 nlh) (\<lambda>type :: u16.
                if type \<noteq> RTM_NEWROUTE then continue ()
                else rbind (find_oif (drop (NLMSG_HDRLEN + sizeof_rtmsg) nlh)
                       (sint (len - of_nat (NLMSG_HDRLEN + sizeof_rtmsg)))) (\<lambda>r.
                  case r of Some oif \<Rightarrow> Inr (Some oif) | None \<Rightarrow> continue ()))))))"
  by pat_completeness auto
termination
  by (relation "measure (\<lambda>(seq, nlh, remaining). nat remaining)") (auto simp: nl_consts)

record 'w route_os =
  ro_socket :: "'w \<Rightarrow> int \<times> 'w"
  ro_send :: "int \<Rightarrow> byte list \<Rightarrow> 'w \<Rightarrow> int \<times> 'w"
  ro_recv :: "int \<Rightarrow> 'w \<Rightarrow> (int + byte list) \<times> 'w"
  ro_close :: "int \<Rightarrow> 'w \<Rightarrow> 'w"

definition sizeof_reply :: nat where "sizeof_reply = 8192"

text \<open>
  \<^verbatim>\<open>recv\<close> fails with an error number or delivers a message; with \<^verbatim>\<open>MSG_TRUNC\<close> it reports the whole length and
  copies what fits. The loop does not end when every call is interrupted.
\<close>

partial_function (option) recv_reply :: "'w route_os \<Rightarrow> int \<Rightarrow> 'w \<Rightarrow> (byte list option \<times> 'w) option" where
  "recv_reply os fd w = (case ro_recv os fd w of
     (Inl err, w1) \<Rightarrow> if err = EINTR then recv_reply os fd w1 else Some (None, w1)
   | (Inr msg, w1) \<Rightarrow> Some (Some msg, w1))"

definition FindEgressNic :: "'w route_os \<Rightarrow> IpAddr \<Rightarrow> IpAddr \<Rightarrow> 'w \<Rightarrow> (int option \<times> 'w) res option" where
  "FindEgressNic os src dst w = (let (fd, w1) = ro_socket os w in
     if fd < 0 then Some (Inr (None, w1))
     else case Build src dst of
       Inl f \<Rightarrow> Some (Inl f)
     | Inr req \<Rightarrow>
         let (n, w2) = ro_send os fd (take (unat (nlmsg_len (rr_nlh req))) (request_bytes req)) w1 in
         if n < 0 then Some (Inr (None, ro_close os fd w2))
         else case recv_reply os fd w2 of
           None \<Rightarrow> None
         | Some (None, w3) \<Rightarrow> Some (Inr (None, ro_close os fd w3))
         | Some (Some msg, w3) \<Rightarrow>
             if sizeof_reply < length msg then Some (Inr (None, ro_close os fd w3))
             else Some (rbind (find_route (nlmsg_seq (rr_nlh req)) msg (int (length msg))) (\<lambda>r. Inr (r, ro_close os fd w3))))"

section \<open>Routes\<close>

definition compute :: "nic_os \<Rightarrow> 'w route_os \<Rightarrow> IpAddr \<Rightarrow> IpAddr \<Rightarrow> 'w \<Rightarrow> (bool option \<times> 'w) res option" where
  "compute nos os src dst w =
     (if AddressFamily src \<noteq> AddressFamily dst then Some (Inr (Some False, w))
      else if IsLoopback src then Some (Inr (Some (IsLoopback dst), w))
      else if IsLoopback dst then Some (Inr (Some False, w))
      else case FindNic nos src of
        Inl f \<Rightarrow> Some (Inl f)
      | Inr (Inl status) \<Rightarrow> Some (Inr (None, w))
      | Inr (Inr nic) \<Rightarrow>
          (case FindEgressNic os src dst w of
             None \<Rightarrow> None
           | Some (Inl f) \<Rightarrow> Some (Inl f)
           | Some (Inr (None, w1)) \<Rightarrow> Some (Inr (None, w1))
           | Some (Inr (Some egress, w1)) \<Rightarrow> Some (Inr (Some (int nic = egress), w1))))"

type_synonym routes = "(IpAddr \<times> IpAddr, bool) hash_map"

definition Route_Size :: "routes \<Rightarrow> nat" where "Route_Size routes = length routes"
definition Route_Clear :: "routes \<Rightarrow> routes" where "Route_Clear routes = []"

definition Check_find :: "IpAddr \<times> IpAddr \<Rightarrow> routes \<Rightarrow> bool option" where
  "Check_find key routes = map_of routes key"

definition Check_emplace :: "IpAddr \<times> IpAddr \<Rightarrow> bool \<Rightarrow> routes \<Rightarrow> bool \<times> routes" where
  "Check_emplace key routable routes = (case map_of routes key of
     Some v \<Rightarrow> (v, routes)
   | None \<Rightarrow> (routable, routes @ [(key, routable)]))"

definition Route_Check :: "nic_os \<Rightarrow> 'w route_os \<Rightarrow> IpAddr \<Rightarrow> IpAddr \<Rightarrow> routes \<Rightarrow> 'w \<Rightarrow> (bool \<times> routes \<times> 'w) res option" where
  "Route_Check nos os src dst routes w = (case Check_find (src, dst) routes of
     Some v \<Rightarrow> Some (Inr (v, routes, w))
   | None \<Rightarrow>
       (case compute nos os src dst w of
          None \<Rightarrow> None
        | Some (Inl f) \<Rightarrow> Some (Inl f)
        | Some (Inr (None, w1)) \<Rightarrow> Some (Inr (False, routes, w1))
        | Some (Inr (Some routable, w1)) \<Rightarrow>
            let (v, routes1) = Check_emplace (src, dst) routable routes in Some (Inr (v, routes1, w1))))"

section \<open>Reading within the buffer\<close>

lemma load_in: "off + n \<le> length p \<Longrightarrow> load n off p = Inr (of_le (take n (drop off p)))"
  by (simp add: load_def)

declare find_oif.simps [simp del] find_route.simps [simp del]

lemma align_le: "n \<le> RTA_ALIGN n" "n \<le> NLMSG_ALIGN n"
  by (simp_all add: nl_consts)

lemma drop_bound: "n \<le> int (length xs) \<Longrightarrow> n - int a \<le> int (length (drop a xs))"
  by simp

lemma find_oif_total: "attr_len \<le> int (length rta) \<Longrightarrow> \<exists>r. find_oif rta attr_len = Inr r"
proof (induction "nat attr_len" arbitrary: rta attr_len rule: less_induct)
  case less
  show ?case
  proof (cases "attr_len < 4")
    case True
    then show ?thesis by (simp add: find_oif.simps)
  next
    case False
    let ?len = "of_le (take 2 (drop 0 rta)) :: u16"
    have l: "load 2 0 rta = Inr ?len" "load 2 2 rta = Inr (of_le (take 2 (drop 2 rta)) :: u16)"
      using False less.prems by (simp_all add: load_in)
    show ?thesis
    proof (cases "4 \<le> unat ?len \<and> int (unat ?len) \<le> attr_len")
      case True
      have "load 4 4 rta = Inr (of_le (take 4 (drop 4 rta)) :: u32)" if "4 \<le> unat ?len - 4"
        using that True less.prems by (intro load_in) linarith
      moreover have "0 < RTA_ALIGN (unat ?len)" using True align_le(1) [of "unat ?len"] by linarith
      then have "\<exists>r. find_oif (drop (RTA_ALIGN (unat ?len)) rta) (attr_len - int (RTA_ALIGN (unat ?len))) = Inr r"
        using False drop_bound [OF less.prems] by (intro less.hyps) simp_all
      ultimately show ?thesis using False l True by (subst find_oif.simps) auto
    next
      case neg: False
      then show ?thesis using False l by (subst find_oif.simps) simp
    qed
  qed
qed

text \<open>The length of the attributes is negative when the message is too short for its header.\<close>

lemma payload_len:
  fixes len :: u32
  assumes "unat len \<le> 8192"
  shows "sint (len - of_nat (NLMSG_HDRLEN + sizeof_rtmsg)) = int (unat len) - 28"
proof -
  have "int (unat len) \<le> int 8192" using assms by (simp only: of_nat_le_iff)
  then have len: "uint len \<le> 8192" by simp
  have "len - of_nat (NLMSG_HDRLEN + sizeof_rtmsg) = word_of_int (uint len - 28)"
    unfolding NLMSG_HDRLEN_def sizeof_rtmsg_def by simp
  then show ?thesis
    using len by (simp only: signed_of_int) (simp add: signed_take_bit_int_eq_self)
qed

lemma find_route_total:
  "remaining \<le> int (length nlh) \<Longrightarrow> remaining \<le> 8192 \<Longrightarrow> \<exists>r. find_route seq nlh remaining = Inr r"
proof (induction "nat remaining" arbitrary: nlh remaining rule: less_induct)
  case less
  show ?case
  proof (cases "remaining < int NLMSG_HDRLEN")
    case True
    then show ?thesis by (simp add: find_route.simps)
  next
    case False
    then have len16: "16 \<le> length nlh" using less.prems by (simp add: nl_consts)
    let ?len = "of_le (take 4 (drop 0 nlh)) :: u32"
    have l: "load 4 0 nlh = Inr ?len" "load 4 12 nlh = Inr (of_le (take 4 (drop 12 nlh)) :: u32)"
      "load 4 8 nlh = Inr (of_le (take 4 (drop 8 nlh)) :: u32)" "load 2 4 nlh = Inr (of_le (take 2 (drop 4 nlh)) :: u16)"
      using len16 by (simp_all add: load_in)
    show ?thesis
    proof (cases "NLMSG_HDRLEN \<le> unat ?len \<and> int (unat ?len) \<le> remaining")
      case True
      let ?next = "NLMSG_ALIGN (unat ?len)"
      have "0 < ?next" using True align_le(2) [of "unat ?len"] by (simp add: NLMSG_HDRLEN_def)
      then have "\<exists>r. find_route seq (drop ?next nlh) (remaining - int ?next) = Inr r"
        using False drop_bound [OF less.prems(1)] less.prems(2) by (intro less.hyps) (simp_all add: NLMSG_HDRLEN_def)
      moreover have "\<exists>r. find_oif (drop (NLMSG_HDRLEN + sizeof_rtmsg) nlh) (sint (?len - of_nat (NLMSG_HDRLEN + sizeof_rtmsg))) = Inr r"
      proof (rule find_oif_total)
        have "unat ?len \<le> 8192" using True less.prems by linarith
        from payload_len [OF this] True less.prems
        show "sint (?len - of_nat (NLMSG_HDRLEN + sizeof_rtmsg)) \<le> int (length (drop (NLMSG_HDRLEN + sizeof_rtmsg) nlh))"
          by (simp only: length_drop NLMSG_HDRLEN_def sizeof_rtmsg_def) linarith
      qed
      ultimately show ?thesis
        using False l True by (subst find_route.simps) (auto simp: Let_def split: option.splits)
    next
      case neg: False
      then show ?thesis using False l by (subst find_route.simps) simp
    qed
  qed
qed

section \<open>Replies as the kernel writes them\<close>

text \<open>A message of the kernel: header fields, route and attributes. Every attribute is padded to four bytes.\<close>

record route_reply =
  re_nlh :: nlmsghdr
  re_rtm :: rtmsg
  re_attrs :: "(u16 \<times> byte list) list"

definition attr_bytes :: "u16 \<times> byte list \<Rightarrow> byte list" where
  "attr_bytes = (\<lambda>(type, d). to_le 2 (of_nat (4 + length d) :: u16) @ to_le 2 type @ d @
     replicate (RTA_ALIGN (4 + length d) - (4 + length d)) 0)"

definition attrs_bytes :: "(u16 \<times> byte list) list \<Rightarrow> byte list" where
  "attrs_bytes as = concat (map attr_bytes as)"

definition reply_bytes :: "route_reply \<Rightarrow> byte list" where
  "reply_bytes m = nlmsghdr_bytes ((re_nlh m)\<lparr>nlmsg_len := of_nat (28 + length (attrs_bytes (re_attrs m)))\<rparr>) @
     rtmsg_bytes (re_rtm m) @ attrs_bytes (re_attrs m)"

fun first_oif :: "(u16 \<times> byte list) list \<Rightarrow> int option" where
  "first_oif [] = None"
| "first_oif ((type, d) # as) =
     (if type = RTA_OIF \<and> 4 \<le> length d then Some (sint (of_le (take 4 d) :: u32)) else first_oif as)"

text \<open>The abstract reading of a reply: the interface of the first route that answers the request.\<close>

fun egress_of :: "u32 \<Rightarrow> route_reply list \<Rightarrow> int option" where
  "egress_of seq [] = None"
| "egress_of seq (m # ms) =
     (if nlmsg_pid (re_nlh m) = 0 \<and> nlmsg_seq (re_nlh m) = seq \<and> nlmsg_type (re_nlh m) = RTM_NEWROUTE then
        (case first_oif (re_attrs m) of Some oif \<Rightarrow> Some oif | None \<Rightarrow> egress_of seq ms)
      else egress_of seq ms)"

lemma length_attr: "length (attr_bytes (t, d)) = RTA_ALIGN (4 + length d)"
  using align_le(1) [of "4 + length d"] by (simp add: attr_bytes_def)

lemma attrs_bytes_simps [simp]: "attrs_bytes [] = []" "attrs_bytes (a # as) = attr_bytes a @ attrs_bytes as"
  by (simp_all add: attrs_bytes_def)

lemma load_here: "LENGTH('a) \<le> 8 * n \<Longrightarrow> load n 0 (to_le n w @ rest) = Inr (w :: 'a::len word)"
  by (simp add: load_def)

lemma load_after: "length a = k \<Longrightarrow> load n (k + off) (a @ p) = load n off p"
  by (simp add: load_def)

lemma find_oif_attrs:
  "\<forall>(t, d) \<in> set as. length d < 65532 \<Longrightarrow>
     find_oif (attrs_bytes as @ rest) (int (length (attrs_bytes as))) = Inr (first_oif as)"
proof (induction as)
  case Nil
  show ?case by (simp add: find_oif.simps)
next
  case (Cons a as)
  obtain t d where a: "a = (t, d)" by fastforce
  let ?len = "of_nat (4 + length d) :: u16" and ?pad = "replicate (RTA_ALIGN (4 + length d) - (4 + length d)) 0 :: byte list"
  have len: "unat ?len = 4 + length d" using Cons.prems by (simp add: a unat_of_nat del: of_nat_add)
  have all: "attrs_bytes (a # as) @ rest = to_le 2 ?len @ to_le 2 t @ d @ ?pad @ attrs_bytes as @ rest"
    by (simp add: a attr_bytes_def)
  have l: "load 2 0 (attrs_bytes (a # as) @ rest) = Inr ?len" "load 2 2 (attrs_bytes (a # as) @ rest) = Inr t"
    "4 \<le> length d \<Longrightarrow> load 4 4 (attrs_bytes (a # as) @ rest) = Inr (of_le (take 4 d) :: u32)"
    unfolding all by (simp_all add: load_def)
  have next_at: "drop (RTA_ALIGN (4 + length d)) (attrs_bytes (a # as) @ rest) = attrs_bytes as @ rest"
    using length_attr [of t d] by (simp add: a)
  have total: "int (length (attrs_bytes (a # as))) = int (RTA_ALIGN (4 + length d)) + int (length (attrs_bytes as))"
    using length_attr [of t d] by (simp add: a)
  then have big: "\<not> int (length (attrs_bytes (a # as))) < 4" "int (4 + length d) \<le> int (length (attrs_bytes (a # as)))"
    using align_le(1) [of "4 + length d"] by linarith+
  have "find_oif (attrs_bytes as @ rest) (int (length (attrs_bytes as))) = Inr (first_oif as)" using Cons by simp
  then have IH: "find_oif (drop (RTA_ALIGN (4 + length d)) (attrs_bytes (a # as) @ rest))
      (int (length (attrs_bytes (a # as))) - int (RTA_ALIGN (4 + length d))) = Inr (first_oif as)"
    unfolding next_at total by simp
  define B where "B = attrs_bytes (a # as) @ rest"
  define N where "N = int (length (attrs_bytes (a # as)))"
  have ulen: "uint ?len = int (4 + length d)" using len by (metis uint_nat)
  note facts = l [folded B_def] big [folded N_def] IH [folded B_def N_def]
  have "find_oif B N = Inr (first_oif (a # as))"
    using facts(3,6) by (subst find_oif.simps) (simp add: facts(1,2,4,5) len ulen a del: of_nat_add)
  then show ?case by (simp only: B_def N_def)
qed

lemma attrs_aligned: "length (attrs_bytes as) mod 4 = 0"
proof (induction as)
  case (Cons a as)
  then show ?case using length_attr [of "fst a" "snd a"] by (simp add: RTA_ALIGN_def mod_add_eq [symmetric])
qed simp

lemma length_reply: "length (reply_bytes m) = 28 + length (attrs_bytes (re_attrs m))"
  by (simp add: reply_bytes_def nlmsghdr_bytes_def rtmsg_bytes_def)

lemma attrs_short: "(t, d) \<in> set as \<Longrightarrow> length d \<le> length (attrs_bytes as)"
proof (induction as)
  case (Cons a as)
  then show ?case using length_attr [of "fst a" "snd a"] align_le(1) [of "4 + length (snd a)"] by auto
qed simp

lemma find_route_replies:
  "length (concat (map reply_bytes ms)) \<le> 8192 \<Longrightarrow>
     find_route seq (concat (map reply_bytes ms)) (int (length (concat (map reply_bytes ms)))) = Inr (egress_of seq ms)"
proof (induction ms)
  case Nil
  show ?case by (simp add: find_route.simps NLMSG_HDRLEN_def)
next
  case (Cons m ms)
  let ?n = "28 + length (attrs_bytes (re_attrs m))" and ?rest = "concat (map reply_bytes ms)"
  define B where "B = reply_bytes m @ ?rest"
  have n: "?n \<le> 8192" "length B = ?n + length ?rest" using Cons.prems by (simp_all add: length_reply B_def)
  let ?len = "of_nat ?n :: u32"
  have len: "unat ?len = ?n" "uint ?len = int ?n" using n(1) by (simp_all add: unat_of_nat uint_nat del: of_nat_add)
  have l: "load 4 0 B = Inr ?len" "load 2 4 B = Inr (nlmsg_type (re_nlh m))"
    "load 4 8 B = Inr (nlmsg_seq (re_nlh m))" "load 4 12 B = Inr (nlmsg_pid (re_nlh m))"
    by (simp_all add: B_def reply_bytes_def nlmsghdr_bytes_def load_def)
  have attrs: "drop 28 B = attrs_bytes (re_attrs m) @ ?rest"
    by (simp add: B_def reply_bytes_def nlmsghdr_bytes_def rtmsg_bytes_def)
  have "\<forall>(t, d) \<in> set (re_attrs m). length d < 65532" using attrs_short n(1) by fastforce
  note found = find_oif_attrs [OF this]
  have "sint (?len - of_nat (NLMSG_HDRLEN + sizeof_rtmsg)) = int (length (attrs_bytes (re_attrs m)))"
    using payload_len [of ?len] n(1) unfolding len(1) by simp
  with found have oif: "find_oif (drop (NLMSG_HDRLEN + sizeof_rtmsg) B) (sint (?len - of_nat (NLMSG_HDRLEN + sizeof_rtmsg))) =
      Inr (first_oif (re_attrs m))"
    using attrs by (simp add: NLMSG_HDRLEN_def sizeof_rtmsg_def)
  have "NLMSG_ALIGN ?n = ?n" using attrs_aligned [of "re_attrs m"] by (simp add: NLMSG_ALIGN_def) presburger
  moreover have "drop ?n B = ?rest" using length_reply [of m] by (simp add: B_def)
  moreover have "find_route seq ?rest (int (length ?rest)) = Inr (egress_of seq ms)" using Cons by simp
  ultimately have IH: "find_route seq (drop (NLMSG_ALIGN (unat ?len)) B) (int (length B) - int (NLMSG_ALIGN (unat ?len))) = Inr (egress_of seq ms)"
    using n(2) len(1) by simp
  have "find_route seq B (int (length B)) = Inr (egress_of seq (m # ms))"
    using n IH oif by (subst find_route.simps) (simp add: l len NLMSG_HDRLEN_def Let_def del: of_nat_add split: option.splits)
  then show ?case by (simp add: B_def)
qed

section \<open>The request is a netlink message\<close>

definition route_query :: "IpAddr \<Rightarrow> IpAddr \<Rightarrow> route_reply" where
  "route_query src dst = \<lparr>
     re_nlh = \<lparr>nlmsg_len = 0, nlmsg_type = RTM_GETROUTE, nlmsg_flags = NLM_F_REQUEST, nlmsg_seq = 1, nlmsg_pid = 0\<rparr>,
     re_rtm = \<lparr>rtm_family = word_of_int (AddressFamily src), rtm_dst_len = of_nat (snd (RawAddrAndLen dst) * 8),
       rtm_src_len = of_nat (snd (RawAddrAndLen src) * 8), rtm_tos = 0, rtm_table = 0, rtm_protocol = 0, rtm_scope = 0, rtm_type = 0,
       rtm_flags = 0\<rparr>,
     re_attrs = [(RTA_SRC, fst (RawAddrAndLen src)), (RTA_DST, fst (RawAddrAndLen dst))]\<rparr>"

lemma raw_len:
  assumes "RawAddrAndLen a = (addr, len)"
  shows "length addr = len" "len mod 4 = 0" "len \<le> 16"
  using assms by (cases a; auto simp: RawAddrAndLen_def)+

lemma append_attr:
  assumes "nlmsg_len (rr_nlh r) = of_nat (28 + length pre)" "length pre mod 4 = 0" "rr_attrs r = pre @ replicate z 0"
    and ip: "RawAddrAndLen ip = (addr, len)" and room: "4 + len \<le> z" "length pre \<le> 64"
  shows "AppendRouteAttr r t ip = Inr (r\<lparr>rr_attrs := (pre @ attr_bytes (t, addr)) @ replicate (z - (4 + len)) 0,
    rr_nlh := (rr_nlh r)\<lparr>nlmsg_len := of_nat (28 + length (pre @ attr_bytes (t, addr)))\<rparr>\<rparr>)"
proof -
  have "unat (of_nat (28 + length pre) :: u32) = 28 + length pre" using room(2) by (simp add: unat_of_nat del: of_nat_add)
  moreover have "NLMSG_ALIGN (28 + length pre) = 28 + length pre" using assms(2) by (simp add: NLMSG_ALIGN_def) presburger
  ultimately have p: "NLMSG_ALIGN (unat (nlmsg_len (rr_nlh r))) = 28 + length pre" using assms(1) by simp
  have al: "RTA_ALIGN (4 + len) = 4 + len" using raw_len(2) [OF ip] by (simp add: RTA_ALIGN_def) presburger
  then have bytes: "attr_bytes (t, addr) = to_le 2 (of_nat (4 + len) :: u16) @ to_le 2 t @ addr"
    using raw_len(1) [OF ip] by (simp add: attr_bytes_def)
  have "overwrite (pre @ replicate z 0) (length pre) (attr_bytes (t, addr)) =
      Inr (pre @ attr_bytes (t, addr) @ replicate (z - (4 + len)) 0)"
    using room(1) raw_len(1) [OF ip] unfolding bytes by (simp add: overwrite_def)
  then show ?thesis
    using raw_len(1) [OF ip] al unfolding bytes
    by (simp add: AppendRouteAttr_def ip p assms(3) RTA_LENGTH_def NLMSG_HDRLEN_def sizeof_rtmsg_def add.assoc)
qed

lemma Build_message:
  "\<exists>req. Build src dst = Inr req \<and> nlmsg_seq (rr_nlh req) = 1 \<and>
     take (unat (nlmsg_len (rr_nlh req))) (request_bytes req) = reply_bytes (route_query src dst)"
proof -
  obtain a la where s: "RawAddrAndLen src = (a, la)" by fastforce
  obtain b lb where d: "RawAddrAndLen dst = (b, lb)" by fastforce
  let ?sa = "attr_bytes (RTA_SRC, a)" and ?da = "attr_bytes (RTA_DST, b)"
  let ?q = "route_query src dst"
  define r0 where "r0 = \<lparr>rr_nlh = (re_nlh ?q)\<lparr>nlmsg_len := of_nat (28 + length ([] :: byte list))\<rparr>, rr_rtm = re_rtm ?q,
    rr_attrs = [] @ replicate 64 (0 :: byte)\<rparr>"
  have len: "length ?sa = 4 + la" "length ?da = 4 + lb"
    using raw_len [OF s] raw_len [OF d] unfolding length_attr by (simp_all add: RTA_ALIGN_def) presburger+
  have "AppendRouteAttr r0 RTA_SRC src = Inr (r0\<lparr>rr_attrs := ?sa @ replicate (64 - (4 + la)) 0,
      rr_nlh := (rr_nlh r0)\<lparr>nlmsg_len := of_nat (28 + length ?sa)\<rparr>\<rparr>)" (is "_ = Inr ?r1")
    using append_attr [of r0 "[]" 64 src a la] s raw_len [OF s] by (simp add: r0_def)
  moreover have "AppendRouteAttr ?r1 RTA_DST dst = Inr (?r1\<lparr>rr_attrs := (?sa @ ?da) @ replicate (64 - (4 + la) - (4 + lb)) 0,
      rr_nlh := (rr_nlh ?r1)\<lparr>nlmsg_len := of_nat (28 + length (?sa @ ?da))\<rparr>\<rparr>)" (is "_ = Inr ?r2")
    using raw_len [OF s] raw_len [OF d] len by (intro append_attr [OF _ _ _ d]) simp_all
  moreover have "Build src dst = rbind (AppendRouteAttr r0 RTA_SRC src) (\<lambda>r1. AppendRouteAttr r1 RTA_DST dst)"
    by (simp add: Build_def r0_def route_query_def Let_def NLMSG_HDRLEN_def sizeof_rtmsg_def sizeof_attrs_def)
  ultimately have "Build src dst = Inr ?r2" by simp
  moreover have "unat (of_nat (28 + length (?sa @ ?da)) :: u32) = 28 + length (?sa @ ?da)"
    using len raw_len(3) [OF s] raw_len(3) [OF d] by (simp add: unat_of_nat del: of_nat_add)
  moreover have "request_bytes ?r2 = reply_bytes ?q @ replicate (64 - (4 + la) - (4 + lb)) 0"
    by (simp add: request_bytes_def reply_bytes_def nlmsghdr_bytes_def r0_def route_query_def s d)
  moreover have "length (reply_bytes ?q) = 28 + length (?sa @ ?da)" by (simp add: length_reply route_query_def s d)
  ultimately have "Build src dst = Inr ?r2 \<and> take (unat (nlmsg_len (rr_nlh ?r2))) (request_bytes ?r2) = reply_bytes ?q" by simp
  then show ?thesis by (auto simp: r0_def route_query_def)
qed

section \<open>Properties\<close>

text \<open>
  C27. Asking the kernel for a route is safe whatever it answers: for every reply, malformed ones
  included, no byte outside the reply is read and none outside the request's buffer is written,
  and the call returns on every kernel that does not interrupt it for ever.
\<close>

theorem egress_lookup_safe:
  fixes signals :: "'w \<Rightarrow> nat"
  assumes "\<And>fd w w'. ro_recv os fd w = (Inl EINTR, w') \<Longrightarrow> signals w' < signals w"
  shows "\<exists>r w'. FindEgressNic os src dst w = Some (Inr (r, w'))"
proof -
  have recv: "\<exists>x. recv_reply os fd w = Some x" for fd w
  proof (induction "signals w" arbitrary: w rule: less_induct)
    case less
    show ?case
      using less assms by (subst recv_reply.simps) (fastforce split: prod.splits sum.splits)
  qed
  have parse: "\<exists>r. find_route seq msg (int (length msg)) = Inr r" if "\<not> sizeof_reply < length msg" for seq msg
    using that by (intro find_route_total) (simp_all add: sizeof_reply_def)
  obtain fd w1 where sock: "ro_socket os w = (fd, w1)" by fastforce
  obtain req where req: "Build src dst = Inr req" using Build_message by blast
  obtain n w2 where send: "ro_send os fd (take (unat (nlmsg_len (rr_nlh req))) (request_bytes req)) w1 = (n, w2)" by fastforce
  obtain x w3 where rc: "recv_reply os fd w2 = Some (x, w3)" using recv [of fd w2] by auto
  show ?thesis
  proof (cases "fd < 0 \<or> n < 0 \<or> x = None \<or> sizeof_reply < length (the x)")
    case True
    then show ?thesis by (auto simp: FindEgressNic_def sock req send rc split: option.splits)
  next
    case False
    then obtain msg where msg: "x = Some msg" by auto
    with False parse [of msg "nlmsg_seq (rr_nlh req)"] show ?thesis
      by (auto simp: FindEgressNic_def sock req send rc)
  qed
qed


text \<open>The critical sections of concurrent checks and of \<^verbatim>\<open>Clear\<close>, with the answers they give.\<close>

definition the_default :: "'a \<Rightarrow> 'a option \<Rightarrow> 'a" where
  "the_default d x = (case x of None \<Rightarrow> d | Some y \<Rightarrow> y)"

datatype route_event = Find "IpAddr \<times> IpAddr" | Emplace "IpAddr \<times> IpAddr" bool | Clear

fun route_run :: "route_event list \<Rightarrow> routes \<Rightarrow> ((IpAddr \<times> IpAddr) \<times> bool) list" where
  "route_run [] routes = []"
| "route_run (Find key # es) routes = (case Check_find key routes of
     None \<Rightarrow> route_run es routes
   | Some v \<Rightarrow> (key, v) # route_run es routes)"
| "route_run (Emplace key v # es) routes =
     (let (v1, routes1) = Check_emplace key v routes in (key, v1) # route_run es routes1)"
| "route_run (Clear # es) routes = route_run es (Route_Clear routes)"

lemma emplaced:
  "\<exists>routes1. Check_emplace key v routes = (the_default v (map_of routes key), routes1) \<and>
     map_of routes1 = (map_of routes)(key \<mapsto> the_default v (map_of routes key))"
  by (auto simp: Check_emplace_def the_default_def fun_eq_iff map_add_def split: option.splits)

lemma run_agrees:
  assumes "\<And>key v. Emplace key v \<in> set es \<Longrightarrow> v = f key" "\<And>key v. map_of routes key = Some v \<Longrightarrow> v = f key"
    "(key, v) \<in> set (route_run es routes)"
  shows "v = f key"
  using assms
proof (induction es arbitrary: routes)
  case (Cons e es)
  have IH: "v = f key" if "\<And>key v. map_of routes1 key = Some v \<Longrightarrow> v = f key" "(key, v) \<in> set (route_run es routes1)" for routes1
    using Cons.prems(1) by (intro Cons.IH [OF _ that]) simp
  show ?case
  proof (cases e)
    case (Find k)
    with Cons.prems(3) IH [OF Cons.prems(2)] Cons.prems(2) [of k] show ?thesis by (auto simp: Check_find_def split: option.splits)
  next
    case (Emplace k u)
    obtain routes1 where r1: "Check_emplace k u routes = (the_default u (map_of routes k), routes1)"
      "map_of routes1 = (map_of routes)(k \<mapsto> the_default u (map_of routes k))" using emplaced by blast
    have d: "the_default u (map_of routes k) = f k"
      using Cons.prems(1) [of k u] Cons.prems(2) [of k] Emplace by (cases "map_of routes k") (auto simp: the_default_def)
    have "w = f key'" if "map_of routes1 key' = Some w" for key' w
      using that Cons.prems(2) [of key'] d by (cases "key' = k") (simp_all add: r1(2))
    from IH [OF this] Cons.prems(3) r1(1) d Emplace show ?thesis by auto
  next
    case Clear
    with Cons.prems(3) IH [of "[]"] show ?thesis by (simp add: Route_Clear_def)
  qed
qed simp

lemma run_first:
  assumes "Clear \<notin> set es" "map_of routes key = Some u" "(key, v) \<in> set (route_run es routes)"
  shows "v = u"
  using assms
proof (induction es arbitrary: routes)
  case (Cons e es)
  have IH: "v = u" if "map_of routes1 key = Some u" "(key, v) \<in> set (route_run es routes1)" for routes1
    using Cons.prems(1) by (intro Cons.IH [OF _ that]) simp
  show ?case
  proof (cases e)
    case (Find k)
    with Cons.prems(2,3) IH show ?thesis by (auto simp: Check_find_def split: option.splits)
  next
    case (Emplace k w)
    obtain routes1 where r1: "Check_emplace k w routes = (the_default w (map_of routes k), routes1)"
      "map_of routes1 = (map_of routes)(k \<mapsto> the_default w (map_of routes k))" using emplaced by blast
    have "map_of routes1 key = Some u" "key = k \<Longrightarrow> the_default w (map_of routes k) = u"
      using r1(2) Cons.prems(2) by (auto simp: the_default_def)
    with IH [of routes1] r1(1) Cons.prems(3) Emplace show ?thesis by auto
  qed (use Cons.prems in simp)
qed simp

lemma run_consistent:
  assumes "Clear \<notin> set es" "(key, v) \<in> set (route_run es routes)" "(key, v') \<in> set (route_run es routes)"
  shows "v = v'"
  using assms
proof (induction es arbitrary: routes)
  case (Cons e es)
  show ?case
  proof (cases e)
    case (Find k)
    show ?thesis
    proof (cases "map_of routes key")
      case (Some u)
      with Cons.prems run_first show ?thesis by blast
    next
      case None
      then have "(key, x) \<in> set (route_run es routes)" if "(key, x) \<in> set (route_run (e # es) routes)" for x
        using that Find by (auto simp: Check_find_def split: option.splits)
      with Cons show ?thesis by (metis list.set_intros(2))
    qed
  next
    case (Emplace k w)
    obtain routes1 where r1: "Check_emplace k w routes = (the_default w (map_of routes k), routes1)"
      "map_of routes1 = (map_of routes)(k \<mapsto> the_default w (map_of routes k))" using emplaced by blast
    have "x = the_default w (map_of routes k)" if "(k, x) \<in> set (route_run es routes1)" for x
      using run_first [OF _ _ that] Cons.prems(1) r1(2) by simp
    moreover have "v = v'" if "(key, v) \<in> set (route_run es routes1)" "(key, v') \<in> set (route_run es routes1)"
      using Cons.prems(1) by (intro Cons.IH [OF _ that]) simp
    ultimately show ?thesis using r1(1) Cons.prems(2,3) Emplace by auto
  qed (use Cons.prems in simp)
qed simp


section \<open>A kernel\<close>

text \<open>Interrupts as often as its state says, then answers with an error message and a route over interface 2.\<close>

definition rk_replies :: "route_reply list" where
  "rk_replies = [
     \<lparr>re_nlh = \<lparr>nlmsg_len = 0, nlmsg_type = 2, nlmsg_flags = 0, nlmsg_seq = 0, nlmsg_pid = 0\<rparr>, re_rtm = re_rtm (route_query (IPv4 0) (IPv4 0)),
       re_attrs = []\<rparr>,
     \<lparr>re_nlh = \<lparr>nlmsg_len = 0, nlmsg_type = RTM_NEWROUTE, nlmsg_flags = 0, nlmsg_seq = 1, nlmsg_pid = 0\<rparr>,
       re_rtm = re_rtm (route_query (IPv4 0) (IPv4 0)), re_attrs = [(RTA_DST, [10, 0, 0, 2]), (RTA_OIF, [2, 0, 0, 0])]\<rparr>]"

definition rk_os :: "nat route_os" where
  "rk_os = \<lparr>ro_socket = \<lambda>w. (3, w), ro_send = \<lambda>fd bs w. (int (length bs), w),
     ro_recv = \<lambda>fd w. (case w of 0 \<Rightarrow> (Inr (concat (map reply_bytes rk_replies)), 0) | Suc n \<Rightarrow> (Inl EINTR, n)),
     ro_close = \<lambda>fd w. w\<rparr>"

theorem egress_lookup_safe_witness:
  "\<exists>r w'. FindEgressNic rk_os (IPv4 0x0100000A) (IPv4 0x0200000A) 3 = Some (Inr (r, w'))"
  by (rule egress_lookup_safe [where signals = id]) (simp add: rk_os_def split: nat.splits)



end
