(* ===== verification/PciTopology.thy ===== *)
theory PciTopology
  imports IpAddr Types
begin

text \<open>
  \<^verbatim>\<open>internal/nic/pci_topology\<close>: where a network device sits in the PCIe tree, and how far two devices are
  from each other. The file system is the record \<open>sysfs\<close>, the string functions of absl the record
  \<open>pci_lib\<close>; error texts are not modelled, only the code of a status.
\<close>

record pci_lib =
  ascii_isxdigit :: "char \<Rightarrow> bool"
  SimpleHexAtoi :: "string \<Rightarrow> u32 option"
  SimpleAtoi32 :: "string \<Rightarrow> int option"
  StartsWith :: "string \<Rightarrow> string \<Rightarrow> bool"
  StrSplitSkipEmpty :: "char \<Rightarrow> string \<Rightarrow> string list"
  StripWhitespace :: "string \<Rightarrow> string"

text \<open>\<open>fs_read\<close> gives the first 255 bytes of a file.\<close>

record sysfs =
  fs_stat :: "string \<Rightarrow> bool"
  fs_realpath :: "string \<Rightarrow> string option"
  fs_read :: "string \<Rightarrow> string option"
  fs_readdir :: "string \<Rightarrow> string list option"

record PciLocation =
  numa_node :: int
  root_complex :: string
  switches :: "string list"
  endpoint_bdf :: string

definition PciLocation_default :: PciLocation where
  "PciLocation_default = \<lparr>numa_node = 0, root_complex = [], switches = [], endpoint_bdf = []\<rparr>"

datatype PciRelation = kSameEndpoint | kSamePciSwitch | kSameRootComplex | kSameNumaNode | kCrossNuma

record PciDistance =
  relation :: PciRelation
  hops :: int

section \<open>Names and paths\<close>

definition substr :: "nat \<Rightarrow> nat \<Rightarrow> string \<Rightarrow> string" where
  "substr p n s = take n (drop p s)"

definition IsHexRange :: "'a pci_lib_scheme \<Rightarrow> string \<Rightarrow> bool" where
  "IsHexRange L s = (if s = [] then False else list_all (ascii_isxdigit L) s)"

definition IsPciRootBusId :: "'a pci_lib_scheme \<Rightarrow> string \<Rightarrow> bool" where
  "IsPciRootBusId L name \<longleftrightarrow> length name = 10 \<and> StartsWith L name ''pci'' \<and> name ! 7 = CHR '':'' \<and>
     IsHexRange L (substr 3 4 name) \<and> IsHexRange L (substr 8 2 name)"

definition PathExists :: "sysfs \<Rightarrow> string \<Rightarrow> bool" where
  "PathExists fs path = fs_stat fs (c_str path)"

definition RealPath :: "sysfs \<Rightarrow> string \<Rightarrow> string option" where
  "RealPath fs path = fs_realpath fs (c_str path)"

definition remove_slashes :: "string \<Rightarrow> string" where
  "remove_slashes path = rev (dropWhile (\<lambda>c. c = CHR ''/'') (rev path))"

definition rfind_slash :: "string \<Rightarrow> nat option" where
  "rfind_slash s = (if CHR ''/'' \<in> set s then Some (length s - 1 - length (takeWhile (\<lambda>c. c \<noteq> CHR ''/'') (rev s))) else None)"

definition BaseName :: "string \<Rightarrow> string" where
  "BaseName path = (let path = remove_slashes path in
     case rfind_slash path of None \<Rightarrow> path | Some pos \<Rightarrow> drop (pos + 1) path)"

definition ParentDir :: "string \<Rightarrow> string" where
  "ParentDir path = (let path = remove_slashes path in
     case rfind_slash path of None \<Rightarrow> [] | Some pos \<Rightarrow> if pos = 0 then ''/'' else take pos path)"

definition ReadTrimmedFile :: "'a pci_lib_scheme \<Rightarrow> sysfs \<Rightarrow> string \<Rightarrow> string option" where
  "ReadTrimmedFile L fs path = map_option (\<lambda>buf. StripWhitespace L (c_str buf)) (fs_read fs (c_str path))"

definition ReadNumaNode :: "'a pci_lib_scheme \<Rightarrow> sysfs \<Rightarrow> string \<Rightarrow> int" where
  "ReadNumaNode L fs pci_dev_dir = (case ReadTrimmedFile L fs (pci_dev_dir @ ''/numa_node'') of
     None \<Rightarrow> 0
   | Some content \<Rightarrow> (case SimpleAtoi32 L content of None \<Rightarrow> 0 | Some numa \<Rightarrow> if numa < 0 then 0 else numa))"

definition JoinRoot :: "string \<Rightarrow> string \<Rightarrow> string" where
  "JoinRoot sysfs_root rel_path = remove_slashes sysfs_root @ rel_path"

section \<open>Bus addresses\<close>

definition ParsePciBdfKey :: "'a pci_lib_scheme \<Rightarrow> string \<Rightarrow> u64 option" where
  "ParsePciBdfKey L bdf =
     (if length bdf \<noteq> 12 \<or> bdf ! 4 \<noteq> CHR '':'' \<or> bdf ! 7 \<noteq> CHR '':'' \<or> bdf ! 10 \<noteq> CHR ''.'' then None
      else
        let dom_s = substr 0 4 bdf; bus_s = substr 5 2 bdf; dev_s = substr 8 2 bdf; fn_s = substr 11 1 bdf in
        if \<not> IsHexRange L dom_s \<or> \<not> IsHexRange L bus_s \<or> \<not> IsHexRange L dev_s \<or> \<not> IsHexRange L fn_s then None
        else (case (SimpleHexAtoi L dom_s, SimpleHexAtoi L bus_s, SimpleHexAtoi L dev_s, SimpleHexAtoi L fn_s) of
            (Some domn, Some bus, Some dev, Some fn) \<Rightarrow>
              Some (push_bit 24 (ucast domn) OR push_bit 16 (ucast bus) OR push_bit 8 (ucast dev) OR ucast fn)
          | _ \<Rightarrow> None))"

fun common_switches :: "string list \<Rightarrow> string list \<Rightarrow> nat" where
  "common_switches (x # xs) (y # ys) = (if x = y then Suc (common_switches xs ys) else 0)"
| "common_switches _ _ = 0"

definition GetPciDistance :: "PciLocation \<Rightarrow> PciLocation \<Rightarrow> PciDistance" where
  "GetPciDistance a b =
     (if endpoint_bdf a \<noteq> [] \<and> endpoint_bdf a = endpoint_bdf b then \<lparr>relation = kSameEndpoint, hops = 0\<rparr>
      else if root_complex a \<noteq> [] \<and> root_complex a = root_complex b then
        let common = common_switches (switches a) (switches b);
            hops = int ((length (switches a) - common + 1) + (length (switches b) - common + 1));
            rel = (if common > 0 then kSamePciSwitch else kSameRootComplex)
        in \<lparr>relation = rel, hops = hops\<rparr>
      else if 0 \<le> numa_node a \<and> numa_node a = numa_node b then \<lparr>relation = kSameNumaNode, hops = - 1\<rparr>
      else \<lparr>relation = kCrossNuma, hops = - 1\<rparr>)"

section \<open>Resolving devices\<close>

fun bdf_prefix :: "'a pci_lib_scheme \<Rightarrow> string list \<Rightarrow> string list" where
  "bdf_prefix L [] = []"
| "bdf_prefix L (part # parts) = (if ParsePciBdfKey L part \<noteq> None then part # bdf_prefix L parts else [])"

text \<open>The chain from the root complex: its name, and the bus addresses that follow it without a gap.\<close>

fun parse_chain :: "'a pci_lib_scheme \<Rightarrow> string list \<Rightarrow> string \<times> string list" where
  "parse_chain L [] = ([], [])"
| "parse_chain L (part # parts) = (if IsPciRootBusId L part then (part, bdf_prefix L parts) else parse_chain L parts)"

definition ResolveSingleDeviceLink :: "'a pci_lib_scheme \<Rightarrow> sysfs \<Rightarrow> string \<Rightarrow> PciLocation StatusOr" where
  "ResolveSingleDeviceLink L fs dev_symlink_path = (case RealPath fs dev_symlink_path of
     None \<Rightarrow> Inl NotFoundStatus
   | Some dev_real \<Rightarrow>
       (case RealPath fs (dev_real @ ''/subsystem'') of
          None \<Rightarrow> Inl FailedPreconditionStatus
        | Some subsys_real \<Rightarrow>
            let subsys = BaseName subsys_real;
                below = (subsys = ''virtio'' \<or> subsys = ''auxiliary'');
                pci_dir = (if below then ParentDir dev_real else dev_real)
            in if below \<and> map_option BaseName (RealPath fs (pci_dir @ ''/subsystem'')) \<noteq> Some ''pci'' then Inl FailedPreconditionStatus
               else if \<not> below \<and> subsys \<noteq> ''pci'' then Inl FailedPreconditionStatus
               else
                 let (root, bdf_chain) = parse_chain L (StrSplitSkipEmpty L (CHR ''/'') pci_dir) in
                 if root = [] \<or> bdf_chain = [] then Inl FailedPreconditionStatus
                 else Inr \<lparr>numa_node = ReadNumaNode L fs pci_dir, root_complex = root, switches = butlast bdf_chain,
                   endpoint_bdf = last bdf_chain\<rparr>))"

fun first_resolved :: "'a pci_lib_scheme \<Rightarrow> sysfs \<Rightarrow> string \<Rightarrow> string list \<Rightarrow> PciLocation option" where
  "first_resolved L fs sysfs_root [] = None"
| "first_resolved L fs sysfs_root (slave # slaves) =
     (case ResolveSingleDeviceLink L fs (JoinRoot sysfs_root (''/sys/class/net/'' @ slave @ ''/device'')) of
        Inr loc \<Rightarrow> Some loc
      | Inl _ \<Rightarrow> first_resolved L fs sysfs_root slaves)"

definition bond_slaves :: "'a pci_lib_scheme \<Rightarrow> sysfs \<Rightarrow> string \<Rightarrow> string list" where
  "bond_slaves L fs net_dir =
     (let active = (case ReadTrimmedFile L fs (net_dir @ ''/bonding/active_slave'') of
            None \<Rightarrow> [] | Some s \<Rightarrow> if s = [] then [] else [s]);
          slaves = (case ReadTrimmedFile L fs (net_dir @ ''/bonding/slaves'') of
            None \<Rightarrow> active
          | Some all \<Rightarrow> if all = [] then active
              else fold (\<lambda>s slaves. if s \<in> set slaves then slaves else slaves @ [s]) (StrSplitSkipEmpty L (CHR '' '') all) active)
      in if slaves \<noteq> [] then slaves
         else (case fs_readdir fs (c_str net_dir) of
             None \<Rightarrow> []
           | Some names \<Rightarrow> map (drop 6) (filter (\<lambda>n. StartsWith L n ''lower_'') names)))"

definition ResolveNetdevPciLocation :: "'a pci_lib_scheme \<Rightarrow> sysfs \<Rightarrow> string \<Rightarrow> string \<Rightarrow> PciLocation StatusOr" where
  "ResolveNetdevPciLocation L fs if_name sysfs_root =
     (let net_dir = JoinRoot sysfs_root (''/sys/class/net/'' @ if_name) in
      if \<not> PathExists fs net_dir then Inl NotFoundStatus
      else if PathExists fs (net_dir @ ''/bridge'') then Inl FailedPreconditionStatus
      else if PathExists fs (net_dir @ ''/device'') then ResolveSingleDeviceLink L fs (net_dir @ ''/device'')
      else if PathExists fs (net_dir @ ''/bonding'') then
        (case first_resolved L fs sysfs_root (bond_slaves L fs net_dir) of
           Some loc \<Rightarrow> Inr loc
         | None \<Rightarrow> Inl FailedPreconditionStatus)
      else Inl FailedPreconditionStatus)"

definition ResolveIbdevPciLocation :: "'a pci_lib_scheme \<Rightarrow> sysfs \<Rightarrow> string \<Rightarrow> string \<Rightarrow> PciLocation StatusOr" where
  "ResolveIbdevPciLocation L fs ib_name sysfs_root =
     ResolveSingleDeviceLink L fs (JoinRoot sysfs_root (''/sys/class/infiniband/'' @ ib_name @ ''/device''))"

section \<open>Distances in the tree\<close>

lemma common_sym: "common_switches xs ys = common_switches ys xs"
  by (induction xs ys rule: common_switches.induct) auto

lemma common_le: "common_switches xs ys \<le> length xs" "common_switches xs ys \<le> length ys"
  by (induction xs ys rule: common_switches.induct) auto

lemma common_min: "min (common_switches xs ys) (common_switches ys zs) \<le> common_switches xs zs"
proof (induction xs arbitrary: ys zs)
  case (Cons x xs)
  from Cons [of "tl ys" "tl zs"] show ?case by (cases ys; cases zs) auto
qed simp

lemma common_same [simp]: "common_switches xs xs = length xs"
  by (induction xs) auto

lemma common_snoc:
  "x \<notin> set ys \<Longrightarrow> y \<notin> set xs \<Longrightarrow> x \<noteq> y \<Longrightarrow> common_switches (xs @ [x]) (ys @ [y]) = common_switches xs ys"
proof (induction xs arbitrary: ys)
  case Nil
  then show ?case by (cases ys) auto
next
  case (Cons a xs)
  then show ?case by (cases ys) auto
qed

text \<open>The nodes from the root complex to a device, and the number of tree edges between two devices.\<close>

definition pci_path :: "PciLocation \<Rightarrow> string list" where
  "pci_path a = root_complex a # switches a @ [endpoint_bdf a]"

definition tree_edges :: "PciLocation \<Rightarrow> PciLocation \<Rightarrow> int" where
  "tree_edges a b = (let c = common_switches (pci_path a) (pci_path b) in
     int (length (pci_path a) - c) + int (length (pci_path b) - c))"

fun closeness :: "PciRelation \<Rightarrow> nat" where
  "closeness kSameEndpoint = 0"
| "closeness kSamePciSwitch = 1"
| "closeness kSameRootComplex = 2"
| "closeness kSameNumaNode = 3"
| "closeness kCrossNuma = 4"

text \<open>The devices of one machine: a bus address names one device, and a root complex belongs to one NUMA node.\<close>

definition one_machine :: "PciLocation set \<Rightarrow> bool" where
  "one_machine S \<longleftrightarrow> (\<forall>a \<in> S. 0 \<le> numa_node a \<and> root_complex a \<noteq> [] \<and> endpoint_bdf a \<noteq> [] \<and>
     (\<forall>b \<in> S. (endpoint_bdf a = endpoint_bdf b \<longrightarrow> a = b) \<and> (root_complex a = root_complex b \<longrightarrow> numa_node a = numa_node b) \<and>
        endpoint_bdf a \<notin> set (switches b)))"

lemma one_machineD:
  assumes "one_machine S" "a \<in> S" "b \<in> S"
  shows "endpoint_bdf a \<noteq> []" "root_complex a \<noteq> []" "0 \<le> numa_node a" "endpoint_bdf a = endpoint_bdf b \<longleftrightarrow> a = b"
    "root_complex a = root_complex b \<Longrightarrow> numa_node a = numa_node b" "endpoint_bdf a \<notin> set (switches b)"
  using assms unfolding one_machine_def by blast+

lemma distance_sym: "GetPciDistance a b = GetPciDistance b a"
  by (auto simp: GetPciDistance_def common_sym [of "switches a"] Let_def)

lemma distance_on_machine:
  assumes "one_machine S" "a \<in> S" "b \<in> S"
  shows "relation (GetPciDistance a b) =
      (if a = b then kSameEndpoint
       else if root_complex a = root_complex b then if 0 < common_switches (switches a) (switches b) then kSamePciSwitch else kSameRootComplex
       else if numa_node a = numa_node b then kSameNumaNode else kCrossNuma)"
    "hops (GetPciDistance a b) = (if root_complex a = root_complex b then tree_edges a b else - 1)"
proof -
  note m = one_machineD [OF assms] one_machineD(6) [OF assms(1) assms(3) assms(2)]
  show "relation (GetPciDistance a b) =
      (if a = b then kSameEndpoint
       else if root_complex a = root_complex b then if 0 < common_switches (switches a) (switches b) then kSamePciSwitch else kSameRootComplex
       else if numa_node a = numa_node b then kSameNumaNode else kCrossNuma)"
    using m by (simp add: GetPciDistance_def Let_def)
  have "common_switches (pci_path a) (pci_path b) = Suc (common_switches (switches a) (switches b))"
    if "a \<noteq> b" "root_complex a = root_complex b"
    using that m by (simp add: pci_path_def common_snoc)
  then show "hops (GetPciDistance a b) = (if root_complex a = root_complex b then tree_edges a b else - 1)"
    using m(1-4) common_le [of "switches a" "switches b"] by (auto simp: GetPciDistance_def tree_edges_def pci_path_def Let_def)
qed

lemma tree_triangle: "tree_edges a c \<le> tree_edges a b + tree_edges b c"
proof -
  let ?ab = "common_switches (pci_path a) (pci_path b)" and ?bc = "common_switches (pci_path b) (pci_path c)"
    and ?ac = "common_switches (pci_path a) (pci_path c)"
  have "min ?ab ?bc \<le> ?ac" by (rule common_min)
  then show ?thesis
    using common_le [of "pci_path a" "pci_path b"] common_le [of "pci_path b" "pci_path c"] common_le [of "pci_path a" "pci_path c"]
    by (auto simp: tree_edges_def Let_def min_def split: if_splits)
qed

text \<open>
  C29. On one machine the distance of two devices is the one in the PCIe tree: the hop count of \<^verbatim>\<open>GetPciDistance\<close>
  is the number of edges between them, and minus one just when their root complexes differ. It is
  symmetric, a detour over a third device is never shorter, and the relations are nested: two
  devices that are close to a third are as close to each other as the farther of the two.
\<close>

theorem pci_distance_is_tree_distance:
  assumes "one_machine S" "a \<in> S" "b \<in> S" "c \<in> S"
  shows "GetPciDistance a b = GetPciDistance b a \<and>
    hops (GetPciDistance a b) = (if root_complex a = root_complex b then tree_edges a b else - 1) \<and>
    (root_complex a = root_complex b \<and> root_complex b = root_complex c \<longrightarrow>
      hops (GetPciDistance a c) \<le> hops (GetPciDistance a b) + hops (GetPciDistance b c)) \<and>
    closeness (relation (GetPciDistance a c)) \<le>
      max (closeness (relation (GetPciDistance a b))) (closeness (relation (GetPciDistance b c)))"
proof (intro conjI)
  show "GetPciDistance a b = GetPciDistance b a" by (rule distance_sym)
  show "hops (GetPciDistance a b) = (if root_complex a = root_complex b then tree_edges a b else - 1)"
    by (rule distance_on_machine(2) [OF assms(1-3)])
  show "root_complex a = root_complex b \<and> root_complex b = root_complex c \<longrightarrow>
      hops (GetPciDistance a c) \<le> hops (GetPciDistance a b) + hops (GetPciDistance b c)"
    using assms by (simp add: distance_on_machine [where S = S] tree_triangle)
  have "0 < common_switches (switches a) (switches c)"
    if "0 < common_switches (switches a) (switches b)" "0 < common_switches (switches b) (switches c)"
    using that common_min [of "switches a" "switches b" "switches c"] by simp
  then show "closeness (relation (GetPciDistance a c)) \<le>
      max (closeness (relation (GetPciDistance a b))) (closeness (relation (GetPciDistance b c)))"
    using one_machineD(5) [OF assms(1-3)] one_machineD(5) [OF assms(1,3,4)] one_machineD(5) [OF assms(1,2,4)]
    unfolding distance_on_machine(1) [OF assms(1-3)] distance_on_machine(1) [OF assms(1,3,4)] distance_on_machine(1) [OF assms(1,2,4)]
    by (cases "a = b"; cases "b = c"; cases "root_complex a = root_complex b"; cases "root_complex b = root_complex c"; auto)
qed

definition demo_pci :: "PciLocation list" where
  "demo_pci = [
     \<lparr>numa_node = 0, root_complex = ''pci0000:10'', switches = [''0000:10:01.0'', ''0000:11:00.0''], endpoint_bdf = ''0000:12:00.0''\<rparr>,
     \<lparr>numa_node = 0, root_complex = ''pci0000:10'', switches = [''0000:10:01.0''], endpoint_bdf = ''0000:13:00.0''\<rparr>,
     \<lparr>numa_node = 1, root_complex = ''pci0000:80'', switches = [], endpoint_bdf = ''0000:81:00.0''\<rparr>]"

theorem pci_distance_is_tree_distance_witness:
  "one_machine (set demo_pci) \<and>
   hops (GetPciDistance (demo_pci ! 0) (demo_pci ! 1)) = tree_edges (demo_pci ! 0) (demo_pci ! 1) \<and>
   tree_edges (demo_pci ! 0) (demo_pci ! 1) = 3"
proof -
  have m: "one_machine (set demo_pci)" by code_simp
  moreover have "tree_edges (demo_pci ! 0) (demo_pci ! 1) = 3" "root_complex (demo_pci ! 0) = root_complex (demo_pci ! 1)" by code_simp+
  moreover have "demo_pci ! 0 \<in> set demo_pci" "demo_pci ! 1 \<in> set demo_pci" "demo_pci ! 2 \<in> set demo_pci" by (simp_all add: demo_pci_def)
  note pci_distance_is_tree_distance [OF m this, THEN conjunct2, THEN conjunct1]
  ultimately show ?thesis by simp
qed

section \<open>Resolved devices\<close>

lemma bdf_prefix_parses: "list_all (\<lambda>p. ParsePciBdfKey L p \<noteq> None) (bdf_prefix L parts)"
  by (induction parts) auto

lemma bdf_prefix_is_prefix: "\<exists>rest. parts = bdf_prefix L parts @ rest"
  by (induction parts) auto

lemma parse_chain_spec:
  "parse_chain L parts = (root, chain) \<Longrightarrow> root \<noteq> [] \<Longrightarrow> IsPciRootBusId L root \<and> list_all (\<lambda>p. ParsePciBdfKey L p \<noteq> None) chain \<and>
     (\<exists>before rest. parts = before @ root # chain @ rest)"
proof (induction parts)
  case (Cons part parts)
  show ?case
  proof (cases "IsPciRootBusId L part")
    case True
    then show ?thesis using Cons.prems bdf_prefix_parses [of L parts] bdf_prefix_is_prefix [of parts L] by force
  next
    case False
    with Cons obtain before rest where "IsPciRootBusId L root" "list_all (\<lambda>p. ParsePciBdfKey L p \<noteq> None) chain"
      "parts = before @ root # chain @ rest" by auto
    then show ?thesis by (auto intro: exI [of _ "part # before"])
  qed
qed simp

text \<open>A resolved location is a path of the device tree.\<close>

definition good_location :: "'a pci_lib_scheme \<Rightarrow> PciLocation \<Rightarrow> bool" where
  "good_location L loc \<longleftrightarrow> 0 \<le> numa_node loc \<and> IsPciRootBusId L (root_complex loc) \<and> root_complex loc \<noteq> [] \<and>
     list_all (\<lambda>p. ParsePciBdfKey L p \<noteq> None) (switches loc @ [endpoint_bdf loc]) \<and> endpoint_bdf loc \<noteq> []"

lemma ReadNumaNode_nonneg: "0 \<le> ReadNumaNode L fs d"
  by (simp add: ReadNumaNode_def split: option.splits)

lemma ParsePciBdfKey_nonempty: "ParsePciBdfKey L s \<noteq> None \<Longrightarrow> s \<noteq> []"
  by (auto simp: ParsePciBdfKey_def)

lemma resolve_link_good: "ResolveSingleDeviceLink L fs path = Inr loc \<Longrightarrow> good_location L loc"
proof -
  assume res: "ResolveSingleDeviceLink L fs path = Inr loc"
  then obtain pci_dir root chain where loc: "parse_chain L (StrSplitSkipEmpty L (CHR ''/'') pci_dir) = (root, chain)" "root \<noteq> []" "chain \<noteq> []"
    "loc = \<lparr>numa_node = ReadNumaNode L fs pci_dir, root_complex = root, switches = butlast chain, endpoint_bdf = last chain\<rparr>"
    unfolding ResolveSingleDeviceLink_def Let_def by (auto split: option.splits if_splits prod.splits)
  from parse_chain_spec [OF loc(1,2)] loc(3) have "IsPciRootBusId L root" "list_all (\<lambda>p. ParsePciBdfKey L p \<noteq> None) (butlast chain @ [last chain])"
    by simp_all
  moreover from this(2) have "last chain \<noteq> []" by (intro ParsePciBdfKey_nonempty [of L]) (auto simp: list_all_iff)
  ultimately show ?thesis using loc by (simp add: good_location_def ReadNumaNode_nonneg)
qed

lemma first_resolved_good: "first_resolved L fs root slaves = Some loc \<Longrightarrow> good_location L loc"
  by (induction slaves) (auto split: sum.splits intro: resolve_link_good)

lemma resolve_netdev_good: "ResolveNetdevPciLocation L fs if_name root = Inr loc \<Longrightarrow> good_location L loc"
  by (auto simp: ResolveNetdevPciLocation_def Let_def split: if_splits option.splits intro: resolve_link_good first_resolved_good)

lemma resolve_ibdev_good: "ResolveIbdevPciLocation L fs ib_name root = Inr loc \<Longrightarrow> good_location L loc"
  by (simp add: ResolveIbdevPciLocation_def resolve_link_good)

end
