(* ===== verification/NicInventory.thy ===== *)
theory NicInventory
  imports PciTopology Nic "HOL-Library.Product_Lexorder" "HOL-Library.Multiset"
begin

text \<open>
  \<^verbatim>\<open>internal/nic/nic_inventory\<close>: the TCP and RDMA interfaces of the host, in the order of their bus addresses,
  with their rail numbers. The interfaces the kernel reports, libibverbs and the file system are
  parameters.
\<close>

record ifaddr_up = ifaddr +
  ifa_flags :: u32

record ibv_gid_entry =
  gid_raw :: "byte list"
  gid_type :: int
  ndev_ifindex :: u32

record ibv_port_attr =
  port_state :: int
  gid_tbl_len :: int

record ibv_dev =
  ib_name :: string
  ibv_open_device :: bool
  ibv_query_device :: "u8 option"
  ibv_query_port :: "u8 \<Rightarrow> ibv_port_attr option"
  ibv_query_gid_ex :: "u8 \<Rightarrow> nat \<Rightarrow> ibv_gid_entry option"

record nic_env =
  ne_lib :: pci_lib
  ne_fs :: sysfs
  ne_access :: "string \<Rightarrow> bool"
  ne_getifaddrs :: "ifaddr_up list option"
  ne_devices :: "ibv_dev option list option"
  ne_indextoname :: "u32 \<Rightarrow> string option"

definition IFF_UP :: u32 where "IFF_UP = 0x1"
definition IFF_LOOPBACK :: u32 where "IFF_LOOPBACK = 0x8"
definition IFF_POINTOPOINT :: u32 where "IFF_POINTOPOINT = 0x10"
definition IFF_RUNNING :: u32 where "IFF_RUNNING = 0x40"
definition IBV_PORT_ACTIVE :: int where "IBV_PORT_ACTIVE = 4"
definition IBV_GID_TYPE_ROCE_V2 :: int where "IBV_GID_TYPE_ROCE_V2 = 2"

record TcpNic =
  tn_rail_id :: u32
  tn_pci :: PciLocation
  if_name :: string
  ip_addrs :: "IpAddr list"

record RdmaNic =
  rn_rail_id :: u32
  rn_pci :: PciLocation
  ib_dev_name :: string
  netdev_name :: string
  port_num :: u8
  gid_index :: int
  gid_addr :: IpAddr
  ip_addr :: IpAddr

record NicInventory =
  tcp_nics :: "TcpNic list"
  rdma_nics :: "RdmaNic list"

definition UINT64_MAX :: u64 where "UINT64_MAX = - 1"

definition GetSortKey :: "'a pci_lib_scheme \<Rightarrow> PciLocation \<Rightarrow> u64" where
  "GetSortKey L loc =
     (if endpoint_bdf loc = [] then UINT64_MAX
      else (case ParsePciBdfKey L (endpoint_bdf loc) of Some key \<Rightarrow> key | None \<Rightarrow> UINT64_MAX - 1))"

definition IsUsableIp :: "IpAddr \<Rightarrow> bool \<Rightarrow> bool" where
  "IsUsableIp ip allow_loopback \<longleftrightarrow> IsRoutable ip \<and> (allow_loopback \<or> \<not> IsLoopback ip)"

definition IsRdmaNetdev :: "nic_env \<Rightarrow> string \<Rightarrow> bool" where
  "IsRdmaNetdev E ifn = ne_access E (c_str (''/sys/class/net/'' @ ifn @ ''/device/infiniband''))"

definition is_v4mapped :: "byte list \<Rightarrow> bool" where
  "is_v4mapped raw \<longleftrightarrow> take 10 raw = replicate 10 0 \<and> take 2 (drop 10 raw) = [0xFF, 0xFF]"

definition ExtractIpFromGid :: "byte list \<Rightarrow> IpAddr" where
  "ExtractIpFromGid raw = (if is_v4mapped raw then IPv4 (of_le (take 4 (drop 12 raw))) else IPv6 (of_le (take 16 raw)))"

section \<open>TCP interfaces\<close>

definition same_nic :: "PciLocation \<Rightarrow> string \<Rightarrow> TcpNic \<Rightarrow> bool" where
  "same_nic loc ifn existing = (if endpoint_bdf loc \<noteq> [] then endpoint_bdf (tn_pci existing) = endpoint_bdf loc else if_name existing = ifn)"

fun add_to_nic :: "PciLocation \<Rightarrow> string \<Rightarrow> IpAddr \<Rightarrow> TcpNic list \<Rightarrow> TcpNic list" where
  "add_to_nic loc ifn ip [] = [\<lparr>tn_rail_id = 0, tn_pci = loc, if_name = ifn, ip_addrs = [ip]\<rparr>]"
| "add_to_nic loc ifn ip (nic # nics) =
     (if same_nic loc ifn nic then
        (if ip \<in> set (ip_addrs nic) then nic # nics else nic\<lparr>ip_addrs := ip_addrs nic @ [ip]\<rparr> # nics)
      else nic # add_to_nic loc ifn ip nics)"

definition is_rdma_nic :: "RdmaNic list \<Rightarrow> string \<Rightarrow> PciLocation \<Rightarrow> bool" where
  "is_rdma_nic rdma ifn loc =
     list_ex (\<lambda>r. netdev_name r = ifn \<or> endpoint_bdf loc \<noteq> [] \<and> endpoint_bdf (rn_pci r) = endpoint_bdf loc) rdma"

text \<open>One interface address of the list; the default root of the file system is \<^verbatim>\<open>/\<close>.\<close>

definition discover_ifa :: "nic_env \<Rightarrow> bool \<Rightarrow> RdmaNic list \<Rightarrow> ifaddr_up \<Rightarrow> TcpNic list \<Rightarrow> TcpNic list" where
  "discover_ifa E allow_loopback rdma ifa nics = (case (ifa_name ifa, ifa_addr ifa) of
     (Some ifn, Some addr) \<Rightarrow>
       if ifa_flags ifa AND IFF_UP = 0 \<or> ifa_flags ifa AND IFF_RUNNING = 0 then nics
       else if ifa_flags ifa AND IFF_POINTOPOINT \<noteq> 0 then nics
       else
         let is_loopback = (ifa_flags ifa AND IFF_LOOPBACK \<noteq> 0) in
         if is_loopback \<and> \<not> allow_loopback then nics
         else if \<not> is_loopback \<and> IsRdmaNetdev E ifn then nics
         else (case IpAddr_Create_sa addr of
             None \<Rightarrow> nics
           | Some ip \<Rightarrow>
               if \<not> IsUsableIp ip allow_loopback then nics
               else if is_loopback then add_to_nic (PciLocation_default\<lparr>numa_node := - 1\<rparr>) ifn ip nics
               else (case ResolveNetdevPciLocation (ne_lib E) (ne_fs E) ifn ''/'' of
                   Inl _ \<Rightarrow> nics
                 | Inr loc \<Rightarrow> if is_rdma_nic rdma ifn loc then nics else add_to_nic loc ifn ip nics))
   | _ \<Rightarrow> nics)"

definition DiscoverTcpNics :: "nic_env \<Rightarrow> bool \<Rightarrow> RdmaNic list \<Rightarrow> TcpNic list" where
  "DiscoverTcpNics E allow_loopback rdma = (case ne_getifaddrs E of
     None \<Rightarrow> []
   | Some ifap \<Rightarrow> fold (discover_ifa E allow_loopback rdma) ifap [])"

section \<open>RDMA ports\<close>

record best_gid =
  bg_idx :: int
  bg_raw :: "byte list"
  bg_netdev :: string
  bg_ip :: IpAddr

text \<open>The scan of the GID table from index \<open>i\<close> on, \<open>n\<close> entries: the first IPv4 address ends it.\<close>

fun scan_gids :: "nic_env \<Rightarrow> bool \<Rightarrow> ibv_dev \<Rightarrow> u8 \<Rightarrow> nat \<Rightarrow> nat \<Rightarrow> best_gid \<Rightarrow> best_gid" where
  "scan_gids E allow_loopback d port i 0 best = best"
| "scan_gids E allow_loopback d port i (Suc n) best = (case ibv_query_gid_ex d port i of
     None \<Rightarrow> scan_gids E allow_loopback d port (Suc i) n best
   | Some entry \<Rightarrow>
       if gid_type entry \<noteq> IBV_GID_TYPE_ROCE_V2 then scan_gids E allow_loopback d port (Suc i) n best
       else
         let under_ip = ExtractIpFromGid (gid_raw entry) in
         if \<not> IsUsableIp under_ip allow_loopback then scan_gids E allow_loopback d port (Suc i) n best
         else (case ne_indextoname E (ndev_ifindex entry) of
             None \<Rightarrow> scan_gids E allow_loopback d port (Suc i) n best
           | Some if_buf \<Rightarrow>
               if bg_idx best = - 1 \<or> IsIPv4 under_ip then
                 let best1 = \<lparr>bg_idx = int i, bg_raw = gid_raw entry, bg_netdev = if_buf, bg_ip = under_ip\<rparr> in
                 if IsIPv4 under_ip then best1 else scan_gids E allow_loopback d port (Suc i) n best1
               else scan_gids E allow_loopback d port (Suc i) n best))"

definition discover_port :: "nic_env \<Rightarrow> bool \<Rightarrow> ibv_dev \<Rightarrow> PciLocation \<Rightarrow> u8 \<Rightarrow> RdmaNic list \<Rightarrow> RdmaNic list" where
  "discover_port E allow_loopback d loc port nics = (case ibv_query_port d port of
     None \<Rightarrow> nics
   | Some attr \<Rightarrow>
       if port_state attr \<noteq> IBV_PORT_ACTIVE then nics
       else
         let best = scan_gids E allow_loopback d port 0 (nat (gid_tbl_len attr))
               \<lparr>bg_idx = - 1, bg_raw = replicate 16 0, bg_netdev = [], bg_ip = IpAddr_default\<rparr> in
         if bg_idx best < 0 then nics
         else nics @ [\<lparr>rn_rail_id = 0, rn_pci = loc, ib_dev_name = ib_name d, netdev_name = bg_netdev best, port_num = port,
                gid_index = bg_idx best, gid_addr = IPv6 (of_le (take 16 (bg_raw best))), ip_addr = bg_ip best\<rparr>])"

text \<open>The counter of the loop over the ports has eight bits, as the number of ports has.\<close>

partial_function (option) port_loop :: "nic_env \<Rightarrow> bool \<Rightarrow> ibv_dev \<Rightarrow> PciLocation \<Rightarrow> u8 \<Rightarrow> u8 \<Rightarrow> RdmaNic list \<Rightarrow> RdmaNic list option" where
  "port_loop E allow_loopback d loc phys_port_cnt port nics =
     (if port \<le> phys_port_cnt then
        port_loop E allow_loopback d loc phys_port_cnt (port + 1) (discover_port E allow_loopback d loc port nics)
      else Some nics)"

fun discover_devs :: "nic_env \<Rightarrow> bool \<Rightarrow> ibv_dev option list \<Rightarrow> RdmaNic list \<Rightarrow> RdmaNic list option" where
  "discover_devs E allow_loopback [] nics = Some nics"
| "discover_devs E allow_loopback (None # devs) nics = discover_devs E allow_loopback devs nics"
| "discover_devs E allow_loopback (Some d # devs) nics = (case ResolveIbdevPciLocation (ne_lib E) (ne_fs E) (ib_name d) ''/'' of
     Inl _ \<Rightarrow> discover_devs E allow_loopback devs nics
   | Inr loc \<Rightarrow>
       if \<not> ibv_open_device d then discover_devs E allow_loopback devs nics
       else (case ibv_query_device d of
           None \<Rightarrow> discover_devs E allow_loopback devs nics
         | Some phys_port_cnt \<Rightarrow>
             (case port_loop E allow_loopback d loc phys_port_cnt 1 nics of
                None \<Rightarrow> None
              | Some nics1 \<Rightarrow> discover_devs E allow_loopback devs nics1)))"

definition DiscoverRdmaNics :: "nic_env \<Rightarrow> bool \<Rightarrow> RdmaNic list option" where
  "DiscoverRdmaNics E allow_loopback = (case ne_devices E of
     None \<Rightarrow> Some []
   | Some devs \<Rightarrow> discover_devs E allow_loopback devs [])"

section \<open>Rails\<close>

definition tcp_key :: "'a pci_lib_scheme \<Rightarrow> TcpNic \<Rightarrow> u64 \<times> string" where
  "tcp_key L n = (GetSortKey L (tn_pci n), if_name n)"

definition rdma_key :: "'a pci_lib_scheme \<Rightarrow> RdmaNic \<Rightarrow> u64 \<times> string \<times> u8" where
  "rdma_key L n = (GetSortKey L (rn_pci n), ib_dev_name n, port_num n)"

definition number_tcp :: "TcpNic list \<Rightarrow> TcpNic list" where
  "number_tcp ns = map (\<lambda>(i, n). n\<lparr>tn_rail_id := of_nat i\<rparr>) (enumerate 0 ns)"

definition number_rdma :: "RdmaNic list \<Rightarrow> RdmaNic list" where
  "number_rdma ns = map (\<lambda>(i, n). n\<lparr>rn_rail_id := of_nat i\<rparr>) (enumerate 0 ns)"

definition sortAndAssignRails :: "'a pci_lib_scheme \<Rightarrow> NicInventory \<Rightarrow> NicInventory" where
  "sortAndAssignRails L v = \<lparr>tcp_nics = number_tcp (sort_key (tcp_key L) (tcp_nics v)),
     rdma_nics = number_rdma (sort_key (rdma_key L) (rdma_nics v))\<rparr>"

definition NicInventory_new :: "'a pci_lib_scheme \<Rightarrow> TcpNic list \<Rightarrow> RdmaNic list \<Rightarrow> NicInventory" where
  "NicInventory_new L tcp rdma = sortAndAssignRails L \<lparr>tcp_nics = tcp, rdma_nics = rdma\<rparr>"

definition Discover :: "nic_env \<Rightarrow> bool \<Rightarrow> NicInventory option" where
  "Discover E allow_loopback = (case DiscoverRdmaNics E allow_loopback of
     None \<Rightarrow> None
   | Some rdma \<Rightarrow> Some (NicInventory_new (ne_lib E) (DiscoverTcpNics E allow_loopback rdma) rdma))"

section \<open>Order and numbering\<close>

lemma numbered_tcp:
  "map tn_rail_id (number_tcp ns) = map of_nat [0..<length ns]" "map (tcp_key L) (number_tcp ns) = map (tcp_key L) ns"
  "map (\<lambda>n. (tn_pci n, if_name n, ip_addrs n)) (number_tcp ns) = map (\<lambda>n. (tn_pci n, if_name n, ip_addrs n)) ns"
  by (rule nth_equalityI; simp add: number_tcp_def nth_enumerate_eq tcp_key_def)+

lemma numbered_rdma:
  "map rn_rail_id (number_rdma ns) = map of_nat [0..<length ns]" "map (rdma_key L) (number_rdma ns) = map (rdma_key L) ns"
  "map (\<lambda>n. (rn_pci n, ib_dev_name n, netdev_name n, port_num n, gid_index n, gid_addr n, ip_addr n)) (number_rdma ns) =
   map (\<lambda>n. (rn_pci n, ib_dev_name n, netdev_name n, port_num n, gid_index n, gid_addr n, ip_addr n)) ns"
  by (rule nth_equalityI; simp add: number_rdma_def nth_enumerate_eq rdma_key_def)+

lemma sort_key_perm:
  assumes "mset xs = mset ys" "inj_on f (set xs)"
  shows "sort_key f xs = sort_key f ys"
  using assms by (intro sort_key_inj_key_eq) simp_all

text \<open>
  The inventory has the interfaces it was made from, in ascending order of bus address, then
  name, then port, and numbers the rails 0, 1, 2 and so on in that order; when no two interfaces
  agree in all of these, the result does not depend on the order in which they were discovered.
\<close>

theorem rails_by_bus_address:
  "(let v = NicInventory_new L tcp rdma in
      sorted (map (tcp_key L) (tcp_nics v)) \<and> sorted (map (rdma_key L) (rdma_nics v)) \<and>
      map tn_rail_id (tcp_nics v) = map of_nat [0..<length tcp] \<and> map rn_rail_id (rdma_nics v) = map of_nat [0..<length rdma] \<and>
      image_mset (\<lambda>n. (tn_pci n, if_name n, ip_addrs n)) (mset (tcp_nics v)) =
        image_mset (\<lambda>n. (tn_pci n, if_name n, ip_addrs n)) (mset tcp) \<and>
      image_mset (\<lambda>n. (rn_pci n, ib_dev_name n, netdev_name n, port_num n, gid_index n, gid_addr n, ip_addr n)) (mset (rdma_nics v)) =
        image_mset (\<lambda>n. (rn_pci n, ib_dev_name n, netdev_name n, port_num n, gid_index n, gid_addr n, ip_addr n)) (mset rdma)) \<and>
   (mset tcp = mset tcp' \<and> mset rdma = mset rdma' \<and> inj_on (tcp_key L) (set tcp) \<and> inj_on (rdma_key L) (set rdma) \<longrightarrow>
      NicInventory_new L tcp rdma = NicInventory_new L tcp' rdma')"
proof (intro conjI impI)
  have m: "image_mset f (mset xs) = image_mset f (mset ys)" if "map f xs = map f zs" "mset zs = mset ys" for f :: "'b \<Rightarrow> 'c" and xs ys zs
    using that by (metis mset_map)
  show "let v = NicInventory_new L tcp rdma in
      sorted (map (tcp_key L) (tcp_nics v)) \<and> sorted (map (rdma_key L) (rdma_nics v)) \<and>
      map tn_rail_id (tcp_nics v) = map of_nat [0..<length tcp] \<and> map rn_rail_id (rdma_nics v) = map of_nat [0..<length rdma] \<and>
      image_mset (\<lambda>n. (tn_pci n, if_name n, ip_addrs n)) (mset (tcp_nics v)) =
        image_mset (\<lambda>n. (tn_pci n, if_name n, ip_addrs n)) (mset tcp) \<and>
      image_mset (\<lambda>n. (rn_pci n, ib_dev_name n, netdev_name n, port_num n, gid_index n, gid_addr n, ip_addr n)) (mset (rdma_nics v)) =
        image_mset (\<lambda>n. (rn_pci n, ib_dev_name n, netdev_name n, port_num n, gid_index n, gid_addr n, ip_addr n)) (mset rdma)"
    using m [OF numbered_tcp(3) mset_sort [of "tcp_key L" tcp]] m [OF numbered_rdma(3) mset_sort [of "rdma_key L" rdma]]
    by (simp add: NicInventory_new_def sortAndAssignRails_def Let_def numbered_tcp(1,2) numbered_rdma(1,2))
  assume "mset tcp = mset tcp' \<and> mset rdma = mset rdma' \<and> inj_on (tcp_key L) (set tcp) \<and> inj_on (rdma_key L) (set rdma)"
  then show "NicInventory_new L tcp rdma = NicInventory_new L tcp' rdma'"
    using sort_key_perm [of tcp tcp' "tcp_key L"] sort_key_perm [of rdma rdma' "rdma_key L"]
    by (simp add: NicInventory_new_def sortAndAssignRails_def)
qed

lemma u8_top: "(255 :: u8) = - 1"
  by code_simp

lemma u8_max: "(port :: u8) \<le> 255"
  unfolding u8_top by (rule word_order.extremum)

lemma port_loop_Some:
  assumes "port_loop E allow_loopback d loc phys_port_cnt port nics = Some r"
  shows "phys_port_cnt \<noteq> 255"
  by (rule port_loop.raw_induct [where P = "\<lambda>_ _ _ _ cnt _ _ _. cnt \<noteq> 255", OF _ assms]) (auto simp: u8_max split: if_splits)

lemma port_loop_ends: "phys_port_cnt \<noteq> 255 \<Longrightarrow> \<exists>r. port_loop E allow_loopback d loc phys_port_cnt port nics = Some r"
proof (induction "256 - unat port" arbitrary: port nics rule: less_induct)
  case less
  show ?case
  proof (cases "port \<le> phys_port_cnt")
    case True
    have "port \<noteq> 255" using True less.prems u8_max [of phys_port_cnt] by auto
    then have "unat (port + 1) = Suc (unat port)" unfolding u8_top by (simp add: unatSuc add_eq_0_iff add.commute)
    moreover have "unat port < 256" using unsigned_less [of port, where ?'a = nat] by simp
    ultimately have "256 - unat (port + 1) < 256 - unat port" by simp
    from less.hyps [OF this less.prems] True show ?thesis by (subst port_loop.simps) simp
  next
    case False
    then show ?thesis by (subst port_loop.simps) simp
  qed
qed

text \<open>
  Discovering the ports of a device ends just when it has fewer than 255 of them: the loop's
  counter has the width of the port count, and no 8-bit number exceeds 255.
\<close>

theorem port_loop_ends_below_255:
  "(\<exists>r. port_loop E allow_loopback d loc phys_port_cnt 1 nics = Some r) \<longleftrightarrow> phys_port_cnt \<noteq> 255"
  using port_loop_Some port_loop_ends by blast

section \<open>What is discovered\<close>

definition nic_id :: "PciLocation \<times> string \<times> IpAddr list \<Rightarrow> string + string" where
  "nic_id = (\<lambda>(pci, ifn, ips). if endpoint_bdf pci \<noteq> [] then Inl (endpoint_bdf pci) else Inr ifn)"

abbreviation tcp_view :: "TcpNic \<Rightarrow> PciLocation \<times> string \<times> IpAddr list" where
  "tcp_view n \<equiv> (tn_pci n, if_name n, ip_addrs n)"

abbreviation rdma_view :: "RdmaNic \<Rightarrow> PciLocation \<times> string \<times> string \<times> u8 \<times> int \<times> IpAddr \<times> IpAddr" where
  "rdma_view n \<equiv> (rn_pci n, ib_dev_name n, netdev_name n, port_num n, gid_index n, gid_addr n, ip_addr n)"

text \<open>A TCP interface has usable addresses, each once, and no device of an RDMA interface; without a device it is a loopback.\<close>

definition good_tcp :: "'a pci_lib_scheme \<Rightarrow> bool \<Rightarrow> RdmaNic list \<Rightarrow> PciLocation \<times> string \<times> IpAddr list \<Rightarrow> bool" where
  "good_tcp L allow_loopback rdma = (\<lambda>(pci, ifn, ips). ips \<noteq> [] \<and> distinct ips \<and> list_all (\<lambda>ip. IsUsableIp ip allow_loopback) ips \<and>
     (if endpoint_bdf pci = [] then allow_loopback
      else good_location L pci \<and> list_all (\<lambda>r. netdev_name r \<noteq> ifn \<and> endpoint_bdf (rn_pci r) \<noteq> endpoint_bdf pci) rdma))"

definition good_rdma :: "'a pci_lib_scheme \<Rightarrow> bool \<Rightarrow> PciLocation \<times> string \<times> string \<times> u8 \<times> int \<times> IpAddr \<times> IpAddr \<Rightarrow> bool" where
  "good_rdma L allow_loopback = (\<lambda>(pci, dev, netdev, port, gid, gid_ip, ip). good_location L pci \<and> 1 \<le> port \<and> 0 \<le> gid \<and>
     IsUsableIp ip allow_loopback \<and> IsIPv6 gid_ip)"

lemma add_to_nic_good:
  assumes "list_all (good_tcp L al rdma \<circ> tcp_view) nics" "good_tcp L al rdma (loc, ifn, [ip])"
  shows "list_all (good_tcp L al rdma \<circ> tcp_view) (add_to_nic loc ifn ip nics)"
  using assms by (induction nics) (auto simp: good_tcp_def)

lemma add_to_nic_ids:
  "set (map (nic_id \<circ> tcp_view) (add_to_nic loc ifn ip nics)) \<subseteq> insert (nic_id (loc, ifn, [ip])) (set (map (nic_id \<circ> tcp_view) nics))"
  by (induction nics) (auto simp: nic_id_def)

lemma other_nic: "\<not> same_nic loc ifn n \<Longrightarrow> nic_id (tcp_view n) \<noteq> nic_id (loc, ifn, [ip])"
  by (auto simp: same_nic_def nic_id_def split: if_splits)

lemma add_to_nic_distinct:
  "distinct (map (nic_id \<circ> tcp_view) nics) \<Longrightarrow> distinct (map (nic_id \<circ> tcp_view) (add_to_nic loc ifn ip nics))"
proof (induction nics)
  case (Cons n nics)
  show ?case
  proof (cases "same_nic loc ifn n")
    case True
    with Cons show ?thesis by (auto simp: nic_id_def)
  next
    case False
    with Cons add_to_nic_ids [of loc ifn ip nics] other_nic [OF False, of ip] show ?thesis by auto
  qed
qed simp

lemma discover_ifa_good:
  assumes "list_all (good_tcp (ne_lib E) al rdma \<circ> tcp_view) nics \<and> distinct (map (nic_id \<circ> tcp_view) nics)"
  shows "list_all (good_tcp (ne_lib E) al rdma \<circ> tcp_view) (discover_ifa E al rdma ifa nics) \<and>
    distinct (map (nic_id \<circ> tcp_view) (discover_ifa E al rdma ifa nics))"
proof -
  have "good_tcp (ne_lib E) al rdma (PciLocation_default\<lparr>numa_node := - 1\<rparr>, ifn, [ip])" if "IsUsableIp ip al" al for ifn ip
    using that by (simp add: good_tcp_def PciLocation_default_def)
  moreover have "good_tcp (ne_lib E) al rdma (loc, ifn, [ip])"
    if "IsUsableIp ip al" "ResolveNetdevPciLocation (ne_lib E) (ne_fs E) ifn ''/'' = Inr loc" "\<not> is_rdma_nic rdma ifn loc" for loc ifn ip
    using that resolve_netdev_good [OF that(2)] by (auto simp: good_tcp_def good_location_def is_rdma_nic_def list_all_iff list_ex_iff)
  ultimately show ?thesis
    using assms unfolding discover_ifa_def Let_def
    by (auto split: option.splits sum.splits intro!: add_to_nic_good add_to_nic_distinct simp del: list.pred_map)
qed

lemma DiscoverTcpNics_good:
  "list_all (good_tcp (ne_lib E) al rdma \<circ> tcp_view) (DiscoverTcpNics E al rdma) \<and>
   distinct (map (nic_id \<circ> tcp_view) (DiscoverTcpNics E al rdma))"
proof (cases "ne_getifaddrs E")
  case (Some ifap)
  have "list_all (good_tcp (ne_lib E) al rdma \<circ> tcp_view) (fold (discover_ifa E al rdma) ifap []) \<and>
     distinct (map (nic_id \<circ> tcp_view) (fold (discover_ifa E al rdma) ifap []))"
    by (rule fold_invariant [where P = "\<lambda>nics. list_all (good_tcp (ne_lib E) al rdma \<circ> tcp_view) nics \<and>
        distinct (map (nic_id \<circ> tcp_view) nics)"]) (use discover_ifa_good in blast, simp)
  with Some show ?thesis by (simp add: DiscoverTcpNics_def)
qed (simp add: DiscoverTcpNics_def)

text \<open>The scan keeps a usable address, once it has one.\<close>

definition gid_ok :: "bool \<Rightarrow> best_gid \<Rightarrow> bool" where
  "gid_ok al best \<longleftrightarrow> bg_idx best = - 1 \<or> 0 \<le> bg_idx best \<and> IsUsableIp (bg_ip best) al"

lemma scan_gids_ok: "gid_ok al best \<Longrightarrow> gid_ok al (scan_gids E al d port i n best)"
  by (induction n arbitrary: i best) (auto simp: gid_ok_def Let_def split: option.splits)

definition rdma_all :: "'a pci_lib_scheme \<Rightarrow> bool \<Rightarrow> RdmaNic list \<Rightarrow> bool" where
  "rdma_all L al nics \<longleftrightarrow> (\<forall>n \<in> set nics. good_rdma L al (rdma_view n))"

lemma discover_port_good:
  assumes "rdma_all L al nics" "good_location L loc" "1 \<le> port"
  shows "rdma_all L al (discover_port E al d loc port nics)"
proof -
  have "gid_ok al (scan_gids E al d port 0 n \<lparr>bg_idx = - 1, bg_raw = replicate 16 0, bg_netdev = [], bg_ip = IpAddr_default\<rparr>)" for n
    by (rule scan_gids_ok) (simp add: gid_ok_def)
  note ok = this
  show ?thesis
  proof (cases "ibv_query_port d port")
    case (Some attr)
    define best where "best = scan_gids E al d port 0 (nat (gid_tbl_len attr))
      \<lparr>bg_idx = - 1, bg_raw = replicate 16 0, bg_netdev = [], bg_ip = IpAddr_default\<rparr>"
    have "gid_ok al best" unfolding best_def by (rule ok)
    with assms Some show ?thesis
      by (auto simp: rdma_all_def discover_port_def Let_def best_def [symmetric] good_rdma_def gid_ok_def IsIPv6_def)
  qed (use assms in \<open>simp add: discover_port_def\<close>)
qed

lemma port_loop_good:
  "port_loop E al d loc cnt port nics = Some r \<Longrightarrow> good_location L loc \<Longrightarrow> 1 \<le> port \<Longrightarrow>
     rdma_all L al nics \<Longrightarrow> rdma_all L al r"
proof (induction "256 - unat port" arbitrary: port nics rule: less_induct)
  case less
  show ?case
  proof (cases "port \<le> cnt")
    case True
    have "port \<noteq> 255" using True port_loop_Some [OF less.prems(1)] u8_max [of cnt] by auto
    then have suc: "unat (port + 1) = Suc (unat port)" unfolding u8_top by (simp add: unatSuc add_eq_0_iff add.commute)
    have "unat port < 256" using unsigned_less [of port, where ?'a = nat] by simp
    with suc have "256 - unat (port + 1) < 256 - unat port" "1 \<le> port + 1" by (simp_all add: word_le_nat_alt)
    moreover have "port_loop E al d loc cnt (port + 1) (discover_port E al d loc port nics) = Some r"
      using less.prems(1) True by (subst (asm) port_loop.simps) simp
    ultimately show ?thesis
      using less.hyps less.prems(2,3,4) discover_port_good [OF less.prems(4,2,3)] by blast
  next
    case False
    then show ?thesis using less.prems(1,4) by (subst (asm) port_loop.simps) simp
  qed
qed

lemma discover_devs_good:
  "discover_devs E al devs nics = Some r \<Longrightarrow> rdma_all (ne_lib E) al nics \<Longrightarrow>
     rdma_all (ne_lib E) al r"
proof (induction E al devs nics rule: discover_devs.induct)
  case (3 E al d devs nics)
  show ?case
  proof (cases "ResolveIbdevPciLocation (ne_lib E) (ne_fs E) (ib_name d) ''/''")
    case (Inl st)
    with 3 show ?thesis by simp
  next
    case (Inr loc)
    show ?thesis
    proof (cases "ibv_open_device d \<and> ibv_query_device d \<noteq> None")
      case True
      then obtain cnt where cnt: "ibv_query_device d = Some cnt" by auto
      with 3 Inr True obtain nics1 where n1: "port_loop E al d loc cnt 1 nics = Some nics1" "discover_devs E al devs nics1 = Some r"
        by (auto split: option.splits)
      from port_loop_good [OF n1(1) resolve_ibdev_good [OF Inr] _ "3.prems"(2)]
      show ?thesis using 3 Inr True cnt n1 by simp
    next
      case False
      with 3 Inr show ?thesis by (auto split: option.splits)
    qed
  qed
qed simp_all

text \<open>
  C30. The interfaces of an inventory are what they should be: every TCP interface has at least one
  address, each once and all usable, is a device of the PCIe tree or, when loopbacks are allowed,
  a loopback, and shares its bus address and its name with no RDMA interface; no two have the same
  bus address. Every RDMA interface is a device of the PCIe tree with a usable address and a port
  from one on.
\<close>

theorem discovered_nics_sound:
  assumes "Discover E allow_loopback = Some v"
  shows "(\<forall>n \<in> set (tcp_nics v). good_tcp (ne_lib E) allow_loopback (rdma_nics v) (tn_pci n, if_name n, ip_addrs n)) \<and>
    distinct (map (\<lambda>n. nic_id (tn_pci n, if_name n, ip_addrs n)) (tcp_nics v)) \<and>
    (\<forall>n \<in> set (rdma_nics v). good_rdma (ne_lib E) allow_loopback (rdma_view n))"
proof -
  obtain rdma where r: "DiscoverRdmaNics E allow_loopback = Some rdma"
    and v: "v = NicInventory_new (ne_lib E) (DiscoverTcpNics E allow_loopback rdma) rdma"
    using assms by (auto simp: Discover_def split: option.splits)
  let ?tcp = "DiscoverTcpNics E allow_loopback rdma"
  have t: "map tcp_view (tcp_nics v) = map tcp_view (sort_key (tcp_key (ne_lib E)) ?tcp)"
    and rv: "map rdma_view (rdma_nics v) = map rdma_view (sort_key (rdma_key (ne_lib E)) rdma)"
    using numbered_tcp(3) numbered_rdma(3) by (simp_all add: v NicInventory_new_def sortAndAssignRails_def)
  have rdma: "rdma_all (ne_lib E) allow_loopback rdma"
    using r discover_devs_good [of E allow_loopback _ "[]" rdma] by (auto simp: DiscoverRdmaNics_def rdma_all_def split: option.splits)
  have rset: "rdma_view ` set (rdma_nics v) = rdma_view ` set rdma" using arg_cong [OF rv, of set] by simp
  have "good_rdma (ne_lib E) allow_loopback x" if "x \<in> rdma_view ` set (rdma_nics v)" for x
    using that rdma unfolding rset rdma_all_def by blast
  moreover have same: "good_tcp (ne_lib E) allow_loopback (rdma_nics v) x = good_tcp (ne_lib E) allow_loopback rdma x" for x
  proof -
    have "(\<forall>r \<in> set (rdma_nics v). P (netdev_name r) (rn_pci r)) \<longleftrightarrow> (\<forall>r \<in> set rdma. P (netdev_name r) (rn_pci r))" for P
      using arg_cong [OF rset, of "\<lambda>S. \<forall>(pci, dev, netdev, rest) \<in> S. P netdev pci"] by auto
    from this [of "\<lambda>nd pci. nd \<noteq> fst (snd x) \<and> endpoint_bdf pci \<noteq> endpoint_bdf (fst x)"] show ?thesis
      by (cases x) (simp add: good_tcp_def list_all_iff)
  qed
  have "good_tcp (ne_lib E) allow_loopback (rdma_nics v) x" if "x \<in> tcp_view ` set (tcp_nics v)" for x
    using that DiscoverTcpNics_good [of E allow_loopback rdma] arg_cong [OF t, of set] unfolding same by (auto simp: list_all_iff)
  moreover have "distinct (map (nic_id \<circ> tcp_view) (tcp_nics v))"
  proof -
    have "mset (map nic_id (map tcp_view (tcp_nics v))) = mset (map nic_id (map tcp_view ?tcp))" unfolding t by (simp add: mset_map)
    from mset_eq_imp_distinct_iff [OF this] show ?thesis
      using DiscoverTcpNics_good [of E allow_loopback rdma] by simp
  qed
  ultimately show ?thesis by (auto simp: comp_def)
qed

section \<open>A host\<close>

text \<open>A host with one network device behind a bridge of the PCIe tree, and the loopback interface.\<close>

definition demo_pci_lib :: pci_lib where
  "demo_pci_lib = \<lparr>ascii_isxdigit = \<lambda>c. c \<in> set ''0123456789abcdef'',
     SimpleHexAtoi = \<lambda>s. Some (of_nat (undigits 16 (rev s))), SimpleAtoi32 = \<lambda>s. None,
     StartsWith = \<lambda>s p. take (length p) s = p, StrSplitSkipEmpty = \<lambda>c s. filter (\<lambda>p. p \<noteq> []) (splits c s), StripWhitespace = id\<rparr>"

definition demo_sysfs :: sysfs where
  "demo_sysfs = \<lparr>fs_stat = \<lambda>p. p = ''/sys/class/net/eth0'' \<or> p = ''/sys/class/net/eth0/device'',
     fs_realpath = \<lambda>p. if p = ''/sys/class/net/eth0/device'' then Some ''/sys/devices/pci0000:10/0000:10:01.0/0000:11:00.0''
       else Some ''/sys/bus/pci'',
     fs_read = \<lambda>p. None, fs_readdir = \<lambda>p. None\<rparr>"

definition demo_nics :: nic_env where
  "demo_nics = \<lparr>ne_lib = demo_pci_lib, ne_fs = demo_sysfs, ne_access = \<lambda>p. False,
     ne_getifaddrs = Some [
       \<lparr>ifa_name = Some ''lo'', ifa_addr = Some (sockaddr_in 0 0x0100007F), ifa_flags = 0x49\<rparr>,
       \<lparr>ifa_name = Some ''eth0'', ifa_addr = Some (sockaddr_in 0 0x0100000A), ifa_flags = 0x41\<rparr>],
     ne_devices = None, ne_indextoname = \<lambda>i. None\<rparr>"

definition demo_eth0 :: TcpNic where
  "demo_eth0 = \<lparr>tn_rail_id = 0, tn_pci = \<lparr>numa_node = 0, root_complex = ''pci0000:10'', switches = [''0000:10:01.0''],
     endpoint_bdf = ''0000:11:00.0''\<rparr>, if_name = ''eth0'', ip_addrs = [IPv4 0x0100000A]\<rparr>"

definition demo_lo :: TcpNic where
  "demo_lo = \<lparr>tn_rail_id = 0, tn_pci = PciLocation_default\<lparr>numa_node := - 1\<rparr>, if_name = ''lo'', ip_addrs = [IPv4 0x0100007F]\<rparr>"

lemma demo_discovered: "DiscoverTcpNics demo_nics True [] = [demo_lo, demo_eth0]"
  by code_simp

theorem discovered_nics_sound_witness:
  "\<exists>v. Discover demo_nics True = Some v \<and> length (tcp_nics v) = 2 \<and>
     (\<forall>n \<in> set (tcp_nics v). good_tcp demo_pci_lib True [] (tn_pci n, if_name n, ip_addrs n))"
proof -
  let ?v = "NicInventory_new demo_pci_lib [demo_lo, demo_eth0] []"
  have "Discover demo_nics True = Some ?v"
    using demo_discovered by (simp add: Discover_def DiscoverRdmaNics_def demo_nics_def)
  moreover have "length (tcp_nics ?v) = 2" "rdma_nics ?v = []"
    by (simp_all add: NicInventory_new_def sortAndAssignRails_def number_tcp_def number_rdma_def)
  ultimately show ?thesis
    using discovered_nics_sound [of demo_nics True ?v] by (simp add: demo_nics_def)
qed

theorem rails_by_bus_address_witness:
  "NicInventory_new demo_pci_lib [demo_lo, demo_eth0] [] = NicInventory_new demo_pci_lib [demo_eth0, demo_lo] [] \<and>
   map tn_rail_id (tcp_nics (NicInventory_new demo_pci_lib [demo_lo, demo_eth0] [])) = [0, 1]"
proof -
  have "tcp_key demo_pci_lib demo_lo \<noteq> tcp_key demo_pci_lib demo_eth0" by (simp add: tcp_key_def demo_lo_def demo_eth0_def)
  then have "inj_on (tcp_key demo_pci_lib) (set [demo_lo, demo_eth0])" by auto
  note facts = this rails_by_bus_address [of demo_pci_lib "[demo_lo, demo_eth0]" "[]" "[demo_eth0, demo_lo]" "[]", unfolded Let_def]
  have "map tn_rail_id (tcp_nics (NicInventory_new demo_pci_lib [demo_lo, demo_eth0] [])) = map of_nat [0..<length [demo_lo, demo_eth0]]"
    using facts(2) by blast
  moreover have "mset [demo_lo, demo_eth0] = mset [demo_eth0, demo_lo]" by (simp add: add_mset_commute)
  then have "NicInventory_new demo_pci_lib [demo_lo, demo_eth0] [] = NicInventory_new demo_pci_lib [demo_eth0, demo_lo] []"
    using facts by (simp only: inj_on_empty list.set simp_thms)
  ultimately show ?thesis by simp
qed

end
