(* ===== verification/Verbs.thy ===== *)
theory Verbs
  imports NicInventory MapContents
begin

text \<open>
  libibverbs as the RDMA components use it. It is a parameter: the record \<open>verbs\<close> has one field per
  function of \<^verbatim>\<open>infiniband/verbs.h\<close> the code calls, over a state \<open>'k\<close> of driver and adapters. A function
  that allocates returns nothing where the C function returns a null pointer; one that releases says
  whether it returned 0. Handles are numbers; a structure the code reads fields of is a record with
  its handle.

  The locale \<open>verbs_laws\<close> states the documented behaviour the properties rely on: which objects
  exist, which objects an object was created on, and that an object is released unless another one
  was created on it (\<^verbatim>\<open>EBUSY\<close>).
\<close>

section \<open>Data\<close>

record ibv_context =
  ic_ptr :: nat
  ic_device :: nat

record ibv_device_attr =
  max_cqe :: int
  phys_port_cnt :: u8

record ibv_mr =
  mr_ptr :: nat
  mr_lkey :: u32
  mr_rkey :: u32

record ibv_qp =
  qp_ptr :: nat
  qp_num :: u32

record ibv_qp_init_attr =
  qp_type :: int
  send_cq :: nat
  recv_cq :: nat
  cap_max_send_wr :: u32
  cap_max_recv_wr :: u32
  cap_max_send_sge :: u32
  cap_max_recv_sge :: u32
  sq_sig :: int

type_synonym ibv_gid = "byte list"

record ibv_qp_attr =
  qa_state :: int
  qa_path_mtu :: int
  qa_dest_qp_num :: u32
  qa_rq_psn :: u32
  qa_sq_psn :: u32
  qa_access_flags :: int
  qa_pkey_index :: u16
  qa_port_num :: u8
  qa_max_dest_rd_atomic :: u8
  qa_min_rnr_timer :: u8
  qa_timeout :: u8
  qa_retry_cnt :: u8
  qa_rnr_retry :: u8
  qa_max_rd_atomic :: u8
  ah_is_global :: u8
  ah_port_num :: u8
  ah_sl :: u8
  ah_src_path_bits :: u8
  grh_dgid :: ibv_gid
  grh_sgid_index :: u8
  grh_hop_limit :: u8
  grh_traffic_class :: u8

text \<open>\<^verbatim>\<open>struct ibv_qp_attr attr = {}\<close>.\<close>

definition ibv_qp_attr_zero :: ibv_qp_attr where
  "ibv_qp_attr_zero = \<lparr>qa_state = 0, qa_path_mtu = 0, qa_dest_qp_num = 0, qa_rq_psn = 0, qa_sq_psn = 0,
     qa_access_flags = 0, qa_pkey_index = 0, qa_port_num = 0, qa_max_dest_rd_atomic = 0, qa_min_rnr_timer = 0,
     qa_timeout = 0, qa_retry_cnt = 0, qa_rnr_retry = 0, qa_max_rd_atomic = 0, ah_is_global = 0, ah_port_num = 0,
     ah_sl = 0, ah_src_path_bits = 0, grh_dgid = replicate 16 0, grh_sgid_index = 0, grh_hop_limit = 0,
     grh_traffic_class = 0\<rparr>"

record ibv_send_wr =
  wr_sges :: "(u64 \<times> u32 \<times> u32) list"
  wr_opcode :: int
  wr_send_flags :: int
  wr_remote_addr :: u64
  wr_remote_rkey :: u32

definition IBV_ACCESS_LOCAL_WRITE :: int where "IBV_ACCESS_LOCAL_WRITE = 1"
definition IBV_ACCESS_REMOTE_WRITE :: int where "IBV_ACCESS_REMOTE_WRITE = 2"
definition IBV_ACCESS_REMOTE_READ :: int where "IBV_ACCESS_REMOTE_READ = 4"
definition IBV_ACCESS_REMOTE_ATOMIC :: int where "IBV_ACCESS_REMOTE_ATOMIC = 8"
definition IBV_QPT_RC :: int where "IBV_QPT_RC = 2"
definition IBV_MTU_1024 :: int where "IBV_MTU_1024 = 3"
definition IBV_WR_RDMA_WRITE :: int where "IBV_WR_RDMA_WRITE = 0"
definition IBV_SEND_SIGNALED :: int where "IBV_SEND_SIGNALED = 2"
definition IBV_WC_SUCCESS :: int where "IBV_WC_SUCCESS = 0"

definition IBV_QPS_RESET :: int where "IBV_QPS_RESET = 0"
definition IBV_QPS_INIT :: int where "IBV_QPS_INIT = 1"
definition IBV_QPS_RTR :: int where "IBV_QPS_RTR = 2"
definition IBV_QPS_RTS :: int where "IBV_QPS_RTS = 3"
definition IBV_QPS_ERR :: int where "IBV_QPS_ERR = 6"

text \<open>The attributes \<^verbatim>\<open>ibv_modify_qp\<close> is to take over.\<close>

datatype qp_mask = IBV_QP_STATE | IBV_QP_ACCESS_FLAGS | IBV_QP_PKEY_INDEX | IBV_QP_PORT | IBV_QP_AV
  | IBV_QP_PATH_MTU | IBV_QP_TIMEOUT | IBV_QP_RETRY_CNT | IBV_QP_RNR_RETRY | IBV_QP_RQ_PSN
  | IBV_QP_MAX_QP_RD_ATOMIC | IBV_QP_MIN_RNR_TIMER | IBV_QP_SQ_PSN | IBV_QP_MAX_DEST_RD_ATOMIC | IBV_QP_DEST_QPN

text \<open>The attributes a mask selects.\<close>

fun apply_attr :: "qp_mask \<Rightarrow> ibv_qp_attr \<Rightarrow> ibv_qp_attr \<Rightarrow> ibv_qp_attr" where
  "apply_attr IBV_QP_STATE at h = h\<lparr>qa_state := qa_state at\<rparr>"
| "apply_attr IBV_QP_ACCESS_FLAGS at h = h\<lparr>qa_access_flags := qa_access_flags at\<rparr>"
| "apply_attr IBV_QP_PKEY_INDEX at h = h\<lparr>qa_pkey_index := qa_pkey_index at\<rparr>"
| "apply_attr IBV_QP_PORT at h = h\<lparr>qa_port_num := qa_port_num at\<rparr>"
| "apply_attr IBV_QP_AV at h = h\<lparr>ah_is_global := ah_is_global at, ah_port_num := ah_port_num at, ah_sl := ah_sl at,
     ah_src_path_bits := ah_src_path_bits at, grh_dgid := grh_dgid at, grh_sgid_index := grh_sgid_index at,
     grh_hop_limit := grh_hop_limit at, grh_traffic_class := grh_traffic_class at\<rparr>"
| "apply_attr IBV_QP_PATH_MTU at h = h\<lparr>qa_path_mtu := qa_path_mtu at\<rparr>"
| "apply_attr IBV_QP_TIMEOUT at h = h\<lparr>qa_timeout := qa_timeout at\<rparr>"
| "apply_attr IBV_QP_RETRY_CNT at h = h\<lparr>qa_retry_cnt := qa_retry_cnt at\<rparr>"
| "apply_attr IBV_QP_RNR_RETRY at h = h\<lparr>qa_rnr_retry := qa_rnr_retry at\<rparr>"
| "apply_attr IBV_QP_RQ_PSN at h = h\<lparr>qa_rq_psn := qa_rq_psn at\<rparr>"
| "apply_attr IBV_QP_MAX_QP_RD_ATOMIC at h = h\<lparr>qa_max_rd_atomic := qa_max_rd_atomic at\<rparr>"
| "apply_attr IBV_QP_MIN_RNR_TIMER at h = h\<lparr>qa_min_rnr_timer := qa_min_rnr_timer at\<rparr>"
| "apply_attr IBV_QP_SQ_PSN at h = h\<lparr>qa_sq_psn := qa_sq_psn at\<rparr>"
| "apply_attr IBV_QP_MAX_DEST_RD_ATOMIC at h = h\<lparr>qa_max_dest_rd_atomic := qa_max_dest_rd_atomic at\<rparr>"
| "apply_attr IBV_QP_DEST_QPN at h = h\<lparr>qa_dest_qp_num := qa_dest_qp_num at\<rparr>"

text \<open>The transitions of a reliable connection that the adapter accepts.\<close>

definition legal_qp :: "int \<Rightarrow> int \<Rightarrow> bool" where
  "legal_qp s s' \<longleftrightarrow> s' = IBV_QPS_ERR \<or> s' = IBV_QPS_RESET \<or> (s = IBV_QPS_RESET \<and> s' = IBV_QPS_INIT) \<or>
     (s = IBV_QPS_INIT \<and> s' = IBV_QPS_INIT) \<or> (s = IBV_QPS_INIT \<and> s' = IBV_QPS_RTR) \<or>
     (s = IBV_QPS_RTR \<and> s' = IBV_QPS_RTS) \<or> (s = IBV_QPS_RTS \<and> s' = IBV_QPS_RTS)"

section \<open>The library\<close>

record 'k verbs =
  v_get_device_list :: "'k \<Rightarrow> (nat \<times> nat option list) option \<times> 'k"
  v_free_device_list :: "nat \<Rightarrow> 'k \<Rightarrow> 'k"
  v_device_name :: "nat \<Rightarrow> string option"
  v_open_device :: "nat \<Rightarrow> 'k \<Rightarrow> ibv_context option \<times> 'k"
  v_close_device :: "nat \<Rightarrow> 'k \<Rightarrow> bool \<times> 'k"
  v_query_device :: "nat \<Rightarrow> 'k \<Rightarrow> ibv_device_attr option"
  v_query_port :: "nat \<Rightarrow> u8 \<Rightarrow> 'k \<Rightarrow> ibv_port_attr option"
  v_query_gid_ex :: "nat \<Rightarrow> u8 \<Rightarrow> nat \<Rightarrow> 'k \<Rightarrow> ibv_gid_entry option"
  v_query_gid :: "nat \<Rightarrow> u8 \<Rightarrow> int \<Rightarrow> 'k \<Rightarrow> ibv_gid option"
  v_alloc_pd :: "nat \<Rightarrow> 'k \<Rightarrow> nat option \<times> 'k"
  v_dealloc_pd :: "nat \<Rightarrow> 'k \<Rightarrow> bool \<times> 'k"
  v_create_cq :: "nat \<Rightarrow> int \<Rightarrow> 'k \<Rightarrow> nat option \<times> 'k"
  v_destroy_cq :: "nat \<Rightarrow> 'k \<Rightarrow> bool \<times> 'k"
  v_create_qp :: "nat \<Rightarrow> ibv_qp_init_attr \<Rightarrow> 'k \<Rightarrow> ibv_qp option \<times> 'k"
  v_destroy_qp :: "nat \<Rightarrow> 'k \<Rightarrow> bool \<times> 'k"
  v_modify_qp :: "nat \<Rightarrow> ibv_qp_attr \<Rightarrow> qp_mask list \<Rightarrow> 'k \<Rightarrow> bool \<times> 'k"
  v_reg_mr :: "nat \<Rightarrow> u64 \<Rightarrow> u64 \<Rightarrow> int \<Rightarrow> 'k \<Rightarrow> ibv_mr option \<times> 'k"
  v_dereg_mr :: "nat \<Rightarrow> 'k \<Rightarrow> bool \<times> 'k"
  v_post_send :: "nat \<Rightarrow> ibv_send_wr \<Rightarrow> 'k \<Rightarrow> bool \<times> 'k"
  v_poll_cq :: "nat \<Rightarrow> 'k \<Rightarrow> (int \<times> int) \<times> 'k"

section \<open>Its objects\<close>

datatype ibv_obj = DeviceList nat | DeviceContext nat | Pd nat | Cq nat | Qp nat | Mr nat

text \<open>
  The state of the library as the laws see it: the objects that exist, and for each the objects it
  was created on. \<open>made\<close> and \<open>gone\<close> are the two ways it changes.
\<close>

type_synonym ibv_view = "ibv_obj set \<times> (ibv_obj \<Rightarrow> ibv_obj set)"

definition made :: "ibv_obj \<Rightarrow> ibv_obj set \<Rightarrow> ibv_view \<Rightarrow> ibv_view \<Rightarrow> bool" where
  "made x on v v' \<longleftrightarrow> x \<notin> fst v \<and> fst v' = insert x (fst v) \<and> snd v' x = on \<and> (\<forall>y\<in>fst v. snd v' y = snd v y)"

definition unused :: "ibv_obj \<Rightarrow> ibv_view \<Rightarrow> bool" where
  "unused x v \<longleftrightarrow> (\<forall>y\<in>fst v. x \<notin> snd v y)"

definition gone :: "ibv_obj \<Rightarrow> bool \<Rightarrow> ibv_view \<Rightarrow> ibv_view \<Rightarrow> bool" where
  "gone x ok v v' \<longleftrightarrow> (x \<in> fst v \<and> unused x v \<longrightarrow> ok) \<and>
     fst v' = (if ok then fst v - {x} else fst v) \<and> (\<forall>y\<in>fst v'. snd v' y = snd v y)"

locale verbs_laws =
  fixes V :: "'k verbs"
    and view :: "'k \<Rightarrow> ibv_view"
  assumes get_device_list: "v_get_device_list V k = (rl, k') \<Longrightarrow>
      (case rl of None \<Rightarrow> view k' = view k | Some (l, devs) \<Rightarrow> made (DeviceList l) {} (view k) (view k'))"
    and free_device_list: "DeviceList l \<in> fst (view k) \<Longrightarrow> gone (DeviceList l) True (view k) (view (v_free_device_list V l k))"
    and open_device: "v_open_device V d k = (rc, k') \<Longrightarrow>
      (case rc of None \<Rightarrow> view k' = view k
       | Some c \<Rightarrow> ic_device c = d \<and> made (DeviceContext (ic_ptr c)) {} (view k) (view k'))"
    and close_device: "v_close_device V c k = (ok, k') \<Longrightarrow> gone (DeviceContext c) ok (view k) (view k')"
    and alloc_pd: "v_alloc_pd V c k = (rp, k') \<Longrightarrow>
      (case rp of None \<Rightarrow> view k' = view k | Some p \<Rightarrow> made (Pd p) {DeviceContext c} (view k) (view k'))"
    and dealloc_pd: "v_dealloc_pd V p k = (ok, k') \<Longrightarrow> gone (Pd p) ok (view k) (view k')"
    and create_cq: "v_create_cq V c n k = (rp, k') \<Longrightarrow>
      (case rp of None \<Rightarrow> view k' = view k | Some q \<Rightarrow> made (Cq q) {DeviceContext c} (view k) (view k'))"
    and destroy_cq: "v_destroy_cq V q k = (ok, k') \<Longrightarrow> gone (Cq q) ok (view k) (view k')"
    and create_qp: "v_create_qp V p ia k = (rq, k') \<Longrightarrow>
      (case rq of None \<Rightarrow> view k' = view k
       | Some y \<Rightarrow> made (Qp (qp_ptr y)) {Pd p, Cq (send_cq ia), Cq (recv_cq ia)} (view k) (view k'))"
    and destroy_qp: "v_destroy_qp V q k = (ok, k') \<Longrightarrow> gone (Qp q) ok (view k) (view k')"
    and modify_qp: "v_modify_qp V q at msk k = (ok, k') \<Longrightarrow> view k' = view k"
    and reg_mr: "v_reg_mr V p a len f k = (rm, k') \<Longrightarrow>
      (case rm of None \<Rightarrow> view k' = view k
       | Some y \<Rightarrow> made (Mr (mr_ptr y)) {Pd p} (view k) (view k'))"
    and dereg_mr: "v_dereg_mr V m k = (ok, k') \<Longrightarrow> gone (Mr m) ok (view k) (view k')"

text \<open>
  The attributes of queue pairs in the adapter. A call of \<^verbatim>\<open>ibv_modify_qp\<close> takes over the selected
  attributes when the transition is legal, or fails and changes nothing; a new queue pair is in
  the reset state; no other call changes a queue pair that exists.
\<close>

locale qp_laws = verbs_laws V view for V :: "'k verbs" and view :: "'k \<Rightarrow> ibv_view" +
  fixes hw :: "'k \<Rightarrow> nat \<Rightarrow> ibv_qp_attr"
  assumes modify_hw: "v_modify_qp V q at msk k = (ok, k') \<Longrightarrow>
      (\<forall>y. y \<noteq> q \<longrightarrow> hw k' y = hw k y) \<and> (\<not> ok \<longrightarrow> hw k' q = hw k q) \<and>
      (ok \<longrightarrow> hw k' q = fold (\<lambda>m. apply_attr m at) msk (hw k q) \<and>
        (IBV_QP_STATE \<in> set msk \<longrightarrow> legal_qp (qa_state (hw k q)) (qa_state at)))"
    and create_qp_hw: "v_create_qp V p ia k = (rq, k') \<Longrightarrow>
      (case rq of None \<Rightarrow> hw k' = hw k
       | Some y \<Rightarrow> qa_state (hw k' (qp_ptr y)) = IBV_QPS_RESET \<and> (\<forall>z. z \<noteq> qp_ptr y \<longrightarrow> hw k' z = hw k z))"
    and destroy_qp_hw: "v_destroy_qp V q k = (ok, k') \<Longrightarrow> z \<noteq> q \<Longrightarrow> hw k' z = hw k z"
    and create_cq_hw: "v_create_cq V c n k = (rp, k') \<Longrightarrow> hw k' = hw k"
    and destroy_cq_hw: "v_destroy_cq V q k = (ok, k') \<Longrightarrow> hw k' = hw k"

section \<open>Owning objects\<close>

text \<open>
  \<open>holds X F v\<close>: beside the objects of the frame \<open>F\<close>, which use only each other, exactly those of \<open>X\<close>
  exist, each created on the objects it is listed with. The order of \<open>X\<close> does not matter.
\<close>

type_synonym ibv_objs = "(ibv_obj \<times> ibv_obj set) list"

definition objs :: "ibv_objs \<Rightarrow> ibv_obj set" where "objs X = fst ` set X"

definition used :: "ibv_objs \<Rightarrow> ibv_obj set" where "used X = \<Union> (snd ` set X)"

lemma objs_simps [simp]:
  "objs [] = {}" "objs ((x, on) # X) = insert x (objs X)" "objs (X @ Y) = objs X \<union> objs Y"
  by (auto simp: objs_def)

lemma used_simps [simp]:
  "used [] = {}" "used ((x, on) # X) = on \<union> used X" "used (X @ Y) = used X \<union> used Y"
  by (auto simp: used_def)

definition holds :: "ibv_objs \<Rightarrow> ibv_obj set \<Rightarrow> ibv_view \<Rightarrow> bool" where
  "holds X F v \<longleftrightarrow> fst v = objs X \<union> F \<and> distinct (map fst X) \<and> objs X \<inter> F = {} \<and>
     (\<forall>p \<in> set X. snd v (fst p) = snd p) \<and> used X \<subseteq> objs X \<union> F \<and> (\<forall>y\<in>F. snd v y \<subseteq> F)"

lemma holds_perm:
  assumes "mset X = mset Y"
  shows "holds X F v = holds Y F v" and "objs X = objs Y" and "used X = used Y"
proof -
  have S: "set X = set Y"
    using assms by (rule mset_eq_setD)
  show O: "objs X = objs Y" and U: "used X = used Y"
    by (simp_all add: objs_def used_def S)
  have "mset (map fst X) = mset (map fst Y)"
    by (simp add: assms)
  then have "distinct (map fst X) = distinct (map fst Y)"
    by (rule mset_eq_imp_distinct_iff)
  then show "holds X F v = holds Y F v"
    by (simp only: holds_def O U S)
qed

lemma holds_Nil: "holds [] F v \<longleftrightarrow> fst v = F \<and> (\<forall>y\<in>F. snd v y \<subseteq> F)"
  by (auto simp: holds_def)

lemma holds_distinct: "holds X F v \<Longrightarrow> distinct (map fst X)"
  by (simp add: holds_def)

lemma holds_live: "holds X F v \<Longrightarrow> fst v = objs X \<union> F"
  by (simp add: holds_def)

lemma holds_made:
  assumes h: "holds X F v" and m: "made x on v v'" and on: "on \<subseteq> fst v"
  shows "holds ((x, on) # X) F v'" and "x \<notin> used X" and "x \<notin> on"
proof -
  have x: "x \<notin> objs X" "x \<notin> F" "x \<notin> on"
    using h m on by (auto simp: made_def holds_def)
  show "x \<notin> used X" and "x \<notin> on"
    using h x by (auto simp: holds_def)
  have *: "snd v' y = snd v y" if "y \<in> objs X \<union> F" for y
    using that m h by (simp add: made_def holds_def)
  have "\<forall>p \<in> set X. snd v' (fst p) = snd p"
    using h * by (simp add: holds_def objs_def)
  moreover have "\<forall>y\<in>F. snd v' y \<subseteq> F"
    using h * by (simp add: holds_def)
  moreover have "fst ` set X = objs X"
    by (simp add: objs_def)
  ultimately show "holds ((x, on) # X) F v'"
    using h m x on unfolding holds_def made_def by auto
qed

lemma holds_gone:
  assumes h: "holds ((x, on) # X) F v" and g: "gone x ok v v'" and x: "x \<notin> on" "x \<notin> used X"
  shows "ok" and "holds X F v'"
proof -
  have "x \<notin> snd v (fst p)" if "p \<in> set X" for p
    using that h x by (auto simp: holds_def used_def)
  then have "x \<notin> snd v y" if "y \<in> fst v" for y
    using that h x by (auto simp: holds_def objs_def)
  then have "unused x v" and "x \<in> fst v"
    using h by (auto simp: holds_def unused_def)
  with g show ok by (simp add: gone_def)
  then have v': "fst v' = fst v - {x}" and same: "\<forall>y\<in>fst v'. snd v' y = snd v y"
    using g by (auto simp: gone_def)
  have live: "fst v' = objs X \<union> F"
    using h v' by (auto simp: holds_def objs_def)
  have "\<forall>p\<in>set X. snd v' (fst p) = snd p" "\<forall>y\<in>F. snd v' y \<subseteq> F"
    using h same live by (auto simp: holds_def objs_def)
  moreover have "used X \<subseteq> objs X \<union> F"
    using h x by (auto simp: holds_def)
  ultimately show "holds X F v'"
    using h live by (simp add: holds_def)
qed

end
