(* ===== verification/RdmaDevice.thy ===== *)
theory RdmaDevice
  imports Verbs
begin

text \<open>
  \<^verbatim>\<open>internal/rdma/rdma_context\<close> and \<^verbatim>\<open>internal/rdma/rdma_device\<close>: the adapters of the host, opened with a
  protection domain and a completion queue each, and the choice of the address a queue pair uses.
  libibverbs and the directory \<^verbatim>\<open>/sys/class/infiniband\<close> are parameters. Log messages are not modelled, nor
  is \<^verbatim>\<open>checkPortStates\<close>, which only logs.
\<close>

section \<open>RdmaContext\<close>

definition kDefaultCqeSize :: int where "kDefaultCqeSize = 1024"
definition kDefaultPort :: u8 where "kDefaultPort = 1"

record RdmaContext =
  cx_name :: string
  cx_ctx :: "ibv_context option"
  cx_pd :: "nat option"
  cx_cq :: "nat option"
  cx_gid_index :: int
  cx_local_gid :: ibv_gid
  cx_attr :: ibv_device_attr

definition getDeviceName_dev :: "'k verbs \<Rightarrow> nat option \<Rightarrow> string" where
  "getDeviceName_dev V dev = (case dev of None \<Rightarrow> ''unknown''
     | Some d \<Rightarrow> (case v_device_name V d of Some name \<Rightarrow> name | None \<Rightarrow> ''unknown''))"

definition getDeviceName :: "'k verbs \<Rightarrow> ibv_context option \<Rightarrow> string" where
  "getDeviceName V ctx = (case ctx of Some c \<Rightarrow> getDeviceName_dev V (Some (ic_device c)) | None \<Rightarrow> ''unknown'')"

definition queryDevice :: "'k verbs \<Rightarrow> nat \<Rightarrow> 'k \<Rightarrow> ibv_device_attr" where
  "queryDevice V ctx k = (case v_query_device V ctx k of None \<Rightarrow> \<lparr>max_cqe = 0, phys_port_cnt = 0\<rparr> | Some attr \<Rightarrow> attr)"

definition createCq :: "'k verbs \<Rightarrow> nat \<Rightarrow> ibv_device_attr \<Rightarrow> 'k \<Rightarrow> nat option \<times> 'k" where
  "createCq V ctx attr k = (let cqe = (if 0 < max_cqe attr then max_cqe attr else kDefaultCqeSize)
     in v_create_cq V ctx cqe k)"

text \<open>The loop over the table of addresses, from index \<open>i\<close> on, \<open>n\<close> entries.\<close>

fun gid_loop :: "'k verbs \<Rightarrow> nat \<Rightarrow> u8 \<Rightarrow> 'k \<Rightarrow> nat \<Rightarrow> nat \<Rightarrow> int \<Rightarrow> int" where
  "gid_loop V ctx port k i 0 fallback_ipv6_idx = (if fallback_ipv6_idx \<noteq> - 1 then fallback_ipv6_idx else 0)"
| "gid_loop V ctx port k i (Suc n) fallback_ipv6_idx = (case v_query_gid_ex V ctx port i k of
     None \<Rightarrow> gid_loop V ctx port k (Suc i) n fallback_ipv6_idx
   | Some entry \<Rightarrow>
       if gid_type entry \<noteq> IBV_GID_TYPE_ROCE_V2 then gid_loop V ctx port k (Suc i) n fallback_ipv6_idx
       else
         let in6 = of_le (take 16 (gid_raw entry)) in
         if IN6_IS_ADDR_V4MAPPED in6 then int i
         else gid_loop V ctx port k (Suc i) n
           (if \<not> IN6_IS_ADDR_LINKLOCAL in6 \<and> \<not> IN6_IS_ADDR_LOOPBACK in6 \<and> \<not> IN6_IS_ADDR_MULTICAST in6 \<and>
               fallback_ipv6_idx = - 1
            then int i else fallback_ipv6_idx))"

definition findRoutableGid :: "'k verbs \<Rightarrow> nat option \<Rightarrow> u8 \<Rightarrow> 'k \<Rightarrow> int" where
  "findRoutableGid V ctx port k = (case ctx of
     None \<Rightarrow> 0
   | Some c \<Rightarrow> (case v_query_port V c port k of
         None \<Rightarrow> 0
       | Some attr \<Rightarrow> gid_loop V c port k 0 (nat (gid_tbl_len attr)) (- 1)))"

definition RdmaContext_new :: "'k verbs \<Rightarrow> ibv_context option \<Rightarrow> nat option \<Rightarrow> nat option \<Rightarrow> int \<Rightarrow> ibv_gid \<Rightarrow>
    ibv_device_attr \<Rightarrow> RdmaContext res" where
  "RdmaContext_new V ctx pd cq gid_idx local_gid attr =
     dcheck (ctx \<noteq> None) (dcheck (pd \<noteq> None) (dcheck (cq \<noteq> None)
       (Inr \<lparr>cx_name = getDeviceName V ctx, cx_ctx = ctx, cx_pd = pd, cx_cq = cq, cx_gid_index = gid_idx,
          cx_local_gid = local_gid, cx_attr = attr\<rparr>)))"

definition RdmaContext_delete :: "'k verbs \<Rightarrow> RdmaContext \<Rightarrow> 'k \<Rightarrow> 'k" where
  "RdmaContext_delete V cx k =
     (let k1 = (case cx_cq cx of None \<Rightarrow> k | Some q \<Rightarrow> snd (v_destroy_cq V q k));
          k2 = (case cx_pd cx of None \<Rightarrow> k1 | Some p \<Rightarrow> snd (v_dealloc_pd V p k1))
      in case cx_ctx cx of None \<Rightarrow> k2 | Some c \<Rightarrow> snd (v_close_device V (ic_ptr c) k2))"

definition RdmaContext_Create :: "'k verbs \<Rightarrow> nat option \<Rightarrow> 'k \<Rightarrow> (RdmaContext option \<times> 'k) res" where
  "RdmaContext_Create V device k = dcheck (device \<noteq> None) (
     let (context, k1) = v_open_device V (the device) k in
     case context of None \<Rightarrow> Inr (None, k1)
     | Some c \<Rightarrow>
       let attr = queryDevice V (ic_ptr c) k1; (pd, k2) = v_alloc_pd V (ic_ptr c) k1 in
       (case pd of None \<Rightarrow> Inr (None, snd (v_close_device V (ic_ptr c) k2))
        | Some p \<Rightarrow>
          let (cq, k3) = createCq V (ic_ptr c) attr k2 in
          (case cq of None \<Rightarrow>
              Inr (None, snd (v_close_device V (ic_ptr c) (snd (v_dealloc_pd V p k3))))
           | Some q \<Rightarrow>
              let gid_idx = findRoutableGid V (Some (ic_ptr c)) kDefaultPort k3 in
              (case v_query_gid V (ic_ptr c) kDefaultPort gid_idx k3 of
                 None \<Rightarrow> Inr (None, snd (v_close_device V (ic_ptr c) (snd (v_dealloc_pd V p (snd (v_destroy_cq V q k3))))))
               | Some local_gid \<Rightarrow>
                   rbind (RdmaContext_new V (Some c) pd cq gid_idx local_gid attr) (\<lambda>cx. Inr (Some cx, k3))))))"

section \<open>RdmaDevice\<close>

record ibdev_fs =
  ibdev_net :: "string \<Rightarrow> string list option"
  StrContainsIgnoreCase :: "string \<Rightarrow> string \<Rightarrow> bool"

fun scan_net :: "ibdev_fs \<Rightarrow> string list \<Rightarrow> bool \<Rightarrow> bool" where
  "scan_net fs [] has_entries = has_entries"
| "scan_net fs (d # ds) has_entries =
     (if take 1 d = ''.'' then scan_net fs ds has_entries
      else if \<not> StrContainsIgnoreCase fs d ''dontuse'' then False
      else scan_net fs ds True)"

definition ShouldIgnoreDevice :: "ibdev_fs \<Rightarrow> string \<Rightarrow> bool" where
  "ShouldIgnoreDevice fs dev_name =
     (if dev_name = [] then False
      else case ibdev_net fs (''/sys/class/infiniband/'' @ dev_name @ ''/device/net'') of
          None \<Rightarrow> False
        | Some ds \<Rightarrow> scan_net fs ds False)"

record RdmaDevice =
  rd_ctxs :: "RdmaContext list"
  rd_ctx_map :: "(string, RdmaContext) hash_map"

definition GetContext :: "RdmaDevice \<Rightarrow> string \<Rightarrow> RdmaContext option" where
  "GetContext dev name = map_of (rd_ctx_map dev) name"

definition getDeviceList :: "'k verbs \<Rightarrow> 'k \<Rightarrow> (nat \<times> nat option list) option \<times> 'k" where
  "getDeviceList V k = (case v_get_device_list V k of
     (None, k1) \<Rightarrow> (None, k1)
   | (Some (l, devs), k1) \<Rightarrow> if devs = [] then (None, v_free_device_list V l k1) else (Some (l, devs), k1))"

fun open_devices :: "'k verbs \<Rightarrow> ibdev_fs \<Rightarrow> nat option list \<Rightarrow> RdmaDevice \<Rightarrow> 'k \<Rightarrow> (RdmaDevice \<times> 'k) res" where
  "open_devices V fs [] dev k = Inr (dev, k)"
| "open_devices V fs (None # devs) dev k = open_devices V fs devs dev k"
| "open_devices V fs (Some d # devs) dev k = (case v_device_name V d of
     None \<Rightarrow> open_devices V fs devs dev k
   | Some dev_name \<Rightarrow>
       if ShouldIgnoreDevice fs dev_name then open_devices V fs devs dev k
       else rbind (RdmaContext_Create V (Some d) k) (\<lambda>(dev_ctx, k1). case dev_ctx of
           None \<Rightarrow> open_devices V fs devs dev k1
         | Some cx \<Rightarrow> open_devices V fs devs
             \<lparr>rd_ctxs = rd_ctxs dev @ [cx], rd_ctx_map = AList.update (cx_name cx) cx (rd_ctx_map dev)\<rparr> k1))"

definition RdmaDevice_Create :: "'k verbs \<Rightarrow> ibdev_fs \<Rightarrow> 'k \<Rightarrow> (RdmaDevice StatusOr \<times> 'k) res" where
  "RdmaDevice_Create V fs k = (case getDeviceList V k of
     (None, k1) \<Rightarrow> Inr (Inl NotFoundStatus, k1)
   | (Some (l, devs), k1) \<Rightarrow>
       rbind (open_devices V fs devs \<lparr>rd_ctxs = [], rd_ctx_map = []\<rparr> k1) (\<lambda>(dev, k2).
         let k3 = v_free_device_list V l k2 in
         if rd_ctxs dev = [] then Inr (Inl NotFoundStatus, k3) else Inr (Inr dev, k3)))"

text \<open>The destructor destroys the contexts of the vector.\<close>

definition RdmaDevice_delete :: "'k verbs \<Rightarrow> RdmaDevice \<Rightarrow> 'k \<Rightarrow> 'k" where
  "RdmaDevice_delete V dev k = fold (RdmaContext_delete V) (rd_ctxs dev) k"

section \<open>The address of a queue pair\<close>

text \<open>
  The reference for \<^verbatim>\<open>findRoutableGid\<close>: the entries in the order of the table, the first that carries an
  IPv4 address, otherwise the first that carries a routable IPv6 address, otherwise the first slot.
\<close>

definition roce_v2 :: "'k verbs \<Rightarrow> nat \<Rightarrow> u8 \<Rightarrow> 'k \<Rightarrow> (ipv6_t \<Rightarrow> bool) \<Rightarrow> nat \<Rightarrow> bool" where
  "roce_v2 V ctx port k P i = (case v_query_gid_ex V ctx port i k of
     None \<Rightarrow> False
   | Some entry \<Rightarrow> gid_type entry = IBV_GID_TYPE_ROCE_V2 \<and> P (of_le (take 16 (gid_raw entry))))"

definition routable6 :: "ipv6_t \<Rightarrow> bool" where
  "routable6 a \<longleftrightarrow> \<not> IN6_IS_ADDR_V4MAPPED a \<and> \<not> IN6_IS_ADDR_LINKLOCAL a \<and> \<not> IN6_IS_ADDR_LOOPBACK a \<and>
     \<not> IN6_IS_ADDR_MULTICAST a"

definition first_gid :: "'k verbs \<Rightarrow> nat \<Rightarrow> u8 \<Rightarrow> 'k \<Rightarrow> nat list \<Rightarrow> int \<Rightarrow> int" where
  "first_gid V ctx port k is d = (case find (roce_v2 V ctx port k IN6_IS_ADDR_V4MAPPED) is of
     Some i \<Rightarrow> int i
   | None \<Rightarrow> if d \<noteq> - 1 then d else
       (case find (roce_v2 V ctx port k routable6) is of Some i \<Rightarrow> int i | None \<Rightarrow> 0))"

lemma gid_loop_first: "gid_loop V ctx port k i n d = first_gid V ctx port k [i ..< i + n] d"
proof (induction n arbitrary: i d)
  case 0
  show ?case by (simp add: first_gid_def)
next
  case (Suc n)
  show ?case
    by (simp add: Suc [simplified] upt_conv_Cons [of i] first_gid_def roce_v2_def routable6_def Let_def
        del: upt_Suc split: option.splits)
qed

section \<open>Objects of contexts and devices\<close>

definition cx_objs :: "RdmaContext \<Rightarrow> ibv_objs" where
  "cx_objs cx = (let d = DeviceContext (ic_ptr (the (cx_ctx cx))) in
     [(Cq (the (cx_cq cx)), {d}), (Pd (the (cx_pd cx)), {d}), (d, {})])"

definition wf_cx :: "'k verbs \<Rightarrow> RdmaContext \<Rightarrow> bool" where
  "wf_cx V cx \<longleftrightarrow> cx_ctx cx \<noteq> None \<and> cx_pd cx \<noteq> None \<and> cx_cq cx \<noteq> None \<and> cx_name cx = getDeviceName V (cx_ctx cx)"

definition dev_objs :: "RdmaContext list \<Rightarrow> ibv_objs" where
  "dev_objs ctxs = concat (map cx_objs ctxs)"

lemma dev_objs_simps [simp]:
  "dev_objs [] = []" "dev_objs (cx # ctxs) = cx_objs cx @ dev_objs ctxs"
  "dev_objs (ctxs @ ctxs') = dev_objs ctxs @ dev_objs ctxs'"
  by (simp_all add: dev_objs_def)

text \<open>The objects of a context use only its own device context.\<close>

lemma cx_objs_disjoint:
  assumes "distinct (map fst (cx_objs cx @ dev_objs ctxs @ X))"
  shows "objs (cx_objs cx) \<inter> used (dev_objs ctxs) = {}"
proof -
  have "used (dev_objs ctxs) \<subseteq> objs (dev_objs ctxs)"
    by (induction ctxs) (auto simp: cx_objs_def Let_def)
  moreover have "objs (cx_objs cx) \<inter> objs (dev_objs ctxs) = {}"
    using assms by (auto simp: objs_def)
  ultimately show ?thesis by blast
qed

context verbs_laws
begin

lemma destroy_holds:
  "holds ((Cq q, on) # X) F (view k) \<Longrightarrow> Cq q \<notin> on \<union> used X \<Longrightarrow> holds X F (view (snd (v_destroy_cq V q k)))"
  "holds ((Pd p, on) # X) F (view k) \<Longrightarrow> Pd p \<notin> on \<union> used X \<Longrightarrow> holds X F (view (snd (v_dealloc_pd V p k)))"
  "holds ((DeviceContext c, on) # X) F (view k) \<Longrightarrow> DeviceContext c \<notin> on \<union> used X \<Longrightarrow>
     holds X F (view (snd (v_close_device V c k)))"
  "holds ((Qp u, on) # X) F (view k) \<Longrightarrow> Qp u \<notin> on \<union> used X \<Longrightarrow> holds X F (view (snd (v_destroy_qp V u k)))"
  "holds ((Mr m, on) # X) F (view k) \<Longrightarrow> Mr m \<notin> on \<union> used X \<Longrightarrow> holds X F (view (snd (v_dereg_mr V m k)))"
  "holds ((DeviceList l, on) # X) F (view k) \<Longrightarrow> DeviceList l \<notin> on \<union> used X \<Longrightarrow> holds X F (view (v_free_device_list V l k))"
  using holds_gone(2) destroy_cq [of q k] dealloc_pd [of p k] close_device [of c k] destroy_qp [of u k] dereg_mr [of m k]
    free_device_list [of l k] holds_live [of "(DeviceList l, on) # X" F "view k"]
  by (metis UnCI prod.collapse objs_simps(2) insertI1)+

lemma context_delete:
  assumes h: "holds (cx_objs cx @ X) F (view k)" and w: "wf_cx V cx" and d: "objs (cx_objs cx) \<inter> used X = {}"
  shows "holds X F (view (RdmaContext_delete V cx k))"
proof -
  obtain c p q where cx: "cx_ctx cx = Some c" "cx_pd cx = Some p" "cx_cq cx = Some q"
    using w by (auto simp: wf_cx_def)
  let ?k1 = "snd (v_destroy_cq V q k)" and ?k2 = "snd (v_dealloc_pd V p (snd (v_destroy_cq V q k)))"
  have "holds ((Pd p, {DeviceContext (ic_ptr c)}) # (DeviceContext (ic_ptr c), {}) # X) F (view ?k1)"
    using h d by (intro destroy_holds(1)) (auto simp: cx_objs_def cx Let_def)
  then have "holds ((DeviceContext (ic_ptr c), {}) # X) F (view ?k2)"
    using d by (intro destroy_holds(2)) (auto simp: cx_objs_def cx Let_def)
  then have "holds X F (view (snd (v_close_device V (ic_ptr c) ?k2)))"
    using d by (intro destroy_holds(3)) (auto simp: cx_objs_def cx Let_def)
  then show ?thesis
    by (simp add: RdmaContext_delete_def cx Let_def)
qed

lemma context_create:
  assumes h: "holds X F (view k)"
  shows "\<exists>r k'. RdmaContext_Create V (Some d) k = Inr (r, k') \<and> (case r of
      None \<Rightarrow> holds X F (view k')
    | Some cx \<Rightarrow> wf_cx V cx \<and> ic_device (the (cx_ctx cx)) = d \<and> holds (cx_objs cx @ X) F (view k'))"
proof -
  obtain ro k1 where o: "v_open_device V d k = (ro, k1)" by force
  show ?thesis
  proof (cases ro)
    case None
    then show ?thesis
      using open_device [OF o] h by (simp add: RdmaContext_Create_def o)
  next
    case (Some c)
    let ?d = "DeviceContext (ic_ptr c)"
    note oc = open_device [OF o, unfolded Some, simplified]
    have h1: "holds ((?d, {}) # X) F (view k1)" and d: "?d \<notin> used X"
      using holds_made [OF h, of ?d "{}" "view k1"] oc by auto
    obtain rp k2 where a: "v_alloc_pd V (ic_ptr c) k1 = (rp, k2)" by force
    show ?thesis
    proof (cases rp)
      case None
      then have "holds X F (view (snd (v_close_device V (ic_ptr c) k2)))"
        using h1 d alloc_pd [OF a] by (intro destroy_holds(3) [where on = "{}"]) auto
      then show ?thesis
        by (simp add: RdmaContext_Create_def o a Some None Let_def)
    next
      case (Some p)
      have h2: "holds ((Pd p, {?d}) # (?d, {}) # X) F (view k2)" and p: "Pd p \<notin> used X"
        using holds_made [OF h1, of "Pd p" "{?d}" "view k2"] alloc_pd [OF a] holds_live [OF h1] by (auto simp: Some)
      obtain rq k3 where q: "createCq V (ic_ptr c) (queryDevice V (ic_ptr c) k1) k2 = (rq, k3)" by force
      note cq = create_cq [OF q [unfolded createCq_def Let_def]]
      have undo: "holds X F (view (snd (v_close_device V (ic_ptr c) (snd (v_dealloc_pd V p k4)))))"
        if "holds ((Pd p, {?d}) # (?d, {}) # X) F (view k4)" for k4
        using that d p by (intro destroy_holds(3) [where on = "{}"] destroy_holds(2) [where on = "{?d}"]) auto
      show ?thesis
      proof (cases rq)
        case None
        then show ?thesis
          using undo h2 cq by (simp add: RdmaContext_Create_def o a q \<open>ro = Some c\<close> \<open>rp = Some p\<close> Let_def)
      next
        case (Some cqh)
        have h3: "holds ((Cq cqh, {?d}) # (Pd p, {?d}) # (?d, {}) # X) F (view k3)" and cqn: "Cq cqh \<notin> used X"
          using holds_made [OF h2, of "Cq cqh" "{?d}" "view k3"] cq holds_live [OF h2] by (auto simp: Some)
        have "holds X F (view (snd (v_close_device V (ic_ptr c) (snd (v_dealloc_pd V p (snd (v_destroy_cq V cqh k3)))))))"
          using h3 cqn by (intro undo destroy_holds(1) [where on = "{?d}"]) auto
        moreover have "wf_cx V cx \<and> ic_device (the (cx_ctx cx)) = d \<and> holds (cx_objs cx @ X) F (view k3)"
          if "RdmaContext_new V (Some c) (Some p) (Some cqh) gi g at = Inr cx" for gi g at cx
          using that h3 oc by (auto simp: RdmaContext_new_def wf_cx_def cx_objs_def Let_def res_simps)
        ultimately show ?thesis
          by (auto simp: RdmaContext_Create_def o a q \<open>ro = Some c\<close> \<open>rp = Some p\<close> Some Let_def RdmaContext_new_def
              split: option.splits)
      qed
    qed
  qed
qed

lemma devices_delete:
  assumes "holds (dev_objs ctxs @ X) F (view k)" "list_all (wf_cx V) ctxs"
    and "objs (dev_objs ctxs) \<inter> used X = {}"
  shows "holds X F (view (fold (RdmaContext_delete V) ctxs k))"
  using assms
proof (induction ctxs arbitrary: k)
  case (Cons cx ctxs)
  have "objs (cx_objs cx) \<inter> used (dev_objs ctxs) = {}"
    using holds_distinct [OF Cons.prems(1)] by (intro cx_objs_disjoint [where X = X]) simp
  then have "holds (dev_objs ctxs @ X) F (view (RdmaContext_delete V cx k))"
    using Cons.prems by (intro context_delete) auto
  moreover have "objs (dev_objs ctxs) \<inter> used X = {}"
    using Cons.prems(3) by auto
  ultimately show ?case
    using Cons.IH Cons.prems(2) by simp
qed simp

end

text \<open>What a device consists of: an open context per usable adapter, and the map from names to them.\<close>

definition wf_dev :: "'k verbs \<Rightarrow> RdmaDevice \<Rightarrow> bool" where
  "wf_dev V dev \<longleftrightarrow> list_all (wf_cx V) (rd_ctxs dev) \<and> wf_map (rd_ctx_map dev) \<and>
     distinct (map cx_name (rd_ctxs dev)) \<and> set (rd_ctx_map dev) = (\<lambda>cx. (cx_name cx, cx)) ` set (rd_ctxs dev)"

lemma wf_dev_GetContext: "wf_dev V dev \<Longrightarrow> GetContext dev name = Some cx \<longleftrightarrow> cx \<in> set (rd_ctxs dev) \<and> cx_name cx = name"
  using wf_map_in_set [of "rd_ctx_map dev" name cx] by (auto simp: wf_dev_def GetContext_def)

lemma wf_dev_add:
  assumes "wf_dev V dev" "wf_cx V cx" "cx_name cx \<notin> cx_name ` set (rd_ctxs dev)"
  shows "wf_dev V \<lparr>rd_ctxs = rd_ctxs dev @ [cx], rd_ctx_map = AList.update (cx_name cx) cx (rd_ctx_map dev)\<rparr>"
proof -
  have "map_of (rd_ctx_map dev) (cx_name cx) = None"
    using assms by (auto simp: wf_dev_def map_of_eq_None_iff)
  then show ?thesis
    using assms wf_map_update [of "rd_ctx_map dev" "cx_name cx" cx] by (simp add: wf_dev_def set_update_fresh)
qed

text \<open>The names of the adapters in a list, as libibverbs reports them.\<close>

definition dev_names :: "'k verbs \<Rightarrow> nat option list \<Rightarrow> string list" where
  "dev_names V devs = concat (map (\<lambda>d. case d of None \<Rightarrow> [] | Some x \<Rightarrow>
     (case v_device_name V x of None \<Rightarrow> [] | Some name \<Rightarrow> [name])) devs)"

context verbs_laws
begin

lemma open_devices_ok:
  assumes "holds (dev_objs (rd_ctxs dev) @ X) F (view k)" "wf_dev V dev" "distinct (dev_names V devs)"
    "cx_name ` set (rd_ctxs dev) \<inter> set (dev_names V devs) = {}"
  shows "\<exists>dev' k'. open_devices V fs devs dev k = Inr (dev', k') \<and> holds (dev_objs (rd_ctxs dev') @ X) F (view k') \<and>
     wf_dev V dev'"
  using assms
proof (induction devs arbitrary: dev k)
  case Nil
  then show ?case by simp
next
  case (Cons od devs)
  have rest: "distinct (dev_names V devs)" "cx_name ` set (rd_ctxs dev) \<inter> set (dev_names V devs) = {}"
    using Cons.prems(3, 4) by (auto simp: dev_names_def)
  note skip = Cons.IH [OF Cons.prems(1, 2) rest]
  show ?case
  proof (cases "\<exists>d name. od = Some d \<and> v_device_name V d = Some name \<and> \<not> ShouldIgnoreDevice fs name")
    case False
    with skip show ?thesis
      by (cases od) (auto split: option.splits)
  next
    case True
    then obtain d name where d: "od = Some d" "v_device_name V d = Some name" "\<not> ShouldIgnoreDevice fs name"
      by blast
    obtain r k' where c: "RdmaContext_Create V (Some d) k = Inr (r, k')" and r: "(case r of
        None \<Rightarrow> holds (dev_objs (rd_ctxs dev) @ X) F (view k')
      | Some cx \<Rightarrow> wf_cx V cx \<and> ic_device (the (cx_ctx cx)) = d \<and> holds (cx_objs cx @ dev_objs (rd_ctxs dev) @ X) F (view k'))"
      using context_create [OF Cons.prems(1), of d] by blast
    show ?thesis
    proof (cases r)
      case None
      with r have "holds (dev_objs (rd_ctxs dev) @ X) F (view k')" by simp
      from Cons.IH [OF this Cons.prems(2) rest] show ?thesis
        using d c None by simp
    next
      case (Some cx)
      let ?dev = "\<lparr>rd_ctxs = rd_ctxs dev @ [cx], rd_ctx_map = AList.update (cx_name cx) cx (rd_ctx_map dev)\<rparr>"
      have w: "wf_cx V cx" and n: "cx_name cx = name" and h: "holds (cx_objs cx @ dev_objs (rd_ctxs dev) @ X) F (view k')"
        using r Some d by (auto simp: wf_cx_def getDeviceName_def getDeviceName_dev_def)
      have new: "name \<notin> set (dev_names V devs)" "name \<notin> cx_name ` set (rd_ctxs dev)"
        using Cons.prems(3, 4) d by (auto simp: dev_names_def)
      have "holds (dev_objs (rd_ctxs ?dev) @ X) F (view k')"
        using h by (subst holds_perm(1) [where Y = "cx_objs cx @ dev_objs (rd_ctxs dev) @ X"]) simp_all
      moreover have "wf_dev V ?dev"
        using wf_dev_add [OF Cons.prems(2) w] new n by simp
      moreover have "cx_name ` set (rd_ctxs ?dev) \<inter> set (dev_names V devs) = {}"
        using rest(2) new n by simp
      ultimately show ?thesis
        using Cons.IH [of ?dev k'] rest(1) d c Some by simp
    qed
  qed
qed

lemma device_create:
  assumes h: "holds X F (view k)" and names: "\<And>k l devs k'. v_get_device_list V k = (Some (l, devs), k') \<Longrightarrow> distinct (dev_names V devs)"
  shows "\<exists>r k'. RdmaDevice_Create V fs k = Inr (r, k') \<and> (case r of
      Inl s \<Rightarrow> s = NotFoundStatus \<and> holds X F (view k')
    | Inr dev \<Rightarrow> wf_dev V dev \<and> rd_ctxs dev \<noteq> [] \<and> holds (dev_objs (rd_ctxs dev) @ X) F (view k'))"
proof -
  obtain rl k1 where g: "v_get_device_list V k = (rl, k1)" by force
  show ?thesis
  proof (cases rl)
    case None
    then show ?thesis
      using get_device_list [OF g] h by (simp add: RdmaDevice_Create_def getDeviceList_def g)
  next
    case (Some ld)
    obtain l devs where ld: "ld = (l, devs)" by force
    have h1: "holds ((DeviceList l, {}) # X) F (view k1)" and l: "DeviceList l \<notin> used X"
      using holds_made [OF h, of "DeviceList l" "{}" "view k1"] get_device_list [OF g] by (auto simp: Some ld)
    let ?dev = "\<lparr>rd_ctxs = [], rd_ctx_map = []\<rparr> :: RdmaDevice"
    have "wf_dev V ?dev" by (simp add: wf_dev_def)
    then obtain dev k2 where o: "open_devices V fs devs ?dev k1 = Inr (dev, k2)" "wf_dev V dev"
      and h2: "holds (dev_objs (rd_ctxs dev) @ (DeviceList l, {}) # X) F (view k2)"
      using open_devices_ok [of ?dev "(DeviceList l, {}) # X" F k1 devs fs] h1 names g Some ld by auto
    have "DeviceList l \<notin> used (dev_objs (rd_ctxs dev))"
      by (induction "rd_ctxs dev") (auto simp: dev_objs_def used_def cx_objs_def Let_def)
    moreover have "holds ((DeviceList l, {}) # dev_objs (rd_ctxs dev) @ X) F (view k2)"
      using h2 by (subst holds_perm(1) [where Y = "dev_objs (rd_ctxs dev) @ (DeviceList l, {}) # X"]) simp_all
    ultimately have h3: "holds (dev_objs (rd_ctxs dev) @ X) F (view (v_free_device_list V l k2))"
      using l by (intro destroy_holds(6) [where on = "{}"]) auto
    show ?thesis
    proof (cases "devs = []")
      case True
      have "holds X F (view (v_free_device_list V l k1))"
        using h1 l by (intro destroy_holds(6) [where on = "{}"]) auto
      then show ?thesis
        by (simp add: RdmaDevice_Create_def getDeviceList_def g Some ld True)
    next
      case False
      then show ?thesis
        using o h3 by (cases "rd_ctxs dev = []") (simp_all add: RdmaDevice_Create_def getDeviceList_def g Some ld Let_def)
    qed
  qed
qed

end

end
