(* ===== verification/RdmaQPair.thy ===== *)
theory RdmaQPair
  imports RdmaDevice
begin

text \<open>
  \<^verbatim>\<open>internal/rdma/rdma_qpair\<close> and \<^verbatim>\<open>rdma_conn.h\<close>: queue pairs of reliable connections, their own completion queue,
  and the transitions RESET, INIT, RTR, RTS. A queue pair refers to its context by value, since contexts do
  not change; the constructor has checked that it is not null. Message texts are not modelled.
\<close>

section \<open>Data\<close>

record QpOptions =
  max_send_wr :: u32
  max_recv_wr :: u32
  max_send_sge :: u32
  max_recv_sge :: u32
  cq_size :: u32
  path_mtu :: int
  hop_limit :: u8
  traffic_class :: u8
  qo_sl :: u8
  access_flags :: int
  qo_timeout :: u8
  retry_cnt :: u8
  rnr_retry :: u8
  max_rd_atomic :: u8
  max_dest_rd_atomic :: u8
  min_rnr_timer :: u8
  sq_sig_all :: bool

definition QpOptions_default :: QpOptions where
  "QpOptions_default = \<lparr>max_send_wr = 1024, max_recv_wr = 1024, max_send_sge = 1, max_recv_sge = 1, cq_size = 2048,
     path_mtu = IBV_MTU_1024, hop_limit = 255, traffic_class = 0, qo_sl = 0,
     access_flags = IBV_ACCESS_LOCAL_WRITE + IBV_ACCESS_REMOTE_WRITE + IBV_ACCESS_REMOTE_READ + IBV_ACCESS_REMOTE_ATOMIC,
     qo_timeout = 14, retry_cnt = 7, rnr_retry = 7, max_rd_atomic = 16, max_dest_rd_atomic = 16, min_rnr_timer = 12,
     sq_sig_all = False\<rparr>"

datatype QpState = kReset | kInit | kRtr | kRts | kError

record RdmaQPair =
  q_ctx :: "RdmaContext option"
  q_qp :: "ibv_qp option"
  q_cq :: "nat option"
  q_options :: QpOptions
  q_state :: QpState

section \<open>Operations\<close>

definition RdmaQPair_new :: "RdmaContext option \<Rightarrow> ibv_qp option \<Rightarrow> nat option \<Rightarrow> QpOptions \<Rightarrow> RdmaQPair res" where
  "RdmaQPair_new ctx qp cq opts = dcheck (ctx \<noteq> None) (dcheck (qp \<noteq> None) (dcheck (cq \<noteq> None)
     (Inr \<lparr>q_ctx = ctx, q_qp = qp, q_cq = cq, q_options = opts, q_state = kReset\<rparr>)))"

definition RdmaQPair_delete :: "'k verbs \<Rightarrow> RdmaQPair \<Rightarrow> 'k \<Rightarrow> 'k" where
  "RdmaQPair_delete V qp k =
     (let k1 = (case q_qp qp of None \<Rightarrow> k | Some q \<Rightarrow> snd (v_destroy_qp V (qp_ptr q) k))
      in case q_cq qp of None \<Rightarrow> k1 | Some c \<Rightarrow> snd (v_destroy_cq V c k1))"

definition Qpn :: "RdmaQPair \<Rightarrow> u32" where
  "Qpn qp = (case q_qp qp of Some q \<Rightarrow> qp_num q | None \<Rightarrow> 0)"

definition IsConnected :: "RdmaQPair \<Rightarrow> bool" where
  "IsConnected qp \<longleftrightarrow> q_state qp = kRts"

text \<open>What a transition does with the result of \<^verbatim>\<open>ibv_modify_qp\<close>.\<close>

definition qp_transition :: "'k verbs \<Rightarrow> ibv_qp \<Rightarrow> ibv_qp_attr \<Rightarrow> qp_mask list \<Rightarrow> QpState \<Rightarrow> RdmaQPair \<Rightarrow> 'k \<Rightarrow>
    absl_status \<times> RdmaQPair \<times> 'k" where
  "qp_transition V q attr flags next qp k = (case v_modify_qp V (qp_ptr q) attr flags k of
     (False, k1) \<Rightarrow> (InternalStatus, qp\<lparr>q_state := kError\<rparr>, k1)
   | (True, k1) \<Rightarrow> (OkStatus, qp\<lparr>q_state := next\<rparr>, k1))"

definition Init :: "'k verbs \<Rightarrow> RdmaQPair \<Rightarrow> 'k \<Rightarrow> absl_status \<times> RdmaQPair \<times> 'k" where
  "Init V qp k = (case q_qp qp of
     None \<Rightarrow> (FailedPreconditionStatus, qp, k)
   | Some q \<Rightarrow>
       let attr = ibv_qp_attr_zero\<lparr>qa_state := IBV_QPS_INIT, qa_pkey_index := 0, qa_port_num := kDefaultPort,
             qa_access_flags := access_flags (q_options qp)\<rparr>;
           flags = [IBV_QP_STATE, IBV_QP_PKEY_INDEX, IBV_QP_PORT, IBV_QP_ACCESS_FLAGS]
       in qp_transition V q attr flags kInit qp k)"

definition Rtr :: "'k verbs \<Rightarrow> u32 \<Rightarrow> ibv_gid \<Rightarrow> u32 \<Rightarrow> RdmaQPair \<Rightarrow> 'k \<Rightarrow> absl_status \<times> RdmaQPair \<times> 'k" where
  "Rtr V remote_qpn remote_gid remote_psn qp k = (case q_qp qp of
     None \<Rightarrow> (FailedPreconditionStatus, qp, k)
   | Some q \<Rightarrow>
       if q_state qp \<noteq> kInit then (FailedPreconditionStatus, qp, k)
       else
         let opts = q_options qp;
             attr = ibv_qp_attr_zero\<lparr>qa_state := IBV_QPS_RTR, qa_path_mtu := path_mtu opts, qa_dest_qp_num := remote_qpn,
               qa_rq_psn := remote_psn, qa_max_dest_rd_atomic := max_dest_rd_atomic opts,
               qa_min_rnr_timer := min_rnr_timer opts, ah_is_global := 1, ah_port_num := kDefaultPort, ah_sl := qo_sl opts,
               ah_src_path_bits := 0, grh_dgid := remote_gid,
               grh_sgid_index := (case q_ctx qp of Some cx \<Rightarrow> word_of_int (cx_gid_index cx) | None \<Rightarrow> 0),
               grh_hop_limit := hop_limit opts, grh_traffic_class := traffic_class opts\<rparr>;
             flags = [IBV_QP_STATE, IBV_QP_AV, IBV_QP_PATH_MTU, IBV_QP_DEST_QPN, IBV_QP_RQ_PSN,
               IBV_QP_MAX_DEST_RD_ATOMIC, IBV_QP_MIN_RNR_TIMER]
         in qp_transition V q attr flags kRtr qp k)"

definition Rts :: "'k verbs \<Rightarrow> u32 \<Rightarrow> RdmaQPair \<Rightarrow> 'k \<Rightarrow> absl_status \<times> RdmaQPair \<times> 'k" where
  "Rts V local_psn qp k = (case q_qp qp of
     None \<Rightarrow> (FailedPreconditionStatus, qp, k)
   | Some q \<Rightarrow>
       if q_state qp \<noteq> kRtr then (FailedPreconditionStatus, qp, k)
       else
         let opts = q_options qp;
             attr = ibv_qp_attr_zero\<lparr>qa_state := IBV_QPS_RTS, qa_sq_psn := local_psn, qa_timeout := qo_timeout opts,
               qa_retry_cnt := retry_cnt opts, qa_rnr_retry := rnr_retry opts, qa_max_rd_atomic := max_rd_atomic opts\<rparr>;
             flags = [IBV_QP_STATE, IBV_QP_SQ_PSN, IBV_QP_TIMEOUT, IBV_QP_RETRY_CNT, IBV_QP_RNR_RETRY, IBV_QP_MAX_QP_RD_ATOMIC]
         in qp_transition V q attr flags kRts qp k)"

definition QPair_Connect :: "'k verbs \<Rightarrow> u32 \<Rightarrow> ibv_gid \<Rightarrow> u32 \<Rightarrow> u32 \<Rightarrow> RdmaQPair \<Rightarrow> 'k \<Rightarrow> absl_status \<times> RdmaQPair \<times> 'k" where
  "QPair_Connect V remote_qpn remote_gid remote_psn local_psn qp k =
     (let (status, qp1, k1) = Rtr V remote_qpn remote_gid remote_psn qp k
      in if status \<noteq> OkStatus then (status, qp1, k1) else Rts V local_psn qp1 k1)"

definition GetLocalGid :: "RdmaQPair \<Rightarrow> ibv_gid StatusOr" where
  "GetLocalGid qp = (case q_ctx qp of None \<Rightarrow> Inl FailedPreconditionStatus | Some cx \<Rightarrow> Inr (cx_local_gid cx))"

definition RdmaQPair_Create :: "'k verbs \<Rightarrow> RdmaContext option \<Rightarrow> QpOptions \<Rightarrow> 'k \<Rightarrow> (RdmaQPair StatusOr \<times> 'k) res" where
  "RdmaQPair_Create V ctx opts k = (case ctx of
     None \<Rightarrow> Inr (Inl InvalidArgumentStatus, k)
   | Some cx \<Rightarrow>
       rbind (deref (cx_ctx cx)) (\<lambda>c. case v_create_cq V (ic_ptr c) (sint (cq_size opts)) k of
         (None, k1) \<Rightarrow> Inr (Inl InternalStatus, k1)
       | (Some cq, k1) \<Rightarrow>
           let init_attr = \<lparr>qp_type = IBV_QPT_RC, send_cq = cq, recv_cq = cq, cap_max_send_wr = max_send_wr opts,
                 cap_max_recv_wr = max_recv_wr opts, cap_max_send_sge = max_send_sge opts,
                 cap_max_recv_sge = max_recv_sge opts, sq_sig = (if sq_sig_all opts then 1 else 0)\<rparr>
           in rbind (deref (cx_pd cx)) (\<lambda>pd. case v_create_qp V pd init_attr k1 of
                (None, k2) \<Rightarrow> Inr (Inl InternalStatus, snd (v_destroy_cq V cq k2))
              | (Some qp, k2) \<Rightarrow>
                  rbind (RdmaQPair_new ctx (Some qp) (Some cq) opts) (\<lambda>queue_pair.
                    let (init_status, queue_pair1, k3) = Init V queue_pair k2
                    in if init_status \<noteq> OkStatus then Inr (Inl init_status, RdmaQPair_delete V queue_pair1 k3)
                       else Inr (Inr queue_pair1, k3)))))"

record RdmaConn =
  cn_qp :: RdmaQPair
  cn_lkey :: u32
  cn_rkey :: u32

section \<open>Objects and state\<close>

definition q_ptr :: "RdmaQPair \<Rightarrow> nat" where "q_ptr qp = qp_ptr (the (q_qp qp))"

definition qp_objs :: "RdmaQPair \<Rightarrow> ibv_objs" where
  "qp_objs qp = (let cx = the (q_ctx qp); c = Cq (the (q_cq qp)) in
     [(Qp (q_ptr qp), {Pd (the (cx_pd cx)), c}), (c, {DeviceContext (ic_ptr (the (cx_ctx cx)))})])"

definition wf_qp :: "RdmaQPair \<Rightarrow> bool" where
  "wf_qp qp \<longleftrightarrow> q_ctx qp \<noteq> None \<and> q_qp qp \<noteq> None \<and> q_cq qp \<noteq> None"

text \<open>The state the object remembers and the one of the adapter.\<close>

primrec state_code :: "QpState \<Rightarrow> int option" where
  "state_code kReset = Some IBV_QPS_RESET"
| "state_code kInit = Some IBV_QPS_INIT"
| "state_code kRtr = Some IBV_QPS_RTR"
| "state_code kRts = Some IBV_QPS_RTS"
| "state_code kError = None"

definition tracks :: "RdmaQPair \<Rightarrow> ibv_qp_attr \<Rightarrow> bool" where
  "tracks qp h \<longleftrightarrow> (\<forall>s. state_code (q_state qp) = Some s \<longrightarrow> qa_state h = s)"

text \<open>The adapter sends to and expects packets from one remote queue pair.\<close>

definition linked :: "ibv_qp_attr \<Rightarrow> u32 \<Rightarrow> ibv_gid \<Rightarrow> u32 \<Rightarrow> u32 \<Rightarrow> bool" where
  "linked h remote_qpn remote_gid remote_psn local_psn \<longleftrightarrow> qa_state h = IBV_QPS_RTS \<and> qa_dest_qp_num h = remote_qpn \<and>
     grh_dgid h = remote_gid \<and> qa_rq_psn h = remote_psn \<and> qa_sq_psn h = local_psn"

context qp_laws
begin

lemma transition:
  assumes "qp_transition V q attr flags nxt qp k = (s, qp', k')"
  shows "view k' = view k" and "y \<noteq> qp_ptr q \<Longrightarrow> hw k' y = hw k y"
    and "(s = OkStatus \<and> qp' = qp\<lparr>q_state := nxt\<rparr> \<and> hw k' (qp_ptr q) = fold (\<lambda>m. apply_attr m attr) flags (hw k (qp_ptr q))) \<or>
         (s = InternalStatus \<and> qp' = qp\<lparr>q_state := kError\<rparr> \<and> hw k' (qp_ptr q) = hw k (qp_ptr q))"
proof -
  obtain ok k1 where m: "v_modify_qp V (qp_ptr q) attr flags k = (ok, k1)" by force
  with assms have k': "k' = k1" by (cases ok) (simp_all add: qp_transition_def)
  show "view k' = view k" using modify_qp [OF m] k' by simp
  show "y \<noteq> qp_ptr q \<Longrightarrow> hw k' y = hw k y" using modify_hw [OF m] k' by simp
  show "(s = OkStatus \<and> qp' = qp\<lparr>q_state := nxt\<rparr> \<and> hw k' (qp_ptr q) = fold (\<lambda>m. apply_attr m attr) flags (hw k (qp_ptr q))) \<or>
         (s = InternalStatus \<and> qp' = qp\<lparr>q_state := kError\<rparr> \<and> hw k' (qp_ptr q) = hw k (qp_ptr q))"
    using m modify_hw [OF m] assms by (cases ok) (auto simp: qp_transition_def)
qed

lemma connect_outcome:
  assumes w: "wf_qp qp" and c: "QPair_Connect V rqpn rgid rpsn lpsn qp k = (s, qp', k')"
  shows "view k' = view k" and "y \<noteq> q_ptr qp \<Longrightarrow> hw k' y = hw k y"
    and "\<exists>st. qp' = qp\<lparr>q_state := st\<rparr> \<and>
      (q_state qp \<noteq> kInit \<longrightarrow> s = FailedPreconditionStatus \<and> st = q_state qp \<and> k' = k) \<and>
      (q_state qp = kInit \<longrightarrow> (s = OkStatus \<and> st = kRts \<and> linked (hw k' (q_ptr qp)) rqpn rgid rpsn lpsn) \<or>
         (s = InternalStatus \<and> st = kError))"
proof -
  obtain q where q: "q_qp qp = Some q" using w by (auto simp: wf_qp_def)
  then have ptr: "q_ptr qp = qp_ptr q" by (simp add: q_ptr_def)
  obtain s1 qp1 k1 where r: "Rtr V rqpn rgid rpsn qp k = (s1, qp1, k1)" by (metis prod_cases3)
  have all: "view k' = view k \<and> (\<forall>y. y \<noteq> q_ptr qp \<longrightarrow> hw k' y = hw k y) \<and> (\<exists>st. qp' = qp\<lparr>q_state := st\<rparr> \<and>
      (q_state qp \<noteq> kInit \<longrightarrow> s = FailedPreconditionStatus \<and> st = q_state qp \<and> k' = k) \<and>
      (q_state qp = kInit \<longrightarrow> (s = OkStatus \<and> st = kRts \<and> linked (hw k' (q_ptr qp)) rqpn rgid rpsn lpsn) \<or>
         (s = InternalStatus \<and> st = kError)))"
  proof (cases "q_state qp = kInit")
    case False
    then show ?thesis
      using c by (auto simp: QPair_Connect_def Rtr_def q intro!: exI [of _ "q_state qp"])
  next
    case True
    note t1 = transition [OF r [unfolded Rtr_def q option.case True Let_def simp_thms if_False]]
    show ?thesis
    proof (cases "s1 = OkStatus")
      case False
      with t1(3) have "s1 = InternalStatus" "qp1 = qp\<lparr>q_state := kError\<rparr>" by auto
      with False show ?thesis
        using c r t1(1, 2) True by (auto simp: QPair_Connect_def ptr)
    next
      case ok: True
      with t1(3) have qp1: "qp1 = qp\<lparr>q_state := kRtr\<rparr>" by auto
      have c2: "Rts V lpsn qp1 k1 = (s, qp', k')"
        using c r ok by (simp add: QPair_Connect_def)
      have q1: "q_qp qp1 = Some q" "q_state qp1 = kRtr" by (simp_all add: qp1 q)
      note t2 = transition [OF c2 [unfolded Rts_def q1 option.case Let_def simp_thms if_False]]
      show ?thesis
        using t1 t2 True ok by (auto simp: qp1 ptr linked_def)
    qed
  qed
  from all show "view k' = view k" and "y \<noteq> q_ptr qp \<Longrightarrow> hw k' y = hw k y" by auto
  from all show "\<exists>st. qp' = qp\<lparr>q_state := st\<rparr> \<and>
      (q_state qp \<noteq> kInit \<longrightarrow> s = FailedPreconditionStatus \<and> st = q_state qp \<and> k' = k) \<and>
      (q_state qp = kInit \<longrightarrow> (s = OkStatus \<and> st = kRts \<and> linked (hw k' (q_ptr qp)) rqpn rgid rpsn lpsn) \<or>
         (s = InternalStatus \<and> st = kError))" by blast
qed

lemma qp_delete:
  assumes h: "holds (qp_objs qp @ X) F (view k)" and w: "wf_qp qp" and d: "objs (qp_objs qp) \<inter> used X = {}"
  shows "holds X F (view (RdmaQPair_delete V qp k))" and "y \<noteq> q_ptr qp \<Longrightarrow> hw (RdmaQPair_delete V qp k) y = hw k y"
proof -
  obtain cx q c where qp: "q_ctx qp = Some cx" "q_qp qp = Some q" "q_cq qp = Some c"
    using w by (auto simp: wf_qp_def)
  let ?k1 = "snd (v_destroy_qp V (qp_ptr q) k)" and ?c = "{DeviceContext (ic_ptr (the (cx_ctx cx)))}"
  have "holds ((Cq c, ?c) # X) F (view ?k1)"
    using h d by (intro destroy_holds(4) [where on = "{Pd (the (cx_pd cx)), Cq c}"]) (auto simp: qp_objs_def qp q_ptr_def Let_def)
  then have "holds X F (view (snd (v_destroy_cq V c ?k1)))"
    using d by (intro destroy_holds(1) [where on = ?c]) (auto simp: qp_objs_def qp q_ptr_def Let_def)
  then show "holds X F (view (RdmaQPair_delete V qp k))"
    by (simp add: RdmaQPair_delete_def qp)
  show "hw (RdmaQPair_delete V qp k) y = hw k y" if "y \<noteq> q_ptr qp"
    using that destroy_qp_hw [OF prod.collapse [symmetric], of y "qp_ptr q" k] destroy_cq_hw [OF prod.collapse [symmetric], of c ?k1]
    by (simp add: RdmaQPair_delete_def qp q_ptr_def)
qed

text \<open>
  Creating a queue pair either fails and leaves nothing behind, or gives one in state INIT that is not
  among those that existed; the others keep their attributes.
\<close>

definition created :: "RdmaContext \<Rightarrow> ibv_objs \<Rightarrow> ibv_obj set \<Rightarrow> 'k \<Rightarrow> RdmaQPair StatusOr \<Rightarrow> 'k \<Rightarrow> bool" where
  "created cx X F k r k' \<longleftrightarrow> (case r of
     Inl s \<Rightarrow> s = InternalStatus \<and> holds X F (view k')
   | Inr qp \<Rightarrow> wf_qp qp \<and> q_ctx qp = Some cx \<and> q_state qp = kInit \<and> Qp (q_ptr qp) \<notin> fst (view k) \<and>
       objs (qp_objs qp) \<inter> used X = {} \<and> holds (qp_objs qp @ X) F (view k')) \<and>
   (\<forall>y. Qp y \<in> fst (view k) \<longrightarrow> hw k' y = hw k y)"

lemma qp_create:
  assumes h: "holds X F (view k)" and w: "wf_cx V cx"
    and live: "DeviceContext (ic_ptr (the (cx_ctx cx))) \<in> fst (view k)" "Pd (the (cx_pd cx)) \<in> fst (view k)"
  shows "\<exists>r k'. RdmaQPair_Create V (Some cx) opts k = Inr (r, k') \<and> created cx X F k r k'"
proof -
  obtain c p where cx: "cx_ctx cx = Some c" "cx_pd cx = Some p" using w by (auto simp: wf_cx_def)
  let ?d = "DeviceContext (ic_ptr c)"
  obtain rc k1 where cq: "v_create_cq V (ic_ptr c) (sint (cq_size opts)) k = (rc, k1)" by force
  note hw1 = create_cq_hw [OF cq]
  show ?thesis
  proof (cases rc)
    case None
    then show ?thesis
      using create_cq [OF cq] h hw1 by (simp add: RdmaQPair_Create_def cx cq created_def)
  next
    case (Some q)
    have h1: "holds ((Cq q, {?d}) # X) F (view k1)" and q: "Cq q \<notin> used X"
      using holds_made [OF h, of "Cq q" "{?d}" "view k1"] create_cq [OF cq] live cx by (auto simp: Some)
    define ia where "ia = \<lparr>qp_type = IBV_QPT_RC, send_cq = q, recv_cq = q, cap_max_send_wr = max_send_wr opts,
      cap_max_recv_wr = max_recv_wr opts, cap_max_send_sge = max_send_sge opts,
      cap_max_recv_sge = max_recv_sge opts, sq_sig = (if sq_sig_all opts then 1 else 0 :: int)\<rparr>"
    obtain rq k2 where cr: "v_create_qp V p ia k1 = (rq, k2)" by force
    show ?thesis
    proof (cases rq)
      case None
      then have "holds X F (view (snd (v_destroy_cq V q k2)))"
        using h1 q create_qp [OF cr] by (intro destroy_holds(1) [where on = "{?d}"]) auto
      moreover have "hw (snd (v_destroy_cq V q k2)) = hw k"
        using destroy_cq_hw [OF prod.collapse [symmetric], of q k2] create_qp_hw [OF cr] hw1 by (simp add: None)
      ultimately show ?thesis
        by (simp add: RdmaQPair_Create_def cx cq Some ia_def [symmetric] cr None created_def)
    next
      case (Some u)
      let ?Q = "Qp (qp_ptr u)"
      have m: "made ?Q {Pd p, Cq q} (view k1) (view k2)"
        using create_qp [OF cr] by (simp add: Some ia_def)
      have fresh: "?Q \<notin> fst (view k)"
        using m holds_live [OF h1] holds_live [OF h] by (auto simp: made_def)
      have h2: "holds ((?Q, {Pd p, Cq q}) # (Cq q, {?d}) # X) F (view k2)" and u: "?Q \<notin> used X"
        using holds_made [OF h1 m] holds_live [OF h1] holds_live [OF h] live cx by auto
      have hw2: "hw k2 y = hw k y" if "y \<noteq> qp_ptr u" for y
        using create_qp_hw [OF cr] hw1 that by (simp add: Some)
      define qp where "qp = \<lparr>q_ctx = Some cx, q_qp = Some u, q_cq = Some q, q_options = opts, q_state = kReset\<rparr>"
      have qp: "q_ctx qp = Some cx" "q_qp qp = Some u" "q_cq qp = Some q" by (simp_all add: qp_def)
      obtain s qp' k3 where i: "Init V qp k2 = (s, qp', k3)" by (metis prod_cases3)
      note t = transition [OF i [unfolded Init_def qp option.case Let_def]]
      have o: "qp_objs (qp\<lparr>q_state := st\<rparr>) = [(?Q, {Pd p, Cq q}), (Cq q, {?d})]"
        and w': "wf_qp (qp\<lparr>q_state := st\<rparr>)" "q_ptr (qp\<lparr>q_state := st\<rparr>) = qp_ptr u" for st
        by (simp_all add: qp_objs_def q_ptr_def cx qp wf_qp_def Let_def)
      have h3: "holds (qp_objs (qp\<lparr>q_state := st\<rparr>) @ X) F (view k3)" for st
        using h2 t(1) by (simp add: o)
      have dis: "objs (qp_objs (qp\<lparr>q_state := st\<rparr>)) \<inter> used X = {}" for st
        using u q by (simp add: o)
      have hw3: "hw k3 y = hw k y" if "Qp y \<in> fst (view k)" for y
        using that fresh t(2) hw2 by (cases "y = qp_ptr u") auto
      note del = qp_delete [OF h3 w'(1) dis, unfolded w'(2)]
      have new: "RdmaQPair_new (Some cx) (Some u) (Some q) opts = Inr qp"
        by (simp add: RdmaQPair_new_def qp_def)
      note unf = RdmaQPair_Create_def cx cq \<open>rc = Some q\<close> ia_def [symmetric] cr Some new i created_def
      show ?thesis
      proof (cases "s = OkStatus")
        case True
        with t(3) have "qp' = qp\<lparr>q_state := kInit\<rparr>" by auto
        then show ?thesis
          using True h3 [of kInit] dis [of kInit] hw3 fresh w' [of kInit] by (simp add: unf qp)
      next
        case False
        with t(3) have "s = InternalStatus" "qp' = qp\<lparr>q_state := kError\<rparr>" by auto
        moreover have "hw (RdmaQPair_delete V (qp\<lparr>q_state := kError\<rparr>) k3) y = hw k y" if "Qp y \<in> fst (view k)" for y
          using that fresh del(2) [of y kError] hw3 by (cases "y = qp_ptr u") auto
        ultimately show ?thesis
          using del(1) by (simp add: unf)
      qed
    qed
  qed
qed

end

end
