(* ===== verification/RdmaMemory.thy ===== *)
theory RdmaMemory
  imports RdmaDevice
begin

text \<open>
  \<^verbatim>\<open>internal/rdma/rdma_memory\<close>: the registry of memory buffers the adapters may access. Addresses and lengths
  have 64 bits; the sum of the two wraps, as \<^verbatim>\<open>uintptr_t\<close> does. The \<^verbatim>\<open>btree_map\<close> is an association list in the
  order of its keys; an iterator is a position in it. Message texts are not modelled.
\<close>

section \<open>Ordered maps\<close>

fun btree_assign :: "u64 \<Rightarrow> 'v \<Rightarrow> (u64 \<times> 'v) list \<Rightarrow> (u64 \<times> 'v) list" where
  "btree_assign k v [] = [(k, v)]"
| "btree_assign k v ((k', v') # m) =
     (if k < k' then (k, v) # (k', v') # m else if k = k' then (k, v) # m else (k', v') # btree_assign k v m)"

definition upper_bound :: "u64 \<Rightarrow> (u64 \<times> 'v) list \<Rightarrow> nat" where
  "upper_bound k m = length (takeWhile (\<lambda>p. fst p \<le> k) m)"

definition wf_btree :: "(u64 \<times> 'v) list \<Rightarrow> bool" where
  "wf_btree m \<longleftrightarrow> sorted_wrt (<) (map fst m)"

lemma set_btree_assign:
  "wf_btree m \<Longrightarrow> set (btree_assign k v m) = insert (k, v) {p \<in> set m. fst p \<noteq> k}"
proof (induction m)
  case (Cons p m)
  obtain a b where p: "p = (a, b)" by force
  have above: "\<forall>q \<in> set m. a < fst q" and w: "wf_btree m"
    using Cons.prems by (auto simp: wf_btree_def p)
  consider "k < a" | "k = a" | "\<not> k < a" "k \<noteq> a" by blast
  then show ?case
  proof cases
    case 1
    with above have "\<forall>q \<in> set m. fst q \<noteq> k" by auto
    with 1 show ?thesis by (auto simp: p)
  next
    case 2
    with above have "\<forall>q \<in> set m. fst q \<noteq> k" by auto
    with 2 show ?thesis by (auto simp: p)
  next
    case 3
    with Cons.IH [OF w] show ?thesis by (auto simp: p)
  qed
qed (simp add: wf_btree_def)

lemma wf_btree_assign: "wf_btree m \<Longrightarrow> wf_btree (btree_assign k v m)"
proof (induction m)
  case (Cons p m)
  obtain a b where p: "p = (a, b)" by force
  have above: "\<forall>q \<in> set m. a < fst q" and w: "wf_btree m"
    using Cons.prems by (auto simp: wf_btree_def p)
  have "a < fst q" if "q \<in> set (btree_assign k v m)" "a < k" for q
    using that above by (auto simp: set_btree_assign [OF w])
  moreover have "k < fst q" if "q \<in> set m" "k < a" for q
    using that above by (meson less_trans)
  ultimately show ?case
    using Cons.IH [OF w] w above by (auto simp: wf_btree_def p)
qed (simp add: wf_btree_def)

lemma wf_btree_delete: "wf_btree m \<Longrightarrow> wf_btree (AList.delete k m)"
  by (induction m) (auto simp: wf_btree_def AList.delete_eq)

lemma wf_btree_distinct: "wf_btree m \<Longrightarrow> distinct (map fst m)"
  by (simp add: wf_btree_def strict_sorted_iff)

text \<open>The entry before the upper bound has the greatest key that is not above \<open>k\<close>.\<close>

lemma before_upper_bound:
  assumes "wf_btree m" "upper_bound k m = Suc i"
  shows "m ! i \<in> set m" and "fst (m ! i) \<le> k"
    and "\<And>p. p \<in> set m \<Longrightarrow> fst p \<le> k \<Longrightarrow> fst p \<le> fst (m ! i)"
proof -
  let ?t = "takeWhile (\<lambda>p. fst p \<le> k) m"
  have i: "i < length ?t" "length ?t = Suc i"
    using assms(2) by (simp_all add: upper_bound_def)
  then have n: "i < length m"
    using length_takeWhile_le [of "\<lambda>p. fst p \<le> k" m] by linarith
  then show "m ! i \<in> set m" by simp
  show "fst (m ! i) \<le> k"
    using nth_mem [OF i(1)] by (auto simp: takeWhile_nth [OF i(1)] dest: set_takeWhileD)
  fix p assume p: "p \<in> set m" "fst p \<le> k"
  obtain j where j: "j < length m" "p = m ! j"
    using p by (auto simp: in_set_conv_nth)
  have less: "fst (m ! a) < fst (m ! b)" if "a < b" "b < length m" for a b
    using assms(1) that by (auto simp: wf_btree_def sorted_wrt_iff_nth_less)
  show "fst p \<le> fst (m ! i)"
  proof (rule ccontr)
    assume *: "\<not> fst p \<le> fst (m ! i)"
    have "Suc i \<le> j"
      using less [of j i] * j n by (cases "j < i"; cases "j = i") auto
    then have "fst (m ! Suc i) \<le> fst p"
      using less [of "Suc i" j] j by (cases "j = Suc i") auto
    moreover have "\<not> fst (m ! Suc i) \<le> k"
      using nth_length_takeWhile [of "\<lambda>p. fst p \<le> k" m] i(2) j \<open>Suc i \<le> j\<close> by simp
    ultimately show False using p by simp
  qed
qed

lemma no_upper_bound: "wf_btree m \<Longrightarrow> upper_bound k m = 0 \<Longrightarrow> p \<in> set m \<Longrightarrow> \<not> fst p \<le> k"
  by (cases m) (auto simp: upper_bound_def wf_btree_def split: if_splits)

section \<open>Registration\<close>

record RegisteredRegion =
  rr_addr :: u64
  rr_length :: u64
  device_mrs :: "(string, ibv_mr option) hash_map"

record RdmaMemory =
  mem_dev :: "RdmaDevice option"
  registered_regions :: "(u64 \<times> RegisteredRegion) list"

definition kDefaultAccessFlags :: int where
  "kDefaultAccessFlags = IBV_ACCESS_LOCAL_WRITE + IBV_ACCESS_REMOTE_WRITE + IBV_ACCESS_REMOTE_READ"

definition UnregisterMrs :: "'k verbs \<Rightarrow> (string, ibv_mr option) hash_map \<Rightarrow> 'k \<Rightarrow> 'k" where
  "UnregisterMrs V mrs k = fold (\<lambda>(device_name, mr) k. case mr of None \<Rightarrow> k | Some m \<Rightarrow> snd (v_dereg_mr V (mr_ptr m) k)) mrs k"

definition RdmaMemory_new :: "RdmaDevice option \<Rightarrow> RdmaMemory res" where
  "RdmaMemory_new dev = dcheck (dev \<noteq> None) (Inr \<lparr>mem_dev = dev, registered_regions = []\<rparr>)"

definition RdmaMemory_delete :: "'k verbs \<Rightarrow> RdmaMemory \<Rightarrow> 'k \<Rightarrow> 'k" where
  "RdmaMemory_delete V mem k = fold (\<lambda>(addr, region). UnregisterMrs V (device_mrs region)) (registered_regions mem) k"

definition findRegion :: "RdmaMemory \<Rightarrow> u64 \<Rightarrow> u64 \<Rightarrow> RegisteredRegion option" where
  "findRegion mem addr len =
     (if addr = 0 \<or> len = 0 \<or> registered_regions mem = [] then None
      else
        let req_start = addr; req_end = req_start + len; it = upper_bound req_start (registered_regions mem) in
        if it = 0 then None
        else
          let (region_start, region) = registered_regions mem ! (it - 1); region_end = region_start + rr_length region in
          if region_start \<le> req_start \<and> req_end \<le> region_end then Some region else None)"

text \<open>The loop of \<^verbatim>\<open>RegisterMemory\<close> over the devices, which gives up and undoes its work at the first failure.\<close>

fun register_all :: "'k verbs \<Rightarrow> u64 \<Rightarrow> u64 \<Rightarrow> int \<Rightarrow> RdmaContext list \<Rightarrow> (string, ibv_mr option) hash_map \<Rightarrow> 'k \<Rightarrow>
    (string, ibv_mr option) hash_map StatusOr \<times> 'k" where
  "register_all V addr len access_flags [] memory_regions k = (Inr memory_regions, k)"
| "register_all V addr len access_flags (crx # ctxs) memory_regions k = (case cx_pd crx of
     None \<Rightarrow> (Inl InternalStatus, UnregisterMrs V memory_regions k)
   | Some pd \<Rightarrow> (case v_reg_mr V pd addr len access_flags k of
         (None, k1) \<Rightarrow> (Inl InternalStatus, UnregisterMrs V memory_regions k1)
       | (Some mr, k1) \<Rightarrow> register_all V addr len access_flags ctxs
             (AList.update (cx_name crx) (Some mr) memory_regions) k1))"

lemma register_all_status: "register_all V addr len fl ctxs acc k = (Inl s, k') \<Longrightarrow> s = InternalStatus"
  by (induction ctxs arbitrary: acc k) (auto split: option.splits prod.splits)

definition RegisterMemory :: "'k verbs \<Rightarrow> u64 \<Rightarrow> u64 \<Rightarrow> int \<Rightarrow> RdmaMemory \<Rightarrow> 'k \<Rightarrow> absl_status \<times> RdmaMemory \<times> 'k" where
  "RegisterMemory V addr len access_flags mem k =
     (if addr = 0 then (InvalidArgumentStatus, mem, k)
      else if len = 0 then (InvalidArgumentStatus, mem, k)
      else case mem_dev mem of
        None \<Rightarrow> (FailedPreconditionStatus, mem, k)
      | Some dev \<Rightarrow>
          if rd_ctxs dev = [] then (FailedPreconditionStatus, mem, k)
          else if findRegion mem addr len \<noteq> None then (AlreadyExistsStatus, mem, k)
          else (case register_all V addr len access_flags (rd_ctxs dev) [] k of
              (Inl s, k1) \<Rightarrow> (s, mem, k1)
            | (Inr memory_regions, k1) \<Rightarrow>
                (OkStatus, mem\<lparr>registered_regions := btree_assign addr
                   \<lparr>rr_addr = addr, rr_length = len, device_mrs = memory_regions\<rparr> (registered_regions mem)\<rparr>, k1)))"

definition UnregisterMemory :: "'k verbs \<Rightarrow> u64 \<Rightarrow> RdmaMemory \<Rightarrow> 'k \<Rightarrow> absl_status \<times> RdmaMemory \<times> 'k" where
  "UnregisterMemory V addr mem k = (case map_of (registered_regions mem) addr of
     None \<Rightarrow> (NotFoundStatus, mem, k)
   | Some region \<Rightarrow> (OkStatus, mem\<lparr>registered_regions := AList.delete addr (registered_regions mem)\<rparr>,
       UnregisterMrs V (device_mrs region) k))"

section \<open>Keys\<close>

definition GetMemoryRegion :: "RdmaMemory \<Rightarrow> u64 \<Rightarrow> u64 \<Rightarrow> string \<Rightarrow> ibv_mr option" where
  "GetMemoryRegion mem addr len device_name = (case findRegion mem addr len of
     None \<Rightarrow> None
   | Some region \<Rightarrow> (case map_of (device_mrs region) device_name of None \<Rightarrow> None | Some mr \<Rightarrow> mr))"

definition GetLKey :: "RdmaMemory \<Rightarrow> u64 \<Rightarrow> u64 \<Rightarrow> string \<Rightarrow> u32 StatusOr" where
  "GetLKey mem addr len device_name = (case GetMemoryRegion mem addr len device_name of
     None \<Rightarrow> Inl NotFoundStatus | Some mr \<Rightarrow> Inr (mr_lkey mr))"

definition GetRKey :: "RdmaMemory \<Rightarrow> u64 \<Rightarrow> u64 \<Rightarrow> string \<Rightarrow> u32 StatusOr" where
  "GetRKey mem addr len device_name = (case GetMemoryRegion mem addr len device_name of
     None \<Rightarrow> Inl NotFoundStatus | Some mr \<Rightarrow> Inr (mr_rkey mr))"

definition GetDefaultLKey :: "RdmaMemory \<Rightarrow> string \<Rightarrow> u32" where
  "GetDefaultLKey mem device_name = (case registered_regions mem of
     [] \<Rightarrow> 0
   | (_, region) # _ \<Rightarrow> (case map_of (device_mrs region) device_name of
        None \<Rightarrow> 0 | Some None \<Rightarrow> 0 | Some (Some mr) \<Rightarrow> mr_lkey mr))"

definition GetDefaultRKey :: "RdmaMemory \<Rightarrow> string \<Rightarrow> u32" where
  "GetDefaultRKey mem device_name = (case registered_regions mem of
     [] \<Rightarrow> 0
   | (_, region) # _ \<Rightarrow> (case map_of (device_mrs region) device_name of
        None \<Rightarrow> 0 | Some None \<Rightarrow> 0 | Some (Some mr) \<Rightarrow> mr_rkey mr))"

section \<open>Lookup\<close>

text \<open>The range of \<open>len\<close> bytes at \<open>addr\<close> does not pass the end of the address space, and lies in a region.\<close>

definition fits :: "u64 \<Rightarrow> u64 \<Rightarrow> bool" where
  "fits addr len \<longleftrightarrow> unat addr + unat len < 2 ^ 64"

definition covers :: "RegisteredRegion \<Rightarrow> u64 \<Rightarrow> u64 \<Rightarrow> bool" where
  "covers r addr len \<longleftrightarrow> unat (rr_addr r) \<le> unat addr \<and> unat addr + unat len \<le> unat (rr_addr r) + unat (rr_length r)"

definition disjoint_regions :: "(u64 \<times> RegisteredRegion) list \<Rightarrow> bool" where
  "disjoint_regions m \<longleftrightarrow> (\<forall>(a, r) \<in> set m. \<forall>(b, q) \<in> set m. unat a < unat b \<longrightarrow> unat a + unat (rr_length r) \<le> unat b)"

definition wf_regions :: "(u64 \<times> RegisteredRegion) list \<Rightarrow> bool" where
  "wf_regions m \<longleftrightarrow> wf_btree m \<and> (\<forall>(a, r) \<in> set m. rr_addr r = a \<and> a \<noteq> 0 \<and> rr_length r \<noteq> 0 \<and> fits a (rr_length r))"

lemma unat_plus_fits: "fits a n \<Longrightarrow> unat (a + n) = unat a + unat n"
  by (simp add: fits_def unat_word_ariths)

lemma find_region_unfold:
  assumes "wf_regions (registered_regions mem)" "addr \<noteq> 0" "len \<noteq> 0" "fits addr len"
  shows "findRegion mem addr len = (let it = upper_bound addr (registered_regions mem) in
     if it = 0 then None else let r = snd (registered_regions mem ! (it - 1)) in if covers r addr len then Some r else None)"
proof (cases "upper_bound addr (registered_regions mem)")
  case 0
  then show ?thesis using assms by (auto simp: findRegion_def)
next
  case (Suc i)
  obtain b r where e: "registered_regions mem ! i = (b, r)" by force
  have "(b, r) \<in> set (registered_regions mem)" and b: "b \<le> addr"
    using before_upper_bound(1, 2) [OF _ Suc] assms(1) by (auto simp: wf_regions_def e)
  then have r: "rr_addr r = b" "fits b (rr_length r)" and ne: "registered_regions mem \<noteq> []"
    using assms(1) by (auto simp: wf_regions_def)
  have "(addr + len \<le> b + rr_length r) = (unat addr + unat len \<le> unat b + unat (rr_length r))"
    by (simp add: word_le_nat_alt unat_plus_fits assms r)
  then show ?thesis
    using assms ne b by (simp add: findRegion_def Suc e Let_def covers_def r word_le_nat_alt)
qed

lemma find_region_sound:
  assumes "wf_regions (registered_regions mem)" "fits addr len" "findRegion mem addr len = Some r"
  shows "(rr_addr r, r) \<in> set (registered_regions mem)" and "covers r addr len" and "addr \<noteq> 0" "len \<noteq> 0"
proof -
  show n: "addr \<noteq> 0" "len \<noteq> 0"
    using assms(3) by (auto simp: findRegion_def split: if_splits)
  obtain i where i: "upper_bound addr (registered_regions mem) = Suc i"
    and r: "r = snd (registered_regions mem ! i)" "covers r addr len"
    using assms find_region_unfold [OF assms(1) n assms(2)]
    by (cases "upper_bound addr (registered_regions mem)") (auto simp: Let_def split: if_splits)
  then show "covers r addr len" by simp
  have "(fst (registered_regions mem ! i), r) \<in> set (registered_regions mem)"
    using before_upper_bound(1) [OF _ i] assms(1) by (simp add: wf_regions_def r)
  then show "(rr_addr r, r) \<in> set (registered_regions mem)"
    using assms(1) by (auto simp: wf_regions_def)
qed

lemma find_region_complete:
  assumes w: "wf_regions (registered_regions mem)" and d: "disjoint_regions (registered_regions mem)"
    and q: "addr \<noteq> 0" "len \<noteq> 0" "fits addr len" and r: "(a, r) \<in> set (registered_regions mem)" "covers r addr len"
  shows "findRegion mem addr len = Some r"
proof -
  let ?m = "registered_regions mem"
  have a: "rr_addr r = a" using w r by (auto simp: wf_regions_def)
  have le: "a \<le> addr" using r a by (simp add: covers_def word_le_nat_alt)
  have wb: "wf_btree ?m" using w by (simp add: wf_regions_def)
  obtain i where i: "upper_bound addr ?m = Suc i"
    using no_upper_bound [OF wb _ r(1)] le by (cases "upper_bound addr ?m") auto
  note b = before_upper_bound [OF wb i]
  obtain b' r' where e: "?m ! i = (b', r')" by force
  have "\<not> unat a < unat b'"
  proof
    assume "unat a < unat b'"
    with d r(1) b(1) have "unat a + unat (rr_length r) \<le> unat b'"
      unfolding disjoint_regions_def by (fastforce simp: e)
    moreover have "unat b' \<le> unat addr" using b(2) by (simp add: e word_le_nat_alt)
    moreover have "0 < unat len" using q(2) by (simp add: unat_gt_0)
    ultimately show False using r(2) a by (simp add: covers_def)
  qed
  moreover have "a \<le> b'" using b(3) [OF r(1)] le by (simp add: e)
  ultimately have "b' = a" by (simp add: word_less_nat_alt [symmetric])
  then have "r' = r"
    using b(1) r(1) wf_btree_distinct [OF wb] by (auto simp: e dest: eq_key_imp_eq_value)
  then show ?thesis
    using find_region_unfold [OF w q] r(2) by (simp add: i e Let_def)
qed

section \<open>Accounting\<close>

text \<open>The memory regions a registry refers to, each with the protection domain it was registered in.\<close>

definition mr_objs :: "RdmaDevice \<Rightarrow> (string, ibv_mr option) hash_map \<Rightarrow> ibv_objs" where
  "mr_objs dev mrs = map (\<lambda>(name, mr). (Mr (mr_ptr (the mr)), {Pd (the (cx_pd (the (GetContext dev name))))})) mrs"

definition mem_objs :: "RdmaDevice \<Rightarrow> (u64 \<times> RegisteredRegion) list \<Rightarrow> ibv_objs" where
  "mem_objs dev m = concat (map (\<lambda>(a, r). mr_objs dev (device_mrs r)) m)"

text \<open>Every region has a handle on every device.\<close>

definition full_mrs :: "RdmaDevice \<Rightarrow> (string, ibv_mr option) hash_map \<Rightarrow> bool" where
  "full_mrs dev mrs \<longleftrightarrow> map fst mrs = map cx_name (rd_ctxs dev) \<and> list_all (\<lambda>p. snd p \<noteq> None) mrs"

definition no_mr_used :: "ibv_objs \<Rightarrow> bool" where
  "no_mr_used X \<longleftrightarrow> (\<forall>m. Mr m \<notin> used X)"

lemma mr_objs_simps [simp]:
  "mr_objs dev [] = []"
  "mr_objs dev ((name, mr) # mrs) = (Mr (mr_ptr (the mr)), {Pd (the (cx_pd (the (GetContext dev name))))}) # mr_objs dev mrs"
  "mr_objs dev (mrs @ mrs') = mr_objs dev mrs @ mr_objs dev mrs'"
  by (simp_all add: mr_objs_def)

lemma mem_objs_simps [simp]:
  "mem_objs dev [] = []" "mem_objs dev ((a, r) # m) = mr_objs dev (device_mrs r) @ mem_objs dev m"
  by (simp_all add: mem_objs_def)

lemma no_mr_used_simps [simp]:
  "no_mr_used []" "no_mr_used (X @ Y) \<longleftrightarrow> no_mr_used X \<and> no_mr_used Y" "no_mr_used (mr_objs dev mrs)"
  "no_mr_used (mem_objs dev m)" "no_mr_used (dev_objs ctxs)"
proof -
  show mr: "no_mr_used (mr_objs dev mrs)" for mrs
    by (induction mrs) (auto simp: no_mr_used_def)
  show "no_mr_used (mem_objs dev m)"
    by (induction m) (use mr in \<open>auto simp: no_mr_used_def\<close>)
  show "no_mr_used (dev_objs ctxs)"
    by (induction ctxs) (auto simp: no_mr_used_def cx_objs_def Let_def)
qed (auto simp: no_mr_used_def)

context verbs_laws
begin

lemma unregister_mrs:
  assumes "holds (mr_objs dev mrs @ X) F (view k)" "list_all (\<lambda>p. snd p \<noteq> None) mrs" "no_mr_used X"
  shows "holds X F (view (UnregisterMrs V mrs k))"
  using assms
proof (induction mrs arbitrary: k)
  case (Cons p mrs)
  obtain name mr where p: "p = (name, Some mr)"
    using Cons.prems(2) by (cases p) auto
  have "holds (mr_objs dev mrs @ X) F (view (snd (v_dereg_mr V (mr_ptr mr) k)))"
    using Cons.prems no_mr_used_simps(3) [of dev mrs] by (intro destroy_holds(5)) (auto simp: p no_mr_used_def)
  with Cons show ?case by (simp add: p UnregisterMrs_def)
qed (simp add: UnregisterMrs_def)

lemma unregister_all:
  assumes "holds (mem_objs dev m @ X) F (view k)" "\<forall>(a, r) \<in> set m. full_mrs dev (device_mrs r)" "no_mr_used X"
  shows "holds X F (view (fold (\<lambda>(addr, region). UnregisterMrs V (device_mrs region)) m k))"
  using assms
proof (induction m arbitrary: k)
  case (Cons p m)
  obtain a r where p: "p = (a, r)" by force
  have "holds (mem_objs dev m @ X) F (view (UnregisterMrs V (device_mrs r) k))"
    using Cons.prems by (intro unregister_mrs) (auto simp: p full_mrs_def)
  with Cons show ?case by (simp add: p)
qed simp

lemma register_all_ok:
  assumes "holds (mr_objs dev acc @ X) F (view k)" "list_all (\<lambda>p. snd p \<noteq> None) acc" "no_mr_used X"
    and "wf_dev V dev" "set ctxs \<subseteq> set (rd_ctxs dev)" "distinct (map fst acc @ map cx_name ctxs)"
    and "\<forall>cx \<in> set ctxs. Pd (the (cx_pd cx)) \<in> objs X"
  shows "\<exists>r k'. register_all V addr len fl ctxs acc k = (r, k') \<and> (case r of
      Inl s \<Rightarrow> s = InternalStatus \<and> holds X F (view k')
    | Inr mrs \<Rightarrow> holds (mr_objs dev mrs @ X) F (view k') \<and> list_all (\<lambda>p. snd p \<noteq> None) mrs \<and>
        map fst mrs = map fst acc @ map cx_name ctxs)"
  using assms
proof (induction ctxs arbitrary: acc k)
  case Nil
  then show ?case by simp
next
  case (Cons cx ctxs)
  have "wf_cx V cx" using Cons.prems(4, 5) by (auto simp: wf_dev_def list_all_iff)
  then obtain p where p: "cx_pd cx = Some p" by (auto simp: wf_cx_def)
  obtain rm k1 where g: "v_reg_mr V p addr len fl k = (rm, k1)" by force
  show ?case
  proof (cases rm)
    case None
    then have "holds X F (view (UnregisterMrs V acc k1))"
      using Cons.prems(1-3) reg_mr [OF g] by (intro unregister_mrs) auto
    then show ?thesis by (simp add: p g None)
  next
    case (Some mr)
    let ?acc = "AList.update (cx_name cx) (Some mr) acc"
    have fresh: "map_of acc (cx_name cx) = None"
      using Cons.prems(6) by (auto simp: map_of_eq_None_iff)
    have cx: "GetContext dev (cx_name cx) = Some cx"
      using Cons.prems(4, 5) by (simp add: wf_dev_GetContext)
    have m: "made (Mr (mr_ptr mr)) {Pd p} (view k) (view k1)"
      using reg_mr [OF g] by (simp add: Some)
    have "{Pd p} \<subseteq> fst (view k)"
      using Cons.prems(7) holds_live [OF Cons.prems(1)] p by auto
    from holds_made(1) [OF Cons.prems(1) m this]
    have "holds (mr_objs dev ?acc @ X) F (view k1)"
      by (subst holds_perm(1) [where Y = "(Mr (mr_ptr mr), {Pd p}) # mr_objs dev acc @ X"])
         (simp_all add: set_update_fresh [OF fresh] cx p)
    from Cons.IH [OF this]
    show ?thesis
      using Cons.prems by (simp add: p g Some set_update_fresh [OF fresh] cong: sum.case_cong)
  qed
qed

end

text \<open>A device and a registry whose handles exist in the driver, beside the objects \<open>X\<close> and the frame \<open>F\<close>.\<close>

definition mem_ok :: "'k verbs \<Rightarrow> RdmaDevice \<Rightarrow> ibv_objs \<Rightarrow> ibv_obj set \<Rightarrow> RdmaMemory \<Rightarrow> ibv_view \<Rightarrow> bool" where
  "mem_ok V dev X F mem v \<longleftrightarrow> mem_dev mem = Some dev \<and> wf_dev V dev \<and> wf_btree (registered_regions mem) \<and>
     (\<forall>(a, r) \<in> set (registered_regions mem). full_mrs dev (device_mrs r)) \<and>
     (\<forall>cx \<in> set (rd_ctxs dev). Pd (the (cx_pd cx)) \<in> objs X) \<and> no_mr_used X \<and>
     holds (mem_objs dev (registered_regions mem) @ X) F v"

lemma mset_btree_assign: "wf_btree m \<Longrightarrow> mset (btree_assign k v m) = add_mset (k, v) (mset (AList.delete k m))"
proof (induction m)
  case (Cons p m)
  obtain a b where p: "p = (a, b)" by force
  have above: "\<forall>q \<in> set m. a < fst q" and w: "wf_btree m"
    using Cons.prems by (auto simp: wf_btree_def p)
  have "map_of m k = None" if "k \<le> a"
    using that above by (force simp: map_of_eq_None_iff)
  then show ?case
    using Cons.IH [OF w] by (auto simp: p mset_delete_absent)
qed simp

lemma mset_mem_objs: "mset m = mset m' \<Longrightarrow> mset (mem_objs dev m) = mset (mem_objs dev m')"
proof -
  have "mset (mem_objs dev l) = (\<Sum>(a, r)\<in>#mset l. mset (mr_objs dev (device_mrs r)))" for l
    by (induction l) auto
  then show "mset m = mset m' \<Longrightarrow> ?thesis" by simp
qed

text \<open>Assigning and erasing an entry, in terms of what the registry refers to.\<close>

lemma mem_objs_assign:
  assumes "wf_btree m"
  shows "mset (mem_objs dev (btree_assign a r m)) = mset (mr_objs dev (device_mrs r)) + mset (mem_objs dev (AList.delete a m))"
  using mset_mem_objs [of "btree_assign a r m" "(a, r) # AList.delete a m" dev] mset_btree_assign [OF assms] by simp

lemma mem_objs_split:
  assumes "wf_btree m" "map_of m a = Some r"
  shows "mset (mem_objs dev m) = mset (mr_objs dev (device_mrs r)) + mset (mem_objs dev (AList.delete a m))"
  using mset_mem_objs [of m "(a, r) # AList.delete a m" dev] mset_delete [OF wf_btree_distinct [OF assms(1)] assms(2)] by simp

text \<open>\<open>fresh_base\<close>: a call of \<^verbatim>\<open>RegisterMemory\<close> does not name the base of a region it would replace.\<close>

definition fresh_base :: "RdmaMemory \<Rightarrow> u64 \<Rightarrow> u64 \<Rightarrow> bool" where
  "fresh_base mem addr len \<longleftrightarrow> map_of (registered_regions mem) addr = None \<or> findRegion mem addr len \<noteq> None"

context verbs_laws
begin

text \<open>A registration that succeeds adds handles; what the registry loses is a region at the same base.\<close>

lemma register_outcome:
  assumes ok: "mem_ok V dev X F mem (view k)" and r: "RegisterMemory V addr len fl mem k = (s, mem', k')"
  shows "(s \<noteq> OkStatus \<and> mem' = mem \<and> mem_ok V dev X F mem (view k')) \<or>
    (\<exists>mrs. s = OkStatus \<and> findRegion mem addr len = None \<and> full_mrs dev mrs \<and>
       mem' = mem\<lparr>registered_regions := btree_assign addr \<lparr>rr_addr = addr, rr_length = len, device_mrs = mrs\<rparr>
         (registered_regions mem)\<rparr> \<and>
       holds (mr_objs dev mrs @ mem_objs dev (registered_regions mem) @ X) F (view k'))"
proof -
  have d: "mem_dev mem = Some dev" and wf: "wf_dev V dev" using ok by (simp_all add: mem_ok_def)
  let ?X = "mem_objs dev (registered_regions mem) @ X"
  have "\<forall>cx \<in> set (rd_ctxs dev). Pd (the (cx_pd cx)) \<in> objs ?X" "no_mr_used ?X" "holds ?X F (view k)"
    "distinct (map cx_name (rd_ctxs dev))"
    using ok wf by (auto simp: mem_ok_def wf_dev_def)
  then obtain q k1 where a: "register_all V addr len fl (rd_ctxs dev) [] k = (q, k1)" and q: "(case q of
      Inl s \<Rightarrow> s = InternalStatus \<and> holds ?X F (view k1)
    | Inr mrs \<Rightarrow> holds (mr_objs dev mrs @ ?X) F (view k1) \<and> list_all (\<lambda>p. snd p \<noteq> None) mrs \<and>
        map fst mrs = map cx_name (rd_ctxs dev))"
    using register_all_ok [of dev "[]" ?X F k "rd_ctxs dev" addr len fl] wf by (auto cong: sum.case_cong)
  show ?thesis
    using r a q ok by (cases q) (auto simp: RegisterMemory_def d full_mrs_def mem_ok_def split: if_splits)
qed

lemma register_ok:
  assumes ok: "mem_ok V dev X F mem (view k)" and r: "RegisterMemory V addr len fl mem k = (s, mem', k')"
    and fresh: "fresh_base mem addr len"
  shows "mem_ok V dev X F mem' (view k')"
  using register_outcome [OF ok r]
proof (elim disjE exE conjE)
  fix mrs
  let ?m = "registered_regions mem" and ?r = "\<lparr>rr_addr = addr, rr_length = len, device_mrs = mrs\<rparr> :: RegisteredRegion"
  assume *: "findRegion mem addr len = None" "full_mrs dev mrs"
    "mem' = mem\<lparr>registered_regions := btree_assign addr ?r ?m\<rparr>" "holds (mr_objs dev mrs @ mem_objs dev ?m @ X) F (view k')"
  have w: "wf_btree ?m" using ok by (simp add: mem_ok_def)
  have "map_of ?m addr = None" using fresh * by (simp add: fresh_base_def)
  then have "mset (mem_objs dev (btree_assign addr ?r ?m)) = mset (mr_objs dev mrs @ mem_objs dev ?m)"
    by (simp add: mem_objs_assign [OF w] mset_delete_absent)
  then have "holds (mem_objs dev (btree_assign addr ?r ?m) @ X) F (view k')"
    using *(4) by (subst holds_perm(1) [where Y = "mr_objs dev mrs @ mem_objs dev ?m @ X"]) simp_all
  moreover have "\<forall>(a, r) \<in> set (btree_assign addr ?r ?m). full_mrs dev (device_mrs r)"
    using ok *(2) by (auto simp: set_btree_assign [OF w] mem_ok_def)
  ultimately show ?thesis
    using ok *(3) by (simp add: mem_ok_def wf_btree_assign)
qed simp

lemma unregister_ok:
  assumes ok: "mem_ok V dev X F mem (view k)" and u: "UnregisterMemory V addr mem k = (s, mem', k')"
  shows "mem_ok V dev X F mem' (view k')"
proof (cases "map_of (registered_regions mem) addr")
  case None
  then show ?thesis using ok u by (simp add: UnregisterMemory_def)
next
  case (Some r)
  let ?m = "registered_regions mem"
  have w: "wf_btree ?m" and r: "full_mrs dev (device_mrs r)"
    using ok map_of_SomeD [OF Some] by (auto simp: mem_ok_def)
  have "holds (mr_objs dev (device_mrs r) @ mem_objs dev (AList.delete addr ?m) @ X) F (view k)"
    using ok by (subst holds_perm(1) [where Y = "mem_objs dev ?m @ X"])
      (simp_all add: mem_objs_split [OF w Some] mem_ok_def)
  then have "holds (mem_objs dev (AList.delete addr ?m) @ X) F (view (UnregisterMrs V (device_mrs r) k))"
    using r ok by (intro unregister_mrs) (auto simp: full_mrs_def mem_ok_def)
  moreover have "set (AList.delete addr ?m) \<subseteq> set ?m" by (auto simp: AList.delete_eq)
  ultimately show ?thesis
    using ok u Some by (auto simp: UnregisterMemory_def mem_ok_def wf_btree_delete)
qed

end

end
