(* ===== verification/RdmaManager.thy ===== *)
theory RdmaManager
  imports RdmaQPair RdmaMemory Control
begin

text \<open>
  \<^verbatim>\<open>internal/rdma/rdma_manager\<close>: connecting queue pairs with a peer over the control plane, on the side that
  asks and on the side that answers. The random number generator is the parameter \<open>rng\<close>, the network the
  parameter \<open>rpc\<close> of \<open>Control\<close>. The closure that \<^verbatim>\<open>Create\<close> installs as handler is its argument \<open>handler\<close>, since
  handlers of the control plane are functions; what it runs is \<open>handleConnect\<close>. Statuses have no texts.
\<close>

section \<open>State\<close>

record RdmaManager =
  rm_config :: Config
  rm_self :: HostInfo
  rm_device :: "RdmaDevice option"
  rm_memory :: "RdmaMemory option"
  inbound_rdma_qps :: "RdmaQPair list"

definition genPsn :: "('k \<Rightarrow> u32 \<times> 'k) \<Rightarrow> 'k \<Rightarrow> u32 \<times> 'k" where
  "genPsn rng k = (let (x, k1) = rng k in (x AND 0x00FFFFFF, k1))"

definition RdmaManager_new :: "Config \<Rightarrow> HostInfo \<Rightarrow> RdmaDevice option \<Rightarrow> RdmaManager res" where
  "RdmaManager_new config self device = dcheck (device \<noteq> None)
     (rbind (RdmaMemory_new device) (\<lambda>mem.
        Inr \<lparr>rm_config = config, rm_self = self, rm_device = device, rm_memory = Some mem, inbound_rdma_qps = []\<rparr>))"

text \<open>The interface a context is announced as.\<close>

definition rdma_nic :: "RdmaContext \<Rightarrow> NicInfo" where
  "rdma_nic ctx = \<lparr>nic_name = cx_name ctx, nic_type = kRDMA,
     endpoints = [\<lparr>ep_ip = IPv6 (of_le (take 16 (cx_local_gid ctx))), ep_port = ucast kDefaultPort\<rparr>]\<rparr>"

fun rdma_nics :: "RdmaContext list \<Rightarrow> NicInfo list res" where
  "rdma_nics [] = Inr []"
| "rdma_nics (ctx # ctxs) = (let nic = rdma_nic ctx in
     dcheck (NicInfo_IsValid nic) (rbind (rdma_nics ctxs) (\<lambda>nics. Inr (nic # nics))))"

definition RdmaManager_Create :: "'k verbs \<Rightarrow> ibdev_fs \<Rightarrow> RdmaConnHandler \<Rightarrow> Config \<Rightarrow> HostInfo \<Rightarrow> Control \<Rightarrow> 'k \<Rightarrow>
    (RdmaManager option \<times> HostInfo \<times> Control \<times> 'k) res" where
  "RdmaManager_Create V fs handler config self control k =
     (if transport_type config \<noteq> kRdma then Inr (None, self, control, k)
      else rbind (RdmaDevice_Create V fs k) (\<lambda>(device_or, k1). case device_or of
          Inl _ \<Rightarrow> Inr (None, self, control, k1)
        | Inr device \<Rightarrow>
            rbind (rdma_nics (rd_ctxs device)) (\<lambda>nics.
              if nics = [] then Inr (None, self, control, RdmaDevice_delete V device k1)
              else
                let self1 = self\<lparr>data_plane_listeners := data_plane_listeners self @ nics\<rparr>
                in rbind (RdmaManager_new config self1 (Some device)) (\<lambda>mgr.
                     Inr (Some mgr, self1, SetRdmaConnHandler (Some handler) control, k1)))))"

text \<open>The destructor: the members are destroyed in the reverse order of their declaration.\<close>

definition RdmaManager_delete :: "'k verbs \<Rightarrow> RdmaManager \<Rightarrow> Control \<Rightarrow> 'k \<Rightarrow> Control \<times> 'k" where
  "RdmaManager_delete V mgr control k =
     (let k1 = fold (RdmaQPair_delete V) (inbound_rdma_qps mgr) k;
          k2 = (case rm_memory mgr of None \<Rightarrow> k1 | Some mem \<Rightarrow> RdmaMemory_delete V mem k1);
          k3 = (case rm_device mgr of None \<Rightarrow> k2 | Some dev \<Rightarrow> RdmaDevice_delete V dev k2)
      in (SetRdmaConnHandler None control, k3))"

definition Manager_RegisterMemory :: "'k verbs \<Rightarrow> u64 \<Rightarrow> u64 \<Rightarrow> RdmaManager \<Rightarrow> 'k \<Rightarrow> absl_status \<times> RdmaManager \<times> 'k" where
  "Manager_RegisterMemory V addr len mgr k = (case rm_memory mgr of
     Some mem \<Rightarrow> (let (s, mem1, k1) = RegisterMemory V addr len kDefaultAccessFlags mem k
       in (s, mgr\<lparr>rm_memory := Some mem1\<rparr>, k1))
   | None \<Rightarrow> (FailedPreconditionStatus, mgr, k))"

definition Manager_UnregisterMemory :: "'k verbs \<Rightarrow> u64 \<Rightarrow> RdmaManager \<Rightarrow> 'k \<Rightarrow> absl_status \<times> RdmaManager \<times> 'k" where
  "Manager_UnregisterMemory V addr mgr k = (case rm_memory mgr of
     Some mem \<Rightarrow> (let (s, mem1, k1) = UnregisterMemory V addr mem k in (s, mgr\<lparr>rm_memory := Some mem1\<rparr>, k1))
   | None \<Rightarrow> (FailedPreconditionStatus, mgr, k))"

section \<open>The side that asks\<close>

text \<open>Iteration \<open>i\<close> of the loop of \<^verbatim>\<open>Connect\<close>: a connection, or nothing where the code continues.\<close>

definition connect_attempt :: "'k verbs \<Rightarrow> ('k \<Rightarrow> u32 \<times> 'k) \<Rightarrow> 'a text_lib_scheme \<Rightarrow> 'w rpc \<Rightarrow> Endpoint \<Rightarrow> RdmaManager \<Rightarrow>
    RdmaContext \<Rightarrow> string \<Rightarrow> Control \<Rightarrow> 'k \<Rightarrow> 'w \<Rightarrow> (RdmaConn option \<times> Control \<times> 'k \<times> 'w) res" where
  "connect_attempt V rng L rpc peer_control mgr ctx remote_device_name c k w =
     rbind (RdmaQPair_Create V (Some ctx) QpOptions_default k) (\<lambda>(qp_or, k1). case qp_or of
       Inl _ \<Rightarrow> Inr (None, c, k1, w)
     | Inr qp \<Rightarrow>
         let (local_psn, k2) = genPsn rng k1;
             local_lkey = (case rm_memory mgr of Some mem \<Rightarrow> GetDefaultLKey mem (cx_name ctx) | None \<Rightarrow> 0);
             initiator_rkey = (case rm_memory mgr of Some mem \<Rightarrow> GetDefaultRKey mem (cx_name ctx) | None \<Rightarrow> 0)
         in rbind (ConnectRdmaPeer L rpc peer_control remote_device_name (Qpn qp) (cx_local_gid ctx) local_psn initiator_rkey c w)
              (\<lambda>(c1, w1, resp_or). case resp_or of
                Inl _ \<Rightarrow> Inr (None, c1, RdmaQPair_delete V qp k2, w1)
              | Inr resp \<Rightarrow>
                  if length (field [] (pb_resp_gid resp)) \<noteq> 16 then Inr (None, c1, RdmaQPair_delete V qp k2, w1)
                  else
                    let (status, qp1, k3) = QPair_Connect V (field 0 (pb_resp_qpn resp)) (field [] (pb_resp_gid resp))
                          (field 0 (pb_resp_psn resp)) local_psn qp k2
                    in if status \<noteq> OkStatus then Inr (None, c1, RdmaQPair_delete V qp1 k3, w1)
                       else Inr (Some \<lparr>cn_qp = qp1, cn_lkey = local_lkey, cn_rkey = field 0 (pb_resp_rkey resp)\<rparr>, c1, k3, w1)))"

fun connect_loop :: "'k verbs \<Rightarrow> ('k \<Rightarrow> u32 \<times> 'k) \<Rightarrow> 'a text_lib_scheme \<Rightarrow> 'w rpc \<Rightarrow> Endpoint \<Rightarrow> RdmaManager \<Rightarrow>
    RdmaContext list \<Rightarrow> NicInfo list \<Rightarrow> int \<Rightarrow> nat \<Rightarrow> nat \<Rightarrow> RdmaConn list \<Rightarrow> Control \<Rightarrow> 'k \<Rightarrow> 'w \<Rightarrow>
    (RdmaConn list \<times> Control \<times> 'k \<times> 'w) res" where
  "connect_loop V rng L rpc peer mgr ctxs remotes num_conns i 0 conns c k w = Inr (conns, c, k, w)"
| "connect_loop V rng L rpc peer mgr ctxs remotes num_conns i (Suc n) conns c k w =
     rbind (vec_at ctxs (i mod length ctxs)) (\<lambda>ctx.
     rbind (vec_at remotes (i mod length remotes)) (\<lambda>remote.
     rbind (connect_attempt V rng L rpc peer mgr ctx (nic_name remote) c k w) (\<lambda>(conn, c1, k1, w1).
       case conn of
         None \<Rightarrow> connect_loop V rng L rpc peer mgr ctxs remotes num_conns (Suc i) n conns c1 k1 w1
       | Some cn \<Rightarrow>
           if num_conns \<le> int (length (conns @ [cn])) then Inr (conns @ [cn], c1, k1, w1)
           else connect_loop V rng L rpc peer mgr ctxs remotes num_conns (Suc i) n (conns @ [cn]) c1 k1 w1)))"

definition Rdma_Connect :: "'k verbs \<Rightarrow> ('k \<Rightarrow> u32 \<times> 'k) \<Rightarrow> 'a text_lib_scheme \<Rightarrow> 'w rpc \<Rightarrow> Endpoint \<Rightarrow> int \<Rightarrow> RdmaManager \<Rightarrow>
    Control \<Rightarrow> 'k \<Rightarrow> 'w \<Rightarrow> (RdmaConn list \<times> Control \<times> 'k \<times> 'w) res" where
  "Rdma_Connect V rng L rpc peer_control num_conns mgr c k w = (case rm_device mgr of
     None \<Rightarrow> Inr ([], c, k, w)
   | Some dev \<Rightarrow>
       if rd_ctxs dev = [] then Inr ([], c, k, w)
       else rbind (GetPeerHostInfo L rpc peer_control c w) (\<lambda>(c1, w1, peer_info). case peer_info of
           Inl _ \<Rightarrow> Inr ([], c1, k, w1)
         | Inr info \<Rightarrow>
             let remote_interfaces = filter (\<lambda>nic. nic_type nic = kRDMA) (data_plane_listeners info)
             in if remote_interfaces = [] then Inr ([], c1, k, w1)
                else connect_loop V rng L rpc peer_control mgr (rd_ctxs dev) remote_interfaces num_conns 0
                       (nat (2 * num_conns)) [] c1 k w1))"

section \<open>The side that answers\<close>

definition handleConnect :: "'k verbs \<Rightarrow> ('k \<Rightarrow> u32 \<times> 'k) \<Rightarrow> pb_RdmaConnReq \<Rightarrow> pb_RdmaConnResp option \<Rightarrow> RdmaManager \<Rightarrow> 'k \<Rightarrow>
    (absl_status \<times> pb_RdmaConnResp option \<times> RdmaManager \<times> 'k) res" where
  "handleConnect V rng req resp mgr k = (case rm_device mgr of
     None \<Rightarrow> Inr (FailedPreconditionStatus, resp, mgr, k)
   | Some dev \<Rightarrow>
       if length (field [] (pb_gid req)) \<noteq> 16 then Inr (InvalidArgumentStatus, resp, mgr, k)
       else case resp of
         None \<Rightarrow> Inr (InvalidArgumentStatus, None, mgr, k)
       | Some r \<Rightarrow> (case GetContext dev (field [] (pb_device_name req)) of
             None \<Rightarrow> Inr (NotFoundStatus, resp, mgr, k)
           | Some ctx \<Rightarrow>
               rbind (RdmaQPair_Create V (Some ctx) QpOptions_default k) (\<lambda>(qp_or, k1). case qp_or of
                 Inl s \<Rightarrow> Inr (s, resp, mgr, k1)
               | Inr qp \<Rightarrow>
                   let (local_psn, k2) = genPsn rng k1;
                       (status, qp1, k3) = QPair_Connect V (field 0 (pb_qpn req)) (field [] (pb_gid req))
                          (field 0 (pb_psn req)) local_psn qp k2
                   in if status \<noteq> OkStatus then Inr (status, resp, mgr, RdmaQPair_delete V qp1 k3)
                      else
                        let r1 = r\<lparr>pb_resp_qpn := Some (Qpn qp1), pb_resp_psn := Some local_psn,
                              pb_resp_gid := Some (cx_local_gid ctx)\<rparr>;
                            r2 = (case rm_memory mgr of
                              Some mem \<Rightarrow> r1\<lparr>pb_resp_rkey := Some (GetDefaultRKey mem (cx_name ctx))\<rparr> | None \<Rightarrow> r1)
                        in Inr (OkStatus, Some r2, mgr\<lparr>inbound_rdma_qps := inbound_rdma_qps mgr @ [qp1]\<rparr>, k3))))"

end
