(* ===== verification/SoftVerbs.thy ===== *)
theory SoftVerbs
  imports Verbs
begin

text \<open>
  A driver in software that fulfils the laws of \<open>verbs_laws\<close>, on which the properties of the RDMA
  components are evaluated. Its state is the list of its objects, newest first, with the objects each
  was created on, and the attributes of its queue pairs; a new handle is above all handles in use.
  The adapters are given by their names. A registration of more than \<open>2 ^ 40\<close> bytes fails.
\<close>

primrec obj_handle :: "ibv_obj \<Rightarrow> nat" where
  "obj_handle (DeviceList n) = n"
| "obj_handle (DeviceContext n) = n"
| "obj_handle (Pd n) = n"
| "obj_handle (Cq n) = n"
| "obj_handle (Qp n) = n"
| "obj_handle (Mr n) = n"

record soft_hca =
  sv_objs :: "(ibv_obj \<times> ibv_obj list) list"
  sv_qps :: "(nat \<times> ibv_qp_attr) list"

definition sv_fresh :: "soft_hca \<Rightarrow> nat" where
  "sv_fresh k = Suc (foldr (max \<circ> obj_handle \<circ> fst) (sv_objs k) 0)"

definition sv_make :: "(nat \<Rightarrow> ibv_obj) \<Rightarrow> ibv_obj list \<Rightarrow> soft_hca \<Rightarrow> soft_hca" where
  "sv_make C on k = k\<lparr>sv_objs := (C (sv_fresh k), on) # sv_objs k\<rparr>"

definition sv_drop :: "ibv_obj \<Rightarrow> soft_hca \<Rightarrow> soft_hca" where
  "sv_drop x k = k\<lparr>sv_objs := filter (\<lambda>p. fst p \<noteq> x) (sv_objs k)\<rparr>"

definition sv_release :: "ibv_obj \<Rightarrow> soft_hca \<Rightarrow> bool \<times> soft_hca" where
  "sv_release x k = (if x \<in> fst ` set (sv_objs k) \<and> list_all (\<lambda>p. x \<notin> set (the (map_of (sv_objs k) (fst p)))) (sv_objs k)
     then (True, sv_drop x k) else (False, k))"

definition sv_view :: "soft_hca \<Rightarrow> ibv_view" where
  "sv_view k = (fst ` set (sv_objs k), \<lambda>x. case map_of (sv_objs k) x of None \<Rightarrow> {} | Some on \<Rightarrow> set on)"

definition sv_hw :: "soft_hca \<Rightarrow> nat \<Rightarrow> ibv_qp_attr" where
  "sv_hw k q = (case map_of (sv_qps k) q of None \<Rightarrow> ibv_qp_attr_zero | Some h \<Rightarrow> h)"

definition sv_modify :: "nat \<Rightarrow> ibv_qp_attr \<Rightarrow> qp_mask list \<Rightarrow> soft_hca \<Rightarrow> bool \<times> soft_hca" where
  "sv_modify q at msk k = (if IBV_QP_STATE \<in> set msk \<longrightarrow> legal_qp (qa_state (sv_hw k q)) (qa_state at)
     then (True, k\<lparr>sv_qps := (q, fold (\<lambda>m. apply_attr m at) msk (sv_hw k q)) # sv_qps k\<rparr>) else (False, k))"

definition soft_gid :: "nat \<Rightarrow> ibv_gid" where
  "soft_gid i = replicate 10 0 @ [0xff, 0xff, 10, 0, 0, of_nat i]"

definition soft_verbs :: "string list \<Rightarrow> soft_hca verbs" where
  "soft_verbs names = \<lparr>
     v_get_device_list = (\<lambda>k. (Some (sv_fresh k, map Some [0 ..< length names]), sv_make DeviceList [] k)),
     v_free_device_list = sv_drop \<circ> DeviceList,
     v_device_name = (\<lambda>d. if d < length names then Some (names ! d) else None),
     v_open_device = (\<lambda>d k. (Some \<lparr>ic_ptr = sv_fresh k, ic_device = d\<rparr>, sv_make DeviceContext [] k)),
     v_close_device = (\<lambda>c. sv_release (DeviceContext c)),
     v_query_device = (\<lambda>c k. Some \<lparr>max_cqe = 4096, phys_port_cnt = 1\<rparr>),
     v_query_port = (\<lambda>c p k. Some \<lparr>port_state = IBV_PORT_ACTIVE, gid_tbl_len = 1\<rparr>),
     v_query_gid_ex = (\<lambda>c p i k. Some \<lparr>gid_raw = soft_gid c, gid_type = IBV_GID_TYPE_ROCE_V2, ndev_ifindex = 2\<rparr>),
     v_query_gid = (\<lambda>c p i k. Some (soft_gid c)),
     v_alloc_pd = (\<lambda>c k. (Some (sv_fresh k), sv_make Pd [DeviceContext c] k)),
     v_dealloc_pd = (\<lambda>p. sv_release (Pd p)),
     v_create_cq = (\<lambda>c n k. (Some (sv_fresh k), sv_make Cq [DeviceContext c] k)),
     v_destroy_cq = (\<lambda>q. sv_release (Cq q)),
     v_create_qp = (\<lambda>p ia k. (Some \<lparr>qp_ptr = sv_fresh k, qp_num = of_nat (sv_fresh k)\<rparr>,
        (sv_make Qp [Pd p, Cq (send_cq ia), Cq (recv_cq ia)] k)\<lparr>sv_qps := (sv_fresh k, ibv_qp_attr_zero) # sv_qps k\<rparr>)),
     v_destroy_qp = (\<lambda>q. sv_release (Qp q)),
     v_modify_qp = sv_modify,
     v_reg_mr = (\<lambda>p a len f k. if 2 ^ 40 < len then (None, k)
        else (Some \<lparr>mr_ptr = sv_fresh k, mr_lkey = of_nat (sv_fresh k), mr_rkey = of_nat (2 * sv_fresh k)\<rparr>, sv_make Mr [Pd p] k)),
     v_dereg_mr = (\<lambda>m. sv_release (Mr m)),
     v_post_send = (\<lambda>q wr k. (True, k)),
     v_poll_cq = (\<lambda>c k. ((1, IBV_WC_SUCCESS), k))\<rparr>"

lemma sv_fresh_above: "x \<in> fst ` set (sv_objs k) \<Longrightarrow> obj_handle x < sv_fresh k"
proof -
  have "x \<in> fst ` set l \<Longrightarrow> obj_handle x \<le> foldr (max \<circ> obj_handle \<circ> fst) l 0" for l :: "(ibv_obj \<times> ibv_obj list) list"
    by (induction l) (auto simp: le_max_iff_disj)
  then show "x \<in> fst ` set (sv_objs k) \<Longrightarrow> ?thesis" by (simp add: sv_fresh_def less_Suc_eq_le)
qed

lemma sv_make_made:
  assumes "obj_handle (C (sv_fresh k)) = sv_fresh k" "set on = on'"
  shows "made (C (sv_fresh k)) on' (sv_view k) (sv_view (sv_make C on k))"
proof -
  have new: "C (sv_fresh k) \<notin> fst ` set (sv_objs k)"
    using sv_fresh_above [of "C (sv_fresh k)" k] assms(1) by auto
  then have "y \<noteq> C (sv_fresh k)" if "y \<in> fst ` set (sv_objs k)" for y
    using that by blast
  with new assms(2) show ?thesis
    by (simp add: made_def sv_view_def sv_make_def)
qed

lemma sv_unused:
  "list_all (\<lambda>p. x \<notin> set (the (map_of (sv_objs k) (fst p)))) (sv_objs k) \<longleftrightarrow> unused x (sv_view k)"
proof -
  have "(\<forall>p\<in>set (sv_objs k). x \<notin> set (the (map_of (sv_objs k) (fst p)))) =
      (\<forall>p\<in>set (sv_objs k). x \<notin> snd (sv_view k) (fst p))"
    by (rule ball_cong) (auto simp: sv_view_def map_of_eq_None_iff split: option.splits)
  then show ?thesis by (simp add: unused_def list_all_iff) (simp add: sv_view_def)
qed

lemma sv_drop_gone: "x \<in> fst (sv_view k) \<Longrightarrow> gone x True (sv_view k) (sv_view (sv_drop x k))"
proof -
  have "map_of (filter (\<lambda>p. fst p \<noteq> x) l) y = map_of l y" if "y \<noteq> x" for y and l :: "(ibv_obj \<times> ibv_obj list) list"
    using that by (induction l) auto
  moreover have "fst (sv_view (sv_drop x k)) = fst (sv_view k) - {x}"
    by (auto simp: sv_view_def sv_drop_def)
  ultimately show ?thesis
    unfolding gone_def by (simp add: sv_view_def sv_drop_def)
qed

lemma sv_release_gone:
  assumes "sv_release x k = (ok, k')"
  shows "gone x ok (sv_view k) (sv_view k')"
proof (cases "x \<in> fst (sv_view k) \<and> unused x (sv_view k)")
  case True
  then have "ok" "k' = sv_drop x k"
    using assms by (simp_all add: sv_release_def sv_unused sv_view_def)
  with True sv_drop_gone show ?thesis by simp
next
  case False
  then have "\<not> ok" "k' = k"
    using assms by (simp_all add: sv_release_def sv_unused split: if_splits) (simp_all add: sv_view_def)
  with False show ?thesis by (auto simp: gone_def)
qed

lemma sv_qps_view [simp]: "sv_view (k\<lparr>sv_qps := qs\<rparr>) = sv_view k"
  by (simp add: sv_view_def)

interpretation soft: verbs_laws "soft_verbs names" sv_view
proof (unfold_locales, goal_cases)
  case (2 l k)
  then show ?case by (simp add: soft_verbs_def sv_drop_gone)
next
  case (11 q at msk k ok k')
  then show ?case by (auto simp: soft_verbs_def sv_modify_def split: if_splits)
qed (auto simp: soft_verbs_def intro!: sv_make_made intro: sv_release_gone split: if_splits)

interpretation soft: qp_laws "soft_verbs names" sv_view sv_hw
proof (unfold_locales, goal_cases)
  case (1 q at msk k ok k')
  then show ?case by (auto simp: soft_verbs_def sv_modify_def sv_hw_def split: if_splits)
next
  case (2 p ia k rq k')
  then show ?case
    by (auto simp: soft_verbs_def sv_hw_def sv_make_def ibv_qp_attr_zero_def IBV_QPS_RESET_def)
qed (auto simp: soft_verbs_def sv_release_def sv_drop_def sv_make_def sv_hw_def split: if_splits)

end
