(* ===== verification/RdmaMemoryProps.thy ===== *)
theory RdmaMemoryProps
  imports RdmaMemory SoftVerbs
begin

text \<open>
  What the memory registry guarantees: which regions a lookup finds, and that the driver's objects are
  those the registry and the device hold, through every sequence of registrations. Two theorems
  show where it does not hold: a region registered again at its base, and overlapping regions.
\<close>

section \<open>Sequences of operations\<close>

datatype mem_op = OpRegister u64 u64 | OpUnregister u64

primrec mem_step :: "'k verbs \<Rightarrow> mem_op \<Rightarrow> RdmaMemory \<Rightarrow> 'k \<Rightarrow> absl_status \<times> RdmaMemory \<times> 'k" where
  "mem_step V (OpRegister addr len) mem k = RegisterMemory V addr len kDefaultAccessFlags mem k"
| "mem_step V (OpUnregister addr) mem k = UnregisterMemory V addr mem k"

primrec mem_run :: "'k verbs \<Rightarrow> mem_op list \<Rightarrow> RdmaMemory \<Rightarrow> 'k \<Rightarrow> RdmaMemory \<times> 'k" where
  "mem_run V [] mem k = (mem, k)"
| "mem_run V (p # ops) mem k = (case mem_step V p mem k of (s, mem', k') \<Rightarrow> mem_run V ops mem' k')"

text \<open>No call of the sequence registers a base again with more than its region holds.\<close>

primrec fresh_bases :: "'k verbs \<Rightarrow> mem_op list \<Rightarrow> RdmaMemory \<Rightarrow> 'k \<Rightarrow> bool" where
  "fresh_bases V [] mem k = True"
| "fresh_bases V (p # ops) mem k =
     ((case p of OpRegister addr len \<Rightarrow> fresh_base mem addr len | OpUnregister addr \<Rightarrow> True) \<and>
      (case mem_step V p mem k of (s, mem', k') \<Rightarrow> fresh_bases V ops mem' k'))"

context verbs_laws
begin

lemma mem_run_ok:
  "mem_ok V dev X F mem (view k) \<Longrightarrow> fresh_bases V ops mem k \<Longrightarrow> mem_run V ops mem k = (mem', k') \<Longrightarrow>
     mem_ok V dev X F mem' (view k')"
proof (induction ops arbitrary: mem k)
  case (Cons p ops)
  obtain s m1 k1 where st: "mem_step V p mem k = (s, m1, k1)"
    by (metis prod_cases3)
  have "mem_ok V dev X F m1 (view k1)"
  proof (cases p)
    case (OpRegister addr len)
    with st have "RegisterMemory V addr len kDefaultAccessFlags mem k = (s, m1, k1)" by simp
    moreover have "fresh_base mem addr len" using Cons.prems(2) OpRegister by simp
    ultimately show ?thesis by (rule register_ok [OF Cons.prems(1)])
  next
    case (OpUnregister addr)
    with st have "UnregisterMemory V addr mem k = (s, m1, k1)" by simp
    then show ?thesis by (rule unregister_ok [OF Cons.prems(1)])
  qed
  moreover have "fresh_bases V ops m1 k1" "mem_run V ops m1 k1 = (mem', k')"
    using Cons.prems(2, 3) st by simp_all
  ultimately show ?case by (rule Cons.IH)
qed simp

lemma memory_delete:
  "mem_ok V dev X F mem (view k) \<Longrightarrow> holds X F (view (RdmaMemory_delete V mem k))"
  unfolding RdmaMemory_delete_def by (rule unregister_all) (auto simp: mem_ok_def)

lemma new_memory_ok:
  assumes "holds (dev_objs (rd_ctxs dev)) F (view k)" "wf_dev V dev"
  shows "mem_ok V dev (dev_objs (rd_ctxs dev)) F \<lparr>mem_dev = Some dev, registered_regions = []\<rparr> (view k)"
proof -
  have "Pd (the (cx_pd cx)) \<in> objs (dev_objs ctxs)" if "cx \<in> set ctxs" for cx ctxs
    using that by (induction ctxs) (auto simp: cx_objs_def Let_def)
  with assms show ?thesis by (simp add: mem_ok_def wf_btree_def)
qed

lemma device_delete:
  assumes "holds (dev_objs (rd_ctxs dev)) F (view k)" "wf_dev V dev"
  shows "fst (view (RdmaDevice_delete V dev k)) = F"
  using devices_delete [of "rd_ctxs dev" "[]" F k] assms by (simp add: RdmaDevice_delete_def wf_dev_def holds_Nil)

text \<open>From a driver with the objects \<open>F\<close>, through opening the adapters and using a registry, to its end.\<close>

lemma session_accounts:
  assumes F: "fst (view k) = F" "\<forall>y\<in>F. snd (view k) y \<subseteq> F"
    and names: "\<And>k l devs k'. v_get_device_list V k = (Some (l, devs), k') \<Longrightarrow> distinct (dev_names V devs)"
    and dev: "RdmaDevice_Create V fs k = Inr (Inr dev, k1)" and mem: "RdmaMemory_new (Some dev) = Inr mem0"
    and run: "mem_run V ops mem0 k1 = (mem, k2)" and fresh: "fresh_bases V ops mem0 k1"
  shows "fst (view k2) = F \<union> objs (dev_objs (rd_ctxs dev)) \<union> objs (mem_objs dev (registered_regions mem))"
    and "\<forall>(a, r) \<in> set (registered_regions mem). full_mrs dev (device_mrs r)"
    and "fst (view (RdmaDevice_delete V dev (RdmaMemory_delete V mem k2))) = F"
proof -
  let ?X = "dev_objs (rd_ctxs dev)"
  have h: "holds ?X F (view k1)" and w: "wf_dev V dev"
    using device_create [of "[]" F k fs] F names dev by (auto simp: holds_Nil)
  have "mem0 = \<lparr>mem_dev = Some dev, registered_regions = []\<rparr>"
    using mem by (simp add: RdmaMemory_new_def)
  with new_memory_ok [OF h w] have ok: "mem_ok V dev ?X F mem (view k2)"
    using mem_run_ok [OF _ fresh run] by simp
  then show "fst (view k2) = F \<union> objs ?X \<union> objs (mem_objs dev (registered_regions mem))"
    using holds_live [of "mem_objs dev (registered_regions mem) @ ?X" F "view k2"] by (auto simp: mem_ok_def)
  show "\<forall>(a, r) \<in> set (registered_regions mem). full_mrs dev (device_mrs r)"
    using ok by (simp add: mem_ok_def)
  show "fst (view (RdmaDevice_delete V dev (RdmaMemory_delete V mem k2))) = F"
    using device_delete [OF memory_delete [OF ok] w] .
qed

text \<open>A longer registration at the same base succeeds and forgets the handles of the shorter one.\<close>

lemma reregistered:
  assumes ok: "mem_ok V dev X F mem (view k)" and old: "map_of (registered_regions mem) addr = Some r"
    and reg: "RegisterMemory V addr len fl mem k = (OkStatus, mem', k')"
  shows "holds (mem_objs dev (registered_regions mem') @ mr_objs dev (device_mrs r) @ X) F (view k')"
    and "holds (mr_objs dev (device_mrs r) @ X) F (view (RdmaMemory_delete V mem' k'))"
proof -
  let ?m = "registered_regions mem"
  obtain mrs where mrs: "full_mrs dev mrs" and h: "holds (mr_objs dev mrs @ mem_objs dev ?m @ X) F (view k')"
    and m': "registered_regions mem' = btree_assign addr \<lparr>rr_addr = addr, rr_length = len, device_mrs = mrs\<rparr> ?m"
    using register_outcome [OF ok reg] by auto
  have w: "wf_btree ?m" using ok by (simp add: mem_ok_def)
  show h': "holds (mem_objs dev (registered_regions mem') @ mr_objs dev (device_mrs r) @ X) F (view k')"
    using h by (subst holds_perm(1) [where Y = "mr_objs dev mrs @ mem_objs dev ?m @ X"])
      (simp_all add: m' mem_objs_assign [OF w] mem_objs_split [OF w old])
  have "\<forall>(a, r) \<in> set (registered_regions mem'). full_mrs dev (device_mrs r)"
    using ok mrs by (auto simp: m' set_btree_assign [OF w] mem_ok_def)
  then show "holds (mr_objs dev (device_mrs r) @ X) F (view (RdmaMemory_delete V mem' k'))"
    unfolding RdmaMemory_delete_def using h' ok by (intro unregister_all) (auto simp: mem_ok_def)
qed

end

section \<open>Properties\<close>

text \<open>
  C21. Looking up a buffer that does not pass the end of the address space: the region \<^verbatim>\<open>findRegion\<close> returns is
  registered and contains the whole buffer, and when registered regions do not overlap it returns
  a region exactly when one contains the buffer. The map's order and the single predecessor it looks
  at are thus equivalent to a search through all regions.
\<close>

theorem find_region_is_containment:
  assumes "wf_regions (registered_regions mem)" "fits addr len"
  shows "(\<forall>r. findRegion mem addr len = Some r \<longrightarrow> (rr_addr r, r) \<in> set (registered_regions mem) \<and> covers r addr len) \<and>
    (disjoint_regions (registered_regions mem) \<and> addr \<noteq> 0 \<and> len \<noteq> 0 \<longrightarrow>
      findRegion mem addr len = find (\<lambda>r. covers r addr len) (map snd (registered_regions mem)))"
proof (intro conjI allI impI)
  let ?m = "registered_regions mem"
  show "(rr_addr r, r) \<in> set ?m" "covers r addr len" if "findRegion mem addr len = Some r" for r
    using find_region_sound [OF assms that] by simp_all
  assume d: "disjoint_regions ?m \<and> addr \<noteq> 0 \<and> len \<noteq> 0"
  show "findRegion mem addr len = find (\<lambda>r. covers r addr len) (map snd ?m)"
  proof (cases "find (\<lambda>r. covers r addr len) (map snd ?m)")
    case None
    then have "\<forall>p \<in> set ?m. \<not> covers (snd p) addr len" by (simp add: find_None_iff)
    then show ?thesis
      using None find_region_sound(1, 2) [OF assms] by (cases "findRegion mem addr len") fastforce+
  next
    case (Some r)
    then obtain a where "(a, r) \<in> set ?m" "covers r addr len"
      by (auto simp: find_Some_iff) (metis nth_mem prod.collapse)
    then show ?thesis
      using find_region_complete [OF assms(1) _ _ _ assms(2)] d Some by simp
  qed
qed


text \<open>
  C37. When a buffer is registered again at the same base with a length that its region does not
  cover, the call succeeds, and the handles of the first registration stay in the driver while
  nothing refers to them any more: they survive the destructor of the registry.
\<close>

theorem reregistration_leaks:
  assumes "verbs_laws V view" "mem_ok V dev X F mem (view k)" "map_of (registered_regions mem) addr = Some r"
    and "RegisterMemory V addr len fl mem k = (OkStatus, mem', k')"
  shows "objs (mr_objs dev (device_mrs r)) \<inter> objs (mem_objs dev (registered_regions mem')) = {} \<and>
    objs (mr_objs dev (device_mrs r)) \<subseteq> fst (view k') \<and>
    objs (mr_objs dev (device_mrs r)) \<subseteq> fst (view (RdmaMemory_delete V mem' k'))"
proof -
  note h = verbs_laws.reregistered [OF assms]
  have "distinct (map fst (mem_objs dev (registered_regions mem')) @ map fst (mr_objs dev (device_mrs r)) @ map fst X)"
    using holds_distinct [OF h(1)] by simp
  then have "objs (mr_objs dev (device_mrs r)) \<inter> objs (mem_objs dev (registered_regions mem')) = {}"
    by (auto simp: objs_def)
  then show ?thesis
    using holds_live [OF h(1)] holds_live [OF h(2)] by auto
qed

text \<open>
  Two registrations that succeed can hide a buffer: a region registered first, then a greater
  one around it; a buffer behind the inner and inside the outer region is not found on any
  adapter, although the outer region contains it.
\<close>

theorem inner_region_hides_buffer:
  assumes "registered_regions mem = []" "RegisterMemory V b n fl mem k = (OkStatus, mem1, k1)"
    and "RegisterMemory V a m fl mem1 k1 = (OkStatus, mem2, k2)"
    and "fits b n" "fits a m" "unat a < unat b" "unat b + unat n \<le> unat addr" "unat addr + unat len \<le> unat a + unat m"
    and "len \<noteq> 0"
  shows "(\<exists>r. (a, r) \<in> set (registered_regions mem2) \<and> covers r addr len) \<and>
    GetMemoryRegion mem2 addr len device = None"
proof -
  have regs: "\<exists>mrs. registered_regions mem' = btree_assign x \<lparr>rr_addr = x, rr_length = l, device_mrs = mrs\<rparr> (registered_regions mem0) \<and>
      x \<noteq> 0 \<and> l \<noteq> 0"
    if "RegisterMemory V x l fl mem0 k = (OkStatus, mem', k')" for x l mem0 k mem' k'
    using that by (auto simp: RegisterMemory_def split: if_splits option.splits prod.splits sum.splits dest: register_all_status)
  obtain mrs1 mrs2 where m2: "registered_regions mem2 =
      [(a, \<lparr>rr_addr = a, rr_length = m, device_mrs = mrs2\<rparr>), (b, \<lparr>rr_addr = b, rr_length = n, device_mrs = mrs1\<rparr>)]"
    and nz: "a \<noteq> 0" "b \<noteq> 0" "m \<noteq> 0" "n \<noteq> 0"
    using regs [OF assms(2)] regs [OF assms(3)] assms(1, 6) by (auto simp: word_less_nat_alt)
  have w: "wf_regions (registered_regions mem2)"
    using nz assms(4-6) by (auto simp: wf_regions_def m2 wf_btree_def word_less_nat_alt)
  have "fits addr len" "addr \<noteq> 0"
    using assms(5-8) by (auto simp: fits_def)
  moreover have "upper_bound addr (registered_regions mem2) = 2"
    using assms(6, 7) by (auto simp: upper_bound_def m2 word_le_nat_alt)
  moreover have "0 < unat len" using assms(9) by (simp add: unat_gt_0)
  ultimately have "findRegion mem2 addr len = None"
    using find_region_unfold [OF w _ assms(9)] assms(7) by (simp add: m2 covers_def)
  then show ?thesis
    using assms(6-8) by (auto simp: GetMemoryRegion_def m2 covers_def)
qed

text \<open>A length that passes the end of the address space is accepted at the base of every region: the sum wraps.\<close>

theorem wrapped_length_accepted:
  assumes w: "wf_regions (registered_regions mem)" and r: "(a, r) \<in> set (registered_regions mem)"
  shows "findRegion mem a (- a) = Some r \<and> \<not> covers r a (- a)"
proof -
  let ?m = "registered_regions mem"
  have wb: "wf_btree ?m" and a: "a \<noteq> 0" "rr_addr r = a" "fits a (rr_length r)"
    using w r by (auto simp: wf_regions_def)
  obtain i where i: "upper_bound a ?m = Suc i"
    using no_upper_bound [OF wb _ r] by (cases "upper_bound a ?m") auto
  note b = before_upper_bound [OF wb i]
  have "fst (?m ! i) = a"
    using b(2) b(3) [OF r] by simp
  then have e: "?m ! i = (a, r)"
    using b(1) r wf_btree_distinct [OF wb] by (metis eq_key_imp_eq_value prod.collapse)
  have ne: "?m \<noteq> []" using r by auto
  have found: "findRegion mem a (- a) = Some r"
    by (simp add: findRegion_def a ne i e Let_def)
  have "fits a (- a)" if "covers r a (- a)"
    using that a by (simp add: covers_def fits_def)
  then have "\<not> covers r a (- a)"
    using unat_plus_fits [of a "- a"] a(1) by (auto simp: unat_eq_zero)
  with found show ?thesis by simp
qed

section \<open>Instances\<close>

text \<open>A host with two adapters; a buffer of 4096 bytes, one that is too long for the driver, and a release.\<close>

definition mp_V :: "soft_hca verbs" where "mp_V = soft_verbs [''mlx5_0'', ''mlx5_1'']"

definition mp_fs :: ibdev_fs where "mp_fs = \<lparr>ibdev_net = \<lambda>_. None, StrContainsIgnoreCase = \<lambda>_ _. False\<rparr>"

definition mp_k :: soft_hca where "mp_k = \<lparr>sv_objs = [], sv_qps = []\<rparr>"

definition mp_dev :: RdmaDevice where
  "mp_dev = (case RdmaDevice_Create mp_V mp_fs mp_k of Inr (Inr d, k) \<Rightarrow> d | _ \<Rightarrow> \<lparr>rd_ctxs = [], rd_ctx_map = []\<rparr>)"

definition mp_k1 :: soft_hca where
  "mp_k1 = (case RdmaDevice_Create mp_V mp_fs mp_k of Inr (_, k) \<Rightarrow> k | _ \<Rightarrow> mp_k)"

definition mp_mem :: RdmaMemory where "mp_mem = \<lparr>mem_dev = Some mp_dev, registered_regions = []\<rparr>"

definition mp_ops :: "mem_op list" where
  "mp_ops = [OpRegister 0x10000 4096, OpRegister 0x20000 (2 ^ 50), OpRegister 0x10000 64, OpRegister 0x40000 64,
     OpRegister 0x30000 32, OpUnregister 0x10000]"

lemma mp_create: "RdmaDevice_Create mp_V mp_fs mp_k = Inr (Inr mp_dev, mp_k1)"
  by code_simp

lemma mp_names: "v_get_device_list mp_V k = (Some (l, devs), k') \<Longrightarrow> distinct (dev_names mp_V devs)"
  by (auto simp: mp_V_def soft_verbs_def dev_names_def upt_rec)

lemma mp_fresh: "fresh_bases mp_V mp_ops mp_mem mp_k1"
  by code_simp

lemma mp_laws: "verbs_laws mp_V sv_view"
  unfolding mp_V_def by (rule soft.verbs_laws_axioms)

lemma mp_device: "holds (dev_objs (rd_ctxs mp_dev)) {} (sv_view mp_k1)" "wf_dev mp_V mp_dev"
  using verbs_laws.device_create [OF mp_laws, of "[]" "{}" mp_k mp_fs] mp_names mp_create
  by (auto simp: holds_Nil sv_view_def mp_k_def)

definition mp_mem2 :: RdmaMemory where "mp_mem2 = fst (mem_run mp_V mp_ops mp_mem mp_k1)"
definition mp_k2 :: soft_hca where "mp_k2 = snd (mem_run mp_V mp_ops mp_mem mp_k1)"

lemma mp_run: "mem_run mp_V mp_ops mp_mem mp_k1 = (mp_mem2, mp_k2)"
  by (simp add: mp_mem2_def mp_k2_def)

lemma mp_regions: "map (\<lambda>(a, r). (a, rr_addr r, rr_length r)) (registered_regions mp_mem2) =
    [(0x30000, 0x30000, 32), (0x40000, 0x40000, 64)]"
  by code_simp

theorem find_region_is_containment_witness:
  "findRegion mp_mem2 0x40010 16 \<noteq> None \<and> findRegion mp_mem2 0x40010 64 = None"
proof -
  obtain r1 r2 where m: "registered_regions mp_mem2 = [(0x30000, r1), (0x40000, r2)]"
    and r: "rr_addr r1 = 0x30000" "rr_length r1 = 32" "rr_addr r2 = 0x40000" "rr_length r2 = 64"
    using mp_regions by (auto simp: map_eq_Cons_conv)
  have w: "wf_regions (registered_regions mp_mem2)" "disjoint_regions (registered_regions mp_mem2)"
    and f: "fits 0x40010 16" "fits 0x40010 64"
    by (simp_all add: m r wf_regions_def disjoint_regions_def wf_btree_def fits_def)
  show ?thesis
    using find_region_is_containment [OF w(1) f(1)] find_region_is_containment [OF w(1) f(2)] w(2)
    by (simp add: m r covers_def)
qed


text \<open>The buffer at \<^verbatim>\<open>0x40000\<close> is registered once more, with 128 bytes.\<close>

definition mp_again :: "absl_status \<times> RdmaMemory \<times> soft_hca" where
  "mp_again = RegisterMemory mp_V 0x40000 128 kDefaultAccessFlags mp_mem2 mp_k2"

theorem reregistration_leaks_witness:
  "\<exists>r. map_of (registered_regions mp_mem2) 0x40000 = Some r \<and> device_mrs r \<noteq> [] \<and>
     objs (mr_objs mp_dev (device_mrs r)) \<subseteq> fst (sv_view (RdmaMemory_delete mp_V (fst (snd mp_again)) (snd (snd mp_again))))"
proof -
  from verbs_laws.mem_run_ok [OF mp_laws verbs_laws.new_memory_ok [OF mp_laws mp_device, folded mp_mem_def] mp_fresh mp_run]
  have ok: "mem_ok mp_V mp_dev (dev_objs (rd_ctxs mp_dev)) {} mp_mem2 (sv_view mp_k2)" .
  obtain r where r: "map_of (registered_regions mp_mem2) 0x40000 = Some r"
    using mp_regions by (auto simp: map_eq_Cons_conv)
  have "fst mp_again = OkStatus" by code_simp
  then have again: "RegisterMemory mp_V 0x40000 128 kDefaultAccessFlags mp_mem2 mp_k2 =
      (OkStatus, fst (snd mp_again), snd (snd mp_again))"
    unfolding mp_again_def by (metis prod.collapse)
  have "map_option (\<lambda>r. device_mrs r = []) (map_of (registered_regions mp_mem2) 0x40000) = Some False"
    by code_simp
  then show ?thesis
    using reregistration_leaks [OF mp_laws ok r again] r by auto
qed

theorem inner_region_hides_buffer_witness:
  "\<exists>mem1 k1 mem2 k2. RegisterMemory mp_V 0x20000 16 kDefaultAccessFlags mp_mem mp_k1 = (OkStatus, mem1, k1) \<and>
     RegisterMemory mp_V 0x10000 0x20000 kDefaultAccessFlags mem1 k1 = (OkStatus, mem2, k2) \<and>
     GetMemoryRegion mem2 0x20100 8 ''mlx5_0'' = None"
proof -
  obtain s1 m1 k1 where 1: "RegisterMemory mp_V 0x20000 16 kDefaultAccessFlags mp_mem mp_k1 = (s1, m1, k1)"
    by (metis prod_cases3)
  obtain s2 m2 k2 where 2: "RegisterMemory mp_V 0x10000 0x20000 kDefaultAccessFlags m1 k1 = (s2, m2, k2)"
    by (metis prod_cases3)
  have "(case RegisterMemory mp_V 0x20000 16 kDefaultAccessFlags mp_mem mp_k1 of (s1, m1, k1) \<Rightarrow>
      case RegisterMemory mp_V 0x10000 0x20000 kDefaultAccessFlags m1 k1 of (s2, m2, k2) \<Rightarrow>
      s1 = OkStatus \<and> s2 = OkStatus)"
    by code_simp
  then have s: "s1 = OkStatus" "s2 = OkStatus" by (simp_all add: 1 2)
  have "registered_regions mp_mem = []" "fits 0x20000 16" "fits 0x10000 0x20000"
    "unat (0x10000 :: u64) < unat (0x20000 :: u64)" "unat (0x20000 :: u64) + unat (16 :: u64) \<le> unat (0x20100 :: u64)"
    "unat (0x20100 :: u64) + unat (8 :: u64) \<le> unat (0x10000 :: u64) + unat (0x20000 :: u64)" "(8 :: u64) \<noteq> 0"
    by (simp_all add: mp_mem_def fits_def)
  from inner_region_hides_buffer [OF this(1) 1 [unfolded s] 2 [unfolded s] this(2-7)] show ?thesis
    using 1 2 s by blast
qed

end
