(* ===== verification/RdmaHandshake.thy ===== *)
theory RdmaHandshake
  imports RdmaManager RdmaMemoryProps
begin

text \<open>
  The connections of two RDMA managers: whatever the network does with single calls, every connection
  the asking side returns has a partner on the answering side, and the adapters of both hold each
  other's numbers, addresses and packet sequence numbers.
\<close>

section \<open>One host\<close>

text \<open>A device, queue pairs of its contexts, and the other objects \<open>R\<close> of the host, over the frame \<open>F\<close>.\<close>

definition side_ok :: "'k verbs \<Rightarrow> RdmaDevice \<Rightarrow> ibv_objs \<Rightarrow> ibv_obj set \<Rightarrow> RdmaQPair list \<Rightarrow> ibv_view \<Rightarrow> bool" where
  "side_ok V dev R F qps v \<longleftrightarrow> wf_dev V dev \<and> list_all wf_qp qps \<and>
     (\<forall>cx \<in> set (rd_ctxs dev). DeviceContext (ic_ptr (the (cx_ctx cx))) \<in> objs R \<and> Pd (the (cx_pd cx)) \<in> objs R) \<and>
     holds (concat (map qp_objs qps) @ R) F v"

lemma qp_objs_state [simp]: "qp_objs (qp\<lparr>q_state := st\<rparr>) = qp_objs qp" "wf_qp (qp\<lparr>q_state := st\<rparr>) = wf_qp qp"
  "q_ptr (qp\<lparr>q_state := st\<rparr>) = q_ptr qp" "Qpn (qp\<lparr>q_state := st\<rparr>) = Qpn qp"
  by (simp_all add: qp_objs_def wf_qp_def q_ptr_def Qpn_def)

lemma qp_in_objs: "q \<in> set qps \<Longrightarrow> Qp (q_ptr q) \<in> objs (concat (map qp_objs qps))"
  by (induction qps) (auto simp: qp_objs_def Let_def)

lemma side_ok_live: "side_ok V dev R F qps v \<Longrightarrow> q \<in> set qps \<Longrightarrow> Qp (q_ptr q) \<in> fst v"
  using holds_live [of "concat (map qp_objs qps) @ R" F v] qp_in_objs [of q qps] by (auto simp: side_ok_def)

context qp_laws
begin

lemma side_create:
  assumes "side_ok V dev R F qps (view k)" "cx \<in> set (rd_ctxs dev)"
  shows "\<exists>r k'. RdmaQPair_Create V (Some cx) opts k = Inr (r, k') \<and> created cx (concat (map qp_objs qps) @ R) F k r k'"
  using assms holds_live [of "concat (map qp_objs qps) @ R" F "view k"]
  by (intro qp_create) (auto simp: side_ok_def wf_dev_def list_all_iff)

lemma side_failed:
  assumes "side_ok V dev R F qps (view k)" "created cx (concat (map qp_objs qps) @ R) F k (Inl s) k'"
  shows "side_ok V dev R F qps (view k')" and "q \<in> set qps \<Longrightarrow> hw k' (q_ptr q) = hw k (q_ptr q)"
  using assms side_ok_live [OF assms(1), of q] by (auto simp: created_def side_ok_def)

text \<open>A new queue pair, given up or connected, after calls that left the adapter as it was.\<close>

lemma side_abandon:
  assumes ok: "side_ok V dev R F qps (view k)" and c: "created cx (concat (map qp_objs qps) @ R) F k (Inr qp) k1"
    and same: "view k2 = view k1" "\<And>y. y \<noteq> q_ptr qp \<Longrightarrow> hw k2 y = hw k1 y"
  shows "side_ok V dev R F qps (view (RdmaQPair_delete V (qp\<lparr>q_state := st\<rparr>) k2))"
    and "q \<in> set qps \<Longrightarrow> hw (RdmaQPair_delete V (qp\<lparr>q_state := st\<rparr>) k2) (q_ptr q) = hw k (q_ptr q)"
proof -
  let ?X = "concat (map qp_objs qps) @ R" and ?q = "qp\<lparr>q_state := st\<rparr>"
  have h: "holds (qp_objs ?q @ ?X) F (view k2)" "wf_qp ?q" "objs (qp_objs ?q) \<inter> used ?X = {}"
    and fresh: "Qp (q_ptr qp) \<notin> fst (view k)" and hw1: "\<And>y. Qp y \<in> fst (view k) \<Longrightarrow> hw k1 y = hw k y"
    using c same by (auto simp: created_def)
  show "side_ok V dev R F qps (view (RdmaQPair_delete V ?q k2))"
    using qp_delete(1) [OF h] ok by (simp add: side_ok_def)
  assume "q \<in> set qps"
  then have live: "Qp (q_ptr q) \<in> fst (view k)" using ok by (rule side_ok_live [rotated])
  then have "q_ptr q \<noteq> q_ptr qp" using fresh by auto
  then show "hw (RdmaQPair_delete V ?q k2) (q_ptr q) = hw k (q_ptr q)"
    using qp_delete(2) [OF h, of "q_ptr q"] same(2) hw1 [OF live] by simp
qed

lemma side_connect:
  assumes ok: "side_ok V dev R F qps (view k)" and c: "created cx (concat (map qp_objs qps) @ R) F k (Inr qp) k1"
    and same: "view k2 = view k1" "hw k2 = hw k1"
    and con: "QPair_Connect V rqpn rgid rpsn lpsn qp k2 = (s, qp1, k3)"
  shows "s = OkStatus \<Longrightarrow> side_ok V dev R F (qps @ [qp1]) (view k3) \<and> linked (hw k3 (q_ptr qp1)) rqpn rgid rpsn lpsn \<and>
      IsConnected qp1 \<and> Qpn qp1 = Qpn qp \<and> q_ctx qp1 = Some cx \<and> q_ptr qp1 \<notin> q_ptr ` set qps \<and>
      (\<forall>q \<in> set qps. hw k3 (q_ptr q) = hw k (q_ptr q))"
    and "s \<noteq> OkStatus \<Longrightarrow> side_ok V dev R F qps (view (RdmaQPair_delete V qp1 k3)) \<and>
      (\<forall>q \<in> set qps. hw (RdmaQPair_delete V qp1 k3) (q_ptr q) = hw k (q_ptr q))"
proof -
  let ?X = "concat (map qp_objs qps) @ R"
  have qp: "wf_qp qp" "q_state qp = kInit" "q_ctx qp = Some cx" "holds (qp_objs qp @ ?X) F (view k1)"
    and fresh: "Qp (q_ptr qp) \<notin> fst (view k)" and hw1: "\<And>y. Qp y \<in> fst (view k) \<Longrightarrow> hw k1 y = hw k y"
    using c by (auto simp: created_def)
  note o = connect_outcome [OF qp(1) con]
  obtain st where st: "qp1 = qp\<lparr>q_state := st\<rparr>"
    "(s = OkStatus \<and> st = kRts \<and> linked (hw k3 (q_ptr qp)) rqpn rgid rpsn lpsn) \<or> (s = InternalStatus \<and> st = kError)"
    using o(3) qp(2) by auto
  have others: "q_ptr q \<noteq> q_ptr qp \<and> hw k3 (q_ptr q) = hw k (q_ptr q)" if "q \<in> set qps" for q
    using side_ok_live [OF ok that] fresh o(2) [of "q_ptr q"] same(2) hw1 [of "q_ptr q"]
    by (cases "q_ptr q = q_ptr qp") simp_all
  show "side_ok V dev R F (qps @ [qp1]) (view k3) \<and> linked (hw k3 (q_ptr qp1)) rqpn rgid rpsn lpsn \<and>
      IsConnected qp1 \<and> Qpn qp1 = Qpn qp \<and> q_ctx qp1 = Some cx \<and> q_ptr qp1 \<notin> q_ptr ` set qps \<and>
      (\<forall>q \<in> set qps. hw k3 (q_ptr q) = hw k (q_ptr q))" if "s = OkStatus"
  proof -
    have "holds (concat (map qp_objs (qps @ [qp1])) @ R) F (view k3)"
      using qp(4) by (subst holds_perm(1) [where Y = "qp_objs qp @ ?X"]) (simp_all add: st(1) o(1) same)
    then have "side_ok V dev R F (qps @ [qp1]) (view k3)"
      using ok qp(1) by (simp add: side_ok_def st(1))
    moreover have "q_ptr qp \<notin> q_ptr ` set qps"
      using others by (metis imageE)
    ultimately show ?thesis
      using st that others qp(3) by (simp add: IsConnected_def)
  qed
  show "side_ok V dev R F qps (view (RdmaQPair_delete V qp1 k3)) \<and>
      (\<forall>q \<in> set qps. hw (RdmaQPair_delete V qp1 k3) (q_ptr q) = hw k (q_ptr q))"
    using side_abandon [OF ok c, where ?k2.0 = k3 and st = st] o(1, 2) same by (simp add: st(1))
qed

end

section \<open>Two hosts\<close>

text \<open>
  A queue pair of the asking side and its partner on the answering side, with what their adapters hold.
\<close>

definition paired :: "RdmaQPair \<Rightarrow> ibv_qp_attr \<Rightarrow> RdmaQPair \<Rightarrow> ibv_qp_attr \<Rightarrow> bool" where
  "paired qa ha qb hb \<longleftrightarrow> IsConnected qa \<and> IsConnected qb \<and>
     linked ha (Qpn qb) (cx_local_gid (the (q_ctx qb))) (qa_sq_psn hb) (qa_rq_psn hb) \<and>
     linked hb (Qpn qa) (cx_local_gid (the (q_ctx qa))) (qa_sq_psn ha) (qa_rq_psn ha)"

text \<open>
  The asking side's view of the network: a call reaches the peer's handler at most once, with an empty
  answer to fill in, and an answer with status OK is the one the handler gave with that status; calls
  of other kinds do not change the peer's RDMA manager.
\<close>

definition no_resp :: pb_RdmaConnResp where
  "no_resp = \<lparr>pb_resp_qpn = None, pb_resp_gid = None, pb_resp_psn = None, pb_resp_rkey = None\<rparr>"

locale rdma_pair = qp_laws V view hw for V :: "'k verbs" and view :: "'k \<Rightarrow> ibv_view" and hw :: "'k \<Rightarrow> nat \<Rightarrow> ibv_qp_attr" +
  fixes rng :: "'k \<Rightarrow> u32 \<times> 'k"
    and rpc :: "'w rpc"
    and mgr_of :: "'w \<Rightarrow> RdmaManager"
    and k_of :: "'w \<Rightarrow> 'k"
  assumes rng_same: "rng k = (x, k') \<Longrightarrow> view k' = view k \<and> hw k' = hw k"
    and served: "rpc addr m w = (w', s, r) \<Longrightarrow>
      (mgr_of w' = mgr_of w \<and> k_of w' = k_of w \<and> \<not> (\<exists>q x. m = ReqRdmaConn q \<and> grpc_ok s \<and> r = RespRdmaConn x)) \<or>
      (\<exists>q st resp. m = ReqRdmaConn q \<and> handleConnect V rng q (Some no_resp) (mgr_of w) (k_of w) = Inr (st, resp, mgr_of w', k_of w') \<and>
         (grpc_ok s \<longrightarrow> st = OkStatus \<and> (\<forall>x. r = RespRdmaConn x \<longrightarrow> resp = Some x)))"
begin

lemma gen_psn: "genPsn rng k = (x, k') \<Longrightarrow> view k' = view k \<and> hw k' = hw k"
  using rng_same by (auto simp: genPsn_def split: prod.splits)

text \<open>The answering side.\<close>

lemma handle_connect:
  assumes ok: "side_ok V dev R F (inbound_rdma_qps mgr) (view k)" and dev: "rm_device mgr = Some dev"
  shows "\<exists>st resp mgr' k'. handleConnect V rng req (Some r) mgr k = Inr (st, resp, mgr', k') \<and> rm_device mgr' = Some dev \<and>
    side_ok V dev R F (inbound_rdma_qps mgr') (view k') \<and>
    (\<forall>q \<in> set (inbound_rdma_qps mgr). hw k' (q_ptr q) = hw k (q_ptr q)) \<and>
    (if st = OkStatus then \<exists>qp x. inbound_rdma_qps mgr' = inbound_rdma_qps mgr @ [qp] \<and> resp = Some x \<and>
        q_ptr qp \<notin> q_ptr ` set (inbound_rdma_qps mgr) \<and> IsConnected qp \<and> field 0 (pb_resp_qpn x) = Qpn qp \<and>
        field [] (pb_resp_gid x) = cx_local_gid (the (q_ctx qp)) \<and>
        linked (hw k' (q_ptr qp)) (field 0 (pb_qpn req)) (field [] (pb_gid req)) (field 0 (pb_psn req)) (field 0 (pb_resp_psn x))
     else inbound_rdma_qps mgr' = inbound_rdma_qps mgr)"
proof (cases "length (field [] (pb_gid req)) = 16 \<and> GetContext dev (field [] (pb_device_name req)) \<noteq> None")
  case False
  then show ?thesis
    using ok dev by (auto simp: handleConnect_def split: option.splits)
next
  case True
  then obtain ctx where ctx: "GetContext dev (field [] (pb_device_name req)) = Some ctx" and len: "length (field [] (pb_gid req)) = 16"
    by auto
  have "ctx \<in> set (rd_ctxs dev)"
    using ctx ok wf_dev_GetContext [of V dev "field [] (pb_device_name req)" ctx] by (simp add: side_ok_def)
  then obtain qo k1 where c: "RdmaQPair_Create V (Some ctx) QpOptions_default k = Inr (qo, k1)"
    and cr: "created ctx (concat (map qp_objs (inbound_rdma_qps mgr)) @ R) F k qo k1"
    using side_create [OF ok] by blast
  note unf = handleConnect_def dev len ctx c
  show ?thesis
  proof (cases qo)
    case (Inl s)
    then have "s \<noteq> OkStatus" using cr by (simp add: created_def)
    then show ?thesis
      using side_failed [OF ok cr [unfolded Inl]] dev by (auto simp: unf Inl)
  next
    case (Inr qp)
    obtain psn k2 where g: "genPsn rng k1 = (psn, k2)" by force
    obtain s qp1 k3 where con: "QPair_Connect V (field 0 (pb_qpn req)) (field [] (pb_gid req)) (field 0 (pb_psn req)) psn qp k2 = (s, qp1, k3)"
      by (metis prod_cases3)
    have same: "view k2 = view k1" "hw k2 = hw k1" using gen_psn [OF g] by auto
    note sc = side_connect [OF ok cr [unfolded Inr] same con]
    show ?thesis
    proof (cases "s = OkStatus")
      case False
      then show ?thesis
        using sc(2) dev by (simp add: unf Inr g con)
    next
      case True
      then show ?thesis
        using sc(1) dev by (cases "rm_memory mgr") (auto simp: unf Inr g con Let_def)
    qed
  qed
qed

text \<open>
  The asking side, between two iterations: its connections are paired with distinct queue pairs of the
  answering side, and both sides account for their objects.
\<close>

definition both_ok :: "RdmaDevice \<Rightarrow> ibv_objs \<Rightarrow> ibv_obj set \<Rightarrow> RdmaDevice \<Rightarrow> ibv_objs \<Rightarrow> ibv_obj set \<Rightarrow>
    RdmaConn list \<Rightarrow> RdmaQPair list \<Rightarrow> 'k \<Rightarrow> 'w \<Rightarrow> bool" where
  "both_ok dA RA FA dB RB FB conns qs k w \<longleftrightarrow>
     side_ok V dA RA FA (map cn_qp conns) (view k) \<and>
     rm_device (mgr_of w) = Some dB \<and> side_ok V dB RB FB (inbound_rdma_qps (mgr_of w)) (view (k_of w)) \<and>
     distinct (map q_ptr qs) \<and> set qs \<subseteq> set (inbound_rdma_qps (mgr_of w)) \<and>
     list_all2 (\<lambda>cn q. paired (cn_qp cn) (hw k (q_ptr (cn_qp cn))) q (hw (k_of w) (q_ptr q))) conns qs"

lemma both_pairs:
  assumes b: "both_ok dA RA FA dB RB FB conns qs k w"
    and "\<And>cn. cn \<in> set conns \<Longrightarrow> hw k' (q_ptr (cn_qp cn)) = hw k (q_ptr (cn_qp cn))"
  shows "list_all2 (\<lambda>cn q. paired (cn_qp cn) (hw k' (q_ptr (cn_qp cn))) q (hw (k_of w) (q_ptr q))) conns qs"
proof -
  have "list_all2 (\<lambda>cn q. paired (cn_qp cn) (hw k (q_ptr (cn_qp cn))) q (hw (k_of w) (q_ptr q))) conns qs"
    using b by (simp add: both_ok_def)
  then show ?thesis
    by (rule list.rel_mono_strong) (simp add: assms(2))
qed

lemma both_same:
  assumes "both_ok dA RA FA dB RB FB conns qs k w" "side_ok V dA RA FA (map cn_qp conns) (view k')"
    and "\<And>cn. cn \<in> set conns \<Longrightarrow> hw k' (q_ptr (cn_qp cn)) = hw k (q_ptr (cn_qp cn))"
  shows "both_ok dA RA FA dB RB FB conns qs k' w"
  using assms(1, 2) both_pairs [OF assms(1, 3)] by (simp add: both_ok_def)

text \<open>A call of the network, seen by the invariant.\<close>

lemma both_call:
  assumes b: "both_ok dA RA FA dB RB FB conns qs k w" and call: "rpc addr m w = (w', s, r)"
  shows "both_ok dA RA FA dB RB FB conns qs k w'"
    and "m = ReqRdmaConn q \<Longrightarrow> grpc_ok s \<Longrightarrow> r = RespRdmaConn x \<Longrightarrow>
      \<exists>qp. inbound_rdma_qps (mgr_of w') = inbound_rdma_qps (mgr_of w) @ [qp] \<and> q_ptr qp \<notin> q_ptr ` set (inbound_rdma_qps (mgr_of w)) \<and>
        IsConnected qp \<and> field 0 (pb_resp_qpn x) = Qpn qp \<and> field [] (pb_resp_gid x) = cx_local_gid (the (q_ctx qp)) \<and>
        linked (hw (k_of w') (q_ptr qp)) (field 0 (pb_qpn q)) (field [] (pb_gid q)) (field 0 (pb_psn q)) (field 0 (pb_resp_psn x))"
proof -
  have B: "side_ok V dB RB FB (inbound_rdma_qps (mgr_of w)) (view (k_of w))" "rm_device (mgr_of w) = Some dB"
    using b by (auto simp: both_ok_def)
  consider (quiet) "mgr_of w' = mgr_of w" "k_of w' = k_of w" "\<not> (\<exists>q x. m = ReqRdmaConn q \<and> grpc_ok s \<and> r = RespRdmaConn x)"
    | (ran) p st resp where "m = ReqRdmaConn p"
        "handleConnect V rng p (Some no_resp) (mgr_of w) (k_of w) = Inr (st, resp, mgr_of w', k_of w')"
        "grpc_ok s \<longrightarrow> st = OkStatus \<and> (\<forall>x. r = RespRdmaConn x \<longrightarrow> resp = Some x)"
    using served [OF call] by blast
  then have "both_ok dA RA FA dB RB FB conns qs k w' \<and> (m = ReqRdmaConn q \<and> grpc_ok s \<and> r = RespRdmaConn x \<longrightarrow>
      (\<exists>qp. inbound_rdma_qps (mgr_of w') = inbound_rdma_qps (mgr_of w) @ [qp] \<and> q_ptr qp \<notin> q_ptr ` set (inbound_rdma_qps (mgr_of w)) \<and>
        IsConnected qp \<and> field 0 (pb_resp_qpn x) = Qpn qp \<and> field [] (pb_resp_gid x) = cx_local_gid (the (q_ctx qp)) \<and>
        linked (hw (k_of w') (q_ptr qp)) (field 0 (pb_qpn q)) (field [] (pb_gid q)) (field 0 (pb_psn q)) (field 0 (pb_resp_psn x))))"
  proof cases
    case quiet
    then show ?thesis using b by (auto simp: both_ok_def)
  next
    case ran
    note h = handle_connect [OF B, of p no_resp, unfolded ran(2)]
    have side: "side_ok V dB RB FB (inbound_rdma_qps (mgr_of w')) (view (k_of w'))" "rm_device (mgr_of w') = Some dB"
      and keep: "\<And>q. q \<in> set (inbound_rdma_qps (mgr_of w)) \<Longrightarrow> hw (k_of w') (q_ptr q) = hw (k_of w) (q_ptr q)"
      and grow: "set (inbound_rdma_qps (mgr_of w)) \<subseteq> set (inbound_rdma_qps (mgr_of w'))"
      using h by (auto split: if_splits)
    have qs: "distinct (map q_ptr qs)" "set qs \<subseteq> set (inbound_rdma_qps (mgr_of w))"
      "list_all2 (\<lambda>cn q. paired (cn_qp cn) (hw k (q_ptr (cn_qp cn))) q (hw (k_of w) (q_ptr q))) conns qs"
      using b by (auto simp: both_ok_def)
    have "list_all2 (\<lambda>cn q. paired (cn_qp cn) (hw k (q_ptr (cn_qp cn))) q (hw (k_of w') (q_ptr q))) conns qs"
      using qs(3) by (rule list.rel_mono_strong) (use qs(2) keep in auto)
    then have "both_ok dA RA FA dB RB FB conns qs k w'"
      using b side grow qs(1, 2) unfolding both_ok_def by blast
    then show ?thesis
      using h ran(1, 3) by (auto split: if_splits)
  qed
  then show "both_ok dA RA FA dB RB FB conns qs k w'"
    and "m = ReqRdmaConn q \<Longrightarrow> grpc_ok s \<Longrightarrow> r = RespRdmaConn x \<Longrightarrow>
      \<exists>qp. inbound_rdma_qps (mgr_of w') = inbound_rdma_qps (mgr_of w) @ [qp] \<and> q_ptr qp \<notin> q_ptr ` set (inbound_rdma_qps (mgr_of w)) \<and>
        IsConnected qp \<and> field 0 (pb_resp_qpn x) = Qpn qp \<and> field [] (pb_resp_gid x) = cx_local_gid (the (q_ctx qp)) \<and>
        linked (hw (k_of w') (q_ptr qp)) (field 0 (pb_qpn q)) (field [] (pb_gid q)) (field 0 (pb_psn q)) (field 0 (pb_resp_psn x))"
    by blast+
qed

text \<open>What \<^verbatim>\<open>ConnectRdmaPeer\<close> gives, with the call it made if it made one.\<close>

lemma connect_peer:
  assumes c: "wf_Control L c" "serving c"
  shows "\<exists>c' w' res. ConnectRdmaPeer L rpc peer name qpn gid psn key c w = Inr (c', w', res) \<and> wf_Control L c' \<and> serving c' \<and>
    (w' = w \<and> (\<exists>e. res = Inl e) \<or>
     (\<exists>addr q s r. rpc addr (ReqRdmaConn q) w = (w', s, r) \<and> field 0 (pb_qpn q) = qpn \<and> field [] (pb_gid q) = gid \<and>
        field 0 (pb_psn q) = psn \<and> (\<forall>x. res = Inr x \<longrightarrow> grpc_ok s \<and> r = RespRdmaConn x)))"
proof (cases "HasNonzeroIpPort peer \<and> length gid = 16")
  case False
  then show ?thesis using c by (auto simp: ConnectRdmaPeer_def)
next
  case True
  define q where "q = \<lparr>pb_conn_peer = None, pb_device_name = Some name, pb_qpn = Some qpn,
    pb_gid = Some gid, pb_psn = Some psn, pb_conn_rkey = (if key \<noteq> 0 then Some key else None)\<rparr>"
  obtain w' s r where call: "rpc (Endpoint_ToString L peer) (ReqRdmaConn q) w = (w', s, r)" by (metis prod_cases3)
  obtain c' pc where sent: "sendRequest L rpc peer (ReqRdmaConn q) c w = Inr (c', w', if grpc_ok s then Inr r else Inl (ToAbslStatus s))"
    and c': "wf_Control L c'" "c' = c\<lparr>peer_clients := pc\<rparr>"
    using sendRequest_calls [where rpc = rpc, OF c call] by blast
  have "\<exists>res. ConnectRdmaPeer L rpc peer name qpn gid psn key c w = Inr (c', w', res) \<and>
      (\<forall>x. res = Inr x \<longrightarrow> grpc_ok s \<and> r = RespRdmaConn x)"
    using True sent by (cases "grpc_ok s"; cases r) (simp_all add: ConnectRdmaPeer_def q_def)
  then obtain res where "ConnectRdmaPeer L rpc peer name qpn gid psn key c w = Inr (c', w', res)"
    "\<forall>x. res = Inr x \<longrightarrow> grpc_ok s \<and> r = RespRdmaConn x" by blast
  moreover have "field 0 (pb_qpn q) = qpn" "field [] (pb_gid q) = gid" "field 0 (pb_psn q) = psn"
    by (simp_all add: q_def)
  moreover have "serving c'" using c(2) c'(2) by simp
  ultimately show ?thesis using call c'(1) by blast
qed

lemma attempt_ok:
  assumes b: "both_ok dA RA FA dB RB FB conns qs k w" and ctx: "ctx \<in> set (rd_ctxs dA)" and c: "wf_Control L c" "serving c"
  shows "\<exists>o' c' k' w'. connect_attempt V rng L rpc peer mgr ctx name c k w = Inr (o', c', k', w') \<and> wf_Control L c' \<and> serving c' \<and>
    (case o' of None \<Rightarrow> both_ok dA RA FA dB RB FB conns qs k' w'
     | Some cn \<Rightarrow> \<exists>q. both_ok dA RA FA dB RB FB (conns @ [cn]) (qs @ [q]) k' w')"
proof -
  let ?qps = "map cn_qp conns"
  have ok: "side_ok V dA RA FA ?qps (view k)" using b by (simp add: both_ok_def)
  obtain qo k1 where cr: "RdmaQPair_Create V (Some ctx) QpOptions_default k = Inr (qo, k1)"
    and cd: "created ctx (concat (map qp_objs ?qps) @ RA) FA k qo k1"
    using side_create [OF ok ctx] by blast
  show ?thesis
  proof (cases qo)
    case (Inl s)
    have "both_ok dA RA FA dB RB FB conns qs k1 w"
      using side_failed [OF ok cd [unfolded Inl]] by (intro both_same [OF b]) auto
    then show ?thesis using c by (simp add: connect_attempt_def cr Inl)
  next
    case (Inr qp)
    obtain psn k2 where g: "genPsn rng k1 = (psn, k2)" by force
    have same: "view k2 = view k1" "hw k2 = hw k1" using gen_psn [OF g] by auto
    obtain c1 w1 res where call: "ConnectRdmaPeer L rpc peer name (Qpn qp) (cx_local_gid ctx) psn
        (case rm_memory mgr of Some mem \<Rightarrow> GetDefaultRKey mem (cx_name ctx) | None \<Rightarrow> 0) c w = Inr (c1, w1, res)"
      and c1: "wf_Control L c1" "serving c1"
      and net: "w1 = w \<and> (\<exists>e. res = Inl e) \<or> (\<exists>addr q s r. rpc addr (ReqRdmaConn q) w = (w1, s, r) \<and> field 0 (pb_qpn q) = Qpn qp \<and>
        field [] (pb_gid q) = cx_local_gid ctx \<and> field 0 (pb_psn q) = psn \<and> (\<forall>x. res = Inr x \<longrightarrow> grpc_ok s \<and> r = RespRdmaConn x))"
      using connect_peer [OF c, of peer name "Qpn qp" "cx_local_gid ctx" psn
          "case rm_memory mgr of Some mem \<Rightarrow> GetDefaultRKey mem (cx_name ctx) | None \<Rightarrow> 0" w] by blast
    have b1: "both_ok dA RA FA dB RB FB conns qs k w1"
      using net b both_call(1) [OF b] by blast
    note ab = side_abandon [OF ok cd [unfolded Inr]]
    have "side_ok V dA RA FA ?qps (view (RdmaQPair_delete V qp k2))"
      "\<And>q. q \<in> set ?qps \<Longrightarrow> hw (RdmaQPair_delete V qp k2) (q_ptr q) = hw k (q_ptr q)"
      using ab(1) [of k2 "q_state qp"] ab(2) [of k2 _ "q_state qp"] same by simp_all
    then have stop: "both_ok dA RA FA dB RB FB conns qs (RdmaQPair_delete V qp k2) w1"
      by (intro both_same [OF b1]) auto
    note unf = connect_attempt_def cr Inr g call
    show ?thesis
    proof (cases res)
      case (Inl e)
      then show ?thesis using stop c1 by (simp add: unf)
    next
      case res: (Inr resp)
      show ?thesis
      proof (cases "length (field [] (pb_resp_gid resp)) = 16")
        case False
        then show ?thesis using stop c1 by (simp add: unf res)
      next
        case True
        obtain s qp1 k3 where con: "QPair_Connect V (field 0 (pb_resp_qpn resp)) (field [] (pb_resp_gid resp))
            (field 0 (pb_resp_psn resp)) psn qp k2 = (s, qp1, k3)" by (metis prod_cases3)
        note sc = side_connect [OF ok cd [unfolded Inr] same con]
        show ?thesis
        proof (cases "s = OkStatus")
          case False
          then have "both_ok dA RA FA dB RB FB conns qs (RdmaQPair_delete V qp1 k3) w1"
            using sc(2) by (intro both_same [OF b1]) auto
          then show ?thesis using False c1 True by (simp add: unf res con)
        next
          case ok1: True
          obtain cn where cn: "connect_attempt V rng L rpc peer mgr ctx name c k w = Inr (Some cn, c1, k3, w1)" "cn_qp cn = qp1"
            using True ok1 by (simp add: unf res con)
          obtain qb where qb: "inbound_rdma_qps (mgr_of w1) = inbound_rdma_qps (mgr_of w) @ [qb]"
              "q_ptr qb \<notin> q_ptr ` set (inbound_rdma_qps (mgr_of w))" "IsConnected qb"
              "field 0 (pb_resp_qpn resp) = Qpn qb" "field [] (pb_resp_gid resp) = cx_local_gid (the (q_ctx qb))"
              "linked (hw (k_of w1) (q_ptr qb)) (Qpn qp) (cx_local_gid ctx) psn (field 0 (pb_resp_psn resp))"
            using net res both_call(2) [OF b] by (metis Inr_not_Inl)
          have qs: "set qs \<subseteq> set (inbound_rdma_qps (mgr_of w))" using b by (simp add: both_ok_def)
          have pair: "paired qp1 (hw k3 (q_ptr qp1)) qb (hw (k_of w1) (q_ptr qb))"
            using sc(1) [OF ok1] qb(3-6) by (simp add: paired_def linked_def)
          have "both_ok dA RA FA dB RB FB (conns @ [cn]) (qs @ [qb]) k3 w1"
            using b1 sc(1) [OF ok1] qb(1, 2) qs pair cn(2) both_pairs [OF b1, of k3]
            by (auto simp: both_ok_def intro!: list_all2_appendI)
          then show ?thesis using cn(1) c1 by auto
        qed
      qed
    qed
  qed
qed

lemma loop_ok:
  assumes "both_ok dA RA FA dB RB FB conns qs k w" "wf_Control L c" "serving c" "rd_ctxs dA \<noteq> []" "remotes \<noteq> []"
    "int (length conns) < num"
  shows "\<exists>conns' c' k' w' qs'. connect_loop V rng L rpc peer mgr (rd_ctxs dA) remotes num i n conns c k w = Inr (conns', c', k', w') \<and>
    wf_Control L c' \<and> serving c' \<and> int (length conns') \<le> num \<and> both_ok dA RA FA dB RB FB conns' qs' k' w'"
  using assms
proof (induction n arbitrary: i conns qs c k w)
  case 0
  then show ?case by fastforce
next
  case (Suc n)
  let ?ctx = "rd_ctxs dA ! (i mod length (rd_ctxs dA))" and ?remote = "remotes ! (i mod length remotes)"
  have idx: "i mod length (rd_ctxs dA) < length (rd_ctxs dA)" "i mod length remotes < length remotes"
    using Suc.prems(4, 5) by simp_all
  obtain o' c1 k1 w1 where a: "connect_attempt V rng L rpc peer mgr ?ctx (nic_name ?remote) c k w = Inr (o', c1, k1, w1)"
    and c1: "wf_Control L c1" "serving c1"
    and o': "case o' of None \<Rightarrow> both_ok dA RA FA dB RB FB conns qs k1 w1
      | Some cn \<Rightarrow> \<exists>q. both_ok dA RA FA dB RB FB (conns @ [cn]) (qs @ [q]) k1 w1"
    using attempt_ok [OF Suc.prems(1) nth_mem [OF idx(1)] Suc.prems(2, 3), of peer mgr "nic_name ?remote"] by blast
  show ?case
  proof (cases o')
    case None
    then show ?thesis
      using Suc.IH [OF _ c1 Suc.prems(4-6), of qs k1 w1 "Suc i"] o' a idx by simp
  next
    case (Some cn)
    then obtain q where q: "both_ok dA RA FA dB RB FB (conns @ [cn]) (qs @ [q]) k1 w1" using o' by auto
    show ?thesis
    proof (cases "num \<le> int (length (conns @ [cn]))")
      case True
      moreover have "int (length (conns @ [cn])) \<le> num" using Suc.prems(6) by simp
      ultimately show ?thesis
        using a Some idx q c1 by auto
    next
      case False
      then show ?thesis
        using Suc.IH [OF q c1 Suc.prems(4, 5), of "Suc i"] a idx Some by simp
    qed
  qed
qed

lemma host_info_quiet:
  assumes "GetPeerHostInfo L rpc peer c w = Inr (c', w', r)"
  shows "mgr_of w' = mgr_of w" "k_of w' = k_of w"
proof -
  have quiet: "mgr_of (fst (rpc addr (ReqHostInfo h) w)) = mgr_of w \<and> k_of (fst (rpc addr (ReqHostInfo h) w)) = k_of w" for addr h
    using served [of addr "ReqHostInfo h" w] by (cases "rpc addr (ReqHostInfo h) w") auto
  have "mgr_of w2 = mgr_of w \<and> k_of w2 = k_of w" if "sendRequest L rpc peer (ReqHostInfo h) c w = Inr (c2, w2, x)" for h c2 w2 x
    using that quiet by (auto simp: sendRequest_def SendUnary_def res_simps case_prod_beta Let_def split: if_splits)
  moreover have "w' = w \<or> (\<exists>h c2 x. sendRequest L rpc peer (ReqHostInfo h) c w = Inr (c2, w', x))"
  proof -
    obtain ok self where ser: "Serialize_HostInfo L (ctl_self c) pb_HostInfo_new = (ok, self)" by force
    show ?thesis
    proof (cases "sendRequest L rpc peer (ReqHostInfo self) c w")
      case (Inl e)
      then show ?thesis
        using assms by (auto simp: GetPeerHostInfo_def ser split: if_splits option.splits)
    next
      case (Inr t)
      obtain c2 w2 x where t: "t = (c2, w2, x)" by (metis prod_cases3)
      have "w' = w \<or> w' = w2"
        using assms Inr t
        by (cases x; cases "map_of (peer_hosts c) peer"; cases "projr x")
           (auto simp: GetPeerHostInfo_def ser res_simps case_prod_beta Let_def split: if_splits)
      then show ?thesis using Inr t by blast
    qed
  qed
  ultimately show "mgr_of w' = mgr_of w" "k_of w' = k_of w"
    by auto
qed

lemma connect_pairs:
  assumes A: "side_ok V dA RA FA [] (view k)" "rm_device mgr = Some dA"
    and B: "side_ok V dB RB FB (inbound_rdma_qps (mgr_of w)) (view (k_of w))" "rm_device (mgr_of w) = Some dB"
    and info: "GetPeerHostInfo L rpc peer c w = Inr (c1, w1, info)" "wf_Control L c1" "serving c1" and num: "0 < num"
  shows "\<exists>conns c' k' w' qs. Rdma_Connect V rng L rpc peer num mgr c k w = Inr (conns, c', k', w') \<and>
    int (length conns) \<le> num \<and> both_ok dA RA FA dB RB FB conns qs k' w'"
proof -
  have b: "both_ok dA RA FA dB RB FB [] [] k w1"
    using A B host_info_quiet [OF info(1)] by (simp add: both_ok_def)
  have b0: "both_ok dA RA FA dB RB FB [] [] k w"
    using A B by (simp add: both_ok_def)
  show ?thesis
  proof (cases "rd_ctxs dA = []")
    case True
    then show ?thesis
      using b0 num by (auto simp: Rdma_Connect_def A(2))
  next
    case dA: False
    show ?thesis
    proof (cases info)
      case (Inl e)
      then show ?thesis
        using b num dA by (auto simp: Rdma_Connect_def A(2) info(1))
    next
      case (Inr h)
      let ?remotes = "filter (\<lambda>nic. nic_type nic = kRDMA) (data_plane_listeners h)"
      show ?thesis
      proof (cases "?remotes = []")
        case True
        then show ?thesis
          using b num dA by (auto simp: Rdma_Connect_def A(2) info(1) Inr)
      next
        case False
        then show ?thesis
          using loop_ok [OF b info(2, 3) dA False, of num peer mgr 0 "nat (2 * num)"] num dA
          by (auto simp: Rdma_Connect_def A(2) info(1) Inr Let_def)
      qed
    qed
  qed
qed

end

section \<open>The peer's control plane as network\<close>

text \<open>
  A peer with its control plane, its RDMA manager and its driver. A call runs the service method of the
  peer's control plane, with \<^verbatim>\<open>handleConnect\<close> of its manager as the handler of connection requests.
\<close>

record 'k rdma_host =
  rh_ctl :: Control
  rh_mgr :: RdmaManager
  rh_k :: 'k

definition coded :: "absl_status \<Rightarrow> coded_status" where
  "coded s = (if s = OkStatus then ok_status else InternalError [])"

definition serve_rpc :: "'k verbs \<Rightarrow> ('k \<Rightarrow> u32 \<times> 'k) \<Rightarrow> 'a text_lib_scheme \<Rightarrow> 'k rdma_host rpc" where
  "serve_rpc V rng L addr m w = (let refused = (w, \<lparr>gs_code = 14, gs_message = [], gs_details = []\<rparr>, RespNotSet) in
     case grpc_server (rh_ctl w) of
       None \<Rightarrow> refused
     | Some server \<Rightarrow>
         if Endpoint_ToString L (control_plane_listener (ctl_self (rh_ctl w))) \<noteq> addr \<or> \<not> serving (rh_ctl w) then refused
         else (case m of
             ReqRdmaConn q \<Rightarrow> (case handleConnect V rng q (Some (mutable_rdma_conn_resp RespNotSet)) (rh_mgr w) (rh_k w) of
                 Inl _ \<Rightarrow> refused
               | Inr (st, resp, mgr', k') \<Rightarrow>
                   (case ProcessUnary L ((rh_ctl w)\<lparr>rdma_conn_handler := Some (\<lambda>_ _. (coded st, the resp))\<rparr>) server m RespNotSet of
                      Inr (c', s, Some r) \<Rightarrow> (\<lparr>rh_ctl = c', rh_mgr = mgr', rh_k = k'\<rparr>, s, r)
                    | _ \<Rightarrow> refused))
           | _ \<Rightarrow> (case ProcessUnary L (rh_ctl w) server m RespNotSet of
                 Inr (c', s, Some r) \<Rightarrow> (w\<lparr>rh_ctl := c'\<rparr>, s, r)
               | _ \<Rightarrow> refused)))"

lemma serve_rdma:
  assumes "ProcessUnary L (c\<lparr>rdma_conn_handler := Some (\<lambda>_ _. (coded st, x))\<rparr>) server (ReqRdmaConn q) RespNotSet = Inr (c', s, Some r)"
    and "serving c" "grpc_ok s"
  shows "st = OkStatus \<and> r = RespRdmaConn x"
  using assms by (auto simp: ProcessUnary_def handleAllRequest_def handleRdmaConnect_def isServing_def set_response_def Let_def
      coded_def Status_ok_def InternalError_def ok_status_def ToGrpcStatus_def grpc_ok_def res_simps split: if_splits)

text \<open>A connection request the handler has answered with success comes back as that answer.\<close>

lemma handle_resp: "handleConnect V rng q (Some r) mgr k = Inr (OkStatus, resp, mgr', k') \<Longrightarrow> resp \<noteq> None"
proof (cases "rm_device mgr")
  case (Some dev)
  assume h: "handleConnect V rng q (Some r) mgr k = Inr (OkStatus, resp, mgr', k')"
  then obtain ctx where "GetContext dev (field [] (pb_device_name q)) = Some ctx" "length (field [] (pb_gid q)) = 16"
    by (auto simp: handleConnect_def Some split: if_splits option.splits)
  moreover from this obtain qo k1 where "RdmaQPair_Create V (Some ctx) QpOptions_default k = Inr (qo, k1)"
    using h by (auto simp: handleConnect_def Some res_simps)
  ultimately show "resp \<noteq> None"
    using h by (cases qo) (auto simp: handleConnect_def Some Let_def case_prod_beta split: if_splits option.splits)
qed (simp add: handleConnect_def)

definition soft_rng :: "soft_hca \<Rightarrow> u32 \<times> soft_hca" where
  "soft_rng k = (0x12345678 * of_nat (length (sv_qps k)), k)"

interpretation pair: rdma_pair "soft_verbs names" sv_view sv_hw soft_rng "serve_rpc (soft_verbs names) soft_rng L" rh_mgr rh_k
  for names and L :: "'a text_lib_scheme"
proof (unfold_locales, goal_cases)
  case (1 k x k')
  then show ?case by (auto simp: soft_rng_def)
next
  case (2 addr m w w' s r)
  let ?V = "soft_verbs names"
  have empty: "mutable_rdma_conn_resp RespNotSet = no_resp" by (simp add: mutable_rdma_conn_resp_def no_resp_def)
  show ?case
  proof (cases "\<exists>q. m = ReqRdmaConn q")
    case False
    then have "rh_mgr w' = rh_mgr w \<and> rh_k w' = rh_k w"
      using 2 by (auto simp: serve_rpc_def Let_def split: option.splits if_splits pb_ReqMsg.splits sum.splits prod.splits)
    then show ?thesis using False by auto
  next
    case True
    then obtain q where m: "m = ReqRdmaConn q" by auto
    show ?thesis
    proof (cases "w' = w \<and> \<not> grpc_ok s")
      case True
      then show ?thesis by auto
    next
      case False
      then obtain server st resp mgr' k' c' where *: "serving (rh_ctl w)"
        "handleConnect ?V soft_rng q (Some no_resp) (rh_mgr w) (rh_k w) = Inr (st, resp, mgr', k')"
        "ProcessUnary L ((rh_ctl w)\<lparr>rdma_conn_handler := Some (\<lambda>_ _. (coded st, the resp))\<rparr>) server m RespNotSet = Inr (c', s, Some r)"
        "w' = \<lparr>rh_ctl = c', rh_mgr = mgr', rh_k = k'\<rparr>"
        using 2 by (auto simp: serve_rpc_def m empty grpc_ok_def Let_def split: option.splits if_splits sum.splits prod.splits)
      have "st = OkStatus \<and> (\<forall>x. r = RespRdmaConn x \<longrightarrow> resp = Some x)" if "grpc_ok s"
        using serve_rdma [OF *(3) [unfolded m] *(1) that] handle_resp *(2) by fastforce
      then show ?thesis using m * by auto
    qed
  qed
qed

section \<open>Properties\<close>

text \<open>
  C9. Connecting over RDMA. For every network that delivers a call at most once and returns the answers of the
  peer's handler, whatever calls fail or lose their answer: \<^verbatim>\<open>Connect\<close> returns without a fault, at most as many
  connections as asked for; each is connected and has its own queue pair among the inbound ones of the peer, in
  state RTS in both adapters, with each holding the other's number, GID and starting sequence numbers;
  and the driver's objects are those of the returned connections beside the ones that existed, so failed
  attempts leave none behind on the asking side.
\<close>

theorem rdma_connections_paired:
  assumes "rdma_pair V view hw rng rpc mgr_of k_of"
    and "side_ok V dA RA FA [] (view k)" "rm_device mgr = Some dA"
    and "side_ok V dB RB FB (inbound_rdma_qps (mgr_of w)) (view (k_of w))" "rm_device (mgr_of w) = Some dB"
    and "GetPeerHostInfo L rpc peer c w = Inr (c1, w1, info)" "wf_Control L c1" "serving c1" "0 < num"
  shows "\<exists>conns c' k' w' qs. Rdma_Connect V rng L rpc peer num mgr c k w = Inr (conns, c', k', w') \<and> int (length conns) \<le> num \<and>
    side_ok V dA RA FA (map cn_qp conns) (view k') \<and>
    distinct (map q_ptr qs) \<and> set qs \<subseteq> set (inbound_rdma_qps (mgr_of w')) \<and>
    list_all2 (\<lambda>cn q. paired (cn_qp cn) (hw k' (q_ptr (cn_qp cn))) q (hw (k_of w') (q_ptr q))) conns qs"
  using rdma_pair.connect_pairs [OF assms(1-8), OF assms(9)] unfolding rdma_pair.both_ok_def [OF assms(1)] by blast

section \<open>Instance\<close>

text \<open>Two hosts with two adapters each; the asking one knows the description of the other.\<close>

definition hs_host :: HostInfo where
  "hs_host = \<lparr>control_plane_listener = \<lparr>ep_ip = IPv4 0x0200000A, ep_port = 7\<rparr>,
     data_plane_listeners = [
       \<lparr>nic_name = ''mlx5_0'', nic_type = kRDMA, endpoints = [\<lparr>ep_ip = IPv6 1, ep_port = 1\<rparr>]\<rparr>,
       \<lparr>nic_name = ''mlx5_1'', nic_type = kRDMA, endpoints = [\<lparr>ep_ip = IPv6 2, ep_port = 1\<rparr>]\<rparr>]\<rparr>"

definition hs_mgr :: RdmaManager where
  "hs_mgr = \<lparr>rm_config = \<lparr>transport_type = kRdma, num_conns_per_peer = 2, require_dataplane_encryption = False\<rparr>,
     rm_self = hs_host, rm_device = Some mp_dev, rm_memory = Some mp_mem, inbound_rdma_qps = []\<rparr>"

definition hs_ctl :: Control where
  "hs_ctl = (demo_control demo_host)\<lparr>peer_hosts := [(control_plane_listener hs_host, hs_host)]\<rparr>"

definition hs_peer :: "soft_hca rdma_host" where
  "hs_peer = \<lparr>rh_ctl = demo_control hs_host, rh_mgr = hs_mgr, rh_k = mp_k1\<rparr>"

definition hs_lib :: text_lib where
  "hs_lib = \<lparr>inet_pton4 = \<lambda>_. None, inet_pton6 = \<lambda>_. None, inet_ntop4 = \<lambda>_. Some ''10.0.0.2'', inet_ntop6 = \<lambda>_. None,
     getaddrinfo = \<lambda>_ _ _. (EAI_NONAME, []), SimpleAtoi = \<lambda>_. None, StrCat_nat = \<lambda>_. ''7'', StrSplit = \<lambda>_ s. [s],
     StrSplitMax = \<lambda>_ _ s. [s], StripAsciiWhitespace = \<lambda>s. s, EqualsIgnoreCase = (=)\<rparr>"

definition hs_run :: "(RdmaConn list \<times> Control \<times> soft_hca \<times> soft_hca rdma_host) res" where
  "hs_run = Rdma_Connect mp_V soft_rng hs_lib (serve_rpc mp_V soft_rng hs_lib) (control_plane_listener hs_host) 2
     hs_mgr hs_ctl mp_k1 hs_peer"

lemma hs_host_ok: "HostInfo_IsValid hs_host"
proof -
  have "\<not> IN6_IS_ADDR_UNSPECIFIED 1" "\<not> IN6_IS_ADDR_UNSPECIFIED 2" by code_simp+
  then show ?thesis
    by (simp add: hs_host_def HostInfo_IsValid_def HostInfo_IsDataPlaneValid_def Let_def HasZeroIpAddr_def
        IsZero_def HasNonzeroIpPort_def NicInfo_IsValid_def)
qed

lemma hs_connects: "(case hs_run of Inr (conns, _) \<Rightarrow> length conns = 2 | Inl _ \<Rightarrow> False)"
  by code_simp

lemma hs_side: "side_ok mp_V mp_dev (dev_objs (rd_ctxs mp_dev)) {} [] (sv_view mp_k1)"
proof -
  have "DeviceContext (ic_ptr (the (cx_ctx cx))) \<in> objs (dev_objs ctxs) \<and> Pd (the (cx_pd cx)) \<in> objs (dev_objs ctxs)"
    if "cx \<in> set ctxs" for cx ctxs
    using that by (induction ctxs) (auto simp: cx_objs_def Let_def)
  then show ?thesis using mp_device by (simp add: side_ok_def)
qed

lemma hs_ctl_ok: "wf_Control L hs_ctl" "serving hs_ctl"
  "GetPeerHostInfo L rpc (control_plane_listener hs_host) hs_ctl w = Inr (hs_ctl, w, Inr hs_host)"
  using demo_control_ok [OF demo_host_ok(1), of L] hs_host_ok HostInfo_listener [OF hs_host_ok]
  by (simp_all add: hs_ctl_def wf_Control_def Control_invariant_def GetPeerHostInfo_def wf_map_def)

theorem rdma_connections_paired_witness:
  "\<exists>conns c' k' w' qs. hs_run = Inr (conns, c', k', w') \<and> length conns = 2 \<and> distinct (map q_ptr qs) \<and>
     set qs \<subseteq> set (inbound_rdma_qps (rh_mgr w')) \<and>
     list_all2 (\<lambda>cn q. paired (cn_qp cn) (sv_hw k' (q_ptr (cn_qp cn))) q (sv_hw (rh_k w') (q_ptr q))) conns qs"
proof -
  have net: "rdma_pair mp_V sv_view sv_hw soft_rng (serve_rpc mp_V soft_rng hs_lib) rh_mgr rh_k"
    unfolding mp_V_def by (rule pair.rdma_pair_axioms)
  have mgr: "rm_device hs_mgr = Some mp_dev" "rm_device (rh_mgr hs_peer) = Some mp_dev"
    "inbound_rdma_qps (rh_mgr hs_peer) = []" "rh_k hs_peer = mp_k1"
    by (simp_all add: hs_mgr_def hs_peer_def)
  have B: "side_ok mp_V mp_dev (dev_objs (rd_ctxs mp_dev)) {} (inbound_rdma_qps (rh_mgr hs_peer)) (sv_view (rh_k hs_peer))"
    using hs_side by (simp add: mgr)
  have "(0 :: int) < 2" by simp
  from rdma_connections_paired [OF net hs_side mgr(1) B mgr(2) hs_ctl_ok(3, 1, 2) this]
  obtain conns c' k' w' qs where r: "hs_run = Inr (conns, c', k', w')" and "distinct (map q_ptr qs)"
    "set qs \<subseteq> set (inbound_rdma_qps (rh_mgr w'))"
    "list_all2 (\<lambda>cn q. paired (cn_qp cn) (sv_hw k' (q_ptr (cn_qp cn))) q (sv_hw (rh_k w') (q_ptr q))) conns qs"
    unfolding hs_run_def by blast
  moreover have "length conns = 2" using hs_connects unfolding r sum.case prod.case .
  ultimately show ?thesis by blast
qed

end
