(* ===== verification/RdmaChannel.thy ===== *)
theory RdmaChannel
  imports RdmaQPair TransferLayer
begin

text \<open>
  \<^verbatim>\<open>channel/channel_rdma\<close>: a channel that writes a chunk into the memory of the peer by a one-sided RDMA
  write. The atomic flag \<^verbatim>\<open>is_shutdown_\<close> is read through the parameter \<open>stopped\<close>, since another thread may set it
  while the completion queue is polled. A poll loop that does not end has the value \<open>None\<close>. \<^verbatim>\<open>wr_id\<close>,
  the address of the channel, comes back only in a completion, where nothing reads it, and is left out.
\<close>

record RdmaChannel =
  rch_rdma :: RdmaConn

definition RdmaChannel_new :: "RdmaConn option \<Rightarrow> RdmaChannel res" where
  "RdmaChannel_new rdma = dcheck (rdma \<noteq> None) (Inr \<lparr>rch_rdma = the rdma\<rparr>)"

text \<open>\<open>was\<close> is the value of the flag before \<^verbatim>\<open>exchange(true)\<close>.\<close>

definition RdmaChannel_Shutdown :: "'k verbs \<Rightarrow> bool \<Rightarrow> RdmaChannel \<Rightarrow> 'k \<Rightarrow> 'k" where
  "RdmaChannel_Shutdown V was ch k =
     (if was then k
      else case q_qp (cn_qp (rch_rdma ch)) of
          None \<Rightarrow> k
        | Some q \<Rightarrow> snd (v_modify_qp V (qp_ptr q) (ibv_qp_attr_zero\<lparr>qa_state := IBV_QPS_ERR\<rparr>) [IBV_QP_STATE] k))"

definition RdmaChannel_Read :: "IoVec list \<Rightarrow> int" where
  "RdmaChannel_Read iovecs = - 1"

partial_function (option) poll_send :: "'k verbs \<Rightarrow> ('k \<Rightarrow> bool) \<Rightarrow> nat \<Rightarrow> 'k \<Rightarrow> ((int \<times> int) \<times> 'k) option" where
  "poll_send V stopped cq k = (case v_poll_cq V cq k of ((ret, status), k1) \<Rightarrow>
     if ret = 0 \<and> \<not> stopped k1 then poll_send V stopped cq k1 else Some ((ret, status), k1))"

definition rdma_write_wr :: "RdmaConn \<Rightarrow> DataHeader \<Rightarrow> IoVec \<Rightarrow> ibv_send_wr" where
  "rdma_write_wr rdma chunk payload =
     \<lparr>wr_sges = (if 0 < iov_len payload then [(iov_base payload, ucast (iov_len payload), cn_lkey rdma)] else []),
      wr_opcode = IBV_WR_RDMA_WRITE, wr_send_flags = IBV_SEND_SIGNALED, wr_remote_addr = dh_raddr chunk,
      wr_remote_rkey = cn_rkey rdma\<rparr>"

definition RdmaChannel_Write :: "'k verbs \<Rightarrow> fb_abi \<Rightarrow> ('k \<Rightarrow> bool) \<Rightarrow> memory \<Rightarrow> IoVec list \<Rightarrow> RdmaChannel \<Rightarrow> 'k \<Rightarrow> (int \<times> 'k) option res" where
  "RdmaChannel_Write V fb stopped mem iovecs ch k =
     (let rdma = rch_rdma ch in
      if stopped k then Inr (Some (- 1, k))
      else case q_qp (cn_qp rdma) of
        None \<Rightarrow> Inr (Some (- 1, k))
      | Some qp \<Rightarrow> (case iovecs of
          [hdr, payload] \<Rightarrow>
            rbind (Deserialize_Data fb (mem_read (iov_base hdr) (unat (iov_len hdr)) mem) DataHeader_zero) (\<lambda>(ok, chunk).
              if \<not> ok \<or> \<not> IsData chunk then Inr (Some (- 1, k))
              else if 0xFFFFFFFF < iov_len payload then Inr (Some (- 1, k))
              else (case v_post_send V (qp_ptr qp) (rdma_write_wr rdma chunk payload) k of
                  (False, k1) \<Rightarrow> Inr (Some (- 1, k1))
                | (True, k1) \<Rightarrow> (case q_cq (cn_qp rdma) of
                      None \<Rightarrow> Inr (Some (- 1, k1))
                    | Some cq \<Rightarrow> Inr (case poll_send V stopped cq k1 of
                          None \<Rightarrow> None
                        | Some ((ret, status), k2) \<Rightarrow>
                            if ret < 0 then Some (- 1, k2)
                            else if stopped k2 then Some (- 1, k2)
                            else if status \<noteq> IBV_WC_SUCCESS then Some (- 1, k2)
                            else Some (sint (iov_len hdr + iov_len payload), k2)))))
        | _ \<Rightarrow> Inr (Some (- 1, k))))"

section \<open>Writes\<close>

text \<open>The driver after \<open>n\<close> polls that found nothing.\<close>

primrec after_polls :: "'k verbs \<Rightarrow> nat \<Rightarrow> nat \<Rightarrow> 'k \<Rightarrow> 'k" where
  "after_polls V cq 0 k = k"
| "after_polls V cq (Suc n) k = after_polls V cq n (snd (v_poll_cq V cq k))"

lemma poll_send_ends: "fst (fst (v_poll_cq V cq (after_polls V cq n k))) \<noteq> 0 \<Longrightarrow> poll_send V stopped cq k \<noteq> None"
proof (induction n arbitrary: k)
  case 0
  then show ?case by (subst poll_send.simps) (auto split: prod.splits)
next
  case (Suc n)
  obtain ret status k1 where p: "v_poll_cq V cq k = ((ret, status), k1)" by (metis prod.collapse)
  then have "poll_send V stopped cq k1 \<noteq> None" using Suc by simp
  then show ?case by (subst poll_send.simps) (simp add: p)
qed

lemma poll_send_result:
  assumes "poll_send V stopped cq k = Some ((ret, status), k')" "\<not> stopped k'" "0 \<le> ret"
  shows "0 < ret"
  using poll_send.raw_induct [where P = "\<lambda>V stopped cq k r. \<not> stopped (snd r) \<longrightarrow> 0 \<le> fst (fst r) \<longrightarrow> 0 < fst (fst r)", OF _ assms(1)]
    assms(2, 3) by (fastforce split: prod.splits if_splits)

text \<open>
  A write that does not report an error has posted one work request: the payload's address and its
  whole length, not cut to 32 bits, to the address in the header, and a completion was found that
  reports success. Otherwise it returns -1; a channel that is shut down and input that is not a header
  and a payload never reach the adapter.
\<close>

theorem rdma_write_exact:
  assumes "RdmaChannel_Write V fb stopped mem iovecs ch k = Inr (Some (n, k'))" "n \<noteq> - 1"
  shows "\<exists>hdr payload chunk qp cq k1 ret. iovecs = [hdr, payload] \<and> q_qp (cn_qp (rch_rdma ch)) = Some qp \<and> \<not> stopped k \<and>
    Deserialize_Data fb (mem_read (iov_base hdr) (unat (iov_len hdr)) mem) DataHeader_zero = Inr (True, chunk) \<and> IsData chunk \<and>
    v_post_send V (qp_ptr qp) (rdma_write_wr (rch_rdma ch) chunk payload) k = (True, k1) \<and>
    unat (ucast (iov_len payload) :: u32) = unat (iov_len payload) \<and>
    poll_send V stopped cq k1 = Some ((ret, IBV_WC_SUCCESS), k') \<and> 0 < ret \<and> n = sint (iov_len hdr + iov_len payload)"
proof -
  obtain qp where qp: "q_qp (cn_qp (rch_rdma ch)) = Some qp" "\<not> stopped k"
    using assms by (auto simp: RdmaChannel_Write_def Let_def split: if_splits option.splits)
  have "\<exists>hdr payload. iovecs = [hdr, payload]"
    using assms qp by (auto simp: RdmaChannel_Write_def Let_def split: list.splits)
  then obtain hdr payload where io: "iovecs = [hdr, payload]" by blast
  obtain ok chunk where d: "Deserialize_Data fb (mem_read (iov_base hdr) (unat (iov_len hdr)) mem) DataHeader_zero = Inr (ok, chunk)"
    using assms(1) by (auto simp: RdmaChannel_Write_def Let_def qp io res_simps)
  then have hdr: "ok" "IsData chunk" "\<not> 0xFFFFFFFF < iov_len payload"
    using assms by (auto simp: RdmaChannel_Write_def Let_def qp io split: if_splits)
  obtain posted k1 where post: "v_post_send V (qp_ptr qp) (rdma_write_wr (rch_rdma ch) chunk payload) k = (posted, k1)" by force
  have p: "posted" using assms d hdr post by (cases posted) (auto simp: RdmaChannel_Write_def Let_def qp io)
  obtain cq where cq: "q_cq (cn_qp (rch_rdma ch)) = Some cq"
    using assms d hdr post p by (auto simp: RdmaChannel_Write_def Let_def qp io split: option.splits)
  obtain ret status k2 where poll: "poll_send V stopped cq k1 = Some ((ret, status), k2)"
    using assms d hdr post p cq by (auto simp: RdmaChannel_Write_def Let_def qp io split: option.splits)
  then have r: "\<not> ret < 0" "\<not> stopped k2" "status = IBV_WC_SUCCESS" "k' = k2" "n = sint (iov_len hdr + iov_len payload)"
    using assms d hdr post p cq by (auto simp: RdmaChannel_Write_def Let_def qp io split: if_splits)
  have "unat (iov_len payload) \<le> 0xFFFFFFFF"
    using hdr(3) by (simp add: word_le_nat_alt not_less)
  then have "unat (ucast (iov_len payload) :: u32) = unat (iov_len payload)"
    by (simp add: unat_ucast_mod)
  moreover have "0 < ret" using poll_send_result [OF poll r(2)] r(1) by simp
  moreover have "Deserialize_Data fb (mem_read (iov_base hdr) (unat (iov_len hdr)) mem) DataHeader_zero = Inr (True, chunk)"
    "v_post_send V (qp_ptr qp) (rdma_write_wr (rch_rdma ch) chunk payload) k = (True, k1)"
    "poll_send V stopped cq k1 = Some ((ret, IBV_WC_SUCCESS), k')"
    using d hdr(1) post p poll r by simp_all
  ultimately show ?thesis using qp io hdr(2) r(5) by blast
qed

end
