(* ===== verification/EngineHelper.thy ===== *)
theory EngineHelper
  imports TcpSystem SocketChannel RdmaManager RdmaChannel
begin

text \<open>
  \<^verbatim>\<open>engine/engine_helper\<close> and \<^verbatim>\<open>channel/channel_util\<close>: the channels an engine gets, by connecting to a peer whose
  description comes from the control plane, or by accepting. The helper composes the TCP manager, the RDMA
  manager and the control plane; the thread it starts for the TCP manager is the one of \<open>TcpSystem\<close>. The
  kernel \<open>'k\<close>, the RDMA driver \<open>'v\<close> and the network \<open>'w\<close> are states of their own. Metrics and trace recorder are
  in \<open>Env\<close>.
\<close>

datatype helper_channel = TcpCh SockChannel | RdmaCh RdmaChannel

record EngineHelper =
  eh_config :: Config
  eh_self :: HostInfo
  eh_tcp :: TcpManager
  eh_rdma :: "RdmaManager option"

definition EngineHelper_invariant :: "EngineHelper \<Rightarrow> bool" where
  "EngineHelper_invariant eh \<longleftrightarrow> Config_IsValid (eh_config eh) \<and> HostInfo_IsDataPlaneValid (eh_self eh)"

definition CreateTcpChannel :: "'k sock_os \<Rightarrow> Sock \<Rightarrow> 'k \<Rightarrow> SockChannel res" where
  "CreateTcpChannel os socket k = SockChannel_new os socket k"

definition CreateRdmaChannel :: "RdmaConn \<Rightarrow> RdmaChannel res" where
  "CreateRdmaChannel conn = RdmaChannel_new (Some conn)"

section \<open>Creation\<close>

text \<open>The destructor of a TCP manager that never ran closes its sockets and the epoll descriptor.\<close>

definition EngineHelper_Create :: "'a inet_lib_scheme \<Rightarrow> nic_os \<Rightarrow> 'k sock_os \<Rightarrow> 'k event_os \<Rightarrow> 'v verbs \<Rightarrow> ibdev_fs \<Rightarrow> RdmaConnHandler \<Rightarrow>
    Config \<Rightarrow> HostInfo \<Rightarrow> Control \<Rightarrow> 'k \<Rightarrow> 'v \<Rightarrow> (EngineHelper option \<times> HostInfo \<times> Control \<times> 'k \<times> 'v) res" where
  "EngineHelper_Create L nos os ev V fs handler config self control k v = dcheck (Config_IsValid config)
     (let self0 = self\<lparr>data_plane_listeners := []\<rparr> in
      rbind (RdmaManager_Create V fs handler config self0 control v) (\<lambda>(rdma_mgr, self1, control1, v1).
        if rdma_mgr = None \<and> transport_type config = kRdma then Inr (None, self1, control1, k, v1)
        else
          let release = (\<lambda>c. case rdma_mgr of None \<Rightarrow> (c, v1) | Some r \<Rightarrow> RdmaManager_delete V r c v1) in
          rbind (TcpManager_Create L nos os ev self1 k) (\<lambda>((tcp_mgr, self2), k1). case tcp_mgr of
            None \<Rightarrow> (let (control2, v2) = release control1 in Inr (None, self2, control2, k1, v2))
          | Some m \<Rightarrow>
              if \<not> HostInfo_IsDataPlaneValid self2 then
                rbind (drop_socks os (mgr_socks m) k1) (\<lambda>k2. rbind (Poller_destroy os (tm_poller m) k2) (\<lambda>k3.
                  let (control2, v2) = release control1 in Inr (None, self2, control2, k3, v2)))
              else
                dcheck (\<not> require_dataplane_encryption config)
                  (let eh = \<lparr>eh_config = config, eh_self = self2, eh_tcp = m, eh_rdma = rdma_mgr\<rparr>
                   in dcheck (EngineHelper_invariant eh) (Inr (Some eh, self2, control1, k1, v1))))))"

text \<open>
  The body of the destructor; the members go after it: the thread of the TCP manager is joined, then the
  RDMA manager (\<open>RdmaManager_delete\<close>) and the TCP manager are deleted.
\<close>

definition EngineHelper_destroy :: "'k sock_os \<Rightarrow> EngineHelper \<Rightarrow> 'k \<Rightarrow> (EngineHelper \<times> 'k) res" where
  "EngineHelper_destroy os eh k = dcheck (EngineHelper_invariant eh)
     (rbind (Stop os (eh_tcp eh) k) (\<lambda>(m, k1). Inr (eh\<lparr>eh_tcp := m\<rparr>, k1)))"

section \<open>Accepting\<close>

text \<open>Sockets whose peer is unknown stay in the vector, which closes them at the end of the loop.\<close>

fun accepted_channels :: "'k sock_os \<Rightarrow> Sock list \<Rightarrow> 'k \<Rightarrow> (SockChannel list \<times> Sock list) res" where
  "accepted_channels os [] k = Inr ([], [])"
| "accepted_channels os (s # ss) k =
     (if \<not> HasNonzeroIpPort (PeerEndpoint os (sk_fd s) k)
      then rbind (accepted_channels os ss k) (\<lambda>(chs, rest). Inr (chs, s # rest))
      else rbind (CreateTcpChannel os s k) (\<lambda>ch. rbind (accepted_channels os ss k) (\<lambda>(chs, rest). Inr (ch # chs, rest))))"

definition GetAcceptedChannels :: "'k sock_os \<Rightarrow> EngineHelper \<Rightarrow> 'k \<Rightarrow> (SockChannel list \<times> EngineHelper \<times> 'k) res" where
  "GetAcceptedChannels os eh k =
     (let (sockets, m) = GetIncomingSockets (eh_tcp eh) in
      rbind (accepted_channels os sockets k) (\<lambda>(chs, rest).
        rbind (drop_socks os rest k) (\<lambda>k1. Inr (chs, eh\<lparr>eh_tcp := m\<rparr>, k1))))"

section \<open>Connecting\<close>

definition GetTcpListeners :: "HostInfo \<Rightarrow> Endpoint list" where
  "GetTcpListeners peer_info = concat (map endpoints (filter (\<lambda>nic. nic_type nic = kIP) (data_plane_listeners peer_info)))"

fun new_channels :: "'k sock_os \<Rightarrow> Sock list \<Rightarrow> 'k \<Rightarrow> SockChannel list res" where
  "new_channels os [] k = Inr []"
| "new_channels os (s # ss) k = rbind (CreateTcpChannel os s k) (\<lambda>ch. rbind (new_channels os ss k) (\<lambda>chs. Inr (ch # chs)))"

text \<open>The loop of \<^verbatim>\<open>connectTcp\<close>; \<open>r\<close> is \<^verbatim>\<open>2 * n - i\<close>.\<close>

fun connect_tcp_loop :: "'k sock_os \<Rightarrow> 'k event_os \<Rightarrow> bool \<Rightarrow> Endpoint list \<Rightarrow> int \<Rightarrow> nat \<Rightarrow> nat \<Rightarrow> SockChannel list \<Rightarrow> u64 \<Rightarrow> TcpManager \<Rightarrow> 'k \<Rightarrow>
    (SockChannel list \<times> u64 \<times> TcpManager \<times> 'k) res" where
  "connect_tcp_loop os ev encrypted peers n i 0 chs failures m k = Inr (chs, failures, m, k)"
| "connect_tcp_loop os ev encrypted peers n i (Suc r) chs failures m k =
     (if \<not> int (length chs) < n then Inr (chs, failures, m, k)
      else dcheck (\<not> encrypted)
        (rbind (vec_at peers (i mod length peers)) (\<lambda>peer.
           rbind (TcpManager_Connect os ev Endpoint_default peer True InfiniteDuration m k) (\<lambda>((ret, m1), k1).
             let failures1 = (if ret < 0 then failures + 1 else failures); (sockets, m2) = GetOutgoingSockets m1
             in rbind (new_channels os sockets k1) (\<lambda>new.
                  connect_tcp_loop os ev encrypted peers n (Suc i) r (chs @ new) failures1 m2 k1)))))"

definition connectTcp :: "'k sock_os \<Rightarrow> 'k event_os \<Rightarrow> 'a text_lib_scheme \<Rightarrow> 'w rpc \<Rightarrow> Endpoint \<Rightarrow> int \<Rightarrow> TraceContext \<Rightarrow> Handle \<Rightarrow>
    EngineHelper \<Rightarrow> Control \<Rightarrow> Env \<Rightarrow> 'k \<Rightarrow> 'w \<Rightarrow> (SockChannel list \<times> EngineHelper \<times> Control \<times> Env \<times> 'k \<times> 'w) res" where
  "connectTcp os ev L rpc peer_control n trace_ctx handle eh c env k w =
     rbind (GetPeerHostInfo L rpc peer_control c w) (\<lambda>(c1, w1, peer_info).
       let env1 = RecordGetPeerHostInfoDone trace_ctx handle env in
       case peer_info of
         Inl _ \<Rightarrow> Inr ([], eh, c1, env1, k, w1)
       | Inr info \<Rightarrow>
           let peers = GetTcpListeners info in
           if peers = [] then Inr ([], eh, c1, env1, k, w1)
           else rbind (connect_tcp_loop os ev (require_dataplane_encryption (eh_config eh)) peers n 0 (nat (2 * n)) [] 0 (eh_tcp eh) k)
             (\<lambda>(chs, failures, m, k1).
               let env2 = (if 0 < failures then env1\<lparr>env_metrics := (env_metrics env1)\<lparr>tcp_connect_failures :=
                     Counter_Add failures (tcp_connect_failures (env_metrics env1))\<rparr>\<rparr> else env1)
               in Inr (chs, eh\<lparr>eh_tcp := m\<rparr>, c1, env2, k1, w1)))"

fun rdma_channels :: "RdmaConn list \<Rightarrow> RdmaChannel list res" where
  "rdma_channels [] = Inr []"
| "rdma_channels (conn # conns) = rbind (CreateRdmaChannel conn) (\<lambda>ch. rbind (rdma_channels conns) (\<lambda>chs. Inr (ch # chs)))"

definition connectRdma :: "'v verbs \<Rightarrow> ('v \<Rightarrow> u32 \<times> 'v) \<Rightarrow> 'a text_lib_scheme \<Rightarrow> 'w rpc \<Rightarrow> Endpoint \<Rightarrow> int \<Rightarrow> EngineHelper \<Rightarrow> Control \<Rightarrow> 'v \<Rightarrow> 'w \<Rightarrow>
    (RdmaChannel list \<times> Control \<times> 'v \<times> 'w) res" where
  "connectRdma V rng L rpc peer_control n eh c v w = (case eh_rdma eh of
     None \<Rightarrow> Inr ([], c, v, w)
   | Some r \<Rightarrow> rbind (Rdma_Connect V rng L rpc peer_control n r c v w) (\<lambda>(conns, c1, v1, w1).
       rbind (rdma_channels conns) (\<lambda>chs. Inr (chs, c1, v1, w1))))"

definition EngineHelper_Connect :: "'k sock_os \<Rightarrow> 'k event_os \<Rightarrow> 'v verbs \<Rightarrow> ('v \<Rightarrow> u32 \<times> 'v) \<Rightarrow> 'a text_lib_scheme \<Rightarrow> 'w rpc \<Rightarrow> Endpoint \<Rightarrow>
    TraceContext \<Rightarrow> Handle \<Rightarrow> EngineHelper \<Rightarrow> Control \<Rightarrow> Env \<Rightarrow> 'k \<Rightarrow> 'v \<Rightarrow> 'w \<Rightarrow>
    (helper_channel list \<times> EngineHelper \<times> Control \<times> Env \<times> 'k \<times> 'v \<times> 'w) res" where
  "EngineHelper_Connect os ev V rng L rpc peer_control trace_ctx handle eh c env k v w =
     (let n = num_conns_per_peer (eh_config eh); env1 = RecordConnSetupStart trace_ctx handle n env in
      if transport_type (eh_config eh) = kRdma then
        rbind (connectRdma V rng L rpc peer_control n eh c v w) (\<lambda>(chs, c1, v1, w1).
          Inr (map RdmaCh chs, eh, c1, RecordConnSetupDone trace_ctx handle (length chs) env1, k, v1, w1))
      else
        rbind (connectTcp os ev L rpc peer_control n trace_ctx handle eh c env1 k w) (\<lambda>(chs, eh1, c1, env2, k1, w1).
          Inr (map TcpCh chs, eh1, c1, RecordConnSetupDone trace_ctx handle (length chs) env2, k1, v, w1)))"

section \<open>Memory\<close>

definition checkRdmaManager :: "EngineHelper \<Rightarrow> absl_status res" where
  "checkRdmaManager eh = dcheck (eh_rdma eh = None)
     (Inr (if transport_type (eh_config eh) = kRdma then FailedPreconditionStatus else OkStatus))"

definition Helper_RegisterMemory :: "'v verbs \<Rightarrow> u64 \<Rightarrow> u64 \<Rightarrow> EngineHelper \<Rightarrow> 'v \<Rightarrow> (absl_status \<times> EngineHelper \<times> 'v) res" where
  "Helper_RegisterMemory V addr len eh v = (case eh_rdma eh of
     Some r \<Rightarrow> (let (s, r1, v1) = Manager_RegisterMemory V addr len r v in Inr (s, eh\<lparr>eh_rdma := Some r1\<rparr>, v1))
   | None \<Rightarrow> rbind (checkRdmaManager eh) (\<lambda>s. Inr (s, eh, v)))"

definition Helper_UnregisterMemory :: "'v verbs \<Rightarrow> u64 \<Rightarrow> EngineHelper \<Rightarrow> 'v \<Rightarrow> (absl_status \<times> EngineHelper \<times> 'v) res" where
  "Helper_UnregisterMemory V addr eh v = (case eh_rdma eh of
     Some r \<Rightarrow> (let (s, r1, v1) = Manager_UnregisterMemory V addr r v in Inr (s, eh\<lparr>eh_rdma := Some r1\<rparr>, v1))
   | None \<Rightarrow> rbind (checkRdmaManager eh) (\<lambda>s. Inr (s, eh, v)))"

section \<open>Several channels at once\<close>

text \<open>\<^verbatim>\<open>Create\<close> of \<^verbatim>\<open>channel_util.cc\<close>: the loops over attempts and over the sockets an attempt gave.\<close>

fun util_collect :: "'k sock_os \<Rightarrow> int \<Rightarrow> Sock list \<Rightarrow> SockChannel list \<Rightarrow> 'k \<Rightarrow> (bool \<times> SockChannel list \<times> Sock list) res" where
  "util_collect os n [] chs k = Inr (False, chs, [])"
| "util_collect os n (s # ss) chs k = dcheck (MatchesBlocking os s k)
     (rbind (CreateTcpChannel os s k) (\<lambda>ch.
        if n \<le> int (length (chs @ [ch])) then Inr (True, chs @ [ch], ss) else util_collect os n ss (chs @ [ch]) k))"

fun util_loop :: "'k sock_os \<Rightarrow> 'k event_os \<Rightarrow> Endpoint \<Rightarrow> Endpoint \<Rightarrow> bool \<Rightarrow> int \<Rightarrow> nat \<Rightarrow> SockChannel list \<Rightarrow> TcpManager \<Rightarrow> 'k \<Rightarrow>
    (SockChannel list \<times> TcpManager \<times> 'k) res" where
  "util_loop os ev self peer blocking n 0 chs m k = Inr (chs, m, k)"
| "util_loop os ev self peer blocking n (Suc r) chs m k =
     rbind (TcpManager_Connect os ev self peer blocking InfiniteDuration m k) (\<lambda>((ret, m1), k1).
       let (sockets, m2) = GetOutgoingSockets m1 in
       rbind (util_collect os n sockets chs k1) (\<lambda>(full, chs1, rest).
         if full then rbind (drop_socks os rest k1) (\<lambda>k2. Inr (chs1, m2, k2))
         else util_loop os ev self peer blocking n r chs1 m2 k1))"

definition Create_channels :: "'k sock_os \<Rightarrow> 'k event_os \<Rightarrow> TcpManager \<Rightarrow> Endpoint \<Rightarrow> Endpoint \<Rightarrow> bool \<Rightarrow> int \<Rightarrow> 'k \<Rightarrow>
    (SockChannel list \<times> TcpManager \<times> 'k) res" where
  "Create_channels os ev m self peer blocking n k = dcheck (HasNonzeroIpPort peer) (dcheck (1 \<le> n)
     (util_loop os ev self peer blocking n (nat (2 * n)) [] m k))"

end
