(* ===== verification/Transport.thy ===== *)
theory Transport
  imports EngineHelper Posting
begin

text \<open>
  \<^verbatim>\<open>internal/transport_impl\<close>, \<^verbatim>\<open>api/transport_util\<close> and \<^verbatim>\<open>api/transport_registry\<close>: the public interface over the engine and the control
  plane. The description of the host is one object that transport, control plane, engine and helper share by
  reference; here each has a copy, and the copies are made equal where the code changes the object. The clock and
  the trace recorder of the helper are in the engine's \<open>Env\<close>. The random first ids of the engine are arguments.
\<close>

record 's TransportImpl =
  tp_config :: Config
  tp_self :: HostInfo
  tp_control :: Control
  tp_engine :: "'s Engine"
  tp_helper :: EngineHelper

section \<open>Creation\<close>

text \<open>\<^verbatim>\<open>Engine::Create\<close>; the engine comes with its helper.\<close>

definition Engine_Create :: "'a text_lib_scheme \<Rightarrow> nic_os \<Rightarrow> 'k sock_os \<Rightarrow> 'k event_os \<Rightarrow> 'v verbs \<Rightarrow> ibdev_fs \<Rightarrow> RdmaConnHandler \<Rightarrow>
    Handle \<Rightarrow> ReqId \<Rightarrow> Env \<Rightarrow> memory \<Rightarrow> Config \<Rightarrow> HostInfo \<Rightarrow> Control \<Rightarrow> bool \<Rightarrow> (Metadata \<Rightarrow> Metadata \<Rightarrow> addr_t) option \<Rightarrow> 'k \<Rightarrow> 'v \<Rightarrow>
    (('s Engine \<times> EngineHelper) option \<times> HostInfo \<times> Control \<times> 'k \<times> 'v) res" where
  "Engine_Create L nos os ev V fs handler h r env mem config self control post resolve k v =
     (if \<not> Config_IsValid config then Inr (None, self, control, k, v)
      else rbind (EngineHelper_Create L nos os ev V fs handler config self control k v) (\<lambda>(helper, self1, control1, k1, v1). case helper of
        None \<Rightarrow> Inr (None, self1, control1, k1, v1)
      | Some eh \<Rightarrow> dcheck (HostInfo_IsDataPlaneValid self1)
          (rbind (Engine_new config self1 h r post resolve env mem) (\<lambda>eng. Inr (Some (eng, eh), self1, control1, k1, v1)))))"

text \<open>
  When the control plane does not start, the engine that exists already is destroyed, first its helper, whose
  destructor stops the TCP manager.
\<close>

definition TransportImpl_Create :: "'a text_lib_scheme \<Rightarrow> nic_os \<Rightarrow> 'k sock_os \<Rightarrow> 'k event_os \<Rightarrow> 'v verbs \<Rightarrow> ibdev_fs \<Rightarrow> RdmaConnHandler \<Rightarrow>
    (string \<Rightarrow> int option) \<Rightarrow> Handle \<Rightarrow> ReqId \<Rightarrow> Env \<Rightarrow> memory \<Rightarrow> Config \<Rightarrow> Endpoint \<Rightarrow> SecurityCredentials \<Rightarrow> bool \<Rightarrow>
    (Metadata \<Rightarrow> Metadata \<Rightarrow> addr_t) option \<Rightarrow> 'k \<Rightarrow> 'v \<Rightarrow> ('s TransportImpl option \<times> 'k \<times> 'v) res" where
  "TransportImpl_Create L nos os ev V fs handler build h r env mem config endpoint creds post resolve k v =
     (if \<not> Config_IsValid config then Inr (None, k, v)
      else if HasZeroIpAddr endpoint then Inr (None, k, v)
      else if \<not> SecurityCredentials_IsValid creds then Inr (None, k, v)
      else
        let self = \<lparr>control_plane_listener = endpoint, data_plane_listeners = []\<rparr> in
        rbind (Control_Create config self creds) (\<lambda>control. case control of
          None \<Rightarrow> Inr (None, k, v)
        | Some c \<Rightarrow>
            rbind (Engine_Create L nos os ev V fs handler h r env mem config self c post resolve k v) (\<lambda>(engine, self1, c1, k1, v1).
              case engine of
                None \<Rightarrow> Inr (None, k1, v1)
              | Some (eng, eh) \<Rightarrow>
                  rbind (Control_Start L build (c1\<lparr>ctl_self := self1\<rparr>)) (\<lambda>(c2, started).
                    if \<not> started then rbind (EngineHelper_destroy os eh k1) (\<lambda>(_, k2). Inr (None, k2, v1))
                    else
                      let self2 = ctl_self c2 in
                      dcheck (HostInfo_IsValid self2)
                        (Inr (Some \<lparr>tp_config = config, tp_self = self2, tp_control = c2, tp_engine = eng\<lparr>eg_self := self2\<rparr>,
                           tp_helper = eh\<lparr>eh_self := self2\<rparr>\<rparr>, k1, v1)))))) "

section \<open>Posting and polling\<close>

fun collect_ops :: "Request list \<Rightarrow> Op list \<Rightarrow> Op list StatusOr" where
  "collect_ops [] ops = Inr ops"
| "collect_ops (q # qs) ops = (if \<not> IsValid_Request q then Inl InvalidArgumentStatus else collect_ops qs (List.insert (req_op q) ops))"

definition TransportImpl_Post :: "'a text_lib_scheme \<Rightarrow> string \<Rightarrow> Request list \<Rightarrow> OnComplete option \<Rightarrow> Metadata \<Rightarrow> 's TransportImpl \<Rightarrow>
    (Handle StatusOr \<times> 's TransportImpl) res" where
  "TransportImpl_Post L peer requests on_complete md t =
     (let (start_mono_us, env1) = MonoNowUs (sh_env (eg_sh (tp_engine t)));
          (trace_ctx, env2) = MaybeStartTrace env1;
          t1 = t\<lparr>tp_engine := set_env env2 (tp_engine t)\<rparr>;
          endpoint = Endpoint_Create L peer
      in
      if \<not> HasNonzeroIpPort endpoint then Inr (Inl InvalidArgumentStatus, t1)
      else if requests = [] then Inr (Inl InvalidArgumentStatus, t1)
      else case collect_ops requests [] of
        Inl s \<Rightarrow> Inr (Inl s, t1)
      | Inr ops \<Rightarrow>
          if 1 < length ops then Inr (Inl InvalidArgumentStatus, t1)
          else rbind (Enqueue endpoint \<lparr>it_requests = requests, it_on_complete = on_complete, it_metadata = md,
                 it_start_mono_us = start_mono_us, it_trace_ctx = trace_ctx\<rparr> (tp_engine t1)) (\<lambda>(handle, eng).
               Inr (handle, t1\<lparr>tp_engine := eng\<rparr>)))"

definition TransportImpl_Poll :: "Handle \<Rightarrow> 's TransportImpl \<Rightarrow> Status StatusOr \<times> 's TransportImpl" where
  "TransportImpl_Poll handle t = (let (s, eng) = QueryUpdate handle (tp_engine t) in (s, t\<lparr>tp_engine := eng\<rparr>))"

section \<open>Forwarding\<close>

definition GetControlEndpoint :: "'a text_lib_scheme \<Rightarrow> 's TransportImpl \<Rightarrow> string" where
  "GetControlEndpoint L t = Endpoint_ToString L (control_plane_listener (tp_self t))"

definition Transport_RegisterMemory :: "'v verbs \<Rightarrow> u64 \<Rightarrow> u64 \<Rightarrow> 's TransportImpl \<Rightarrow> 'v \<Rightarrow> (absl_status \<times> 's TransportImpl \<times> 'v) res" where
  "Transport_RegisterMemory V addr len t v =
     rbind (Helper_RegisterMemory V addr len (tp_helper t) v) (\<lambda>(s, eh, v1). Inr (s, t\<lparr>tp_helper := eh\<rparr>, v1))"

definition Transport_UnregisterMemory :: "'v verbs \<Rightarrow> u64 \<Rightarrow> 's TransportImpl \<Rightarrow> 'v \<Rightarrow> (absl_status \<times> 's TransportImpl \<times> 'v) res" where
  "Transport_UnregisterMemory V addr t v =
     rbind (Helper_UnregisterMemory V addr (tp_helper t) v) (\<lambda>(s, eh, v1). Inr (s, t\<lparr>tp_helper := eh\<rparr>, v1))"

definition GetTransportMetrics :: "TransportMetrics \<Rightarrow> 's TransportImpl \<Rightarrow> TransportMetrics" where
  "GetTransportMetrics m t =
     EngineMetrics_Snapshot (env_metrics (sh_env (eg_sh (tp_engine t)))) (Control_GetMetrics (tp_control t) m)"

definition ConfigureTrace :: "u32 \<Rightarrow> 's TransportImpl \<Rightarrow> 's TransportImpl" where
  "ConfigureTrace n t = (let e = sh_env (eg_sh (tp_engine t)) in
     t\<lparr>tp_engine := set_env (e\<lparr>env_tracer := Configure n (env_tracer e)\<rparr>) (tp_engine t)\<rparr>)"

definition ClearTrace :: "'s TransportImpl \<Rightarrow> 's TransportImpl" where
  "ClearTrace t = (let e = sh_env (eg_sh (tp_engine t)) in
     t\<lparr>tp_engine := set_env (e\<lparr>env_tracer := TraceRecorder_Clear (env_tracer e)\<rparr>) (tp_engine t)\<rparr>)"

section \<open>The registry and the factory\<close>

record Options =
  opt_transport_type :: TransportType
  num_parallel_connections :: int
  recv_post_callback :: bool
  resolve_addr_callback :: "(Metadata \<Rightarrow> Metadata \<Rightarrow> addr_t) option"

text \<open>\<open>'o\<close> are the transports of registered factories.\<close>

type_synonym 'o TransportFactory = "string \<Rightarrow> Options \<Rightarrow> 'o option"

definition Slot_Set :: "'o TransportFactory option \<Rightarrow> 'o TransportFactory option \<Rightarrow> absl_status \<times> 'o TransportFactory option" where
  "Slot_Set factory slot = (case factory of
     None \<Rightarrow> (InvalidArgumentStatus, slot)
   | Some f \<Rightarrow> if slot \<noteq> None then (AlreadyExistsStatus, slot) else (OkStatus, Some f))"

definition RegisterRdmaTransportStatically :: "'o TransportFactory option \<Rightarrow> 'o TransportFactory option \<Rightarrow>
    (bool \<times> 'o TransportFactory option) res" where
  "RegisterRdmaTransportStatically factory slot = (let (status, slot1) = Slot_Set factory slot in
     check (status = OkStatus) (Inr (True, slot1)))"

datatype ('o, 's) AnyTransport = Registered 'o | BuiltIn "'s TransportImpl"

definition CreateTransport :: "'a text_lib_scheme \<Rightarrow> nic_os \<Rightarrow> 'k sock_os \<Rightarrow> 'k event_os \<Rightarrow> 'v verbs \<Rightarrow> ibdev_fs \<Rightarrow> RdmaConnHandler \<Rightarrow>
    (string \<Rightarrow> int option) \<Rightarrow> Handle \<Rightarrow> ReqId \<Rightarrow> Env \<Rightarrow> memory \<Rightarrow> 'o TransportFactory option \<Rightarrow> string \<Rightarrow> Options \<Rightarrow> 'k \<Rightarrow> 'v \<Rightarrow>
    (('o, 's) AnyTransport option \<times> 'k \<times> 'v) res" where
  "CreateTransport L nos os ev V fs handler build h r env mem slot endpoint options k v =
     (let n = min (max 1 (num_parallel_connections options)) 100;
          builtin =
            (let e = Endpoint_Create L endpoint;
                 config = \<lparr>transport_type = opt_transport_type options, num_conns_per_peer = n, require_dataplane_encryption = False\<rparr>;
                 creds = \<lparr>server_creds = True, client_creds = True\<rparr>
             in rbind (TransportImpl_Create L nos os ev V fs handler build h r env mem config e creds (recv_post_callback options)
                  (resolve_addr_callback options) k v) (\<lambda>(t, k1, v1). Inr (map_option BuiltIn t, k1, v1)))
      in if opt_transport_type options = kRdma then
           (case slot of
              Some factory \<Rightarrow> Inr (map_option Registered (factory endpoint (options\<lparr>num_parallel_connections := n\<rparr>)), k, v)
            | None \<Rightarrow> builtin)
         else builtin)"

end
