(* ===== verification/HelperProps.thy ===== *)
theory HelperProps
  imports EngineHelper TcpProps RdmaMemoryProps
begin

text \<open>
  What \<^verbatim>\<open>EngineHelper::connectTcp\<close> gives: as many channels as asked for or a failure for each attempt that gave none,
  every one over a connected blocking socket that the helper now owns, whatever the kernel answers.
\<close>

section \<open>One blocking connect\<close>

context fd_kernel
begin

definition one_more :: "TcpManager \<Rightarrow> Sock list \<Rightarrow> (int \<Rightarrow> (int \<times> bool) option) \<Rightarrow> (int \<times> TcpManager) \<times> 'k \<Rightarrow> bool" where
  "one_more m ts env x \<longleftrightarrow> (case x of ((r, m'), k') \<Rightarrow> mgr m' ts k' env \<and>
     (r = kConnectError \<and> m' = m \<or>
      r = kConnectSuccess \<and> (\<exists>s. sk_connected s \<and> sk_blocking s \<and>
        m' = m\<lparr>outgoing := (outgoing m)\<lparr>ps_sockets := ps_sockets (outgoing m) @ [s]\<rparr>\<rparr>)))"

lemma one_more_none: "mgr m ts k env \<Longrightarrow> one_more m ts env ((kConnectError, m), k)"
  by (simp add: one_more_def)

lemma one_more_drop: "mgr m (s # ts) k env \<Longrightarrow> ends (drop_sock os s (kConnectError, m) k) (one_more m ts env)"
  by (rule mgr_drop_to) (assumption, rule one_more_none)

lemma one_more_add:
  assumes "mgr m (s # ts) k env" "sk_connected s" "sk_blocking s"
  shows "ends (addConnected os s m k) (one_more m ts env)"
proof (cases "ps_sealed (outgoing m)")
  case True
  have "ends (rbind (drop_sock os s (False, outgoing m) k) (\<lambda>((added, ps), k1).
      Inr ((if added then kConnectSuccess else kConnectError, m\<lparr>outgoing := ps\<rparr>), k1))) (one_more m ts env)"
    by (rule ends_bind [OF mgr_drop [OF assms(1)]]) (auto simp: one_more_none)
  with True assms(2) show ?thesis by (simp add: addConnected_def Produced_Add_def)
next
  case False
  with assms mgr_produced(2) [OF assms(1,2)] show ?thesis by (auto simp: addConnected_def Produced_Add_def one_more_def)
qed

lemma one_more_connect:
  assumes "mgr m (s # ts) k env" "sk_blocking s" "\<not> sk_connected s" "HasNonzeroIpPort peer"
  shows "ends (connectBlocking os s peer m k) (one_more m ts env)"
proof -
  have s: "own (s # mgr_socks m @ ts) k env" "mgr_shape m" using assms(1) by (simp_all add: mgr_front)
  have "ends (rbind (TcpSocket_Connect os s peer k) (\<lambda>(ret, s1, k1).
      if ret < 0 then drop_sock os s1 (kConnectError, m) k1 else addConnected os s1 m k1)) (one_more m ts env)"
  proof (rule ends_bind [OF connect_owned [OF s(1) assms(3,4)]], goal_cases)
    case (1 x)
    then obtain r s1 k1 where x: "x = (r, s1, k1)" "r = kConnectError \<or> r = kConnectSuccess"
      "s1 = s\<lparr>sk_connected := (r = kConnectSuccess)\<rparr>" "mgr m (s1 # ts) k1 env"
      using s(2) assms(2) by (cases x) (auto simp: mgr_front)
    then show ?case
      using one_more_add [OF x(4)] one_more_drop [OF x(4)] assms(2) by (auto simp: kConnectError_def kConnectSuccess_def)
  qed
  with own_sock [OF s(1)] assms(2) show ?thesis by (simp add: connectBlocking_def)
qed

lemma one_more_channel:
  assumes "mgr m ts k env" "HasNonzeroIpPort peer"
  shows "ends (TcpManager_Connect os ev self peer True InfiniteDuration m k) (one_more m ts env)"
proof (cases "isStopped m")
  case True
  with assms show ?thesis by (simp add: TcpManager_Connect_def one_more_none)
next
  case False
  have own: "own (mgr_socks m @ ts) k env" "mgr_shape m" using assms(1) by (simp_all add: mgr_def)
  have "ends (rbind (bound_socket os self peer True k) (\<lambda>(so, k1). case so of
      None \<Rightarrow> Inr ((kConnectError, m), k1) | Some s \<Rightarrow> connectBlocking os s peer m k1)) (one_more m ts env)"
  proof (rule ends_bind [OF bound_owned [OF own(1)]], goal_cases)
    case (1 x)
    with own(2) show ?case
      using mgr_front [of m _ ts] by (cases x; cases "fst x") (auto simp: mgr_def intro: one_more_none intro!: one_more_connect [OF _ _ _ assms(2)])
  qed
  with False assms(2) show ?thesis by (simp add: TcpManager_Connect_def cong: option.case_cong)
qed

section \<open>The loop\<close>

lemma channel_of: "own (s # ss) k env \<Longrightarrow> CreateTcpChannel os s k = Inr \<lparr>sc_sock = s, sc_peer = Endpoint_default\<rparr>"
  using own_sock [of s ss k env] by (auto simp: CreateTcpChannel_def SockChannel_new_def Sock_IsValid_def)

definition connected_channels :: "SockChannel list \<Rightarrow> TcpManager \<Rightarrow> Sock list \<Rightarrow> 'k \<Rightarrow> (int \<Rightarrow> (int \<times> bool) option) \<Rightarrow> bool" where
  "connected_channels chs m ts k env \<longleftrightarrow> mgr m (map sc_sock chs @ ts) k env \<and> ps_sockets (outgoing m) = [] \<and>
     (\<forall>ch \<in> set chs. sk_connected (sc_sock ch) \<and> sk_blocking (sc_sock ch))"

lemma one_more_taken:
  assumes "ps_sockets (outgoing m) = []"
  shows "GetOutgoingSockets m = ([], m)"
    "mgr (m\<lparr>outgoing := (outgoing m)\<lparr>ps_sockets := [s]\<rparr>\<rparr>) (map sc_sock chs @ ts) k env \<Longrightarrow>
      GetOutgoingSockets (m\<lparr>outgoing := (outgoing m)\<lparr>ps_sockets := [s]\<rparr>\<rparr>) = ([s], m) \<and>
      new_channels os [s] k = Inr [\<lparr>sc_sock = s, sc_peer = Endpoint_default\<rparr>] \<and> mgr m (map sc_sock chs @ s # ts) k env"
  subgoal taken using assms by (simp add: GetOutgoingSockets_def MoveAll_def)
  subgoal premises prems
  proof -
    let ?m = "m\<lparr>outgoing := (outgoing m)\<lparr>ps_sockets := [s]\<rparr>\<rparr>"
    have same: "m\<lparr>outgoing := (outgoing m)\<lparr>ps_sockets := []\<rparr>\<rparr> = m" using assms by simp
    have got: "GetOutgoingSockets ?m = ([s], m)" by (simp add: GetOutgoingSockets_def MoveAll_def same)
    have "mgr m (s # map sc_sock chs @ ts) k env"
      using prems own_cong [of "mgr_socks ?m @ map sc_sock chs @ ts" "mgr_socks m @ s # map sc_sock chs @ ts"] assms
      by (cases "outgoing m") (auto simp: mgr_def mgr_shape_def mgr_socks_def)
    moreover from this have "own (s # mgr_socks m @ map sc_sock chs @ ts) k env" by (simp add: mgr_front)
    moreover from calculation(1) have "mgr m (map sc_sock chs @ s # ts) k env"
      using own_cong [of "mgr_socks m @ s # map sc_sock chs @ ts" "mgr_socks m @ map sc_sock chs @ s # ts"] by (simp add: mgr_def)
    ultimately show ?thesis using got channel_of by simp
  qed
  done

lemma connect_loop_owned:
  assumes "connected_channels chs m ts k env" "peers \<noteq> []" "\<forall>e \<in> set peers. HasNonzeroIpPort e"
    "length chs + unat failures = i" "int (length chs) \<le> n" "i + r < 2 ^ 64"
  shows "ends (connect_tcp_loop os ev False peers n i r chs failures m k) (\<lambda>(chs', failures', m', k').
    connected_channels chs' m' ts k' env \<and> int (length chs') \<le> n \<and>
    (int (length chs') = n \<and> length chs' + unat failures' \<le> i + r \<or> length chs' + unat failures' = i + r))"
  using assms(1,4-)
proof (induction r arbitrary: i chs failures m k)
  case 0
  then show ?case by simp
next
  case (Suc r)
  show ?case
  proof (cases "int (length chs) < n")
    case False
    with Suc.prems show ?thesis by simp
  next
    case True
    let ?peer = "peers ! (i mod length peers)"
    have at: "vec_at peers (i mod length peers) = Inr ?peer" "HasNonzeroIpPort ?peer"
      using assms(2,3) by (simp_all add: vec_at_def)
    have m: "mgr m (map sc_sock chs @ ts) k env" "ps_sockets (outgoing m) = []"
      "\<forall>ch \<in> set chs. sk_connected (sc_sock ch) \<and> sk_blocking (sc_sock ch)"
      using Suc.prems(1) by (simp_all add: connected_channels_def)
    let ?P = "\<lambda>(chs', failures', m', k'). connected_channels chs' m' ts k' env \<and> int (length chs') \<le> n \<and>
      (int (length chs') = n \<and> length chs' + unat failures' \<le> i + Suc r \<or> length chs' + unat failures' = i + Suc r)"
    have fail: "unat (failures + 1) = Suc (unat failures)"
      using Suc.prems(2,4) by (simp add: unat_word_ariths)
    have "ends (rbind (TcpManager_Connect os ev Endpoint_default ?peer True InfiniteDuration m k) (\<lambda>((ret, m1), k1).
        let failures1 = (if ret < 0 then failures + 1 else failures); (sockets, m2) = GetOutgoingSockets m1
        in rbind (new_channels os sockets k1) (\<lambda>new.
             connect_tcp_loop os ev False peers n (Suc i) r (chs @ new) failures1 m2 k1))) ?P"
    proof (rule ends_bind [OF one_more_channel [OF m(1) at(2)]], goal_cases)
      case (1 x)
      obtain ret m1 k1 where x: "x = ((ret, m1), k1)" by (metis prod.collapse)
      with 1 consider "ret = kConnectError" "m1 = m" "mgr m (map sc_sock chs @ ts) k1 env"
        | s where "ret = kConnectSuccess" "sk_connected s" "sk_blocking s"
          "m1 = m\<lparr>outgoing := (outgoing m)\<lparr>ps_sockets := [s]\<rparr>\<rparr>" "mgr m1 (map sc_sock chs @ ts) k1 env"
        using m(2) by (auto simp: one_more_def)
      then show ?case
      proof cases
        case 1
        then show ?thesis
          using Suc.IH [of chs m k1 "failures + 1" "Suc i"] Suc.prems m fail
          by (simp add: x one_more_taken(1) kConnectError_def connected_channels_def)
      next
        case 2
        then show ?thesis
          using Suc.IH [of "chs @ [\<lparr>sc_sock = s, sc_peer = Endpoint_default\<rparr>]" m k1 failures "Suc i"] Suc.prems m True
            one_more_taken(2) [OF m(2) 2(5) [unfolded 2(4)]]
          by (simp add: x kConnectSuccess_def connected_channels_def)
      qed
    qed
    with at(1) True show ?thesis by simp
  qed
qed

end

section \<open>Connecting to a peer\<close>

lemma listeners_named: "HostInfo_IsDataPlaneValid info \<Longrightarrow> \<forall>e \<in> set (GetTcpListeners info). HasNonzeroIpPort e"
  by (fastforce simp: GetTcpListeners_def HostInfo_IsDataPlaneValid_def Let_def list_all_iff NicInfo_IsValid_def split: if_splits)

context nodelay_kernel
begin

lemma connects:
  assumes "\<And>k k'. net k k' \<Longrightarrow> desc k' = desc k"
    "TcpManager_Create TL nos os ev self k0 = Inr ((Some m0, host), k1)"
    "(tcp_step os ev True net)\<^sup>*\<^sup>* (m0, NotStarted, [], [], k1) (eh_tcp eh, ph, cs, ts, k)" "ps_sockets (outgoing (eh_tcp eh)) = []"
    "EngineHelper_invariant eh" "\<not> require_dataplane_encryption (eh_config eh)" "transport_type (eh_config eh) \<noteq> kRdma"
    "GetPeerHostInfo L rpc peer c w = Inr (c1, w1, Inr info)" "HostInfo_IsDataPlaneValid info" "GetTcpListeners info \<noteq> []"
    "n = nat (num_conns_per_peer (eh_config eh))"
  shows "\<exists>chs failures m env' k'. EngineHelper_Connect os ev V rng L rpc peer tctx h eh c env k v w =
      Inr (map TcpCh chs, eh\<lparr>eh_tcp := m\<rparr>, c1, env', k', v, w1) \<and>
    tcp_connect_failures (env_metrics env') = tcp_connect_failures (env_metrics env) + of_nat failures \<and>
    length chs \<le> n \<and> length chs + failures \<le> 2 * n \<and> (length chs = n \<or> length chs + failures = 2 * n) \<and>
    (\<forall>ch \<in> set chs. sk_connected (sc_sock ch) \<and> sk_blocking (sc_sock ch)) \<and>
    distinct (map sk_fd (mgr_socks m @ map sc_sock chs @ map fst cs @ ts)) \<and>
    desc k' = (desc k0)(tm_poller m0 \<mapsto> (0, True)) ++ owned (mgr_socks m @ map sc_sock chs @ map fst cs @ ts)"
proof -
  let ?m = "eh_tcp eh" and ?env = "(desc k0)(tm_poller m0 \<mapsto> (0, True))" and ?n = "num_conns_per_peer (eh_config eh)"
  have "sound ?env (?m, ph, cs, ts, k)" by (rule reach_sound [OF assms(1-3)])
  then have start: "connected_channels [] ?m (map fst cs @ ts) k ?env"
    using assms(4) by (simp add: connected_channels_def sound_def)
  have n: "1 \<le> ?n" "?n \<le> 100" using assms(5) by (simp_all add: EngineHelper_invariant_def Config_IsValid_def)
  then have bound: "0 + nat (2 * ?n) < 2 ^ 64" by simp
  obtain chs failures m k' where loop: "connect_tcp_loop os ev False (GetTcpListeners info) ?n 0 (nat (2 * ?n)) [] 0 ?m k =
      Inr (chs, failures, m, k')" "connected_channels chs m (map fst cs @ ts) k' ?env" "int (length chs) \<le> ?n"
    "int (length chs) = ?n \<and> length chs + unat failures \<le> nat (2 * ?n) \<or> length chs + unat failures = nat (2 * ?n)"
    using connect_loop_owned [OF start assms(10) listeners_named [OF assms(9)], OF _ _ bound, of 0 ?n] n
    by (auto simp: ends_def)
  have "of_nat (unat failures) = failures" by simp
  then show ?thesis
    using loop assms(6-8,10,11) n
    by (intro exI [of _ chs] exI [of _ "unat failures"] exI [of _ m])
      (auto simp: EngineHelper_Connect_def connectTcp_def Let_def connected_channels_def mgr_def own_def Counter_Add_def
        word_gt_0 unat_eq_0)
qed

end

text \<open>
  C10. An engine that connects to a peer gets the channels it asked for, or every attempt that gave none is counted as
  a failure: \<^verbatim>\<open>EngineHelper::Connect\<close> returns, after at most two attempts per channel, with at most \<open>n\<close> channels, where
  channels and failures together are all \<open>2 n\<close> attempts unless all \<open>n\<close> channels were made. Every channel is over a
  connected socket in blocking mode; after that each open descriptor belongs to one channel, to the manager, to
  another thread, or was there before, whatever other threads have done with the manager since it was created.
\<close>

theorem helper_connect_accounts:
  assumes "nodelay_kernel os ev desc signals" "\<And>k k'. net k k' \<Longrightarrow> desc k' = desc k"
    "TcpManager_Create TL nos os ev self k0 = Inr ((Some m0, host), k1)"
    "(tcp_step os ev True net)\<^sup>*\<^sup>* (m0, NotStarted, [], [], k1) (eh_tcp eh, ph, cs, ts, k)" "ps_sockets (outgoing (eh_tcp eh)) = []"
    "EngineHelper_invariant eh" "\<not> require_dataplane_encryption (eh_config eh)" "transport_type (eh_config eh) \<noteq> kRdma"
    "GetPeerHostInfo L rpc peer c w = Inr (c1, w1, Inr info)" "HostInfo_IsDataPlaneValid info" "GetTcpListeners info \<noteq> []"
    "n = nat (num_conns_per_peer (eh_config eh))"
  shows "\<exists>chs failures m env' k'. EngineHelper_Connect os ev V rng L rpc peer tctx h eh c env k v w =
      Inr (map TcpCh chs, eh\<lparr>eh_tcp := m\<rparr>, c1, env', k', v, w1) \<and>
    tcp_connect_failures (env_metrics env') = tcp_connect_failures (env_metrics env) + of_nat failures \<and>
    length chs \<le> n \<and> length chs + failures \<le> 2 * n \<and> (length chs = n \<or> length chs + failures = 2 * n) \<and>
    (\<forall>ch \<in> set chs. sk_connected (sc_sock ch) \<and> sk_blocking (sc_sock ch)) \<and>
    distinct (map sk_fd (mgr_socks m @ map sc_sock chs @ map fst cs @ ts)) \<and>
    desc k' = (desc k0)(tm_poller m0 \<mapsto> (0, True)) ++ owned (mgr_socks m @ map sc_sock chs @ map fst cs @ ts)"
  by (rule nodelay_kernel.connects [OF assms])

section \<open>An instance\<close>

text \<open>A helper whose peer is the host itself, already known to the control plane; three channels are asked for.\<close>

definition eh_peer :: Endpoint where
  "eh_peer = \<lparr>ep_ip = IPv4 0x0100000A, ep_port = 10000\<rparr>"

definition eh_demo :: EngineHelper where
  "eh_demo = \<lparr>eh_config = \<lparr>transport_type = kTcp, num_conns_per_peer = 3, require_dataplane_encryption = False\<rparr>,
     eh_self = tw_host, eh_tcp = tw_mgr, eh_rdma = None\<rparr>"

definition eh_ctl :: Control where
  "eh_ctl = (demo_control tw_host)\<lparr>peer_hosts := [(eh_peer, tw_host)]\<rparr>"

theorem helper_connect_accounts_witness:
  "\<exists>chs failures m env' k'. EngineHelper_Connect (tw_os True) tw_ev (soft_verbs []) (\<lambda>v. (0, v)) demo_lib (\<lambda>_ _ w. (w, grpc_OK, RespHostInfo pb_HostInfo_new))
      eh_peer TraceContext_new 1 eh_demo eh_ctl demo_env (tw_k 1 [(4, AF_INET, False), (3, 0, True)]) mp_k () =
      Inr (map TcpCh chs, eh_demo\<lparr>eh_tcp := m\<rparr>, eh_ctl, env', k', mp_k, ()) \<and>
    (length chs = 3 \<or> length chs + failures = 6) \<and>
    tw_desc k' = (tw_desc (tw_k 1 []))(3 \<mapsto> (0, True)) ++ owned (mgr_socks m @ map sc_sock chs)"
proof -
  have host: "HostInfo_IsDataPlaneValid tw_host" "GetTcpListeners tw_host = [tw_addr]" "HasNonzeroIpPort eh_peer" by code_simp+
  have "\<exists>chs failures m env' k'. EngineHelper_Connect (tw_os True) tw_ev (soft_verbs []) (\<lambda>v. (0, v)) demo_lib
        (\<lambda>_ _ w. (w, grpc_OK, RespHostInfo pb_HostInfo_new)) eh_peer TraceContext_new 1 eh_demo eh_ctl demo_env
        (tw_k 1 [(4, AF_INET, False), (3, 0, True)]) mp_k () =
      Inr (map TcpCh chs, eh_demo\<lparr>eh_tcp := m\<rparr>, eh_ctl, env', k', mp_k, ()) \<and>
    tcp_connect_failures (env_metrics env') = tcp_connect_failures (env_metrics demo_env) + of_nat failures \<and>
    length chs \<le> 3 \<and> length chs + failures \<le> 2 * 3 \<and> (length chs = 3 \<or> length chs + failures = 2 * 3) \<and>
    (\<forall>ch \<in> set chs. sk_connected (sc_sock ch) \<and> sk_blocking (sc_sock ch)) \<and>
    distinct (map sk_fd (mgr_socks m @ map sc_sock chs @ map fst ([] :: (Sock \<times> Endpoint \<times> duration) list) @ [])) \<and>
    tw_desc k' = (tw_desc (tw_k 1 []))(tm_poller tw_mgr \<mapsto> (0, True)) ++
      owned (mgr_socks m @ map sc_sock chs @ map fst ([] :: (Sock \<times> Endpoint \<times> duration) list) @ [])"
    using host by (intro helper_connect_accounts [OF twn.nodelay_kernel_axioms _ tw_created, where net = "\<lambda>_ _. False" and ph = NotStarted and info = tw_host])
      (simp_all add: eh_demo_def tw_mgr_def EngineHelper_invariant_def Config_IsValid_def eh_ctl_def GetPeerHostInfo_def)
  then show ?thesis by (simp add: tw_mgr_def) blast
qed

end
