(* ===== verification/TransportProps.thy ===== *)
theory TransportProps
  imports Transport HelperProps
begin

text \<open>What the public interface promises: which posts it accepts, and what a new transport is.\<close>

section \<open>Posting\<close>

lemma collect_ops_valid:
  assumes "list_all IsValid_Request qs" "distinct ops"
  shows "\<exists>ops'. collect_ops qs ops = Inr ops' \<and> distinct ops' \<and> set ops' = set ops \<union> req_op ` set qs"
  using assms
proof (induction qs arbitrary: ops)
  case (Cons q qs)
  then show ?case using Cons.IH [of "List.insert (req_op q) ops"] by auto
qed simp

lemma collect_ops_invalid: "\<not> list_all IsValid_Request qs \<Longrightarrow> collect_ops qs ops = Inl InvalidArgumentStatus"
  by (induction qs arbitrary: ops) auto

lemma one_op:
  assumes "distinct ops" "set ops = req_op ` set qs" "qs \<noteq> []"
  shows "1 < length ops \<longleftrightarrow> (\<exists>q \<in> set qs. req_op q \<noteq> req_op (hd qs))"
proof -
  have hd: "req_op (hd qs) \<in> set ops" using assms(2,3) by simp
  have "1 < length ops \<longleftrightarrow> (\<exists>p \<in> set ops. p \<noteq> req_op (hd qs))"
  proof (cases ops)
    case (Cons a as)
    with hd assms(1) show ?thesis by (cases "as") auto
  qed simp
  with assms(2) show ?thesis by auto
qed

definition refused :: "'a text_lib_scheme \<Rightarrow> string \<Rightarrow> Request list \<Rightarrow> bool" where
  "refused L peer requests \<longleftrightarrow> \<not> HasNonzeroIpPort (Endpoint_Create L peer) \<or> requests = [] \<or>
     \<not> list_all IsValid_Request requests \<or> (\<exists>q \<in> set requests. req_op q \<noteq> req_op (hd requests))"

lemma env_kept:
  "eg_posts (set_env e eng) = eg_posts eng" "next_handle (set_env e eng) = next_handle eng"
  "sh_out (eg_sh (set_env e eng)) = sh_out (eg_sh eng)" "sh_in (eg_sh (set_env e eng)) = sh_in (eg_sh eng)"
  "send_workers (set_env e eng) = send_workers eng"
  by (simp_all add: set_env_def)

lemma Enqueue_outcome:
  assumes "HasNonzeroIpPort peer" "Item_IsValid item" "h = gen_id (next_handle eng)"
  shows "\<exists>r eng'. Enqueue peer item eng = Inr (r, eng') \<and>
    (if map_of (trackers (getRequestTracker (hd (it_requests item)) eng)) (Endpoint_default, h) = None
     then r = Inr h \<and> (\<exists>post. eg_posts eng' = eg_posts eng @ [post] \<and> pe_peer post = peer \<and> pe_handle post = h \<and>
       pe_reqs post = it_requests item \<and> pe_metadata post = it_metadata item)
     else r = Inl FailedPreconditionStatus \<and> eg_posts eng' = eg_posts eng)"
proof -
  let ?rt = "getRequestTracker (hd (it_requests item)) eng"
  have rt: "getRequestTracker q (eng\<lparr>next_handle := v\<rparr>) = getRequestTracker q eng" for q v by (simp add: getRequestTracker_def)
  show ?thesis
  proof (cases "map_of (trackers ?rt) (Endpoint_default, h)")
    case None
    with assms show ?thesis by (simp add: Enqueue_def genHandle_def Let_def rt Add_handle_def set_env_def putRequestTracker_def)
  next
    case (Some pt)
    with assms show ?thesis by (simp add: Enqueue_def genHandle_def Let_def rt Add_handle_def)
  qed
qed


section \<open>Creation\<close>

lemma Control_Start_started:
  assumes "Control_Start L build c = Inr (c', True)" "grpc_server c = None"
  shows "serving c' \<and> HostInfo_IsValid (ctl_self c') \<and> data_plane_listeners (ctl_self c') = data_plane_listeners (ctl_self c)"
proof -
  obtain r where "GrpcServer_Create L build (control_plane_listener (ctl_self c)) (server_creds (ctl_creds c)) = Inr r"
    using assms by (auto simp: Control_Start_def Let_def res_simps)
  with assms show ?thesis by (cases r) (auto simp: Control_Start_def Let_def res_simps)
qed

lemma rdma_created:
  assumes "RdmaManager_Create V fs handler config self control k = Inr (rm, self1, control1, k1)"
  shows "grpc_server control1 = grpc_server control \<and> ctl_self control1 = ctl_self control"
proof (cases "transport_type config = kRdma")
  case True
  with assms obtain dev k2 where "RdmaDevice_Create V fs k = Inr (dev, k2)" by (auto simp: RdmaManager_Create_def res_simps)
  with assms True show ?thesis
    by (cases dev) (auto simp: RdmaManager_Create_def res_simps Let_def SetRdmaConnHandler_def split: if_splits)
qed (use assms in \<open>simp add: RdmaManager_Create_def\<close>)

lemma helper_created:
  assumes "EngineHelper_Create L nos os ev V fs handler config self control k v = Inr (Some eh, self1, control1, k1, v1)"
  shows "Config_IsValid config" "eh_config eh = config" "\<not> require_dataplane_encryption config" "HostInfo_IsDataPlaneValid self1"
    "transport_type config = kRdma \<longrightarrow> eh_rdma eh \<noteq> None" "grpc_server control1 = grpc_server control"
proof -
  let ?self0 = "self\<lparr>data_plane_listeners := []\<rparr>"
  obtain rm s1 c1 v2 where rdma: "RdmaManager_Create V fs handler config ?self0 control v = Inr (rm, s1, c1, v2)"
    using assms by (auto simp: EngineHelper_Create_def Let_def res_simps)
  have need: "\<not> (rm = None \<and> transport_type config = kRdma)" and valid: "Config_IsValid config"
    using assms by (auto simp: EngineHelper_Create_def Let_def res_simps rdma split: if_splits)
  obtain tm s2 k2 where tcp: "TcpManager_Create L nos os ev s1 k = Inr ((tm, s2), k2)"
    using assms need by (auto simp: EngineHelper_Create_def Let_def res_simps rdma split: if_splits)
  have "tm \<noteq> None" "HostInfo_IsDataPlaneValid s2"
    using assms need by (auto simp: EngineHelper_Create_def Let_def res_simps rdma tcp split: if_splits option.splits prod.splits)
  then obtain m where m: "tm = Some m" "HostInfo_IsDataPlaneValid s2" by blast
  have "eh = \<lparr>eh_config = config, eh_self = s2, eh_tcp = m, eh_rdma = rm\<rparr>" "\<not> require_dataplane_encryption config" "self1 = s2" "control1 = c1"
    using assms need valid by (auto simp: EngineHelper_Create_def Let_def res_simps rdma tcp m)
  with need m valid rdma_created [OF rdma]
  show "Config_IsValid config" "eh_config eh = config" "\<not> require_dataplane_encryption config" "HostInfo_IsDataPlaneValid self1"
    "transport_type config = kRdma \<longrightarrow> eh_rdma eh \<noteq> None" "grpc_server control1 = grpc_server control" by auto
qed

definition ready :: "Config \<Rightarrow> 's TransportImpl \<Rightarrow> bool" where
  "ready config t \<longleftrightarrow> Config_IsValid config \<and> tp_config t = config \<and> HostInfo_IsValid (tp_self t) \<and> ctl_self (tp_control t) = tp_self t \<and>
     eg_self (tp_engine t) = tp_self t \<and> eh_self (tp_helper t) = tp_self t \<and> serving (tp_control t) \<and>
     EngineHelper_invariant (tp_helper t) \<and> eg_posts (tp_engine t) = [] \<and> (transport_type config = kRdma \<longrightarrow> eh_rdma (tp_helper t) \<noteq> None)"

lemma engine_created:
  assumes "Engine_Create L nos os ev V fs handler h r env mem config self control post resolve k v = Inr (Some (eng, eh), self1, control1, k1, v1)"
  shows "eg_posts eng = []" "EngineHelper_Create L nos os ev V fs handler config self control k v = Inr (Some eh, self1, control1, k1, v1)"
proof -
  have "Config_IsValid config" using assms by (auto simp: Engine_Create_def split: if_splits)
  moreover obtain ho self2 c2 k2 v2 where "EngineHelper_Create L nos os ev V fs handler config self control k v = Inr (ho, self2, c2, k2, v2)"
    using assms calculation by (auto simp: Engine_Create_def res_simps)
  ultimately show "eg_posts eng = []" "EngineHelper_Create L nos os ev V fs handler config self control k v = Inr (Some eh, self1, control1, k1, v1)"
    using assms by (cases ho; auto simp: Engine_Create_def Engine_new_def res_simps)+
qed

lemma impl_created:
  fixes t :: "'s TransportImpl"
  assumes "TransportImpl_Create L nos os ev V fs handler build h r env mem config endpoint creds post resolve k v = Inr (Some t, k', v')"
  shows "ready config t"
proof -
  let ?self = "\<lparr>control_plane_listener = endpoint, data_plane_listeners = []\<rparr>"
  have pre: "Config_IsValid config" "\<not> HasZeroIpAddr endpoint" "SecurityCredentials_IsValid creds"
    using assms by (auto simp: TransportImpl_Create_def split: if_splits)
  then obtain c where c: "Control_Create config ?self creds = Inr (Some c)" "grpc_server c = None"
    by (simp add: Control_Create_def Control_new_def SecurityCredentials_IsValid_def)
  obtain eng :: "'s Engine" and eh self1 c1 k1 v1 where e: "Engine_Create L nos os ev V fs handler h r env mem config ?self c post resolve k v =
      Inr (Some (eng, eh), self1, c1, k1, v1)"
    using assms pre c(1) by (auto simp: TransportImpl_Create_def res_simps split: option.splits)
  note eh = helper_created [OF engine_created(2) [OF e]]
  obtain c2 where s: "Control_Start L build (c1\<lparr>ctl_self := self1\<rparr>) = Inr (c2, True)"
    using assms pre c(1) e by (auto simp: TransportImpl_Create_def res_simps split: if_splits)
  have "grpc_server (c1\<lparr>ctl_self := self1\<rparr>) = None" using eh(6) c(2) by simp
  note started = Control_Start_started [OF s this]
  have "t = \<lparr>tp_config = config, tp_self = ctl_self c2, tp_control = c2, tp_engine = eng\<lparr>eg_self := ctl_self c2\<rparr>,
      tp_helper = eh\<lparr>eh_self := ctl_self c2\<rparr>\<rparr>"
    using assms pre c(1) e s by (auto simp: TransportImpl_Create_def res_simps Let_def)
  with started eh pre(1) engine_created(1) [OF e] show ?thesis
    by (simp add: ready_def EngineHelper_invariant_def HostInfo_IsValid_def)
qed

text \<open>
  C11. A transport that \<^verbatim>\<open>CreateTransport\<close> returns is ready. Its configuration is valid, with the number of connections cut to the range
  1 to 100; its host has a control address with the port that was bound and valid data-plane listeners; transport,
  control plane, engine and helper describe the host alike; the control plane serves; nothing is queued; and when RDMA was asked for
  and no other transport is registered for it, there is an RDMA manager.
\<close>

theorem transport_created_ready:
  assumes "CreateTransport L nos os ev V fs handler build h r env mem slot endpoint options k v = Inr (Some (BuiltIn t), k', v')"
  shows "Config_IsValid (tp_config t) \<and> num_conns_per_peer (tp_config t) = min (max 1 (num_parallel_connections options)) 100 \<and>
    transport_type (tp_config t) = opt_transport_type options \<and> HostInfo_IsValid (tp_self t) \<and>
    ctl_self (tp_control t) = tp_self t \<and> eg_self (tp_engine t) = tp_self t \<and> eh_self (tp_helper t) = tp_self t \<and>
    serving (tp_control t) \<and> EngineHelper_invariant (tp_helper t) \<and> eg_posts (tp_engine t) = [] \<and>
    (opt_transport_type options = kRdma \<longrightarrow> slot = None \<and> eh_rdma (tp_helper t) \<noteq> None)"
proof -
  let ?config = "\<lparr>transport_type = opt_transport_type options, num_conns_per_peer = min (max 1 (num_parallel_connections options)) 100,
    require_dataplane_encryption = False\<rparr>"
  have slot: "opt_transport_type options = kRdma \<longrightarrow> slot = None"
    using assms by (auto simp: CreateTransport_def Let_def split: option.splits)
  then have "\<exists>e. TransportImpl_Create L nos os ev V fs handler build h r env mem ?config e \<lparr>server_creds = True, client_creds = True\<rparr>
      (recv_post_callback options) (resolve_addr_callback options) k v = Inr (Some t, k', v')"
    using assms by (auto simp: CreateTransport_def Let_def res_simps split: if_splits)
  then have "ready ?config t" by (elim exE) (rule impl_created)
  with slot show ?thesis by (simp add: ready_def)
qed

section \<open>An instance\<close>

definition demo_options :: Options where
  "demo_options = \<lparr>opt_transport_type = kTcp, num_parallel_connections = 500, recv_post_callback = False, resolve_addr_callback = None\<rparr>"

lemma demo_transport:
  "\<exists>t k'. CreateTransport demo_lib demo_os (tw_os True) tw_ev (soft_verbs []) mp_fs (\<lambda>_ r. (InternalError [], r)) (\<lambda>_. Some 10000) 0 0 demo_env
     (\<lambda>_. 0) (None :: unit TransportFactory option) (Endpoint_ToString demo_lib (control_plane_listener tw_self)) demo_options (tw_k 1 []) mp_k =
     Inr (Some (BuiltIn (t :: unit TransportImpl)), k', mp_k)"
proof -
  have parse: "Endpoint_Create demo_lib (Endpoint_ToString demo_lib (control_plane_listener tw_self)) = control_plane_listener tw_self"
    by (rule endpoint_text [OF demo_lib_inet_ok demo_lib_text_ok])
  have self: "\<lparr>control_plane_listener = control_plane_listener tw_self, data_plane_listeners = []\<rparr> = tw_self"
    "tw_self\<lparr>data_plane_listeners := []\<rparr> = tw_self" by (simp_all add: tw_self_def)
  have host: "HostInfo_IsDataPlaneValid tw_host" "HostInfo_IsValid tw_host" "\<not> HasZeroIpAddr (control_plane_listener tw_self)"
    "\<not> HasZeroIpAddr (control_plane_listener tw_host)"
    "tw_host\<lparr>control_plane_listener := SetPort (control_plane_listener tw_host) 10000\<rparr> = tw_host"
    "HasNonzeroIpPort (SetPort (control_plane_listener tw_host) 10000)" by code_simp+
  show ?thesis
    using tw_created host
    by (simp add: CreateTransport_def demo_options_def parse TransportImpl_Create_def Config_IsValid_def SecurityCredentials_IsValid_def self
        Control_Create_def Control_new_def Engine_Create_def EngineHelper_Create_def RdmaManager_Create_def EngineHelper_invariant_def
        Engine_new_def Control_Start_def GrpcServer_Create_def GrpcServer_invariant_def Control_invariant_def Let_def)
qed

theorem transport_created_ready_witness:
  "\<exists>t k'. CreateTransport demo_lib demo_os (tw_os True) tw_ev (soft_verbs []) mp_fs (\<lambda>_ r. (InternalError [], r)) (\<lambda>_. Some 10000) 0 0 demo_env
     (\<lambda>_. 0) (None :: unit TransportFactory option) (Endpoint_ToString demo_lib (control_plane_listener tw_self)) demo_options (tw_k 1 []) mp_k =
     Inr (Some (BuiltIn (t :: unit TransportImpl)), k', mp_k) \<and>
   num_conns_per_peer (tp_config t) = 100 \<and> HostInfo_IsValid (tp_self t) \<and> serving (tp_control t)"
proof -
  obtain t :: "unit TransportImpl" and k' where t: "CreateTransport demo_lib demo_os (tw_os True) tw_ev (soft_verbs []) mp_fs
      (\<lambda>_ r. (InternalError [], r)) (\<lambda>_. Some 10000) 0 0 demo_env (\<lambda>_. 0) (None :: unit TransportFactory option)
      (Endpoint_ToString demo_lib (control_plane_listener tw_self)) demo_options (tw_k 1 []) mp_k = Inr (Some (BuiltIn t), k', mp_k)"
    using demo_transport by blast
  then show ?thesis using transport_created_ready [OF t] by (auto simp: demo_options_def)
qed

end
