(* ===== verification/PspManager.thy ===== *)
theory PspManager
  imports TcpProps Message
begin

text \<open>
  \<^verbatim>\<open>socket/tcp_psp_manager\<close> and \<^verbatim>\<open>socket/psp\<close>: connections whose packets the adapter encrypts. The functions of \<^verbatim>\<open>psp_util.h\<close>
  are the record \<open>psp_ops\<close>, since they have one implementation per platform; the one in the repository is \<open>oss_psp\<close>.
  The exchange of tokens with the peer, a callback, is a parameter.
\<close>

record 'k psp_ops =
  GetInitialRxSpi :: "int \<Rightarrow> 'k \<Rightarrow> u32 StatusOr \<times> 'k"
  AcquireRxSpiAndKey :: "int \<Rightarrow> 'k \<Rightarrow> PspToken StatusOr \<times> 'k"
  SetTxSpiAndKey :: "int \<Rightarrow> PspToken \<Rightarrow> 'k \<Rightarrow> absl_status \<times> 'k"
  AddSecureListener :: "int \<Rightarrow> PspToken \<Rightarrow> 'k \<Rightarrow> PspToken StatusOr \<times> 'k"

definition oss_psp :: "'k psp_ops" where
  "oss_psp = \<lparr>
     GetInitialRxSpi = \<lambda>fd k. (Inl UnimplementedStatus, k),
     AcquireRxSpiAndKey = \<lambda>fd k. (Inl UnimplementedStatus, k),
     SetTxSpiAndKey = \<lambda>fd token k. (UnimplementedStatus, k),
     AddSecureListener = \<lambda>fd token k. (Inl UnimplementedStatus, k)\<rparr>"

type_synonym 'k PspTokenExchange = "PspToken \<Rightarrow> Endpoint \<Rightarrow> Endpoint \<Rightarrow> 'k \<Rightarrow> PspToken StatusOr \<times> 'k"

section \<open>The listening side\<close>

definition PspTcp_ExchangePspTokens :: "'k psp_ops \<Rightarrow> TcpManager \<Rightarrow> PspToken \<Rightarrow> Endpoint \<Rightarrow> 'k \<Rightarrow> (PspToken StatusOr \<times> 'k) res" where
  "PspTcp_ExchangePspTokens psp tcp_mgr peer_token self_target k = dcheck (PspToken_IsValid peer_token)
     (dcheck (HasNonzeroIpPort self_target)
       (rbind (FindListener self_target tcp_mgr) (\<lambda>l. case l of
          None \<Rightarrow> Inr (Inl NotFoundStatus, k)
        | Some l \<Rightarrow> (case AddSecureListener psp (sk_fd (l_socket l)) peer_token k of
            (Inr self_token, k1) \<Rightarrow> if PspToken_IsValid self_token then Inr (Inr self_token, k1) else Inr (Inl InternalStatus, k1)
          | (Inl _, k1) \<Rightarrow> Inr (Inl InternalStatus, k1)))))"

section \<open>The connecting side\<close>

definition ConfigPspToken :: "'k psp_ops \<Rightarrow> int \<Rightarrow> Endpoint \<Rightarrow> Endpoint \<Rightarrow> 'k PspTokenExchange \<Rightarrow> 'k \<Rightarrow> PspToken StatusOr \<times> 'k" where
  "ConfigPspToken psp fd peer peer_control psp_token_xchg k = (case AcquireRxSpiAndKey psp fd k of
     (Inl _, k1) \<Rightarrow> (Inl InternalStatus, k1)
   | (Inr self_token, k1) \<Rightarrow>
       if \<not> PspToken_IsValid self_token then (Inl InternalStatus, k1)
       else (case psp_token_xchg self_token peer peer_control k1 of
           (Inl _, k2) \<Rightarrow> (Inl InternalStatus, k2)
         | (Inr peer_token, k2) \<Rightarrow>
             let (status, k3) = SetTxSpiAndKey psp fd peer_token k2 in
             if status \<noteq> OkStatus then (Inl InternalStatus, k3) else (Inr self_token, k3)))"

definition CheckPspToken :: "'k psp_ops \<Rightarrow> int \<Rightarrow> PspToken \<Rightarrow> 'k \<Rightarrow> bool \<times> 'k" where
  "CheckPspToken psp fd self_token k = (case GetInitialRxSpi psp fd k of
     (Inl _, k1) \<Rightarrow> (False, k1) | (Inr s, k1) \<Rightarrow> (s = spi self_token, k1))"

text \<open>The second half of \<^verbatim>\<open>ConnectPsp\<close>, from the bound socket on.\<close>

definition connect_with_keys :: "'k sock_os \<Rightarrow> 'k event_os \<Rightarrow> 'k psp_ops \<Rightarrow> Endpoint \<Rightarrow> Endpoint \<Rightarrow> 'k PspTokenExchange \<Rightarrow> int \<Rightarrow> Sock \<Rightarrow> 'k \<Rightarrow>
    (Sock option \<times> 'k) res" where
  "connect_with_keys os ev psp peer peer_control psp_token_xchg timeout_ms s k =
     (let fd = sk_fd s; (self_token, k1) = ConfigPspToken psp fd peer peer_control psp_token_xchg k in
      case self_token of
        Inl _ \<Rightarrow> drop_sock os s None k1
      | Inr token \<Rightarrow>
          if \<not> PspToken_IsValid token then drop_sock os s None k1
          else rbind (connectSync os ev s peer timeout_ms k1) (\<lambda>(so, k2). case so of
            None \<Rightarrow> Inr (None, k2)
          | Some s1 \<Rightarrow>
              let (ok, k3) = CheckPspToken psp fd token k2 in
              if \<not> ok then drop_sock os s1 None k3 else dcheck (sk_connected s1) (Inr (Some s1, k3))))"

definition ConnectPsp :: "'k sock_os \<Rightarrow> 'k event_os \<Rightarrow> 'k psp_ops \<Rightarrow> Endpoint \<Rightarrow> Endpoint \<Rightarrow> Endpoint \<Rightarrow> 'k PspTokenExchange option \<Rightarrow> int \<Rightarrow>
    'k \<Rightarrow> (Sock option \<times> 'k) res" where
  "ConnectPsp os ev psp self peer peer_control psp_token_xchg timeout_ms k =
     dcheck (HasNonzeroIpPort peer) (dcheck (HasNonzeroIpPort peer_control) (dcheck (psp_token_xchg \<noteq> None)
       (rbind (bound_socket os self peer (timeout_ms \<le> 0) k) (\<lambda>(so, k1). case so of
          None \<Rightarrow> Inr (None, k1)
        | Some s \<Rightarrow> connect_with_keys os ev psp peer peer_control (the psp_token_xchg) timeout_ms s k1))))"

section \<open>What each step keeps\<close>

lemma drop_sock_none: "drop_sock os s None k = Inr (so, k') \<Longrightarrow> so = None"
  by (auto simp: drop_sock_def res_simps)

lemma SetBlocking_fd: "SetBlocking os b s k = Inr (r, s', k') \<Longrightarrow> sk_fd s' = sk_fd s"
  by (auto simp: SetBlocking_def res_simps Let_def split: if_splits prod.splits)

lemma TcpSocket_Connect_fd: "TcpSocket_Connect os s peer k = Inr (r, s', k') \<Longrightarrow> sk_fd s' = sk_fd s"
  by (auto simp: TcpSocket_Connect_def res_simps Let_def split: if_splits prod.splits)

lemma connectSync_fd:
  assumes "connectSync os ev s peer timeout k = Inr (Some s', k')"
  shows "sk_fd s' = sk_fd s"
  using assms unfolding connectSync_def
  by (auto simp: Let_def SetConnected_def res_simps split: if_splits prod.splits dest!: drop_sock_none SetBlocking_fd TcpSocket_Connect_fd)

text \<open>The tokens a connecting socket has: its own, which the peer was sent, and the peer's, which it sends with.\<close>

definition keyed :: "'k psp_ops \<Rightarrow> 'k PspTokenExchange \<Rightarrow> Endpoint \<Rightarrow> Endpoint \<Rightarrow> int \<Rightarrow> PspToken \<Rightarrow> bool" where
  "keyed psp xchg peer peer_control fd token \<longleftrightarrow> PspToken_IsValid token \<and> (\<exists>k k1 k2 k3 peer_token.
     AcquireRxSpiAndKey psp fd k = (Inr token, k1) \<and> xchg token peer peer_control k1 = (Inr peer_token, k2) \<and>
     SetTxSpiAndKey psp fd peer_token k2 = (OkStatus, k3))"

lemma config_keyed:
  "ConfigPspToken psp fd peer pc xchg k = (Inr token, k') \<Longrightarrow> keyed psp xchg peer pc fd token"
  by (fastforce simp: ConfigPspToken_def keyed_def Let_def split: prod.splits sum.splits if_splits)

section \<open>No connection without keys\<close>

text \<open>The PSP functions and the exchange open and close no descriptors.\<close>

locale psp_kernel = fd_kernel os ev desc signals
  for os :: "'k sock_os" and ev :: "'k event_os" and desc :: "'k \<Rightarrow> int \<Rightarrow> (int \<times> bool) option" and signals :: "'k \<Rightarrow> nat" +
  fixes psp :: "'k psp_ops"
    and xchg :: "'k PspTokenExchange"
  assumes psp_same: "desc (snd (GetInitialRxSpi psp fd k)) = desc k" "desc (snd (AcquireRxSpiAndKey psp fd k)) = desc k"
      "desc (snd (SetTxSpiAndKey psp fd token k)) = desc k" "desc (snd (AddSecureListener psp fd token k)) = desc k"
      "desc (snd (xchg token peer peer_control k)) = desc k"
begin

lemma config_same: "desc (snd (ConfigPspToken psp fd peer pc xchg k)) = desc k"
  using psp_same(2) [of fd k] psp_same(5) psp_same(3) unfolding ConfigPspToken_def
  by (auto split: prod.splits sum.splits) (metis snd_conv)+

definition secured :: "Endpoint \<Rightarrow> Endpoint \<Rightarrow> 'k \<Rightarrow> Sock option \<times> 'k \<Rightarrow> bool" where
  "secured peer pc k x \<longleftrightarrow> (case x of (so, k') \<Rightarrow> case so of None \<Rightarrow> own [] k' (desc k)
     | Some s \<Rightarrow> own [s] k' (desc k) \<and> sk_connected s \<and>
         (\<exists>token k3. keyed psp xchg peer pc (sk_fd s) token \<and> GetInitialRxSpi psp (sk_fd s) k3 = (Inr (spi token), k')))"

lemma drop_secured: "own [s] k' (desc k) \<Longrightarrow> ends (drop_sock os s None k') (secured peer pc k)"
  by (rule ends_mono [OF drop_sock_owned]) (auto simp: secured_def)

lemma check_secured:
  assumes "own [s] k1 (desc k)" "sk_connected s" "keyed psp xchg peer pc (sk_fd s) token" "sk_fd s = fd"
  shows "ends (let (ok, k4) = CheckPspToken psp fd token k1 in
    if \<not> ok then drop_sock os s None k4 else dcheck (sk_connected s) (Inr (Some s, k4))) (secured peer pc k)"
proof -
  obtain r k4 where r: "GetInitialRxSpi psp fd k1 = (r, k4)" by fastforce
  then have "own [s] k4 (desc k)" using own_same [OF _ assms(1)] psp_same(1) [of fd k1] by simp
  with drop_secured [OF this, of peer pc] r assms(2-) show ?thesis
    by (cases r) (auto simp: CheckPspToken_def secured_def)
qed

lemma connect_secured:
  assumes "own [s] k1 (desc k)" "sk_blocking s \<longleftrightarrow> timeout \<le> 0" "\<not> sk_connected s" "HasNonzeroIpPort peer"
  shows "ends (connect_with_keys os ev psp peer pc xchg timeout s k1) (secured peer pc k)"
proof -
  obtain r k2 where r: "ConfigPspToken psp (sk_fd s) peer pc xchg k1 = (r, k2)" by fastforce
  have own: "own [s] k2 (desc k)" using own_same [OF _ assms(1)] config_same [of "sk_fd s" peer pc k1] r by simp
  obtain so k3 where c: "connectSync os ev s peer timeout k2 = Inr (so, k3)"
    "case so of None \<Rightarrow> own [] k3 (desc k) | Some s1 \<Rightarrow> own [s1] k3 (desc k) \<and> sk_connected s1"
    using connect_sync_owned [OF own assms(3,4,2)] by (auto simp: ends_def)
  show ?thesis
  proof (cases "\<exists>token s1. r = Inr token \<and> so = Some s1")
    case True
    then obtain token s1 where t: "r = Inr token" "so = Some s1" by blast
    have key: "keyed psp xchg peer pc (sk_fd s) token" by (rule config_keyed [OF r [unfolded t(1)]])
    from check_secured [of s1 k3 k peer pc token "sk_fd s"] c t connectSync_fd [of os ev s peer timeout k2 s1 k3] key
    show ?thesis by (simp add: connect_with_keys_def r keyed_def [of psp xchg peer pc "sk_fd s" token])
  next
    case False
    with c drop_secured [OF own, of peer pc] r show ?thesis
      by (cases r; cases so) (auto simp: connect_with_keys_def secured_def)
  qed
qed

lemma ConnectPsp_secured:
  assumes "HasNonzeroIpPort peer" "HasNonzeroIpPort pc"
  shows "ends (ConnectPsp os ev psp self peer pc (Some xchg) timeout k) (secured peer pc k)"
proof -
  have start: "own [] k (desc k)" by (simp add: own_def)
  have "ends (rbind (bound_socket os self peer (timeout \<le> 0) k) (\<lambda>(so, k1). case so of None \<Rightarrow> Inr (None, k1)
      | Some s \<Rightarrow> connect_with_keys os ev psp peer pc xchg timeout s k1)) (secured peer pc k)"
  proof (rule ends_bind [OF bound_owned [OF start]], goal_cases)
    case (1 x)
    then show ?case
      by (cases x; cases "fst x") (auto simp: secured_def [where x = "(None, _)"] intro: connect_secured [OF _ _ _ assms(1)])
  qed
  with assms show ?thesis by (simp add: ConnectPsp_def cong: option.case_cong)
qed

end

section \<open>Properties\<close>

interpretation oss: psp_kernel "tw_os b" tw_ev tw_desc tw_pending oss_psp "\<lambda>token peer peer_control k. (Inl UnavailableStatus, k)" for b
  by unfold_locales (simp_all add: oss_psp_def)

text \<open>
  C13. A PSP connection is never in the clear. \<^verbatim>\<open>ConnectPsp\<close> returns without a fault, whatever the kernel, the PSP functions and
  the peer answer; a socket it returns is connected, its own valid token was sent to the peer, the
  peer's answer was set as the key for sending, and the connection's index for receiving is the one of
  its own token. When any of these fails it returns no socket and has closed the one it opened. With the functions of the
  open-source build, which are not implemented, it never returns a socket.
\<close>

theorem psp_connection_keyed:
  assumes "psp_kernel os ev desc signals psp xchg" "HasNonzeroIpPort peer" "HasNonzeroIpPort pc"
  shows "\<exists>so k'. ConnectPsp os ev psp self peer pc (Some xchg) timeout k = Inr (so, k') \<and>
    (case so of None \<Rightarrow> desc k' = desc k
     | Some s \<Rightarrow> psp \<noteq> oss_psp \<and> sk_connected s \<and> desc k (sk_fd s) = None \<and>
         desc k' = (desc k)(sk_fd s \<mapsto> (sk_family s, sk_blocking s)) \<and>
         (\<exists>token k3. keyed psp xchg peer pc (sk_fd s) token \<and> GetInitialRxSpi psp (sk_fd s) k3 = (Inr (spi token), k')))"
proof -
  have fd: "fd_kernel os ev desc signals" using assms(1) by (simp add: psp_kernel_def)
  have "\<not> keyed oss_psp xchg peer pc fd token" for fd token by (simp add: keyed_def oss_psp_def)
  then show ?thesis
    using psp_kernel.ConnectPsp_secured [OF assms, of self timeout k]
    unfolding ends_def psp_kernel.secured_def [OF assms(1)] fd_kernel.own_def [OF fd] owned_simps
    by (fastforce split: option.splits)
qed

section \<open>An instance\<close>

text \<open>An adapter that gives every socket the same token, and a peer that answers with it.\<close>

definition demo_psp_token :: PspToken where
  "demo_psp_token = \<lparr>spi = 7, gen = 1, psp_key = replicate 16 9\<rparr>"

definition demo_psp :: "'k psp_ops" where
  "demo_psp = \<lparr>GetInitialRxSpi = \<lambda>fd k. (Inr 7, k), AcquireRxSpiAndKey = \<lambda>fd k. (Inr demo_psp_token, k),
     SetTxSpiAndKey = \<lambda>fd token k. (OkStatus, k), AddSecureListener = \<lambda>fd token k. (Inr demo_psp_token, k)\<rparr>"

definition demo_xchg :: "'k PspTokenExchange" where
  "demo_xchg token peer peer_control k = (Inr token, k)"

definition demo_psp_sock :: Sock where
  "demo_psp_sock = \<lparr>sk_fd = 3, sk_family = AF_INET, sk_blocking = True, sk_connected = True\<rparr>"

interpretation demo_psp: psp_kernel "tw_os b" tw_ev tw_desc tw_pending demo_psp demo_xchg for b
  by unfold_locales (simp_all add: demo_psp_def demo_xchg_def)

lemma demo_psp_connects:
  "ConnectPsp (tw_os True) tw_ev demo_psp Endpoint_default tw_addr tw_addr (Some demo_xchg) 0 (tw_k 1 []) =
     Inr (Some demo_psp_sock, tw_k 1 [(3, AF_INET, True)])"
proof -
  obtain sa where sa: "BuildSockaddr tw_addr = Inr sa"
    by (auto simp: tw_addr_def BuildSockaddr_def BuildIPv4Sockaddr_def Endpoint_IPv4Addr_def IsIPv4_def)
  have addr: "AddressFamily (ep_ip tw_addr) = AF_INET" "HasZeroIpAddr Endpoint_default" "HasNonzeroIpPort tw_addr" by code_simp+
  show ?thesis
    by (simp add: ConnectPsp_def bound_socket_def TcpSocket_Create_def CreateSocket_def tcp_setup_def setNoDelay_def SetTcpOption_def Sock_new_def
        tw_state tw_socket addr SOCK_STREAM_def SOCK_NONBLOCK_def SOCK_CLOEXEC_def Let_def connect_with_keys_def ConfigPspToken_def
        demo_psp_def demo_xchg_def demo_psp_token_def PspToken_IsValid_def connectSync_def TcpSocket_Connect_def SocketBase_Connect_def
        sa kConnectSuccess_def kConnectError_def kConnectInProgress_def SetBlocking_def CheckPspToken_def demo_psp_sock_def)
qed

theorem psp_connection_keyed_witness:
  "ConnectPsp (tw_os True) tw_ev demo_psp Endpoint_default tw_addr tw_addr (Some demo_xchg) 0 (tw_k 1 []) =
     Inr (Some demo_psp_sock, tw_k 1 [(3, AF_INET, True)]) \<and> sk_connected demo_psp_sock \<and>
   (\<exists>token. keyed demo_psp (demo_xchg :: tcp_world PspTokenExchange) tw_addr tw_addr 3 token)"
proof -
  have addr: "HasNonzeroIpPort tw_addr" by code_simp
  have "sk_fd demo_psp_sock = 3" by (simp add: demo_psp_sock_def)
  then show ?thesis
    using psp_connection_keyed [OF demo_psp.psp_kernel_axioms addr addr, of True Endpoint_default 0 "tw_k 1 []"] demo_psp_connects
    by auto
qed

end
