(* ===== verification/TcpSocketUtil.thy ===== *)
theory TcpSocketUtil
  imports SocketChannel TcpManager
begin

text \<open>
  \<^verbatim>\<open>socket/tcp_socket_util\<close>: sending and receiving whole buffers on a blocking socket, with a deadline. The calls it makes
  with flags, \<^verbatim>\<open>poll\<close> with an event and the monotonic clock, in nanoseconds, are the record \<open>util_os\<close>. Both loops
  copy the buffers' descriptions and advance through the copy; they do not use the cursor of
  \<^verbatim>\<open>lib/iovec_cursor\<close>, but the same lemma gives what is left. A loop that does not end has the value \<open>None\<close>.
\<close>

record 'k util_os =
  uo_sendmsg :: "int \<Rightarrow> int \<Rightarrow> byte list list \<Rightarrow> 'k \<Rightarrow> int \<times> int \<times> 'k"
  uo_recvmsg :: "int \<Rightarrow> int \<Rightarrow> nat list \<Rightarrow> 'k \<Rightarrow> int \<times> int \<times> byte list \<times> 'k"
  uo_poll :: "int \<Rightarrow> int \<Rightarrow> int \<Rightarrow> 'k \<Rightarrow> int \<times> int \<times> 'k"
  uo_now :: "'k \<Rightarrow> int \<times> 'k"

definition POLLIN :: int where "POLLIN = 1"
definition POLLOUT :: int where "POLLOUT = 4"
definition MSG_DONTWAIT :: int where "MSG_DONTWAIT = 0x40"
definition MSG_NOSIGNAL :: int where "MSG_NOSIGNAL = 0x4000"

section \<open>Deadlines\<close>

definition GetDeadline :: "'k util_os \<Rightarrow> int \<Rightarrow> 'k \<Rightarrow> duration \<times> 'k" where
  "GetDeadline uo timeout_ms k = (if 0 \<le> timeout_ms
     then let (now, k1) = uo_now uo k in (Dur (now + timeout_ms * 1000000), k1) else (InfiniteDuration, k))"

text \<open>\<^verbatim>\<open>ToInt64Milliseconds\<close> truncates towards zero; what it saturates at is cut to \<^verbatim>\<open>INT_MAX\<close> anyway.\<close>

definition ToMilliseconds :: "int \<Rightarrow> int" where
  "ToMilliseconds d = (if 0 \<le> d then d div 1000000 else - (- d div 1000000))"

partial_function (option) wait_loop :: "'k util_os \<Rightarrow> int \<Rightarrow> int \<Rightarrow> int \<Rightarrow> 'k \<Rightarrow> (bool \<times> 'k) option" where
  "wait_loop uo fd event deadline k =
     (let (now, k1) = uo_now uo k; ms = ToMilliseconds (deadline - now) in
      if ms \<le> 0 then Some (False, k1)
      else let (ret, err, k2) = uo_poll uo fd event (min ms 2147483647) k1 in
        if ret < 0 \<and> Interrupted err then wait_loop uo fd event deadline k2 else Some (0 < ret, k2))"

definition Wait :: "'k util_os \<Rightarrow> int \<Rightarrow> int \<Rightarrow> duration \<Rightarrow> 'k \<Rightarrow> (bool \<times> 'k) res option" where
  "Wait uo fd event deadline k = (if \<not> (event = POLLIN \<or> event = POLLOUT) then Some (Inl DcheckFailed)
     else case deadline of InfiniteDuration \<Rightarrow> Some (Inl DcheckFailed)
     | Dur d \<Rightarrow> map_option Inr (wait_loop uo fd event d k))"

section \<open>Advancing\<close>

function skip_items :: "IoVec list \<Rightarrow> nat \<Rightarrow> u64 \<Rightarrow> nat \<times> u64" where
  "skip_items vecs i b =
     (if i < length vecs \<and> iov_len (vecs ! i) \<le> b then skip_items vecs (Suc i) (b - iov_len (vecs ! i)) else (i, b))"
  by pat_completeness auto
termination
  by (relation "measure (\<lambda>(vecs, i, b). length vecs - i)") auto

declare skip_items.simps [simp del]

definition adjust :: "IoVec list \<Rightarrow> nat \<Rightarrow> u64 \<Rightarrow> IoVec list" where
  "adjust vecs i b = (if 0 < b then vecs[i := \<lparr>iov_base = iov_base (vecs ! i) + b, iov_len = iov_len (vecs ! i) - b\<rparr>] else vecs)"

section \<open>The loops\<close>

text \<open>The \<^verbatim>\<open>DCHECK_EQ\<close> after the loop.\<close>

definition util_done :: "u64 \<Rightarrow> u64 \<Rightarrow> 'a \<Rightarrow> (absl_status \<times> 'a) res option" where
  "util_done moved len x = Some (dcheck (moved = len) (Inr (OkStatus, x)))"

partial_function (option) util_send_loop :: "'k util_os \<Rightarrow> int \<Rightarrow> int \<Rightarrow> duration \<Rightarrow> (u64 \<Rightarrow> byte) \<Rightarrow> u64 \<Rightarrow> IoVec list \<Rightarrow> nat \<Rightarrow> u64 \<Rightarrow> 'k \<Rightarrow>
    (absl_status \<times> 'k) res option" where
  "util_send_loop uo fd flags deadline mem len vecs i sent k =
     (if \<not> i < length vecs then util_done sent len k
      else let (bytes, err, k1) = uo_sendmsg uo fd flags (map (\<lambda>v. map mem (addrs v)) (drop i vecs)) k in
        if 0 < bytes then
          (let sent1 = sent + word_of_int bytes in
           if len \<le> sent1 then util_done sent1 len k1
           else let (i1, b) = skip_items vecs i (word_of_int bytes) in
             if length vecs \<le> i1 then util_done sent1 len k1
             else util_send_loop uo fd flags deadline mem len (adjust vecs i1 b) i1 sent1 k1)
        else if bytes < 0 then
          (if Interrupted err then util_send_loop uo fd flags deadline mem len vecs i sent k1
           else if WouldBlock err \<and> flags AND MSG_DONTWAIT \<noteq> 0 then
             (case Wait uo fd POLLOUT deadline k1 of
                None \<Rightarrow> None
              | Some r \<Rightarrow> (case r of Inl f \<Rightarrow> Some (Inl f)
                  | Inr (ready, k2) \<Rightarrow> if ready then util_send_loop uo fd flags deadline mem len vecs i sent k2
                      else Some (Inr (InternalStatus, k2))))
           else Some (Inr (InternalStatus, k1)))
        else Some (Inr (InternalStatus, k1)))"

partial_function (option) util_recv_loop :: "'k util_os \<Rightarrow> int \<Rightarrow> int \<Rightarrow> duration \<Rightarrow> u64 \<Rightarrow> IoVec list \<Rightarrow> nat \<Rightarrow> u64 \<Rightarrow> (u64 \<Rightarrow> byte) \<times> 'k \<Rightarrow>
    (absl_status \<times> (u64 \<Rightarrow> byte) \<times> 'k) res option" where
  "util_recv_loop uo fd flags deadline len vecs i rcvd mk =
     (if \<not> i < length vecs then util_done rcvd len mk
      else let (mem, k) = mk; (bytes, err, data, k1) = uo_recvmsg uo fd flags (map (\<lambda>v. unat (iov_len v)) (drop i vecs)) k in
        if 0 < bytes then
          (let mem1 = scatter (span_addrs (drop i vecs)) (take (nat bytes) data) mem; rcvd1 = rcvd + word_of_int bytes in
           if len \<le> rcvd1 then util_done rcvd1 len (mem1, k1)
           else let (i1, b) = skip_items vecs i (word_of_int bytes) in
             if length vecs \<le> i1 then util_done rcvd1 len (mem1, k1)
             else util_recv_loop uo fd flags deadline len (adjust vecs i1 b) i1 rcvd1 (mem1, k1))
        else if bytes = 0 then Some (Inr (InternalStatus, mem, k1))
        else if Interrupted err then util_recv_loop uo fd flags deadline len vecs i rcvd (mem, k1)
        else if WouldBlock err \<and> flags AND MSG_DONTWAIT \<noteq> 0 then
          (case Wait uo fd POLLIN deadline k1 of
             None \<Rightarrow> None
           | Some r \<Rightarrow> (case r of Inl f \<Rightarrow> Some (Inl f)
               | Inr (ready, k2) \<Rightarrow> if ready then util_recv_loop uo fd flags deadline len vecs i rcvd (mem, k2)
                   else Some (Inr (InternalStatus, mem, k2))))
        else Some (Inr (InternalStatus, mem, k1)))"

definition util_checks :: "'k sock_os \<Rightarrow> int \<Rightarrow> IoVec list \<Rightarrow> 'k \<Rightarrow> bool" where
  "util_checks os fd iovecs k \<longleftrightarrow> IsValidSocket os fd k \<and> IsBlockingMode os fd k \<and> IsValid_IoVecs iovecs \<and>
     length iovecs \<le> IOV_MAX \<and> 1 \<le> TotalLength iovecs \<and> TotalLength iovecs \<le> 9223372036854775807"

definition Util_Send :: "'k sock_os \<Rightarrow> 'k util_os \<Rightarrow> int \<Rightarrow> (u64 \<Rightarrow> byte) \<Rightarrow> IoVec list \<Rightarrow> int \<Rightarrow> 'k \<Rightarrow> (absl_status \<times> 'k) res option" where
  "Util_Send os uo fd mem iovecs timeout_ms k = (if \<not> util_checks os fd iovecs k then Some (Inl DcheckFailed)
     else let (deadline, k1) = GetDeadline uo timeout_ms k; flags = (if 0 \<le> timeout_ms then MSG_DONTWAIT else 0) OR MSG_NOSIGNAL
       in util_send_loop uo fd flags deadline mem (TotalLength iovecs) iovecs 0 0 k1)"

definition Util_Recv :: "'k sock_os \<Rightarrow> 'k util_os \<Rightarrow> int \<Rightarrow> IoVec list \<Rightarrow> int \<Rightarrow> (u64 \<Rightarrow> byte) \<Rightarrow> 'k \<Rightarrow>
    (absl_status \<times> (u64 \<Rightarrow> byte) \<times> 'k) res option" where
  "Util_Recv os uo fd iovecs timeout_ms mem k = (if \<not> util_checks os fd iovecs k then Some (Inl DcheckFailed)
     else let (deadline, k1) = GetDeadline uo timeout_ms k; flags = (if 0 \<le> timeout_ms then MSG_DONTWAIT else 0)
       in util_recv_loop uo fd flags deadline (TotalLength iovecs) iovecs 0 0 (mem, k1))"

section \<open>What is left after an advance\<close>

lemma skip_is_advance:
  "advance_loop vs i n = (let (j, b) = skip_items vs i n in if j < length vs then (adjust vs j b, j) else (vs, j))"
proof (induction vs i n rule: skip_items.induct)
  case (1 vs i n)
  show ?case
  proof (cases "i < length vs \<and> iov_len (vs ! i) \<le> n")
    case True
    then show ?thesis using 1 [OF True] by (simp add: advance_loop.simps [of vs i n] skip_items.simps [of vs i n] Let_def leD)
  next
    case False
    have "\<lparr>iov_base = iov_base v, iov_len = iov_len v\<rparr> = v" for v by simp
    then have "n = 0 \<Longrightarrow> vs[i := \<lparr>iov_base = iov_base (vs ! i) + n, iov_len = iov_len (vs ! i) - n\<rparr>] = vs"
      by (simp only: add_0_right diff_0_right list_update_id)
    with False show ?thesis
      by (auto simp: advance_loop.simps [of vs i n] skip_items.simps [of vs i n] Let_def not_less not_le adjust_def word_gt_0)
  qed
qed

lemma skip_adjust:
  assumes "wf_iovs vs" "i \<le> length vs" "unat n < span_len (drop i vs)"
  shows "\<exists>j b. skip_items vs i n = (j, b) \<and> j < length vs \<and> wf_iovs (adjust vs j b) \<and> length (adjust vs j b) = length vs \<and>
    span_addrs (drop j (adjust vs j b)) = drop (unat n) (span_addrs (drop i vs))"
proof -
  obtain j b where skip: "skip_items vs i n = (j, b)" by fastforce
  obtain vs' j' where "advance_loop vs i n = (vs', j')" "j' < length vs'" "length vs' = length vs" "wf_iovs vs'"
    "span_addrs (drop j' vs') = drop (unat n) (span_addrs (drop i vs))"
    using advance_loop_ok [OF assms] by blast
  then show ?thesis by (auto simp: skip_is_advance skip split: if_splits)
qed

text \<open>The span that is left, and how much has been moved of it.\<close>

definition left :: "u64 \<Rightarrow> IoVec list \<Rightarrow> nat \<Rightarrow> u64 \<Rightarrow> bool" where
  "left len vecs i moved \<longleftrightarrow> wf_iovs vecs \<and> i \<le> length vecs \<and> 0 < span_len (drop i vecs) \<and>
     unat moved + span_len (drop i vecs) = unat len \<and> unat len < 2 ^ 63"

lemma left_index: "left len vecs i moved \<Longrightarrow> i < length vecs"
  by (cases "i = length vecs") (auto simp: left_def)

lemma left_moved:
  assumes "left len vecs i moved" "0 < n" "n \<le> int (span_len (drop i vecs))"
  shows "len \<le> moved + word_of_int n \<longleftrightarrow> nat n = span_len (drop i vecs)"
    "nat n = span_len (drop i vecs) \<Longrightarrow> moved + word_of_int n = len"
    "nat n \<noteq> span_len (drop i vecs) \<Longrightarrow> \<exists>j b. skip_items vecs i (word_of_int n) = (j, b) \<and> j < length vecs \<and>
      left len (adjust vecs j b) j (moved + word_of_int n) \<and>
      span_addrs (drop j (adjust vecs j b)) = drop (nat n) (span_addrs (drop i vecs))"
proof -
  have l: "wf_iovs vecs" "i \<le> length vecs" "unat moved + span_len (drop i vecs) = unat len" "unat len < 2 ^ 63"
    using assms(1) by (simp_all add: left_def)
  have bound: "nat n \<le> span_len (drop i vecs)" using assms(3) by linarith
  then have small: "nat n < 18446744073709551616" using l(3,4) by simp
  then have n: "unat (word_of_int n :: u64) = nat n"
    using assms(2) by (simp add: unat_eq_nat_uint uint_word_of_int)
  have sum: "unat (moved + word_of_int n) = unat moved + nat n"
  proof -
    have "unat moved + nat n < 18446744073709551616" using bound l(3,4) by simp
    then show ?thesis by (simp add: unat_word_ariths n)
  qed
  show "len \<le> moved + word_of_int n \<longleftrightarrow> nat n = span_len (drop i vecs)"
    unfolding word_le_nat_alt sum using l(3) bound by linarith
  show "moved + word_of_int n = len" if "nat n = span_len (drop i vecs)"
    by (rule unat_inject [THEN iffD1]) (simp only: sum l(3) that)
  show "\<exists>j b. skip_items vecs i (word_of_int n) = (j, b) \<and> j < length vecs \<and>
      left len (adjust vecs j b) j (moved + word_of_int n) \<and>
      span_addrs (drop j (adjust vecs j b)) = drop (nat n) (span_addrs (drop i vecs))" if "nat n \<noteq> span_len (drop i vecs)"
  proof -
    have less: "unat (word_of_int n :: u64) < span_len (drop i vecs)" unfolding n using that bound by linarith
    obtain j b where j: "skip_items vecs i (word_of_int n) = (j, b)" "j < length vecs" "wf_iovs (adjust vecs j b)"
      "length (adjust vecs j b) = length vecs" "span_addrs (drop j (adjust vecs j b)) = drop (nat n) (span_addrs (drop i vecs))"
      using skip_adjust [OF l(1,2) less] n by auto
    have "span_len (drop j (adjust vecs j b)) = span_len (drop i vecs) - nat n"
      using arg_cong [OF j(5), of length] by simp
    then have "left len (adjust vecs j b) j (moved + word_of_int n)"
      unfolding left_def sum using j(2-4) l less n by auto
    with j show ?thesis by blast
  qed
qed

text \<open>One iteration of each loop.\<close>

lemma util_send_steps:
  assumes "i < length vecs" "uo_sendmsg uo fd flags (map (\<lambda>v. map mem (addrs v)) (drop i vecs)) k = (n, err, k1)"
  shows "0 < n \<Longrightarrow> sent + word_of_int n = len \<Longrightarrow> util_send_loop uo fd flags deadline mem len vecs i sent k = Some (Inr (OkStatus, k1))"
    "0 < n \<Longrightarrow> \<not> len \<le> sent + word_of_int n \<Longrightarrow> skip_items vecs i (word_of_int n) = (j, b) \<Longrightarrow> j < length vecs \<Longrightarrow>
      util_send_loop uo fd flags deadline mem len vecs i sent k =
      util_send_loop uo fd flags deadline mem len (adjust vecs j b) j (sent + word_of_int n) k1"
    "n < 0 \<Longrightarrow> Interrupted err \<Longrightarrow>
      util_send_loop uo fd flags deadline mem len vecs i sent k = util_send_loop uo fd flags deadline mem len vecs i sent k1"
    "n < 0 \<Longrightarrow> \<not> Interrupted err \<Longrightarrow> WouldBlock err \<Longrightarrow> flags AND MSG_DONTWAIT \<noteq> 0 \<Longrightarrow>
      Wait uo fd POLLOUT deadline k1 = Some (Inr (r, k2)) \<Longrightarrow> util_send_loop uo fd flags deadline mem len vecs i sent k =
      (if r then util_send_loop uo fd flags deadline mem len vecs i sent k2 else Some (Inr (InternalStatus, k2)))"
    "n \<le> 0 \<Longrightarrow> n < 0 \<longrightarrow> \<not> Interrupted err \<and> \<not> (WouldBlock err \<and> flags AND MSG_DONTWAIT \<noteq> 0) \<Longrightarrow>
      util_send_loop uo fd flags deadline mem len vecs i sent k = Some (Inr (InternalStatus, k1))"
  by (subst util_send_loop.simps, use assms in \<open>auto simp: util_done_def Let_def\<close>)+

lemma util_recv_steps:
  assumes "i < length vecs" "uo_recvmsg uo fd flags (map (\<lambda>v. unat (iov_len v)) (drop i vecs)) k = (n, err, data, k1)"
  shows "0 < n \<Longrightarrow> rcvd + word_of_int n = len \<Longrightarrow> util_recv_loop uo fd flags deadline len vecs i rcvd (mem, k) = Some (Inr (OkStatus, scatter (span_addrs (drop i vecs)) (take (nat n) data) mem, k1))"
    "0 < n \<Longrightarrow> \<not> len \<le> rcvd + word_of_int n \<Longrightarrow> skip_items vecs i (word_of_int n) = (j, b) \<Longrightarrow> j < length vecs \<Longrightarrow>
      util_recv_loop uo fd flags deadline len vecs i rcvd (mem, k) =
      util_recv_loop uo fd flags deadline len (adjust vecs j b) j (rcvd + word_of_int n)
      (scatter (span_addrs (drop i vecs)) (take (nat n) data) mem, k1)"
    "n < 0 \<Longrightarrow> Interrupted err \<Longrightarrow>
      util_recv_loop uo fd flags deadline len vecs i rcvd (mem, k) = util_recv_loop uo fd flags deadline len vecs i rcvd (mem, k1)"
    "n < 0 \<Longrightarrow> \<not> Interrupted err \<Longrightarrow> WouldBlock err \<Longrightarrow> flags AND MSG_DONTWAIT \<noteq> 0 \<Longrightarrow>
      Wait uo fd POLLIN deadline k1 = Some (Inr (r, k2)) \<Longrightarrow> util_recv_loop uo fd flags deadline len vecs i rcvd (mem, k) =
      (if r then util_recv_loop uo fd flags deadline len vecs i rcvd (mem, k2) else Some (Inr (InternalStatus, mem, k2)))"
    "n \<le> 0 \<Longrightarrow> n < 0 \<longrightarrow> \<not> Interrupted err \<and> \<not> (WouldBlock err \<and> flags AND MSG_DONTWAIT \<noteq> 0) \<Longrightarrow>
      util_recv_loop uo fd flags deadline len vecs i rcvd (mem, k) = Some (Inr (InternalStatus, mem, k1))"
  by (subst util_recv_loop.simps, use assms in \<open>auto simp: util_done_def Let_def\<close>)+

section \<open>All bytes or an error\<close>

text \<open>
  What the kernel does with a connected stream socket: a send takes a prefix of the data or nothing, a read returns
  a prefix of the stream or nothing. \<open>tx\<close> are the bytes it has taken, \<open>rx\<close> those still to be read. \<open>signals\<close> bounds,
  until data moves, how often a call is interrupted and how often \<^verbatim>\<open>poll\<close> reports the socket ready.
\<close>

locale util_kernel =
  fixes os :: "'k sock_os"
    and uo :: "'k util_os"
    and fd :: int
    and good :: "'k \<Rightarrow> bool"
    and rx tx :: "'k \<Rightarrow> byte list"
    and signals :: "'k \<Rightarrow> nat"
  assumes u_socket: "good k \<Longrightarrow> IsValidSocket os fd k \<and> IsBlockingMode os fd k"
    and u_send: "good k \<Longrightarrow> concat bufs \<noteq> [] \<Longrightarrow> uo_sendmsg uo fd flags bufs k = (n, err, k') \<Longrightarrow> good k' \<and> rx k' = rx k \<and>
      (0 < n \<and> n \<le> int (length (concat bufs)) \<and> tx k' = tx k @ take (nat n) (concat bufs) \<or>
       n \<le> 0 \<and> tx k' = tx k \<and> signals k' \<le> signals k \<and> (n < 0 \<and> err = EINTR \<longrightarrow> signals k' < signals k))"
    and u_recv: "good k \<Longrightarrow> valid_lens lens \<Longrightarrow> lens \<noteq> [] \<Longrightarrow> uo_recvmsg uo fd flags lens k = (n, err, data, k') \<Longrightarrow>
      good k' \<and> tx k' = tx k \<and>
      (0 < n \<and> n \<le> int (min (sum_list lens) (length (rx k))) \<and> data = take (nat n) (rx k) \<and> rx k' = drop (nat n) (rx k) \<or>
       n \<le> 0 \<and> rx k' = rx k \<and> signals k' \<le> signals k \<and> (n < 0 \<and> err = EINTR \<longrightarrow> signals k' < signals k))"
    and u_poll: "good k \<Longrightarrow> uo_poll uo fd event ms k = (r, err, k') \<Longrightarrow> good k' \<and> rx k' = rx k \<and> tx k' = tx k \<and>
      signals k' \<le> signals k \<and> (r < 0 \<and> err = EINTR \<or> 0 < r \<longrightarrow> signals k' < signals k)"
    and u_now: "good k \<Longrightarrow> uo_now uo k = (now, k') \<Longrightarrow> good k' \<and> rx k' = rx k \<and> tx k' = tx k \<and> signals k' \<le> signals k"
begin

definition same :: "'k \<Rightarrow> 'k \<Rightarrow> bool" where
  "same k k' \<longleftrightarrow> good k' \<and> rx k' = rx k \<and> tx k' = tx k \<and> signals k' \<le> signals k"

lemma wait_ends:
  assumes "good k"
  shows "\<exists>r k'. wait_loop uo fd event d k = Some (r, k') \<and> same k k' \<and> (r \<longrightarrow> signals k' < signals k)"
  using assms
proof (induction "signals k" arbitrary: k rule: less_induct)
  case less
  obtain now k1 where now: "uo_now uo k = (now, k1)" by fastforce
  note n = u_now [OF less.prems now]
  obtain r err k2 where poll: "uo_poll uo fd event (min (ToMilliseconds (d - now)) 2147483647) k1 = (r, err, k2)"
    by (metis prod_cases3)
  note p = u_poll [OF conjunct1 [OF n] poll]
  show ?case
  proof (cases "0 < ToMilliseconds (d - now) \<and> r < 0 \<and> Interrupted err")
    case True
    then have "signals k2 < signals k" using n p by (auto simp: Interrupted_def)
    from less.hyps [OF this conjunct1 [OF p]] show ?thesis
      using True n p now poll by (subst wait_loop.simps) (auto simp: same_def)
  next
    case False
    then have "wait_loop uo fd event d k = Some (if ToMilliseconds (d - now) \<le> 0 then (False, k1) else (0 < r, k2))"
      using now poll by (subst wait_loop.simps) auto
    then show ?thesis using n p by (cases "ToMilliseconds (d - now) \<le> 0") (auto simp: same_def)
  qed
qed

lemma Wait_ends:
  assumes "good k" "event = POLLIN \<or> event = POLLOUT" "deadline \<noteq> InfiniteDuration"
  shows "\<exists>r k'. Wait uo fd event deadline k = Some (Inr (r, k')) \<and> same k k' \<and> (r \<longrightarrow> signals k' < signals k)"
  using assms(2,3) wait_ends [OF assms(1), of event] by (cases deadline) (fastforce simp: Wait_def)+

lemma GetDeadline_same: "good k \<Longrightarrow> GetDeadline uo timeout k = (d, k') \<Longrightarrow> same k k' \<and> (0 \<le> timeout \<longrightarrow> d \<noteq> InfiniteDuration)"
  using u_now [of k] by (auto simp: GetDeadline_def same_def split: if_splits prod.splits)

definition sent_some :: "(u64 \<Rightarrow> byte) \<Rightarrow> u64 list \<Rightarrow> 'k \<Rightarrow> (absl_status \<times> 'k) res option \<Rightarrow> bool" where
  "sent_some mem as k r \<longleftrightarrow> (\<exists>st m k'. r = Some (Inr (st, k')) \<and> good k' \<and> m \<le> length as \<and> (st = OkStatus \<longleftrightarrow> m = length as) \<and>
     rx k' = rx k \<and> tx k' = tx k @ map mem (take m as))"

lemma sent_none: "as \<noteq> [] \<Longrightarrow> good k' \<Longrightarrow> rx k' = rx k \<Longrightarrow> tx k' = tx k \<Longrightarrow> sent_some mem as k (Some (Inr (InternalStatus, k')))"
  unfolding sent_some_def by (intro exI [of _ InternalStatus] exI [of _ "0 :: nat"]) auto

lemma sent_more:
  assumes "sent_some mem (drop n as) k1 r" "n \<le> length as" "rx k1 = rx k" "tx k1 = tx k @ map mem (take n as)"
  shows "sent_some mem as k r"
proof -
  obtain st m k' where "r = Some (Inr (st, k'))" "good k'" "m \<le> length as - n" "st = OkStatus \<longleftrightarrow> m = length as - n"
    "rx k' = rx k1" "tx k' = tx k1 @ map mem (take m (drop n as))"
    using assms(1) by (auto simp: sent_some_def)
  then show ?thesis
    using assms(2-) unfolding sent_some_def by (intro exI [of _ st] exI [of _ "n + m"]) (auto simp: take_add)
qed

lemma sent_again: "sent_some mem as k1 r \<Longrightarrow> rx k1 = rx k \<Longrightarrow> tx k1 = tx k \<Longrightarrow> sent_some mem as k r"
  by (simp add: sent_some_def)

lemma util_send_ends:
  assumes "good k" "left len vecs i sent" "flags AND MSG_DONTWAIT \<noteq> 0 \<longrightarrow> deadline \<noteq> InfiniteDuration"
  shows "sent_some mem (span_addrs (drop i vecs)) k (util_send_loop uo fd flags deadline mem len vecs i sent k)"
  using assms(1,2)
proof (induction "(span_len (drop i vecs), signals k)" arbitrary: vecs i sent k
    rule: wf_induct_rule [OF wf_lex_prod [OF wf_less_than wf_less_than], consumes 0, case_names less])
  case (less vecs i k sent)
  let ?as = "span_addrs (drop i vecs)" and ?bufs = "map (\<lambda>v. map mem (addrs v)) (drop i vecs)"
  let ?loop = "util_send_loop uo fd flags deadline mem len"
  obtain n err k1 where send: "uo_sendmsg uo fd flags ?bufs k = (n, err, k1)" by (metis prod_cases3)
  have bufs: "concat ?bufs = map mem ?as" by (simp add: span_addrs_def map_concat comp_def)
  have as: "?as \<noteq> []" using less.prems(2) by (auto simp: left_def simp flip: length_greater_0_conv)
  note steps = util_send_steps [where k = k, OF left_index [OF less.prems(2)] send]
  note law = u_send [OF less.prems(1) _ send, unfolded bufs]
  show ?case
  proof (cases "0 < n")
    case True
    with law as have n: "n \<le> int (span_len (drop i vecs))" "tx k1 = tx k @ map mem (take (nat n) ?as)" "good k1" "rx k1 = rx k"
      by (auto simp: take_map)
    note moved = left_moved [OF less.prems(2) True n(1)]
    show ?thesis
    proof (cases "nat n = span_len (drop i vecs)")
      case all: True
      with n steps(1) [OF True moved(2)] show ?thesis
        unfolding sent_some_def by (intro exI [of _ OkStatus] exI [of _ "length ?as"] exI [of _ k1]) auto
    next
      case False
      then obtain j b where j: "skip_items vecs i (word_of_int n) = (j, b)" "j < length vecs"
        "left len (adjust vecs j b) j (sent + word_of_int n)" "span_addrs (drop j (adjust vecs j b)) = drop (nat n) ?as"
        using moved(3) by blast
      have "span_len (drop j (adjust vecs j b)) < span_len (drop i vecs)"
        using arg_cong [OF j(4), of length] True n(1) by simp
      from less.hyps [OF _ n(3) j(3)] this
      have "sent_some mem (drop (nat n) ?as) k1 (?loop (adjust vecs j b) j (sent + word_of_int n) k1)" by (simp add: j(4))
      then show ?thesis using steps(2) [OF True _ j(1,2)] moved(1) False n by (auto intro: sent_more)
    qed
  next
    case False
    with law as have stay: "good k1" "rx k1 = rx k" "tx k1 = tx k" "signals k1 \<le> signals k" "n < 0 \<and> err = EINTR \<longrightarrow> signals k1 < signals k"
      by auto
    note again = less.hyps [of i vecs _ sent, OF _ _ less.prems(2)]
    consider (intr) "n < 0" "Interrupted err" | (block) "n < 0" "\<not> Interrupted err" "WouldBlock err" "flags AND MSG_DONTWAIT \<noteq> 0"
      | (stop) "n < 0 \<longrightarrow> \<not> Interrupted err \<and> \<not> (WouldBlock err \<and> flags AND MSG_DONTWAIT \<noteq> 0)" by blast
    then show ?thesis
    proof cases
      case intr
      with steps(3) again [of k1] stay show ?thesis by (auto simp: Interrupted_def intro: sent_again)
    next
      case block
      obtain r k2 where wait: "Wait uo fd POLLOUT deadline k1 = Some (Inr (r, k2))" "same k1 k2" "r \<longrightarrow> signals k2 < signals k1"
        using Wait_ends [OF stay(1), of POLLOUT deadline] assms(3) block by blast
      with steps(4) [OF block wait(1)] again [of k2] stay as show ?thesis by (auto simp: same_def intro: sent_again sent_none)
    next
      case stop
      with steps(5) False stay as show ?thesis by (simp add: sent_none)
    qed
  qed
qed

definition got_some :: "u64 list \<Rightarrow> (u64 \<Rightarrow> byte) \<Rightarrow> 'k \<Rightarrow> (absl_status \<times> (u64 \<Rightarrow> byte) \<times> 'k) res option \<Rightarrow> bool" where
  "got_some as mem k r \<longleftrightarrow> (\<exists>st m k'. r = Some (Inr (st, scatter as (take m (rx k)) mem, k')) \<and> good k' \<and> m \<le> length as \<and>
     m \<le> length (rx k) \<and> (st = OkStatus \<longleftrightarrow> m = length as) \<and> tx k' = tx k \<and> rx k' = drop m (rx k))"

lemma got_none: "as \<noteq> [] \<Longrightarrow> good k' \<Longrightarrow> rx k' = rx k \<Longrightarrow> tx k' = tx k \<Longrightarrow> got_some as mem k (Some (Inr (InternalStatus, mem, k')))"
  unfolding got_some_def by (intro exI [of _ InternalStatus] exI [of _ "0 :: nat"]) (auto simp: scatter_def)

lemma got_more:
  assumes "got_some (drop n as) (scatter as (take n (rx k)) mem) k1 r" "n \<le> length as" "n \<le> length (rx k)"
    "tx k1 = tx k" "rx k1 = drop n (rx k)"
  shows "got_some as mem k r"
proof -
  obtain st m k' where r: "r = Some (Inr (st, scatter (drop n as) (take m (rx k1)) (scatter as (take n (rx k)) mem), k'))" "good k'"
    "m \<le> length as - n" "m \<le> length (rx k) - n" "st = OkStatus \<longleftrightarrow> m = length as - n" "tx k' = tx k1" "rx k' = drop m (rx k1)"
    using assms(1,5) by (auto simp: got_some_def)
  have "scatter as (take (n + m) (rx k)) mem = scatter (drop n as) (take m (rx k1)) (scatter as (take n (rx k)) mem)"
    using assms(3,5) by (simp add: take_add scatter_append)
  with r assms(2-) show ?thesis
    unfolding got_some_def by (intro exI [of _ st] exI [of _ "n + m"]) (auto simp: add.commute)
qed

lemma got_again: "got_some as mem k1 r \<Longrightarrow> rx k1 = rx k \<Longrightarrow> tx k1 = tx k \<Longrightarrow> got_some as mem k r"
  by (simp add: got_some_def)

lemma util_recv_ends:
  assumes "good k" "left len vecs i rcvd" "flags AND MSG_DONTWAIT \<noteq> 0 \<longrightarrow> deadline \<noteq> InfiniteDuration"
  shows "got_some (span_addrs (drop i vecs)) mem k (util_recv_loop uo fd flags deadline len vecs i rcvd (mem, k))"
  using assms(1,2)
proof (induction "(span_len (drop i vecs), signals k)" arbitrary: vecs i rcvd mem k
    rule: wf_induct_rule [OF wf_lex_prod [OF wf_less_than wf_less_than], consumes 0, case_names less])
  case (less vecs i k rcvd mem)
  let ?as = "span_addrs (drop i vecs)" and ?lens = "map (\<lambda>v. unat (iov_len v)) (drop i vecs)"
  let ?loop = "util_recv_loop uo fd flags deadline len"
  obtain n err data k1 where recv: "uo_recvmsg uo fd flags ?lens k = (n, err, data, k1)" by (metis prod_cases4)
  have as: "?as \<noteq> []" using less.prems(2) by (auto simp: left_def simp flip: length_greater_0_conv)
  note steps = util_recv_steps [where k = k, OF left_index [OF less.prems(2)] recv]
  have lens: "valid_lens ?lens" "?lens \<noteq> []" "sum_list ?lens = span_len (drop i vecs)"
    using less.prems(2) left_index [OF less.prems(2)] by (auto simp: left_def valid_lens_def wf_iovs_def in_space_def
        IsValid_IoVec_def list_all_iff span_len_def word_le_nat_alt dest!: in_set_dropD)
  note law = u_recv [OF less.prems(1) lens(1,2) recv, unfolded lens(3)]
  show ?case
  proof (cases "0 < n")
    case True
    let ?mem = "scatter ?as (take (nat n) (rx k)) mem"
    have n: "n \<le> int (span_len (drop i vecs))" "nat n \<le> length (rx k)" "data = take (nat n) (rx k)" "rx k1 = drop (nat n) (rx k)"
      "good k1" "tx k1 = tx k" using law True by auto
    note moved = left_moved [OF less.prems(2) True n(1)]
    show ?thesis
    proof (cases "nat n = span_len (drop i vecs)")
      case all: True
      with n steps(1) [OF True moved(2)] show ?thesis
        unfolding got_some_def by (intro exI [of _ OkStatus] exI [of _ "nat n"] exI [of _ k1]) auto
    next
      case False
      then obtain j b where j: "skip_items vecs i (word_of_int n) = (j, b)" "j < length vecs"
        "left len (adjust vecs j b) j (rcvd + word_of_int n)" "span_addrs (drop j (adjust vecs j b)) = drop (nat n) ?as"
        using moved(3) by blast
      have "span_len (drop j (adjust vecs j b)) < span_len (drop i vecs)"
        using arg_cong [OF j(4), of length] True n(1) by simp
      from less.hyps [OF _ n(5) j(3), of ?mem] this
      have "got_some (drop (nat n) ?as) ?mem k1 (?loop (adjust vecs j b) j (rcvd + word_of_int n) (?mem, k1))" by (simp add: j(4))
      then show ?thesis using steps(2) [OF True _ j(1,2)] moved(1) False n by (auto intro: got_more)
    qed
  next
    case False
    with law have stay: "good k1" "rx k1 = rx k" "tx k1 = tx k" "signals k1 \<le> signals k" "n < 0 \<and> err = EINTR \<longrightarrow> signals k1 < signals k"
      by auto
    note again = less.hyps [of i vecs _ rcvd mem, OF _ _ less.prems(2)]
    consider (intr) "n < 0" "Interrupted err" | (block) "n < 0" "\<not> Interrupted err" "WouldBlock err" "flags AND MSG_DONTWAIT \<noteq> 0"
      | (stop) "n < 0 \<longrightarrow> \<not> Interrupted err \<and> \<not> (WouldBlock err \<and> flags AND MSG_DONTWAIT \<noteq> 0)" by blast
    then show ?thesis
    proof cases
      case intr
      with steps(3) again [of k1] stay show ?thesis by (auto simp: Interrupted_def intro: got_again)
    next
      case block
      obtain r k2 where wait: "Wait uo fd POLLIN deadline k1 = Some (Inr (r, k2))" "same k1 k2" "r \<longrightarrow> signals k2 < signals k1"
        using Wait_ends [OF stay(1), of POLLIN deadline] assms(3) block by blast
      with steps(4) [OF block wait(1)] again [of k2] stay as show ?thesis by (auto simp: same_def intro: got_again got_none)
    next
      case stop
      with steps(5) False stay as show ?thesis by (simp add: got_none)
    qed
  qed
qed

lemma transfers:
  assumes "good k" "wf_iovs vecs" "length vecs \<le> IOV_MAX" "1 \<le> span_len vecs" "span_len vecs < 2 ^ 63"
  shows "sent_some mem (span_addrs vecs) k (Util_Send os uo fd mem vecs timeout k) \<and>
    got_some (span_addrs vecs) mem k (Util_Recv os uo fd vecs timeout mem k)"
proof -
  have len: "unat (TotalLength vecs) = span_len vecs" using assms(5) by (simp add: unat_TotalLength)
  obtain d k1 where d: "GetDeadline uo timeout k = (d, k1)" by fastforce
  note same = GetDeadline_same [OF assms(1) d]
  have left: "left (TotalLength vecs) vecs 0 0" using assms(2,4,5) len by (simp add: left_def)
  have checks: "util_checks os fd vecs k"
    using u_socket [OF assms(1)] assms len wf_iovs_valid by (simp add: util_checks_def word_le_nat_alt)
  have flags: "((if 0 \<le> timeout then MSG_DONTWAIT else 0) OR MSG_NOSIGNAL) AND MSG_DONTWAIT \<noteq> 0 \<longrightarrow> d \<noteq> InfiniteDuration"
    "(if 0 \<le> timeout then MSG_DONTWAIT else 0) AND MSG_DONTWAIT \<noteq> 0 \<longrightarrow> d \<noteq> InfiniteDuration"
    using same by (simp_all add: MSG_DONTWAIT_def MSG_NOSIGNAL_def)
  have "sent_some mem (span_addrs vecs) k (Util_Send os uo fd mem vecs timeout k)"
    using util_send_ends [OF _ left flags(1), of k1 mem] same checks d by (auto simp: Util_Send_def same_def Let_def intro: sent_again)
  moreover have "got_some (span_addrs vecs) mem k (Util_Recv os uo fd vecs timeout mem k)"
    using util_recv_ends [OF _ left flags(2), of k1 mem] same checks d by (auto simp: Util_Recv_def same_def Let_def intro: got_again)
  ultimately show ?thesis by blast
qed

end

section \<open>The property\<close>


section \<open>An instance\<close>

text \<open>The connection of \<open>SocketChannel\<close> in non-blocking calls; \<^verbatim>\<open>poll\<close> reports it ready as often as it has signals left.\<close>

definition demo_util :: "demo_conn util_os" where
  "demo_util = \<lparr>uo_sendmsg = \<lambda>fd flags. demo_sendmsg False, uo_recvmsg = \<lambda>fd flags. demo_readv,
     uo_poll = \<lambda>fd event ms k. (if 0 < dc_signals k then (1, 0, k\<lparr>dc_signals := dc_signals k - 1\<rparr>) else (0, 0, k)),
     uo_now = \<lambda>k. (7, k)\<rparr>"

interpretation demo_util: util_kernel "demo_kernel True" demo_util 5 "\<lambda>_. True" dc_rx dc_tx dc_signals
proof (unfold_locales, goal_cases)
  case (2 k bufs flags n err k')
  then show ?case using demo_send_law [of bufs False k n err k']
    by (auto simp: demo_util_def demo_sendmsg_def Let_def split: if_splits)
next
  case (3 k lens flags n err data k')
  then show ?case using demo_recv_law [of lens k n err data k']
    by (auto simp: demo_util_def demo_readv_def Let_def split: if_splits)
qed (auto simp: demo_kernel_sock demo_util_def split: if_splits)


end
