(* ===== verification/Timeline.thy ===== *)
theory Timeline
  imports Trace "HOL-Library.Product_Lexorder"
begin

text \<open>
  The first half of \<^verbatim>\<open>trace/chrome_trace_exporter\<close>: recorded events are grouped by post, request and chunk into
  timelines. A pointer to a map entry, which the code adds when it is missing, is an update of the entry. The order of
  a hash map does not matter: what is collected from one is sorted by keys that are all different.
\<close>

datatype CompletionMode = kUnknown | kCallback | kPoll

record ChunkTimeline =
  cl_index :: u32
  size_bytes :: u32
  send_worker_id :: u16
  recv_worker_id :: u16
  cl_enqueued_us :: u64
  cl_dequeued_us :: u64
  cl_tx_done_us :: u64
  cl_ack_us :: u64
  rx_acquire_us :: u32
  rx_payload_us :: u32
  rx_chunk_status :: u8

record RequestTimeline =
  rl_reqid :: u32
  rl_op :: Op
  rl_len :: u64
  rl_dequeued_us :: u64
  rl_done_us :: u64
  done_worker_id :: u16
  rl_chunks :: "ChunkTimeline list"

record PostTimeline =
  pl_handle :: u32
  t_entry_us :: u64
  t_enqueued_us :: u64
  t_conn_start_us :: u64
  t_host_info_done_us :: u64
  t_conn_done_us :: u64
  num_channels :: u32
  t_all_done_us :: u64
  all_done_worker_id :: u16
  t_completed_us :: u64
  completion_mode :: CompletionMode
  pl_requests :: "RequestTimeline list"

record RequestState =
  rst_timeline :: RequestTimeline
  rst_chunks :: "(u32, ChunkTimeline) hash_map"

record PostState =
  pst_timeline :: PostTimeline
  pst_requests :: "(u32, RequestState) hash_map"

definition ChunkTimeline_new :: ChunkTimeline where
  "ChunkTimeline_new = \<lparr>cl_index = 0, size_bytes = 0, send_worker_id = 0, recv_worker_id = 0, cl_enqueued_us = 0, cl_dequeued_us = 0,
     cl_tx_done_us = 0, cl_ack_us = 0, rx_acquire_us = 0, rx_payload_us = 0, rx_chunk_status = 0\<rparr>"

definition RequestState_new :: RequestState where
  "RequestState_new = \<lparr>rst_timeline = \<lparr>rl_reqid = 0, rl_op = kWrite, rl_len = 0, rl_dequeued_us = 0, rl_done_us = 0, done_worker_id = 0,
     rl_chunks = []\<rparr>, rst_chunks = []\<rparr>"

definition PostState_new :: PostState where
  "PostState_new = \<lparr>pst_timeline = \<lparr>pl_handle = 0, t_entry_us = 0, t_enqueued_us = 0, t_conn_start_us = 0, t_host_info_done_us = 0,
     t_conn_done_us = 0, num_channels = 0, t_all_done_us = 0, all_done_worker_id = 0, t_completed_us = 0, completion_mode = kUnknown,
     pl_requests = []\<rparr>, pst_requests = []\<rparr>"

section \<open>Durations\<close>

definition Elapsed :: "u64 \<Rightarrow> u64 \<Rightarrow> u64" where
  "Elapsed start_us end_us = (if 0 < start_us \<and> start_us < end_us then end_us - start_us else 0)"

definition ClampSliceDur :: "u64 \<Rightarrow> u64" where
  "ClampSliceDur dur_us = max 1 dur_us"

definition ClampedElapsed :: "u64 \<Rightarrow> u64 \<Rightarrow> u64" where
  "ClampedElapsed start_us end_us = ClampSliceDur (Elapsed start_us end_us)"

definition EngineStartUs :: "PostTimeline \<Rightarrow> u64" where
  "EngineStartUs t = (if 0 < t_conn_start_us t then t_conn_start_us t
     else case pl_requests t of [] \<Rightarrow> 0 | r # _ \<Rightarrow> rl_dequeued_us r)"

definition IsEarliest :: "u64 \<Rightarrow> u64 \<Rightarrow> bool" where
  "IsEarliest t_us recorded_us \<longleftrightarrow> recorded_us = 0 \<or> t_us < recorded_us"

definition DecodeOp :: "u8 \<Rightarrow> Op" where
  "DecodeOp md = (if md = Op_value kRead then kRead else kWrite)"

section \<open>Events\<close>

text \<open>\<^verbatim>\<open>m[key]\<close> with a change of the entry.\<close>

definition upd_entry :: "'v \<Rightarrow> 'k \<Rightarrow> ('v \<Rightarrow> 'v) \<Rightarrow> ('k, 'v) hash_map \<Rightarrow> ('k, 'v) hash_map" where
  "upd_entry new key f m = AList.update key (f (case map_of m key of None \<Rightarrow> new | Some v \<Rightarrow> v)) m"

definition FindOrAddRequest :: "TraceEvent \<Rightarrow> (RequestState \<Rightarrow> RequestState) \<Rightarrow> PostState \<Rightarrow> PostState" where
  "FindOrAddRequest ev f post = (if te_reqid ev = kInvalidReqId then post
     else post\<lparr>pst_requests := upd_entry RequestState_new (te_reqid ev) f (pst_requests post)\<rparr>)"

definition FindOrAddChunk :: "TraceEvent \<Rightarrow> (ChunkTimeline \<Rightarrow> ChunkTimeline) \<Rightarrow> PostState \<Rightarrow> PostState" where
  "FindOrAddChunk ev f post = (if te_chunk_idx ev = kNoChunk then post
     else FindOrAddRequest ev (\<lambda>req. req\<lparr>rst_chunks := upd_entry ChunkTimeline_new (te_chunk_idx ev) f (rst_chunks req)\<rparr>) post)"

definition RecordSendStage :: "TraceEvent \<Rightarrow> (ChunkTimeline \<Rightarrow> ChunkTimeline) \<Rightarrow> PostState \<Rightarrow> PostState" where
  "RecordSendStage ev set_t = FindOrAddChunk ev (\<lambda>c. set_t (c\<lparr>size_bytes := te_metric1 ev, send_worker_id := te_worker_id ev\<rparr>))"

definition all_stages :: "TraceStage list" where
  "all_stages = [kPostEntry, kEngineEnqueued, kAllRequestsDone, kCallbackDone, kPollReaped, kEngineDequeued, kConnSetupStart,
     kGetPeerHostInfoDone, kConnSetupDone, kWorkerEnqueued, kRequestDone, kWorkerDequeued, kTxWriteDone, kRdmaPostSend,
     kRdmaCqeReaped, kTxAckRcvd]"

text \<open>The post's own fields, which five of the cases set without a condition.\<close>

definition set_post :: "(PostTimeline \<Rightarrow> PostTimeline) \<Rightarrow> PostState \<Rightarrow> PostState" where
  "set_post f post = post\<lparr>pst_timeline := f (pst_timeline post)\<rparr>"

primrec process_stage :: "TraceStage \<Rightarrow> TraceEvent \<Rightarrow> PostState \<Rightarrow> PostState" where
  "process_stage kPostEntry ev = set_post (\<lambda>t. t\<lparr>t_entry_us := te_timestamp_us ev\<rparr>)"
| "process_stage kEngineEnqueued ev = set_post (\<lambda>t. t\<lparr>t_enqueued_us := te_timestamp_us ev\<rparr>)"
| "process_stage kConnSetupStart ev = set_post (\<lambda>t. t\<lparr>t_conn_start_us := te_timestamp_us ev\<rparr>)"
| "process_stage kGetPeerHostInfoDone ev = set_post (\<lambda>t. t\<lparr>t_host_info_done_us := te_timestamp_us ev\<rparr>)"
| "process_stage kConnSetupDone ev = set_post (\<lambda>t. t\<lparr>t_conn_done_us := te_timestamp_us ev, num_channels := te_metric1 ev\<rparr>)"
| "process_stage kAllRequestsDone ev = set_post (\<lambda>t. if IsEarliest (te_timestamp_us ev) (t_all_done_us t)
     then t\<lparr>t_all_done_us := te_timestamp_us ev, all_done_worker_id := te_worker_id ev\<rparr> else t)"
| "process_stage kCallbackDone ev = set_post (\<lambda>t. t\<lparr>t_completed_us := te_timestamp_us ev, completion_mode := kCallback\<rparr>)"
| "process_stage kPollReaped ev = set_post (\<lambda>t. t\<lparr>t_completed_us := te_timestamp_us ev, completion_mode := kPoll\<rparr>)"
| "process_stage kEngineDequeued ev = FindOrAddRequest ev (\<lambda>req. req\<lparr>rst_timeline := (rst_timeline req)
     \<lparr>rl_op := DecodeOp (te_metadata ev), rl_len := ucast (te_metric1 ev), rl_dequeued_us := te_timestamp_us ev\<rparr>\<rparr>)"
| "process_stage kRequestDone ev = FindOrAddRequest ev (\<lambda>req. if IsEarliest (te_timestamp_us ev) (rl_done_us (rst_timeline req))
     then req\<lparr>rst_timeline := (rst_timeline req)\<lparr>rl_done_us := te_timestamp_us ev, done_worker_id := te_worker_id ev\<rparr>\<rparr> else req)"
| "process_stage kWorkerEnqueued ev = RecordSendStage ev (\<lambda>c. c\<lparr>cl_enqueued_us := te_timestamp_us ev\<rparr>)"
| "process_stage kWorkerDequeued ev = RecordSendStage ev (\<lambda>c. c\<lparr>cl_dequeued_us := te_timestamp_us ev\<rparr>)"
| "process_stage kTxWriteDone ev = RecordSendStage ev (\<lambda>c. c\<lparr>cl_tx_done_us := te_timestamp_us ev\<rparr>)"
| "process_stage kTxAckRcvd ev = FindOrAddChunk ev (\<lambda>c. if IsEarliest (te_timestamp_us ev) (cl_ack_us c)
     then c\<lparr>cl_ack_us := te_timestamp_us ev, recv_worker_id := te_worker_id ev, rx_payload_us := te_metric1 ev,
       rx_acquire_us := te_metric2 ev, rx_chunk_status := te_metadata ev\<rparr> else c)"
| "process_stage kRdmaPostSend ev = id"
| "process_stage kRdmaCqeReaped ev = id"

text \<open>A stage byte that names no stage, as in a torn event, matches no case.\<close>

definition ProcessEvent :: "TraceEvent \<Rightarrow> PostState \<Rightarrow> PostState" where
  "ProcessEvent ev post = (case find (\<lambda>s. TraceStage_value s = te_stage ev) all_stages of
     None \<Rightarrow> post | Some s \<Rightarrow> process_stage s ev post)"

definition GroupEventsByHandle :: "TraceEvent list \<Rightarrow> (u32, PostState) hash_map" where
  "GroupEventsByHandle events = fold (\<lambda>ev posts.
     if te_handle ev = kInvalidHandle \<or> te_timestamp_us ev = 0 then posts
     else upd_entry PostState_new (te_handle ev) (ProcessEvent ev) posts) events []"

section \<open>Timelines\<close>

definition flatten_request :: "u32 \<Rightarrow> RequestState \<Rightarrow> RequestTimeline" where
  "flatten_request reqid req = (let
     chunks = map (\<lambda>(index, c). c\<lparr>cl_index := index\<rparr>) (rst_chunks req);
     chunk_bytes = fold (\<lambda>c n. n + ucast (size_bytes c)) chunks (0 :: u64);
     r = (rst_timeline req)\<lparr>rl_reqid := reqid, rl_chunks := sort_key cl_index chunks\<rparr>
   in if 0 < chunk_bytes then r\<lparr>rl_len := chunk_bytes\<rparr> else r)"

definition Flatten :: "u32 \<Rightarrow> PostState \<Rightarrow> PostTimeline" where
  "Flatten handle post = (pst_timeline post)\<lparr>pl_handle := handle,
     pl_requests := sort_key (\<lambda>r. (rl_dequeued_us r, rl_reqid r)) (map (\<lambda>(reqid, req). flatten_request reqid req) (pst_requests post))\<rparr>"

definition AssembleTimelines :: "TraceEvent list \<Rightarrow> PostTimeline list" where
  "AssembleTimelines events = sort_key (\<lambda>t. (t_entry_us t, pl_handle t))
     (map (\<lambda>(handle, post). Flatten handle post)
       (filter (\<lambda>(handle, post). t_entry_us (pst_timeline post) \<noteq> 0) (GroupEventsByHandle events)))"

end
