(* ===== verification/ChromeTrace.thy ===== *)
theory ChromeTrace
  imports Timeline
begin

text \<open>
  The second half of \<^verbatim>\<open>trace/chrome_trace_exporter\<close>: \<^verbatim>\<open>TimelineRenderer\<close> turns timelines into events of the Chrome trace format.
  An event keeps its fields, and \<open>event_text\<close> prints it with the format strings of \<^verbatim>\<open>AddSlice\<close>, \<^verbatim>\<open>AddInstant\<close> and \<^verbatim>\<open>AddFlow\<close>; the texts of names and
  arguments are lists of pieces. A map entry that \<^verbatim>\<open>operator[]\<close> adds is 0, which is what a missing one
  reads as. The order in which the sets of workers are listed in the metadata is that of first use.
  Worker indices and thread ids are unbounded integers; in the code they are 32 bits wide.
\<close>

section \<open>Text\<close>

datatype piece = T string | X "u64" | D "u64" | I int

function num_text :: "nat \<Rightarrow> nat \<Rightarrow> string" where
  "num_text b n = (if n < b \<or> b \<le> 1 then [''0123456789abcdef'' ! (n mod 16)] else num_text b (n div b) @ [''0123456789abcdef'' ! (n mod b mod 16)])"
  by pat_completeness auto
termination
  by (relation "measure snd") auto

primrec piece_text :: "piece \<Rightarrow> string" where
  "piece_text (T s) = s"
| "piece_text (X v) = num_text 16 (unat v)"
| "piece_text (D v) = num_text 10 (unat v)"
| "piece_text (I i) = (if i < 0 then CHR ''-'' # num_text 10 (nat (- i)) else num_text 10 (nat i))"

definition text_of :: "piece list \<Rightarrow> string" where
  "text_of ps = concat (map piece_text ps)"

text \<open>A quote, and arguments \<^verbatim>\<open>"key":value\<close> and \<^verbatim>\<open>"key":"value"\<close>.\<close>

definition q :: string where "q = [CHR 0x22]"

definition arg :: "string \<Rightarrow> piece list \<Rightarrow> piece list" where
  "arg key v = [T q, T key, T q, T '':''] @ v"

definition sarg :: "string \<Rightarrow> piece list \<Rightarrow> piece list" where
  "sarg key v = arg key (T q # v @ [T q])"

fun args :: "piece list list \<Rightarrow> piece list" where
  "args [] = []"
| "args [a] = a"
| "args (a # as) = a @ T '','' # args as"

definition hexarg :: "string \<Rightarrow> u32 \<Rightarrow> piece list" where
  "hexarg key v = sarg key [T ''0x'', X (ucast v)]"

fun EscapeJson :: "string \<Rightarrow> string" where
  "EscapeJson [] = []"
| "EscapeJson (c # s) =
     (if c = CHR 0x22 then [CHR 0x5C, CHR 0x22]
      else if c = CHR 0x5C then [CHR 0x5C, CHR 0x5C]
      else if c = CHR 0x0A then [CHR 0x5C, CHR ''n'']
      else if c = CHR 0x0D then [CHR 0x5C, CHR ''r'']
      else if c = CHR 0x09 then [CHR 0x5C, CHR ''t'']
      else [c]) @ EscapeJson s"

definition RxChunkStatusName :: "u8 \<Rightarrow> piece list" where
  "RxChunkStatusName status = (if status = 0 then [T ''kEmpty''] else if status = 1 then [T ''kBusy'']
     else if status = 2 then [T ''kDone''] else [T ''Unknown('', D (ucast status), T '')''])"

section \<open>Tracks and events\<close>

record Track =
  pid :: int
  tid :: int

definition kCallerTrack :: Track where "kCallerTrack = \<lparr>pid = 1, tid = 1\<rparr>"
definition kEngineTrack :: Track where "kEngineTrack = \<lparr>pid = 1, tid = 2\<rparr>"
definition send_track_of :: "int \<Rightarrow> Track" where "send_track_of i = \<lparr>pid = 1, tid = 100 + i\<rparr>"
definition recv_track_of :: "int \<Rightarrow> Track" where "recv_track_of i = \<lparr>pid = 2, tid = 200 + i\<rparr>"
definition ack_track_of :: "int \<Rightarrow> Track" where "ack_track_of i = \<lparr>pid = 1, tid = 300 + i\<rparr>"

definition SendWorkerIdx :: "ChunkTimeline \<Rightarrow> int" where
  "SendWorkerIdx c = (if 0 < sint (send_worker_id c) then sint (send_worker_id c) else sint (cl_index c + 1))"

definition RecvWorkerIdx :: "ChunkTimeline \<Rightarrow> int" where
  "RecvWorkerIdx c = (if sint (recv_worker_id c) < 0 then - sint (recv_worker_id c) else SendWorkerIdx c)"

definition AckWorkerIdx :: "u16 \<Rightarrow> int" where
  "AckWorkerIdx worker_id = max 1 \<bar>sint worker_id\<bar>"

datatype TraceOut =
  Slice Track string "piece list" u64 u64 "piece list"
| Instant Track string char "piece list" u64 "piece list"
| FlowStart "piece list" u64 Track u64
| FlowEnd "piece list" u64 Track u64

record Renderer =
  slice_events :: "TraceOut list"
  next_flow_id :: u64
  caller_end_us :: u64
  engine_end_us :: u64
  send_workers_seen :: "int list"
  recv_workers_seen :: "int list"
  ack_workers_seen :: "int list"
  send_end_us :: "(int, u64) hash_map"
  rx_end_us :: "(int, u64) hash_map"
  ack_end_us :: "(int, u64) hash_map"

definition Renderer_new :: Renderer where
  "Renderer_new = \<lparr>slice_events = [], next_flow_id = 1000, caller_end_us = 0, engine_end_us = 0, send_workers_seen = [],
     recv_workers_seen = [], ack_workers_seen = [], send_end_us = [], rx_end_us = [], ack_end_us = []\<rparr>"

definition end_at :: "(int, u64) hash_map \<Rightarrow> int \<Rightarrow> u64" where
  "end_at m i = (case map_of m i of None \<Rightarrow> 0 | Some v \<Rightarrow> v)"

definition AddSlice :: "Track \<Rightarrow> string \<Rightarrow> piece list \<Rightarrow> u64 \<Rightarrow> u64 \<Rightarrow> piece list \<Rightarrow> Renderer \<Rightarrow> Renderer" where
  "AddSlice track cat name ts dur as r = r\<lparr>slice_events := slice_events r @ [Slice track cat name ts dur as]\<rparr>"

definition AddInstant :: "Track \<Rightarrow> string \<Rightarrow> char \<Rightarrow> piece list \<Rightarrow> u64 \<Rightarrow> piece list \<Rightarrow> Renderer \<Rightarrow> Renderer" where
  "AddInstant track cat scope name ts as r = r\<lparr>slice_events := slice_events r @ [Instant track cat scope name ts as]\<rparr>"

definition AddFlow :: "piece list \<Rightarrow> Track \<Rightarrow> u64 \<Rightarrow> Track \<Rightarrow> u64 \<Rightarrow> Renderer \<Rightarrow> Renderer" where
  "AddFlow name src src_ts dst dst_ts r = (let fid = next_flow_id r + 1 in
     r\<lparr>next_flow_id := fid, slice_events := slice_events r @ [FlowStart name fid src src_ts, FlowEnd name fid dst dst_ts]\<rparr>)"

definition SendTrack :: "int \<Rightarrow> Renderer \<Rightarrow> Track \<times> Renderer" where
  "SendTrack i r = (send_track_of i, r\<lparr>send_workers_seen := List.insert i (send_workers_seen r)\<rparr>)"

definition RecvTrack :: "int \<Rightarrow> Renderer \<Rightarrow> Track \<times> Renderer" where
  "RecvTrack i r = (recv_track_of i, r\<lparr>recv_workers_seen := List.insert i (recv_workers_seen r)\<rparr>)"

definition AckTrack :: "int \<Rightarrow> Renderer \<Rightarrow> Track \<times> Renderer" where
  "AckTrack i r = (ack_track_of i, r\<lparr>ack_workers_seen := List.insert i (ack_workers_seen r)\<rparr>)"

section \<open>A post\<close>

definition total_bytes :: "PostTimeline \<Rightarrow> u64" where
  "total_bytes post = fold (\<lambda>req n. n + rl_len req) (pl_requests post) 0"

definition EmitPostEnqueue :: "PostTimeline \<Rightarrow> Renderer \<Rightarrow> u64 \<times> Renderer" where
  "EmitPostEnqueue post r = (let
     enqueue_overhead_us = Elapsed (t_entry_us post) (t_enqueued_us post);
     t_entry = max (t_entry_us post) (caller_end_us r);
     post_dur_us = ClampedElapsed t_entry (t_enqueued_us post);
     r1 = r\<lparr>caller_end_us := t_entry + post_dur_us\<rparr>;
     n = of_nat (length (pl_requests post));
     r2 = AddSlice kCallerTrack ''api''
       [T ''TransportImpl::Post(handle=0x'', X (ucast (pl_handle post)), T '', '', D n, T '' reqs, '', D (total_bytes post), T '' B)'']
       t_entry post_dur_us
       (args [hexarg ''handle'' (pl_handle post), arg ''num_requests'' [D n], arg ''total_bytes'' [D (total_bytes post)],
          arg ''enqueue_overhead_us'' [D enqueue_overhead_us]]) r1
   in (t_entry + post_dur_us div 2, r2))"

definition EmitEngineQueueWait :: "PostTimeline \<Rightarrow> u64 \<Rightarrow> Renderer \<Rightarrow> Renderer" where
  "EmitEngineQueueWait post enqueue_flow_ts r = (let
     engine_start_us = EngineStartUs post;
     engine_queue_wait_us = Elapsed (t_enqueued_us post) engine_start_us;
     q_start_us = max (caller_end_us r) (engine_end_us r);
     cur0 = max q_start_us engine_start_us;
     (cur_engine_us, r1) = (if q_start_us < cur0 \<or> 0 < engine_queue_wait_us then
        (let q_dur_us = ClampSliceDur (cur0 - q_start_us) in
         (q_start_us + q_dur_us, AddSlice kEngineTrack ''queue''
            [T ''Engine::QueueWait(handle=0x'', X (ucast (pl_handle post)), T '')''] q_start_us q_dur_us
            (args [hexarg ''handle'' (pl_handle post), arg ''engine_queue_wait_us'' [D engine_queue_wait_us]]) r))
        else (cur0, r));
     r2 = AddFlow [T ''enqueue_to_engine''] kCallerTrack enqueue_flow_ts kEngineTrack cur_engine_us r1
   in r2\<lparr>engine_end_us := cur_engine_us\<rparr>)"

definition EmitConnSetup :: "PostTimeline \<Rightarrow> Renderer \<Rightarrow> Renderer" where
  "EmitConnSetup post r = (if t_conn_start_us post = 0 \<and> t_conn_done_us post = 0 then r else let
     conn_setup_us = Elapsed (t_conn_start_us post) (t_conn_done_us post);
     conn_dur_us = ClampedElapsed (engine_end_us r) (t_conn_done_us post);
     r1 = AddSlice kEngineTrack ''conn_setup'' [T ''Engine::createSendWorkers [Cold-Start]''] (engine_end_us r) conn_dur_us
       (args [hexarg ''handle'' (pl_handle post), arg ''conn_setup_us'' [D conn_setup_us]]) r;
     host_info_dur_us = Elapsed (t_conn_start_us post) (t_host_info_done_us post);
     r2 = (if 0 < host_info_dur_us \<and> host_info_dur_us \<le> conn_dur_us
       then AddSlice kEngineTrack ''control'' [T ''Control::GetPeerHostInfo (gRPC)''] (engine_end_us r1) host_info_dur_us
         (args [hexarg ''handle'' (pl_handle post)]) r1
       else r1);
     connect_dur_us = Elapsed (max (t_conn_start_us post) (t_host_info_done_us post)) (t_conn_done_us post);
     r3 = (if 0 < connect_dur_us \<and> host_info_dur_us + connect_dur_us \<le> conn_dur_us
       then AddSlice kEngineTrack ''socket'' [T ''Channel::Connect ('', D (ucast (num_channels post)), T '' channels)'']
         (engine_end_us r2 + host_info_dur_us) connect_dur_us (args [arg ''num_channels'' [D (ucast (num_channels post))]]) r2
       else r2)
   in r3\<lparr>engine_end_us := engine_end_us r3 + conn_dur_us\<rparr>)"

section \<open>A request\<close>

definition EmitRequestFanout :: "u32 \<Rightarrow> RequestTimeline \<Rightarrow> Renderer \<Rightarrow> u64 \<times> Renderer" where
  "EmitRequestFanout handle req r = (let
     fanout_start_us = max (engine_end_us r) (rl_dequeued_us req);
     t_last_enqueued_us = fold (\<lambda>c t. max t (cl_enqueued_us c)) (rl_chunks req) 0;
     chunk_fanout_us = Elapsed (rl_dequeued_us req) t_last_enqueued_us;
     fanout_dur_us = ClampedElapsed fanout_start_us t_last_enqueued_us;
     n = of_nat (length (rl_chunks req));
     r1 = AddSlice kEngineTrack ''engine''
       [T ''Engine::process'', T (if rl_op req = kWrite then ''Write'' else ''Read''), T ''(reqid=0x'', X (ucast (rl_reqid req)), T '', '',
        D (rl_len req), T '' B -> '', D n, T '' chunks)'']
       fanout_start_us fanout_dur_us
       (args [hexarg ''handle'' handle, hexarg ''reqid'' (rl_reqid req), arg ''nchunks'' [D n], arg ''len'' [D (rl_len req)],
          arg ''chunk_fanout_us'' [D chunk_fanout_us]]) r
   in (fanout_start_us, r1\<lparr>engine_end_us := fanout_start_us + fanout_dur_us\<rparr>))"

text \<open>The sum of the two 32-bit times is taken in 32 bits before it is widened.\<close>

definition EmitRemoteRecv :: "u32 \<Rightarrow> u32 \<Rightarrow> ChunkTimeline \<Rightarrow> Track \<Rightarrow> u64 \<Rightarrow> u64 \<Rightarrow> Renderer \<Rightarrow> (Track \<times> u64) \<times> Renderer" where
  "EmitRemoteRecv handle reqid c send_track t_w_dequeued_us t_ack_us r = (let
     rw_idx = RecvWorkerIdx c;
     (recv_track, r1) = RecvTrack rw_idx r;
     rx_total_us = ucast (rx_acquire_us c + rx_payload_us c) :: u64;
     rtt_us = (if t_w_dequeued_us < t_ack_us then t_ack_us - t_w_dequeued_us else ClampSliceDur rx_total_us);
     transit_us = (if rx_total_us < rtt_us then rtt_us - rx_total_us else 0);
     t_rx_start = max (t_w_dequeued_us + transit_us div 2) (end_at (rx_end_us r1) rw_idx);
     rx_acq_dur = ClampSliceDur (ucast (rx_acquire_us c));
     rx_pay_dur = ClampSliceDur (ucast (rx_payload_us c));
     rx_dur = rx_acq_dur + rx_pay_dur;
     t_rx_acq = t_rx_start + rx_acq_dur;
     t_rx_done = t_rx_start + rx_dur;
     r2 = r1\<lparr>rx_end_us := AList.update rw_idx t_rx_done (rx_end_us r1)\<rparr>;
     rx_status = RxChunkStatusName (rx_chunk_status c);
     r3 = AddSlice recv_track ''transfer_rx''
       [T ''RecvChunk(req=0x'', X (ucast reqid), T '', chunk='', D (ucast (cl_index c)), T '', '', D (ucast (size_bytes c)), T '' B)'']
       t_rx_start rx_dur
       (args [hexarg ''handle'' handle, hexarg ''reqid'' reqid, arg ''chunk_index'' [D (ucast (cl_index c))],
          arg ''rx_acquire_wait_us'' [D (ucast (rx_acquire_us c))], arg ''rx_payload_write_us'' [D (ucast (rx_payload_us c))],
          sarg ''rx_chunk_status'' rx_status]) r2;
     r4 = AddSlice recv_track ''tracker'' [T ''ChunkTracker::Acquire''] t_rx_start rx_acq_dur (args [sarg ''status'' rx_status]) r3;
     r5 = AddFlow [T ''wire_data_c'', D (ucast (cl_index c))] send_track t_w_dequeued_us recv_track t_rx_start r4;
     r6 = AddSlice recv_track ''transfer_rx'' [T ''Channel::Read(Payload -> DstAddr)''] t_rx_acq rx_pay_dur
       (args [arg ''size_bytes'' [D (ucast (size_bytes c))]]) r5;
     r7 = AddFlow [T ''rx_acquire_to_read_c'', D (ucast (cl_index c))] recv_track t_rx_start recv_track t_rx_acq r6
   in ((recv_track, t_rx_done), r7))"

definition EmitChunkAck :: "u32 \<Rightarrow> u32 \<Rightarrow> ChunkTimeline \<Rightarrow> Track \<Rightarrow> u64 \<Rightarrow> u64 \<Rightarrow> Renderer \<Rightarrow> Renderer" where
  "EmitChunkAck handle reqid c send_track t_w_dequeued_us t_tx_done_us r = (if cl_ack_us c = 0 then r else let
     chunk_rtt_us = Elapsed (cl_dequeued_us c) (cl_ack_us c);
     t_ack_us = (if t_tx_done_us \<le> cl_ack_us c then cl_ack_us c else max t_tx_done_us (t_w_dequeued_us + chunk_rtt_us));
     ((recv_track, t_rx_done), r1) = EmitRemoteRecv handle reqid c send_track t_w_dequeued_us t_ack_us r;
     sw_idx = SendWorkerIdx c;
     (ack_track, r2) = AckTrack sw_idx r1;
     ack_end = end_at (ack_end_us r2) sw_idx;
     ack_start_us = max ack_end (if 1 < t_ack_us then t_ack_us - 1 else t_ack_us);
     ack_dur_us = (if ack_start_us \<le> t_ack_us then t_ack_us - ack_start_us + 1 else 1);
     r3 = r2\<lparr>ack_end_us := AList.update sw_idx (ack_start_us + ack_dur_us) (ack_end_us r2)\<rparr>;
     r4 = AddSlice ack_track ''ack_rx'' [T ''RecvAck & Update(req=0x'', X (ucast reqid), T '', chunk='', D (ucast (cl_index c)), T '')'']
       ack_start_us ack_dur_us
       (args [hexarg ''handle'' handle, hexarg ''reqid'' reqid, arg ''chunk_index'' [D (ucast (cl_index c))], arg ''chunk_rtt_us'' [D chunk_rtt_us],
          arg ''piggybacked_rx_acquire_us'' [D (ucast (rx_acquire_us c))], arg ''piggybacked_rx_payload_us'' [D (ucast (rx_payload_us c))]]) r3
   in AddFlow [T ''wire_ack_c'', D (ucast (cl_index c))] recv_track (if 0 < t_rx_done then t_rx_done - 1 else 0) ack_track ack_start_us r4)"

definition EmitChunk :: "u32 \<Rightarrow> u32 \<Rightarrow> u64 \<Rightarrow> ChunkTimeline \<Rightarrow> Renderer \<Rightarrow> Renderer" where
  "EmitChunk handle reqid fanout_start_us c r = (let
     sw_idx = SendWorkerIdx c;
     (send_track, r1) = SendTrack sw_idx r;
     worker_queue_wait_us = Elapsed (cl_enqueued_us c) (cl_dequeued_us c);
     tx_write_us = Elapsed (cl_dequeued_us c) (cl_tx_done_us c);
     t_w_enqueued_us = (if 0 < cl_enqueued_us c then max (cl_enqueued_us c) fanout_start_us else fanout_start_us);
     send_end = end_at (send_end_us r1) sw_idx;
     hol_clamped = (t_w_enqueued_us < send_end);
     visual_q_start_us = max t_w_enqueued_us send_end;
     deq0 = max visual_q_start_us (cl_dequeued_us c);
     visual_q_dur_us = Elapsed visual_q_start_us deq0;
     (t_w_dequeued_us, r2) = (if 0 < visual_q_dur_us \<or> 0 < worker_queue_wait_us then
        (let q_dur_us = ClampSliceDur visual_q_dur_us in
         (visual_q_start_us + q_dur_us, AddSlice send_track ''queue''
            [T ''WorkerQueue(req=0x'', X (ucast reqid), T '', chunk='', D (ucast (cl_index c)), T '')'', T (if hol_clamped then '' [HoL Wait]'' else '''')]
            visual_q_start_us q_dur_us
            (args [hexarg ''handle'' handle, hexarg ''reqid'' reqid, arg ''chunk_index'' [D (ucast (cl_index c))],
               arg ''enqueued_at_us'' [D (cl_enqueued_us c)], arg ''worker_queue_wait_us'' [D worker_queue_wait_us]]) r1))
        else (deq0, r1));
     tx_dur_us = ClampSliceDur tx_write_us;
     t_tx_done_us = t_w_dequeued_us + tx_dur_us;
     r3 = r2\<lparr>send_end_us := AList.update sw_idx t_tx_done_us (send_end_us r2)\<rparr>;
     r4 = AddSlice send_track ''transfer_tx''
       [T ''SendChunk(req=0x'', X (ucast reqid), T '', chunk='', D (ucast (cl_index c)), T '', '', D (ucast (size_bytes c)), T '' B)'']
       t_w_dequeued_us tx_dur_us
       (args [hexarg ''handle'' handle, hexarg ''reqid'' reqid, arg ''chunk_index'' [D (ucast (cl_index c))],
          arg ''size_bytes'' [D (ucast (size_bytes c))], arg ''tx_send_us'' [D (cl_dequeued_us c)],
          arg ''worker_queue_wait_us'' [D worker_queue_wait_us], arg ''tx_write_us'' [D tx_write_us]]) r3;
     r5 = AddFlow [T ''fanout_c'', D (ucast (cl_index c))] kEngineTrack (min t_w_enqueued_us (engine_end_us r4)) send_track t_w_dequeued_us r4
   in EmitChunkAck handle reqid c send_track t_w_dequeued_us t_tx_done_us r5)"

definition EmitRequestDone :: "PostTimeline \<Rightarrow> RequestTimeline \<Rightarrow> Renderer \<Rightarrow> Renderer" where
  "EmitRequestDone post req r = (if rl_done_us req = 0 then r else let
     sw_idx = AckWorkerIdx (done_worker_id req);
     (ack_track, r1) = AckTrack sw_idx r
   in AddInstant ack_track ''completion'' CHR ''t'' [T ''kRequestDone (req=0x'', X (ucast (rl_reqid req)), T '')'']
        (max (rl_done_us req) (end_at (ack_end_us r1) sw_idx))
        (args [hexarg ''handle'' (pl_handle post), hexarg ''reqid'' (rl_reqid req),
           arg ''request_e2e_us'' [D (Elapsed (t_entry_us post) (rl_done_us req))]]) r1)"

definition EmitRequest :: "PostTimeline \<Rightarrow> RequestTimeline \<Rightarrow> Renderer \<Rightarrow> Renderer" where
  "EmitRequest post req r = (let
     (fanout_start_us, r1) = EmitRequestFanout (pl_handle post) req r;
     r2 = fold (EmitChunk (pl_handle post) (rl_reqid req) fanout_start_us) (rl_chunks req) r1
   in EmitRequestDone post req r2)"

section \<open>Completion\<close>

definition EmitCompletion :: "PostTimeline \<Rightarrow> Renderer \<Rightarrow> Renderer" where
  "EmitCompletion post r = (if t_all_done_us post = 0 then r else let
     sw_idx = AckWorkerIdx (all_done_worker_id post);
     (ack_track, r1) = AckTrack sw_idx r;
     t_all_done = max (t_all_done_us post) (end_at (ack_end_us r1) sw_idx);
     transport_e2e_us = Elapsed (t_entry_us post) (t_all_done_us post);
     pickup_us = Elapsed (t_all_done_us post) (t_completed_us post);
     r2 = AddInstant ack_track ''completion'' CHR ''p'' [T ''kAllRequestsDone (handle=0x'', X (ucast (pl_handle post)), T '')''] t_all_done
       (args [hexarg ''handle'' (pl_handle post), arg ''transport_e2e_us'' [D transport_e2e_us]]) r1
   in case completion_mode post of
        kCallback \<Rightarrow> (let
            cb_dur_us = ClampedElapsed t_all_done (t_completed_us post);
            r3 = AddSlice ack_track ''callback'' [T ''on_complete(Status::kSuccess) [kCallbackDone]''] t_all_done cb_dur_us
              (args [hexarg ''handle'' (pl_handle post), arg ''transport_e2e_us'' [D transport_e2e_us], arg ''completion_pickup_us'' [D pickup_us]]) r2
          in r3\<lparr>ack_end_us := AList.update sw_idx (t_all_done + cb_dur_us) (ack_end_us r3)\<rparr>)
      | kPoll \<Rightarrow> (let
            wait_start_us = max t_all_done (caller_end_us r2);
            t_completed = max wait_start_us (t_completed_us post);
            wait_dur_us = Elapsed wait_start_us t_completed;
            r3 = (if 0 < wait_dur_us then AddSlice kCallerTrack ''poll_delay'' [T ''PollWaitDelay (Ready before Poll)''] wait_start_us wait_dur_us
                (args [hexarg ''handle'' (pl_handle post), arg ''completion_pickup_us'' [D pickup_us]]) r2 else r2);
            r4 = AddSlice kCallerTrack ''poll'' [T ''TransportImpl::Poll(0x'', X (ucast (pl_handle post)), T '') -> kSuccess [kPollReaped]''] t_completed 1
              (args [hexarg ''handle'' (pl_handle post), sarg ''status'' [T ''kSuccess''], arg ''transport_e2e_us'' [D transport_e2e_us],
                 arg ''completion_pickup_us'' [D pickup_us]]) r3;
            r5 = AddFlow [T ''completion_to_poll''] ack_track t_all_done kCallerTrack t_completed r4
          in r5\<lparr>caller_end_us := t_completed + 1\<rparr>)
      | kUnknown \<Rightarrow> r2)"

definition EmitPost :: "PostTimeline \<Rightarrow> Renderer \<Rightarrow> Renderer" where
  "EmitPost post r = (let
     (enqueue_flow_ts, r1) = EmitPostEnqueue post r;
     r2 = EmitEngineQueueWait post enqueue_flow_ts r1;
     r3 = EmitConnSetup post r2;
     r4 = fold (EmitRequest post) (pl_requests post) r3
   in EmitCompletion post r4)"

section \<open>The document\<close>

text \<open>The texts are those of the format strings, with fields in their order.\<close>

definition track_args :: "Track \<Rightarrow> piece list" where
  "track_args t = arg ''pid'' [I (pid t)] @ T '','' # arg ''tid'' [I (tid t)]"

primrec event_text :: "TraceOut \<Rightarrow> string" where
  "event_text (Slice track cat name ts dur as) = text_of (T ''{'' # args [sarg ''name'' name, sarg ''cat'' [T cat], sarg ''ph'' [T ''X''],
     track_args track, arg ''ts'' [D ts], arg ''dur'' [D dur], arg ''args'' (T ''{'' # as @ [T ''}''])] @ [T ''}''])"
| "event_text (Instant track cat scope name ts as) = text_of (T ''{'' # args [sarg ''name'' name, sarg ''cat'' [T cat], sarg ''ph'' [T ''i''],
     sarg ''s'' [T [scope]], track_args track, arg ''ts'' [D ts], arg ''args'' (T ''{'' # as @ [T ''}''])] @ [T ''}''])"
| "event_text (FlowStart name fid track ts) = text_of (T ''{'' # args [sarg ''name'' name, sarg ''cat'' [T ''flow''], sarg ''ph'' [T ''s''],
     arg ''id'' [D fid], track_args track, arg ''ts'' [D ts]] @ [T ''}''])"
| "event_text (FlowEnd name fid track ts) = text_of (T ''{'' # args [sarg ''name'' name, sarg ''cat'' [T ''flow''], sarg ''ph'' [T ''f''],
     sarg ''bp'' [T ''e''], arg ''id'' [D fid], track_args track, arg ''ts'' [D ts]] @ [T ''}''])"

definition meta_text :: "string \<Rightarrow> Track \<Rightarrow> piece list \<Rightarrow> string" where
  "meta_text kind track as = text_of (T ''{'' # args [sarg ''name'' [T kind], sarg ''cat'' [T ''__metadata''], sarg ''ph'' [T ''M''], track_args track,
     arg ''ts'' [I 0], arg ''args'' (T ''{'' # as @ [T ''}''])] @ [T ''}''])"

definition AppendProcessMetadata :: "int \<Rightarrow> int \<Rightarrow> piece list \<Rightarrow> string list" where
  "AppendProcessMetadata p sort_index name = [meta_text ''process_name'' \<lparr>pid = p, tid = 0\<rparr> (sarg ''name'' name),
     meta_text ''process_sort_index'' \<lparr>pid = p, tid = 0\<rparr> (arg ''sort_index'' [I sort_index])]"

definition AppendThreadMetadata :: "Track \<Rightarrow> piece list \<Rightarrow> string list" where
  "AppendThreadMetadata track name = [meta_text ''thread_name'' track (sarg ''name'' name),
     meta_text ''thread_sort_index'' track (arg ''sort_index'' [I (tid track)])]"

text \<open>The dash in the names is U+2014 in UTF-8.\<close>

definition dash :: string where "dash = [CHR 0xE2, CHR 0x80, CHR 0x94]"

definition BuildMetadataEvents :: "string \<Rightarrow> Renderer \<Rightarrow> string list" where
  "BuildMetadataEvents self_endpoint r = (let
     sender = [T ''Node A (Sender) '', T dash, T '' Peregrine Transport''] @
       (if self_endpoint = [] then [] else [T '' ['', T (EscapeJson self_endpoint), T '']''])
   in AppendProcessMetadata 1 1 sender @
      AppendProcessMetadata 2 2 [T ''Node B (Receiver) '', T dash, T '' Remote Peers (Piggybacked via ACK ChunkHeader)''] @
      AppendThreadMetadata kCallerTrack [T ''Caller / Poller Thread (tid=1)''] @
      AppendThreadMetadata kEngineTrack [T ''Engine::main_thread_ (tid=2)''] @
      concat (map (\<lambda>i. AppendThreadMetadata (send_track_of i) [T ''Worker #'', I i, T ''::send_thread_ (Tx, tid='', I (100 + i), T '')'']) (send_workers_seen r)) @
      concat (map (\<lambda>i. AppendThreadMetadata (ack_track_of i) [T ''Worker #'', I i, T ''::recv_thread_ (ACK Rx, tid='', I (300 + i), T '')'']) (ack_workers_seen r)) @
      concat (map (\<lambda>i. AppendThreadMetadata (recv_track_of i) [T ''Remote Worker #-'', I i, T ''::recv_thread_ (tid='', I (200 + i), T '')'']) (recv_workers_seen r)))"

fun StrJoin_events :: "string \<Rightarrow> string list \<Rightarrow> string" where
  "StrJoin_events sep [] = []"
| "StrJoin_events sep [s] = s"
| "StrJoin_events sep (s # ss) = s @ sep @ StrJoin_events sep ss"

definition trace_document :: "string list \<Rightarrow> string" where
  "trace_document events = (let nl = [CHR 0x0A] in
     ''{'' @ nl @ ''  '' @ q @ ''displayTimeUnit'' @ q @ '': '' @ q @ ''ms'' @ q @ '','' @ nl @ ''  '' @ q @ ''traceEvents'' @ q @ '': ['' @ nl @ ''    '' @
     StrJoin_events ('','' @ nl @ ''    '') events @ nl @ ''  ]'' @ nl @ ''}'' @ nl)"

definition Render :: "PostTimeline list \<Rightarrow> string \<Rightarrow> Renderer \<Rightarrow> string \<times> Renderer" where
  "Render timelines self_endpoint r = (let r1 = fold EmitPost timelines r in
     (trace_document (BuildMetadataEvents self_endpoint r1 @ map event_text (slice_events r1)), r1\<lparr>slice_events := []\<rparr>))"

definition Export :: "TraceEvent list \<Rightarrow> string \<Rightarrow> string" where
  "Export events self_endpoint = fst (Render (AssembleTimelines events) self_endpoint Renderer_new)"

end
