(* ===== verification/TraceTidy.thy ===== *)
theory TraceTidy
  imports ChromeTrace
begin

text \<open>
  Slices that the renderer puts on one track never partially overlap: two of them are apart or one holds the other.
  Each emitter adds to the tracks it touches after the end that the renderer keeps for that track and moves the end.
\<close>

section \<open>Times as natural numbers\<close>

named_theorems us_nat \<open>microseconds as natural numbers\<close>

lemma unat_max [us_nat]: "unat (max a b) = max (unat a) (unat (b :: u64))"
  by (simp add: max_def word_le_nat_alt)

lemma unat_min [us_nat]: "unat (min a b) = min (unat a) (unat (b :: u64))"
  by (simp add: min_def word_le_nat_alt)

lemma unat_Elapsed [us_nat]:
  "unat (Elapsed a b) = (if 0 < unat a \<and> unat a < unat b then unat b - unat a else 0)"
  by (simp add: Elapsed_def word_less_nat_alt unat_sub_if')

lemma unat_ClampSliceDur [us_nat]: "unat (ClampSliceDur d) = max 1 (unat d)"
  by (simp add: ClampSliceDur_def unat_max)

lemma unat_ClampedElapsed [us_nat]: "unat (ClampedElapsed a b) = max 1 (unat (Elapsed a b))"
  by (simp add: ClampedElapsed_def unat_ClampSliceDur)

lemma unat_add_small: "unat a + unat b < 2 ^ 64 \<Longrightarrow> unat (a + b :: u64) = unat a + unat b"
  by (simp add: unat_word_ariths)

section \<open>Spans\<close>

type_synonym span = "nat \<times> nat"

definition apart_or_nested :: "span \<Rightarrow> span \<Rightarrow> bool" where
  "apart_or_nested a b \<longleftrightarrow> snd a \<le> fst b \<or> snd b \<le> fst a \<or> (fst a \<le> fst b \<and> snd b \<le> snd a) \<or> (fst b \<le> fst a \<and> snd a \<le> snd b)"

fun slice_span :: "Track \<Rightarrow> TraceOut \<Rightarrow> span list" where
  "slice_span tr (Slice track cat name ts dur as) = (if track = tr then [(unat ts, unat ts + unat dur)] else [])"
| "slice_span tr _ = []"

definition spans :: "Track \<Rightarrow> TraceOut list \<Rightarrow> span list" where
  "spans tr evs = concat (map (slice_span tr) evs)"

definition laminar :: "span list \<Rightarrow> bool" where
  "laminar ss \<longleftrightarrow> (\<forall>a \<in> set ss. \<forall>b \<in> set ss. apart_or_nested a b)"

definition track_end :: "Renderer \<Rightarrow> Track \<Rightarrow> nat" where
  "track_end r tr = unat (
     if pid tr = 2 then end_at (rx_end_us r) (tid tr - 200)
     else if pid tr \<noteq> 1 then 0
     else if tid tr = 1 then caller_end_us r
     else if tid tr = 2 then engine_end_us r
     else if 300 \<le> tid tr then end_at (ack_end_us r) (tid tr - 300)
     else end_at (send_end_us r) (tid tr - 100))"

definition tidy :: "nat \<Rightarrow> Renderer \<Rightarrow> bool" where
  "tidy L r \<longleftrightarrow> (\<forall>tr. track_end r tr \<le> L \<and> laminar (spans tr (slice_events r)) \<and>
     (\<forall>s \<in> set (spans tr (slice_events r)). snd s \<le> track_end r tr))"

lemma spans_append [simp]: "spans tr (xs @ ys) = spans tr xs @ spans tr ys"
  by (simp add: spans_def)

lemma spans_simps [simp]:
  "spans tr [] = []"
  "spans tr (e # es) = slice_span tr e @ spans tr es"
  by (simp_all add: spans_def)

lemma end_at_update [simp]: "end_at (AList.update i v m) j = (if j = i then v else end_at m j)"
  by (simp add: end_at_def update_conv')

lemma apart_sym: "apart_or_nested a b \<longleftrightarrow> apart_or_nested b a"
  by (auto simp: apart_or_nested_def)

lemma laminar_append:
  assumes "laminar xs" "laminar ys" "\<And>a b. a \<in> set xs \<Longrightarrow> b \<in> set ys \<Longrightarrow> snd a \<le> fst b"
  shows "laminar (xs @ ys)"
  using assms unfolding laminar_def by (auto simp: apart_or_nested_def)

lemma laminar_simps [simp]:
  "laminar []"
  "laminar [a]"
  by (simp_all add: laminar_def apart_or_nested_def)

text \<open>One emitter's work on one track.\<close>

lemma tidy_lay:
  assumes "tidy L r"
    and sp: "\<And>t. spans t (slice_events r') = spans t (slice_events r) @ (if t = tr then ss else [])"
    and other: "\<And>t. t \<noteq> tr \<Longrightarrow> track_end r' t = track_end r t"
    and "laminar ss" "\<forall>s \<in> set ss. track_end r tr \<le> fst s \<and> snd s \<le> track_end r' tr"
    and "track_end r tr \<le> track_end r' tr" "track_end r' tr \<le> L'" "L \<le> L'"
  shows "tidy L' r'"
  unfolding tidy_def
proof
  fix t :: Track
  note r = assms(1) [unfolded tidy_def, rule_format, of t]
  show "track_end r' t \<le> L' \<and> laminar (spans t (slice_events r')) \<and> (\<forall>s \<in> set (spans t (slice_events r')). snd s \<le> track_end r' t)"
  proof (cases "t = tr")
    case True
    have "laminar (spans tr (slice_events r) @ ss)"
      using r assms(4,5) True by (intro laminar_append) (auto intro: order_trans)
    then show ?thesis
      using r assms(5-8) True by (auto simp: sp intro: order_trans)
  next
    case False
    then show ?thesis
      using r assms(8) other [OF False] by (auto simp: sp)
  qed
qed

lemma tidy_quiet:
  assumes "tidy L r" "\<And>t. spans t (slice_events r') = spans t (slice_events r)" "\<And>t. track_end r' t = track_end r t" "L \<le> L'"
  shows "tidy L' r'"
  using assms unfolding tidy_def by (auto intro: order_trans)

section \<open>Emitters\<close>

text \<open>
  Recorded times are below \<open>max_us\<close>, which is more than a year of microseconds. An emitter moves an end by less than \<open>step_us\<close>.
\<close>

definition timed_chunk :: "ChunkTimeline \<Rightarrow> bool" where
  "timed_chunk c \<longleftrightarrow> unat (cl_enqueued_us c) < 2 ^ 45 \<and> unat (cl_dequeued_us c) < 2 ^ 45 \<and> unat (cl_tx_done_us c) < 2 ^ 45 \<and>
     unat (cl_ack_us c) < 2 ^ 45 \<and> 1 \<le> SendWorkerIdx c \<and> SendWorkerIdx c < 200"

definition timed_request :: "RequestTimeline \<Rightarrow> bool" where
  "timed_request req \<longleftrightarrow> unat (rl_dequeued_us req) < 2 ^ 45 \<and> (\<forall>c \<in> set (rl_chunks req). timed_chunk c)"

definition timed_post :: "PostTimeline \<Rightarrow> bool" where
  "timed_post post \<longleftrightarrow> unat (t_entry_us post) < 2 ^ 45 \<and> unat (t_enqueued_us post) < 2 ^ 45 \<and> unat (t_conn_start_us post) < 2 ^ 45 \<and>
     unat (t_host_info_done_us post) < 2 ^ 45 \<and> unat (t_conn_done_us post) < 2 ^ 45 \<and> unat (t_all_done_us post) < 2 ^ 45 \<and>
     unat (t_completed_us post) < 2 ^ 45 \<and> (\<forall>req \<in> set (pl_requests post). timed_request req)"

abbreviation max_us :: nat where "max_us \<equiv> 2 ^ 45"
abbreviation step_us :: nat where "step_us \<equiv> 2 ^ 46"

lemma track_end_simps:
  "track_end r kCallerTrack = unat (caller_end_us r)"
  "track_end r kEngineTrack = unat (engine_end_us r)"
  "track_end r (recv_track_of i) = unat (end_at (rx_end_us r) i)"
  "0 \<le> i \<Longrightarrow> track_end r (ack_track_of i) = unat (end_at (ack_end_us r) i)"
  "1 \<le> i \<Longrightarrow> i < 200 \<Longrightarrow> track_end r (send_track_of i) = unat (end_at (send_end_us r) i)"
  by (simp_all add: track_end_def kCallerTrack_def kEngineTrack_def recv_track_of_def ack_track_of_def send_track_of_def)

lemma tidy_endD:
  assumes "tidy L r"
  shows "unat (caller_end_us r) \<le> L" "unat (engine_end_us r) \<le> L" "unat (end_at (rx_end_us r) i) \<le> L"
    and "0 \<le> i \<Longrightarrow> unat (end_at (ack_end_us r) i) \<le> L"
    and "1 \<le> i \<Longrightarrow> i < 200 \<Longrightarrow> unat (end_at (send_end_us r) i) \<le> L"
proof -
  have *: "track_end r tr \<le> L" for tr
    using assms unfolding tidy_def by blast
  show "unat (caller_end_us r) \<le> L"
    using * [of kCallerTrack] by (simp add: track_end_simps)
  show "unat (engine_end_us r) \<le> L"
    using * [of kEngineTrack] by (simp add: track_end_simps)
  show "unat (end_at (rx_end_us r) i) \<le> L"
    using * [of "recv_track_of i"] by (simp add: track_end_simps)
  show "0 \<le> i \<Longrightarrow> unat (end_at (ack_end_us r) i) \<le> L"
    using * [of "ack_track_of i"] by (simp add: track_end_simps)
  show "1 \<le> i \<Longrightarrow> i < 200 \<Longrightarrow> unat (end_at (send_end_us r) i) \<le> L"
    using * [of "send_track_of i"] by (simp add: track_end_simps)
qed

text \<open>An end that moves leaves the ends of the other tracks alone.\<close>

lemma track_neq_cases:
  shows "t \<noteq> kCallerTrack \<Longrightarrow> pid t = 1 \<Longrightarrow> tid t \<noteq> 1"
    and "t \<noteq> kEngineTrack \<Longrightarrow> pid t = 1 \<Longrightarrow> tid t \<noteq> 2"
    and "t \<noteq> recv_track_of i \<Longrightarrow> pid t = 2 \<Longrightarrow> tid t - 200 \<noteq> i"
    and "t \<noteq> ack_track_of i \<Longrightarrow> pid t = 1 \<Longrightarrow> tid t - 300 \<noteq> i"
    and "t \<noteq> send_track_of i \<Longrightarrow> pid t = 1 \<Longrightarrow> tid t - 100 \<noteq> i"
  by (cases t; auto simp: kCallerTrack_def kEngineTrack_def recv_track_of_def ack_track_of_def send_track_of_def)+

lemma track_end_upd:
  shows "t \<noteq> kCallerTrack \<Longrightarrow> track_end (r\<lparr>caller_end_us := x\<rparr>) t = track_end r t"
    and "t \<noteq> kEngineTrack \<Longrightarrow> track_end (r\<lparr>engine_end_us := x\<rparr>) t = track_end r t"
    and "t \<noteq> recv_track_of i \<Longrightarrow> rx_end_us r = m \<Longrightarrow> track_end (r\<lparr>rx_end_us := AList.update i x m\<rparr>) t = track_end r t"
    and "t \<noteq> ack_track_of i \<Longrightarrow> ack_end_us r = m \<Longrightarrow> track_end (r\<lparr>ack_end_us := AList.update i x m\<rparr>) t = track_end r t"
    and "t \<noteq> send_track_of i \<Longrightarrow> send_end_us r = m \<Longrightarrow> track_end (r\<lparr>send_end_us := AList.update i x m\<rparr>) t = track_end r t"
  using track_neq_cases [of t] by (auto simp: track_end_def)

lemma track_end_other [simp]:
  "track_end (r\<lparr>slice_events := es\<rparr>) t = track_end r t"
  "track_end (r\<lparr>next_flow_id := f\<rparr>) t = track_end r t"
  "track_end (r\<lparr>send_workers_seen := w\<rparr>) t = track_end r t"
  "track_end (r\<lparr>recv_workers_seen := w\<rparr>) t = track_end r t"
  "track_end (r\<lparr>ack_workers_seen := w\<rparr>) t = track_end r t"
  by (simp_all add: track_end_def)

lemmas emit_defs = AddSlice_def AddFlow_def AddInstant_def SendTrack_def RecvTrack_def AckTrack_def Let_def

lemma track_pids [simp]:
  "pid kCallerTrack = 1" "pid kEngineTrack = 1" "pid (recv_track_of i) = 2" "pid (ack_track_of i) = 1" "pid (send_track_of i) = 1"
  by (simp_all add: kCallerTrack_def kEngineTrack_def recv_track_of_def ack_track_of_def send_track_of_def)

lemma tidy_EmitPostEnqueue:
  assumes "tidy L r" "timed_post post" "L + step_us < 2 ^ 64"
  shows "tidy (L + step_us) (snd (EmitPostEnqueue post r))"
proof -
  define start where "start = max (t_entry_us post) (caller_end_us r)"
  define dur where "dur = ClampedElapsed start (t_enqueued_us post)"
  have s: "unat (caller_end_us r) \<le> unat start" "unat start \<le> L + max_us"
    using assms(2) tidy_endD(1) [OF assms(1)] by (simp_all add: start_def us_nat timed_post_def)
  have d: "unat dur \<le> max_us"
    using assms(2) by (auto simp: dur_def us_nat timed_post_def)
  have e: "unat (start + dur) = unat start + unat dur"
    by (rule unat_add_small) (use s d assms(3) in simp)
  let ?r = "snd (EmitPostEnqueue post r)"
  note unfold = EmitPostEnqueue_def emit_defs start_def [symmetric] dur_def [symmetric]
  have sp: "spans t (slice_events ?r) = spans t (slice_events r) @ (if t = kCallerTrack then [(unat start, unat start + unat dur)] else [])" for t
    by (simp add: unfold)
  have oth: "t \<noteq> kCallerTrack \<Longrightarrow> track_end ?r t = track_end r t" for t
    by (simp add: unfold track_end_upd)
  have fin: "track_end ?r kCallerTrack = unat start + unat dur"
    using e by (simp add: unfold track_end_simps)
  show ?thesis
    by (rule tidy_lay [OF assms(1) sp oth]) (use fin s d assms(3) in \<open>simp_all add: track_end_simps\<close>)
qed

lemma EngineStartUs_small: "timed_post post \<Longrightarrow> unat (EngineStartUs post) < max_us"
  by (auto simp: EngineStartUs_def timed_post_def timed_request_def split: list.splits)

lemma tidy_EmitEngineQueueWait:
  assumes "tidy L r" "timed_post post" "L + step_us < 2 ^ 64"
  shows "tidy (L + step_us) (EmitEngineQueueWait post ts r)"
proof -
  define start where "start = max (caller_end_us r) (engine_end_us r)"
  define cur where "cur = max start (EngineStartUs post)"
  define dur where "dur = ClampSliceDur (cur - start)"
  have s: "unat (engine_end_us r) \<le> unat start" "unat start \<le> L" "unat start \<le> unat cur" "unat cur \<le> L + max_us"
    using tidy_endD(1,2) [OF assms(1)] EngineStartUs_small [OF assms(2)] by (simp_all add: start_def cur_def us_nat)
  have d: "unat dur \<le> max_us"
    using EngineStartUs_small [OF assms(2)] s(3) by (auto simp: dur_def cur_def us_nat unat_sub_if')
  have e: "unat (start + dur) = unat start + unat dur"
    by (rule unat_add_small) (use s d assms(3) in simp)
  define waits where "waits \<longleftrightarrow> start < cur \<or> 0 < Elapsed (t_enqueued_us post) (EngineStartUs post)"
  define fin where "fin = (if waits then start + dur else cur)"
  have u: "unat start \<le> unat fin" "unat fin \<le> L + step_us"
    using s d e by (auto simp: fin_def)
  let ?r = "EmitEngineQueueWait post ts r"
  note unfold = EmitEngineQueueWait_def emit_defs start_def [symmetric] cur_def [symmetric] dur_def [symmetric] waits_def [symmetric]
  have sp: "spans t (slice_events ?r) = spans t (slice_events r) @ (if t = kEngineTrack then if waits then [(unat start, unat start + unat dur)] else [] else [])" for t
    by (simp add: unfold)
  have oth: "t \<noteq> kEngineTrack \<Longrightarrow> track_end ?r t = track_end r t" for t
    by (cases waits) (simp_all add: unfold track_end_upd)
  have fin: "track_end ?r kEngineTrack = unat fin"
    by (simp add: unfold track_end_simps fin_def)
  show ?thesis
    by (rule tidy_lay [OF assms(1) sp oth]) (use fin s d e u in \<open>auto simp: track_end_simps fin_def\<close>)
qed

lemma tidy_EmitConnSetup:
  assumes "tidy L r" "timed_post post" "L + step_us < 2 ^ 64"
  shows "tidy (L + step_us) (EmitConnSetup post r)"
proof (cases "t_conn_start_us post = 0 \<and> t_conn_done_us post = 0")
  case True
  then show ?thesis
    using assms(1) by (auto simp: EmitConnSetup_def intro: tidy_quiet)
next
  case False
  define e where "e = engine_end_us r"
  define dur where "dur = ClampedElapsed e (t_conn_done_us post)"
  define host where "host = Elapsed (t_conn_start_us post) (t_host_info_done_us post)"
  define conn where "conn = Elapsed (max (t_conn_start_us post) (t_host_info_done_us post)) (t_conn_done_us post)"
  have l: "unat e \<le> L"
    using tidy_endD(2) [OF assms(1)] by (simp add: e_def)
  have d: "unat dur \<le> max_us" "unat host \<le> max_us" "unat conn \<le> max_us"
    using assms(2) by (auto simp: dur_def host_def conn_def us_nat timed_post_def)
  have u: "unat (e + dur) = unat e + unat dur" "unat (host + conn) = unat host + unat conn" "unat (e + host) = unat e + unat host"
    using l d assms(3) by (simp_all add: unat_add_small)
  define shows_host where "shows_host \<longleftrightarrow> 0 < host \<and> host \<le> dur"
  define shows_conn where "shows_conn \<longleftrightarrow> 0 < conn \<and> host + conn \<le> dur"
  let ?r = "EmitConnSetup post r"
  let ?ss = "(unat e, unat e + unat dur) # (if shows_host then [(unat e, unat e + unat host)] else []) @
    (if shows_conn then [(unat e + unat host, unat e + unat host + unat conn)] else [])"
  note unfold = EmitConnSetup_def emit_defs if_not_P [OF False] e_def [symmetric] dur_def [symmetric] host_def [symmetric] conn_def [symmetric]
    shows_host_def [symmetric] shows_conn_def [symmetric]
  have sp: "spans t (slice_events ?r) = spans t (slice_events r) @ (if t = kEngineTrack then ?ss else [])" for t
    by (cases shows_host; cases shows_conn; simp add: unfold u)
  have oth: "t \<noteq> kEngineTrack \<Longrightarrow> track_end ?r t = track_end r t" for t
    by (cases shows_host; cases shows_conn; simp add: unfold track_end_upd)
  have fin: "track_end ?r kEngineTrack = unat e + unat dur"
    by (cases shows_host; cases shows_conn; simp add: unfold track_end_simps u)
  have le: "shows_host \<Longrightarrow> unat host \<le> unat dur" "shows_conn \<Longrightarrow> unat host + unat conn \<le> unat dur"
    using u by (simp_all add: shows_host_def shows_conn_def word_le_nat_alt)
  then have lam: "laminar ?ss"
    by (auto simp: laminar_def apart_or_nested_def)
  show ?thesis
    by (rule tidy_lay [OF assms(1) sp oth lam]) (use fin l d le in \<open>auto simp: track_end_simps e_def\<close>)
qed

lemma tidy_EmitRequestFanout:
  assumes "tidy L r" "timed_request req" "L + step_us < 2 ^ 64"
  shows "tidy (L + step_us) (snd (EmitRequestFanout handle req r))"
    and "unat (fst (EmitRequestFanout handle req r)) \<le> L + step_us"
proof -
  define start where "start = max (engine_end_us r) (rl_dequeued_us req)"
  define last_us where "last_us = fold (\<lambda>c t. max t (cl_enqueued_us c)) (rl_chunks req) 0"
  define dur where "dur = ClampedElapsed start last_us"
  have "unat t < max_us \<Longrightarrow> \<forall>c \<in> set cs. timed_chunk c \<Longrightarrow> unat (fold (\<lambda>c t. max t (cl_enqueued_us c)) cs t) < max_us" for t cs
    by (induction cs arbitrary: t) (simp_all add: timed_chunk_def us_nat)
  then have "unat last_us < max_us"
    using assms(2) by (simp add: last_us_def timed_request_def)
  then have d: "unat dur \<le> max_us"
    by (auto simp: dur_def us_nat)
  have s: "unat (engine_end_us r) \<le> unat start" "unat start \<le> L + max_us"
    using tidy_endD(2) [OF assms(1)] assms(2) by (simp_all add: start_def us_nat timed_request_def)
  have e: "unat (start + dur) = unat start + unat dur"
    by (rule unat_add_small) (use s d assms(3) in simp)
  let ?r = "snd (EmitRequestFanout handle req r)"
  note unfold = EmitRequestFanout_def emit_defs start_def [symmetric] last_us_def [symmetric] dur_def [symmetric]
  have sp: "spans t (slice_events ?r) = spans t (slice_events r) @ (if t = kEngineTrack then [(unat start, unat start + unat dur)] else [])" for t
    by (simp add: unfold)
  have oth: "t \<noteq> kEngineTrack \<Longrightarrow> track_end ?r t = track_end r t" for t
    by (simp add: unfold track_end_upd)
  have fin: "track_end ?r kEngineTrack = unat start + unat dur"
    using e by (simp add: unfold track_end_simps)
  show "tidy (L + step_us) ?r"
    by (rule tidy_lay [OF assms(1) sp oth]) (use fin s d in \<open>auto simp: track_end_simps\<close>)
  show "unat (fst (EmitRequestFanout handle req r)) \<le> L + step_us"
    using s by (simp add: unfold)
qed

lemma tidy_EmitRemoteRecv:
  assumes "tidy L r" "unat t_deq \<le> L" "unat t_ack \<le> L" "L + step_us < 2 ^ 64"
  shows "tidy (L + step_us) (snd (EmitRemoteRecv handle reqid c tr t_deq t_ack r))"
proof -
  define i where "i = RecvWorkerIdx c"
  define total where "total = (ucast (rx_acquire_us c + rx_payload_us c) :: u64)"
  define rtt where "rtt = (if t_deq < t_ack then t_ack - t_deq else ClampSliceDur total)"
  define transit where "transit = (if total < rtt then rtt - total else 0)"
  define start where "start = max (t_deq + transit div 2) (end_at (rx_end_us r) i)"
  define acq where "acq = ClampSliceDur (ucast (rx_acquire_us c))"
  define pay where "pay = ClampSliceDur (ucast (rx_payload_us c))"
  have d: "unat acq \<le> 2 ^ 32" "unat pay \<le> 2 ^ 32"
    using unat_u32_less [of "rx_acquire_us c"] unat_u32_less [of "rx_payload_us c"] by (simp_all add: acq_def pay_def us_nat)
  have tr: "unat transit \<le> (if unat t_deq < unat t_ack then unat t_ack - unat t_deq else 1)"
    by (auto simp: transit_def rtt_def us_nat word_less_nat_alt unat_sub_if')
  then have t: "unat (t_deq + transit div 2) \<le> L + 1"
    using assms(2,3,4) by (subst unat_add_small) (auto simp: unat_div split: if_splits)
  have s: "unat (end_at (rx_end_us r) i) \<le> unat start" "unat start \<le> L + 1"
    using t tidy_endD(3) [OF assms(1), of i] by (simp_all add: start_def us_nat)
  have u: "unat (acq + pay) = unat acq + unat pay" "unat (start + acq) = unat start + unat acq"
    "unat (start + (acq + pay)) = unat start + unat acq + unat pay"
    using s d assms(4) by (simp_all add: unat_add_small)
  let ?r = "snd (EmitRemoteRecv handle reqid c tr t_deq t_ack r)"
  let ?ss = "[(unat start, unat start + unat acq + unat pay), (unat start, unat start + unat acq),
    (unat start + unat acq, unat start + unat acq + unat pay)]"
  note unfold = EmitRemoteRecv_def emit_defs prod.case snd_conv Renderer.simps i_def [symmetric] total_def [symmetric] rtt_def [symmetric] transit_def [symmetric]
    start_def [symmetric] acq_def [symmetric] pay_def [symmetric]
  have sp: "spans t (slice_events ?r) = spans t (slice_events r) @ (if t = recv_track_of i then ?ss else [])" for t
    by (simp only: unfold) (simp add: start_def [symmetric] u)
  have oth: "t \<noteq> recv_track_of i \<Longrightarrow> track_end ?r t = track_end r t" for t
    by (simp only: unfold) (simp add: start_def [symmetric] track_end_upd)
  have fin: "track_end ?r (recv_track_of i) = unat start + unat acq + unat pay"
    by (simp only: unfold) (simp add: start_def [symmetric] track_end_simps u)
  show ?thesis
    by (rule tidy_lay [OF assms(1) sp oth]) (use fin s d in \<open>auto simp: track_end_simps laminar_def apart_or_nested_def\<close>)
qed

lemma tidy_EmitChunkAck:
  assumes "tidy L r" "timed_chunk c" "unat t_deq \<le> L" "unat t_tx \<le> L" "L + 2 * step_us < 2 ^ 64"
  shows "tidy (L + 2 * step_us) (EmitChunkAck handle reqid c tr t_deq t_tx r)"
proof (cases "cl_ack_us c = 0")
  case True
  then show ?thesis
    using assms(1) by (auto simp: EmitChunkAck_def intro: tidy_quiet)
next
  case False
  define rtt where "rtt = Elapsed (cl_dequeued_us c) (cl_ack_us c)"
  define t_ack where "t_ack = (if t_tx \<le> cl_ack_us c then cl_ack_us c else max t_tx (t_deq + rtt))"
  define r1 where "r1 = snd (EmitRemoteRecv handle reqid c tr t_deq t_ack r)"
  define i where "i = SendWorkerIdx c"
  define start where "start = max (end_at (ack_end_us r1) i) (if 1 < t_ack then t_ack - 1 else t_ack)"
  define dur where "dur = (if start \<le> t_ack then t_ack - start + 1 else 1)"
  have i: "0 \<le> i"
    using assms(2) by (simp add: i_def timed_chunk_def)
  have "unat rtt \<le> max_us"
    using assms(2) by (auto simp: rtt_def us_nat timed_chunk_def)
  then have a: "unat t_ack \<le> L + max_us"
    using assms(2-5) by (simp add: t_ack_def us_nat timed_chunk_def unat_add_small)
  have r1: "tidy (L + max_us + step_us) r1"
    unfolding r1_def using assms a by (intro tidy_EmitRemoteRecv) (auto intro: tidy_quiet)
  have t: "unat (t_ack - 1) = unat t_ack - 1" if "1 < t_ack"
    using that by (simp add: word_less_nat_alt unat_sub_if')
  have s: "unat (end_at (ack_end_us r1) i) \<le> unat start" "unat start \<le> L + max_us + step_us"
    using a t tidy_endD(4) [OF r1 i] by (auto simp: start_def us_nat)
  have "unat t_ack - unat start \<le> 1"
    using t by (auto simp: start_def us_nat word_less_nat_alt)
  then have d: "1 \<le> unat dur" "unat dur \<le> 2"
    using a assms(5) by (auto simp: dur_def word_le_nat_alt unat_sub_if' unat_word_ariths)
  have e: "unat (start + dur) = unat start + unat dur"
    by (rule unat_add_small) (use s d assms(5) in simp)
  let ?r = "EmitChunkAck handle reqid c tr t_deq t_tx r"
  obtain p where p: "EmitRemoteRecv handle reqid c tr t_deq t_ack r = (p, r1)"
    by (metis r1_def prod.collapse)
  note unfold = EmitChunkAck_def if_not_P [OF False] rtt_def [symmetric] t_ack_def [symmetric] emit_defs p prod.case Renderer.simps i_def [symmetric]
    start_def [symmetric] dur_def [symmetric]
  have sp: "spans t (slice_events ?r) = spans t (slice_events r1) @ (if t = ack_track_of i then [(unat start, unat start + unat dur)] else [])" for t
    by (cases p) (simp add: unfold eq_commute [of t] del: max.bounded_iff cong: if_cong split del: if_split)
  have oth: "t \<noteq> ack_track_of i \<Longrightarrow> track_end ?r t = track_end r1 t" for t
    by (cases p) (simp add: unfold track_end_upd del: max.bounded_iff cong: if_cong split del: if_split)
  have fin: "track_end ?r (ack_track_of i) = unat start + unat dur"
    using i by (cases p) (simp add: unfold track_end_simps e del: max.bounded_iff cong: if_cong split del: if_split)
  show ?thesis
    by (rule tidy_lay [OF r1 sp oth]) (use fin s d i in \<open>auto simp: track_end_simps\<close>)
qed

lemma tidy_EmitChunk:
  assumes "tidy L r" "timed_chunk c" "unat fanout \<le> L" "L + 3 * step_us < 2 ^ 64"
  shows "tidy (L + 3 * step_us) (EmitChunk handle reqid fanout c r)"
proof -
  define i where "i = SendWorkerIdx c"
  define wait where "wait = Elapsed (cl_enqueued_us c) (cl_dequeued_us c)"
  define enq where "enq = (if 0 < cl_enqueued_us c then max (cl_enqueued_us c) fanout else fanout)"
  define e where "e = end_at (send_end_us r) i"
  define start where "start = max enq e"
  define deq where "deq = max start (cl_dequeued_us c)"
  define vis where "vis = Elapsed start deq"
  define qdur where "qdur = ClampSliceDur vis"
  define waits where "waits \<longleftrightarrow> 0 < vis \<or> 0 < wait"
  define t_deq where "t_deq = (if waits then start + qdur else deq)"
  define tdur where "tdur = ClampSliceDur (Elapsed (cl_dequeued_us c) (cl_tx_done_us c))"
  have i: "1 \<le> i" "i < 200"
    using assms(2) by (simp_all add: i_def timed_chunk_def)
  have s: "unat e \<le> unat start" "unat start \<le> L + max_us" "unat start \<le> unat deq" "unat deq \<le> L + max_us"
    using assms(2,3) tidy_endD(5) [OF assms(1) i] by (auto simp: start_def enq_def e_def deq_def us_nat timed_chunk_def)
  have d: "unat qdur \<le> unat deq - unat start + 1" "unat tdur < max_us"
    using assms(2) by (auto simp: qdur_def vis_def tdur_def us_nat timed_chunk_def)
  have q: "unat (start + qdur) = unat start + unat qdur"
    by (rule unat_add_small) (use s d assms(4) in simp)
  have t: "unat start \<le> unat t_deq" "unat t_deq \<le> L + max_us + 1" "waits \<Longrightarrow> unat t_deq = unat start + unat qdur"
    using s d q by (auto simp: t_deq_def)
  have x: "unat (t_deq + tdur) = unat t_deq + unat tdur"
    by (rule unat_add_small) (use t d assms(4) in simp)
  obtain r1 where r1: "EmitChunk handle reqid fanout c r = EmitChunkAck handle reqid c (send_track_of i) t_deq (t_deq + tdur) r1"
    and sp: "\<And>t. spans t (slice_events r1) = spans t (slice_events r) @ (if t = send_track_of i
      then (if waits then [(unat start, unat start + unat qdur)] else []) @ [(unat t_deq, unat t_deq + unat tdur)] else [])"
    and oth: "\<And>t. t \<noteq> send_track_of i \<Longrightarrow> track_end r1 t = track_end r t"
    and fin: "track_end r1 (send_track_of i) = unat t_deq + unat tdur"
  proof -
    note folds = i_def [symmetric] wait_def [symmetric] enq_def [symmetric] e_def [symmetric] start_def [symmetric] deq_def [symmetric]
      vis_def [symmetric] qdur_def [symmetric] waits_def [symmetric] tdur_def [symmetric]
    show thesis
    proof (cases waits)
      case True
      then have [simp]: "t_deq = start + qdur"
        by (simp add: t_deq_def)
      show thesis
        by (rule that, simp add: EmitChunk_def emit_defs folds True del: max.bounded_iff max_less_iff_conj cong: if_cong split del: if_split)
          (use i x True in \<open>simp_all add: track_end_upd track_end_simps\<close>)
    next
      case False
      then have [simp]: "t_deq = deq"
        by (simp add: t_deq_def)
      show thesis
        by (rule that, simp add: EmitChunk_def emit_defs folds False del: max.bounded_iff max_less_iff_conj cong: if_cong split del: if_split)
          (use i x False in \<open>simp_all add: track_end_upd track_end_simps\<close>)
    qed
  qed
  have "tidy (L + step_us) r1"
    by (rule tidy_lay [OF assms(1) sp oth])
      (use fin s d t i in \<open>auto simp: track_end_simps laminar_def apart_or_nested_def e_def [symmetric]\<close>)
  then have "tidy (L + step_us + 2 * step_us) (EmitChunk handle reqid fanout c r)"
    unfolding r1 by (rule tidy_EmitChunkAck) (use assms(2,4) t d x in simp_all)
  then show ?thesis
    by (simp add: add.commute)
qed

lemma tidy_EmitRequestDone: "tidy L r \<Longrightarrow> tidy L (EmitRequestDone post req r)"
  by (erule tidy_quiet) (simp_all add: EmitRequestDone_def emit_defs)

lemma AckWorkerIdx_pos: "0 \<le> AckWorkerIdx w"
  by (simp add: AckWorkerIdx_def)

lemma tidy_EmitCompletion:
  assumes "tidy L r" "timed_post post" "L + step_us < 2 ^ 64"
  shows "tidy (L + step_us) (EmitCompletion post r)"
proof (cases "t_all_done_us post = 0")
  case True
  then show ?thesis
    using assms(1) by (auto simp: EmitCompletion_def intro: tidy_quiet)
next
  case False
  define i where "i = AckWorkerIdx (all_done_worker_id post)"
  define start where "start = max (t_all_done_us post) (end_at (ack_end_us r) i)"
  have i: "0 \<le> i"
    by (simp add: i_def AckWorkerIdx_pos)
  have s: "unat (end_at (ack_end_us r) i) \<le> unat start" "unat start \<le> L + max_us"
    using assms(2) tidy_endD(4) [OF assms(1) i] by (simp_all add: start_def us_nat timed_post_def)
  note unfold = EmitCompletion_def emit_defs if_not_P [OF False] i_def [symmetric] start_def [symmetric]
  let ?r = "EmitCompletion post r"
  show ?thesis
  proof (cases "completion_mode post")
    case kUnknown
    show ?thesis
      by (rule tidy_quiet [OF assms(1)]) (simp_all add: unfold kUnknown)
  next
    case kCallback
    define dur where "dur = ClampedElapsed start (t_completed_us post)"
    have d: "unat dur \<le> max_us"
      using assms(2) by (auto simp: dur_def us_nat timed_post_def)
    have e: "unat (start + dur) = unat start + unat dur"
      by (rule unat_add_small) (use s d assms(3) in simp)
    have sp: "spans t (slice_events ?r) = spans t (slice_events r) @ (if t = ack_track_of i then [(unat start, unat start + unat dur)] else [])" for t
      by (simp add: unfold kCallback dur_def [symmetric])
    have oth: "t \<noteq> ack_track_of i \<Longrightarrow> track_end ?r t = track_end r t" for t
      by (simp add: unfold kCallback track_end_upd)
    have fin: "track_end ?r (ack_track_of i) = unat start + unat dur"
      by (simp add: unfold kCallback dur_def [symmetric] track_end_simps i e)
    show ?thesis
      by (rule tidy_lay [OF assms(1) sp oth]) (use fin s d i in \<open>auto simp: track_end_simps\<close>)
  next
    case kPoll
    define w where "w = max start (caller_end_us r)"
    define t where "t = max w (t_completed_us post)"
    define dur where "dur = Elapsed w t"
    have t: "unat (caller_end_us r) \<le> unat w" "unat w \<le> unat t" "unat t \<le> L + max_us"
      using assms(2) s tidy_endD(1) [OF assms(1)] by (auto simp: w_def t_def us_nat timed_post_def)
    have e: "unat (t + 1) = unat t + 1"
      by (subst unat_add_small) (use t assms(3) in simp_all)
    have d: "0 < dur \<Longrightarrow> unat w + unat dur = unat t"
      by (auto simp: dur_def us_nat word_less_nat_alt split: if_splits)
    have sp: "spans tr (slice_events ?r) = spans tr (slice_events r) @
        (if tr = kCallerTrack then (if 0 < dur then [(unat w, unat w + unat dur)] else []) @ [(unat t, unat t + 1)] else [])" for tr
      by (simp add: unfold kPoll w_def [symmetric] t_def [symmetric] dur_def [symmetric])
    have oth: "tr \<noteq> kCallerTrack \<Longrightarrow> track_end ?r tr = track_end r tr" for tr
      by (cases "0 < dur") (simp_all add: unfold kPoll w_def [symmetric] t_def [symmetric] dur_def [symmetric] track_end_upd)
    have fin: "track_end ?r kCallerTrack = unat t + 1"
      by (simp add: unfold kPoll w_def [symmetric] t_def [symmetric] dur_def [symmetric] track_end_simps e)
    show ?thesis
      by (rule tidy_lay [OF assms(1) sp oth])
        (use fin t d in \<open>auto simp: track_end_simps laminar_def apart_or_nested_def\<close>)
  qed
qed

section \<open>All of a rendering\<close>

definition request_cost :: "RequestTimeline \<Rightarrow> nat" where
  "request_cost req = 1 + 3 * length (rl_chunks req)"

definition post_cost :: "PostTimeline \<Rightarrow> nat" where
  "post_cost post = 4 + sum_list (map request_cost (pl_requests post))"

text \<open>A loop whose body moves the bound by a cost.\<close>

lemma tidy_fold:
  assumes "tidy L r" "L + sum_list (map cost xs) * step_us < 2 ^ 64"
    and "\<And>x L' r. x \<in> set xs \<Longrightarrow> tidy L' r \<Longrightarrow> L \<le> L' \<Longrightarrow> L' + cost x * step_us < 2 ^ 64 \<Longrightarrow> tidy (L' + cost x * step_us) (f x r)"
  shows "tidy (L + sum_list (map cost xs) * step_us) (fold f xs r)"
  using assms
proof (induction xs arbitrary: L r)
  case (Cons x xs)
  have "tidy (L + cost x * step_us) (f x r)"
    by (rule Cons.prems(3)) (use Cons.prems(1,2) in \<open>auto simp: algebra_simps\<close>)
  then have "tidy (L + cost x * step_us + sum_list (map cost xs) * step_us) (fold f xs (f x r))"
    by (rule Cons.IH) (use Cons.prems(2,3) in \<open>auto simp: algebra_simps\<close>)
  then show ?case
    by (simp add: algebra_simps)
qed simp

lemma tidy_EmitRequest:
  assumes "tidy L r" "timed_request req" "L + request_cost req * step_us < 2 ^ 64"
  shows "tidy (L + request_cost req * step_us) (EmitRequest post req r)"
proof -
  define handle where "handle = pl_handle post"
  obtain fanout r1 where f: "EmitRequestFanout handle req r = (fanout, r1)"
    by fastforce
  have b: "L + step_us < 2 ^ 64"
    using assms(3) by (simp add: request_cost_def algebra_simps)
  have 1: "tidy (L + step_us) r1" "unat fanout \<le> L + step_us"
    using tidy_EmitRequestFanout [OF assms(1,2) b, of handle] by (simp_all add: f)
  let ?cost = "\<lambda>c :: ChunkTimeline. 3 :: nat"
  have "sum_list (map ?cost (rl_chunks req)) = 3 * length (rl_chunks req)"
    by (simp add: sum_list_triv)
  moreover have body: "tidy (L' + ?cost c * step_us) (EmitChunk handle (rl_reqid req) fanout c r)"
    if "c \<in> set (rl_chunks req)" "tidy L' r" "L + step_us \<le> L'" "L' + ?cost c * step_us < 2 ^ 64" for c L' r
    using that assms(2) 1(2) unfolding timed_request_def by (intro tidy_EmitChunk) (blast intro: order_trans)+
  moreover have "tidy (L + step_us + sum_list (map ?cost (rl_chunks req)) * step_us)
      (fold (EmitChunk handle (rl_reqid req) fanout) (rl_chunks req) r1)"
    by (rule tidy_fold [OF 1(1) _ body], use assms(3) calculation(1) in \<open>simp add: request_cost_def algebra_simps\<close>)
  ultimately have "tidy (L + request_cost req * step_us) (fold (EmitChunk handle (rl_reqid req) fanout) (rl_chunks req) r1)"
    by (simp add: request_cost_def algebra_simps)
  then show ?thesis
    by (simp add: EmitRequest_def handle_def [symmetric] f tidy_EmitRequestDone)
qed

lemma tidy_EmitPost:
  assumes "tidy L r" "timed_post post" "L + post_cost post * step_us < 2 ^ 64"
  shows "tidy (L + post_cost post * step_us) (EmitPost post r)"
proof -
  obtain ts r1 where q: "EmitPostEnqueue post r = (ts, r1)"
    by fastforce
  have b: "L + 3 * step_us + sum_list (map request_cost (pl_requests post)) * step_us + step_us < 2 ^ 64"
    using assms(3) by (simp add: post_cost_def algebra_simps)
  have "tidy (L + step_us) r1"
    using tidy_EmitPostEnqueue [OF assms(1,2)] b by (simp add: q)
  then have "tidy (L + step_us + step_us) (EmitEngineQueueWait post ts r1)"
    by (rule tidy_EmitEngineQueueWait [OF _ assms(2)]) (use b in simp)
  then have "tidy (L + step_us + step_us + step_us) (EmitConnSetup post (EmitEngineQueueWait post ts r1))"
    by (rule tidy_EmitConnSetup [OF _ assms(2)]) (use b in simp)
  then have "tidy (L + 3 * step_us) (EmitConnSetup post (EmitEngineQueueWait post ts r1))"
    by (simp add: algebra_simps)
  then have "tidy (L + 3 * step_us + sum_list (map request_cost (pl_requests post)) * step_us)
      (fold (EmitRequest post) (pl_requests post) (EmitConnSetup post (EmitEngineQueueWait post ts r1)))"
    by (rule tidy_fold [OF _ _ tidy_EmitRequest]) (use b assms(2) in \<open>simp_all add: timed_post_def\<close>)
  then have "tidy (L + 3 * step_us + sum_list (map request_cost (pl_requests post)) * step_us + step_us) (EmitPost post r)"
    unfolding EmitPost_def q Let_def prod.case by (rule tidy_EmitCompletion [OF _ assms(2) b])
  then show ?thesis
    by (simp add: post_cost_def algebra_simps)
qed

lemma tidy_new: "tidy 0 Renderer_new"
  by (simp add: tidy_def Renderer_new_def track_end_def end_at_def)

lemma tidy_rendering:
  assumes "\<forall>post \<in> set posts. timed_post post" "sum_list (map post_cost posts) * step_us < 2 ^ 64"
  shows "tidy (sum_list (map post_cost posts) * step_us) (fold EmitPost posts Renderer_new)"
proof -
  have "tidy (0 + sum_list (map post_cost posts) * step_us) (fold EmitPost posts Renderer_new)"
    by (rule tidy_fold [OF tidy_new _ tidy_EmitPost]) (use assms in simp_all)
  then show ?thesis
    by simp
qed

lemma tidy_laminar: "tidy L r \<Longrightarrow> laminar (spans tr (slice_events r))"
  by (auto simp: tidy_def)

text \<open>The ranges of thread ids meet: send worker 201 and the acknowledgements of worker 1 share a track.\<close>

lemma send_track_meets_ack_track: "send_track_of (200 + i) = ack_track_of i"
  by (simp add: send_track_of_def ack_track_of_def)

end
