(* ===== verification/TraceProps.thy ===== *)
theory TraceProps
  imports TraceTidy Transport
begin

text \<open>
  The Chrome trace exporter from recorded events to slices: what \<open>GroupEventsByHandle\<close> keeps of the bounds on events, and
  how many slices the events of a full ring buffer can give.
\<close>

section \<open>Export\<close>

definition Helper_ExportChromeTraceJson :: "'a text_lib_scheme \<Rightarrow> EngineHelper \<Rightarrow> TraceRecorder \<Rightarrow> string" where
  "Helper_ExportChromeTraceJson L eh tracer = Export (TraceBuffer_Snapshot (tr_buffer tracer)) (Endpoint_ToString L (control_plane_listener (eh_self eh)))"

definition ExportChromeTraceJson :: "'a text_lib_scheme \<Rightarrow> 's TransportImpl \<Rightarrow> string" where
  "ExportChromeTraceJson L t = Helper_ExportChromeTraceJson L (tp_helper t) (env_tracer (sh_env (eg_sh (tp_engine t))))"

section \<open>Map entries\<close>

lemma set_AList_update: "set (AList.update k v m) \<subseteq> insert (k, v) (set m)"
  by (induction m) auto

lemma upd_entry_all:
  assumes "\<forall>(k, v) \<in> set m. P k v" "P kk new" "\<And>v. P kk v \<Longrightarrow> P kk (f v)"
  shows "\<forall>(k, v) \<in> set (upd_entry new kk f m). P k v"
proof -
  have "P kk (case map_of m kk of None \<Rightarrow> new | Some v \<Rightarrow> v)"
    using assms(1,2) by (auto split: option.split dest: map_of_SomeD)
  then have "P kk (f (case map_of m kk of None \<Rightarrow> new | Some v \<Rightarrow> v))"
    by (rule assms(3))
  then show ?thesis
    using assms(1) set_AList_update unfolding upd_entry_def by fastforce
qed

lemma sum_AList_update:
  fixes g :: "'v \<Rightarrow> nat"
  shows "sum_list (map (g \<circ> snd) (AList.update k v m)) + (case map_of m k of None \<Rightarrow> 0 | Some w \<Rightarrow> g w) = sum_list (map (g \<circ> snd) m) + g v"
  by (induction m) (auto split: option.splits)

lemma upd_entry_sum:
  fixes g :: "'v \<Rightarrow> nat"
  assumes "\<And>v. g (f v) \<le> g v + d"
  shows "sum_list (map (g \<circ> snd) (upd_entry new kk f m)) \<le> sum_list (map (g \<circ> snd) m) + g new + d"
  using sum_AList_update [of g kk "f (case map_of m kk of None \<Rightarrow> new | Some v \<Rightarrow> v)" m] assms [of new] assms [of "the (map_of m kk)"]
  by (auto simp: upd_entry_def split: option.splits)

lemma upd_entry_length: "length (upd_entry new kk f m) \<le> Suc (length m)"
  using upd_entry_sum [of "\<lambda>_. 1" f 0 new kk m] by (simp add: sum_list_triv comp_def)

section \<open>Bounds through grouping\<close>

definition small_event :: "TraceEvent \<Rightarrow> bool" where
  "small_event ev \<longleftrightarrow> unat (te_timestamp_us ev) < 2 ^ 45 \<and> sint (te_worker_id ev) < 200 \<and> (te_chunk_idx ev < 199 \<or> te_chunk_idx ev = kNoChunk)"

definition small_chunk :: "u32 \<Rightarrow> ChunkTimeline \<Rightarrow> bool" where
  "small_chunk index c \<longleftrightarrow> index < 199 \<and> timed_chunk (c\<lparr>cl_index := index\<rparr>) \<and> sint (send_worker_id c) < 200"

definition small_request :: "RequestState \<Rightarrow> bool" where
  "small_request req \<longleftrightarrow> unat (rl_dequeued_us (rst_timeline req)) < 2 ^ 45 \<and> (\<forall>(index, c) \<in> set (rst_chunks req). small_chunk index c)"

definition small_post :: "PostState \<Rightarrow> bool" where
  "small_post post \<longleftrightarrow> timed_post ((pst_timeline post)\<lparr>pl_requests := []\<rparr>) \<and> (\<forall>(reqid, req) \<in> set (pst_requests post). small_request req)"

lemma sint_index: 
  assumes "index < (199 :: u32)"
  shows "sint (index + 1) = uint index + 1"
proof -
  have "uint index < 199"
    using assms by (simp add: word_less_def)
  moreover have "index + 1 = word_of_int (uint index + 1)"
    by simp
  ultimately show ?thesis
    by (simp only: signed_of_int) (simp add: signed_take_bit_int_eq_self)
qed

lemma small_chunk_iff:
  "small_chunk index c \<longleftrightarrow> index < 199 \<and> unat (cl_enqueued_us c) < 2 ^ 45 \<and> unat (cl_dequeued_us c) < 2 ^ 45 \<and>
     unat (cl_tx_done_us c) < 2 ^ 45 \<and> unat (cl_ack_us c) < 2 ^ 45 \<and> sint (send_worker_id c) < 200"
  using uint_ge_0 [of index] by (auto simp: small_chunk_def timed_chunk_def SendWorkerIdx_def sint_index word_less_def)

lemma small_new [simp]:
  "index < 199 \<Longrightarrow> small_chunk index ChunkTimeline_new"
  "small_request RequestState_new"
  "small_post PostState_new"
  by (simp_all add: small_chunk_iff ChunkTimeline_new_def small_request_def RequestState_new_def small_post_def PostState_new_def timed_post_def)

lemma small_FindOrAddRequest:
  assumes "small_post post" "\<And>req. small_request req \<Longrightarrow> small_request (f req)"
  shows "small_post (FindOrAddRequest ev f post)"
  using assms upd_entry_all [of "pst_requests post" "\<lambda>_. small_request" "te_reqid ev" RequestState_new f]
  by (simp add: FindOrAddRequest_def small_post_def)

lemma small_FindOrAddChunk:
  assumes "small_post post" "small_event ev" "\<And>c. small_chunk (te_chunk_idx ev) c \<Longrightarrow> small_chunk (te_chunk_idx ev) (f c)"
  shows "small_post (FindOrAddChunk ev f post)"
proof (cases "te_chunk_idx ev = kNoChunk")
  case False
  then have i: "te_chunk_idx ev < 199"
    using assms(2) by (simp add: small_event_def)
  have "small_request req \<Longrightarrow> small_request (req\<lparr>rst_chunks := upd_entry ChunkTimeline_new (te_chunk_idx ev) f (rst_chunks req)\<rparr>)" for req
    using upd_entry_all [of "rst_chunks req" small_chunk "te_chunk_idx ev" ChunkTimeline_new f] assms(3) i by (simp add: small_request_def)
  then show ?thesis
    using False assms(1) by (simp add: FindOrAddChunk_def small_FindOrAddRequest)
qed (simp add: FindOrAddChunk_def assms(1))

lemma small_RecordSendStage:
  assumes "small_post post" "small_event ev" "\<And>c. small_chunk (te_chunk_idx ev) c \<Longrightarrow> small_chunk (te_chunk_idx ev) (f c)"
  shows "small_post (RecordSendStage ev f post)"
  unfolding RecordSendStage_def
  by (rule small_FindOrAddChunk [OF assms(1,2)], rule assms(3)) (use assms(2) in \<open>simp add: small_chunk_iff small_event_def\<close>)

lemma small_set_post:
  assumes "small_post post" "\<And>t. timed_post (t\<lparr>pl_requests := []\<rparr>) \<Longrightarrow> timed_post ((f t)\<lparr>pl_requests := []\<rparr>)"
  shows "small_post (set_post f post)"
  using assms by (simp add: small_post_def set_post_def)

lemma small_process_stage:
  assumes "small_post post" "small_event ev"
  shows "small_post (process_stage s ev post)"
proof -
  have t: "unat (te_timestamp_us ev) < 2 ^ 45"
    using assms(2) by (simp add: small_event_def)
  show ?thesis
    using t by (cases s) (auto simp: assms(1) timed_post_def small_request_def small_chunk_iff
      intro!: small_set_post [OF assms(1)] small_FindOrAddRequest [OF assms(1)] small_FindOrAddChunk [OF assms] small_RecordSendStage [OF assms])
qed

lemma small_ProcessEvent: "small_post post \<Longrightarrow> small_event ev \<Longrightarrow> small_post (ProcessEvent ev post)"
  by (auto simp: ProcessEvent_def small_process_stage split: option.split)

lemma small_GroupEventsByHandle:
  assumes "\<forall>ev \<in> set events. small_event ev"
  shows "\<forall>(handle, post) \<in> set (GroupEventsByHandle events). small_post post"
proof -
  have "\<forall>ev \<in> set es. small_event ev \<Longrightarrow> \<forall>(handle, post) \<in> set posts. small_post post \<Longrightarrow> \<forall>(handle, post) \<in> set (fold (\<lambda>ev posts.
     if te_handle ev = kInvalidHandle \<or> te_timestamp_us ev = 0 then posts
     else upd_entry PostState_new (te_handle ev) (ProcessEvent ev) posts) es posts). small_post post" for es posts
  proof (induction es arbitrary: posts)
    case (Cons ev es)
    have "\<forall>(handle, post) \<in> set (upd_entry PostState_new (te_handle ev) (ProcessEvent ev) posts). small_post post"
      by (rule upd_entry_all [OF Cons.prems(2)]) (use Cons.prems(1) in \<open>simp_all add: small_ProcessEvent\<close>)
    then show ?case
      using Cons by simp
  qed simp
  from this [OF assms, of "[]"] show ?thesis
    by (simp add: GroupEventsByHandle_def)
qed

lemma timed_flatten_request: "small_request req \<Longrightarrow> timed_request (flatten_request reqid req)"
  by (auto simp: flatten_request_def small_request_def timed_request_def small_chunk_def Let_def)

lemma timed_Flatten: "small_post post \<Longrightarrow> timed_post (Flatten handle post)"
  by (auto simp: Flatten_def small_post_def timed_post_def timed_flatten_request)

section \<open>Number of slices\<close>

definition request_weight :: "RequestState \<Rightarrow> nat" where
  "request_weight req = 1 + 3 * length (rst_chunks req)"

definition post_weight :: "PostState \<Rightarrow> nat" where
  "post_weight post = (if t_entry_us (pst_timeline post) = 0 then 0 else 4) + sum_list (map (request_weight \<circ> snd) (pst_requests post))"

lemma weight_FindOrAddRequest:
  assumes "\<And>req. request_weight (f req) \<le> request_weight req + d"
  shows "post_weight (FindOrAddRequest ev f post) \<le> post_weight post + 1 + d"
  using upd_entry_sum [of request_weight f d RequestState_new "te_reqid ev" "pst_requests post"] assms
  by (simp add: FindOrAddRequest_def post_weight_def) (simp add: request_weight_def RequestState_new_def)

lemma weight_FindOrAddChunk: "post_weight (FindOrAddChunk ev f post) \<le> post_weight post + 4"
proof -
  have "request_weight (req\<lparr>rst_chunks := upd_entry ChunkTimeline_new (te_chunk_idx ev) f (rst_chunks req)\<rparr>) \<le> request_weight req + 3" for req
    using upd_entry_length [of ChunkTimeline_new "te_chunk_idx ev" f "rst_chunks req"] by (simp add: request_weight_def)
  from weight_FindOrAddRequest [OF this, of ev post] show ?thesis
    by (simp add: FindOrAddChunk_def)
qed

lemma weight_set_post: "post_weight (set_post f post) \<le> post_weight post + 4"
  by (simp add: set_post_def post_weight_def)

lemma weight_process_stage: "post_weight (process_stage s ev post) \<le> post_weight post + 4"
proof -
  have req: "post_weight (FindOrAddRequest ev f post) \<le> post_weight post + 4" if "\<And>req. rst_chunks (f req) = rst_chunks req" for f
    using weight_FindOrAddRequest [of f 0 ev post] that by (simp add: request_weight_def)
  show ?thesis
    by (cases s) (simp_all add: weight_set_post RecordSendStage_def weight_FindOrAddChunk req)
qed

lemma weight_ProcessEvent: "post_weight (ProcessEvent ev post) \<le> post_weight post + 4"
  by (simp add: ProcessEvent_def weight_process_stage split: option.split)

lemma weight_GroupEventsByHandle: "sum_list (map (post_weight \<circ> snd) (GroupEventsByHandle events)) \<le> 4 * length events"
proof -
  have new: "post_weight PostState_new = 0"
    by (simp add: post_weight_def PostState_new_def)
  have "sum_list (map (post_weight \<circ> snd) (fold (\<lambda>ev posts.
     if te_handle ev = kInvalidHandle \<or> te_timestamp_us ev = 0 then posts
     else upd_entry PostState_new (te_handle ev) (ProcessEvent ev) posts) es posts)) \<le> sum_list (map (post_weight \<circ> snd) posts) + 4 * length es" for es posts
  proof (induction es arbitrary: posts)
    case (Cons ev es)
    show ?case
      using Cons.IH [of posts] Cons.IH [of "upd_entry PostState_new (te_handle ev) (ProcessEvent ev) posts"]
        upd_entry_sum [of post_weight "ProcessEvent ev" 4 PostState_new "te_handle ev" posts] weight_ProcessEvent new by (simp add: comp_def)
  qed simp
  from this [of events "[]"] show ?thesis
    by (simp add: GroupEventsByHandle_def)
qed

lemma sum_list_insort_key: "sum_list (map f (insort_key k x xs)) = f x + sum_list (map f xs)" for f :: "'a \<Rightarrow> nat"
  by (induction xs) simp_all

lemma sum_list_sort_key: "sum_list (map f (sort_key k xs)) = sum_list (map f xs)" for f :: "'a \<Rightarrow> nat"
  by (induction xs) (simp_all add: sum_list_insort_key)

lemma cost_Flatten:
  assumes "t_entry_us (pst_timeline post) \<noteq> 0"
  shows "post_cost (Flatten handle post) = post_weight post"
proof -
  have "request_cost (flatten_request reqid req) = request_weight req" for reqid req
    by (simp add: request_cost_def flatten_request_def request_weight_def Let_def)
  then show ?thesis
    using assms by (simp add: post_cost_def Flatten_def post_weight_def sum_list_sort_key comp_def case_prod_beta)
qed

lemma AssembleTimelines_timed:
  assumes "\<forall>ev \<in> set events. small_event ev"
  shows "\<forall>post \<in> set (AssembleTimelines events). timed_post post"
  using small_GroupEventsByHandle [OF assms] by (auto simp: AssembleTimelines_def intro: timed_Flatten)

lemma AssembleTimelines_cost: "sum_list (map post_cost (AssembleTimelines events)) \<le> 4 * length events"
proof -
  let ?keep = "\<lambda>(handle :: u32, post). t_entry_us (pst_timeline post) \<noteq> 0"
  have "sum_list (map (\<lambda>(handle, post). post_cost (Flatten handle post)) (filter ?keep m)) \<le> sum_list (map (post_weight \<circ> snd) m)" for m
    by (induction m) (auto simp: cost_Flatten)
  from this [of "GroupEventsByHandle events"] show ?thesis
    using weight_GroupEventsByHandle [of events]
    by (simp add: AssembleTimelines_def sum_list_sort_key comp_def case_prod_unfold)
qed

section \<open>Slices and flows\<close>

text \<open>
  The arrow from \<^verbatim>\<open>Post()\<close> to the engine is added before the engine slice it should reach: at its end no engine slice emitted so far is open.
\<close>

lemma enqueue_flow_before_engine_slice:
  assumes "tidy L r" "timed_post post" "L + step_us < 2 ^ 64"
  shows "\<exists>name fid. last (slice_events (EmitEngineQueueWait post ts r)) = FlowEnd name fid kEngineTrack (engine_end_us (EmitEngineQueueWait post ts r))"
    and "\<forall>s \<in> set (spans kEngineTrack (slice_events (EmitEngineQueueWait post ts r))). snd s \<le> unat (engine_end_us (EmitEngineQueueWait post ts r))"
proof -
  show "\<exists>name fid. last (slice_events (EmitEngineQueueWait post ts r)) = FlowEnd name fid kEngineTrack (engine_end_us (EmitEngineQueueWait post ts r))"
    by (simp add: EmitEngineQueueWait_def emit_defs)
  show "\<forall>s \<in> set (spans kEngineTrack (slice_events (EmitEngineQueueWait post ts r))). snd s \<le> unat (engine_end_us (EmitEngineQueueWait post ts r))"
    using tidy_EmitEngineQueueWait [OF assms, of ts] unfolding tidy_def track_end_simps(2) [symmetric] by blast
qed

text \<open>What the helper exports fits the bound on the number of events.\<close>

lemma Snapshot_length: "length (TraceBuffer_Snapshot b) \<le> kCapacity"
proof -
  have "unat (min (write_idx b) (of_nat kCapacity)) \<le> kCapacity"
    by (simp add: unat_min kCapacity_def)
  then show ?thesis
    by (simp add: TraceBuffer_Snapshot_def Let_def)
qed

text \<open>
  C36. Slices on one track of an exported trace never partially overlap: for at most as many events as the ring buffer holds, recorded at
  times below $2^{45}$ us by workers below 200 and for chunks below 199, the exported document lists the metadata and the events of
  one renderer, and any two slices among them that are on one track are apart or nested. The 1 us clamps, the
  head-of-line shifts and the inferred receiver slices are included, and no end of a slice wraps.
\<close>

theorem slices_never_partially_overlap:
  assumes "length events \<le> kCapacity" "\<forall>ev \<in> set events. small_event ev"
    and "r = fold EmitPost (AssembleTimelines events) Renderer_new"
  shows "Export events self_endpoint = trace_document (BuildMetadataEvents self_endpoint r @ map event_text (slice_events r))
    \<and> (\<forall>tr. laminar (spans tr (slice_events r)))"
proof -
  have "sum_list (map post_cost (AssembleTimelines events)) \<le> 4 * 32768"
    using AssembleTimelines_cost [of events] assms(1) by (simp add: kCapacity_def)
  then have "sum_list (map post_cost (AssembleTimelines events)) * step_us < 2 ^ 64"
    by simp
  then have "tidy (sum_list (map post_cost (AssembleTimelines events)) * step_us) r"
    unfolding assms(3) by (rule tidy_rendering [OF AssembleTimelines_timed [OF assms(2)]])
  then show ?thesis
    by (simp add: tidy_laminar Export_def Render_def assms(3) [symmetric] Let_def)
qed

definition sample_event :: "TraceStage \<Rightarrow> u64 \<Rightarrow> TraceEvent" where
  "sample_event s t = \<lparr>te_timestamp_us = t, te_handle = 7, te_reqid = 0, te_stage = TraceStage_value s, te_metadata = 0, te_worker_id = 3,
     te_chunk_idx = kNoChunk, te_metric1 = 0, te_metric2 = 0\<rparr>"

definition sample_trace :: "TraceEvent list" where
  "sample_trace = [sample_event kPostEntry 100, sample_event kEngineEnqueued 102, sample_event kAllRequestsDone 130, sample_event kPollReaped 150]"

lemma upd_entry_simps:
  "upd_entry new k f [] = [(k, f new)]"
  "upd_entry new k f [(k, v)] = [(k, f v)]"
  by (simp_all add: upd_entry_def)

lemma ProcessEvent_stage: "te_stage ev = TraceStage_value s \<Longrightarrow> ProcessEvent ev post = process_stage s ev post"
  by (cases s) (simp_all add: ProcessEvent_def all_stages_def)

lemma sample_event_simps [simp]:
  "te_handle (sample_event s t) = 7"
  "te_timestamp_us (sample_event s t) = t"
  "te_worker_id (sample_event s t) = 3"
  "ProcessEvent (sample_event s t) post = process_stage s (sample_event s t) post"
  by (simp_all add: sample_event_def ProcessEvent_stage)

lemma sample_timelines:
  "AssembleTimelines sample_trace = [\<lparr>pl_handle = 7, t_entry_us = 100, t_enqueued_us = 102, t_conn_start_us = 0, t_host_info_done_us = 0,
     t_conn_done_us = 0, num_channels = 0, t_all_done_us = 130, all_done_worker_id = 3, t_completed_us = 150, completion_mode = kPoll,
     pl_requests = []\<rparr>]"
proof -
  have "GroupEventsByHandle sample_trace = [(7, \<lparr>pst_timeline = \<lparr>pl_handle = 0, t_entry_us = 100, t_enqueued_us = 102, t_conn_start_us = 0,
     t_host_info_done_us = 0, t_conn_done_us = 0, num_channels = 0, t_all_done_us = 130, all_done_worker_id = 3, t_completed_us = 150,
     completion_mode = kPoll, pl_requests = []\<rparr>, pst_requests = []\<rparr>)]"
    by (simp add: GroupEventsByHandle_def sample_trace_def upd_entry_simps kInvalidHandle_def set_post_def PostState_new_def IsEarliest_def)
  then show ?thesis
    by (simp add: AssembleTimelines_def Flatten_def)
qed

lemma sample_spans:
  "spans kCallerTrack (slice_events (fold EmitPost (AssembleTimelines sample_trace) Renderer_new)) = [(100, 102), (130, 150), (150, 151)]"
proof -
  have [simp]: "kEngineTrack \<noteq> kCallerTrack"
    by (simp add: kCallerTrack_def kEngineTrack_def)
  obtain post where post: "AssembleTimelines sample_trace = [post]" and f: "t_entry_us post = 100" "t_enqueued_us post = 102"
    "t_conn_start_us post = 0" "t_conn_done_us post = 0" "t_all_done_us post = 130" "t_completed_us post = 150" "completion_mode post = kPoll"
    "pl_requests post = []"
    by (simp add: sample_timelines)
  note dur = ClampedElapsed_def ClampSliceDur_def Elapsed_def
  obtain ts r1 where 1: "EmitPostEnqueue post Renderer_new = (ts, r1)"
    by fastforce
  then have r1: "spans kCallerTrack (slice_events r1) = [(100, 102)]" "caller_end_us r1 = 102" "ack_end_us r1 = []"
    by (auto simp: EmitPostEnqueue_def emit_defs f dur Renderer_new_def)
  define r2 where "r2 = EmitEngineQueueWait post ts r1"
  have r2: "spans kCallerTrack (slice_events r2) = [(100, 102)]" "caller_end_us r2 = 102" "ack_end_us r2 = []"
    using r1 by (simp_all add: r2_def EmitEngineQueueWait_def emit_defs split: if_split)
  have "spans kCallerTrack (slice_events (EmitCompletion post r2)) = [(100, 102), (130, 150), (150, 151)]"
    using r2 by (simp add: EmitCompletion_def emit_defs f dur end_at_def)
  then show ?thesis
    by (simp add: post EmitPost_def 1 r2_def [symmetric] EmitConnSetup_def f)
qed

theorem slices_never_partially_overlap_witness:
  "length sample_trace \<le> kCapacity \<and> list_all small_event sample_trace \<and> (\<exists>r.
     Export sample_trace [] = trace_document (BuildMetadataEvents [] r @ map event_text (slice_events r)) \<and> (\<forall>tr. laminar (spans tr (slice_events r))) \<and>
     spans kCallerTrack (slice_events r) = [(100, 102), (130, 150), (150, 151)])"
proof -
  have h: "length sample_trace \<le> kCapacity" "\<forall>ev \<in> set sample_trace. small_event ev"
    by (simp_all add: sample_trace_def kCapacity_def small_event_def) (simp_all add: sample_event_def)
  show ?thesis
    using h slices_never_partially_overlap [OF h refl, of "[]"] sample_spans unfolding list_all_iff by blast
qed

end
